(* ===== verification/Prelude.thy ===== *)
theory Prelude
  imports Complex_Main "HOL-Library.Multiset"
begin

text \<open>
  What the components share: the C integer conversions the code relies on
  (\<open>unsigned long\<close> and \<open>time_t\<close>, both 64 bits wide), the truncation of a
  \<open>double\<close> to \<open>time_t\<close>, end-of-list pointers, and insertion into a list
  kept sorted by a key, with the facts that make a series of insertions a stable sort.
\<close>

named_theorems frame_simps \<open>what an operation leaves unchanged\<close>

section \<open>Machine integers of the engine\<close>

definition ulong_of :: "int \<Rightarrow> int" where
  "ulong_of x = x mod 2 ^ 64"

definition time_t_of :: "int \<Rightarrow> int" where
  "time_t_of x = (x + 2 ^ 63) mod 2 ^ 64 - 2 ^ 63"

definition valid_time :: "int \<Rightarrow> bool" where
  "valid_time x \<longleftrightarrow> - (2 ^ 63) \<le> x \<and> x < 2 ^ 63"

definition trunc_to_time :: "rat \<Rightarrow> int" where
  "trunc_to_time x = (if 0 \<le> x then \<lfloor>x\<rfloor> else \<lceil>x\<rceil>)"

lemma ulong_of_id [simp]: "0 \<le> x \<Longrightarrow> x < 2 ^ 64 \<Longrightarrow> ulong_of x = x"
  by (simp add: ulong_of_def)

lemma ulong_of_bounds [simp]: "0 \<le> ulong_of x" "ulong_of x < 2 ^ 64"
  by (simp_all add: ulong_of_def)

lemma time_t_of_id [simp]: "valid_time x \<Longrightarrow> time_t_of x = x"
  by (simp add: time_t_of_def valid_time_def)

lemma valid_time_time_t_of [simp]: "valid_time (time_t_of x)"
proof -
  let ?m = "(x + 2 ^ 63) mod (2 ^ 64 :: int)"
  have "0 \<le> ?m" "?m < 2 ^ 64" by simp_all
  then show ?thesis
    unfolding valid_time_def time_t_of_def by simp
qed

lemma trunc_to_time_of_int [simp]: "trunc_to_time (of_int n) = n"
  by (simp add: trunc_to_time_def)

lemma trunc_to_time_nonneg: "0 \<le> x \<Longrightarrow> 0 \<le> trunc_to_time x"
  by (simp add: trunc_to_time_def)

lemma trunc_to_time_mono:
  assumes "x \<le> y"
  shows "trunc_to_time x \<le> trunc_to_time y"
proof (cases "0 \<le> x \<or> \<not> 0 \<le> y")
  case True
  with assms show ?thesis
    by (auto simp: trunc_to_time_def intro: floor_mono ceiling_mono)
next
  case False
  then have "\<lceil>x\<rceil> \<le> 0" "0 \<le> \<lfloor>y\<rfloor>" by (simp_all add: ceiling_le_iff)
  then have "\<lceil>x\<rceil> \<le> \<lfloor>y\<rfloor>" by linarith
  with False show ?thesis by (simp add: trunc_to_time_def)
qed

section \<open>Ends of lists\<close>

definition hd_opt :: "'a list \<Rightarrow> 'a option" where
  "hd_opt xs = (case xs of [] \<Rightarrow> None | x # _ \<Rightarrow> Some x)"

lemma hd_opt_simps [simp]: "hd_opt [] = None" "hd_opt (x # xs) = Some x"
  by (simp_all add: hd_opt_def)

lemma hd_opt_eq_None [simp]: "hd_opt xs = None \<longleftrightarrow> xs = []"
  by (cases xs) simp_all

lemma hd_opt_append [simp]: "hd_opt (xs @ ys) = (if xs = [] then hd_opt ys else hd_opt xs)"
  by (cases xs) simp_all

lemma hd_opt_in_set: "hd_opt xs = Some x \<Longrightarrow> x \<in> set xs"
  by (cases xs) simp_all

section \<open>Insertion by key, after every equal key\<close>

text \<open>
  \<open>insert_after\<close> walks the list from its end and puts the new element after the last
  one whose key is not larger; \<open>insert_key_at\<close> is the reference definition on a
  sorted list.
\<close>

fun insert_rev :: "('a \<Rightarrow> int) \<Rightarrow> 'a \<Rightarrow> 'a list \<Rightarrow> 'a list" where
  "insert_rev k e [] = [e]"
| "insert_rev k e (t # ts) = (if k t \<le> k e then e # t # ts else t # insert_rev k e ts)"

definition insert_after :: "('a \<Rightarrow> int) \<Rightarrow> 'a \<Rightarrow> 'a list \<Rightarrow> 'a list" where
  "insert_after k e xs = rev (insert_rev k e (rev xs))"

lemma insert_after_Nil [simp]: "insert_after k e [] = [e]"
  by (simp add: insert_after_def)

lemma insert_after_snoc:
  "insert_after k e (xs @ [t]) = (if k t \<le> k e then xs @ [t, e] else insert_after k e xs @ [t])"
  by (simp add: insert_after_def)

lemma insert_after_not_Nil [simp]: "insert_after k e xs \<noteq> []"
  by (induction xs rule: rev_induct) (simp_all add: insert_after_snoc)

lemma set_insert_after [simp]: "set (insert_after k e xs) = insert e (set xs)"
  by (induction xs rule: rev_induct) (auto simp: insert_after_snoc)

lemma length_insert_after [simp]: "length (insert_after k e xs) = Suc (length xs)"
  by (induction xs rule: rev_induct) (simp_all add: insert_after_snoc)

lemma distinct_insert_after:
  "distinct (insert_after k e xs) \<longleftrightarrow> e \<notin> set xs \<and> distinct xs"
  by (induction xs rule: rev_induct) (auto simp: insert_after_snoc)

lemma insert_after_all_le:
  "\<forall>x\<in>set xs. k x \<le> k e \<Longrightarrow> insert_after k e xs = xs @ [e]"
  by (cases xs rule: rev_cases) (auto simp: insert_after_snoc)

lemma insert_after_all_gt:
  "\<forall>x\<in>set xs. k e < k x \<Longrightarrow> insert_after k e xs = e # xs"
  by (induction xs rule: rev_induct) (auto simp: insert_after_snoc)

lemma insert_after_append_gt:
  "\<forall>x\<in>set ys. k e < k x \<Longrightarrow> insert_after k e (xs @ ys) = insert_after k e xs @ ys"
proof (induction ys rule: rev_induct)
  case (snoc y ys)
  then show ?case by (simp add: insert_after_snoc flip: append_assoc)
qed simp

lemma sorted_insert_after:
  "sorted (map k xs) \<Longrightarrow> sorted (map k (insert_after k e xs))"
  by (induction xs rule: rev_induct) (auto simp: insert_after_snoc sorted_append)

lemma insert_after_cong:
  "k e = k' e \<Longrightarrow> (\<And>x. x \<in> set xs \<Longrightarrow> k x = k' x) \<Longrightarrow> insert_after k e xs = insert_after k' e xs"
  by (induction xs rule: rev_induct) (auto simp: insert_after_snoc)

lemma insert_after_class:
  "filter (\<lambda>x. k x = c) (insert_after k e xs) =
     (if k e = c then filter (\<lambda>x. k x = c) xs @ [e] else filter (\<lambda>x. k x = c) xs)"
  if "sorted (map k xs)"
  using that
  by (induction xs rule: rev_induct) (auto simp: insert_after_snoc sorted_append filter_empty_conv)

lemma mset_insert_after [simp]: "mset (insert_after k e xs) = add_mset e (mset xs)"
  by (induction xs rule: rev_induct) (simp_all add: insert_after_snoc)

text \<open>Inserting the elements of a list one after the other is the library's stable sort.\<close>

definition insert_all :: "('a \<Rightarrow> int) \<Rightarrow> 'a list \<Rightarrow> 'a list \<Rightarrow> 'a list" where
  "insert_all k es xs = foldl (\<lambda>acc e. insert_after k e acc) xs es"

lemma insert_all_simps [simp]:
  "insert_all k [] xs = xs"
  "insert_all k (e # es) xs = insert_all k es (insert_after k e xs)"
  by (simp_all add: insert_all_def)

lemma mset_insert_all [simp]: "mset (insert_all k es xs) = mset es + mset xs"
  by (induction es arbitrary: xs) simp_all

lemma sorted_insert_all: "sorted (map k xs) \<Longrightarrow> sorted (map k (insert_all k es xs))"
  by (induction es arbitrary: xs) (simp_all add: sorted_insert_after)

lemma insert_all_class:
  "sorted (map k xs) \<Longrightarrow>
   filter (\<lambda>x. k x = c) (insert_all k es xs) =
     filter (\<lambda>x. k x = c) xs @ filter (\<lambda>x. k x = c) es"
  by (induction es arbitrary: xs) (simp_all add: sorted_insert_after insert_after_class)

lemma insert_all_sort_key: "insert_all k es [] = sort_key k es"
proof (rule sym, rule properties_for_sort_key)
  show "mset (insert_all k es []) = mset es" by simp
  show "\<And>x. x \<in> set (insert_all k es []) \<Longrightarrow>
      filter (\<lambda>y. k x = k y) (insert_all k es []) = filter (\<lambda>y. k x = k y) es"
    using insert_all_class [of k "[]" _ es] by (simp add: eq_commute)
  show "sorted (map k (insert_all k es []))" by (rule sorted_insert_all) simp
qed

lemma insort_key_cong:
  "f x = g x \<Longrightarrow> (\<And>y. y \<in> set ys \<Longrightarrow> f y = g y) \<Longrightarrow> insort_key f x ys = insort_key g x ys"
  by (induction ys) auto

lemma sort_key_cong:
  "(\<And>x. x \<in> set xs \<Longrightarrow> f x = g x) \<Longrightarrow> sort_key f xs = sort_key g xs"
proof (induction xs)
  case (Cons x xs)
  then have "sort_key f xs = sort_key g xs" by simp
  moreover have "insort_key f x (sort_key g xs) = insort_key g x (sort_key g xs)"
    using Cons.prems by (intro insort_key_cong) auto
  ultimately show ?case by simp
qed simp

end
