(* ===== verification/Event_Heap.thy ===== *)
theory Event_Heap
  imports Prelude
begin

text \<open>
  The timed events of \<^verbatim>\<open>src/events/timed_event.cc\<close> as the code holds them: records
  in a store, linked through \<open>ev_next\<close> and \<open>ev_prev\<close> into two lists (high and
  low priority), each with a head and a tail pointer, beside the index
  \<open>quick_timed_event\<close> of \<^verbatim>\<open>src/events/hash_timed_event.cc\<close>. A loop over the
  pointers is a \<^theory_text>\<open>partial_function\<close>: \<open>None\<close> is a loop that does not end.
  The lemmas show that on well formed lists every operation returns and does to the list
  of addresses what \<open>insert_after\<close> and \<open>remove1\<close> do.
\<close>

section \<open>The store\<close>

type_synonym addr = nat
type_synonym host_id = string
type_synonym svc_id = "string \<times> string"

datatype priority = Low | High

datatype hash_type = Hash_service_check | Hash_host_check
  | Hash_expire_service_ack | Hash_expire_host_ack

text \<open>What \<open>event_data\<close> points to: a host, a service, an allocated identifier, or
  a value the handlers cast back from the pointer.\<close>

datatype edata = HostPtr host_id | ServicePtr svc_id | IdPtr addr nat | RawPtr nat

record timed_event =
  event_type :: nat
  run_time :: int
  recurring :: bool
  event_interval :: nat
  compensate_for_time_change :: bool
  timing_func :: "addr option"
  event_data :: "edata option"
  event_args :: "addr option"
  event_options :: int
  ev_next :: "addr option"
  ev_prev :: "addr option"

datatype neb_timed_event = NEB_timed_add | NEB_timed_remove | NEB_timed_execute

record evstore =
  heap :: "addr \<Rightarrow> timed_event"
  list_head :: "priority \<Rightarrow> addr option"
  list_tail :: "priority \<Rightarrow> addr option"
  hevent :: "hash_type \<Rightarrow> priority \<Rightarrow> (edata \<rightharpoonup> addr)"
  timed_trace :: "(neb_timed_event \<times> addr option) list"

abbreviation rt :: "evstore \<Rightarrow> addr \<Rightarrow> int" where
  "rt s a \<equiv> run_time (heap s a)"

definition set_next :: "addr \<Rightarrow> addr option \<Rightarrow> evstore \<Rightarrow> evstore" where
  "set_next a v s = s\<lparr>heap := (heap s)(a := (heap s a)\<lparr>ev_next := v\<rparr>)\<rparr>"

definition set_prev :: "addr \<Rightarrow> addr option \<Rightarrow> evstore \<Rightarrow> evstore" where
  "set_prev a v s = s\<lparr>heap := (heap s)(a := (heap s a)\<lparr>ev_prev := v\<rparr>)\<rparr>"

definition set_head :: "priority \<Rightarrow> addr option \<Rightarrow> evstore \<Rightarrow> evstore" where
  "set_head p v s = s\<lparr>list_head := (list_head s)(p := v)\<rparr>"

definition set_tail :: "priority \<Rightarrow> addr option \<Rightarrow> evstore \<Rightarrow> evstore" where
  "set_tail p v s = s\<lparr>list_tail := (list_tail s)(p := v)\<rparr>"

definition broker_timed_event :: "neb_timed_event \<Rightarrow> addr option \<Rightarrow> evstore \<Rightarrow> evstore" where
  "broker_timed_event n e s = s\<lparr>timed_trace := timed_trace s @ [(n, e)]\<rparr>"

lemmas store_defs = set_next_def set_prev_def set_head_def set_tail_def broker_timed_event_def

section \<open>The index: hash_timed_event\<close>

definition EVENT_SERVICE_CHECK :: nat where "EVENT_SERVICE_CHECK = 0"
definition EVENT_HOST_CHECK :: nat where "EVENT_HOST_CHECK = 12"
definition EVENT_EXPIRE_HOST_ACK :: nat where "EVENT_EXPIRE_HOST_ACK = 16"
definition EVENT_EXPIRE_SERVICE_ACK :: nat where "EVENT_EXPIRE_SERVICE_ACK = 17"

lemmas event_type_defs = EVENT_SERVICE_CHECK_def EVENT_HOST_CHECK_def
  EVENT_EXPIRE_HOST_ACK_def EVENT_EXPIRE_SERVICE_ACK_def

text \<open>The \<open>switch\<close> on the event type that \<open>insert\<close> and \<open>erase\<close> share.\<close>

definition hash_type_of :: "nat \<Rightarrow> hash_type option" where
  "hash_type_of ty =
     (if ty = EVENT_SERVICE_CHECK then Some Hash_service_check
      else if ty = EVENT_HOST_CHECK then Some Hash_host_check
      else if ty = EVENT_EXPIRE_SERVICE_ACK then Some Hash_expire_service_ack
      else if ty = EVENT_EXPIRE_HOST_ACK then Some Hash_expire_host_ack
      else None)"

definition hash_insert :: "priority \<Rightarrow> addr \<Rightarrow> evstore \<Rightarrow> evstore" where
  "hash_insert p e s =
     (case (event_data (heap s e), hash_type_of (event_type (heap s e))) of
        (Some d, Some t) \<Rightarrow>
          s\<lparr>hevent := (hevent s)(t := (hevent s t)(p := (hevent s t p)(d \<mapsto> e)))\<rparr>
      | _ \<Rightarrow> s)"

definition hash_erase :: "priority \<Rightarrow> addr \<Rightarrow> evstore \<Rightarrow> evstore" where
  "hash_erase p e s =
     (case (event_data (heap s e), hash_type_of (event_type (heap s e))) of
        (Some d, Some t) \<Rightarrow>
          s\<lparr>hevent := (hevent s)(t := (hevent s t)(p := (hevent s t p)(d := None)))\<rparr>
      | _ \<Rightarrow> s)"

definition hash_clear :: "priority \<Rightarrow> evstore \<Rightarrow> evstore" where
  "hash_clear p s = s\<lparr>hevent := (\<lambda>t. (hevent s t)(p := Map.empty))\<rparr>"

definition hash_find :: "priority \<Rightarrow> hash_type \<Rightarrow> edata \<Rightarrow> evstore \<Rightarrow> addr option" where
  "hash_find p t d s = hevent s t p d"

section \<open>The list operations of timed_event.cc\<close>

text \<open>The loop of \<open>add_event\<close>, from the tail backwards.\<close>

partial_function (option) insert_from_tail ::
    "priority \<Rightarrow> addr \<Rightarrow> addr option \<Rightarrow> evstore \<Rightarrow> evstore option" where
  "insert_from_tail p e tmp s =
     (case tmp of
        None \<Rightarrow> Some s
      | Some t \<Rightarrow>
          if rt s t \<le> rt s e
          then let s1 = set_next e (ev_next (heap s t)) s;
                   s2 = set_prev e (Some t) s1;
                   s3 = set_next t (Some e) s2
               in Some (case ev_next (heap s3 e) of
                          None \<Rightarrow> set_tail p (Some e) s3
                        | Some n \<Rightarrow> set_prev n (Some e) s3)
          else case ev_prev (heap s t) of
                 None \<Rightarrow> Some (set_head p (Some e) (set_next e (Some t) (set_prev t (Some e) s)))
               | Some t' \<Rightarrow> insert_from_tail p e (Some t') s)"

definition add_event :: "addr \<Rightarrow> priority \<Rightarrow> evstore \<Rightarrow> evstore option" where
  "add_event e p s =
     (let s1 = hash_insert p e (set_prev e None (set_next e None s));
          linked =
            (case list_head s1 p of
               None \<Rightarrow> Some (set_tail p (Some e) (set_head p (Some e) s1))
             | Some f \<Rightarrow>
                 if rt s1 e < rt s1 f
                 then Some (set_head p (Some e)
                             (set_next e (Some f) (set_prev f (Some e) (set_prev e None s1))))
                 else insert_from_tail p e (list_tail s1 p) s1)
      in map_option (broker_timed_event NEB_timed_add (Some e)) linked)"

partial_function (option) unlink_from ::
    "priority \<Rightarrow> addr \<Rightarrow> addr option \<Rightarrow> evstore \<Rightarrow> evstore option" where
  "unlink_from p e tmp s =
     (case tmp of
        None \<Rightarrow> Some s
      | Some t \<Rightarrow>
          if ev_next (heap s t) = Some e
          then let s1 = set_next t (ev_next (heap s e)) s;
                   s2 = (case ev_next (heap s1 t) of
                           None \<Rightarrow> set_tail p (Some t) s1
                         | Some n \<Rightarrow> set_prev n (Some t) s1)
               in Some (set_prev e None (set_next e None s2))
          else unlink_from p e (ev_next (heap s t)) s)"

text \<open>
  Which part of the index is cleaned is decided by comparing the heads of the lists, not
  their addresses.
\<close>

definition on_list_index :: "(priority \<Rightarrow> evstore \<Rightarrow> evstore) \<Rightarrow> priority \<Rightarrow> evstore \<Rightarrow> evstore" where
  "on_list_index f p s =
     (if list_head s p = list_head s Low then f Low s
      else if list_head s p = list_head s High then f High s
      else s)"

definition remove_event :: "addr option \<Rightarrow> priority \<Rightarrow> evstore \<Rightarrow> evstore option" where
  "remove_event event p s =
     (let s0 = broker_timed_event NEB_timed_remove event s in
      case (list_head s0 p, event) of
        (Some f, Some e) \<Rightarrow>
          let s1 = on_list_index (\<lambda>q. hash_erase q e) p s0 in
          if f = e
          then let s2 = set_prev e None s1;
                   s3 = set_head p (ev_next (heap s2 e)) s2
               in Some (case list_head s3 p of
                          None \<Rightarrow> set_tail p None s3
                        | Some f' \<Rightarrow> set_prev f' None s3)
          else unlink_from p e (list_head s1 p) s1
      | _ \<Rightarrow> Some s0)"

partial_function (option) readd_all ::
    "priority \<Rightarrow> addr option \<Rightarrow> evstore \<Rightarrow> evstore option" where
  "readd_all p tmp s =
     (case tmp of
        None \<Rightarrow> Some s
      | Some t \<Rightarrow>
          let next_event = ev_next (heap s t) in
          Option.bind (add_event t p (set_prev t None (set_next t None s)))
            (\<lambda>s'. readd_all p next_event s'))"

definition resort_event_list :: "priority \<Rightarrow> evstore \<Rightarrow> evstore option" where
  "resort_event_list p s =
     (let s1 = on_list_index hash_clear p s;
          temp_event_list = list_head s1 p
      in readd_all p temp_event_list (set_head p None s1))"

text \<open>
  The clock and the custom timing functions (function pointers stored in events by the
  callers of \<open>schedule\<close>) are the environment of rescheduling.
\<close>

definition next_run_time :: "(addr \<Rightarrow> int) \<Rightarrow> int \<Rightarrow> timed_event \<Rightarrow> int" where
  "next_run_time timing now ev =
     (if \<not> recurring ev then run_time ev
      else case timing_func ev of
             Some f \<Rightarrow> timing f
           | None \<Rightarrow>
               let r = time_t_of (run_time ev + int (event_interval ev))
               in if r < now then now else r)"

definition set_run_time :: "addr \<Rightarrow> int \<Rightarrow> evstore \<Rightarrow> evstore" where
  "set_run_time a t s = s\<lparr>heap := (heap s)(a := (heap s a)\<lparr>run_time := t\<rparr>)\<rparr>"

definition reschedule_event ::
    "(addr \<Rightarrow> int) \<Rightarrow> int \<Rightarrow> addr \<Rightarrow> priority \<Rightarrow> evstore \<Rightarrow> evstore option" where
  "reschedule_event timing now e p s =
     add_event e p (set_run_time e (next_run_time timing now (heap s e)) s)"

text \<open>\<open>schedule\<close>: the event is written to a freshly allocated address \<open>a\<close>.\<close>

definition schedule_event :: "addr \<Rightarrow> timed_event \<Rightarrow> bool \<Rightarrow> evstore \<Rightarrow> evstore option" where
  "schedule_event a evt high_priority s =
     (let s1 = s\<lparr>heap := (heap s)(a := evt)\<rparr>
      in add_event a (if high_priority then High else Low) s1)"

declare insert_from_tail.simps [code] unlink_from.simps [code] readd_all.simps [code]

section \<open>Well formed lists\<close>

fun dseg :: "(addr \<Rightarrow> timed_event) \<Rightarrow> addr option \<Rightarrow> addr list \<Rightarrow> addr option \<Rightarrow> bool" where
  "dseg h p [] n \<longleftrightarrow> True"
| "dseg h p (x # xs) n \<longleftrightarrow>
     ev_prev (h x) = p \<and> ev_next (h x) = (if xs = [] then n else hd_opt xs) \<and>
     dseg h (Some x) xs n"

definition dll :: "evstore \<Rightarrow> priority \<Rightarrow> addr list \<Rightarrow> bool" where
  "dll s p xs \<longleftrightarrow> distinct xs \<and> dseg (heap s) None xs None \<and> list_head s p = hd_opt xs \<and>
     (xs \<noteq> [] \<longrightarrow> list_tail s p = Some (last xs))"

lemma dseg_append:
  "dseg h p (xs @ ys) n \<longleftrightarrow>
     dseg h p xs (if ys = [] then n else hd_opt ys) \<and>
     dseg h (if xs = [] then p else Some (last xs)) ys n"
  by (induction xs arbitrary: p) auto

lemma dseg_cong:
  "(\<And>x. x \<in> set xs \<Longrightarrow> ev_prev (h x) = ev_prev (h' x) \<and> ev_next (h x) = ev_next (h' x)) \<Longrightarrow>
   dseg h p xs n = dseg h' p xs n"
  by (induction xs arbitrary: p) auto

lemma dseg_upd_other [simp]:
  "a \<notin> set xs \<Longrightarrow> dseg (h(a := v)) p xs n = dseg h p xs n"
  by (rule dseg_cong) auto

text \<open>The part of an event that linking does not touch.\<close>

definition payload :: "timed_event \<Rightarrow> timed_event" where
  "payload ev = ev\<lparr>ev_next := None, ev_prev := None\<rparr>"

lemma payload_simps [simp]:
  "payload (ev\<lparr>ev_next := v\<rparr>) = payload ev" "payload (ev\<lparr>ev_prev := v\<rparr>) = payload ev"
  by (simp_all add: payload_def)

lemma payload_eqD:
  assumes "payload x = payload y"
  shows "run_time x = run_time y" "event_type x = event_type y" "event_data x = event_data y"
    "recurring x = recurring y" "event_interval x = event_interval y"
    "timing_func x = timing_func y"
    "compensate_for_time_change x = compensate_for_time_change y"
proof -
  have "run_time (payload x) = run_time x" "event_type (payload x) = event_type x"
    "event_data (payload x) = event_data x" "recurring (payload x) = recurring x"
    "event_interval (payload x) = event_interval x" "timing_func (payload x) = timing_func x"
    "compensate_for_time_change (payload x) = compensate_for_time_change x" for x
    by (simp_all add: payload_def)
  with assms show "run_time x = run_time y" "event_type x = event_type y"
    "event_data x = event_data y" "recurring x = recurring y"
    "event_interval x = event_interval y" "timing_func x = timing_func y"
    "compensate_for_time_change x = compensate_for_time_change y"
    by metis+
qed

text \<open>
  The frame of a list operation on the list \<open>p\<close> that may relink the events of \<open>A\<close>.
\<close>

definition ev_frame :: "priority \<Rightarrow> addr set \<Rightarrow> evstore \<Rightarrow> evstore \<Rightarrow> bool" where
  "ev_frame p A s s' \<longleftrightarrow>
     (\<forall>a. payload (heap s' a) = payload (heap s a)) \<and>
     (\<forall>a. a \<notin> A \<longrightarrow> heap s' a = heap s a) \<and>
     (\<forall>q. q \<noteq> p \<longrightarrow> list_head s' q = list_head s q \<and> list_tail s' q = list_tail s q)"

lemma ev_frame_refl [simp]: "ev_frame p A s s"
  by (simp add: ev_frame_def)

lemma ev_frame_trans [trans]:
  "ev_frame p A s s' \<Longrightarrow> ev_frame p A s' s'' \<Longrightarrow> ev_frame p A s s''"
  by (auto simp: ev_frame_def)

lemma ev_frame_mono: "ev_frame p A s s' \<Longrightarrow> A \<subseteq> B \<Longrightarrow> ev_frame p B s s'"
  by (auto simp: ev_frame_def)

lemma ev_frame_rt: "ev_frame p A s s' \<Longrightarrow> rt s' a = rt s a"
  by (auto simp: ev_frame_def dest: payload_eqD)

lemma ev_frame_dll:
  assumes "ev_frame p A s s'" "q \<noteq> p" "set xs \<inter> A = {}" "dll s q xs"
  shows "dll s' q xs"
proof -
  have "heap s' x = heap s x" if "x \<in> set xs" for x
    using assms(1,3) that by (auto simp: ev_frame_def)
  then have "dseg (heap s') None xs None = dseg (heap s) None xs None"
    by (intro dseg_cong) auto
  with assms show ?thesis by (auto simp: dll_def ev_frame_def)
qed

lemma heap_frame_simps [simp]:
  "heap (hash_insert p e s) = heap s" "heap (hash_erase p e s) = heap s"
  "heap (hash_clear p s) = heap s" "heap (broker_timed_event n x s) = heap s"
  "heap (set_head p v s) = heap s" "heap (set_tail p v s) = heap s"
  by (simp_all add: hash_insert_def hash_erase_def hash_clear_def store_defs split: option.splits)

lemma head_frame_simps [simp]:
  "list_head (hash_insert p e s) = list_head s" "list_head (hash_erase p e s) = list_head s"
  "list_head (hash_clear p s) = list_head s" "list_head (broker_timed_event n x s) = list_head s"
  "list_head (set_tail p v s) = list_head s" "list_head (set_next a v s) = list_head s"
  "list_head (set_prev a v s) = list_head s"
  "list_tail (hash_insert p e s) = list_tail s" "list_tail (hash_erase p e s) = list_tail s"
  "list_tail (hash_clear p s) = list_tail s" "list_tail (broker_timed_event n x s) = list_tail s"
  "list_tail (set_head p v s) = list_tail s" "list_tail (set_next a v s) = list_tail s"
  "list_tail (set_prev a v s) = list_tail s"
  "list_head (set_head p v s) = (list_head s)(p := v)"
  "list_tail (set_tail p v s) = (list_tail s)(p := v)"
  by (simp_all add: hash_insert_def hash_erase_def hash_clear_def store_defs split: option.splits)

lemma heap_set_simps [simp]:
  "heap (set_next a v s) = (heap s)(a := (heap s a)\<lparr>ev_next := v\<rparr>)"
  "heap (set_prev a v s) = (heap s)(a := (heap s a)\<lparr>ev_prev := v\<rparr>)"
  by (simp_all add: store_defs)

lemma on_list_index_frame [simp]:
  assumes "\<And>q s. heap (f q s) = heap s" "\<And>q s. list_head (f q s) = list_head s"
    "\<And>q s. list_tail (f q s) = list_tail s"
  shows "heap (on_list_index f p s) = heap s"
    "list_head (on_list_index f p s) = list_head s"
    "list_tail (on_list_index f p s) = list_tail s"
  using assms by (simp_all add: on_list_index_def)

section \<open>add_event implements sorted insertion\<close>

lemma insert_from_tail_implements:
  assumes "dll s p (xs @ [t] @ bs)" "e \<notin> set (xs @ [t] @ bs)"
    "\<forall>b\<in>set bs. rt s e < rt s b" "ev_next (heap s e) = None" "ev_prev (heap s e) = None"
  shows "\<exists>s'. insert_from_tail p e (Some t) s = Some s' \<and>
     dll s' p (insert_after (rt s) e (xs @ [t]) @ bs) \<and>
     ev_frame p (insert e (set (xs @ [t] @ bs))) s s' \<and> hevent s' = hevent s"
  using assms
proof (induction xs arbitrary: t bs rule: rev_induct)
  case Nil
  have hd: "list_head s p = Some t" and nt: "ev_next (heap s t) = hd_opt bs"
    and pt: "ev_prev (heap s t) = None" and bs: "dseg (heap s) (Some t) bs None"
    and dis: "distinct (t # bs)"
    using Nil.prems(1) by (auto simp: dll_def)
  show ?case
  proof (cases "rt s t \<le> rt s e")
    case True
    then show ?thesis
      using Nil.prems nt pt bs dis
      by (cases bs)
        (auto simp: insert_from_tail.simps [of p e "Some t"] Let_def dll_def ev_frame_def
          insert_after_snoc [of _ _ "[]", simplified] hd store_defs)
  next
    case False
    then show ?thesis
      using Nil.prems nt pt bs dis
      by (cases bs)
        (auto simp: insert_from_tail.simps [of p e "Some t"] Let_def dll_def ev_frame_def
          insert_after_snoc [of _ _ "[]", simplified] hd store_defs)
  qed
next
  case (snoc t' xs)
  have links: "ev_prev (heap s t) = Some t'" "ev_next (heap s t) = hd_opt bs"
    using snoc.prems(1) by (auto simp: dll_def dseg_append)
  show ?case
  proof (cases "rt s t \<le> rt s e")
    case True
    then have "insert_after (rt s) e (xs @ [t', t]) = xs @ [t', t, e]"
      using insert_after_snoc [of "rt s" e "xs @ [t']" t] by simp
    with True show ?thesis
      using snoc.prems links
      by (cases bs)
        (auto simp: insert_from_tail.simps [of p e "Some t"] Let_def dll_def ev_frame_def
          dseg_append store_defs)
  next
    case False
    have "\<exists>s'. insert_from_tail p e (Some t') s = Some s' \<and>
        dll s' p (insert_after (rt s) e (xs @ [t']) @ t # bs) \<and>
        ev_frame p (insert e (set (xs @ [t'] @ t # bs))) s s' \<and> hevent s' = hevent s"
      using snoc.prems False by (intro snoc.IH) auto
    then show ?thesis
      using False links
      by (simp add: insert_from_tail.simps [of p e "Some t"] insert_after_snoc
          [of _ _ "xs @ [t']", simplified] insert_commute)
  qed
qed

definition insert_event :: "('a \<Rightarrow> int) \<Rightarrow> 'a \<Rightarrow> 'a list \<Rightarrow> 'a list" where
  "insert_event k e xs =
     (case xs of [] \<Rightarrow> [e] | x # _ \<Rightarrow> if k e < k x then e # xs else insert_after k e xs)"

lemma insert_event_sorted:
  assumes "sorted (map k xs)"
  shows "insert_event k e xs = insert_after k e xs"
proof (cases xs)
  case (Cons x ys)
  show ?thesis
  proof (cases "k e < k x")
    case True
    then have "\<forall>y\<in>set xs. k e < k y" using Cons assms by fastforce
    then have "insert_after k e xs = e # xs" by (rule insert_after_all_gt)
    with True Cons show ?thesis by (simp add: insert_event_def)
  next
    case False
    with Cons show ?thesis by (simp add: insert_event_def)
  qed
qed (simp add: insert_event_def)

lemma set_insert_event [simp]: "set (insert_event k e xs) = insert e (set xs)"
  by (auto simp: insert_event_def split: list.splits)

lemma add_event_implements:
  assumes "dll s p xs" "e \<notin> set xs"
  shows "\<exists>s'. add_event e p s = Some s' \<and> dll s' p (insert_event (rt s) e xs) \<and>
     ev_frame p (insert e (set xs)) s s' \<and> hevent s' = hevent (hash_insert p e s)"
proof -
  define s1 where "s1 = hash_insert p e (set_prev e None (set_next e None s))"
  have h1: "hevent s1 = hevent (hash_insert p e s)"
    by (auto simp: s1_def hash_insert_def store_defs split: option.splits)
  have d1: "dll s1 p xs"
    using assms by (auto simp: s1_def dll_def)
  have r1 [simp]: "\<And>a. rt s1 a = rt s a" and l1: "ev_next (heap s1 e) = None" "ev_prev (heap s1 e) = None"
    by (auto simp: s1_def)
  have f1: "ev_frame p (insert e (set xs)) s s1"
    by (auto simp: s1_def ev_frame_def)
  define L where "L = (case list_head s1 p of
               None \<Rightarrow> Some (set_tail p (Some e) (set_head p (Some e) s1))
             | Some f \<Rightarrow>
                 if rt s1 e < rt s1 f
                 then Some (set_head p (Some e)
                             (set_next e (Some f) (set_prev f (Some e) (set_prev e None s1))))
                 else insert_from_tail p e (list_tail s1 p) s1)"
  have add: "add_event e p s = map_option (broker_timed_event NEB_timed_add (Some e)) L"
    unfolding add_event_def L_def s1_def Let_def ..
  have "\<exists>s2. L = Some s2 \<and>
      dll s2 p (insert_event (rt s) e xs) \<and> ev_frame p (insert e (set xs)) s1 s2 \<and>
      hevent s2 = hevent s1"
  proof (cases xs rule: rev_cases)
    case Nil
    then have h: "list_head s1 p = None" using d1 by (simp add: dll_def)
    show ?thesis
      by (simp add: L_def h dll_def Nil insert_event_def l1 ev_frame_def)
        (simp add: store_defs)
  next
    case (snoc ys t)
    then obtain f fs where xs: "xs = f # fs"
      by (metis append_is_Nil_conv list.exhaust list.distinct(1))
    have "last xs = t" using snoc by simp
    with d1 have h: "list_head s1 p = Some f" "list_tail s1 p = Some t"
      using xs by (auto simp: dll_def)
    show ?thesis
    proof (cases "rt s e < rt s f")
      case True
      then show ?thesis
        using d1 xs assms(2) l1
        by (auto simp: L_def h dll_def insert_event_def ev_frame_def store_defs)
    next
      case False
      then have ins: "insert_event (rt s) e xs = insert_after (rt s) e xs"
        using xs by (simp add: insert_event_def)
      obtain s2 where "insert_from_tail p e (Some t) s1 = Some s2"
        "dll s2 p (insert_after (rt s1) e (ys @ [t]) @ [])"
        "ev_frame p (insert e (set (ys @ [t] @ []))) s1 s2" "hevent s2 = hevent s1"
        using insert_from_tail_implements [of s1 p ys t "[]" e] d1 assms(2) snoc l1 by auto
      then show ?thesis
        using False h snoc ins by (auto simp: L_def)
    qed
  qed
  then obtain s2 where s2: "L = Some s2"
      "dll s2 p (insert_event (rt s) e xs)" "ev_frame p (insert e (set xs)) s1 s2"
      "hevent s2 = hevent s1"
    by blast
  let ?s3 = "broker_timed_event NEB_timed_add (Some e) s2"
  have "add_event e p s = Some ?s3" using s2(1) add by simp
  moreover have "dll ?s3 p (insert_event (rt s) e xs)" using s2(2) by (simp add: dll_def)
  moreover have "ev_frame p (insert e (set xs)) s ?s3"
    using ev_frame_trans [OF f1 s2(3)] by (simp add: ev_frame_def)
  moreover have "hevent ?s3 = hevent (hash_insert p e s)"
    using s2(4) h1 by (simp add: store_defs)
  ultimately show ?thesis by blast
qed

section \<open>remove_event implements deletion\<close>

lemma unlink_from_found:
  assumes "dll s p (xs @ cs @ [t, e] @ bs)"
  shows "\<exists>s'. unlink_from p e (hd_opt (cs @ [t])) s = Some s' \<and> dll s' p (xs @ cs @ [t] @ bs) \<and>
     ev_frame p (set (t # e # bs)) s s' \<and> hevent s' = hevent s"
  using assms
proof (induction cs arbitrary: xs)
  case Nil
  then show ?case
    by (cases bs)
      (auto simp: unlink_from.simps [of p e "Some t"] Let_def dll_def ev_frame_def dseg_append
        store_defs)
next
  case (Cons c cs)
  have c: "ev_next (heap s c) = hd_opt (cs @ [t])" "c \<noteq> e" "e \<notin> set (cs @ [t])"
    using Cons.prems by (cases cs; auto simp: dll_def dseg_append)+
  then have "hd_opt (cs @ [t]) \<noteq> Some e" by (metis hd_opt_in_set)
  moreover have "\<exists>s'. unlink_from p e (hd_opt (cs @ [t])) s = Some s' \<and>
      dll s' p ((xs @ [c]) @ cs @ [t] @ bs) \<and> ev_frame p (set (t # e # bs)) s s' \<and>
      hevent s' = hevent s"
    using Cons.prems by (intro Cons.IH) simp
  ultimately show ?case
    using c by (simp add: unlink_from.simps [of p e "Some c"])
qed

lemma unlink_from_absent:
  assumes "dseg (heap s) q cs None" "e \<notin> set cs"
  shows "unlink_from p e (hd_opt cs) s = Some s"
  using assms
proof (induction cs arbitrary: q)
  case Nil
  then show ?case by (simp add: unlink_from.simps)
next
  case (Cons c cs)
  have next_c: "ev_next (heap s c) = hd_opt cs" "hd_opt cs \<noteq> Some e"
    using Cons.prems by (cases cs; auto)+
  have "unlink_from p e (hd_opt cs) s = Some s"
    using Cons by (intro Cons.IH) auto
  with next_c show ?case by (simp add: unlink_from.simps [of p e "Some c"])
qed

lemma remove_event_implements:
  assumes "dll s p xs"
  shows "\<exists>s'. remove_event (Some e) p s = Some s' \<and> dll s' p (remove1 e xs) \<and>
     ev_frame p (insert e (set xs)) s s' \<and>
     hevent s' = (if xs = [] then hevent s
                  else hevent (on_list_index (\<lambda>q. hash_erase q e) p s))"
proof -
  define s0 where "s0 = broker_timed_event NEB_timed_remove (Some e) s"
  define s1 where "s1 = on_list_index (\<lambda>q. hash_erase q e) p s0"
  have same [simp]: "heap s1 = heap s" "list_head s1 = list_head s" "list_tail s1 = list_tail s"
    by (simp_all add: s1_def s0_def)
  have hs1: "hevent s1 = hevent (on_list_index (\<lambda>q. hash_erase q e) p s)"
    by (auto simp: s1_def s0_def on_list_index_def hash_erase_def store_defs split: option.splits)
  have d1: "dll s1 p xs" using assms by (simp add: dll_def)
  have fr: "ev_frame p A s s1" for A by (simp add: ev_frame_def)
  show ?thesis
  proof (cases xs)
    case Nil
    then have "remove_event (Some e) p s = Some s0"
      using assms by (simp add: remove_event_def s0_def dll_def)
    then show ?thesis
      using Nil assms by (simp add: s0_def dll_def ev_frame_def) (simp add: store_defs)
  next
    case (Cons f fs)
    then have hd: "list_head s p = Some f" using assms by (simp add: dll_def)
    show ?thesis
    proof (cases "f = e")
      case True
      have nxt: "ev_next (heap s e) = hd_opt fs"
        using assms Cons True by (cases fs) (auto simp: dll_def)
      have rem: "remove_event (Some e) p s =
          Some (case hd_opt fs of
                  None \<Rightarrow> set_tail p None (set_head p None (set_prev e None s1))
                | Some f' \<Rightarrow> set_prev f' None (set_head p (Some f') (set_prev e None s1)))"
        using True nxt hd unfolding remove_event_def s0_def [symmetric]
        by (simp add: Let_def nxt s1_def s0_def split: option.splits)
      show ?thesis
        using d1 Cons True
        by (cases fs) (auto simp: rem dll_def ev_frame_def hs1 [symmetric], auto simp: store_defs)
    next
      case False
      have rem: "remove_event (Some e) p s = unlink_from p e (Some f) s1"
        using hd False by (simp add: remove_event_def Let_def s1_def s0_def)
      show ?thesis
      proof (cases "e \<in> set fs")
        case True
        then obtain ys zs where fs: "fs = ys @ e # zs" by (auto dest: split_list)
        obtain cs t where ct: "f # ys = cs @ [t]" by (metis append_butlast_last_id list.distinct(1))
        have xs: "xs = [] @ cs @ [t, e] @ zs" using Cons fs ct by (metis Cons_eq_appendI append.assoc append_Cons append_Nil)
        have dis: "distinct xs" using assms by (simp add: dll_def)
        obtain s' where s': "unlink_from p e (hd_opt (cs @ [t])) s1 = Some s'"
          "dll s' p ([] @ cs @ [t] @ zs)" "ev_frame p (set (t # e # zs)) s1 s'" "hevent s' = hevent s1"
          using unlink_from_found [of s1 p "[]" cs t e zs] d1 xs by auto
        have "hd_opt (cs @ [t]) = Some f" using ct by (metis hd_opt_simps(2))
        moreover have "remove1 e xs = cs @ [t] @ zs"
          using xs dis by (auto simp: remove1_append)
        moreover have "ev_frame p (insert e (set xs)) s s'"
          using ev_frame_trans [OF fr [of "insert e (set xs)"] ev_frame_mono [OF s'(3)]] xs by auto
        ultimately show ?thesis using s' rem hs1 Cons by auto
      next
        case False': False
        have "unlink_from p e (hd_opt (f # fs)) s1 = Some s1"
          using d1 Cons False False' by (intro unlink_from_absent [of _ None]) (auto simp: dll_def)
        moreover have "remove1 e xs = xs" using Cons False False' by (simp add: remove1_idem)
        ultimately show ?thesis using rem d1 fr hs1 Cons by auto
      qed
    qed
  qed
qed

section \<open>resort_event_list is the stable sort\<close>

lemma readd_all_implements:
  assumes "dll s p xs" "dseg (heap s) q es None" "distinct es" "set es \<inter> set xs = {}"
  shows "\<exists>s'. readd_all p (hd_opt es) s = Some s' \<and>
     dll s' p (foldl (\<lambda>acc e. insert_event (rt s) e acc) xs es) \<and>
     ev_frame p (set es \<union> set xs) s s'"
  using assms
proof (induction es arbitrary: s xs q)
  case Nil
  then show ?case by (simp add: readd_all.simps)
next
  case (Cons e es)
  define s1 where "s1 = set_prev e None (set_next e None s)"
  have nxt: "ev_next (heap s e) = hd_opt es" using Cons.prems(2) by (cases es) auto
  have d1: "dll s1 p xs" and e: "e \<notin> set xs"
    using Cons.prems by (auto simp: s1_def dll_def)
  have r1: "rt s1 = rt s" by (auto simp: s1_def fun_eq_iff)
  obtain s2 where s2: "add_event e p s1 = Some s2" "dll s2 p (insert_event (rt s1) e xs)"
    "ev_frame p (insert e (set xs)) s1 s2"
    using add_event_implements [OF d1 e] by blast
  have f1: "ev_frame p (insert e (set xs)) s s1" by (auto simp: s1_def ev_frame_def)
  note f2 = ev_frame_trans [OF f1 s2(3)]
  have r2: "rt s2 = rt s" using ev_frame_rt [OF f2] by auto
  have "heap s2 x = heap s x" if "x \<in> set es" for x
    using f2 that Cons.prems(3,4) by (auto simp: ev_frame_def)
  then have "dseg (heap s2) (Some e) es None"
    using Cons.prems(2) dseg_cong [of es "heap s2" "heap s"] by auto
  moreover have "set es \<inter> set (insert_event (rt s1) e xs) = {}" "distinct es"
    using Cons.prems(3,4) by auto
  ultimately obtain s3 where s3: "readd_all p (hd_opt es) s2 = Some s3"
    "dll s3 p (foldl (\<lambda>acc e. insert_event (rt s2) e acc) (insert_event (rt s1) e xs) es)"
    "ev_frame p (set es \<union> set (insert_event (rt s1) e xs)) s2 s3"
    using Cons.IH [OF s2(2)] by blast
  have "ev_frame p (set (e # es) \<union> set xs) s s3"
    using ev_frame_trans [OF ev_frame_mono [OF f2] ev_frame_mono [OF s3(3)],
        of "set (e # es) \<union> set xs"] by auto
  moreover have "readd_all p (Some e) s = Some s3"
    using s2(1) s3(1) nxt by (simp add: readd_all.simps [of p "Some e"] Let_def s1_def)
  ultimately show ?case using s3(2) r1 r2 by simp
qed

lemma foldl_insert_event:
  "sorted (map k xs) \<Longrightarrow> foldl (\<lambda>acc e. insert_event k e acc) xs es = insert_all k es xs"
  by (induction es arbitrary: xs) (simp_all add: insert_event_sorted sorted_insert_after)

lemma resort_event_list_implements:
  assumes "dll s p xs"
  shows "\<exists>s'. resort_event_list p s = Some s' \<and> dll s' p (sort_key (rt s) xs) \<and>
     ev_frame p (set xs) s s'"
proof -
  define s1 where "s1 = on_list_index hash_clear p s"
  define s2 where "s2 = set_head p None s1"
  have same: "heap s2 = heap s" "list_head s1 p = hd_opt xs"
    using assms by (simp_all add: s2_def s1_def dll_def)
  have f2: "ev_frame p (set xs) s s2" by (simp add: ev_frame_def s2_def s1_def)
  have d2: "dll s2 p []" by (simp add: dll_def s2_def)
  have "dseg (heap s2) None xs None" "distinct xs" using assms by (simp_all add: same dll_def)
  then obtain s' where s': "readd_all p (hd_opt xs) s2 = Some s'"
    "dll s' p (foldl (\<lambda>acc e. insert_event (rt s2) e acc) [] xs)" "ev_frame p (set xs) s2 s'"
    using readd_all_implements [OF d2, of None xs] by auto
  have "foldl (\<lambda>acc e. insert_event (rt s2) e acc) [] xs = sort_key (rt s) xs"
    by (simp add: foldl_insert_event insert_all_sort_key same)
  with s' show ?thesis
    using ev_frame_trans [OF f2 s'(3)] same(2)
    by (auto simp: resort_event_list_def s1_def [symmetric] s2_def [symmetric] Let_def)
qed

end
