(* ===== verification/Event_Queue.thy ===== *)
theory Event_Queue
  imports Event_Heap
begin

text \<open>
  The two timed event lists as the rest of the engine sees them: \<open>queues s q\<close> says that
  the store holds well formed, disjoint lists \<open>q Low\<close> and \<open>q High\<close> sorted by
  run time, \<open>index_ok s q\<close> that \<open>quick_timed_event\<close> finds exactly the queued
  events it indexes. The interface the clients rely on is the locale \<open>timed_list\<close>,
  interpreted on the pointer operations. The second part models the compensation of a
  system time change on the lists.
\<close>

section \<open>The interface of a list of timed events\<close>

text \<open>Scheduling a series of events, one \<open>add\<close> after the other.\<close>

fun add_seq :: "('e \<Rightarrow> 's \<Rightarrow> 's option) \<Rightarrow> 'e list \<Rightarrow> 's \<Rightarrow> 's option" where
  "add_seq add [] s = Some s"
| "add_seq add (e # es) s = Option.bind (add e s) (add_seq add es)"

locale timed_list =
  fixes rep :: "'s \<Rightarrow> 'e list \<Rightarrow> bool"
    and key :: "'s \<Rightarrow> 'e \<Rightarrow> int"
    and add :: "'e \<Rightarrow> 's \<Rightarrow> 's option"
    and del :: "'e \<Rightarrow> 's \<Rightarrow> 's option"
  assumes rep_sorted: "rep s xs \<Longrightarrow> sorted (map (key s) xs)"
    and rep_distinct: "rep s xs \<Longrightarrow> distinct xs"
    and add_ok: "rep s xs \<Longrightarrow> e \<notin> set xs \<Longrightarrow>
      \<exists>s'. add e s = Some s' \<and> rep s' (insert_after (key s) e xs) \<and> key s' = key s"
    and del_ok: "rep s xs \<Longrightarrow> \<exists>s'. del e s = Some s' \<and> rep s' (remove1 e xs) \<and> key s' = key s"
begin

lemma head_is_earliest: "rep s (x # xs) \<Longrightarrow> y \<in> set xs \<Longrightarrow> key s x \<le> key s y"
  using rep_sorted by fastforce

lemma add_seq_ok:
  assumes "rep s xs" "distinct es" "set es \<inter> set xs = {}"
  shows "\<exists>s'. add_seq add es s = Some s' \<and> rep s' (insert_all (key s) es xs) \<and> key s' = key s"
  using assms
proof (induction es arbitrary: s xs)
  case Nil
  then show ?case by simp
next
  case (Cons e es)
  obtain s1 where s1: "add e s = Some s1" "rep s1 (insert_after (key s) e xs)" "key s1 = key s"
    using add_ok [of s xs e] Cons.prems by auto
  moreover have "distinct es" "set es \<inter> set (insert_after (key s) e xs) = {}"
    using Cons.prems by auto
  ultimately show ?case using Cons.IH [OF s1(2)] by auto
qed

lemma remove1_insert_after: "e \<notin> set xs \<Longrightarrow> remove1 e (insert_after k e xs) = xs"
  by (induction xs rule: rev_induct) (auto simp: insert_after_snoc remove1_append)

lemma add_del_cancel:
  assumes "rep s xs" "e \<notin> set xs"
  shows "\<exists>s1 s2. add e s = Some s1 \<and> del e s1 = Some s2 \<and> rep s2 xs \<and> key s2 = key s"
proof -
  obtain s1 where "add e s = Some s1" "rep s1 (insert_after (key s) e xs)" "key s1 = key s"
    using add_ok assms by blast
  with del_ok [of s1 _ e] remove1_insert_after [OF assms(2)] show ?thesis by metis
qed

end

definition event_list_rep :: "priority \<Rightarrow> evstore \<Rightarrow> addr list \<Rightarrow> bool" where
  "event_list_rep p s xs \<longleftrightarrow> dll s p xs \<and> sorted (map (rt s) xs)"

lemma event_list_add:
  assumes "event_list_rep p s xs" "e \<notin> set xs"
  shows "\<exists>s'. add_event e p s = Some s' \<and> event_list_rep p s' (insert_after (rt s) e xs) \<and>
    ev_frame p (insert e (set xs)) s s' \<and> hevent s' = hevent (hash_insert p e s)"
proof -
  obtain s' where s': "add_event e p s = Some s'" "dll s' p (insert_event (rt s) e xs)"
    "ev_frame p (insert e (set xs)) s s'" "hevent s' = hevent (hash_insert p e s)"
    using add_event_implements assms unfolding event_list_rep_def by blast
  have "rt s' = rt s" using ev_frame_rt [OF s'(3)] by auto
  with s' assms show ?thesis
    by (auto simp: event_list_rep_def insert_event_sorted sorted_insert_after)
qed

lemma event_list_remove:
  assumes "event_list_rep p s xs"
  shows "\<exists>s'. remove_event (Some e) p s = Some s' \<and> event_list_rep p s' (remove1 e xs) \<and>
    ev_frame p (insert e (set xs)) s s' \<and>
    hevent s' = (if xs = [] then hevent s
                 else hevent (on_list_index (\<lambda>q. hash_erase q e) p s))"
proof -
  obtain s' where s': "remove_event (Some e) p s = Some s'" "dll s' p (remove1 e xs)"
    "ev_frame p (insert e (set xs)) s s'"
    "hevent s' = (if xs = [] then hevent s
                 else hevent (on_list_index (\<lambda>q. hash_erase q e) p s))"
    using remove_event_implements assms unfolding event_list_rep_def by blast
  have "rt s' = rt s" using ev_frame_rt [OF s'(3)] by auto
  with s' assms show ?thesis
    by (auto simp: event_list_rep_def sorted_map_remove1)
qed

interpretation ev: timed_list "event_list_rep p" "rt" "\<lambda>e. add_event e p"
    "\<lambda>e. remove_event (Some e) p" for p
proof unfold_locales
  fix s xs e
  show "event_list_rep p s xs \<Longrightarrow> sorted (map (rt s) xs)"
    "event_list_rep p s xs \<Longrightarrow> distinct xs"
    by (simp_all add: event_list_rep_def dll_def)
  show "\<exists>s'. add_event e p s = Some s' \<and> event_list_rep p s' (insert_after (rt s) e xs) \<and> rt s' = rt s"
    if "event_list_rep p s xs" "e \<notin> set xs"
    using event_list_add [OF that] ev_frame_rt by blast
  show "\<exists>s'. remove_event (Some e) p s = Some s' \<and> event_list_rep p s' (remove1 e xs) \<and> rt s' = rt s"
    if "event_list_rep p s xs"
    using event_list_remove [OF that] ev_frame_rt by blast
qed

section \<open>Both lists and the index\<close>

definition queues :: "evstore \<Rightarrow> (priority \<Rightarrow> addr list) \<Rightarrow> bool" where
  "queues s q \<longleftrightarrow> (\<forall>p. event_list_rep p s (q p)) \<and> set (q Low) \<inter> set (q High) = {}"

definition indexed :: "evstore \<Rightarrow> addr \<Rightarrow> (hash_type \<times> edata) option" where
  "indexed s a =
     (case (event_data (heap s a), hash_type_of (event_type (heap s a))) of
        (Some d, Some t) \<Rightarrow> Some (t, d)
      | _ \<Rightarrow> None)"

definition index_ok :: "evstore \<Rightarrow> (priority \<Rightarrow> addr list) \<Rightarrow> bool" where
  "index_ok s q \<longleftrightarrow>
     (\<forall>t p d a. hevent s t p d = Some a \<longleftrightarrow> a \<in> set (q p) \<and> indexed s a = Some (t, d))"

lemma queues_rep: "queues s q \<Longrightarrow> event_list_rep p s (q p)"
  by (simp add: queues_def)

lemma queues_disjoint: "queues s q \<Longrightarrow> p \<noteq> p' \<Longrightarrow> set (q p) \<inter> set (q p') = {}"
  by (cases p; cases p') (auto simp: queues_def)

lemma ev_frame_rep:
  assumes "ev_frame p A s s'" "p' \<noteq> p" "set xs \<inter> A = {}" "event_list_rep p' s xs"
  shows "event_list_rep p' s' xs"
proof -
  have "rt s' = rt s" using ev_frame_rt [OF assms(1)] by auto
  with assms show ?thesis by (auto simp: event_list_rep_def intro: ev_frame_dll)
qed

lemma queues_frame:
  assumes "queues s q" "ev_frame p (insert e (set (q p))) s s'" "event_list_rep p s' ys"
    "set ys \<subseteq> insert e (set (q p))" "\<forall>p'. p' \<noteq> p \<longrightarrow> e \<notin> set (q p')"
  shows "queues s' (q(p := ys))"
proof -
  have "event_list_rep p' s' ((q(p := ys)) p')" for p'
    using assms ev_frame_rep [OF assms(2), of p'] queues_disjoint [OF assms(1), of p' p]
      queues_rep [OF assms(1), of p']
    by (cases "p' = p") auto
  moreover have "set ((q(p := ys)) Low) \<inter> set ((q(p := ys)) High) = {}"
    using assms(1,4,5) by (cases p) (auto simp: queues_def)
  ultimately show ?thesis by (simp add: queues_def)
qed

lemma indexed_frame:
  assumes "ev_frame p A s s'"
  shows "indexed s' a = indexed s a"
proof -
  have "payload (heap s' a) = payload (heap s a)" using assms by (simp add: ev_frame_def)
  from payload_eqD(2,3) [OF this] show ?thesis by (simp add: indexed_def)
qed

lemma hevent_hash_insert:
  "hevent (hash_insert p e s) t p' d =
     (if p' = p \<and> indexed s e = Some (t, d) then Some e else hevent s t p' d)"
  by (auto simp: hash_insert_def indexed_def split: option.splits)

lemma hevent_hash_erase:
  "hevent (hash_erase p e s) t p' d =
     (if p' = p \<and> indexed s e = Some (t, d) then None else hevent s t p' d)"
  by (auto simp: hash_erase_def indexed_def split: option.splits)

lemma add_event_queues:
  assumes "queues s q" "index_ok s q" "\<forall>p'. e \<notin> set (q p')"
    "\<forall>a\<in>set (q p). indexed s a = None \<or> indexed s a \<noteq> indexed s e"
  shows "\<exists>s'. add_event e p s = Some s' \<and>
    queues s' (q(p := insert_after (rt s) e (q p))) \<and>
    index_ok s' (q(p := insert_after (rt s) e (q p))) \<and> rt s' = rt s"
proof -
  obtain s' where s': "add_event e p s = Some s'"
    "event_list_rep p s' (insert_after (rt s) e (q p))"
    "ev_frame p (insert e (set (q p))) s s'" "hevent s' = hevent (hash_insert p e s)"
    using event_list_add [OF queues_rep [OF assms(1)]] assms(3) by blast
  have "queues s' (q(p := insert_after (rt s) e (q p)))"
    using queues_frame [OF assms(1) s'(3,2)] assms(3) by auto
  moreover have "index_ok s' (q(p := insert_after (rt s) e (q p)))"
    using assms(2-4) unfolding index_ok_def
    by (auto simp: s'(4) hevent_hash_insert indexed_frame [OF s'(3)])
  ultimately show ?thesis using s' ev_frame_rt by blast
qed

lemma on_list_index_queues:
  assumes "queues s q" "q p \<noteq> []"
  shows "on_list_index f p s = f p s"
proof -
  have hd: "list_head s p' = hd_opt (q p')" for p'
    using queues_rep [OF assms(1), of p'] by (simp add: event_list_rep_def dll_def)
  show ?thesis
  proof (cases p)
    case Low
    then show ?thesis by (simp add: on_list_index_def)
  next
    case High
    obtain a where a: "hd_opt (q High) = Some a" using assms(2) High by (cases "q High") auto
    have "hd_opt (q Low) \<noteq> Some a"
      using queues_disjoint [OF assms(1), of Low High] hd_opt_in_set [OF a] hd_opt_in_set [of "q Low" a]
      by auto
    with a High show ?thesis by (simp add: on_list_index_def hd)
  qed
qed

lemma index_erased:
  assumes "queues s q" "index_ok s q" "e \<in> set (q p)" "ev_frame p A s s'"
    "hevent s' = hevent (hash_erase p e s)"
  shows "index_ok s' (q(p := remove1 e (q p)))"
proof -
  have "distinct (q p)"
    using queues_rep [OF assms(1)] by (simp add: event_list_rep_def dll_def)
  moreover have "a = e" if "a \<in> set (q p)" "indexed s e = Some (t, d)" "indexed s a = Some (t, d)"
    for a t d
    using that assms(2,3) unfolding index_ok_def by (metis option.inject)
  ultimately show ?thesis
    using assms(2,3) unfolding index_ok_def
    by (auto simp: assms(5) hevent_hash_erase indexed_frame [OF assms(4)])
qed

lemma remove_event_queues:
  assumes "queues s q" "index_ok s q" "e \<in> set (q p)"
  shows "\<exists>s'. remove_event (Some e) p s = Some s' \<and>
    queues s' (q(p := remove1 e (q p))) \<and> index_ok s' (q(p := remove1 e (q p))) \<and> rt s' = rt s"
proof -
  have ne: "q p \<noteq> []" using assms(3) by auto
  obtain s' where s': "remove_event (Some e) p s = Some s'"
    "event_list_rep p s' (remove1 e (q p))"
    "ev_frame p (insert e (set (q p))) s s'" "hevent s' = hevent (hash_erase p e s)"
    using event_list_remove [OF queues_rep [OF assms(1), of p], of e] ne
    unfolding on_list_index_queues [OF assms(1) ne] by auto
  have disj: "\<forall>p'. p' \<noteq> p \<longrightarrow> e \<notin> set (q p')"
    using queues_disjoint [OF assms(1)] assms(3) by blast
  then have qs: "queues s' (q(p := remove1 e (q p)))"
    using queues_frame [OF assms(1) s'(3,2)] by (auto dest: notin_set_remove1)
  have "index_ok s' (q(p := remove1 e (q p)))" by (rule index_erased [OF assms s'(3,4)])
  with qs show ?thesis using s' ev_frame_rt by blast
qed

text \<open>Writing a new event to an address outside the lists changes nothing of them.\<close>

lemma alloc_event_queues:
  assumes "queues s q" "index_ok s q" "\<forall>p. a \<notin> set (q p)"
  shows "queues (s\<lparr>heap := (heap s)(a := v)\<rparr>) q" "index_ok (s\<lparr>heap := (heap s)(a := v)\<rparr>) q"
proof -
  let ?s = "s\<lparr>heap := (heap s)(a := v)\<rparr>"
  have "dll ?s p (q p)" for p
    using queues_rep [OF assms(1), of p] assms(3) by (simp add: event_list_rep_def dll_def)
  moreover have "map (rt ?s) (q p) = map (rt s) (q p)" for p
    using assms(3) by auto
  then have "sorted (map (rt ?s) (q p))" for p
    using queues_rep [OF assms(1), of p] by (simp only: event_list_rep_def)
  ultimately show "queues ?s q"
    using queues_disjoint [OF assms(1), of Low High] by (simp add: queues_def event_list_rep_def)
  have "indexed ?s b = indexed s b" if "b \<noteq> a" for b
    using that by (simp add: indexed_def)
  with assms(3) have "b \<in> set (q p) \<and> indexed ?s b = x \<longleftrightarrow> b \<in> set (q p) \<and> indexed s b = x"
    for b p x by metis
  then show "index_ok ?s q" using assms(2) unfolding index_ok_def by simp
qed

lemma add_event_payload:
  assumes "queues s q" "e \<notin> set (q p)" "add_event e p s = Some s'"
  shows "payload (heap s' a) = payload (heap s a)"
  using event_list_add [OF queues_rep [OF assms(1)] assms(2)] assms(3)
  by (auto simp: ev_frame_def)

lemma remove_event_payload:
  assumes "queues s q" "remove_event (Some e) p s = Some s'"
  shows "payload (heap s' a) = payload (heap s a)"
  using event_list_remove [OF queues_rep [OF assms(1), of p], of e] assms(2)
  by (auto simp: ev_frame_def)

section \<open>Compensation of a system time change\<close>

definition adjust_timestamp_for_time_change :: "int \<Rightarrow> int \<Rightarrow> int \<Rightarrow> int \<Rightarrow> int" where
  "adjust_timestamp_for_time_change last_time current_time time_difference ts =
     (if ts = 0 \<or> ts = - 1 then ts
      else if last_time > current_time
      then (if time_difference > ulong_of ts then 0
            else time_t_of (ulong_of ts - time_difference))
      else time_t_of (ulong_of ts + time_difference))"

definition time_difference_of :: "int \<Rightarrow> int \<Rightarrow> int" where
  "time_difference_of last_time current_time =
     (if last_time > current_time then last_time - current_time else current_time - last_time)"

text \<open>The new run time of one event of a list.\<close>

definition compensated_run_time ::
    "(addr \<Rightarrow> int) \<Rightarrow> int \<Rightarrow> int \<Rightarrow> timed_event \<Rightarrow> int" where
  "compensated_run_time timing last_time current_time ev =
     (if \<not> compensate_for_time_change ev then run_time ev
      else case timing_func ev of
             Some f \<Rightarrow> timing f
           | None \<Rightarrow> adjust_timestamp_for_time_change last_time current_time
                      (time_difference_of last_time current_time) (run_time ev))"

partial_function (option) compensate_run_times ::
    "(addr \<Rightarrow> int) \<Rightarrow> int \<Rightarrow> int \<Rightarrow> addr option \<Rightarrow> evstore \<Rightarrow> evstore option" where
  "compensate_run_times timing last_time current_time tmp s =
     (case tmp of
        None \<Rightarrow> Some s
      | Some t \<Rightarrow>
          let s1 = set_run_time t (compensated_run_time timing last_time current_time (heap s t)) s
          in compensate_run_times timing last_time current_time (ev_next (heap s1 t)) s1)"

text \<open>The event part of \<open>compensate_for_system_time_change\<close>: high priority first.\<close>

definition compensate_event_lists ::
    "(addr \<Rightarrow> int) \<Rightarrow> int \<Rightarrow> int \<Rightarrow> evstore \<Rightarrow> evstore option" where
  "compensate_event_lists timing last_time current_time s =
     Option.bind (compensate_run_times timing last_time current_time (list_head s High) s) (\<lambda>s1.
     Option.bind (resort_event_list High s1) (\<lambda>s2.
     Option.bind (compensate_run_times timing last_time current_time (list_head s2 Low) s2) (\<lambda>s3.
     resort_event_list Low s3)))"

declare compensate_run_times.simps [code]

lemma set_run_time_simps [simp]:
  "heap (set_run_time a t s) = (heap s)(a := (heap s a)\<lparr>run_time := t\<rparr>)"
  "list_head (set_run_time a t s) = list_head s" "list_tail (set_run_time a t s) = list_tail s"
  "hevent (set_run_time a t s) = hevent s"
  by (simp_all add: set_run_time_def)

text \<open>The loop rewrites the run times of the list and nothing else.\<close>

definition with_run_times :: "(addr \<Rightarrow> int) \<Rightarrow> addr list \<Rightarrow> evstore \<Rightarrow> evstore" where
  "with_run_times k xs s =
     s\<lparr>heap := (\<lambda>a. if a \<in> set xs then (heap s a)\<lparr>run_time := k a\<rparr> else heap s a)\<rparr>"

lemma compensate_run_times_implements:
  assumes "dseg (heap s) q xs None" "distinct xs"
  shows "compensate_run_times timing l c (hd_opt xs) s =
    Some (with_run_times (\<lambda>a. compensated_run_time timing l c (heap s a)) xs s)"
  using assms
proof (induction xs arbitrary: s q)
  case Nil
  then show ?case by (simp add: compensate_run_times.simps with_run_times_def)
next
  case (Cons x xs)
  define s1 where "s1 = set_run_time x (compensated_run_time timing l c (heap s x)) s"
  have x: "x \<notin> set xs" "distinct xs" using Cons.prems(2) by auto
  have nxt: "ev_next (heap s x) = hd_opt xs" using Cons.prems(1) by (cases xs) auto
  have d1: "dseg (heap s1) (Some x) xs None"
    using Cons.prems(1) x by (simp add: s1_def)
  have "compensate_run_times timing l c (hd_opt xs) s1 =
      Some (with_run_times (\<lambda>a. compensated_run_time timing l c (heap s1 a)) xs s1)"
    by (rule Cons.IH [OF d1 x(2)])
  also have "with_run_times (\<lambda>a. compensated_run_time timing l c (heap s1 a)) xs s1 =
      with_run_times (\<lambda>a. compensated_run_time timing l c (heap s a)) (x # xs) s"
    using x by (auto simp: with_run_times_def s1_def set_run_time_def fun_eq_iff)
  finally show ?case
    by (simp add: compensate_run_times.simps [of timing l c "Some x"] Let_def s1_def nxt)
qed

lemma with_run_times_dll:
  "dll s p xs \<Longrightarrow> dll (with_run_times k ys s) p xs"
  unfolding dll_def
  by (auto simp: with_run_times_def elim!: dseg_cong [THEN iffD1, rotated])

lemma rt_with_run_times: "rt (with_run_times k xs s) a = (if a \<in> set xs then k a else rt s a)"
  by (simp add: with_run_times_def)

lemma compensate_one_list:
  assumes "dll s p xs"
    and "k = (\<lambda>a. compensated_run_time timing l c (heap s a))"
  shows "\<exists>s'. Option.bind (compensate_run_times timing l c (list_head s p) s)
           (resort_event_list p) = Some s' \<and>
     dll s' p (sort_key k xs) \<and> (\<forall>a. rt s' a = (if a \<in> set xs then k a else rt s a)) \<and>
     (\<forall>a. a \<notin> set xs \<longrightarrow> heap s' a = heap s a) \<and>
     (\<forall>q. q \<noteq> p \<longrightarrow> list_head s' q = list_head s q \<and> list_tail s' q = list_tail s q)"
proof -
  let ?s1 = "with_run_times k xs s"
  have run: "compensate_run_times timing l c (list_head s p) s = Some ?s1"
    using assms compensate_run_times_implements [of s None xs timing l c] by (simp add: dll_def)
  obtain s' where s': "resort_event_list p ?s1 = Some s'"
    "dll s' p (sort_key (rt ?s1) xs)" "ev_frame p (set xs) ?s1 s'"
    using resort_event_list_implements [OF with_run_times_dll [OF assms(1)]] by blast
  have "sort_key (rt ?s1) xs = sort_key k xs"
    by (rule sort_key_cong) (auto simp: rt_with_run_times)
  moreover have "rt s' a = (if a \<in> set xs then k a else rt s a)" for a
    using ev_frame_rt [OF s'(3)] by (simp add: rt_with_run_times)
  moreover have "heap s' a = heap s a" if "a \<notin> set xs" for a
    using s'(3) that by (simp add: ev_frame_def with_run_times_def)
  moreover have "list_head s' q = list_head s q \<and> list_tail s' q = list_tail s q" if "q \<noteq> p" for q
    using s'(3) that by (simp add: ev_frame_def with_run_times_def)
  ultimately show ?thesis using run s' by auto
qed

section \<open>The index across a resort\<close>

definition index_at :: "evstore \<Rightarrow> priority \<Rightarrow> addr set \<Rightarrow> bool" where
  "index_at s p A \<longleftrightarrow> (\<forall>t d a. hevent s t p d = Some a \<longleftrightarrow> a \<in> A \<and> indexed s a = Some (t, d))"

definition index_unique :: "evstore \<Rightarrow> addr set \<Rightarrow> bool" where
  "index_unique s A \<longleftrightarrow>
     (\<forall>a\<in>A. \<forall>b\<in>A. indexed s a \<noteq> None \<longrightarrow> indexed s a = indexed s b \<longrightarrow> a = b)"

lemma index_ok_at: "index_ok s q \<longleftrightarrow> (\<forall>p. index_at s p (set (q p)))"
  by (auto simp: index_ok_def index_at_def)

lemma index_at_unique: "index_at s p A \<Longrightarrow> index_unique s A"
  unfolding index_at_def index_unique_def
  by (metis not_None_eq option.inject surj_pair)

lemma index_at_cong:
  "index_at s p A \<Longrightarrow> (\<And>t. hevent s' t p = hevent s t p) \<Longrightarrow> (\<And>a. indexed s' a = indexed s a) \<Longrightarrow>
   index_at s' p A"
  by (simp add: index_at_def)

lemma readd_all_index:
  assumes "dll s p xs" "dseg (heap s) q es None" "distinct es" "set es \<inter> set xs = {}"
    "index_at s p (set xs)" "index_unique s (set es \<union> set xs)"
  shows "\<exists>s'. readd_all p (hd_opt es) s = Some s' \<and> index_at s' p (set es \<union> set xs) \<and>
     (\<forall>p'. p' \<noteq> p \<longrightarrow> (\<forall>t. hevent s' t p' = hevent s t p'))"
  using assms
proof (induction es arbitrary: s xs q)
  case Nil
  then show ?case by (simp add: readd_all.simps)
next
  case (Cons e es)
  define s1 where "s1 = set_prev e None (set_next e None s)"
  have nxt: "ev_next (heap s e) = hd_opt es" using Cons.prems(2) by (cases es) auto
  have d1: "dll s1 p xs" and e: "e \<notin> set xs"
    using Cons.prems by (auto simp: s1_def dll_def)
  have i1: "indexed s1 a = indexed s a" for a by (simp add: s1_def indexed_def split: option.split)
  have h1: "hevent s1 = hevent s" by (simp add: s1_def store_defs)
  obtain s2 where s2: "add_event e p s1 = Some s2" "dll s2 p (insert_event (rt s1) e xs)"
    "ev_frame p (insert e (set xs)) s1 s2" "hevent s2 = hevent (hash_insert p e s1)"
    using add_event_implements [OF d1 e] by blast
  have i2: "indexed s2 a = indexed s a" for a using indexed_frame [OF s2(3)] i1 by simp
  have f1: "ev_frame p (insert e (set xs)) s s1" by (auto simp: s1_def ev_frame_def)
  have "heap s2 x = heap s x" if "x \<in> set es" for x
    using ev_frame_trans [OF f1 s2(3)] that Cons.prems(3,4) by (auto simp: ev_frame_def)
  then have "dseg (heap s2) (Some e) es None"
    using Cons.prems(2) dseg_cong [of es "heap s2" "heap s"] by auto
  moreover have "set es \<inter> set (insert_event (rt s1) e xs) = {}" "distinct es"
    using Cons.prems(3,4) by auto
  moreover have "index_at s2 p (set (insert_event (rt s1) e xs))"
    using Cons.prems(5,6) e unfolding index_at_def index_unique_def
    by (auto simp: s2(4) hevent_hash_insert i1 i2 h1)
  moreover have "index_unique s2 (set es \<union> set (insert_event (rt s1) e xs))"
    using Cons.prems(6) by (simp add: index_unique_def i2)
  ultimately obtain s3 where s3: "readd_all p (hd_opt es) s2 = Some s3"
    "index_at s3 p (set es \<union> set (insert_event (rt s1) e xs))"
    "\<forall>p'. p' \<noteq> p \<longrightarrow> (\<forall>t. hevent s3 t p' = hevent s2 t p')"
    using Cons.IH [OF s2(2)] by blast
  have "hevent s2 t p' = hevent s t p'" if "p' \<noteq> p" for p' t
    using that by (auto simp: s2(4) hevent_hash_insert h1 fun_eq_iff)
  moreover have "readd_all p (Some e) s = Some s3"
    using s2(1) s3(1) nxt by (simp add: readd_all.simps [of p "Some e"] Let_def s1_def)
  ultimately show ?case using s3(2,3) by simp
qed

lemma hevent_on_list_clear:
  assumes "dll s Low (q Low)" "dll s High (q High)" "set (q Low) \<inter> set (q High) = {}"
    "index_ok s q"
  shows "hevent (on_list_index hash_clear p s) t p' = (if p' = p then Map.empty else hevent s t p')"
proof -
  have empty: "hevent s t p' = Map.empty" if "q p' = []" for p' t
  proof
    fix d
    show "hevent s t p' d = None"
      using assms(4) that by (cases "hevent s t p' d") (auto simp: index_ok_def)
  qed
  have hd: "list_head s p' = hd_opt (q p')" for p'
    using assms(1,2) by (cases p') (simp_all add: dll_def)
  show ?thesis
  proof (cases "p = High \<and> hd_opt (q High) = hd_opt (q Low)")
    case True
    then have "q High = []" "q Low = []"
      using assms(3) by (cases "q High"; cases "q Low"; auto)+
    with True show ?thesis
      by (cases p') (auto simp: on_list_index_def hd hash_clear_def empty)
  next
    case False
    then show ?thesis
      by (cases p; cases p') (auto simp: on_list_index_def hd hash_clear_def)
  qed
qed

lemma resort_index:
  assumes "dll s Low (q Low)" "dll s High (q High)" "set (q Low) \<inter> set (q High) = {}"
    "index_ok s q" "resort_event_list p s = Some s'"
  shows "index_ok s' q"
proof -
  have dp: "dll s p (q p)" using assms(1,2) by (cases p) simp_all
  define s1 where "s1 = on_list_index hash_clear p s"
  define s2 where "s2 = set_head p None s1"
  have same: "heap s2 = heap s" "list_head s1 p = hd_opt (q p)"
    using dp by (simp_all add: s2_def s1_def dll_def)
  have i2: "indexed s2 a = indexed s a" for a by (simp add: indexed_def same)
  have h2: "hevent s2 t p' = (if p' = p then Map.empty else hevent s t p')" for t p'
    using hevent_on_list_clear [OF assms(1-4)] by (simp add: s2_def s1_def store_defs)
  have "dll s2 p []" by (simp add: dll_def s2_def)
  moreover have "dseg (heap s2) None (q p) None" "distinct (q p)"
    using dp by (simp_all add: same dll_def)
  moreover have "index_at s2 p (set [])" by (simp add: index_at_def h2)
  moreover have "index_unique s2 (set (q p) \<union> set [])"
    using index_at_unique [of s p "set (q p)"] assms(4) by (simp add: index_ok_at index_unique_def i2)
  ultimately obtain s'' where s'': "readd_all p (hd_opt (q p)) s2 = Some s''"
    "index_at s'' p (set (q p))" "\<forall>p'. p' \<noteq> p \<longrightarrow> (\<forall>t. hevent s'' t p' = hevent s2 t p')"
    using readd_all_index [of s2 p "[]" None "q p"] by auto
  have "s'' = s'"
    using assms(5) s''(1) same(2)
    by (simp add: resort_event_list_def s1_def [symmetric] s2_def [symmetric] Let_def)
  have ind: "indexed s' a = indexed s a" for a
    using resort_event_list_implements [OF dp] indexed_frame assms(5) by auto
  have "index_at s' p' (set (q p'))" for p'
    using s''(2,3) h2 assms(4) unfolding \<open>s'' = s'\<close> index_ok_at
    by (cases "p' = p") (auto intro!: index_at_cong [of s p' _ s'] ind)
  then show ?thesis by (simp add: index_ok_at)
qed

section \<open>Compensation of both lists\<close>

lemma with_run_times_index:
  assumes "index_ok s q"
  shows "index_ok (with_run_times k xs s) q"
proof -
  have "indexed (with_run_times k xs s) a = indexed s a" for a
    by (simp add: indexed_def with_run_times_def split: option.split)
  moreover have "hevent (with_run_times k xs s) = hevent s" by (simp add: with_run_times_def)
  ultimately show ?thesis using assms by (simp add: index_ok_def)
qed

lemma compensate_one_list_index:
  assumes "dll s Low (q Low)" "dll s High (q High)" "set (q Low) \<inter> set (q High) = {}"
    "index_ok s q"
    "Option.bind (compensate_run_times timing l c (list_head s p) s) (resort_event_list p) = Some s'"
  shows "index_ok s' q"
proof -
  have dp: "dll s p (q p)" using assms(1,2) by (cases p) simp_all
  let ?s1 = "with_run_times (\<lambda>a. compensated_run_time timing l c (heap s a)) (q p) s"
  have "compensate_run_times timing l c (list_head s p) s = Some ?s1"
    using dp compensate_run_times_implements [of s None "q p" timing l c] by (simp add: dll_def)
  with assms(5) have "resort_event_list p ?s1 = Some s'" by simp
  with resort_index [of ?s1 q p s'] with_run_times_dll assms(1-4) with_run_times_index
  show ?thesis by blast
qed

lemma dll_other_list:
  assumes "dll s p xs" "\<forall>a. a \<notin> A \<longrightarrow> heap s' a = heap s a" "set xs \<inter> A = {}"
    "list_head s' p = list_head s p" "list_tail s' p = list_tail s p"
  shows "dll s' p xs"
proof -
  have "dseg (heap s') None xs None = dseg (heap s) None xs None"
    using assms(2,3) by (intro dseg_cong) auto
  with assms show ?thesis by (simp add: dll_def)
qed

lemma sorted_sort_key_cong:
  "(\<And>x. x \<in> set xs \<Longrightarrow> r x = k x) \<Longrightarrow> sorted (map r (sort_key k xs))"
proof -
  assume "\<And>x. x \<in> set xs \<Longrightarrow> r x = k x"
  then have "map r (sort_key k xs) = map k (sort_key k xs)" by simp
  then show ?thesis by (simp only: sorted_sort_key)
qed

lemma compensate_event_lists_queues:
  assumes "queues s q" "index_ok s q"
  defines "k \<equiv> \<lambda>timing l c a. compensated_run_time timing l c (heap s a)"
  shows "\<exists>s'. compensate_event_lists timing l c s = Some s' \<and>
    queues s' (\<lambda>p. sort_key (k timing l c) (q p)) \<and> index_ok s' (\<lambda>p. sort_key (k timing l c) (q p)) \<and>
    (\<forall>a. rt s' a = (if a \<in> set (q Low) \<union> set (q High) then k timing l c a else rt s a))"
proof -
  let ?k = "k timing l c"
  have disj: "set (q Low) \<inter> set (q High) = {}" and d: "dll s p (q p)" for p
    using assms(1) by (auto simp: queues_def event_list_rep_def)
  obtain s1 where s1: "Option.bind (compensate_run_times timing l c (list_head s High) s)
        (resort_event_list High) = Some s1" "dll s1 High (sort_key ?k (q High))"
      "\<forall>a. rt s1 a = (if a \<in> set (q High) then ?k a else rt s a)"
      "\<forall>a. a \<notin> set (q High) \<longrightarrow> heap s1 a = heap s a"
      "\<forall>p. p \<noteq> High \<longrightarrow> list_head s1 p = list_head s p \<and> list_tail s1 p = list_tail s p"
    using compensate_one_list [OF d [of High], of ?k timing l c] by (auto simp: k_def)
  define q1 where "q1 = (\<lambda>p. if p = High then sort_key ?k (q High) else q p)"
  have d1: "dll s1 Low (q Low)"
    using dll_other_list [OF d [of Low], of "set (q High)" s1] s1(4,5) disj by auto
  have same_sets: "set (q1 p) = set (q p)" for p by (simp add: q1_def)
  have ix1: "index_ok s1 q"
    using compensate_one_list_index [OF d d disj assms(2) s1(1)] .
  then have ix1': "index_ok s1 q1" by (simp add: index_ok_at same_sets)
  have kl: "compensated_run_time timing l c (heap s1 a) = ?k a" if "a \<in> set (q Low)" for a
    using that s1(4) disj by (auto simp: k_def)
  obtain s2 where s2: "Option.bind (compensate_run_times timing l c (list_head s1 Low) s1)
        (resort_event_list Low) = Some s2"
      "dll s2 Low (sort_key (\<lambda>a. compensated_run_time timing l c (heap s1 a)) (q Low))"
      "\<forall>a. rt s2 a = (if a \<in> set (q Low) then compensated_run_time timing l c (heap s1 a) else rt s1 a)"
      "\<forall>a. a \<notin> set (q Low) \<longrightarrow> heap s2 a = heap s1 a"
      "\<forall>p. p \<noteq> Low \<longrightarrow> list_head s2 p = list_head s1 p \<and> list_tail s2 p = list_tail s1 p"
    using compensate_one_list [OF d1 refl, of timing l c] by blast
  have low: "sort_key (\<lambda>a. compensated_run_time timing l c (heap s1 a)) (q Low) = sort_key ?k (q Low)"
    by (rule sort_key_cong) (rule kl)
  have high2: "dll s2 High (sort_key ?k (q High))"
    using dll_other_list [OF s1(2), of "set (q Low)" s2] s2(4,5) disj by auto
  have rt2: "rt s2 a = (if a \<in> set (q Low) \<union> set (q High) then ?k a else rt s a)" for a
    using s1(3) s2(3) kl by simp
  have ds: "dll s2 p (sort_key ?k (q p))" for p
    using s2(2) high2 by (cases p) (simp_all add: low)
  have "sorted (map (rt s2) (sort_key ?k (q p)))" for p
    by (rule sorted_sort_key_cong) (cases p; simp add: rt2)
  then have "queues s2 (\<lambda>p. sort_key ?k (q p))"
    using ds disj by (simp add: queues_def event_list_rep_def)
  moreover have "index_ok s2 q1"
    using compensate_one_list_index [of s1 q1, OF _ _ _ ix1' s2(1)] d1 s1(2) disj
    by (simp add: q1_def)
  then have "index_ok s2 (\<lambda>p. sort_key ?k (q p))" by (simp add: index_ok_at same_sets)
  moreover have "compensate_event_lists timing l c s = Some s2"
    using s1(1) s2(1) by (auto simp: compensate_event_lists_def bind_eq_Some_conv)
  ultimately show ?thesis using rt2 by blast
qed

section \<open>A small store for the witnesses\<close>

definition ex_event :: "int \<Rightarrow> edata option \<Rightarrow> timed_event" where
  "ex_event t d = \<lparr>event_type = EVENT_SERVICE_CHECK, run_time = t, recurring = False,
     event_interval = 0, compensate_for_time_change = True, timing_func = None,
     event_data = d, event_args = None, event_options = 0, ev_next = None, ev_prev = None\<rparr>"

definition ex_empty :: evstore where
  "ex_empty = \<lparr>heap = (\<lambda>a. ex_event (100 + int a) (Some (ServicePtr (''h'', ''s'')))),
     list_head = (\<lambda>_. None), list_tail = (\<lambda>_. None), hevent = (\<lambda>_ _. Map.empty),
     timed_trace = []\<rparr>"

definition ex_one :: evstore where
  "ex_one = ex_empty\<lparr>list_head := (\<lambda>_. None)(Low := Some 0),
     list_tail := (\<lambda>_. None)(Low := Some 0),
     hevent := (\<lambda>t p. if t = Hash_service_check \<and> p = Low
                      then [ServicePtr (''h'', ''s'') \<mapsto> 0] else Map.empty)\<rparr>"

definition ex_one_q :: "priority \<Rightarrow> addr list" where
  "ex_one_q p = (if p = Low then [0] else [])"

lemma ex_empty_queues: "queues ex_empty (\<lambda>_. [])" "index_ok ex_empty (\<lambda>_. [])"
  by (auto simp: ex_empty_def queues_def index_ok_def event_list_rep_def dll_def)

lemma ex_one_queues: "queues ex_one ex_one_q" "index_ok ex_one ex_one_q"
  by (auto simp: ex_one_def ex_empty_def ex_one_q_def ex_event_def queues_def index_ok_def
      event_list_rep_def dll_def indexed_def hash_type_of_def event_type_defs)

section \<open>Properties\<close>

text \<open>C2. Adding an event: on well formed lists, \<open>add_event\<close> always returns; the
  list gains the event after every event that is due no later, the other list is untouched,
  both stay sorted and doubly linked, and \<open>quick_timed_event\<close> finds exactly the
  queued events (provided no queued event of the list already stands for the same
  object).\<close>

theorem add_event_sorted_insert:
  assumes "queues s q" "index_ok s q" "\<forall>p'. e \<notin> set (q p')"
    "\<forall>a\<in>set (q p). indexed s a = None \<or> indexed s a \<noteq> indexed s e"
  shows "\<exists>s'. add_event e p s = Some s' \<and>
    queues s' (q(p := insert_after (rt s) e (q p))) \<and>
    index_ok s' (q(p := insert_after (rt s) e (q p)))"
  using add_event_queues [OF assms] by blast

theorem add_event_sorted_insert_witness:
  "\<exists>s'. add_event 3 Low ex_empty = Some s' \<and> queues s' ((\<lambda>_. [])(Low := [3])) \<and>
     index_ok s' ((\<lambda>_. [])(Low := [3]))"
  using add_event_sorted_insert [OF ex_empty_queues, of 3 Low] by simp

text \<open>Removing an event: \<open>remove_event\<close> returns, takes the event out of its list
  wherever it stands (head, middle or tail), leaves the other list alone and keeps the
  index exact, although the code picks the index to clean by comparing list heads.\<close>

theorem remove_event_deletes:
  assumes "queues s q" "index_ok s q" "e \<in> set (q p)"
  shows "\<exists>s'. remove_event (Some e) p s = Some s' \<and>
    queues s' (q(p := remove1 e (q p))) \<and> index_ok s' (q(p := remove1 e (q p)))"
  using remove_event_queues [OF assms] by blast

theorem remove_event_deletes_witness:
  "\<exists>s'. remove_event (Some 0) Low ex_one = Some s' \<and> queues s' (ex_one_q(Low := [])) \<and>
     index_ok s' (ex_one_q(Low := []))"
  using remove_event_deletes [OF ex_one_queues, of 0 Low] by (simp add: ex_one_q_def)

text \<open>C26. A system time change: the event part of \<open>compensate_for_system_time_change\<close>
  returns, gives every queued event its compensated run time and changes no other, and
  leaves each list stably sorted by the new times, with the index exact.\<close>

theorem compensate_resorts_queues:
  assumes "queues s q" "index_ok s q"
  shows "\<exists>s'. compensate_event_lists timing l c s = Some s' \<and>
    queues s' (\<lambda>p. sort_key (\<lambda>a. compensated_run_time timing l c (heap s a)) (q p)) \<and>
    index_ok s' (\<lambda>p. sort_key (\<lambda>a. compensated_run_time timing l c (heap s a)) (q p)) \<and>
    (\<forall>a. rt s' a = (if a \<in> set (q Low) \<union> set (q High)
                     then compensated_run_time timing l c (heap s a) else rt s a))"
  using compensate_event_lists_queues [OF assms] by simp

theorem compensate_resorts_queues_witness:
  "\<exists>s'. compensate_event_lists (\<lambda>_. 0) 1000 950 ex_one = Some s' \<and> rt s' 0 = 50"
  using compensate_resorts_queues [OF ex_one_queues, of "\<lambda>_. 0" 1000 950]
  by (auto simp: ex_one_q_def ex_one_def ex_empty_def ex_event_def compensated_run_time_def
      adjust_timestamp_for_time_change_def time_difference_of_def valid_time_def)

text \<open>Scheduling a series of events into an empty list: the calls return and the list
  is the stable sort of the series by run time, so events due at the same second run in
  the order they were scheduled.\<close>

theorem schedule_series_stable:
  assumes "event_list_rep p s []" "distinct es"
  shows "\<exists>s'. add_seq (\<lambda>e. add_event e p) es s = Some s' \<and>
    event_list_rep p s' (sort_key (rt s) es)"
  using ev.add_seq_ok [OF assms(1,2)] by (auto simp: insert_all_sort_key)

theorem schedule_series_stable_witness:
  "\<exists>s'. add_seq (\<lambda>e. add_event e High) [3, 1, 2] ex_empty = Some s' \<and>
     event_list_rep High s' [1, 2, 3]"
proof -
  have "event_list_rep High ex_empty []" using ex_empty_queues by (simp add: queues_def)
  then show ?thesis
    using schedule_series_stable [of High ex_empty "[3, 1, 2]"]
    by (auto simp: ex_empty_def ex_event_def)
qed

text \<open>C33. Shifting a timestamp keeps its distance to the clock: for a timestamp after the
  epoch, if the clock moved forward, or moved backward by no more than the timestamp, the
  adjusted value differs from the new time as the old value differed from the old time;
  a larger backward move gives the epoch.\<close>

theorem adjust_timestamp_keeps_delay:
  assumes "0 < ts" "0 \<le> last_time" "0 \<le> current_time"
    "ts < 2 ^ 63" "ts + current_time - last_time < 2 ^ 63"
  shows "adjust_timestamp_for_time_change last_time current_time
      (time_difference_of last_time current_time) ts = max 0 (ts + (current_time - last_time))"
  using assms
  by (auto simp: adjust_timestamp_for_time_change_def time_difference_of_def valid_time_def max_def)

theorem adjust_timestamp_keeps_delay_witness:
  "adjust_timestamp_for_time_change 5000 4000 (time_difference_of 5000 4000) 700 = 0 \<and>
   adjust_timestamp_for_time_change 4000 5000 (time_difference_of 4000 5000) 700 = 1700"
  using adjust_timestamp_keeps_delay [of 700 5000 4000] adjust_timestamp_keeps_delay [of 700 4000 5000]
  by simp

text \<open>Rescheduling a recurring event without a timing function: the call returns, the
  event is queued again at a time that is neither in the past nor before one interval
  after its previous run time.\<close>

theorem reschedule_event_in_future:
  assumes "queues s q" "\<forall>p'. e \<notin> set (q p')" "recurring (heap s e)"
    "timing_func (heap s e) = None" "valid_time (rt s e + int (event_interval (heap s e)))"
  shows "\<exists>s' xs. reschedule_event timing now e p s = Some s' \<and> event_list_rep p s' xs \<and>
    set xs = insert e (set (q p)) \<and> rt s' e = max now (rt s e + int (event_interval (heap s e)))"
proof -
  let ?t = "next_run_time timing now (heap s e)"
  let ?s = "set_run_time e ?t s"
  have t: "?t = max now (rt s e + int (event_interval (heap s e)))"
    using assms(3-5) by (simp add: next_run_time_def Let_def max_def)
  have "map (rt ?s) (q p) = map (rt s) (q p)" using assms(2) by auto
  moreover have "dll ?s p (q p)"
    using queues_rep [OF assms(1), of p] assms(2) by (simp add: event_list_rep_def dll_def)
  ultimately have "event_list_rep p ?s (q p)"
    using queues_rep [OF assms(1), of p] by (simp only: event_list_rep_def)
  then obtain s' where s': "add_event e p ?s = Some s'"
    "event_list_rep p s' (insert_after (rt ?s) e (q p))" "rt s' = rt ?s"
    using ev.add_ok [of p ?s "q p" e] assms(2) by auto
  have "rt s' e = rt ?s e" using s'(3) by (rule fun_cong)
  also have "rt ?s e = ?t" by simp
  finally have "rt s' e = ?t" .
  with s' t show ?thesis
    by (intro exI [of _ s'] exI [of _ "insert_after (rt ?s) e (q p)"])
      (simp add: reschedule_event_def)
qed

theorem reschedule_event_in_future_witness:
  "\<exists>s' xs. reschedule_event (\<lambda>_. 0) 500 3 High
       (ex_empty\<lparr>heap := (\<lambda>_. (ex_event 100 None)\<lparr>recurring := True, event_interval := 60\<rparr>)\<rparr>) = Some s' \<and>
     event_list_rep High s' xs \<and> set xs = {3} \<and> rt s' 3 = 500"
proof -
  let ?s = "ex_empty\<lparr>heap := (\<lambda>_. (ex_event 100 None)\<lparr>recurring := True, event_interval := 60\<rparr>)\<rparr>"
  have "queues ?s (\<lambda>_. [])"
    by (auto simp: ex_empty_def queues_def event_list_rep_def dll_def)
  from reschedule_event_in_future [OF this, of 3 "\<lambda>_. 0" 500 High] show ?thesis
    by (simp add: ex_event_def valid_time_def)
qed

end
