(* ===== verification/Objects.thy ===== *)
theory Objects
  imports Event_Queue
begin

text \<open>
  The objects the engine monitors and notifies, as the structs of
  \<^verbatim>\<open>inc/com/centreon/engine/objects/*.hh\<close> hold them, and the record \<open>engine\<close> of
  all the globals the modelled code reads and writes. A pointer to a host, service or
  contact is its identifier; the fields of the service and host structs carry the prefixes
  \<open>s_\<close> and \<open>h_\<close>, those of the \<open>*_other_properties\<close> maps \<open>so_\<close> and
  \<open>ho_\<close>. Configured fields come first, run-time state second. A C \<open>double\<close> is
  modelled by the rational it denotes, without the rounding of arithmetic. What the engine
  cannot compute itself (the clock, the answers of broker modules, the expansion of
  commands, the calendar of time periods) is the record \<open>env\<close>.
\<close>

section \<open>Enumerations\<close>

datatype svc_state = STATE_OK | STATE_WARNING | STATE_CRITICAL | STATE_UNKNOWN

datatype host_state = HOST_UP | HOST_DOWN | HOST_UNREACHABLE

datatype state_type = SOFT_STATE | HARD_STATE

datatype ack_type = ACKNOWLEDGEMENT_NONE | ACKNOWLEDGEMENT_NORMAL | ACKNOWLEDGEMENT_STICKY

datatype check_type = CHECK_ACTIVE | CHECK_PASSIVE

datatype notif_type = NOTIFICATION_NORMAL | NOTIFICATION_ACKNOWLEDGEMENT
  | NOTIFICATION_FLAPPINGSTART | NOTIFICATION_FLAPPINGSTOP | NOTIFICATION_FLAPPINGDISABLED
  | NOTIFICATION_DOWNTIMESTART | NOTIFICATION_DOWNTIMEEND | NOTIFICATION_DOWNTIMECANCELLED
  | NOTIFICATION_CUSTOM

datatype dep_type = NOTIFICATION_DEPENDENCY | EXECUTION_DEPENDENCY

datatype result = OK | ERROR

type_synonym contact_id = string
type_synonym group_id = string
type_synonym tp_id = string

text \<open>The bits of the notification options.\<close>

record notif_options =
  opt_broadcast :: bool
  opt_forced :: bool
  opt_increment :: bool

definition NOTIFICATION_OPTION_NONE :: notif_options where
  "NOTIFICATION_OPTION_NONE = \<lparr>opt_broadcast = False, opt_forced = False, opt_increment = False\<rparr>"

text \<open>The attributes of an object that were changed at run time, as bits of a mask.\<close>

definition MODATTR_NONE :: int where "MODATTR_NONE = 0"
definition MODATTR_NOTIFICATIONS_ENABLED :: int where "MODATTR_NOTIFICATIONS_ENABLED = 1"
definition MODATTR_ACTIVE_CHECKS_ENABLED :: int where "MODATTR_ACTIVE_CHECKS_ENABLED = 2"
definition MODATTR_PASSIVE_CHECKS_ENABLED :: int where "MODATTR_PASSIVE_CHECKS_ENABLED = 4"
definition MODATTR_EVENT_HANDLER_ENABLED :: int where "MODATTR_EVENT_HANDLER_ENABLED = 8"
definition MODATTR_FLAP_DETECTION_ENABLED :: int where "MODATTR_FLAP_DETECTION_ENABLED = 16"
definition MODATTR_PERFORMANCE_DATA_ENABLED :: int where "MODATTR_PERFORMANCE_DATA_ENABLED = 64"
definition MODATTR_OBSESSIVE_HANDLER_ENABLED :: int where "MODATTR_OBSESSIVE_HANDLER_ENABLED = 128"
definition MODATTR_NORMAL_CHECK_INTERVAL :: int where "MODATTR_NORMAL_CHECK_INTERVAL = 1024"
definition MODATTR_RETRY_CHECK_INTERVAL :: int where "MODATTR_RETRY_CHECK_INTERVAL = 2048"
definition MODATTR_MAX_CHECK_ATTEMPTS :: int where "MODATTR_MAX_CHECK_ATTEMPTS = 4096"
definition MODATTR_FRESHNESS_CHECKS_ENABLED :: int where "MODATTR_FRESHNESS_CHECKS_ENABLED = 8192"
definition MODATTR_CHECK_TIMEPERIOD :: int where "MODATTR_CHECK_TIMEPERIOD = 16384"
definition MODATTR_CUSTOM_VARIABLE :: int where "MODATTR_CUSTOM_VARIABLE = 32768"
definition MODATTR_NOTIFICATION_TIMEPERIOD :: int where "MODATTR_NOTIFICATION_TIMEPERIOD = 65536"

definition CMD_NONE :: nat where "CMD_NONE = 0"

section \<open>Configured objects\<close>

record customvariable =
  cv_name :: string
  cv_value :: string
  cv_has_been_modified :: bool

record contact =
  c_alias :: string
  c_host_notification_commands :: "string list"
  c_service_notification_commands :: "string list"
  c_notify_on_service_unknown :: bool
  c_notify_on_service_warning :: bool
  c_notify_on_service_critical :: bool
  c_notify_on_service_recovery :: bool
  c_notify_on_service_flapping :: bool
  c_notify_on_service_downtime :: bool
  c_notify_on_host_down :: bool
  c_notify_on_host_unreachable :: bool
  c_notify_on_host_recovery :: bool
  c_notify_on_host_flapping :: bool
  c_notify_on_host_downtime :: bool
  c_host_notifications_enabled :: bool
  c_service_notifications_enabled :: bool
  c_last_host_notification :: int
  c_last_service_notification :: int
  c_host_notification_period :: "tp_id option"
  c_service_notification_period :: "tp_id option"
  c_timezone :: string
  c_modified_attributes :: int
  c_modified_host_attributes :: int
  c_modified_service_attributes :: int
  c_custom_variables :: "customvariable list"

text \<open>
  A member list (\<open>contactsmember\<close>, \<open>contactgroupsmember\<close>) is a list of pointers
  that may be NULL.
\<close>

record contacts_of =
  contacts :: "contact_id option list"
  contact_groups :: "group_id option list"

record serviceescalation = contacts_of +
  se_service_ptr :: "svc_id option"
  se_first_notification :: int
  se_last_notification :: int
  se_notification_interval :: rat
  se_escalation_period :: "tp_id option"
  se_escalate_on_recovery :: bool
  se_escalate_on_warning :: bool
  se_escalate_on_unknown :: bool
  se_escalate_on_critical :: bool

record hostescalation = contacts_of +
  he_host_ptr :: "host_id option"
  he_first_notification :: int
  he_last_notification :: int
  he_notification_interval :: rat
  he_escalation_period :: "tp_id option"
  he_escalate_on_recovery :: bool
  he_escalate_on_down :: bool
  he_escalate_on_unreachable :: bool

record servicedependency =
  sd_dependency_type :: dep_type
  sd_master_service_ptr :: "svc_id option"
  sd_dependency_period :: "tp_id option"
  sd_inherits_parent :: bool
  sd_fail_on_ok :: bool
  sd_fail_on_warning :: bool
  sd_fail_on_unknown :: bool
  sd_fail_on_critical :: bool
  sd_fail_on_pending :: bool

record hostdependency =
  hd_dependency_type :: dep_type
  hd_master_host_ptr :: "host_id option"
  hd_dependency_period :: "tp_id option"
  hd_inherits_parent :: bool
  hd_fail_on_up :: bool
  hd_fail_on_down :: bool
  hd_fail_on_unreachable :: bool
  hd_fail_on_pending :: bool

section \<open>Services and hosts\<close>

record service_conf = contacts_of +
  s_host_ptr :: "host_id option"
  s_check_interval :: rat
  s_retry_interval :: rat
  s_max_attempts :: int
  s_notification_interval :: rat
  s_first_notification_delay :: rat
  s_notify_on_unknown :: bool
  s_notify_on_warning :: bool
  s_notify_on_critical :: bool
  s_notify_on_recovery :: bool
  s_notify_on_flapping :: bool
  s_notify_on_downtime :: bool
  s_stalk_on_ok :: bool
  s_stalk_on_warning :: bool
  s_stalk_on_unknown :: bool
  s_stalk_on_critical :: bool
  s_is_volatile :: bool
  s_notification_period_ptr :: "tp_id option"
  s_check_period_ptr :: "tp_id option"
  s_flap_detection_enabled :: bool
  s_low_flap_threshold :: rat
  s_high_flap_threshold :: rat
  s_flap_detection_on_ok :: bool
  s_flap_detection_on_warning :: bool
  s_flap_detection_on_unknown :: bool
  s_flap_detection_on_critical :: bool
  s_accept_passive_service_checks :: bool
  s_checks_enabled :: bool
  s_notifications_enabled :: bool
  s_check_freshness :: bool
  s_freshness_threshold :: int
  s_event_handler_enabled :: bool
  s_obsess_over_service :: bool

record service = service_conf +
  s_problem_has_been_acknowledged :: bool
  s_acknowledgement_type :: ack_type
  s_host_problem_at_last_check :: bool
  s_check_type :: check_type
  s_current_state :: svc_state
  s_last_state :: svc_state
  s_last_hard_state :: svc_state
  s_plugin_output :: "string option"
  s_state_type :: state_type
  s_next_check :: int
  s_should_be_scheduled :: bool
  s_last_check :: int
  s_current_attempt :: int
  s_current_event_id :: nat
  s_last_event_id :: nat
  s_current_problem_id :: nat
  s_last_problem_id :: nat
  s_last_notification :: int
  s_next_notification :: int
  s_no_more_notifications :: bool
  s_check_flapping_recovery_notification :: bool
  s_last_state_change :: int
  s_last_hard_state_change :: int
  s_last_time_ok :: int
  s_last_time_warning :: int
  s_last_time_unknown :: int
  s_last_time_critical :: int
  s_has_been_checked :: bool
  s_is_being_freshened :: bool
  s_notified_on_unknown :: bool
  s_notified_on_warning :: bool
  s_notified_on_critical :: bool
  s_current_notification_number :: int
  s_current_notification_id :: nat
  s_latency :: rat
  s_execution_time :: rat
  s_check_command_ptr :: "string option"
  s_long_plugin_output :: "string option"
  s_perf_data :: "string option"
  s_is_executing :: bool
  s_check_options :: int
  s_scheduled_downtime_depth :: int
  s_pending_flex_downtime :: int
  s_state_history :: "svc_state list"
  s_state_history_index :: nat
  s_is_flapping :: bool
  s_flapping_comment_id :: nat
  s_percent_state_change :: rat
  s_modified_attributes :: int
  s_custom_variables :: "customvariable list"

record service_other_properties =
  so_initial_notif_time :: int
  so_timezone :: string
  so_acknowledgement_timeout :: int
  so_last_acknowledgement :: int
  so_recovery_notification_delay :: int
  so_recovery_been_sent :: bool

record host_conf = contacts_of +
  h_parent_hosts :: "host_id option list"
  h_child_hosts :: "host_id option list"
  h_host_check_command :: "string option"
  h_check_command_ptr :: "string option"
  h_initial_state :: host_state
  h_check_interval :: rat
  h_retry_interval :: rat
  h_max_attempts :: int
  h_notification_interval :: rat
  h_first_notification_delay :: rat
  h_notify_on_down :: bool
  h_notify_on_unreachable :: bool
  h_notify_on_recovery :: bool
  h_notify_on_flapping :: bool
  h_notify_on_downtime :: bool
  h_notification_period_ptr :: "tp_id option"
  h_check_period_ptr :: "tp_id option"
  h_flap_detection_enabled :: bool
  h_low_flap_threshold :: rat
  h_high_flap_threshold :: rat
  h_flap_detection_on_up :: bool
  h_flap_detection_on_down :: bool
  h_flap_detection_on_unreachable :: bool
  h_stalk_on_up :: bool
  h_stalk_on_down :: bool
  h_stalk_on_unreachable :: bool
  h_check_freshness :: bool
  h_freshness_threshold :: int
  h_accept_passive_host_checks :: bool
  h_checks_enabled :: bool
  h_notifications_enabled :: bool
  h_total_services :: int
  h_total_service_check_interval :: int
  h_address :: string
  h_services :: "svc_id option list"
  h_event_handler_enabled :: bool
  h_obsess_over_host :: bool

record host_check_state = host_conf +
  h_check_type :: check_type
  h_plugin_output :: "string option"
  h_current_event_id :: nat
  h_last_event_id :: nat
  h_current_problem_id :: nat
  h_last_problem_id :: nat
  h_latency :: rat
  h_execution_time :: rat
  h_long_plugin_output :: "string option"
  h_perf_data :: "string option"
  h_is_executing :: bool
  h_should_be_scheduled :: bool
  h_last_time_up :: int
  h_last_time_down :: int
  h_last_time_unreachable :: int
  h_is_being_freshened :: bool

record host = host_check_state +
  h_problem_has_been_acknowledged :: bool
  h_acknowledgement_type :: ack_type
  h_current_state :: host_state
  h_last_state :: host_state
  h_last_hard_state :: host_state
  h_state_type :: state_type
  h_current_attempt :: int
  h_next_check :: int
  h_last_check :: int
  h_last_host_notification :: int
  h_next_host_notification :: int
  h_last_state_change :: int
  h_last_hard_state_change :: int
  h_has_been_checked :: bool
  h_notified_on_down :: bool
  h_notified_on_unreachable :: bool
  h_current_notification_number :: int
  h_no_more_notifications :: bool
  h_current_notification_id :: nat
  h_check_flapping_recovery_notification :: bool
  h_scheduled_downtime_depth :: int
  h_pending_flex_downtime :: int
  h_check_options :: int
  h_state_history :: "host_state list"
  h_state_history_index :: nat
  h_last_state_history_update :: int
  h_is_flapping :: bool
  h_flapping_comment_id :: nat
  h_percent_state_change :: rat
  h_modified_attributes :: int
  h_custom_variables :: "customvariable list"

record host_other_properties =
  ho_initial_notif_time :: int
  ho_should_reschedule_current_check :: bool
  ho_timezone :: string
  ho_acknowledgement_timeout :: int
  ho_last_acknowledgement :: int
  ho_recovery_notification_delay :: int
  ho_recovery_been_sent :: bool

section \<open>Comments\<close>

datatype comment_type = HOST_COMMENT | SERVICE_COMMENT

datatype comment_entry = USER_COMMENT | DOWNTIME_COMMENT | FLAPPING_COMMENT | ACKNOWLEDGEMENT_COMMENT

record comment =
  cm_comment_type :: comment_type
  cm_entry_type :: comment_entry
  cm_comment_id :: nat
  cm_source :: int
  cm_persistent :: bool
  cm_entry_time :: int
  cm_expires :: bool
  cm_expire_time :: int
  cm_host_name :: string
  cm_service_description :: "string option"
  cm_author :: string
  cm_comment_data :: string

section \<open>Downtimes\<close>

datatype downtime_type = SERVICE_DOWNTIME | HOST_DOWNTIME

record scheduled_downtime =
  dt_type :: downtime_type
  dt_host_name :: string
  dt_service_description :: "string option"
  dt_entry_time :: int
  dt_start_time :: int
  dt_end_time :: int
  dt_fixed :: bool
  dt_triggered_by :: nat
  dt_duration :: nat
  dt_downtime_id :: nat
  dt_author :: "string option"
  dt_comment :: "string option"
  dt_comment_id :: nat
  dt_is_in_effect :: bool
  dt_start_flex_downtime :: bool
  dt_incremented_pending_downtime :: bool

datatype downtime_event = NEB_downtime_add | NEB_downtime_load | NEB_downtime_delete
  | NEB_downtime_start | NEB_downtime_stop_normal | NEB_downtime_stop_cancelled

section \<open>Check results\<close>

datatype object_check_type = SERVICE_CHECK | HOST_CHECK

record check_result =
  cr_object_check_type :: object_check_type
  cr_host_name :: string
  cr_service_description :: "string option"
  cr_check_type :: check_type
  cr_check_options :: int
  cr_scheduled_check :: bool
  cr_reschedule_check :: bool
  cr_latency :: rat
  cr_start_time :: "int \<times> int"
  cr_finish_time :: "int \<times> int"
  cr_early_timeout :: bool
  cr_exited_ok :: bool
  cr_return_code :: int
  cr_output :: "string option"

text \<open>What a command that was waited for gives back.\<close>

record command_result =
  res_exit_code :: int
  res_timeout :: bool
  res_output :: string
  res_seconds :: nat

section \<open>Configuration\<close>

record config =
  enable_notifications :: bool
  enable_flap_detection :: bool
  interval_length :: int
  low_service_flap_threshold :: rat
  high_service_flap_threshold :: rat
  low_host_flap_threshold :: rat
  high_host_flap_threshold :: rat
  soft_state_dependencies :: bool
  accept_passive_service_checks :: bool
  accept_passive_host_checks :: bool
  translate_passive_host_checks :: bool
  passive_host_checks_are_soft :: bool
  enable_predictive_host_dependency_checks :: bool
  check_service_freshness :: bool
  check_host_freshness :: bool
  additional_freshness_latency :: int
  max_service_check_spread :: int
  max_host_check_spread :: int
  use_aggressive_host_checking :: bool
  enable_predictive_service_dependency_checks :: bool
  obsess_over_services :: bool
  cached_host_check_horizon :: int
  cached_service_check_horizon :: int
  time_change_threshold :: int
  max_parallel_service_checks :: int
  execute_service_checks :: bool
  execute_host_checks :: bool
  command_check_interval :: int
  host_check_timeout :: int
  service_check_timeout :: int
  check_reaper_interval :: int
  max_check_reaper_time :: int
  log_host_retries :: bool
  check_orphaned_hosts :: bool
  check_orphaned_services :: bool
  auto_rescheduling_window :: int
  enable_event_handlers :: bool
  obsess_over_hosts :: bool
  process_performance_data :: bool
  check_external_commands :: bool

section \<open>What the engine does to the outside\<close>

text \<open>
  The calls that leave the model, in the order the code makes them: broker callbacks,
  notification commands, checks that are launched, status updates.
\<close>

datatype notif_target = HostTarget host_id | ServiceTarget svc_id

datatype check_phase = Async_precheck | Sync_precheck | Check_initiate | Raw_start | Raw_end | Check_processed

datatype check_stat = PASSIVE_HOST_CHECK_STATS | PASSIVE_SERVICE_CHECK_STATS
  | ACTIVE_SCHEDULED_HOST_CHECK_STATS | ACTIVE_ONDEMAND_HOST_CHECK_STATS | PARALLEL_HOST_CHECK_STATS
  | SERIAL_HOST_CHECK_STATS | ACTIVE_CACHED_HOST_CHECK_STATS | ACTIVE_SCHEDULED_SERVICE_CHECK_STATS
  | ACTIVE_ONDEMAND_SERVICE_CHECK_STATS | ACTIVE_CACHED_SERVICE_CHECK_STATS

datatype action =
    Broker_notification_start notif_target notif_type bool
  | Broker_notification_end notif_target notif_type bool nat
  | Broker_contact_start contact_id notif_target notif_type bool
  | Broker_contact_end contact_id notif_target notif_type bool
  | Broker_method_start contact_id notif_target string
  | Broker_method_end contact_id notif_target string
  | Run_notification_command contact_id notif_target string
  | Update_status notif_target
  | Update_program_status
  | Broker_flapping_start notif_target rat rat rat
  | Broker_flapping_stop notif_target rat rat rat
  | Broker_flapping_disabled notif_target rat
  | Broker_comment_add comment_type nat
  | Broker_comment_load comment_type nat
  | Broker_comment_delete comment_type nat
  | Broker_downtime downtime_event downtime_type nat
  | Broker_adaptive notif_target nat int int
  | Broker_adaptive_contact contact_id nat "int \<times> int" "int \<times> int" "int \<times> int"
  | Broker_adaptive_program "int \<times> int" "int \<times> int"
  | Update_contact_status contact_id
  | Broker_acknowledgement notif_target string string int bool bool
  | Broker_external_command bool nat int string string
  | External_command_stats
  | Read_retention_data
  | Remove_file string
  | Broker_service_check check_phase svc_id
  | Broker_external_command_check
  | Broker_sleep
  | Log_service_event svc_id
  | Handle_service_event svc_id
  | Obsessive_service_check svc_id
  | Broker_host_check check_phase host_id
  | Log_host_event host_id
  | Handle_host_event host_id
  | Obsessive_host_check host_id
  | Run_host_check host_id
  | Run_service_check svc_id
  | Broker_system_command bool
  | Check_stats check_stat int
  | Update_host_performance_data host_id
  | Update_performance_data svc_id
  | Save_retention_data
  | Save_status_data
  | Idle

datatype dep_result = DEPENDENCIES_OK | DEPENDENCIES_FAILED

datatype neb_result = NEB_CONTINUE | NEB_CANCEL | NEB_OVERRIDE

section \<open>The engine and its environment\<close>

text \<open>
  The macros the notification code sets itself (the \<open>MACRO_NOTIFICATION*\<close> slots and
  their per-object variants); a slot that was not set is \<open>None\<close>.
\<close>

record nagios_macros =
  mac_recipients :: "string option"
  mac_isescalated :: "bool option"
  mac_author :: "string option"
  mac_comment :: "string option"
  mac_authorname :: "string option"
  mac_authoralias :: "string option"
  mac_serviceackauthor :: "string option"
  mac_serviceackcomment :: "string option"
  mac_serviceackauthorname :: "string option"
  mac_serviceackauthoralias :: "string option"
  mac_hostackauthor :: "string option"
  mac_hostackcomment :: "string option"
  mac_hostackauthorname :: "string option"
  mac_hostackauthoralias :: "string option"
  mac_type :: "string option"
  mac_number :: "int option"
  mac_id :: "nat option"

definition empty_macros :: nagios_macros where
  "empty_macros = \<lparr>mac_recipients = None, mac_isescalated = None, mac_author = None,
     mac_comment = None, mac_authorname = None, mac_authoralias = None,
     mac_serviceackauthor = None, mac_serviceackcomment = None, mac_serviceackauthorname = None,
     mac_serviceackauthoralias = None, mac_hostackauthor = None, mac_hostackcomment = None,
     mac_hostackauthorname = None, mac_hostackauthoralias = None, mac_type = None,
     mac_number = None, mac_id = None\<rparr>"

record engine =
  cfg :: config
  host_of :: "host_id \<Rightarrow> host"
  svc_of :: "svc_id \<Rightarrow> service"
  host_list :: "host_id list"
  service_list :: "svc_id list"
  host_other_props :: "host_id \<Rightarrow> host_other_properties"
  service_other_props :: "svc_id \<Rightarrow> service_other_properties"
  contact_of :: "contact_id \<Rightarrow> contact"
  contact_list :: "contact_id list"
  group_members :: "group_id \<Rightarrow> contact_id option list"
  serviceescalations :: "svc_id \<Rightarrow> serviceescalation list"
  serviceescalation_list :: "serviceescalation list"
  hostescalations :: "host_id \<Rightarrow> hostescalation list"
  hostescalation_list :: "hostescalation list"
  servicedependencies :: "svc_id \<Rightarrow> servicedependency list"
  hostdependencies :: "host_id \<Rightarrow> hostdependency list"
  comment_list :: "comment list"
  comment_hashlist :: "nat \<Rightarrow> comment list"
  defer_comment_sorting :: bool
  next_comment_id :: nat
  downtime_list :: "addr list"
  downtime_at :: "addr \<Rightarrow> scheduled_downtime"
  defer_downtime_sorting :: bool
  next_downtime_id :: nat
  next_notification_id :: nat
  next_event_id :: nat
  next_problem_id :: nat
  currently_running_service_checks :: int
  currently_running_host_checks :: int
  modified_host_process_attributes :: int
  modified_service_process_attributes :: int
  program_start :: int
  event_start :: int
  last_command_check :: int
  last_command_status_update :: int
  hostgroup_of :: "string \<Rightarrow> (host_id \<times> host_id option) list option"
  servicegroup_of :: "string \<Rightarrow> (svc_id \<times> svc_id option) list option"
  contactgroup_list :: "group_id list"
  timeperiod_list :: "tp_id list"
  list_id :: "nat \<Rightarrow> check_result option"
  to_reap :: "check_result list"
  to_reap_partial :: "(nat \<times> check_result) list"
  evs :: evstore
  next_addr :: addr
  out :: "action list"

record env =
  now :: int
  pointer_value :: "addr \<Rightarrow> nat"
  call_timing_func :: "addr \<Rightarrow> int"
  next_valid_time_per_timeperiod :: "string option \<Rightarrow> int \<Rightarrow> tp_id \<Rightarrow> int"
  neb_notification :: "notif_target \<Rightarrow> notif_type \<Rightarrow> neb_result"
  neb_contact_notification :: "contact_id \<Rightarrow> notif_target \<Rightarrow> notif_type \<Rightarrow> neb_result"
  neb_host_check :: "check_phase \<Rightarrow> host_id \<Rightarrow> neb_result"
  neb_service_check :: "check_phase \<Rightarrow> svc_id \<Rightarrow> neb_result"
  run_command :: "action list \<Rightarrow> notif_target \<Rightarrow> nat option"
  wait_command :: "action list \<Rightarrow> host_id \<Rightarrow> command_result option"
  now_us :: int
  read_file :: "string \<Rightarrow> string list option"
  errno_is_EINVAL :: bool
  neb_contact_method :: "contact_id \<Rightarrow> notif_target \<Rightarrow> string \<Rightarrow> neb_result"
  downtime_text :: "scheduled_downtime \<Rightarrow> string"
  flapping_text :: "notif_target \<Rightarrow> rat \<Rightarrow> rat \<Rightarrow> string"
  processed_command :: "nagios_macros \<Rightarrow> contact_id \<Rightarrow> notif_target \<Rightarrow> string \<Rightarrow> string option"

section \<open>Access\<close>

definition emit :: "action \<Rightarrow> engine \<Rightarrow> engine" where
  "emit a w = w\<lparr>out := out w @ [a]\<rparr>"

definition upd_svc :: "svc_id \<Rightarrow> (service \<Rightarrow> service) \<Rightarrow> engine \<Rightarrow> engine" where
  "upd_svc s f w = w\<lparr>svc_of := (svc_of w)(s := f (svc_of w s))\<rparr>"

definition upd_host :: "host_id \<Rightarrow> (host \<Rightarrow> host) \<Rightarrow> engine \<Rightarrow> engine" where
  "upd_host h f w = w\<lparr>host_of := (host_of w)(h := f (host_of w h))\<rparr>"

definition upd_contact :: "contact_id \<Rightarrow> (contact \<Rightarrow> contact) \<Rightarrow> engine \<Rightarrow> engine" where
  "upd_contact c f w = w\<lparr>contact_of := (contact_of w)(c := f (contact_of w c))\<rparr>"

definition upd_svc_other ::
    "svc_id \<Rightarrow> (service_other_properties \<Rightarrow> service_other_properties) \<Rightarrow> engine \<Rightarrow> engine" where
  "upd_svc_other s f w =
     w\<lparr>service_other_props := (service_other_props w)(s := f (service_other_props w s))\<rparr>"

definition upd_host_other ::
    "host_id \<Rightarrow> (host_other_properties \<Rightarrow> host_other_properties) \<Rightarrow> engine \<Rightarrow> engine" where
  "upd_host_other h f w =
     w\<lparr>host_other_props := (host_other_props w)(h := f (host_other_props w h))\<rparr>"

lemmas access_defs = emit_def upd_svc_def upd_host_def upd_contact_def upd_svc_other_def
  upd_host_other_def

definition opt_string :: "string \<Rightarrow> string option" where
  "opt_string tz = (if tz = [] then None else Some tz)"

definition get_service_timezone :: "engine \<Rightarrow> svc_id \<Rightarrow> string option" where
  "get_service_timezone w s = opt_string (so_timezone (service_other_props w s))"

definition get_host_timezone :: "engine \<Rightarrow> host_id \<Rightarrow> string option" where
  "get_host_timezone w h = opt_string (ho_timezone (host_other_props w h))"

definition get_contact_timezone :: "engine \<Rightarrow> contact_id \<Rightarrow> string option" where
  "get_contact_timezone w c = opt_string (c_timezone (contact_of w c))"

text \<open>
  The entry points of the time period code: without a period every time is good, and a
  time is in a period if the search for the next valid time returns that very time.
\<close>

definition check_time_against_period ::
    "env \<Rightarrow> string option \<Rightarrow> int \<Rightarrow> tp_id option \<Rightarrow> result" where
  "check_time_against_period ev tz t tp =
     (case tp of None \<Rightarrow> OK | Some p \<Rightarrow>
        if next_valid_time_per_timeperiod ev tz t p = t then OK else ERROR)"

definition get_next_valid_time :: "env \<Rightarrow> string option \<Rightarrow> int \<Rightarrow> tp_id option \<Rightarrow> int" where
  "get_next_valid_time ev tz pref_time tp =
     (let preferred_time = max pref_time (now ev)
      in case tp of None \<Rightarrow> preferred_time | Some p \<Rightarrow> next_valid_time_per_timeperiod ev tz preferred_time p)"

end
