(* ===== verification/Examples.thy ===== *)
theory Examples
  imports Objects
begin

text \<open>
  A small engine on which the properties are instantiated: one host \<open>''h''\<close>, one
  service on it, two contacts, no escalations, no dependencies, empty event lists and no
  comment. Nothing here models code.
\<close>

definition ex_contact :: contact where
  "ex_contact = \<lparr>c_alias = ''Alice'', c_host_notification_commands = [''hcmd''], c_service_notification_commands = [''scmd''],
     c_notify_on_service_unknown = True, c_notify_on_service_warning = True,
     c_notify_on_service_critical = True, c_notify_on_service_recovery = True,
     c_notify_on_service_flapping = True, c_notify_on_service_downtime = True,
     c_notify_on_host_down = True, c_notify_on_host_unreachable = True,
     c_notify_on_host_recovery = True, c_notify_on_host_flapping = True,
     c_notify_on_host_downtime = True, c_host_notifications_enabled = True,
     c_service_notifications_enabled = True, c_last_host_notification = 0,
     c_last_service_notification = 0, c_host_notification_period = None,
     c_service_notification_period = None, c_timezone = '''', c_modified_attributes = 0, c_modified_host_attributes = 0,
     c_modified_service_attributes = 0, c_custom_variables = []\<rparr>"

definition ex_service :: service where
  "ex_service = \<lparr>contacts = [Some ''alice''], contact_groups = [Some ''ops''],
     s_host_ptr = Some ''h'', s_check_interval = 5, s_retry_interval = 1, s_max_attempts = 3,
     s_notification_interval = 30, s_first_notification_delay = 0, s_notify_on_unknown = True,
     s_notify_on_warning = True, s_notify_on_critical = True, s_notify_on_recovery = True,
     s_notify_on_flapping = True, s_notify_on_downtime = True, s_stalk_on_ok = False,
     s_stalk_on_warning = False, s_stalk_on_unknown = False, s_stalk_on_critical = False,
     s_is_volatile = False, s_notification_period_ptr = None, s_check_period_ptr = None,
     s_flap_detection_enabled = True, s_low_flap_threshold = 0, s_high_flap_threshold = 0,
     s_flap_detection_on_ok = True, s_flap_detection_on_warning = True,
     s_flap_detection_on_unknown = True, s_flap_detection_on_critical = True,
     s_accept_passive_service_checks = True, s_checks_enabled = True,
     s_notifications_enabled = True, s_check_freshness = False, s_freshness_threshold = 0,
     s_event_handler_enabled = True, s_obsess_over_service = True,
     s_problem_has_been_acknowledged = False,
     s_acknowledgement_type = ACKNOWLEDGEMENT_NONE, s_host_problem_at_last_check = False,
     s_check_type = CHECK_ACTIVE, s_current_state = STATE_CRITICAL, s_last_state = STATE_CRITICAL,
     s_last_hard_state = STATE_CRITICAL, s_plugin_output = None, s_state_type = HARD_STATE,
     s_next_check = 2000, s_should_be_scheduled = True, s_last_check = 900,
     s_current_attempt = 3, s_current_event_id = 1, s_last_event_id = 0,
     s_current_problem_id = 1, s_last_problem_id = 0, s_last_notification = 0,
     s_next_notification = 0, s_no_more_notifications = False,
     s_check_flapping_recovery_notification = False, s_last_state_change = 700,
     s_last_hard_state_change = 800, s_last_time_ok = 600, s_last_time_warning = 0,
     s_last_time_unknown = 0, s_last_time_critical = 900, s_has_been_checked = True,
     s_is_being_freshened = False, s_notified_on_unknown = False, s_notified_on_warning = False,
     s_notified_on_critical = False, s_current_notification_number = 0,
     s_current_notification_id = 0, s_latency = 0, s_execution_time = 0, s_check_command_ptr = Some ''http'', s_long_plugin_output = None, s_perf_data = None, s_is_executing = False, s_check_options = 0,
     s_scheduled_downtime_depth = 0, s_pending_flex_downtime = 0,
     s_state_history = replicate 21 STATE_OK, s_state_history_index = 0, s_is_flapping = False,
     s_flapping_comment_id = 0, s_percent_state_change = 0, s_modified_attributes = 0, s_custom_variables = []\<rparr>"

definition ex_host :: host where
  "ex_host = \<lparr>contacts = [Some ''alice''], contact_groups = [Some ''ops''],
     h_parent_hosts = [], h_child_hosts = [], h_host_check_command = Some ''ping'',
     h_check_command_ptr = Some ''ping'', h_initial_state = HOST_UP, h_check_interval = 5, h_retry_interval = 1, h_max_attempts = 3,
     h_notification_interval = 30, h_first_notification_delay = 0, h_notify_on_down = True,
     h_notify_on_unreachable = True, h_notify_on_recovery = True, h_notify_on_flapping = True,
     h_notify_on_downtime = True, h_notification_period_ptr = None, h_check_period_ptr = None,
     h_flap_detection_enabled = True, h_low_flap_threshold = 0, h_high_flap_threshold = 0,
     h_flap_detection_on_up = True, h_flap_detection_on_down = True,
     h_flap_detection_on_unreachable = True, h_stalk_on_up = False, h_stalk_on_down = False,
     h_stalk_on_unreachable = False, h_check_freshness = False, h_freshness_threshold = 0,
     h_accept_passive_host_checks = True, h_checks_enabled = True,
     h_notifications_enabled = True, h_total_services = 1, h_total_service_check_interval = 5,
     h_address = ''10.0.0.1'', h_services = [Some (''h'', ''s'')], h_event_handler_enabled = True, h_obsess_over_host = True,
     h_check_type = CHECK_ACTIVE, h_plugin_output = None, h_current_event_id = 0, h_last_event_id = 0,
     h_current_problem_id = 0, h_last_problem_id = 0, h_latency = 0, h_execution_time = 0, h_long_plugin_output = None, h_perf_data = None, h_is_executing = False,
     h_should_be_scheduled = True, h_last_time_up = 900, h_last_time_down = 0,
     h_last_time_unreachable = 0, h_is_being_freshened = False,
     h_problem_has_been_acknowledged = False, h_acknowledgement_type = ACKNOWLEDGEMENT_NONE,
     h_current_state = HOST_UP, h_last_state = HOST_UP, h_last_hard_state = HOST_UP,
     h_state_type = HARD_STATE, h_current_attempt = 1, h_next_check = 2000, h_last_check = 900,
     h_last_host_notification = 0, h_next_host_notification = 0, h_last_state_change = 100,
     h_last_hard_state_change = 100, h_has_been_checked = True, h_notified_on_down = False,
     h_notified_on_unreachable = False, h_current_notification_number = 0,
     h_no_more_notifications = False, h_current_notification_id = 0,
     h_check_flapping_recovery_notification = False, h_scheduled_downtime_depth = 0,
     h_pending_flex_downtime = 0, h_check_options = 0, h_state_history = replicate 21 HOST_UP,
     h_state_history_index = 0, h_last_state_history_update = 0, h_is_flapping = False,
     h_flapping_comment_id = 0, h_percent_state_change = 0, h_modified_attributes = 0, h_custom_variables = []\<rparr>"

definition ex_cfg :: config where
  "ex_cfg = \<lparr>enable_notifications = True, enable_flap_detection = True, interval_length = 60,
     low_service_flap_threshold = 20, high_service_flap_threshold = 30,
     low_host_flap_threshold = 20, high_host_flap_threshold = 30, soft_state_dependencies = False,
     accept_passive_service_checks = True, accept_passive_host_checks = True,
     translate_passive_host_checks = False, passive_host_checks_are_soft = False,
     enable_predictive_host_dependency_checks = True, check_service_freshness = True,
     check_host_freshness = False, additional_freshness_latency = 15,
     max_service_check_spread = 5, max_host_check_spread = 5, use_aggressive_host_checking = False,
     enable_predictive_service_dependency_checks = True, obsess_over_services = False,
     cached_host_check_horizon = 15, cached_service_check_horizon = 15,
     time_change_threshold = 900, max_parallel_service_checks = 0, execute_service_checks = True,
     execute_host_checks = True, command_check_interval = 60,
     host_check_timeout = 30, service_check_timeout = 60, check_reaper_interval = 5,
     max_check_reaper_time = 30, log_host_retries = True, check_orphaned_hosts = True,
     check_orphaned_services = True, auto_rescheduling_window = 180, enable_event_handlers = True,
     obsess_over_hosts = False, process_performance_data = False, check_external_commands = True\<rparr>"

definition ex_downtime :: scheduled_downtime where
  "ex_downtime = \<lparr>dt_type = SERVICE_DOWNTIME, dt_host_name = ''h'', dt_service_description = Some ''s'',
     dt_entry_time = 900, dt_start_time = 950, dt_end_time = 2000, dt_fixed = True, dt_triggered_by = 0,
     dt_duration = 0, dt_downtime_id = 1, dt_author = Some ''alice'', dt_comment = Some ''upgrade'',
     dt_comment_id = 0, dt_is_in_effect = False, dt_start_flex_downtime = False,
     dt_incremented_pending_downtime = False\<rparr>"

definition ex_engine :: engine where
  "ex_engine = \<lparr>cfg = ex_cfg, host_of = (\<lambda>_. ex_host), svc_of = (\<lambda>_. ex_service),
     host_list = [''h''], service_list = [(''h'', ''s'')],
     host_other_props = (\<lambda>_. \<lparr>ho_initial_notif_time = 0, ho_should_reschedule_current_check = False, ho_timezone = '''',
        ho_acknowledgement_timeout = 0, ho_last_acknowledgement = 0,
        ho_recovery_notification_delay = 0, ho_recovery_been_sent = True\<rparr>),
     service_other_props = (\<lambda>_. \<lparr>so_initial_notif_time = 0, so_timezone = '''',
        so_acknowledgement_timeout = 0, so_last_acknowledgement = 0,
        so_recovery_notification_delay = 0, so_recovery_been_sent = True\<rparr>),
     contact_of = (\<lambda>_. ex_contact), contact_list = [''alice'', ''bob''], group_members = (\<lambda>_. [Some ''alice'', Some ''bob'']),
     serviceescalations = (\<lambda>_. []), serviceescalation_list = [], hostescalations = (\<lambda>_. []),
     hostescalation_list = [], servicedependencies = (\<lambda>_. []), hostdependencies = (\<lambda>_. []),
     comment_list = [], comment_hashlist = (\<lambda>_. []), defer_comment_sorting = False,
     next_comment_id = 1, downtime_list = [], downtime_at = (\<lambda>_. ex_downtime),
     defer_downtime_sorting = False, next_downtime_id = 1, next_notification_id = 1, next_event_id = 2, next_problem_id = 2,
     currently_running_service_checks = 0, currently_running_host_checks = 0, modified_host_process_attributes = 0,
     modified_service_process_attributes = 0, program_start = 10, event_start = 10,
     last_command_check = 10, last_command_status_update = 10, hostgroup_of = (\<lambda>_. None), servicegroup_of = (\<lambda>_. None),
     contactgroup_list = [''ops''], timeperiod_list = [''24x7''], list_id = (\<lambda>_. None), to_reap = [], to_reap_partial = [], evs = ex_empty, next_addr = 0, out = []\<rparr>"

definition ex_env :: env where
  "ex_env = \<lparr>now = 1000, pointer_value = (\<lambda>a. a + 4096), call_timing_func = (\<lambda>_. 0), next_valid_time_per_timeperiod = (\<lambda>_ t _. t),
     neb_notification = (\<lambda>_ _. NEB_CONTINUE), neb_contact_notification = (\<lambda>_ _ _. NEB_CONTINUE),
     neb_host_check = (\<lambda>_ _. NEB_CONTINUE), neb_service_check = (\<lambda>_ _. NEB_CONTINUE),
     run_command = (\<lambda>acts _. Some (Suc (length acts))), wait_command = (\<lambda>_ _. None), now_us = 0, read_file = (\<lambda>_. None), errno_is_EINVAL = False,
     neb_contact_method = (\<lambda>_ _ _. NEB_CONTINUE), downtime_text = (\<lambda>_. ''downtime''), flapping_text = (\<lambda>_ _ _. ''flapping''), processed_command = (\<lambda>_ _ _ c. Some c)\<rparr>"

end
