(* ===== verification/Comments.thy ===== *)
theory Comments
  imports Examples "HOL-Library.List_Lexorder" "HOL-Library.Char_ord"
begin

text \<open>
  The comments of \<^verbatim>\<open>src/objects/comment.cc\<close> and their identifiers of
  \<^verbatim>\<open>src/xcddefault.cc\<close>. The list \<open>comment_list\<close> is kept sorted by identifier
  (unless sorting is deferred while retention data is read); \<open>comment_hashlist\<close> holds
  the same comments in chains, one per hash slot, each sorted by host name. A pointer to a
  comment is the comment itself. Writing the comment file (a call that does nothing) and the
  allocation of memory are left out. \<open>strcmp\<close> is the lexicographic order of the
  library on strings.
\<close>

section \<open>Scheduling\<close>

definition EVENT_EXPIRE_COMMENT :: nat where "EVENT_EXPIRE_COMMENT = 15"

definition schedule_new_event ::
    "nat \<Rightarrow> bool \<Rightarrow> int \<Rightarrow> bool \<Rightarrow> nat \<Rightarrow> addr option \<Rightarrow> bool \<Rightarrow> edata option \<Rightarrow>
     addr option \<Rightarrow> int \<Rightarrow> engine \<Rightarrow> engine option" where
  "schedule_new_event ty high_priority rtime recur interval timing compensate data args opts w =
     (let evt = \<lparr>event_type = ty, run_time = rtime, recurring = recur, event_interval = interval,
                 compensate_for_time_change = compensate, timing_func = timing,
                 event_data = data, event_args = args, event_options = opts,
                 ev_next = None, ev_prev = None\<rparr>;
          a = next_addr w
      in map_option (\<lambda>s. w\<lparr>evs := s, next_addr := Suc a\<rparr>)
           (schedule_event a evt high_priority (evs w)))"

text \<open>An integer cast to \<open>void*\<close>; zero is NULL.\<close>

definition void_ptr :: "nat \<Rightarrow> edata option" where
  "void_ptr n = (if n = 0 then None else Some (RawPtr n))"

section \<open>Finding comments\<close>

definition find_comment :: "nat \<Rightarrow> comment_type \<Rightarrow> engine \<Rightarrow> comment option" where
  "find_comment i ty w =
     find (\<lambda>c. cm_comment_id c = i \<and> cm_comment_type c = ty) (comment_list w)"

definition signed_char :: "char \<Rightarrow> int" where
  "signed_char c = (let n = of_char c in if n < 128 then n else n - 256)"

definition hashfunc :: "string \<Rightarrow> string \<Rightarrow> nat \<Rightarrow> nat" where
  "hashfunc name1 name2 hashslots =
     nat (sum_list (map signed_char (name1 @ name2)) mod 2 ^ 32) mod hashslots"

definition COMMENT_HASHSLOTS :: nat where "COMMENT_HASHSLOTS = 1024"

definition comment_slot :: "string \<Rightarrow> nat" where
  "comment_slot host_name = hashfunc host_name [] COMMENT_HASHSLOTS"

text \<open>
  The chain behind a comment is the part of the list that follows it; looking for the next
  comment of a host returns the comment and what is behind it.
\<close>

definition get_next_comment_by_host :: "string \<Rightarrow> comment list \<Rightarrow> (comment \<times> comment list) option" where
  "get_next_comment_by_host host_name chain =
     (case dropWhile (\<lambda>c. cm_host_name c < host_name) chain of
        [] \<Rightarrow> None
      | c # rest \<Rightarrow> if cm_host_name c = host_name then Some (c, rest) else None)"

lemma get_next_comment_shorter:
  assumes "get_next_comment_by_host h chain = Some (c, rest)"
  shows "length rest < length chain"
proof -
  have "length (dropWhile P chain) \<le> length chain" for P :: "comment \<Rightarrow> bool"
    by (induction chain) auto
  from this [of "\<lambda>c. cm_host_name c < h"] assms show ?thesis
    by (auto simp: get_next_comment_by_host_def split: list.splits if_splits)
qed

function comments_by_host :: "string \<Rightarrow> comment list \<Rightarrow> comment list" where
  "comments_by_host h chain =
     (case get_next_comment_by_host h chain of
        None \<Rightarrow> []
      | Some (c, rest) \<Rightarrow> c # comments_by_host h rest)"
  by auto
termination
  by (relation "measure (\<lambda>(h, chain). length chain)") (auto simp: get_next_comment_shorter)

declare comments_by_host.simps [simp del]

definition host_comments :: "string \<Rightarrow> engine \<Rightarrow> comment list" where
  "host_comments h w = comments_by_host h (comment_hashlist w (comment_slot h))"

definition number_of_host_comments :: "string \<Rightarrow> engine \<Rightarrow> nat" where
  "number_of_host_comments h w =
     length (filter (\<lambda>c. cm_comment_type c = HOST_COMMENT) (host_comments h w))"

definition number_of_service_comments :: "string \<Rightarrow> string \<Rightarrow> engine \<Rightarrow> nat" where
  "number_of_service_comments h d w =
     length (filter (\<lambda>c. cm_comment_type c = SERVICE_COMMENT \<and> cm_service_description c = Some d)
       (host_comments h w))"

section \<open>Adding comments\<close>

fun insert_chain :: "comment \<Rightarrow> comment list \<Rightarrow> comment list" where
  "insert_chain c [] = [c]"
| "insert_chain c (t # ts) =
     (if cm_host_name t < cm_host_name c then t # insert_chain c ts else c # t # ts)"

definition add_comment_to_hashlist :: "comment \<Rightarrow> engine \<Rightarrow> engine" where
  "add_comment_to_hashlist c w =
     (let hashslot = comment_slot (cm_host_name c) in
      w\<lparr>comment_hashlist :=
          (comment_hashlist w)(hashslot := insert_chain c (comment_hashlist w hashslot))\<rparr>)"

fun insert_by_id :: "comment \<Rightarrow> comment list \<Rightarrow> comment list" where
  "insert_by_id c [] = [c]"
| "insert_by_id c (t # ts) =
     (if cm_comment_id c < cm_comment_id t then c # t # ts else t # insert_by_id c ts)"

definition add_comment ::
    "comment_type \<Rightarrow> comment_entry \<Rightarrow> string option \<Rightarrow> string option \<Rightarrow> int \<Rightarrow> string option \<Rightarrow>
     string option \<Rightarrow> nat \<Rightarrow> bool \<Rightarrow> bool \<Rightarrow> int \<Rightarrow> int \<Rightarrow> engine \<Rightarrow> result \<times> engine" where
  "add_comment ty entry host_name svc_description entry_time author data comment_id
      persistent expires expire_time source w =
     (case (host_name, author, data) of
        (Some h, Some a, Some d) \<Rightarrow>
          if ty = SERVICE_COMMENT \<and> svc_description = None then (ERROR, w)
          else
            let c = \<lparr>cm_comment_type = ty, cm_entry_type = entry, cm_comment_id = comment_id,
                     cm_source = source, cm_persistent = persistent, cm_entry_time = entry_time,
                     cm_expires = expires, cm_expire_time = expire_time, cm_host_name = h,
                     cm_service_description = (if ty = SERVICE_COMMENT then svc_description else None),
                     cm_author = a, cm_comment_data = d\<rparr>;
                w1 = add_comment_to_hashlist c w;
                w2 = (if defer_comment_sorting w1
                      then w1\<lparr>comment_list := c # comment_list w1\<rparr>
                      else w1\<lparr>comment_list := insert_by_id c (comment_list w1)\<rparr>)
            in (OK, emit (Broker_comment_load ty comment_id) w2)
      | _ \<Rightarrow> (ERROR, w))"

definition sort_comments :: "engine \<Rightarrow> engine" where
  "sort_comments w =
     (if \<not> defer_comment_sorting w then w
      else w\<lparr>defer_comment_sorting := False,
             comment_list := sort_key cm_comment_id (comment_list w)\<rparr>)"

definition xcddefault_initialize_comment_data :: "engine \<Rightarrow> engine" where
  "xcddefault_initialize_comment_data w =
     (let w1 = (if next_comment_id w = 0
                then w\<lparr>next_comment_id :=
                       foldl (\<lambda>n c. if n \<le> cm_comment_id c then cm_comment_id c + 1 else n) 0
                         (comment_list w)\<rparr>
                else w)
      in if next_comment_id w1 = 0 then w1\<lparr>next_comment_id := 1\<rparr> else w1)"

text \<open>The loop that skips the identifiers in use.\<close>

definition ids_from :: "comment_type \<Rightarrow> comment list \<Rightarrow> nat \<Rightarrow> nat set" where
  "ids_from ty cs n = {cm_comment_id c |c. c \<in> set cs \<and> cm_comment_type c = ty \<and> n \<le> cm_comment_id c}"

lemma finite_ids_from [simp]: "finite (ids_from ty cs n)"
proof (rule finite_subset)
  show "ids_from ty cs n \<subseteq> cm_comment_id ` set cs" by (auto simp: ids_from_def)
qed simp

function next_free_id :: "comment_type \<Rightarrow> engine \<Rightarrow> nat \<Rightarrow> nat" where
  "next_free_id ty w n = (if find_comment n ty w \<noteq> None then next_free_id ty w (n + 1) else n)"
  by auto
termination
proof (relation "measure (\<lambda>(ty, w, n). card (ids_from ty (comment_list w) n))")
  fix ty w n
  assume "find_comment n ty w \<noteq> None"
  then have "n \<in> ids_from ty (comment_list w) n" "n \<notin> ids_from ty (comment_list w) (n + 1)"
    by (auto simp: find_comment_def find_Some_iff ids_from_def)
  moreover have "ids_from ty (comment_list w) (n + 1) \<subseteq> ids_from ty (comment_list w) n"
    by (auto simp: ids_from_def)
  ultimately have "ids_from ty (comment_list w) (n + 1) \<subset> ids_from ty (comment_list w) n"
    by blast
  then show "((ty, w, n + 1), (ty, w, n)) \<in> measure (\<lambda>(ty, w, n). card (ids_from ty (comment_list w) n))"
    by (simp add: psubset_card_mono)
qed simp

declare next_free_id.simps [simp del]

definition xcddefault_add_new_host_comment ::
    "comment_entry \<Rightarrow> string option \<Rightarrow> int \<Rightarrow> string option \<Rightarrow> string option \<Rightarrow> bool \<Rightarrow> int \<Rightarrow>
     bool \<Rightarrow> int \<Rightarrow> engine \<Rightarrow> nat \<times> engine" where
  "xcddefault_add_new_host_comment entry h entry_time author data persistent source expires
      expire_time w =
     (let n = next_free_id HOST_COMMENT w (next_comment_id w);
          w1 = w\<lparr>next_comment_id := n\<rparr>;
          w2 = snd (add_comment HOST_COMMENT entry h None entry_time author data n persistent
                      expires expire_time source w1)
      in (n, w2\<lparr>next_comment_id := n + 1\<rparr>))"

definition xcddefault_add_new_service_comment ::
    "comment_entry \<Rightarrow> string option \<Rightarrow> string option \<Rightarrow> int \<Rightarrow> string option \<Rightarrow> string option \<Rightarrow>
     bool \<Rightarrow> int \<Rightarrow> bool \<Rightarrow> int \<Rightarrow> engine \<Rightarrow> nat \<times> engine" where
  "xcddefault_add_new_service_comment entry h d entry_time author data persistent source expires
      expire_time w =
     (let n = next_free_id SERVICE_COMMENT w (next_comment_id w);
          w1 = w\<lparr>next_comment_id := n\<rparr>;
          w2 = snd (add_comment SERVICE_COMMENT entry h d entry_time author data n persistent
                      expires expire_time source w1)
      in (n, w2\<lparr>next_comment_id := n + 1\<rparr>))"

definition add_new_host_comment ::
    "comment_entry \<Rightarrow> string option \<Rightarrow> int \<Rightarrow> string option \<Rightarrow> string option \<Rightarrow> bool \<Rightarrow> int \<Rightarrow>
     bool \<Rightarrow> int \<Rightarrow> engine \<Rightarrow> nat \<times> engine" where
  "add_new_host_comment entry h entry_time author data persistent source expires expire_time w =
     (let (n, w1) = xcddefault_add_new_host_comment entry h entry_time author data persistent
                      source expires expire_time w
      in (n, emit (Broker_comment_add HOST_COMMENT n) w1))"

definition add_new_service_comment ::
    "comment_entry \<Rightarrow> string option \<Rightarrow> string option \<Rightarrow> int \<Rightarrow> string option \<Rightarrow> string option \<Rightarrow>
     bool \<Rightarrow> int \<Rightarrow> bool \<Rightarrow> int \<Rightarrow> engine \<Rightarrow> nat \<times> engine" where
  "add_new_service_comment entry h d entry_time author data persistent source expires
      expire_time w =
     (let (n, w1) = xcddefault_add_new_service_comment entry h d entry_time author data
                      persistent source expires expire_time w
      in (n, emit (Broker_comment_add SERVICE_COMMENT n) w1))"

definition add_new_comment ::
    "comment_type \<Rightarrow> comment_entry \<Rightarrow> string option \<Rightarrow> string option \<Rightarrow> int \<Rightarrow> string option \<Rightarrow>
     string option \<Rightarrow> bool \<Rightarrow> int \<Rightarrow> bool \<Rightarrow> int \<Rightarrow> engine \<Rightarrow> (nat \<times> engine) option" where
  "add_new_comment ty entry h d entry_time author data persistent source expires expire_time w =
     (let (n, w1) =
            (if ty = HOST_COMMENT
             then add_new_host_comment entry h entry_time author data persistent source expires
                    expire_time w
             else add_new_service_comment entry h d entry_time author data persistent source
                    expires expire_time w)
      in if expires
         then map_option (Pair n)
                (schedule_new_event EVENT_EXPIRE_COMMENT False expire_time False 0 None True
                   (void_ptr n) None 0 w1)
         else Some (n, w1))"

section \<open>Deleting comments\<close>

definition delete_comment :: "comment_type \<Rightarrow> nat \<Rightarrow> engine \<Rightarrow> result \<times> engine" where
  "delete_comment ty comment_id w =
     (case find_comment comment_id ty w of
        None \<Rightarrow> (OK, w)
      | Some c \<Rightarrow>
          let w1 = emit (Broker_comment_delete ty comment_id) w;
              hashslot = comment_slot (cm_host_name c);
              w2 = w1\<lparr>comment_hashlist := (comment_hashlist w1)
                        (hashslot := remove1 c (comment_hashlist w1 hashslot))\<rparr>
          in (OK, w2\<lparr>comment_list := remove1 c (comment_list w2)\<rparr>))"

text \<open>
  The loops below fetch the next comment before they delete the current one, so they visit
  the comments that were there at the start.
\<close>

definition delete_each :: "(comment \<Rightarrow> bool) \<Rightarrow> comment list \<Rightarrow> engine \<Rightarrow> engine" where
  "delete_each P cs w =
     fold (\<lambda>c w. if P c then snd (delete_comment (cm_comment_type c) (cm_comment_id c) w) else w)
       cs w"

definition delete_all_host_comments :: "string option \<Rightarrow> engine \<Rightarrow> result \<times> engine" where
  "delete_all_host_comments host_name w =
     (case host_name of
        None \<Rightarrow> (ERROR, w)
      | Some h \<Rightarrow> (OK, delete_each (\<lambda>c. cm_comment_type c = HOST_COMMENT) (host_comments h w) w))"

definition delete_host_acknowledgement_comments :: "host_id option \<Rightarrow> engine \<Rightarrow> result \<times> engine" where
  "delete_host_acknowledgement_comments hst w =
     (case hst of
        None \<Rightarrow> (ERROR, w)
      | Some h \<Rightarrow>
          (OK, delete_each
             (\<lambda>c. cm_comment_type c = HOST_COMMENT \<and> cm_entry_type c = ACKNOWLEDGEMENT_COMMENT
                \<and> \<not> cm_persistent c) (host_comments h w) w))"

definition is_comment_of_service :: "svc_id \<Rightarrow> comment \<Rightarrow> bool" where
  "is_comment_of_service s c \<longleftrightarrow>
     cm_comment_type c = SERVICE_COMMENT \<and> cm_host_name c = fst s \<and>
     cm_service_description c = Some (snd s)"

definition delete_all_service_comments ::
    "string option \<Rightarrow> string option \<Rightarrow> engine \<Rightarrow> result \<times> engine" where
  "delete_all_service_comments host_name svc_description w =
     (case (host_name, svc_description) of
        (Some h, Some d) \<Rightarrow> (OK, delete_each (is_comment_of_service (h, d)) (comment_list w) w)
      | _ \<Rightarrow> (ERROR, w))"

definition delete_service_acknowledgement_comments :: "svc_id option \<Rightarrow> engine \<Rightarrow> result \<times> engine" where
  "delete_service_acknowledgement_comments svc w =
     (case svc of
        None \<Rightarrow> (ERROR, w)
      | Some s \<Rightarrow>
          (OK, delete_each
             (\<lambda>c. is_comment_of_service s c \<and> cm_entry_type c = ACKNOWLEDGEMENT_COMMENT
                \<and> \<not> cm_persistent c) (comment_list w) w))"

definition delete_all_comments ::
    "comment_type \<Rightarrow> string option \<Rightarrow> string option \<Rightarrow> engine \<Rightarrow> result \<times> engine" where
  "delete_all_comments ty h d w =
     (if ty = HOST_COMMENT then delete_all_host_comments h w else delete_all_service_comments h d w)"

definition check_for_expired_comment :: "env \<Rightarrow> nat \<Rightarrow> engine \<Rightarrow> engine" where
  "check_for_expired_comment ev comment_id w =
     (case find (\<lambda>c. cm_comment_id c = comment_id \<and> cm_expires c \<and> cm_expire_time c < now ev)
             (comment_list w) of
        None \<Rightarrow> w
      | Some c \<Rightarrow> snd (delete_comment (cm_comment_type c) comment_id w))"

section \<open>The invariant of the comments\<close>

definition comment_key :: "comment \<Rightarrow> comment_type \<times> nat" where
  "comment_key c = (cm_comment_type c, cm_comment_id c)"

definition comments_ok :: "engine \<Rightarrow> bool" where
  "comments_ok w \<longleftrightarrow>
     distinct (map comment_key (comment_list w)) \<and>
     (\<not> defer_comment_sorting w \<longrightarrow> sorted (map cm_comment_id (comment_list w))) \<and>
     (\<forall>slot. sorted (map cm_host_name (comment_hashlist w slot)) \<and>
        mset (comment_hashlist w slot) =
          filter_mset (\<lambda>c. comment_slot (cm_host_name c) = slot) (mset (comment_list w)))"

lemma comments_okD:
  assumes "comments_ok w"
  shows "distinct (map comment_key (comment_list w))" "distinct (comment_list w)"
    "\<not> defer_comment_sorting w \<Longrightarrow> sorted (map cm_comment_id (comment_list w))"
    "sorted (map cm_host_name (comment_hashlist w slot))"
    "mset (comment_hashlist w slot) =
       filter_mset (\<lambda>c. comment_slot (cm_host_name c) = slot) (mset (comment_list w))"
  using assms by (auto simp: comments_ok_def distinct_map)

lemma comments_ok_frame [simp]:
  "comments_ok (w\<lparr>next_comment_id := n\<rparr>) = comments_ok w"
  "comments_ok (w\<lparr>evs := s\<rparr>) = comments_ok w" "comments_ok (w\<lparr>next_addr := m\<rparr>) = comments_ok w"
  "comments_ok (emit a w) = comments_ok w"
  by (simp_all add: comments_ok_def emit_def)

lemma emit_frame [simp]:
  "comment_list (emit a w) = comment_list w" "comment_hashlist (emit a w) = comment_hashlist w"
  "defer_comment_sorting (emit a w) = defer_comment_sorting w"
  "next_comment_id (emit a w) = next_comment_id w"
  by (simp_all add: emit_def)

lemma mset_insert_by_id [simp]: "mset (insert_by_id c cs) = add_mset c (mset cs)"
  by (induction cs) simp_all

lemma set_insert_by_id [simp]: "set (insert_by_id c cs) = insert c (set cs)"
  by (induction cs) auto

lemma sorted_insert_by_id:
  "sorted (map cm_comment_id cs) \<Longrightarrow> sorted (map cm_comment_id (insert_by_id c cs))"
  by (induction cs) auto

lemma distinct_insert_by_id:
  "distinct (map comment_key (insert_by_id c cs)) \<longleftrightarrow>
     comment_key c \<notin> comment_key ` set cs \<and> distinct (map comment_key cs)"
  by (induction cs) auto

lemma remove1_insert_by_id: "c \<notin> set cs \<Longrightarrow> remove1 c (insert_by_id c cs) = cs"
  by (induction cs) auto

lemma insert_by_id_last:
  "\<forall>t\<in>set cs. cm_comment_id t \<le> cm_comment_id c \<Longrightarrow> insert_by_id c cs = cs @ [c]"
  by (induction cs) auto

lemma mset_insert_chain [simp]: "mset (insert_chain c cs) = add_mset c (mset cs)"
  by (induction cs) simp_all

lemma set_insert_chain [simp]: "set (insert_chain c cs) = insert c (set cs)"
  by (induction cs) auto

lemma sorted_insert_chain:
  "sorted (map cm_host_name cs) \<Longrightarrow> sorted (map cm_host_name (insert_chain c cs))"
  by (induction cs) auto

lemma remove1_insert_chain: "c \<notin> set cs \<Longrightarrow> remove1 c (insert_chain c cs) = cs"
  by (induction cs) auto

section \<open>Walking a chain\<close>

lemma comments_by_host_sorted:
  "sorted (map cm_host_name chain) \<Longrightarrow> comments_by_host h chain = filter (\<lambda>c. cm_host_name c = h) chain"
proof (induction h chain rule: comments_by_host.induct)
  case (1 h chain)
  let ?drop = "dropWhile (\<lambda>c. cm_host_name c < h) chain"
  let ?take = "takeWhile (\<lambda>c. cm_host_name c < h) chain"
  have split: "chain = ?take @ ?drop" by simp
  have "filter (\<lambda>c. cm_host_name c = h) ?take = []"
    by (auto simp: filter_empty_conv dest: set_takeWhileD)
  then have drop: "filter (\<lambda>c. cm_host_name c = h) chain = filter (\<lambda>c. cm_host_name c = h) ?drop"
    by (subst split, subst filter_append) simp
  have sorted: "sorted (map cm_host_name ?drop)"
  proof -
    have "sorted (map cm_host_name (?take @ ?drop))" using "1.prems" by simp
    then show ?thesis unfolding map_append sorted_append by blast
  qed
  show ?case
  proof (cases ?drop)
    case Nil
    have "comments_by_host h chain = []"
      by (simp add: comments_by_host.simps [of h chain] get_next_comment_by_host_def Nil)
    with drop show ?thesis by (simp only: Nil filter.simps)
  next
    case (Cons c rest)
    then have ge: "h \<le> cm_host_name c"
      using hd_dropWhile [of "\<lambda>c. cm_host_name c < h" chain] by auto
    show ?thesis
    proof (cases "cm_host_name c = h")
      case True
      with Cons have nxt: "get_next_comment_by_host h chain = Some (c, rest)"
        by (simp add: get_next_comment_by_host_def)
      from "1.IH" [OF nxt refl] sorted Cons
      have "comments_by_host h rest = filter (\<lambda>c. cm_host_name c = h) rest" by simp
      with nxt drop Cons True show ?thesis by (simp add: comments_by_host.simps [of h chain])
    next
      case False
      with ge have "h < cm_host_name c" by simp
      with sorted Cons have "filter (\<lambda>c. cm_host_name c = h) ?drop = []"
        by (auto simp: filter_empty_conv)
      with Cons False drop show ?thesis
        by (simp add: comments_by_host.simps [of h chain] get_next_comment_by_host_def)
    qed
  qed
qed

lemma host_comments_mset:
  assumes "comments_ok w"
  shows "mset (host_comments h w) = filter_mset (\<lambda>c. cm_host_name c = h) (mset (comment_list w))"
  using assms
  by (simp add: host_comments_def comments_by_host_sorted comments_okD filter_filter_mset)
    (auto intro!: filter_mset_cong)

lemma host_comments_set:
  assumes "comments_ok w"
  shows "set (host_comments h w) = {c \<in> set (comment_list w). cm_host_name c = h}"
  using arg_cong [OF host_comments_mset [OF assms, of h], of set_mset] by auto

section \<open>Finding and deleting\<close>

lemma find_by_key:
  "distinct (map comment_key cs) \<Longrightarrow> c \<in> set cs \<Longrightarrow>
   find (\<lambda>c'. cm_comment_id c' = cm_comment_id c \<and> cm_comment_type c' = cm_comment_type c) cs = Some c"
  by (induction cs) (auto simp: comment_key_def image_iff)

lemma find_comment_member:
  assumes "distinct (map comment_key (comment_list w))" "c \<in> set (comment_list w)"
  shows "find_comment (cm_comment_id c) (cm_comment_type c) w = Some c"
  using assms unfolding find_comment_def by (rule find_by_key)

lemma find_comment_None:
  "find_comment i ty w = None \<longleftrightarrow> (ty, i) \<notin> comment_key ` set (comment_list w)"
  by (auto simp: find_comment_def find_None_iff comment_key_def)

lemma find_comment_SomeD:
  "find_comment i ty w = Some c \<Longrightarrow> c \<in> set (comment_list w) \<and> comment_key c = (ty, i)"
  by (auto simp: find_comment_def find_Some_iff comment_key_def)

lemma remove1_by_key:
  "distinct (map comment_key cs) \<Longrightarrow> c \<in> set cs \<Longrightarrow>
   remove1 c cs = filter (\<lambda>c'. comment_key c' \<noteq> comment_key c) cs"
  by (induction cs) (auto intro!: filter_True [symmetric] simp: image_iff)

lemma delete_comment_list:
  assumes "comments_ok w"
  shows "comment_list (snd (delete_comment ty i w)) =
    filter (\<lambda>c. comment_key c \<noteq> (ty, i)) (comment_list w)"
proof (cases "find_comment i ty w")
  case None
  then have "(ty, i) \<notin> comment_key ` set (comment_list w)" by (simp add: find_comment_None)
  then have "\<forall>c\<in>set (comment_list w). comment_key c \<noteq> (ty, i)" by (auto simp: image_iff)
  with None show ?thesis by (simp add: delete_comment_def)
next
  case (Some c)
  with assms show ?thesis
    using find_comment_SomeD [OF Some]
    by (auto simp: delete_comment_def Let_def remove1_by_key comments_okD(1))
qed

lemma delete_comment_ok:
  assumes "comments_ok w"
  shows "comments_ok (snd (delete_comment ty i w))"
proof (cases "find_comment i ty w")
  case None
  with assms show ?thesis by (simp add: delete_comment_def)
next
  case (Some c)
  then have c: "c \<in> set (comment_list w)" using find_comment_SomeD by blast
  have "sorted (map cm_comment_id (remove1 c (comment_list w)))" if "\<not> defer_comment_sorting w"
    using assms that by (intro sorted_map_remove1) (simp add: comments_okD)
  moreover have "sorted (map cm_host_name (remove1 c (comment_hashlist w slot)))" for slot
    using assms by (intro sorted_map_remove1) (simp add: comments_okD)
  moreover have "distinct (map comment_key (remove1 c (comment_list w)))"
    using assms c by (simp add: remove1_by_key comments_okD(1) distinct_map_filter)
  ultimately show ?thesis
    using Some assms c
    by (auto simp: delete_comment_def Let_def comments_ok_def)
qed

lemma delete_comment_frame [simp]:
  "defer_comment_sorting (snd (delete_comment ty i w)) = defer_comment_sorting w"
  "next_comment_id (snd (delete_comment ty i w)) = next_comment_id w"
  by (simp_all add: delete_comment_def Let_def emit_def split: option.split)

lemma delete_each_list:
  "comments_ok w \<Longrightarrow> set cs \<subseteq> set (comment_list w0) \<Longrightarrow>
   distinct (map comment_key (comment_list w0)) \<Longrightarrow> set (comment_list w) \<subseteq> set (comment_list w0) \<Longrightarrow>
   comments_ok (delete_each P cs w) \<and>
   comment_list (delete_each P cs w) = filter (\<lambda>c. \<not> (c \<in> set cs \<and> P c)) (comment_list w)"
proof (induction cs arbitrary: w)
  case Nil
  then show ?case by (simp add: delete_each_def)
next
  case (Cons c cs)
  let ?w = "if P c then snd (delete_comment (cm_comment_type c) (cm_comment_id c) w) else w"
  have step: "delete_each P (c # cs) w = delete_each P cs ?w"
    by (simp add: delete_each_def)
  have ok: "comments_ok ?w" using Cons.prems by (simp add: delete_comment_ok)
  have same: "comment_key c' = comment_key c \<longleftrightarrow> c' = c" if "c' \<in> set (comment_list w)" for c'
    using Cons.prems(2-4) that by (auto simp: distinct_map inj_on_def)
  have list: "comment_list ?w = filter (\<lambda>c'. \<not> (c' = c \<and> P c)) (comment_list w)"
    using Cons.prems(1) same
    by (auto simp: delete_comment_list comment_key_def [of c, symmetric] intro!: filter_cong
        filter_True [symmetric])
  have "comments_ok (delete_each P cs ?w) \<and>
     comment_list (delete_each P cs ?w) = filter (\<lambda>c. \<not> (c \<in> set cs \<and> P c)) (comment_list ?w)"
    using Cons.prems list by (intro Cons.IH [OF ok]) auto
  then show ?case
    unfolding step list by (auto intro!: filter_cong)
qed

lemmas delete_each_ok = delete_each_list [OF _ _ comments_okD(1) subset_refl]

section \<open>Adding keeps the invariant\<close>

lemma add_comment_ok:
  fixes h a t :: string and et expt source :: int and persistent xp :: bool and entry :: comment_entry
  assumes "comments_ok w" "(ty, i) \<notin> comment_key ` set (comment_list w)"
    "ty = SERVICE_COMMENT \<Longrightarrow> d \<noteq> None"
  defines "c \<equiv> \<lparr>cm_comment_type = ty, cm_entry_type = entry, cm_comment_id = i,
     cm_source = source, cm_persistent = persistent, cm_entry_time = et, cm_expires = xp,
     cm_expire_time = expt, cm_host_name = h,
     cm_service_description = (if ty = SERVICE_COMMENT then d else None),
     cm_author = a, cm_comment_data = t\<rparr>"
  defines "w' \<equiv> snd (add_comment ty entry (Some h) d et (Some a) (Some t) i persistent xp expt source w)"
  shows "comments_ok w'" "set (comment_list w') = insert c (set (comment_list w))"
    "remove1 c (comment_list w') = comment_list w" "comment_key c = (ty, i)"
    "comment_hashlist w' = (comment_hashlist w)
       (comment_slot h := insert_chain c (comment_hashlist w (comment_slot h)))"
    "defer_comment_sorting w' = defer_comment_sorting w" "next_comment_id w' = next_comment_id w"
proof -
  have w': "w' = emit (Broker_comment_load ty i)
     ((add_comment_to_hashlist c w)\<lparr>comment_list :=
        (if defer_comment_sorting w then c # comment_list w else insert_by_id c (comment_list w))\<rparr>)"
    using assms(3) by (auto simp: w'_def add_comment_def c_def add_comment_to_hashlist_def Let_def)
  have key: "comment_key c = (ty, i)" by (simp add: comment_key_def c_def)
  have new: "c \<notin> set (comment_list w)" using assms(2) key by force
  have h: "cm_host_name c = h" by (simp add: c_def)
  show "comment_key c = (ty, i)" by (rule key)
  show "set (comment_list w') = insert c (set (comment_list w))"
    by (simp add: w')
  show "remove1 c (comment_list w') = comment_list w"
    using new by (simp add: w' remove1_insert_by_id)
  show "comment_hashlist w' = (comment_hashlist w)
       (comment_slot h := insert_chain c (comment_hashlist w (comment_slot h)))"
    by (simp add: w' add_comment_to_hashlist_def Let_def h)
  show "defer_comment_sorting w' = defer_comment_sorting w" "next_comment_id w' = next_comment_id w"
    by (simp_all add: w' add_comment_to_hashlist_def Let_def)
  have "distinct (map comment_key (comment_list w'))"
    using assms(1,2) key by (simp add: w' distinct_insert_by_id comments_okD(1))
  moreover have "sorted (map cm_comment_id (comment_list w'))" if "\<not> defer_comment_sorting w"
    using assms(1) that by (simp add: w' sorted_insert_by_id comments_okD(3))
  moreover have "mset (comment_list w') = add_mset c (mset (comment_list w))"
    by (simp add: w')
  ultimately show "comments_ok w'"
    using assms(1)
    by (auto simp: comments_ok_def w' add_comment_to_hashlist_def Let_def h sorted_insert_chain)
qed

lemma next_free_id_free:
  "find_comment (next_free_id ty w n) ty w = None \<and> n \<le> next_free_id ty w n"
proof (induction ty w n rule: next_free_id.induct)
  case (1 ty w n)
  show ?case
  proof (cases "find_comment n ty w = None")
    case True
    then show ?thesis by (simp add: next_free_id.simps [of ty w n])
  next
    case False
    with 1 show ?thesis by (simp add: next_free_id.simps [of ty w n])
  qed
qed

lemma find_comment_frame [simp]:
  "find_comment i ty (w\<lparr>next_comment_id := n\<rparr>) = find_comment i ty w"
  by (simp add: find_comment_def)

definition service_comment ::
    "comment_entry \<Rightarrow> string \<Rightarrow> string \<Rightarrow> int \<Rightarrow> string \<Rightarrow> string \<Rightarrow> bool \<Rightarrow> int \<Rightarrow> bool \<Rightarrow> int \<Rightarrow> nat \<Rightarrow> comment" where
  "service_comment entry h d et a t persistent source xp expt i =
     \<lparr>cm_comment_type = SERVICE_COMMENT, cm_entry_type = entry, cm_comment_id = i,
      cm_source = source, cm_persistent = persistent, cm_entry_time = et, cm_expires = xp,
      cm_expire_time = expt, cm_host_name = h, cm_service_description = Some d,
      cm_author = a, cm_comment_data = t\<rparr>"

definition host_comment ::
    "comment_entry \<Rightarrow> string \<Rightarrow> int \<Rightarrow> string \<Rightarrow> string \<Rightarrow> bool \<Rightarrow> int \<Rightarrow> bool \<Rightarrow> int \<Rightarrow> nat \<Rightarrow> comment" where
  "host_comment entry h et a t persistent source xp expt i =
     \<lparr>cm_comment_type = HOST_COMMENT, cm_entry_type = entry, cm_comment_id = i,
      cm_source = source, cm_persistent = persistent, cm_entry_time = et, cm_expires = xp,
      cm_expire_time = expt, cm_host_name = h, cm_service_description = None,
      cm_author = a, cm_comment_data = t\<rparr>"

text \<open>What every way of adding a comment promises.\<close>

definition comment_added :: "comment_type \<Rightarrow> (nat \<Rightarrow> comment) \<Rightarrow> engine \<Rightarrow> nat \<Rightarrow> engine \<Rightarrow> bool" where
  "comment_added ty mk w i w' \<longleftrightarrow>
     comments_ok w' \<and> next_comment_id w \<le> i \<and> next_comment_id w' = i + 1 \<and>
     (ty, i) \<notin> comment_key ` set (comment_list w) \<and>
     set (comment_list w') = insert (mk i) (set (comment_list w)) \<and>
     remove1 (mk i) (comment_list w') = comment_list w \<and> comment_key (mk i) = (ty, i) \<and>
     comment_hashlist w' = (comment_hashlist w)(comment_slot (cm_host_name (mk i)) :=
       insert_chain (mk i) (comment_hashlist w (comment_slot (cm_host_name (mk i)))))"

lemma add_new_service_comment_added:
  assumes "comments_ok w"
    "add_new_service_comment entry (Some h) (Some d) et (Some a) (Some t) persistent source xp expt w
       = (i, w')"
  shows "comment_added SERVICE_COMMENT
     (service_comment entry h d et a t persistent source xp expt) w i w'"
proof -
  let ?w = "w\<lparr>next_comment_id := i\<rparr>"
  have i: "i = next_free_id SERVICE_COMMENT w (next_comment_id w)"
    and w': "w' = emit (Broker_comment_add SERVICE_COMMENT i)
      ((snd (add_comment SERVICE_COMMENT entry (Some h) (Some d) et (Some a) (Some t) i persistent
               xp expt source ?w))\<lparr>next_comment_id := i + 1\<rparr>)"
    using assms(2)
    by (auto simp: add_new_service_comment_def xcddefault_add_new_service_comment_def Let_def)
  have free: "(SERVICE_COMMENT, i) \<notin> comment_key ` set (comment_list ?w)"
    using next_free_id_free [of SERVICE_COMMENT w "next_comment_id w"]
    by (simp add: find_comment_None flip: i)
  have ok: "comments_ok ?w" using assms(1) by simp
  note added = add_comment_ok [OF ok free, where d = "Some d", simplified]
  show ?thesis
    using free next_free_id_free [of SERVICE_COMMENT w "next_comment_id w"] added
    by (simp add: comment_added_def w' service_comment_def flip: i)
qed

lemma add_new_host_comment_added:
  assumes "comments_ok w"
    "add_new_host_comment entry (Some h) et (Some a) (Some t) persistent source xp expt w = (i, w')"
  shows "comment_added HOST_COMMENT (host_comment entry h et a t persistent source xp expt) w i w'"
proof -
  let ?w = "w\<lparr>next_comment_id := i\<rparr>"
  have i: "i = next_free_id HOST_COMMENT w (next_comment_id w)"
    and w': "w' = emit (Broker_comment_add HOST_COMMENT i)
      ((snd (add_comment HOST_COMMENT entry (Some h) None et (Some a) (Some t) i persistent
               xp expt source ?w))\<lparr>next_comment_id := i + 1\<rparr>)"
    using assms(2)
    by (auto simp: add_new_host_comment_def xcddefault_add_new_host_comment_def Let_def)
  have free: "(HOST_COMMENT, i) \<notin> comment_key ` set (comment_list ?w)"
    using next_free_id_free [of HOST_COMMENT w "next_comment_id w"]
    by (simp add: find_comment_None flip: i)
  have ok: "comments_ok ?w" using assms(1) by simp
  note added = add_comment_ok [OF ok free, where d = None, simplified]
  show ?thesis
    using free next_free_id_free [of HOST_COMMENT w "next_comment_id w"] added
    by (simp add: comment_added_def w' host_comment_def flip: i)
qed

section \<open>The contract of a comment store\<close>

text \<open>
  What the other parts of the engine rely on: adding returns an identifier that was free and
  is now taken, deleting frees exactly the identifier it is given.
\<close>

locale comment_store =
  fixes ok :: "'w \<Rightarrow> bool"
    and ids :: "'w \<Rightarrow> 'k set"
    and add :: "'a \<Rightarrow> 'w \<Rightarrow> 'k \<times> 'w"
    and del :: "'k \<Rightarrow> 'w \<Rightarrow> 'w"
  assumes add_ok: "ok w \<Longrightarrow> add a w = (k, w') \<Longrightarrow> ok w' \<and> k \<notin> ids w \<and> ids w' = insert k (ids w)"
    and del_ok: "ok w \<Longrightarrow> ok (del k w) \<and> ids (del k w) = ids w - {k}"
begin

lemma add_del:
  assumes "ok w" "add a w = (k, w')"
  shows "ok (del k w')" "ids (del k w') = ids w"
  using add_ok [OF assms] del_ok [of w' k] by auto

lemma del_other: "ok w \<Longrightarrow> k' \<in> ids w \<Longrightarrow> k' \<noteq> k \<Longrightarrow> k' \<in> ids (del k w)"
  using del_ok by blast

lemma add_twice_distinct:
  assumes "ok w" "add a w = (k, w1)" "add b w1 = (k', w2)"
  shows "k \<noteq> k'" "ids w2 = {k, k'} \<union> ids w"
  using add_ok [OF assms(1,2)] add_ok [OF _ assms(3)] by auto

end

definition comment_ids :: "comment_type \<Rightarrow> engine \<Rightarrow> nat set" where
  "comment_ids ty w = {i. (ty, i) \<in> comment_key ` set (comment_list w)}"

lemma comment_added_ids:
  "comment_added ty mk w i w' \<Longrightarrow>
   comments_ok w' \<and> i \<notin> comment_ids ty w \<and> comment_ids ty w' = insert i (comment_ids ty w)"
  by (auto simp: comment_added_def comment_ids_def)

lemma delete_comment_ids:
  "comments_ok w \<Longrightarrow> comment_ids ty (snd (delete_comment ty i w)) = comment_ids ty w - {i}"
  by (auto simp: comment_ids_def delete_comment_list)

interpretation svc_comments: comment_store comments_ok "comment_ids SERVICE_COMMENT"
    "\<lambda>(entry, h, d, et, a, t, persistent, source, xp, expt).
       add_new_service_comment entry (Some h) (Some d) et (Some a) (Some t) persistent source xp expt"
    "\<lambda>i w. snd (delete_comment SERVICE_COMMENT i w)"
  by unfold_locales
    (auto dest: comment_added_ids [OF add_new_service_comment_added]
      simp: delete_comment_ids delete_comment_ok split: prod.splits)

interpretation hst_comments: comment_store comments_ok "comment_ids HOST_COMMENT"
    "\<lambda>(entry, h, et, a, t, persistent, source, xp, expt).
       add_new_host_comment entry (Some h) et (Some a) (Some t) persistent source xp expt"
    "\<lambda>i w. snd (delete_comment HOST_COMMENT i w)"
  by unfold_locales
    (auto dest: comment_added_ids [OF add_new_host_comment_added]
      simp: delete_comment_ids delete_comment_ok split: prod.splits)

section \<open>Scheduling the expiry\<close>

lemma schedule_new_event_low:
  assumes "queues (evs w) q" "index_ok (evs w) q" "\<forall>p. next_addr w \<notin> set (q p)"
    "hash_type_of ty = None"
  shows "\<exists>s. schedule_new_event ty False t rec interval timing cmp data args opts w =
      Some (w\<lparr>evs := s, next_addr := Suc (next_addr w)\<rparr>) \<and>
    queues s (q(Low := insert_after (rt s) (next_addr w) (q Low))) \<and>
    index_ok s (q(Low := insert_after (rt s) (next_addr w) (q Low))) \<and>
    rt s (next_addr w) = t \<and> event_type (heap s (next_addr w)) = ty \<and>
    event_data (heap s (next_addr w)) = data \<and> recurring (heap s (next_addr w)) = rec \<and>
    (\<forall>a. a \<noteq> next_addr w \<longrightarrow> rt s a = rt (evs w) a)"
proof -
  let ?a = "next_addr w"
  let ?e = "\<lparr>event_type = ty, run_time = t, recurring = rec, event_interval = interval,
     compensate_for_time_change = cmp, timing_func = timing, event_data = data,
     event_args = args, event_options = opts, ev_next = None, ev_prev = None\<rparr>"
  let ?s = "(evs w)\<lparr>heap := (heap (evs w))(?a := ?e)\<rparr>"
  have dll: "dll ?s p (q p)" for p
    using queues_rep [OF assms(1), of p] assms(3) by (simp add: event_list_rep_def dll_def)
  have "map (rt ?s) (q p) = map (rt (evs w)) (q p)" for p
    using assms(3) by auto
  then have "sorted (map (rt ?s) (q p))" for p
    using queues_rep [OF assms(1), of p] by (simp only: event_list_rep_def)
  with dll have q: "queues ?s q"
    using queues_disjoint [OF assms(1), of Low High] by (simp add: queues_def event_list_rep_def)
  have "indexed ?s b = indexed (evs w) b" if "b \<noteq> ?a" for b
    using that by (simp add: indexed_def)
  with assms(3) have "a \<in> set (q p) \<and> indexed ?s a = x \<longleftrightarrow> a \<in> set (q p) \<and> indexed (evs w) a = x"
    for a p x by metis
  then have ix: "index_ok ?s q"
    using assms(2) unfolding index_ok_def by simp
  have none: "indexed ?s ?a = None"
    using assms(4) by (simp add: indexed_def split: option.split)
  obtain s where s: "add_event ?a Low ?s = Some s"
    "event_list_rep Low s (insert_after (rt ?s) ?a (q Low))"
    "ev_frame Low (insert ?a (set (q Low))) ?s s"
    using event_list_add [OF queues_rep [OF q, of Low]] assms(3) by blast
  obtain s' where s': "add_event ?a Low ?s = Some s'"
    "queues s' (q(Low := insert_after (rt ?s) ?a (q Low)))"
    "index_ok s' (q(Low := insert_after (rt ?s) ?a (q Low)))" "rt s' = rt ?s"
    using add_event_queues [OF q ix assms(3), of Low, unfolded none]
    by (metis (no_types, lifting))
  have "payload (heap s ?a) = payload ?e"
    using s(3) by (simp add: ev_frame_def)
  from payload_eqD [OF this] s s' have
    "event_type (heap s ?a) = ty" "event_data (heap s ?a) = data" "recurring (heap s ?a) = rec"
    by simp_all
  moreover have "rt s b = rt ?s b" for b
    using s(1) s'(1) fun_cong [OF s'(4), of b] by simp
  then have "rt s ?a = t" "\<forall>b. b \<noteq> ?a \<longrightarrow> rt s b = rt (evs w) b" by simp_all
  ultimately show ?thesis
    using s(1) s' by (auto simp: schedule_new_event_def schedule_event_def Let_def intro!: exI [of _ s])
qed

section \<open>Deferred sorting\<close>

lemma sort_key_foldl_insert_by_id:
  "sorted (map cm_comment_id cs) \<Longrightarrow> sorted (map cm_comment_id (foldl (\<lambda>l c. insert_by_id c l) cs ds))"
  by (induction ds arbitrary: cs) (simp_all add: sorted_insert_by_id)

lemma mset_foldl_insert_by_id:
  "mset (foldl (\<lambda>l c. insert_by_id c l) cs ds) = mset ds + mset cs"
  by (induction ds arbitrary: cs) simp_all

definition load_comment :: "comment \<Rightarrow> engine \<Rightarrow> engine" where
  "load_comment c w =
     snd (add_comment (cm_comment_type c) (cm_entry_type c) (Some (cm_host_name c))
       (cm_service_description c) (cm_entry_time c) (Some (cm_author c)) (Some (cm_comment_data c))
       (cm_comment_id c) (cm_persistent c) (cm_expires c) (cm_expire_time c) (cm_source c) w)"

definition wf_comment :: "comment \<Rightarrow> bool" where
  "wf_comment c \<longleftrightarrow> cm_service_description c = None \<longleftrightarrow> cm_comment_type c = HOST_COMMENT"

lemma load_comment_list:
  assumes "wf_comment c"
  shows "comment_list (load_comment c w) =
      (if defer_comment_sorting w then c # comment_list w else insert_by_id c (comment_list w))"
    "defer_comment_sorting (load_comment c w) = defer_comment_sorting w"
proof -
  have sd: "(if cm_comment_type c = SERVICE_COMMENT then cm_service_description c else None) =
      cm_service_description c"
    "(cm_comment_type c = SERVICE_COMMENT \<and> cm_service_description c = None) = False"
    using assms by (cases "cm_comment_type c"; simp add: wf_comment_def)+
  have c: "\<lparr>cm_comment_type = cm_comment_type c, cm_entry_type = cm_entry_type c,
      cm_comment_id = cm_comment_id c, cm_source = cm_source c, cm_persistent = cm_persistent c,
      cm_entry_time = cm_entry_time c, cm_expires = cm_expires c,
      cm_expire_time = cm_expire_time c, cm_host_name = cm_host_name c,
      cm_service_description = cm_service_description c, cm_author = cm_author c,
      cm_comment_data = cm_comment_data c\<rparr> = c" by simp
  have "load_comment c w = emit (Broker_comment_load (cm_comment_type c) (cm_comment_id c))
      ((add_comment_to_hashlist c w)\<lparr>comment_list :=
         (if defer_comment_sorting w then c # comment_list w else insert_by_id c (comment_list w))\<rparr>)"
    by (simp add: load_comment_def add_comment_def sd c Let_def add_comment_to_hashlist_def)
  then show "comment_list (load_comment c w) =
      (if defer_comment_sorting w then c # comment_list w else insert_by_id c (comment_list w))"
    "defer_comment_sorting (load_comment c w) = defer_comment_sorting w"
    by (simp_all add: add_comment_to_hashlist_def Let_def)
qed

lemma fold_load_comment:
  "\<forall>c\<in>set cs. wf_comment c \<Longrightarrow>
   defer_comment_sorting (fold load_comment cs w) = defer_comment_sorting w \<and>
   comment_list (fold load_comment cs w) =
     (if defer_comment_sorting w then rev cs @ comment_list w
      else foldl (\<lambda>l c. insert_by_id c l) (comment_list w) cs)"
  by (induction cs arbitrary: w) (simp_all add: load_comment_list)

section \<open>Properties\<close>

definition ex_commented :: engine where
  "ex_commented = snd (add_new_service_comment USER_COMMENT (Some ''h'') (Some ''s'') 900
     (Some ''bob'') (Some ''note'') True 1 False 0 ex_engine)"

lemma ex_engine_comments_ok: "comments_ok ex_engine"
  by (simp add: comments_ok_def ex_engine_def)

lemma ex_commented_ok: "comments_ok ex_commented" "comment_ids SERVICE_COMMENT ex_commented \<noteq> {}"
proof -
  obtain i w' where w': "add_new_service_comment USER_COMMENT (Some ''h'') (Some ''s'') 900
     (Some ''bob'') (Some ''note'') True 1 False 0 ex_engine = (i, w')" by (rule prod.exhaust)
  from comment_added_ids [OF add_new_service_comment_added [OF ex_engine_comments_ok w']] w'
  show "comments_ok ex_commented" "comment_ids SERVICE_COMMENT ex_commented \<noteq> {}"
    by (auto simp: ex_commented_def)
qed

text \<open>Adding a comment that expires: \<open>add_new_comment\<close> returns an identifier no
  comment of that type has, the comment is in the list and in its chain and nothing else
  changed there, the next identifier is larger, and an \<open>EVENT_EXPIRE_COMMENT\<close> for it
  is queued with low priority at the expiry time.\<close>

theorem add_new_comment_schedules_expiry:
  assumes "comments_ok w" "queues (evs w) q" "index_ok (evs w) q" "\<forall>p. next_addr w \<notin> set (q p)"
  shows "\<exists>i w'. add_new_comment SERVICE_COMMENT entry (Some h) (Some d) et (Some a) (Some t)
       persistent source True expt w = Some (i, w') \<and>
    comment_added SERVICE_COMMENT (service_comment entry h d et a t persistent source True expt) w i w' \<and>
    queues (evs w') (q(Low := insert_after (rt (evs w')) (next_addr w) (q Low))) \<and>
    rt (evs w') (next_addr w) = expt \<and>
    event_type (heap (evs w') (next_addr w)) = EVENT_EXPIRE_COMMENT \<and>
    event_data (heap (evs w') (next_addr w)) = void_ptr i"
proof -
  obtain i w1 where w1: "add_new_service_comment entry (Some h) (Some d) et (Some a) (Some t)
      persistent source True expt w = (i, w1)" by (rule prod.exhaust)
  have same: "evs w1 = evs w" "next_addr w1 = next_addr w"
    using w1 by (auto simp: add_new_service_comment_def xcddefault_add_new_service_comment_def
        add_comment_def add_comment_to_hashlist_def emit_def Let_def)
  have "hash_type_of EVENT_EXPIRE_COMMENT = None"
    by (simp add: hash_type_of_def event_type_defs EVENT_EXPIRE_COMMENT_def)
  from schedule_new_event_low [of w1 q, unfolded same, OF assms(2-4) this]
  obtain s where s: "schedule_new_event EVENT_EXPIRE_COMMENT False expt False 0 None True
        (void_ptr i) None 0 w1 = Some (w1\<lparr>evs := s, next_addr := Suc (next_addr w)\<rparr>)"
    "queues s (q(Low := insert_after (rt s) (next_addr w) (q Low)))"
    "rt s (next_addr w) = expt" "event_type (heap s (next_addr w)) = EVENT_EXPIRE_COMMENT"
    "event_data (heap s (next_addr w)) = void_ptr i"
    unfolding same by blast
  have "comment_added SERVICE_COMMENT (service_comment entry h d et a t persistent source True expt)
      w i (w1\<lparr>evs := s, next_addr := Suc (next_addr w)\<rparr>)"
    using add_new_service_comment_added [OF assms(1) w1] by (simp add: comment_added_def)
  with s w1 show ?thesis by (simp add: add_new_comment_def)
qed

theorem add_new_comment_schedules_expiry_witness:
  "\<exists>i w'. add_new_comment SERVICE_COMMENT USER_COMMENT (Some ''h'') (Some ''s'') 900 (Some ''bob'')
     (Some ''note'') False 1 True 5000 ex_engine = Some (i, w') \<and> rt (evs w') 0 = 5000"
  using add_new_comment_schedules_expiry [OF ex_engine_comments_ok, of "\<lambda>_. []"] ex_empty_queues
  by (fastforce simp: ex_engine_def)

text \<open>C23. Adding a service comment and deleting it by the identifier returned puts the
  list and every hash chain back as they were.\<close>

theorem add_then_delete_comment:
  assumes "comments_ok w"
    "add_new_service_comment entry (Some h) (Some d) et (Some a) (Some t) persistent source xp expt w
       = (i, w')"
  shows "comment_list (snd (delete_comment SERVICE_COMMENT i w')) = comment_list w \<and>
    comment_hashlist (snd (delete_comment SERVICE_COMMENT i w')) = comment_hashlist w"
proof -
  let ?c = "service_comment entry h d et a t persistent source xp expt i"
  note added = add_new_service_comment_added [OF assms, unfolded comment_added_def]
  have c: "cm_comment_id ?c = i" "cm_comment_type ?c = SERVICE_COMMENT" "cm_host_name ?c = h"
    by (simp_all add: service_comment_def)
  have found: "find_comment i SERVICE_COMMENT w' = Some ?c"
    using find_comment_member [of w' ?c] added c by (simp add: comments_okD(1))
  have "?c \<notin> set (comment_hashlist w (comment_slot h))"
    using arg_cong [OF comments_okD(5) [OF assms(1), of "comment_slot h"], of set_mset] added
    by (auto simp: image_iff)
  with found added c show ?thesis
    by (simp add: delete_comment_def Let_def remove1_insert_chain)
qed

theorem add_then_delete_comment_witness:
  "comment_list (snd (delete_comment SERVICE_COMMENT
       (fst (add_new_service_comment USER_COMMENT (Some ''h'') (Some ''s'') 900 (Some ''bob'')
          (Some ''note'') True 1 False 0 ex_commented))
       (snd (add_new_service_comment USER_COMMENT (Some ''h'') (Some ''s'') 900 (Some ''bob'')
          (Some ''note'') True 1 False 0 ex_commented)))) = comment_list ex_commented"
  using add_then_delete_comment [OF ex_commented_ok(1) prod.collapse [symmetric]] by blast

text \<open>Deleting all comments of a host walks its hash chain and removes exactly the
  host comments of that host: its service comments and every comment of another host in
  the same chain stay, in order, and the invariant is kept.\<close>

theorem delete_all_host_comments_exact:
  assumes "comments_ok w"
  shows "fst (delete_all_host_comments (Some h) w) = OK \<and>
    comments_ok (snd (delete_all_host_comments (Some h) w)) \<and>
    comment_list (snd (delete_all_host_comments (Some h) w)) =
      filter (\<lambda>c. \<not> (cm_comment_type c = HOST_COMMENT \<and> cm_host_name c = h)) (comment_list w)"
proof -
  let ?P = "\<lambda>c. cm_comment_type c = HOST_COMMENT"
  have "set (host_comments h w) \<subseteq> set (comment_list w)"
    using assms by (auto simp: host_comments_set)
  from delete_each_ok [OF assms this assms] assms show ?thesis
    by (auto simp: delete_all_host_comments_def host_comments_set intro!: filter_cong)
qed

theorem delete_all_host_comments_exact_witness:
  "comment_list (snd (delete_all_host_comments (Some ''h'') ex_commented)) =
     filter (\<lambda>c. \<not> (cm_comment_type c = HOST_COMMENT \<and> cm_host_name c = ''h''))
       (comment_list ex_commented)"
  using delete_all_host_comments_exact [OF ex_commented_ok(1), of "''h''"] by blast

text \<open>Removing the acknowledgement of a service deletes exactly the acknowledgement
  comments of that service that are not persistent.\<close>

theorem delete_service_acknowledgement_exact:
  assumes "comments_ok w"
  shows "comments_ok (snd (delete_service_acknowledgement_comments (Some s) w)) \<and>
    comment_list (snd (delete_service_acknowledgement_comments (Some s) w)) =
      filter (\<lambda>c. \<not> (is_comment_of_service s c \<and> cm_entry_type c = ACKNOWLEDGEMENT_COMMENT \<and>
                      \<not> cm_persistent c)) (comment_list w)"
  using delete_each_ok [OF assms subset_refl assms]
  by (auto simp: delete_service_acknowledgement_comments_def intro!: filter_cong)

theorem delete_service_acknowledgement_exact_witness:
  "comment_list (snd (delete_service_acknowledgement_comments (Some (''h'', ''s'')) ex_commented)) =
     filter (\<lambda>c. \<not> (is_comment_of_service (''h'', ''s'') c \<and>
        cm_entry_type c = ACKNOWLEDGEMENT_COMMENT \<and> \<not> cm_persistent c)) (comment_list ex_commented)"
  using delete_service_acknowledgement_exact [OF ex_commented_ok(1), of "(''h'', ''s'')"] by blast

text \<open>The expiry event deletes its comment only when it runs after the expiry time:
  when no other comment has the identifier, the comment is still there after the event
  exactly if the clock does not show a later second than the expiry time. The event is
  scheduled for that very second and does not recur.\<close>

theorem expired_comment_survives_on_time_event:
  assumes "comments_ok w" "c \<in> set (comment_list w)" "cm_expires c"
    "\<forall>c'\<in>set (comment_list w). cm_comment_id c' = cm_comment_id c \<longrightarrow> c' = c"
  shows "c \<in> set (comment_list (check_for_expired_comment ev (cm_comment_id c) w)) \<longleftrightarrow>
    now ev \<le> cm_expire_time c"
proof (cases "now ev \<le> cm_expire_time c")
  case True
  then have "find (\<lambda>c'. cm_comment_id c' = cm_comment_id c \<and> cm_expires c' \<and> cm_expire_time c' < now ev)
      (comment_list w) = None"
    using assms(4) by (auto simp: find_None_iff)
  with True assms(2) show ?thesis by (simp add: check_for_expired_comment_def)
next
  case False
  let ?P = "\<lambda>c'. cm_comment_id c' = cm_comment_id c \<and> cm_expires c' \<and> cm_expire_time c' < now ev"
  have "find ?P (comment_list w) \<noteq> None"
    using assms(2,3) False by (auto simp: find_None_iff)
  then obtain c' where c': "find ?P (comment_list w) = Some c'" by auto
  then have "c' \<in> set (comment_list w)" "cm_comment_id c' = cm_comment_id c"
    by (auto simp: find_Some_iff)
  with assms(4) have "c' = c" by blast
  with c' False show ?thesis
    using delete_comment_list [OF assms(1)]
    by (simp add: check_for_expired_comment_def comment_key_def)
qed

theorem expired_comment_survives_on_time_event_witness:
  "\<exists>c w. cm_expire_time c = now ex_env \<and>
     c \<in> set (comment_list (check_for_expired_comment ex_env (cm_comment_id c) w))"
proof -
  let ?c = "service_comment USER_COMMENT ''h'' ''s'' 900 ''bob'' ''note'' False 1 True 1000 7"
  let ?w = "ex_engine\<lparr>comment_list := [?c],
     comment_hashlist := (\<lambda>_. [])(comment_slot ''h'' := [?c])\<rparr>"
  have "comments_ok ?w" by (simp add: comments_ok_def service_comment_def)
  from expired_comment_survives_on_time_event [OF this, of ?c ex_env]
  show ?thesis by (intro exI [of _ ?c] exI [of _ ?w]) (simp add: service_comment_def ex_env_def)
qed

text \<open>Loading comments with sorting deferred and calling \<open>sort_comments\<close> gives
  the same list as inserting each at its place, when identifiers are distinct.\<close>

theorem deferred_sorting_same_list:
  assumes "\<not> defer_comment_sorting w" "\<forall>c\<in>set cs. wf_comment c"
    "sorted (map cm_comment_id (comment_list w))"
    "distinct (map cm_comment_id (cs @ comment_list w))"
  shows "comment_list (sort_comments (fold load_comment cs (w\<lparr>defer_comment_sorting := True\<rparr>))) =
    comment_list (fold load_comment cs w)"
proof -
  let ?l = "foldl (\<lambda>l c. insert_by_id c l) (comment_list w) cs"
  have "sort_key cm_comment_id (rev cs @ comment_list w) = ?l"
  proof (rule properties_for_sort_key)
    show mset: "mset ?l = mset (rev cs @ comment_list w)"
      by (simp add: mset_foldl_insert_by_id)
    then have set: "set ?l = set (rev cs @ comment_list w)"
      by (rule mset_eq_setD)
    have dist: "distinct (rev cs @ comment_list w)" using assms(4) by (auto simp: distinct_map)
    then have distl: "distinct ?l" using mset_eq_imp_distinct_iff [OF mset] by blast
    have inj: "inj_on cm_comment_id (set ?l)" 
    proof -
      have "distinct (map cm_comment_id (rev cs @ comment_list w))"
        using assms(4) by (simp flip: rev_map)
      then show ?thesis unfolding set distinct_map by blast
    qed
    show "filter (\<lambda>x. cm_comment_id k = cm_comment_id x) ?l =
        filter (\<lambda>x. cm_comment_id k = cm_comment_id x) (rev cs @ comment_list w)"
      if "k \<in> set ?l" for k
    proof -
      have one: "filter (\<lambda>x. cm_comment_id k = cm_comment_id x) l = [k]"
        if "distinct l" "set l = set ?l" for l
      proof -
        have "filter (\<lambda>x. cm_comment_id k = cm_comment_id x) l = filter (\<lambda>x. k = x) l"
          using inj_onD [OF inj] \<open>k \<in> set ?l\<close> that(2)
          by (intro filter_cong) auto
        moreover have "filter (\<lambda>x. k = x) l = [k]" if "distinct l" "k \<in> set l" for l :: "comment list"
          using that by (induction l) (auto simp: filter_empty_conv)
        ultimately show ?thesis using that \<open>k \<in> set ?l\<close> by simp
      qed
      show ?thesis using one [OF distl refl] one [OF dist set [symmetric]] by simp
    qed
    show "sorted (map cm_comment_id ?l)"
      using assms(3) by (rule sort_key_foldl_insert_by_id)
  qed
  then show ?thesis
    using assms(1,2) by (simp add: sort_comments_def fold_load_comment)
qed

theorem deferred_sorting_same_list_witness:
  "map cm_comment_id (comment_list (sort_comments (fold load_comment
     (map (service_comment USER_COMMENT ''h'' ''s'' 900 ''bob'' ''note'' False 1 True 1000) [9, 4])
     (ex_engine\<lparr>defer_comment_sorting := True\<rparr>)))) = [4, 9]"
proof -
  have "\<not> defer_comment_sorting ex_engine" "comment_list ex_engine = []"
    by (simp_all add: ex_engine_def)
  then show ?thesis
    using deferred_sorting_same_list [of ex_engine
      "map (service_comment USER_COMMENT ''h'' ''s'' 900 ''bob'' ''note'' False 1 True 1000) [9, 4]"]
    by (simp add: fold_load_comment load_comment_list wf_comment_def service_comment_def)
qed

end
