(* ===== verification/Dependencies.thy ===== *)
theory Dependencies
  imports Examples "HOL-Library.Monad_Syntax"
begin

text \<open>
  The notification and execution dependencies of services and hosts:
  \<open>check_service_dependencies\<close> and \<open>check_host_dependencies\<close> of
  \<^verbatim>\<open>src/checks.cc\<close>. They call themselves on the master object when a dependency
  inherits its parent's, so they are partial: \<open>None\<close> is a recursion that does not
  end. The locale \<open>dependency_walk\<close> states the walk once for both.
\<close>

section \<open>The checks\<close>

text \<open>The loops take the environment and the engine as one pair.\<close>

definition service_dependency_fails :: "engine \<Rightarrow> servicedependency \<Rightarrow> svc_id \<Rightarrow> bool" where
  "service_dependency_fails w d master =
     (let m = svc_of w master;
          state = (if s_state_type m = SOFT_STATE \<and> \<not> soft_state_dependencies (cfg w)
                   then s_last_hard_state m else s_current_state m)
      in state = STATE_OK \<and> sd_fail_on_ok d
       \<or> state = STATE_WARNING \<and> sd_fail_on_warning d
       \<or> state = STATE_UNKNOWN \<and> sd_fail_on_unknown d
       \<or> state = STATE_CRITICAL \<and> sd_fail_on_critical d
       \<or> state = STATE_OK \<and> \<not> s_has_been_checked m \<and> sd_fail_on_pending d)"

partial_function (option) service_dependencies_from ::
    "env \<times> engine \<Rightarrow> dep_type \<Rightarrow> servicedependency list \<Rightarrow> dep_result option" where
  "service_dependencies_from ew ty ds =
     (case ds of
        [] \<Rightarrow> Some DEPENDENCIES_OK
      | d # rest \<Rightarrow>
          if sd_dependency_type d \<noteq> ty then service_dependencies_from ew ty rest
          else (case sd_master_service_ptr d of
            None \<Rightarrow> service_dependencies_from ew ty rest
          | Some m \<Rightarrow>
              if check_time_against_period (fst ew) None (now (fst ew)) (sd_dependency_period d) = ERROR
              then Some DEPENDENCIES_OK
              else if service_dependency_fails (snd ew) d m then Some DEPENDENCIES_FAILED
              else if sd_inherits_parent d
              then Option.bind (service_dependencies_from ew ty (servicedependencies (snd ew) m)) (\<lambda>r.
                     if r \<noteq> DEPENDENCIES_OK then Some DEPENDENCIES_FAILED
                     else service_dependencies_from ew ty rest)
              else service_dependencies_from ew ty rest))"

definition check_service_dependencies ::
    "env \<Rightarrow> svc_id \<Rightarrow> dep_type \<Rightarrow> engine \<Rightarrow> dep_result option" where
  "check_service_dependencies ev s ty w = service_dependencies_from (ev, w) ty (servicedependencies w s)"

definition host_dependency_fails :: "engine \<Rightarrow> hostdependency \<Rightarrow> host_id \<Rightarrow> bool" where
  "host_dependency_fails w d master =
     (let m = host_of w master;
          state = (if h_state_type m = SOFT_STATE \<and> \<not> soft_state_dependencies (cfg w)
                   then h_last_hard_state m else h_current_state m)
      in state = HOST_UP \<and> hd_fail_on_up d
       \<or> state = HOST_DOWN \<and> hd_fail_on_down d
       \<or> state = HOST_UNREACHABLE \<and> hd_fail_on_unreachable d
       \<or> state = HOST_UP \<and> \<not> h_has_been_checked m \<and> hd_fail_on_pending d)"

partial_function (option) host_dependencies_from ::
    "env \<times> engine \<Rightarrow> dep_type \<Rightarrow> hostdependency list \<Rightarrow> dep_result option" where
  "host_dependencies_from ew ty ds =
     (case ds of
        [] \<Rightarrow> Some DEPENDENCIES_OK
      | d # rest \<Rightarrow>
          if hd_dependency_type d \<noteq> ty then host_dependencies_from ew ty rest
          else (case hd_master_host_ptr d of
            None \<Rightarrow> host_dependencies_from ew ty rest
          | Some m \<Rightarrow>
              if check_time_against_period (fst ew) None (now (fst ew)) (hd_dependency_period d) = ERROR
              then Some DEPENDENCIES_OK
              else if host_dependency_fails (snd ew) d m then Some DEPENDENCIES_FAILED
              else if hd_inherits_parent d
              then Option.bind (host_dependencies_from ew ty (hostdependencies (snd ew) m)) (\<lambda>r.
                     if r \<noteq> DEPENDENCIES_OK then Some DEPENDENCIES_FAILED
                     else host_dependencies_from ew ty rest)
              else host_dependencies_from ew ty rest))"

definition check_host_dependencies ::
    "env \<Rightarrow> host_id \<Rightarrow> dep_type \<Rightarrow> engine \<Rightarrow> dep_result option" where
  "check_host_dependencies ev h ty w = host_dependencies_from (ev, w) ty (hostdependencies w h)"

declare service_dependencies_from.simps [code] host_dependencies_from.simps [code]

section \<open>The walk over masters\<close>

text \<open>
  \<open>master d\<close> is \<open>None\<close> for a dependency that is of another type or has no
  master: such an entry is skipped.
\<close>

locale dependency_walk =
  fixes walk :: "'d list \<Rightarrow> dep_result option"
    and deps :: "'n \<Rightarrow> 'd list"
    and master :: "'d \<Rightarrow> 'n option"
    and in_time :: "'d \<Rightarrow> bool"
    and fails :: "'d \<Rightarrow> 'n \<Rightarrow> bool"
    and inherits :: "'d \<Rightarrow> bool"
  assumes walk_Nil: "walk [] = Some DEPENDENCIES_OK"
    and walk_Cons: "walk (d # ds) =
      (case master d of
         None \<Rightarrow> walk ds
       | Some m \<Rightarrow>
           if \<not> in_time d then Some DEPENDENCIES_OK
           else if fails d m then Some DEPENDENCIES_FAILED
           else if inherits d
           then Option.bind (walk (deps m))
                  (\<lambda>r. if r \<noteq> DEPENDENCIES_OK then Some DEPENDENCIES_FAILED else walk ds)
           else walk ds)"
begin

definition parent :: "('n \<times> 'n) set" where
  "parent = {(m, n). \<exists>d\<in>set (deps n). master d = Some m \<and> inherits d}"

lemma walk_list_returns:
  assumes "\<forall>d\<in>set ds. \<forall>m. master d = Some m \<longrightarrow> inherits d \<longrightarrow> (\<exists>r. walk (deps m) = Some r)"
  shows "\<exists>r. walk ds = Some r"
  using assms
proof (induction ds)
  case Nil
  then show ?case by (simp add: walk_Nil)
next
  case (Cons d ds)
  then obtain r where "walk ds = Some r" by auto
  with Cons.prems show ?case by (auto simp: walk_Cons split: option.split)
qed

lemma walk_returns:
  assumes "wf parent"
  shows "\<exists>r. walk (deps n) = Some r"
proof (induction n rule: wf_induct_rule [OF assms])
  case (1 n)
  then have "\<forall>d\<in>set (deps n). \<forall>m. master d = Some m \<longrightarrow> inherits d \<longrightarrow> (\<exists>r. walk (deps m) = Some r)"
    by (simp add: parent_def) blast
  then show ?case by (rule walk_list_returns)
qed

text \<open>A chain of inherited dependencies that ends in a master in a failing state.\<close>

inductive failing :: "'n \<Rightarrow> bool" where
  here: "d \<in> set (deps n) \<Longrightarrow> master d = Some m \<Longrightarrow> fails d m \<Longrightarrow> failing n"
| above: "d \<in> set (deps n) \<Longrightarrow> master d = Some m \<Longrightarrow> inherits d \<Longrightarrow> failing m \<Longrightarrow> failing n"

lemma failing_iff:
  "failing n \<longleftrightarrow> (\<exists>d\<in>set (deps n). \<exists>m. master d = Some m \<and> (fails d m \<or> inherits d \<and> failing m))"
  by (subst failing.simps) blast

lemma walk_list_decides:
  assumes "\<forall>d\<in>set ds. \<forall>m. master d = Some m \<longrightarrow> inherits d \<longrightarrow>
      walk (deps m) = Some (if failing m then DEPENDENCIES_FAILED else DEPENDENCIES_OK)"
    and "\<forall>d\<in>set ds. in_time d"
  shows "walk ds = Some (if \<exists>d\<in>set ds. \<exists>m. master d = Some m \<and> (fails d m \<or> inherits d \<and> failing m)
     then DEPENDENCIES_FAILED else DEPENDENCIES_OK)"
  using assms
proof (induction ds)
  case Nil
  then show ?case by (simp add: walk_Nil)
next
  case (Cons d ds)
  then have tail: "walk ds = Some (if \<exists>d\<in>set ds. \<exists>m. master d = Some m \<and> (fails d m \<or> inherits d \<and> failing m)
     then DEPENDENCIES_FAILED else DEPENDENCIES_OK)"
    by simp
  show ?case
  proof (cases "master d")
    case None
    then show ?thesis using tail by (simp add: walk_Cons)
  next
    case (Some m)
    then have "inherits d \<Longrightarrow> walk (deps m) = Some (if failing m then DEPENDENCIES_FAILED else DEPENDENCIES_OK)"
      using Cons.prems by simp
    with Some Cons.prems(2) show ?thesis by (simp add: walk_Cons tail)
  qed
qed

lemma walk_decides:
  assumes "wf parent" "\<forall>n. \<forall>d\<in>set (deps n). in_time d"
  shows "walk (deps n) = Some (if failing n then DEPENDENCIES_FAILED else DEPENDENCIES_OK)"
proof (induction n rule: wf_induct_rule [OF assms(1)])
  case (1 n)
  then have "\<forall>d\<in>set (deps n). \<forall>m. master d = Some m \<longrightarrow> inherits d \<longrightarrow>
      walk (deps m) = Some (if failing m then DEPENDENCIES_FAILED else DEPENDENCIES_OK)"
    unfolding parent_def by blast
  moreover have "\<forall>d\<in>set (deps n). in_time d" using assms(2) by blast
  ultimately show ?case
    using walk_list_decides by (simp only: failing_iff [of n, symmetric])
qed

lemma walk_skips_rest:
  assumes "master d = Some m" "\<not> in_time d"
  shows "walk (d # ds) = Some DEPENDENCIES_OK"
  using assms by (simp add: walk_Cons)

end

definition service_master :: "dep_type \<Rightarrow> servicedependency \<Rightarrow> svc_id option" where
  "service_master ty d = (if sd_dependency_type d = ty then sd_master_service_ptr d else None)"

definition host_master :: "dep_type \<Rightarrow> hostdependency \<Rightarrow> host_id option" where
  "host_master ty d = (if hd_dependency_type d = ty then hd_master_host_ptr d else None)"

lemma master_SomeI:
  "sd_dependency_type d = ty \<Longrightarrow> sd_master_service_ptr d = Some m \<Longrightarrow> service_master ty d = Some m"
  "hd_dependency_type e = ty \<Longrightarrow> hd_master_host_ptr e = Some n \<Longrightarrow> host_master ty e = Some n"
  by (simp_all add: service_master_def host_master_def)

interpretation sdep: dependency_walk "service_dependencies_from (ev, w) ty" "servicedependencies w"
    "service_master ty" "\<lambda>d. check_time_against_period ev None (now ev) (sd_dependency_period d) = OK"
    "service_dependency_fails w" sd_inherits_parent for ev w ty
proof unfold_locales
  have ok: "x = ERROR \<longleftrightarrow> x \<noteq> OK" for x by (cases x) simp_all
  show "service_dependencies_from (ev, w) ty [] = Some DEPENDENCIES_OK"
    by (simp add: service_dependencies_from.simps)
  show "service_dependencies_from (ev, w) ty (d # ds) =
      (case service_master ty d of
         None \<Rightarrow> service_dependencies_from (ev, w) ty ds
       | Some m \<Rightarrow>
           if \<not> check_time_against_period ev None (now ev) (sd_dependency_period d) = OK
           then Some DEPENDENCIES_OK
           else if service_dependency_fails w d m then Some DEPENDENCIES_FAILED
           else if sd_inherits_parent d
           then Option.bind (service_dependencies_from (ev, w) ty (servicedependencies w m))
                  (\<lambda>r. if r \<noteq> DEPENDENCIES_OK then Some DEPENDENCIES_FAILED
                        else service_dependencies_from (ev, w) ty ds)
           else service_dependencies_from (ev, w) ty ds)" for d ds
    by (subst service_dependencies_from.simps) (simp add: service_master_def ok split: option.split)
qed

interpretation hdep: dependency_walk "host_dependencies_from (ev, w) ty" "hostdependencies w"
    "host_master ty" "\<lambda>d. check_time_against_period ev None (now ev) (hd_dependency_period d) = OK"
    "host_dependency_fails w" hd_inherits_parent for ev w ty
proof unfold_locales
  have ok: "x = ERROR \<longleftrightarrow> x \<noteq> OK" for x by (cases x) simp_all
  show "host_dependencies_from (ev, w) ty [] = Some DEPENDENCIES_OK"
    by (simp add: host_dependencies_from.simps)
  show "host_dependencies_from (ev, w) ty (d # ds) =
      (case host_master ty d of
         None \<Rightarrow> host_dependencies_from (ev, w) ty ds
       | Some m \<Rightarrow>
           if \<not> check_time_against_period ev None (now ev) (hd_dependency_period d) = OK
           then Some DEPENDENCIES_OK
           else if host_dependency_fails w d m then Some DEPENDENCIES_FAILED
           else if hd_inherits_parent d
           then Option.bind (host_dependencies_from (ev, w) ty (hostdependencies w m))
                  (\<lambda>r. if r \<noteq> DEPENDENCIES_OK then Some DEPENDENCIES_FAILED
                        else host_dependencies_from (ev, w) ty ds)
           else host_dependencies_from (ev, w) ty ds)" for d ds
    by (subst host_dependencies_from.simps) (simp add: host_master_def ok split: option.split)
qed

section \<open>Properties\<close>

definition service_parents :: "engine \<Rightarrow> dep_type \<Rightarrow> (svc_id \<times> svc_id) set" where
  "service_parents w ty =
     {(m, s). \<exists>d\<in>set (servicedependencies w s).
        sd_dependency_type d = ty \<and> sd_master_service_ptr d = Some m \<and> sd_inherits_parent d}"

definition host_parents :: "engine \<Rightarrow> dep_type \<Rightarrow> (host_id \<times> host_id) set" where
  "host_parents w ty =
     {(m, h). \<exists>d\<in>set (hostdependencies w h).
        hd_dependency_type d = ty \<and> hd_master_host_ptr d = Some m \<and> hd_inherits_parent d}"

inductive service_dependency_failing :: "engine \<Rightarrow> dep_type \<Rightarrow> svc_id \<Rightarrow> bool" for w ty where
  direct: "d \<in> set (servicedependencies w s) \<Longrightarrow> sd_dependency_type d = ty \<Longrightarrow>
     sd_master_service_ptr d = Some m \<Longrightarrow> service_dependency_fails w d m \<Longrightarrow>
     service_dependency_failing w ty s"
| inherited: "d \<in> set (servicedependencies w s) \<Longrightarrow> sd_dependency_type d = ty \<Longrightarrow>
     sd_master_service_ptr d = Some m \<Longrightarrow> sd_inherits_parent d \<Longrightarrow>
     service_dependency_failing w ty m \<Longrightarrow> service_dependency_failing w ty s"

inductive host_dependency_failing :: "engine \<Rightarrow> dep_type \<Rightarrow> host_id \<Rightarrow> bool" for w ty where
  direct: "d \<in> set (hostdependencies w h) \<Longrightarrow> hd_dependency_type d = ty \<Longrightarrow>
     hd_master_host_ptr d = Some m \<Longrightarrow> host_dependency_fails w d m \<Longrightarrow>
     host_dependency_failing w ty h"
| inherited: "d \<in> set (hostdependencies w h) \<Longrightarrow> hd_dependency_type d = ty \<Longrightarrow>
     hd_master_host_ptr d = Some m \<Longrightarrow> hd_inherits_parent d \<Longrightarrow>
     host_dependency_failing w ty m \<Longrightarrow> host_dependency_failing w ty h"

lemma service_parents_eq: "service_parents w ty = sdep.parent w ty"
  by (auto simp: service_parents_def sdep.parent_def service_master_def split: if_splits)

lemma host_parents_eq: "host_parents w ty = hdep.parent w ty"
  by (auto simp: host_parents_def hdep.parent_def host_master_def split: if_splits)

lemma service_failing_eq: "service_dependency_failing w ty s = sdep.failing w ty s"
proof
  assume "service_dependency_failing w ty s"
  then show "sdep.failing w ty s"
    by induction (blast intro: sdep.failing.intros master_SomeI)+
next
  assume "sdep.failing w ty s"
  then show "service_dependency_failing w ty s"
    by induction (auto simp: service_master_def intro: service_dependency_failing.intros split: if_splits)
qed

lemma host_failing_eq: "host_dependency_failing w ty h = hdep.failing w ty h"
proof
  assume "host_dependency_failing w ty h"
  then show "hdep.failing w ty h"
    by induction (blast intro: hdep.failing.intros master_SomeI)+
next
  assume "hdep.failing w ty h"
  then show "host_dependency_failing w ty h"
    by induction (auto simp: host_master_def intro: host_dependency_failing.intros split: if_splits)
qed

lemma service_dependencies_return:
  "wf (service_parents w ty) \<Longrightarrow> \<exists>r. check_service_dependencies ev s ty w = Some r"
  using sdep.walk_returns [of w ty ev s] by (simp add: check_service_dependencies_def service_parents_eq)

lemma host_dependencies_return:
  "wf (host_parents w ty) \<Longrightarrow> \<exists>r. check_host_dependencies ev h ty w = Some r"
  using hdep.walk_returns [of w ty ev h] by (simp add: check_host_dependencies_def host_parents_eq)

definition ex_dependency :: "svc_id \<Rightarrow> tp_id option \<Rightarrow> servicedependency" where
  "ex_dependency m tp = \<lparr>sd_dependency_type = NOTIFICATION_DEPENDENCY, sd_master_service_ptr = Some m,
     sd_dependency_period = tp, sd_inherits_parent = True, sd_fail_on_ok = False,
     sd_fail_on_warning = False, sd_fail_on_unknown = False, sd_fail_on_critical = True,
     sd_fail_on_pending = False\<rparr>"

definition ex_host_dependency :: "host_id \<Rightarrow> hostdependency" where
  "ex_host_dependency m = \<lparr>hd_dependency_type = NOTIFICATION_DEPENDENCY, hd_master_host_ptr = Some m,
     hd_dependency_period = None, hd_inherits_parent = True, hd_fail_on_up = False,
     hd_fail_on_down = True, hd_fail_on_unreachable = True, hd_fail_on_pending = False\<rparr>"

text \<open>C25. Service dependencies: when the inherited dependencies have no cycle and every
  dependency is within its period, \<open>check_service_dependencies\<close> returns, and it
  reports a failure exactly if some chain of inherited dependencies of the type ends in a
  master in one of the failing states.\<close>

theorem service_dependencies_decided:
  assumes "wf (service_parents w ty)"
    "\<forall>s'. \<forall>d\<in>set (servicedependencies w s').
       check_time_against_period ev None (now ev) (sd_dependency_period d) = OK"
  shows "check_service_dependencies ev s ty w =
    Some (if service_dependency_failing w ty s then DEPENDENCIES_FAILED else DEPENDENCIES_OK)"
  using sdep.walk_decides [of w ty ev s] assms
  by (simp add: check_service_dependencies_def service_parents_eq service_failing_eq)

theorem service_dependencies_decided_witness:
  "check_service_dependencies ex_env (''h'', ''a'') NOTIFICATION_DEPENDENCY
     (ex_engine\<lparr>servicedependencies := (\<lambda>_. [])((''h'', ''a'') := [ex_dependency (''h'', ''b'') None])\<rparr>)
   = Some DEPENDENCIES_FAILED"
proof -
  let ?w = "ex_engine\<lparr>servicedependencies := (\<lambda>_. [])((''h'', ''a'') := [ex_dependency (''h'', ''b'') None])\<rparr>"
  have "service_parents ?w NOTIFICATION_DEPENDENCY \<subseteq> {((''h'', ''b''), (''h'', ''a''))}"
    by (auto simp: service_parents_def ex_dependency_def split: if_splits)
  moreover have "wf {((''h'', ''b''), (''h'', ''a''))}"
    by (rule wf_insert [THEN iffD2]) auto
  ultimately have "wf (service_parents ?w NOTIFICATION_DEPENDENCY)" by (rule wf_subset [rotated])
  moreover have "service_dependency_failing ?w NOTIFICATION_DEPENDENCY (''h'', ''a'')"
    by (rule service_dependency_failing.direct [of "ex_dependency (''h'', ''b'') None" _ _ _ "(''h'', ''b'')"])
      (simp_all add: ex_dependency_def service_dependency_fails_def ex_engine_def ex_service_def)
  ultimately show ?thesis
    by (subst service_dependencies_decided)
      (auto simp: check_time_against_period_def ex_dependency_def split: if_splits)
qed

text \<open>Host dependencies: the same for \<open>check_host_dependencies\<close>.\<close>

theorem host_dependencies_decided:
  assumes "wf (host_parents w ty)"
    "\<forall>h'. \<forall>d\<in>set (hostdependencies w h').
       check_time_against_period ev None (now ev) (hd_dependency_period d) = OK"
  shows "check_host_dependencies ev h ty w =
    Some (if host_dependency_failing w ty h then DEPENDENCIES_FAILED else DEPENDENCIES_OK)"
  using hdep.walk_decides [of w ty ev h] assms
  by (simp add: check_host_dependencies_def host_parents_eq host_failing_eq)

theorem host_dependencies_decided_witness:
  "check_host_dependencies ex_env ''a'' NOTIFICATION_DEPENDENCY
     (ex_engine\<lparr>hostdependencies := (\<lambda>_. [])(''a'' := [ex_host_dependency ''b''])\<rparr>)
   = Some DEPENDENCIES_OK"
proof -
  let ?w = "ex_engine\<lparr>hostdependencies := (\<lambda>_. [])(''a'' := [ex_host_dependency ''b''])\<rparr>"
  have "host_parents ?w NOTIFICATION_DEPENDENCY \<subseteq> {(''b'', ''a'')}"
    by (auto simp: host_parents_def ex_host_dependency_def split: if_splits)
  moreover have "wf {(''b'', ''a'')}"
    by (rule wf_insert [THEN iffD2]) auto
  ultimately have "wf (host_parents ?w NOTIFICATION_DEPENDENCY)" by (rule wf_subset [rotated])
  moreover have "\<not> host_dependency_failing ?w NOTIFICATION_DEPENDENCY h" for h
  proof
    assume "host_dependency_failing ?w NOTIFICATION_DEPENDENCY h"
    then show False
      by induction (auto simp: ex_host_dependency_def host_dependency_fails_def ex_engine_def
          ex_host_def split: if_splits)
  qed
  ultimately show ?thesis
    by (subst host_dependencies_decided)
      (auto simp: check_time_against_period_def ex_host_dependency_def split: if_splits)
qed

text \<open>The check of service dependencies returns whenever the inherited dependencies
  have no cycle, whatever the periods say.\<close>

theorem service_dependencies_terminate:
  assumes "wf (service_parents w ty)"
  shows "\<exists>r. check_service_dependencies ev s ty w = Some r"
  using assms by (rule service_dependencies_return)

theorem service_dependencies_terminate_witness:
  "\<exists>r. check_service_dependencies ex_env (''h'', ''s'') EXECUTION_DEPENDENCY ex_engine = Some r"
  using service_dependencies_terminate [of ex_engine EXECUTION_DEPENDENCY ex_env "(''h'', ''s'')"]
  by (simp add: service_parents_def ex_engine_def)

text \<open>A dependency that is outside its period does not only stop counting: the check
  ends there with \<open>DEPENDENCIES_OK\<close>, whatever dependencies come after it in the
  list, although the comment says that this dependency is skipped.\<close>

theorem dependency_outside_period_ends_check:
  assumes "servicedependencies w s = d # rest" "sd_dependency_type d = ty"
    "sd_master_service_ptr d = Some m"
    "check_time_against_period ev None (now ev) (sd_dependency_period d) = ERROR"
  shows "check_service_dependencies ev s ty w = Some DEPENDENCIES_OK"
  using sdep.walk_skips_rest [of ty d m ev w rest] assms
  by (simp add: check_service_dependencies_def service_master_def)

theorem dependency_outside_period_ends_check_witness:
  "check_service_dependencies (ex_env\<lparr>next_valid_time_per_timeperiod := (\<lambda>_ t _. t + 1)\<rparr>) (''h'', ''a'') NOTIFICATION_DEPENDENCY
     (ex_engine\<lparr>servicedependencies := (\<lambda>_. [])((''h'', ''a'') :=
        [ex_dependency (''h'', ''b'') (Some ''night''), ex_dependency (''h'', ''c'') None])\<rparr>)
   = Some DEPENDENCIES_OK"
  by (rule dependency_outside_period_ends_check
      [of _ _ "ex_dependency (''h'', ''b'') (Some ''night'')" "[ex_dependency (''h'', ''c'') None]" _ "(''h'', ''b'')"])
    (simp_all add: ex_dependency_def check_time_against_period_def)

end
