(* ===== verification/Notification_List.thy ===== *)
theory Notification_List
  imports Dependencies
begin

text \<open>
  Who is notified and when again: the escalations, the list of contacts, the commands run
  for one contact and the time of the next notification, all of
  \<^verbatim>\<open>src/notifications.cc\<close>. The global \<open>notification_list\<close> lives from
  \<open>create_notification_list_from_*\<close> to \<open>free_notification_list\<close> in one call, so it
  is a value here, with the newest entry first as the code has it.
\<close>

section \<open>The notification list\<close>

definition find_notification :: "contact_id option \<Rightarrow> contact_id list \<Rightarrow> contact_id option" where
  "find_notification cntct nl =
     (case cntct of None \<Rightarrow> None | Some c \<Rightarrow> find (\<lambda>n. n = c) nl)"

type_synonym notification_state = "nagios_macros \<times> contact_id list"

definition add_notification :: "contact_id option \<Rightarrow> notification_state \<Rightarrow> notification_state" where
  "add_notification cntct st =
     (case cntct of
        None \<Rightarrow> st
      | Some c \<Rightarrow>
          let (mac, nl) = st in
          if find_notification cntct nl \<noteq> None then st
          else (mac\<lparr>mac_recipients :=
                     (case mac_recipients mac of
                        None \<Rightarrow> Some c
                      | Some buffer \<Rightarrow> Some (buffer @ '','' @ c))\<rparr>,
                c # nl))"

definition add_contacts :: "contact_id option list \<Rightarrow> notification_state \<Rightarrow> notification_state" where
  "add_contacts cs st = fold (\<lambda>c st. if c = None then st else add_notification c st) cs st"

definition add_groups :: "engine \<Rightarrow> group_id option list \<Rightarrow> notification_state \<Rightarrow> notification_state" where
  "add_groups w gs st =
     fold (\<lambda>g st. case g of None \<Rightarrow> st | Some g \<Rightarrow> add_contacts (group_members w g) st) gs st"

section \<open>Service escalations\<close>

definition is_valid_escalation_for_service_notification ::
    "env \<Rightarrow> svc_id \<Rightarrow> serviceescalation \<Rightarrow> notif_options \<Rightarrow> engine \<Rightarrow> bool" where
  "is_valid_escalation_for_service_notification ev s se options w =
     (let svc = svc_of w s;
          notification_number = (if s_current_state svc = STATE_OK
                                 then s_current_notification_number svc - 1
                                 else s_current_notification_number svc)
      in if se_service_ptr se \<noteq> Some s then False
         else if opt_broadcast options then True
         else if se_first_notification se > notification_number then False
         else if se_last_notification se \<noteq> 0 \<and> se_last_notification se < notification_number then False
         else if se_escalation_period se \<noteq> None \<and>
                 check_time_against_period ev None (now ev) (se_escalation_period se) = ERROR then False
         else if s_current_state svc = STATE_OK \<and> \<not> se_escalate_on_recovery se then False
         else if s_current_state svc = STATE_WARNING \<and> \<not> se_escalate_on_warning se then False
         else if s_current_state svc = STATE_UNKNOWN \<and> \<not> se_escalate_on_unknown se then False
         else if s_current_state svc = STATE_CRITICAL \<and> \<not> se_escalate_on_critical se then False
         else True)"

definition should_service_notification_be_escalated :: "env \<Rightarrow> svc_id \<Rightarrow> engine \<Rightarrow> bool" where
  "should_service_notification_be_escalated ev s w =
     list_ex (\<lambda>se. is_valid_escalation_for_service_notification ev s se NOTIFICATION_OPTION_NONE w)
       (serviceescalations w s)"

definition add_service_escalation_contacts ::
    "env \<Rightarrow> svc_id \<Rightarrow> notif_options \<Rightarrow> engine \<Rightarrow> notification_state \<Rightarrow> notification_state" where
  "add_service_escalation_contacts ev s options w st =
     fold (\<lambda>se st.
         if \<not> is_valid_escalation_for_service_notification ev s se options w then st
         else add_groups w (contact_groups se) (add_contacts (contacts se) st))
       (serviceescalations w s) st"

definition create_notification_list_from_service ::
    "env \<Rightarrow> svc_id \<Rightarrow> notif_options \<Rightarrow> nagios_macros \<Rightarrow> engine \<Rightarrow> bool \<times> notification_state" where
  "create_notification_list_from_service ev s options mac w =
     (let escalate = should_service_notification_be_escalated ev s w;
          st = (mac\<lparr>mac_isescalated := Some escalate\<rparr>, []);
          st1 = (if escalate \<or> opt_broadcast options
                 then add_service_escalation_contacts ev s options w st else st);
          st2 = (if \<not> escalate \<or> opt_broadcast options
                 then add_groups w (contact_groups (svc_of w s)) (add_contacts (contacts (svc_of w s)) st1)
                 else st1)
      in (escalate, st2))"

section \<open>Host escalations\<close>

definition is_valid_escalation_for_host_notification ::
    "env \<Rightarrow> host_id \<Rightarrow> hostescalation \<Rightarrow> notif_options \<Rightarrow> engine \<Rightarrow> bool" where
  "is_valid_escalation_for_host_notification ev h he options w =
     (let hst = host_of w h;
          notification_number = (if h_current_state hst = HOST_UP
                                 then h_current_notification_number hst - 1
                                 else h_current_notification_number hst)
      in if he_host_ptr he \<noteq> Some h then False
         else if opt_broadcast options then True
         else if he_first_notification he > notification_number then False
         else if he_last_notification he \<noteq> 0 \<and> he_last_notification he < notification_number then False
         else if he_escalation_period he \<noteq> None \<and>
                 check_time_against_period ev None (now ev) (he_escalation_period he) = ERROR then False
         else if h_current_state hst = HOST_UP \<and> \<not> he_escalate_on_recovery he then False
         else if h_current_state hst = HOST_DOWN \<and> \<not> he_escalate_on_down he then False
         else if h_current_state hst = HOST_UNREACHABLE \<and> \<not> he_escalate_on_unreachable he then False
         else True)"

definition should_host_notification_be_escalated :: "env \<Rightarrow> host_id \<Rightarrow> engine \<Rightarrow> bool" where
  "should_host_notification_be_escalated ev h w =
     list_ex (\<lambda>he. is_valid_escalation_for_host_notification ev h he NOTIFICATION_OPTION_NONE w)
       (hostescalations w h)"

definition add_host_escalation_contacts ::
    "env \<Rightarrow> host_id \<Rightarrow> notif_options \<Rightarrow> engine \<Rightarrow> notification_state \<Rightarrow> notification_state" where
  "add_host_escalation_contacts ev h options w st =
     fold (\<lambda>he st.
         if \<not> is_valid_escalation_for_host_notification ev h he options w then st
         else add_groups w (contact_groups he) (add_contacts (contacts he) st))
       (hostescalations w h) st"

definition create_notification_list_from_host ::
    "env \<Rightarrow> host_id \<Rightarrow> notif_options \<Rightarrow> nagios_macros \<Rightarrow> engine \<Rightarrow> bool \<times> notification_state" where
  "create_notification_list_from_host ev h options mac w =
     (let escalate = should_host_notification_be_escalated ev h w;
          st = (mac\<lparr>mac_isescalated := Some escalate\<rparr>, []);
          st1 = (if escalate \<or> opt_broadcast options
                 then add_host_escalation_contacts ev h options w st else st);
          st2 = (if \<not> escalate \<or> opt_broadcast options
                 then add_groups w (contact_groups (host_of w h)) (add_contacts (contacts (host_of w h)) st1)
                 else st1)
      in (escalate, st2))"

section \<open>The next notification\<close>

text \<open>One step of the search for the shortest interval of the valid escalations.\<close>

definition escalated_interval :: "bool \<Rightarrow> rat \<Rightarrow> bool \<times> rat \<Rightarrow> bool \<times> rat" where
  "escalated_interval valid i st =
     (let (have_escalated_interval, interval_to_use) = st in
      if i < 0 then st
      else if \<not> valid then st
      else if \<not> have_escalated_interval then (True, i)
      else if i < interval_to_use then (True, i)
      else st)"

definition get_next_service_notification_time ::
    "env \<Rightarrow> svc_id \<Rightarrow> int \<Rightarrow> engine \<Rightarrow> int \<times> engine" where
  "get_next_service_notification_time ev s offset w =
     (let (_, interval_to_use) =
            fold (\<lambda>se. escalated_interval
                    (is_valid_escalation_for_service_notification ev s se NOTIFICATION_OPTION_NONE w)
                    (se_notification_interval se))
              (serviceescalation_list w) (False, s_notification_interval (svc_of w s));
          no_more = (interval_to_use = 0 \<and> \<not> s_is_volatile (svc_of w s))
      in (offset + trunc_to_time (interval_to_use * of_int (interval_length (cfg w))),
          upd_svc s (\<lambda>v. v\<lparr>s_no_more_notifications := no_more\<rparr>) w))"

definition get_next_host_notification_time ::
    "env \<Rightarrow> host_id \<Rightarrow> int \<Rightarrow> engine \<Rightarrow> int \<times> engine" where
  "get_next_host_notification_time ev h offset w =
     (let (_, interval_to_use) =
            fold (\<lambda>he. escalated_interval
                    (is_valid_escalation_for_host_notification ev h he NOTIFICATION_OPTION_NONE w)
                    (he_notification_interval he))
              (hostescalation_list w) (False, h_notification_interval (host_of w h))
      in (trunc_to_time (of_int offset + interval_to_use * of_int (interval_length (cfg w))),
          upd_host h (\<lambda>v. v\<lparr>h_no_more_notifications := (interval_to_use = 0)\<rparr>) w))"

section \<open>Notifying one contact\<close>

definition check_contact_service_notification_viability ::
    "env \<Rightarrow> contact_id \<Rightarrow> svc_id \<Rightarrow> notif_type \<Rightarrow> notif_options \<Rightarrow> engine \<Rightarrow> result" where
  "check_contact_service_notification_viability ev c s ty options w =
     (let cntct = contact_of w c; svc = svc_of w s in
      if opt_forced options then OK
      else if \<not> c_service_notifications_enabled cntct then ERROR
      else if check_time_against_period ev (get_contact_timezone w c) (now ev)
                (c_service_notification_period cntct) = ERROR then ERROR
      else if ty = NOTIFICATION_CUSTOM then OK
      else if ty \<in> {NOTIFICATION_FLAPPINGSTART, NOTIFICATION_FLAPPINGSTOP, NOTIFICATION_FLAPPINGDISABLED}
      then (if \<not> c_notify_on_service_flapping cntct then ERROR else OK)
      else if ty \<in> {NOTIFICATION_DOWNTIMESTART, NOTIFICATION_DOWNTIMEEND, NOTIFICATION_DOWNTIMECANCELLED}
      then (if \<not> c_notify_on_service_downtime cntct then ERROR else OK)
      else if s_current_state svc = STATE_UNKNOWN \<and> \<not> c_notify_on_service_unknown cntct then ERROR
      else if s_current_state svc = STATE_WARNING \<and> \<not> c_notify_on_service_warning cntct then ERROR
      else if s_current_state svc = STATE_CRITICAL \<and> \<not> c_notify_on_service_critical cntct then ERROR
      else if s_current_state svc = STATE_OK \<and> \<not> c_notify_on_service_recovery cntct then ERROR
      else if s_current_state svc = STATE_OK \<and>
              \<not> (s_notified_on_unknown svc \<and> c_notify_on_service_unknown cntct
                 \<or> s_notified_on_warning svc \<and> c_notify_on_service_warning cntct
                 \<or> s_notified_on_critical svc \<and> c_notify_on_service_critical cntct) then ERROR
      else OK)"

definition check_contact_host_notification_viability ::
    "env \<Rightarrow> contact_id \<Rightarrow> host_id \<Rightarrow> notif_type \<Rightarrow> notif_options \<Rightarrow> engine \<Rightarrow> result" where
  "check_contact_host_notification_viability ev c h ty options w =
     (let cntct = contact_of w c; hst = host_of w h in
      if opt_forced options then OK
      else if \<not> c_host_notifications_enabled cntct then ERROR
      else if check_time_against_period ev (get_contact_timezone w c) (now ev)
                (c_host_notification_period cntct) = ERROR then ERROR
      else if ty = NOTIFICATION_CUSTOM then OK
      else if ty \<in> {NOTIFICATION_FLAPPINGSTART, NOTIFICATION_FLAPPINGSTOP, NOTIFICATION_FLAPPINGDISABLED}
      then (if \<not> c_notify_on_host_flapping cntct then ERROR else OK)
      else if ty \<in> {NOTIFICATION_DOWNTIMESTART, NOTIFICATION_DOWNTIMEEND, NOTIFICATION_DOWNTIMECANCELLED}
      then (if \<not> c_notify_on_host_downtime cntct then ERROR else OK)
      else if h_current_state hst = HOST_DOWN \<and> \<not> c_notify_on_host_down cntct then ERROR
      else if h_current_state hst = HOST_UNREACHABLE \<and> \<not> c_notify_on_host_unreachable cntct then ERROR
      else if h_current_state hst = HOST_UP \<and> \<not> c_notify_on_host_recovery cntct then ERROR
      else if h_current_state hst = HOST_UP \<and>
              \<not> (h_notified_on_down hst \<and> c_notify_on_host_down cntct
                 \<or> h_notified_on_unreachable hst \<and> c_notify_on_host_unreachable cntct) then ERROR
      else OK)"

text \<open>
  The commands of one contact, in order. A broker module may end the loop or skip a command;
  a command whose macros do not expand is skipped.
\<close>

fun run_notification_commands ::
    "env \<Rightarrow> nagios_macros \<Rightarrow> contact_id \<Rightarrow> notif_target \<Rightarrow> string list \<Rightarrow> engine \<Rightarrow> engine" where
  "run_notification_commands ev mac c tgt [] w = w"
| "run_notification_commands ev mac c tgt (cmd # cmds) w =
     (let w1 = emit (Broker_method_start c tgt cmd) w in
      case neb_contact_method ev c tgt cmd of
        NEB_CANCEL \<Rightarrow> w1
      | NEB_OVERRIDE \<Rightarrow> run_notification_commands ev mac c tgt cmds w1
      | NEB_CONTINUE \<Rightarrow>
          (case processed_command ev mac c tgt cmd of
             None \<Rightarrow> run_notification_commands ev mac c tgt cmds w1
           | Some line \<Rightarrow>
               run_notification_commands ev mac c tgt cmds
                 (emit (Broker_method_end c tgt cmd) (emit (Run_notification_command c tgt line) w1))))"

definition notify_contact_of_service ::
    "env \<Rightarrow> nagios_macros \<Rightarrow> contact_id \<Rightarrow> svc_id \<Rightarrow> notif_type \<Rightarrow> notif_options \<Rightarrow> bool \<Rightarrow>
     engine \<Rightarrow> result \<times> engine" where
  "notify_contact_of_service ev mac c s ty options escalated w =
     (if check_contact_service_notification_viability ev c s ty options w = ERROR then (ERROR, w)
      else
        let tgt = ServiceTarget s;
            w1 = emit (Broker_contact_start c tgt ty escalated) w
        in case neb_contact_notification ev c tgt ty of
             NEB_CANCEL \<Rightarrow> (ERROR, w1)
           | NEB_OVERRIDE \<Rightarrow> (OK, w1)
           | NEB_CONTINUE \<Rightarrow>
               let w2 = run_notification_commands ev mac c tgt
                          (c_service_notification_commands (contact_of w1 c)) w1;
                   w3 = upd_contact c (\<lambda>k. k\<lparr>c_last_service_notification := now ev\<rparr>) w2
               in (OK, emit (Broker_contact_end c tgt ty escalated) w3))"

definition notify_contact_of_host ::
    "env \<Rightarrow> nagios_macros \<Rightarrow> contact_id \<Rightarrow> host_id \<Rightarrow> notif_type \<Rightarrow> notif_options \<Rightarrow> bool \<Rightarrow>
     engine \<Rightarrow> result \<times> engine" where
  "notify_contact_of_host ev mac c h ty options escalated w =
     (if check_contact_host_notification_viability ev c h ty options w = ERROR then (ERROR, w)
      else
        let tgt = HostTarget h;
            w1 = emit (Broker_contact_start c tgt ty escalated) w
        in case neb_contact_notification ev c tgt ty of
             NEB_CANCEL \<Rightarrow> (ERROR, w1)
           | NEB_OVERRIDE \<Rightarrow> (OK, w1)
           | NEB_CONTINUE \<Rightarrow>
               let w2 = run_notification_commands ev mac c tgt
                          (c_host_notification_commands (contact_of w1 c)) w1;
                   w3 = upd_contact c (\<lambda>k. k\<lparr>c_last_host_notification := now ev\<rparr>) w2
               in (OK, emit (Broker_contact_end c tgt ty escalated) w3))"

section \<open>The list holds each contact once\<close>

definition members_of :: "engine \<Rightarrow> 'a contacts_of_scheme \<Rightarrow> contact_id set" where
  "members_of w x =
     {c. Some c \<in> set (contacts x)} \<union>
     (\<Union>g\<in>{g. Some g \<in> set (contact_groups x)}. {c. Some c \<in> set (group_members w g)})"

fun comma_join :: "string list \<Rightarrow> string option" where
  "comma_join [] = None"
| "comma_join (x # xs) = Some (foldl (\<lambda>b c. b @ '','' @ c) x xs)"

lemma comma_join_snoc:
  "comma_join (xs @ [c]) =
     Some (case comma_join xs of None \<Rightarrow> c | Some b \<Rightarrow> b @ '','' @ c)"
  by (cases xs) simp_all

text \<open>The list and the recipients macro grow together.\<close>

definition list_ok :: "notification_state \<Rightarrow> bool" where
  "list_ok st \<longleftrightarrow> distinct (snd st) \<and> mac_recipients (fst st) = comma_join (rev (snd st))"

lemma add_notification_ok:
  "list_ok st \<Longrightarrow>
   list_ok (add_notification (Some c) st) \<and> set (snd (add_notification (Some c) st)) = insert c (set (snd st))"
  by (cases st)
    (auto simp: list_ok_def add_notification_def find_notification_def find_None_iff find_Some_iff
      comma_join_snoc split: option.split)

lemma add_contacts_ok:
  "list_ok st \<Longrightarrow>
   list_ok (add_contacts cs st) \<and> set (snd (add_contacts cs st)) = set (snd st) \<union> {c. Some c \<in> set cs}"
proof (induction cs arbitrary: st)
  case (Cons c cs)
  show ?case
  proof (cases c)
    case None
    with Cons show ?thesis by (simp add: add_contacts_def)
  next
    case (Some x)
    with Cons.IH [of "add_notification (Some x) st"] add_notification_ok [OF Cons.prems, of x]
    show ?thesis by (auto simp: add_contacts_def)
  qed
qed (simp add: add_contacts_def)

lemma add_groups_ok:
  "list_ok st \<Longrightarrow>
   list_ok (add_groups w gs st) \<and> set (snd (add_groups w gs st)) =
     set (snd st) \<union> (\<Union>g\<in>{g. Some g \<in> set gs}. {c. Some c \<in> set (group_members w g)})"
proof (induction gs arbitrary: st)
  case (Cons g gs)
  show ?case
  proof (cases g)
    case None
    with Cons show ?thesis by (simp add: add_groups_def)
  next
    case (Some x)
    with Cons.IH [of "add_contacts (group_members w x) st"]
      add_contacts_ok [OF Cons.prems, of "group_members w x"]
    show ?thesis by (auto simp: add_groups_def)
  qed
qed (simp add: add_groups_def)

lemma add_members_ok:
  assumes "list_ok st"
  shows "list_ok (add_groups w (contact_groups x) (add_contacts (contacts x) st)) \<and>
    set (snd (add_groups w (contact_groups x) (add_contacts (contacts x) st))) =
      set (snd st) \<union> members_of w x"
  using add_contacts_ok [OF assms, of "contacts x"]
    add_groups_ok [of "add_contacts (contacts x) st" w "contact_groups x"]
  by (auto simp: members_of_def)

lemma add_escalations_ok:
  "list_ok st \<Longrightarrow>
   list_ok (fold (\<lambda>e st. if \<not> V e then st
        else add_groups w (contact_groups e) (add_contacts (contacts e) st)) es st) \<and>
   set (snd (fold (\<lambda>e st. if \<not> V e then st
        else add_groups w (contact_groups e) (add_contacts (contacts e) st)) es st)) =
     set (snd st) \<union> (\<Union>e\<in>{e \<in> set es. V e}. members_of w e)"
proof (induction es arbitrary: st)
  case (Cons e es)
  show ?case
  proof (cases "V e")
    case False
    with Cons show ?thesis by auto
  next
    case True
    with Cons.IH [of "add_groups w (contact_groups e) (add_contacts (contacts e) st)"]
      add_members_ok [OF Cons.prems, of w e]
    show ?thesis by auto
  qed
qed simp

text \<open>Who is notified, given the escalations that are valid.\<close>

definition notified_set ::
    "engine \<Rightarrow> bool \<Rightarrow> bool \<Rightarrow> 'e contacts_of_scheme list \<Rightarrow> ('e contacts_of_scheme \<Rightarrow> bool) \<Rightarrow>
     'o contacts_of_scheme \<Rightarrow> contact_id set" where
  "notified_set w escalated broadcast es V obj =
     (if escalated \<or> broadcast then (\<Union>e\<in>{e \<in> set es. V e}. members_of w e) else {}) \<union>
     (if \<not> escalated \<or> broadcast then members_of w obj else {})"

lemma list_ok_start: "list_ok (mac\<lparr>mac_isescalated := x\<rparr>, []) \<longleftrightarrow> mac_recipients mac = None"
  by (simp add: list_ok_def)

lemma service_list_ok:
  assumes "mac_recipients mac = None"
    "create_notification_list_from_service ev s options mac w = (escalated, st)"
  shows "list_ok st \<and> escalated = should_service_notification_be_escalated ev s w \<and>
    set (snd st) = notified_set w escalated (opt_broadcast options) (serviceescalations w s)
      (\<lambda>se. is_valid_escalation_for_service_notification ev s se options w) (svc_of w s)"
proof -
  let ?st0 = "(mac\<lparr>mac_isescalated := Some escalated\<rparr>, [])"
  let ?V = "\<lambda>se. is_valid_escalation_for_service_notification ev s se options w"
  let ?st1 = "if escalated \<or> opt_broadcast options
     then add_service_escalation_contacts ev s options w ?st0 else ?st0"
  have esc: "escalated = should_service_notification_be_escalated ev s w"
    and st: "st = (if \<not> escalated \<or> opt_broadcast options
       then add_groups w (contact_groups (svc_of w s)) (add_contacts (contacts (svc_of w s)) ?st1)
       else ?st1)"
    using assms(2) by (auto simp: create_notification_list_from_service_def Let_def)
  have ok0: "list_ok ?st0" using assms(1) by (simp add: list_ok_start)
  have "list_ok ?st1 \<and> set (snd ?st1) =
      (if escalated \<or> opt_broadcast options then (\<Union>e\<in>{e \<in> set (serviceescalations w s). ?V e}. members_of w e) else {})"
    using add_escalations_ok [OF ok0, of ?V w "serviceescalations w s"] ok0
    by (cases escalated; simp add: add_service_escalation_contacts_def)
  with esc add_members_ok [of ?st1 w "svc_of w s"] show ?thesis
    unfolding st notified_set_def by auto
qed

lemma host_list_ok:
  assumes "mac_recipients mac = None"
    "create_notification_list_from_host ev h options mac w = (escalated, st)"
  shows "list_ok st \<and> escalated = should_host_notification_be_escalated ev h w \<and>
    set (snd st) = notified_set w escalated (opt_broadcast options) (hostescalations w h)
      (\<lambda>he. is_valid_escalation_for_host_notification ev h he options w) (host_of w h)"
proof -
  let ?st0 = "(mac\<lparr>mac_isescalated := Some escalated\<rparr>, [])"
  let ?V = "\<lambda>he. is_valid_escalation_for_host_notification ev h he options w"
  let ?st1 = "if escalated \<or> opt_broadcast options
     then add_host_escalation_contacts ev h options w ?st0 else ?st0"
  have esc: "escalated = should_host_notification_be_escalated ev h w"
    and st: "st = (if \<not> escalated \<or> opt_broadcast options
       then add_groups w (contact_groups (host_of w h)) (add_contacts (contacts (host_of w h)) ?st1)
       else ?st1)"
    using assms(2) by (auto simp: create_notification_list_from_host_def Let_def)
  have ok0: "list_ok ?st0" using assms(1) by (simp add: list_ok_start)
  have "list_ok ?st1 \<and> set (snd ?st1) =
      (if escalated \<or> opt_broadcast options then (\<Union>e\<in>{e \<in> set (hostescalations w h). ?V e}. members_of w e) else {})"
    using add_escalations_ok [OF ok0, of ?V w "hostescalations w h"] ok0
    by (cases escalated; simp add: add_host_escalation_contacts_def)
  with esc add_members_ok [of ?st1 w "host_of w h"] show ?thesis
    unfolding st notified_set_def by auto
qed

section \<open>The shortest interval\<close>

definition usable_intervals :: "('e \<Rightarrow> bool) \<Rightarrow> ('e \<Rightarrow> rat) \<Rightarrow> 'e list \<Rightarrow> rat list" where
  "usable_intervals V iv es = map iv (filter (\<lambda>e. V e \<and> 0 \<le> iv e) es)"

definition interval_of :: "rat \<Rightarrow> rat list \<Rightarrow> rat" where
  "interval_of d ivs = (if ivs = [] then d else Min (set ivs))"

lemma escalated_interval_have:
  "escalated_interval v x (True, i) = (True, if v \<and> 0 \<le> x then min i x else i)"
  by (auto simp: escalated_interval_def min_def)

lemma Min_insert_min: "finite S \<Longrightarrow> Min (insert (min a b) S) = Min (insert a (insert b S))"
  for a b :: rat
  by (cases "S = {}") (simp_all add: min.assoc)

lemma fold_escalated_interval_have:
  "fold (\<lambda>e. escalated_interval (V e) (iv e)) es (True, i) =
     (True, Min (insert i (set (usable_intervals V iv es))))"
proof (induction es arbitrary: i)
  case (Cons e es)
  show ?case
  proof (cases "V e \<and> 0 \<le> iv e")
    case True
    then have "set (usable_intervals V iv (e # es)) = insert (iv e) (set (usable_intervals V iv es))"
      by (simp add: usable_intervals_def)
    with True Cons show ?thesis by (simp add: escalated_interval_have Min_insert_min)
  next
    case False
    then have "usable_intervals V iv (e # es) = usable_intervals V iv es"
      by (simp add: usable_intervals_def)
    moreover have "escalated_interval (V e) (iv e) (True, i) = (True, i)"
      using False by (auto simp: escalated_interval_have)
    ultimately show ?thesis using Cons by simp
  qed
qed (simp add: usable_intervals_def)

lemma fold_escalated_interval:
  "snd (fold (\<lambda>e. escalated_interval (V e) (iv e)) es (False, d)) =
     interval_of d (usable_intervals V iv es)"
proof (induction es)
  case (Cons e es)
  show ?case
  proof (cases "V e \<and> 0 \<le> iv e")
    case True
    then have "escalated_interval (V e) (iv e) (False, d) = (True, iv e)"
      by (simp add: escalated_interval_def)
    with True show ?thesis
      using fold_escalated_interval_have [of V iv es "iv e"]
      by (simp add: usable_intervals_def interval_of_def)
  next
    case False
    with Cons show ?thesis by (auto simp: escalated_interval_def usable_intervals_def)
  qed
qed (simp add: usable_intervals_def interval_of_def)

lemma interval_of_shortest:
  fixes es :: "'e list" and iv :: "'e \<Rightarrow> rat" and V :: "'e \<Rightarrow> bool" and d :: rat
  defines "valid \<equiv> {e \<in> set es. 0 \<le> iv e \<and> V e}" and "i \<equiv> interval_of d (usable_intervals V iv es)"
  shows "if valid = {} then i = d else i \<in> iv ` valid \<and> (\<forall>e\<in>valid. i \<le> iv e)"
proof -
  let ?ivs = "usable_intervals V iv es"
  have img: "set ?ivs = iv ` valid" by (auto simp: usable_intervals_def valid_def)
  have fin: "finite (iv ` valid)" by (simp flip: img)
  show ?thesis
  proof (cases "valid = {}")
    case True
    then have "set ?ivs = {}" using img by simp
    with True show ?thesis by (simp add: i_def interval_of_def)
  next
    case False
    then have "?ivs \<noteq> []" using img by auto
    then have i: "i = Min (iv ` valid)" by (simp add: i_def interval_of_def img)
    with False fin show ?thesis by simp
  qed
qed

lemma get_next_service_notification_time_eq:
  "get_next_service_notification_time ev s offset w =
     (let i = interval_of (s_notification_interval (svc_of w s))
                (usable_intervals
                   (\<lambda>se. is_valid_escalation_for_service_notification ev s se NOTIFICATION_OPTION_NONE w)
                   se_notification_interval (serviceescalation_list w))
      in (offset + trunc_to_time (i * of_int (interval_length (cfg w))),
          upd_svc s (\<lambda>v. v\<lparr>s_no_more_notifications := (i = 0 \<and> \<not> s_is_volatile (svc_of w s))\<rparr>) w))"
  unfolding get_next_service_notification_time_def
  by (simp add: case_prod_beta fold_escalated_interval Let_def)

lemma get_next_host_notification_time_eq:
  "get_next_host_notification_time ev h offset w =
     (let i = interval_of (h_notification_interval (host_of w h))
                (usable_intervals
                   (\<lambda>he. is_valid_escalation_for_host_notification ev h he NOTIFICATION_OPTION_NONE w)
                   he_notification_interval (hostescalation_list w))
      in (trunc_to_time (of_int offset + i * of_int (interval_length (cfg w))),
          upd_host h (\<lambda>v. v\<lparr>h_no_more_notifications := (i = 0)\<rparr>) w))"
  unfolding get_next_host_notification_time_def
  by (simp add: case_prod_beta fold_escalated_interval Let_def)

section \<open>What notifying a contact changes\<close>

lemma run_notification_commands_only_out:
  "\<exists>acts. run_notification_commands ev mac c tgt cmds w = w\<lparr>out := out w @ acts\<rparr>"
proof (induction cmds arbitrary: w)
  case Nil
  then show ?case by (intro exI [of _ "[]"]) simp
next
  case (Cons cmd cmds)
  have tail: "\<exists>acts. run_notification_commands ev mac c tgt cmds (w\<lparr>out := out w @ a\<rparr>) =
      w\<lparr>out := out w @ acts\<rparr>" for a
    using Cons.IH [of "w\<lparr>out := out w @ a\<rparr>"] by auto
  show ?case
    using tail [of "[Broker_method_start c tgt cmd]"]
      tail [of "Broker_method_start c tgt cmd # Run_notification_command c tgt _ # [Broker_method_end c tgt cmd]"]
    by (auto simp: emit_def Let_def split: neb_result.split option.split)
qed

definition contact_notified :: "engine \<Rightarrow> engine \<Rightarrow> bool" where
  "contact_notified w w' \<longleftrightarrow>
     (\<exists>acts cs. w' = w\<lparr>out := out w @ acts, contact_of := cs\<rparr> \<and>
        (\<forall>c. (cs c)\<lparr>c_last_service_notification := 0, c_last_host_notification := 0\<rparr> =
             (contact_of w c)\<lparr>c_last_service_notification := 0, c_last_host_notification := 0\<rparr>))"

lemma contact_notified_out: "contact_notified w (w\<lparr>out := out w @ acts\<rparr>)"
  unfolding contact_notified_def by (intro exI [of _ acts] exI [of _ "contact_of w"]) simp

lemma contact_notified_refl [simp]: "contact_notified w w"
  using contact_notified_out [of w "[]"] by simp

lemma contact_notified_emit: "contact_notified w (emit a w)"
  unfolding emit_def by (rule contact_notified_out)

lemma contact_notified_time:
  "contact_notified w (upd_contact c (\<lambda>k. k\<lparr>c_last_service_notification := t\<rparr>) w)"
  "contact_notified w (upd_contact c (\<lambda>k. k\<lparr>c_last_host_notification := t\<rparr>) w)"
  unfolding contact_notified_def upd_contact_def
  by (rule exI [of _ "[]"], force)+

lemma contact_notified_trans [trans]:
  assumes "contact_notified w w1" "contact_notified w1 w2"
  shows "contact_notified w w2"
proof -
  obtain a cs where 1: "w1 = w\<lparr>out := out w @ a, contact_of := cs\<rparr>"
    "\<forall>c. (cs c)\<lparr>c_last_service_notification := 0, c_last_host_notification := 0\<rparr> =
         (contact_of w c)\<lparr>c_last_service_notification := 0, c_last_host_notification := 0\<rparr>"
    using assms(1) unfolding contact_notified_def by blast
  obtain b ds where 2: "w2 = w1\<lparr>out := out w1 @ b, contact_of := ds\<rparr>"
    "\<forall>c. (ds c)\<lparr>c_last_service_notification := 0, c_last_host_notification := 0\<rparr> =
         (contact_of w1 c)\<lparr>c_last_service_notification := 0, c_last_host_notification := 0\<rparr>"
    using assms(2) unfolding contact_notified_def by blast
  from 1 2 show ?thesis
    unfolding contact_notified_def by (intro exI [of _ "a @ b"] exI [of _ ds]) simp
qed

lemma run_notification_commands_frame: "contact_notified w (run_notification_commands ev mac c tgt cmds w)"
  using run_notification_commands_only_out [of ev mac c tgt cmds w] contact_notified_out by auto

lemma notify_contact_of_service_frame:
  "contact_notified w (snd (notify_contact_of_service ev mac c s ty options e w))"
proof -
  let ?w1 = "emit (Broker_contact_start c (ServiceTarget s) ty e) w"
  let ?w2 = "run_notification_commands ev mac c (ServiceTarget s)
     (c_service_notification_commands (contact_of ?w1 c)) ?w1"
  let ?w3 = "upd_contact c (\<lambda>k. k\<lparr>c_last_service_notification := now ev\<rparr>) ?w2"
  have 1: "contact_notified w ?w1" by (rule contact_notified_emit)
  also have "contact_notified \<dots> ?w2" by (rule run_notification_commands_frame)
  also have "contact_notified \<dots> ?w3" by (rule contact_notified_time)
  also have "contact_notified \<dots> (emit (Broker_contact_end c (ServiceTarget s) ty e) ?w3)"
    by (rule contact_notified_emit)
  finally show ?thesis
    using 1 by (simp add: notify_contact_of_service_def Let_def split: neb_result.split)
qed

lemma notify_contact_of_host_frame:
  "contact_notified w (snd (notify_contact_of_host ev mac c h ty options e w))"
proof -
  let ?w1 = "emit (Broker_contact_start c (HostTarget h) ty e) w"
  let ?w2 = "run_notification_commands ev mac c (HostTarget h)
     (c_host_notification_commands (contact_of ?w1 c)) ?w1"
  let ?w3 = "upd_contact c (\<lambda>k. k\<lparr>c_last_host_notification := now ev\<rparr>) ?w2"
  have 1: "contact_notified w ?w1" by (rule contact_notified_emit)
  also have "contact_notified \<dots> ?w2" by (rule run_notification_commands_frame)
  also have "contact_notified \<dots> ?w3" by (rule contact_notified_time)
  also have "contact_notified \<dots> (emit (Broker_contact_end c (HostTarget h) ty e) ?w3)"
    by (rule contact_notified_emit)
  finally show ?thesis
    using 1 by (simp add: notify_contact_of_host_def Let_def split: neb_result.split)
qed

end
