(* ===== verification/Notifications.thy ===== *)
theory Notifications
  imports Notification_List
begin

text \<open>
  Sending a notification for a service or a host: the filters
  (\<open>check_service_notification_viability\<close>, \<open>check_host_notification_viability\<close>)
  and the senders (\<open>service_notification\<close>, \<open>host_notification\<close>) of
  \<^verbatim>\<open>src/notifications.cc\<close>. The long functions are cut along the comments of the
  source into stages; a stage that returns \<open>None\<close> lets the next one decide. The result
  is \<open>None\<close> as a whole when a dependency check does not end.
\<close>

section \<open>Filters of a service notification\<close>

definition check_service_notification_period ::
    "env \<Rightarrow> svc_id \<Rightarrow> host_id \<Rightarrow> notif_type \<Rightarrow> engine \<Rightarrow> result \<times> engine" where
  "check_service_notification_period ev s h ty w =
     (let svc = svc_of w s;
          temp_period = (case s_notification_period_ptr svc of
                           None \<Rightarrow> h_notification_period_ptr (host_of w h)
                         | Some p \<Rightarrow> Some p);
          tz = get_service_timezone w s
      in if check_time_against_period ev tz (now ev) temp_period = ERROR
         then (ERROR,
               if ty = NOTIFICATION_NORMAL
               then let timeperiod_start = get_next_valid_time ev tz (now ev) (s_notification_period_ptr svc);
                        t = (if timeperiod_start = 0 then now ev + 60 * 60 * 24 * 365 else timeperiod_start)
                    in upd_svc s (\<lambda>v. v\<lparr>s_next_notification := t\<rparr>) w
               else w)
         else (OK, w))"

definition service_special_viability :: "svc_id \<Rightarrow> host_id \<Rightarrow> notif_type \<Rightarrow> engine \<Rightarrow> result option" where
  "service_special_viability s h ty w =
     (let svc = svc_of w s; hst = host_of w h;
          in_downtime = (s_scheduled_downtime_depth svc > 0 \<or> h_scheduled_downtime_depth hst > 0)
      in case ty of
           NOTIFICATION_CUSTOM \<Rightarrow> Some (if in_downtime then ERROR else OK)
         | NOTIFICATION_ACKNOWLEDGEMENT \<Rightarrow> Some (if s_current_state svc = STATE_OK then ERROR else OK)
         | NOTIFICATION_NORMAL \<Rightarrow> None
         | _ \<Rightarrow>
             if ty \<in> {NOTIFICATION_FLAPPINGSTART, NOTIFICATION_FLAPPINGSTOP, NOTIFICATION_FLAPPINGDISABLED}
             then Some (if \<not> s_notify_on_flapping svc then ERROR
                        else if in_downtime then ERROR else OK)
             else Some (if \<not> s_notify_on_downtime svc then ERROR
                        else if s_scheduled_downtime_depth svc > 0 then ERROR else OK))"

definition service_state_filter :: "svc_id \<Rightarrow> engine \<Rightarrow> result" where
  "service_state_filter s w =
     (let svc = svc_of w s in
      if s_current_state svc = STATE_UNKNOWN \<and> \<not> s_notify_on_unknown svc then ERROR
      else if s_current_state svc = STATE_WARNING \<and> \<not> s_notify_on_warning svc then ERROR
      else if s_current_state svc = STATE_CRITICAL \<and> \<not> s_notify_on_critical svc then ERROR
      else if s_current_state svc = STATE_OK \<and> \<not> s_notify_on_recovery svc then ERROR
      else if s_current_state svc = STATE_OK \<and>
              \<not> (s_notified_on_unknown svc \<or> s_notified_on_warning svc \<or> s_notified_on_critical svc)
      then ERROR
      else OK)"

definition service_first_notification_delay ::
    "env \<Rightarrow> svc_id \<Rightarrow> notif_type \<Rightarrow> engine \<Rightarrow> result \<times> engine" where
  "service_first_notification_delay ev s ty w =
     (let svc = svc_of w s in
      if ty = NOTIFICATION_NORMAL \<and>
         (s_current_notification_number svc = 0 \<or>
          s_current_state svc = STATE_OK \<and> \<not> so_recovery_been_sent (service_other_props w s))
      then
        let w1 = (if so_initial_notif_time (service_other_props w s) = 0
                  then upd_svc_other s (\<lambda>p. p\<lparr>so_initial_notif_time := now ev\<rparr>) w else w);
            initial_notif_time = so_initial_notif_time (service_other_props w1 s);
            notification_delay =
              (if s_current_state svc \<noteq> STATE_OK then s_first_notification_delay svc
               else of_int (so_recovery_notification_delay (service_other_props w s)))
              * of_int (interval_length (cfg w))
        in (if now ev < initial_notif_time + trunc_to_time notification_delay then ERROR else OK, w1)
      else (OK, w))"

definition service_final_viability :: "env \<Rightarrow> svc_id \<Rightarrow> host_id \<Rightarrow> engine \<Rightarrow> result" where
  "service_final_viability ev s h w =
     (let svc = svc_of w s; hst = host_of w h in
      if s_is_flapping svc then ERROR
      else if s_scheduled_downtime_depth svc > 0 then ERROR
      else if h_scheduled_downtime_depth hst > 0 then ERROR
      else if s_current_state svc = STATE_OK
      then (if s_current_notification_number svc > 0 then OK else ERROR)
      else if s_no_more_notifications svc then ERROR
      else if h_current_state hst \<noteq> HOST_UP then ERROR
      else if now ev < s_next_notification svc \<and> \<not> s_is_volatile svc then ERROR
      else OK)"

definition check_service_notification_viability ::
    "env \<Rightarrow> svc_id \<Rightarrow> notif_type \<Rightarrow> notif_options \<Rightarrow> engine \<Rightarrow> (result \<times> engine) option" where
  "check_service_notification_viability ev s ty options w =
     (if opt_forced options then Some (OK, w)
      else if \<not> enable_notifications (cfg w) then Some (ERROR, w)
      else (case s_host_ptr (svc_of w s) of
        None \<Rightarrow> Some (ERROR, w)
      | Some h \<Rightarrow>
          let (r, w1) = check_service_notification_period ev s h ty w in
          if r = ERROR then Some (ERROR, w1)
          else if \<not> s_notifications_enabled (svc_of w1 s) then Some (ERROR, w1)
          else (case service_special_viability s h ty w1 of
            Some r \<Rightarrow> Some (r, w1)
          | None \<Rightarrow>
              if s_state_type (svc_of w1 s) = SOFT_STATE then Some (ERROR, w1)
              else if s_problem_has_been_acknowledged (svc_of w1 s) then Some (ERROR, w1)
              else Option.bind (check_service_dependencies ev s NOTIFICATION_DEPENDENCY w1) (\<lambda>d.
                if d = DEPENDENCIES_FAILED then Some (ERROR, w1)
                else Option.bind (check_host_dependencies ev h NOTIFICATION_DEPENDENCY w1) (\<lambda>d.
                  if d = DEPENDENCIES_FAILED then Some (ERROR, w1)
                  else if service_state_filter s w1 = ERROR then Some (ERROR, w1)
                  else
                    let (r, w2) = service_first_notification_delay ev s ty w1 in
                    if r = ERROR then Some (ERROR, w2)
                    else Some (service_final_viability ev s h w2, w2))))))"

section \<open>Filters of a host notification\<close>

definition check_host_notification_period ::
    "env \<Rightarrow> host_id \<Rightarrow> notif_type \<Rightarrow> engine \<Rightarrow> result \<times> engine" where
  "check_host_notification_period ev h ty w =
     (let hst = host_of w h; tz = get_host_timezone w h in
      if check_time_against_period ev tz (now ev) (h_notification_period_ptr hst) = ERROR
      then (ERROR,
            if ty = NOTIFICATION_NORMAL
            then let timeperiod_start = get_next_valid_time ev tz (now ev) (h_notification_period_ptr hst);
                     t = (if timeperiod_start = 0 then now ev + 60 * 60 * 24 * 365 else timeperiod_start)
                 in upd_host h (\<lambda>v. v\<lparr>h_next_host_notification := t\<rparr>) w
            else w)
      else (OK, w))"

definition host_special_viability :: "host_id \<Rightarrow> notif_type \<Rightarrow> engine \<Rightarrow> result option" where
  "host_special_viability h ty w =
     (let hst = host_of w h; in_downtime = (h_scheduled_downtime_depth hst > 0) in
      case ty of
        NOTIFICATION_CUSTOM \<Rightarrow> Some (if in_downtime then ERROR else OK)
      | NOTIFICATION_ACKNOWLEDGEMENT \<Rightarrow> Some (if h_current_state hst = HOST_UP then ERROR else OK)
      | NOTIFICATION_NORMAL \<Rightarrow> None
      | _ \<Rightarrow>
          if ty \<in> {NOTIFICATION_FLAPPINGSTART, NOTIFICATION_FLAPPINGSTOP, NOTIFICATION_FLAPPINGDISABLED}
          then Some (if \<not> h_notify_on_flapping hst then ERROR else if in_downtime then ERROR else OK)
          else Some (if \<not> h_notify_on_downtime hst then ERROR else if in_downtime then ERROR else OK))"

definition host_state_filter :: "host_id \<Rightarrow> engine \<Rightarrow> result" where
  "host_state_filter h w =
     (let hst = host_of w h in
      if h_current_state hst = HOST_UNREACHABLE \<and> \<not> h_notify_on_unreachable hst then ERROR
      else if h_current_state hst = HOST_DOWN \<and> \<not> h_notify_on_down hst then ERROR
      else if h_current_state hst = HOST_UP \<and> \<not> h_notify_on_recovery hst then ERROR
      else if h_current_state hst = HOST_UP \<and>
              \<not> (h_notified_on_down hst \<or> h_notified_on_unreachable hst) then ERROR
      else OK)"

definition host_first_notification_delay ::
    "env \<Rightarrow> host_id \<Rightarrow> notif_type \<Rightarrow> engine \<Rightarrow> result \<times> engine" where
  "host_first_notification_delay ev h ty w =
     (let hst = host_of w h in
      if ty = NOTIFICATION_NORMAL \<and>
         (h_current_notification_number hst = 0 \<or>
          h_current_state hst = HOST_UP \<and> \<not> ho_recovery_been_sent (host_other_props w h))
      then
        let w1 = (if ho_initial_notif_time (host_other_props w h) = 0
                  then upd_host_other h (\<lambda>p. p\<lparr>ho_initial_notif_time := now ev\<rparr>) w else w);
            initial_notif_time = ho_initial_notif_time (host_other_props w1 h);
            notification_delay =
              (if h_current_state hst \<noteq> HOST_UP then h_first_notification_delay hst
               else of_int (ho_recovery_notification_delay (host_other_props w h)))
              * of_int (interval_length (cfg w))
        in (if now ev < initial_notif_time + trunc_to_time notification_delay then ERROR else OK, w1)
      else (OK, w))"

definition host_final_viability :: "env \<Rightarrow> host_id \<Rightarrow> engine \<Rightarrow> result" where
  "host_final_viability ev h w =
     (let hst = host_of w h in
      if h_is_flapping hst then ERROR
      else if h_scheduled_downtime_depth hst > 0 then ERROR
      else if h_current_state hst = HOST_UP then OK
      else if h_no_more_notifications hst then ERROR
      else if now ev < h_next_host_notification hst then ERROR
      else OK)"

definition check_host_notification_viability ::
    "env \<Rightarrow> host_id \<Rightarrow> notif_type \<Rightarrow> notif_options \<Rightarrow> engine \<Rightarrow> (result \<times> engine) option" where
  "check_host_notification_viability ev h ty options w =
     (if opt_forced options then Some (OK, w)
      else if \<not> enable_notifications (cfg w) then Some (ERROR, w)
      else
        let (r, w1) = check_host_notification_period ev h ty w in
        if r = ERROR then Some (ERROR, w1)
        else if \<not> h_notifications_enabled (host_of w1 h) then Some (ERROR, w1)
        else (case host_special_viability h ty w1 of
          Some r \<Rightarrow> Some (r, w1)
        | None \<Rightarrow>
            if h_state_type (host_of w1 h) = SOFT_STATE then Some (ERROR, w1)
            else if h_problem_has_been_acknowledged (host_of w1 h) then Some (ERROR, w1)
            else Option.bind (check_host_dependencies ev h NOTIFICATION_DEPENDENCY w1) (\<lambda>d.
              if d = DEPENDENCIES_FAILED then Some (ERROR, w1)
              else if host_state_filter h w1 = ERROR then Some (ERROR, w1)
              else
                let (r, w2) = host_first_notification_delay ev h ty w1 in
                if r = ERROR then Some (ERROR, w2)
                else Some (host_final_viability ev h w2, w2))))"

section \<open>Macros\<close>

definition find_author :: "string option \<Rightarrow> engine \<Rightarrow> contact_id option" where
  "find_author not_author w =
     (case not_author of
        None \<Rightarrow> None
      | Some a \<Rightarrow>
          if a \<in> set (contact_list w) then Some a
          else find (\<lambda>c. c_alias (contact_of w c) = a) (contact_list w))"

definition notification_type_macro :: "notif_type \<Rightarrow> bool \<Rightarrow> string" where
  "notification_type_macro ty recovered =
     (case ty of
        NOTIFICATION_ACKNOWLEDGEMENT \<Rightarrow> ''ACKNOWLEDGEMENT''
      | NOTIFICATION_FLAPPINGSTART \<Rightarrow> ''FLAPPINGSTART''
      | NOTIFICATION_FLAPPINGSTOP \<Rightarrow> ''FLAPPINGSTOP''
      | NOTIFICATION_FLAPPINGDISABLED \<Rightarrow> ''FLAPPINGDISABLED''
      | NOTIFICATION_DOWNTIMESTART \<Rightarrow> ''DOWNTIMESTART''
      | NOTIFICATION_DOWNTIMEEND \<Rightarrow> ''DOWNTIMEEND''
      | NOTIFICATION_DOWNTIMECANCELLED \<Rightarrow> ''DOWNTIMECANCELLED''
      | NOTIFICATION_CUSTOM \<Rightarrow> ''CUSTOM''
      | NOTIFICATION_NORMAL \<Rightarrow> if recovered then ''RECOVERY'' else ''PROBLEM'')"

definition service_notification_macros ::
    "svc_id \<Rightarrow> notif_type \<Rightarrow> string option \<Rightarrow> string option \<Rightarrow> engine \<Rightarrow> nagios_macros \<Rightarrow> nagios_macros" where
  "service_notification_macros s ty not_author not_data w mac =
     (let cntct = find_author not_author w;
          alias = map_option (\<lambda>c. c_alias (contact_of w c)) cntct;
          mac1 = mac\<lparr>mac_author := not_author, mac_comment := not_data,
                     mac_authorname := cntct, mac_authoralias := alias\<rparr>;
          mac2 = (if ty = NOTIFICATION_ACKNOWLEDGEMENT
                  then mac1\<lparr>mac_serviceackauthor := not_author, mac_serviceackcomment := not_data,
                            mac_serviceackauthorname := cntct, mac_serviceackauthoralias := alias\<rparr>
                  else mac1)
      in mac2\<lparr>mac_type := Some (notification_type_macro ty (s_current_state (svc_of w s) = STATE_OK)),
              mac_number := Some (s_current_notification_number (svc_of w s)),
              mac_id := Some (s_current_notification_id (svc_of w s))\<rparr>)"

definition host_notification_macros ::
    "host_id \<Rightarrow> notif_type \<Rightarrow> string option \<Rightarrow> string option \<Rightarrow> engine \<Rightarrow> nagios_macros \<Rightarrow> nagios_macros" where
  "host_notification_macros h ty not_author not_data w mac =
     (let cntct = find_author not_author w;
          alias = map_option (\<lambda>c. c_alias (contact_of w c)) cntct;
          mac1 = mac\<lparr>mac_author := not_author, mac_comment := not_data,
                     mac_authorname := cntct, mac_authoralias := alias\<rparr>;
          mac2 = (if ty = NOTIFICATION_ACKNOWLEDGEMENT
                  then mac1\<lparr>mac_hostackauthor := not_author, mac_hostackcomment := not_data,
                            mac_serviceackauthorname := cntct, mac_serviceackauthoralias := alias\<rparr>
                  else mac1)
      in mac2\<lparr>mac_type := Some (notification_type_macro ty (h_current_state (host_of w h) = HOST_UP)),
              mac_number := Some (h_current_notification_number (host_of w h)),
              mac_id := Some (h_current_notification_id (host_of w h))\<rparr>)"

section \<open>Sending\<close>

definition notify_contacts ::
    "(contact_id \<Rightarrow> engine \<Rightarrow> result \<times> engine) \<Rightarrow> contact_id list \<Rightarrow> engine \<Rightarrow> nat \<times> engine" where
  "notify_contacts f nl w =
     fold (\<lambda>c (n, w). let (r, w') = f c w in (if r = OK then n + 1 else n, w')) nl (0, w)"

definition begin_service_notification :: "svc_id \<Rightarrow> bool \<Rightarrow> engine \<Rightarrow> engine" where
  "begin_service_notification s increment w =
     (let w1 = (if increment
                then upd_svc s (\<lambda>v. v\<lparr>s_current_notification_number := s_current_notification_number v + 1\<rparr>) w
                else w);
          w2 = upd_svc s (\<lambda>v. v\<lparr>s_current_notification_id := next_notification_id w1\<rparr>) w1
      in w2\<lparr>next_notification_id := next_notification_id w2 + 1\<rparr>)"

definition decrement_service_notification :: "svc_id \<Rightarrow> engine \<Rightarrow> engine" where
  "decrement_service_notification s w =
     upd_svc s (\<lambda>v. v\<lparr>s_current_notification_number := s_current_notification_number v - 1\<rparr>) w"

definition service_contacts_notified ::
    "env \<Rightarrow> svc_id \<Rightarrow> notif_type \<Rightarrow> bool \<Rightarrow> nat \<Rightarrow> engine \<Rightarrow> engine" where
  "service_contacts_notified ev s ty increment contacts_notified w =
     (if ty \<noteq> NOTIFICATION_NORMAL then w
      else if contacts_notified > 0
      then
        let (next_notification, w1) = get_next_service_notification_time ev s (now ev) w
        in upd_svc s (\<lambda>v.
             let v1 = v\<lparr>s_next_notification := next_notification, s_last_notification := now ev\<rparr> in
             case s_current_state v1 of
               STATE_UNKNOWN \<Rightarrow> v1\<lparr>s_notified_on_unknown := True\<rparr>
             | STATE_WARNING \<Rightarrow> v1\<lparr>s_notified_on_warning := True\<rparr>
             | STATE_CRITICAL \<Rightarrow> v1\<lparr>s_notified_on_critical := True\<rparr>
             | STATE_OK \<Rightarrow> v1) w1
      else if increment then decrement_service_notification s w
      else w)"

definition service_notification ::
    "env \<Rightarrow> svc_id \<Rightarrow> notif_type \<Rightarrow> string option \<Rightarrow> string option \<Rightarrow> notif_options \<Rightarrow> engine \<Rightarrow>
     (result \<times> engine) option" where
  "service_notification ev s ty not_author not_data options w =
     (case s_host_ptr (svc_of w s) of
        None \<Rightarrow> Some (ERROR, w)
      | Some _ \<Rightarrow> Option.bind (check_service_notification_viability ev s ty options w) (\<lambda>(r, w1).
          if r = ERROR then Some (OK, w1)
          else
            let increment = (ty = NOTIFICATION_NORMAL \<or> opt_increment options);
                w2 = begin_service_notification s increment w1;
                (escalated, mac, nl) = create_notification_list_from_service ev s options empty_macros w2;
                tgt = ServiceTarget s;
                w3 = emit (Broker_notification_start tgt ty escalated) w2
            in case neb_notification ev tgt ty of
                 NEB_CANCEL \<Rightarrow> Some (ERROR, w3)
               | NEB_OVERRIDE \<Rightarrow> Some (OK, w3)
               | NEB_CONTINUE \<Rightarrow>
                   let (contacts_notified, w4) =
                         (if nl \<noteq> []
                          then let mac1 = service_notification_macros s ty not_author not_data w3 mac;
                                   (n, w') = notify_contacts
                                     (\<lambda>c. notify_contact_of_service ev mac1 c s ty options escalated) nl w3
                               in (n, service_contacts_notified ev s ty increment n w')
                          else (0, if increment then decrement_service_notification s w3 else w3));
                       w5 = emit (Broker_notification_end tgt ty escalated contacts_notified) w4;
                       w6 = emit (Update_status tgt) w5
                   in Some (OK,
                        if s_current_state (svc_of w6 s) = STATE_OK
                        then upd_svc_other s (\<lambda>p. p\<lparr>so_recovery_been_sent := True\<rparr>) w6 else w6)))"

definition begin_host_notification :: "host_id \<Rightarrow> bool \<Rightarrow> engine \<Rightarrow> engine" where
  "begin_host_notification h increment w =
     (let w1 = (if increment
                then upd_host h (\<lambda>v. v\<lparr>h_current_notification_number := h_current_notification_number v + 1\<rparr>) w
                else w);
          w2 = upd_host h (\<lambda>v. v\<lparr>h_current_notification_id := next_notification_id w1\<rparr>) w1
      in w2\<lparr>next_notification_id := next_notification_id w2 + 1\<rparr>)"

definition decrement_host_notification :: "host_id \<Rightarrow> engine \<Rightarrow> engine" where
  "decrement_host_notification h w =
     upd_host h (\<lambda>v. v\<lparr>h_current_notification_number := h_current_notification_number v - 1\<rparr>) w"

definition host_contacts_notified ::
    "env \<Rightarrow> host_id \<Rightarrow> notif_type \<Rightarrow> bool \<Rightarrow> nat \<Rightarrow> engine \<Rightarrow> engine" where
  "host_contacts_notified ev h ty increment contacts_notified w =
     (if ty \<noteq> NOTIFICATION_NORMAL then w
      else if contacts_notified > 0
      then
        let (next_notification, w1) = get_next_host_notification_time ev h (now ev) w
        in upd_host h (\<lambda>v.
             let v1 = v\<lparr>h_next_host_notification := next_notification, h_last_host_notification := now ev\<rparr> in
             case h_current_state v1 of
               HOST_DOWN \<Rightarrow> v1\<lparr>h_notified_on_down := True\<rparr>
             | HOST_UNREACHABLE \<Rightarrow> v1\<lparr>h_notified_on_unreachable := True\<rparr>
             | HOST_UP \<Rightarrow> v1) w1
      else if increment then decrement_host_notification h w
      else w)"

definition host_notification ::
    "env \<Rightarrow> host_id \<Rightarrow> notif_type \<Rightarrow> string option \<Rightarrow> string option \<Rightarrow> notif_options \<Rightarrow> engine \<Rightarrow>
     (result \<times> engine) option" where
  "host_notification ev h ty not_author not_data options w =
     Option.bind (check_host_notification_viability ev h ty options w) (\<lambda>(r, w1).
       if r = ERROR then Some (OK, w1)
       else
         let increment = (ty = NOTIFICATION_NORMAL \<or> opt_increment options);
             w2 = begin_host_notification h increment w1;
             (escalated, mac, nl) = create_notification_list_from_host ev h options empty_macros w2;
             tgt = HostTarget h;
             w3 = emit (Broker_notification_start tgt ty escalated) w2
         in case neb_notification ev tgt ty of
              NEB_CANCEL \<Rightarrow> Some (ERROR, w3)
            | NEB_OVERRIDE \<Rightarrow> Some (OK, w3)
            | NEB_CONTINUE \<Rightarrow>
                let (contacts_notified, w4) =
                      (if nl \<noteq> []
                       then let mac1 = host_notification_macros h ty not_author not_data w3 mac;
                                (n, w') = notify_contacts
                                  (\<lambda>c. notify_contact_of_host ev mac1 c h ty options escalated) nl w3
                            in (n, host_contacts_notified ev h ty increment n w')
                       else (0, if increment then decrement_host_notification h w3 else w3));
                    w5 = emit (Broker_notification_end tgt ty escalated contacts_notified) w4;
                    w6 = emit (Update_status tgt) w5
                in Some (OK,
                     if h_current_state (host_of w6 h) = HOST_UP
                     then upd_host_other h (\<lambda>p. p\<lparr>ho_recovery_been_sent := True\<rparr>) w6 else w6))"

section \<open>What the filters decide\<close>

lemma result_ERROR: "r = ERROR \<longleftrightarrow> r \<noteq> OK"
  by (cases r) simp_all

lemma dep_FAILED: "d = DEPENDENCIES_FAILED \<longleftrightarrow> d \<noteq> DEPENDENCIES_OK"
  by (cases d) simp_all

lemma service_period_OK:
  "check_service_notification_period ev s h ty w =
     (if check_time_against_period ev (get_service_timezone w s) (now ev)
           (case s_notification_period_ptr (svc_of w s) of
              None \<Rightarrow> h_notification_period_ptr (host_of w h) | Some p \<Rightarrow> Some p) = OK
      then (OK, w)
      else (ERROR, snd (check_service_notification_period ev s h ty w)))"
  by (simp add: check_service_notification_period_def Let_def result_ERROR)

lemma host_period_OK:
  "check_host_notification_period ev h ty w =
     (if check_time_against_period ev (get_host_timezone w h) (now ev)
           (h_notification_period_ptr (host_of w h)) = OK
      then (OK, w)
      else (ERROR, snd (check_host_notification_period ev h ty w)))"
  by (simp add: check_host_notification_period_def Let_def result_ERROR)

text \<open>The specifications: when the first notification is no longer delayed, and when a
  problem or a recovery may be notified.\<close>

definition service_delay_elapsed :: "env \<Rightarrow> svc_id \<Rightarrow> engine \<Rightarrow> bool" where
  "service_delay_elapsed ev s w \<longleftrightarrow>
     (let svc = svc_of w s; p = service_other_props w s;
          start = (if so_initial_notif_time p = 0 then now ev else so_initial_notif_time p);
          delay = (if s_current_state svc = STATE_OK then of_int (so_recovery_notification_delay p)
                   else s_first_notification_delay svc) * of_int (interval_length (cfg w))
      in s_current_notification_number svc \<noteq> 0 \<and>
           (s_current_state svc = STATE_OK \<longrightarrow> so_recovery_been_sent p)
         \<or> start + trunc_to_time delay \<le> now ev)"

definition host_delay_elapsed :: "env \<Rightarrow> host_id \<Rightarrow> engine \<Rightarrow> bool" where
  "host_delay_elapsed ev h w \<longleftrightarrow>
     (let hst = host_of w h; p = host_other_props w h;
          start = (if ho_initial_notif_time p = 0 then now ev else ho_initial_notif_time p);
          delay = (if h_current_state hst = HOST_UP then of_int (ho_recovery_notification_delay p)
                   else h_first_notification_delay hst) * of_int (interval_length (cfg w))
      in h_current_notification_number hst \<noteq> 0 \<and>
           (h_current_state hst = HOST_UP \<longrightarrow> ho_recovery_been_sent p)
         \<or> start + trunc_to_time delay \<le> now ev)"

lemma service_first_delay_result:
  "fst (service_first_notification_delay ev s NOTIFICATION_NORMAL w) =
     (if service_delay_elapsed ev s w then OK else ERROR)"
  by (auto simp: service_first_notification_delay_def service_delay_elapsed_def Let_def
      upd_svc_other_def)

lemma host_first_delay_result:
  "fst (host_first_notification_delay ev h NOTIFICATION_NORMAL w) =
     (if host_delay_elapsed ev h w then OK else ERROR)"
  by (auto simp: host_first_notification_delay_def host_delay_elapsed_def Let_def upd_host_other_def)

lemma service_first_delay_frame:
  "\<exists>f. snd (service_first_notification_delay ev s ty w) = w\<lparr>service_other_props := f\<rparr>"
  by (cases "so_initial_notif_time (service_other_props w s) = 0")
    (auto simp: service_first_notification_delay_def Let_def upd_svc_other_def
      intro: exI [of _ "service_other_props w"])

lemma host_first_delay_frame:
  "\<exists>f. snd (host_first_notification_delay ev h ty w) = w\<lparr>host_other_props := f\<rparr>"
  by (cases "ho_initial_notif_time (host_other_props w h) = 0")
    (auto simp: host_first_notification_delay_def Let_def upd_host_other_def
      intro: exI [of _ "host_other_props w"])

lemma service_final_after_delay:
  "service_final_viability ev s h (snd (service_first_notification_delay ev s ty w)) =
     service_final_viability ev s h w"
  using service_first_delay_frame [of ev s ty w] by (auto simp: service_final_viability_def)

lemma host_final_after_delay:
  "host_final_viability ev h (snd (host_first_notification_delay ev h ty w)) =
     host_final_viability ev h w"
  using host_first_delay_frame [of ev h ty w] by (auto simp: host_final_viability_def)

definition service_in_notification_period :: "env \<Rightarrow> svc_id \<Rightarrow> host_id \<Rightarrow> engine \<Rightarrow> bool" where
  "service_in_notification_period ev s h w \<longleftrightarrow>
     check_time_against_period ev (get_service_timezone w s) (now ev)
       (case s_notification_period_ptr (svc_of w s) of
          None \<Rightarrow> h_notification_period_ptr (host_of w h) | Some p \<Rightarrow> Some p) = OK"

definition service_notifiable :: "env \<Rightarrow> svc_id \<Rightarrow> host_id \<Rightarrow> engine \<Rightarrow> bool" where
  "service_notifiable ev s h w \<longleftrightarrow>
     (let svc = svc_of w s; hst = host_of w h in
      enable_notifications (cfg w) \<and> service_in_notification_period ev s h w \<and>
      s_notifications_enabled svc \<and> s_state_type svc = HARD_STATE \<and>
      \<not> s_problem_has_been_acknowledged svc \<and>
      check_service_dependencies ev s NOTIFICATION_DEPENDENCY w = Some DEPENDENCIES_OK \<and>
      check_host_dependencies ev h NOTIFICATION_DEPENDENCY w = Some DEPENDENCIES_OK \<and>
      service_delay_elapsed ev s w \<and> \<not> s_is_flapping svc \<and>
      s_scheduled_downtime_depth svc \<le> 0 \<and> h_scheduled_downtime_depth hst \<le> 0 \<and>
      (case s_current_state svc of
         STATE_OK \<Rightarrow> s_notify_on_recovery svc \<and>
           (s_notified_on_unknown svc \<or> s_notified_on_warning svc \<or> s_notified_on_critical svc) \<and>
           0 < s_current_notification_number svc
       | STATE_WARNING \<Rightarrow> s_notify_on_warning svc
       | STATE_CRITICAL \<Rightarrow> s_notify_on_critical svc
       | STATE_UNKNOWN \<Rightarrow> s_notify_on_unknown svc) \<and>
      (s_current_state svc \<noteq> STATE_OK \<longrightarrow>
         \<not> s_no_more_notifications svc \<and> h_current_state hst = HOST_UP \<and>
         (s_is_volatile svc \<or> s_next_notification svc \<le> now ev)))"

definition host_notifiable :: "env \<Rightarrow> host_id \<Rightarrow> engine \<Rightarrow> bool" where
  "host_notifiable ev h w \<longleftrightarrow>
     (let hst = host_of w h in
      enable_notifications (cfg w) \<and>
      check_time_against_period ev (get_host_timezone w h) (now ev) (h_notification_period_ptr hst) = OK \<and>
      h_notifications_enabled hst \<and> h_state_type hst = HARD_STATE \<and>
      \<not> h_problem_has_been_acknowledged hst \<and>
      check_host_dependencies ev h NOTIFICATION_DEPENDENCY w = Some DEPENDENCIES_OK \<and>
      host_delay_elapsed ev h w \<and> \<not> h_is_flapping hst \<and> h_scheduled_downtime_depth hst \<le> 0 \<and>
      (case h_current_state hst of
         HOST_UP \<Rightarrow> h_notify_on_recovery hst \<and> (h_notified_on_down hst \<or> h_notified_on_unreachable hst)
       | HOST_DOWN \<Rightarrow> h_notify_on_down hst
       | HOST_UNREACHABLE \<Rightarrow> h_notify_on_unreachable hst) \<and>
      (h_current_state hst \<noteq> HOST_UP \<longrightarrow>
         \<not> h_no_more_notifications hst \<and> h_next_host_notification hst \<le> now ev))"

lemma HARD_STATE_iff: "x = HARD_STATE \<longleftrightarrow> x \<noteq> SOFT_STATE"
  by (cases x) simp_all

lemma service_normal_viability:
  assumes "s_host_ptr (svc_of w s) = Some h" "\<not> opt_forced options"
    "check_service_dependencies ev s NOTIFICATION_DEPENDENCY w = Some d1"
    "check_host_dependencies ev h NOTIFICATION_DEPENDENCY w = Some d2"
  shows "\<exists>w'. check_service_notification_viability ev s NOTIFICATION_NORMAL options w =
    Some (if service_notifiable ev s h w then OK else ERROR, w')"
proof (cases "enable_notifications (cfg w) \<and> service_in_notification_period ev s h w \<and>
      s_notifications_enabled (svc_of w s) \<and> s_state_type (svc_of w s) = HARD_STATE \<and>
      \<not> s_problem_has_been_acknowledged (svc_of w s) \<and> d1 = DEPENDENCIES_OK \<and> d2 = DEPENDENCIES_OK")
  case False
  then have "\<not> service_notifiable ev s h w"
    using assms(3,4) unfolding service_notifiable_def Let_def by auto
  with False assms show ?thesis
    by (subst check_service_notification_viability_def, subst service_period_OK)
      (auto simp: service_in_notification_period_def HARD_STATE_iff dep_FAILED
        service_special_viability_def)
next
  case True
  obtain r w2 where delay: "service_first_notification_delay ev s NOTIFICATION_NORMAL w = (r, w2)"
    by (rule prod.exhaust)
  have r: "r = (if service_delay_elapsed ev s w then OK else ERROR)"
    using service_first_delay_result [of ev s w] delay by simp
  have final: "service_final_viability ev s h w2 = service_final_viability ev s h w"
    using service_final_after_delay [of ev s h NOTIFICATION_NORMAL w] delay by simp
  have "check_service_notification_viability ev s NOTIFICATION_NORMAL options w =
      (if service_state_filter s w = ERROR then Some (ERROR, w)
       else if service_delay_elapsed ev s w then Some (service_final_viability ev s h w, w2)
       else Some (ERROR, w2))"
    using True assms
    by (subst check_service_notification_viability_def, subst service_period_OK)
      (simp add: service_in_notification_period_def service_special_viability_def delay r final)
  moreover have "service_notifiable ev s h w \<longleftrightarrow>
      service_state_filter s w = OK \<and> service_delay_elapsed ev s w \<and> service_final_viability ev s h w = OK"
    using True assms(3,4)
    by (cases "s_current_state (svc_of w s)")
      (auto simp: service_notifiable_def service_state_filter_def service_final_viability_def Let_def
        not_less not_le)
  ultimately show ?thesis by (auto simp: result_ERROR)
qed

lemma host_normal_viability:
  assumes "\<not> opt_forced options" "check_host_dependencies ev h NOTIFICATION_DEPENDENCY w = Some d"
  shows "\<exists>w'. check_host_notification_viability ev h NOTIFICATION_NORMAL options w =
    Some (if host_notifiable ev h w then OK else ERROR, w')"
proof (cases "enable_notifications (cfg w) \<and>
      check_time_against_period ev (get_host_timezone w h) (now ev) (h_notification_period_ptr (host_of w h)) = OK \<and>
      h_notifications_enabled (host_of w h) \<and> h_state_type (host_of w h) = HARD_STATE \<and>
      \<not> h_problem_has_been_acknowledged (host_of w h) \<and> d = DEPENDENCIES_OK")
  case False
  then have "\<not> host_notifiable ev h w"
    using assms(2) unfolding host_notifiable_def Let_def by auto
  with False assms show ?thesis
    by (subst check_host_notification_viability_def, subst host_period_OK)
      (auto simp: HARD_STATE_iff dep_FAILED host_special_viability_def)
next
  case True
  obtain r w2 where delay: "host_first_notification_delay ev h NOTIFICATION_NORMAL w = (r, w2)"
    by (rule prod.exhaust)
  have r: "r = (if host_delay_elapsed ev h w then OK else ERROR)"
    using host_first_delay_result [of ev h w] delay by simp
  have final: "host_final_viability ev h w2 = host_final_viability ev h w"
    using host_final_after_delay [of ev h NOTIFICATION_NORMAL w] delay by simp
  have "check_host_notification_viability ev h NOTIFICATION_NORMAL options w =
      (if host_state_filter h w = ERROR then Some (ERROR, w)
       else if host_delay_elapsed ev h w then Some (host_final_viability ev h w, w2)
       else Some (ERROR, w2))"
    using True assms
    by (subst check_host_notification_viability_def, subst host_period_OK)
      (simp add: host_special_viability_def delay r final)
  moreover have "host_notifiable ev h w \<longleftrightarrow>
      host_state_filter h w = OK \<and> host_delay_elapsed ev h w \<and> host_final_viability ev h w = OK"
    using True assms(2)
    by (cases "h_current_state (host_of w h)")
      (auto simp: host_notifiable_def host_state_filter_def host_final_viability_def Let_def
        not_less not_le)
  ultimately show ?thesis by (auto simp: result_ERROR)
qed

section \<open>What the senders change\<close>

lemma notify_contacts_frame:
  assumes "\<And>c w. contact_notified w (snd (f c w))"
  shows "contact_notified w (snd (notify_contacts f nl w))"
proof -
  have "contact_notified w (snd (fold (\<lambda>c (n, w). let (r, w') = f c w in
      (if r = OK then n + 1 else n, w')) nl (n, w)))" for n :: nat and w
  proof (induction nl arbitrary: n w)
    case (Cons c nl)
    obtain r w' where f: "f c w = (r, w')" by (rule prod.exhaust)
    with assms [of w c] have "contact_notified w w'" by simp
    also have "contact_notified w' (snd (fold (\<lambda>c (n, w). let (r, w') = f c w in
      (if r = OK then n + 1 else n, w')) nl (if r = OK then n + 1 else n, w')))" by (rule Cons.IH)
    finally show ?case by (simp add: f)
  qed simp
  then show ?thesis by (simp add: notify_contacts_def)
qed

lemma notify_contacts_all_ok:
  assumes "\<And>c w. fst (f c w) = OK"
  shows "fst (notify_contacts f nl w) = length nl"
proof -
  have "fst (fold (\<lambda>c (n, w). let (r, w') = f c w in (if r = OK then n + 1 else n, w')) nl (n, w)) =
      n + length nl" for n :: nat and w
  proof (induction nl arbitrary: n w)
    case (Cons c nl)
    obtain r w' where f: "f c w = (r, w')" by (rule prod.exhaust)
    with assms [of c w] Cons.IH [of "n + 1" w'] show ?case by simp
  qed simp
  then show ?thesis by (simp add: notify_contacts_def)
qed

lemma contact_notifiedD:
  assumes "contact_notified w w'"
  shows "svc_of w' = svc_of w" "host_of w' = host_of w" "cfg w' = cfg w"
    "service_other_props w' = service_other_props w" "host_other_props w' = host_other_props w"
    "next_notification_id w' = next_notification_id w" "\<exists>acts. out w' = out w @ acts"
  using assms by (auto simp: contact_notified_def)

text \<open>The filters touch the time of the next notification and the start of the delay.\<close>

definition filter_frame :: "engine \<Rightarrow> engine \<Rightarrow> bool" where
  "filter_frame w w' \<longleftrightarrow>
     out w' = out w \<and> next_notification_id w' = next_notification_id w \<and> contact_of w' = contact_of w \<and>
     (\<forall>x. (svc_of w' x)\<lparr>s_next_notification := 0\<rparr> = (svc_of w x)\<lparr>s_next_notification := 0\<rparr>) \<and>
     (\<forall>x. (host_of w' x)\<lparr>h_next_host_notification := 0\<rparr> = (host_of w x)\<lparr>h_next_host_notification := 0\<rparr>)"

lemma filter_frame_refl [simp]: "filter_frame w w"
  by (simp add: filter_frame_def)

lemma filter_frame_trans: "filter_frame w w1 \<Longrightarrow> filter_frame w1 w2 \<Longrightarrow> filter_frame w w2"
  by (simp add: filter_frame_def)

lemma filter_frameD:
  assumes "filter_frame w w'"
  shows "out w' = out w" "next_notification_id w' = next_notification_id w"
    "s_current_notification_number (svc_of w' x) = s_current_notification_number (svc_of w x)"
    "s_current_state (svc_of w' x) = s_current_state (svc_of w x)"
    "h_current_notification_number (host_of w' y) = h_current_notification_number (host_of w y)"
    "h_current_state (host_of w' y) = h_current_state (host_of w y)"
    "contact_of w' = contact_of w" "s_last_notification (svc_of w' x) = s_last_notification (svc_of w x)"
proof -
  from assms show "out w' = out w" "next_notification_id w' = next_notification_id w" "contact_of w' = contact_of w"
    by (simp_all add: filter_frame_def)
  have s: "(svc_of w' x)\<lparr>s_next_notification := 0\<rparr> = (svc_of w x)\<lparr>s_next_notification := 0\<rparr>"
    and h: "(host_of w' y)\<lparr>h_next_host_notification := 0\<rparr> = (host_of w y)\<lparr>h_next_host_notification := 0\<rparr>"
    using assms unfolding filter_frame_def by blast+
  show "s_current_notification_number (svc_of w' x) = s_current_notification_number (svc_of w x)"
    using arg_cong [OF s, of s_current_notification_number] by simp
  show "s_current_state (svc_of w' x) = s_current_state (svc_of w x)"
    using arg_cong [OF s, of s_current_state] by simp
  show "s_last_notification (svc_of w' x) = s_last_notification (svc_of w x)"
    using arg_cong [OF s, of s_last_notification] by simp
  show "h_current_notification_number (host_of w' y) = h_current_notification_number (host_of w y)"
    using arg_cong [OF h, of h_current_notification_number] by simp
  show "h_current_state (host_of w' y) = h_current_state (host_of w y)"
    using arg_cong [OF h, of h_current_state] by simp
qed

lemma service_period_frame: "filter_frame w (snd (check_service_notification_period ev s h ty w))"
  by (simp add: check_service_notification_period_def Let_def filter_frame_def upd_svc_def)

lemma host_period_frame: "filter_frame w (snd (check_host_notification_period ev h ty w))"
  by (simp add: check_host_notification_period_def Let_def filter_frame_def upd_host_def)

lemma service_delay_frame: "filter_frame w (snd (service_first_notification_delay ev s ty w))"
  using service_first_delay_frame [of ev s ty w] by (auto simp: filter_frame_def)

lemma host_delay_frame: "filter_frame w (snd (host_first_notification_delay ev h ty w))"
  using host_first_delay_frame [of ev h ty w] by (auto simp: filter_frame_def)

lemma service_viability_frame:
  assumes "check_service_notification_viability ev s ty options w = Some (r, w')"
  shows "filter_frame w w'"
proof -
  note p = service_period_frame [of w ev s _ ty]
  note d = service_delay_frame [of _ ev s ty]
  show ?thesis
    using assms p d filter_frame_trans [OF p d]
    by (auto simp: check_service_notification_viability_def Let_def case_prod_beta
        split: if_splits option.splits bind_splits)
qed

lemma host_viability_frame:
  assumes "check_host_notification_viability ev h ty options w = Some (r, w')"
  shows "filter_frame w w'"
proof -
  note p = host_period_frame [of w ev h ty]
  note d = host_delay_frame [of _ ev h ty]
  show ?thesis
    using assms p d filter_frame_trans [OF p d]
    by (auto simp: check_host_notification_viability_def Let_def case_prod_beta
        split: if_splits option.splits bind_splits)
qed

lemma service_contacts_notified_effect:
  "out (service_contacts_notified ev s ty inc n w) = out w"
  "s_current_notification_number (svc_of (service_contacts_notified ev s NOTIFICATION_NORMAL True n w) s) =
     s_current_notification_number (svc_of w s) - (if n = 0 then 1 else 0)"
  "0 < n \<Longrightarrow> s_last_notification
     (svc_of (service_contacts_notified ev s NOTIFICATION_NORMAL True n w) s) = now ev"
  "next_notification_id (service_contacts_notified ev s ty inc n w) = next_notification_id w"
  by (auto simp: service_contacts_notified_def get_next_service_notification_time_eq Let_def upd_svc_def
      decrement_service_notification_def split: svc_state.split)

lemma service_contacts_notified_rest:
  "s_last_notification (svc_of (service_contacts_notified ev s NOTIFICATION_NORMAL True 0 w) s) =
     s_last_notification (svc_of w s)"
  "contact_of (service_contacts_notified ev s ty inc n w) = contact_of w"
  by (auto simp: service_contacts_notified_def get_next_service_notification_time_eq Let_def upd_svc_def
      decrement_service_notification_def)

lemma host_contacts_notified_effect:
  "out (host_contacts_notified ev h ty inc n w) = out w"
  "h_current_notification_number (host_of (host_contacts_notified ev h NOTIFICATION_NORMAL True n w) h) =
     h_current_notification_number (host_of w h) - (if n = 0 then 1 else 0)"
  "0 < n \<Longrightarrow> h_last_host_notification
     (host_of (host_contacts_notified ev h NOTIFICATION_NORMAL True n w) h) = now ev"
  "next_notification_id (host_contacts_notified ev h ty inc n w) = next_notification_id w"
  by (auto simp: host_contacts_notified_def get_next_host_notification_time_eq Let_def upd_host_def
      decrement_host_notification_def split: host_state.split)

lemma begin_service_notification_effect:
  "out (begin_service_notification s inc w) = out w"
  "s_current_notification_number (svc_of (begin_service_notification s inc w) s) =
     s_current_notification_number (svc_of w s) + (if inc then 1 else 0)"
  "s_current_notification_id (svc_of (begin_service_notification s inc w) s) = next_notification_id w"
  "next_notification_id (begin_service_notification s inc w) = next_notification_id w + 1"
  by (simp_all add: begin_service_notification_def Let_def upd_svc_def)

lemma begin_host_notification_effect:
  "out (begin_host_notification h inc w) = out w"
  "h_current_notification_number (host_of (begin_host_notification h inc w) h) =
     h_current_notification_number (host_of w h) + (if inc then 1 else 0)"
  "h_current_notification_id (host_of (begin_host_notification h inc w) h) = next_notification_id w"
  "next_notification_id (begin_host_notification h inc w) = next_notification_id w + 1"
  by (simp_all add: begin_host_notification_def Let_def upd_host_def)

section \<open>Sending, from the first filter to the last broker call\<close>

lemma service_notification_blocked:
  assumes "s_host_ptr (svc_of w s) \<noteq> None"
    "check_service_notification_viability ev s ty options w = Some (ERROR, w1)"
  shows "service_notification ev s ty a d options w = Some (OK, w1)"
  using assms by (auto simp: service_notification_def)

lemma host_notification_blocked:
  assumes "check_host_notification_viability ev h ty options w = Some (ERROR, w1)"
  shows "host_notification ev h ty a d options w = Some (OK, w1)"
  using assms by (auto simp: host_notification_def)

text \<open>
  Who a normal notification of a service reaches: the contacts of the list that take it. A
  contact takes it unless a broker cancels the contact; without force it must accept service
  notifications now and want the state, and for a recovery also one of the states notified.
\<close>

definition takes_service_notification :: "env \<Rightarrow> svc_id \<Rightarrow> notif_options \<Rightarrow> engine \<Rightarrow> contact_id \<Rightarrow> bool" where
  "takes_service_notification ev s options w c \<longleftrightarrow>
     (let k = contact_of w c; v = svc_of w s in
      neb_contact_notification ev c (ServiceTarget s) NOTIFICATION_NORMAL \<noteq> NEB_CANCEL \<and>
      (opt_forced options \<or>
       c_service_notifications_enabled k \<and>
       check_time_against_period ev (get_contact_timezone w c) (now ev) (c_service_notification_period k) = OK \<and>
       (case s_current_state v of
          STATE_UNKNOWN \<Rightarrow> c_notify_on_service_unknown k
        | STATE_WARNING \<Rightarrow> c_notify_on_service_warning k
        | STATE_CRITICAL \<Rightarrow> c_notify_on_service_critical k
        | STATE_OK \<Rightarrow> c_notify_on_service_recovery k \<and>
            (s_notified_on_unknown v \<and> c_notify_on_service_unknown k \<or>
             s_notified_on_warning v \<and> c_notify_on_service_warning k \<or>
             s_notified_on_critical v \<and> c_notify_on_service_critical k))))"

definition service_recipients :: "env \<Rightarrow> svc_id \<Rightarrow> notif_options \<Rightarrow> engine \<Rightarrow> contact_id set" where
  "service_recipients ev s options w =
     {c \<in> notified_set w (should_service_notification_be_escalated ev s w) (opt_broadcast options)
        (serviceescalations w s) (\<lambda>se. is_valid_escalation_for_service_notification ev s se options w) (svc_of w s).
      takes_service_notification ev s options w c}"

lemma contact_notified_reads:
  assumes "contact_notified w w'"
  shows "check_contact_service_notification_viability ev c s ty options w' =
    check_contact_service_notification_viability ev c s ty options w"
proof -
  obtain acts cs where w': "w' = w\<lparr>out := out w @ acts, contact_of := cs\<rparr>"
    and cs: "\<And>c. (cs c)\<lparr>c_last_service_notification := 0, c_last_host_notification := 0\<rparr> =
         (contact_of w c)\<lparr>c_last_service_notification := 0, c_last_host_notification := 0\<rparr>"
    using assms unfolding contact_notified_def by blast
  note same = arg_cong [OF cs [of c]]
  have "c_service_notifications_enabled (cs c) = c_service_notifications_enabled (contact_of w c)"
    "c_service_notification_period (cs c) = c_service_notification_period (contact_of w c)"
    "c_notify_on_service_flapping (cs c) = c_notify_on_service_flapping (contact_of w c)"
    "c_notify_on_service_downtime (cs c) = c_notify_on_service_downtime (contact_of w c)"
    "c_notify_on_service_unknown (cs c) = c_notify_on_service_unknown (contact_of w c)"
    "c_notify_on_service_warning (cs c) = c_notify_on_service_warning (contact_of w c)"
    "c_notify_on_service_critical (cs c) = c_notify_on_service_critical (contact_of w c)"
    "c_notify_on_service_recovery (cs c) = c_notify_on_service_recovery (contact_of w c)"
    using same [of c_service_notifications_enabled] same [of c_service_notification_period]
      same [of c_notify_on_service_flapping] same [of c_notify_on_service_downtime] same [of c_notify_on_service_unknown]
      same [of c_notify_on_service_warning] same [of c_notify_on_service_critical] same [of c_notify_on_service_recovery]
    by simp_all
  moreover have "get_contact_timezone w' c = get_contact_timezone w c" using same [of c_timezone] by (simp add: w' get_contact_timezone_def)
  moreover have "contact_of w' c = cs c" "svc_of w' = svc_of w" by (simp_all add: w')
  ultimately show ?thesis by (simp only: check_contact_service_notification_viability_def Let_def)
qed

lemma notify_contact_taken:
  assumes "contact_notified w w'"
  shows "fst (notify_contact_of_service ev mac c s NOTIFICATION_NORMAL options e w') = OK \<longleftrightarrow>
      takes_service_notification ev s options w c"
    "c_last_service_notification (contact_of (snd (notify_contact_of_service ev mac c s NOTIFICATION_NORMAL options e w')) k) =
      (if k = c \<and> takes_service_notification ev s options w c \<and>
          neb_contact_notification ev c (ServiceTarget s) NOTIFICATION_NORMAL = NEB_CONTINUE
       then now ev else c_last_service_notification (contact_of w' k))"
proof -
  let ?neb = "neb_contact_notification ev c (ServiceTarget s) NOTIFICATION_NORMAL"
  have takes: "takes_service_notification ev s options w c \<longleftrightarrow> ?neb \<noteq> NEB_CANCEL \<and>
      check_contact_service_notification_viability ev c s NOTIFICATION_NORMAL options w' = OK"
    unfolding contact_notified_reads [OF assms]
    by (cases "s_current_state (svc_of w s)")
      (auto simp: takes_service_notification_def check_contact_service_notification_viability_def Let_def result_ERROR)
  show "fst (notify_contact_of_service ev mac c s NOTIFICATION_NORMAL options e w') = OK \<longleftrightarrow>
      takes_service_notification ev s options w c"
    by (cases ?neb) (simp_all add: takes notify_contact_of_service_def Let_def result_ERROR)
  have run: "contact_of (run_notification_commands ev mac c tgt cmds u) = contact_of u" for tgt cmds u
    using run_notification_commands_only_out [of ev mac c tgt cmds u] by auto
  show "c_last_service_notification (contact_of (snd (notify_contact_of_service ev mac c s NOTIFICATION_NORMAL options e w')) k) =
      (if k = c \<and> takes_service_notification ev s options w c \<and>
          neb_contact_notification ev c (ServiceTarget s) NOTIFICATION_NORMAL = NEB_CONTINUE
       then now ev else c_last_service_notification (contact_of w' k))"
    using run by (cases ?neb) (simp_all add: takes notify_contact_of_service_def Let_def result_ERROR upd_contact_def,
        simp_all add: emit_def)
qed

lemma notify_contacts_counted:
  assumes "\<And>c w'. contact_notified w w' \<Longrightarrow> contact_notified w' (snd (f c w'))"
    "\<And>c w'. contact_notified w w' \<Longrightarrow> fst (f c w') = OK \<longleftrightarrow> P c"
    "\<And>c w' k. contact_notified w w' \<Longrightarrow> c_last_service_notification (contact_of (snd (f c w')) k) =
      (if k = c \<and> Q c then t else c_last_service_notification (contact_of w' k))"
  shows "fst (notify_contacts f nl w) = length (filter P nl)"
    "c_last_service_notification (contact_of (snd (notify_contacts f nl w)) k) =
      (if k \<in> set nl \<and> Q k then t else c_last_service_notification (contact_of w k))"
proof -
  let ?step = "\<lambda>c (n, w). let (r, w') = f c w in (if r = OK then n + 1 else n, w')"
  have "contact_notified w w' \<Longrightarrow> fst (fold ?step nl (n, w')) = n + length (filter P nl) \<and>
      c_last_service_notification (contact_of (snd (fold ?step nl (n, w'))) k) =
        (if k \<in> set nl \<and> Q k then t else c_last_service_notification (contact_of w' k))" for n :: nat and w'
  proof (induction nl arbitrary: n w')
    case (Cons c nl)
    obtain r w2 where f: "f c w' = (r, w2)" by (rule prod.exhaust)
    have "contact_notified w w2" using contact_notified_trans [OF Cons.prems assms(1) [OF Cons.prems, of c]] by (simp add: f)
    from Cons.IH [OF this] assms(2,3) [OF Cons.prems, of c] show ?case by (auto simp: f)
  qed simp
  from this [of w 0] show "fst (notify_contacts f nl w) = length (filter P nl)"
    "c_last_service_notification (contact_of (snd (notify_contacts f nl w)) k) =
      (if k \<in> set nl \<and> Q k then t else c_last_service_notification (contact_of w k))"
    by (simp_all add: notify_contacts_def)
qed

lemma service_notification_number:
  assumes "s_host_ptr (svc_of w s) \<noteq> None"
    "check_service_notification_viability ev s NOTIFICATION_NORMAL options w = Some (OK, w1)"
    "neb_notification ev (ServiceTarget s) NOTIFICATION_NORMAL = NEB_CONTINUE"
  shows "\<exists>w' n escalated acts.
    service_notification ev s NOTIFICATION_NORMAL a d options w = Some (OK, w') \<and>
    out w' = out w @ acts @ [Broker_notification_end (ServiceTarget s) NOTIFICATION_NORMAL escalated n,
                             Update_status (ServiceTarget s)] \<and>
    s_current_notification_number (svc_of w' s) =
      s_current_notification_number (svc_of w s) + (if n = 0 then 0 else 1) \<and>
    (0 < n \<longrightarrow> s_last_notification (svc_of w' s) = now ev) \<and>
    next_notification_id w' = next_notification_id w + 1"
proof -
  let ?w2 = "begin_service_notification s True w1"
  obtain escalated mac nl where list:
    "create_notification_list_from_service ev s options empty_macros ?w2 = (escalated, mac, nl)"
    by (metis prod.exhaust)
  let ?tgt = "ServiceTarget s"
  let ?w3 = "emit (Broker_notification_start ?tgt NOTIFICATION_NORMAL escalated) ?w2"
  let ?mac = "service_notification_macros s NOTIFICATION_NORMAL a d ?w3 mac"
  obtain m w' where nc: "notify_contacts (\<lambda>c. notify_contact_of_service ev ?mac c s
      NOTIFICATION_NORMAL options escalated) nl ?w3 = (m, w')" by (rule prod.exhaust)
  define n where "n = (if nl = [] then 0 else m)"
  define w4 where "w4 = (if nl = [] then decrement_service_notification s ?w3
     else service_contacts_notified ev s NOTIFICATION_NORMAL True n w')"
  define w6 where "w6 = emit (Update_status ?tgt)
     (emit (Broker_notification_end ?tgt NOTIFICATION_NORMAL escalated n) w4)"
  define wf where "wf = (if s_current_state (svc_of w6 s) = STATE_OK
     then upd_svc_other s (\<lambda>p. p\<lparr>so_recovery_been_sent := True\<rparr>) w6 else w6)"
  have res: "service_notification ev s NOTIFICATION_NORMAL a d options w = Some (OK, wf)"
    using assms list nc
    by (auto simp: service_notification_def n_def w4_def w6_def wf_def Let_def)
  note f1 = filter_frameD [OF service_viability_frame [OF assms(2)]]
  have "contact_notified ?w3 w'"
    using notify_contacts_frame [of "\<lambda>c. notify_contact_of_service ev ?mac c s
      NOTIFICATION_NORMAL options escalated" ?w3 nl] nc
    by (simp add: notify_contact_of_service_frame)
  note f2 = contact_notifiedD [OF this]
  obtain acts where acts: "out w' = out ?w3 @ acts" using f2(7) by blast
  have "\<exists>acts. out w4 = out w @ acts"
    using acts f1(1)
    by (auto simp: w4_def service_contacts_notified_effect begin_service_notification_effect
        decrement_service_notification_def upd_svc_def emit_def)
  then obtain acts' where "out w4 = out w @ acts'" by blast
  then have "out wf = out w @ acts' @ [Broker_notification_end ?tgt NOTIFICATION_NORMAL escalated n,
      Update_status ?tgt]"
    by (simp add: wf_def w6_def emit_def upd_svc_other_def)
  moreover have "s_current_notification_number (svc_of w4 s) =
      s_current_notification_number (svc_of w s) + (if n = 0 then 0 else 1)"
    using f1(3) f2(1)
    by (simp add: w4_def service_contacts_notified_effect begin_service_notification_effect n_def
        decrement_service_notification_def upd_svc_def emit_def)
  moreover have "0 < n \<longrightarrow> s_last_notification (svc_of w4 s) = now ev"
    by (auto simp: w4_def service_contacts_notified_effect n_def)
  moreover have "next_notification_id w4 = next_notification_id w + 1"
    using f1(2) f2(6)
    by (simp add: w4_def service_contacts_notified_effect begin_service_notification_effect
        decrement_service_notification_def upd_svc_def emit_def)
  ultimately show ?thesis
    using res
    by (intro exI [of _ wf] exI [of _ n] exI [of _ escalated] exI [of _ acts'])
      (simp add: wf_def w6_def emit_def upd_svc_other_def)
qed

text \<open>What a normal notification leaves behind, whatever the brokers answer.\<close>

lemma service_notification_outcome:
  assumes "s_host_ptr (svc_of w s) \<noteq> None"
    "check_service_notification_viability ev s NOTIFICATION_NORMAL options w = Some (OK, w1)"
  defines "w2 \<equiv> begin_service_notification s True w1"
  defines "to \<equiv> service_recipients ev s options w2"
  defines "escalated \<equiv> should_service_notification_be_escalated ev s w2"
  defines "start \<equiv> Broker_notification_start (ServiceTarget s) NOTIFICATION_NORMAL escalated"
  shows "\<exists>r w'. service_notification ev s NOTIFICATION_NORMAL a d options w = Some (r, w') \<and>
    next_notification_id w' = next_notification_id w + 1 \<and>
    (if neb_notification ev (ServiceTarget s) NOTIFICATION_NORMAL = NEB_CONTINUE
     then r = OK \<and>
       (\<exists>acts. out w' = out w @ start # acts @
          [Broker_notification_end (ServiceTarget s) NOTIFICATION_NORMAL escalated (card to), Update_status (ServiceTarget s)]) \<and>
       s_current_notification_number (svc_of w' s) =
         s_current_notification_number (svc_of w s) + (if to = {} then 0 else 1) \<and>
       s_last_notification (svc_of w' s) = (if to = {} then s_last_notification (svc_of w s) else now ev) \<and>
       (\<forall>c. c_last_service_notification (contact_of w' c) =
          (if c \<in> to \<and> neb_contact_notification ev c (ServiceTarget s) NOTIFICATION_NORMAL = NEB_CONTINUE
           then now ev else c_last_service_notification (contact_of w c)))
     else r = (if neb_notification ev (ServiceTarget s) NOTIFICATION_NORMAL = NEB_CANCEL then ERROR else OK) \<and>
       out w' = out w @ [start] \<and>
       s_current_notification_number (svc_of w' s) = s_current_notification_number (svc_of w s) + 1 \<and>
       s_last_notification (svc_of w' s) = s_last_notification (svc_of w s) \<and> contact_of w' = contact_of w)"
proof -
  obtain escal mac nl where list:
    "create_notification_list_from_service ev s options empty_macros w2 = (escal, mac, nl)"
    by (metis prod.exhaust)
  have "list_ok (mac, nl) \<and> escal = escalated \<and>
      set nl = notified_set w2 escal (opt_broadcast options) (serviceescalations w2 s)
        (\<lambda>se. is_valid_escalation_for_service_notification ev s se options w2) (svc_of w2 s)"
    using service_list_ok [OF _ list] by (simp add: empty_macros_def escalated_def)
  then have nl: "distinct nl" "escal = escalated" "to = {c \<in> set nl. takes_service_notification ev s options w2 c}"
    by (simp_all add: list_ok_def to_def service_recipients_def escalated_def)
  let ?tgt = "ServiceTarget s"
  let ?w3 = "emit start w2"
  let ?mac = "service_notification_macros s NOTIFICATION_NORMAL a d ?w3 mac"
  let ?f = "\<lambda>c. notify_contact_of_service ev ?mac c s NOTIFICATION_NORMAL options escalated"
  note f1 = filter_frameD [OF service_viability_frame [OF assms(2)]]
  have w3: "out ?w3 = out w @ [start]" "next_notification_id ?w3 = next_notification_id w + 1"
    "contact_of ?w3 = contact_of w"
    "s_current_notification_number (svc_of ?w3 s) = s_current_notification_number (svc_of w s) + 1"
    "s_last_notification (svc_of ?w3 s) = s_last_notification (svc_of w s)"
    using f1(1,2,3,7,8) by (simp_all add: w2_def emit_def begin_service_notification_def Let_def upd_svc_def)
  show ?thesis
  proof (cases "neb_notification ev ?tgt NOTIFICATION_NORMAL = NEB_CONTINUE")
    case False
    then have "service_notification ev s NOTIFICATION_NORMAL a d options w =
        Some (if neb_notification ev ?tgt NOTIFICATION_NORMAL = NEB_CANCEL then ERROR else OK, ?w3)"
      using assms(1,2) list nl(2)
      by (cases "neb_notification ev ?tgt NOTIFICATION_NORMAL")
        (auto simp: service_notification_def Let_def w2_def [symmetric] start_def)
    with False w3 show ?thesis by simp
  next
    case True
    let ?heard = "\<lambda>c. takes_service_notification ev s options w2 c \<and>
      neb_contact_notification ev c ?tgt NOTIFICATION_NORMAL = NEB_CONTINUE"
    obtain m w' where nc: "notify_contacts ?f nl ?w3 = (m, w')" by (rule prod.exhaust)
    have takes: "takes_service_notification ev s options ?w3 = takes_service_notification ev s options w2"
      by (rule ext) (simp add: takes_service_notification_def get_contact_timezone_def emit_def)
    have ok: "fst (?f c u) = OK \<longleftrightarrow> takes_service_notification ev s options w2 c"
      and last: "c_last_service_notification (contact_of (snd (?f c u)) k) =
        (if k = c \<and> ?heard c then now ev else c_last_service_notification (contact_of u k))"
      if "contact_notified ?w3 u" for c u k
      using notify_contact_taken [OF that] by (simp_all only: takes)
    note counted = notify_contacts_counted [of ?w3 ?f "takes_service_notification ev s options w2" ?heard "now ev" nl,
        OF notify_contact_of_service_frame ok last]
    have "m = length (filter (takes_service_notification ev s options w2) nl)" using counted(1) nc by simp
    moreover have heard: "c_last_service_notification (contact_of w' k) =
        (if k \<in> set nl \<and> ?heard k then now ev else c_last_service_notification (contact_of ?w3 k))" for k
      using counted(2) [of k] nc by simp
    ultimately have m: "m = card to" using nl(1,3) by (simp add: distinct_length_filter Int_def conj_commute)
    have "contact_notified ?w3 w'"
      using notify_contacts_frame [of ?f ?w3 nl] nc by (simp add: notify_contact_of_service_frame)
    note f2 = contact_notifiedD [OF this]
    obtain acts where acts: "out w' = out ?w3 @ acts" using f2(7) by blast
    define w4 where "w4 = (if nl = [] then decrement_service_notification s ?w3
       else service_contacts_notified ev s NOTIFICATION_NORMAL True m w')"
    define w6 where "w6 = emit (Update_status ?tgt)
       (emit (Broker_notification_end ?tgt NOTIFICATION_NORMAL escalated (card to)) w4)"
    define wf where "wf = (if s_current_state (svc_of w6 s) = STATE_OK
       then upd_svc_other s (\<lambda>p. p\<lparr>so_recovery_been_sent := True\<rparr>) w6 else w6)"
    have fin: "finite to" and none: "to = {} \<longleftrightarrow> card to = 0" "nl = [] \<Longrightarrow> to = {}" using nl(3) by auto
    have res: "service_notification ev s NOTIFICATION_NORMAL a d options w = Some (OK, wf)"
      using assms(1,2) list nl(2) nc True none m
      by (auto simp: service_notification_def w4_def w6_def wf_def Let_def w2_def [symmetric] start_def)
    note e = service_contacts_notified_effect service_contacts_notified_rest
    have w4: "out w4 = out w @ start # (if nl = [] then [] else acts) \<and>
      next_notification_id w4 = next_notification_id w + 1 \<and>
      s_current_notification_number (svc_of w4 s) =
         s_current_notification_number (svc_of w s) + (if to = {} then 0 else 1) \<and>
      s_last_notification (svc_of w4 s) = (if to = {} then s_last_notification (svc_of w s) else now ev) \<and>
      contact_of w4 = (if nl = [] then contact_of w else contact_of w')"
    proof (cases "nl = []")
      case True
      then have "w4 = decrement_service_notification s ?w3" by (simp add: w4_def)
      then have "out w4 = out ?w3" "next_notification_id w4 = next_notification_id ?w3" "contact_of w4 = contact_of ?w3"
        "s_current_notification_number (svc_of w4 s) = s_current_notification_number (svc_of ?w3 s) - 1"
        "s_last_notification (svc_of w4 s) = s_last_notification (svc_of ?w3 s)"
        by (simp_all add: decrement_service_notification_def upd_svc_def)
      with True none show ?thesis unfolding w3 by simp
    next
      case False
      then have w4: "w4 = service_contacts_notified ev s NOTIFICATION_NORMAL True m w'" by (simp add: w4_def)
      have "s_last_notification (svc_of w4 s) = (if m = 0 then s_last_notification (svc_of w' s) else now ev)"
        unfolding w4 by (simp add: e)
      moreover have "out w4 = out w'" "next_notification_id w4 = next_notification_id w'" "contact_of w4 = contact_of w'"
        "s_current_notification_number (svc_of w4 s) = s_current_notification_number (svc_of w' s) - (if m = 0 then 1 else 0)"
        unfolding w4 by (simp_all add: e)
      ultimately show ?thesis using False none(1) unfolding acts f2(1,6) w3 m by simp
    qed
    have wf: "out wf = out w4 @ [Broker_notification_end ?tgt NOTIFICATION_NORMAL escalated (card to), Update_status ?tgt]"
      "next_notification_id wf = next_notification_id w4" "svc_of wf = svc_of w4" "contact_of wf = contact_of w4"
      by (simp_all add: wf_def w6_def emit_def upd_svc_other_def)
    have "c_last_service_notification (contact_of wf c) =
        (if c \<in> to \<and> neb_contact_notification ev c ?tgt NOTIFICATION_NORMAL = NEB_CONTINUE
         then now ev else c_last_service_notification (contact_of w c))" for c
      using heard [of c] w3(3) nl(3) none(2) w4 by (auto simp: wf(4))
    with res w4 True show ?thesis by (intro exI [of _ OK] exI [of _ wf]) (simp add: wf)
  qed
qed

lemma host_notification_number:
  assumes "check_host_notification_viability ev h NOTIFICATION_NORMAL options w = Some (OK, w1)"
    "neb_notification ev (HostTarget h) NOTIFICATION_NORMAL = NEB_CONTINUE"
  shows "\<exists>w' n escalated acts.
    host_notification ev h NOTIFICATION_NORMAL a d options w = Some (OK, w') \<and>
    out w' = out w @ acts @ [Broker_notification_end (HostTarget h) NOTIFICATION_NORMAL escalated n,
                             Update_status (HostTarget h)] \<and>
    h_current_notification_number (host_of w' h) =
      h_current_notification_number (host_of w h) + (if n = 0 then 0 else 1) \<and>
    (0 < n \<longrightarrow> h_last_host_notification (host_of w' h) = now ev) \<and>
    next_notification_id w' = next_notification_id w + 1"
proof -
  let ?w2 = "begin_host_notification h True w1"
  obtain escalated mac nl where list:
    "create_notification_list_from_host ev h options empty_macros ?w2 = (escalated, mac, nl)"
    by (metis prod.exhaust)
  let ?tgt = "HostTarget h"
  let ?w3 = "emit (Broker_notification_start ?tgt NOTIFICATION_NORMAL escalated) ?w2"
  let ?mac = "host_notification_macros h NOTIFICATION_NORMAL a d ?w3 mac"
  obtain m w' where nc: "notify_contacts (\<lambda>c. notify_contact_of_host ev ?mac c h
      NOTIFICATION_NORMAL options escalated) nl ?w3 = (m, w')" by (rule prod.exhaust)
  define n where "n = (if nl = [] then 0 else m)"
  define w4 where "w4 = (if nl = [] then decrement_host_notification h ?w3
     else host_contacts_notified ev h NOTIFICATION_NORMAL True n w')"
  define w6 where "w6 = emit (Update_status ?tgt)
     (emit (Broker_notification_end ?tgt NOTIFICATION_NORMAL escalated n) w4)"
  define wf where "wf = (if h_current_state (host_of w6 h) = HOST_UP
     then upd_host_other h (\<lambda>p. p\<lparr>ho_recovery_been_sent := True\<rparr>) w6 else w6)"
  have res: "host_notification ev h NOTIFICATION_NORMAL a d options w = Some (OK, wf)"
    using assms list nc
    by (auto simp: host_notification_def n_def w4_def w6_def wf_def Let_def)
  note f1 = filter_frameD [OF host_viability_frame [OF assms(1)]]
  have "contact_notified ?w3 w'"
    using notify_contacts_frame [of "\<lambda>c. notify_contact_of_host ev ?mac c h
      NOTIFICATION_NORMAL options escalated" ?w3 nl] nc
    by (simp add: notify_contact_of_host_frame)
  note f2 = contact_notifiedD [OF this]
  obtain acts where acts: "out w' = out ?w3 @ acts" using f2(7) by blast
  have "\<exists>acts. out w4 = out w @ acts"
    using acts f1(1)
    by (auto simp: w4_def host_contacts_notified_effect begin_host_notification_effect
        decrement_host_notification_def upd_host_def emit_def)
  then obtain acts' where "out w4 = out w @ acts'" by blast
  then have "out wf = out w @ acts' @ [Broker_notification_end ?tgt NOTIFICATION_NORMAL escalated n,
      Update_status ?tgt]"
    by (simp add: wf_def w6_def emit_def upd_host_other_def)
  moreover have "h_current_notification_number (host_of w4 h) =
      h_current_notification_number (host_of w h) + (if n = 0 then 0 else 1)"
    using f1(5) f2(2)
    by (simp add: w4_def host_contacts_notified_effect begin_host_notification_effect n_def
        decrement_host_notification_def upd_host_def emit_def)
  moreover have "0 < n \<longrightarrow> h_last_host_notification (host_of w4 h) = now ev"
    by (auto simp: w4_def host_contacts_notified_effect n_def)
  moreover have "next_notification_id w4 = next_notification_id w + 1"
    using f1(2) f2(6)
    by (simp add: w4_def host_contacts_notified_effect begin_host_notification_effect
        decrement_host_notification_def upd_host_def emit_def)
  ultimately show ?thesis
    using res
    by (intro exI [of _ wf] exI [of _ n] exI [of _ escalated] exI [of _ acts'])
      (simp add: wf_def w6_def emit_def upd_host_other_def)
qed

section \<open>What a notification leaves alone\<close>

text \<open>The part of a service and of a host that sending notifications never writes.\<close>

definition svc_core :: "service \<Rightarrow> service" where
  "svc_core v = v\<lparr>s_next_notification := 0, s_last_notification := 0, s_current_notification_number := 0,
     s_current_notification_id := 0, s_no_more_notifications := False, s_notified_on_unknown := False,
     s_notified_on_warning := False, s_notified_on_critical := False\<rparr>"

definition host_core :: "host \<Rightarrow> host" where
  "host_core v = v\<lparr>h_next_host_notification := 0, h_last_host_notification := 0,
     h_current_notification_number := 0, h_current_notification_id := 0,
     h_no_more_notifications := False, h_notified_on_down := False, h_notified_on_unreachable := False\<rparr>"

definition notif_frame :: "engine \<Rightarrow> engine \<Rightarrow> bool" where
  "notif_frame w w' \<longleftrightarrow>
     (\<lambda>x. svc_core (svc_of w' x)) = (\<lambda>x. svc_core (svc_of w x)) \<and>
     (\<lambda>x. host_core (host_of w' x)) = (\<lambda>x. host_core (host_of w x)) \<and>
     cfg w' = cfg w \<and> comment_list w' = comment_list w \<and> comment_hashlist w' = comment_hashlist w \<and>
     defer_comment_sorting w' = defer_comment_sorting w \<and> next_comment_id w' = next_comment_id w \<and>
     host_list w' = host_list w \<and> service_list w' = service_list w \<and>
     evs w' = evs w \<and> next_addr w' = next_addr w \<and>
     downtime_list w' = downtime_list w \<and> downtime_at w' = downtime_at w \<and>
     defer_downtime_sorting w' = defer_downtime_sorting w \<and> next_downtime_id w' = next_downtime_id w \<and>
     servicedependencies w' = servicedependencies w \<and> hostdependencies w' = hostdependencies w \<and>
     next_event_id w' = next_event_id w \<and> next_problem_id w' = next_problem_id w \<and>
     currently_running_service_checks w' = currently_running_service_checks w \<and>
     currently_running_host_checks w' = currently_running_host_checks w"

lemma notif_frame_refl [simp]: "notif_frame w w"
  by (simp add: notif_frame_def)

lemma notif_frame_trans [trans]: "notif_frame w w1 \<Longrightarrow> notif_frame w1 w2 \<Longrightarrow> notif_frame w w2"
  by (simp add: notif_frame_def)

lemma notif_frame_emit: "notif_frame w (emit a w)"
  by (simp add: notif_frame_def emit_def)

lemma notif_frame_upd_svc: "(\<And>v. svc_core (f v) = svc_core v) \<Longrightarrow> notif_frame w (upd_svc s f w)"
  by (auto simp: notif_frame_def upd_svc_def)

lemma notif_frame_upd_host: "(\<And>v. host_core (f v) = host_core v) \<Longrightarrow> notif_frame w (upd_host h f w)"
  by (auto simp: notif_frame_def upd_host_def)

lemma notif_frame_other:
  "notif_frame w (upd_svc_other s f w)" "notif_frame w (upd_host_other h g w)"
  "notif_frame w (w\<lparr>next_notification_id := n\<rparr>)"
  by (simp_all add: notif_frame_def upd_svc_other_def upd_host_other_def)

lemma contact_notified_notif_frame: "contact_notified w w' \<Longrightarrow> notif_frame w w'"
  by (auto simp: contact_notified_def notif_frame_def)

lemmas notif_frame_intros = notif_frame_emit notif_frame_upd_svc notif_frame_upd_host notif_frame_other
  notif_frame_trans [OF _ notif_frame_emit] notif_frame_trans [OF _ notif_frame_upd_svc]
  notif_frame_trans [OF _ notif_frame_upd_host] notif_frame_trans [OF _ notif_frame_other(1)]
  notif_frame_trans [OF _ notif_frame_other(2)] notif_frame_trans [OF _ notif_frame_other(3)]

lemma service_period_notif_frame: "notif_frame w (snd (check_service_notification_period ev s h ty w))"
  by (auto simp: check_service_notification_period_def Let_def svc_core_def intro!: notif_frame_upd_svc)

lemma host_period_notif_frame: "notif_frame w (snd (check_host_notification_period ev h ty w))"
  by (auto simp: check_host_notification_period_def Let_def host_core_def intro!: notif_frame_upd_host)

lemma service_delay_notif_frame: "notif_frame w (snd (service_first_notification_delay ev s ty w))"
  by (auto simp: service_first_notification_delay_def Let_def intro: notif_frame_other)

lemma host_delay_notif_frame: "notif_frame w (snd (host_first_notification_delay ev h ty w))"
  by (auto simp: host_first_notification_delay_def Let_def intro: notif_frame_other)

lemma service_viability_notif_frame:
  assumes "check_service_notification_viability ev s ty options w = Some (r, w')"
  shows "notif_frame w w'"
proof -
  note p = service_period_notif_frame [of w ev s _ ty]
  note d = service_delay_notif_frame [of _ ev s ty]
  show ?thesis
    using assms p d notif_frame_trans [OF p d]
    by (auto simp: check_service_notification_viability_def Let_def case_prod_beta
        split: if_splits option.splits bind_splits)
qed

lemma host_viability_notif_frame:
  assumes "check_host_notification_viability ev h ty options w = Some (r, w')"
  shows "notif_frame w w'"
proof -
  note p = host_period_notif_frame [of w ev h ty]
  note d = host_delay_notif_frame [of _ ev h ty]
  show ?thesis
    using assms p d notif_frame_trans [OF p d]
    by (auto simp: check_host_notification_viability_def Let_def case_prod_beta
        split: if_splits option.splits bind_splits)
qed

lemma begin_service_notif_frame: "notif_frame w (begin_service_notification s inc w)"
  unfolding begin_service_notification_def Let_def
  by (intro notif_frame_intros) (auto simp: svc_core_def intro: notif_frame_upd_svc)

lemma begin_host_notif_frame: "notif_frame w (begin_host_notification h inc w)"
  unfolding begin_host_notification_def Let_def
  by (intro notif_frame_intros) (auto simp: host_core_def intro: notif_frame_upd_host)

lemma decrement_notif_frame:
  "notif_frame w (decrement_service_notification s w)" "notif_frame w (decrement_host_notification h w)"
  by (auto simp: decrement_service_notification_def decrement_host_notification_def svc_core_def
      host_core_def intro!: notif_frame_upd_svc notif_frame_upd_host)

lemma service_contacts_notif_frame: "notif_frame w (service_contacts_notified ev s ty inc n w)"
proof -
  have nxt: "notif_frame w (snd (get_next_service_notification_time ev s t w))" for t
    by (auto simp: get_next_service_notification_time_eq Let_def svc_core_def intro!: notif_frame_upd_svc)
  show ?thesis
    by (auto simp: service_contacts_notified_def case_prod_beta Let_def svc_core_def decrement_notif_frame
        split: svc_state.split intro!: notif_frame_trans [OF nxt] notif_frame_upd_svc)
qed

lemma host_contacts_notif_frame: "notif_frame w (host_contacts_notified ev h ty inc n w)"
proof -
  have nxt: "notif_frame w (snd (get_next_host_notification_time ev h t w))" for t
    by (auto simp: get_next_host_notification_time_eq Let_def host_core_def intro!: notif_frame_upd_host)
  show ?thesis
    by (auto simp: host_contacts_notified_def case_prod_beta Let_def host_core_def decrement_notif_frame
        split: host_state.split intro!: notif_frame_trans [OF nxt] notif_frame_upd_host)
qed

lemma notify_contacts_notif_frame:
  "notif_frame w (snd (notify_contacts (\<lambda>c. notify_contact_of_service ev mac c s ty options e) nl w))"
  "notif_frame w (snd (notify_contacts (\<lambda>c. notify_contact_of_host ev mac c h ty options e) nl w))"
  by (rule contact_notified_notif_frame, rule notify_contacts_frame,
      simp add: notify_contact_of_service_frame notify_contact_of_host_frame)+

lemma service_notification_frame:
  assumes "service_notification ev s ty a d options w = Some (r, w')"
  shows "notif_frame w w'"
proof (cases "s_host_ptr (svc_of w s)")
  case None
  with assms show ?thesis by (simp add: service_notification_def)
next
  case (Some h)
  then obtain r1 w1 where v: "check_service_notification_viability ev s ty options w = Some (r1, w1)"
    using assms by (auto simp: service_notification_def split: bind_splits)
  note f1 = service_viability_notif_frame [OF v]
  let ?inc = "ty = NOTIFICATION_NORMAL \<or> opt_increment options"
  let ?w2 = "begin_service_notification s ?inc w1"
  obtain e mac nl where l: "create_notification_list_from_service ev s options empty_macros ?w2 = (e, mac, nl)"
    by (metis prod.exhaust)
  let ?w3 = "emit (Broker_notification_start (ServiceTarget s) ty e) ?w2"
  have f3: "notif_frame w ?w3"
    using notif_frame_trans [OF f1 notif_frame_trans [OF begin_service_notif_frame notif_frame_emit]] .
  note nc = notif_frame_trans [OF f3 notif_frame_trans [OF notify_contacts_notif_frame(1)
        service_contacts_notif_frame]]
  show ?thesis
    using assms Some v f1 f3 l
    by (auto simp: service_notification_def Let_def case_prod_beta
        intro!: nc notif_frame_trans [OF _ decrement_notif_frame(1)]
          notif_frame_trans [OF _ notif_frame_emit] notif_frame_trans [OF _ notif_frame_other(1)]
        split: if_splits neb_result.splits)
qed

lemma host_notification_frame:
  assumes "host_notification ev h ty a d options w = Some (r, w')"
  shows "notif_frame w w'"
proof -
  obtain r1 w1 where v: "check_host_notification_viability ev h ty options w = Some (r1, w1)"
    using assms by (auto simp: host_notification_def split: bind_splits)
  note f1 = host_viability_notif_frame [OF v]
  let ?inc = "ty = NOTIFICATION_NORMAL \<or> opt_increment options"
  let ?w2 = "begin_host_notification h ?inc w1"
  obtain e mac nl where l: "create_notification_list_from_host ev h options empty_macros ?w2 = (e, mac, nl)"
    by (metis prod.exhaust)
  let ?w3 = "emit (Broker_notification_start (HostTarget h) ty e) ?w2"
  have f3: "notif_frame w ?w3"
    using notif_frame_trans [OF f1 notif_frame_trans [OF begin_host_notif_frame notif_frame_emit]] .
  note nc = notif_frame_trans [OF f3 notif_frame_trans [OF notify_contacts_notif_frame(2)
        host_contacts_notif_frame]]
  show ?thesis
    using assms v f1 f3 l
    by (auto simp: host_notification_def Let_def case_prod_beta
        intro!: nc notif_frame_trans [OF _ decrement_notif_frame(2)]
          notif_frame_trans [OF _ notif_frame_emit] notif_frame_trans [OF _ notif_frame_other(2)]
        split: if_splits neb_result.splits)
qed

section \<open>Properties\<close>

lemma ex_dependencies [simp]:
  "check_service_dependencies ev s ty ex_engine = Some DEPENDENCIES_OK"
  "check_host_dependencies ev h ty ex_engine = Some DEPENDENCIES_OK"
  by (simp_all add: check_service_dependencies_def check_host_dependencies_def
      service_dependencies_from.simps host_dependencies_from.simps ex_engine_def)

lemma ex_access [simp]:
  "svc_of ex_engine s = ex_service" "host_of ex_engine h = ex_host" "cfg ex_engine = ex_cfg"
  "contact_of ex_engine c = ex_contact" "now ex_env = 1000"
  "neb_notification ex_env t n = NEB_CONTINUE" "neb_contact_notification ex_env c t n = NEB_CONTINUE"
  "neb_contact_method ex_env c t m = NEB_CONTINUE"
  by (simp_all add: ex_engine_def ex_env_def)

lemma ex_service_notifiable: "service_notifiable ex_env s ''h'' ex_engine"
  by (simp add: service_notifiable_def service_in_notification_period_def service_delay_elapsed_def
      ex_service_def ex_host_def ex_cfg_def check_time_against_period_def Let_def)
    (simp add: ex_engine_def trunc_to_time_def)

text \<open>C1. The filters of a service problem or recovery notification, as one condition:
  when the dependency checks end, \<open>check_service_notification_viability\<close> lets a
  notification that is not forced through exactly if notifications are on for the program
  and the service, the period and the state options allow it, the state is hard, nobody
  acknowledged the problem, no dependency fails, the first delay is over, neither flapping
  nor downtime (of service or host) is on, and either a recovery follows a notified problem
  or the host is up and the re-notification time has come.\<close>

theorem service_viability_exact:
  assumes "s_host_ptr (svc_of w s) = Some h" "\<not> opt_forced options"
    "check_service_dependencies ev s NOTIFICATION_DEPENDENCY w = Some d1"
    "check_host_dependencies ev h NOTIFICATION_DEPENDENCY w = Some d2"
  shows "map_option fst (check_service_notification_viability ev s NOTIFICATION_NORMAL options w) =
    Some (if service_notifiable ev s h w then OK else ERROR)"
  using service_normal_viability [OF assms] by auto

theorem service_viability_exact_witness:
  "map_option fst (check_service_notification_viability ex_env (''h'', ''s'') NOTIFICATION_NORMAL
     NOTIFICATION_OPTION_NONE ex_engine) = Some OK"
  using service_viability_exact [of ex_engine "(''h'', ''s'')" "''h''" NOTIFICATION_OPTION_NONE ex_env]
    ex_service_notifiable
  by (simp add: ex_service_def NOTIFICATION_OPTION_NONE_def)

text \<open>The same for a host: \<open>check_host_notification_viability\<close> is the
  condition \<open>host_notifiable\<close>.\<close>

theorem host_viability_exact:
  assumes "\<not> opt_forced options" "check_host_dependencies ev h NOTIFICATION_DEPENDENCY w = Some d"
  shows "map_option fst (check_host_notification_viability ev h NOTIFICATION_NORMAL options w) =
    Some (if host_notifiable ev h w then OK else ERROR)"
  using host_normal_viability [OF assms] by auto

theorem host_viability_exact_witness:
  "map_option fst (check_host_notification_viability ex_env ''h'' NOTIFICATION_NORMAL
     NOTIFICATION_OPTION_NONE ex_engine) = Some ERROR"
  using host_viability_exact [of NOTIFICATION_OPTION_NONE ex_env "''h''" ex_engine]
  by (simp add: NOTIFICATION_OPTION_NONE_def host_notifiable_def ex_host_def Let_def)

text \<open>A service problem that is not notifiable (soft, acknowledged, flapping, in
  downtime, out of its period, behind a failed dependency and so on) is silent: the sender
  returns \<open>OK\<close>, runs no command and calls no broker, and neither the notification
  number nor the notification identifier moves.\<close>

theorem service_notification_silent:
  assumes "s_host_ptr (svc_of w s) = Some h" "\<not> opt_forced options"
    "check_service_dependencies ev s NOTIFICATION_DEPENDENCY w = Some d1"
    "check_host_dependencies ev h NOTIFICATION_DEPENDENCY w = Some d2"
    "\<not> service_notifiable ev s h w"
  shows "\<exists>w'. service_notification ev s NOTIFICATION_NORMAL a d options w = Some (OK, w') \<and>
    out w' = out w \<and> next_notification_id w' = next_notification_id w \<and>
    s_current_notification_number (svc_of w' s) = s_current_notification_number (svc_of w s)"
proof -
  obtain w' where w': "check_service_notification_viability ev s NOTIFICATION_NORMAL options w =
      Some (ERROR, w')"
    using service_normal_viability [OF assms(1-4)] assms(5) by auto
  have "service_notification ev s NOTIFICATION_NORMAL a d options w = Some (OK, w')"
    using assms(1) w' by (intro service_notification_blocked) auto
  with filter_frameD(1-3) [OF service_viability_frame [OF w']] show ?thesis by blast
qed

theorem service_notification_silent_witness:
  "\<exists>w'. service_notification ex_env (''h'', ''s'') NOTIFICATION_NORMAL None None NOTIFICATION_OPTION_NONE
     (ex_engine\<lparr>svc_of := (\<lambda>_. ex_service\<lparr>s_scheduled_downtime_depth := 1\<rparr>)\<rparr>) = Some (OK, w') \<and>
     out w' = []"
proof -
  let ?w = "ex_engine\<lparr>svc_of := (\<lambda>_. ex_service\<lparr>s_scheduled_downtime_depth := 1\<rparr>)\<rparr>"
  have "check_service_dependencies ex_env (''h'', ''s'') NOTIFICATION_DEPENDENCY ?w = Some DEPENDENCIES_OK"
    "check_host_dependencies ex_env ''h'' NOTIFICATION_DEPENDENCY ?w = Some DEPENDENCIES_OK"
    by (simp_all add: check_service_dependencies_def check_host_dependencies_def
        service_dependencies_from.simps host_dependencies_from.simps ex_engine_def)
  moreover have "s_host_ptr (svc_of ?w (''h'', ''s'')) = Some ''h''" by (simp add: ex_service_def)
  moreover have "\<not> service_notifiable ex_env (''h'', ''s'') ''h'' ?w"
    by (simp add: service_notifiable_def Let_def)
  moreover have "out ?w = []" by (simp add: ex_engine_def)
  ultimately show ?thesis
    using service_notification_silent [of ?w "(''h'', ''s'')" "''h''" NOTIFICATION_OPTION_NONE ex_env]
    by (fastforce simp: NOTIFICATION_OPTION_NONE_def)
qed

text \<open>C15. The bookkeeping of a normal notification of a service that passes the filters,
  whatever the brokers answer. The recipients are the contacts of the list (with the number
  counted) that take it. If the broker continues, the end of the notification is reported with
  their number, the notification number grows by one exactly if there is a recipient, the time
  of the last notification becomes now exactly then, and so does that of every recipient whose
  own notification no broker overrides. If the broker cancels or overrides the notification,
  the number grows all the same although nobody is notified.\<close>

theorem service_notification_counts:
  assumes "s_host_ptr (svc_of w s) \<noteq> None"
    "check_service_notification_viability ev s NOTIFICATION_NORMAL options w = Some (OK, w1)"
  defines "w2 \<equiv> begin_service_notification s True w1"
  defines "to \<equiv> service_recipients ev s options w2"
  defines "escalated \<equiv> should_service_notification_be_escalated ev s w2"
  defines "start \<equiv> Broker_notification_start (ServiceTarget s) NOTIFICATION_NORMAL escalated"
  shows "\<exists>r w'. service_notification ev s NOTIFICATION_NORMAL a d options w = Some (r, w') \<and>
    next_notification_id w' = next_notification_id w + 1 \<and>
    (if neb_notification ev (ServiceTarget s) NOTIFICATION_NORMAL = NEB_CONTINUE
     then r = OK \<and>
       (\<exists>acts. out w' = out w @ start # acts @
          [Broker_notification_end (ServiceTarget s) NOTIFICATION_NORMAL escalated (card to), Update_status (ServiceTarget s)]) \<and>
       s_current_notification_number (svc_of w' s) =
         s_current_notification_number (svc_of w s) + (if to = {} then 0 else 1) \<and>
       s_last_notification (svc_of w' s) = (if to = {} then s_last_notification (svc_of w s) else now ev) \<and>
       (\<forall>c. c_last_service_notification (contact_of w' c) =
          (if c \<in> to \<and> neb_contact_notification ev c (ServiceTarget s) NOTIFICATION_NORMAL = NEB_CONTINUE
           then now ev else c_last_service_notification (contact_of w c)))
     else r = (if neb_notification ev (ServiceTarget s) NOTIFICATION_NORMAL = NEB_CANCEL then ERROR else OK) \<and>
       out w' = out w @ [start] \<and>
       s_current_notification_number (svc_of w' s) = s_current_notification_number (svc_of w s) + 1 \<and>
       s_last_notification (svc_of w' s) = s_last_notification (svc_of w s) \<and> contact_of w' = contact_of w)"
  unfolding w2_def to_def escalated_def start_def by (rule service_notification_outcome [OF assms(1,2)])

theorem service_notification_counts_witness:
  "\<exists>w'. service_notification ex_env (''h'', ''s'') NOTIFICATION_NORMAL None None
     NOTIFICATION_OPTION_NONE ex_engine = Some (OK, w') \<and>
     s_current_notification_number (svc_of w' (''h'', ''s'')) = 1 \<and>
     c_last_service_notification (contact_of w' ''alice'') = 1000"
proof -
  let ?s = "(''h'', ''s'')" and ?o = NOTIFICATION_OPTION_NONE
  let ?w1 = "upd_svc_other ?s (\<lambda>p. p\<lparr>so_initial_notif_time := 1000\<rparr>) ex_engine"
  let ?w2 = "begin_service_notification ?s True ?w1"
  have host: "s_host_ptr (svc_of ex_engine ?s) \<noteq> None" by (simp add: ex_service_def)
  have start: "so_initial_notif_time (service_other_props ex_engine ?s) = 0" by (simp add: ex_engine_def)
  have via: "check_service_notification_viability ex_env ?s NOTIFICATION_NORMAL ?o ex_engine = Some (OK, ?w1)"
    by (simp add: check_service_notification_viability_def check_service_notification_period_def ex_service_def ex_host_def
        ex_cfg_def check_time_against_period_def Let_def NOTIFICATION_OPTION_NONE_def service_special_viability_def
        service_state_filter_def service_first_notification_delay_def service_final_viability_def trunc_to_time_def
        start upd_svc_other_def)
  have "serviceescalations ?w2 ?s = []" "contacts (svc_of ?w2 ?s) = [Some ''alice'']" "contact_of ?w2 = contact_of ex_engine"
    "s_current_state (svc_of ?w2 ?s) = STATE_CRITICAL"
    by (simp_all add: begin_service_notification_def Let_def upd_svc_def upd_svc_other_def ex_engine_def ex_service_def)
  then have "''alice'' \<in> service_recipients ex_env ?s ?o ?w2"
    by (simp add: service_recipients_def notified_set_def members_of_def should_service_notification_be_escalated_def
        takes_service_notification_def Let_def)
      (simp add: ex_engine_def ex_contact_def check_time_against_period_def)
  with service_notification_counts [OF host via, of None None] show ?thesis
    by (auto simp: ex_service_def)
qed

text \<open>The same bookkeeping for a host notification.\<close>

theorem host_notification_counts:
  assumes "check_host_notification_viability ev h NOTIFICATION_NORMAL options w = Some (OK, w1)"
    "neb_notification ev (HostTarget h) NOTIFICATION_NORMAL = NEB_CONTINUE"
  shows "\<exists>w' n escalated acts.
    host_notification ev h NOTIFICATION_NORMAL a d options w = Some (OK, w') \<and>
    out w' = out w @ acts @ [Broker_notification_end (HostTarget h) NOTIFICATION_NORMAL escalated n,
                             Update_status (HostTarget h)] \<and>
    h_current_notification_number (host_of w' h) =
      h_current_notification_number (host_of w h) + (if n = 0 then 0 else 1) \<and>
    (0 < n \<longrightarrow> h_last_host_notification (host_of w' h) = now ev) \<and>
    next_notification_id w' = next_notification_id w + 1"
  using host_notification_number [OF assms] .

theorem host_notification_counts_witness:
  "\<exists>w'. host_notification ex_env ''h'' NOTIFICATION_NORMAL None None
     (NOTIFICATION_OPTION_NONE\<lparr>opt_forced := True\<rparr>) ex_engine = Some (OK, w') \<and>
     next_notification_id w' = next_notification_id ex_engine + 1"
  using host_notification_counts [of ex_env "''h''" "NOTIFICATION_OPTION_NONE\<lparr>opt_forced := True\<rparr>"
      ex_engine ex_engine None None]
  by (auto simp: check_host_notification_viability_def)

text \<open>C32. The notification list of a service holds every contact once, is exactly the
  contacts (direct and through groups) of the valid escalations, of the service, or of both
  for a broadcast, and the recipients macro names the contacts in the order they were added.\<close>

theorem service_notification_list_exact:
  "\<exists>escalated mac nl.
     create_notification_list_from_service ev s options empty_macros w = (escalated, mac, nl) \<and>
     distinct nl \<and> mac_recipients mac = comma_join (rev nl) \<and>
     escalated = should_service_notification_be_escalated ev s w \<and>
     set nl = notified_set w escalated (opt_broadcast options) (serviceescalations w s)
       (\<lambda>se. is_valid_escalation_for_service_notification ev s se options w) (svc_of w s)"
proof -
  obtain escalated st where l: "create_notification_list_from_service ev s options empty_macros w =
      (escalated, st)" by (rule prod.exhaust)
  have "mac_recipients empty_macros = None" by (simp add: empty_macros_def)
  from service_list_ok [OF this l] show ?thesis
    by (cases st) (simp add: l list_ok_def)
qed

text \<open>The next notification of a service comes one interval after the given time:
  the shortest interval among the escalations that are valid now, or the interval of the
  service when there is none, in units of the configured length. No more notifications are
  due exactly if that interval is zero and the service is not volatile.\<close>

theorem next_service_notification_shortest:
  "\<exists>i. fst (get_next_service_notification_time ev s offset w) =
      offset + trunc_to_time (i * of_int (interval_length (cfg w))) \<and>
    s_no_more_notifications (svc_of (snd (get_next_service_notification_time ev s offset w)) s) =
      (i = 0 \<and> \<not> s_is_volatile (svc_of w s)) \<and>
    (let valid = {se \<in> set (serviceescalation_list w). 0 \<le> se_notification_interval se \<and>
           is_valid_escalation_for_service_notification ev s se NOTIFICATION_OPTION_NONE w}
     in if valid = {} then i = s_notification_interval (svc_of w s)
        else i \<in> se_notification_interval ` valid \<and> (\<forall>se\<in>valid. i \<le> se_notification_interval se))"
proof -
  let ?V = "\<lambda>se. is_valid_escalation_for_service_notification ev s se NOTIFICATION_OPTION_NONE w"
  let ?i = "interval_of (s_notification_interval (svc_of w s))
     (usable_intervals ?V se_notification_interval (serviceescalation_list w))"
  note interval_of_shortest [of "serviceescalation_list w" se_notification_interval ?V
      "s_notification_interval (svc_of w s)"]
  moreover have "fst (get_next_service_notification_time ev s offset w) =
      offset + trunc_to_time (?i * of_int (interval_length (cfg w)))"
    by (simp only: get_next_service_notification_time_eq Let_def fst_conv)
  moreover have "s_no_more_notifications (svc_of (snd (get_next_service_notification_time ev s offset w)) s) =
      (?i = 0 \<and> \<not> s_is_volatile (svc_of w s))"
    by (simp only: get_next_service_notification_time_eq Let_def snd_conv upd_svc_def) simp
  ultimately show ?thesis unfolding Let_def by blast
qed

theorem next_service_notification_shortest_witness:
  "fst (get_next_service_notification_time ex_env (''h'', ''s'') 5000 ex_engine) =
     5000 + trunc_to_time (s_notification_interval ex_service * 60)"
  using next_service_notification_shortest [of ex_env "(''h'', ''s'')" 5000 ex_engine]
  by (auto simp: Let_def ex_engine_def ex_cfg_def)

text \<open>A contact hears of a recovery only if the contact was to hear of the problem:
  without force, the contact filter passes a normal notification about an OK service exactly
  if the contact accepts service notifications now, wants recoveries, and wants one of the
  states that were notified.\<close>

theorem contact_recovery_follows_problem:
  assumes "s_current_state (svc_of w s) = STATE_OK" "\<not> opt_forced options"
  shows "check_contact_service_notification_viability ev c s NOTIFICATION_NORMAL options w = OK \<longleftrightarrow>
    (let k = contact_of w c; svc = svc_of w s in
     c_service_notifications_enabled k \<and>
     check_time_against_period ev (get_contact_timezone w c) (now ev) (c_service_notification_period k) = OK \<and>
     c_notify_on_service_recovery k \<and>
     (s_notified_on_unknown svc \<and> c_notify_on_service_unknown k \<or>
      s_notified_on_warning svc \<and> c_notify_on_service_warning k \<or>
      s_notified_on_critical svc \<and> c_notify_on_service_critical k))"
  using assms
  by (auto simp: check_contact_service_notification_viability_def Let_def result_ERROR)

theorem contact_recovery_follows_problem_witness:
  "check_contact_service_notification_viability ex_env ''alice'' (''h'', ''s'') NOTIFICATION_NORMAL
     NOTIFICATION_OPTION_NONE (ex_engine\<lparr>svc_of := (\<lambda>_. ex_service\<lparr>s_current_state := STATE_OK\<rparr>)\<rparr>) = ERROR"
proof -
  let ?w = "ex_engine\<lparr>svc_of := (\<lambda>_. ex_service\<lparr>s_current_state := STATE_OK\<rparr>)\<rparr>"
  have "check_contact_service_notification_viability ex_env ''alice'' (''h'', ''s'') NOTIFICATION_NORMAL
     NOTIFICATION_OPTION_NONE ?w \<noteq> OK"
    by (subst contact_recovery_follows_problem)
      (simp_all add: NOTIFICATION_OPTION_NONE_def Let_def ex_service_def)
  then show ?thesis by (simp add: result_ERROR)
qed

text \<open>A service without a notification period of its own inherits the host's for the
  test, but the next notification time is computed from the missing period: outside the
  inherited period it is set to now instead of the start of the next valid range.\<close>

theorem inherited_period_not_used_for_next:
  assumes "\<not> opt_forced options" "enable_notifications (cfg w)" "s_host_ptr (svc_of w s) = Some h"
    "s_notification_period_ptr (svc_of w s) = None"
    "check_time_against_period ev (get_service_timezone w s) (now ev)
       (h_notification_period_ptr (host_of w h)) = ERROR" "now ev \<noteq> 0"
  shows "\<exists>w'. check_service_notification_viability ev s NOTIFICATION_NORMAL options w =
      Some (ERROR, w') \<and> s_next_notification (svc_of w' s) = now ev"
  using assms
  by (simp add: check_service_notification_viability_def check_service_notification_period_def
      get_next_valid_time_def upd_svc_def Let_def)

theorem inherited_period_not_used_for_next_witness:
  "\<exists>w'. check_service_notification_viability (ex_env\<lparr>next_valid_time_per_timeperiod := (\<lambda>_ _ _. 9000)\<rparr>)
      (''h'', ''s'') NOTIFICATION_NORMAL NOTIFICATION_OPTION_NONE
      (ex_engine\<lparr>host_of := (\<lambda>_. ex_host\<lparr>h_notification_period_ptr := Some ''night''\<rparr>)\<rparr>) = Some (ERROR, w') \<and>
     s_next_notification (svc_of w' (''h'', ''s'')) = 1000"
  using inherited_period_not_used_for_next [of NOTIFICATION_OPTION_NONE
      "ex_engine\<lparr>host_of := (\<lambda>_. ex_host\<lparr>h_notification_period_ptr := Some ''night''\<rparr>)\<rparr>"
      "(''h'', ''s'')" "''h''" "ex_env\<lparr>next_valid_time_per_timeperiod := (\<lambda>_ _ _. 9000)\<rparr>"]
  by (simp add: NOTIFICATION_OPTION_NONE_def ex_cfg_def ex_service_def check_time_against_period_def)

text \<open>The macros of a host acknowledgement notification: author and comment go to the
  host macros, but the resolved name and alias of the author go to the service macros, so
  \<open>HOSTACKAUTHORNAME\<close> and \<open>HOSTACKAUTHORALIAS\<close> stay unset.\<close>

theorem host_ack_author_name_unset:
  "mac_hostackauthor (host_notification_macros h NOTIFICATION_ACKNOWLEDGEMENT a d w empty_macros) = a \<and>
   mac_hostackauthorname (host_notification_macros h NOTIFICATION_ACKNOWLEDGEMENT a d w empty_macros) = None \<and>
   mac_serviceackauthorname (host_notification_macros h NOTIFICATION_ACKNOWLEDGEMENT a d w empty_macros)
     = find_author a w"
  by (simp add: host_notification_macros_def empty_macros_def Let_def)

end
