(* ===== verification/Flapping.thy ===== *)
theory Flapping
  imports Comments Notifications
begin

text \<open>
  Flap detection, \<^verbatim>\<open>src/flapping.cc\<close>: the ring of the last states, the weighted
  percentage of changes, the thresholds with their hysteresis, and what happens when flapping
  starts, stops or is switched off. The handlers send notifications, so they are partial as
  those are. The text of the comment is formatted by the environment.
\<close>

unbundle bit_operations_syntax

section \<open>The ring of states\<close>

definition MAX_STATE_HISTORY_ENTRIES :: nat where "MAX_STATE_HISTORY_ENTRIES = 21"

definition next_index :: "nat \<Rightarrow> nat" where
  "next_index y = (if y + 1 \<ge> MAX_STATE_HISTORY_ENTRIES then 0 else y + 1)"

definition low_curve_value :: rat where "low_curve_value = 3 / 4"
definition high_curve_value :: rat where "high_curve_value = 5 / 4"

definition curve_weight :: "nat \<Rightarrow> rat" where
  "curve_weight x = (of_nat (x - 1) * (high_curve_value - low_curve_value))
     / of_nat (MAX_STATE_HISTORY_ENTRIES - 2) + low_curve_value"

definition curve_step :: "'a list \<Rightarrow> nat \<Rightarrow> nat \<times> 'a \<times> rat \<Rightarrow> nat \<times> 'a \<times> rat" where
  "curve_step state_history x st =
     (let (y, last_state_history_value, curved_changes) = st in
      if x = 0 then (next_index y, state_history ! y, curved_changes)
      else (next_index y, state_history ! y,
            if last_state_history_value \<noteq> state_history ! y
            then curved_changes + curve_weight x else curved_changes))"

definition curved_changes :: "'a list \<Rightarrow> nat \<Rightarrow> 'a \<Rightarrow> rat" where
  "curved_changes state_history index initial =
     snd (snd (fold (curve_step state_history) [0..<MAX_STATE_HISTORY_ENTRIES] (index, initial, 0)))"

definition curved_percent_change :: "'a list \<Rightarrow> nat \<Rightarrow> 'a \<Rightarrow> rat" where
  "curved_percent_change state_history index initial =
     curved_changes state_history index initial * 100 / of_nat (MAX_STATE_HISTORY_ENTRIES - 1)"

section \<open>Flapping starts and stops\<close>

definition set_service_flap ::
    "env \<Rightarrow> svc_id \<Rightarrow> rat \<Rightarrow> rat \<Rightarrow> rat \<Rightarrow> bool \<Rightarrow> engine \<Rightarrow> engine option" where
  "set_service_flap ev s percent_change high_threshold low_threshold allow w =
     (let (comment_id, w1) = add_new_service_comment FLAPPING_COMMENT (Some (fst s)) (Some (snd s)) (now ev)
            (Some ''(Centreon Engine Process)'')
            (Some (flapping_text ev (ServiceTarget s) percent_change high_threshold)) False 0 False 0 w;
          w2 = upd_svc s (\<lambda>v. v\<lparr>s_flapping_comment_id := comment_id, s_is_flapping := True\<rparr>) w1;
          w3 = emit (Broker_flapping_start (ServiceTarget s) percent_change high_threshold low_threshold) w2;
          w4 = upd_svc s (\<lambda>v. v\<lparr>s_check_flapping_recovery_notification :=
                 (s_current_state v \<noteq> STATE_OK \<and> s_current_notification_number v > 0)\<rparr>) w3
      in if allow
         then map_option snd (service_notification ev s NOTIFICATION_FLAPPINGSTART None None
                NOTIFICATION_OPTION_NONE w4)
         else Some w4)"

definition remove_service_flapping_comment :: "svc_id \<Rightarrow> engine \<Rightarrow> engine" where
  "remove_service_flapping_comment s w =
     (let w1 = (if s_flapping_comment_id (svc_of w s) \<noteq> 0
                then snd (delete_comment SERVICE_COMMENT (s_flapping_comment_id (svc_of w s)) w) else w)
      in upd_svc s (\<lambda>v. v\<lparr>s_flapping_comment_id := 0\<rparr>) w1)"

text \<open>The two notifications at the end of flapping, with the type of the first.\<close>

definition service_flapping_over ::
    "env \<Rightarrow> svc_id \<Rightarrow> notif_type \<Rightarrow> engine \<Rightarrow> engine option" where
  "service_flapping_over ev s ty w =
     Option.bind (service_notification ev s ty None None NOTIFICATION_OPTION_NONE w) (\<lambda>(_, w1).
     Option.bind
       (if s_check_flapping_recovery_notification (svc_of w1 s) \<and> s_current_state (svc_of w1 s) = STATE_OK
        then map_option snd (service_notification ev s NOTIFICATION_NORMAL None None
               NOTIFICATION_OPTION_NONE w1)
        else Some w1) (\<lambda>w2.
     Some (upd_svc s (\<lambda>v. v\<lparr>s_check_flapping_recovery_notification := False\<rparr>) w2)))"

definition clear_service_flap ::
    "env \<Rightarrow> svc_id \<Rightarrow> rat \<Rightarrow> rat \<Rightarrow> rat \<Rightarrow> engine \<Rightarrow> engine option" where
  "clear_service_flap ev s percent_change high_threshold low_threshold w =
     (let w1 = remove_service_flapping_comment s w;
          w2 = upd_svc s (\<lambda>v. v\<lparr>s_is_flapping := False\<rparr>) w1;
          w3 = emit (Broker_flapping_stop (ServiceTarget s) percent_change high_threshold low_threshold) w2
      in service_flapping_over ev s NOTIFICATION_FLAPPINGSTOP w3)"

definition set_host_flap ::
    "env \<Rightarrow> host_id \<Rightarrow> rat \<Rightarrow> rat \<Rightarrow> rat \<Rightarrow> bool \<Rightarrow> engine \<Rightarrow> engine option" where
  "set_host_flap ev h percent_change high_threshold low_threshold allow w =
     (let (comment_id, w1) = add_new_host_comment FLAPPING_COMMENT (Some h) (now ev)
            (Some ''(Centreon Engine Process)'')
            (Some (flapping_text ev (HostTarget h) percent_change high_threshold)) False 0 False 0 w;
          w2 = upd_host h (\<lambda>v. v\<lparr>h_flapping_comment_id := comment_id, h_is_flapping := True\<rparr>) w1;
          w3 = emit (Broker_flapping_start (HostTarget h) percent_change high_threshold low_threshold) w2;
          w4 = upd_host h (\<lambda>v. v\<lparr>h_check_flapping_recovery_notification :=
                 (h_current_state v \<noteq> HOST_UP \<and> h_current_notification_number v > 0)\<rparr>) w3
      in if allow
         then map_option snd (host_notification ev h NOTIFICATION_FLAPPINGSTART None None
                NOTIFICATION_OPTION_NONE w4)
         else Some w4)"

definition remove_host_flapping_comment :: "host_id \<Rightarrow> engine \<Rightarrow> engine" where
  "remove_host_flapping_comment h w =
     (let w1 = (if h_flapping_comment_id (host_of w h) \<noteq> 0
                then snd (delete_comment HOST_COMMENT (h_flapping_comment_id (host_of w h)) w) else w)
      in upd_host h (\<lambda>v. v\<lparr>h_flapping_comment_id := 0\<rparr>) w1)"

definition host_flapping_over :: "env \<Rightarrow> host_id \<Rightarrow> notif_type \<Rightarrow> engine \<Rightarrow> engine option" where
  "host_flapping_over ev h ty w =
     Option.bind (host_notification ev h ty None None NOTIFICATION_OPTION_NONE w) (\<lambda>(_, w1).
     Option.bind
       (if h_check_flapping_recovery_notification (host_of w1 h) \<and> h_current_state (host_of w1 h) = HOST_UP
        then map_option snd (host_notification ev h NOTIFICATION_NORMAL None None
               NOTIFICATION_OPTION_NONE w1)
        else Some w1) (\<lambda>w2.
     Some (upd_host h (\<lambda>v. v\<lparr>h_check_flapping_recovery_notification := False\<rparr>) w2)))"

definition clear_host_flap ::
    "env \<Rightarrow> host_id \<Rightarrow> rat \<Rightarrow> rat \<Rightarrow> rat \<Rightarrow> engine \<Rightarrow> engine option" where
  "clear_host_flap ev h percent_change high_threshold low_threshold w =
     (let w1 = remove_host_flapping_comment h w;
          w2 = upd_host h (\<lambda>v. v\<lparr>h_is_flapping := False\<rparr>) w1;
          w3 = emit (Broker_flapping_stop (HostTarget h) percent_change high_threshold low_threshold) w2
      in host_flapping_over ev h NOTIFICATION_FLAPPINGSTOP w3)"

section \<open>Detection\<close>

definition service_records_state :: "service \<Rightarrow> bool" where
  "service_records_state svc \<longleftrightarrow>
     (case s_current_state svc of
        STATE_OK \<Rightarrow> s_flap_detection_on_ok svc
      | STATE_WARNING \<Rightarrow> s_flap_detection_on_warning svc
      | STATE_UNKNOWN \<Rightarrow> s_flap_detection_on_unknown svc
      | STATE_CRITICAL \<Rightarrow> s_flap_detection_on_critical svc)"

definition record_service_state :: "service \<Rightarrow> service" where
  "record_service_state v =
     v\<lparr>s_state_history := (s_state_history v)[s_state_history_index v := s_current_state v],
       s_state_history_index := next_index (s_state_history_index v)\<rparr>"

definition check_for_service_flapping ::
    "env \<Rightarrow> svc_id \<Rightarrow> bool \<Rightarrow> bool \<Rightarrow> engine \<Rightarrow> engine option" where
  "check_for_service_flapping ev s update allow w =
     (let svc = svc_of w s in
      if s_state_type svc = SOFT_STATE \<and> s_current_state svc \<noteq> STATE_OK then Some w
      else
        let low_threshold = (if s_low_flap_threshold svc \<le> 0 then low_service_flap_threshold (cfg w)
                             else s_low_flap_threshold svc);
            high_threshold = (if s_high_flap_threshold svc \<le> 0 then high_service_flap_threshold (cfg w)
                              else s_high_flap_threshold svc);
            update_history = (update \<and> service_records_state svc);
            w1 = (if update_history then upd_svc s record_service_state w else w);
            pc = curved_percent_change (s_state_history (svc_of w1 s))
                   (s_state_history_index (svc_of w1 s)) STATE_OK;
            w2 = upd_svc s (\<lambda>v. v\<lparr>s_percent_state_change := pc\<rparr>) w1
        in if \<not> enable_flap_detection (cfg w2) then Some w2
           else if \<not> s_flap_detection_enabled (svc_of w2 s) then Some w2
           else if low_threshold < pc \<and> pc < high_threshold then Some w2
           else
             let is_flapping = (if pc \<le> low_threshold then False else high_threshold \<le> pc) in
             if is_flapping \<and> \<not> s_is_flapping (svc_of w2 s)
             then set_service_flap ev s pc high_threshold low_threshold allow w2
             else if \<not> is_flapping \<and> s_is_flapping (svc_of w2 s)
             then clear_service_flap ev s pc high_threshold low_threshold w2
             else Some w2)"

definition host_records_state :: "host \<Rightarrow> bool" where
  "host_records_state hst \<longleftrightarrow>
     (case h_current_state hst of
        HOST_UP \<Rightarrow> h_flap_detection_on_up hst
      | HOST_DOWN \<Rightarrow> h_flap_detection_on_down hst
      | HOST_UNREACHABLE \<Rightarrow> h_flap_detection_on_unreachable hst)"

definition record_host_state :: "int \<Rightarrow> host \<Rightarrow> host" where
  "record_host_state current_time v =
     v\<lparr>h_last_state_history_update := current_time,
       h_state_history := (h_state_history v)[h_state_history_index v := h_current_state v],
       h_state_history_index := next_index (h_state_history_index v)\<rparr>"

definition host_wait_threshold :: "config \<Rightarrow> host \<Rightarrow> int" where
  "host_wait_threshold c hst =
     (if h_total_services hst = 0
      then ulong_of (trunc_to_time (h_notification_interval hst * of_int (interval_length c)))
      else ulong_of (h_total_service_check_interval hst * interval_length c) div ulong_of (h_total_services hst))"

definition check_for_host_flapping ::
    "env \<Rightarrow> host_id \<Rightarrow> bool \<Rightarrow> bool \<Rightarrow> bool \<Rightarrow> engine \<Rightarrow> engine option" where
  "check_for_host_flapping ev h update actual_check allow w =
     (let hst = host_of w h;
          wait_threshold = host_wait_threshold (cfg w) hst;
          update_history =
            (update \<and> host_records_state hst \<and>
             (actual_check \<or>
              \<not> ulong_of (now ev - h_last_state_history_update hst) < wait_threshold));
          low_threshold = (if h_low_flap_threshold hst \<le> 0 then low_host_flap_threshold (cfg w)
                           else h_low_flap_threshold hst);
          high_threshold = (if h_high_flap_threshold hst \<le> 0 then high_host_flap_threshold (cfg w)
                            else h_high_flap_threshold hst);
          w1 = (if update_history then upd_host h (record_host_state (now ev)) w else w);
          pc = curved_percent_change (h_state_history (host_of w1 h))
                 (h_state_history_index (host_of w1 h)) HOST_UP;
          w2 = upd_host h (\<lambda>v. v\<lparr>h_percent_state_change := pc\<rparr>) w1
      in if \<not> enable_flap_detection (cfg w2) then Some w2
         else if \<not> h_flap_detection_enabled (host_of w2 h) then Some w2
         else if low_threshold < pc \<and> pc < high_threshold then Some w2
         else
           let is_flapping = (if pc \<le> low_threshold then False else high_threshold \<le> pc) in
           if is_flapping \<and> \<not> h_is_flapping (host_of w2 h)
           then set_host_flap ev h pc high_threshold low_threshold allow w2
           else if \<not> is_flapping \<and> h_is_flapping (host_of w2 h)
           then clear_host_flap ev h pc high_threshold low_threshold w2
           else Some w2)"

section \<open>Switching detection on and off\<close>

definition handle_service_flap_detection_disabled :: "env \<Rightarrow> svc_id \<Rightarrow> engine \<Rightarrow> engine option" where
  "handle_service_flap_detection_disabled ev s w =
     map_option (emit (Update_status (ServiceTarget s)))
       (if s_is_flapping (svc_of w s)
        then
          let w1 = upd_svc s (\<lambda>v. v\<lparr>s_is_flapping := False\<rparr>) w;
              w2 = remove_service_flapping_comment s w1;
              w3 = emit (Broker_flapping_disabled (ServiceTarget s) (s_percent_state_change (svc_of w2 s))) w2
          in service_flapping_over ev s NOTIFICATION_FLAPPINGDISABLED w3
        else Some w)"

definition handle_host_flap_detection_disabled :: "env \<Rightarrow> host_id \<Rightarrow> engine \<Rightarrow> engine option" where
  "handle_host_flap_detection_disabled ev h w =
     map_option (emit (Update_status (HostTarget h)))
       (if h_is_flapping (host_of w h)
        then
          let w1 = upd_host h (\<lambda>v. v\<lparr>h_is_flapping := False\<rparr>) w;
              w2 = remove_host_flapping_comment h w1;
              w3 = emit (Broker_flapping_disabled (HostTarget h) (h_percent_state_change (host_of w2 h))) w2
          in host_flapping_over ev h NOTIFICATION_FLAPPINGDISABLED w3
        else Some w)"

definition enable_service_flap_detection :: "env \<Rightarrow> svc_id \<Rightarrow> engine \<Rightarrow> engine option" where
  "enable_service_flap_detection ev s w =
     (if s_flap_detection_enabled (svc_of w s) then Some w
      else
        let w1 = upd_svc s (\<lambda>v. v\<lparr>s_modified_attributes := s_modified_attributes v OR MODATTR_FLAP_DETECTION_ENABLED, s_flap_detection_enabled := True\<rparr>) w;
            w2 = emit (Broker_adaptive (ServiceTarget s) CMD_NONE MODATTR_FLAP_DETECTION_ENABLED (s_modified_attributes (svc_of w1 s))) w1
        in map_option (emit (Update_status (ServiceTarget s)))
             (check_for_service_flapping ev s False True w2))"

definition disable_service_flap_detection :: "env \<Rightarrow> svc_id \<Rightarrow> engine \<Rightarrow> engine option" where
  "disable_service_flap_detection ev s w =
     (if \<not> s_flap_detection_enabled (svc_of w s) then Some w
      else
        let w1 = upd_svc s (\<lambda>v. v\<lparr>s_modified_attributes := s_modified_attributes v OR MODATTR_FLAP_DETECTION_ENABLED, s_flap_detection_enabled := False\<rparr>) w;
            w2 = emit (Broker_adaptive (ServiceTarget s) CMD_NONE MODATTR_FLAP_DETECTION_ENABLED (s_modified_attributes (svc_of w1 s))) w1
        in handle_service_flap_detection_disabled ev s w2)"

definition enable_host_flap_detection :: "env \<Rightarrow> host_id \<Rightarrow> engine \<Rightarrow> engine option" where
  "enable_host_flap_detection ev h w =
     (if h_flap_detection_enabled (host_of w h) then Some w
      else
        let w1 = upd_host h (\<lambda>v. v\<lparr>h_modified_attributes := h_modified_attributes v OR MODATTR_FLAP_DETECTION_ENABLED, h_flap_detection_enabled := True\<rparr>) w;
            w2 = emit (Broker_adaptive (HostTarget h) CMD_NONE MODATTR_FLAP_DETECTION_ENABLED (h_modified_attributes (host_of w1 h))) w1
        in map_option (emit (Update_status (HostTarget h)))
             (check_for_host_flapping ev h False False True w2))"

definition disable_host_flap_detection :: "env \<Rightarrow> host_id \<Rightarrow> engine \<Rightarrow> engine option" where
  "disable_host_flap_detection ev h w =
     (if \<not> h_flap_detection_enabled (host_of w h) then Some w
      else
        let w1 = upd_host h (\<lambda>v. v\<lparr>h_modified_attributes := h_modified_attributes v OR MODATTR_FLAP_DETECTION_ENABLED, h_flap_detection_enabled := False\<rparr>) w;
            w2 = emit (Broker_adaptive (HostTarget h) CMD_NONE MODATTR_FLAP_DETECTION_ENABLED (h_modified_attributes (host_of w1 h))) w1
        in handle_host_flap_detection_disabled ev h w2)"

fun for_each :: "('x \<Rightarrow> engine \<Rightarrow> engine option) \<Rightarrow> 'x list \<Rightarrow> engine \<Rightarrow> engine option" where
  "for_each f [] w = Some w"
| "for_each f (x # xs) w = Option.bind (f x w) (for_each f xs)"

definition set_flap_detection :: "bool \<Rightarrow> engine \<Rightarrow> engine" where
  "set_flap_detection b w =
     (let w1 = w\<lparr>modified_host_process_attributes := modified_host_process_attributes w OR MODATTR_FLAP_DETECTION_ENABLED,
                modified_service_process_attributes := modified_service_process_attributes w OR MODATTR_FLAP_DETECTION_ENABLED,
                cfg := (cfg w)\<lparr>enable_flap_detection := b\<rparr>\<rparr>
      in emit Update_program_status
           (emit (Broker_adaptive_program (MODATTR_FLAP_DETECTION_ENABLED, modified_host_process_attributes w1)
              (MODATTR_FLAP_DETECTION_ENABLED, modified_service_process_attributes w1)) w1))"

definition enable_flap_detection_routines :: "env \<Rightarrow> engine \<Rightarrow> engine option" where
  "enable_flap_detection_routines ev w =
     (if enable_flap_detection (cfg w) then Some w
      else
        let w1 = set_flap_detection True w in
        Option.bind (for_each (\<lambda>h. check_for_host_flapping ev h False False True) (host_list w1) w1)
          (\<lambda>w2. for_each (\<lambda>s. check_for_service_flapping ev s False True) (service_list w2) w2))"

definition disable_flap_detection_routines :: "env \<Rightarrow> engine \<Rightarrow> engine option" where
  "disable_flap_detection_routines ev w =
     (if \<not> enable_flap_detection (cfg w) then Some w
      else
        let w1 = set_flap_detection False w in
        Option.bind (for_each (handle_host_flap_detection_disabled ev) (host_list w1) w1)
          (\<lambda>w2. for_each (handle_service_flap_detection_disabled ev) (service_list w2) w2))"

section \<open>The ring is the last states, oldest first\<close>

text \<open>The states in the order they were recorded.\<close>

definition chronology :: "'a list \<Rightarrow> nat \<Rightarrow> 'a list" where
  "chronology state_history index = rotate index state_history"

lemma next_index_mod: "y < 21 \<Longrightarrow> next_index y = (y + 1) mod 21"
  by (cases "y = 20") (auto simp: next_index_def MAX_STATE_HISTORY_ENTRIES_def)

lemma next_index_less [simp]: "next_index y < 21"
  by (auto simp: next_index_def MAX_STATE_HISTORY_ENTRIES_def)

lemma chronology_record:
  assumes "length hist = 21" "i < 21"
  shows "chronology (hist[i := c]) (next_index i) = tl (chronology hist i) @ [c]"
proof (rule nth_equalityI)
  show "length (chronology (hist[i := c]) (next_index i)) = length (tl (chronology hist i) @ [c])"
    using assms by (simp add: chronology_def)
  fix k
  assume "k < length (chronology (hist[i := c]) (next_index i))"
  then have k: "k < 21" using assms by (simp add: chronology_def)
  have chr: "chronology xs j ! x = xs ! ((j + x) mod 21)" if "length xs = 21" "x < 21" for xs :: "'a list" and j x
    using that by (simp add: chronology_def nth_rotate)
  have "(next_index i + k) mod 21 = (i + 1 + k) mod 21"
    using assms(2) by (simp add: next_index_mod mod_add_left_eq)
  then have left: "chronology (hist[i := c]) (next_index i) ! k = hist[i := c] ! ((i + 1 + k) mod 21)"
    using assms(1) k chr [of "hist[i := c]" k "next_index i"] by simp
  have len: "length (tl (chronology hist i)) = 20" using assms by (simp add: chronology_def)
  show "chronology (hist[i := c]) (next_index i) ! k = (tl (chronology hist i) @ [c]) ! k"
  proof (cases "k = 20")
    case True
    then have "(i + 1 + k) mod 21 = i" using assms(2) by simp
    with left True assms len show ?thesis by (simp add: nth_append)
  next
    case False
    with k have k20: "k < 20" by simp
    have ne: "(i + 1 + k) mod 21 \<noteq> i"
    proof (cases "i + 1 + k < 21")
      case False
      then have "(i + 1 + k) mod 21 = i + 1 + k - 21" using assms(2) k20 by (simp add: mod_if)
      with False k20 show ?thesis by simp
    qed simp
    have "(tl (chronology hist i) @ [c]) ! k = chronology hist i ! (k + 1)"
      using k20 len by (simp add: nth_append nth_tl)
    also have "\<dots> = hist ! ((i + (k + 1)) mod 21)" using chr [of hist "k + 1" i] assms(1) k20 by simp
    also have "i + (k + 1) = i + 1 + k" by simp
    finally show ?thesis using left ne by simp
  qed
qed

definition weighted_changes :: "'a list \<Rightarrow> rat" where
  "weighted_changes states =
     (\<Sum>x\<in>{1..<length states}. if states ! x \<noteq> states ! (x - 1) then curve_weight x else 0)"

lemma fold_curve_step:
  assumes "length hist = 21" "i < 21" "0 < k" "k \<le> 21"
  shows "fold (curve_step hist) [0..<k] (i, a, 0) =
    ((i + k) mod 21, chronology hist i ! (k - 1),
     \<Sum>x\<in>{1..<k}. if chronology hist i ! x \<noteq> chronology hist i ! (x - 1) then curve_weight x else 0)"
  using assms(3,4)
proof (induction k)
  case (Suc k)
  have chr: "chronology hist i ! x = hist ! ((i + x) mod 21)" if "x < 21" for x
    using assms that by (simp add: chronology_def nth_rotate)
  have nxt: "next_index ((i + k) mod 21) = (i + Suc k) mod 21"
    by (simp add: next_index_mod mod_simps)
  show ?case
  proof (cases "k = 0")
    case True
    then show ?thesis
      using assms chr [of 0] nxt by (simp add: curve_step_def)
  next
    case False
    have ih: "fold (curve_step hist) [0..<k] (i, a, 0) = ((i + k) mod 21, chronology hist i ! (k - 1),
        \<Sum>x\<in>{1..<k}. if chronology hist i ! x \<noteq> chronology hist i ! (x - 1) then curve_weight x else 0)"
      using Suc False by simp
    have "fold (curve_step hist) [0..<Suc k] (i, a, 0) =
        curve_step hist k (fold (curve_step hist) [0..<k] (i, a, 0))" by simp
    also have "\<dots> = ((i + Suc k) mod 21, chronology hist i ! k,
        (\<Sum>x\<in>{1..<k}. if chronology hist i ! x \<noteq> chronology hist i ! (x - 1) then curve_weight x else 0) +
        (if chronology hist i ! k \<noteq> chronology hist i ! (k - 1) then curve_weight k else 0))"
      unfolding ih using Suc.prems False nxt chr [of k] by (simp add: curve_step_def)
    finally show ?thesis
      using False by simp
  qed
qed simp

lemma curved_changes_eq:
  assumes "length hist = 21" "i < 21"
  shows "curved_changes hist i a = weighted_changes (chronology hist i)"
  using fold_curve_step [OF assms, of 21 a] assms(1)
  by (simp add: curved_changes_def weighted_changes_def MAX_STATE_HISTORY_ENTRIES_def chronology_def)

lemma curve_weight_bounds:
  assumes "1 \<le> x" "x < 21"
  shows "3 / 4 \<le> curve_weight x" "curve_weight x \<le> 5 / 4"
proof -
  have "0 \<le> (of_nat (x - 1) :: rat)" "(of_nat (x - 1) :: rat) \<le> 19"
    using assms by simp_all
  then show "3 / 4 \<le> curve_weight x" "curve_weight x \<le> 5 / 4"
    by (simp_all add: curve_weight_def low_curve_value_def high_curve_value_def
        MAX_STATE_HISTORY_ENTRIES_def)
qed

lemma sum_curve_weight: "(\<Sum>x\<in>{1..<21}. curve_weight x) = 20"
proof -
  have "(\<Sum>x\<in>{1..<21}. curve_weight x) = sum_list (map curve_weight [1..<21])"
    by (simp add: interv_sum_list_conv_sum_set_nat)
  also have "\<dots> = 20"
    by (simp add: upt_rec curve_weight_def low_curve_value_def high_curve_value_def
        MAX_STATE_HISTORY_ENTRIES_def)
  finally show ?thesis .
qed

lemma curved_percent_change_eq:
  assumes "length hist = 21" "i < 21"
  shows "curved_percent_change hist i a = 5 * weighted_changes (chronology hist i)"
  using curved_changes_eq [OF assms, of a]
  by (simp add: curved_percent_change_def MAX_STATE_HISTORY_ENTRIES_def)

lemma rotate1_replicate: "rotate1 (replicate n a) = replicate n a"
  by (cases n) (simp_all add: replicate_append_same)

lemma chronology_replicate [simp]: "chronology (replicate n a) i = replicate n a"
  unfolding chronology_def by (induction i) (auto simp: rotate1_replicate)

lemma weighted_changes_bounds:
  assumes "length states = 21"
  shows "0 \<le> weighted_changes states" "weighted_changes states \<le> 20"
    "weighted_changes states = 0 \<longleftrightarrow> (\<forall>x\<in>{1..<21}. states ! x = states ! (x - 1))"
proof -
  let ?t = "\<lambda>x. if states ! x \<noteq> states ! (x - 1) then curve_weight x else 0"
  have nonneg: "0 \<le> ?t x" if "x \<in> {1..<21}" for x
    using curve_weight_bounds(1) [of x] that by auto
  show "0 \<le> weighted_changes states"
    unfolding weighted_changes_def assms by (rule sum_nonneg) (rule nonneg)
  have "weighted_changes states \<le> (\<Sum>x\<in>{1..<21}. curve_weight x)"
    unfolding weighted_changes_def assms
    by (rule sum_mono) (use curve_weight_bounds(1) in fastforce)
  also have "\<dots> = 20" by (rule sum_curve_weight)
  finally show "weighted_changes states \<le> 20" .
  have "weighted_changes states = 0 \<longleftrightarrow> (\<forall>x\<in>{1..<21}. ?t x = 0)"
    unfolding weighted_changes_def assms
  proof (rule sum_nonneg_eq_0_iff)
    show "\<And>x. x \<in> {1..<21} \<Longrightarrow> 0 \<le> ?t x" by (rule nonneg)
  qed simp
  moreover have "?t x = 0 \<longleftrightarrow> states ! x = states ! (x - 1)" if "x \<in> {1..<21}" for x
    using curve_weight_bounds(1) [of x] that by auto
  ultimately show "weighted_changes states = 0 \<longleftrightarrow> (\<forall>x\<in>{1..<21}. states ! x = states ! (x - 1))"
    by simp
qed

section \<open>What the handlers change\<close>

lemma svc_core_eqD:
  assumes "notif_frame w w'"
  shows "s_is_flapping (svc_of w' s) = s_is_flapping (svc_of w s)"
    "s_flapping_comment_id (svc_of w' s) = s_flapping_comment_id (svc_of w s)"
    "s_percent_state_change (svc_of w' s) = s_percent_state_change (svc_of w s)"
    "s_current_state (svc_of w' s) = s_current_state (svc_of w s)"
proof -
  have "(\<lambda>x. svc_core (svc_of w' x)) s = (\<lambda>x. svc_core (svc_of w x)) s"
    using assms unfolding notif_frame_def by metis
  then have eq: "svc_core (svc_of w' s) = svc_core (svc_of w s)" .
  show "s_is_flapping (svc_of w' s) = s_is_flapping (svc_of w s)"
    using arg_cong [OF eq, of s_is_flapping] by (simp add: svc_core_def)
  show "s_flapping_comment_id (svc_of w' s) = s_flapping_comment_id (svc_of w s)"
    using arg_cong [OF eq, of s_flapping_comment_id] by (simp add: svc_core_def)
  show "s_percent_state_change (svc_of w' s) = s_percent_state_change (svc_of w s)"
    using arg_cong [OF eq, of s_percent_state_change] by (simp add: svc_core_def)
  show "s_current_state (svc_of w' s) = s_current_state (svc_of w s)"
    using arg_cong [OF eq, of s_current_state] by (simp add: svc_core_def)
qed

lemma host_core_eqD:
  assumes "notif_frame w w'"
  shows "h_is_flapping (host_of w' h) = h_is_flapping (host_of w h)"
    "h_flapping_comment_id (host_of w' h) = h_flapping_comment_id (host_of w h)"
    "h_percent_state_change (host_of w' h) = h_percent_state_change (host_of w h)"
proof -
  have "(\<lambda>x. host_core (host_of w' x)) h = (\<lambda>x. host_core (host_of w x)) h"
    using assms unfolding notif_frame_def by metis
  then have eq: "host_core (host_of w' h) = host_core (host_of w h)" .
  show "h_is_flapping (host_of w' h) = h_is_flapping (host_of w h)"
    using arg_cong [OF eq, of h_is_flapping] by (simp add: host_core_def)
  show "h_flapping_comment_id (host_of w' h) = h_flapping_comment_id (host_of w h)"
    using arg_cong [OF eq, of h_flapping_comment_id] by (simp add: host_core_def)
  show "h_percent_state_change (host_of w' h) = h_percent_state_change (host_of w h)"
    using arg_cong [OF eq, of h_percent_state_change] by (simp add: host_core_def)
qed

lemma notif_frame_comments:
  assumes "notif_frame w w'"
  shows "comments_ok w' = comments_ok w" "comment_ids ty w' = comment_ids ty w"
  using assms by (simp_all add: notif_frame_def comments_ok_def comment_ids_def)

lemma add_new_service_comment_objects:
  assumes "add_new_service_comment entry h d et a t persistent source xp expt w = (i, w')"
  shows "svc_of w' = svc_of w" "host_of w' = host_of w" "cfg w' = cfg w"
  using assms
  by (auto simp: add_new_service_comment_def xcddefault_add_new_service_comment_def
      add_comment_def add_comment_to_hashlist_def emit_def Let_def split: option.splits)

lemma delete_comment_objects [simp]:
  "svc_of (snd (delete_comment ty i w)) = svc_of w" "host_of (snd (delete_comment ty i w)) = host_of w"
  "cfg (snd (delete_comment ty i w)) = cfg w" "host_list (snd (delete_comment ty i w)) = host_list w"
  "service_list (snd (delete_comment ty i w)) = service_list w"
  by (simp_all add: delete_comment_def Let_def emit_def split: option.split)

text \<open>
  The end of flapping, whatever its reason: the service is left with no flapping comment,
  everything else about flapping and comments as before.
\<close>

lemma service_flapping_over_frame:
  assumes "service_flapping_over ev s ty w = Some w'"
  shows "s_is_flapping (svc_of w' x) = s_is_flapping (svc_of w x)"
    "s_flapping_comment_id (svc_of w' x) = s_flapping_comment_id (svc_of w x)"
    "s_percent_state_change (svc_of w' x) = s_percent_state_change (svc_of w x)"
    "h_is_flapping (host_of w' y) = h_is_flapping (host_of w y)"
    "comments_ok w' = comments_ok w" "comment_ids t w' = comment_ids t w"
    "cfg w' = cfg w" "host_list w' = host_list w" "service_list w' = service_list w"
proof -
  obtain r1 w1 w2 where w1: "service_notification ev s ty None None NOTIFICATION_OPTION_NONE w = Some (r1, w1)"
    and w2: "(if s_check_flapping_recovery_notification (svc_of w1 s) \<and> s_current_state (svc_of w1 s) = STATE_OK
        then map_option snd (service_notification ev s NOTIFICATION_NORMAL None None
               NOTIFICATION_OPTION_NONE w1)
        else Some w1) = Some w2"
    and w': "w' = upd_svc s (\<lambda>v. v\<lparr>s_check_flapping_recovery_notification := False\<rparr>) w2"
    using assms by (auto simp: service_flapping_over_def split: bind_splits)
  have "notif_frame w1 w2"
    using w2 by (auto split: if_splits intro: service_notification_frame)
  with service_notification_frame [OF w1] have f: "notif_frame w w2" by (rule notif_frame_trans)
  show "s_is_flapping (svc_of w' x) = s_is_flapping (svc_of w x)"
    "s_flapping_comment_id (svc_of w' x) = s_flapping_comment_id (svc_of w x)"
    "s_percent_state_change (svc_of w' x) = s_percent_state_change (svc_of w x)"
    "h_is_flapping (host_of w' y) = h_is_flapping (host_of w y)"
    using svc_core_eqD [OF f] host_core_eqD [OF f] by (simp_all add: w' upd_svc_def)
  show "comments_ok w' = comments_ok w" "comment_ids t w' = comment_ids t w"
    using notif_frame_comments [OF f] by (simp_all add: w' upd_svc_def comments_ok_def comment_ids_def)
  show "cfg w' = cfg w" "host_list w' = host_list w" "service_list w' = service_list w"
    using f by (simp_all add: w' upd_svc_def notif_frame_def)
qed

lemma host_flapping_over_frame:
  assumes "host_flapping_over ev h ty w = Some w'"
  shows "h_is_flapping (host_of w' x) = h_is_flapping (host_of w x)"
    "h_flapping_comment_id (host_of w' x) = h_flapping_comment_id (host_of w x)"
    "s_is_flapping (svc_of w' y) = s_is_flapping (svc_of w y)"
    "comments_ok w' = comments_ok w" "comment_ids t w' = comment_ids t w"
    "cfg w' = cfg w" "host_list w' = host_list w" "service_list w' = service_list w"
proof -
  obtain r1 w1 w2 where w1: "host_notification ev h ty None None NOTIFICATION_OPTION_NONE w = Some (r1, w1)"
    and w2: "(if h_check_flapping_recovery_notification (host_of w1 h) \<and> h_current_state (host_of w1 h) = HOST_UP
        then map_option snd (host_notification ev h NOTIFICATION_NORMAL None None
               NOTIFICATION_OPTION_NONE w1)
        else Some w1) = Some w2"
    and w': "w' = upd_host h (\<lambda>v. v\<lparr>h_check_flapping_recovery_notification := False\<rparr>) w2"
    using assms by (auto simp: host_flapping_over_def split: bind_splits)
  have "notif_frame w1 w2"
    using w2 by (auto split: if_splits intro: host_notification_frame)
  with host_notification_frame [OF w1] have f: "notif_frame w w2" by (rule notif_frame_trans)
  show "h_is_flapping (host_of w' x) = h_is_flapping (host_of w x)"
    "h_flapping_comment_id (host_of w' x) = h_flapping_comment_id (host_of w x)"
    "s_is_flapping (svc_of w' y) = s_is_flapping (svc_of w y)"
    using svc_core_eqD [OF f] host_core_eqD [OF f] by (simp_all add: w' upd_host_def)
  show "comments_ok w' = comments_ok w" "comment_ids t w' = comment_ids t w"
    using notif_frame_comments [OF f] by (simp_all add: w' upd_host_def comments_ok_def comment_ids_def)
  show "cfg w' = cfg w" "host_list w' = host_list w" "service_list w' = service_list w"
    using f by (simp_all add: w' upd_host_def notif_frame_def)
qed

lemma remove_service_flapping_comment_effect:
  "svc_of (remove_service_flapping_comment s w) =
     (svc_of w)(s := (svc_of w s)\<lparr>s_flapping_comment_id := 0\<rparr>)"
  "host_of (remove_service_flapping_comment s w) = host_of w"
  "cfg (remove_service_flapping_comment s w) = cfg w"
  "host_list (remove_service_flapping_comment s w) = host_list w"
  "service_list (remove_service_flapping_comment s w) = service_list w"
  by (simp_all add: remove_service_flapping_comment_def upd_svc_def Let_def)

lemma remove_host_flapping_comment_effect:
  "host_of (remove_host_flapping_comment h w) =
     (host_of w)(h := (host_of w h)\<lparr>h_flapping_comment_id := 0\<rparr>)"
  "svc_of (remove_host_flapping_comment h w) = svc_of w"
  "cfg (remove_host_flapping_comment h w) = cfg w"
  "host_list (remove_host_flapping_comment h w) = host_list w"
  "service_list (remove_host_flapping_comment h w) = service_list w"
  by (simp_all add: remove_host_flapping_comment_def upd_host_def Let_def)

lemma comments_upd [simp]:
  "comments_ok (upd_svc s f w) = comments_ok w" "comments_ok (upd_host h g w) = comments_ok w"
  "comment_ids t (upd_svc s f w) = comment_ids t w" "comment_ids t (upd_host h g w) = comment_ids t w"
  "comment_ids t (emit a w) = comment_ids t w"
  by (simp_all add: upd_svc_def upd_host_def comments_ok_def comment_ids_def)

lemma remove_service_flapping_comment_ids:
  assumes "comments_ok w"
  shows "comments_ok (remove_service_flapping_comment s w)"
    "comment_ids SERVICE_COMMENT (remove_service_flapping_comment s w) =
       (if s_flapping_comment_id (svc_of w s) = 0 then comment_ids SERVICE_COMMENT w
        else comment_ids SERVICE_COMMENT w - {s_flapping_comment_id (svc_of w s)})"
  using svc_comments.del_ok [OF assms] assms
  by (simp_all add: remove_service_flapping_comment_def Let_def)

lemma handle_service_disabled_effect:
  assumes "handle_service_flap_detection_disabled ev s w = Some w'"
  shows "\<not> s_is_flapping (svc_of w' s)"
    "s_is_flapping (svc_of w' x) \<Longrightarrow> s_is_flapping (svc_of w x)"
    "h_is_flapping (host_of w' y) = h_is_flapping (host_of w y)"
    "cfg w' = cfg w" "host_list w' = host_list w" "service_list w' = service_list w"
proof -
  let ?w1 = "upd_svc s (\<lambda>v. v\<lparr>s_is_flapping := False\<rparr>) w"
  let ?w2 = "remove_service_flapping_comment s ?w1"
  let ?w3 = "emit (Broker_flapping_disabled (ServiceTarget s) (s_percent_state_change (svc_of ?w2 s))) ?w2"
  have "\<not> s_is_flapping (svc_of w' s) \<and> (s_is_flapping (svc_of w' x) \<longrightarrow> s_is_flapping (svc_of w x)) \<and>
    h_is_flapping (host_of w' y) = h_is_flapping (host_of w y) \<and> cfg w' = cfg w \<and>
    host_list w' = host_list w \<and> service_list w' = service_list w"
  proof (cases "s_is_flapping (svc_of w s)")
    case False
    with assms show ?thesis by (auto simp: handle_service_flap_detection_disabled_def emit_def)
  next
    case True
    with assms obtain w4 where w4: "service_flapping_over ev s NOTIFICATION_FLAPPINGDISABLED ?w3 = Some w4"
      and w': "w' = emit (Update_status (ServiceTarget s)) w4"
      by (auto simp: handle_service_flap_detection_disabled_def Let_def)
    show ?thesis
      using service_flapping_over_frame [OF w4]
      by (simp add: w' emit_def remove_service_flapping_comment_effect upd_svc_def)
  qed
  then show "\<not> s_is_flapping (svc_of w' s)"
    "s_is_flapping (svc_of w' x) \<Longrightarrow> s_is_flapping (svc_of w x)"
    "h_is_flapping (host_of w' y) = h_is_flapping (host_of w y)"
    "cfg w' = cfg w" "host_list w' = host_list w" "service_list w' = service_list w"
    by blast+
qed

lemma handle_host_disabled_effect:
  assumes "handle_host_flap_detection_disabled ev h w = Some w'"
  shows "\<not> h_is_flapping (host_of w' h)"
    "h_is_flapping (host_of w' x) \<Longrightarrow> h_is_flapping (host_of w x)"
    "s_is_flapping (svc_of w' y) = s_is_flapping (svc_of w y)"
    "cfg w' = cfg w" "host_list w' = host_list w" "service_list w' = service_list w"
proof -
  let ?w1 = "upd_host h (\<lambda>v. v\<lparr>h_is_flapping := False\<rparr>) w"
  let ?w2 = "remove_host_flapping_comment h ?w1"
  let ?w3 = "emit (Broker_flapping_disabled (HostTarget h) (h_percent_state_change (host_of ?w2 h))) ?w2"
  have "\<not> h_is_flapping (host_of w' h) \<and> (h_is_flapping (host_of w' x) \<longrightarrow> h_is_flapping (host_of w x)) \<and>
    s_is_flapping (svc_of w' y) = s_is_flapping (svc_of w y) \<and> cfg w' = cfg w \<and>
    host_list w' = host_list w \<and> service_list w' = service_list w"
  proof (cases "h_is_flapping (host_of w h)")
    case False
    with assms show ?thesis by (auto simp: handle_host_flap_detection_disabled_def emit_def)
  next
    case True
    with assms obtain w4 where w4: "host_flapping_over ev h NOTIFICATION_FLAPPINGDISABLED ?w3 = Some w4"
      and w': "w' = emit (Update_status (HostTarget h)) w4"
      by (auto simp: handle_host_flap_detection_disabled_def Let_def)
    show ?thesis
      using host_flapping_over_frame [OF w4]
      by (simp add: w' emit_def remove_host_flapping_comment_effect upd_host_def)
  qed
  then show "\<not> h_is_flapping (host_of w' h)"
    "h_is_flapping (host_of w' x) \<Longrightarrow> h_is_flapping (host_of w x)"
    "s_is_flapping (svc_of w' y) = s_is_flapping (svc_of w y)"
    "cfg w' = cfg w" "host_list w' = host_list w" "service_list w' = service_list w"
    by blast+
qed

lemma for_each_invariant:
  assumes "for_each f xs w = Some w'" "I w"
    "\<And>x w w'. f x w = Some w' \<Longrightarrow> I w \<Longrightarrow> I w'"
  shows "I w'"
  using assms(1,2) by (induction xs arbitrary: w) (auto intro: assms(3) split: bind_splits)

lemma for_each_establishes:
  assumes "for_each f xs w = Some w'"
    "\<And>x w w'. f x w = Some w' \<Longrightarrow> P x w'" "\<And>x y w w'. f y w = Some w' \<Longrightarrow> P x w \<Longrightarrow> P x w'"
  shows "\<forall>x\<in>set xs. P x w'"
  using assms(1)
proof (induction xs arbitrary: w)
  case (Cons x xs)
  then obtain w1 where w1: "f x w = Some w1" "for_each f xs w1 = Some w'"
    by (auto split: bind_splits)
  have "P x w'"
    using for_each_invariant [of f xs w1 w' "P x", OF w1(2) assms(2) [OF w1(1)]] assms(3) by blast
  with Cons.IH [OF w1(2)] show ?case by simp
qed simp

lemma set_service_flap_effect:
  assumes "set_service_flap ev s pc high low allow w = Some w'"
  shows "s_is_flapping (svc_of w' s)"
    "s_percent_state_change (svc_of w' s) = s_percent_state_change (svc_of w s)"
    "comments_ok w \<Longrightarrow> comments_ok w' \<and> s_flapping_comment_id (svc_of w' s) \<notin> comment_ids SERVICE_COMMENT w \<and>
       comment_ids SERVICE_COMMENT w' =
         insert (s_flapping_comment_id (svc_of w' s)) (comment_ids SERVICE_COMMENT w) \<and>
       next_comment_id w \<le> s_flapping_comment_id (svc_of w' s)"
proof -
  obtain i w1 where add: "add_new_service_comment FLAPPING_COMMENT (Some (fst s)) (Some (snd s)) (now ev)
      (Some ''(Centreon Engine Process)'') (Some (flapping_text ev (ServiceTarget s) pc high))
      False 0 False 0 w = (i, w1)" by (rule prod.exhaust)
  note svc = add_new_service_comment_objects(1) [OF add]
  define w4 where "w4 = upd_svc s (\<lambda>v. v\<lparr>s_check_flapping_recovery_notification :=
       (s_current_state v \<noteq> STATE_OK \<and> s_current_notification_number v > 0)\<rparr>)
     (emit (Broker_flapping_start (ServiceTarget s) pc high low)
       (upd_svc s (\<lambda>v. v\<lparr>s_flapping_comment_id := i, s_is_flapping := True\<rparr>) w1))"
  have "(if allow then map_option snd (service_notification ev s NOTIFICATION_FLAPPINGSTART None None
      NOTIFICATION_OPTION_NONE w4) else Some w4) = Some w'"
    using assms add unfolding set_service_flap_def w4_def by (simp add: Let_def)
  then have f: "notif_frame w4 w'"
    by (auto split: if_splits intro: service_notification_frame)
  have v4: "s_is_flapping (svc_of w4 s)" "s_flapping_comment_id (svc_of w4 s) = i"
    "s_percent_state_change (svc_of w4 s) = s_percent_state_change (svc_of w s)"
    "comments_ok w4 = comments_ok w1" "comment_ids t w4 = comment_ids t w1" for t
    by (simp_all add: w4_def emit_def upd_svc_def svc comments_ok_def comment_ids_def)
  show "s_is_flapping (svc_of w' s)"
    "s_percent_state_change (svc_of w' s) = s_percent_state_change (svc_of w s)"
    using svc_core_eqD [OF f] v4 by simp_all
  assume "comments_ok w"
  note added = add_new_service_comment_added [OF this add]
  from comment_added_ids [OF added] added svc_core_eqD(2) [OF f] v4 notif_frame_comments [OF f]
  show "comments_ok w' \<and> s_flapping_comment_id (svc_of w' s) \<notin> comment_ids SERVICE_COMMENT w \<and>
       comment_ids SERVICE_COMMENT w' =
         insert (s_flapping_comment_id (svc_of w' s)) (comment_ids SERVICE_COMMENT w) \<and>
       next_comment_id w \<le> s_flapping_comment_id (svc_of w' s)"
    by (simp add: comment_added_def)
qed

lemma clear_service_flap_effect:
  assumes "clear_service_flap ev s pc high low w = Some w'"
  shows "\<not> s_is_flapping (svc_of w' s)" "s_flapping_comment_id (svc_of w' s) = 0"
    "s_percent_state_change (svc_of w' s) = s_percent_state_change (svc_of w s)"
    "comments_ok w \<Longrightarrow> comments_ok w' \<and> comment_ids SERVICE_COMMENT w' =
       (if s_flapping_comment_id (svc_of w s) = 0 then comment_ids SERVICE_COMMENT w
        else comment_ids SERVICE_COMMENT w - {s_flapping_comment_id (svc_of w s)})"
proof -
  define w3 where "w3 = emit (Broker_flapping_stop (ServiceTarget s) pc high low)
     (upd_svc s (\<lambda>v. v\<lparr>s_is_flapping := False\<rparr>) (remove_service_flapping_comment s w))"
  have over: "service_flapping_over ev s NOTIFICATION_FLAPPINGSTOP w3 = Some w'"
    using assms by (simp add: clear_service_flap_def w3_def Let_def)
  note f = service_flapping_over_frame [OF over]
  have v3: "\<not> s_is_flapping (svc_of w3 s)" "s_flapping_comment_id (svc_of w3 s) = 0"
    "s_percent_state_change (svc_of w3 s) = s_percent_state_change (svc_of w s)"
    "comments_ok w3 = comments_ok (remove_service_flapping_comment s w)"
    "comment_ids t w3 = comment_ids t (remove_service_flapping_comment s w)" for t
    by (simp_all add: w3_def emit_def upd_svc_def remove_service_flapping_comment_effect
        comments_ok_def comment_ids_def)
  show "\<not> s_is_flapping (svc_of w' s)" "s_flapping_comment_id (svc_of w' s) = 0"
    "s_percent_state_change (svc_of w' s) = s_percent_state_change (svc_of w s)"
    using f(1-3) v3 by simp_all
  assume "comments_ok w"
  from remove_service_flapping_comment_ids [OF this, of s] v3 f(5,6)
  show "comments_ok w' \<and> comment_ids SERVICE_COMMENT w' =
       (if s_flapping_comment_id (svc_of w s) = 0 then comment_ids SERVICE_COMMENT w
        else comment_ids SERVICE_COMMENT w - {s_flapping_comment_id (svc_of w s)})"
    by simp
qed

definition flap_decision :: "rat \<Rightarrow> rat \<Rightarrow> rat \<Rightarrow> bool \<Rightarrow> bool" where
  "flap_decision low high pc old =
     (if low < pc \<and> pc < high then old else low < pc)"

section \<open>Properties\<close>

text \<open>The percentage of state changes: on a full ring the loop over the wrapped index
  computes five times the weighted number of changes between neighbours of the last 21
  states in the order they were recorded, a change weighing from 0.75 (oldest) to 1.25
  (newest); it lies between 0 and 100 and is 0 exactly if no two neighbours differ.\<close>

theorem flapping_percent_weighted:
  assumes "length hist = 21" "i < 21"
  shows "curved_percent_change hist i a = 5 * weighted_changes (chronology hist i) \<and>
    0 \<le> curved_percent_change hist i a \<and> curved_percent_change hist i a \<le> 100 \<and>
    (curved_percent_change hist i a = 0 \<longleftrightarrow>
       (\<forall>x\<in>{1..<21}. chronology hist i ! x = chronology hist i ! (x - 1)))"
  using curved_percent_change_eq [OF assms, of a] weighted_changes_bounds [of "chronology hist i"] assms
  by (simp add: chronology_def)

theorem flapping_percent_weighted_witness:
  "curved_percent_change (replicate 21 STATE_OK) 7 STATE_CRITICAL = 0"
  using flapping_percent_weighted [of "replicate 21 STATE_OK" 7 STATE_CRITICAL]
  by auto

text \<open>Recording a state: the oldest of the 21 states is dropped, the others keep
  their order and the current state becomes the newest; ring and index stay well formed.\<close>

theorem record_state_drops_oldest:
  assumes "length (s_state_history v) = 21" "s_state_history_index v < 21"
  shows "chronology (s_state_history (record_service_state v)) (s_state_history_index (record_service_state v)) =
      tl (chronology (s_state_history v) (s_state_history_index v)) @ [s_current_state v] \<and>
    length (s_state_history (record_service_state v)) = 21 \<and>
    s_state_history_index (record_service_state v) < 21"
  using chronology_record [OF assms, of "s_current_state v"] assms(1)
  by (simp add: record_service_state_def)

theorem record_state_drops_oldest_witness:
  "last (chronology (s_state_history (record_service_state ex_service))
     (s_state_history_index (record_service_state ex_service))) = STATE_CRITICAL"
  using record_state_drops_oldest [of ex_service] by (simp add: ex_service_def)

text \<open>C24. Flapping has hysteresis: after a check (of a hard state or of an OK state) the
  service is flapping exactly if detection is on and the percentage is above the low
  threshold and either not below the high one or the service was already flapping; with
  detection off for the program or the service the indicator is not touched. The
  percentage is that of the ring after recording.\<close>

theorem service_flapping_hysteresis:
  assumes "check_for_service_flapping ev s update allow w = Some w'"
    "s_state_type (svc_of w s) = HARD_STATE \<or> s_current_state (svc_of w s) = STATE_OK"
  shows "let svc = svc_of w s;
      low = (if s_low_flap_threshold svc \<le> 0 then low_service_flap_threshold (cfg w) else s_low_flap_threshold svc);
      high = (if s_high_flap_threshold svc \<le> 0 then high_service_flap_threshold (cfg w) else s_high_flap_threshold svc);
      recorded = (if update \<and> service_records_state svc then record_service_state svc else svc);
      pc = curved_percent_change (s_state_history recorded) (s_state_history_index recorded) STATE_OK
    in s_percent_state_change (svc_of w' s) = pc \<and>
       s_is_flapping (svc_of w' s) =
         (if enable_flap_detection (cfg w) \<and> s_flap_detection_enabled svc
          then flap_decision low high pc (s_is_flapping svc) else s_is_flapping svc)"
proof -
  let ?svc = "svc_of w s"
  define low where "low = (if s_low_flap_threshold ?svc \<le> 0 then low_service_flap_threshold (cfg w)
     else s_low_flap_threshold ?svc)"
  define high where "high = (if s_high_flap_threshold ?svc \<le> 0 then high_service_flap_threshold (cfg w)
     else s_high_flap_threshold ?svc)"
  define upd where "upd \<longleftrightarrow> update \<and> service_records_state ?svc"
  define recorded where "recorded = (if upd then record_service_state ?svc else ?svc)"
  define pc where "pc = curved_percent_change (s_state_history recorded) (s_state_history_index recorded) STATE_OK"
  define w2 where "w2 = upd_svc s (\<lambda>v. v\<lparr>s_percent_state_change := pc\<rparr>)
     (if upd then upd_svc s record_service_state w else w)"
  have v2: "s_is_flapping (svc_of w2 s) = s_is_flapping ?svc"
    "s_flap_detection_enabled (svc_of w2 s) = s_flap_detection_enabled ?svc"
    "s_percent_state_change (svc_of w2 s) = pc" "cfg w2 = cfg w"
    by (simp_all add: w2_def upd_svc_def record_service_state_def)
  have rec: "svc_of (if upd then upd_svc s record_service_state w else w) s = recorded"
    by (simp add: recorded_def upd_svc_def)
  have "check_for_service_flapping ev s update allow w =
      (if \<not> enable_flap_detection (cfg w) then Some w2
       else if \<not> s_flap_detection_enabled ?svc then Some w2
       else if low < pc \<and> pc < high then Some w2
       else if \<not> pc \<le> low \<and> high \<le> pc \<and> \<not> s_is_flapping ?svc then set_service_flap ev s pc high low allow w2
       else if \<not> (\<not> pc \<le> low \<and> high \<le> pc) \<and> s_is_flapping ?svc then clear_service_flap ev s pc high low w2
       else Some w2)"
    using assms(2)
    unfolding check_for_service_flapping_def Let_def low_def [symmetric] high_def [symmetric]
      upd_def [symmetric] rec pc_def [symmetric] w2_def [symmetric] v2
    by auto
  then have "s_percent_state_change (svc_of w' s) = pc \<and>
       s_is_flapping (svc_of w' s) =
         (if enable_flap_detection (cfg w) \<and> s_flap_detection_enabled ?svc
          then flap_decision low high pc (s_is_flapping ?svc) else s_is_flapping ?svc)"
    using assms(1) v2 set_service_flap_effect(1,2) [of ev s pc high low allow w2 w']
      clear_service_flap_effect(1,3) [of ev s pc high low w2 w']
    by (auto simp: flap_decision_def split: if_splits)
  then show ?thesis
    unfolding Let_def low_def [symmetric] high_def [symmetric] upd_def [symmetric]
      recorded_def [symmetric] pc_def [symmetric] .
qed

definition ex_flat :: service where
  "ex_flat = ex_service\<lparr>s_current_state := STATE_OK\<rparr>"

theorem service_flapping_hysteresis_witness:
  "\<exists>w'. check_for_service_flapping ex_env (''h'', ''s'') False True (ex_engine\<lparr>svc_of := (\<lambda>_. ex_flat)\<rparr>) = Some w' \<and>
     s_percent_state_change (svc_of w' (''h'', ''s'')) = 0 \<and> \<not> s_is_flapping (svc_of w' (''h'', ''s''))"
proof -
  let ?w = "ex_engine\<lparr>svc_of := (\<lambda>_. ex_flat)\<rparr>"
  have zero: "curved_percent_change (replicate 21 STATE_OK) 0 STATE_OK = 0"
    using curved_percent_change_eq [of "replicate 21 STATE_OK" 0 STATE_OK]
      weighted_changes_bounds(3) [of "replicate 21 STATE_OK"]
    by auto
  have v: "s_state_history ex_flat = replicate 21 STATE_OK" "s_state_history_index ex_flat = 0"
    "s_low_flap_threshold ex_flat = 0" "s_high_flap_threshold ex_flat = 0" "\<not> s_is_flapping ex_flat"
    "s_current_state ex_flat = STATE_OK" "s_flap_detection_enabled ex_flat"
    by (simp_all add: ex_flat_def ex_service_def)
  obtain w' where w': "check_for_service_flapping ex_env (''h'', ''s'') False True ?w = Some w'"
    by (simp add: check_for_service_flapping_def Let_def v zero upd_svc_def ex_cfg_def)
  from service_flapping_hysteresis [OF this] v zero w' show ?thesis
    by (simp add: flap_decision_def ex_cfg_def Let_def)
qed

text \<open>The comment of a flapping service: when flapping starts one service comment
  with a fresh identifier is added, and when it stops exactly that comment is deleted, so
  the comments are those from before; the identifier kept in the service is cleared.\<close>

theorem flapping_comment_added_then_deleted:
  assumes "comments_ok w" "0 < next_comment_id w"
    "set_service_flap ev s pc high low allow w = Some w1"
    "clear_service_flap ev' s pc' high' low' w1 = Some w2"
  shows "comment_ids SERVICE_COMMENT w1 = insert (s_flapping_comment_id (svc_of w1 s)) (comment_ids SERVICE_COMMENT w) \<and>
    s_flapping_comment_id (svc_of w1 s) \<notin> comment_ids SERVICE_COMMENT w \<and>
    comment_ids SERVICE_COMMENT w2 = comment_ids SERVICE_COMMENT w \<and>
    s_flapping_comment_id (svc_of w2 s) = 0 \<and> comments_ok w2"
  using set_service_flap_effect(3) [OF assms(3,1)] clear_service_flap_effect(2,4) [OF assms(4)] assms(2)
  by auto

lemma service_notification_switched_off:
  assumes "\<not> enable_notifications (cfg w)" "\<not> opt_forced options" "s_host_ptr (svc_of w s) = Some h"
  shows "service_notification ev s ty a d options w = Some (OK, w)"
  using assms by (simp add: service_notification_def check_service_notification_viability_def)

lemma host_notification_switched_off:
  assumes "\<not> enable_notifications (cfg w)" "\<not> opt_forced options"
  shows "host_notification ev h ty a d options w = Some (OK, w)"
  using assms by (simp add: host_notification_def check_host_notification_viability_def)

definition ex_quiet :: engine where
  "ex_quiet = ex_engine\<lparr>cfg := ex_cfg\<lparr>enable_notifications := False\<rparr>\<rparr>"

lemma ex_quiet_simps [simp]:
  "cfg ex_quiet = ex_cfg\<lparr>enable_notifications := False\<rparr>" "svc_of ex_quiet s = ex_service"
  "host_of ex_quiet h = ex_host" "comments_ok ex_quiet" "0 < next_comment_id ex_quiet"
  "host_list ex_quiet = [''h'']" "service_list ex_quiet = [(''h'', ''s'')]"
  by (simp_all add: ex_quiet_def comments_ok_def) (simp_all add: ex_engine_def)

theorem flapping_comment_added_then_deleted_witness:
  "\<exists>w1 w2. set_service_flap ex_env (''h'', ''s'') 50 30 20 False ex_quiet = Some w1 \<and>
     clear_service_flap ex_env (''h'', ''s'') 10 30 20 w1 = Some w2 \<and>
     comment_ids SERVICE_COMMENT w2 = comment_ids SERVICE_COMMENT ex_quiet"
proof -
  let ?s = "(''h'', ''s'')"
  obtain i w0 where add: "add_new_service_comment FLAPPING_COMMENT (Some ''h'') (Some ''s'') 1000
      (Some ''(Centreon Engine Process)'') (Some (flapping_text ex_env (ServiceTarget ?s) 50 30))
      False 0 False 0 ex_quiet = (i, w0)" by (rule prod.exhaust)
  note o = add_new_service_comment_objects [OF add]
  then obtain w1 where w1: "set_service_flap ex_env ?s 50 30 20 False ex_quiet = Some w1"
    and c1: "cfg w1 = cfg ex_quiet" "s_host_ptr (svc_of w1 ?s) = Some ''h''"
      "s_current_state (svc_of w1 ?s) = STATE_CRITICAL"
    using add by (simp add: set_service_flap_def Let_def upd_svc_def emit_def ex_service_def)
  have off: "service_notification ex_env ?s ty None None NOTIFICATION_OPTION_NONE w = Some (OK, w)"
    if "cfg w = cfg w1" "s_host_ptr (svc_of w ?s) = s_host_ptr (svc_of w1 ?s)" for w ty
    using that c1 by (intro service_notification_switched_off) (simp_all add: NOTIFICATION_OPTION_NONE_def)
  obtain w2 where "clear_service_flap ex_env ?s 10 30 20 w1 = Some w2"
    using c1 by (simp add: clear_service_flap_def service_flapping_over_def Let_def off upd_svc_def emit_def
        remove_service_flapping_comment_effect)
  with flapping_comment_added_then_deleted [OF _ _ w1 this] w1 show ?thesis by simp
qed

text \<open>Switching flap detection off for the program leaves no listed host and no
  listed service flapping, whatever was flapping before.\<close>

theorem disable_flap_detection_clears_all:
  assumes "disable_flap_detection_routines ev w = Some w'" "enable_flap_detection (cfg w)"
  shows "\<not> enable_flap_detection (cfg w') \<and> (\<forall>h\<in>set (host_list w). \<not> h_is_flapping (host_of w' h)) \<and>
    (\<forall>s\<in>set (service_list w). \<not> s_is_flapping (svc_of w' s))"
proof -
  let ?w1 = "set_flap_detection False w"
  have w1: "host_list ?w1 = host_list w" "service_list ?w1 = service_list w"
    "\<not> enable_flap_detection (cfg ?w1)"
    by (simp_all add: set_flap_detection_def Let_def emit_def)
  obtain w2 where w2: "for_each (handle_host_flap_detection_disabled ev) (host_list w) ?w1 = Some w2"
    and w': "for_each (handle_service_flap_detection_disabled ev) (service_list w2) w2 = Some w'"
    using assms w1 by (auto simp: disable_flap_detection_routines_def Let_def split: bind_splits)
  have "cfg w2 = cfg ?w1 \<and> service_list w2 = service_list w"
    by (rule for_each_invariant [OF w2]) (auto simp: w1 dest: handle_host_disabled_effect)
  moreover have "\<forall>h\<in>set (host_list w). \<not> h_is_flapping (host_of w2 h)"
    using w2 by (rule for_each_establishes) (blast dest: handle_host_disabled_effect)+
  moreover have "cfg w' = cfg w2 \<and> (\<forall>h. h_is_flapping (host_of w' h) = h_is_flapping (host_of w2 h))"
    by (rule for_each_invariant [OF w']) (auto dest: handle_service_disabled_effect)
  moreover have "\<forall>s\<in>set (service_list w2). \<not> s_is_flapping (svc_of w' s)"
    using w' by (rule for_each_establishes) (blast dest: handle_service_disabled_effect)+
  ultimately show ?thesis using w1 by simp
qed

theorem disable_flap_detection_clears_all_witness:
  "\<exists>w'. disable_flap_detection_routines ex_env ex_quiet = Some w' \<and> \<not> s_is_flapping (svc_of w' (''h'', ''s''))"
proof -
  obtain w' where w': "disable_flap_detection_routines ex_env ex_quiet = Some w'"
    by (simp add: disable_flap_detection_routines_def set_flap_detection_def emit_def Let_def ex_cfg_def
        handle_host_flap_detection_disabled_def handle_service_flap_detection_disabled_def
        ex_host_def ex_service_def)
  from disable_flap_detection_clears_all [OF this] w' show ?thesis by (simp add: ex_cfg_def)
qed

end
