(* ===== verification/Check_Scheduling.thy ===== *)
theory Check_Scheduling
  imports Comments Dependencies
begin

text \<open>
  When checks run: \<open>schedule_service_check\<close>, \<open>schedule_host_check\<close>, the viability of a
  check and the attempt counter of a host, all of \<^verbatim>\<open>src/checks.cc\<close>. The contract of
  the low priority list with the index \<open>quick_timed_event\<close> (at most one check event per
  object) is the locale \<open>check_scheduler\<close>, interpreted for services and hosts.
\<close>

unbundle bit_operations_syntax

section \<open>Check options\<close>

definition CHECK_OPTION_NONE :: int where "CHECK_OPTION_NONE = 0"
definition CHECK_OPTION_FORCE_EXECUTION :: int where "CHECK_OPTION_FORCE_EXECUTION = 1"
definition CHECK_OPTION_FRESHNESS_CHECK :: int where "CHECK_OPTION_FRESHNESS_CHECK = 2"
definition CHECK_OPTION_ORPHAN_CHECK :: int where "CHECK_OPTION_ORPHAN_CHECK = 4"

definition has_option :: "int \<Rightarrow> int \<Rightarrow> bool" where
  "has_option options flag \<longleftrightarrow> options AND flag \<noteq> 0"

abbreviation forced :: "int \<Rightarrow> bool" where
  "forced options \<equiv> has_option options CHECK_OPTION_FORCE_EXECUTION"

section \<open>Scheduling a check\<close>

text \<open>The decision between the event in the queue and the new one.\<close>

definition use_original_event :: "timed_event \<Rightarrow> int \<Rightarrow> int \<Rightarrow> bool" where
  "use_original_event temp_event check_time options =
     (if forced (event_options temp_event)
      then \<not> (forced options \<and> check_time < run_time temp_event)
      else if forced options then False
      else \<not> check_time < run_time temp_event)"

definition new_check_event :: "nat \<Rightarrow> edata \<Rightarrow> int \<Rightarrow> int \<Rightarrow> timed_event" where
  "new_check_event ty data next_check options =
     \<lparr>event_type = ty, run_time = next_check, recurring = False, event_interval = 0,
      compensate_for_time_change = True, timing_func = None, event_data = Some data,
      event_args = None, event_options = options, ev_next = None, ev_prev = None\<rparr>"

definition replace_check_event ::
    "env \<Rightarrow> addr option \<Rightarrow> timed_event \<Rightarrow> engine \<Rightarrow> engine option" where
  "replace_check_event ev temp_event new_event w =
     Option.bind (case temp_event of None \<Rightarrow> Some (evs w)
                  | Some e \<Rightarrow> remove_event (Some e) Low (evs w)) (\<lambda>s.
       let a = next_addr w;
           s1 = s\<lparr>heap := (heap s)(a := new_event)\<rparr>
       in map_option (\<lambda>s2. w\<lparr>evs := s2, next_addr := Suc a\<rparr>)
            (reschedule_event (call_timing_func ev) (now ev) a Low s1))"

definition schedule_service_check :: "env \<Rightarrow> svc_id \<Rightarrow> int \<Rightarrow> int \<Rightarrow> engine \<Rightarrow> engine option" where
  "schedule_service_check ev s check_time options w =
     (if \<not> s_checks_enabled (svc_of w s) \<and> \<not> forced options then Some w
      else
        let temp_event = hash_find Low Hash_service_check (ServicePtr s) (evs w);
            w1 = upd_svc s (\<lambda>v. v\<lparr>s_check_options := options\<rparr>) w;
            new_way =
              (let w2 = upd_svc s (\<lambda>v. v\<lparr>s_next_check := check_time\<rparr>) w1
               in replace_check_event ev temp_event
                    (new_check_event EVENT_SERVICE_CHECK (ServicePtr s) check_time options) w2)
        in map_option (emit (Update_status (ServiceTarget s)))
             (case temp_event of
                None \<Rightarrow> new_way
              | Some e \<Rightarrow>
                  if use_original_event (heap (evs w) e) check_time options
                  then Some (upd_svc s (\<lambda>v. v\<lparr>s_next_check := run_time (heap (evs w) e)\<rparr>) w1)
                  else new_way))"

definition schedule_host_check :: "env \<Rightarrow> host_id \<Rightarrow> int \<Rightarrow> int \<Rightarrow> engine \<Rightarrow> engine option" where
  "schedule_host_check ev h check_time options w =
     (if \<not> h_checks_enabled (host_of w h) \<and> \<not> forced options then Some w
      else
        let temp_event = hash_find Low Hash_host_check (HostPtr h) (evs w);
            w1 = upd_host h (\<lambda>v. v\<lparr>h_check_options := options\<rparr>) w;
            new_way =
              (let w2 = upd_host h (\<lambda>v. v\<lparr>h_next_check := check_time\<rparr>) w1
               in replace_check_event ev temp_event
                    (new_check_event EVENT_HOST_CHECK (HostPtr h) check_time options) w2)
        in map_option (emit (Update_status (HostTarget h)))
             (case temp_event of
                None \<Rightarrow> new_way
              | Some e \<Rightarrow>
                  if use_original_event (heap (evs w) e) check_time options
                  then Some (upd_host h (\<lambda>v. v\<lparr>h_next_check := run_time (heap (evs w) e)\<rparr>) w1)
                  else new_way))"

section \<open>Viability of a check\<close>

text \<open>
  The result with \<open>time_is_valid\<close> (true unless the check is outside its period) and
  the preferred time that is passed back.
\<close>

definition check_service_check_viability ::
    "env \<Rightarrow> svc_id \<Rightarrow> int \<Rightarrow> engine \<Rightarrow> (result \<times> bool \<times> int) option" where
  "check_service_check_viability ev s check_options w =
     (let svc = svc_of w s;
          check_interval =
            (if s_state_type svc = SOFT_STATE \<and> s_current_state svc \<noteq> STATE_OK
             then trunc_to_time (s_retry_interval svc * of_int (interval_length (cfg w)))
             else trunc_to_time (s_check_interval svc * of_int (interval_length (cfg w))))
      in if forced check_options then Some (OK, True, now ev)
         else
           let (perform1, preferred1) =
                 (if \<not> s_checks_enabled svc then (False, now ev + check_interval) else (True, now ev));
               (perform2, valid2, preferred2) =
                 (if check_time_against_period ev (get_service_timezone w s) (now ev)
                       (s_check_period_ptr svc) = ERROR
                  then (False, False, now ev) else (perform1, True, preferred1))
           in map_option (\<lambda>d.
                let (perform3, preferred3) =
                      (if d = DEPENDENCIES_FAILED then (False, now ev + check_interval)
                       else (perform2, preferred2))
                in (if perform3 then OK else ERROR, valid2, preferred3))
              (check_service_dependencies ev s EXECUTION_DEPENDENCY w))"

definition check_host_check_viability_3x ::
    "env \<Rightarrow> host_id \<Rightarrow> int \<Rightarrow> engine \<Rightarrow> (result \<times> bool \<times> int) option" where
  "check_host_check_viability_3x ev h check_options w =
     (let hst = host_of w h;
          interval =
            (if h_state_type hst = SOFT_STATE \<and> h_current_state hst \<noteq> HOST_UP
             then trunc_to_time (h_retry_interval hst * of_int (interval_length (cfg w)))
             else trunc_to_time (h_check_interval hst * of_int (interval_length (cfg w))));
          check_interval = (if interval \<le> 0 then 300 else interval)
      in if forced check_options then Some (OK, True, now ev)
         else
           let (perform1, preferred1) =
                 (if \<not> h_checks_enabled hst then (False, now ev + check_interval) else (True, now ev));
               (perform2, valid2, preferred2) =
                 (if check_time_against_period ev (get_host_timezone w h) (now ev)
                       (h_check_period_ptr hst) = ERROR
                  then (False, False, now ev) else (perform1, True, preferred1))
           in map_option (\<lambda>d.
                let (perform3, preferred3) =
                      (if d = DEPENDENCIES_FAILED then (False, now ev + check_interval)
                       else (perform2, preferred2))
                in (if perform3 then OK else ERROR, valid2, preferred3))
              (check_host_dependencies ev h EXECUTION_DEPENDENCY w))"

definition adjust_host_check_attempt_3x :: "host_id \<Rightarrow> bool \<Rightarrow> engine \<Rightarrow> engine" where
  "adjust_host_check_attempt_3x h is_active =
     upd_host h (\<lambda>hst.
       if h_state_type hst = HARD_STATE then hst\<lparr>h_current_attempt := 1\<rparr>
       else if is_active \<and> h_state_type hst = SOFT_STATE \<and> h_current_state hst = HOST_UP
       then hst\<lparr>h_current_attempt := 1\<rparr>
       else if h_current_attempt hst < h_max_attempts hst
       then hst\<lparr>h_current_attempt := h_current_attempt hst + 1\<rparr>
       else hst)"

definition determine_host_reachability :: "host_id \<Rightarrow> engine \<Rightarrow> host_state" where
  "determine_host_reachability h w =
     (let hst = host_of w h in
      if h_current_state hst = HOST_UP then HOST_UP
      else if h_parent_hosts hst = [] then HOST_DOWN
      else if list_ex (\<lambda>p. case p of None \<Rightarrow> False | Some ph \<Rightarrow> h_current_state (host_of w ph) = HOST_UP)
                (h_parent_hosts hst)
      then HOST_DOWN else HOST_UNREACHABLE)"

section \<open>The contract of the queue\<close>

definition event_queues :: "engine \<Rightarrow> (priority \<Rightarrow> addr list) \<Rightarrow> bool" where
  "event_queues w q \<longleftrightarrow> queues (evs w) q \<and> index_ok (evs w) q \<and> (\<forall>p. \<forall>a\<in>set (q p). a < next_addr w)"

lemma event_queuesD:
  assumes "event_queues w q"
  shows "queues (evs w) q" "index_ok (evs w) q" "\<And>p a. a \<in> set (q p) \<Longrightarrow> a < next_addr w"
  using assms by (auto simp: event_queues_def)

lemma event_queues_cong:
  "evs w' = evs w \<Longrightarrow> next_addr w' = next_addr w \<Longrightarrow> event_queues w' q = event_queues w q"
  by (simp add: event_queues_def)

lemma new_check_event_simps [simp]:
  "event_type (new_check_event ty d t opts) = ty" "run_time (new_check_event ty d t opts) = t"
  "event_data (new_check_event ty d t opts) = Some d"
  "event_options (new_check_event ty d t opts) = opts"
  "payload (new_check_event ty d t opts) = new_check_event ty d t opts"
  "next_run_time f n (new_check_event ty d t opts) = t"
  by (simp_all add: new_check_event_def payload_def next_run_time_def)

lemma set_run_time_same: "t = run_time (heap s a) \<Longrightarrow> set_run_time a t s = s"
  by (simp add: set_run_time_def)

locale check_scheduler =
  fixes ty :: nat and ht :: hash_type
  assumes hashed: "hash_type_of ty = Some ht"
begin

lemma replace_check_event_ok:
  fixes t opts :: int and d :: edata and w :: engine
  assumes "event_queues w q" "hash_find Low ht d (evs w) = te"
  defines "a \<equiv> next_addr w" and "new \<equiv> new_check_event ty d t opts"
  shows "\<exists>s. replace_check_event ev te new w = Some (w\<lparr>evs := s, next_addr := Suc a\<rparr>) \<and>
    (\<exists>q'. event_queues (w\<lparr>evs := s, next_addr := Suc a\<rparr>) q' \<and> q' High = q High \<and>
      set (q' Low) = insert a (set (q Low) - set_option te)) \<and>
    hash_find Low ht d s = Some a \<and> payload (heap s a) = new \<and>
    (\<forall>b. b \<noteq> a \<longrightarrow> payload (heap s b) = payload (heap (evs w) b))"
proof -
  note eq = event_queuesD [OF assms(1)]
  have te: "te = Some e \<longleftrightarrow> e \<in> set (q Low) \<and> indexed (evs w) e = Some (ht, d)" for e
    using eq(2) assms(2) by (auto simp: hash_find_def index_ok_def)
  define q1 where "q1 = (case te of None \<Rightarrow> q | Some e \<Rightarrow> q(Low := remove1 e (q Low)))"
  have "\<exists>s1. (case te of None \<Rightarrow> Some (evs w) | Some e \<Rightarrow> remove_event (Some e) Low (evs w)) = Some s1 \<and>
      queues s1 q1 \<and> index_ok s1 q1 \<and> (\<forall>b. payload (heap s1 b) = payload (heap (evs w) b))"
  proof (cases te)
    case None
    then show ?thesis using eq by (simp add: q1_def)
  next
    case (Some e)
    then have "e \<in> set (q Low)" using te by simp
    from remove_event_queues [OF eq(1,2) this] obtain s1 where "remove_event (Some e) Low (evs w) = Some s1"
      "queues s1 (q(Low := remove1 e (q Low)))" "index_ok s1 (q(Low := remove1 e (q Low)))" by blast
    with remove_event_payload [OF eq(1)] Some show ?thesis by (auto simp: q1_def)
  qed
  then obtain s1 where s1: "(case te of None \<Rightarrow> Some (evs w) | Some e \<Rightarrow> remove_event (Some e) Low (evs w)) = Some s1"
    "queues s1 q1" "index_ok s1 q1" "\<And>b. payload (heap s1 b) = payload (heap (evs w) b)" by blast
  have dist: "distinct (q Low)"
    using queues_rep [OF eq(1), of Low] by (simp add: event_list_rep_def dll_def)
  have q1: "set (q1 Low) = set (q Low) - set_option te" "q1 High = q High"
    using dist by (auto simp: q1_def split: option.split)
  have fresh: "\<forall>p. a \<notin> set (q1 p)"
  proof
    fix p show "a \<notin> set (q1 p)" using eq(3) [of a p] q1 by (cases p) (auto simp: a_def)
  qed
  define s2 where "s2 = s1\<lparr>heap := (heap s1)(a := new)\<rparr>"
  note s2 = alloc_event_queues [OF s1(2,3) fresh, of new, folded s2_def]
  have ixa: "indexed s2 a = Some (ht, d)"
    by (simp add: s2_def indexed_def new_def hashed)
  have ind1: "indexed s1 b = indexed (evs w) b" for b
    using payload_eqD(2,3) [OF s1(4) [of b]] by (simp add: indexed_def)
  have "indexed s2 b \<noteq> Some (ht, d)" if "b \<in> set (q1 Low)" for b
    using that q1 te [of b] ind1 [of b] fresh by (auto simp: s2_def indexed_def split: option.splits)
  with ixa have "\<forall>b\<in>set (q1 Low). indexed s2 b = None \<or> indexed s2 b \<noteq> indexed s2 a" by simp
  from add_event_queues [OF s2 fresh this] obtain s3 where s3: "add_event a Low s2 = Some s3"
    "queues s3 (q1(Low := insert_after (rt s2) a (q1 Low)))"
    "index_ok s3 (q1(Low := insert_after (rt s2) a (q1 Low)))" by blast
  have pay: "payload (heap s3 b) = payload (heap s2 b)" for b
    using add_event_payload [OF s2(1) _ s3(1)] fresh by blast
  have "set_run_time a (next_run_time (call_timing_func ev) (now ev) (heap s2 a)) s2 = s2"
    by (rule set_run_time_same) (simp add: s2_def new_def)
  then have run: "replace_check_event ev te new w = Some (w\<lparr>evs := s3, next_addr := Suc a\<rparr>)"
    using s1(1) s3(1) by (simp add: replace_check_event_def reschedule_event_def Let_def a_def s2_def)
  let ?q' = "q1(Low := insert_after (rt s2) a (q1 Low))"
  have "b < Suc a" if "b \<in> set (?q' p)" for b p
    using that eq(3) [of b p] q1 by (cases p) (auto simp: a_def)
  then have "event_queues (w\<lparr>evs := s3, next_addr := Suc a\<rparr>) ?q'"
    using s3 by (auto simp: event_queues_def)
  moreover have "hash_find Low ht d s3 = Some a"
  proof -
    have "indexed s3 a = Some (ht, d)"
      using ixa payload_eqD(2,3) [OF pay [of a]] by (simp add: indexed_def)
    then show ?thesis using s3(3) by (simp add: hash_find_def index_ok_def)
  qed
  moreover have "payload (heap s3 a) = new" using pay [of a] by (simp add: s2_def new_def)
  moreover have "payload (heap s3 b) = payload (heap (evs w) b)" if "b \<noteq> a" for b
    using pay [of b] s1(4) [of b] that by (simp add: s2_def)
  ultimately show ?thesis using run q1 by (intro exI [of _ s3] conjI exI [of _ ?q']) auto
qed

end

interpretation svc_sched: check_scheduler EVENT_SERVICE_CHECK Hash_service_check
  by unfold_locales (simp add: hash_type_of_def)

interpretation hst_sched: check_scheduler EVENT_HOST_CHECK Hash_host_check
  by unfold_locales (simp add: hash_type_of_def event_type_defs)

section \<open>Which event survives\<close>

text \<open>A check event is better if it is forced and the other is not, or else if it is due
  earlier.\<close>

definition better_check :: "bool \<times> int \<Rightarrow> bool \<times> int \<Rightarrow> bool" where
  "better_check a b \<longleftrightarrow> fst a \<and> \<not> fst b \<or> fst a = fst b \<and> snd a < snd b"

definition check_rank :: "timed_event \<Rightarrow> bool \<times> int" where
  "check_rank e = (forced (event_options e), run_time e)"

definition best_check :: "bool \<times> int \<Rightarrow> timed_event option \<Rightarrow> bool \<times> int" where
  "best_check new old =
     (case old of None \<Rightarrow> new
      | Some e \<Rightarrow> if better_check new (check_rank e) then new else check_rank e)"

lemma use_original_event_iff:
  "use_original_event e t opts \<longleftrightarrow> \<not> better_check (forced opts, t) (check_rank e)"
  by (auto simp: use_original_event_def better_check_def check_rank_def)

lemma payload_rank: "payload x = payload y \<Longrightarrow> check_rank x = check_rank y"
proof -
  assume eq: "payload x = payload y"
  have opts: "event_options (payload e) = event_options e" for e by (simp add: payload_def)
  from opts [of x] opts [of y] have "event_options x = event_options y" by (simp add: eq)
  with payload_eqD(1) [OF eq] show ?thesis by (simp add: check_rank_def)
qed

text \<open>
  What a scheduling call leaves in the queue for the object \<open>d\<close>: one event, the best of
  the one that was there and the new one; the events of other objects are the same.
\<close>

definition one_check_queued ::
    "hash_type \<Rightarrow> edata \<Rightarrow> bool \<times> int \<Rightarrow> engine \<Rightarrow> (priority \<Rightarrow> addr list) \<Rightarrow> engine \<Rightarrow> addr \<Rightarrow> bool" where
  "one_check_queued ht d new w q w' e \<longleftrightarrow>
     (\<exists>q'. event_queues w' q' \<and> q' High = q High \<and>
       {a \<in> set (q' Low). indexed (evs w') a = Some (ht, d)} = {e} \<and>
       {a \<in> set (q' Low). indexed (evs w') a \<noteq> Some (ht, d)} =
         {a \<in> set (q Low). indexed (evs w) a \<noteq> Some (ht, d)}) \<and>
     check_rank (heap (evs w') e) = best_check new (map_option (heap (evs w)) (hash_find Low ht d (evs w)))"

lemma indexed_payload: "payload (heap s a) = payload (heap s' a) \<Longrightarrow> indexed s a = indexed s' a"
  using payload_eqD(2,3) [of "heap s a" "heap s' a"] by (simp add: indexed_def)

lemma one_check_queued_cong:
  "evs v' = evs w' \<Longrightarrow> next_addr v' = next_addr w' \<Longrightarrow>
   one_check_queued ht d new w q v' e = one_check_queued ht d new w q w' e"
  by (simp add: one_check_queued_def event_queues_def)

context check_scheduler
begin

lemma found_iff:
  assumes "event_queues w q"
  shows "hash_find Low ht d (evs w) = Some e \<longleftrightarrow> e \<in> set (q Low) \<and> indexed (evs w) e = Some (ht, d)"
  using event_queuesD(2) [OF assms] by (simp add: hash_find_def index_ok_def)

lemma kept_event:
  assumes "event_queues w q" "hash_find Low ht d (evs w) = Some e"
    "use_original_event (heap (evs w) e) t opts"
  shows "one_check_queued ht d (forced opts, t) w q w e"
proof -
  have "a \<in> set (q Low) \<and> indexed (evs w) a = Some (ht, d) \<longleftrightarrow> a = e" for a
    using found_iff [OF assms(1), of d a] assms(2) by auto
  then have "{a \<in> set (q Low). indexed (evs w) a = Some (ht, d)} = {e}" by auto
  with assms show ?thesis
    by (auto simp: one_check_queued_def best_check_def use_original_event_iff)
qed

lemma new_event:
  fixes t opts :: int and d :: edata and w :: engine
  assumes eq: "event_queues w q"
    and not_kept: "\<And>e. hash_find Low ht d (evs w) = Some e \<Longrightarrow> \<not> use_original_event (heap (evs w) e) t opts"
  shows "\<exists>s. replace_check_event ev (hash_find Low ht d (evs w)) (new_check_event ty d t opts) w =
      Some (w\<lparr>evs := s, next_addr := Suc (next_addr w)\<rparr>) \<and>
    rt s (next_addr w) = t \<and>
    one_check_queued ht d (forced opts, t) w q (w\<lparr>evs := s, next_addr := Suc (next_addr w)\<rparr>) (next_addr w)"
proof -
  let ?a = "next_addr w" and ?te = "hash_find Low ht d (evs w)"
  obtain s q' where s: "replace_check_event ev ?te (new_check_event ty d t opts) w =
      Some (w\<lparr>evs := s, next_addr := Suc ?a\<rparr>)"
    "event_queues (w\<lparr>evs := s, next_addr := Suc ?a\<rparr>) q'" "q' High = q High"
    "set (q' Low) = insert ?a (set (q Low) - set_option ?te)"
    "hash_find Low ht d s = Some ?a" "payload (heap s ?a) = new_check_event ty d t opts"
    "\<forall>b. b \<noteq> ?a \<longrightarrow> payload (heap s b) = payload (heap (evs w) b)"
    using replace_check_event_ok [OF eq refl, where d = d and ev = ev and t = t and opts = opts]
    by (elim exE conjE) (rule that)
  have ixa: "indexed s a = Some (ht, d) \<and> a \<in> set (q' Low) \<longleftrightarrow> a = ?a" for a
    using found_iff [OF s(2), of d a] s(5) by auto
  have one: "{a \<in> set (q' Low). indexed s a = Some (ht, d)} = {?a}" using ixa by auto
  have "?a \<notin> set (q Low)" using event_queuesD(3) [OF eq, of ?a Low] by auto
  then have other: "indexed s b = indexed (evs w) b" if "b \<in> set (q Low)" for b
    using that indexed_payload [OF s(7) [rule_format], of b] by auto
  have others: "{a \<in> set (q' Low). indexed s a \<noteq> Some (ht, d)} =
      {a \<in> set (q Low). indexed (evs w) a \<noteq> Some (ht, d)}"
  proof (intro set_eqI)
    fix b
    show "b \<in> {a \<in> set (q' Low). indexed s a \<noteq> Some (ht, d)} \<longleftrightarrow>
        b \<in> {a \<in> set (q Low). indexed (evs w) a \<noteq> Some (ht, d)}"
    proof (cases "b = ?a")
      case True
      then show ?thesis using ixa [of b] \<open>?a \<notin> set (q Low)\<close> by simp
    next
      case False
      then show ?thesis
        using found_iff [OF eq, of d b] other [of b] s(4) by (cases "?te = Some b") auto
    qed
  qed
  have "check_rank (heap s ?a) = (forced opts, t)"
    using payload_rank [of "heap s ?a" "new_check_event ty d t opts"] s(6) by (simp add: check_rank_def)
  moreover have "best_check (forced opts, t) (map_option (heap (evs w)) ?te) = (forced opts, t)"
    using not_kept by (auto simp: best_check_def use_original_event_iff split: option.split)
  moreover have due: "rt s ?a = t"
    using payload_eqD(1) [of "heap s ?a" "new_check_event ty d t opts"] s(6) by simp
  ultimately have "one_check_queued ht d (forced opts, t) w q
      (w\<lparr>evs := s, next_addr := Suc ?a\<rparr>) ?a"
    using s(2,3) one others unfolding one_check_queued_def by auto
  with s(1) due show ?thesis by blast
qed

end

lemma one_check_queued_start:
  "evs w1 = evs w \<Longrightarrow> one_check_queued ht d new w1 q w' e = one_check_queued ht d new w q w' e"
  by (simp add: one_check_queued_def)

lemma frames [simp]:
  "evs (upd_svc s f w) = evs w" "next_addr (upd_svc s f w) = next_addr w"
  "evs (upd_host h g w) = evs w" "next_addr (upd_host h g w) = next_addr w"
  "evs (emit a w) = evs w" "next_addr (emit a w) = next_addr w"
  by (simp_all add: access_defs)

section \<open>Properties\<close>

text \<open>C22. Scheduling a service check: with well formed event lists, and unless active
  checks are disabled and the check is not forced, the call returns and the low priority list
  holds exactly one check of the service, the better of the one queued before and the new one
  (a forced check is better than one that is not, otherwise the earlier is); the next check
  time of the service is the run time of that event, and every other event stays.\<close>

theorem schedule_service_check_keeps_best:
  assumes "event_queues w q" "s_checks_enabled (svc_of w s) \<or> forced opts"
  shows "\<exists>w' e. schedule_service_check ev s t opts w = Some w' \<and>
    one_check_queued Hash_service_check (ServicePtr s) (forced opts, t) w q w' e \<and>
    s_next_check (svc_of w' s) = rt (evs w') e"
proof -
  let ?te = "hash_find Low Hash_service_check (ServicePtr s) (evs w)"
  define w1 where "w1 = upd_svc s (\<lambda>v. v\<lparr>s_check_options := opts\<rparr>) w"
  define w2 where "w2 = upd_svc s (\<lambda>v. v\<lparr>s_next_check := t\<rparr>) w1"
  have ev2: "evs w2 = evs w" "next_addr w2 = next_addr w" by (simp_all add: w1_def w2_def)
  have eq2: "event_queues w2 q" using assms(1) event_queues_cong [OF ev2] by simp
  show ?thesis
  proof (cases "\<exists>e. ?te = Some e \<and> use_original_event (heap (evs w) e) t opts")
    case True
    then obtain e where e: "?te = Some e" "use_original_event (heap (evs w) e) t opts" by blast
    let ?w' = "emit (Update_status (ServiceTarget s))
      (upd_svc s (\<lambda>v. v\<lparr>s_next_check := rt (evs w) e\<rparr>) w1)"
    have "schedule_service_check ev s t opts w = Some ?w'"
      using assms(2) e by (auto simp: schedule_service_check_def Let_def w1_def)
    moreover have "one_check_queued Hash_service_check (ServicePtr s) (forced opts, t) w q ?w' e"
      using svc_sched.kept_event [OF assms(1) e] by (rule one_check_queued_cong [THEN iffD2, rotated 2])
        (simp_all add: w1_def)
    moreover have "s_next_check (svc_of ?w' s) = rt (evs w) e" "evs ?w' = evs w"
      by (simp_all add: access_defs w1_def)
    ultimately show ?thesis by (intro exI [of _ ?w'] exI [of _ e]) simp
  next
    case False
    then obtain r where r: "replace_check_event ev ?te
        (new_check_event EVENT_SERVICE_CHECK (ServicePtr s) t opts) w2 =
        Some (w2\<lparr>evs := r, next_addr := Suc (next_addr w2)\<rparr>)" "rt r (next_addr w2) = t"
      "one_check_queued Hash_service_check (ServicePtr s) (forced opts, t) w2 q
        (w2\<lparr>evs := r, next_addr := Suc (next_addr w2)\<rparr>) (next_addr w2)"
      using svc_sched.new_event [OF eq2, of "ServicePtr s" t opts ev] by (auto simp: ev2)
    let ?w3 = "w2\<lparr>evs := r, next_addr := Suc (next_addr w2)\<rparr>"
    let ?w' = "emit (Update_status (ServiceTarget s)) ?w3"
    have "schedule_service_check ev s t opts w = Some ?w'"
      using assms(2) False r(1)
      by (auto simp: schedule_service_check_def Let_def w1_def w2_def split: option.split)
    moreover have "one_check_queued Hash_service_check (ServicePtr s) (forced opts, t) w q ?w' (next_addr w2)"
      using r(3) one_check_queued_cong [of ?w' ?w3] one_check_queued_start [OF ev2(1)] by simp
    moreover have "s_next_check (svc_of ?w' s) = t" by (simp add: access_defs w2_def)
    ultimately show ?thesis using r(2) by (auto intro!: exI [of _ ?w'] exI [of _ "next_addr w2"])
  qed
qed

theorem schedule_service_check_keeps_best_witness:
  "\<exists>w'. schedule_service_check ex_env (''h'', ''s'') 1500 CHECK_OPTION_NONE ex_engine = Some w' \<and>
     s_next_check (svc_of w' (''h'', ''s'')) = 1500"
proof -
  have "event_queues ex_engine (\<lambda>_. [])"
    using ex_empty_queues by (simp add: event_queues_def ex_engine_def)
  moreover have "s_checks_enabled (svc_of ex_engine (''h'', ''s''))"
    by (simp add: ex_engine_def ex_service_def)
  moreover have "hash_find Low Hash_service_check (ServicePtr (''h'', ''s'')) (evs ex_engine) = None"
    by (simp add: hash_find_def ex_engine_def ex_empty_def)
  ultimately show ?thesis
    using schedule_service_check_keeps_best [of ex_engine "\<lambda>_. []" "(''h'', ''s'')" CHECK_OPTION_NONE ex_env 1500]
    by (auto simp: one_check_queued_def best_check_def check_rank_def)
qed

end
