(* ===== verification/Acknowledgements.thy ===== *)
theory Acknowledgements
  imports Comments
begin

text \<open>
  The expiry of acknowledgements: \<open>check_for_expired_acknowledgement\<close> and
  \<open>schedule_acknowledgement_expiration\<close> of \<^verbatim>\<open>src/objects/service.cc\<close> and
  \<^verbatim>\<open>src/objects/host.cc\<close>. The key of the map of other properties is the service
  (the host) itself.
\<close>

section \<open>The check at expiry\<close>

definition check_for_expired_service_acknowledgement :: "env \<Rightarrow> svc_id \<Rightarrow> engine \<Rightarrow> engine" where
  "check_for_expired_service_acknowledgement ev s w =
     (if s_problem_has_been_acknowledged (svc_of w s)
      then
        let acknowledgement_timeout = so_acknowledgement_timeout (service_other_props w s) in
        if acknowledgement_timeout > 0
        then
          let last_ack = so_last_acknowledgement (service_other_props w s) in
          if last_ack + acknowledgement_timeout \<ge> now ev
          then emit (Update_status (ServiceTarget s))
                 (upd_svc s (\<lambda>v. v\<lparr>s_problem_has_been_acknowledged := False,
                                     s_acknowledgement_type := ACKNOWLEDGEMENT_NONE\<rparr>) w)
          else w
        else w
      else w)"

definition check_for_expired_host_acknowledgement :: "env \<Rightarrow> host_id \<Rightarrow> engine \<Rightarrow> engine" where
  "check_for_expired_host_acknowledgement ev h w =
     (if h_problem_has_been_acknowledged (host_of w h)
      then
        let acknowledgement_timeout = ho_acknowledgement_timeout (host_other_props w h) in
        if acknowledgement_timeout > 0
        then
          let last_ack = ho_last_acknowledgement (host_other_props w h) in
          if last_ack + acknowledgement_timeout \<ge> now ev
          then emit (Update_status (HostTarget h))
                 (upd_host h (\<lambda>v. v\<lparr>h_problem_has_been_acknowledged := False,
                                      h_acknowledgement_type := ACKNOWLEDGEMENT_NONE\<rparr>) w)
          else w
        else w
      else w)"

section \<open>Scheduling the check\<close>

definition schedule_service_acknowledgement_expiration :: "svc_id \<Rightarrow> engine \<Rightarrow> engine option" where
  "schedule_service_acknowledgement_expiration s w =
     (let ack_timeout = so_acknowledgement_timeout (service_other_props w s);
          last_ack = so_last_acknowledgement (service_other_props w s)
      in if ack_timeout > 0 \<and> last_ack \<noteq> 0
         then schedule_new_event EVENT_EXPIRE_SERVICE_ACK False (last_ack + ack_timeout) False 0 None
                True (Some (ServicePtr s)) None 0 w
         else Some w)"

definition schedule_host_acknowledgement_expiration :: "host_id \<Rightarrow> engine \<Rightarrow> engine option" where
  "schedule_host_acknowledgement_expiration h w =
     (let ack_timeout = ho_acknowledgement_timeout (host_other_props w h);
          last_ack = ho_last_acknowledgement (host_other_props w h)
      in if ack_timeout > 0 \<and> last_ack \<noteq> 0
         then schedule_new_event EVENT_EXPIRE_HOST_ACK False (last_ack + ack_timeout) False 0 None
                True (Some (HostPtr h)) None 0 w
         else Some w)"

section \<open>Properties\<close>

text \<open>C37. The expiry of an acknowledgement is tested the wrong way round: an acknowledged
  service with a timeout loses its acknowledgement exactly if the check runs no later than
  the expiry time, for which it is scheduled, and keeps it at every later second. The
  comparison for hosts is the same.\<close>

theorem late_acknowledgement_never_expires:
  assumes "s_problem_has_been_acknowledged (svc_of w s)"
    "0 < so_acknowledgement_timeout (service_other_props w s)"
    "h_problem_has_been_acknowledged (host_of w h)"
    "0 < ho_acknowledgement_timeout (host_other_props w h)"
  shows "(s_problem_has_been_acknowledged (svc_of (check_for_expired_service_acknowledgement ev s w) s)
      \<longleftrightarrow> so_last_acknowledgement (service_other_props w s) +
          so_acknowledgement_timeout (service_other_props w s) < now ev) \<and>
    (h_problem_has_been_acknowledged (host_of (check_for_expired_host_acknowledgement ev h w) h)
      \<longleftrightarrow> ho_last_acknowledgement (host_other_props w h) +
          ho_acknowledgement_timeout (host_other_props w h) < now ev)"
  using assms
  by (simp add: check_for_expired_service_acknowledgement_def
      check_for_expired_host_acknowledgement_def access_defs)

definition ex_acknowledged :: engine where
  "ex_acknowledged = ex_engine\<lparr>svc_of := (\<lambda>_. ex_service\<lparr>s_problem_has_been_acknowledged := True\<rparr>),
     host_of := (\<lambda>_. ex_host\<lparr>h_problem_has_been_acknowledged := True\<rparr>),
     service_other_props := (\<lambda>_. \<lparr>so_initial_notif_time = 0, so_timezone = '''',
        so_acknowledgement_timeout = 60, so_last_acknowledgement = 900,
        so_recovery_notification_delay = 0, so_recovery_been_sent = True\<rparr>),
     host_other_props := (\<lambda>_. \<lparr>ho_initial_notif_time = 0, ho_should_reschedule_current_check = False,
        ho_timezone = '''', ho_acknowledgement_timeout = 60, ho_last_acknowledgement = 900,
        ho_recovery_notification_delay = 0, ho_recovery_been_sent = True\<rparr>)\<rparr>"

theorem late_acknowledgement_never_expires_witness:
  "s_problem_has_been_acknowledged
     (svc_of (check_for_expired_service_acknowledgement (ex_env\<lparr>now := 961\<rparr>) (''h'', ''s'') ex_acknowledged)
        (''h'', ''s'')) \<and>
   \<not> s_problem_has_been_acknowledged
     (svc_of (check_for_expired_service_acknowledgement (ex_env\<lparr>now := 930\<rparr>) (''h'', ''s'') ex_acknowledged)
        (''h'', ''s''))"
  using late_acknowledgement_never_expires [of ex_acknowledged "(''h'', ''s'')" "''h''"]
  by (simp add: ex_acknowledged_def)

end
