(* ===== verification/Downtime.thy ===== *)
theory Downtime
  imports Flapping
begin

text \<open>
  Scheduled downtime, \<^verbatim>\<open>src/objects/downtime.cc\<close> and \<^verbatim>\<open>src/xdddefault.cc\<close>. The
  entries are mutated through pointers while the list is walked, so they live at addresses:
  \<open>downtime_list\<close> is the list of addresses, \<open>downtime_at\<close> the store. The handlers
  call themselves on the downtimes an entry triggers; they are partial, and \<open>None\<close> is a
  recursion or loop that does not end, or a step from an entry that was freed on the way.
  Writing the downtime file is an empty call in the source. The comment text is formatted by
  the environment.
\<close>

section \<open>Entries\<close>

definition EVENT_SCHEDULED_DOWNTIME :: nat where "EVENT_SCHEDULED_DOWNTIME = 9"
definition EVENT_EXPIRE_DOWNTIME :: nat where "EVENT_EXPIRE_DOWNTIME = 11"

definition upd_downtime :: "addr \<Rightarrow> (scheduled_downtime \<Rightarrow> scheduled_downtime) \<Rightarrow> engine \<Rightarrow> engine" where
  "upd_downtime a f w = w\<lparr>downtime_at := (downtime_at w)(a := f (downtime_at w a))\<rparr>"

text \<open>A type that is \<open>None\<close> is \<open>ANY_DOWNTIME\<close>.\<close>

definition find_downtime :: "downtime_type option \<Rightarrow> nat \<Rightarrow> engine \<Rightarrow> addr option" where
  "find_downtime ty i w =
     find (\<lambda>a. (ty = None \<or> ty = Some (dt_type (downtime_at w a))) \<and>
               dt_downtime_id (downtime_at w a) = i) (downtime_list w)"

text \<open>\<open>find_host\<close> or \<open>find_service\<close>, by the type of the entry.\<close>

definition downtime_target :: "engine \<Rightarrow> scheduled_downtime \<Rightarrow> notif_target option" where
  "downtime_target w d =
     (case dt_type d of
        HOST_DOWNTIME \<Rightarrow>
          if dt_host_name d \<in> set (host_list w) then Some (HostTarget (dt_host_name d)) else None
      | SERVICE_DOWNTIME \<Rightarrow>
          (case dt_service_description d of
             None \<Rightarrow> None
           | Some desc \<Rightarrow>
               if (dt_host_name d, desc) \<in> set (service_list w)
               then Some (ServiceTarget (dt_host_name d, desc)) else None))"

definition depth_of :: "notif_target \<Rightarrow> engine \<Rightarrow> int" where
  "depth_of tgt w =
     (case tgt of HostTarget h \<Rightarrow> h_scheduled_downtime_depth (host_of w h)
      | ServiceTarget s \<Rightarrow> s_scheduled_downtime_depth (svc_of w s))"

definition add_depth :: "int \<Rightarrow> notif_target \<Rightarrow> engine \<Rightarrow> engine" where
  "add_depth k tgt =
     (case tgt of
        HostTarget h \<Rightarrow> upd_host h (\<lambda>v. v\<lparr>h_scheduled_downtime_depth := h_scheduled_downtime_depth v + k\<rparr>)
      | ServiceTarget s \<Rightarrow> upd_svc s (\<lambda>v. v\<lparr>s_scheduled_downtime_depth := s_scheduled_downtime_depth v + k\<rparr>))"

definition pending_of :: "notif_target \<Rightarrow> engine \<Rightarrow> int" where
  "pending_of tgt w =
     (case tgt of HostTarget h \<Rightarrow> h_pending_flex_downtime (host_of w h)
      | ServiceTarget s \<Rightarrow> s_pending_flex_downtime (svc_of w s))"

definition add_pending :: "int \<Rightarrow> notif_target \<Rightarrow> engine \<Rightarrow> engine" where
  "add_pending k tgt =
     (case tgt of
        HostTarget h \<Rightarrow> upd_host h (\<lambda>v. v\<lparr>h_pending_flex_downtime := h_pending_flex_downtime v + k\<rparr>)
      | ServiceTarget s \<Rightarrow> upd_svc s (\<lambda>v. v\<lparr>s_pending_flex_downtime := s_pending_flex_downtime v + k\<rparr>))"

definition target_ok :: "notif_target \<Rightarrow> engine \<Rightarrow> bool" where
  "target_ok tgt w \<longleftrightarrow>
     (case tgt of HostTarget h \<Rightarrow> h_current_state (host_of w h) = HOST_UP
      | ServiceTarget s \<Rightarrow> s_current_state (svc_of w s) = STATE_OK)"

definition notify_downtime ::
    "env \<Rightarrow> notif_target \<Rightarrow> notif_type \<Rightarrow> string option \<Rightarrow> string option \<Rightarrow> engine \<Rightarrow> engine option" where
  "notify_downtime ev tgt ty author data w =
     map_option snd
       (case tgt of
          HostTarget h \<Rightarrow> host_notification ev h ty author data NOTIFICATION_OPTION_NONE w
        | ServiceTarget s \<Rightarrow> service_notification ev s ty author data NOTIFICATION_OPTION_NONE w)"

definition broker_downtime_data :: "downtime_event \<Rightarrow> addr \<Rightarrow> engine \<Rightarrow> engine" where
  "broker_downtime_data e a w =
     emit (Broker_downtime e (dt_type (downtime_at w a)) (dt_downtime_id (downtime_at w a))) w"

section \<open>Adding\<close>

fun insert_by_start :: "(addr \<Rightarrow> int) \<Rightarrow> addr \<Rightarrow> addr list \<Rightarrow> addr list" where
  "insert_by_start start a [] = [a]"
| "insert_by_start start a (t # ts) =
     (if start a < start t then a # t # ts else t # insert_by_start start a ts)"

definition add_downtime :: "scheduled_downtime \<Rightarrow> engine \<Rightarrow> result \<times> engine" where
  "add_downtime d w =
     (if dt_triggered_by d > 0 \<and> find_downtime None (dt_triggered_by d) w = None then (ERROR, w)
      else if dt_type d = SERVICE_DOWNTIME \<and> dt_service_description d = None then (ERROR, w)
      else
        let a = next_addr w;
            w1 = w\<lparr>next_addr := Suc a, downtime_at := (downtime_at w)(a := d)\<rparr>;
            w2 = (if defer_downtime_sorting w1 then w1\<lparr>downtime_list := a # downtime_list w1\<rparr>
                  else w1\<lparr>downtime_list :=
                         insert_by_start (\<lambda>x. dt_start_time (downtime_at w1 x)) a (downtime_list w1)\<rparr>)
        in (OK, broker_downtime_data NEB_downtime_load a w2))"

text \<open>\<open>qsort\<close> on the start times, taken as stable.\<close>

definition sort_downtime :: "engine \<Rightarrow> engine" where
  "sort_downtime w =
     (if \<not> defer_downtime_sorting w then w
      else w\<lparr>defer_downtime_sorting := False,
             downtime_list := sort_key (\<lambda>a. dt_start_time (downtime_at w a)) (downtime_list w)\<rparr>)"

text \<open>The loop that looks for an unused identifier.\<close>

definition used_ids :: "downtime_type \<Rightarrow> engine \<Rightarrow> nat \<Rightarrow> nat set" where
  "used_ids ty w n =
     {i \<in> (\<lambda>a. dt_downtime_id (downtime_at w a)) ` set (downtime_list w). n \<le> i \<and> find_downtime (Some ty) i w \<noteq> None}"

function next_free_downtime_id :: "downtime_type \<Rightarrow> engine \<Rightarrow> nat \<Rightarrow> nat" where
  "next_free_downtime_id ty w n =
     (if find_downtime (Some ty) n w \<noteq> None then next_free_downtime_id ty w (n + 1) else n)"
  by auto
termination
proof (relation "measure (\<lambda>(ty, w, n). card (used_ids ty w n))")
  fix ty w n
  assume "find_downtime (Some ty) n w \<noteq> None"
  then have "n \<in> used_ids ty w n" "n \<notin> used_ids ty w (n + 1)"
    by (auto simp: find_downtime_def find_None_iff used_ids_def)
  moreover have "used_ids ty w (n + 1) \<subseteq> used_ids ty w n" by (auto simp: used_ids_def)
  ultimately have "used_ids ty w (n + 1) \<subset> used_ids ty w n" by blast
  moreover have "finite (used_ids ty w n)" by (simp add: used_ids_def)
  ultimately show "((ty, w, n + 1), ty, w, n) \<in> measure (\<lambda>(ty, w, n). card (used_ids ty w n))"
    by (simp add: psubset_card_mono)
qed simp

declare next_free_downtime_id.simps [simp del]

text \<open>
  The host and the service variant of \<open>xdddefault_add_new_*\<close> and \<open>add_new_*\<close> differ
  only in the type; the entry comes with the fields the caller passes.
\<close>

definition xdddefault_add_new_downtime :: "scheduled_downtime \<Rightarrow> engine \<Rightarrow> nat \<times> engine" where
  "xdddefault_add_new_downtime d w =
     (let n = next_free_downtime_id (dt_type d) w (next_downtime_id w);
          w1 = snd (add_downtime (d\<lparr>dt_downtime_id := n\<rparr>) (w\<lparr>next_downtime_id := n\<rparr>))
      in (n, w1\<lparr>next_downtime_id := n + 1\<rparr>))"

definition add_new_downtime :: "scheduled_downtime \<Rightarrow> engine \<Rightarrow> nat \<times> engine" where
  "add_new_downtime d w =
     (if dt_type d = SERVICE_DOWNTIME \<and> dt_service_description d = None then (0, w)
      else
        let (n, w1) = xdddefault_add_new_downtime d w
        in (n, emit (Broker_downtime NEB_downtime_add (dt_type d) n) w1))"

section \<open>Deleting\<close>

definition delete_downtime :: "downtime_type \<Rightarrow> nat \<Rightarrow> engine \<Rightarrow> result \<times> engine" where
  "delete_downtime ty i w =
     (case find_downtime (Some ty) i w of
        None \<Rightarrow> (ERROR, w)
      | Some a \<Rightarrow>
          let w1 = snd (delete_comment (if dt_type (downtime_at w a) = HOST_DOWNTIME then HOST_COMMENT
                                        else SERVICE_COMMENT) (dt_comment_id (downtime_at w a)) w);
              w2 = broker_downtime_data NEB_downtime_delete a w1
          in (OK, w2\<lparr>downtime_list := remove1 a (downtime_list w2)\<rparr>))"

text \<open>The loops that save the next entry before they delete the current one.\<close>

definition delete_downtimes_if :: "(engine \<Rightarrow> scheduled_downtime \<Rightarrow> bool) \<Rightarrow> engine \<Rightarrow> engine" where
  "delete_downtimes_if P w =
     fold (\<lambda>a w. if P w (downtime_at w a)
                 then snd (delete_downtime (dt_type (downtime_at w a)) (dt_downtime_id (downtime_at w a)) w)
                 else w) (downtime_list w) w"

definition check_for_expired_downtime :: "env \<Rightarrow> engine \<Rightarrow> engine" where
  "check_for_expired_downtime ev =
     delete_downtimes_if (\<lambda>_ d. \<not> dt_is_in_effect d \<and> dt_end_time d < now ev)"

definition xdddefault_validate_downtime_data :: "env \<Rightarrow> engine \<Rightarrow> engine" where
  "xdddefault_validate_downtime_data ev w =
     delete_downtimes_if (\<lambda>w d. dt_triggered_by d \<noteq> 0 \<and>
         find_downtime (Some HOST_DOWNTIME) (dt_triggered_by d) w = None \<and>
         find_downtime (Some SERVICE_DOWNTIME) (dt_triggered_by d) w = None)
       (delete_downtimes_if (\<lambda>w d.
           dt_host_name d \<notin> set (host_list w) \<or>
           dt_type d = SERVICE_DOWNTIME \<and> downtime_target w d = None \<or>
           dt_end_time d < now ev) w)"

definition xdddefault_initialize_downtime_data :: "env \<Rightarrow> engine \<Rightarrow> engine" where
  "xdddefault_initialize_downtime_data ev w =
     (let w1 = xdddefault_validate_downtime_data ev w;
          w2 = (if next_downtime_id w1 = 0
                then w1\<lparr>next_downtime_id :=
                       foldl (\<lambda>n a. if n \<le> dt_downtime_id (downtime_at w1 a)
                                     then dt_downtime_id (downtime_at w1 a) + 1 else n) 0 (downtime_list w1)\<rparr>
                else w1)
      in if next_downtime_id w2 = 0 then w2\<lparr>next_downtime_id := 1\<rparr> else w2)"

section \<open>Starting and ending\<close>

text \<open>A flexible downtime that was not started by a problem waits while its object is fine.\<close>

definition waits_for_problem :: "addr \<Rightarrow> notif_target \<Rightarrow> engine \<Rightarrow> bool" where
  "waits_for_problem a tgt w \<longleftrightarrow>
     \<not> dt_fixed (downtime_at w a) \<and> \<not> dt_start_flex_downtime (downtime_at w a) \<and> target_ok tgt w"

definition pend_downtime :: "addr \<Rightarrow> notif_target \<Rightarrow> engine \<Rightarrow> engine option" where
  "pend_downtime a tgt w =
     schedule_new_event EVENT_EXPIRE_DOWNTIME True (dt_end_time (downtime_at w a) + 1) False 0 None
       False None None 0
       (upd_downtime a (\<lambda>d. d\<lparr>dt_incremented_pending_downtime := True\<rparr>) (add_pending 1 tgt w))"

definition stop_downtime :: "env \<Rightarrow> addr \<Rightarrow> notif_target \<Rightarrow> engine \<Rightarrow> engine option" where
  "stop_downtime ev a tgt w =
     (let d = downtime_at w a;
          w1 = add_depth (- 1) tgt (broker_downtime_data NEB_downtime_stop_normal a w)
      in map_option (\<lambda>w2.
           let w3 = emit (Update_status tgt) w2
           in if \<not> dt_fixed d \<and> dt_incremented_pending_downtime d \<and> pending_of tgt w3 > 0
              then add_pending (- 1) tgt w3 else w3)
         (if depth_of tgt w1 = 0
          then notify_downtime ev tgt NOTIFICATION_DOWNTIMEEND (dt_author d) (dt_comment d) w1
          else Some w1))"

definition start_downtime :: "env \<Rightarrow> addr \<Rightarrow> notif_target \<Rightarrow> engine \<Rightarrow> engine option" where
  "start_downtime ev a tgt w =
     (let d = downtime_at w a;
          w1 = broker_downtime_data NEB_downtime_start a w
      in Option.bind
           (if depth_of tgt w1 = 0
            then notify_downtime ev tgt NOTIFICATION_DOWNTIMESTART (dt_author d) (dt_comment d) w1
            else Some w1) (\<lambda>w2.
           let w3 = upd_downtime a (\<lambda>d. d\<lparr>dt_is_in_effect := True\<rparr>) (add_depth 1 tgt w2);
               w4 = emit (Update_status tgt) w3;
               event_time = (if \<not> dt_fixed d then time_t_of (now ev + int (dt_duration d)) else dt_end_time d);
               new_downtime_id = next_addr w4
           in schedule_new_event EVENT_SCHEDULED_DOWNTIME True event_time False 0 None False
                (Some (IdPtr new_downtime_id (dt_downtime_id d))) None 0
                (w4\<lparr>next_addr := Suc new_downtime_id\<rparr>)))"

text \<open>The entry behind \<open>a\<close> in the list.\<close>

fun entry_after :: "addr \<Rightarrow> addr list \<Rightarrow> addr option" where
  "entry_after a [] = None"
| "entry_after a (x # xs) = (if x = a then hd_opt xs else entry_after a xs)"

text \<open>
  The handler and its two loops over the triggered downtimes call each other; they are one
  function over the kind of call.
\<close>

datatype downtime_call = Handle addr | End_triggered nat | Start_triggered nat "addr option"

partial_function (option) run_downtime ::
    "env \<times> downtime_call \<Rightarrow> engine \<Rightarrow> (result \<times> engine) option" where
  "run_downtime ec w =
     (case snd ec of
        Handle a \<Rightarrow>
          (case downtime_target w (downtime_at w a) of
             None \<Rightarrow> Some (ERROR, w)
           | Some tgt \<Rightarrow>
               if waits_for_problem a tgt w then map_option (Pair OK) (pend_downtime a tgt w)
               else if dt_is_in_effect (downtime_at w a)
               then Option.bind (stop_downtime (fst ec) a tgt w) (\<lambda>w1.
                    Option.bind (run_downtime (fst ec, End_triggered (dt_downtime_id (downtime_at w a))) w1) (\<lambda>r.
                      Some (OK, snd (delete_downtime (dt_type (downtime_at w a))
                                       (dt_downtime_id (downtime_at w a)) (snd r)))))
               else Option.bind (start_downtime (fst ec) a tgt w) (\<lambda>w1.
                      run_downtime (fst ec, Start_triggered (dt_downtime_id (downtime_at w a))
                                              (hd_opt (downtime_list w1))) w1))
      | End_triggered i \<Rightarrow>
          (case find (\<lambda>b. dt_triggered_by (downtime_at w b) = i) (downtime_list w) of
             None \<Rightarrow> Some (OK, w)
           | Some b \<Rightarrow>
               Option.bind (run_downtime (fst ec, Handle b) w) (\<lambda>r.
                 run_downtime (fst ec, End_triggered i) (snd r)))
      | Start_triggered i p \<Rightarrow>
          (case p of
             None \<Rightarrow> Some (OK, w)
           | Some b \<Rightarrow>
               if dt_triggered_by (downtime_at w b) = i
               then Option.bind (run_downtime (fst ec, Handle b) w) (\<lambda>r.
                      if b \<in> set (downtime_list (snd r))
                      then run_downtime (fst ec, Start_triggered i
                             (entry_after b (downtime_list (snd r)))) (snd r)
                      else None)
               else run_downtime (fst ec, Start_triggered i (entry_after b (downtime_list w))) w))"

definition handle_scheduled_downtime :: "env \<Rightarrow> addr \<Rightarrow> engine \<Rightarrow> (result \<times> engine) option" where
  "handle_scheduled_downtime ev a w = run_downtime (ev, Handle a) w"

definition handle_scheduled_downtime_by_id :: "env \<Rightarrow> nat \<Rightarrow> engine \<Rightarrow> (result \<times> engine) option" where
  "handle_scheduled_downtime_by_id ev i w =
     (case find_downtime None i w of
        None \<Rightarrow> Some (ERROR, w)
      | Some a \<Rightarrow> handle_scheduled_downtime ev a w)"

section \<open>Flexible downtimes of an object with a problem\<close>

partial_function (option) flex_from ::
    "env \<times> notif_target \<Rightarrow> addr option \<Rightarrow> engine \<Rightarrow> engine option" where
  "flex_from et p w =
     (case p of
        None \<Rightarrow> Some w
      | Some a \<Rightarrow>
          if downtime_target w (downtime_at w a) = Some (snd et) \<and>
             \<not> dt_fixed (downtime_at w a) \<and> \<not> dt_is_in_effect (downtime_at w a) \<and>
             dt_triggered_by (downtime_at w a) = 0 \<and>
             dt_start_time (downtime_at w a) \<le> now (fst et) \<and> now (fst et) \<le> dt_end_time (downtime_at w a)
          then Option.bind (run_downtime (fst et, Handle a)
                   (upd_downtime a (\<lambda>d. d\<lparr>dt_start_flex_downtime := True\<rparr>) w)) (\<lambda>r.
                 if a \<in> set (downtime_list (snd r))
                 then flex_from et (entry_after a (downtime_list (snd r))) (snd r)
                 else None)
          else flex_from et (entry_after a (downtime_list w)) w)"

definition check_pending_flex_host_downtime :: "env \<Rightarrow> host_id \<Rightarrow> engine \<Rightarrow> engine option" where
  "check_pending_flex_host_downtime ev h w =
     (if h_current_state (host_of w h) = HOST_UP then Some w
      else flex_from (ev, HostTarget h) (hd_opt (downtime_list w)) w)"

definition check_pending_flex_service_downtime :: "env \<Rightarrow> svc_id \<Rightarrow> engine \<Rightarrow> engine option" where
  "check_pending_flex_service_downtime ev s w =
     (if s_current_state (svc_of w s) = STATE_OK then Some w
      else flex_from (ev, ServiceTarget s) (hd_opt (downtime_list w)) w)"

section \<open>Scheduling\<close>

definition register_downtime :: "env \<Rightarrow> downtime_type \<Rightarrow> nat \<Rightarrow> engine \<Rightarrow> (result \<times> engine) option" where
  "register_downtime ev ty i w =
     (case find_downtime (Some ty) i w of
        None \<Rightarrow> Some (ERROR, w)
      | Some a \<Rightarrow>
          let d = downtime_at w a in
          (case downtime_target w d of
             None \<Rightarrow> Some (ERROR, w)
           | Some tgt \<Rightarrow>
               Option.bind
                 (case tgt of
                    ServiceTarget s \<Rightarrow>
                      add_new_comment SERVICE_COMMENT DOWNTIME_COMMENT (Some (fst s)) (Some (snd s)) (now ev)
                        (Some ''(Centreon Engine Process)'') (Some (downtime_text ev d)) False 0 False 0 w
                  | HostTarget h \<Rightarrow>
                      add_new_comment HOST_COMMENT DOWNTIME_COMMENT (Some h) None (now ev)
                        (Some ''(Centreon Engine Process)'') (Some (downtime_text ev d)) False 0 False 0 w)
                 (\<lambda>(c, w1).
                    let w2 = upd_downtime a (\<lambda>d. d\<lparr>dt_comment_id := c\<rparr>) w1 in
                    map_option (Pair OK)
                      (if dt_triggered_by d = 0
                       then
                         let new_downtime_id = next_addr w2
                         in schedule_new_event EVENT_SCHEDULED_DOWNTIME True (dt_start_time d) False 0 None
                              False (Some (IdPtr new_downtime_id i)) None 0
                              (w2\<lparr>next_addr := Suc new_downtime_id\<rparr>)
                       else Some w2))))"

definition schedule_downtime :: "env \<Rightarrow> scheduled_downtime \<Rightarrow> engine \<Rightarrow> (result \<times> nat \<times> engine) option" where
  "schedule_downtime ev d w =
     (if dt_end_time d \<le> dt_start_time d \<or> dt_end_time d \<le> now ev then Some (ERROR, 0, w)
      else
        let (n, w1) = add_new_downtime d w
        in map_option (\<lambda>(_, w2). (OK, n, w2)) (register_downtime ev (dt_type d) n w1))"

section \<open>Cancelling\<close>

definition cancel_downtime :: "env \<Rightarrow> addr \<Rightarrow> notif_target \<Rightarrow> engine \<Rightarrow> engine option" where
  "cancel_downtime ev a tgt w =
     (let d = downtime_at w a;
          w1 = (if \<not> dt_fixed d \<and> dt_incremented_pending_downtime d then add_pending (- 1) tgt w else w)
      in if dt_is_in_effect d
         then
           let w2 = broker_downtime_data NEB_downtime_stop_cancelled a w1;
               w3 = emit (Update_status tgt) (add_depth (- 1) tgt w2)
           in if depth_of tgt w3 = 0
              then notify_downtime ev tgt NOTIFICATION_DOWNTIMECANCELLED None None w3
              else Some w3
         else Some w1)"

text \<open>
  The number a pointer is cast to; the casts concern the data of downtime events, which is
  always allocated.
\<close>

definition event_data_number :: "env \<Rightarrow> timed_event \<Rightarrow> nat" where
  "event_data_number ev e =
     (case event_data e of
        Some (IdPtr p i) \<Rightarrow> pointer_value ev p
      | Some (RawPtr n) \<Rightarrow> n
      | _ \<Rightarrow> 0)"

partial_function (option) find_event_from ::
    "(timed_event \<Rightarrow> bool) \<Rightarrow> addr option \<Rightarrow> evstore \<Rightarrow> addr option option" where
  "find_event_from P p s =
     (case p of
        None \<Rightarrow> Some None
      | Some e \<Rightarrow> if P (heap s e) then Some (Some e) else find_event_from P (ev_next (heap s e)) s)"

definition remove_downtime_event :: "env \<Rightarrow> nat \<Rightarrow> engine \<Rightarrow> engine option" where
  "remove_downtime_event ev i w =
     Option.bind
       (find_event_from (\<lambda>e. event_type e = EVENT_SCHEDULED_DOWNTIME \<and> event_data_number ev e = i)
          (list_head (evs w) High) (evs w))
       (\<lambda>r. case r of None \<Rightarrow> Some w
        | Some e \<Rightarrow> map_option (\<lambda>s. w\<lparr>evs := s\<rparr>) (remove_event (Some e) High (evs w)))"

datatype unschedule_call = Unschedule "downtime_type option" nat | Unschedule_triggered nat

partial_function (option) run_unschedule ::
    "env \<times> unschedule_call \<Rightarrow> engine \<Rightarrow> (result \<times> engine) option" where
  "run_unschedule ec w =
     (case snd ec of
        Unschedule ty i \<Rightarrow>
          (case find_downtime ty i w of
             None \<Rightarrow> Some (ERROR, w)
           | Some a \<Rightarrow>
               (case downtime_target w (downtime_at w a) of
                  None \<Rightarrow> Some (ERROR, w)
                | Some tgt \<Rightarrow>
                    Option.bind (cancel_downtime (fst ec) a tgt w) (\<lambda>w1.
                    Option.bind (remove_downtime_event (fst ec) i w1) (\<lambda>w2.
                      run_unschedule (fst ec, Unschedule_triggered i)
                        (snd (delete_downtime (dt_type (downtime_at w2 a)) i w2))))))
      | Unschedule_triggered i \<Rightarrow>
          (case find (\<lambda>b. dt_triggered_by (downtime_at w b) = i) (downtime_list w) of
             None \<Rightarrow> Some (OK, w)
           | Some b \<Rightarrow>
               Option.bind (run_unschedule (fst ec, Unschedule None (dt_downtime_id (downtime_at w b))) w) (\<lambda>r.
                 run_unschedule (fst ec, Unschedule_triggered i) (snd r))))"

definition unschedule_downtime ::
    "env \<Rightarrow> downtime_type option \<Rightarrow> nat \<Rightarrow> engine \<Rightarrow> (result \<times> engine) option" where
  "unschedule_downtime ev ty i w = run_unschedule (ev, Unschedule ty i) w"

text \<open>
  Deleting by host name, service description, start time and comment: which entries match,
  and the walk that counts them. The next entry is read before the current one is cancelled.
\<close>

definition downtime_matches ::
    "string option \<Rightarrow> string option \<Rightarrow> int \<Rightarrow> string option \<Rightarrow> scheduled_downtime \<Rightarrow> bool" where
  "downtime_matches hostname service_description start_time comment d \<longleftrightarrow>
     (start_time = 0 \<or> dt_start_time d = start_time) \<and>
     (comment = None \<or> dt_comment d = comment) \<and>
     (case dt_type d of
        HOST_DOWNTIME \<Rightarrow> service_description = None \<and> (hostname = None \<or> Some (dt_host_name d) = hostname)
      | SERVICE_DOWNTIME \<Rightarrow> (hostname = None \<or> Some (dt_host_name d) = hostname) \<and>
          (service_description = None \<or> dt_service_description d = service_description))"

partial_function (option) delete_matching ::
    "env \<times> (scheduled_downtime \<Rightarrow> bool) \<Rightarrow> addr option \<Rightarrow> nat \<times> engine \<Rightarrow> (nat \<times> engine) option" where
  "delete_matching eP p nw =
     (case p of
        None \<Rightarrow> Some nw
      | Some a \<Rightarrow>
          if a \<notin> set (downtime_list (snd nw)) then None
          else if \<not> snd eP (downtime_at (snd nw) a)
          then delete_matching eP (entry_after a (downtime_list (snd nw))) nw
          else Option.bind (run_unschedule (fst eP, Unschedule (Some (dt_type (downtime_at (snd nw) a)))
                   (dt_downtime_id (downtime_at (snd nw) a))) (snd nw)) (\<lambda>r.
                 delete_matching eP (entry_after a (downtime_list (snd nw))) (fst nw + 1, snd r)))"

definition delete_downtime_by_hostname_service_description_start_time_comment ::
    "env \<Rightarrow> string option \<Rightarrow> string option \<Rightarrow> int \<Rightarrow> string option \<Rightarrow> engine \<Rightarrow> (nat \<times> engine) option" where
  "delete_downtime_by_hostname_service_description_start_time_comment ev hostname
      service_description start_time comment w =
     (if hostname = None \<and> service_description = None \<and> start_time = 0 \<and> comment = None
      then Some (0, w)
      else delete_matching (ev, downtime_matches hostname service_description start_time comment)
             (hd_opt (downtime_list w)) (0, w))"

text \<open>The partial functions compute by their equations.\<close>

declare run_downtime.simps [code] flex_from.simps [code] find_event_from.simps [code]
declare run_unschedule.simps [code] delete_matching.simps [code]

end
