(* ===== verification/Downtime_Facts.thy ===== *)
theory Downtime_Facts
  imports Downtime Check_Scheduling "HOL-Library.Sublist"
begin

text \<open>
  What keeps the scheduled downtimes consistent. The handlers change the entries only in
  their flags, and the depth kept in a host or service is the number of its entries in effect,
  in every state the operations reach. A flexible downtime triggered by a downtime that ends
  makes the handler loop; the event of a downtime that is unscheduled stays in its list.
\<close>

section \<open>Reading through updates\<close>

lemma downtime_target_cong:
  "host_list w' = host_list w \<Longrightarrow> service_list w' = service_list w \<Longrightarrow> dt_type d' = dt_type d \<Longrightarrow>
   dt_host_name d' = dt_host_name d \<Longrightarrow> dt_service_description d' = dt_service_description d \<Longrightarrow>
   downtime_target w' d' = downtime_target w d"
  by (simp add: downtime_target_def split: downtime_type.split option.split)

lemma target_simps [simp]:
  "depth_of tgt (emit a w) = depth_of tgt w" "pending_of tgt (emit a w) = pending_of tgt w"
  "target_ok tgt (emit a w) = target_ok tgt w" "downtime_target (emit a w) d = downtime_target w d"
  "depth_of tgt (upd_downtime b f w) = depth_of tgt w"
  "pending_of tgt (upd_downtime b f w) = pending_of tgt w"
  "target_ok tgt (upd_downtime b f w) = target_ok tgt w"
  "downtime_target (upd_downtime b f w) d = downtime_target w d"
  "depth_of tgt (w\<lparr>evs := s\<rparr>) = depth_of tgt w" "pending_of tgt (w\<lparr>evs := s\<rparr>) = pending_of tgt w"
  "target_ok tgt (w\<lparr>evs := s\<rparr>) = target_ok tgt w" "downtime_target (w\<lparr>evs := s\<rparr>) d = downtime_target w d"
  "depth_of tgt (w\<lparr>next_addr := n\<rparr>) = depth_of tgt w"
  "pending_of tgt (w\<lparr>next_addr := n\<rparr>) = pending_of tgt w"
  "target_ok tgt (w\<lparr>next_addr := n\<rparr>) = target_ok tgt w"
  "downtime_target (w\<lparr>next_addr := n\<rparr>) d = downtime_target w d"
  "depth_of tgt (w\<lparr>downtime_list := l\<rparr>) = depth_of tgt w"
  "pending_of tgt (w\<lparr>downtime_list := l\<rparr>) = pending_of tgt w"
  "target_ok tgt (w\<lparr>downtime_list := l\<rparr>) = target_ok tgt w"
  "downtime_target (w\<lparr>downtime_list := l\<rparr>) d = downtime_target w d"
  by (auto simp: depth_of_def pending_of_def target_ok_def downtime_target_def access_defs
      upd_downtime_def split: notif_target.split downtime_type.split option.split)

lemma add_depth_simps [simp]:
  "depth_of t (add_depth k tgt w) = (if t = tgt then depth_of t w + k else depth_of t w)"
  "pending_of t (add_depth k tgt w) = pending_of t w"
  "target_ok t (add_depth k tgt w) = target_ok t w"
  "downtime_target (add_depth k tgt w) d = downtime_target w d"
  "downtime_list (add_depth k tgt w) = downtime_list w" "downtime_at (add_depth k tgt w) = downtime_at w"
  "evs (add_depth k tgt w) = evs w" "next_addr (add_depth k tgt w) = next_addr w"
  "host_list (add_depth k tgt w) = host_list w" "service_list (add_depth k tgt w) = service_list w"
  "next_downtime_id (add_depth k tgt w) = next_downtime_id w"
  "defer_downtime_sorting (add_depth k tgt w) = defer_downtime_sorting w"
  by (auto simp: depth_of_def pending_of_def target_ok_def add_depth_def downtime_target_def access_defs
      split: notif_target.split downtime_type.split option.split)

lemma add_pending_simps [simp]:
  "depth_of t (add_pending k tgt w) = depth_of t w"
  "pending_of t (add_pending k tgt w) = (if t = tgt then pending_of t w + k else pending_of t w)"
  "target_ok t (add_pending k tgt w) = target_ok t w"
  "downtime_target (add_pending k tgt w) d = downtime_target w d"
  "downtime_list (add_pending k tgt w) = downtime_list w" "downtime_at (add_pending k tgt w) = downtime_at w"
  "evs (add_pending k tgt w) = evs w" "next_addr (add_pending k tgt w) = next_addr w"
  "host_list (add_pending k tgt w) = host_list w" "service_list (add_pending k tgt w) = service_list w"
  "next_downtime_id (add_pending k tgt w) = next_downtime_id w"
  "defer_downtime_sorting (add_pending k tgt w) = defer_downtime_sorting w"
  by (auto simp: depth_of_def pending_of_def target_ok_def add_pending_def downtime_target_def access_defs
      split: notif_target.split downtime_type.split option.split)

lemma upd_downtime_simps [simp]:
  "downtime_list (upd_downtime a f w) = downtime_list w"
  "downtime_at (upd_downtime a f w) = (downtime_at w)(a := f (downtime_at w a))"
  "evs (upd_downtime a f w) = evs w" "next_addr (upd_downtime a f w) = next_addr w"
  "host_list (upd_downtime a f w) = host_list w" "service_list (upd_downtime a f w) = service_list w"
  "next_downtime_id (upd_downtime a f w) = next_downtime_id w"
  "defer_downtime_sorting (upd_downtime a f w) = defer_downtime_sorting w"
  by (simp_all add: upd_downtime_def)

lemma emit_downtime_simps [simp]:
  "downtime_list (emit x w) = downtime_list w" "downtime_at (emit x w) = downtime_at w"
  "host_list (emit x w) = host_list w" "service_list (emit x w) = service_list w"
  "next_downtime_id (emit x w) = next_downtime_id w"
  "defer_downtime_sorting (emit x w) = defer_downtime_sorting w"
  by (simp_all add: emit_def)

lemma delete_comment_downtime_simps [simp]:
  "downtime_list (snd (delete_comment ty i w)) = downtime_list w"
  "downtime_at (snd (delete_comment ty i w)) = downtime_at w"
  "host_list (snd (delete_comment ty i w)) = host_list w"
  "service_list (snd (delete_comment ty i w)) = service_list w"
  "next_downtime_id (snd (delete_comment ty i w)) = next_downtime_id w"
  "defer_downtime_sorting (snd (delete_comment ty i w)) = defer_downtime_sorting w"
  "evs (snd (delete_comment ty i w)) = evs w" "next_addr (snd (delete_comment ty i w)) = next_addr w"
  "depth_of tgt (snd (delete_comment ty i w)) = depth_of tgt w"
  "pending_of tgt (snd (delete_comment ty i w)) = pending_of tgt w"
  "downtime_target (snd (delete_comment ty i w)) d = downtime_target w d"
  by (auto simp: delete_comment_def Let_def emit_def depth_of_def pending_of_def downtime_target_def
      split: option.split notif_target.split downtime_type.split)

section \<open>The downtime view of an engine\<close>

text \<open>Everything the depth of an object depends on.\<close>

definition same_downtimes :: "engine \<Rightarrow> engine \<Rightarrow> bool" where
  "same_downtimes w w' \<longleftrightarrow>
     downtime_list w' = downtime_list w \<and> downtime_at w' = downtime_at w \<and>
     host_list w' = host_list w \<and> service_list w' = service_list w \<and>
     next_downtime_id w' = next_downtime_id w \<and> defer_downtime_sorting w' = defer_downtime_sorting w \<and>
     next_addr w \<le> next_addr w' \<and>
     (\<forall>tgt. depth_of tgt w' = depth_of tgt w)"

lemma core_reads:
  "s_scheduled_downtime_depth (svc_core v) = s_scheduled_downtime_depth v"
  "s_pending_flex_downtime (svc_core v) = s_pending_flex_downtime v"
  "s_current_state (svc_core v) = s_current_state v"
  "h_scheduled_downtime_depth (host_core u) = h_scheduled_downtime_depth u"
  "h_pending_flex_downtime (host_core u) = h_pending_flex_downtime u"
  "h_current_state (host_core u) = h_current_state u"
  by (simp_all add: svc_core_def host_core_def)

lemma notify_downtime_frame:
  assumes "notify_downtime ev tgt ty a c w = Some w'"
  shows "notif_frame w w'"
  using assms host_notification_frame service_notification_frame
  by (auto simp: notify_downtime_def split: notif_target.splits)

lemma notif_frame_target:
  assumes "notif_frame w w'"
  shows "depth_of t w' = depth_of t w" "pending_of t w' = pending_of t w"
    "target_ok t w' = target_ok t w" "downtime_target w' d = downtime_target w d"
proof -
  have s: "svc_core (svc_of w' x) = svc_core (svc_of w x)"
    and h: "host_core (host_of w' y) = host_core (host_of w y)" for x y
    using assms unfolding notif_frame_def by (metis, metis)
  show "depth_of t w' = depth_of t w" "pending_of t w' = pending_of t w" "target_ok t w' = target_ok t w"
    using s h core_reads unfolding depth_of_def pending_of_def target_ok_def
    by (cases t; simp; metis)+
  show "downtime_target w' d = downtime_target w d"
    using assms by (intro downtime_target_cong) (simp_all add: notif_frame_def)
qed

lemma notify_same_downtimes:
  assumes "notify_downtime ev tgt ty a c w = Some w'"
  shows "same_downtimes w w'"
  using notify_downtime_frame [OF assms] notif_frame_target(1) [OF notify_downtime_frame [OF assms]]
  by (simp add: same_downtimes_def notif_frame_def)

lemma schedule_new_event_same_downtimes:
  assumes "schedule_new_event ty hp t rec interval timing cmp data args opts w = Some w'"
  shows "same_downtimes w w'"
  using assms by (auto simp: same_downtimes_def schedule_new_event_def Let_def)

lemma same_downtimes_trans: "same_downtimes w w1 \<Longrightarrow> same_downtimes w1 w2 \<Longrightarrow> same_downtimes w w2"
  by (auto simp: same_downtimes_def)

lemma same_downtimes_basic [simp]:
  "same_downtimes w w" "same_downtimes w (emit x w)" "same_downtimes w (add_pending k tgt w)"
  "same_downtimes w (w\<lparr>next_addr := Suc (next_addr w)\<rparr>)" "same_downtimes w (w\<lparr>evs := s\<rparr>)"
  "same_downtimes w (snd (delete_comment ty i w))"
  by (simp_all add: same_downtimes_def)

lemma set_subseq: "subseq xs ys \<Longrightarrow> set xs \<subseteq> set ys"
  by (auto simp: subseq_conv_nths dest: in_set_nthsD)

lemma subseq_distinct: "subseq xs ys \<Longrightarrow> distinct ys \<Longrightarrow> distinct xs"
  by (auto simp: subseq_conv_nths distinct_nthsI)

lemma sorted_subseq: "subseq xs ys \<Longrightarrow> sorted (map k ys) \<Longrightarrow> sorted (map k xs)" for k :: "'a \<Rightarrow> int"
  by (induction rule: list_emb.induct) (auto dest: set_subseq)

text \<open>What the handlers never change: the entries but for their flags, and the order of the list.\<close>

definition dt_static :: "scheduled_downtime \<Rightarrow> scheduled_downtime" where
  "dt_static d = d\<lparr>dt_is_in_effect := False, dt_start_flex_downtime := False,
     dt_incremented_pending_downtime := False, dt_comment_id := 0\<rparr>"

definition downtime_frame :: "engine \<Rightarrow> engine \<Rightarrow> bool" where
  "downtime_frame w w' \<longleftrightarrow>
     subseq (downtime_list w') (downtime_list w) \<and>
     (\<forall>a. dt_static (downtime_at w' a) = dt_static (downtime_at w a)) \<and>
     host_list w' = host_list w \<and> service_list w' = service_list w \<and>
     next_downtime_id w' = next_downtime_id w \<and> defer_downtime_sorting w' = defer_downtime_sorting w \<and>
     next_addr w \<le> next_addr w'"

lemma downtime_frame_trans: "downtime_frame w w1 \<Longrightarrow> downtime_frame w1 w2 \<Longrightarrow> downtime_frame w w2"
  unfolding downtime_frame_def by (auto intro: subseq_order.trans)

lemma same_downtimes_frame: "same_downtimes w w' \<Longrightarrow> downtime_frame w w'"
  by (simp add: same_downtimes_def downtime_frame_def)

lemma dt_static_reads:
  "dt_type (dt_static d) = dt_type d" "dt_downtime_id (dt_static d) = dt_downtime_id d"
  "dt_triggered_by (dt_static d) = dt_triggered_by d" "dt_host_name (dt_static d) = dt_host_name d"
  "dt_service_description (dt_static d) = dt_service_description d"
  "dt_start_time (dt_static d) = dt_start_time d" "dt_end_time (dt_static d) = dt_end_time d"
  "dt_fixed (dt_static d) = dt_fixed d"
  by (simp_all add: dt_static_def)

lemma dt_static_eqD:
  assumes "dt_static d' = dt_static d"
  shows "dt_type d' = dt_type d" "dt_downtime_id d' = dt_downtime_id d"
    "dt_triggered_by d' = dt_triggered_by d" "dt_host_name d' = dt_host_name d"
    "dt_service_description d' = dt_service_description d" "dt_start_time d' = dt_start_time d"
    "dt_end_time d' = dt_end_time d" "dt_fixed d' = dt_fixed d"
  using assms dt_static_reads by metis+

lemma downtime_frameD:
  assumes "downtime_frame w w'"
  shows "downtime_target w' d = downtime_target w d"
    "dt_downtime_id (downtime_at w' a) = dt_downtime_id (downtime_at w a)"
    "dt_triggered_by (downtime_at w' a) = dt_triggered_by (downtime_at w a)"
    "dt_type (downtime_at w' a) = dt_type (downtime_at w a)"
    "dt_start_time (downtime_at w' a) = dt_start_time (downtime_at w a)"
    "downtime_target w' (downtime_at w' a) = downtime_target w (downtime_at w a)"
    "set (downtime_list w') \<subseteq> set (downtime_list w)"
proof -
  have st: "dt_static (downtime_at w' a) = dt_static (downtime_at w a)"
    using assms by (simp add: downtime_frame_def)
  note dt_static_eqD [OF st]
  then show "dt_downtime_id (downtime_at w' a) = dt_downtime_id (downtime_at w a)"
    "dt_triggered_by (downtime_at w' a) = dt_triggered_by (downtime_at w a)"
    "dt_type (downtime_at w' a) = dt_type (downtime_at w a)"
    "dt_start_time (downtime_at w' a) = dt_start_time (downtime_at w a)"
    "downtime_target w' (downtime_at w' a) = downtime_target w (downtime_at w a)"
    using assms by (auto simp: downtime_frame_def intro!: downtime_target_cong)
  show "downtime_target w' d = downtime_target w d"
    using assms by (intro downtime_target_cong) (simp_all add: downtime_frame_def)
  show "set (downtime_list w') \<subseteq> set (downtime_list w)"
    using assms by (auto simp: downtime_frame_def dest: set_subseq)
qed

text \<open>The entries are distinct, their identifiers too, and a trigger is older than what it triggers.\<close>

definition entries_ok :: "engine \<Rightarrow> bool" where
  "entries_ok w \<longleftrightarrow>
     distinct (downtime_list w) \<and>
     inj_on (\<lambda>a. dt_downtime_id (downtime_at w a)) (set (downtime_list w)) \<and>
     (\<forall>a\<in>set (downtime_list w). a < next_addr w \<and>
        dt_triggered_by (downtime_at w a) < dt_downtime_id (downtime_at w a) \<and>
        dt_downtime_id (downtime_at w a) < next_downtime_id w) \<and>
     0 < next_downtime_id w \<and>
     (\<not> defer_downtime_sorting w \<longrightarrow> sorted (map (\<lambda>a. dt_start_time (downtime_at w a)) (downtime_list w)))"

lemma entries_ok_frame:
  assumes "downtime_frame w w'" "entries_ok w"
  shows "entries_ok w'"
proof -
  note fD = downtime_frameD [OF assms(1)]
  have sub: "subseq (downtime_list w') (downtime_list w)"
    using assms(1) by (simp add: downtime_frame_def)
  have "sorted (map (\<lambda>a. dt_start_time (downtime_at w' a)) (downtime_list w'))"
    if "\<not> defer_downtime_sorting w'"
    using sorted_subseq [OF sub, of "\<lambda>a. dt_start_time (downtime_at w a)"] that assms
    by (simp add: fD(5) entries_ok_def downtime_frame_def)
  moreover have "distinct (downtime_list w')"
    using sub assms(2) by (simp add: entries_ok_def subseq_distinct)
  moreover have "inj_on (\<lambda>a. dt_downtime_id (downtime_at w' a)) (set (downtime_list w'))"
    using assms(2) fD(7) by (auto simp: entries_ok_def fD(2) intro: inj_on_subset)
  moreover have "\<forall>a\<in>set (downtime_list w'). a < next_addr w'"
    using assms fD(7) by (fastforce simp: entries_ok_def downtime_frame_def)
  ultimately show ?thesis
    using assms fD(7) by (auto simp: entries_ok_def fD(2,3) downtime_frame_def)
qed

section \<open>The depth counts the downtimes in effect\<close>

definition in_effect_on :: "engine \<Rightarrow> notif_target \<Rightarrow> addr set" where
  "in_effect_on w tgt =
     {a \<in> set (downtime_list w). dt_is_in_effect (downtime_at w a) \<and>
        downtime_target w (downtime_at w a) = Some tgt}"

text \<open>\<open>S\<close> are the entries that are being ended: no longer counted, but not yet deleted.\<close>

definition depth_ok :: "addr set \<Rightarrow> engine \<Rightarrow> bool" where
  "depth_ok S w \<longleftrightarrow> S \<subseteq> set (downtime_list w) \<and>
     (\<forall>tgt. depth_of tgt w = int (card (in_effect_on w tgt - S)))"

lemma finite_in_effect [simp]: "finite (in_effect_on w tgt)"
  by (rule finite_subset [of _ "set (downtime_list w)"]) (auto simp: in_effect_on_def)

lemma depth_ok_same: "same_downtimes w w' \<Longrightarrow> depth_ok S w \<Longrightarrow> depth_ok S w'"
proof -
  assume s: "same_downtimes w w'" and d: "depth_ok S w"
  have "in_effect_on w' tgt = in_effect_on w tgt" for tgt
    using s downtime_frameD(1) [OF same_downtimes_frame [OF s]]
    by (auto simp: in_effect_on_def same_downtimes_def)
  with s d show ?thesis by (auto simp: depth_ok_def same_downtimes_def)
qed

lemma depth_ok_flags:
  assumes "depth_ok S w" "\<And>d. dt_static (f d) = dt_static d"
    "dt_is_in_effect (f (downtime_at w a)) = dt_is_in_effect (downtime_at w a)"
  shows "depth_ok S (upd_downtime a f w)" "downtime_frame w (upd_downtime a f w)"
proof -
  show fr: "downtime_frame w (upd_downtime a f w)"
    using assms(2) by (auto simp: downtime_frame_def)
  have "downtime_target w (f (downtime_at w a)) = downtime_target w (downtime_at w a)"
    using downtime_frameD(6) [OF fr, of a] by simp
  then have "in_effect_on (upd_downtime a f w) tgt = in_effect_on w tgt" for tgt
    using assms(3) by (auto simp: in_effect_on_def)
  with assms(1) show "depth_ok S (upd_downtime a f w)" by (auto simp: depth_ok_def)
qed

lemma pend_downtime_ok:
  assumes "pend_downtime a tgt w = Some w'"
  shows "downtime_frame w w'" "depth_ok S w \<Longrightarrow> depth_ok S w'"
proof -
  let ?f = "\<lambda>d. d\<lparr>dt_incremented_pending_downtime := True\<rparr>"
  have s: "same_downtimes (upd_downtime a ?f (add_pending 1 tgt w)) w'"
    using assms schedule_new_event_same_downtimes by (auto simp: pend_downtime_def)
  have f: "downtime_frame (add_pending 1 tgt w) (upd_downtime a ?f (add_pending 1 tgt w))"
    by (auto simp: downtime_frame_def dt_static_def)
  show "downtime_frame w w'"
    by (rule downtime_frame_trans [OF _ downtime_frame_trans [OF f same_downtimes_frame [OF s]]])
      (simp add: same_downtimes_frame)
  assume "depth_ok S w"
  then have "depth_ok S (add_pending 1 tgt w)" by (rule depth_ok_same [rotated]) simp
  then have "depth_ok S (upd_downtime a ?f (add_pending 1 tgt w))"
    by (rule depth_ok_flags) (simp_all add: dt_static_def)
  then show "depth_ok S w'" by (rule depth_ok_same [OF s])
qed

text \<open>Ending takes the entry out of the count, starting puts it in.\<close>

lemma notify_if_same:
  assumes "(if c then notify_downtime ev tgt ty x y w else Some w) = Some w'"
  shows "same_downtimes w w'"
  using assms notify_same_downtimes by (auto split: if_splits)

lemma broker_downtime_same: "same_downtimes w (broker_downtime_data e a w)"
  by (simp add: broker_downtime_data_def)

lemma same_downtimes_add_depth:
  "same_downtimes w w' \<Longrightarrow> same_downtimes (add_depth k tgt w) (add_depth k tgt w')"
  by (simp add: same_downtimes_def)

lemma same_downtimes_upd:
  "same_downtimes w w' \<Longrightarrow> same_downtimes (upd_downtime a f w) (upd_downtime a f w')"
  by (simp add: same_downtimes_def)

lemma stop_downtime_same:
  assumes "stop_downtime ev a tgt w = Some w'"
  shows "same_downtimes (add_depth (- 1) tgt w) w'"
proof -
  let ?w1 = "add_depth (- 1) tgt (broker_downtime_data NEB_downtime_stop_normal a w)"
  obtain w2 where w2: "(if depth_of tgt ?w1 = 0 then notify_downtime ev tgt NOTIFICATION_DOWNTIMEEND
        (dt_author (downtime_at w a)) (dt_comment (downtime_at w a)) ?w1 else Some ?w1) = Some w2"
    "w' = emit (Update_status tgt) w2 \<or> w' = add_pending (- 1) tgt (emit (Update_status tgt) w2)"
    using assms unfolding stop_downtime_def Let_def map_option_eq_Some by (metis (full_types))
  have "same_downtimes w2 w'" using w2(2) by (auto simp: same_downtimes_def)
  from same_downtimes_trans [OF notify_if_same [OF w2(1)] this]
  show ?thesis
    using same_downtimes_trans same_downtimes_add_depth [OF broker_downtime_same] by blast
qed

lemma start_downtime_same:
  assumes "start_downtime ev a tgt w = Some w'"
  shows "same_downtimes (upd_downtime a (\<lambda>d. d\<lparr>dt_is_in_effect := True\<rparr>) (add_depth 1 tgt w)) w'"
proof -
  let ?w1 = "broker_downtime_data NEB_downtime_start a w"
  let ?f = "\<lambda>d. d\<lparr>dt_is_in_effect := True\<rparr>"
  obtain w2 where w2: "(if depth_of tgt ?w1 = 0 then notify_downtime ev tgt NOTIFICATION_DOWNTIMESTART
        (dt_author (downtime_at w a)) (dt_comment (downtime_at w a)) ?w1 else Some ?w1) = Some w2"
    and s: "\<exists>t data. schedule_new_event EVENT_SCHEDULED_DOWNTIME True t False 0 None False data None 0
       ((emit (Update_status tgt) (upd_downtime a ?f (add_depth 1 tgt w2)))\<lparr>next_addr :=
          Suc (next_addr (emit (Update_status tgt) (upd_downtime a ?f (add_depth 1 tgt w2))))\<rparr>) = Some w'"
    using assms unfolding start_downtime_def Let_def bind_eq_Some_conv by blast
  have "same_downtimes (emit (Update_status tgt) (upd_downtime a ?f (add_depth 1 tgt w2))) w'"
    using s schedule_new_event_same_downtimes same_downtimes_basic(4) same_downtimes_trans by blast
  moreover have "same_downtimes (upd_downtime a ?f (add_depth 1 tgt w)) (upd_downtime a ?f (add_depth 1 tgt w2))"
    by (intro same_downtimes_upd same_downtimes_add_depth)
      (rule same_downtimes_trans [OF broker_downtime_same notify_if_same [OF w2]])
  ultimately show ?thesis
    using same_downtimes_trans same_downtimes_basic(2) by blast
qed

lemma depth_ok_stop:
  assumes "depth_ok S w" "a \<in> set (downtime_list w)" "a \<notin> S"
    "downtime_target w (downtime_at w a) = Some tgt" "dt_is_in_effect (downtime_at w a)"
  shows "depth_ok (insert a S) (add_depth (- 1) tgt w)"
proof -
  have eff: "in_effect_on (add_depth (- 1) tgt w) t = in_effect_on w t" for t
    by (simp add: in_effect_on_def)
  have "in_effect_on w t - insert a S = (if t = tgt then (in_effect_on w t - S) - {a} else in_effect_on w t - S)"
    for t using assms(4) by (auto simp: in_effect_on_def)
  moreover have a: "a \<in> in_effect_on w tgt - S" using assms by (simp add: in_effect_on_def)
  then have "int (card ((in_effect_on w tgt - S) - {a})) = int (card (in_effect_on w tgt - S)) - 1"
    using card_gt_0_iff [of "in_effect_on w tgt - S"] by (subst card_Diff_singleton) (auto simp: of_nat_diff)
  ultimately show ?thesis
    using assms(1,2) by (auto simp: depth_ok_def eff)
qed

lemma depth_ok_start:
  assumes "depth_ok S w" "a \<in> set (downtime_list w)" "a \<notin> S"
    "downtime_target w (downtime_at w a) = Some tgt" "\<not> dt_is_in_effect (downtime_at w a)"
  shows "depth_ok S (upd_downtime a (\<lambda>d. d\<lparr>dt_is_in_effect := True\<rparr>) (add_depth 1 tgt w))" (is "depth_ok S ?w")
proof -
  have "downtime_target w (downtime_at w a\<lparr>dt_is_in_effect := True\<rparr>) = Some tgt"
    using assms(4) downtime_target_cong [of w w "downtime_at w a\<lparr>dt_is_in_effect := True\<rparr>" "downtime_at w a"]
    by simp
  then have eff: "in_effect_on ?w t - S = (if t = tgt then insert a (in_effect_on w t - S) else in_effect_on w t - S)" for t
    using assms by (auto simp: in_effect_on_def)
  have "a \<notin> in_effect_on w tgt - S" using assms(5) by (simp add: in_effect_on_def)
  then have "card (insert a (in_effect_on w tgt - S)) = Suc (card (in_effect_on w tgt - S))" by simp
  with assms(1) show ?thesis by (auto simp: depth_ok_def eff)
qed

text \<open>Deleting an entry.\<close>

lemma find_downtime_SomeD:
  "find_downtime ty i w = Some a \<Longrightarrow> a \<in> set (downtime_list w) \<and> dt_downtime_id (downtime_at w a) = i \<and>
     (ty = None \<or> ty = Some (dt_type (downtime_at w a)))"
  by (auto simp: find_downtime_def find_Some_iff)

lemma find_downtime_None:
  "find_downtime ty i w = None \<longleftrightarrow>
     (\<forall>a\<in>set (downtime_list w). dt_downtime_id (downtime_at w a) = i \<longrightarrow>
        ty \<noteq> None \<and> ty \<noteq> Some (dt_type (downtime_at w a)))"
  by (auto simp: find_downtime_def find_None_iff)

lemma find_downtime_unique:
  assumes "entries_ok w" "a \<in> set (downtime_list w)" "ty = None \<or> ty = Some (dt_type (downtime_at w a))"
  shows "find_downtime ty (dt_downtime_id (downtime_at w a)) w = Some a"
proof (cases "find_downtime ty (dt_downtime_id (downtime_at w a)) w")
  case None
  with assms show ?thesis by (auto simp: find_downtime_None)
next
  case (Some b)
  from find_downtime_SomeD [OF this] assms(1,2) have "b = a"
    by (auto simp: entries_ok_def inj_on_def)
  with Some show ?thesis by simp
qed

lemma delete_downtime_effect:
  "downtime_frame w (snd (delete_downtime ty i w))"
  "downtime_at (snd (delete_downtime ty i w)) = downtime_at w"
  "depth_of tgt (snd (delete_downtime ty i w)) = depth_of tgt w"
  "evs (snd (delete_downtime ty i w)) = evs w"
  "find_downtime (Some ty) i w = Some a \<Longrightarrow>
     downtime_list (snd (delete_downtime ty i w)) = remove1 a (downtime_list w)"
proof -
  have rem: "subseq (remove1 a l) l" for a :: addr and l
    by (induction l) auto
  show "downtime_frame w (snd (delete_downtime ty i w))"
    "downtime_at (snd (delete_downtime ty i w)) = downtime_at w"
    "depth_of tgt (snd (delete_downtime ty i w)) = depth_of tgt w"
    "evs (snd (delete_downtime ty i w)) = evs w"
    using rem
    by (auto simp: delete_downtime_def broker_downtime_data_def downtime_frame_def Let_def split: option.split)
  show "find_downtime (Some ty) i w = Some a \<Longrightarrow>
      downtime_list (snd (delete_downtime ty i w)) = remove1 a (downtime_list w)"
    by (simp add: delete_downtime_def broker_downtime_data_def Let_def)
qed

lemma depth_ok_deleted:
  assumes "entries_ok w" "depth_ok (insert a S) w" "a \<notin> S" "dt_type (downtime_at w a) = ty"
    "dt_downtime_id (downtime_at w a) = i"
  shows "depth_ok S (snd (delete_downtime ty i w))" (is "depth_ok S ?w")
proof -
  have a: "a \<in> set (downtime_list w)" using assms(2) by (simp add: depth_ok_def)
  then have "find_downtime (Some ty) i w = Some a"
    using find_downtime_unique [OF assms(1) a, of "Some ty"] assms(4,5) by simp
  note eff = delete_downtime_effect(5) [OF this] delete_downtime_effect(2) [of ty i w] delete_downtime_effect(3) [of _ ty i w]
  have dist: "distinct (downtime_list w)" using assms(1) by (simp add: entries_ok_def)
  have "in_effect_on ?w t - S = in_effect_on w t - insert a S" for t
    using assms(3) dist downtime_frameD(1) [OF delete_downtime_effect(1)]
    by (auto simp: in_effect_on_def eff)
  then show ?thesis
    using assms(2,3) dist by (auto simp: depth_ok_def eff in_set_remove1)
qed

lemma depth_ok_delete_idle:
  assumes "entries_ok w" "depth_ok S w"
    "\<And>a. find_downtime (Some ty) i w = Some a \<Longrightarrow> a \<notin> S \<and> \<not> dt_is_in_effect (downtime_at w a)"
  shows "depth_ok S (snd (delete_downtime ty i w))"
proof (cases "find_downtime (Some ty) i w")
  case None
  with assms(2) show ?thesis by (simp add: delete_downtime_def)
next
  case (Some a)
  note a = find_downtime_SomeD [OF Some]
  have "depth_ok (insert a S) w"
  proof -
    have "in_effect_on w t - insert a S = in_effect_on w t - S" for t
      using assms(3) [OF Some] by (auto simp: in_effect_on_def)
    with assms(2) a show ?thesis by (simp add: depth_ok_def)
  qed
  from depth_ok_deleted [OF assms(1) this, of ty i] a assms(3) [OF Some] show ?thesis by auto
qed

lemma entry_after_in: "entry_after a xs = Some b \<Longrightarrow> b \<in> set xs"
  by (induction xs) (auto split: if_splits dest: hd_opt_in_set)

section \<open>The handler\<close>

definition call_ok :: "downtime_call \<Rightarrow> addr set \<Rightarrow> engine \<Rightarrow> bool" where
  "call_ok c S w \<longleftrightarrow>
     (case c of
        Handle a \<Rightarrow> a \<in> set (downtime_list w) \<and>
          (\<forall>s\<in>S. dt_downtime_id (downtime_at w s) < dt_downtime_id (downtime_at w a))
      | End_triggered i \<Rightarrow> \<forall>s\<in>S. dt_downtime_id (downtime_at w s) \<le> i
      | Start_triggered i p \<Rightarrow> set_option p \<subseteq> set (downtime_list w) \<and>
          (\<forall>s\<in>S. dt_downtime_id (downtime_at w s) \<le> i))"

definition run_keeps :: "downtime_call \<Rightarrow> engine \<Rightarrow> engine \<Rightarrow> bool" where
  "run_keeps c w w' \<longleftrightarrow> downtime_frame w w' \<and>
     (\<forall>S. entries_ok w \<longrightarrow> call_ok c S w \<longrightarrow> depth_ok S w \<longrightarrow> depth_ok S w')"

lemma handle_ending_keeps:
  assumes tgt: "downtime_target w (downtime_at w a) = Some tgt" and eff: "dt_is_in_effect (downtime_at w a)"
    and s: "stop_downtime ev a tgt w = Some w1"
    and r: "run_keeps (End_triggered (dt_downtime_id (downtime_at w a))) w1 w2"
  shows "run_keeps (Handle a) w
    (snd (delete_downtime (dt_type (downtime_at w a)) (dt_downtime_id (downtime_at w a)) w2))"
    (is "run_keeps _ w ?w3")
proof -
  have f1: "downtime_frame w w1"
    using downtime_frame_trans [OF _ same_downtimes_frame [OF stop_downtime_same [OF s]]]
    by (simp add: downtime_frame_def)
  note f2 = downtime_frame_trans [OF f1, of w2]
  have f12: "downtime_frame w w2" using f2 r by (simp add: run_keeps_def)
  have "depth_ok S ?w3" if ok: "entries_ok w" "call_ok (Handle a) S w" "depth_ok S w" for S
  proof -
    have a: "a \<in> set (downtime_list w)" "a \<notin> S" using ok(2) by (auto simp: call_ok_def)
    have "depth_ok (insert a S) w1"
      by (rule depth_ok_same [OF stop_downtime_same [OF s] depth_ok_stop [OF ok(3) a tgt eff]])
    moreover have "call_ok (End_triggered (dt_downtime_id (downtime_at w a))) (insert a S) w1"
      using ok(2) by (auto simp: call_ok_def downtime_frameD(2) [OF f1])
    ultimately have "depth_ok (insert a S) w2"
      using r entries_ok_frame [OF f1 ok(1)] by (simp add: run_keeps_def)
    then show ?thesis
      using depth_ok_deleted [OF entries_ok_frame [OF f12 ok(1)] _ a(2)] downtime_frameD(2,4) [OF f12]
      by simp
  qed
  then show ?thesis
    using downtime_frame_trans [OF f12 delete_downtime_effect(1)] by (simp add: run_keeps_def)
qed

lemma handle_starting_keeps:
  assumes tgt: "downtime_target w (downtime_at w a) = Some tgt" and eff: "\<not> dt_is_in_effect (downtime_at w a)"
    and s: "start_downtime ev a tgt w = Some w1"
    and r: "run_keeps (Start_triggered (dt_downtime_id (downtime_at w a)) (hd_opt (downtime_list w1))) w1 w2"
  shows "run_keeps (Handle a) w w2"
proof -
  let ?w0 = "upd_downtime a (\<lambda>d. d\<lparr>dt_is_in_effect := True\<rparr>) (add_depth 1 tgt w)"
  have "downtime_frame w ?w0" by (auto simp: downtime_frame_def dt_static_def)
  then have f1: "downtime_frame w w1"
    by (rule downtime_frame_trans [OF _ same_downtimes_frame [OF start_downtime_same [OF s]]])
  have "depth_ok S w2" if ok: "entries_ok w" "call_ok (Handle a) S w" "depth_ok S w" for S
  proof -
    have a: "a \<in> set (downtime_list w)" "a \<notin> S" using ok(2) by (auto simp: call_ok_def)
    have "depth_ok S w1"
      by (rule depth_ok_same [OF start_downtime_same [OF s] depth_ok_start [OF ok(3) a tgt eff]])
    moreover have "call_ok (Start_triggered (dt_downtime_id (downtime_at w a)) (hd_opt (downtime_list w1))) S w1"
      using ok(2) by (cases "downtime_list w1") (auto simp: call_ok_def downtime_frameD(2) [OF f1])
    ultimately show ?thesis
      using r entries_ok_frame [OF f1 ok(1)] by (simp add: run_keeps_def)
  qed
  with f1 r show ?thesis by (auto simp: run_keeps_def intro: downtime_frame_trans)
qed

lemma run_keeps_refl [simp]: "run_keeps c w w"
  by (simp add: run_keeps_def downtime_frame_def)

lemma run_keeps_trans:
  assumes "run_keeps c w w1" "run_keeps c' w1 w2"
    "\<And>S. entries_ok w \<Longrightarrow> call_ok c0 S w \<Longrightarrow> depth_ok S w \<Longrightarrow> call_ok c S w"
    "\<And>S. entries_ok w \<Longrightarrow> call_ok c0 S w \<Longrightarrow> call_ok c' S w1"
  shows "run_keeps c0 w w2"
  using assms entries_ok_frame unfolding run_keeps_def by (blast intro: downtime_frame_trans)

text \<open>A triggered entry is younger than the entries being ended.\<close>

lemma call_ok_triggered:
  assumes "entries_ok w" "b \<in> set (downtime_list w)" "dt_triggered_by (downtime_at w b) = i"
    "\<forall>s\<in>S. dt_downtime_id (downtime_at w s) \<le> i"
  shows "call_ok (Handle b) S w"
  using assms by (fastforce simp: call_ok_def entries_ok_def)

lemma run_downtime_keeps:
  assumes "run_downtime ec0 w0 = Some r0"
  shows "run_keeps (snd ec0) w0 (snd r0)"
proof (rule run_downtime.raw_induct [OF _ assms, of "\<lambda>ec w r. run_keeps (snd ec) w (snd r)"], goal_cases)
  case (1 f ec w r)
  note IH = 1(1)
  note run = 1(2)
  show ?case
  proof (cases "snd ec")
    case (Handle a)
    show ?thesis
    proof (cases "downtime_target w (downtime_at w a)")
      case None
      with run Handle show ?thesis by auto
    next
      case (Some tgt)
      show ?thesis
      proof (cases "waits_for_problem a tgt w")
        case True
        with run Handle Some show ?thesis
          by (auto simp: run_keeps_def pend_downtime_ok)
      next
        case waits: False
        show ?thesis
        proof (cases "dt_is_in_effect (downtime_at w a)")
          case True
          with run Handle Some waits obtain w1 r2 where
            "stop_downtime (fst ec) a tgt w = Some w1"
            "f (fst ec, End_triggered (dt_downtime_id (downtime_at w a))) w1 = Some r2"
            "r = (OK, snd (delete_downtime (dt_type (downtime_at w a)) (dt_downtime_id (downtime_at w a)) (snd r2)))"
            by (auto simp: bind_eq_Some_conv)
          with handle_ending_keeps [OF Some True] IH Handle show ?thesis by fastforce
        next
          case False
          with run Handle Some waits obtain w1 where
            "start_downtime (fst ec) a tgt w = Some w1"
            "f (fst ec, Start_triggered (dt_downtime_id (downtime_at w a)) (hd_opt (downtime_list w1))) w1 = Some r"
            by (auto simp: bind_eq_Some_conv)
          with handle_starting_keeps [OF Some False] IH Handle show ?thesis by fastforce
        qed
      qed
    qed
  next
    case (End_triggered i)
    show ?thesis
    proof (cases "find (\<lambda>b. dt_triggered_by (downtime_at w b) = i) (downtime_list w)")
      case None
      with run End_triggered show ?thesis by auto
    next
      case (Some b)
      then have b: "b \<in> set (downtime_list w)" "dt_triggered_by (downtime_at w b) = i"
        by (auto simp: find_Some_iff)
      from run End_triggered Some obtain r1 where
        r1: "f (fst ec, Handle b) w = Some r1" "f (fst ec, End_triggered i) (snd r1) = Some r"
        by (auto simp: bind_eq_Some_conv)
      note k1 = IH [OF r1(1), simplified] and k2 = IH [OF r1(2), simplified]
      show ?thesis
      proof (rule run_keeps_trans [OF k1 k2])
        fix S assume ok: "entries_ok w" "call_ok (snd ec) S w"
        then show "call_ok (Handle b) S w"
          using call_ok_triggered [OF ok(1) b] End_triggered by (simp add: call_ok_def)
        show "call_ok (End_triggered i) S (snd r1)"
          using ok(2) End_triggered downtime_frameD(2) k1 by (auto simp: call_ok_def run_keeps_def)
      qed
    qed
  next
    case (Start_triggered i p)
    show ?thesis
    proof (cases p)
      case None
      with run Start_triggered show ?thesis by auto
    next
      case (Some b)
      show ?thesis
      proof (cases "dt_triggered_by (downtime_at w b) = i")
        case False
        with run Start_triggered Some have
          r: "f (fst ec, Start_triggered i (entry_after b (downtime_list w))) w = Some r" by simp
        have "call_ok (Start_triggered i (entry_after b (downtime_list w))) S w"
          if "call_ok (snd ec) S w" for S
          using that Start_triggered by (cases "entry_after b (downtime_list w)")
            (auto simp: call_ok_def dest: entry_after_in)
        with IH [OF r] show ?thesis by (auto simp: run_keeps_def)
      next
        case True
        with run Start_triggered Some obtain r1 where
          r1: "f (fst ec, Handle b) w = Some r1" "b \<in> set (downtime_list (snd r1))"
            "f (fst ec, Start_triggered i (entry_after b (downtime_list (snd r1)))) (snd r1) = Some r"
          by (auto simp: bind_eq_Some_conv split: if_splits)
        note k1 = IH [OF r1(1), simplified] and k2 = IH [OF r1(3), simplified]
        show ?thesis
        proof (rule run_keeps_trans [OF k1 k2])
          fix S assume ok: "entries_ok w" "call_ok (snd ec) S w"
          then show "call_ok (Handle b) S w"
            using call_ok_triggered [OF ok(1) _ True, of S] Start_triggered Some by (simp add: call_ok_def)
          show "call_ok (Start_triggered i (entry_after b (downtime_list (snd r1)))) S (snd r1)"
            using ok(2) Start_triggered downtime_frameD(2) k1
            by (cases "entry_after b (downtime_list (snd r1))")
              (auto simp: call_ok_def run_keeps_def dest: entry_after_in)
        qed
      qed
    qed
  qed
qed

section \<open>Cancelling\<close>

lemma remove_downtime_event_same: "remove_downtime_event ev i w = Some w' \<Longrightarrow> same_downtimes w w'"
  by (auto simp: remove_downtime_event_def bind_eq_Some_conv split: option.splits)

lemma cancel_downtime_same:
  assumes "cancel_downtime ev a tgt w = Some w'"
  shows "same_downtimes (if dt_is_in_effect (downtime_at w a) then add_depth (- 1) tgt w else w) w'"
proof -
  define w1 where "w1 = (if \<not> dt_fixed (downtime_at w a) \<and> dt_incremented_pending_downtime (downtime_at w a)
    then add_pending (- 1) tgt w else w)"
  have w1: "same_downtimes w w1" by (simp add: w1_def)
  show ?thesis
  proof (cases "dt_is_in_effect (downtime_at w a)")
    case False
    with assms w1 show ?thesis by (simp add: cancel_downtime_def Let_def w1_def)
  next
    case True
    let ?w3 = "emit (Update_status tgt) (add_depth (- 1) tgt (broker_downtime_data NEB_downtime_stop_cancelled a w1))"
    have "same_downtimes ?w3 w'"
      using assms True notify_if_same by (simp add: cancel_downtime_def Let_def w1_def)
    moreover have "same_downtimes (add_depth (- 1) tgt w) ?w3"
      using same_downtimes_trans same_downtimes_add_depth [OF same_downtimes_trans [OF w1 broker_downtime_same]]
        same_downtimes_basic(2) by blast
    ultimately show ?thesis using True same_downtimes_trans by simp
  qed
qed

end
