(* ===== verification/Downtime_Lifecycle.thy ===== *)
theory Downtime_Lifecycle
  imports Downtime_Facts Examples
begin

text \<open>
  A downtime from its start to its end, an unscheduled downtime, and a downtime that triggers
  a flexible one. The notifications sent on the way always return: they are decided before
  the dependencies are looked at.
\<close>

section \<open>Steps that return\<close>

lemma special_notification_returns:
  assumes "ty \<noteq> NOTIFICATION_NORMAL"
  shows "\<exists>x. service_notification ev s ty a c options w = Some x"
    "\<exists>x. host_notification ev h ty a c options w = Some x"
proof -
  have "\<exists>x. check_service_notification_viability ev s ty options w = Some x"
    using assms by (cases ty) (auto simp: check_service_notification_viability_def
        service_special_viability_def Let_def split: option.split prod.split)
  then show "\<exists>x. service_notification ev s ty a c options w = Some x"
    by (auto simp: service_notification_def Let_def split: option.split prod.split neb_result.split)
  have "\<exists>x. check_host_notification_viability ev h ty options w = Some x"
    using assms by (cases ty) (auto simp: check_host_notification_viability_def
        host_special_viability_def Let_def split: option.split prod.split)
  then show "\<exists>x. host_notification ev h ty a c options w = Some x"
    by (auto simp: host_notification_def Let_def split: option.split prod.split neb_result.split)
qed

lemma notify_downtime_returns:
  assumes "ty \<noteq> NOTIFICATION_NORMAL"
  shows "\<exists>w'. notify_downtime ev tgt ty a c w = Some w'"
  using special_notification_returns [OF assms]
  by (auto simp: notify_downtime_def split: notif_target.split) (metis prod.collapse)+

lemma notify_evs:
  assumes "notify_downtime ev tgt ty a c w = Some w'"
  shows "evs w' = evs w" "next_addr w' = next_addr w" "pending_of t w' = pending_of t w"
    "target_ok t w' = target_ok t w"
  using notify_downtime_frame [OF assms] notif_frame_target(2,3) [OF notify_downtime_frame [OF assms]]
  by (simp_all add: notif_frame_def)

lemma notify_if_returns:
  assumes "ty \<noteq> NOTIFICATION_NORMAL"
  shows "\<exists>w'. (if c then notify_downtime ev tgt ty x y w else Some w) = Some w' \<and>
    same_downtimes w w' \<and> evs w' = evs w \<and> next_addr w' = next_addr w \<and>
    (\<forall>t. pending_of t w' = pending_of t w) \<and> (\<forall>t. target_ok t w' = target_ok t w)"
proof -
  obtain w' where w': "(if c then notify_downtime ev tgt ty x y w else Some w) = Some w'"
    using notify_downtime_returns [OF assms, of ev tgt x y w] by (cases c) auto
  then have "evs w' = evs w \<and> next_addr w' = next_addr w \<and> (\<forall>t. pending_of t w' = pending_of t w) \<and>
      (\<forall>t. target_ok t w' = target_ok t w)"
    using notify_evs by (cases c) auto
  with w' notify_if_same [OF w'] show ?thesis by blast
qed

text \<open>An event without index entry goes into its list, behind the events due earlier or at
  the same time.\<close>

lemma schedule_new_event_queued:
  fixes w :: engine and hp :: bool
  assumes "event_queues w q" "hash_type_of ty = None"
  defines "p \<equiv> if hp then High else Low" and "a \<equiv> next_addr w"
  shows "\<exists>s. schedule_new_event ty hp t rec interval timing cmp data args opts w =
      Some (w\<lparr>evs := s, next_addr := Suc a\<rparr>) \<and>
    event_queues (w\<lparr>evs := s, next_addr := Suc a\<rparr>) (q(p := insert_after (rt s) a (q p))) \<and>
    event_type (heap s a) = ty \<and> event_data (heap s a) = data \<and> rt s a = t \<and>
    (\<forall>b. b \<noteq> a \<longrightarrow> payload (heap s b) = payload (heap (evs w) b))"
proof -
  let ?e = "\<lparr>event_type = ty, run_time = t, recurring = rec, event_interval = interval,
     compensate_for_time_change = cmp, timing_func = timing, event_data = data,
     event_args = args, event_options = opts, ev_next = None, ev_prev = None\<rparr>"
  let ?s = "(evs w)\<lparr>heap := (heap (evs w))(a := ?e)\<rparr>"
  note eq = event_queuesD [OF assms(1)]
  have fresh: "\<forall>p. a \<notin> set (q p)" using eq(3) by (auto simp: a_def)
  note al = alloc_event_queues [OF eq(1,2) fresh, of ?e]
  have none: "indexed ?s a = None" using assms(2) by (simp add: indexed_def split: option.split)
  have noidx: "indexed ?s b \<noteq> None \<Longrightarrow> indexed ?s b \<noteq> indexed ?s a" for b using none by simp
  from add_event_queues [OF al fresh, of p] noidx obtain s where s: "add_event a p ?s = Some s"
    "queues s (q(p := insert_after (rt ?s) a (q p)))" "index_ok s (q(p := insert_after (rt ?s) a (q p)))"
    "rt s = rt ?s" by (metis (no_types, lifting))
  have pay: "payload (heap s b) = payload (heap ?s b)" for b
    using add_event_payload [OF al(1) _ s(1)] fresh by blast
  have pa: "event_type (heap s a) = ty" "event_data (heap s a) = data" "run_time (heap s a) = t"
    using payload_eqD [OF pay [of a]] by simp_all
  have "schedule_new_event ty hp t rec interval timing cmp data args opts w =
      Some (w\<lparr>evs := s, next_addr := Suc a\<rparr>)"
    using s(1) by (simp add: schedule_new_event_def schedule_event_def Let_def a_def p_def)
  moreover have "event_queues (w\<lparr>evs := s, next_addr := Suc a\<rparr>) (q(p := insert_after (rt s) a (q p)))"
    using s(2-4) eq(3) by (auto simp: event_queues_def less_Suc_eq a_def)
  ultimately show ?thesis
    using pa pay s(4) by (intro exI [of _ s]) auto
qed

lemma entry_after_append: "b \<notin> set xs \<Longrightarrow> entry_after b (xs @ b # ys) = hd_opt ys"
  by (induction xs) auto

text \<open>Nothing is triggered: the loops leave the state alone.\<close>

lemma start_triggered_none:
  assumes "distinct (downtime_list w)" "\<forall>b\<in>set (downtime_list w). dt_triggered_by (downtime_at w b) \<noteq> i"
    "downtime_list w = xs @ ys"
  shows "run_downtime (ev, Start_triggered i (hd_opt ys)) w = Some (OK, w)"
  using assms(3)
proof (induction ys arbitrary: xs)
  case Nil
  then show ?case by (simp add: run_downtime.simps)
next
  case (Cons b ys)
  have "b \<notin> set xs" using Cons.prems assms(1) by simp
  then have "entry_after b (downtime_list w) = hd_opt ys"
    by (simp add: Cons.prems entry_after_append)
  moreover have "dt_triggered_by (downtime_at w b) \<noteq> i" using Cons.prems assms(2) by simp
  ultimately show ?case
    using Cons.IH [of "xs @ [b]"] Cons.prems by (subst run_downtime.simps) simp
qed

lemma end_triggered_none:
  assumes "\<forall>b\<in>set (downtime_list w). dt_triggered_by (downtime_at w b) \<noteq> i"
  shows "run_downtime (ev, End_triggered i) w = Some (OK, w)"
proof -
  have "find (\<lambda>b. dt_triggered_by (downtime_at w b) = i) (downtime_list w) = None"
    using assms by (auto simp: find_None_iff)
  then show ?thesis by (subst run_downtime.simps) simp
qed

section \<open>Starting and ending a downtime that triggers nothing\<close>

definition triggers_nothing :: "addr \<Rightarrow> engine \<Rightarrow> bool" where
  "triggers_nothing a w \<longleftrightarrow>
     (\<forall>b\<in>set (downtime_list w). dt_triggered_by (downtime_at w b) \<noteq> dt_downtime_id (downtime_at w a))"

definition end_event_queued :: "engine \<Rightarrow> nat \<Rightarrow> int \<Rightarrow> bool" where
  "end_event_queued w i t \<longleftrightarrow>
     (\<exists>q e p. event_queues w q \<and> e \<in> set (q High) \<and> event_type (heap (evs w) e) = EVENT_SCHEDULED_DOWNTIME \<and>
        run_time (heap (evs w) e) = t \<and> event_data (heap (evs w) e) = Some (IdPtr p i))"

lemma start_downtime_returns:
  assumes "event_queues w q"
  shows "\<exists>w'. start_downtime ev a tgt w = Some w' \<and>
    same_downtimes (upd_downtime a (\<lambda>d. d\<lparr>dt_is_in_effect := True\<rparr>) (add_depth 1 tgt w)) w' \<and>
    end_event_queued w' (dt_downtime_id (downtime_at w a))
      (if dt_fixed (downtime_at w a) then dt_end_time (downtime_at w a)
       else time_t_of (now ev + int (dt_duration (downtime_at w a))))"
proof -
  let ?d = "downtime_at w a"
  let ?w1 = "broker_downtime_data NEB_downtime_start a w"
  obtain w2 where w2: "(if depth_of tgt ?w1 = 0 then notify_downtime ev tgt NOTIFICATION_DOWNTIMESTART
      (dt_author ?d) (dt_comment ?d) ?w1 else Some ?w1) = Some w2"
    "evs w2 = evs ?w1" "next_addr w2 = next_addr ?w1"
    using notify_if_returns [of NOTIFICATION_DOWNTIMESTART] by blast
  define w4 where "w4 = emit (Update_status tgt)
     (upd_downtime a (\<lambda>d. d\<lparr>dt_is_in_effect := True\<rparr>) (add_depth 1 tgt w2))"
  let ?w5 = "w4\<lparr>next_addr := Suc (next_addr w4)\<rparr>"
  have "evs w4 = evs w" "next_addr w4 = next_addr w"
    using w2(2,3) by (simp_all add: w4_def broker_downtime_data_def)
  then have "event_queues ?w5 q"
    using assms by (auto simp: event_queues_def less_SucI)
  from schedule_new_event_queued [OF this, of EVENT_SCHEDULED_DOWNTIME True
      "if dt_fixed ?d then dt_end_time ?d else time_t_of (now ev + int (dt_duration ?d))" False 0 None False
      "Some (IdPtr (next_addr w4) (dt_downtime_id ?d))" None 0]
  obtain s where s: "schedule_new_event EVENT_SCHEDULED_DOWNTIME True
      (if dt_fixed ?d then dt_end_time ?d else time_t_of (now ev + int (dt_duration ?d))) False 0 None False
      (Some (IdPtr (next_addr w4) (dt_downtime_id ?d))) None 0 ?w5 = Some (?w5\<lparr>evs := s, next_addr := Suc (next_addr ?w5)\<rparr>)"
    "end_event_queued (?w5\<lparr>evs := s, next_addr := Suc (next_addr ?w5)\<rparr>) (dt_downtime_id ?d)
      (if dt_fixed ?d then dt_end_time ?d else time_t_of (now ev + int (dt_duration ?d)))"
    by (fastforce simp: hash_type_of_def event_type_defs EVENT_SCHEDULED_DOWNTIME_def end_event_queued_def)
  have run: "start_downtime ev a tgt w = Some (?w5\<lparr>evs := s, next_addr := Suc (next_addr ?w5)\<rparr>)"
    using s(1) unfolding start_downtime_def Let_def w2(1) w4_def
    by (cases "dt_fixed ?d") simp_all
  show ?thesis using run start_downtime_same [OF run] s(2) by blast
qed

lemma stop_downtime_returns:
  "\<exists>w'. stop_downtime ev a tgt w = Some w'"
proof -
  let ?w1 = "add_depth (- 1) tgt (broker_downtime_data NEB_downtime_stop_normal a w)"
  obtain w2 where "(if depth_of tgt ?w1 = 0 then notify_downtime ev tgt NOTIFICATION_DOWNTIMEEND
      (dt_author (downtime_at w a)) (dt_comment (downtime_at w a)) ?w1 else Some ?w1) = Some w2"
    using notify_if_returns [of NOTIFICATION_DOWNTIMEEND] by blast
  then show ?thesis unfolding stop_downtime_def Let_def by simp
qed

lemma handle_starts:
  assumes "event_queues w q" "entries_ok w" "downtime_target w (downtime_at w a) = Some tgt"
    "\<not> waits_for_problem a tgt w" "\<not> dt_is_in_effect (downtime_at w a)" "triggers_nothing a w"
  obtains w' where "handle_scheduled_downtime ev a w = Some (OK, w')"
    "same_downtimes (upd_downtime a (\<lambda>d. d\<lparr>dt_is_in_effect := True\<rparr>) (add_depth 1 tgt w)) w'"
    "end_event_queued w' (dt_downtime_id (downtime_at w a))
      (if dt_fixed (downtime_at w a) then dt_end_time (downtime_at w a)
       else time_t_of (now ev + int (dt_duration (downtime_at w a))))"
proof -
  obtain w' where w': "start_downtime ev a tgt w = Some w'"
    "same_downtimes (upd_downtime a (\<lambda>d. d\<lparr>dt_is_in_effect := True\<rparr>) (add_depth 1 tgt w)) w'"
    "end_event_queued w' (dt_downtime_id (downtime_at w a))
      (if dt_fixed (downtime_at w a) then dt_end_time (downtime_at w a)
       else time_t_of (now ev + int (dt_duration (downtime_at w a))))"
    using start_downtime_returns [OF assms(1)] by blast
  have "run_downtime (ev, Start_triggered (dt_downtime_id (downtime_at w a)) (hd_opt (downtime_list w'))) w' = Some (OK, w')"
    using assms(2,6) w'(2)
    by (intro start_triggered_none [where xs = "[]"])
      (auto simp: entries_ok_def triggers_nothing_def same_downtimes_def)
  with w'(1) assms(3-5) have "handle_scheduled_downtime ev a w = Some (OK, w')"
    unfolding handle_scheduled_downtime_def by (subst run_downtime.simps) simp
  with that w' show thesis by blast
qed

lemma handle_ends:
  assumes "entries_ok w" "a \<in> set (downtime_list w)" "downtime_target w (downtime_at w a) = Some tgt"
    "\<not> waits_for_problem a tgt w" "dt_is_in_effect (downtime_at w a)" "triggers_nothing a w"
  obtains w' where "handle_scheduled_downtime ev a w = Some (OK, w')"
    "depth_of tgt w' = depth_of tgt w - 1" "downtime_list w' = remove1 a (downtime_list w)"
proof -
  obtain w1 where w1: "stop_downtime ev a tgt w = Some w1" using stop_downtime_returns by blast
  note s = stop_downtime_same [OF w1]
  let ?d = "downtime_at w a"
  have "run_downtime (ev, End_triggered (dt_downtime_id ?d)) w1 = Some (OK, w1)"
    using assms(6) s by (intro end_triggered_none) (auto simp: triggers_nothing_def same_downtimes_def)
  with w1 assms(3-5) have run: "handle_scheduled_downtime ev a w =
      Some (OK, snd (delete_downtime (dt_type ?d) (dt_downtime_id ?d) w1))"
    unfolding handle_scheduled_downtime_def by (subst run_downtime.simps) simp
  have "entries_ok w1"
    using entries_ok_frame [OF same_downtimes_frame [OF s]] assms(1) by (simp add: entries_ok_def)
  then have "find_downtime (Some (dt_type ?d)) (dt_downtime_id ?d) w1 = Some a"
    using find_downtime_unique [of w1 a "Some (dt_type ?d)"] s assms(2) by (simp add: same_downtimes_def)
  from delete_downtime_effect(5) [OF this] delete_downtime_effect(3) run s that show thesis
    by (simp add: same_downtimes_def)
qed

section \<open>The event of a downtime that is unscheduled\<close>

lemma find_event_from_segment:
  "dseg (heap s) p xs None \<Longrightarrow> find_event_from P (hd_opt xs) s = Some (find (\<lambda>e. P (heap s e)) xs)"
proof (induction xs arbitrary: p)
  case Nil
  then show ?case by (simp add: find_event_from.simps)
next
  case (Cons x xs)
  then have "find_event_from P (ev_next (heap s x)) s = Some (find (\<lambda>e. P (heap s e)) xs)"
    by (cases xs) (auto simp: find_event_from.simps)
  then show ?case by (subst find_event_from.simps) simp
qed

lemma event_list_head: "event_queues w q \<Longrightarrow> list_head (evs w) p = hd_opt (q p) \<and> dseg (heap (evs w)) None (q p) None"
  using queues_rep [of "evs w" q p] by (auto simp: event_queues_def event_list_rep_def dll_def)

lemma remove_downtime_event_none:
  assumes "event_queues w q"
    "\<forall>e\<in>set (q High). event_type (heap (evs w) e) = EVENT_SCHEDULED_DOWNTIME \<longrightarrow> event_data_number ev (heap (evs w) e) \<noteq> i"
  shows "remove_downtime_event ev i w = Some w"
proof -
  have "find (\<lambda>e. event_type (heap (evs w) e) = EVENT_SCHEDULED_DOWNTIME \<and> event_data_number ev (heap (evs w) e) = i) (q High) = None"
    using assms(2) by (auto simp: find_None_iff)
  then show ?thesis
    using event_list_head [OF assms(1), of High] find_event_from_segment [of "evs w" None "q High"]
    by (simp add: remove_downtime_event_def)
qed

text \<open>
  \<open>unschedule_downtime\<close> looks for the event by comparing the pointer to the identifier with
  the identifier. Pointers being above identifiers, no event is ever found.
\<close>

theorem unscheduled_downtime_event_remains:
  assumes "event_queues w q" "\<And>p. i < pointer_value ev p"
    "\<forall>e\<in>set (q High). event_type (heap (evs w) e) = EVENT_SCHEDULED_DOWNTIME \<longrightarrow>
       (\<exists>p j. event_data (heap (evs w) e) = Some (IdPtr p j))"
    "entries_ok w" "find_downtime ty i w = Some a" "downtime_target w (downtime_at w a) = Some tgt"
    "triggers_nothing a w"
  shows "\<exists>w'. unschedule_downtime ev ty i w = Some (OK, w') \<and> evs w' = evs w \<and>
    downtime_list w' = remove1 a (downtime_list w)"
proof -
  note a = find_downtime_SomeD [OF assms(5)]
  have "\<exists>w1. cancel_downtime ev a tgt w = Some w1 \<and> evs w1 = evs w \<and> next_addr w1 = next_addr w"
  proof -
    define w1 where "w1 = (if \<not> dt_fixed (downtime_at w a) \<and> dt_incremented_pending_downtime (downtime_at w a)
      then add_pending (- 1) tgt w else w)"
    let ?w3 = "emit (Update_status tgt) (add_depth (- 1) tgt (broker_downtime_data NEB_downtime_stop_cancelled a w1))"
    obtain w4 where "(if depth_of tgt ?w3 = 0 then notify_downtime ev tgt NOTIFICATION_DOWNTIMECANCELLED None None ?w3
        else Some ?w3) = Some w4" "evs w4 = evs ?w3" "next_addr w4 = next_addr ?w3"
      using notify_if_returns [of NOTIFICATION_DOWNTIMECANCELLED] by blast
    moreover have "evs ?w3 = evs w" "next_addr ?w3 = next_addr w" "evs w1 = evs w" "next_addr w1 = next_addr w"
      by (simp_all add: w1_def broker_downtime_data_def)
    ultimately show ?thesis
      by (cases "dt_is_in_effect (downtime_at w a)") (simp_all add: cancel_downtime_def Let_def w1_def [symmetric])
  qed
  then obtain w1 where w1: "cancel_downtime ev a tgt w = Some w1" "evs w1 = evs w" "next_addr w1 = next_addr w"
    by blast
  have "event_queues w1 q" using assms(1) w1 event_queues_cong by blast
  moreover have "event_data_number ev (heap (evs w) e) \<noteq> i"
    if "e \<in> set (q High)" "event_type (heap (evs w) e) = EVENT_SCHEDULED_DOWNTIME" for e
    using assms(3) that assms(2) by (fastforce simp: event_data_number_def)
  ultimately have rem: "remove_downtime_event ev i w1 = Some w1"
    using remove_downtime_event_none [of w1 q ev i] w1 by simp
  note s = cancel_downtime_same [OF w1(1)]
  let ?w2 = "snd (delete_downtime (dt_type (downtime_at w1 a)) i w1)"
  have w1': "downtime_at w1 = downtime_at w" "downtime_list w1 = downtime_list w" "entries_ok w1"
    using s entries_ok_frame [OF same_downtimes_frame [OF s]] assms(4)
    by (auto simp: same_downtimes_def entries_ok_def split: if_splits)
  then have "find_downtime (Some (dt_type (downtime_at w1 a))) i w1 = Some a"
    using find_downtime_unique [of w1 a] a by simp
  note del = delete_downtime_effect(5) [OF this] delete_downtime_effect(2,4) [of _ i w1]
  have "set (downtime_list ?w2) \<subseteq> set (downtime_list w)"
    using downtime_frameD(7) [OF delete_downtime_effect(1)] w1' by metis
  then have "find (\<lambda>b. dt_triggered_by (downtime_at ?w2 b) = i) (downtime_list ?w2) = None"
    using assms(7) a w1' unfolding find_None_iff triggers_nothing_def del by auto
  then have "run_unschedule (ev, Unschedule_triggered i) ?w2 = Some (OK, ?w2)"
    by (subst run_unschedule.simps) simp
  then have "unschedule_downtime ev ty i w = Some (OK, ?w2)"
    using assms(5,6) w1(1) rem by (simp add: unschedule_downtime_def run_unschedule.simps [of _ w])
  then show ?thesis using del w1 w1' by simp
qed

section \<open>A triggered downtime that waits for a problem\<close>

text \<open>The loop at the end of a downtime is stuck in front of such an entry.\<close>

definition stuck_at :: "nat \<Rightarrow> addr \<Rightarrow> notif_target \<Rightarrow> engine \<Rightarrow> bool" where
  "stuck_at i b tgt w \<longleftrightarrow>
     find (\<lambda>b. dt_triggered_by (downtime_at w b) = i) (downtime_list w) = Some b \<and>
     downtime_target w (downtime_at w b) = Some tgt \<and> waits_for_problem b tgt w"

lemma stuck_at_same:
  assumes "downtime_frame w w'" "downtime_list w' = downtime_list w" "target_ok tgt w' = target_ok tgt w"
    "dt_start_flex_downtime (downtime_at w' b) = dt_start_flex_downtime (downtime_at w b)" "stuck_at i b tgt w"
  shows "stuck_at i b tgt w'"
proof -
  have "dt_static (downtime_at w' b) = dt_static (downtime_at w b)"
    using assms(1) by (simp add: downtime_frame_def)
  from dt_static_eqD(8) [OF this] show ?thesis
    using assms downtime_frameD(3,6) [OF assms(1)] by (simp add: stuck_at_def waits_for_problem_def)
qed

lemma pend_downtime_stuck:
  assumes "pend_downtime b tgt w = Some w'" "stuck_at i b tgt w"
  shows "stuck_at i b tgt w'" "pending_of tgt w' = pending_of tgt w + 1"
proof -
  have "downtime_list w' = downtime_list w" "target_ok tgt w' = target_ok tgt w"
    "dt_start_flex_downtime (downtime_at w' b) = dt_start_flex_downtime (downtime_at w b)"
    "pending_of tgt w' = pending_of tgt w + 1"
    using assms(1) by (auto simp: pend_downtime_def schedule_new_event_def Let_def)
  then show "stuck_at i b tgt w'" "pending_of tgt w' = pending_of tgt w + 1"
    using stuck_at_same [OF pend_downtime_ok(1) [OF assms(1)]] assms(2) by auto
qed

lemma stuck_loop_never_returns:
  assumes "stuck_at i b tgt w0"
  shows "run_downtime (ev, End_triggered i) w0 = None"
proof (rule ccontr)
  assume "run_downtime (ev, End_triggered i) w0 \<noteq> None"
  then obtain r0 where run: "run_downtime (ev, End_triggered i) w0 = Some r0" by auto
  have "(case snd (ev, End_triggered i) of
       Handle a \<Rightarrow> a = b \<longrightarrow> stuck_at i b tgt w0 \<longrightarrow> stuck_at i b tgt (snd r0)
     | End_triggered j \<Rightarrow> j = i \<longrightarrow> \<not> stuck_at i b tgt w0 | Start_triggered _ _ \<Rightarrow> True)"
  proof (rule run_downtime.raw_induct [OF _ run, of "\<lambda>ec w r. case snd ec of
       Handle a \<Rightarrow> a = b \<longrightarrow> stuck_at i b tgt w \<longrightarrow> stuck_at i b tgt (snd r)
     | End_triggered j \<Rightarrow> j = i \<longrightarrow> \<not> stuck_at i b tgt w | Start_triggered _ _ \<Rightarrow> True"], goal_cases)
    case (1 f ec w r)
    note IH = 1(1) and run = 1(2)
    show ?case
    proof (cases "snd ec")
      case (Handle a)
      with run show ?thesis
        by (auto simp: stuck_at_def dest: pend_downtime_stuck)
          (auto simp: stuck_at_def dest!: pend_downtime_stuck(1) [unfolded stuck_at_def])
    next
      case (End_triggered j)
      {
        assume "j = i" and stuck: "stuck_at i b tgt w"
        with run End_triggered obtain r1 where r1: "f (fst ec, Handle b) w = Some r1"
          "f (fst ec, End_triggered i) (snd r1) = Some r"
          by (auto simp: stuck_at_def bind_eq_Some_conv)
        from IH [OF r1(1)] stuck have "stuck_at i b tgt (snd r1)" by simp
        with IH [OF r1(2)] have False by simp
      }
      with End_triggered show ?thesis by auto
    next
      case (Start_triggered j p)
      then show ?thesis by simp
    qed
  qed
  with assms show False by simp
qed

section \<open>Properties\<close>

text \<open>The example with its downtime listed, and one with a flexible downtime it triggers.\<close>

definition ex_listed :: engine where
  "ex_listed = ex_engine\<lparr>downtime_list := [0], next_addr := 1, next_downtime_id := 2\<rparr>"

definition ex_triggering :: engine where
  "ex_triggering = ex_engine\<lparr>downtime_list := [0, 1], next_addr := 2, next_downtime_id := 3,
     svc_of := (\<lambda>_. ex_service\<lparr>s_current_state := STATE_OK, s_scheduled_downtime_depth := 1\<rparr>),
     downtime_at := (\<lambda>a. if a = 0 then ex_downtime\<lparr>dt_is_in_effect := True\<rparr>
        else ex_downtime\<lparr>dt_downtime_id := 2, dt_triggered_by := 1, dt_fixed := False\<rparr>)\<rparr>"

lemma ex_listed_ok: "event_queues ex_listed (\<lambda>_. [])" "entries_ok ex_listed"
  by (simp_all add: ex_listed_def ex_engine_def ex_downtime_def event_queues_def entries_ok_def
      ex_empty_queues)

text \<open>C21. A fixed downtime that triggers no other: its first event, on well formed event
  lists, puts it into effect, adds one to the depth of its host or service and queues its
  second event for its end time; the second event returns as well, takes the one away again and
  removes the entry from the list.\<close>

theorem fixed_downtime_starts_and_ends:
  assumes "event_queues w q" "entries_ok w" "a \<in> set (downtime_list w)"
    "downtime_target w (downtime_at w a) = Some tgt" "dt_fixed (downtime_at w a)"
    "\<not> dt_is_in_effect (downtime_at w a)" "triggers_nothing a w"
  shows "\<exists>w1. handle_scheduled_downtime ev a w = Some (OK, w1) \<and>
    depth_of tgt w1 = depth_of tgt w + 1 \<and> dt_is_in_effect (downtime_at w1 a) \<and>
    downtime_list w1 = downtime_list w \<and>
    end_event_queued w1 (dt_downtime_id (downtime_at w a)) (dt_end_time (downtime_at w a)) \<and>
    (\<exists>w2. handle_scheduled_downtime ev' a w1 = Some (OK, w2) \<and>
      depth_of tgt w2 = depth_of tgt w \<and> downtime_list w2 = remove1 a (downtime_list w))"
proof -
  let ?w0 = "upd_downtime a (\<lambda>d. d\<lparr>dt_is_in_effect := True\<rparr>) (add_depth 1 tgt w)"
  have "\<not> waits_for_problem a tgt w" using assms(5) by (simp add: waits_for_problem_def)
  from handle_starts [OF assms(1,2,4) this assms(6,7)] assms(5) obtain w1 where
    w1: "handle_scheduled_downtime ev a w = Some (OK, w1)" "same_downtimes ?w0 w1"
      "end_event_queued w1 (dt_downtime_id (downtime_at w a)) (dt_end_time (downtime_at w a))" by auto
  have st: "downtime_frame w ?w0" by (auto simp: downtime_frame_def dt_static_def)
  note fr = downtime_frame_trans [OF st same_downtimes_frame [OF w1(2)]]
  have at: "downtime_list w1 = downtime_list w" "depth_of tgt w1 = depth_of tgt w + 1"
    "dt_is_in_effect (downtime_at w1 a)" "dt_fixed (downtime_at w1 a)"
    using w1(2) assms(5) by (simp_all add: same_downtimes_def)
  have "downtime_target w1 (downtime_at w1 a) = Some tgt" using downtime_frameD(6) [OF fr] assms(4) by simp
  moreover have "triggers_nothing a w1"
    using assms(7) downtime_frameD(2,3) [OF fr] at(1) by (simp add: triggers_nothing_def)
  moreover have "\<not> waits_for_problem a tgt w1" using at(4) by (simp add: waits_for_problem_def)
  ultimately obtain w2 where "handle_scheduled_downtime ev' a w1 = Some (OK, w2)"
    "depth_of tgt w2 = depth_of tgt w1 - 1" "downtime_list w2 = remove1 a (downtime_list w1)"
    using handle_ends [OF entries_ok_frame [OF fr assms(2)], of a tgt ev'] assms(3) at by metis
  with w1 at show ?thesis by auto
qed

theorem fixed_downtime_starts_and_ends_witness:
  "\<exists>w1. handle_scheduled_downtime ex_env 0 ex_listed = Some (OK, w1) \<and> depth_of (ServiceTarget (''h'', ''s'')) w1 = 1"
proof -
  have "downtime_target ex_listed (downtime_at ex_listed 0) = Some (ServiceTarget (''h'', ''s''))"
    "dt_fixed (downtime_at ex_listed 0)" "\<not> dt_is_in_effect (downtime_at ex_listed 0)" "0 \<in> set (downtime_list ex_listed)"
    "triggers_nothing 0 ex_listed" "depth_of (ServiceTarget (''h'', ''s'')) ex_listed = 0"
    by (simp_all add: ex_listed_def ex_engine_def ex_downtime_def downtime_target_def triggers_nothing_def
        depth_of_def ex_service_def)
  from fixed_downtime_starts_and_ends [OF ex_listed_ok this(4,1-3,5), of ex_env ex_env] this(6) show ?thesis by auto
qed

text \<open>C36. When a downtime in effect comes to its end while the first entry it triggers is a
  flexible downtime that still waits for a problem of its object, the handler never returns:
  the loop over the triggered entries asks that entry to end, which only increments the
  counter of pending flexible downtimes and queues another expiry event, and finds it again.\<close>

theorem end_of_triggering_downtime_never_returns:
  assumes "downtime_target w (downtime_at w a) = Some tgt" "\<not> waits_for_problem a tgt w"
    "dt_is_in_effect (downtime_at w a)"
    "find (\<lambda>b. dt_triggered_by (downtime_at w b) = dt_downtime_id (downtime_at w a)) (downtime_list w) = Some b"
    "downtime_target w (downtime_at w b) = Some tgt'" "waits_for_problem b tgt' w"
  shows "handle_scheduled_downtime ev a w = None"
proof -
  obtain w1 where w1: "stop_downtime ev a tgt w = Some w1" using stop_downtime_returns by blast
  let ?w0 = "add_depth (- 1) tgt w"
  have fr: "downtime_frame w w1"
    using downtime_frame_trans [OF _ same_downtimes_frame [OF stop_downtime_same [OF w1]]]
    by (simp add: downtime_frame_def)
  have same: "downtime_list w1 = downtime_list w" "downtime_at w1 = downtime_at w"
    using stop_downtime_same [OF w1] by (simp_all add: same_downtimes_def)
  have "target_ok tgt' w1 = target_ok tgt' w"
  proof -
    let ?v = "add_depth (- 1) tgt (broker_downtime_data NEB_downtime_stop_normal a w)"
    obtain w2 where w2: "(if depth_of tgt ?v = 0 then notify_downtime ev tgt NOTIFICATION_DOWNTIMEEND
        (dt_author (downtime_at w a)) (dt_comment (downtime_at w a)) ?v else Some ?v) = Some w2"
      "target_ok tgt' w2 = target_ok tgt' ?v"
      using notify_if_returns [of NOTIFICATION_DOWNTIMEEND] by blast
    have "target_ok tgt' w1 = target_ok tgt' w2"
      using w1 unfolding stop_downtime_def Let_def w2(1) by (auto split: if_splits)
    with w2(2) show ?thesis by (simp add: broker_downtime_data_def)
  qed
  then have "stuck_at (dt_downtime_id (downtime_at w a)) b tgt' w1"
    using stuck_at_same [OF fr same(1)] same(2) assms(4-6) by (simp add: stuck_at_def)
  from stuck_loop_never_returns [OF this] have
    "run_downtime (ev, End_triggered (dt_downtime_id (downtime_at w a))) w1 = None" .
  with w1 assms(1-3) show ?thesis
    unfolding handle_scheduled_downtime_def by (subst run_downtime.simps) simp
qed

theorem end_of_triggering_downtime_never_returns_witness:
  "handle_scheduled_downtime ex_env 0 ex_triggering = None"
  by (rule end_of_triggering_downtime_never_returns
      [of _ _ "ServiceTarget (''h'', ''s'')" 1 "ServiceTarget (''h'', ''s'')"])
    (simp_all add: ex_triggering_def ex_engine_def ex_downtime_def downtime_target_def waits_for_problem_def
      target_ok_def)

end
