(* ===== verification/Downtime_Invariant.thy ===== *)
theory Downtime_Invariant
  imports Downtime_Lifecycle
begin

text \<open>
  The states the downtime operations reach, and in all of them the depth of a host or service
  is the number of its downtimes in effect. The rest of the program is a step that leaves the
  entries and depths alone. Identifiers are naturals here, \<open>unsigned long\<close> in the source.
\<close>

definition downtimes_ok :: "engine \<Rightarrow> bool" where
  "downtimes_ok w \<longleftrightarrow> entries_ok w \<and> depth_ok {} w"

lemma downtimes_ok_same: "same_downtimes w w' \<Longrightarrow> downtimes_ok w \<Longrightarrow> downtimes_ok w'"
  by (auto simp: downtimes_ok_def intro: depth_ok_same entries_ok_frame same_downtimes_frame)

lemma downtimes_ok_event:
  assumes "downtimes_ok w"
    "schedule_new_event ty hp t rec interval timing cmp data args opts (w\<lparr>next_addr := Suc (next_addr w)\<rparr>) = Some w'"
  shows "downtimes_ok w'"
  by (rule downtimes_ok_same [OF schedule_new_event_same_downtimes [OF assms(2)]
        downtimes_ok_same [OF same_downtimes_basic(4) assms(1)]])

lemma handle_downtimes_ok:
  assumes "downtimes_ok w" "a \<in> set (downtime_list w)" "run_downtime (ev, Handle a) w = Some r"
  shows "downtimes_ok (snd r)"
proof -
  have "call_ok (Handle a) {} w" using assms(2) by (simp add: call_ok_def)
  with run_downtime_keeps [OF assms(3)] assms(1) show ?thesis
    by (auto simp: run_keeps_def downtimes_ok_def intro: entries_ok_frame)
qed

section \<open>Flexible downtimes\<close>

lemma flex_from_ok:
  assumes run: "flex_from et0 p0 w0 = Some w0'"
  shows "downtimes_ok w0 \<longrightarrow> set_option p0 \<subseteq> set (downtime_list w0) \<longrightarrow> downtimes_ok w0'"
proof (rule flex_from.raw_induct
    [OF _ run, of "\<lambda>et p w w'. downtimes_ok w \<longrightarrow> set_option p \<subseteq> set (downtime_list w) \<longrightarrow> downtimes_ok w'"],
    goal_cases)
  case (1 f et p w w')
  note IH = 1(1) and run = 1(2)
  show ?case
  proof (intro impI)
    assume ok: "downtimes_ok w" and p: "set_option p \<subseteq> set (downtime_list w)"
    show "downtimes_ok w'"
    proof (cases p)
      case None
      with run ok show ?thesis by simp
    next
      case (Some a)
      let ?w1 = "upd_downtime a (\<lambda>d. d\<lparr>dt_start_flex_downtime := True\<rparr>) w"
      have after: "set_option (entry_after a l) \<subseteq> set l" for l
        using entry_after_in by (cases "entry_after a l") auto
      have w1: "downtimes_ok ?w1" "a \<in> set (downtime_list ?w1)"
        using ok p Some depth_ok_flags [of "{}" w "\<lambda>d. d\<lparr>dt_start_flex_downtime := True\<rparr>" a]
        by (auto simp: downtimes_ok_def dt_static_def intro: entries_ok_frame)
      show ?thesis
      proof (cases "\<exists>r. run_downtime (fst et, Handle a) ?w1 = Some r \<and>
          f et (entry_after a (downtime_list (snd r))) (snd r) = Some w'")
        case True
        with IH after handle_downtimes_ok [OF w1] show ?thesis by blast
      next
        case False
        with run Some have "f et (entry_after a (downtime_list w)) w = Some w'"
          by (auto split: if_splits simp: bind_eq_Some_conv)
        with IH after ok show ?thesis by blast
      qed
    qed
  qed
qed

lemma hd_opt_subset: "set_option (hd_opt xs) \<subseteq> set xs"
  by (cases xs) auto

lemma flex_call_ok:
  "w' = w \<or> flex_from et (hd_opt (downtime_list w)) w = Some w' \<Longrightarrow> downtimes_ok w \<Longrightarrow> downtimes_ok w'"
  using flex_from_ok [of et "hd_opt (downtime_list w)" w w'] hd_opt_subset [of "downtime_list w"] by auto

section \<open>Adding\<close>

lemma set_insert_by_start [simp]: "set (insert_by_start k a xs) = insert a (set xs)"
  by (induction xs) auto

lemma distinct_insert_by_start: "a \<notin> set xs \<Longrightarrow> distinct xs \<Longrightarrow> distinct (insert_by_start k a xs)"
  by (induction xs) auto

lemma sorted_insert_by_start: "sorted (map k xs) \<Longrightarrow> sorted (map k (insert_by_start k a xs))"
  by (induction xs) auto

lemma insert_by_start_cong:
  "(\<And>x. x \<in> insert a (set xs) \<Longrightarrow> k x = k' x) \<Longrightarrow> insert_by_start k a xs = insert_by_start k' a xs"
  by (induction xs) auto

lemma next_free_downtime_id_ge: "n \<le> next_free_downtime_id ty w n"
proof (induction ty w n rule: next_free_downtime_id.induct)
  case (1 ty w n)
  show ?case
  proof (cases "find_downtime (Some ty) n w")
    case None
    then show ?thesis by (simp add: next_free_downtime_id.simps [of ty w n])
  next
    case (Some a)
    with 1 have "n + 1 \<le> next_free_downtime_id ty w (n + 1)" by simp
    with Some show ?thesis by (simp add: next_free_downtime_id.simps [of ty w n])
  qed
qed

lemma add_new_comment_same:
  assumes "add_new_comment ty entry h d et au data persistent source expires xt w = Some (c, w')"
  shows "same_downtimes w w'"
proof -
  have add: "same_downtimes w (snd (add_comment ty en h d et au data i pe xp xt so w))"
    for ty en h d et au data i pe xp xt so w
    by (auto simp: add_comment_def same_downtimes_def add_comment_to_hashlist_def Let_def emit_def
        depth_of_def split: option.split notif_target.split)
  have n: "same_downtimes w (w\<lparr>next_comment_id := n\<rparr>)" for w n
    by (simp add: same_downtimes_def depth_of_def split: notif_target.split)
  have host: "same_downtimes w (snd (add_new_host_comment en h et au data pe so xp xt w))"
    for en h et au data pe so xp xt w
  proof -
    let ?n = "next_free_id HOST_COMMENT w (next_comment_id w)"
    note same_downtimes_trans [OF n [of w ?n] same_downtimes_trans [OF add [of _ HOST_COMMENT en h None et au data ?n pe xp xt so] n]]
    from same_downtimes_trans [OF this same_downtimes_basic(2)] show ?thesis
      by (simp add: add_new_host_comment_def xcddefault_add_new_host_comment_def Let_def)
  qed
  have service: "same_downtimes w (snd (add_new_service_comment en h d et au data pe so xp xt w))"
    for en h d et au data pe so xp xt w
  proof -
    let ?n = "next_free_id SERVICE_COMMENT w (next_comment_id w)"
    note same_downtimes_trans [OF n [of w ?n] same_downtimes_trans [OF add [of _ SERVICE_COMMENT en h d et au data ?n pe xp xt so] n]]
    from same_downtimes_trans [OF this same_downtimes_basic(2)] show ?thesis
      by (simp add: add_new_service_comment_def xcddefault_add_new_service_comment_def Let_def)
  qed
  define r where "r = (if ty = HOST_COMMENT then add_new_host_comment entry h et au data persistent source expires xt w
     else add_new_service_comment entry h d et au data persistent source expires xt w)"
  have r: "same_downtimes w (snd r)" using host service by (simp add: r_def)
  show ?thesis
  proof (cases expires)
    case True
    with assms have "schedule_new_event EVENT_EXPIRE_COMMENT False xt False 0 None True (void_ptr (fst r)) None 0
        (snd r) = Some w'"
      by (cases "ty = HOST_COMMENT") (auto simp: add_new_comment_def r_def Let_def case_prod_beta)
    with r show ?thesis by (blast intro: same_downtimes_trans schedule_new_event_same_downtimes)
  next
    case False
    with assms r show ?thesis
      by (simp add: add_new_comment_def r_def Let_def case_prod_beta split: if_splits)
  qed
qed

lemma add_downtime_ok:
  assumes "downtimes_ok w" "\<not> dt_is_in_effect d" "next_downtime_id w \<le> dt_downtime_id d"
  shows "downtimes_ok ((snd (add_downtime d w))\<lparr>next_downtime_id := dt_downtime_id d + 1\<rparr>)"
    (is "downtimes_ok ?w")
proof (cases "dt_triggered_by d > 0 \<and> find_downtime None (dt_triggered_by d) w = None \<or>
    dt_type d = SERVICE_DOWNTIME \<and> dt_service_description d = None")
  case True
  then have "?w = w\<lparr>next_downtime_id := dt_downtime_id d + 1\<rparr>" by (auto simp: add_downtime_def)
  moreover have "entries_ok (w\<lparr>next_downtime_id := dt_downtime_id d + 1\<rparr>)"
    using assms by (fastforce simp: downtimes_ok_def entries_ok_def)
  moreover have "in_effect_on (w\<lparr>next_downtime_id := n\<rparr>) t = in_effect_on w t"
    "depth_of t (w\<lparr>next_downtime_id := n\<rparr>) = depth_of t w" for n t
    using downtime_target_cong [of "w\<lparr>next_downtime_id := n\<rparr>" w]
    by (simp_all add: in_effect_on_def depth_of_def split: notif_target.split)
  ultimately show ?thesis
    using assms(1) by (simp add: downtimes_ok_def depth_ok_def)
next
  case False
  let ?a = "next_addr w"
  let ?at = "(downtime_at w)(?a := d)"
  note ok = assms(1) [unfolded downtimes_ok_def entries_ok_def]
  have fresh: "?a \<notin> set (downtime_list w)" using ok by blast
  have w: "set (downtime_list ?w) = insert ?a (set (downtime_list w))" "downtime_at ?w = ?at"
    "next_addr ?w = Suc ?a" "next_downtime_id ?w = dt_downtime_id d + 1"
    "defer_downtime_sorting ?w = defer_downtime_sorting w"
    "host_list ?w = host_list w" "service_list ?w = service_list w"
    "depth_of t ?w = depth_of t w" for t
    using False by (auto simp: add_downtime_def Let_def broker_downtime_data_def emit_def depth_of_def
        split: notif_target.split)
  have dist: "distinct (downtime_list ?w)"
    using False ok fresh by (auto simp: add_downtime_def Let_def broker_downtime_data_def
        distinct_insert_by_start)
  have mp: "map (\<lambda>x. dt_start_time (?at x)) (downtime_list w) = map (\<lambda>x. dt_start_time (downtime_at w x)) (downtime_list w)"
    using fresh by auto
  have srt: "sorted (map (\<lambda>x. dt_start_time (?at x)) (downtime_list ?w))" if "\<not> defer_downtime_sorting w"
  proof -
    have "downtime_list ?w = insert_by_start (\<lambda>x. dt_start_time (?at x)) ?a (downtime_list w)"
      using False that by (auto simp: add_downtime_def Let_def broker_downtime_data_def)
    moreover have "sorted (map (\<lambda>x. dt_start_time (?at x)) (downtime_list w))"
      using that ok by (subst mp) simp
    ultimately show ?thesis by (simp only: sorted_insert_by_start)
  qed
  have trig: "dt_triggered_by d < dt_downtime_id d"
  proof (cases "dt_triggered_by d = 0")
    case True
    with assms(3) ok show ?thesis by simp
  next
    case t: False
    with False obtain b where "find_downtime None (dt_triggered_by d) w = Some b" by auto
    from find_downtime_SomeD [OF this] ok assms(3) show ?thesis by fastforce
  qed
  have old: "b < Suc ?a" "?at b = downtime_at w b" "dt_triggered_by (downtime_at w b) < dt_downtime_id (downtime_at w b)"
    "dt_downtime_id (downtime_at w b) < dt_downtime_id d" if "b \<in> set (downtime_list w)" for b
    using that ok assms(3) fresh by (auto intro: less_SucI order_less_le_trans)
  have "inj_on (\<lambda>b. dt_downtime_id (?at b)) (insert ?a (set (downtime_list w)))"
    using ok old by (fastforce simp: inj_on_def)
  then have "entries_ok ?w"
    using dist srt trig old unfolding entries_ok_def w by fastforce
  moreover have "in_effect_on ?w t = in_effect_on w t" for t
  proof -
    have tgt: "downtime_target ?w e = downtime_target w e" for e
      by (rule downtime_target_cong) (use w(6,7) in simp_all)
    show ?thesis
      unfolding in_effect_on_def w tgt using fresh assms(2) by auto
  qed
  ultimately show ?thesis
    using assms(1) unfolding downtimes_ok_def depth_ok_def w by simp
qed

lemma add_new_downtime_ok:
  assumes "downtimes_ok w" "\<not> dt_is_in_effect d"
  shows "downtimes_ok (snd (add_new_downtime d w))"
proof -
  let ?n = "next_free_downtime_id (dt_type d) w (next_downtime_id w)"
  have n: "next_downtime_id w \<le> ?n" by (rule next_free_downtime_id_ge)
  have "downtimes_ok (w\<lparr>next_downtime_id := ?n\<rparr>)"
  proof -
    have "entries_ok (w\<lparr>next_downtime_id := ?n\<rparr>)"
      using assms(1) n by (fastforce simp: downtimes_ok_def entries_ok_def)
    moreover have "in_effect_on (w\<lparr>next_downtime_id := ?n\<rparr>) t = in_effect_on w t"
      "depth_of t (w\<lparr>next_downtime_id := ?n\<rparr>) = depth_of t w" for t
      using downtime_target_cong [of "w\<lparr>next_downtime_id := ?n\<rparr>" w]
      by (simp_all add: in_effect_on_def depth_of_def split: notif_target.split)
    ultimately show ?thesis using assms(1) by (simp add: downtimes_ok_def depth_ok_def)
  qed
  from add_downtime_ok [OF this, of "d\<lparr>dt_downtime_id := ?n\<rparr>"] assms(2)
  have "downtimes_ok (snd (xdddefault_add_new_downtime d w))"
    by (simp add: xdddefault_add_new_downtime_def Let_def)
  then show ?thesis
    using assms(1) downtimes_ok_same [OF same_downtimes_basic(2)]
    by (auto simp: add_new_downtime_def case_prod_beta)
qed

lemma register_downtime_ok:
  assumes "downtimes_ok w" "register_downtime ev ty i w = Some (r, w')"
  shows "downtimes_ok w'"
proof (cases "find_downtime (Some ty) i w")
  case None
  with assms show ?thesis by (simp add: register_downtime_def)
next
  case (Some a)
  show ?thesis
  proof (cases "downtime_target w (downtime_at w a)")
    case None
    with assms Some show ?thesis by (simp add: register_downtime_def Let_def)
  next
    case (Some tgt)
    obtain c w1 where w1: "same_downtimes w w1"
      and eq: "w' = upd_downtime a (\<lambda>d. d\<lparr>dt_comment_id := c\<rparr>) w1 \<or>
        (\<exists>t d. schedule_new_event EVENT_SCHEDULED_DOWNTIME True t False 0 None False d None 0
          ((upd_downtime a (\<lambda>d. d\<lparr>dt_comment_id := c\<rparr>) w1)\<lparr>next_addr :=
             Suc (next_addr (upd_downtime a (\<lambda>d. d\<lparr>dt_comment_id := c\<rparr>) w1))\<rparr>) = Some w')"
      using assms(2) Some \<open>find_downtime (Some ty) i w = Some a\<close>
      by (auto simp: register_downtime_def Let_def bind_eq_Some_conv dest: add_new_comment_same
          split: notif_target.splits if_splits)
    have "downtimes_ok w1" using downtimes_ok_same [OF w1 assms(1)] .
    then have ok: "downtimes_ok (upd_downtime a (\<lambda>d. d\<lparr>dt_comment_id := c\<rparr>) w1)"
      using depth_ok_flags [of "{}" w1 "\<lambda>d. d\<lparr>dt_comment_id := c\<rparr>" a]
      by (auto simp: downtimes_ok_def dt_static_def intro: entries_ok_frame)
    from eq show ?thesis
    proof
      assume "w' = upd_downtime a (\<lambda>d. d\<lparr>dt_comment_id := c\<rparr>) w1"
      with ok show ?thesis by simp
    next
      assume "\<exists>t d. schedule_new_event EVENT_SCHEDULED_DOWNTIME True t False 0 None False d None 0
          ((upd_downtime a (\<lambda>d. d\<lparr>dt_comment_id := c\<rparr>) w1)\<lparr>next_addr :=
             Suc (next_addr (upd_downtime a (\<lambda>d. d\<lparr>dt_comment_id := c\<rparr>) w1))\<rparr>) = Some w'"
      with ok show ?thesis
        using downtimes_ok_event [OF ok] by blast
    qed
  qed
qed

lemma schedule_downtime_ok:
  assumes "downtimes_ok w" "\<not> dt_is_in_effect d" "schedule_downtime ev d w = Some (r, n, w')"
  shows "downtimes_ok w'"
proof -
  from assms(3) have "w' = w \<or> (\<exists>x. register_downtime ev (dt_type d) (fst (add_new_downtime d w))
      (snd (add_new_downtime d w)) = Some (x, w'))"
    by (auto simp: schedule_downtime_def case_prod_beta split: if_splits)
  with register_downtime_ok add_new_downtime_ok assms(1,2) show ?thesis by blast
qed

section \<open>Deleting\<close>

lemma delete_idle_ok:
  assumes "entries_ok w" "a \<in> set (downtime_list w)" "\<not> dt_is_in_effect (downtime_at w a)"
  defines "w' \<equiv> snd (delete_downtime (dt_type (downtime_at w a)) (dt_downtime_id (downtime_at w a)) w)"
  shows "entries_ok w'" "depth_ok {} w \<Longrightarrow> depth_ok {} w'"
    "downtime_list w' = filter (\<lambda>b. b \<noteq> a) (downtime_list w)"
proof -
  note f = find_downtime_unique [OF assms(1,2), of "Some (dt_type (downtime_at w a))", simplified]
  show "entries_ok w'" unfolding w'_def by (rule entries_ok_frame [OF delete_downtime_effect(1) assms(1)])
  show "depth_ok {} w \<Longrightarrow> depth_ok {} w'"
    using depth_ok_delete_idle [OF assms(1), of "{}" "dt_type (downtime_at w a)" "dt_downtime_id (downtime_at w a)"]
      f assms(3) by (simp add: w'_def)
  show "downtime_list w' = filter (\<lambda>b. b \<noteq> a) (downtime_list w)"
    using delete_downtime_effect(5) [OF f] assms(1)
    by (simp add: w'_def distinct_remove1_removeAll removeAll_filter_not_eq entries_ok_def eq_commute)
qed

lemma delete_expired_list:
  fixes P :: "engine \<Rightarrow> scheduled_downtime \<Rightarrow> bool"
  assumes P: "\<And>w d. P w d \<Longrightarrow> \<not> dt_is_in_effect d" "\<And>w w' d. P w d = P w' d"
    and ok: "entries_ok w" "distinct xs" "set xs \<subseteq> set (downtime_list w)"
  defines "f \<equiv> \<lambda>a w. if P w (downtime_at w a)
     then snd (delete_downtime (dt_type (downtime_at w a)) (dt_downtime_id (downtime_at w a)) w) else w"
  shows "entries_ok (fold f xs w) \<and> (depth_ok {} w \<longrightarrow> depth_ok {} (fold f xs w)) \<and>
    downtime_at (fold f xs w) = downtime_at w \<and> depth_of tgt (fold f xs w) = depth_of tgt w \<and>
    downtime_list (fold f xs w) = filter (\<lambda>a. \<not> (a \<in> set xs \<and> P w (downtime_at w a))) (downtime_list w)"
  using ok
proof (induction xs arbitrary: w)
  case Nil
  then show ?case by simp
next
  case (Cons a xs)
  note del = delete_idle_ok [OF Cons.prems(1), of a]
  have a: "entries_ok (f a w)" "depth_ok {} w \<longrightarrow> depth_ok {} (f a w)" "downtime_at (f a w) = downtime_at w"
    "depth_of tgt (f a w) = depth_of tgt w"
    "downtime_list (f a w) = filter (\<lambda>b. \<not> (b = a \<and> P w (downtime_at w a))) (downtime_list w)"
    using del P(1) [of w "downtime_at w a"] Cons.prems by (auto simp: f_def delete_downtime_effect)
  have "set xs \<subseteq> set (downtime_list (f a w))" using Cons.prems by (auto simp: a(5))
  with Cons.IH [OF a(1)] Cons.prems(2) a P(2) [of "f a w" _ w] show ?case
    by (auto intro: filter_cong)
qed

lemma check_for_expired_ok:
  fixes ev :: env
  assumes "entries_ok w"
  defines "w' \<equiv> check_for_expired_downtime ev w"
  shows "entries_ok w'" "depth_ok {} w \<Longrightarrow> depth_ok {} w'" "depth_of tgt w' = depth_of tgt w"
    "downtime_list w' =
       filter (\<lambda>a. dt_is_in_effect (downtime_at w a) \<or> now ev \<le> dt_end_time (downtime_at w a)) (downtime_list w)"
  using delete_expired_list [of "\<lambda>_ d. \<not> dt_is_in_effect d \<and> dt_end_time d < now ev", OF _ _ assms(1),
      of "downtime_list w" tgt] assms(1)
  by (auto simp: w'_def check_for_expired_downtime_def delete_downtimes_if_def entries_ok_def
      intro!: filter_cong)

section \<open>Unscheduling\<close>

lemma unschedule_one_ok:
  assumes "downtimes_ok w" "find_downtime ty i w = Some a" "downtime_target w (downtime_at w a) = Some tgt"
    "cancel_downtime ev a tgt w = Some w1" "remove_downtime_event ev i w1 = Some w2"
  shows "downtimes_ok (snd (delete_downtime (dt_type (downtime_at w2 a)) i w2))"
proof -
  note a = find_downtime_SomeD [OF assms(2)]
  let ?w0 = "if dt_is_in_effect (downtime_at w a) then add_depth (- 1) tgt w else w"
  have s: "same_downtimes ?w0 w2"
    using same_downtimes_trans [OF cancel_downtime_same [OF assms(4)] remove_downtime_event_same [OF assms(5)]] .
  have "entries_ok ?w0" using assms(1) by (simp add: downtimes_ok_def entries_ok_def)
  then have e2: "entries_ok w2" by (rule entries_ok_frame [OF same_downtimes_frame [OF s]])
  have at: "downtime_at w2 = downtime_at w" "downtime_list w2 = downtime_list w"
    using s by (simp_all add: same_downtimes_def split: if_splits)
  have "depth_ok {} (snd (delete_downtime (dt_type (downtime_at w2 a)) i w2))"
  proof (cases "dt_is_in_effect (downtime_at w a)")
    case True
    have "depth_ok {a} (add_depth (- 1) tgt w)"
      using depth_ok_stop [of "{}" w a tgt] assms(1,3) a True by (simp add: downtimes_ok_def)
    then have "depth_ok {a} w2" using depth_ok_same s True by simp
    with depth_ok_deleted [OF e2, of a "{}"] a at show ?thesis by simp
  next
    case False
    then have "depth_ok {} w2"
      using depth_ok_same s assms(1) by (simp add: downtimes_ok_def)
    moreover have "find_downtime (Some (dt_type (downtime_at w2 a))) i w2 = Some a"
      using find_downtime_unique [OF e2, of a "Some (dt_type (downtime_at w2 a))"] a at by simp
    ultimately show ?thesis
      using depth_ok_delete_idle [OF e2, of "{}" "dt_type (downtime_at w2 a)" i] False at by simp
  qed
  then show ?thesis
    using entries_ok_frame [OF delete_downtime_effect(1) e2] by (simp add: downtimes_ok_def)
qed

lemma run_unschedule_ok:
  assumes "run_unschedule ec0 w0 = Some r0"
  shows "downtimes_ok w0 \<longrightarrow> downtimes_ok (snd r0)"
proof (rule run_unschedule.raw_induct [OF _ assms, of "\<lambda>ec w r. downtimes_ok w \<longrightarrow> downtimes_ok (snd r)"], goal_cases)
  case (1 f ec w r)
  note IH = 1(1) and run = 1(2)
  show ?case
  proof (intro impI)
    assume ok: "downtimes_ok w"
    show "downtimes_ok (snd r)"
    proof (cases "snd ec")
      case (Unschedule ty i)
      with run consider "r = (ERROR, w)"
        | a tgt w1 w2 where "find_downtime ty i w = Some a" "downtime_target w (downtime_at w a) = Some tgt"
            "cancel_downtime (fst ec) a tgt w = Some w1" "remove_downtime_event (fst ec) i w1 = Some w2"
            "f (fst ec, Unschedule_triggered i) (snd (delete_downtime (dt_type (downtime_at w2 a)) i w2)) = Some r"
        by (auto simp: bind_eq_Some_conv split: option.splits)
      then show ?thesis
      proof cases
        case 1
        with ok show ?thesis by simp
      next
        case 2
        from IH [OF 2(5)] unschedule_one_ok [OF ok 2(1-4)] show ?thesis by simp
      qed
    next
      case (Unschedule_triggered i)
      with run consider "r = (OK, w)"
        | b r1 where "f (fst ec, Unschedule None (dt_downtime_id (downtime_at w b))) w = Some r1"
            "f (fst ec, Unschedule_triggered i) (snd r1) = Some r"
        by (auto simp: bind_eq_Some_conv split: option.splits)
      then show ?thesis
      proof cases
        case 1
        with ok show ?thesis by simp
      next
        case 2
        with IH ok show ?thesis by blast
      qed
    qed
  qed
qed

lemma delete_matching_ok:
  assumes "delete_matching eP0 p0 nw0 = Some r0"
  shows "downtimes_ok (snd nw0) \<longrightarrow> downtimes_ok (snd r0)"
proof (rule delete_matching.raw_induct [OF _ assms, of "\<lambda>_ _ nw r. downtimes_ok (snd nw) \<longrightarrow> downtimes_ok (snd r)"], goal_cases)
  case (1 f eP p nw r)
  note IH = 1(1) and run = 1(2)
  show ?case
  proof (cases p)
    case None
    with run show ?thesis by simp
  next
    case (Some a)
    with run consider "f eP (entry_after a (downtime_list (snd nw))) nw = Some r"
      | u where "run_unschedule (fst eP, Unschedule (Some (dt_type (downtime_at (snd nw) a)))
             (dt_downtime_id (downtime_at (snd nw) a))) (snd nw) = Some u"
          "f eP (entry_after a (downtime_list (snd nw))) (fst nw + 1, snd u) = Some r"
      by (auto simp: bind_eq_Some_conv split: if_splits)
    then show ?thesis
    proof cases
      case 1
      from IH [OF this] show ?thesis .
    next
      case 2
      from IH [OF 2(2)] run_unschedule_ok [OF 2(1)] show ?thesis by simp
    qed
  qed
qed

section \<open>Reachable states\<close>

text \<open>
  One call of the downtime code, at any time and with any answers of the environment. New
  entries have their flags cleared, as \<open>add_downtime\<close> clears them. The last rule is the
  rest of the program.
\<close>

inductive downtime_step :: "engine \<Rightarrow> engine \<Rightarrow> bool" where
  scheduled: "\<lbrakk>\<not> dt_is_in_effect d; schedule_downtime ev d w = Some (r, n, w')\<rbrakk> \<Longrightarrow> downtime_step w w'"
| handled: "handle_scheduled_downtime_by_id ev i w = Some (r, w') \<Longrightarrow> downtime_step w w'"
| host_problem: "check_pending_flex_host_downtime ev h w = Some w' \<Longrightarrow> downtime_step w w'"
| service_problem: "check_pending_flex_service_downtime ev s w = Some w' \<Longrightarrow> downtime_step w w'"
| expired: "downtime_step w (check_for_expired_downtime ev w)"
| unscheduled: "unschedule_downtime ev ty i w = Some (r, w') \<Longrightarrow> downtime_step w w'"
| deleted: "delete_downtime_by_hostname_service_description_start_time_comment ev h s t c w = Some (n, w') \<Longrightarrow>
    downtime_step w w'"
| other: "same_downtimes w w' \<Longrightarrow> downtime_step w w'"

inductive downtime_reachable :: "engine \<Rightarrow> bool" where
  start: "downtime_list w = [] \<Longrightarrow> 0 < next_downtime_id w \<Longrightarrow> (\<And>tgt. depth_of tgt w = 0) \<Longrightarrow> downtime_reachable w"
| step: "downtime_reachable w \<Longrightarrow> downtime_step w w' \<Longrightarrow> downtime_reachable w'"

lemma downtime_step_ok:
  assumes "downtime_step w w'" "downtimes_ok w"
  shows "downtimes_ok w'"
  using assms
proof (cases rule: downtime_step.cases)
  case (scheduled d ev r n)
  then show ?thesis using schedule_downtime_ok [OF assms(2)] by blast
next
  case (handled ev i r)
  then show ?thesis
    using assms(2) handle_downtimes_ok find_downtime_SomeD
    by (fastforce simp: handle_scheduled_downtime_by_id_def handle_scheduled_downtime_def split: option.splits)
next
  case (host_problem ev h)
  then have "w' = w \<or> flex_from (ev, HostTarget h) (hd_opt (downtime_list w)) w = Some w'"
    by (auto simp: check_pending_flex_host_downtime_def split: if_splits)
  from flex_call_ok [OF this assms(2)] show ?thesis .
next
  case (service_problem ev s)
  then have "w' = w \<or> flex_from (ev, ServiceTarget s) (hd_opt (downtime_list w)) w = Some w'"
    by (auto simp: check_pending_flex_service_downtime_def split: if_splits)
  from flex_call_ok [OF this assms(2)] show ?thesis .
next
  case (expired ev)
  then show ?thesis using check_for_expired_ok(1,2) assms(2) by (simp add: downtimes_ok_def)
next
  case (unscheduled ev ty i r)
  then show ?thesis using assms(2) run_unschedule_ok by (fastforce simp: unschedule_downtime_def)
next
  case (deleted ev h s t c n)
  then show ?thesis
    using assms(2) delete_matching_ok
    by (fastforce simp: delete_downtime_by_hostname_service_description_start_time_comment_def split: if_splits)
next
  case other
  then show ?thesis using downtimes_ok_same assms(2) by blast
qed

lemma downtime_reachable_ok: "downtime_reachable w \<Longrightarrow> downtimes_ok w"
proof (induction rule: downtime_reachable.induct)
  case (start w)
  then show ?case by (simp add: downtimes_ok_def entries_ok_def depth_ok_def in_effect_on_def)
next
  case (step w w')
  then show ?case using downtime_step_ok by blast
qed

section \<open>Properties\<close>

text \<open>C20. In every state that scheduling, starting, ending, triggering, expiring, cancelling
  and deleting downtimes reach, with any steps of the rest of the program in between, the
  downtime depth of each host and service is the number of listed downtimes of it that are in
  effect, the list is sorted by start time unless sorting is deferred, and identifiers are
  unique, below the next one, and above that of the triggering downtime.\<close>

theorem downtime_depth_counts_entries:
  assumes "downtime_reachable w"
  shows "depth_of tgt w = int (card (in_effect_on w tgt)) \<and>
    (defer_downtime_sorting w \<or> sorted (map (\<lambda>a. dt_start_time (downtime_at w a)) (downtime_list w))) \<and>
    inj_on (\<lambda>a. dt_downtime_id (downtime_at w a)) (set (downtime_list w)) \<and>
    (\<forall>a\<in>set (downtime_list w). dt_triggered_by (downtime_at w a) < dt_downtime_id (downtime_at w a) \<and>
      dt_downtime_id (downtime_at w a) < next_downtime_id w)"
  using downtime_reachable_ok [OF assms]
  by (auto simp: downtimes_ok_def depth_ok_def entries_ok_def)

text \<open>A quiet example (notifications are off), its downtime scheduled and started.\<close>

definition ex_quiet :: engine where
  "ex_quiet = ex_engine\<lparr>cfg := ex_cfg\<lparr>enable_notifications := False\<rparr>\<rparr>"

definition ex_in_downtime :: "engine option" where
  "ex_in_downtime =
     Option.bind (schedule_downtime ex_env ex_downtime ex_quiet)
       (\<lambda>(_, n, w). map_option snd (handle_scheduled_downtime_by_id ex_env n w))"

lemma ex_in_downtime_reachable:
  assumes "ex_in_downtime = Some w"
  shows "downtime_reachable w"
proof -
  have start: "downtime_reachable ex_quiet"
    by (rule downtime_reachable.start)
      (simp_all add: ex_quiet_def ex_engine_def ex_host_def ex_service_def depth_of_def split: notif_target.split)
  have off: "\<not> dt_is_in_effect ex_downtime" by (simp add: ex_downtime_def)
  obtain r n w1 r2 where "schedule_downtime ex_env ex_downtime ex_quiet = Some (r, n, w1)"
    "handle_scheduled_downtime_by_id ex_env n w1 = Some (r2, w)"
    using assms by (auto simp: ex_in_downtime_def bind_eq_Some_conv)
  from downtime_reachable.step [OF downtime_reachable.step [OF start downtime_step.scheduled [OF off this(1)]]
      downtime_step.handled [OF this(2)]] show ?thesis .
qed

lemma ex_in_downtime_computed:
  "(case ex_in_downtime of None \<Rightarrow> False
    | Some w \<Rightarrow> depth_of (ServiceTarget (''h'', ''s'')) w = 1 \<and> downtime_list w = [0])"
  by code_simp

theorem downtime_depth_counts_entries_witness:
  "\<exists>w. ex_in_downtime = Some w \<and> card (in_effect_on w (ServiceTarget (''h'', ''s''))) = 1"
proof -
  obtain w where w: "ex_in_downtime = Some w" "depth_of (ServiceTarget (''h'', ''s'')) w = 1"
    using ex_in_downtime_computed by (auto split: option.splits)
  from downtime_depth_counts_entries [OF ex_in_downtime_reachable [OF w(1)], of "ServiceTarget (''h'', ''s'')"] w
  show ?thesis by auto
qed

text \<open>C35. A flexible downtime that went into effect because its object already had a problem
  when it was due, and whose object has recovered by its end: its end event is taken for a start
  that has to wait for a problem. The downtime stays in effect, nothing ends it any more, and
  the expiry that was queued instead passes over it at whatever time it runs, so the depth never
  goes down.\<close>

theorem flexible_downtime_stays_in_effect:
  assumes "entries_ok w" "event_queues w q" "a \<in> set (downtime_list w)"
    "downtime_target w (downtime_at w a) = Some tgt" "\<not> dt_fixed (downtime_at w a)"
    "\<not> dt_start_flex_downtime (downtime_at w a)" "dt_is_in_effect (downtime_at w a)" "target_ok tgt w"
  shows "\<exists>w1. handle_scheduled_downtime ev a w = Some (OK, w1) \<and> dt_is_in_effect (downtime_at w1 a) \<and>
    depth_of tgt w1 = depth_of tgt w \<and>
    a \<in> set (downtime_list (check_for_expired_downtime ev' w1)) \<and>
    depth_of tgt (check_for_expired_downtime ev' w1) = depth_of tgt w"
proof -
  have wait: "waits_for_problem a tgt w" using assms(5,6,8) by (simp add: waits_for_problem_def)
  let ?w0 = "upd_downtime a (\<lambda>d. d\<lparr>dt_incremented_pending_downtime := True\<rparr>) (add_pending 1 tgt w)"
  have "event_queues ?w0 q" using assms(2) event_queues_cong [of ?w0 w q] by simp
  from schedule_new_event_queued [OF this, of EVENT_EXPIRE_DOWNTIME True "dt_end_time (downtime_at w a) + 1"
      False 0 None False None None 0]
  obtain w1 where w1: "pend_downtime a tgt w = Some w1"
    by (auto simp: pend_downtime_def hash_type_of_def event_type_defs EVENT_EXPIRE_DOWNTIME_def)
  have "handle_scheduled_downtime ev a w = Some (OK, w1)"
    using assms(4) wait w1 unfolding handle_scheduled_downtime_def by (subst run_downtime.simps) simp
  moreover have at: "dt_is_in_effect (downtime_at w1 a)" "downtime_list w1 = downtime_list w"
    "depth_of tgt w1 = depth_of tgt w"
    using w1 assms(7) by (auto simp: pend_downtime_def schedule_new_event_def Let_def)
  moreover have "entries_ok w1" by (rule entries_ok_frame [OF pend_downtime_ok(1) [OF w1] assms(1)])
  ultimately show ?thesis
    using assms(3) check_for_expired_ok(3,4) [of w1] by auto
qed

definition ex_recovered :: engine where
  "ex_recovered = ex_listed\<lparr>
     svc_of := (\<lambda>_. ex_service\<lparr>s_current_state := STATE_OK, s_scheduled_downtime_depth := 1\<rparr>),
     downtime_at := (\<lambda>_. ex_downtime\<lparr>dt_fixed := False, dt_is_in_effect := True\<rparr>)\<rparr>"

theorem flexible_downtime_stays_in_effect_witness:
  "\<exists>w1. handle_scheduled_downtime ex_env 0 ex_recovered = Some (OK, w1) \<and>
     depth_of (ServiceTarget (''h'', ''s'')) w1 = 1"
proof -
  let ?tgt = "ServiceTarget (''h'', ''s'')"
  have "event_queues ex_recovered (\<lambda>_. [])"
    using ex_listed_ok(1) by (simp add: ex_recovered_def event_queues_def)
  moreover have "entries_ok ex_recovered" "0 \<in> set (downtime_list ex_recovered)"
    "downtime_target ex_recovered (downtime_at ex_recovered 0) = Some ?tgt"
    "\<not> dt_fixed (downtime_at ex_recovered 0)" "\<not> dt_start_flex_downtime (downtime_at ex_recovered 0)"
    "dt_is_in_effect (downtime_at ex_recovered 0)" "target_ok ?tgt ex_recovered"
    "depth_of ?tgt ex_recovered = 1"
    by (simp_all add: ex_recovered_def ex_listed_def ex_engine_def ex_downtime_def entries_ok_def
        downtime_target_def target_ok_def depth_of_def)
  ultimately show ?thesis
    using flexible_downtime_stays_in_effect [of ex_recovered "\<lambda>_. []" 0 ?tgt ex_env ex_env] by auto
qed

end
