(* ===== verification/Plugin_Output.thy ===== *)
theory Plugin_Output
  imports Prelude
begin

text \<open>
  Parsing the output of a check, \<^verbatim>\<open>parse_check_output\<close> in \<^verbatim>\<open>src/utils.cc\<close> with
  \<^verbatim>\<open>strip\<close> and \<^verbatim>\<open>escape_newlines\<close>: the first line is the short output up to a bar
  and performance data behind it, the other lines are long output up to the next bar and
  performance data from there on. A C string is a list of characters without NUL; the buffer
  that the code cuts line by line is the list of its lines.
\<close>

abbreviation NL :: char where "NL \<equiv> CHR 0x0A"
abbreviation BSL :: char where "BSL \<equiv> CHR 0x5C"
abbreviation BAR :: char where "BAR \<equiv> CHR ''|''"

section \<open>The code\<close>

fun unescape_output :: "string \<Rightarrow> string" where
  "unescape_output [] = []"
| "unescape_output (c # cs) =
     (if c = BSL
      then (case cs of
              [] \<Rightarrow> [c]
            | d # ds \<Rightarrow> if d = BSL then BSL # unescape_output ds
                       else if d = CHR ''n'' then NL # unescape_output ds
                       else c # unescape_output cs)
      else c # unescape_output cs)"

fun escape_newlines :: "string \<Rightarrow> string" where
  "escape_newlines [] = []"
| "escape_newlines (c # cs) =
     (if c = BSL then BSL # BSL # escape_newlines cs
      else if c = NL then BSL # CHR ''n'' # escape_newlines cs
      else c # escape_newlines cs)"

definition cons_line :: "char \<Rightarrow> string list \<Rightarrow> string list" where
  "cons_line c ls = (case ls of [] \<Rightarrow> [[c]] | l # ls \<Rightarrow> (c # l) # ls)"

text \<open>Where the loop ends a line: at a newline, and again at an escaped one.\<close>

fun output_lines :: "bool \<Rightarrow> string \<Rightarrow> string list" where
  "output_lines esc [] = [[]]"
| "output_lines esc (c # cs) =
     (if c = NL then [] # output_lines esc cs
      else case cs of
        [] \<Rightarrow> [[c]]
      | d # ds \<Rightarrow>
          if c = BSL \<and> d = CHR ''n'' \<and> esc then [] # output_lines esc ds
          else cons_line c (output_lines esc cs))"

definition is_blank :: "char \<Rightarrow> bool" where
  "is_blank c \<longleftrightarrow> c \<in> {CHR '' '', NL, CHR 0x0D, CHR 0x09}"

definition strip :: "string \<Rightarrow> string" where
  "strip s = dropWhile is_blank (rev (dropWhile is_blank (rev s)))"

text \<open>
  \<open>strtok\<close> skips leading bars and may find no token; the text behind the next bar is the
  performance data of the first line.
\<close>

definition first_line :: "string \<Rightarrow> string option \<times> string" where
  "first_line l =
     (case dropWhile ((=) BAR) l of
        [] \<Rightarrow> (None, [])
      | s \<Rightarrow> (Some (takeWhile ((\<noteq>) BAR) s), drop 1 (dropWhile ((\<noteq>) BAR) s)))"

record output_parts =
  in_perf_data :: bool
  long_buf :: string
  perf_buf :: string

definition later_line :: "nat \<Rightarrow> string \<Rightarrow> output_parts \<Rightarrow> output_parts" where
  "later_line current_line l st =
     (let sep = (if current_line > 2 then [NL] else [])
      in if in_perf_data st then st\<lparr>perf_buf := perf_buf st @ l @ '' ''\<rparr>
         else if BAR \<in> set l
         then
           let rest = drop 1 (dropWhile ((\<noteq>) BAR) l)
           in st\<lparr>in_perf_data := True,
                 long_buf := long_buf st @ sep @ takeWhile ((\<noteq>) BAR) l,
                 perf_buf := perf_buf st @ (if rest = [] then [] else rest @ '' '')\<rparr>
         else st\<lparr>long_buf := long_buf st @ sep @ l\<rparr>)"

fun later_lines :: "nat \<Rightarrow> string list \<Rightarrow> output_parts \<Rightarrow> output_parts" where
  "later_lines n [] st = st"
| "later_lines n (l # ls) st = later_lines (Suc n) ls (later_line n l st)"

definition parse_check_output ::
    "bool \<Rightarrow> bool \<Rightarrow> string option \<Rightarrow> string option \<times> string option \<times> string option" where
  "parse_check_output escape_newlines_please newlines_are_escaped buf =
     (case buf of
        None \<Rightarrow> (None, None, None)
      | Some s \<Rightarrow>
          if s = [] then (None, None, None)
          else
            let text = (if newlines_are_escaped then unescape_output s else s);
                ls = output_lines newlines_are_escaped text;
                (short, perf) = first_line (hd ls);
                st = later_lines 2 (tl ls) \<lparr>in_perf_data = False, long_buf = [], perf_buf = perf\<rparr>;
                long = (if long_buf st = [] then None
                        else Some (if escape_newlines_please then escape_newlines (long_buf st) else long_buf st));
                data = (if perf_buf st = [] then None else Some (perf_buf st))
            in (map_option strip short, long, map_option strip data))"

text \<open>The loop of the callers that keeps semicolons out of the short output.\<close>

definition no_semicolons :: "string \<Rightarrow> string" where
  "no_semicolons = map (\<lambda>c. if c = CHR '';'' then CHR '':'' else c)"

section \<open>Escaping\<close>

lemma unescape_escape: "unescape_output (escape_newlines s) = s"
  by (induction s rule: escape_newlines.induct) auto

section \<open>Lines\<close>

definition plain :: "string \<Rightarrow> bool" where
  "plain s \<longleftrightarrow> set s \<inter> {NL, BSL} = {}"

fun join_lines :: "string list \<Rightarrow> string" where
  "join_lines [] = []"
| "join_lines [l] = l"
| "join_lines (l # ls) = l @ NL # join_lines ls"

lemma unescape_plain: "plain s \<Longrightarrow> unescape_output (s @ t) = s @ unescape_output t"
  by (induction s) (auto simp: plain_def)

lemma unescape_NL: "unescape_output (NL # t) = NL # unescape_output t"
  by simp

lemma output_lines_not_Nil [simp]: "output_lines esc s \<noteq> []"
  by (induction esc s rule: output_lines.induct) (auto simp: cons_line_def split: list.split)

lemma output_lines_plain:
  assumes "plain s"
  shows "output_lines esc (s @ NL # t) = s # output_lines esc t" "output_lines esc s = [s]"
proof -
  from assms show "output_lines esc (s @ NL # t) = s # output_lines esc t"
  proof (induction s)
    case (Cons c s)
    then show ?case by (cases s) (auto simp: plain_def cons_line_def)
  qed simp
  from assms show "output_lines esc s = [s]"
  proof (induction s)
    case (Cons c s)
    then show ?case by (cases s) (auto simp: plain_def cons_line_def)
  qed simp
qed

lemma output_lines_join:
  "ls \<noteq> [] \<Longrightarrow> \<forall>l\<in>set ls. plain l \<Longrightarrow> output_lines esc (join_lines ls) = ls"
  by (induction ls rule: join_lines.induct) (simp_all add: output_lines_plain)

lemma unescape_join: "\<forall>l\<in>set ls. plain l \<Longrightarrow> unescape_output (join_lines ls) = join_lines ls"
proof (induction ls rule: join_lines.induct)
  case (2 l)
  then show ?case using unescape_plain [of l "[]"] by simp
next
  case (3 l l' ls)
  then show ?case using unescape_plain [of l "NL # join_lines (l' # ls)"] by (simp add: unescape_NL)
qed simp

lemma takeWhile_bar: "BAR \<notin> set s \<Longrightarrow> takeWhile ((\<noteq>) BAR) (s @ BAR # t) = s"
  and dropWhile_bar: "BAR \<notin> set s \<Longrightarrow> dropWhile ((\<noteq>) BAR) (s @ BAR # t) = BAR # t"
  by (induction s) auto

lemma first_line_bar: "BAR \<notin> set s \<Longrightarrow> s \<noteq> [] \<Longrightarrow> first_line (s @ BAR # t) = (Some s, t)"
  by (cases s) (auto simp: first_line_def takeWhile_bar dropWhile_bar)

lemma first_line_no_bar: "BAR \<notin> set s \<Longrightarrow> s \<noteq> [] \<Longrightarrow> first_line s = (Some s, [])"
proof -
  assume bar: "BAR \<notin> set s" and ne: "s \<noteq> []"
  then have all: "takeWhile ((\<noteq>) BAR) s = s" "dropWhile ((\<noteq>) BAR) s = []"
    by (auto simp: takeWhile_eq_all_conv dropWhile_eq_Nil_conv)
  have "first_line s = (Some (takeWhile ((\<noteq>) BAR) s), drop 1 (dropWhile ((\<noteq>) BAR) s))"
    using bar ne by (cases s) (auto simp: first_line_def)
  then show ?thesis unfolding all by simp
qed

lemma later_lines_append: "later_lines n (xs @ ys) st = later_lines (n + length xs) ys (later_lines n xs st)"
  by (induction xs arbitrary: n st) simp_all

lemma later_lines_long:
  "\<forall>l\<in>set ls. BAR \<notin> set l \<Longrightarrow> \<not> in_perf_data st \<Longrightarrow> n > 2 \<Longrightarrow>
   later_lines n ls st = st\<lparr>long_buf := long_buf st @ concat (map (\<lambda>l. NL # l) ls)\<rparr>"
  by (induction ls arbitrary: n st) (auto simp: later_line_def)

lemma later_lines_perf:
  "in_perf_data st \<Longrightarrow> later_lines n ls st = st\<lparr>perf_buf := perf_buf st @ concat (map (\<lambda>l. l @ '' '') ls)\<rparr>"
  by (induction ls arbitrary: n st) (auto simp: later_line_def)

lemma join_lines_Cons: "join_lines (l # ls) = l @ concat (map (\<lambda>l. NL # l) ls)"
  by (induction ls arbitrary: l) simp_all

section \<open>Properties\<close>

text \<open>Escaping newlines and backslashes of a text and undoing it gives the text back.\<close>

theorem unescape_escape_newlines: "unescape_output (escape_newlines s) = s"
  by (rule unescape_escape)

text \<open>C34. Parsing an output in the three parts of the plugin interface (a first line with a bar,
  long output up to a line with a bar, performance data after it; no backslashes): the short
  output and the performance data come out without surrounding blanks, the lines of the long
  output joined with escaped newlines, and the later lines of performance data joined with
  blanks. The performance data of the first line stands before them with nothing between: the
  documentation of the interface (case 3 of \<^verbatim>\<open>centengine_plugin_api.rst\<close>) has a blank there
  too.\<close>

theorem parse_check_output_layout:
  assumes "plain short" "BAR \<notin> set short" "short \<noteq> []" "plain perf"
    "\<forall>l\<in>set longs. plain l \<and> BAR \<notin> set l" "plain lst" "BAR \<notin> set lst" "plain p"
    "\<forall>l\<in>set perfs. plain l" "p \<noteq> []" "join_lines (longs @ [lst]) \<noteq> []"
  shows "parse_check_output True True
      (Some (join_lines ((short @ BAR # perf) # longs @ (lst @ BAR # p) # perfs))) =
    (Some (strip short), Some (escape_newlines (join_lines (longs @ [lst]))),
     Some (strip (perf @ concat (map (\<lambda>l. l @ '' '') (p # perfs)))))"
proof -
  let ?ls = "(short @ BAR # perf) # longs @ (lst @ BAR # p) # perfs"
  have plain: "\<forall>l\<in>set ?ls. plain l" using assms by (auto simp: plain_def)
  have cut: "output_lines True (unescape_output (join_lines ?ls)) = ?ls"
    unfolding unescape_join [OF plain] by (rule output_lines_join [OF _ plain]) simp
  have ne: "join_lines ?ls \<noteq> []" by (simp only: join_lines_Cons) simp
  let ?st = "\<lparr>in_perf_data = False, long_buf = [], perf_buf = perf\<rparr>"
  have lines: "later_lines 2 (longs @ (lst @ BAR # p) # perfs) ?st =
      \<lparr>in_perf_data = True, long_buf = join_lines (longs @ [lst]),
       perf_buf = perf @ concat (map (\<lambda>l. l @ '' '') (p # perfs))\<rparr>"
  proof (cases longs)
    case Nil
    then show ?thesis
      using assms(7,10) by (simp add: later_line_def later_lines_perf takeWhile_bar dropWhile_bar Let_def)
  next
    case (Cons l longs')
    then have l: "BAR \<notin> set l" "\<forall>l\<in>set longs'. BAR \<notin> set l" using assms(5) by auto
    have "later_lines 2 longs ?st = ?st\<lparr>long_buf := l @ concat (map (\<lambda>l. NL # l) longs')\<rparr>"
      using l by (simp add: Cons later_line_def later_lines_long Let_def)
    moreover have "2 < 2 + length longs" by (simp add: Cons)
    ultimately show ?thesis
      using assms(7,10) by (simp add: later_lines_append later_line_def later_lines_perf takeWhile_bar
          dropWhile_bar Let_def Cons join_lines_Cons del: join_lines.simps)
  qed
  show ?thesis
    unfolding parse_check_output_def option.case Let_def using ne cut assms(2,3,10,11)
    by (simp add: lines first_line_bar)
qed

theorem parse_check_output_layout_witness:
  "parse_check_output True True (Some (''OK |a=1'' @ [NL] @ ''more|b=2'' @ [NL] @ ''c=3'')) =
    (Some ''OK'', Some ''more'', Some ''a=1b=2 c=3'')"
  using parse_check_output_layout [of "''OK ''" "''a=1''" "[]" "''more''" "''b=2''" "[''c=3'']"]
  by (simp add: plain_def strip_def is_blank_def)

text \<open>The text of a plugin that prints a backslash followed by the letter n, escaped as
  the code escapes it, is cut at that place: the line splitter unescapes it a second time. The
  first part becomes the short output and the rest long output.\<close>

theorem escaped_backslash_cuts_output:
  assumes "plain a" "BAR \<notin> set a" "a \<noteq> []" "plain b" "BAR \<notin> set b" "b \<noteq> []"
  shows "parse_check_output True True (Some (escape_newlines (a @ BSL # CHR ''n'' # b))) =
    (Some (strip a), Some b, None)"
proof -
  have cut: "output_lines True (a @ BSL # CHR ''n'' # b) = [a, b]"
    using assms(1)
  proof (induction a)
    case Nil
    then show ?case by (simp add: output_lines_plain(2) [OF assms(4)])
  next
    case (Cons c a)
    then show ?case by (cases a) (auto simp: plain_def cons_line_def)
  qed
  have esc: "escape_newlines b = b" using assms(4) by (induction b) (auto simp: plain_def)
  have "escape_newlines (a @ BSL # CHR ''n'' # b) \<noteq> []" by (cases a) auto
  then show ?thesis
    using assms cut esc
    by (simp add: parse_check_output_def unescape_escape first_line_no_bar later_line_def Let_def)
qed

theorem escaped_backslash_cuts_output_witness:
  "parse_check_output True True (Some (''C:'' @ [BSL, BSL] @ ''new'')) = (Some ''C:'', Some ''ew'', None)"
  using escaped_backslash_cuts_output [of "''C:''" "''ew''"] by (simp add: plain_def strip_def is_blank_def)

end
