(* ===== verification/Host_Check.thy ===== *)
theory Host_Check
  imports Check_Scheduling Downtime Plugin_Output "HOL-Library.Monad_Syntax"
begin

text \<open>
  Host checks: launching them (\<^verbatim>\<open>src/checks/checker.cc\<close>), processing their results
  and freshness (\<^verbatim>\<open>src/checks.cc\<close>), and what a state change sets off
  (\<^verbatim>\<open>handle_host_state\<close> in \<^verbatim>\<open>src/sehandlers.cc\<close>). Running a command is
  the environment's: it gives the identifier of a process that was started, or the result of
  one that was waited for, depending on what happened before. Macros, log lines and the
  arguments of broker calls are left out; the latency that \<^verbatim>\<open>run\<close> sets for the
  macros is restored there and does not show. \<open>None\<close> is a call that does not return, or a
  passive result that is no host state.
\<close>

section \<open>Texts and states\<close>

fun digits :: "nat \<Rightarrow> string" where
  "digits n = (if n < 10 then [char_of (48 + n)] else digits (n div 10) @ [char_of (48 + n mod 10)])"

declare digits.simps [simp del]

definition string_of_int :: "int \<Rightarrow> string" where
  "string_of_int i = (if i < 0 then CHR ''-'' # digits (nat (- i)) else digits (nat i))"

definition STATE_UNKNOWN_code :: int where "STATE_UNKNOWN_code = 3"

definition host_state_of_int :: "int \<Rightarrow> host_state option" where
  "host_state_of_int i =
     (if i = 0 then Some HOST_UP else if i = 1 then Some HOST_DOWN
      else if i = 2 then Some HOST_UNREACHABLE else None)"

text \<open>A time one interval from now, through \<open>double\<close>.\<close>

definition host_check_after :: "env \<Rightarrow> rat \<Rightarrow> engine \<Rightarrow> int" where
  "host_check_after ev interval w =
     trunc_to_time (of_int (now ev) + interval * of_int (interval_length (cfg w)))"

section \<open>A host changes state\<close>

definition record_host_time :: "int \<Rightarrow> host \<Rightarrow> host" where
  "record_host_time t v =
     (case h_current_state v of
        HOST_UP \<Rightarrow> v\<lparr>h_last_time_up := t\<rparr>
      | HOST_DOWN \<Rightarrow> v\<lparr>h_last_time_down := t\<rparr>
      | HOST_UNREACHABLE \<Rightarrow> v\<lparr>h_last_time_unreachable := t\<rparr>)"

definition host_state_changed :: "host \<Rightarrow> bool" where
  "host_state_changed v \<longleftrightarrow>
     h_last_state v \<noteq> h_current_state v \<or> h_last_hard_state v \<noteq> h_current_state v \<or>
     h_current_state v = HOST_UP \<and> h_state_type v = SOFT_STATE"

definition record_host_change :: "int \<Rightarrow> host \<Rightarrow> host" where
  "record_host_change t v =
     (let v1 = (if h_state_type v = SOFT_STATE \<or> h_last_state v \<noteq> h_current_state v
                then v\<lparr>h_last_state_change := t\<rparr> else v)
      in if h_state_type v = HARD_STATE then v1\<lparr>h_last_hard_state_change := t\<rparr> else v1)"

definition assign_host_ids :: "host_id \<Rightarrow> engine \<Rightarrow> engine" where
  "assign_host_ids h w =
     (let w1 = upd_host h (\<lambda>v. v\<lparr>h_last_event_id := h_current_event_id v,
                                  h_current_event_id := next_event_id w\<rparr>) w;
          w2 = w1\<lparr>next_event_id := next_event_id w1 + 1\<rparr>;
          w3 = (if h_last_state (host_of w2 h) = HOST_UP
                then (upd_host h (\<lambda>v. v\<lparr>h_current_problem_id := next_problem_id w2\<rparr>) w2)
                       \<lparr>next_problem_id := next_problem_id w2 + 1\<rparr>
                else w2)
      in if h_current_state (host_of w3 h) = HOST_UP
         then upd_host h (\<lambda>v. v\<lparr>h_last_problem_id := h_current_problem_id v, h_current_problem_id := 0\<rparr>) w3
         else w3)"

definition reset_host_acknowledgement :: "host_id \<Rightarrow> engine \<Rightarrow> engine" where
  "reset_host_acknowledgement h w =
     (let v = host_of w h in
      if h_acknowledgement_type v = ACKNOWLEDGEMENT_NORMAL \<or>
         h_acknowledgement_type v = ACKNOWLEDGEMENT_STICKY \<and> h_current_state v = HOST_UP
      then snd (delete_host_acknowledgement_comments (Some h)
             (upd_host h (\<lambda>v. v\<lparr>h_problem_has_been_acknowledged := False,
                                h_acknowledgement_type := ACKNOWLEDGEMENT_NONE\<rparr>) w))
      else w)"

definition forget_host_notifications :: "host \<Rightarrow> host" where
  "forget_host_notifications v =
     v\<lparr>h_current_notification_number := 0, h_notified_on_down := False, h_notified_on_unreachable := False\<rparr>"

definition notify_host_state :: "env \<Rightarrow> host_id \<Rightarrow> engine \<Rightarrow> engine option" where
  "notify_host_state ev h w =
     map_option snd (host_notification ev h NOTIFICATION_NORMAL None None NOTIFICATION_OPTION_NONE w)"

definition host_changed :: "env \<Rightarrow> host_id \<Rightarrow> engine \<Rightarrow> engine option" where
  "host_changed ev h w =
     (let w1 = reset_host_acknowledgement h (assign_host_ids h (upd_host h (record_host_change (now ev)) w));
          w2 = upd_host h (\<lambda>v. v\<lparr>h_last_host_notification := 0, h_next_host_notification := 0,
                                  h_no_more_notifications := False\<rparr>) w1;
          w3 = (if h_state_type (host_of w2 h) = HARD_STATE \<or> log_host_retries (cfg w2)
                then emit (Log_host_event h) w2 else w2)
      in do {
        w4 \<leftarrow> check_pending_flex_host_downtime ev h w3;
        let w5 = (if h_current_state (host_of w4 h) = HOST_UP
                  then upd_host_other h (\<lambda>p. p\<lparr>ho_recovery_been_sent := False, ho_initial_notif_time := 0\<rparr>) w4
                  else w4);
        w6 \<leftarrow> (if h_state_type (host_of w5 h) = HARD_STATE then notify_host_state ev h w5 else Some w5);
        let w7 = emit (Handle_host_event h) w6;
        let w8 = (if h_current_state (host_of w7 h) = HOST_UP
                  then upd_host h (\<lambda>v. v\<lparr>h_current_attempt := 1\<rparr>) w7 else w7);
        Some (if h_current_state (host_of w8 h) = HOST_UP \<and> ho_recovery_been_sent (host_other_props w8 h)
              then upd_host h forget_host_notifications w8 else w8)
      })"

definition host_unchanged :: "env \<Rightarrow> host_id \<Rightarrow> engine \<Rightarrow> engine option" where
  "host_unchanged ev h w =
     (let old_recovery_been_sent = ho_recovery_been_sent (host_other_props w h);
          v = host_of w h
      in do {
        w1 \<leftarrow> (if (h_current_state v \<noteq> HOST_UP \<or> \<not> old_recovery_been_sent) \<and> h_state_type v = HARD_STATE
              then notify_host_state ev h w else Some w);
        let w2 = (if \<not> old_recovery_been_sent \<and> ho_recovery_been_sent (host_other_props w1 h) \<and>
                     h_current_state (host_of w1 h) = HOST_UP
                  then upd_host h forget_host_notifications w1 else w1);
        Some (if h_state_type (host_of w2 h) = SOFT_STATE \<and> log_host_retries (cfg w2)
              then emit (Log_host_event h) w2 else w2)
      })"

definition handle_host_state :: "env \<Rightarrow> host_id \<Rightarrow> engine \<Rightarrow> engine option" where
  "handle_host_state ev h w =
     (let w1 = upd_host h (record_host_time (now ev))
                 (emit (Update_host_performance_data h) (emit (Obsessive_host_check h) w))
      in if host_state_changed (host_of w1 h) then host_changed ev h w1 else host_unchanged ev h w1)"

section \<open>Launching a check\<close>

definition start_host_check ::
    "env \<Rightarrow> host_id \<Rightarrow> int \<Rightarrow> rat \<Rightarrow> bool \<Rightarrow> bool \<Rightarrow> engine \<Rightarrow> engine" where
  "start_host_check ev h check_options latency scheduled_check reschedule_check w =
     (let w1 = (if scheduled_check then upd_host h (\<lambda>v. v\<lparr>h_check_options := CHECK_OPTION_NONE\<rparr>) w else w);
          w2 = adjust_host_check_attempt_3x h True w1;
          start_time = (now ev, now_us ev);
          w3 = (if \<not> scheduled_check then upd_host h (\<lambda>v. v\<lparr>h_next_check := now ev\<rparr>) w2 else w2);
          w4 = upd_host h (\<lambda>v. v\<lparr>h_is_executing := True\<rparr>)
                 (w3\<lparr>currently_running_host_checks := currently_running_host_checks w3 + 1\<rparr>);
          info = \<lparr>cr_object_check_type = HOST_CHECK, cr_host_name = h, cr_service_description = None,
                  cr_check_type = CHECK_ACTIVE, cr_check_options = check_options,
                  cr_scheduled_check = scheduled_check, cr_reschedule_check = reschedule_check,
                  cr_latency = latency, cr_start_time = start_time, cr_finish_time = start_time,
                  cr_early_timeout = False, cr_exited_ok = True, cr_return_code = 0, cr_output = None\<rparr>;
          w5 = emit (Check_stats PARALLEL_HOST_CHECK_STATS (now ev))
                 (emit (Check_stats (if scheduled_check then ACTIVE_SCHEDULED_HOST_CHECK_STATS
                                     else ACTIVE_ONDEMAND_HOST_CHECK_STATS) (now ev))
                   (emit (Broker_host_check Check_initiate h) w4));
          w6 = emit (Run_host_check h) w5
      in case run_command ev (out w6) (HostTarget h) of
           Some i \<Rightarrow> if i \<noteq> 0 then w6\<lparr>list_id := (list_id w6)(i \<mapsto> info)\<rparr> else w6
         | None \<Rightarrow> w6\<lparr>to_reap := to_reap w6 @
             [info\<lparr>cr_return_code := STATE_UNKNOWN_code, cr_output := Some ''(Execute command failed)''\<rparr>]\<rparr>)"

text \<open>
  The result (with \<open>ERROR\<close> for an exception) and the two values passed back through
  pointers.
\<close>

definition run_async_host_check_3x ::
    "env \<Rightarrow> host_id \<Rightarrow> int \<Rightarrow> rat \<Rightarrow> bool \<Rightarrow> bool \<Rightarrow> engine \<Rightarrow> ((result \<times> bool \<times> int) \<times> engine) option" where
  "run_async_host_check_3x ev h check_options latency scheduled_check reschedule_check w =
     (if h_check_command_ptr (host_of w h) = None then Some ((ERROR, True, 0), w)
      else do {
        (viable, time_is_valid, preferred_time) \<leftarrow> check_host_check_viability_3x ev h check_options w;
        if viable = ERROR then Some ((ERROR, time_is_valid, preferred_time), w)
        else
          let w1 = (if reschedule_check
                    then upd_host_other h (\<lambda>p. p\<lparr>ho_should_reschedule_current_check := True\<rparr>) w else w)
          in if h_is_executing (host_of w1 h) \<and> \<not> forced check_options
             then Some ((OK, time_is_valid, preferred_time), w1)
             else
               let w2 = emit (Broker_host_check Async_precheck h) w1
               in Some (case neb_host_check ev Async_precheck h of
                    NEB_CANCEL \<Rightarrow> ((ERROR, time_is_valid, preferred_time), w2)
                  | NEB_OVERRIDE \<Rightarrow> ((OK, time_is_valid, preferred_time), w2)
                  | NEB_CONTINUE \<Rightarrow>
                      ((OK, time_is_valid, preferred_time),
                       start_host_check ev h check_options latency scheduled_check reschedule_check w2))
      })"

definition run_scheduled_host_check_3x :: "env \<Rightarrow> host_id \<Rightarrow> int \<Rightarrow> rat \<Rightarrow> engine \<Rightarrow> (result \<times> engine) option" where
  "run_scheduled_host_check_3x ev h check_options latency w = do {
     ((result, time_is_valid, preferred_time), w1) \<leftarrow>
       run_async_host_check_3x ev h check_options latency True True w;
     if result \<noteq> ERROR then Some (OK, w1)
     else
       let hst = host_of w1 h;
           preferred =
             (if preferred_time \<le> now ev
              then now ev + (if h_check_interval hst \<le> 0 then 300
                             else trunc_to_time (h_check_interval hst * of_int (interval_length (cfg w1))))
              else preferred_time);
           next_valid_time = get_next_valid_time ev (get_host_timezone w1 h) preferred (h_check_period_ptr hst);
           w2 = (if h_should_be_scheduled hst
                 then if \<not> time_is_valid \<and> next_valid_time = preferred
                      then upd_host h (\<lambda>v. v\<lparr>h_next_check := next_valid_time + 60 * 60 * 24 * 7\<rparr>) w1
                      else upd_host h (\<lambda>v. v\<lparr>h_next_check := next_valid_time, h_should_be_scheduled := True\<rparr>) w1
                 else w1);
           w3 = emit (Update_status (HostTarget h)) w2
       in map_option (Pair ERROR)
            (if h_should_be_scheduled (host_of w3 h)
             then schedule_host_check ev h (h_next_check (host_of w3 h)) check_options w3 else Some w3)
   }"

section \<open>Processing a result\<close>

text \<open>
  What the cases below compute besides the state: whether to reschedule, the time of the next
  check, and the hosts to check as well (an object list: new items in front, none twice).
\<close>

record host_followup =
  reschedule_check :: bool
  next_check :: int
  check_hostlist :: "host_id list"

definition queue_hosts :: "host_id list \<Rightarrow> host_id list \<Rightarrow> host_id list" where
  "queue_hosts hs l = fold (\<lambda>h l. if h \<in> set l then l else h # l) hs l"

definition hosts_where :: "(host_state \<Rightarrow> bool) \<Rightarrow> host_id option list \<Rightarrow> engine \<Rightarrow> host_id list" where
  "hosts_where P ms w = filter (\<lambda>h. P (h_current_state (host_of w h))) (List.map_filter id ms)"

definition regular_host_check :: "env \<Rightarrow> host_id \<Rightarrow> engine \<Rightarrow> int" where
  "regular_host_check ev h w = host_check_after ev (h_check_interval (host_of w h)) w"

definition retry_host_check :: "env \<Rightarrow> host_id \<Rightarrow> engine \<Rightarrow> int" where
  "retry_host_check ev h w = host_check_after ev (h_retry_interval (host_of w h)) w"

definition host_recovers :: "env \<Rightarrow> host_id \<Rightarrow> engine \<Rightarrow> host_followup \<times> engine" where
  "host_recovers ev h w =
     (let hst = host_of w h;
          w1 = upd_host h (\<lambda>v. v\<lparr>h_current_state := HOST_UP,
                 h_state_type := (if h_state_type v = HARD_STATE \<or>
                     h_check_type v = CHECK_PASSIVE \<and> \<not> passive_host_checks_are_soft (cfg w)
                   then HARD_STATE else SOFT_STATE)\<rparr>) w
      in (\<lparr>reschedule_check = True, next_check = regular_host_check ev h w1,
           check_hostlist = queue_hosts (hosts_where ((\<noteq>) HOST_UP) (h_parent_hosts hst) w1 @
                                         hosts_where ((\<noteq>) HOST_UP) (h_child_hosts hst) w1) []\<rparr>, w1))"

text \<open>A problem state is told apart as down or unreachable for active checks, and for
  passive ones if configured.\<close>

definition set_problem_state :: "host_id \<Rightarrow> host_state \<Rightarrow> engine \<Rightarrow> engine" where
  "set_problem_state h new_state w =
     (let w1 = upd_host h (\<lambda>v. v\<lparr>h_current_state := new_state\<rparr>) w
      in if h_check_type (host_of w1 h) = CHECK_ACTIVE \<or> translate_passive_host_checks (cfg w1)
         then upd_host h (\<lambda>v. v\<lparr>h_current_state := determine_host_reachability h w1\<rparr>) w1
         else w1)"

definition host_stays_down ::
    "env \<Rightarrow> host_id \<Rightarrow> host_state \<Rightarrow> bool \<Rightarrow> engine \<Rightarrow> host_followup \<times> engine" where
  "host_stays_down ev h new_state reschedule w =
     (let w1 = upd_host h (\<lambda>v.
                 if h_check_type v = CHECK_PASSIVE \<and> \<not> passive_host_checks_are_soft (cfg w)
                 then v\<lparr>h_state_type := HARD_STATE, h_current_attempt := 1\<rparr>
                 else if h_current_attempt v = h_max_attempts v \<or> h_current_attempt v = 1
                 then v\<lparr>h_state_type := HARD_STATE\<rparr>
                 else v\<lparr>h_state_type := SOFT_STATE\<rparr>) w;
          w2 = set_problem_state h new_state w1;
          hst = host_of w2 h
      in (if h_last_state hst \<noteq> h_current_state hst \<or> h_last_hard_state hst \<noteq> h_current_state hst
          then \<lparr>reschedule_check = True,
                next_check = (if h_state_type hst = SOFT_STATE then retry_host_check ev h w2
                              else regular_host_check ev h w2),
                check_hostlist = []\<rparr>
          else \<lparr>reschedule_check = reschedule, next_check = regular_host_check ev h w2, check_hostlist = []\<rparr>,
          w2))"

definition host_stays_up :: "env \<Rightarrow> host_id \<Rightarrow> bool \<Rightarrow> engine \<Rightarrow> host_followup \<times> engine" where
  "host_stays_up ev h reschedule w =
     (let w1 = upd_host h (\<lambda>v. v\<lparr>h_current_state := HOST_UP, h_state_type := HARD_STATE\<rparr>) w
      in (\<lparr>reschedule_check = reschedule, next_check = regular_host_check ev h w1, check_hostlist = []\<rparr>, w1))"

text \<open>\<open>up_parent\<close> is what the checks of the parents found, for active checks.\<close>

definition host_fails_at_once ::
    "env \<Rightarrow> host_id \<Rightarrow> host_state \<Rightarrow> bool \<Rightarrow> engine \<Rightarrow> host_followup \<times> engine" where
  "host_fails_at_once ev h new_state up_parent w =
     (let hst = host_of w h;
          w1 = (if h_check_type hst = CHECK_ACTIVE
                then upd_host h (\<lambda>v. v\<lparr>h_current_state :=
                       (if up_parent \<or> h_parent_hosts v = [] then HOST_DOWN else HOST_UNREACHABLE)\<rparr>) w
                else set_problem_state h new_state w)
      in (\<lparr>reschedule_check = True, next_check = regular_host_check ev h w,
           check_hostlist = queue_hosts (hosts_where ((\<noteq>) HOST_UNREACHABLE) (h_child_hosts hst) w1) []\<rparr>, w1))"

definition host_masters :: "host_id \<Rightarrow> engine \<Rightarrow> host_id list" where
  "host_masters h w = List.map_filter hd_master_host_ptr (hostdependencies w h)"

definition host_fails_softly ::
    "env \<Rightarrow> host_id \<Rightarrow> host_state \<Rightarrow> engine \<Rightarrow> host_followup \<times> engine" where
  "host_fails_softly ev h new_state w =
     (let hst = host_of w h;
          soft = (h_check_type hst = CHECK_ACTIVE \<or> passive_host_checks_are_soft (cfg w));
          w1 = upd_host h (\<lambda>v. if soft then v\<lparr>h_state_type := SOFT_STATE\<rparr>
                               else v\<lparr>h_state_type := HARD_STATE, h_current_attempt := 1\<rparr>) w;
          w2 = set_problem_state h new_state w1;
          predictive = (enable_predictive_host_dependency_checks (cfg w2) \<and>
                        h_current_attempt (host_of w2 h) = h_max_attempts (host_of w2 h) - 1)
      in (\<lparr>reschedule_check = True,
           next_check = (if soft then retry_host_check ev h w2 else regular_host_check ev h w2),
           check_hostlist = queue_hosts
             (hosts_where ((=) HOST_UP) (h_parent_hosts hst) w2 @
              hosts_where ((\<noteq>) HOST_UNREACHABLE) (h_child_hosts hst) w2 @
              (if predictive then host_masters h w2 else [])) []\<rparr>, w2))"

definition stalk_host :: "string option \<Rightarrow> host_id \<Rightarrow> engine \<Rightarrow> engine" where
  "stalk_host old_plugin_output h w =
     (let hst = host_of w h in
      if h_last_state hst = h_current_state hst \<and> old_plugin_output \<noteq> h_plugin_output hst \<and>
         (case h_current_state hst of HOST_UP \<Rightarrow> h_stalk_on_up hst | HOST_DOWN \<Rightarrow> h_stalk_on_down hst
          | HOST_UNREACHABLE \<Rightarrow> h_stalk_on_unreachable hst)
      then emit (Log_host_event h) w else w)"

definition reschedule_host :: "env \<Rightarrow> host_id \<Rightarrow> int \<Rightarrow> engine \<Rightarrow> engine option" where
  "reschedule_host ev h t w =
     (let preferred_time = max t (now ev);
          next_valid_time = get_next_valid_time ev (get_host_timezone w h) preferred_time
                              (h_check_period_ptr (host_of w h));
          w1 = upd_host h (\<lambda>v. v\<lparr>h_next_check := next_valid_time,
                 h_should_be_scheduled :=
                   \<not> (h_check_interval v = 0 \<and> (h_state_type v = HARD_STATE \<or> h_current_state v = HOST_UP)) \<and>
                   h_checks_enabled v\<rparr>) w
      in if h_should_be_scheduled (host_of w1 h)
         then schedule_host_check ev h (h_next_check (host_of w1 h)) CHECK_OPTION_NONE w1 else Some w1)"

record check_args =
  ca_options :: int
  ca_use_cached :: bool
  ca_horizon :: int

definition async_host_check :: "env \<Rightarrow> check_args \<Rightarrow> host_id \<Rightarrow> engine \<Rightarrow> engine option" where
  "async_host_check ev args h w =
     (if ca_use_cached args \<and> ulong_of (now ev - h_last_check (host_of w h)) \<le> ca_horizon args \<or>
         h_is_executing (host_of w h)
      then Some w
      else map_option snd (run_async_host_check_3x ev h CHECK_OPTION_NONE 0 False False w))"

definition finish_host_check ::
    "env \<Rightarrow> check_args \<Rightarrow> host_id \<Rightarrow> string option \<Rightarrow> host_followup \<Rightarrow> engine \<Rightarrow> engine option" where
  "finish_host_check ev args h old_plugin_output fu w = do {
     w1 \<leftarrow> handle_host_state ev h w;
     w2 \<leftarrow> check_for_host_flapping ev h True True True (stalk_host old_plugin_output h w1);
     w3 \<leftarrow> (if reschedule_check fu then reschedule_host ev h (next_check fu) w2 else Some w2);
     for_each (async_host_check ev args) (check_hostlist fu) (emit (Update_status (HostTarget h)) w3)
   }"

section \<open>Checks that are waited for\<close>

definition set_host_output :: "host_id \<Rightarrow> string option \<Rightarrow> engine \<Rightarrow> engine" where
  "set_host_output h output =
     upd_host h (\<lambda>v. let (short, long, perf) = parse_check_output True True output in
       v\<lparr>h_plugin_output := short, h_long_plugin_output := long, h_perf_data := perf\<rparr>)"

definition execute_sync :: "env \<Rightarrow> host_id \<Rightarrow> engine \<Rightarrow> host_state \<times> engine" where
  "execute_sync ev h w =
     (let w1 = emit (Broker_host_check Sync_precheck h) w in
      if neb_host_check ev Sync_precheck h \<noteq> NEB_CONTINUE then (h_current_state (host_of w1 h), w1)
      else
        let w2 = emit (Broker_system_command True) (emit (Broker_host_check Raw_start h)
                   (upd_host h (\<lambda>v. v\<lparr>h_last_check := now ev\<rparr>) w1));
            res = (case wait_command ev (out w2) h of
                     Some r \<Rightarrow> r
                   | None \<Rightarrow> \<lparr>res_exit_code = STATE_UNKNOWN_code, res_timeout = False,
                              res_output = ''(Execute command failed)'', res_seconds = 0\<rparr>);
            output = (if res_timeout res
                      then ''Host check timed out after '' @ string_of_int (host_check_timeout (cfg w2)) @ ''  seconds''
                      else res_output res);
            assumed_up = (h_host_check_command (host_of w2 h) = None);
            exit_code = (if assumed_up then 0 else res_exit_code res);
            w3 = set_host_output h (Some output)
                   (upd_host h (\<lambda>v. v\<lparr>h_execution_time := of_nat (res_seconds res),
                                      h_check_type := CHECK_ACTIVE\<rparr>)
                     (emit (Broker_system_command False) w2));
            w4 = (if assumed_up
                  then upd_host h (\<lambda>v. v\<lparr>h_plugin_output := Some ''(Host assumed to be UP)''\<rparr>) w3 else w3);
            w5 = upd_host h (\<lambda>v. v\<lparr>h_plugin_output := Some (no_semicolons
                   (case h_plugin_output v of
                      None \<Rightarrow> ''(No output returned from host check)''
                    | Some s \<Rightarrow> if s = [] then ''(No output returned from host check)'' else s))\<rparr>) w4;
            code = (if \<not> use_aggressive_host_checking (cfg w5) \<and> exit_code = 1 then 0 else exit_code)
        in (if code = 0 then HOST_UP else HOST_DOWN, emit (Broker_host_check Raw_end h) w5))"

text \<open>\<open>run_sync\<close> up to the execution: the answer it gives without one, or the old output.\<close>

definition begin_sync ::
    "env \<Rightarrow> check_args \<Rightarrow> host_id \<Rightarrow> engine \<Rightarrow> (host_state + string option) \<times> engine" where
  "begin_sync ev args h w =
     (let hst = host_of w h in
      if ca_use_cached args \<and> \<not> forced (ca_options args) \<and> h_has_been_checked hst \<and>
         ulong_of (now ev - h_last_check hst) \<le> ca_horizon args
      then (Inl (h_current_state hst),
            emit (Check_stats ACTIVE_CACHED_HOST_CHECK_STATS (now ev))
              (emit (Check_stats ACTIVE_ONDEMAND_HOST_CHECK_STATS (now ev)) w))
      else
        let w1 = emit (Check_stats SERIAL_HOST_CHECK_STATS (now ev))
                   (emit (Check_stats ACTIVE_ONDEMAND_HOST_CHECK_STATS (now ev)) w);
            w2 = adjust_host_check_attempt_3x h True (upd_host h (\<lambda>v. v\<lparr>h_latency := 0\<rparr>) w1);
            w3 = upd_host h (\<lambda>v. v\<lparr>h_last_state := h_current_state v,
                   h_last_hard_state := (if h_state_type v = HARD_STATE then h_current_state v
                                         else h_last_hard_state v)\<rparr>) w2;
            old_plugin_output = h_plugin_output (host_of w3 h);
            w4 = upd_host h (\<lambda>v. v\<lparr>h_has_been_checked := True, h_is_being_freshened := False,
                   h_check_options := CHECK_OPTION_NONE, h_check_type := CHECK_ACTIVE\<rparr>) w3
        in (Inr old_plugin_output, emit (Broker_host_check Check_initiate h) w4))"

text \<open>
  A check result may need the parents checked, whose results are processed in turn; the
  functions are one over the kind of call. A call gives back the code it stores through
  \<open>check_result_code\<close>, if it stores one.
\<close>

datatype host_call =
    Process_result host_id host_state "string option" bool
  | Run_sync host_id
  | Check_parents "host_id option list" host_state

partial_function (option) run_host ::
    "env \<times> check_args \<Rightarrow> host_call \<Rightarrow> engine \<Rightarrow> (host_state option \<times> engine) option" where
  "run_host ea c w =
     (case c of
        Process_result h new_state old_plugin_output reschedule \<Rightarrow>
          (let w0 = (if h_check_type (host_of w h) = CHECK_PASSIVE \<and> passive_host_checks_are_soft (cfg w)
                     then adjust_host_check_attempt_3x h False w else w);
               hst = host_of w0 h
           in Option.bind
             (if h_current_state hst \<noteq> HOST_UP
              then Some (if new_state = HOST_UP then host_recovers (fst ea) h w0
                         else host_stays_down (fst ea) h new_state reschedule w0)
              else if new_state = HOST_UP then Some (host_stays_up (fst ea) h reschedule w0)
              else if h_max_attempts hst = 1
              then
                (let w1 = upd_host h (\<lambda>v. v\<lparr>h_state_type := HARD_STATE\<rparr>) w0
                 in if h_check_type hst = CHECK_ACTIVE
                    then Option.bind (run_host ea (Check_parents (h_parent_hosts hst) HOST_UP) w1) (\<lambda>r.
                           Some (host_fails_at_once (fst ea) h new_state (fst r = Some HOST_UP) (snd r)))
                    else Some (host_fails_at_once (fst ea) h new_state False w1))
              else Some (host_fails_softly (fst ea) h new_state w0))
             (\<lambda>fw. map_option (Pair None)
                (finish_host_check (fst ea) (snd ea) h old_plugin_output (fst fw) (snd fw))))
      | Run_sync h \<Rightarrow>
          (if h_check_command_ptr (host_of w h) = None then Some (None, w)
           else Option.bind (check_host_check_viability_3x (fst ea) h (ca_options (snd ea)) w) (\<lambda>v.
             if fst v = ERROR then Some (Some (h_current_state (host_of w h)), w)
             else
               (case begin_sync (fst ea) (snd ea) h w of
                  (Inl st, w1) \<Rightarrow> Some (Some st, w1)
                | (Inr old, w1) \<Rightarrow>
                    (let (host_result, w2) = execute_sync (fst ea) h w1
                     in Option.bind (run_host ea (Process_result h host_result old False) w2) (\<lambda>r.
                          Some (Some (h_current_state (host_of (snd r) h)),
                                emit (Broker_host_check Check_processed h) (snd r)))))))
      | Check_parents ps parent_state \<Rightarrow>
          (case ps of
             [] \<Rightarrow> Some (None, w)
           | None # ps \<Rightarrow> run_host ea (Check_parents ps parent_state) w
           | Some p # ps \<Rightarrow>
               Option.bind (run_host ea (Run_sync p) w) (\<lambda>r.
                 (let st = (case fst r of None \<Rightarrow> parent_state | Some s \<Rightarrow> s)
                  in if st = HOST_UP then Some (Some HOST_UP, snd r)
                     else run_host ea (Check_parents ps st) (snd r)))))"

declare run_host.simps [code]

definition perform_on_demand_host_check ::
    "env \<Rightarrow> host_id \<Rightarrow> int \<Rightarrow> bool \<Rightarrow> int \<Rightarrow> engine \<Rightarrow> (host_state option \<times> engine) option" where
  "perform_on_demand_host_check ev h check_options use_cached_result check_timestamp_horizon w =
     run_host (ev, \<lparr>ca_options = check_options, ca_use_cached = use_cached_result,
                    ca_horizon = check_timestamp_horizon\<rparr>) (Run_sync h) w"

definition process_host_check_result_3x ::
    "env \<Rightarrow> check_args \<Rightarrow> host_id \<Rightarrow> host_state \<Rightarrow> string option \<Rightarrow> bool \<Rightarrow> engine \<Rightarrow> engine option" where
  "process_host_check_result_3x ev args h new_state old_plugin_output reschedule w =
     map_option snd (run_host (ev, args) (Process_result h new_state old_plugin_output reschedule) w)"

section \<open>Freshness and orphans\<close>

text \<open>
  \<open>is_host_result_fresh\<close>: the threshold is the configured one or one interval with the
  latencies, cut to \<open>int\<close>; the spread is a product of \<open>unsigned int\<close>.
\<close>

definition host_threshold :: "host_id \<Rightarrow> engine \<Rightarrow> int" where
  "host_threshold h w =
     (let hst = host_of w h in
      if h_freshness_threshold hst = 0
      then trunc_to_time
        ((if h_state_type hst = HARD_STATE \<or> h_current_state hst = HOST_UP
          then h_check_interval hst else h_retry_interval hst) * of_int (interval_length (cfg w)) +
         h_latency hst + of_int (additional_freshness_latency (cfg w)))
      else h_freshness_threshold hst)"

definition host_expiration_time :: "host_id \<Rightarrow> engine \<Rightarrow> int" where
  "host_expiration_time h w =
     (let hst = host_of w h; freshness_threshold = host_threshold h w in
      if \<not> h_has_been_checked hst then event_start w + freshness_threshold
      else if h_checks_enabled hst \<and> event_start w > h_last_check hst \<and> h_freshness_threshold hst = 0
      then event_start w + freshness_threshold +
           (max_host_check_spread (cfg w) * interval_length (cfg w)) mod 2 ^ 32
      else h_last_check hst + freshness_threshold)"

definition is_host_result_fresh :: "host_id \<Rightarrow> int \<Rightarrow> engine \<Rightarrow> bool" where
  "is_host_result_fresh h current_time w \<longleftrightarrow> \<not> host_expiration_time h w < current_time"

definition freshen_host :: "env \<Rightarrow> host_id \<Rightarrow> engine \<Rightarrow> engine option" where
  "freshen_host ev h w =
     (let hst = host_of w h in
      if \<not> h_check_freshness hst then Some w
      else if \<not> h_checks_enabled hst \<and> \<not> h_accept_passive_host_checks hst then Some w
      else if h_is_executing hst then Some w
      else if h_is_being_freshened hst then Some w
      else if check_time_against_period ev (get_host_timezone w h) (now ev) (h_check_period_ptr hst) = ERROR
      then Some w
      else if \<not> is_host_result_fresh h (now ev) w
      then schedule_host_check ev h (now ev) (CHECK_OPTION_FORCE_EXECUTION OR CHECK_OPTION_FRESHNESS_CHECK)
             (upd_host h (\<lambda>v. v\<lparr>h_is_being_freshened := True\<rparr>) w)
      else Some w)"

definition check_host_result_freshness :: "env \<Rightarrow> engine \<Rightarrow> engine option" where
  "check_host_result_freshness ev w =
     (if \<not> check_host_freshness (cfg w) then Some w
      else for_each (freshen_host ev) (host_list w) w)"

text \<open>The check of a host is lost when its result is ten minutes late.\<close>

definition host_expected_time :: "host_id \<Rightarrow> engine \<Rightarrow> int" where
  "host_expected_time h w =
     trunc_to_time (of_int (h_next_check (host_of w h)) + h_latency (host_of w h) +
       of_int (host_check_timeout (cfg w)) + of_int (check_reaper_interval (cfg w)) + 600)"

definition rescue_host :: "env \<Rightarrow> host_id \<Rightarrow> engine \<Rightarrow> engine option" where
  "rescue_host ev h w =
     (if h_next_check (host_of w h) = 0 then Some w
      else if \<not> h_is_executing (host_of w h) then Some w
      else if host_expected_time h w < now ev
      then
        let w1 = (if currently_running_host_checks w > 0
                  then w\<lparr>currently_running_host_checks := currently_running_host_checks w - 1\<rparr> else w);
            w2 = upd_host h (\<lambda>v. v\<lparr>h_is_executing := False\<rparr>) w1
        in schedule_host_check ev h (now ev) CHECK_OPTION_ORPHAN_CHECK w2
      else Some w)"

definition check_for_orphaned_hosts :: "env \<Rightarrow> engine \<Rightarrow> engine option" where
  "check_for_orphaned_hosts ev w = for_each (rescue_host ev) (host_list w) w"

section \<open>Results of checks in the background\<close>

definition execution_seconds :: "check_result \<Rightarrow> rat" where
  "execution_seconds r =
     (let t = of_int (fst (cr_finish_time r) - fst (cr_start_time r)) +
              of_int (snd (cr_finish_time r) - snd (cr_start_time r)) / 1000 / 1000
      in if t < 0 then 0 else t)"

definition result_has :: "int \<Rightarrow> check_result \<Rightarrow> bool" where
  "result_has flag r = has_option (cr_check_options r) flag"

text \<open>What the host takes over from a result before its code is looked at.\<close>

definition take_host_result :: "env \<Rightarrow> host_id \<Rightarrow> check_result \<Rightarrow> engine \<Rightarrow> engine" where
  "take_host_result ev h r w =
     (let w1 = (if cr_check_type r = CHECK_PASSIVE
                then emit (Check_stats PASSIVE_HOST_CHECK_STATS (fst (cr_start_time r))) w else w);
          w2 = upd_host_other h (\<lambda>p. p\<lparr>ho_should_reschedule_current_check := False\<rparr>) w1;
          w3 = upd_host h (\<lambda>v. v\<lparr>h_check_type := cr_check_type r, h_latency := cr_latency r,
                 h_execution_time := execution_seconds r, h_has_been_checked := True,
                 h_is_executing := (if cr_check_type r = CHECK_ACTIVE then False else h_is_executing v),
                 h_last_check := fst (cr_start_time r), h_last_state := h_current_state v,
                 h_last_hard_state := (if h_state_type v = HARD_STATE then h_current_state v
                                       else h_last_hard_state v)\<rparr>) w2
      in upd_host h (\<lambda>v. v\<lparr>h_plugin_output := Some (no_semicolons
           (case h_plugin_output v of
              None \<Rightarrow> ''(No output returned from host check)''
            | Some s \<Rightarrow> if s = [] then ''(No output returned from host check)'' else s))\<rparr>)
           (set_host_output h (cr_output r) w3))"

definition out_of_bounds_text :: "int \<Rightarrow> string" where
  "out_of_bounds_text code =
     ''(Return code of '' @ string_of_int code @ '' is out of bounds'' @
     (if code = 126 \<or> code = 127 then '' - plugin may be missing'' else []) @ '')''"

text \<open>The code of a result with what it writes to the output; active checks are
  cut down to up or down.\<close>

definition host_result_code :: "host_id \<Rightarrow> check_result \<Rightarrow> engine \<Rightarrow> int \<times> engine" where
  "host_result_code h r w =
     (if cr_check_type r = CHECK_ACTIVE
      then
        let (result, w1) =
              (if \<not> cr_exited_ok r
               then (STATE_UNKNOWN_code,
                     upd_host h (\<lambda>v. v\<lparr>h_plugin_output := Some ''(Host check did not exit properly)'',
                                       h_long_plugin_output := None, h_perf_data := None\<rparr>) w)
               else if cr_return_code r < 0 \<or> cr_return_code r > 3
               then (STATE_UNKNOWN_code,
                     upd_host h (\<lambda>v. v\<lparr>h_plugin_output := Some (out_of_bounds_text (cr_return_code r)),
                                       h_long_plugin_output := None, h_perf_data := None\<rparr>) w)
               else (cr_return_code r, w));
            (result1, w2) =
              (if h_host_check_command (host_of w1 h) = None
               then (0, upd_host h (\<lambda>v. v\<lparr>h_plugin_output := Some ''(Host assumed to be UP)''\<rparr>) w1)
               else (result, w1));
            result2 = (if \<not> use_aggressive_host_checking (cfg w2) \<and> result1 = 1 then 0 else result1)
        in (if result2 = 0 then 0 else 1, w2)
      else (cr_return_code r, w))"

definition handle_async_host_check_result_3x ::
    "env \<Rightarrow> host_id \<Rightarrow> check_result \<Rightarrow> engine \<Rightarrow> (result \<times> engine) option" where
  "handle_async_host_check_result_3x ev h r w =
     (let w1 = (if cr_check_type r = CHECK_ACTIVE \<and> currently_running_host_checks w > 0
                then w\<lparr>currently_running_host_checks := currently_running_host_checks w - 1\<rparr> else w)
      in if cr_check_type r = CHECK_PASSIVE \<and>
            (\<not> accept_passive_host_checks (cfg w1) \<or> \<not> h_accept_passive_host_checks (host_of w1 h))
         then Some (ERROR, w1)
         else
           let w2 = (if result_has CHECK_OPTION_FRESHNESS_CHECK r
                     then upd_host h (\<lambda>v. v\<lparr>h_is_being_freshened := False\<rparr>) w1 else w1)
           in if result_has CHECK_OPTION_FRESHNESS_CHECK r \<and> is_host_result_fresh h (now ev) w2
              then Some (OK, w2)
              else
                let reschedule = (cr_reschedule_check r \<or>
                      ho_should_reschedule_current_check (host_other_props w2 h));
                    old_plugin_output = h_plugin_output (host_of w2 h);
                    (result, w3) = host_result_code h r (take_host_result ev h r w2)
                in do {
                  new_state \<leftarrow> host_state_of_int result;
                  w4 \<leftarrow> process_host_check_result_3x ev
                    \<lparr>ca_options = CHECK_OPTION_NONE, ca_use_cached = True,
                     ca_horizon = cached_host_check_horizon (cfg w3)\<rparr>
                    h new_state old_plugin_output reschedule w3;
                  Some (OK, emit (Broker_host_check Check_processed h) w4)
                })"

end
