(* ===== verification/Effect_Frame.thy ===== *)
theory Effect_Frame
  imports Downtime_Facts Acknowledgements
begin

text \<open>
  The operations a check result sets off besides the state of its object, seen through any
  relation between engines that their elementary steps keep: the locale \<open>effect_frame\<close> is
  that contract, and each operation (comments, notifications, flapping, downtimes) is shown to
  keep the relation once. The frames of the later theories are its instances.
\<close>

section \<open>The contract\<close>

text \<open>An object without what notifications, flapping and downtimes write.\<close>

definition svc_side :: "service \<Rightarrow> service" where
  "svc_side v = (svc_core v)\<lparr>s_check_flapping_recovery_notification := False,
     s_scheduled_downtime_depth := 0, s_pending_flex_downtime := 0, s_state_history := [],
     s_state_history_index := 0, s_is_flapping := False, s_flapping_comment_id := 0,
     s_percent_state_change := 0\<rparr>"

definition host_side :: "host \<Rightarrow> host" where
  "host_side v = (host_core v)\<lparr>h_check_flapping_recovery_notification := False,
     h_scheduled_downtime_depth := 0, h_pending_flex_downtime := 0, h_state_history := [],
     h_state_history_index := 0, h_last_state_history_update := 0, h_is_flapping := False,
     h_flapping_comment_id := 0, h_percent_state_change := 0\<rparr>"

lemma svc_side_core: "svc_core v = svc_core u \<Longrightarrow> svc_side v = svc_side u"
  by (simp add: svc_side_def)

lemma host_side_core: "host_core v = host_core u \<Longrightarrow> host_side v = host_side u"
  by (simp add: host_side_def)

lemmas side_upd_masks = host_side_def host_core_def svc_side_def svc_core_def

locale effect_frame =
  fixes R :: "engine \<Rightarrow> engine \<Rightarrow> bool"
  assumes frame_refl: "R w w"
    and frame_trans: "R w w1 \<Longrightarrow> R w1 w2 \<Longrightarrow> R w w2"
    and frame_notif: "notif_frame w w' \<Longrightarrow> R w w'"
    and frame_svc: "(\<And>v. svc_side (f v) = svc_side v) \<Longrightarrow> R w (upd_svc s f w)"
    and frame_host: "(\<And>v. host_side (g v) = host_side v) \<Longrightarrow> R w (upd_host h g w)"
    and frame_comments: "R w (w\<lparr>comment_list := cl, comment_hashlist := ch, next_comment_id := n, out := acts\<rparr>)"
    and frame_downtimes: "R w (w\<lparr>downtime_list := dl, downtime_at := da, next_addr := next_addr w + k, out := acts\<rparr>)"
    and frame_event: "schedule_new_event ty hp t rec interval tf cmp data args opts w = Some w' \<Longrightarrow>
      hash_type_of ty = None \<Longrightarrow> R w w'"
begin

lemma frame_emit: "R w (emit a w)"
proof -
  have "R w (w\<lparr>comment_list := comment_list w, comment_hashlist := comment_hashlist w,
      next_comment_id := next_comment_id w, out := out w @ [a]\<rparr>)" by (rule frame_comments)
  then show ?thesis by (simp add: emit_def)
qed

lemma frame_upd_downtime: "R w (upd_downtime d f w)"
proof -
  have "R w (w\<lparr>downtime_list := downtime_list w, downtime_at := (downtime_at w)(d := f (downtime_at w d)),
      next_addr := next_addr w + 0, out := out w\<rparr>)" by (rule frame_downtimes)
  then show ?thesis by (simp add: upd_downtime_def)
qed

lemma frame_alloc: "R w (w\<lparr>next_addr := Suc (next_addr w)\<rparr>)"
proof -
  have "R w (w\<lparr>downtime_list := downtime_list w, downtime_at := downtime_at w,
      next_addr := next_addr w + 1, out := out w\<rparr>)" by (rule frame_downtimes)
  then show ?thesis by simp
qed

lemma frame_others: "R w (upd_svc_other s f w)" "R w (upd_host_other h g w)"
  by (intro frame_notif notif_frame_other)+

lemma frame_add_depth: "R w (add_depth k tgt w)" "R w (add_pending k tgt w)"
  by (auto simp: add_depth_def add_pending_def side_upd_masks split: notif_target.split intro!: frame_svc frame_host)

lemmas frame_basic = frame_emit frame_upd_downtime frame_alloc frame_others frame_add_depth

lemmas frame_steps = frame_basic [THEN [2] frame_trans]

declare frame_refl [simp] frame_emit [simp]

subsection \<open>Comments and notifications\<close>

lemma keeps_delete_comment: "R w (snd (delete_comment ty i w))"
proof -
  have "\<exists>cl ch acts. snd (delete_comment ty i w) =
      w\<lparr>comment_list := cl, comment_hashlist := ch, next_comment_id := next_comment_id w, out := acts\<rparr>"
  proof (cases "find_comment i ty w")
    case None
    then have "snd (delete_comment ty i w) = w\<lparr>comment_list := comment_list w, comment_hashlist := comment_hashlist w,
        next_comment_id := next_comment_id w, out := out w\<rparr>" by (simp add: delete_comment_def)
    then show ?thesis by blast
  next
    case (Some c)
    let ?slot = "comment_slot (cm_host_name c)"
    have "snd (delete_comment ty i w) = w\<lparr>comment_list := remove1 c (comment_list w),
        comment_hashlist := (comment_hashlist w)(?slot := remove1 c (comment_hashlist w ?slot)),
        next_comment_id := next_comment_id w, out := out w @ [Broker_comment_delete ty i]\<rparr>"
      using Some by (simp add: delete_comment_def Let_def emit_def)
    then show ?thesis by blast
  qed
  then show ?thesis using frame_comments by metis
qed

lemma keeps_add_comment:
  "add_new_host_comment e h d a t p s x et w = (i, w') \<Longrightarrow> R w w'"
  "add_new_service_comment e h d' t' a t p s x et w = (i, w') \<Longrightarrow> R w w'"
proof -
  have c: "R w u" if "u = w\<lparr>comment_list := comment_list u, comment_hashlist := comment_hashlist u,
      next_comment_id := next_comment_id u, out := out u\<rparr>" for u
    using frame_comments [where w = w and cl = "comment_list u" and ch = "comment_hashlist u" and
      n = "next_comment_id u" and acts = "out u"] that by simp
  show "add_new_host_comment e h d a t p s x et w = (i, w') \<Longrightarrow> R w w'"
    "add_new_service_comment e h d' t' a t p s x et w = (i, w') \<Longrightarrow> R w w'"
    by (rule c, auto simp: add_new_host_comment_def add_new_service_comment_def Let_def emit_def
      xcddefault_add_new_host_comment_def xcddefault_add_new_service_comment_def add_comment_def
      add_comment_to_hashlist_def split: option.splits if_splits prod.splits)+
qed

lemma keeps_schedule_new_event:
  "schedule_new_event EVENT_SCHEDULED_DOWNTIME hp t rec interval tf cmp data args opts w = Some w' \<Longrightarrow> R w w'"
  "schedule_new_event EVENT_EXPIRE_DOWNTIME hp t rec interval tf cmp data args opts w = Some w' \<Longrightarrow> R w w'"
  by (erule frame_event, simp add: hash_type_of_def EVENT_SCHEDULED_DOWNTIME_def EVENT_EXPIRE_DOWNTIME_def
      EVENT_SERVICE_CHECK_def EVENT_HOST_CHECK_def EVENT_EXPIRE_HOST_ACK_def EVENT_EXPIRE_SERVICE_ACK_def)+

lemma keeps_notify_downtime: "notify_downtime ev tgt ty a c w = Some w' \<Longrightarrow> R w w'"
  by (intro frame_notif notify_downtime_frame)

lemma keeps_host_notification:
  "map_option snd (host_notification ev h ty a c opts w) = Some w' \<Longrightarrow> R w w'"
  "map_option snd (service_notification ev s ty a c opts w) = Some w' \<Longrightarrow> R w w'"
  by (auto intro: frame_notif host_notification_frame service_notification_frame)

lemma keeps_delete_each: "R w (delete_each P cs w)"
  unfolding delete_each_def
  by (induction cs arbitrary: w) (auto intro: frame_trans [OF keeps_delete_comment] frame_refl)

lemma keeps_delete_acknowledgements:
  "R w (snd (delete_host_acknowledgement_comments h w))"
  "R w (snd (delete_service_acknowledgement_comments s w))"
  by (simp_all add: delete_host_acknowledgement_comments_def delete_service_acknowledgement_comments_def
      keeps_delete_each split: option.split)

subsection \<open>Flapping\<close>

lemma keeps_flap_upd [simp]:
  "R w (upd_host h (\<lambda>v. v\<lparr>h_flapping_comment_id := c, h_is_flapping := b\<rparr>) w)"
  "R w (upd_host h (\<lambda>v. v\<lparr>h_flapping_comment_id := c\<rparr>) w)"
  "R w (upd_host h (\<lambda>v. v\<lparr>h_is_flapping := b\<rparr>) w)"
  "R w (upd_host h (\<lambda>v. v\<lparr>h_percent_state_change := pc\<rparr>) w)"
  "R w (upd_host h (record_host_state t) w)"
  "R w (upd_host h (\<lambda>v. v\<lparr>h_check_flapping_recovery_notification := g v\<rparr>) w)"
  "R w (upd_svc s (\<lambda>v. v\<lparr>s_flapping_comment_id := c, s_is_flapping := b\<rparr>) w)"
  "R w (upd_svc s (\<lambda>v. v\<lparr>s_flapping_comment_id := c\<rparr>) w)"
  "R w (upd_svc s (\<lambda>v. v\<lparr>s_is_flapping := b\<rparr>) w)"
  "R w (upd_svc s (\<lambda>v. v\<lparr>s_percent_state_change := pc\<rparr>) w)"
  "R w (upd_svc s record_service_state w)"
  "R w (upd_svc s (\<lambda>v. v\<lparr>s_check_flapping_recovery_notification := g' v\<rparr>) w)"
  by (rule frame_host frame_svc,
      simp add: side_upd_masks record_host_state_def record_service_state_def)+

lemmas frame_all_steps = frame_steps keeps_flap_upd [THEN [2] frame_trans]

lemma keeps_set_host_flap:
  assumes "set_host_flap ev h pc high low allow w = Some w'"
  shows "R w w'"
proof -
  obtain c w1 where w1: "add_new_host_comment FLAPPING_COMMENT (Some h) (now ev)
      (Some ''(Centreon Engine Process)'') (Some (flapping_text ev (HostTarget h) pc high)) False 0 False 0 w = (c, w1)"
    by (meson surj_pair)
  let ?w4 = "upd_host h (\<lambda>v. v\<lparr>h_check_flapping_recovery_notification :=
      (h_current_state v \<noteq> HOST_UP \<and> h_current_notification_number v > 0)\<rparr>)
    (emit (Broker_flapping_start (HostTarget h) pc high low)
      (upd_host h (\<lambda>v. v\<lparr>h_flapping_comment_id := c, h_is_flapping := True\<rparr>) w1))"
  have "R w1 ?w4"
    by (intro frame_all_steps frame_refl)
  moreover have "R ?w4 w'"
    using assms w1 keeps_host_notification(1) by (cases allow) (auto simp: set_host_flap_def)
  ultimately show ?thesis
    using keeps_add_comment(1) [OF w1] frame_trans by blast
qed

lemma keeps_set_service_flap:
  assumes "set_service_flap ev s pc high low allow w = Some w'"
  shows "R w w'"
proof -
  obtain c w1 where w1: "add_new_service_comment FLAPPING_COMMENT (Some (fst s)) (Some (snd s)) (now ev)
      (Some ''(Centreon Engine Process)'') (Some (flapping_text ev (ServiceTarget s) pc high)) False 0 False 0 w = (c, w1)"
    by (meson surj_pair)
  let ?w4 = "upd_svc s (\<lambda>v. v\<lparr>s_check_flapping_recovery_notification :=
      (s_current_state v \<noteq> STATE_OK \<and> s_current_notification_number v > 0)\<rparr>)
    (emit (Broker_flapping_start (ServiceTarget s) pc high low)
      (upd_svc s (\<lambda>v. v\<lparr>s_flapping_comment_id := c, s_is_flapping := True\<rparr>) w1))"
  have "R w1 ?w4"
    by (intro frame_all_steps frame_refl)
  moreover have "R ?w4 w'"
    using assms w1 keeps_host_notification(2) by (cases allow) (auto simp: set_service_flap_def)
  ultimately show ?thesis
    using keeps_add_comment(2) [OF w1] frame_trans by blast
qed

lemma keeps_host_flapping_over:
  assumes "host_flapping_over ev h ty w = Some w'"
  shows "R w w'"
proof -
  obtain r1 w1 w2 where w1: "host_notification ev h ty None None NOTIFICATION_OPTION_NONE w = Some (r1, w1)"
    and w2: "(if h_check_flapping_recovery_notification (host_of w1 h) \<and> h_current_state (host_of w1 h) = HOST_UP
        then map_option snd (host_notification ev h NOTIFICATION_NORMAL None None NOTIFICATION_OPTION_NONE w1)
        else Some w1) = Some w2"
    and w': "w' = upd_host h (\<lambda>v. v\<lparr>h_check_flapping_recovery_notification := False\<rparr>) w2"
    using assms by (auto simp: host_flapping_over_def split: bind_splits)
  have "R w1 w2" using w2 keeps_host_notification(1) by (auto split: if_splits)
  with frame_notif [OF host_notification_frame [OF w1]] have "R w w2"
    by (rule frame_trans)
  then show ?thesis unfolding w' by (intro frame_all_steps)
qed

lemma keeps_service_flapping_over:
  assumes "service_flapping_over ev s ty w = Some w'"
  shows "R w w'"
proof -
  obtain r1 w1 w2 where w1: "service_notification ev s ty None None NOTIFICATION_OPTION_NONE w = Some (r1, w1)"
    and w2: "(if s_check_flapping_recovery_notification (svc_of w1 s) \<and> s_current_state (svc_of w1 s) = STATE_OK
        then map_option snd (service_notification ev s NOTIFICATION_NORMAL None None NOTIFICATION_OPTION_NONE w1)
        else Some w1) = Some w2"
    and w': "w' = upd_svc s (\<lambda>v. v\<lparr>s_check_flapping_recovery_notification := False\<rparr>) w2"
    using assms by (auto simp: service_flapping_over_def split: bind_splits)
  have "R w1 w2" using w2 keeps_host_notification(2) by (auto split: if_splits)
  with frame_notif [OF service_notification_frame [OF w1]] have "R w w2"
    by (rule frame_trans)
  then show ?thesis unfolding w' by (intro frame_all_steps)
qed

lemma keeps_clear_host_flap:
  assumes "clear_host_flap ev h pc high low w = Some w'"
  shows "R w w'"
proof -
  have "R w (remove_host_flapping_comment h w)"
    unfolding remove_host_flapping_comment_def Let_def
    by (intro frame_all_steps) (simp add: keeps_delete_comment)
  then have "R w (emit (Broker_flapping_stop (HostTarget h) pc high low)
      (upd_host h (\<lambda>v. v\<lparr>h_is_flapping := False\<rparr>) (remove_host_flapping_comment h w)))"
    by (intro frame_all_steps)
  with assms show ?thesis
    using keeps_host_flapping_over frame_trans by (auto simp: clear_host_flap_def Let_def)
qed

lemma keeps_clear_service_flap:
  assumes "clear_service_flap ev s pc high low w = Some w'"
  shows "R w w'"
proof -
  have "R w (remove_service_flapping_comment s w)"
    unfolding remove_service_flapping_comment_def Let_def
    by (intro frame_all_steps) (simp add: keeps_delete_comment)
  then have "R w (emit (Broker_flapping_stop (ServiceTarget s) pc high low)
      (upd_svc s (\<lambda>v. v\<lparr>s_is_flapping := False\<rparr>) (remove_service_flapping_comment s w)))"
    by (intro frame_all_steps)
  with assms show ?thesis
    using keeps_service_flapping_over frame_trans by (auto simp: clear_service_flap_def Let_def)
qed

lemma flapping_branches:
  assumes "(if c1 then Some w2 else if c2 then Some w2 else if c3 then Some w2
      else if c4 then x else if c5 then y else Some w2) = Some w'"
    "R w w2" "x = Some w' \<Longrightarrow> R w2 w'" "y = Some w' \<Longrightarrow> R w2 w'"
  shows "R w w'"
  using assms by (cases c1; cases c2; cases c3; cases c4; cases c5) (auto intro: frame_trans)

lemma keeps_check_host_flapping:
  assumes "check_for_host_flapping ev h update actual allow w = Some w'"
  shows "R w w'"
  using assms unfolding check_for_host_flapping_def Let_def
proof (rule flapping_branches)
  show "R w (upd_host h (\<lambda>v. v\<lparr>h_percent_state_change := pc\<rparr>)
      (if c then upd_host h (record_host_state (now ev)) w else w))" for c pc
    by (intro frame_all_steps) simp
qed (erule keeps_set_host_flap keeps_clear_host_flap)+

lemma keeps_check_service_flapping:
  assumes "check_for_service_flapping ev s update allow w = Some w'"
  shows "R w w'"
proof (cases "s_state_type (svc_of w s) = SOFT_STATE \<and> s_current_state (svc_of w s) \<noteq> STATE_OK")
  case True
  with assms show ?thesis by (simp add: check_for_service_flapping_def)
next
  case False
  show ?thesis
    using assms unfolding check_for_service_flapping_def Let_def if_not_P [OF False]
  proof (rule flapping_branches)
    show "R w (upd_svc s (\<lambda>v. v\<lparr>s_percent_state_change := pc\<rparr>)
        (if c then upd_svc s record_service_state w else w))" for c pc
      by (intro frame_all_steps) simp
  qed (erule keeps_set_service_flap keeps_clear_service_flap)+
qed

subsection \<open>Downtimes\<close>

lemma keeps_pend: "pend_downtime a tgt w = Some w' \<Longrightarrow> R w w'"
  unfolding pend_downtime_def
  by (auto dest!: keeps_schedule_new_event
      intro: frame_trans [OF frame_add_depth(2) frame_trans [OF frame_upd_downtime]])

lemma keeps_notify_if:
  "(if c then notify_downtime ev tgt ty x y w else Some w) = Some w' \<Longrightarrow> R w w'"
  by (auto split: if_splits dest: keeps_notify_downtime)

lemma keeps_broker_downtime [simp]: "R w (broker_downtime_data e a w)"
  by (simp add: broker_downtime_data_def)

lemma keeps_stop:
  assumes "stop_downtime ev a tgt w = Some w'"
  shows "R w w'"
proof -
  let ?w1 = "add_depth (- 1) tgt (broker_downtime_data NEB_downtime_stop_normal a w)"
  obtain w2 where w2: "(if depth_of tgt ?w1 = 0 then notify_downtime ev tgt NOTIFICATION_DOWNTIMEEND
        (dt_author (downtime_at w a)) (dt_comment (downtime_at w a)) ?w1 else Some ?w1) = Some w2"
    "w' = emit (Update_status tgt) w2 \<or> w' = add_pending (- 1) tgt (emit (Update_status tgt) w2)"
    using assms unfolding stop_downtime_def Let_def map_option_eq_Some by (metis (full_types))
  have "R w ?w1" by (intro frame_all_steps keeps_broker_downtime)
  from frame_trans [OF this keeps_notify_if [OF w2(1)]]
  show ?thesis using w2(2) by (elim disjE) (simp, intro frame_all_steps, assumption)+
qed

lemma keeps_start:
  assumes "start_downtime ev a tgt w = Some w'"
  shows "R w w'"
proof -
  let ?w1 = "broker_downtime_data NEB_downtime_start a w"
  let ?f = "\<lambda>d. d\<lparr>dt_is_in_effect := True\<rparr>"
  obtain w2 where w2: "(if depth_of tgt ?w1 = 0 then notify_downtime ev tgt NOTIFICATION_DOWNTIMESTART
        (dt_author (downtime_at w a)) (dt_comment (downtime_at w a)) ?w1 else Some ?w1) = Some w2"
    and s: "\<exists>t data. schedule_new_event EVENT_SCHEDULED_DOWNTIME True t False 0 None False data None 0
       ((emit (Update_status tgt) (upd_downtime a ?f (add_depth 1 tgt w2)))\<lparr>next_addr :=
          Suc (next_addr (emit (Update_status tgt) (upd_downtime a ?f (add_depth 1 tgt w2))))\<rparr>) = Some w'"
    using assms unfolding start_downtime_def Let_def bind_eq_Some_conv by blast
  have "R w w2"
    by (rule frame_trans [OF keeps_broker_downtime keeps_notify_if [OF w2]])
  then have "R w ((emit (Update_status tgt) (upd_downtime a ?f (add_depth 1 tgt w2)))\<lparr>next_addr :=
          Suc (next_addr (emit (Update_status tgt) (upd_downtime a ?f (add_depth 1 tgt w2))))\<rparr>)"
    by (intro frame_all_steps)
  from frame_trans [OF this] s keeps_schedule_new_event(1) show ?thesis by blast
qed

lemma keeps_delete_downtime [simp]: "R w (snd (delete_downtime ty i w))"
proof -
  have l: "R w (w1\<lparr>downtime_list := l\<rparr>)" if "R w w1" for w1 l
  proof -
    have "R w1 (w1\<lparr>downtime_list := l, downtime_at := downtime_at w1, next_addr := next_addr w1 + 0, out := out w1\<rparr>)"
      by (rule frame_downtimes)
    with that show ?thesis using frame_trans by simp
  qed
  then show ?thesis
    by (auto simp: delete_downtime_def broker_downtime_data_def Let_def split: option.split
        intro!: l frame_trans [OF keeps_delete_comment frame_emit])
qed

lemma keeps_run_downtime:
  assumes "run_downtime ec0 w0 = Some r0"
  shows "R w0 (snd r0)"
proof (rule run_downtime.raw_induct [OF _ assms, of "\<lambda>ec w r. R w (snd r)"], goal_cases)
  case (1 f ec w r)
  note IH = 1(1)
  note run = 1(2)
  show ?case
  proof (cases "snd ec")
    case (Handle a)
    with run show ?thesis
      by (auto split: option.splits if_splits bind_splits
          dest!: keeps_pend keeps_stop keeps_start IH
          intro: frame_trans frame_trans [OF frame_trans])
  next
    case (End_triggered i)
    with run show ?thesis
      by (auto split: option.splits if_splits bind_splits dest!: IH intro: frame_trans)
  next
    case (Start_triggered i p)
    with run show ?thesis
      by (auto split: option.splits if_splits bind_splits dest!: IH intro: frame_trans)
  qed
qed

lemma keeps_flex_from:
  assumes "flex_from et0 p0 w0 = Some r0"
  shows "R w0 r0"
proof (rule flex_from.raw_induct [OF _ assms, of "\<lambda>et p w r. R w r"], goal_cases)
  case (1 f et p w r)
  then show ?case
    by (auto split: option.splits if_splits bind_splits dest!: 1(1) keeps_run_downtime
        intro: frame_trans frame_trans [OF frame_trans [OF frame_upd_downtime]])
qed

lemma keeps_pending_flex:
  "check_pending_flex_host_downtime ev h w = Some w' \<Longrightarrow> R w w'"
  "check_pending_flex_service_downtime ev s w = Some w' \<Longrightarrow> R w w'"
  by (auto simp: check_pending_flex_host_downtime_def check_pending_flex_service_downtime_def
      split: if_splits dest: keeps_flex_from)


end

end
