(* ===== verification/Side_Effects.thy ===== *)
theory Side_Effects
  imports Effect_Frame
begin

text \<open>
  What processing a check does besides the state of the object: notifications, flapping,
  comments and downtimes. None of them writes the check state of a host or service, the
  configuration or the dependencies; \<open>side_frame\<close> says so.
\<close>

section \<open>The frame\<close>

definition side_frame :: "engine \<Rightarrow> engine \<Rightarrow> bool" where
  "side_frame w w' \<longleftrightarrow>
     (\<lambda>x. svc_side (svc_of w' x)) = (\<lambda>x. svc_side (svc_of w x)) \<and>
     (\<lambda>x. host_side (host_of w' x)) = (\<lambda>x. host_side (host_of w x)) \<and>
     cfg w' = cfg w \<and> host_list w' = host_list w \<and> service_list w' = service_list w \<and>
     servicedependencies w' = servicedependencies w \<and> hostdependencies w' = hostdependencies w \<and>
     next_event_id w' = next_event_id w \<and> next_problem_id w' = next_problem_id w \<and>
     currently_running_service_checks w' = currently_running_service_checks w \<and>
     currently_running_host_checks w' = currently_running_host_checks w"

interpretation side: effect_frame side_frame
proof
  show "side_frame w w" for w by (simp add: side_frame_def)
  show "side_frame w w1 \<Longrightarrow> side_frame w1 w2 \<Longrightarrow> side_frame w w2" for w w1 w2 by (simp add: side_frame_def)
  show "notif_frame w w' \<Longrightarrow> side_frame w w'" for w w'
    unfolding notif_frame_def side_frame_def fun_eq_iff by (auto intro: svc_side_core host_side_core)
  show "(\<And>v. svc_side (f v) = svc_side v) \<Longrightarrow> side_frame w (upd_svc s f w)" for f s w
    by (auto simp: side_frame_def upd_svc_def)
  show "(\<And>v. host_side (g v) = host_side v) \<Longrightarrow> side_frame w (upd_host h g w)" for g h w
    by (auto simp: side_frame_def upd_host_def)
  show "schedule_new_event ty hp t rec interval tf cmp data args opts w = Some w' \<Longrightarrow>
      hash_type_of ty = None \<Longrightarrow> side_frame w w'" for ty hp t rec interval tf cmp data args opts w w'
    by (auto simp: schedule_new_event_def Let_def side_frame_def)
qed (simp_all add: side_frame_def)

lemmas side_frame_refl [simp] = side.frame_refl
lemmas side_frame_trans [trans] = side.frame_trans
lemmas side_frame_basic [simp] = side.frame_basic

text \<open>What may be read off.\<close>

lemma host_side_reads:
  assumes "host_side v = host_side u"
  shows "h_current_state v = h_current_state u" "h_state_type v = h_state_type u"
    "h_current_attempt v = h_current_attempt u" "h_last_state v = h_last_state u"
    "h_last_hard_state v = h_last_hard_state u" "h_max_attempts v = h_max_attempts u"
    "h_parent_hosts v = h_parent_hosts u" "h_child_hosts v = h_child_hosts u"
    "h_check_type v = h_check_type u" "h_is_executing v = h_is_executing u"
    "h_next_check v = h_next_check u" "h_plugin_output v = h_plugin_output u"
    "h_check_command_ptr v = h_check_command_ptr u" "h_host_check_command v = h_host_check_command u"
proof -
  have r: "f (host_side v) = f (host_side u)" for f :: "host \<Rightarrow> 'a" by (simp add: assms)
  show "h_current_state v = h_current_state u" "h_state_type v = h_state_type u"
    "h_current_attempt v = h_current_attempt u" "h_last_state v = h_last_state u"
    "h_last_hard_state v = h_last_hard_state u" "h_max_attempts v = h_max_attempts u"
    "h_parent_hosts v = h_parent_hosts u" "h_child_hosts v = h_child_hosts u"
    "h_check_type v = h_check_type u" "h_is_executing v = h_is_executing u"
    "h_next_check v = h_next_check u" "h_plugin_output v = h_plugin_output u"
    "h_check_command_ptr v = h_check_command_ptr u" "h_host_check_command v = h_host_check_command u"
    using r [of h_current_state] r [of h_state_type] r [of h_current_attempt] r [of h_last_state]
      r [of h_last_hard_state] r [of h_max_attempts] r [of h_parent_hosts] r [of h_child_hosts]
      r [of h_check_type] r [of h_is_executing] r [of h_next_check] r [of h_plugin_output]
      r [of h_check_command_ptr] r [of h_host_check_command]
    by (simp_all add: host_side_def host_core_def)
qed

lemma svc_side_reads:
  assumes "svc_side v = svc_side u"
  shows "s_current_state v = s_current_state u" "s_state_type v = s_state_type u"
    "s_current_attempt v = s_current_attempt u" "s_last_state v = s_last_state u"
    "s_last_hard_state v = s_last_hard_state u" "s_max_attempts v = s_max_attempts u"
    "s_check_type v = s_check_type u" "s_is_executing v = s_is_executing u"
    "s_next_check v = s_next_check u" "s_plugin_output v = s_plugin_output u"
    "s_host_problem_at_last_check v = s_host_problem_at_last_check u"
    "s_host_ptr v = s_host_ptr u" "s_is_volatile v = s_is_volatile u"
proof -
  have r: "f (svc_side v) = f (svc_side u)" for f :: "service \<Rightarrow> 'a" by (simp add: assms)
  show "s_current_state v = s_current_state u" "s_state_type v = s_state_type u"
    "s_current_attempt v = s_current_attempt u" "s_last_state v = s_last_state u"
    "s_last_hard_state v = s_last_hard_state u" "s_max_attempts v = s_max_attempts u"
    "s_check_type v = s_check_type u" "s_is_executing v = s_is_executing u"
    "s_next_check v = s_next_check u" "s_plugin_output v = s_plugin_output u"
    "s_host_problem_at_last_check v = s_host_problem_at_last_check u"
    "s_host_ptr v = s_host_ptr u" "s_is_volatile v = s_is_volatile u"
    using r [of s_current_state] r [of s_state_type] r [of s_current_attempt] r [of s_last_state]
      r [of s_last_hard_state] r [of s_max_attempts] r [of s_check_type] r [of s_is_executing]
      r [of s_next_check] r [of s_plugin_output] r [of s_host_problem_at_last_check] r [of s_host_ptr]
      r [of s_is_volatile]
    by (simp_all add: svc_side_def svc_core_def)
qed

lemma side_frameD:
  assumes "side_frame w w'"
  shows "host_side (host_of w' h) = host_side (host_of w h)" "svc_side (svc_of w' s) = svc_side (svc_of w s)"
    "cfg w' = cfg w" "hostdependencies w' = hostdependencies w" "servicedependencies w' = servicedependencies w"
  using assms unfolding side_frame_def by (blast dest: fun_cong)+

lemmas side_frame_host_notification = side.keeps_host_notification
lemmas side_frame_delete_acknowledgements = side.keeps_delete_acknowledgements
lemmas side_frame_check_host_flapping = side.keeps_check_host_flapping
lemmas side_frame_check_service_flapping = side.keeps_check_service_flapping
lemmas side_frame_pending_flex = side.keeps_pending_flex

end
