(* ===== verification/Host_Check_Facts.thy ===== *)
theory Host_Check_Facts
  imports Host_Check Side_Effects Examples
begin

text \<open>
  The state machine of host checks: what a result that is accepted makes of the state, the
  state type and the attempts of its host, whatever notifications, flapping and downtimes do
  meanwhile, and when the problem of a host becomes hard.
\<close>

section \<open>Handling a state\<close>

definition reset_attempt :: "host \<Rightarrow> int" where
  "reset_attempt v = (if host_state_changed v \<and> h_current_state v = HOST_UP then 1 else h_current_attempt v)"

text \<open>The part of a host the results of checks are about.\<close>

definition check_view :: "host \<Rightarrow> host_state \<times> state_type \<times> host_state \<times> host_state \<times> int \<times> host_id option list \<times>
    host_id option list \<times> check_type \<times> bool" where
  "check_view v = (h_current_state v, h_state_type v, h_last_state v, h_last_hard_state v, h_max_attempts v,
     h_parent_hosts v, h_child_hosts v, h_check_type v, h_is_executing v)"

text \<open>Only the attempts of \<open>h\<close> may differ, and the numbers of events and problems.\<close>

definition states_kept :: "host_id \<Rightarrow> engine \<Rightarrow> engine \<Rightarrow> bool" where
  "states_kept h w w' \<longleftrightarrow>
     (\<forall>x. check_view (host_of w' x) = check_view (host_of w x) \<and>
        (x \<noteq> h \<longrightarrow> h_current_attempt (host_of w' x) = h_current_attempt (host_of w x))) \<and>
     cfg w' = cfg w \<and> hostdependencies w' = hostdependencies w"

lemma states_kept_refl [simp]: "states_kept h w w"
  by (simp add: states_kept_def)

lemma states_kept_trans [trans]: "states_kept h w w1 \<Longrightarrow> states_kept h w1 w2 \<Longrightarrow> states_kept h w w2"
  by (simp add: states_kept_def)

definition attempt_of :: "host_id \<Rightarrow> engine \<Rightarrow> int" where
  "attempt_of h w = h_current_attempt (host_of w h)"

lemma side_frame_kept:
  assumes "side_frame w w'"
  shows "states_kept h w w'" "attempt_of h w' = attempt_of h w"
  using side_frameD [OF assms] host_side_reads [OF side_frameD(1) [OF assms]]
  by (simp_all add: states_kept_def attempt_of_def check_view_def)

lemma kept_upd_host:
  "(\<And>v. check_view (f v) = check_view v) \<Longrightarrow> states_kept h w (upd_host h f w)"
  by (simp add: states_kept_def upd_host_def)

text \<open>Both at once: the states are kept and the attempts are unchanged.\<close>

definition quiet :: "host_id \<Rightarrow> engine \<Rightarrow> engine \<Rightarrow> bool" where
  "quiet h w w' \<longleftrightarrow> states_kept h w w' \<and> attempt_of h w' = attempt_of h w"

lemma quiet_refl [simp]: "quiet h w w"
  by (simp add: quiet_def)

lemma quiet_trans [trans]: "quiet h w w1 \<Longrightarrow> quiet h w1 w2 \<Longrightarrow> quiet h w w2"
  by (auto simp: quiet_def intro: states_kept_trans)

lemma quiet_side: "side_frame w w' \<Longrightarrow> quiet h w w'"
  by (simp add: quiet_def side_frame_kept)

lemma quiet_upd_host:
  "(\<And>v. check_view (f v) = check_view v \<and> h_current_attempt (f v) = h_current_attempt v) \<Longrightarrow>
   quiet h w (upd_host h' f w)"
  by (simp add: quiet_def states_kept_def attempt_of_def upd_host_def)

lemma quiet_current: "quiet h w w' \<Longrightarrow> check_view (host_of w' x) = check_view (host_of w x)"
  by (simp add: quiet_def states_kept_def)

lemma check_viewD:
  assumes "check_view v = check_view u"
  shows "h_current_state v = h_current_state u" "h_state_type v = h_state_type u"
    "h_last_state v = h_last_state u" "h_last_hard_state v = h_last_hard_state u"
    "h_max_attempts v = h_max_attempts u" "h_parent_hosts v = h_parent_hosts u"
    "h_child_hosts v = h_child_hosts u" "h_check_type v = h_check_type u" "h_is_executing v = h_is_executing u"
  using assms by (simp_all add: check_view_def)

lemma host_state_changed_cong: "check_view v = check_view u \<Longrightarrow> host_state_changed v = host_state_changed u"
  by (simp add: check_view_def host_state_changed_def)

lemma quiet_assign_ids: "quiet h w (assign_host_ids h w)"
  by (simp add: quiet_def states_kept_def attempt_of_def assign_host_ids_def Let_def upd_host_def check_view_def)

lemma quiet_reset_acknowledgement: "quiet h w (reset_host_acknowledgement h w)"
proof -
  let ?w1 = "upd_host h (\<lambda>v. v\<lparr>h_problem_has_been_acknowledged := False,
      h_acknowledgement_type := ACKNOWLEDGEMENT_NONE\<rparr>) w"
  have "quiet h w ?w1" by (rule quiet_upd_host) (simp add: check_view_def)
  also have "quiet h ?w1 (snd (delete_host_acknowledgement_comments (Some h) ?w1))"
    by (intro quiet_side side_frame_delete_acknowledgements)
  finally show ?thesis by (simp add: reset_host_acknowledgement_def Let_def)
qed

lemma quiet_notify: "notify_host_state ev h w = Some w' \<Longrightarrow> quiet x w w'"
  unfolding notify_host_state_def by (intro quiet_side side_frame_host_notification(1))

lemma quiet_record: "quiet h w (upd_host h' (record_host_change t) w)" "quiet h w (upd_host h' (record_host_time t) w)"
  "quiet h w (upd_host h' forget_host_notifications w)"
  by (rule quiet_upd_host, simp add: record_host_change_def record_host_time_def forget_host_notifications_def
      check_view_def Let_def split: host_state.split)+

lemma quiet_emit [simp]: "quiet h w (emit a w)" "quiet h w (upd_host_other h' g w)"
  by (rule quiet_side, simp)+

lemma host_changed_effect:
  assumes "host_changed ev h w = Some w'"
  shows "states_kept h w w'"
    "attempt_of h w' = (if h_current_state (host_of w h) = HOST_UP then 1 else attempt_of h w)"
proof -
  let ?up = "h_current_state (host_of w h) = HOST_UP"
  define w1 where "w1 = reset_host_acknowledgement h (assign_host_ids h (upd_host h (record_host_change (now ev)) w))"
  define w2 where "w2 = upd_host h (\<lambda>v. v\<lparr>h_last_host_notification := 0, h_next_host_notification := 0,
      h_no_more_notifications := False\<rparr>) w1"
  define w3 where "w3 = (if h_state_type (host_of w2 h) = HARD_STATE \<or> log_host_retries (cfg w2)
      then emit (Log_host_event h) w2 else w2)"
  obtain w4 w5 w6 where w4: "check_pending_flex_host_downtime ev h w3 = Some w4"
    and w5: "w5 = (if h_current_state (host_of w4 h) = HOST_UP
        then upd_host_other h (\<lambda>p. p\<lparr>ho_recovery_been_sent := False, ho_initial_notif_time := 0\<rparr>) w4 else w4)"
    and w6: "(if h_state_type (host_of w5 h) = HARD_STATE then notify_host_state ev h w5 else Some w5) = Some w6"
    and w': "w' = (let w7 = emit (Handle_host_event h) w6;
        w8 = (if h_current_state (host_of w7 h) = HOST_UP
              then upd_host h (\<lambda>v. v\<lparr>h_current_attempt := 1\<rparr>) w7 else w7)
        in if h_current_state (host_of w8 h) = HOST_UP \<and> ho_recovery_been_sent (host_other_props w8 h)
           then upd_host h forget_host_notifications w8 else w8)"
    using assms unfolding host_changed_def Let_def w1_def [symmetric] w2_def [symmetric] w3_def [symmetric]
    by (auto simp: bind_eq_Some_conv)
  have "quiet h w w1"
    unfolding w1_def using quiet_record(1) quiet_assign_ids quiet_reset_acknowledgement quiet_trans by metis
  also have "quiet h w1 w2" unfolding w2_def by (rule quiet_upd_host) (simp add: check_view_def)
  also have "quiet h w2 w3" by (simp add: w3_def)
  also have "quiet h w3 w4" by (rule quiet_side) (rule side_frame_pending_flex(1) [OF w4])
  also have "quiet h w4 w5" by (simp add: w5)
  also have "quiet h w5 w6" using w6 by (auto split: if_splits dest: quiet_notify)
  also have "quiet h w6 (emit (Handle_host_event h) w6)" by simp
  finally have q: "quiet h w (emit (Handle_host_event h) w6)" (is "quiet h w ?w7") .
  have up: "h_current_state (host_of ?w7 h) = HOST_UP \<longleftrightarrow> ?up"
    using check_viewD(1) [OF quiet_current [OF q]] by simp
  define w8 where "w8 = (if ?up then upd_host h (\<lambda>v. v\<lparr>h_current_attempt := 1\<rparr>) ?w7 else ?w7)"
  have k: "states_kept h ?w7 w8"
    by (simp add: w8_def states_kept_def upd_host_def check_view_def)
  have a: "attempt_of h w8 = (if ?up then 1 else attempt_of h ?w7)"
    by (simp add: w8_def attempt_of_def upd_host_def)
  have "quiet h w8 w'"
    using quiet_record(3) by (auto simp: w' Let_def up w8_def)
  with q k a show "states_kept h w w'"
    "attempt_of h w' = (if ?up then 1 else attempt_of h w)"
    by (auto simp: quiet_def intro: states_kept_trans)
qed

lemma host_unchanged_effect:
  assumes "host_unchanged ev h w = Some w'"
  shows "quiet h w w'"
proof -
  let ?old = "ho_recovery_been_sent (host_other_props w h)"
  obtain w1 where w1: "(if (h_current_state (host_of w h) \<noteq> HOST_UP \<or> \<not> ?old) \<and>
          h_state_type (host_of w h) = HARD_STATE then notify_host_state ev h w else Some w) = Some w1"
    and w': "w' = (let w2 = (if \<not> ?old \<and> ho_recovery_been_sent (host_other_props w1 h) \<and>
                     h_current_state (host_of w1 h) = HOST_UP
                  then upd_host h forget_host_notifications w1 else w1)
        in if h_state_type (host_of w2 h) = SOFT_STATE \<and> log_host_retries (cfg w2)
              then emit (Log_host_event h) w2 else w2)"
    using assms unfolding host_unchanged_def Let_def by (auto simp: bind_eq_Some_conv)
  have "quiet h w w1" using w1 by (auto split: if_splits dest: quiet_notify)
  also have "quiet h w1 w'"
    using quiet_record(3) quiet_trans [OF quiet_record(3) quiet_emit(1)] by (auto simp: w' Let_def)
  finally show ?thesis .
qed

lemma handle_host_state_effect:
  assumes "handle_host_state ev h w = Some w'"
  shows "states_kept h w w'" "attempt_of h w' = reset_attempt (host_of w h)"
proof -
  let ?w1 = "upd_host h (record_host_time (now ev))
      (emit (Update_host_performance_data h) (emit (Obsessive_host_check h) w))"
  have q: "quiet h w ?w1"
    using quiet_emit(1) quiet_record(2) quiet_trans by metis
  note v = quiet_current [OF q, of h]
  have "states_kept h ?w1 w' \<and> attempt_of h w' = reset_attempt (host_of w h)"
  proof (cases "host_state_changed (host_of ?w1 h)")
    case True
    with assms have "host_changed ev h ?w1 = Some w'"
      by (simp add: handle_host_state_def Let_def)
    from host_changed_effect [OF this] show ?thesis
      using True host_state_changed_cong [OF v] check_viewD(1) [OF v] q
      by (simp add: reset_attempt_def quiet_def attempt_of_def)
  next
    case False
    with assms have "host_unchanged ev h ?w1 = Some w'"
      by (simp add: handle_host_state_def Let_def)
    from host_unchanged_effect [OF this] show ?thesis
      using False host_state_changed_cong [OF v] q
      by (simp add: reset_attempt_def quiet_def attempt_of_def)
  qed
  with q show "states_kept h w w'" "attempt_of h w' = reset_attempt (host_of w h)"
    by (auto simp: quiet_def intro: states_kept_trans)
qed

section \<open>The rest of a result\<close>

text \<open>What matters of one host, for steps that also launch checks of others.\<close>

definition host_kept :: "host_id \<Rightarrow> engine \<Rightarrow> engine \<Rightarrow> bool" where
  "host_kept h w w' \<longleftrightarrow> check_view (host_of w' h) = check_view (host_of w h) \<and>
     attempt_of h w' = attempt_of h w \<and> cfg w' = cfg w \<and> hostdependencies w' = hostdependencies w"

lemma host_kept_refl [simp]: "host_kept h w w"
  by (simp add: host_kept_def)

lemma host_kept_trans [trans]: "host_kept h w w1 \<Longrightarrow> host_kept h w1 w2 \<Longrightarrow> host_kept h w w2"
  by (simp add: host_kept_def)

lemma quiet_kept: "quiet h w w' \<Longrightarrow> host_kept h w w'"
  by (simp add: quiet_def states_kept_def host_kept_def)

lemma host_kept_other: "g \<noteq> h \<Longrightarrow> host_kept h w (upd_host g f w)"
  by (simp add: host_kept_def upd_host_def attempt_of_def)

lemma replace_check_event_objects:
  "replace_check_event ev te new w = Some w' \<Longrightarrow> \<exists>s n. w' = w\<lparr>evs := s, next_addr := n\<rparr>"
  by (auto simp: replace_check_event_def Let_def split: bind_splits)

lemma quiet_schedule_check:
  assumes "schedule_host_check ev g t opts w = Some w'"
  shows "quiet h w w'"
proof -
  have u: "quiet h w (upd_host g (\<lambda>v. v\<lparr>h_check_options := opts\<rparr>) w)" for w
    by (rule quiet_upd_host) (simp add: check_view_def)
  have n: "quiet h w (upd_host g (\<lambda>v. v\<lparr>h_next_check := k\<rparr>) w)" for w k
    by (rule quiet_upd_host) (simp add: check_view_def)
  have e: "quiet h w (w\<lparr>evs := s, next_addr := m\<rparr>)" for w s m
    by (simp add: quiet_def states_kept_def attempt_of_def)
  show ?thesis
    using assms quiet_trans [OF u n] quiet_trans [OF quiet_trans [OF u n] e]
    by (auto simp: schedule_host_check_def Let_def split: if_splits option.splits
        intro: quiet_trans [OF _ quiet_emit(1)] dest!: replace_check_event_objects)
qed

lemma quiet_reschedule:
  assumes "reschedule_host ev g t w = Some w'"
  shows "quiet h w w'"
proof -
  have u: "quiet h w (upd_host g (\<lambda>v. v\<lparr>h_next_check := n, h_should_be_scheduled := b v\<rparr>) w)" for n b
    by (rule quiet_upd_host) (simp add: check_view_def)
  show ?thesis
    using assms u quiet_trans [OF u quiet_schedule_check]
    unfolding reschedule_host_def Let_def by (auto split: if_splits)
qed

lemma quiet_stalk: "quiet h w (stalk_host old g w)"
  by (simp add: stalk_host_def Let_def)

lemma kept_basic:
  assumes "host_kept h w w1"
  shows "host_kept h w (emit a w1)" "host_kept h w (upd_host_other x f w1)"
    "g \<noteq> h \<Longrightarrow> host_kept h w (upd_host g f' w1)"
    "host_kept h w (w1\<lparr>currently_running_host_checks := n\<rparr>)" "host_kept h w (w1\<lparr>list_id := i\<rparr>)"
    "host_kept h w (w1\<lparr>to_reap := l\<rparr>)"
  using assms by (simp_all add: host_kept_def attempt_of_def emit_def upd_host_def upd_host_other_def)

lemma start_host_check_kept:
  assumes "g \<noteq> h" "host_kept h w w1"
  shows "host_kept h w (start_host_check ev g opts lat sched resched w1)"
proof -
  define w2 where "w2 = (if sched then upd_host g (\<lambda>v. v\<lparr>h_check_options := CHECK_OPTION_NONE\<rparr>) w1 else w1)"
  define w3 where "w3 = (if \<not> sched then upd_host g (\<lambda>v. v\<lparr>h_next_check := now ev\<rparr>)
      (adjust_host_check_attempt_3x g True w2) else adjust_host_check_attempt_3x g True w2)"
  have "host_kept h w w2" unfolding w2_def using kept_basic(3) [OF assms(2,1)] assms(2) by simp
  then have "host_kept h w (adjust_host_check_attempt_3x g True w2)"
    unfolding adjust_host_check_attempt_3x_def using assms(1) by (rule kept_basic)
  then have w3: "host_kept h w w3" unfolding w3_def using kept_basic(3) assms(1) by simp
  show ?thesis
    unfolding start_host_check_def Let_def w2_def [symmetric] w3_def [symmetric]
    using w3 assms(1) by (auto split: option.split intro!: kept_basic)
qed

lemma run_async_cases:
  assumes "run_async_host_check_3x ev g opts lat sched resched w = Some (r, w')"
  obtains "w' = w"
  | w1 where "w1 = (if resched then upd_host_other g (\<lambda>p. p\<lparr>ho_should_reschedule_current_check := True\<rparr>) w else w)"
      "w' = w1 \<or> w' = emit (Broker_host_check Async_precheck g) w1 \<or>
       w' = start_host_check ev g opts lat sched resched (emit (Broker_host_check Async_precheck g) w1)"
proof (cases "h_check_command_ptr (host_of w g) = None")
  case True
  with assms that(1) show ?thesis by (simp add: run_async_host_check_3x_def)
next
  case False
  define w1 where "w1 = (if resched then upd_host_other g (\<lambda>p. p\<lparr>ho_should_reschedule_current_check := True\<rparr>) w else w)"
  from assms False obtain rv tv pt where v: "(if rv = ERROR then Some ((ERROR, tv, pt), w)
        else if h_is_executing (host_of w1 g) \<and> \<not> forced opts then Some ((OK, tv, pt), w1)
        else Some (case neb_host_check ev Async_precheck g of
            NEB_CANCEL \<Rightarrow> ((ERROR, tv, pt), emit (Broker_host_check Async_precheck g) w1)
          | NEB_OVERRIDE \<Rightarrow> ((OK, tv, pt), emit (Broker_host_check Async_precheck g) w1)
          | NEB_CONTINUE \<Rightarrow> ((OK, tv, pt),
              start_host_check ev g opts lat sched resched (emit (Broker_host_check Async_precheck g) w1)))) = Some (r, w')"
    unfolding run_async_host_check_3x_def Let_def w1_def [symmetric]
    by (auto simp: bind_eq_Some_conv)
  show ?thesis
  proof (cases "rv = ERROR")
    case True
    with v that(1) show ?thesis by simp
  next
    case False
    with v have "w' = w1 \<or> w' = emit (Broker_host_check Async_precheck g) w1 \<or>
       w' = start_host_check ev g opts lat sched resched (emit (Broker_host_check Async_precheck g) w1)"
      by (cases "neb_host_check ev Async_precheck g") (simp_all split: if_split_asm)
    with that(2) [OF w1_def] show ?thesis by simp
  qed
qed

lemma run_async_kept:
  assumes "g \<noteq> h" "run_async_host_check_3x ev g opts lat sched resched w = Some (r, w')"
  shows "host_kept h w w'"
  using assms(2)
proof (cases rule: run_async_cases)
  case (2 w1)
  have "host_kept h w w1" unfolding 2(1) by (simp add: kept_basic(2))
  with 2(2) show ?thesis using assms(1) by (auto intro: kept_basic(1) start_host_check_kept)
qed simp

lemma async_host_check_kept:
  assumes "g \<noteq> h" "async_host_check ev args g w = Some w'"
  shows "host_kept h w w'"
proof (cases "ca_use_cached args \<and> ulong_of (now ev - h_last_check (host_of w g)) \<le> ca_horizon args \<or>
    h_is_executing (host_of w g)")
  case True
  with assms show ?thesis by (simp add: async_host_check_def)
next
  case False
  with assms(2) obtain r where "run_async_host_check_3x ev g CHECK_OPTION_NONE 0 False False w = Some (r, w')"
    unfolding async_host_check_def if_not_P [OF False] map_option_eq_Some by (metis surjective_pairing)
  with assms(1) show ?thesis by (rule run_async_kept)
qed

lemma for_each_kept:
  assumes "h \<notin> set gs" "for_each (async_host_check ev args) gs w = Some w'"
  shows "host_kept h w w'"
  using assms
proof (induction gs arbitrary: w)
  case (Cons g gs)
  then obtain w1 where "async_host_check ev args g w = Some w1" "for_each (async_host_check ev args) gs w1 = Some w'"
    by (auto split: bind_splits)
  with Cons.IH [of w1] Cons.prems(1) show ?case
    by (auto intro: host_kept_trans [OF async_host_check_kept])
qed simp

lemma finish_host_check_effect:
  assumes "finish_host_check ev args h old fu w = Some w'" "h \<notin> set (check_hostlist fu)"
  shows "check_view (host_of w' h) = check_view (host_of w h)"
    "attempt_of h w' = reset_attempt (host_of w h)" "cfg w' = cfg w" "hostdependencies w' = hostdependencies w"
proof -
  obtain w1 w2 w3 where w1: "handle_host_state ev h w = Some w1"
    and w2: "check_for_host_flapping ev h True True True (stalk_host old h w1) = Some w2"
    and w3: "(if reschedule_check fu then reschedule_host ev h (next_check fu) w2 else Some w2) = Some w3"
    and w': "for_each (async_host_check ev args) (check_hostlist fu) (emit (Update_status (HostTarget h)) w3) = Some w'"
    using assms(1) by (auto simp: finish_host_check_def bind_eq_Some_conv)
  have "quiet h w1 w2"
    by (rule quiet_trans [OF quiet_stalk quiet_side [OF side_frame_check_host_flapping [OF w2]]])
  also have "quiet h w2 w3"
    using w3 by (cases "reschedule_check fu") (simp_all add: quiet_reschedule)
  finally have "quiet h w1 w3" .
  then have "host_kept h w1 w'"
    using host_kept_trans [OF quiet_kept host_kept_trans [OF quiet_kept for_each_kept [OF assms(2) w']]]
    by simp
  with handle_host_state_effect [OF w1]
  show "check_view (host_of w' h) = check_view (host_of w h)"
    "attempt_of h w' = reset_attempt (host_of w h)" "cfg w' = cfg w" "hostdependencies w' = hostdependencies w"
    by (simp_all add: host_kept_def states_kept_def)
qed

section \<open>The state machine\<close>

lemma set_queue_hosts [simp]: "set (queue_hosts hs l) = set hs \<union> set l"
  unfolding queue_hosts_def by (induction hs arbitrary: l) auto

lemma set_hosts_where: "h \<in> set (hosts_where P ms w) \<longleftrightarrow> Some h \<in> set ms \<and> P (h_current_state (host_of w h))"
  by (force simp: hosts_where_def List.map_filter_def)

definition alone :: "host_id \<Rightarrow> engine \<Rightarrow> bool" where
  "alone h w \<longleftrightarrow> Some h \<notin> set (h_parent_hosts (host_of w h)) \<and> Some h \<notin> set (h_child_hosts (host_of w h)) \<and>
     h \<notin> set (host_masters h w)"

text \<open>What a problem is called: down or unreachable, as the parents are.\<close>

definition resolved_state :: "host_id \<Rightarrow> host_state \<Rightarrow> engine \<Rightarrow> host_state" where
  "resolved_state h new w =
     (if new = HOST_UP \<or> h_check_type (host_of w h) = CHECK_PASSIVE \<and> \<not> translate_passive_host_checks (cfg w)
      then new
      else if h_parent_hosts (host_of w h) = [] \<or>
              (\<exists>p. Some p \<in> set (h_parent_hosts (host_of w h)) \<and> h_current_state (host_of w p) = HOST_UP)
      then HOST_DOWN else HOST_UNREACHABLE)"

lemma resolved_state_code [code]:
  "resolved_state h new w =
     (if new = HOST_UP \<or> h_check_type (host_of w h) = CHECK_PASSIVE \<and> \<not> translate_passive_host_checks (cfg w)
      then new
      else if h_parent_hosts (host_of w h) = [] \<or>
              hosts_where ((=) HOST_UP) (h_parent_hosts (host_of w h)) w \<noteq> []
      then HOST_DOWN else HOST_UNREACHABLE)"
proof -
  have "(\<exists>p. Some p \<in> set (h_parent_hosts (host_of w h)) \<and> h_current_state (host_of w p) = HOST_UP) \<longleftrightarrow>
      (\<exists>p. p \<in> set (hosts_where ((=) HOST_UP) (h_parent_hosts (host_of w h)) w))"
    unfolding set_hosts_where by (simp only: eq_commute)
  also have "\<dots> \<longleftrightarrow> hosts_where ((=) HOST_UP) (h_parent_hosts (host_of w h)) w \<noteq> []"
    by (simp only: ex_in_conv set_empty)
  finally show ?thesis unfolding resolved_state_def by (simp only:)
qed

fun next_check_state ::
    "bool \<Rightarrow> int \<Rightarrow> host_state \<Rightarrow> host_state \<times> state_type \<times> int \<Rightarrow> host_state \<times> state_type \<times> int" where
  "next_check_state soft mx new (st, ty, n) =
     (if new = HOST_UP
      then (HOST_UP, if st = HOST_UP \<or> ty = HARD_STATE \<or> \<not> soft then HARD_STATE else SOFT_STATE, n)
      else if st = HOST_UP \<and> mx = 1 then (new, HARD_STATE, n)
      else if \<not> soft then (new, HARD_STATE, 1)
      else if st = HOST_UP then (new, SOFT_STATE, n)
      else (new, if n = mx \<or> n = 1 then HARD_STATE else SOFT_STATE, n))"

definition soft_results :: "host_id \<Rightarrow> engine \<Rightarrow> bool" where
  "soft_results h w \<longleftrightarrow> h_check_type (host_of w h) = CHECK_ACTIVE \<or> passive_host_checks_are_soft (cfg w)"

definition machine_state :: "host \<Rightarrow> host_state \<times> state_type \<times> int" where
  "machine_state v = (h_current_state v, h_state_type v, h_current_attempt v)"

lemma problem_state_view:
  assumes "Some h \<notin> set (h_parent_hosts (host_of w h))" "new \<noteq> HOST_UP"
  shows "host_of (set_problem_state h new w) =
    (host_of w)(h := (host_of w h)\<lparr>h_current_state := resolved_state h new w\<rparr>)"
    "cfg (set_problem_state h new w) = cfg w" "hostdependencies (set_problem_state h new w) = hostdependencies w"
proof -
  let ?w = "upd_host h (\<lambda>v. v\<lparr>h_current_state := new\<rparr>) w"
  have ps: "h_parent_hosts (host_of ?w h) = h_parent_hosts (host_of w h)"
    and cur: "h_current_state (host_of ?w h) = new" by (simp_all add: upd_host_def)
  have "(case q of None \<Rightarrow> False | Some p \<Rightarrow> h_current_state (host_of ?w p) = HOST_UP) \<longleftrightarrow>
      (\<exists>p. q = Some p \<and> h_current_state (host_of w p) = HOST_UP)"
    if "q \<in> set (h_parent_hosts (host_of w h))" for q
  proof (cases q)
    case (Some p)
    have "p \<noteq> h" using Some that assms(1) by blast
    then show ?thesis by (simp add: Some upd_host_def)
  qed simp
  then have "list_ex (\<lambda>q. case q of None \<Rightarrow> False | Some p \<Rightarrow> h_current_state (host_of ?w p) = HOST_UP)
      (h_parent_hosts (host_of w h)) \<longleftrightarrow>
    (\<exists>p. Some p \<in> set (h_parent_hosts (host_of w h)) \<and> h_current_state (host_of w p) = HOST_UP)"
    unfolding list_ex_iff by blast
  then have r: "determine_host_reachability h ?w =
      (if h_parent_hosts (host_of w h) = [] \<or>
          (\<exists>p. Some p \<in> set (h_parent_hosts (host_of w h)) \<and> h_current_state (host_of w p) = HOST_UP)
       then HOST_DOWN else HOST_UNREACHABLE)"
    using assms(2) by (simp add: determine_host_reachability_def Let_def ps cur)
  define c where "c \<longleftrightarrow> h_check_type (host_of w h) = CHECK_ACTIVE \<or> translate_passive_host_checks (cfg w)"
  have "h_check_type (host_of w h) = CHECK_PASSIVE \<longleftrightarrow> h_check_type (host_of w h) \<noteq> CHECK_ACTIVE"
    by (cases "h_check_type (host_of w h)") simp_all
  then have res: "resolved_state h new w = (if c then determine_host_reachability h ?w else new)"
    using assms(2) unfolding r resolved_state_def c_def by (simp del: ex_simps)
  have "set_problem_state h new w =
      (if c then upd_host h (\<lambda>v. v\<lparr>h_current_state := determine_host_reachability h ?w\<rparr>) ?w else ?w)"
    by (simp add: set_problem_state_def Let_def c_def upd_host_def)
  then show "host_of (set_problem_state h new w) =
    (host_of w)(h := (host_of w h)\<lparr>h_current_state := resolved_state h new w\<rparr>)"
    unfolding res by (cases c) (simp_all only: if_True if_False, simp_all add: upd_host_def)
  show "cfg (set_problem_state h new w) = cfg w" "hostdependencies (set_problem_state h new w) = hostdependencies w"
    by (simp_all add: set_problem_state_def upd_host_def Let_def)
qed

text \<open>
  The decision a result leads to, for a result that needs no checks of parents: the new state
  of the host, and no check of the host itself among the checks it asks for.
\<close>

definition decided :: "host_id \<Rightarrow> host_state \<times> state_type \<times> int \<Rightarrow> engine \<Rightarrow> host_followup \<times> engine \<Rightarrow> bool" where
  "decided h m w fw \<longleftrightarrow>
     machine_state (host_of (snd fw) h) = m \<and> h \<notin> set (check_hostlist (fst fw)) \<and>
     h_last_state (host_of (snd fw) h) = h_last_state (host_of w h) \<and>
     h_last_hard_state (host_of (snd fw) h) = h_last_hard_state (host_of w h) \<and>
     h_max_attempts (host_of (snd fw) h) = h_max_attempts (host_of w h) \<and>
     h_parent_hosts (host_of (snd fw) h) = h_parent_hosts (host_of w h) \<and>
     h_child_hosts (host_of (snd fw) h) = h_child_hosts (host_of w h) \<and>
     h_check_type (host_of (snd fw) h) = h_check_type (host_of w h) \<and>
     h_is_executing (host_of (snd fw) h) = h_is_executing (host_of w h) \<and>
     cfg (snd fw) = cfg w \<and> hostdependencies (snd fw) = hostdependencies w"

lemma host_masters_cong: "hostdependencies w' = hostdependencies w \<Longrightarrow> host_masters h w' = host_masters h w"
  by (simp add: host_masters_def)

lemma decided_recovers:
  assumes "alone h w" "h_current_state (host_of w h) \<noteq> HOST_UP"
  shows "decided h (next_check_state (soft_results h w) (h_max_attempts (host_of w h)) HOST_UP (machine_state (host_of w h)))
    w (host_recovers ev h w)"
proof -
  have "h_check_type (host_of w h) = CHECK_ACTIVE \<or> h_check_type (host_of w h) = CHECK_PASSIVE"
    by (cases "h_check_type (host_of w h)") simp_all
  with assms show ?thesis
    by (auto simp: decided_def host_recovers_def machine_state_def upd_host_def alone_def set_hosts_where
        soft_results_def Let_def)
qed

lemma decided_stays_up:
  assumes "h_current_state (host_of w h) = HOST_UP"
  shows "decided h (next_check_state (soft_results h w) (h_max_attempts (host_of w h)) HOST_UP (machine_state (host_of w h)))
    w (host_stays_up ev h resched w)"
  using assms by (simp add: decided_def host_stays_up_def machine_state_def upd_host_def Let_def)

lemma decidedI:
  assumes "host_of w2 = (host_of w)(h := v)" "cfg w2 = cfg w" "hostdependencies w2 = hostdependencies w"
    "machine_state v = m" "h \<notin> set (check_hostlist fu)"
    "v = (host_of w h)\<lparr>h_current_state := st, h_state_type := ty, h_current_attempt := n\<rparr>"
  shows "decided h m w (fu, w2)"
  using assms by (simp add: decided_def)

lemma resolved_state_cong:
  "cfg w' = cfg w \<Longrightarrow> h_check_type (host_of w' h) = h_check_type (host_of w h) \<Longrightarrow>
   h_parent_hosts (host_of w' h) = h_parent_hosts (host_of w h) \<Longrightarrow>
   (\<And>p. h_current_state (host_of w' p) = h_current_state (host_of w p)) \<Longrightarrow>
   resolved_state h new w' = resolved_state h new w"
  unfolding resolved_state_def by (simp only:)

lemma decided_stays_down:
  assumes "alone h w" "h_current_state (host_of w h) \<noteq> HOST_UP" "new \<noteq> HOST_UP"
  shows "decided h (next_check_state (soft_results h w) (h_max_attempts (host_of w h)) (resolved_state h new w)
      (machine_state (host_of w h))) w (host_stays_down ev h new resched w)"
proof -
  define f where "f = (\<lambda>v :: host. if h_check_type v = CHECK_PASSIVE \<and> \<not> passive_host_checks_are_soft (cfg w)
      then v\<lparr>h_state_type := HARD_STATE, h_current_attempt := 1\<rparr>
      else if h_current_attempt v = h_max_attempts v \<or> h_current_attempt v = 1
      then v\<lparr>h_state_type := HARD_STATE\<rparr> else v\<lparr>h_state_type := SOFT_STATE\<rparr>)"
  have ff: "h_parent_hosts (f v) = h_parent_hosts v" "h_check_type (f v) = h_check_type v"
    "h_current_state (f v) = h_current_state v" "h_max_attempts (f v) = h_max_attempts v" for v
    by (simp_all add: f_def)
  let ?w1 = "upd_host h f w"
  let ?v = "(f (host_of w h))\<lparr>h_current_state := resolved_state h new w\<rparr>"
  have r: "resolved_state h new ?w1 = resolved_state h new w"
    and p: "Some h \<notin> set (h_parent_hosts (host_of ?w1 h))"
    using assms(1) by (auto intro!: resolved_state_cong simp: alone_def upd_host_def ff)
  have ns: "resolved_state h new w \<noteq> HOST_UP" using assms(3) by (auto simp: resolved_state_def)
  note v = problem_state_view [OF p assms(3), unfolded r]
  have host: "host_of (set_problem_state h new ?w1) = (host_of w)(h := ?v)"
    and rest: "cfg (set_problem_state h new ?w1) = cfg w"
      "hostdependencies (set_problem_state h new ?w1) = hostdependencies w"
    unfolding v by (simp_all add: upd_host_def)
  obtain fu where fu: "host_stays_down ev h new resched w = (fu, set_problem_state h new ?w1)" "check_hostlist fu = []"
    by (simp add: host_stays_down_def Let_def f_def)
  have ct: "h_check_type (host_of w h) = CHECK_ACTIVE \<longleftrightarrow> h_check_type (host_of w h) \<noteq> CHECK_PASSIVE"
    by (cases "h_check_type (host_of w h)") simp_all
  have "machine_state ?v = next_check_state (soft_results h w) (h_max_attempts (host_of w h))
      (resolved_state h new w) (machine_state (host_of w h))"
    using assms(2) ns ct by (simp add: machine_state_def soft_results_def f_def)
  moreover have "?v = (host_of w h)\<lparr>h_current_state := h_current_state ?v, h_state_type := h_state_type ?v,
      h_current_attempt := h_current_attempt ?v\<rparr>"
    by (simp add: f_def)
  ultimately show ?thesis
    unfolding fu(1) using host rest fu(2) by (intro decidedI [where v = ?v]) simp_all
qed

lemma decided_fails_softly:
  assumes "alone h w" "h_current_state (host_of w h) = HOST_UP" "new \<noteq> HOST_UP" "h_max_attempts (host_of w h) \<noteq> 1"
  shows "decided h (next_check_state (soft_results h w) (h_max_attempts (host_of w h)) (resolved_state h new w)
      (machine_state (host_of w h))) w (host_fails_softly ev h new w)"
proof -
  let ?soft = "h_check_type (host_of w h) = CHECK_ACTIVE \<or> passive_host_checks_are_soft (cfg w)"
  let ?w1 = "upd_host h (\<lambda>v. if ?soft then v\<lparr>h_state_type := SOFT_STATE\<rparr>
      else v\<lparr>h_state_type := HARD_STATE, h_current_attempt := 1\<rparr>) w"
  have r: "resolved_state h new ?w1 = resolved_state h new w"
    and p: "Some h \<notin> set (h_parent_hosts (host_of ?w1 h))"
    using assms(1) by (auto intro!: resolved_state_cong simp: alone_def upd_host_def)
  have ns: "resolved_state h new w \<noteq> HOST_UP" using assms(3) by (auto simp: resolved_state_def)
  note v = problem_state_view [OF p assms(3)]
  have m: "host_masters h (set_problem_state h new ?w1) = host_masters h w"
    by (rule host_masters_cong) (simp add: v, simp add: upd_host_def)
  show ?thesis
    using assms ns m v
    by (auto simp: decided_def host_fails_softly_def machine_state_def r [unfolded upd_host_def] Let_def upd_host_def soft_results_def
        set_hosts_where alone_def)
qed

lemma decided_fails_at_once:
  assumes "alone h w" "h_current_state (host_of w h) = HOST_UP" "new \<noteq> HOST_UP" "h_max_attempts (host_of w h) = 1"
    "h_check_type (host_of w h) = CHECK_PASSIVE"
  shows "decided h (next_check_state (soft_results h w) (h_max_attempts (host_of w h)) (resolved_state h new w)
      (machine_state (host_of w h))) w
    (host_fails_at_once ev h new up (upd_host h (\<lambda>v. v\<lparr>h_state_type := HARD_STATE\<rparr>) w))"
proof -
  let ?w1 = "upd_host h (\<lambda>v. v\<lparr>h_state_type := HARD_STATE\<rparr>) w"
  have r: "resolved_state h new ?w1 = resolved_state h new w"
    and p: "Some h \<notin> set (h_parent_hosts (host_of ?w1 h))"
    using assms(1) by (auto intro!: resolved_state_cong simp: alone_def upd_host_def)
  have ns: "resolved_state h new w \<noteq> HOST_UP" using assms(3) by (auto simp: resolved_state_def)
  have ct: "h_check_type (host_of ?w1 h) = CHECK_PASSIVE" using assms(5) by (simp add: upd_host_def)
  show ?thesis
    using assms ns problem_state_view [OF p assms(3)]
    by (auto simp: decided_def host_fails_at_once_def ct machine_state_def r [unfolded upd_host_def] Let_def upd_host_def soft_results_def
        set_hosts_where alone_def)
qed

text \<open>
  The whole step of the state machine: a passive result that counts as soft moves the attempts
  first, and a host that came back up starts again at the first attempt.
\<close>

definition counted_host :: "host_id \<Rightarrow> engine \<Rightarrow> host" where
  "counted_host h w =
     (if h_check_type (host_of w h) = CHECK_PASSIVE \<and> passive_host_checks_are_soft (cfg w)
      then host_of (adjust_host_check_attempt_3x h False w) h else host_of w h)"

definition process_machine :: "host_id \<Rightarrow> host_state \<Rightarrow> engine \<Rightarrow> host_state \<times> state_type \<times> int" where
  "process_machine h new w =
     (let (st, ty, n) = next_check_state (soft_results h w) (h_max_attempts (host_of w h)) (resolved_state h new w)
            (machine_state (counted_host h w))
      in (st, ty, if st = HOST_UP \<and> (h_last_state (host_of w h) \<noteq> HOST_UP \<or>
                       h_last_hard_state (host_of w h) \<noteq> HOST_UP \<or> ty = SOFT_STATE) then 1 else n))"

text \<open>
  A problem of an active check with a single attempt has the parents checked first. A parent
  answers at once when its checks are off or its last check is recent enough to be used again;
  only then is the parent not checked before the host is decided.
\<close>

definition answers_at_once :: "env \<Rightarrow> check_args \<Rightarrow> engine \<Rightarrow> host_id \<Rightarrow> bool" where
  "answers_at_once ev args w p \<longleftrightarrow>
     (let v = host_of w p in
      \<not> forced (ca_options args) \<and> h_check_command_ptr v \<noteq> None \<and>
      (\<not> h_checks_enabled v \<or>
       ca_use_cached args \<and> h_has_been_checked v \<and> ulong_of (now ev - h_last_check v) \<le> ca_horizon args))"

definition asks_parents :: "env \<Rightarrow> check_args \<Rightarrow> host_id \<Rightarrow> host_state \<Rightarrow> engine \<Rightarrow> bool" where
  "asks_parents ev args h new w \<longleftrightarrow> h_current_state (host_of w h) = HOST_UP \<and> new \<noteq> HOST_UP \<and>
     h_max_attempts (host_of w h) = 1 \<and> h_check_type (host_of w h) = CHECK_ACTIVE \<and>
     (\<exists>p\<in>set (List.map_filter (\<lambda>q. q) (h_parent_hosts (host_of w h))). \<not> answers_at_once ev args w p)"

lemma set_map_filter_some: "p \<in> set (List.map_filter (\<lambda>q. q) qs) \<longleftrightarrow> Some p \<in> set qs"
  by (induction qs) (auto simp: map_filter_simps split: option.splits)

lemma sync_answered:
  assumes "run_host (ev, args) (Run_sync p) w = Some (r, w')" "answers_at_once ev args w p"
  shows "r = Some (h_current_state (host_of w p)) \<and> (\<exists>os. w' = w\<lparr>out := os\<rparr>)"
proof -
  note run = assms(1) [unfolded run_host.simps [of _ "Run_sync p"] host_call.case fst_conv snd_conv]
  have cmd: "h_check_command_ptr (host_of w p) \<noteq> None" using assms(2) by (simp add: answers_at_once_def Let_def)
  with run obtain v where v: "check_host_check_viability_3x ev p (ca_options args) w = Some v"
    and rest: "(if fst v = ERROR then Some (Some (h_current_state (host_of w p)), w)
      else case begin_sync ev args p w of (Inl st, w1) \<Rightarrow> Some (Some st, w1)
        | (Inr old, w1) \<Rightarrow> (let (host_result, w2) = execute_sync ev p w1
             in Option.bind (run_host (ev, args) (Process_result p host_result old False) w2) (\<lambda>r.
                  Some (Some (h_current_state (host_of (snd r) p)), emit (Broker_host_check Check_processed p) (snd r)))))
      = Some (r, w')"
    by (auto simp: bind_eq_Some_conv)
  show ?thesis
  proof (cases "fst v = ERROR")
    case True
    then show ?thesis using rest by (auto intro: exI [of _ "out w"])
  next
    case False
    then have "h_checks_enabled (host_of w p)"
      using v assms(2) by (auto simp: check_host_check_viability_3x_def answers_at_once_def Let_def split: if_splits)
    then have "begin_sync ev args p w = (Inl (h_current_state (host_of w p)),
        emit (Check_stats ACTIVE_CACHED_HOST_CHECK_STATS (now ev))
          (emit (Check_stats ACTIVE_ONDEMAND_HOST_CHECK_STATS (now ev)) w))"
      using assms(2) by (simp add: begin_sync_def answers_at_once_def Let_def)
    with rest False show ?thesis by (auto simp: emit_def)
  qed
qed

lemma check_parents_steps:
  "run_host ea (Check_parents [] st) w = Some (None, w)"
  "run_host ea (Check_parents (None # ps) st) w = run_host ea (Check_parents ps st) w"
  "run_host ea (Check_parents (Some p # ps) st) w = Option.bind (run_host ea (Run_sync p) w) (\<lambda>r.
     (let st' = (case fst r of None \<Rightarrow> st | Some s \<Rightarrow> s)
      in if st' = HOST_UP then Some (Some HOST_UP, snd r) else run_host ea (Check_parents ps st') (snd r)))"
  by (subst run_host.simps, simp)+

lemma parents_answered:
  assumes "run_host (ev, args) (Check_parents ps st) w = Some (r, w')"
    "\<And>p. Some p \<in> set ps \<Longrightarrow> answers_at_once ev args w p"
  shows "(r = Some HOST_UP \<longleftrightarrow> (\<exists>p. Some p \<in> set ps \<and> h_current_state (host_of w p) = HOST_UP)) \<and>
    (\<exists>os. w' = w\<lparr>out := os\<rparr>)"
  using assms
proof (induction ps arbitrary: st w)
  case Nil
  then have "r = None" and w: "w' = w\<lparr>out := out w\<rparr>" by (simp_all add: check_parents_steps)
  from w have "\<exists>os. w' = w\<lparr>out := os\<rparr>" by (rule exI)
  with \<open>r = None\<close> show ?case by simp
next
  case (Cons q ps)
  show ?case
  proof (cases q)
    case None
    with Cons.prems(1) have run: "run_host (ev, args) (Check_parents ps st) w = Some (r, w')"
      by (simp add: check_parents_steps)
    from Cons.IH [OF run Cons.prems(2)] None show ?thesis by simp
  next
    case (Some p)
    from Cons.prems(1) obtain r1 w1 where r1: "run_host (ev, args) (Run_sync p) w = Some (r1, w1)"
      unfolding Some check_parents_steps by (auto simp: bind_eq_Some_conv)
    have "answers_at_once ev args w p" using Cons.prems(2) Some by simp
    from sync_answered [OF r1 this] obtain os where w1: "r1 = Some (h_current_state (host_of w p))" "w1 = w\<lparr>out := os\<rparr>"
      by blast
    note rest = Cons.prems(1) [unfolded Some check_parents_steps r1 bind.simps fst_conv snd_conv Let_def w1(1) option.case]
    show ?thesis
    proof (cases "h_current_state (host_of w p) = HOST_UP")
      case True
      with rest have "r = Some HOST_UP" "w' = w1" by simp_all
      with True Some w1(2) show ?thesis by auto
    next
      case False
      with rest have run: "run_host (ev, args) (Check_parents ps (h_current_state (host_of w p))) w1 = Some (r, w')" by simp
      have "answers_at_once ev args w1 p" if "Some p \<in> set ps" for p
        using Cons.prems(2) [of p] that by (simp add: w1(2) answers_at_once_def)
      from Cons.IH [OF run this] have "r = Some HOST_UP \<longleftrightarrow> (\<exists>p. Some p \<in> set ps \<and> h_current_state (host_of w p) = HOST_UP)"
        and "\<exists>os. w' = w1\<lparr>out := os\<rparr>" by (simp_all add: w1(2))
      with False Some w1(2) show ?thesis by auto
    qed
  qed
qed

text \<open>The state that a failing host with a single attempt is given, whoever answers for its parents.\<close>

lemma fails_at_once_decided:
  assumes "alone h w" "h_current_state (host_of w h) = HOST_UP" "new \<noteq> HOST_UP" "h_max_attempts (host_of w h) = 1"
    "h_check_type (host_of w h) = CHECK_ACTIVE"
    "up \<longleftrightarrow> (\<exists>p. Some p \<in> set (h_parent_hosts (host_of w h)) \<and> h_current_state (host_of w p) = HOST_UP)"
  shows "decided h (next_check_state (soft_results h w) (h_max_attempts (host_of w h)) (resolved_state h new w)
      (machine_state (host_of w h))) w
    (host_fails_at_once ev h new up ((upd_host h (\<lambda>v. v\<lparr>h_state_type := HARD_STATE\<rparr>) w)\<lparr>out := os\<rparr>))"
proof -
  have "resolved_state h new w = (if up \<or> h_parent_hosts (host_of w h) = [] then HOST_DOWN else HOST_UNREACHABLE)"
    using assms(3,5,6) by (auto simp: resolved_state_def)
  then show ?thesis
    using assms(1-5)
    by (auto simp: decided_def host_fails_at_once_def machine_state_def Let_def upd_host_def soft_results_def
        set_hosts_where alone_def)
qed

lemma asks_parents_cong:
  assumes "Some h \<notin> set (h_parent_hosts (host_of w h))" "\<And>x. x \<noteq> h \<Longrightarrow> host_of w' x = host_of w x"
    "h_current_state (host_of w' h) = h_current_state (host_of w h)" "h_max_attempts (host_of w' h) = h_max_attempts (host_of w h)"
    "h_check_type (host_of w' h) = h_check_type (host_of w h)" "h_parent_hosts (host_of w' h) = h_parent_hosts (host_of w h)"
  shows "asks_parents ev args h new w' = asks_parents ev args h new w"
proof -
  have same: "answers_at_once ev args w' p = answers_at_once ev args w p" if "Some p \<in> set (h_parent_hosts (host_of w h))" for p
    using that assms(1) assms(2) [of p] by (cases "p = h") (simp_all add: answers_at_once_def)
  have "(\<exists>p\<in>set (List.map_filter (\<lambda>q. q) (h_parent_hosts (host_of w h))). \<not> answers_at_once ev args w' p) \<longleftrightarrow>
      (\<exists>p\<in>set (List.map_filter (\<lambda>q. q) (h_parent_hosts (host_of w h))). \<not> answers_at_once ev args w p)"
    using same by (simp add: set_map_filter_some Bex_def)
  then show ?thesis by (simp add: asks_parents_def assms(3-6))
qed

lemma parents_decided:
  assumes "Option.bind (run_host (ev, args) (Check_parents (h_parent_hosts (host_of w h)) HOST_UP)
        (upd_host h (\<lambda>v. v\<lparr>h_state_type := HARD_STATE\<rparr>) w))
      (\<lambda>r. Some (host_fails_at_once ev h new (fst r = Some HOST_UP) (snd r))) = Some fw"
    "alone h w" "h_current_state (host_of w h) = HOST_UP" "new \<noteq> HOST_UP" "h_max_attempts (host_of w h) = 1"
    "h_check_type (host_of w h) = CHECK_ACTIVE" "\<not> asks_parents ev args h new w"
  shows "decided h (next_check_state (soft_results h w) (h_max_attempts (host_of w h)) (resolved_state h new w)
      (machine_state (host_of w h))) w fw"
proof -
  let ?w1 = "upd_host h (\<lambda>v. v\<lparr>h_state_type := HARD_STATE\<rparr>) w" and ?ps = "h_parent_hosts (host_of w h)"
  from assms(1) obtain r w2 where par: "run_host (ev, args) (Check_parents ?ps HOST_UP) ?w1 = Some (r, w2)"
    and fw: "fw = host_fails_at_once ev h new (r = Some HOST_UP) w2"
    unfolding bind_eq_Some_conv by fastforce
  have ne: "Some p \<in> set ?ps \<Longrightarrow> p \<noteq> h" for p using assms(2) by (auto simp: alone_def)
  have "answers_at_once ev args ?w1 p" if "Some p \<in> set ?ps" for p
    using assms(3-7) that ne [OF that] by (fastforce simp: asks_parents_def set_map_filter_some answers_at_once_def upd_host_def)
  from parents_answered [OF par this] obtain os where r: "r = Some HOST_UP \<longleftrightarrow>
      (\<exists>p. Some p \<in> set ?ps \<and> h_current_state (host_of ?w1 p) = HOST_UP)" "w2 = ?w1\<lparr>out := os\<rparr>" by blast
  have "h_current_state (host_of ?w1 p) = h_current_state (host_of w p)" for p by (simp add: upd_host_def)
  note r = r [unfolded this]
  show ?thesis unfolding fw r(2) by (rule fails_at_once_decided [OF assms(2-6) r(1)])
qed

lemma counted_host_keeps:
  assumes "w0 = (if h_check_type (host_of w h) = CHECK_PASSIVE \<and> passive_host_checks_are_soft (cfg w)
      then adjust_host_check_attempt_3x h False w else w)"
  shows "host_of w0 h = counted_host h w" "x \<noteq> h \<Longrightarrow> host_of w0 x = host_of w x"
    "cfg w0 = cfg w" "hostdependencies w0 = hostdependencies w" "check_view (host_of w0 h) = check_view (host_of w h)"
  unfolding assms by (simp_all add: counted_host_def adjust_host_check_attempt_3x_def upd_host_def check_view_def)

lemma decided_reads:
  assumes "decided h m w fw" "h_current_state (host_of w' h) = h_current_state (host_of (snd fw) h)"
  shows "reset_attempt (host_of (snd fw) h) =
    (case m of (st, ty, n) \<Rightarrow> if st = HOST_UP \<and> (h_last_state (host_of w h) \<noteq> HOST_UP \<or>
       h_last_hard_state (host_of w h) \<noteq> HOST_UP \<or> ty = SOFT_STATE) then 1 else n)"
  using assms(1) by (cases m) (auto simp: decided_def machine_state_def reset_attempt_def host_state_changed_def)

lemma process_decides:
  assumes "process_host_check_result_3x ev args h new old resched w = Some w'" "alone h w" "\<not> asks_parents ev args h new w"
  obtains fw where "finish_host_check ev args h old (fst fw) (snd fw) = Some w'"
    "decided h (next_check_state (soft_results h w) (h_max_attempts (host_of w h)) (resolved_state h new w)
      (machine_state (counted_host h w))) w fw"
proof -
  define w0 where "w0 = (if h_check_type (host_of w h) = CHECK_PASSIVE \<and> passive_host_checks_are_soft (cfg w)
      then adjust_host_check_attempt_3x h False w else w)"
  note c = counted_host_keeps [OF w0_def]
  note v = check_viewD [OF c(5)]
  let ?hst = "host_of w0 h"
  have alone0: "alone h w0"
    using assms(2) v host_masters_cong [OF c(4)] by (simp add: alone_def)
  have res0: "resolved_state h s w0 = resolved_state h s w" for s
    using v c(2) by (intro resolved_state_cong c) (metis, metis, metis)
  have soft0: "soft_results h w0 = soft_results h w" using v c(3) by (simp add: soft_results_def)
  have up: "resolved_state h HOST_UP w = HOST_UP" by (simp add: resolved_state_def)
  have asks0: "asks_parents ev args h new w0 = asks_parents ev args h new w"
    using asks_parents_cong [of h w w0 ev args new] assms(2) v c(2) by (simp add: alone_def)
  have run: "map_option snd (run_host (ev, args) (Process_result h new old resched) w) = Some w'"
    using assms(1) by (simp add: process_host_check_result_3x_def)
  note unf = run [unfolded run_host.simps [of _ "Process_result h new old resched"] host_call.case
      w0_def [symmetric] Let_def]
  have "\<exists>fw. finish_host_check ev args h old (fst fw) (snd fw) = Some w' \<and>
      decided h (next_check_state (soft_results h w0) (h_max_attempts ?hst) (resolved_state h new w0)
        (machine_state ?hst)) w0 fw"
  proof (cases "h_current_state ?hst = HOST_UP")
    case False
    show ?thesis
    proof (cases "new = HOST_UP")
      case True
      with False unf decided_recovers [OF alone0 False] show ?thesis
        by (intro exI [of _ "host_recovers ev h w0"]) (simp add: res0 up option.map_comp o_def)
    next
      case new: False
      with False unf decided_stays_down [OF alone0 False new] show ?thesis
        by (intro exI [of _ "host_stays_down ev h new resched w0"]) (simp add: option.map_comp o_def)
    qed
  next
    case True
    show ?thesis
    proof (cases "new = HOST_UP")
      case new: True
      with True unf decided_stays_up [OF True] show ?thesis
        by (intro exI [of _ "host_stays_up ev h resched w0"]) (simp add: res0 up option.map_comp o_def)
    next
      case new: False
      show ?thesis
      proof (cases "h_max_attempts ?hst = 1")
        case mx: True
        let ?w1 = "upd_host h (\<lambda>v. v\<lparr>h_state_type := HARD_STATE\<rparr>) w0"
        show ?thesis
        proof (cases "h_check_type ?hst")
          case CHECK_PASSIVE
          with True new mx unf decided_fails_at_once [OF alone0 True new mx CHECK_PASSIVE] show ?thesis
            by (intro exI [of _ "host_fails_at_once ev h new False ?w1"]) (simp add: option.map_comp o_def)
        next
          case CHECK_ACTIVE
          let ?par = "Option.bind (run_host (ev, args) (Check_parents (h_parent_hosts ?hst) HOST_UP) ?w1)
              (\<lambda>r. Some (host_fails_at_once ev h new (fst r = Some HOST_UP) (snd r)))"
          have "map_option snd (Option.bind ?par (\<lambda>fw. map_option (Pair (None :: host_state option))
              (finish_host_check ev args h old (fst fw) (snd fw)))) = Some w'"
            using True new mx unf CHECK_ACTIVE by simp
          then obtain fw where fw: "?par = Some fw" "finish_host_check ev args h old (fst fw) (snd fw) = Some w'"
            by (cases ?par) (simp_all add: option.map_comp o_def)
          have "\<not> asks_parents ev args h new w0" using assms(3) asks0 by simp
          from parents_decided [OF fw(1) alone0 True new mx CHECK_ACTIVE this] fw(2) show ?thesis by blast
        qed
      next
        case mx: False
        with True new unf decided_fails_softly [OF alone0 True new mx] show ?thesis
          by (intro exI [of _ "host_fails_softly ev h new w0"]) (simp add: option.map_comp o_def)
      qed
    qed
  qed
  then obtain fw where fw: "finish_host_check ev args h old (fst fw) (snd fw) = Some w'"
    and "decided h (next_check_state (soft_results h w0) (h_max_attempts ?hst) (resolved_state h new w0)
        (machine_state ?hst)) w0 fw" by blast
  then have "decided h (next_check_state (soft_results h w) (h_max_attempts (host_of w h)) (resolved_state h new w)
      (machine_state (counted_host h w))) w fw"
    using v by (simp add: res0 soft0 c decided_def)
  with fw that show thesis by blast
qed

lemma process_effect:
  assumes "process_host_check_result_3x ev args h new old resched w = Some w'" "alone h w" "\<not> asks_parents ev args h new w"
  shows "machine_state (host_of w' h) = process_machine h new w"
    "h_max_attempts (host_of w' h) = h_max_attempts (host_of w h)"
    "h_last_hard_state (host_of w' h) = h_last_hard_state (host_of w h)"
    "h_is_executing (host_of w' h) = h_is_executing (host_of w h)"
    "h_parent_hosts (host_of w' h) = h_parent_hosts (host_of w h)"
    "h_child_hosts (host_of w' h) = h_child_hosts (host_of w h)"
    "cfg w' = cfg w" "hostdependencies w' = hostdependencies w"
proof -
  from process_decides [OF assms] obtain fw
    where fw: "finish_host_check ev args h old (fst fw) (snd fw) = Some w'"
    and d: "decided h (next_check_state (soft_results h w) (h_max_attempts (host_of w h)) (resolved_state h new w)
      (machine_state (counted_host h w))) w fw" (is "decided h ?m w fw") .
  from d have "h \<notin> set (check_hostlist (fst fw))" by (simp add: decided_def)
  note f = finish_host_check_effect [OF fw this]
  note v = check_viewD [OF f(1)]
  have "machine_state (host_of (snd fw) h) = ?m" using d by (simp add: decided_def)
  then have "machine_state (host_of w' h) = (fst ?m, fst (snd ?m), reset_attempt (host_of (snd fw) h))"
    using v f(2) by (cases ?m) (simp add: machine_state_def attempt_of_def)
  then show "machine_state (host_of w' h) = process_machine h new w"
    using decided_reads [OF d v(1)] by (simp add: process_machine_def split_beta)
  show "h_max_attempts (host_of w' h) = h_max_attempts (host_of w h)"
    "h_last_hard_state (host_of w' h) = h_last_hard_state (host_of w h)"
    "h_is_executing (host_of w' h) = h_is_executing (host_of w h)"
    "h_parent_hosts (host_of w' h) = h_parent_hosts (host_of w h)"
    "h_child_hosts (host_of w' h) = h_child_hosts (host_of w h)"
    "cfg w' = cfg w" "hostdependencies w' = hostdependencies w"
    using d v f by (simp_all add: decided_def)
qed

section \<open>Results of checks in the background\<close>

text \<open>What the step of the state machine reads of an engine.\<close>

definition machine_input :: "host_id \<Rightarrow> engine \<Rightarrow> host_state \<times> state_type \<times> int \<times> int \<times> host_id option list \<times>
    check_type \<times> host_state \<times> host_state" where
  "machine_input h w = (let v = host_of w h in (h_current_state v, h_state_type v, h_current_attempt v,
     h_max_attempts v, h_parent_hosts v, h_check_type v, h_last_state v, h_last_hard_state v))"

lemma process_machine_cong:
  assumes "machine_input h w' = machine_input h w" "cfg w' = cfg w"
    "\<And>x. x \<noteq> h \<Longrightarrow> host_of w' x = host_of w x"
  shows "process_machine h new w' = process_machine h new w"
    "Some h \<notin> set (h_parent_hosts (host_of w h)) \<Longrightarrow> asks_parents ev args h new w' = asks_parents ev args h new w"
proof -
  note i = assms(1) [unfolded machine_input_def Let_def prod.inject]
  have cur: "h_current_state (host_of w' p) = h_current_state (host_of w p)" for p
    using i assms(3) by (cases "p = h") simp_all
  have res: "resolved_state h new w' = resolved_state h new w"
    using i cur by (intro resolved_state_cong assms) simp_all
  have cnt: "machine_state (counted_host h w') = machine_state (counted_host h w)"
    using i by (simp add: machine_state_def counted_host_def adjust_host_check_attempt_3x_def upd_host_def assms(2))
  show "process_machine h new w' = process_machine h new w"
    using i assms(2) by (simp add: process_machine_def res cnt soft_results_def)
  show "asks_parents ev args h new w' = asks_parents ev args h new w" if "Some h \<notin> set (h_parent_hosts (host_of w h))"
    using i assms(3) by (intro asks_parents_cong that) simp_all
qed

definition begin_result :: "check_type \<Rightarrow> host \<Rightarrow> host" where
  "begin_result ct v = v\<lparr>h_check_type := ct, h_last_state := h_current_state v,
     h_last_hard_state := (if h_state_type v = HARD_STATE then h_current_state v else h_last_hard_state v)\<rparr>"

definition host_machine :: "check_type \<Rightarrow> host_id \<Rightarrow> host_state \<Rightarrow> engine \<Rightarrow> host_state \<times> state_type \<times> int" where
  "host_machine ct h new w = process_machine h new (upd_host h (begin_result ct) w)"

definition accepted_host_result :: "env \<Rightarrow> host_id \<Rightarrow> check_result \<Rightarrow> engine \<Rightarrow> bool" where
  "accepted_host_result ev h r w \<longleftrightarrow>
     (cr_check_type r = CHECK_PASSIVE \<longrightarrow>
        accept_passive_host_checks (cfg w) \<and> h_accept_passive_host_checks (host_of w h)) \<and>
     \<not> (result_has CHECK_OPTION_FRESHNESS_CHECK r \<and> is_host_result_fresh h (now ev) w)"

lemma host_result_code_effect:
  assumes "host_result_code h r w = (c, w')"
  shows "x \<noteq> h \<Longrightarrow> host_of w' x = host_of w x" "cfg w' = cfg w" "hostdependencies w' = hostdependencies w"
    "machine_input h w' = machine_input h w" "h_child_hosts (host_of w' h) = h_child_hosts (host_of w h)"
    "h_is_executing (host_of w' h) = h_is_executing (host_of w h)"
  using assms
  by (auto simp: host_result_code_def upd_host_def machine_input_def Let_def split: if_splits prod.splits)

lemma host_result_code_value:
  assumes "cfg w' = cfg w" "h_host_check_command (host_of w' h) = h_host_check_command (host_of w h)"
  shows "fst (host_result_code h r w') = fst (host_result_code h r w)"
  using assms by (simp add: host_result_code_def upd_host_def Let_def)

lemma take_host_result_effect:
  "x \<noteq> h \<Longrightarrow> host_of (take_host_result ev h r w) x = host_of w x"
  "cfg (take_host_result ev h r w) = cfg w" "hostdependencies (take_host_result ev h r w) = hostdependencies w"
  "machine_input h (take_host_result ev h r w) = machine_input h (upd_host h (begin_result (cr_check_type r)) w)"
  "h_child_hosts (host_of (take_host_result ev h r w) h) = h_child_hosts (host_of w h)"
  "h_host_check_command (host_of (take_host_result ev h r w) h) = h_host_check_command (host_of w h)"
  "h_is_executing (host_of (take_host_result ev h r w) h) =
     (cr_check_type r = CHECK_PASSIVE \<and> h_is_executing (host_of w h))"
  by (cases "cr_check_type r";
      simp add: take_host_result_def set_host_output_def upd_host_def upd_host_other_def emit_def
        machine_input_def begin_result_def Let_def split: prod.split)+

lemma fresh_cong:
  assumes "cfg w' = cfg w" "event_start w' = event_start w"
    "host_of w' h = host_of w h \<or> host_of w' h = (host_of w h)\<lparr>h_is_being_freshened := b\<rparr>"
  shows "is_host_result_fresh h t w' = is_host_result_fresh h t w"
  using assms(3)
  by (elim disjE) (simp_all add: assms(1,2) is_host_result_fresh_def host_expiration_time_def
      host_threshold_def Let_def)

text \<open>How results from the background have parents checked.\<close>

definition result_args :: "engine \<Rightarrow> check_args" where
  "result_args w = \<lparr>ca_options = CHECK_OPTION_NONE, ca_use_cached = True, ca_horizon = cached_host_check_horizon (cfg w)\<rparr>"

lemma handle_async_host_runs:
  assumes "handle_async_host_check_result_3x ev h r w = Some (res, w')" "accepted_host_result ev h r w"
  obtains w2 w3 w4 new resched where
    "cfg w2 = cfg w" "hostdependencies w2 = hostdependencies w" "\<And>x. x \<noteq> h \<Longrightarrow> host_of w2 x = host_of w x"
    "host_of w2 h = host_of w h \<or> host_of w2 h = (host_of w h)\<lparr>h_is_being_freshened := False\<rparr>"
    "snd (host_result_code h r (take_host_result ev h r w2)) = w3"
    "host_state_of_int (fst (host_result_code h r w)) = Some new"
    "process_host_check_result_3x ev (result_args w) h new (h_plugin_output (host_of w h)) resched w3 = Some w4"
    "w' = emit (Broker_host_check Check_processed h) w4"
proof -
  define w1 where "w1 = (if cr_check_type r = CHECK_ACTIVE \<and> currently_running_host_checks w > 0
      then w\<lparr>currently_running_host_checks := currently_running_host_checks w - 1\<rparr> else w)"
  define w2 where "w2 = (if result_has CHECK_OPTION_FRESHNESS_CHECK r
      then upd_host h (\<lambda>v. v\<lparr>h_is_being_freshened := False\<rparr>) w1 else w1)"
  have w1: "cfg w1 = cfg w" "hostdependencies w1 = hostdependencies w" "host_of w1 = host_of w"
    "event_start w1 = event_start w" by (simp_all add: w1_def)
  have w2: "cfg w2 = cfg w" "hostdependencies w2 = hostdependencies w" "\<And>x. x \<noteq> h \<Longrightarrow> host_of w2 x = host_of w x"
    "host_of w2 h = host_of w h \<or> host_of w2 h = (host_of w h)\<lparr>h_is_being_freshened := False\<rparr>"
    "event_start w2 = event_start w"
    by (auto simp: w2_def w1 upd_host_def)
  have out: "h_plugin_output (host_of w2 h) = h_plugin_output (host_of w h)"
    "h_host_check_command (host_of w2 h) = h_host_check_command (host_of w h)" using w2(4) by auto
  have "is_host_result_fresh h (now ev) w2 = is_host_result_fresh h (now ev) w"
    by (rule fresh_cong [OF w2(1,5,4)])
  with assms(2) have acc: "\<not> (cr_check_type r = CHECK_PASSIVE \<and>
      (\<not> accept_passive_host_checks (cfg w1) \<or> \<not> h_accept_passive_host_checks (host_of w1 h)))"
    "\<not> (result_has CHECK_OPTION_FRESHNESS_CHECK r \<and> is_host_result_fresh h (now ev) w2)"
    by (auto simp: accepted_host_result_def w1)
  obtain c w3 where w3: "host_result_code h r (take_host_result ev h r w2) = (c, w3)"
    by (meson surj_pair)
  then have "c = fst (host_result_code h r (take_host_result ev h r w2))" by simp
  also have "\<dots> = fst (host_result_code h r w)"
    by (rule host_result_code_value) (simp_all add: take_host_result_effect w2(1) out)
  finally have c: "c = fst (host_result_code h r w)" .
  note unf = assms(1) [unfolded handle_async_host_check_result_3x_def w1_def [symmetric] Let_def
      w2_def [symmetric] if_not_P [OF acc(1)] if_not_P [OF acc(2)] w3 prod.case]
  have "cfg w3 = cfg w" using host_result_code_effect(2) [OF w3] by (simp add: take_host_result_effect w2(1))
  with unf obtain new w4 resched where "host_state_of_int c = Some new"
    "process_host_check_result_3x ev (result_args w) h new (h_plugin_output (host_of w2 h)) resched w3 = Some w4"
    "w' = emit (Broker_host_check Check_processed h) w4"
    by (auto simp: bind_eq_Some_conv result_args_def)
  with that [OF w2(1-4)] w3 c out(1) show thesis by simp
qed

lemma handle_async_host_effect:
  assumes "handle_async_host_check_result_3x ev h r w = Some (res, w')" "accepted_host_result ev h r w"
    "alone h w" "host_state_of_int (fst (host_result_code h r w)) = Some new"
    "\<not> asks_parents ev (result_args w) h new (upd_host h (begin_result (cr_check_type r)) w)"
  shows "machine_state (host_of w' h) = host_machine (cr_check_type r) h new w"
    "h_max_attempts (host_of w' h) = h_max_attempts (host_of w h)"
    "h_is_executing (host_of w' h) = (cr_check_type r = CHECK_PASSIVE \<and> h_is_executing (host_of w h))"
    "alone h w'" "cfg w' = cfg w"
proof -
  obtain w2 w3 w4 n resched where
    w2: "cfg w2 = cfg w" "hostdependencies w2 = hostdependencies w" "\<And>x. x \<noteq> h \<Longrightarrow> host_of w2 x = host_of w x"
      "host_of w2 h = host_of w h \<or> host_of w2 h = (host_of w h)\<lparr>h_is_being_freshened := False\<rparr>"
    and w3: "snd (host_result_code h r (take_host_result ev h r w2)) = w3"
    and n: "host_state_of_int (fst (host_result_code h r w)) = Some n"
    and run: "process_host_check_result_3x ev (result_args w) h n (h_plugin_output (host_of w h)) resched w3 = Some w4"
    and w': "w' = emit (Broker_host_check Check_processed h) w4"
    by (rule handle_async_host_runs [OF assms(1,2)]) (rule that; assumption)
  have n: "n = new" using n assms(4) by simp
  let ?wb = "upd_host h (begin_result (cr_check_type r)) w"
  obtain c where c: "host_result_code h r (take_host_result ev h r w2) = (c, w3)"
    using w3 by (metis prod.collapse)
  note code = host_result_code_effect [OF c]
  have inp: "machine_input h w3 = machine_input h ?wb"
    unfolding code(4) take_host_result_effect(4)
    using w2(4) by (auto simp: machine_input_def upd_host_def begin_result_def Let_def)
  have oth: "host_of w3 x = host_of ?wb x" if "x \<noteq> h" for x
    using that by (simp add: code take_host_result_effect w2 upd_host_def)
  have cf: "cfg w3 = cfg ?wb" by (simp add: code take_host_result_effect w2 upd_host_def)
  have hd: "hostdependencies w3 = hostdependencies w" by (simp add: code take_host_result_effect w2)
  have "Some h \<notin> set (h_parent_hosts (host_of ?wb h))"
    using assms(3) by (simp add: alone_def upd_host_def begin_result_def)
  then have cong: "process_machine h s w3 = process_machine h s ?wb"
    "asks_parents ev args h s w3 = asks_parents ev args h s ?wb" for s args
    using process_machine_cong [OF inp cf oth] by blast+
  note i = inp [unfolded machine_input_def Let_def prod.inject]
  have ch: "h_child_hosts (host_of w3 h) = h_child_hosts (host_of w h)"
    using w2(4) by (auto simp: code take_host_result_effect)
  have "alone h w3"
    using assms(3) i ch host_masters_cong [OF hd] by (simp add: alone_def upd_host_def begin_result_def)
  note eff = process_effect [OF run this, unfolded n cong, OF assms(5)]
  show "machine_state (host_of w' h) = host_machine (cr_check_type r) h new w"
    using eff(1) by (simp add: w' host_machine_def emit_def)
  show "h_max_attempts (host_of w' h) = h_max_attempts (host_of w h)"
    using eff(2) i by (simp add: w' emit_def upd_host_def begin_result_def)
  show "h_is_executing (host_of w' h) = (cr_check_type r = CHECK_PASSIVE \<and> h_is_executing (host_of w h))"
    using eff(4) code(6) w2(4) by (auto simp: w' emit_def take_host_result_effect)
  show "alone h w'"
    using assms(3) eff(5,6) i ch host_masters_cong [of w' w] hd eff(8)
    by (simp add: w' emit_def alone_def upd_host_def begin_result_def)
  show "cfg w' = cfg w" using eff(7) cf by (simp add: w' emit_def upd_host_def)
qed

end
