(* ===== verification/Service_Check.thy ===== *)
theory Service_Check
  imports Host_Check
begin

text \<open>
  Service checks: launching them and reaping results (\<^verbatim>\<open>src/checks/checker.cc\<close>),
  processing a result, freshness and lost checks (\<^verbatim>\<open>src/checks.cc\<close>). The result
  handler is split where the source has its stages: taking the result over, the changes of
  state, the branches for a service that is OK and for a problem, the final bookkeeping. A
  service without a host is \<open>None\<close>, as are calls that do not return.
\<close>

section \<open>Launching a check\<close>

definition start_service_check ::
    "env \<Rightarrow> svc_id \<Rightarrow> int \<Rightarrow> rat \<Rightarrow> bool \<Rightarrow> bool \<Rightarrow> engine \<Rightarrow> engine" where
  "start_service_check ev s check_options latency scheduled_check reschedule w =
     (let w1 = (if scheduled_check then upd_svc s (\<lambda>v. v\<lparr>s_check_options := CHECK_OPTION_NONE\<rparr>) w else w);
          start_time = (now ev, now_us ev);
          w2 = upd_svc s (\<lambda>v. v\<lparr>s_is_executing := True\<rparr>)
                 (w1\<lparr>currently_running_service_checks := currently_running_service_checks w1 + 1\<rparr>);
          info = \<lparr>cr_object_check_type = SERVICE_CHECK, cr_host_name = fst s, cr_service_description = Some (snd s),
                  cr_check_type = CHECK_ACTIVE, cr_check_options = check_options,
                  cr_scheduled_check = scheduled_check, cr_reschedule_check = reschedule,
                  cr_latency = latency, cr_start_time = start_time, cr_finish_time = start_time,
                  cr_early_timeout = False, cr_exited_ok = True, cr_return_code = 0, cr_output = None\<rparr>;
          w3 = emit (Broker_service_check Check_initiate s) w2
      in if neb_service_check ev Check_initiate s = NEB_OVERRIDE then w3
         else
           let w4 = emit (Check_stats (if scheduled_check then ACTIVE_SCHEDULED_SERVICE_CHECK_STATS
                                       else ACTIVE_ONDEMAND_SERVICE_CHECK_STATS) (now ev)) w3;
               w5 = emit (Run_service_check s) w4
           in case run_command ev (out w5) (ServiceTarget s) of
                Some i \<Rightarrow> if i \<noteq> 0 then w5\<lparr>list_id := (list_id w5)(i \<mapsto> info)\<rparr> else w5
              | None \<Rightarrow> w5\<lparr>to_reap := to_reap w5 @
                  [info\<lparr>cr_return_code := STATE_UNKNOWN_code, cr_output := Some ''(Execute command failed)''\<rparr>]\<rparr>)"

text \<open>With the two values passed back through pointers, as for hosts.\<close>

definition run_async_service_check ::
    "env \<Rightarrow> svc_id \<Rightarrow> int \<Rightarrow> rat \<Rightarrow> bool \<Rightarrow> bool \<Rightarrow> engine \<Rightarrow> ((result \<times> bool \<times> int) \<times> engine) option" where
  "run_async_service_check ev s check_options latency scheduled_check reschedule w =
     (if s_host_ptr (svc_of w s) = None then Some ((ERROR, True, 0), w)
      else if s_check_command_ptr (svc_of w s) = None then Some ((ERROR, True, 0), w)
      else do {
        (viable, time_is_valid, preferred_time) \<leftarrow> check_service_check_viability ev s check_options w;
        if viable = ERROR then Some ((ERROR, time_is_valid, preferred_time), w)
        else
          let w1 = emit (Broker_service_check Async_precheck s) w
          in Some (case neb_service_check ev Async_precheck s of
               NEB_CANCEL \<Rightarrow>
                 ((ERROR, time_is_valid, preferred_time +
                     trunc_to_time (s_check_interval (svc_of w1 s) * of_int (interval_length (cfg w1)))), w1)
             | NEB_OVERRIDE \<Rightarrow> ((OK, time_is_valid, preferred_time), w1)
             | NEB_CONTINUE \<Rightarrow>
                 ((OK, time_is_valid, preferred_time),
                  start_service_check ev s check_options latency scheduled_check reschedule w1))
      })"

definition run_scheduled_service_check ::
    "env \<Rightarrow> svc_id \<Rightarrow> int \<Rightarrow> rat \<Rightarrow> engine \<Rightarrow> (result \<times> engine) option" where
  "run_scheduled_service_check ev s check_options latency w = do {
     ((result, time_is_valid, preferred_time), w1) \<leftarrow>
       run_async_service_check ev s check_options latency True True w;
     if result \<noteq> ERROR then Some (OK, w1)
     else
       let svc = svc_of w1 s;
           tz = get_service_timezone w1 s;
           preferred =
             (if preferred_time \<le> now ev
              then now ev + (if s_check_interval svc \<le> 0 then 300
                             else trunc_to_time (s_check_interval svc * of_int (interval_length (cfg w1))))
              else preferred_time);
           next_valid_time = get_next_valid_time ev tz preferred (s_check_period_ptr svc);
           w2 = (if s_should_be_scheduled svc
                 then if \<not> time_is_valid \<and>
                         check_time_against_period ev tz next_valid_time (s_check_period_ptr svc) = ERROR
                      then upd_svc s (\<lambda>v. v\<lparr>s_next_check := next_valid_time + 60 * 60 * 24 * 7\<rparr>) w1
                      else upd_svc s (\<lambda>v. v\<lparr>s_next_check := next_valid_time, s_should_be_scheduled := True\<rparr>) w1
                 else w1)
       in do {
         w3 \<leftarrow> (if s_should_be_scheduled (svc_of w2 s)
               then schedule_service_check ev s (s_next_check (svc_of w2 s)) check_options w2 else Some w2);
         Some (ERROR, emit (Update_status (ServiceTarget s)) w3)
       }
   }"

section \<open>Taking a result over\<close>

definition svc_state_of_code :: "int \<Rightarrow> svc_state" where
  "svc_state_of_code i =
     (if i = 0 then STATE_OK else if i = 1 then STATE_WARNING else if i = 2 then STATE_CRITICAL else STATE_UNKNOWN)"

definition service_out_of_bounds_text :: "int \<Rightarrow> string" where
  "service_out_of_bounds_text code =
     ''(Return code of '' @ string_of_int code @ '' is out of bounds'' @
     (if code = 126 then '' - plugin may not be executable''
      else if code = 127 then '' - plugin may be missing'' else []) @ '')''"

definition record_service_time :: "service \<Rightarrow> service" where
  "record_service_time v =
     (case s_current_state v of
        STATE_OK \<Rightarrow> v\<lparr>s_last_time_ok := s_last_check v\<rparr>
      | STATE_WARNING \<Rightarrow> v\<lparr>s_last_time_warning := s_last_check v\<rparr>
      | STATE_UNKNOWN \<Rightarrow> v\<lparr>s_last_time_unknown := s_last_check v\<rparr>
      | STATE_CRITICAL \<Rightarrow> v\<lparr>s_last_time_critical := s_last_check v\<rparr>)"

text \<open>The output and the state a result brings.\<close>

definition service_result_state :: "check_result \<Rightarrow> service \<Rightarrow> service" where
  "service_result_state r v =
     (let v1 = v\<lparr>s_plugin_output := None, s_long_plugin_output := None, s_perf_data := None\<rparr>
      in if \<not> cr_exited_ok r
         then v1\<lparr>s_plugin_output := Some ''(Service check did not exit properly)'', s_current_state := STATE_UNKNOWN\<rparr>
         else if cr_return_code r < 0 \<or> cr_return_code r > 3
         then v1\<lparr>s_plugin_output := Some (service_out_of_bounds_text (cr_return_code r)), s_current_state := STATE_UNKNOWN\<rparr>
         else
           let (short, long, perf) = parse_check_output True True (cr_output r)
           in v1\<lparr>s_plugin_output := Some (case short of None \<Rightarrow> ''(No output returned from plugin)''
                                                | Some t \<Rightarrow> no_semicolons t),
                 s_long_plugin_output := long, s_perf_data := perf,
                 s_current_state := svc_state_of_code (cr_return_code r)\<rparr>)"

definition take_service_result :: "svc_id \<Rightarrow> check_result \<Rightarrow> engine \<Rightarrow> engine" where
  "take_service_result s r w =
     (let w1 = upd_svc s (\<lambda>v. v\<lparr>s_latency := cr_latency r, s_execution_time := execution_seconds r,
                 s_last_check := fst (cr_start_time r), s_check_type := cr_check_type r\<rparr>) w;
          w2 = (if cr_check_type r = CHECK_PASSIVE
                then emit (Check_stats PASSIVE_SERVICE_CHECK_STATS (fst (cr_start_time r))) w1 else w1)
      in upd_svc s (\<lambda>v. record_service_time
           (service_result_state r (v\<lparr>s_last_state := s_current_state v\<rparr>))) w2)"

section \<open>Changes of state\<close>

text \<open>The flag of the source that is always set.\<close>

definition state_changes_use_cached_state :: bool where "state_changes_use_cached_state = True"

record svc_locals =
  l_reschedule :: bool
  l_state_change :: bool
  l_hard_change :: bool
  l_first_check :: bool
  l_logged :: bool
  l_flap_done :: bool
  l_next :: int
  l_checks :: "svc_id list"

definition launch_host_check :: "env \<Rightarrow> host_id \<Rightarrow> engine \<Rightarrow> engine option" where
  "launch_host_check ev h w = map_option snd (run_async_host_check_3x ev h CHECK_OPTION_NONE 0 False False w)"

text \<open>A host that was never checked is checked when a service on it is OK.\<close>

definition wants_first_check :: "env \<Rightarrow> host_id \<Rightarrow> svc_id \<Rightarrow> engine \<Rightarrow> bool" where
  "wants_first_check ev h s w \<longleftrightarrow>
     s_current_state (svc_of w s) = STATE_OK \<and> \<not> h_has_been_checked (host_of w h) \<and>
     (h_initial_state (host_of w h) \<noteq> HOST_UP \<or> h_next_check (host_of w h) = 0 \<or>
      ulong_of (h_next_check (host_of w h) - now ev) > 300)"

definition first_host_check :: "env \<Rightarrow> host_id \<Rightarrow> svc_id \<Rightarrow> engine \<Rightarrow> engine option" where
  "first_host_check ev h s w =
     (if wants_first_check ev h s w
      then if use_aggressive_host_checking (cfg w)
           then map_option snd (perform_on_demand_host_check ev h CHECK_OPTION_NONE False 0 w)
           else launch_host_check ev h w
      else Some w)"

definition count_service_attempt :: "service \<Rightarrow> service" where
  "count_service_attempt v =
     (if s_state_type v = SOFT_STATE \<and> s_current_attempt v < s_max_attempts v
      then v\<lparr>s_current_attempt := s_current_attempt v + 1\<rparr> else v)"

definition service_hard_change :: "service \<Rightarrow> bool" where
  "service_hard_change v \<longleftrightarrow>
     s_host_problem_at_last_check v \<and> s_current_state v = STATE_OK \<or>
     s_current_attempt v \<ge> s_max_attempts v \<and> s_current_state v \<noteq> s_last_hard_state v"

definition reset_service_acknowledgement :: "svc_id \<Rightarrow> bool \<Rightarrow> bool \<Rightarrow> engine \<Rightarrow> engine" where
  "reset_service_acknowledgement s state_change hard_state_change w =
     (let v = svc_of w s in
      if s_acknowledgement_type v = ACKNOWLEDGEMENT_NORMAL \<and> (state_change \<or> \<not> hard_state_change) \<or>
         s_acknowledgement_type v = ACKNOWLEDGEMENT_STICKY \<and> s_current_state v = STATE_OK
      then snd (delete_service_acknowledgement_comments (Some s)
             (upd_svc s (\<lambda>v. v\<lparr>s_problem_has_been_acknowledged := False,
                               s_acknowledgement_type := ACKNOWLEDGEMENT_NONE\<rparr>) w))
      else w)"

definition record_service_change :: "bool \<Rightarrow> bool \<Rightarrow> service \<Rightarrow> service" where
  "record_service_change state_change hard_state_change v =
     (let v1 = (if s_last_state_change v = 0 \<or> state_change then v\<lparr>s_last_state_change := s_last_check v\<rparr> else v)
      in if s_last_hard_state_change v1 = 0 \<or> hard_state_change
         then v1\<lparr>s_last_hard_state_change := s_last_check v1\<rparr> else v1)"

definition init_host_change :: "int \<Rightarrow> host \<Rightarrow> host" where
  "init_host_change t v =
     (let v1 = (if h_last_state_change v = 0 then v\<lparr>h_last_state_change := t\<rparr> else v)
      in if h_last_hard_state_change v1 = 0 then v1\<lparr>h_last_hard_state_change := t\<rparr> else v1)"

definition assign_service_ids :: "svc_id \<Rightarrow> engine \<Rightarrow> engine" where
  "assign_service_ids s w =
     (let w1 = (upd_svc s (\<lambda>v. v\<lparr>s_last_event_id := s_current_event_id v,
                                  s_current_event_id := next_event_id w\<rparr>) w)
                 \<lparr>next_event_id := next_event_id w + 1\<rparr>;
          w2 = (if s_last_state (svc_of w1 s) = STATE_OK
                then (upd_svc s (\<lambda>v. v\<lparr>s_current_problem_id := next_problem_id w1\<rparr>) w1)
                       \<lparr>next_problem_id := next_problem_id w1 + 1\<rparr>
                else w1)
      in if s_current_state (svc_of w2 s) = STATE_OK
         then upd_svc s (\<lambda>v. v\<lparr>s_last_problem_id := s_current_problem_id v, s_current_problem_id := 0\<rparr>) w2
         else w2)"

text \<open>The attempt is counted and the changes found out and recorded.\<close>

definition service_changes :: "host_id \<Rightarrow> svc_id \<Rightarrow> bool \<Rightarrow> engine \<Rightarrow> svc_locals \<times> engine" where
  "service_changes h s reschedule w =
     (let w1 = upd_svc s count_service_attempt w;
          v = svc_of w1 s;
          state_change = (s_current_state v \<noteq> s_last_state v);
          hard_state_change = service_hard_change v;
          w2 = (if state_change \<or> hard_state_change
                then reset_service_acknowledgement s state_change hard_state_change
                       (upd_svc s (\<lambda>v. v\<lparr>s_last_notification := 0, s_next_notification := 0,
                                          s_no_more_notifications := False\<rparr>) w1)
                else w1);
          w3 = upd_svc s (record_service_change state_change hard_state_change) w2;
          w4 = upd_host h (init_host_change (s_last_check (svc_of w3 s))) w3;
          w5 = (if state_change then assign_service_ids s w4 else w4)
      in (\<lparr>l_reschedule = (reschedule \<or> state_change \<or> hard_state_change),
           l_state_change = state_change, l_hard_change = hard_state_change, l_first_check = False,
           l_logged = False, l_flap_done = False, l_next = 0, l_checks = []\<rparr>, w5))"

section \<open>A service that is OK\<close>

definition cached_host_state :: "env \<Rightarrow> host_id \<Rightarrow> svc_locals \<Rightarrow> engine \<Rightarrow> bool" where
  "cached_host_state ev h l w \<longleftrightarrow>
     (\<not> l_state_change l \<or> state_changes_use_cached_state) \<and> h_has_been_checked (host_of w h) \<and>
     ulong_of (now ev - h_last_check (host_of w h)) \<le> cached_host_check_horizon (cfg w)"

definition count_cached_host :: "env \<Rightarrow> engine \<Rightarrow> engine" where
  "count_cached_host ev w =
     emit (Check_stats ACTIVE_CACHED_HOST_CHECK_STATS (now ev))
       (emit (Check_stats ACTIVE_ONDEMAND_HOST_CHECK_STATS (now ev)) w)"

definition host_after_recovery :: "env \<Rightarrow> host_id \<Rightarrow> svc_locals \<Rightarrow> engine \<Rightarrow> engine option" where
  "host_after_recovery ev h l w =
     (if h_current_state (host_of w h) = HOST_UP then Some w
      else if use_aggressive_host_checking (cfg w)
      then map_option snd (perform_on_demand_host_check ev h CHECK_OPTION_NONE True (cached_host_check_horizon (cfg w)) w)
      else if l_first_check l then Some w
      else if cached_host_state ev h l w then Some (count_cached_host ev w)
      else launch_host_check ev h w)"

definition notify_service_state :: "env \<Rightarrow> svc_id \<Rightarrow> engine \<Rightarrow> engine option" where
  "notify_service_state ev s w =
     map_option snd (service_notification ev s NOTIFICATION_NORMAL None None NOTIFICATION_OPTION_NONE w)"

definition check_service_and_host_flapping :: "env \<Rightarrow> host_id \<Rightarrow> svc_id \<Rightarrow> engine \<Rightarrow> engine option" where
  "check_service_and_host_flapping ev h s w =
     Option.bind (check_for_service_flapping ev s True True w) (check_for_host_flapping ev h True False True)"

definition announce_recovery :: "env \<Rightarrow> host_id \<Rightarrow> svc_id \<Rightarrow> svc_locals \<Rightarrow> engine \<Rightarrow> (svc_locals \<times> engine) option" where
  "announce_recovery ev h s l w =
     (if l_hard_change l
      then
        let w1 = emit (Log_service_event s) (upd_svc s (\<lambda>v. v\<lparr>s_state_type := HARD_STATE\<rparr>) w);
            w2 = upd_svc_other s (\<lambda>p. p\<lparr>so_recovery_been_sent := False, so_initial_notif_time := 0\<rparr>) w1
        in do {
          w3 \<leftarrow> check_service_and_host_flapping ev h s w2;
          w4 \<leftarrow> notify_service_state ev s w3;
          Some (l\<lparr>l_logged := True, l_flap_done := True\<rparr>, emit (Handle_service_event s) w4)
        }
      else if l_state_change l
      then Some (l\<lparr>l_logged := True\<rparr>, emit (Handle_service_event s)
                  (emit (Log_service_event s) (upd_svc s (\<lambda>v. v\<lparr>s_state_type := SOFT_STATE\<rparr>) w)))
      else Some (l, w))"

definition settle_service :: "service \<Rightarrow> service" where
  "settle_service v =
     v\<lparr>s_host_problem_at_last_check := False, s_current_attempt := 1, s_state_type := HARD_STATE,
       s_last_hard_state := STATE_OK, s_last_notification := 0, s_next_notification := 0,
       s_problem_has_been_acknowledged := False, s_acknowledgement_type := ACKNOWLEDGEMENT_NONE,
       s_no_more_notifications := False\<rparr>"

definition forget_service_notifications :: "svc_id \<Rightarrow> engine \<Rightarrow> engine" where
  "forget_service_notifications s w =
     upd_svc_other s (\<lambda>p. p\<lparr>so_initial_notif_time := 0\<rparr>)
       (upd_svc s (\<lambda>v. v\<lparr>s_current_notification_number := 0, s_notified_on_unknown := False,
                         s_notified_on_warning := False, s_notified_on_critical := False\<rparr>) w)"

definition service_check_after :: "rat \<Rightarrow> svc_id \<Rightarrow> engine \<Rightarrow> int" where
  "service_check_after interval s w =
     trunc_to_time (of_int (s_last_check (svc_of w s)) + interval * of_int (interval_length (cfg w)))"

definition obsess :: "svc_id \<Rightarrow> engine \<Rightarrow> engine" where
  "obsess s w = (if obsess_over_services (cfg w) then emit (Obsessive_service_check s) w else w)"

definition service_ok :: "env \<Rightarrow> host_id \<Rightarrow> svc_id \<Rightarrow> svc_locals \<Rightarrow> engine \<Rightarrow> (svc_locals \<times> engine) option" where
  "service_ok ev h s l w =
     (let w1 = upd_svc s (\<lambda>v. v\<lparr>s_problem_has_been_acknowledged := False,
                              s_acknowledgement_type := ACKNOWLEDGEMENT_NONE\<rparr>) w
      in do {
        w2 \<leftarrow> host_after_recovery ev h l w1;
        (l1, w3) \<leftarrow> announce_recovery ev h s l w2;
        w4 \<leftarrow> (if \<not> so_recovery_been_sent (service_other_props w3 s) \<and> \<not> l_hard_change l1
              then notify_service_state ev s w3 else Some w3);
        let w5 = upd_svc s settle_service (obsess s w4);
        let w6 = (if so_recovery_been_sent (service_other_props w5 s) then forget_service_notifications s w5 else w5);
        Some (if l_reschedule l1 then l1\<lparr>l_next := service_check_after (s_check_interval (svc_of w6 s)) s w6\<rparr> else l1, w6)
      })"

section \<open>A service with a problem\<close>

text \<open>The state its host is taken to be in, with what finding it out does.\<close>

definition on_demand_host_state :: "env \<Rightarrow> host_id \<Rightarrow> engine \<Rightarrow> (host_state \<times> engine) option" where
  "on_demand_host_state ev h w =
     map_option (\<lambda>(code, w1). (case code of None \<Rightarrow> HOST_UP | Some c \<Rightarrow> c, w1))
       (perform_on_demand_host_check ev h CHECK_OPTION_NONE True (cached_host_check_horizon (cfg w)) w)"

definition host_of_problem :: "env \<Rightarrow> host_id \<Rightarrow> svc_id \<Rightarrow> svc_locals \<Rightarrow> engine \<Rightarrow> (host_state \<times> engine) option" where
  "host_of_problem ev h s l w =
     (let state = h_current_state (host_of w h)
      in if state = HOST_UP
         then if use_aggressive_host_checking (cfg w) then on_demand_host_state ev h w
              else if cached_host_state ev h l w then Some (state, count_cached_host ev w)
              else if l_state_change l then map_option (Pair state) (launch_host_check ev h w)
              else Some (state, count_cached_host ev w)
         else if use_aggressive_host_checking (cfg w) then on_demand_host_state ev h w
         else if (l_state_change l \<and> \<not> state_changes_use_cached_state) \<and> s_last_hard_state (svc_of w s) \<noteq> STATE_OK
         then map_option (Pair state) (launch_host_check ev h w)
         else
           let w1 = (if \<not> h_has_been_checked (host_of w h)
                     then upd_host h (\<lambda>v. v\<lparr>h_has_been_checked := True, h_last_check := s_last_check (svc_of w s)\<rparr>) w
                     else w)
           in map_option (Pair state) (notify_host_state ev h w1))"

definition note_host_problem :: "svc_id \<Rightarrow> svc_locals \<Rightarrow> engine \<Rightarrow> svc_locals \<times> engine" where
  "note_host_problem s l w =
     (let v = svc_of w s;
          hard = (l_hard_change l \<or> s_last_hard_state v \<noteq> s_current_state v);
          w1 = (if l_state_change l \<or> hard then upd_svc s (\<lambda>v. v\<lparr>s_last_state_change := s_last_check v\<rparr>) w else w);
          w2 = (if hard then upd_svc s (\<lambda>v. v\<lparr>s_last_hard_state_change := s_last_check v, s_state_type := HARD_STATE,
                                              s_last_hard_state := s_current_state v\<rparr>) w1 else w1)
      in (l\<lparr>l_hard_change := hard\<rparr>, upd_svc s (\<lambda>v. v\<lparr>s_host_problem_at_last_check := True\<rparr>) w2))"

definition host_came_back :: "svc_id \<Rightarrow> engine \<Rightarrow> engine" where
  "host_came_back s w =
     upd_svc s (\<lambda>v. (if s_state_type v = SOFT_STATE then v\<lparr>s_current_attempt := 1\<rparr> else v)
       \<lparr>s_host_problem_at_last_check := False\<rparr>) w"

definition service_masters :: "svc_id \<Rightarrow> engine \<Rightarrow> svc_id list" where
  "service_masters s w = List.map_filter sd_master_service_ptr (servicedependencies w s)"

definition queue_services :: "svc_id list \<Rightarrow> svc_id list \<Rightarrow> svc_id list" where
  "queue_services ss l = fold (\<lambda>s l. if s \<in> set l then l else s # l) ss l"

definition retry_service :: "svc_id \<Rightarrow> host_state \<Rightarrow> svc_locals \<Rightarrow> engine \<Rightarrow> svc_locals \<times> engine" where
  "retry_service s route_result l w =
     (let (l1, w1) =
            (if route_result \<noteq> HOST_UP
             then (let l0 = (if l_reschedule l
                             then l\<lparr>l_next := service_check_after (s_check_interval (svc_of w s)) s w\<rparr> else l)
                   in if l_hard_change l
                      then (l0\<lparr>l_logged := True\<rparr>, emit (Handle_service_event s) (emit (Log_service_event s) w))
                      else (l0, w))
             else (let w0 = emit (Handle_service_event s) (emit (Log_service_event s)
                              (upd_svc s (\<lambda>v. v\<lparr>s_state_type := SOFT_STATE\<rparr>) w))
                   in ((if l_reschedule l
                        then l\<lparr>l_next := service_check_after (s_retry_interval (svc_of w0 s)) s w0\<rparr> else l)
                       \<lparr>l_logged := True\<rparr>, w0)))
      in (if enable_predictive_service_dependency_checks (cfg w1) \<and>
             s_current_attempt (svc_of w1 s) = s_max_attempts (svc_of w1 s) - 1
          then l1\<lparr>l_checks := queue_services (service_masters s w1) (l_checks l1)\<rparr> else l1, w1))"

definition service_failed :: "env \<Rightarrow> host_id \<Rightarrow> svc_id \<Rightarrow> svc_locals \<Rightarrow> engine \<Rightarrow> (svc_locals \<times> engine) option" where
  "service_failed ev h s l w =
     (let w1 = upd_svc s (\<lambda>v. v\<lparr>s_state_type := HARD_STATE\<rparr>) w;
          logs = (l_hard_change l \<or> s_is_volatile (svc_of w1 s));
          w2 = (if logs then emit (Log_service_event s) w1 else w1)
      in do {
        w3 \<leftarrow> (if (l_hard_change l \<or> l_state_change l) \<and> s_pending_flex_downtime (svc_of w2 s) > 0
              then check_pending_flex_service_downtime ev s w2 else Some w2);
        w4 \<leftarrow> check_service_and_host_flapping ev h s w3;
        w5 \<leftarrow> notify_service_state ev s w4;
        let w6 = (if l_hard_change l \<or> s_is_volatile (svc_of w5 s) then emit (Handle_service_event s) w5 else w5);
        let w7 = upd_svc s (\<lambda>v. v\<lparr>s_last_hard_state := s_current_state v\<rparr>) w6;
        Some ((if l_reschedule l
               then l\<lparr>l_next := service_check_after (s_check_interval (svc_of w7 s)) s w7\<rparr> else l)
              \<lparr>l_logged := (l_logged l \<or> logs), l_flap_done := True\<rparr>, w7)
      })"

definition service_problem :: "env \<Rightarrow> host_id \<Rightarrow> svc_id \<Rightarrow> svc_locals \<Rightarrow> engine \<Rightarrow> (svc_locals \<times> engine) option" where
  "service_problem ev h s l w = do {
     (route_result, w1) \<leftarrow> host_of_problem ev h s l w;
     let (l2, w2) =
       (if route_result \<noteq> HOST_UP then note_host_problem s l w1
        else if s_host_problem_at_last_check (svc_of w1 s) then (l, host_came_back s w1) else (l, w1));
     (l3, w3) \<leftarrow> (if s_current_attempt (svc_of w2 s) < s_max_attempts (svc_of w2 s)
                  then Some (retry_service s route_result l2 w2) else service_failed ev h s l2 w2);
     Some (l3, obsess s w3)
   }"

section \<open>The end of a result\<close>

definition reschedule_service :: "env \<Rightarrow> svc_id \<Rightarrow> int \<Rightarrow> engine \<Rightarrow> engine option" where
  "reschedule_service ev s next_service_check w =
     (let preferred_time = max next_service_check (now ev);
          next_valid_time = get_next_valid_time ev (get_service_timezone w s) preferred_time
                              (s_check_period_ptr (svc_of w s));
          w1 = upd_svc s (\<lambda>v. v\<lparr>s_next_check := next_valid_time,
                 s_should_be_scheduled := s_check_interval v \<noteq> 0 \<and> s_checks_enabled v\<rparr>) w
      in if s_should_be_scheduled (svc_of w1 s)
         then schedule_service_check ev s (s_next_check (svc_of w1 s)) CHECK_OPTION_NONE w1 else Some w1)"

definition stalk_service :: "string option \<Rightarrow> svc_id \<Rightarrow> svc_locals \<Rightarrow> engine \<Rightarrow> engine" where
  "stalk_service old_plugin_output s l w =
     (let v = svc_of w s in
      if s_state_type v = HARD_STATE \<and> \<not> l_state_change l \<and> \<not> l_logged l \<and>
         old_plugin_output \<noteq> s_plugin_output v \<and>
         (case s_current_state v of STATE_OK \<Rightarrow> s_stalk_on_ok v | STATE_WARNING \<Rightarrow> s_stalk_on_warning v
          | STATE_UNKNOWN \<Rightarrow> s_stalk_on_unknown v | STATE_CRITICAL \<Rightarrow> s_stalk_on_critical v)
      then emit (Log_service_event s) w else w)"

definition mark_service_checked :: "svc_id \<Rightarrow> svc_locals \<Rightarrow> engine \<Rightarrow> engine" where
  "mark_service_checked s l w =
     (let v = svc_of w s in
      if \<not> (l_reschedule l \<and> s_should_be_scheduled v \<and> s_has_been_checked v) \<or> \<not> s_checks_enabled v
      then emit (Update_status (ServiceTarget s)) (upd_svc s (\<lambda>v. v\<lparr>s_has_been_checked := True\<rparr>) w)
      else w)"

definition async_master_check :: "env \<Rightarrow> svc_id \<Rightarrow> engine \<Rightarrow> engine option" where
  "async_master_check ev m w =
     (let cached = (ulong_of (now ev - s_last_check (svc_of w m)) \<le> cached_service_check_horizon (cfg w));
          w1 = (if cached then emit (Check_stats ACTIVE_CACHED_SERVICE_CHECK_STATS (now ev)) w else w)
      in if cached \<or> s_is_executing (svc_of w1 m) then Some w1
         else map_option snd (run_async_service_check ev m CHECK_OPTION_NONE 0 False False w1))"

definition finish_service_result ::
    "env \<Rightarrow> host_id \<Rightarrow> svc_id \<Rightarrow> string option \<Rightarrow> svc_locals \<Rightarrow> engine \<Rightarrow> engine option" where
  "finish_service_result ev h s old_plugin_output l w = do {
     w1 \<leftarrow> (if l_reschedule l then reschedule_service ev s (l_next l) w else Some w);
     let w2 = mark_service_checked s l (emit (Broker_service_check Check_processed s)
                (stalk_service old_plugin_output s l w1));
     w3 \<leftarrow> (if l_flap_done l then Some w2 else check_service_and_host_flapping ev h s w2);
     for_each (async_master_check ev) (l_checks l) (emit (Update_performance_data s) w3)
   }"

section \<open>Freshness and lost checks\<close>

definition service_threshold :: "svc_id \<Rightarrow> engine \<Rightarrow> int" where
  "service_threshold s w =
     (let svc = svc_of w s in
      if s_freshness_threshold svc = 0
      then trunc_to_time
        ((if s_state_type svc = HARD_STATE \<or> s_current_state svc = STATE_OK
          then s_check_interval svc else s_retry_interval svc) * of_int (interval_length (cfg w)) +
         s_latency svc + of_int (additional_freshness_latency (cfg w)))
      else s_freshness_threshold svc)"

definition service_expiration_time :: "svc_id \<Rightarrow> engine \<Rightarrow> int" where
  "service_expiration_time s w =
     (let svc = svc_of w s; freshness_threshold = service_threshold s w in
      if \<not> s_has_been_checked svc then event_start w + freshness_threshold
      else if s_checks_enabled svc \<and> event_start w > s_last_check svc \<and> s_freshness_threshold svc = 0
      then event_start w + freshness_threshold +
           (max_service_check_spread (cfg w) * interval_length (cfg w)) mod 2 ^ 32
      else s_last_check svc + freshness_threshold)"

definition is_service_result_fresh :: "svc_id \<Rightarrow> int \<Rightarrow> engine \<Rightarrow> bool" where
  "is_service_result_fresh s current_time w \<longleftrightarrow> \<not> service_expiration_time s w < current_time"

definition freshen_service :: "env \<Rightarrow> svc_id \<Rightarrow> engine \<Rightarrow> engine option" where
  "freshen_service ev s w =
     (let svc = svc_of w s in
      if \<not> s_check_freshness svc then Some w
      else if s_is_executing svc then Some w
      else if \<not> s_checks_enabled svc \<and> \<not> s_accept_passive_service_checks svc then Some w
      else if s_is_being_freshened svc then Some w
      else if check_time_against_period ev (get_service_timezone w s) (now ev) (s_check_period_ptr svc) = ERROR
      then Some w
      else if s_check_interval svc = 0 \<and> s_freshness_threshold svc = 0 then Some w
      else if \<not> is_service_result_fresh s (now ev) w
      then schedule_service_check ev s (now ev) (CHECK_OPTION_FORCE_EXECUTION OR CHECK_OPTION_FRESHNESS_CHECK)
             (upd_svc s (\<lambda>v. v\<lparr>s_is_being_freshened := True\<rparr>) w)
      else Some w)"

definition check_service_result_freshness :: "env \<Rightarrow> engine \<Rightarrow> engine option" where
  "check_service_result_freshness ev w =
     (if \<not> check_service_freshness (cfg w) then Some w
      else for_each (freshen_service ev) (service_list w) w)"

definition service_expected_time :: "svc_id \<Rightarrow> engine \<Rightarrow> int" where
  "service_expected_time s w =
     trunc_to_time (of_int (s_next_check (svc_of w s)) + s_latency (svc_of w s) +
       of_int (service_check_timeout (cfg w)) + of_int (check_reaper_interval (cfg w)) + 600)"

definition rescue_service :: "env \<Rightarrow> svc_id \<Rightarrow> engine \<Rightarrow> engine option" where
  "rescue_service ev s w =
     (if \<not> s_is_executing (svc_of w s) then Some w
      else if service_expected_time s w < now ev
      then
        let w1 = (if currently_running_service_checks w > 0
                  then w\<lparr>currently_running_service_checks := currently_running_service_checks w - 1\<rparr> else w);
            w2 = upd_svc s (\<lambda>v. v\<lparr>s_is_executing := False\<rparr>) w1
        in schedule_service_check ev s (now ev) CHECK_OPTION_ORPHAN_CHECK w2
      else Some w)"

definition check_for_orphaned_services :: "env \<Rightarrow> engine \<Rightarrow> engine option" where
  "check_for_orphaned_services ev w = for_each (rescue_service ev) (service_list w) w"

section \<open>The handler\<close>

definition process_service_result ::
    "env \<Rightarrow> host_id \<Rightarrow> svc_id \<Rightarrow> string option \<Rightarrow> bool \<Rightarrow> engine \<Rightarrow> engine option" where
  "process_service_result ev h s old_plugin_output reschedule w =
     (let first = wants_first_check ev h s w in do {
        w1 \<leftarrow> first_host_check ev h s w;
        let (l, w2) = service_changes h s reschedule w1;
        (l1, w3) \<leftarrow> (if s_current_state (svc_of w2 s) = STATE_OK
                     then service_ok ev h s (l\<lparr>l_first_check := first\<rparr>) w2
                     else service_problem ev h s (l\<lparr>l_first_check := first\<rparr>) w2);
        finish_service_result ev h s old_plugin_output l1 w3
      })"

definition handle_async_service_check_result ::
    "env \<Rightarrow> svc_id \<Rightarrow> check_result \<Rightarrow> engine \<Rightarrow> (result \<times> engine) option" where
  "handle_async_service_check_result ev s r w =
     (let w1 = (if cr_check_type r = CHECK_ACTIVE \<and> currently_running_service_checks w > 0
                then w\<lparr>currently_running_service_checks := currently_running_service_checks w - 1\<rparr> else w)
      in if cr_check_type r = CHECK_PASSIVE \<and>
            (\<not> accept_passive_service_checks (cfg w1) \<or> \<not> s_accept_passive_service_checks (svc_of w1 s))
         then Some (ERROR, w1)
         else
           let w2 = upd_svc s (\<lambda>v. v\<lparr>s_is_being_freshened :=
                        (\<not> result_has CHECK_OPTION_FRESHNESS_CHECK r \<and> s_is_being_freshened v),
                      s_is_executing := (cr_check_type r \<noteq> CHECK_ACTIVE \<and> s_is_executing v)\<rparr>) w1
           in if result_has CHECK_OPTION_FRESHNESS_CHECK r \<and> is_service_result_fresh s (now ev) w2
              then Some (OK, w2)
              else case s_host_ptr (svc_of w2 s) of
                None \<Rightarrow> None
              | Some h \<Rightarrow> map_option (Pair OK)
                  (process_service_result ev h s (s_plugin_output (svc_of w2 s)) (cr_reschedule_check r)
                    (take_service_result s r w2)))"

section \<open>Reaping\<close>

text \<open>
  What the executor hands over when a command ends; the thread that does so only adds to
  \<open>to_reap_partial\<close>, whose order the source leaves open.
\<close>

datatype exit_status = Normal_exit | Crash_exit | Timeout_exit

record command_end =
  ce_command_id :: nat
  ce_end_time :: "int \<times> int"
  ce_exit_code :: int
  ce_exit_status :: exit_status
  ce_output :: string

definition partial_result :: "command_end \<Rightarrow> check_result" where
  "partial_result e = \<lparr>cr_object_check_type = SERVICE_CHECK, cr_host_name = [], cr_service_description = None,
     cr_check_type = CHECK_ACTIVE, cr_check_options = 0, cr_scheduled_check = False, cr_reschedule_check = False,
     cr_latency = 0, cr_start_time = (0, 0), cr_finish_time = ce_end_time e,
     cr_early_timeout = (ce_exit_status e = Timeout_exit),
     cr_exited_ok = (ce_exit_status e \<noteq> Crash_exit), cr_return_code = ce_exit_code e,
     cr_output = Some (ce_output e)\<rparr>"

definition finished :: "command_end \<Rightarrow> engine \<Rightarrow> engine" where
  "finished e w =
     w\<lparr>to_reap_partial := filter (\<lambda>p. fst p \<noteq> ce_command_id e) (to_reap_partial w) @
        [(ce_command_id e, partial_result e)]\<rparr>"

definition merge_result :: "check_result \<Rightarrow> check_result \<Rightarrow> check_result" where
  "merge_result base part =
     base\<lparr>cr_finish_time := cr_finish_time part, cr_early_timeout := cr_early_timeout part,
          cr_return_code := cr_return_code part, cr_exited_ok := cr_exited_ok part,
          cr_output := cr_output part\<rparr>"

fun merge_partials :: "(nat \<times> check_result) list \<Rightarrow> engine \<Rightarrow> engine" where
  "merge_partials [] w = w\<lparr>to_reap_partial := []\<rparr>"
| "merge_partials ((i, part) # ps) w =
     (case list_id w i of
        None \<Rightarrow> merge_partials ps w
      | Some base \<Rightarrow> merge_partials ps
          (w\<lparr>list_id := (list_id w)(i := None), to_reap := to_reap w @ [merge_result base part]\<rparr>))"

definition handle_check_result :: "env \<Rightarrow> check_result \<Rightarrow> engine \<Rightarrow> engine option" where
  "handle_check_result ev r w =
     (case cr_object_check_type r of
        SERVICE_CHECK \<Rightarrow>
          (case cr_service_description r of
             None \<Rightarrow> Some w
           | Some d \<Rightarrow>
               if (cr_host_name r, d) \<in> set (service_list w)
               then map_option snd (handle_async_service_check_result ev (cr_host_name r, d) r w)
               else Some w)
      | HOST_CHECK \<Rightarrow>
          if cr_host_name r \<in> set (host_list w)
          then map_option snd (handle_async_host_check_result_3x ev (cr_host_name r) r w)
          else Some w)"

text \<open>
  The \<open>i\<close>-th result is handled in the environment \<open>envs i\<close>; the reaper stops when its
  time is over or a shutdown signal came.
\<close>

partial_function (option) reap_results ::
    "int \<times> (nat \<Rightarrow> env) \<times> (nat \<Rightarrow> bool) \<Rightarrow> nat \<Rightarrow> engine \<Rightarrow> engine option" where
  "reap_results p i w =
     (case to_reap w of
        [] \<Rightarrow> Some w
      | r # rest \<Rightarrow>
          Option.bind (handle_check_result (fst (snd p) i) r (w\<lparr>to_reap := rest\<rparr>)) (\<lambda>w1.
            if now (fst (snd p) (Suc i)) - fst p > max_check_reaper_time (cfg w1) then Some w1
            else if snd (snd p) i then Some w1
            else reap_results p (Suc i) w1))"

declare reap_results.simps [code]

definition reap :: "(nat \<Rightarrow> env) \<Rightarrow> (nat \<Rightarrow> bool) \<Rightarrow> engine \<Rightarrow> engine option" where
  "reap envs sigshutdown w =
     reap_results (now (envs 0), envs, sigshutdown) 0 (merge_partials (to_reap_partial w) w)"

end
