(* ===== verification/Check_Frame.thy ===== *)
theory Check_Frame
  imports Host_Check_Facts Service_Check
begin

text \<open>
  Checks of hosts and services, seen through a relation between engines that their elementary
  steps keep. The locale \<open>host_frame\<close> extends \<open>effect_frame\<close> with what checks of hosts
  do, \<open>service_frame\<close> with what checks of services and the reaper do.
\<close>

lemma bind_SomeE:
  "Option.bind x f = Some y \<Longrightarrow> (\<And>z. x = Some z \<Longrightarrow> f z = Some y \<Longrightarrow> P) \<Longrightarrow> P"
  by (cases x) auto

section \<open>Host checks\<close>

locale host_frame = effect_frame R for R :: "engine \<Rightarrow> engine \<Rightarrow> bool" +
  assumes frame_any_host: "R w (upd_host h g w)"
    and frame_checks: "R w (w\<lparr>next_event_id := i, next_problem_id := j, currently_running_host_checks := n,
      list_id := ids, to_reap := rs\<rparr>)"
    and frame_host_check: "replace_check_event ev (hash_find Low Hash_host_check (HostPtr h) (evs w))
      (new_check_event EVENT_HOST_CHECK (HostPtr h) t opts) w = Some w' \<Longrightarrow> R w w'"
begin

lemma frame_fields: "R w (w\<lparr>next_event_id := i\<rparr>)" "R w (w\<lparr>next_problem_id := j\<rparr>)"
  "R w (w\<lparr>currently_running_host_checks := n\<rparr>)" "R w (w\<lparr>list_id := ids\<rparr>)" "R w (w\<lparr>to_reap := rs\<rparr>)"
  using frame_checks [where w = w and i = i and j = "next_problem_id w" and n = "currently_running_host_checks w" and ids = "list_id w" and rs = "to_reap w"]
    frame_checks [where w = w and i = "next_event_id w" and j = j and n = "currently_running_host_checks w" and ids = "list_id w" and rs = "to_reap w"]
    frame_checks [where w = w and i = "next_event_id w" and j = "next_problem_id w" and n = n and ids = "list_id w" and rs = "to_reap w"]
    frame_checks [where w = w and i = "next_event_id w" and j = "next_problem_id w" and n = "currently_running_host_checks w" and ids = ids and rs = "to_reap w"]
    frame_checks [where w = w and i = "next_event_id w" and j = "next_problem_id w" and n = "currently_running_host_checks w" and ids = "list_id w" and rs = rs]
  by simp_all

lemmas host_basic [simp] = frame_emit [THEN [2] frame_trans] frame_others [THEN [2] frame_trans]
  frame_any_host [THEN [2] frame_trans] frame_fields [THEN [2] frame_trans]

lemma keeps_if [simp]: "R w w1 \<Longrightarrow> R w w2 \<Longrightarrow> R w (if b then w1 else w2)"
  by simp

lemma keeps_for_each:
  assumes "for_each f xs w = Some w'" "\<And>x w w'. x \<in> set xs \<Longrightarrow> f x w = Some w' \<Longrightarrow> R w w'"
  shows "R w w'"
  using assms
proof (induction xs arbitrary: w)
  case (Cons x xs)
  then obtain w1 where "f x w = Some w1" "for_each f xs w1 = Some w'" by (auto split: bind_splits)
  with Cons.IH [of w1] Cons.prems(2) show ?case
    by (meson list.set_intros frame_trans)
qed simp

lemma keeps_schedule_host:
  assumes "schedule_host_check ev h t opts w = Some w'"
  shows "R w w'"
proof -
  define w1 where "w1 = upd_host h (\<lambda>v. v\<lparr>h_check_options := opts\<rparr>) w"
  have w1: "R w w1" unfolding w1_def by (rule frame_any_host)
  define w2 where "w2 = upd_host h (\<lambda>v. v\<lparr>h_next_check := t\<rparr>) w1"
  have w2: "R w w2" unfolding w2_def using w1 by simp
  have "evs w2 = evs w" by (simp add: w2_def w1_def)
  then have new: "R w u" if "replace_check_event ev (hash_find Low Hash_host_check (HostPtr h) (evs w))
      (new_check_event EVENT_HOST_CHECK (HostPtr h) t opts) w2 = Some u" for u
    using frame_host_check [of ev h w2 t opts u] that w2 frame_trans by simp
  show ?thesis
    using assms w1 new unfolding schedule_host_check_def Let_def w1_def [symmetric] w2_def [symmetric]
    by (auto split: if_splits option.splits)
qed

lemma keeps_start_host [simp]: "R w w1 \<Longrightarrow> R w (start_host_check ev h opts lat sched resched w1)"
  by (simp add: start_host_check_def adjust_host_check_attempt_3x_def Let_def split: option.split)

lemma keeps_run_async_host:
  assumes "run_async_host_check_3x ev h opts lat sched resched w = Some (r, w')"
  shows "R w w'"
  using assms
proof (cases rule: run_async_cases)
  case (2 w1)
  have "R w w1" by (simp add: 2(1))
  with 2(2) show ?thesis by auto
qed simp

lemma keeps_async_host:
  assumes "async_host_check ev args h w = Some w'"
  shows "R w w'"
  using assms by (auto simp: async_host_check_def split: if_splits dest: keeps_run_async_host)

lemma keeps_notify_host: "notify_host_state ev h w = Some w' \<Longrightarrow> R w w'"
  unfolding notify_host_state_def by (rule keeps_host_notification(1))

lemma keeps_reset_host_acknowledgement [simp]:
  "R w w1 \<Longrightarrow> R w (reset_host_acknowledgement h w1)"
  unfolding reset_host_acknowledgement_def Let_def
  by (intro keeps_if keeps_delete_acknowledgements(1) [THEN [2] frame_trans]) simp_all

lemma keeps_host_changed:
  assumes "host_changed ev h w = Some w'"
  shows "R w w'"
proof -
  define w1 where "w1 = reset_host_acknowledgement h (assign_host_ids h (upd_host h (record_host_change (now ev)) w))"
  define w2 where "w2 = upd_host h (\<lambda>v. v\<lparr>h_last_host_notification := 0, h_next_host_notification := 0,
      h_no_more_notifications := False\<rparr>) w1"
  define w3 where "w3 = (if h_state_type (host_of w2 h) = HARD_STATE \<or> log_host_retries (cfg w2)
      then emit (Log_host_event h) w2 else w2)"
  obtain w4 w5 w6 where w4: "check_pending_flex_host_downtime ev h w3 = Some w4"
    and w5: "w5 = (if h_current_state (host_of w4 h) = HOST_UP
        then upd_host_other h (\<lambda>p. p\<lparr>ho_recovery_been_sent := False, ho_initial_notif_time := 0\<rparr>) w4 else w4)"
    and w6: "(if h_state_type (host_of w5 h) = HARD_STATE then notify_host_state ev h w5 else Some w5) = Some w6"
    and w': "R w6 w'"
    using assms unfolding host_changed_def Let_def w1_def [symmetric] w2_def [symmetric] w3_def [symmetric]
    by (auto simp: bind_eq_Some_conv)
  have "R w w3"
    by (simp add: w3_def w2_def w1_def assign_host_ids_def Let_def)
  then have "R w w4" by (rule frame_trans) (rule keeps_pending_flex(1) [OF w4])
  then have "R w w5" by (simp add: w5)
  moreover have "R w5 w6" using w6 by (auto split: if_splits dest: keeps_notify_host)
  ultimately show ?thesis using w' frame_trans by blast
qed

lemma keeps_host_unchanged:
  assumes "host_unchanged ev h w = Some w'"
  shows "R w w'"
proof -
  let ?old = "ho_recovery_been_sent (host_other_props w h)"
  obtain w1 where w1: "(if (h_current_state (host_of w h) \<noteq> HOST_UP \<or> \<not> ?old) \<and>
          h_state_type (host_of w h) = HARD_STATE then notify_host_state ev h w else Some w) = Some w1"
    and w': "R w1 w'"
    using assms unfolding host_unchanged_def Let_def by (auto simp: bind_eq_Some_conv)
  have "R w w1" using w1 by (auto split: if_splits dest: keeps_notify_host)
  with w' show ?thesis using frame_trans by blast
qed

lemma keeps_handle_host_state:
  assumes "handle_host_state ev h w = Some w'"
  shows "R w w'"
proof -
  let ?w1 = "upd_host h (record_host_time (now ev))
      (emit (Update_host_performance_data h) (emit (Obsessive_host_check h) w))"
  have "R ?w1 w'"
    using assms keeps_host_changed keeps_host_unchanged
    unfolding handle_host_state_def Let_def by (auto split: if_splits)
  moreover have "R w ?w1" by simp
  ultimately show ?thesis using frame_trans by blast
qed

lemma keeps_reschedule_host:
  assumes "reschedule_host ev h t w = Some w'"
  shows "R w w'"
  using assms unfolding reschedule_host_def Let_def
  by (auto split: if_splits dest!: keeps_schedule_host intro: frame_trans [OF frame_any_host] frame_any_host)

lemma keeps_finish_host_check:
  assumes "finish_host_check ev args h old fu w = Some w'"
  shows "R w w'"
proof -
  obtain w1 w2 w3 where w1: "handle_host_state ev h w = Some w1"
    and w2: "check_for_host_flapping ev h True True True (stalk_host old h w1) = Some w2"
    and w3: "(if reschedule_check fu then reschedule_host ev h (next_check fu) w2 else Some w2) = Some w3"
    and w': "for_each (async_host_check ev args) (check_hostlist fu) (emit (Update_status (HostTarget h)) w3) = Some w'"
    using assms(1) by (auto simp: finish_host_check_def bind_eq_Some_conv)
  have "R w (stalk_host old h w1)"
    using keeps_handle_host_state [OF w1] by (simp add: stalk_host_def Let_def)
  then have "R w w2" using keeps_check_host_flapping [OF w2] frame_trans by blast
  then have "R w w3" using w3 keeps_reschedule_host frame_trans by (auto split: if_splits)
  then have "R w (emit (Update_status (HostTarget h)) w3)" by simp
  moreover have "R (emit (Update_status (HostTarget h)) w3) w'"
    by (rule keeps_for_each [OF w']) (rule keeps_async_host)
  ultimately show ?thesis using frame_trans by blast
qed

lemma keeps_adjust_attempt [simp]: "R w w1 \<Longrightarrow> R w (adjust_host_check_attempt_3x h a w1)"
  by (simp add: adjust_host_check_attempt_3x_def)

lemma keeps_set_problem_state [simp]: "R w w1 \<Longrightarrow> R w (set_problem_state h new w1)"
  by (simp add: set_problem_state_def Let_def)

lemma keeps_host_cases [simp]:
  "R w w1 \<Longrightarrow> R w (snd (host_recovers ev h w1))"
  "R w w1 \<Longrightarrow> R w (snd (host_stays_down ev h new resched w1))"
  "R w w1 \<Longrightarrow> R w (snd (host_stays_up ev h resched w1))"
  "R w w1 \<Longrightarrow> R w (snd (host_fails_at_once ev h new up w1))"
  "R w w1 \<Longrightarrow> R w (snd (host_fails_softly ev h new w1))"
  by (simp_all add: host_recovers_def host_stays_down_def host_stays_up_def host_fails_at_once_def
      host_fails_softly_def Let_def)

lemma keeps_begin_sync: "R w (snd (begin_sync ev args h w))"
  by (simp add: begin_sync_def Let_def)

lemma keeps_execute_sync: "R w (snd (execute_sync ev h w))"
  by (simp add: execute_sync_def set_host_output_def Let_def)

lemma keeps_sync:
  "begin_sync ev args h w = (x, w') \<Longrightarrow> R w w'"
  "execute_sync ev h w = (y, w') \<Longrightarrow> R w w'"
  using keeps_begin_sync [of w ev args h] keeps_execute_sync [of w ev h] by simp_all

lemma keeps_run_host:
  assumes "run_host ea0 c0 w0 = Some r0"
  shows "R w0 (snd r0)"
proof (rule run_host.raw_induct [OF _ assms, of "\<lambda>ea c w r. R w (snd r)"], goal_cases)
  case (1 f ea c w r)
  note IH = 1(1)
  note run = 1(2)
  show ?case
  proof (cases c)
    case (Process_result h new old resched)
    define w1 where "w1 = (if h_check_type (host_of w h) = CHECK_PASSIVE \<and> passive_host_checks_are_soft (cfg w)
        then adjust_host_check_attempt_3x h False w else w)"
    have w1: "R w w1" by (simp add: w1_def)
    let ?w2 = "upd_host h (\<lambda>v. v\<lparr>h_state_type := HARD_STATE\<rparr>) w1"
    have p: "R w (snd x)" if "f ea (Check_parents ps st) ?w2 = Some x" for ps st x
      using frame_trans [OF _ IH [OF that]] w1 by simp
    from run obtain fw where c: "(if h_current_state (host_of w1 h) \<noteq> HOST_UP
          then Some (if new = HOST_UP then host_recovers (fst ea) h w1 else host_stays_down (fst ea) h new resched w1)
          else if new = HOST_UP then Some (host_stays_up (fst ea) h resched w1)
          else if h_max_attempts (host_of w1 h) = 1
          then if h_check_type (host_of w1 h) = CHECK_ACTIVE
            then Option.bind (f ea (Check_parents (h_parent_hosts (host_of w1 h)) HOST_UP) ?w2) (\<lambda>r.
              Some (host_fails_at_once (fst ea) h new (fst r = Some HOST_UP) (snd r)))
            else Some (host_fails_at_once (fst ea) h new False ?w2)
          else Some (host_fails_softly (fst ea) h new w1)) = Some fw"
      and fin: "map_option (Pair None) (finish_host_check (fst ea) (snd ea) h old (fst fw) (snd fw)) = Some r"
      unfolding Process_result host_call.case Let_def w1_def [symmetric] bind_eq_Some_conv [of _ _ r] by blast
    have fw: "R w (snd fw)"
      using c w1 p by (auto simp: bind_eq_Some_conv split: if_splits)
    from fin obtain u where u: "finish_host_check (fst ea) (snd ea) h old (fst fw) (snd fw) = Some u" "r = (None, u)"
      by auto
    from frame_trans [OF fw keeps_finish_host_check [OF u(1)]] u(2) show ?thesis by simp
  next
    case (Run_sync h)
    from run show ?thesis
      unfolding Run_sync host_call.case Let_def
      by (auto simp: bind_eq_Some_conv split: if_splits prod.splits sum.splits
          dest!: IH keeps_sync intro: frame_trans)
  next
    case (Check_parents ps st)
    from run show ?thesis
      unfolding Check_parents host_call.case Let_def
      by (auto simp: bind_eq_Some_conv split: if_splits option.splits list.splits
          dest!: IH intro: frame_trans)
  qed
qed

lemma keeps_on_demand:
  "perform_on_demand_host_check ev h opts cached horizon w = Some r \<Longrightarrow> R w (snd r)"
  unfolding perform_on_demand_host_check_def by (rule keeps_run_host)

lemma keeps_launch_host: "launch_host_check ev h w = Some w' \<Longrightarrow> R w w'"
  unfolding launch_host_check_def by (auto dest: keeps_run_async_host)

lemma keeps_run_scheduled_host:
  assumes "run_scheduled_host_check_3x ev h opts lat w = Some (r, w')"
  shows "R w w'"
proof -
  obtain result time_is_valid preferred w1 where
    w1: "run_async_host_check_3x ev h opts lat True True w = Some ((result, time_is_valid, preferred), w1)"
    using assms by (auto simp: run_scheduled_host_check_3x_def bind_eq_Some_conv)
  note k1 = keeps_run_async_host [OF w1]
  show ?thesis
  proof (cases "result = ERROR")
    case False
    with assms w1 k1 show ?thesis by (simp add: run_scheduled_host_check_3x_def)
  next
    case True
    define pt where "pt = (if preferred \<le> now ev
        then now ev + (if h_check_interval (host_of w1 h) \<le> 0 then 300
          else trunc_to_time (h_check_interval (host_of w1 h) * of_int (interval_length (cfg w1))))
        else preferred)"
    define nv where "nv = get_next_valid_time ev (get_host_timezone w1 h) pt (h_check_period_ptr (host_of w1 h))"
    define w2 where "w2 = emit (Update_status (HostTarget h)) (if h_should_be_scheduled (host_of w1 h)
      then if \<not> time_is_valid \<and> nv = pt then upd_host h (\<lambda>v. v\<lparr>h_next_check := nv + 60 * 60 * 24 * 7\<rparr>) w1
           else upd_host h (\<lambda>v. v\<lparr>h_next_check := nv, h_should_be_scheduled := True\<rparr>) w1
      else w1)"
    have "R w1 w2" by (simp add: w2_def)
    moreover have "(if h_should_be_scheduled (host_of w2 h)
        then schedule_host_check ev h (h_next_check (host_of w2 h)) opts w2 else Some w2) = Some w'"
      using assms True unfolding run_scheduled_host_check_3x_def Let_def w1 bind.bind_lunit prod.case
        pt_def [symmetric] nv_def [symmetric] w2_def [symmetric] by simp
    ultimately obtain w3 where "R w1 w3" "(if h_should_be_scheduled (host_of w3 h)
        then schedule_host_check ev h (h_next_check (host_of w3 h)) opts w3 else Some w3) = Some w'" by blast
    with k1 show ?thesis
      by (auto split: if_splits dest!: keeps_schedule_host intro: frame_trans)
  qed
qed

lemma keeps_freshen_host: "freshen_host ev h w = Some w' \<Longrightarrow> R w w'"
  unfolding freshen_host_def Let_def
  by (auto split: if_splits dest!: keeps_schedule_host intro: frame_trans [OF frame_any_host])

lemma keeps_host_freshness: "check_host_result_freshness ev w = Some w' \<Longrightarrow> R w w'"
  unfolding check_host_result_freshness_def
  by (auto split: if_splits intro: keeps_for_each keeps_freshen_host)

lemma keeps_rescue_host:
  assumes "rescue_host ev h w = Some w'"
  shows "R w w'"
proof -
  define w2 where "w2 = upd_host h (\<lambda>v. v\<lparr>h_is_executing := False\<rparr>) (if currently_running_host_checks w > 0
      then w\<lparr>currently_running_host_checks := currently_running_host_checks w - 1\<rparr> else w)"
  have "R w w2" by (simp add: w2_def)
  moreover have "w' = w \<or> schedule_host_check ev h (now ev) CHECK_OPTION_ORPHAN_CHECK w2 = Some w'"
    using assms unfolding rescue_host_def Let_def w2_def [symmetric] by (auto split: if_split_asm)
  ultimately show ?thesis using keeps_schedule_host frame_trans frame_refl by blast
qed

lemma keeps_orphaned_hosts: "check_for_orphaned_hosts ev w = Some w' \<Longrightarrow> R w w'"
  unfolding check_for_orphaned_hosts_def by (auto intro: keeps_for_each keeps_rescue_host)

lemma keeps_take_host_result: "R w w1 \<Longrightarrow> R w (take_host_result ev h r w1)"
  by (simp add: take_host_result_def set_host_output_def Let_def)

lemma keeps_host_result_code: "R w w1 \<Longrightarrow> R w (snd (host_result_code h r w1))"
  by (simp add: host_result_code_def Let_def)

lemma keeps_handle_async_host:
  assumes "handle_async_host_check_result_3x ev h r w = Some (res, w')"
  shows "R w w'"
proof -
  define w1 where "w1 = (if cr_check_type r = CHECK_ACTIVE \<and> currently_running_host_checks w > 0
      then w\<lparr>currently_running_host_checks := currently_running_host_checks w - 1\<rparr> else w)"
  define w2 where "w2 = (if result_has CHECK_OPTION_FRESHNESS_CHECK r
      then upd_host h (\<lambda>v. v\<lparr>h_is_being_freshened := False\<rparr>) w1 else w1)"
  define w3 where "w3 = snd (host_result_code h r (take_host_result ev h r w2))"
  have k: "R w w1" "R w w2" by (simp_all add: w1_def w2_def)
  have k3: "R w w3" unfolding w3_def by (intro keeps_host_result_code keeps_take_host_result k(2))
  consider "w' = w1" | "w' = w2" | new args resched old w4 where
    "process_host_check_result_3x ev args h new old resched w3 = Some w4"
    "w' = emit (Broker_host_check Check_processed h) w4"
    using assms unfolding handle_async_host_check_result_3x_def Let_def w1_def [symmetric] w2_def [symmetric]
    by (auto simp: bind_eq_Some_conv w3_def case_prod_beta split: if_splits)
  then show ?thesis
  proof cases
    case 3
    then obtain x where "run_host (ev, args) (Process_result h new old resched) w3 = Some x" "snd x = w4"
      by (auto simp: process_host_check_result_3x_def)
    with keeps_run_host frame_trans [OF k3] have "R w w4" by blast
    then show ?thesis by (simp add: 3(2))
  qed (use k in simp_all)
qed

end

section \<open>Service checks\<close>

locale service_frame = host_frame R for R :: "engine \<Rightarrow> engine \<Rightarrow> bool" +
  assumes frame_any_svc: "R w (upd_svc s f w)"
    and frame_service_checks: "R w (w\<lparr>currently_running_service_checks := n, to_reap_partial := ps\<rparr>)"
    and frame_service_check: "replace_check_event ev (hash_find Low Hash_service_check (ServicePtr s) (evs w))
      (new_check_event EVENT_SERVICE_CHECK (ServicePtr s) t opts) w = Some w' \<Longrightarrow> R w w'"
begin

lemma frame_service_fields: "R w (w\<lparr>currently_running_service_checks := n\<rparr>)" "R w (w\<lparr>to_reap_partial := ps\<rparr>)"
  using frame_service_checks [where w = w and n = n and ps = "to_reap_partial w"]
    frame_service_checks [where w = w and n = "currently_running_service_checks w" and ps = ps] by simp_all

lemmas service_basic [simp] = frame_any_svc [THEN [2] frame_trans] frame_service_fields [THEN [2] frame_trans]

lemma keeps_schedule_service:
  assumes "schedule_service_check ev s t opts w = Some w'"
  shows "R w w'"
proof -
  define w1 where "w1 = upd_svc s (\<lambda>v. v\<lparr>s_check_options := opts\<rparr>) w"
  have w1: "R w w1" unfolding w1_def by (rule frame_any_svc)
  define w2 where "w2 = upd_svc s (\<lambda>v. v\<lparr>s_next_check := t\<rparr>) w1"
  have w2: "R w w2" unfolding w2_def using w1 by simp
  have "evs w2 = evs w" by (simp add: w2_def w1_def)
  then have new: "R w u" if "replace_check_event ev (hash_find Low Hash_service_check (ServicePtr s) (evs w))
      (new_check_event EVENT_SERVICE_CHECK (ServicePtr s) t opts) w2 = Some u" for u
    using frame_service_check [of ev s w2 t opts u] that w2 frame_trans by simp
  show ?thesis
    using assms w1 new unfolding schedule_service_check_def Let_def w1_def [symmetric] w2_def [symmetric]
    by (auto split: if_splits option.splits)
qed

lemma keeps_start_service [simp]: "R w w1 \<Longrightarrow> R w (start_service_check ev s opts lat sched resched w1)"
  by (simp add: start_service_check_def Let_def split: option.split)

lemma keeps_run_async_service:
  assumes "run_async_service_check ev s opts lat sched resched w = Some (r, w')"
  shows "R w w'"
  using assms by (auto simp: run_async_service_check_def Let_def bind_eq_Some_conv
      split: if_splits prod.splits neb_result.splits)

lemma keeps_run_scheduled_service:
  assumes "run_scheduled_service_check ev s opts lat w = Some (r, w')"
  shows "R w w'"
proof -
  obtain result time_is_valid preferred w1 where
    w1: "run_async_service_check ev s opts lat True True w = Some ((result, time_is_valid, preferred), w1)"
    using assms by (auto simp: run_scheduled_service_check_def bind_eq_Some_conv)
  note k1 = keeps_run_async_service [OF w1]
  show ?thesis
  proof (cases "result = ERROR")
    case False
    with assms w1 k1 show ?thesis by (simp add: run_scheduled_service_check_def)
  next
    case True
    define pt where "pt = (if preferred \<le> now ev
        then now ev + (if s_check_interval (svc_of w1 s) \<le> 0 then 300
          else trunc_to_time (s_check_interval (svc_of w1 s) * of_int (interval_length (cfg w1))))
        else preferred)"
    define nv where "nv = get_next_valid_time ev (get_service_timezone w1 s) pt (s_check_period_ptr (svc_of w1 s))"
    define w2 where "w2 = (if s_should_be_scheduled (svc_of w1 s)
      then if \<not> time_is_valid \<and>
              check_time_against_period ev (get_service_timezone w1 s) nv (s_check_period_ptr (svc_of w1 s)) = ERROR
           then upd_svc s (\<lambda>v. v\<lparr>s_next_check := nv + 60 * 60 * 24 * 7\<rparr>) w1
           else upd_svc s (\<lambda>v. v\<lparr>s_next_check := nv, s_should_be_scheduled := True\<rparr>) w1
      else w1)"
    have "R w1 w2" by (simp add: w2_def)
    moreover obtain w3 where "(if s_should_be_scheduled (svc_of w2 s)
        then schedule_service_check ev s (s_next_check (svc_of w2 s)) opts w2 else Some w2) = Some w3"
      "w' = emit (Update_status (ServiceTarget s)) w3"
      using assms True unfolding run_scheduled_service_check_def Let_def w1 bind.bind_lunit prod.case
        pt_def [symmetric] nv_def [symmetric] w2_def [symmetric] by (auto simp: bind_eq_Some_conv)
    moreover note k1
    ultimately show ?thesis
      by (auto split: if_splits dest!: keeps_schedule_service intro: frame_trans)
  qed
qed

lemma keeps_notify_service: "notify_service_state ev s w = Some w' \<Longrightarrow> R w w'"
  unfolding notify_service_state_def by (rule keeps_host_notification(2))

lemma keeps_flapping:
  assumes "check_service_and_host_flapping ev h s w = Some w'"
  shows "R w w'"
  using assms unfolding check_service_and_host_flapping_def
  by (elim bind_SomeE) (rule frame_trans [OF keeps_check_service_flapping keeps_check_host_flapping])

lemma keeps_first_host_check: "first_host_check ev h s w = Some w' \<Longrightarrow> R w w'"
  unfolding first_host_check_def by (auto split: if_splits dest: keeps_on_demand keeps_launch_host)

lemma keeps_take_service_result: "R w w1 \<Longrightarrow> R w (take_service_result s r w1)"
  by (simp add: take_service_result_def Let_def)

lemma keeps_reset_service_acknowledgement [simp]:
  "R w w1 \<Longrightarrow> R w (reset_service_acknowledgement s a b w1)"
  unfolding reset_service_acknowledgement_def Let_def
  by (intro keeps_if keeps_delete_acknowledgements(2) [THEN [2] frame_trans]) simp_all

lemma keeps_service_changes: "service_changes h s resched w = (l, w') \<Longrightarrow> R w w'"
  unfolding service_changes_def Let_def
  by (auto simp: assign_service_ids_def Let_def split: if_splits)

lemma keeps_announce_recovery:
  assumes "announce_recovery ev h s l w = Some (l', w')"
  shows "R w w'"
proof (cases "l_hard_change l")
  case True
  let ?w2 = "upd_svc_other s (\<lambda>p. p\<lparr>so_recovery_been_sent := False, so_initial_notif_time := 0\<rparr>)
      (emit (Log_service_event s) (upd_svc s (\<lambda>v. v\<lparr>s_state_type := HARD_STATE\<rparr>) w))"
  from assms True obtain w3 w4 where w: "check_service_and_host_flapping ev h s ?w2 = Some w3"
    "notify_service_state ev s w3 = Some w4" "w' = emit (Handle_service_event s) w4"
    by (auto simp: announce_recovery_def bind_eq_Some_conv)
  have "R w ?w2" by simp
  then have "R w w4"
    using keeps_flapping [OF w(1)] keeps_notify_service [OF w(2)] frame_trans by blast
  then show ?thesis by (simp add: w(3))
next
  case False
  with assms show ?thesis by (auto simp: announce_recovery_def split: if_splits)
qed

lemma keeps_host_after_recovery: "host_after_recovery ev h l w = Some w' \<Longrightarrow> R w w'"
  unfolding host_after_recovery_def count_cached_host_def
  by (auto split: if_splits dest: keeps_on_demand keeps_launch_host)

lemma keeps_obsess [simp]: "R w w1 \<Longrightarrow> R w (obsess s w1)"
  by (simp add: obsess_def)

lemma keeps_service_ok:
  assumes "service_ok ev h s l w = Some (l', w')"
  shows "R w w'"
proof -
  let ?w1 = "upd_svc s (\<lambda>v. v\<lparr>s_problem_has_been_acknowledged := False,
      s_acknowledgement_type := ACKNOWLEDGEMENT_NONE\<rparr>) w"
  define settled where "settled = (\<lambda>w4. let w5 = upd_svc s settle_service (obsess s w4) in
      if so_recovery_been_sent (service_other_props w5 s) then forget_service_notifications s w5 else w5)"
  define next_after where "next_after = (\<lambda>w6. service_check_after (s_check_interval (svc_of w6 s)) s w6)"
  obtain w2 l1 w3 w4 where w2: "host_after_recovery ev h l ?w1 = Some w2"
    and w3: "announce_recovery ev h s l w2 = Some (l1, w3)"
    and w4: "(if \<not> so_recovery_been_sent (service_other_props w3 s) \<and> \<not> l_hard_change l1
        then notify_service_state ev s w3 else Some w3) = Some w4"
    and fin: "settled w4 = w'"
    using assms unfolding service_ok_def Let_def settled_def [unfolded Let_def, THEN fun_cong, symmetric]
      next_after_def [THEN fun_cong, symmetric]
    by (auto simp: bind_eq_Some_conv)
  have "R w ?w1" by simp
  then have "R w w3" using keeps_host_after_recovery [OF w2] keeps_announce_recovery [OF w3] frame_trans by blast
  moreover have "R w3 w4" using w4 keeps_notify_service by (auto split: if_splits)
  ultimately have "R w w4" by (rule frame_trans)
  then show ?thesis
    unfolding fin [symmetric] settled_def by (simp add: Let_def forget_service_notifications_def)
qed

lemma keeps_host_of_problem:
  assumes "host_of_problem ev h s l w = Some (route, w')"
  shows "R w w'"
proof -
  have od: "on_demand_host_state ev h w = Some (r, u) \<Longrightarrow> R w u" for r u
    unfolding on_demand_host_state_def by (auto dest: keeps_on_demand)
  have n: "notify_host_state ev h w = Some u \<Longrightarrow> R w u"
    "notify_host_state ev h (upd_host h f w) = Some u \<Longrightarrow> R w u" for f u
    using keeps_notify_host frame_trans [OF frame_any_host keeps_notify_host] by blast+
  show ?thesis
    using assms unfolding host_of_problem_def Let_def count_cached_host_def
    by (auto split: if_splits dest: od keeps_launch_host n)
qed

lemma keeps_service_failed:
  assumes "service_failed ev h s l w = Some (l', w')"
  shows "R w w'"
proof -
  let ?w1 = "upd_svc s (\<lambda>v. v\<lparr>s_state_type := HARD_STATE\<rparr>) w"
  define w2 where "w2 = (if l_hard_change l \<or> s_is_volatile (svc_of ?w1 s) then emit (Log_service_event s) ?w1 else ?w1)"
  obtain w3 w4 w5 where w3: "(if (l_hard_change l \<or> l_state_change l) \<and> s_pending_flex_downtime (svc_of w2 s) > 0
        then check_pending_flex_service_downtime ev s w2 else Some w2) = Some w3"
    and w4: "check_service_and_host_flapping ev h s w3 = Some w4"
    and w5: "notify_service_state ev s w4 = Some w5"
    and w': "w' = upd_svc s (\<lambda>v. v\<lparr>s_last_hard_state := s_current_state v\<rparr>)
        (if l_hard_change l \<or> s_is_volatile (svc_of w5 s) then emit (Handle_service_event s) w5 else w5)"
    using assms unfolding service_failed_def Let_def w2_def [symmetric]
    by (auto simp: bind_eq_Some_conv)
  have "R w w2" by (simp add: w2_def)
  moreover have "R w2 w3"
    using w3 keeps_pending_flex(2) by (auto split: if_splits)
  ultimately have "R w w5"
    using keeps_flapping [OF w4] keeps_notify_service [OF w5] frame_trans by blast
  then show ?thesis by (simp add: w')
qed

lemma keeps_note_problem [simp]:
  "R w w1 \<Longrightarrow> R w (snd (note_host_problem s l w1))" "R w w1 \<Longrightarrow> R w (host_came_back s w1)"
  "R w w1 \<Longrightarrow> R w (snd (retry_service s route l w1))"
  by (simp_all add: note_host_problem_def host_came_back_def retry_service_def Let_def case_prod_beta)

lemma keeps_service_problem:
  assumes "service_problem ev h s l w = Some (l', w')"
  shows "R w w'"
proof -
  obtain route w1 where w1: "host_of_problem ev h s l w = Some (route, w1)"
    using assms(1) by (auto simp: service_problem_def bind_eq_Some_conv)
  define p where "p = (if route \<noteq> HOST_UP then note_host_problem s l w1
      else if s_host_problem_at_last_check (svc_of w1 s) then (l, host_came_back s w1) else (l, w1))"
  obtain q where q: "(if s_current_attempt (svc_of (snd p) s) < s_max_attempts (svc_of (snd p) s)
        then Some (retry_service s route (fst p) (snd p)) else service_failed ev h s (fst p) (snd p)) = Some q"
    and w': "w' = obsess s (snd q)"
    using assms(1) unfolding service_problem_def w1 p_def
    by (auto simp: bind_eq_Some_conv case_prod_beta Let_def split: if_splits)
  have "R w (snd p)" using keeps_host_of_problem [OF w1] by (simp add: p_def)
  moreover have "R (snd p) (snd q)"
    using q keeps_service_failed [of ev h s "fst p" "snd p" "fst q" "snd q"] by (auto split: if_splits)
  ultimately have "R w (snd q)" by (rule frame_trans)
  then show ?thesis by (simp add: w')
qed

lemma keeps_reschedule_service: "reschedule_service ev s t w = Some w' \<Longrightarrow> R w w'"
  unfolding reschedule_service_def Let_def
  by (auto split: if_splits dest!: keeps_schedule_service intro: frame_trans [OF frame_any_svc] frame_any_svc)

lemma keeps_async_master: "async_master_check ev m w = Some w' \<Longrightarrow> R w w'"
  unfolding async_master_check_def Let_def
  by (auto split: if_splits dest!: keeps_run_async_service intro: frame_trans [OF frame_emit])

lemma keeps_finish_service_result:
  assumes "finish_service_result ev h s old l w = Some w'"
  shows "R w w'"
proof -
  obtain w1 w3 where w1: "(if l_reschedule l then reschedule_service ev s (l_next l) w else Some w) = Some w1"
    and w3: "(if l_flap_done l then Some (mark_service_checked s l (emit (Broker_service_check Check_processed s)
                (stalk_service old s l w1)))
       else check_service_and_host_flapping ev h s (mark_service_checked s l
                (emit (Broker_service_check Check_processed s) (stalk_service old s l w1)))) = Some w3"
    and w': "for_each (async_master_check ev) (l_checks l) (emit (Update_performance_data s) w3) = Some w'"
    using assms(1) unfolding finish_service_result_def Let_def by (auto simp: bind_eq_Some_conv)
  have "R w w1" using w1 keeps_reschedule_service by (auto split: if_splits)
  then have "R w (mark_service_checked s l (emit (Broker_service_check Check_processed s)
                (stalk_service old s l w1)))"
    by (simp add: mark_service_checked_def stalk_service_def Let_def)
  then have "R w w3" using w3 keeps_flapping frame_trans by (cases "l_flap_done l") auto
  then have "R w (emit (Update_performance_data s) w3)" by simp
  moreover have "R (emit (Update_performance_data s) w3) w'"
    by (rule keeps_for_each [OF w']) (rule keeps_async_master)
  ultimately show ?thesis by (rule frame_trans)
qed

lemma keeps_process_service_result:
  assumes "process_service_result ev h s old resched w = Some w'"
  shows "R w w'"
proof -
  obtain w1 where w1: "first_host_check ev h s w = Some w1"
    using assms(1) by (auto simp: process_service_result_def bind_eq_Some_conv Let_def)
  obtain l w2 where w2: "service_changes h s resched w1 = (l, w2)" by (meson surj_pair)
  let ?l = "l\<lparr>l_first_check := wants_first_check ev h s w\<rparr>"
  obtain l1 w3 where w3: "(if s_current_state (svc_of w2 s) = STATE_OK then service_ok ev h s ?l w2
      else service_problem ev h s ?l w2) = Some (l1, w3)"
    and fin: "finish_service_result ev h s old l1 w3 = Some w'"
    using assms(1) unfolding process_service_result_def Let_def w1 bind.bind_lunit w2 prod.case
    by (auto simp: bind_eq_Some_conv w2)
  have "R w2 w3" using w3 keeps_service_ok keeps_service_problem by (auto split: if_splits)
  then show ?thesis
    using keeps_first_host_check [OF w1] keeps_service_changes [OF w2] keeps_finish_service_result [OF fin]
      frame_trans by blast
qed

lemma keeps_handle_async_service:
  assumes "handle_async_service_check_result ev s r w = Some (res, w')"
  shows "R w w'"
proof -
  define w1 where "w1 = (if cr_check_type r = CHECK_ACTIVE \<and> currently_running_service_checks w > 0
      then w\<lparr>currently_running_service_checks := currently_running_service_checks w - 1\<rparr> else w)"
  define w2 where "w2 = upd_svc s (\<lambda>v. v\<lparr>s_is_being_freshened :=
      (\<not> result_has CHECK_OPTION_FRESHNESS_CHECK r \<and> s_is_being_freshened v),
      s_is_executing := (cr_check_type r \<noteq> CHECK_ACTIVE \<and> s_is_executing v)\<rparr>) w1"
  have k: "R w w1" "R w w2" by (simp_all add: w1_def w2_def)
  consider "w' = w1" | "w' = w2" | h old resched where
    "process_service_result ev h s old resched (take_service_result s r w2) = Some w'"
    using assms unfolding handle_async_service_check_result_def Let_def w1_def [symmetric] w2_def [symmetric]
    by (auto split: if_splits option.splits)
  then show ?thesis
  proof cases
    case 3
    from keeps_process_service_result [OF this] show ?thesis
      by (rule frame_trans [OF keeps_take_service_result [OF k(2)]])
  qed (use k in simp_all)
qed

lemma keeps_freshen_service: "freshen_service ev s w = Some w' \<Longrightarrow> R w w'"
  unfolding freshen_service_def Let_def
  by (auto split: if_splits dest!: keeps_schedule_service intro: frame_trans [OF frame_any_svc])

lemma keeps_service_freshness: "check_service_result_freshness ev w = Some w' \<Longrightarrow> R w w'"
  unfolding check_service_result_freshness_def
  by (auto split: if_splits intro: keeps_for_each keeps_freshen_service)

lemma keeps_rescue_service:
  assumes "rescue_service ev s w = Some w'"
  shows "R w w'"
proof -
  define w2 where "w2 = upd_svc s (\<lambda>v. v\<lparr>s_is_executing := False\<rparr>) (if currently_running_service_checks w > 0
      then w\<lparr>currently_running_service_checks := currently_running_service_checks w - 1\<rparr> else w)"
  have "R w w2" by (simp add: w2_def)
  moreover have "w' = w \<or> schedule_service_check ev s (now ev) CHECK_OPTION_ORPHAN_CHECK w2 = Some w'"
    using assms unfolding rescue_service_def Let_def w2_def [symmetric] by (auto split: if_split_asm)
  ultimately show ?thesis using keeps_schedule_service frame_trans frame_refl by blast
qed

lemma keeps_orphaned_services: "check_for_orphaned_services ev w = Some w' \<Longrightarrow> R w w'"
  unfolding check_for_orphaned_services_def by (auto intro: keeps_for_each keeps_rescue_service)

section \<open>Reaping\<close>

lemma keeps_merge_partials: "R w w1 \<Longrightarrow> R w (merge_partials ps w1)"
proof (induction ps arbitrary: w1)
  case (Cons p ps)
  then show ?case by (cases p) (simp split: option.split)
qed simp

lemma keeps_handle_check_result: "handle_check_result ev r w = Some w' \<Longrightarrow> R w w'"
  unfolding handle_check_result_def
  by (auto split: object_check_type.splits option.splits if_splits
      dest: keeps_handle_async_service keeps_handle_async_host)

lemma keeps_reap_results:
  assumes "reap_results p0 i0 w0 = Some r0"
  shows "R w0 r0"
proof (rule reap_results.raw_induct [OF _ assms, of "\<lambda>p i w r. R w r"], goal_cases)
  case (1 f p i w r)
  note IH = 1(1)
  note run = 1(2)
  show ?case
  proof (cases "to_reap w")
    case Nil
    with run show ?thesis by simp
  next
    case (Cons c rest)
    with run obtain w1 where w1: "handle_check_result (fst (snd p) i) c (w\<lparr>to_reap := rest\<rparr>) = Some w1"
      and r: "r = w1 \<or> f p (Suc i) w1 = Some r"
      by (auto simp: bind_eq_Some_conv split: if_splits)
    have "R w w1" by (rule frame_trans [OF frame_fields(5) keeps_handle_check_result [OF w1]])
    with r IH frame_trans show ?thesis by blast
  qed
qed

lemma keeps_reap: "reap envs signals w = Some w' \<Longrightarrow> R w w'"
  unfolding reap_def
  by (drule keeps_reap_results) (rule frame_trans [OF keeps_merge_partials]; simp)

end

end
