(* ===== verification/Service_Check_Facts.thy ===== *)
theory Service_Check_Facts
  imports Check_Frame
begin

text \<open>
  What the stages of a service check result do to the service and what they keep: the checks
  of hosts leave the check state of every service alone (\<open>service_kept\<close>), and each stage is
  summed up by its effect on the machine state of the service.
\<close>

section \<open>What is kept of a service\<close>

definition svc_view ::
    "service \<Rightarrow> svc_state \<times> svc_state \<times> state_type \<times> int \<times> svc_state \<times> bool \<times> int \<times> bool \<times> host_id option" where
  "svc_view v = (s_current_state v, s_last_state v, s_state_type v, s_current_attempt v, s_last_hard_state v,
     s_host_problem_at_last_check v, s_max_attempts v, s_is_executing v, s_host_ptr v)"

definition service_kept :: "svc_id \<Rightarrow> engine \<Rightarrow> engine \<Rightarrow> bool" where
  "service_kept s w w' \<longleftrightarrow> svc_view (svc_of w' s) = svc_view (svc_of w s) \<and> cfg w' = cfg w \<and>
     servicedependencies w' = servicedependencies w"

lemma service_kept_refl [simp]: "service_kept s w w"
  by (simp add: service_kept_def)

lemma service_kept_trans [trans]: "service_kept s w w1 \<Longrightarrow> service_kept s w1 w2 \<Longrightarrow> service_kept s w w2"
  by (simp add: service_kept_def)

lemma service_kept_side:
  assumes "side_frame w w'"
  shows "service_kept s w w'"
  using side_frameD [OF assms] svc_side_reads [OF side_frameD(2) [OF assms]]
  by (simp add: service_kept_def svc_view_def)

lemma service_kept_after_side: "service_kept s w w1 \<Longrightarrow> side_frame w1 w2 \<Longrightarrow> service_kept s w w2"
  by (rule service_kept_trans [OF _ service_kept_side])

text \<open>Updates that do not touch it, also under a conditional.\<close>

lemma service_kept_basic [simp]:
  "service_kept s w (emit a w1) = service_kept s w w1"
  "service_kept s w (upd_host h f w1) = service_kept s w w1"
  "service_kept s w (upd_host_other h g w1) = service_kept s w w1"
  "service_kept s w (upd_svc_other x g' w1) = service_kept s w w1"
  "service_kept s w (w1\<lparr>evs := ev, next_addr := n\<rparr>) = service_kept s w w1"
  "service_kept s w (w1\<lparr>currently_running_host_checks := i\<rparr>) = service_kept s w w1"
  "service_kept s w (w1\<lparr>currently_running_service_checks := i\<rparr>) = service_kept s w w1"
  "service_kept s w (w1\<lparr>list_id := l\<rparr>) = service_kept s w w1"
  "service_kept s w (w1\<lparr>to_reap := rs\<rparr>) = service_kept s w w1"
  "service_kept s w (w1\<lparr>next_event_id := k\<rparr>) = service_kept s w w1"
  "service_kept s w (w1\<lparr>next_problem_id := k\<rparr>) = service_kept s w w1"
  by (simp_all add: service_kept_def access_defs)

lemma service_kept_other [simp]: "m \<noteq> s \<Longrightarrow> service_kept s w (upd_svc m f w1) = service_kept s w w1"
  by (simp add: service_kept_def upd_svc_def)

lemma service_kept_upd: "(\<And>v. svc_view (f v) = svc_view v) \<Longrightarrow>
    service_kept s w (upd_svc x f w1) = service_kept s w w1"
  by (simp add: service_kept_def upd_svc_def)

lemma service_kept_if [simp]:
  "service_kept s w (if b then w1 else w2) = (if b then service_kept s w w1 else service_kept s w w2)"
  by simp

lemma upd_svc_others [simp]:
  "host_of (upd_svc x f w) = host_of w" "next_event_id (upd_svc x f w) = next_event_id w"
  "next_problem_id (upd_svc x f w) = next_problem_id w"
  by (simp_all add: upd_svc_def)

section \<open>Checks keep services\<close>

text \<open>Host checks keep every service.\<close>

interpretation kept: host_frame "service_kept s" for s
proof
  show "notif_frame w w' \<Longrightarrow> service_kept s w w'" for w w'
    by (intro service_kept_side side.frame_notif)
  show "(\<And>v. svc_side (f v) = svc_side v) \<Longrightarrow> service_kept s w (upd_svc x f w)" for f x w
    by (intro service_kept_side side.frame_svc)
  show "schedule_new_event ty hp t rec interval tf cmp data args opts w = Some w' \<Longrightarrow>
      hash_type_of ty = None \<Longrightarrow> service_kept s w w'" for ty hp t rec interval tf cmp data args opts w w'
    by (intro service_kept_side side.frame_event)
  show "replace_check_event ev (hash_find Low Hash_host_check (HostPtr h) (evs w))
      (new_check_event EVENT_HOST_CHECK (HostPtr h) t opts) w = Some w' \<Longrightarrow> service_kept s w w'" for ev h t opts w w'
    by (auto dest!: replace_check_event_objects)
qed (auto intro: service_kept_trans, simp_all add: service_kept_def)

text \<open>Service checks keep other services.\<close>

lemma schedule_service_kept:
  assumes "schedule_service_check ev x t opts w = Some w'"
  shows "service_kept s w w'"
  using assms by (auto simp: schedule_service_check_def Let_def service_kept_upd svc_view_def
      split: if_splits option.splits dest!: replace_check_event_objects)

lemma start_service_check_kept: "m \<noteq> s \<Longrightarrow>
    service_kept s w (start_service_check ev m opts lat sched resched w1) = service_kept s w w1"
  by (simp add: start_service_check_def Let_def split: option.split)

lemma run_async_service_kept:
  assumes "m \<noteq> s" "run_async_service_check ev m opts lat sched resched w = Some (r, w')"
  shows "service_kept s w w'"
  using assms by (auto simp: run_async_service_check_def Let_def bind_eq_Some_conv start_service_check_kept
      split: if_splits prod.splits neb_result.splits)

lemma async_master_check_kept:
  assumes "m \<noteq> s" "async_master_check ev m w = Some w'"
  shows "service_kept s w w'"
  using assms by (auto simp: async_master_check_def Let_def split: if_splits
      dest: run_async_service_kept [where s = s])

lemma flapping_kept:
  assumes "check_service_and_host_flapping ev h x w = Some w'"
  shows "service_kept s w w'"
  using assms unfolding check_service_and_host_flapping_def bind_eq_Some_conv
  by (metis service_kept_after_side service_kept_side side_frame_check_service_flapping side_frame_check_host_flapping)

lemma notify_service_kept: "notify_service_state ev x w = Some w' \<Longrightarrow> service_kept s w w'"
  unfolding notify_service_state_def by (intro service_kept_side side_frame_host_notification(2))

section \<open>Stages of a result\<close>

definition result_state :: "check_result \<Rightarrow> svc_state" where
  "result_state r = (if cr_exited_ok r \<and> 0 \<le> cr_return_code r \<and> cr_return_code r \<le> 3
     then svc_state_of_code (cr_return_code r) else STATE_UNKNOWN)"

lemma take_service_result_effect:
  "svc_view (svc_of (take_service_result s r w) s) =
     svc_view ((svc_of w s)\<lparr>s_last_state := s_current_state (svc_of w s), s_current_state := result_state r\<rparr>)"
  "host_of (take_service_result s r w) = host_of w" "cfg (take_service_result s r w) = cfg w"
  "servicedependencies (take_service_result s r w) = servicedependencies w"
  by (auto simp: take_service_result_def access_defs record_service_time_def service_result_state_def
      result_state_def svc_view_def Let_def split: svc_state.split prod.split)

lemma first_host_check_kept: "first_host_check ev h x w = Some w' \<Longrightarrow> service_kept s w w'"
  unfolding first_host_check_def
  by (auto split: if_splits dest: kept.keeps_on_demand [where s = s] kept.keeps_launch_host)

lemma first_host_check_problem:
  "s_current_state (svc_of w s) \<noteq> STATE_OK \<Longrightarrow> first_host_check ev h s w = Some w"
  by (simp add: first_host_check_def wants_first_check_def)

lemma reset_service_acknowledgement_effect:
  "service_kept x w (reset_service_acknowledgement s a b w)"
  "h_current_state (host_of (reset_service_acknowledgement s a b w) g) = h_current_state (host_of w g)"
proof -
  let ?w1 = "upd_svc s (\<lambda>v. v\<lparr>s_problem_has_been_acknowledged := False,
      s_acknowledgement_type := ACKNOWLEDGEMENT_NONE\<rparr>) w"
  let ?w2 = "snd (delete_service_acknowledgement_comments (Some s) ?w1)"
  have f: "side_frame ?w1 ?w2" by (rule side_frame_delete_acknowledgements)
  have "service_kept x w ?w2"
    using service_kept_after_side [OF _ f] by (simp add: service_kept_upd svc_view_def)
  moreover have "h_current_state (host_of ?w2 g) = h_current_state (host_of w g)"
    using host_side_reads(1) [OF side_frameD(1) [OF f]] by simp
  ultimately show "service_kept x w (reset_service_acknowledgement s a b w)"
    "h_current_state (host_of (reset_service_acknowledgement s a b w) g) = h_current_state (host_of w g)"
    by (simp_all add: reset_service_acknowledgement_def Let_def)
qed

lemma assign_service_ids_effect:
  "service_kept x w (assign_service_ids s w)" "host_of (assign_service_ids s w) = host_of w"
  by (simp_all add: assign_service_ids_def Let_def service_kept_upd svc_view_def)

lemma service_changes_effect:
  assumes "service_changes h s resched w = (l, w')"
  defines "v \<equiv> count_service_attempt (svc_of w s)"
  shows "l_state_change l = (s_current_state v \<noteq> s_last_state v)" "l_hard_change l = service_hard_change v"
    "l_checks l = []" "l_logged l = False" "svc_view (svc_of w' s) = svc_view v" "cfg w' = cfg w"
    "servicedependencies w' = servicedependencies w"
    "h_current_state (host_of w' g) = h_current_state (host_of w g)"
proof -
  define w1 where "w1 = upd_svc s count_service_attempt w"
  have v: "svc_of w1 s = v" by (simp add: w1_def v_def upd_svc_def)
  define sc where "sc = (s_current_state v \<noteq> s_last_state v)"
  define hc where "hc = service_hard_change v"
  define u2 where "u2 = upd_svc s (\<lambda>v. v\<lparr>s_last_notification := 0, s_next_notification := 0,
      s_no_more_notifications := False\<rparr>) w1"
  define w2 where "w2 = (if sc \<or> hc then reset_service_acknowledgement s sc hc u2 else w1)"
  define w3 where "w3 = upd_svc s (record_service_change sc hc) w2"
  define w4 where "w4 = upd_host h (init_host_change (s_last_check (svc_of w3 s))) w3"
  have l: "l = \<lparr>l_reschedule = (resched \<or> sc \<or> hc), l_state_change = sc, l_hard_change = hc,
      l_first_check = False, l_logged = False, l_flap_done = False, l_next = 0, l_checks = []\<rparr>"
    and w': "w' = (if sc then assign_service_ids s w4 else w4)"
    using assms(1) unfolding service_changes_def Let_def w1_def [symmetric] v sc_def [symmetric]
      hc_def [symmetric] u2_def [symmetric] w2_def [symmetric] w3_def [symmetric] w4_def [symmetric] by auto
  have u2: "service_kept s w1 u2" "host_of u2 = host_of w1"
    by (simp_all add: u2_def service_kept_upd svc_view_def)
  have w2: "service_kept s w1 w2" "h_current_state (host_of w2 g) = h_current_state (host_of w1 g)"
    using service_kept_trans [OF u2(1) reset_service_acknowledgement_effect(1)] reset_service_acknowledgement_effect(2)
    by (simp_all add: w2_def u2(2))
  have w4: "service_kept s w1 w4"
    using w2(1) by (simp add: w4_def w3_def service_kept_upd record_service_change_def svc_view_def Let_def)
  have "h_current_state (host_of w4 g) = h_current_state (host_of w2 g)"
    by (simp add: w4_def w3_def upd_host_def upd_svc_def init_host_change_def Let_def)
  moreover have "service_kept s w1 w'" "host_of w' = host_of w4"
    using service_kept_trans [OF w4 assign_service_ids_effect(1)] w4 assign_service_ids_effect(2) by (simp_all add: w')
  ultimately show "svc_view (svc_of w' s) = svc_view v" "cfg w' = cfg w"
    "servicedependencies w' = servicedependencies w"
    "h_current_state (host_of w' g) = h_current_state (host_of w g)"
    using w2(2) by (simp_all add: service_kept_def v) (simp_all add: w1_def upd_svc_def)
  show "l_state_change l = (s_current_state v \<noteq> s_last_state v)" "l_hard_change l = service_hard_change v"
    "l_checks l = []" "l_logged l = False"
    by (simp_all add: l sc_def hc_def)
qed

section \<open>The branch of a service that is OK\<close>

lemma host_after_recovery_kept: "host_after_recovery ev h l w = Some w' \<Longrightarrow> service_kept s w w'"
  unfolding host_after_recovery_def count_cached_host_def
  by (auto split: if_splits dest: kept.keeps_on_demand [where s = s] kept.keeps_launch_host)

definition typed :: "svc_id \<Rightarrow> state_type \<Rightarrow> engine \<Rightarrow> engine" where
  "typed s t = upd_svc s (\<lambda>v. v\<lparr>s_state_type := t\<rparr>)"

lemma typed_same: "typed s (s_state_type (svc_of w s)) w = w"
  by (simp add: typed_def upd_svc_def)

lemma announce_recovery_effect:
  assumes "announce_recovery ev h s l w = Some (l', w')"
  shows "l_checks l' = l_checks l" "\<exists>t. service_kept s (typed s t w) w'"
proof -
  have "l_checks l' = l_checks l \<and> (\<exists>t. service_kept s (typed s t w) w')"
  proof (cases "l_hard_change l")
    case True
    let ?w2 = "upd_svc_other s (\<lambda>p. p\<lparr>so_recovery_been_sent := False, so_initial_notif_time := 0\<rparr>)
        (emit (Log_service_event s) (typed s HARD_STATE w))"
    from assms True obtain w3 w4 where w: "check_service_and_host_flapping ev h s ?w2 = Some w3"
      "notify_service_state ev s w3 = Some w4" "w' = emit (Handle_service_event s) w4" "l_checks l' = l_checks l"
      by (auto simp: announce_recovery_def typed_def bind_eq_Some_conv)
    have "service_kept s (typed s HARD_STATE w) ?w2" by simp
    also note flapping_kept [OF w(1)]
    also note notify_service_kept [OF w(2)]
    finally show ?thesis using w(3,4) by auto
  next
    case False
    have "service_kept s (typed s (s_state_type (svc_of w s)) w) w" by (simp add: typed_same)
    with assms False show ?thesis
      by (auto simp: announce_recovery_def typed_def split: if_splits)
         (metis service_kept_refl service_kept_basic(1))+
  qed
  then show "l_checks l' = l_checks l" "\<exists>t. service_kept s (typed s t w) w'" by blast+
qed

lemma service_ok_effect:
  assumes "service_ok ev h s l w = Some (l', w')"
  shows "l_checks l' = l_checks l" "svc_view (svc_of w' s) = svc_view (settle_service (svc_of w s))"
    "cfg w' = cfg w" "servicedependencies w' = servicedependencies w"
proof -
  let ?w1 = "upd_svc s (\<lambda>v. v\<lparr>s_problem_has_been_acknowledged := False,
      s_acknowledgement_type := ACKNOWLEDGEMENT_NONE\<rparr>) w"
  define settled where "settled = (\<lambda>w4. let w5 = upd_svc s settle_service (obsess s w4) in
      if so_recovery_been_sent (service_other_props w5 s) then forget_service_notifications s w5 else w5)"
  define next_after where "next_after = (\<lambda>w6. service_check_after (s_check_interval (svc_of w6 s)) s w6)"
  obtain w2 l1 w3 w4 where w2: "host_after_recovery ev h l ?w1 = Some w2"
    and w3: "announce_recovery ev h s l w2 = Some (l1, w3)"
    and w4: "(if \<not> so_recovery_been_sent (service_other_props w3 s) \<and> \<not> l_hard_change l1
        then notify_service_state ev s w3 else Some w3) = Some w4"
    and fin: "(if l_reschedule l1 then l1\<lparr>l_next := next_after (settled w4)\<rparr> else l1) = l'" "settled w4 = w'"
    using assms unfolding service_ok_def Let_def settled_def [unfolded Let_def, THEN fun_cong, symmetric]
      next_after_def [THEN fun_cong, symmetric]
    by (auto simp: bind_eq_Some_conv)
  have fin: "l_checks l' = l_checks l1" "service_kept s (upd_svc s settle_service (obsess s w4)) w'"
    using fin by (auto simp: settled_def Let_def forget_service_notifications_def service_kept_upd svc_view_def)
  have "service_kept s w ?w1" by (simp add: service_kept_upd svc_view_def)
  also note host_after_recovery_kept [OF w2]
  finally have w2': "service_kept s w w2" .
  obtain t where t: "service_kept s (typed s t w2) w3" using announce_recovery_effect(2) [OF w3] by blast
  also have "service_kept s w3 w4" using w4 notify_service_kept by (auto split: if_splits)
  also have "service_kept s w4 (obsess s w4)" by (simp add: obsess_def)
  finally have k: "service_kept s (typed s t w2) (obsess s w4)" .
  show "l_checks l' = l_checks l" using fin(1) announce_recovery_effect(1) [OF w3] by simp
  show "svc_view (svc_of w' s) = svc_view (settle_service (svc_of w s))" "cfg w' = cfg w"
    "servicedependencies w' = servicedependencies w"
    using fin(2) k w2' by (simp_all add: service_kept_def typed_def upd_svc_def settle_service_def svc_view_def)
qed

section \<open>The branch of a problem\<close>

lemma host_of_problem_effect:
  assumes "host_of_problem ev h s l w = Some (route, w')"
  shows "service_kept x w w'"
    "\<not> use_aggressive_host_checking (cfg w) \<Longrightarrow> route = h_current_state (host_of w h)"
proof -
  have od: "on_demand_host_state ev h w = Some (r, u) \<Longrightarrow> service_kept x w u" for r u
    unfolding on_demand_host_state_def by (auto dest: kept.keeps_on_demand [where s = x])
  have n: "notify_host_state ev h w = Some u \<Longrightarrow> service_kept x w u"
    "notify_host_state ev h (upd_host h f w) = Some u \<Longrightarrow> service_kept x w u" for f u
    by (drule kept.keeps_notify_host [where s = x], simp add: service_kept_def upd_host_def)+
  show "service_kept x w w'"
    using assms unfolding host_of_problem_def Let_def count_cached_host_def
    by (auto split: if_splits dest: od kept.keeps_launch_host n)
  show "route = h_current_state (host_of w h)" if "\<not> use_aggressive_host_checking (cfg w)"
    using assms that unfolding host_of_problem_def Let_def by (auto split: if_splits)
qed

text \<open>The state of the machine after a problem, from that before with the attempt counted.\<close>

definition problem_view :: "bool \<Rightarrow> service \<Rightarrow> service" where
  "problem_view up v =
     (if \<not> up
      then v\<lparr>s_state_type := (if s_current_attempt v < s_max_attempts v \<and> s_current_state v = s_last_hard_state v
                              then s_state_type v else HARD_STATE),
             s_last_hard_state := s_current_state v, s_host_problem_at_last_check := True\<rparr>
      else
        let n = (if s_host_problem_at_last_check v \<and> s_state_type v = SOFT_STATE then 1 else s_current_attempt v)
        in v\<lparr>s_current_attempt := n, s_host_problem_at_last_check := False,
             s_state_type := (if n < s_max_attempts v then SOFT_STATE else HARD_STATE),
             s_last_hard_state := (if n < s_max_attempts v then s_last_hard_state v else s_current_state v)\<rparr>)"

lemma retry_service_effect:
  assumes "retry_service s route l w = (l', w')"
  shows "svc_view (svc_of w' s) = svc_view (svc_of (if route = HOST_UP then typed s SOFT_STATE w else w) s)"
    "cfg w' = cfg w" "servicedependencies w' = servicedependencies w"
    "set (l_checks l') \<subseteq> set (l_checks l) \<union> set (service_masters s w)"
proof -
  have q: "set (queue_services xs ys) = set xs \<union> set ys" for xs ys
    unfolding queue_services_def by (induction xs arbitrary: ys) auto
  have m: "service_masters s u = service_masters s w" if "servicedependencies u = servicedependencies w" for u
    using that by (simp add: service_masters_def)
  define p where "p = (if route \<noteq> HOST_UP
    then (let l0 = (if l_reschedule l
                    then l\<lparr>l_next := service_check_after (s_check_interval (svc_of w s)) s w\<rparr> else l)
          in if l_hard_change l
             then (l0\<lparr>l_logged := True\<rparr>, emit (Handle_service_event s) (emit (Log_service_event s) w))
             else (l0, w))
    else (let w0 = emit (Handle_service_event s) (emit (Log_service_event s) (typed s SOFT_STATE w))
          in ((if l_reschedule l
               then l\<lparr>l_next := service_check_after (s_retry_interval (svc_of w0 s)) s w0\<rparr> else l)
              \<lparr>l_logged := True\<rparr>, w0)))"
  have p: "svc_of (snd p) = svc_of (if route = HOST_UP then typed s SOFT_STATE w else w)" "cfg (snd p) = cfg w"
    "servicedependencies (snd p) = servicedependencies w" "l_checks (fst p) = l_checks l"
    by (simp_all add: p_def Let_def typed_def access_defs)
  have r: "retry_service s route l w = (if enable_predictive_service_dependency_checks (cfg (snd p)) \<and>
        s_current_attempt (svc_of (snd p) s) = s_max_attempts (svc_of (snd p) s) - 1
     then (fst p)\<lparr>l_checks := queue_services (service_masters s (snd p)) (l_checks (fst p))\<rparr> else fst p, snd p)"
    unfolding retry_service_def typed_def [symmetric] p_def [symmetric] by (simp add: case_prod_beta)
  have w': "w' = snd p" using assms unfolding r by simp
  show "svc_view (svc_of w' s) = svc_view (svc_of (if route = HOST_UP then typed s SOFT_STATE w else w) s)"
    "cfg w' = cfg w" "servicedependencies w' = servicedependencies w"
    unfolding w' p by (rule refl)+
  show "set (l_checks l') \<subseteq> set (l_checks l) \<union> set (service_masters s w)"
    using assms unfolding r by (auto simp: q m [OF p(3)] p(4) split: if_splits)
qed

lemma service_failed_effect:
  assumes "service_failed ev h s l w = Some (l', w')"
  shows "l_checks l' = l_checks l"
    "svc_view (svc_of w' s) =
       svc_view ((svc_of w s)\<lparr>s_state_type := HARD_STATE, s_last_hard_state := s_current_state (svc_of w s)\<rparr>)"
    "cfg w' = cfg w" "servicedependencies w' = servicedependencies w"
proof -
  let ?w1 = "typed s HARD_STATE w"
  define w2 where "w2 = (if l_hard_change l \<or> s_is_volatile (svc_of ?w1 s) then emit (Log_service_event s) ?w1 else ?w1)"
  obtain w3 w4 w5 where w3: "(if (l_hard_change l \<or> l_state_change l) \<and> s_pending_flex_downtime (svc_of w2 s) > 0
        then check_pending_flex_service_downtime ev s w2 else Some w2) = Some w3"
    and w4: "check_service_and_host_flapping ev h s w3 = Some w4"
    and w5: "notify_service_state ev s w4 = Some w5"
    and l': "l_checks l' = l_checks l"
    and w': "w' = upd_svc s (\<lambda>v. v\<lparr>s_last_hard_state := s_current_state v\<rparr>)
        (if l_hard_change l \<or> s_is_volatile (svc_of w5 s) then emit (Handle_service_event s) w5 else w5)"
    using assms unfolding service_failed_def Let_def typed_def [symmetric] w2_def [symmetric]
    by (auto simp: bind_eq_Some_conv)
  have "service_kept s ?w1 w2" by (simp add: w2_def)
  also have "service_kept s w2 w3"
    using w3 service_kept_side [OF side_frame_pending_flex(2)] by (auto split: if_splits)
  also note flapping_kept [OF w4]
  also note notify_service_kept [OF w5]
  finally have "service_kept s ?w1 w5" .
  then show "svc_view (svc_of w' s) =
       svc_view ((svc_of w s)\<lparr>s_state_type := HARD_STATE, s_last_hard_state := s_current_state (svc_of w s)\<rparr>)"
    "cfg w' = cfg w" "servicedependencies w' = servicedependencies w"
    by (simp_all add: w' service_kept_def typed_def access_defs svc_view_def)
  show "l_checks l' = l_checks l" by (fact l')
qed

lemma service_hard_change_problem:
  "s_current_state v \<noteq> STATE_OK \<Longrightarrow>
   (service_hard_change v \<or> s_last_hard_state v \<noteq> s_current_state v) = (s_last_hard_state v \<noteq> s_current_state v)"
  by (auto simp: service_hard_change_def)

lemma obsess_kept [simp]: "service_kept x w (obsess s w1) = service_kept x w w1"
  by (simp add: obsess_def)

lemma service_problem_effect:
  assumes "service_problem ev h s l w = Some (l', w')" "s_current_state (svc_of w s) \<noteq> STATE_OK"
    "l_hard_change l = service_hard_change (svc_of w s)"
  shows "\<exists>up. (\<not> use_aggressive_host_checking (cfg w) \<longrightarrow> up = (h_current_state (host_of w h) = HOST_UP)) \<and>
      svc_view (svc_of w' s) = svc_view (problem_view up (svc_of w s))"
    "cfg w' = cfg w" "servicedependencies w' = servicedependencies w"
    "set (l_checks l') \<subseteq> set (l_checks l) \<union> set (service_masters s w)"
proof -
  let ?v = "svc_of w s"
  obtain route w1 where w1: "host_of_problem ev h s l w = Some (route, w1)"
    using assms(1) by (auto simp: service_problem_def bind_eq_Some_conv)
  define p where "p = (if route \<noteq> HOST_UP then note_host_problem s l w1
      else if s_host_problem_at_last_check (svc_of w1 s) then (l, host_came_back s w1) else (l, w1))"
  obtain q where q: "(if s_current_attempt (svc_of (snd p) s) < s_max_attempts (svc_of (snd p) s)
        then Some (retry_service s route (fst p) (snd p)) else service_failed ev h s (fst p) (snd p)) = Some q"
    and l': "l' = fst q" and w': "w' = obsess s (snd q)"
    using assms(1) unfolding service_problem_def w1 p_def
    by (auto simp: bind_eq_Some_conv case_prod_beta Let_def split: if_splits)
  note k = host_of_problem_effect [OF w1]
  have v1: "svc_view (svc_of w1 s) = svc_view ?v" "cfg w1 = cfg w" "servicedependencies w1 = servicedependencies w"
    using k(1) [of s] by (simp_all add: service_kept_def)
  let ?u = "svc_of (snd p) s"
  have hard: "(l_hard_change l \<or> s_last_hard_state (svc_of w1 s) \<noteq> s_current_state (svc_of w1 s)) =
      (s_last_hard_state ?v \<noteq> s_current_state ?v)"
    using assms(2,3) v1(1) service_hard_change_problem [OF assms(2)] by (simp add: svc_view_def)
  have p: "svc_view ?u = svc_view (if route \<noteq> HOST_UP
      then ?v\<lparr>s_state_type := (if s_current_state ?v = s_last_hard_state ?v then s_state_type ?v else HARD_STATE),
             s_last_hard_state := s_current_state ?v, s_host_problem_at_last_check := True\<rparr>
      else ?v\<lparr>s_current_attempt := (if s_host_problem_at_last_check ?v \<and> s_state_type ?v = SOFT_STATE
                then 1 else s_current_attempt ?v), s_host_problem_at_last_check := False\<rparr>)"
    "cfg (snd p) = cfg w" "servicedependencies (snd p) = servicedependencies w" "l_checks (fst p) = l_checks l"
    using v1 unfolding p_def note_host_problem_def Let_def hard
    by (auto simp: host_came_back_def svc_view_def upd_svc_def)
  have m: "service_masters s (snd p) = service_masters s w" using p(3) by (simp add: service_masters_def)
  have "svc_view (svc_of (snd q) s) = svc_view (problem_view (route = HOST_UP) ?v) \<and> cfg (snd q) = cfg w \<and>
      servicedependencies (snd q) = servicedependencies w \<and>
      set (l_checks (fst q)) \<subseteq> set (l_checks l) \<union> set (service_masters s w)"
  proof (cases "s_current_attempt ?u < s_max_attempts ?u")
    case True
    with q have r: "retry_service s route (fst p) (snd p) = (fst q, snd q)" by simp
    from retry_service_effect [OF r] p True show ?thesis
      by (auto simp: m typed_def upd_svc_def svc_view_def problem_view_def Let_def split: if_splits)
  next
    case False
    with q have r: "service_failed ev h s (fst p) (snd p) = Some (fst q, snd q)" by simp
    from service_failed_effect [OF r] p False show ?thesis
      by (auto simp: svc_view_def problem_view_def Let_def split: if_splits)
  qed
  note q' = this
  have "service_kept s (snd q) w'" by (simp add: w')
  with q' k(2) show "\<exists>up. (\<not> use_aggressive_host_checking (cfg w) \<longrightarrow> up = (h_current_state (host_of w h) = HOST_UP)) \<and>
      svc_view (svc_of w' s) = svc_view (problem_view up ?v)"
    "cfg w' = cfg w" "servicedependencies w' = servicedependencies w"
    "set (l_checks l') \<subseteq> set (l_checks l) \<union> set (service_masters s w)"
    by (auto simp: service_kept_def l')
qed

lemma reschedule_service_kept:
  assumes "reschedule_service ev x t w = Some w'"
  shows "service_kept s w w'"
proof -
  have u: "service_kept s w (upd_svc x (\<lambda>v. v\<lparr>s_next_check := n, s_should_be_scheduled := b v\<rparr>) w)" for n b
    by (simp add: service_kept_upd svc_view_def)
  show ?thesis
    using assms u service_kept_trans [OF u schedule_service_kept]
    unfolding reschedule_service_def Let_def by (auto split: if_splits)
qed

lemma finish_service_result_kept:
  assumes "finish_service_result ev h s old l w = Some w'" "s \<notin> set (l_checks l)"
  shows "service_kept s w w'"
proof -
  obtain w1 w3 where w1: "(if l_reschedule l then reschedule_service ev s (l_next l) w else Some w) = Some w1"
    and w3: "(if l_flap_done l then Some (mark_service_checked s l (emit (Broker_service_check Check_processed s)
                (stalk_service old s l w1)))
       else check_service_and_host_flapping ev h s (mark_service_checked s l
                (emit (Broker_service_check Check_processed s) (stalk_service old s l w1)))) = Some w3"
    and w': "for_each (async_master_check ev) (l_checks l) (emit (Update_performance_data s) w3) = Some w'"
    using assms(1) unfolding finish_service_result_def Let_def by (auto simp: bind_eq_Some_conv)
  have "service_kept s w w1" using w1 reschedule_service_kept by (auto split: if_splits)
  then have "service_kept s w (mark_service_checked s l (emit (Broker_service_check Check_processed s)
                (stalk_service old s l w1)))"
    by (simp add: mark_service_checked_def stalk_service_def Let_def service_kept_upd svc_view_def)
  then have "service_kept s w w3"
    using w3 flapping_kept service_kept_trans by (auto split: if_splits simp del: service_kept_basic)
  also have "service_kept s w3 (emit (Update_performance_data s) w3)" by simp
  also have "service_kept s (emit (Update_performance_data s) w3) w'"
    by (rule kept.keeps_for_each [OF w']) (use assms(2) async_master_check_kept in metis)
  finally show ?thesis .
qed

section \<open>The state machine\<close>

text \<open>
  The reference machine: one result, from the state before it, with the host up or not. The
  attempt counts while the state is soft.
\<close>

definition machine_of :: "service \<Rightarrow> svc_state \<times> state_type \<times> int \<times> svc_state \<times> bool" where
  "machine_of v = (s_current_state v, s_state_type v, s_current_attempt v, s_last_hard_state v,
     s_host_problem_at_last_check v)"

fun service_machine ::
    "bool \<Rightarrow> svc_state \<Rightarrow> int \<Rightarrow> svc_state \<times> state_type \<times> int \<times> svc_state \<times> bool \<Rightarrow>
     svc_state \<times> state_type \<times> int \<times> svc_state \<times> bool" where
  "service_machine up new max_attempts (_, ty, attempt, last_hard, host_problem) =
     (let n = (if ty = SOFT_STATE \<and> attempt < max_attempts then attempt + 1 else attempt) in
      if new = STATE_OK then (STATE_OK, HARD_STATE, 1, STATE_OK, False)
      else if \<not> up
      then (new, if n < max_attempts \<and> new = last_hard then ty else HARD_STATE, n, new, True)
      else
        let n = (if host_problem \<and> ty = SOFT_STATE then 1 else n)
        in if n < max_attempts then (new, SOFT_STATE, n, last_hard, False)
           else (new, HARD_STATE, n, new, False))"

definition accepted_service_result :: "env \<Rightarrow> svc_id \<Rightarrow> check_result \<Rightarrow> engine \<Rightarrow> bool" where
  "accepted_service_result ev s r w \<longleftrightarrow>
     (cr_check_type r = CHECK_PASSIVE \<longrightarrow>
        accept_passive_service_checks (cfg w) \<and> s_accept_passive_service_checks (svc_of w s)) \<and>
     \<not> (result_has CHECK_OPTION_FRESHNESS_CHECK r \<and> is_service_result_fresh s (now ev) w)"

lemma is_service_result_fresh_cong:
  "is_service_result_fresh s t (upd_svc s (\<lambda>v. v\<lparr>s_is_being_freshened := f v, s_is_executing := g v\<rparr>) w) =
   is_service_result_fresh s t w"
  "is_service_result_fresh s t (w\<lparr>currently_running_service_checks := n\<rparr>) = is_service_result_fresh s t w"
  by (simp_all add: is_service_result_fresh_def service_expiration_time_def service_threshold_def Let_def upd_svc_def)

lemma process_service_result_effect:
  assumes "process_service_result ev h s old resched w = Some w'" "s \<notin> set (service_masters s w)"
  shows "\<exists>up. (\<not> use_aggressive_host_checking (cfg w) \<longrightarrow> up = (h_current_state (host_of w h) = HOST_UP)) \<and>
      machine_of (svc_of w' s) =
        service_machine up (s_current_state (svc_of w s)) (s_max_attempts (svc_of w s)) (machine_of (svc_of w s))"
    "s_max_attempts (svc_of w' s) = s_max_attempts (svc_of w s)"
    "s_is_executing (svc_of w' s) = s_is_executing (svc_of w s)"
    "s_host_ptr (svc_of w' s) = s_host_ptr (svc_of w s)"
    "cfg w' = cfg w" "servicedependencies w' = servicedependencies w"
proof -
  let ?v = "svc_of w s"
  obtain w1 where w1: "first_host_check ev h s w = Some w1"
    using assms(1) by (auto simp: process_service_result_def bind_eq_Some_conv Let_def)
  obtain l w2 where w2: "service_changes h s resched w1 = (l, w2)" by (meson surj_pair)
  let ?l = "l\<lparr>l_first_check := wants_first_check ev h s w\<rparr>"
  obtain l1 w3 where w3: "(if s_current_state (svc_of w2 s) = STATE_OK then service_ok ev h s ?l w2
      else service_problem ev h s ?l w2) = Some (l1, w3)"
    and fin: "finish_service_result ev h s old l1 w3 = Some w'"
    using assms(1) unfolding process_service_result_def Let_def w1 bind.bind_lunit w2 prod.case
    by (auto simp: bind_eq_Some_conv w2)
  have k1: "service_kept s w w1" by (rule first_host_check_kept [OF w1])
  note c = service_changes_effect [OF w2]
  have v2: "svc_view (svc_of w2 s) = svc_view (count_service_attempt ?v)" "cfg w2 = cfg w"
    "servicedependencies w2 = servicedependencies w"
    using c(5-7) k1 by (auto simp: service_kept_def svc_view_def count_service_attempt_def)
  have hc: "l_hard_change l = service_hard_change (svc_of w2 s)"
    using c(2,5) by (simp add: service_hard_change_def svc_view_def)
  have m: "service_masters s w2 = service_masters s w" by (simp add: service_masters_def v2(3))
  have st: "s_current_state (svc_of w2 s) = s_current_state ?v"
    using v2(1) by (simp add: svc_view_def count_service_attempt_def split: if_splits)
  have "(\<exists>up. (\<not> use_aggressive_host_checking (cfg w) \<longrightarrow> up = (h_current_state (host_of w h) = HOST_UP)) \<and>
      svc_view (svc_of w3 s) = svc_view (if s_current_state ?v = STATE_OK then settle_service (svc_of w2 s)
         else problem_view up (svc_of w2 s))) \<and>
      cfg w3 = cfg w \<and> servicedependencies w3 = servicedependencies w \<and> s \<notin> set (l_checks l1)" (is ?all)
  proof (cases "s_current_state ?v = STATE_OK")
    case True
    with w3 st have "service_ok ev h s ?l w2 = Some (l1, w3)" by simp
    from service_ok_effect [OF this] True show ?all
      using c(3) v2 by auto
  next
    case False
    with w3 st have p: "service_problem ev h s ?l w2 = Some (l1, w3)" by simp
    have "w1 = w" using first_host_check_problem [OF False] w1 by simp
    then have h: "h_current_state (host_of w2 h) = h_current_state (host_of w h)" using c(8) by simp
    from service_problem_effect [OF p] False st hc show ?all
      using c(3) v2 m h assms(2) by auto
  qed
  then obtain up where up: "\<not> use_aggressive_host_checking (cfg w) \<longrightarrow> up = (h_current_state (host_of w h) = HOST_UP)"
    "svc_view (svc_of w3 s) = svc_view (if s_current_state ?v = STATE_OK then settle_service (svc_of w2 s)
         else problem_view up (svc_of w2 s))"
    and w3': "cfg w3 = cfg w" "servicedependencies w3 = servicedependencies w" "s \<notin> set (l_checks l1)" by blast
  note f = finish_service_result_kept [OF fin w3'(3)]
  have view: "svc_view (svc_of w' s) = svc_view (if s_current_state ?v = STATE_OK then settle_service (svc_of w2 s)
         else problem_view up (svc_of w2 s))"
    using f up(2) by (simp add: service_kept_def)
  have "machine_of (svc_of w' s) = service_machine up (s_current_state ?v) (s_max_attempts ?v) (machine_of ?v)"
    using view v2(1)
    by (simp add: svc_view_def machine_of_def settle_service_def problem_view_def count_service_attempt_def Let_def
        split: if_splits)
  with up(1) show "\<exists>up. (\<not> use_aggressive_host_checking (cfg w) \<longrightarrow> up = (h_current_state (host_of w h) = HOST_UP)) \<and>
      machine_of (svc_of w' s) =
        service_machine up (s_current_state ?v) (s_max_attempts ?v) (machine_of ?v)" by blast
  show "cfg w' = cfg w" "servicedependencies w' = servicedependencies w"
    using f w3' by (simp_all add: service_kept_def)
  show "s_max_attempts (svc_of w' s) = s_max_attempts ?v" "s_is_executing (svc_of w' s) = s_is_executing ?v"
    "s_host_ptr (svc_of w' s) = s_host_ptr ?v"
    using view v2(1)
    by (simp_all add: svc_view_def settle_service_def problem_view_def count_service_attempt_def Let_def split: if_splits)
qed

end
