(* ===== verification/Host_Check_Results.thy ===== *)
theory Host_Check_Results
  imports Host_Check_Facts
begin

text \<open>
  The properties of host checks: the state machine a result runs, when a problem becomes hard,
  and what freshness checks do.
\<close>

section \<open>The state machine of an accepted result\<close>

text \<open>
  What a result reports. An active check is up or down: up when the host has no check command,
  else if the plugin ended properly with code 0 (or 1, unless host checking is aggressive); a
  passive result carries the code of its state.
\<close>

definition reported_state :: "host_id \<Rightarrow> check_result \<Rightarrow> engine \<Rightarrow> host_state option" where
  "reported_state h r w =
     (case cr_check_type r of
        CHECK_ACTIVE \<Rightarrow>
          if h_host_check_command (host_of w h) = None then Some HOST_UP
          else if cr_exited_ok r \<and>
            (cr_return_code r = 0 \<or> cr_return_code r = 1 \<and> \<not> use_aggressive_host_checking (cfg w))
          then Some HOST_UP else Some HOST_DOWN
      | CHECK_PASSIVE \<Rightarrow>
          if cr_return_code r = 0 then Some HOST_UP else if cr_return_code r = 1 then Some HOST_DOWN
          else if cr_return_code r = 2 then Some HOST_UNREACHABLE else None)"

lemma reported_code: "host_state_of_int (fst (host_result_code h r w)) = reported_state h r w"
  by (cases "cr_check_type r")
    (auto simp: host_result_code_def reported_state_def host_state_of_int_def STATE_UNKNOWN_code_def Let_def upd_host_def)

text \<open>C16. An accepted result of a check leaves its host in exactly the state, state type and
  attempt of the reference state machine for the state the result reports (an active check
  reports up or down by its exit, a passive result by its code of 0 to 2), with the down or
  unreachable state that the parents call for, whatever notifications, flapping, downtimes and
  checks of other hosts it sets off on the way; an active result ends the execution of the
  check. Left out: a host that is its own parent, child or master of a dependency, and a failing
  active check of a host that was up with a single attempt if one of its parents has to be
  checked first (neither are its checks off nor is its last check recent enough to be used).\<close>

theorem host_result_state_machine:
  assumes "handle_async_host_check_result_3x ev h r w = Some (res, w')" "accepted_host_result ev h r w"
    "alone h w" "reported_state h r w = Some new"
    "\<not> asks_parents ev (result_args w) h new (upd_host h (begin_result (cr_check_type r)) w)"
  shows "machine_state (host_of w' h) = host_machine (cr_check_type r) h new w \<and>
    h_is_executing (host_of w' h) = (cr_check_type r = CHECK_PASSIVE \<and> h_is_executing (host_of w h))"
  using handle_async_host_effect(1,3) [OF assms(1-3) _ assms(5)] assms(4) by (simp add: reported_code)

definition ex_still :: engine where
  "ex_still = ex_engine\<lparr>cfg := ex_cfg\<lparr>enable_notifications := False\<rparr>\<rparr>"

definition ex_result :: "int \<Rightarrow> int \<Rightarrow> check_result" where
  "ex_result opts code = \<lparr>cr_object_check_type = HOST_CHECK, cr_host_name = ''h'', cr_service_description = None,
     cr_check_type = CHECK_ACTIVE, cr_check_options = opts, cr_scheduled_check = True,
     cr_reschedule_check = True, cr_latency = 0, cr_start_time = (990, 0), cr_finish_time = (995, 0),
     cr_early_timeout = False, cr_exited_ok = True, cr_return_code = code, cr_output = Some ''ping: no answer''\<rparr>"

lemma ex_result_handled:
  "map_option fst (handle_async_host_check_result_3x ex_env ''h'' (ex_result 0 2) ex_still) = Some OK"
  by code_simp

lemma ex_result_facts:
  "accepted_host_result ex_env ''h'' (ex_result 0 2) ex_still" "alone ''h'' ex_still"
  "reported_state ''h'' (ex_result 0 2) ex_still = Some HOST_DOWN"
  "\<not> asks_parents ex_env (result_args ex_still) ''h'' HOST_DOWN (upd_host ''h'' (begin_result CHECK_ACTIVE) ex_still)"
  "host_machine CHECK_ACTIVE ''h'' HOST_DOWN ex_still = (HOST_DOWN, SOFT_STATE, 1)"
  by code_simp+

theorem host_result_state_machine_witness:
  "\<exists>w'. handle_async_host_check_result_3x ex_env ''h'' (ex_result 0 2) ex_still = Some (OK, w') \<and>
     machine_state (host_of w' ''h'') = (HOST_DOWN, SOFT_STATE, 1)"
proof -
  obtain w' where w': "handle_async_host_check_result_3x ex_env ''h'' (ex_result 0 2) ex_still = Some (OK, w')"
    using ex_result_handled by auto
  have a: "cr_check_type (ex_result 0 2) = CHECK_ACTIVE" by (simp add: ex_result_def)
  from host_result_state_machine [OF w' ex_result_facts(1-3)] ex_result_facts(4,5) w'
  show ?thesis by (simp add: a)
qed

section \<open>A problem becomes hard\<close>

text \<open>
  A number of failing active checks of a host, one after the other: each is launched and then
  its result accepted, and between these steps anything may happen that keeps the check state
  of the host.
\<close>

inductive failed_checks :: "host_id \<Rightarrow> nat \<Rightarrow> engine \<Rightarrow> engine \<Rightarrow> bool" where
  start: "failed_checks h 0 w w"
| other: "failed_checks h n w w1 \<Longrightarrow> host_kept h w1 w2 \<Longrightarrow>
    h_child_hosts (host_of w2 h) = h_child_hosts (host_of w1 h) \<Longrightarrow> failed_checks h n w w2"
| check: "failed_checks h n w w1 \<Longrightarrow>
    \<not> h_is_executing (host_of w1 h) \<Longrightarrow>
    run_async_host_check_3x ev h opts lat sched resched w1 = Some (launched, w2) \<Longrightarrow>
    h_is_executing (host_of w2 h) \<Longrightarrow>
    host_kept h w2 w3 \<Longrightarrow>
    cr_check_type r = CHECK_ACTIVE \<Longrightarrow> accepted_host_result ev' h r w3 \<Longrightarrow>
    fst (host_result_code h r w3) = 1 \<Longrightarrow>
    handle_async_host_check_result_3x ev' h r w3 = Some (res, w4) \<Longrightarrow> failed_checks h (Suc n) w w4"

lemma launched_check:
  assumes "run_async_host_check_3x ev h opts lat sched resched w = Some (r, w')"
    "\<not> h_is_executing (host_of w h)" "h_is_executing (host_of w' h)"
  shows "h_current_state (host_of w' h) = h_current_state (host_of w h)"
    "h_state_type (host_of w' h) = h_state_type (host_of w h)"
    "h_max_attempts (host_of w' h) = h_max_attempts (host_of w h)"
    "h_current_attempt (host_of w' h) = h_current_attempt (host_of (adjust_host_check_attempt_3x h True w) h)"
    "alone h w' = alone h w"
proof -
  have "h_current_state (host_of w' h) = h_current_state (host_of w h) \<and>
    h_state_type (host_of w' h) = h_state_type (host_of w h) \<and>
    h_max_attempts (host_of w' h) = h_max_attempts (host_of w h) \<and>
    h_parent_hosts (host_of w' h) = h_parent_hosts (host_of w h) \<and>
    h_child_hosts (host_of w' h) = h_child_hosts (host_of w h) \<and>
    h_current_attempt (host_of w' h) = h_current_attempt (host_of (adjust_host_check_attempt_3x h True w) h) \<and>
    hostdependencies w' = hostdependencies w"
    using assms(1)
  proof (cases rule: run_async_cases)
    case (2 w1)
    let ?w = "emit (Broker_host_check Async_precheck h) w1"
    have w1: "host_of w1 = host_of w" "hostdependencies w1 = hostdependencies w"
      by (simp_all add: 2(1) upd_host_other_def)
    have s: "w' = start_host_check ev h opts lat sched resched ?w"
      using 2(2) assms(2,3) by (auto simp: w1 emit_def)
    show ?thesis
      unfolding s start_host_check_def Let_def adjust_host_check_attempt_3x_def
      by (cases sched) (simp_all add: upd_host_def emit_def w1 split: option.split)
  qed (use assms in simp)
  then show "h_current_state (host_of w' h) = h_current_state (host_of w h)"
    "h_state_type (host_of w' h) = h_state_type (host_of w h)"
    "h_max_attempts (host_of w' h) = h_max_attempts (host_of w h)"
    "h_current_attempt (host_of w' h) = h_current_attempt (host_of (adjust_host_check_attempt_3x h True w) h)"
    "alone h w' = alone h w"
    using host_masters_cong [of w' w h] by (auto simp: alone_def)
qed

lemma alone_kept:
  "host_kept h w w' \<Longrightarrow> alone h w' = alone h w"
  using host_masters_cong [of w' w h] by (auto simp: host_kept_def check_view_def alone_def)

text \<open>One failing check, in terms of the state machine.\<close>

lemma one_failed_check:
  assumes "h_max_attempts (host_of w h) \<noteq> 1" "machine_state (host_of w h) = (st, ty, n)"
  shows "host_machine CHECK_ACTIVE h HOST_DOWN w =
    (resolved_state h HOST_DOWN (upd_host h (begin_result CHECK_ACTIVE) w),
     if st = HOST_UP then SOFT_STATE else if n = h_max_attempts (host_of w h) \<or> n = 1 then HARD_STATE else SOFT_STATE, n)"
proof -
  let ?w = "upd_host h (begin_result CHECK_ACTIVE) w"
  have m: "machine_state (counted_host h ?w) = (st, ty, n)" "h_max_attempts (host_of ?w h) = h_max_attempts (host_of w h)"
    using assms(2) by (simp_all add: counted_host_def machine_state_def upd_host_def begin_result_def)
  have s: "soft_results h ?w" by (simp add: soft_results_def upd_host_def begin_result_def)
  have r: "resolved_state h HOST_DOWN ?w \<noteq> HOST_UP" by (simp add: resolved_state_def)
  show ?thesis
    unfolding host_machine_def process_machine_def m using s r assms(1) by (simp add: m)
qed

text \<open>From a host that is up in a hard state, the \<open>n\<close>-th failing active check in a row leaves
  a problem whose attempt is \<open>n\<close> up to \<open>max_attempts\<close> and one afterwards, and the problem is
  hard exactly from the \<open>max_attempts\<close>-th failure on.\<close>

theorem problem_hard_after_max_attempts:
  assumes "failed_checks h n w w'" "h_max_attempts (host_of w h) > 1" "alone h w"
    "h_current_state (host_of w h) = HOST_UP" "h_state_type (host_of w h) = HARD_STATE"
  shows "0 < n \<longrightarrow> h_current_state (host_of w' h) \<noteq> HOST_UP \<and>
    (h_state_type (host_of w' h) = HARD_STATE \<longleftrightarrow> h_max_attempts (host_of w h) \<le> int n) \<and>
    h_current_attempt (host_of w' h) = (if int n \<le> h_max_attempts (host_of w h) then int n else 1)"
proof -
  let ?mx = "h_max_attempts (host_of w h)"
  let ?inv = "\<lambda>n w'. h_max_attempts (host_of w' h) = ?mx \<and> alone h w' \<and>
    (if n = 0 then h_current_state (host_of w' h) = HOST_UP \<and> h_state_type (host_of w' h) = HARD_STATE
     else h_current_state (host_of w' h) \<noteq> HOST_UP \<and>
       h_state_type (host_of w' h) = (if ?mx \<le> int n then HARD_STATE else SOFT_STATE) \<and>
       h_current_attempt (host_of w' h) = (if int n \<le> ?mx then int n else 1))"
  have "?inv n w'"
    using assms
  proof (induction rule: failed_checks.induct)
    case (start h w)
    then show ?case by simp
  next
    case (other h n w w1 w2)
    then show ?case
      using alone_kept [of h w1 w2] by (auto simp: host_kept_def check_view_def attempt_of_def)
  next
    case (check h n w w1 ev opts lat sched resched launched w2 w3 r ev' res w4)
    let ?v1 = "host_of w1 h" and ?v3 = "host_of w3 h" and ?mx = "h_max_attempts (host_of w h)"
    note l = launched_check [OF check.hyps(3,2,4)]
    have k: "h_current_state ?v3 = h_current_state ?v1" "h_state_type ?v3 = h_state_type ?v1"
      "h_max_attempts ?v3 = h_max_attempts ?v1"
      "h_current_attempt ?v3 = h_current_attempt (host_of (adjust_host_check_attempt_3x h True w1) h)"
      "alone h w3"
      using l check alone_kept [OF check.hyps(5)]
      by (auto simp: host_kept_def check_view_def attempt_of_def)
    have ih: "h_max_attempts ?v1 = h_max_attempts (host_of w h)" using check by simp
    have a: "\<not> asks_parents ev' (result_args w3) h HOST_DOWN (upd_host h (begin_result (cr_check_type r)) w3)"
      using k(3) ih check.prems(1) by (simp add: asks_parents_def upd_host_def begin_result_def)
    have mx3: "h_max_attempts ?v3 \<noteq> 1" using k(3) ih check.prems(1) by simp
    have c: "host_state_of_int (fst (host_result_code h r w3)) = Some HOST_DOWN"
      using check.hyps(8) by (simp add: host_state_of_int_def)
    note e = handle_async_host_effect [OF check.hyps(9,7) k(5) c a]
    have down: "resolved_state h HOST_DOWN u \<noteq> HOST_UP" for u by (simp add: resolved_state_def)
    have n3: "h_current_attempt ?v3 = (if h_state_type ?v1 = HARD_STATE \<or> h_current_state ?v1 = HOST_UP then 1
        else if h_current_attempt ?v1 < ?mx then h_current_attempt ?v1 + 1 else h_current_attempt ?v1)"
      using ih unfolding k(4)
      by (cases "h_state_type ?v1") (auto simp: adjust_host_check_attempt_3x_def upd_host_def)
    have m4: "machine_state (host_of w4 h) =
        (resolved_state h HOST_DOWN (upd_host h (begin_result CHECK_ACTIVE) w3),
         if h_current_state ?v1 = HOST_UP then SOFT_STATE
         else if h_current_attempt ?v3 = ?mx \<or> h_current_attempt ?v3 = 1 then HARD_STATE else SOFT_STATE,
         h_current_attempt ?v3)"
      using e(1) one_failed_check [OF mx3 machine_state_def] check.hyps(6) k(1,3) ih by simp
    have v4: "h_current_state (host_of w4 h) \<noteq> HOST_UP"
      "h_state_type (host_of w4 h) = (if h_current_state ?v1 = HOST_UP then SOFT_STATE
         else if h_current_attempt ?v3 = ?mx \<or> h_current_attempt ?v3 = 1 then HARD_STATE else SOFT_STATE)"
      "h_current_attempt (host_of w4 h) = h_current_attempt ?v3"
      using m4 down by (simp_all add: machine_state_def)
    have I: "if n = 0 then h_current_state ?v1 = HOST_UP \<and> h_state_type ?v1 = HARD_STATE
     else h_current_state ?v1 \<noteq> HOST_UP \<and>
       h_state_type ?v1 = (if ?mx \<le> int n then HARD_STATE else SOFT_STATE) \<and>
       h_current_attempt ?v1 = (if int n \<le> ?mx then int n else 1)"
      using check.IH check.prems by blast
    have "h_max_attempts (host_of w4 h) = ?mx" "alone h w4" using e(2,4) k(3) ih by simp_all
    moreover consider "n = 0" | "n \<noteq> 0" "int n < ?mx" | "n \<noteq> 0" "?mx \<le> int n" by linarith
    then have "h_state_type (host_of w4 h) = (if ?mx \<le> int (Suc n) then HARD_STATE else SOFT_STATE) \<and>
       h_current_attempt (host_of w4 h) = (if int (Suc n) \<le> ?mx then int (Suc n) else 1)"
    proof cases
      case 1
      with I check.prems(1) show ?thesis by (simp add: v4 n3)
    next
      case 2
      with I check.prems(1) show ?thesis by (simp add: v4 n3)
    next
      case 3
      with I check.prems(1) show ?thesis by (simp add: v4 n3)
    qed
    ultimately show ?case using v4(1) by simp
  qed
  then show ?thesis by auto
qed

text \<open>Three failing checks of the example host, with what the relation asks of each.\<close>

definition ex_round :: "engine \<Rightarrow> engine option" where
  "ex_round w1 =
     (case run_async_host_check_3x ex_env ''h'' 0 0 True True w1 of
        None \<Rightarrow> None
      | Some (_, w2) \<Rightarrow>
          if \<not> h_is_executing (host_of w1 ''h'') \<and> h_is_executing (host_of w2 ''h'') \<and>
             accepted_host_result ex_env ''h'' (ex_result 0 2) w2 \<and>
             fst (host_result_code ''h'' (ex_result 0 2) w2) = 1
          then map_option snd (handle_async_host_check_result_3x ex_env ''h'' (ex_result 0 2) w2)
          else None)"

lemma ex_round_failed:
  assumes "failed_checks ''h'' n w w1" "ex_round w1 = Some w4"
  shows "failed_checks ''h'' (Suc n) w w4"
proof -
  from assms(2) obtain l w2 res where r: "run_async_host_check_3x ex_env ''h'' 0 0 True True w1 = Some (l, w2)"
    "\<not> h_is_executing (host_of w1 ''h'')" "h_is_executing (host_of w2 ''h'')"
    "accepted_host_result ex_env ''h'' (ex_result 0 2) w2" "fst (host_result_code ''h'' (ex_result 0 2) w2) = 1"
    "handle_async_host_check_result_3x ex_env ''h'' (ex_result 0 2) w2 = Some (res, w4)"
    unfolding ex_round_def by (auto split: option.splits if_splits)
  have "cr_check_type (ex_result 0 2) = CHECK_ACTIVE" by (simp add: ex_result_def)
  from failed_checks.check [OF assms(1) r(2,1,3) host_kept_refl this r(4-6)] show ?thesis .
qed

lemma ex_three_rounds: "Option.bind (ex_round ex_still) (\<lambda>w. Option.bind (ex_round w) ex_round) \<noteq> None"
  by code_simp

theorem problem_hard_after_max_attempts_witness:
  "\<exists>w'. failed_checks ''h'' 3 ex_still w' \<and> h_state_type (host_of w' ''h'') = HARD_STATE \<and>
     h_current_attempt (host_of w' ''h'') = 3"
proof -
  obtain w1 w2 w3 where "ex_round ex_still = Some w1" "ex_round w1 = Some w2" "ex_round w2 = Some w3"
    using ex_three_rounds by (auto split: bind_splits)
  then have f: "failed_checks ''h'' 3 ex_still w3"
    using ex_round_failed failed_checks.start by (metis eval_nat_numeral(3) numeral_2_eq_2)
  have h: "host_of ex_still ''h'' = ex_host" by (simp add: ex_still_def ex_engine_def)
  from problem_hard_after_max_attempts [OF f _ ex_result_facts(2)] f show ?thesis
    by (auto simp: h ex_host_def)
qed

section \<open>Freshness\<close>

text \<open>When the result of a forced freshness check comes in and the host has become fresh
  meanwhile, the result is dropped before the flag that the check runs is cleared: the host stays
  marked as executing, and an ordinary check of it launches nothing from then on.\<close>

theorem dropped_freshness_result_blocks_checks:
  assumes "result_has CHECK_OPTION_FRESHNESS_CHECK r" "is_host_result_fresh h (now ev) w"
    "cr_check_type r = CHECK_ACTIVE" "h_is_executing (host_of w h)"
  shows "\<exists>w'. handle_async_host_check_result_3x ev h r w = Some (OK, w') \<and> h_is_executing (host_of w' h) \<and>
    (\<forall>ev' opts lat sched resched res w2. \<not> forced opts \<longrightarrow>
       run_async_host_check_3x ev' h opts lat sched resched w' = Some (res, w2) \<longrightarrow>
       out w2 = out w' \<and> h_is_executing (host_of w2 h))"
proof -
  define w1 where "w1 = (if currently_running_host_checks w > 0
      then w\<lparr>currently_running_host_checks := currently_running_host_checks w - 1\<rparr> else w)"
  let ?w2 = "upd_host h (\<lambda>v. v\<lparr>h_is_being_freshened := False\<rparr>) w1"
  have "is_host_result_fresh h (now ev) ?w2 = is_host_result_fresh h (now ev) w"
    by (rule fresh_cong [where b = False]) (simp_all add: upd_host_def w1_def)
  then have h: "handle_async_host_check_result_3x ev h r w = Some (OK, ?w2)"
    using assms(1-3) by (simp add: handle_async_host_check_result_3x_def Let_def w1_def [symmetric])
  have x: "h_is_executing (host_of ?w2 h)" using assms(4) by (simp add: upd_host_def w1_def)
  have "out w2 = out w' \<and> h_is_executing (host_of w2 h)"
    if "\<not> forced opts" "run_async_host_check_3x ev' h opts lat sched resched w' = Some (res, w2)" "w' = ?w2"
    for ev' opts lat sched resched res w2 w'
  proof -
    define w3 where "w3 = (if resched then upd_host_other h (\<lambda>p. p\<lparr>ho_should_reschedule_current_check := True\<rparr>) w' else w')"
    have w3: "host_of w3 = host_of w'" "out w3 = out w'" by (simp_all add: w3_def upd_host_other_def)
    have "w2 = w' \<or> w2 = w3"
      using that x unfolding run_async_host_check_3x_def Let_def w3_def [symmetric]
      by (auto simp: bind_eq_Some_conv w3 split: if_split_asm)
    with w3 x that(3) show ?thesis by auto
  qed
  with h x show ?thesis by blast
qed

definition ex_freshened :: engine where
  "ex_freshened = upd_host ''h'' (\<lambda>v. v\<lparr>h_is_executing := True, h_is_being_freshened := True, h_last_check := 998\<rparr>) ex_still"

theorem dropped_freshness_result_blocks_checks_witness:
  "\<exists>w'. handle_async_host_check_result_3x ex_env ''h'' (ex_result 3 0) ex_freshened = Some (OK, w') \<and>
     h_is_executing (host_of w' ''h'')"
proof -
  have "result_has CHECK_OPTION_FRESHNESS_CHECK (ex_result 3 0)"
    "is_host_result_fresh ''h'' (now ex_env) ex_freshened" "cr_check_type (ex_result 3 0) = CHECK_ACTIVE"
    "h_is_executing (host_of ex_freshened ''h'')"
    by code_simp+
  from dropped_freshness_result_blocks_checks [OF this] show ?thesis by blast
qed

end
