(* ===== verification/Service_Check_Results.thy ===== *)
theory Service_Check_Results
  imports Service_Check_Facts Host_Check_Results
begin

text \<open>
  The properties of service checks: the state machine a result runs, when a problem becomes
  hard, what a late freshness result does, and the way of a check from its launch through the
  executor to the reaper.
\<close>

section \<open>The state machine of an accepted result\<close>

lemma accepted_result_runs:
  assumes "handle_async_service_check_result ev s r w = Some (res, w')" "accepted_service_result ev s r w"
    "s_host_ptr (svc_of w s) = Some h"
  obtains w2 old where "process_service_result ev h s old (cr_reschedule_check r) w2 = Some w'"
    "svc_view (svc_of w2 s) = svc_view ((svc_of w s)\<lparr>s_last_state := s_current_state (svc_of w s),
       s_current_state := result_state r, s_is_executing := (cr_check_type r \<noteq> CHECK_ACTIVE \<and> s_is_executing (svc_of w s))\<rparr>)"
    "host_of w2 = host_of w" "cfg w2 = cfg w" "servicedependencies w2 = servicedependencies w"
proof -
  define w1 where "w1 = (if cr_check_type r = CHECK_ACTIVE \<and> currently_running_service_checks w > 0
      then w\<lparr>currently_running_service_checks := currently_running_service_checks w - 1\<rparr> else w)"
  define w2 where "w2 = upd_svc s (\<lambda>v. v\<lparr>s_is_being_freshened :=
      (\<not> result_has CHECK_OPTION_FRESHNESS_CHECK r \<and> s_is_being_freshened v),
      s_is_executing := (cr_check_type r \<noteq> CHECK_ACTIVE \<and> s_is_executing v)\<rparr>) w1"
  have w1: "svc_of w1 = svc_of w" "host_of w1 = host_of w" "cfg w1 = cfg w"
    "servicedependencies w1 = servicedependencies w" by (simp_all add: w1_def)
  have fresh: "is_service_result_fresh s (now ev) w2 = is_service_result_fresh s (now ev) w"
    by (simp add: w2_def w1_def is_service_result_fresh_cong)
  have h: "s_host_ptr (svc_of w2 s) = Some h" using assms(3) by (simp add: w2_def upd_svc_def w1)
  have "handle_async_service_check_result ev s r w = map_option (Pair OK)
      (process_service_result ev h s (s_plugin_output (svc_of w2 s)) (cr_reschedule_check r) (take_service_result s r w2))"
    using assms(2) h fresh unfolding handle_async_service_check_result_def Let_def w1_def [symmetric] w2_def [symmetric]
    by (auto simp: accepted_service_result_def w1)
  with assms(1) have "process_service_result ev h s (s_plugin_output (svc_of w2 s)) (cr_reschedule_check r)
      (take_service_result s r w2) = Some w'" by auto
  moreover have "svc_of w2 s = (svc_of w s)\<lparr>s_is_being_freshened :=
      (\<not> result_has CHECK_OPTION_FRESHNESS_CHECK r \<and> s_is_being_freshened (svc_of w s)),
      s_is_executing := (cr_check_type r \<noteq> CHECK_ACTIVE \<and> s_is_executing (svc_of w s))\<rparr>"
    "host_of w2 = host_of w" "cfg w2 = cfg w" "servicedependencies w2 = servicedependencies w"
    by (simp_all add: w2_def upd_svc_def w1)
  then have "svc_view (svc_of (take_service_result s r w2) s) = svc_view ((svc_of w s)\<lparr>s_last_state := s_current_state (svc_of w s),
       s_current_state := result_state r, s_is_executing := (cr_check_type r \<noteq> CHECK_ACTIVE \<and> s_is_executing (svc_of w s))\<rparr>)"
    "host_of (take_service_result s r w2) = host_of w" "cfg (take_service_result s r w2) = cfg w"
    "servicedependencies (take_service_result s r w2) = servicedependencies w"
    using take_service_result_effect(1) [of s r w2] by (simp_all add: take_service_result_effect(2-4)) (simp add: svc_view_def)
  ultimately show ?thesis by (rule that)
qed

text \<open>C17. An accepted result of a service check leaves the service in exactly the state, state
  type, attempt and last hard state of the reference state machine, with the host up or down as
  it was found (as it was, unless hosts are checked on demand), whatever notifications, flapping,
  downtimes and checks of hosts it sets off on the way; an active result ends the execution of
  the check.\<close>

theorem service_result_state_machine:
  assumes "handle_async_service_check_result ev s r w = Some (res, w')" "accepted_service_result ev s r w"
    "s_host_ptr (svc_of w s) = Some h" "s \<notin> set (service_masters s w)"
  shows "\<exists>up. (\<not> use_aggressive_host_checking (cfg w) \<longrightarrow> up = (h_current_state (host_of w h) = HOST_UP)) \<and>
      machine_of (svc_of w' s) =
        service_machine up (result_state r) (s_max_attempts (svc_of w s)) (machine_of (svc_of w s)) \<and>
      s_is_executing (svc_of w' s) = (cr_check_type r = CHECK_PASSIVE \<and> s_is_executing (svc_of w s))"
proof -
  obtain w2 old where p: "process_service_result ev h s old (cr_reschedule_check r) w2 = Some w'"
    and v: "svc_view (svc_of w2 s) = svc_view ((svc_of w s)\<lparr>s_last_state := s_current_state (svc_of w s),
       s_current_state := result_state r, s_is_executing := (cr_check_type r \<noteq> CHECK_ACTIVE \<and> s_is_executing (svc_of w s))\<rparr>)"
    and w2: "host_of w2 = host_of w" "cfg w2 = cfg w" "servicedependencies w2 = servicedependencies w"
    by (rule accepted_result_runs [OF assms(1-3)])
  have "s \<notin> set (service_masters s w2)" using assms(4) w2(3) by (simp add: service_masters_def)
  note e = process_service_result_effect [OF p this]
  have "cr_check_type r \<noteq> CHECK_ACTIVE \<longleftrightarrow> cr_check_type r = CHECK_PASSIVE" by (cases "cr_check_type r") simp_all
  then have x: "s_is_executing (svc_of w' s) = (cr_check_type r = CHECK_PASSIVE \<and> s_is_executing (svc_of w s))"
    using e(3) v by (simp add: svc_view_def)
  have m: "service_machine up new mx (machine_of (svc_of w2 s)) = service_machine up new mx (machine_of (svc_of w s))"
    for up new mx
    using v by (simp add: svc_view_def machine_of_def)
  have "s_current_state (svc_of w2 s) = result_state r" "s_max_attempts (svc_of w2 s) = s_max_attempts (svc_of w s)"
    using v by (simp_all add: svc_view_def)
  with e(1) x show ?thesis unfolding m w2 by metis
qed

definition ex_service_result :: "int \<Rightarrow> int \<Rightarrow> check_result" where
  "ex_service_result opts code = \<lparr>cr_object_check_type = SERVICE_CHECK, cr_host_name = ''h'',
     cr_service_description = Some ''s'', cr_check_type = CHECK_ACTIVE, cr_check_options = opts, cr_scheduled_check = True,
     cr_reschedule_check = True, cr_latency = 0, cr_start_time = (990, 0), cr_finish_time = (995, 0),
     cr_early_timeout = False, cr_exited_ok = True, cr_return_code = code, cr_output = Some ''HTTP 500''\<rparr>"

definition ex_ok_service :: engine where
  "ex_ok_service = upd_svc (''h'', ''s'') (\<lambda>v. v\<lparr>s_current_state := STATE_OK, s_last_hard_state := STATE_OK,
     s_current_attempt := 1\<rparr>) ex_still"

lemma ex_service_result_facts:
  "map_option fst (handle_async_service_check_result ex_env (''h'', ''s'') (ex_service_result 0 2) ex_ok_service) = Some OK"
  "accepted_service_result ex_env (''h'', ''s'') (ex_service_result 0 2) ex_ok_service"
  "s_host_ptr (svc_of ex_ok_service (''h'', ''s'')) = Some ''h''"
  "(''h'', ''s'') \<notin> set (service_masters (''h'', ''s'') ex_ok_service)"
  "\<not> use_aggressive_host_checking (cfg ex_ok_service)" "h_current_state (host_of ex_ok_service ''h'') = HOST_UP"
  "result_state (ex_service_result 0 2) = STATE_CRITICAL"
  "s_max_attempts (svc_of ex_ok_service (''h'', ''s'')) = 3"
  "machine_of (svc_of ex_ok_service (''h'', ''s'')) = (STATE_OK, HARD_STATE, 1, STATE_OK, False)"
  by code_simp+

theorem service_result_state_machine_witness:
  "\<exists>w'. handle_async_service_check_result ex_env (''h'', ''s'') (ex_service_result 0 2) ex_ok_service = Some (OK, w') \<and>
     machine_of (svc_of w' (''h'', ''s'')) = (STATE_CRITICAL, SOFT_STATE, 1, STATE_OK, False)"
proof -
  obtain w' where w': "handle_async_service_check_result ex_env (''h'', ''s'') (ex_service_result 0 2) ex_ok_service = Some (OK, w')"
    using ex_service_result_facts(1) by auto
  from service_result_state_machine [OF w' ex_service_result_facts(2-4)] w' ex_service_result_facts(5-9)
  show ?thesis by (auto simp: Let_def)
qed

section \<open>A problem becomes hard\<close>

text \<open>
  A number of failing results of a service, one after the other, while its host is up; between
  them anything may happen that keeps the machine state of the service.
\<close>

inductive failed_results :: "svc_id \<Rightarrow> nat \<Rightarrow> engine \<Rightarrow> engine \<Rightarrow> bool" where
  start: "failed_results s 0 w w"
| other: "failed_results s n w w1 \<Longrightarrow> machine_of (svc_of w2 s) = machine_of (svc_of w1 s) \<Longrightarrow>
    s_max_attempts (svc_of w2 s) = s_max_attempts (svc_of w1 s) \<Longrightarrow> failed_results s n w w2"
| result: "failed_results s n w w1 \<Longrightarrow>
    accepted_service_result ev s r w1 \<Longrightarrow> result_state r \<noteq> STATE_OK \<Longrightarrow>
    s_host_ptr (svc_of w1 s) = Some h \<Longrightarrow> h_current_state (host_of w1 h) = HOST_UP \<Longrightarrow>
    \<not> use_aggressive_host_checking (cfg w1) \<Longrightarrow> s \<notin> set (service_masters s w1) \<Longrightarrow>
    handle_async_service_check_result ev s r w1 = Some (res, w2) \<Longrightarrow> failed_results s (Suc n) w w2"

lemma handle_keeps_max_attempts:
  assumes "handle_async_service_check_result ev s r w = Some (res, w')" "accepted_service_result ev s r w"
    "s_host_ptr (svc_of w s) = Some h" "s \<notin> set (service_masters s w)"
  shows "s_max_attempts (svc_of w' s) = s_max_attempts (svc_of w s)"
proof -
  obtain w2 old where p: "process_service_result ev h s old (cr_reschedule_check r) w2 = Some w'"
    and v: "svc_view (svc_of w2 s) = svc_view ((svc_of w s)\<lparr>s_last_state := s_current_state (svc_of w s),
       s_current_state := result_state r, s_is_executing := (cr_check_type r \<noteq> CHECK_ACTIVE \<and> s_is_executing (svc_of w s))\<rparr>)"
    and w2: "host_of w2 = host_of w" "cfg w2 = cfg w" "servicedependencies w2 = servicedependencies w"
    by (rule accepted_result_runs [OF assms(1-3)])
  have "s \<notin> set (service_masters s w2)" using assms(4) w2(3) by (simp add: service_masters_def)
  with process_service_result_effect(2) [OF p] v show ?thesis by (simp add: svc_view_def)
qed

text \<open>From a service that is OK, the \<open>n\<close>-th failing result in a row while the host is up
  leaves a problem at attempt \<open>n\<close>, at most \<open>max_attempts\<close>, and the problem is hard exactly from
  the \<open>max_attempts\<close>-th failure on.\<close>

theorem service_problem_hard_after_max_attempts:
  assumes "failed_results s n w w'" "s_max_attempts (svc_of w s) \<ge> 1"
    "machine_of (svc_of w s) = (STATE_OK, HARD_STATE, 1, STATE_OK, False)"
  shows "0 < n \<longrightarrow> s_current_state (svc_of w' s) \<noteq> STATE_OK \<and>
    (s_state_type (svc_of w' s) = HARD_STATE \<longleftrightarrow> s_max_attempts (svc_of w s) \<le> int n) \<and>
    s_current_attempt (svc_of w' s) = min (int n) (s_max_attempts (svc_of w s))"
proof -
  let ?inv = "\<lambda>n w'. s_max_attempts (svc_of w' s) = s_max_attempts (svc_of w s) \<and>
    (if n = 0 then machine_of (svc_of w' s) = (STATE_OK, HARD_STATE, 1, STATE_OK, False)
     else \<exists>st hard. st \<noteq> STATE_OK \<and> machine_of (svc_of w' s) =
       (st, if s_max_attempts (svc_of w s) \<le> int n then HARD_STATE else SOFT_STATE,
        min (int n) (s_max_attempts (svc_of w s)), hard, False))"
  have "?inv n w'"
    using assms
  proof (induction rule: failed_results.induct)
    case (start s w)
    then show ?case by simp
  next
    case (other s n w w1 w2)
    then show ?case by (cases "n = 0") simp_all
  next
    case (result s n w w1 ev r h res w2)
    let ?mx = "s_max_attempts (svc_of w s)"
    from result have mx: "s_max_attempts (svc_of w1 s) = ?mx" by blast
    have mx2: "s_max_attempts (svc_of w2 s) = ?mx"
      using handle_keeps_max_attempts [OF result.hyps(8,2,4,7)] mx by simp
    obtain up where up: "\<not> use_aggressive_host_checking (cfg w1) \<longrightarrow> up = (h_current_state (host_of w1 h) = HOST_UP)"
      and m: "machine_of (svc_of w2 s) = service_machine up (result_state r) ?mx (machine_of (svc_of w1 s))"
      using service_result_state_machine [OF result.hyps(8,2,4,7)] mx by metis
    have up: "up" using up result.hyps(5,6) by simp
    have "\<exists>st hard. st \<noteq> STATE_OK \<and> machine_of (svc_of w2 s) =
       (st, if ?mx \<le> int (Suc n) then HARD_STATE else SOFT_STATE, min (int (Suc n)) ?mx, hard, False)"
    proof (cases "n = 0")
      case True
      with result.IH result.prems have "machine_of (svc_of w1 s) = (STATE_OK, HARD_STATE, 1, STATE_OK, False)" by simp
      with m up result.hyps(3) result.prems(1) True show ?thesis by (auto simp: Let_def)
    next
      case False
      with result.IH result.prems obtain st hard where "st \<noteq> STATE_OK" "machine_of (svc_of w1 s) =
        (st, if ?mx \<le> int n then HARD_STATE else SOFT_STATE, min (int n) ?mx, hard, False)" by auto
      with m up result.hyps(3) False show ?thesis by (cases "?mx \<le> int n") (auto simp: Let_def min_def)
    qed
    with mx2 show ?case by simp
  qed
  then show ?thesis by (auto simp: machine_of_def split: if_splits)
qed

lemma ex_failed_result:
  assumes "failed_results (''h'', ''s'') n w w1"
    "accepted_service_result ex_env (''h'', ''s'') (ex_service_result 0 2) w1 \<and>
     s_host_ptr (svc_of w1 (''h'', ''s'')) = Some ''h'' \<and> h_current_state (host_of w1 ''h'') = HOST_UP \<and>
     \<not> use_aggressive_host_checking (cfg w1) \<and> (''h'', ''s'') \<notin> set (service_masters (''h'', ''s'') w1)"
    "map_option snd (handle_async_service_check_result ex_env (''h'', ''s'') (ex_service_result 0 2) w1) = Some w2"
  shows "failed_results (''h'', ''s'') (Suc n) w w2"
proof -
  from assms(3) obtain res where r: "handle_async_service_check_result ex_env (''h'', ''s'') (ex_service_result 0 2) w1 = Some (res, w2)"
    by auto
  from failed_results.result [OF assms(1) _ _ _ _ _ _ r, of "''h''"] assms(2) ex_service_result_facts(7)
  show ?thesis by simp
qed

definition ex_failures :: "engine \<Rightarrow> engine option" where
  "ex_failures w1 =
     (if accepted_service_result ex_env (''h'', ''s'') (ex_service_result 0 2) w1 \<and>
         s_host_ptr (svc_of w1 (''h'', ''s'')) = Some ''h'' \<and> h_current_state (host_of w1 ''h'') = HOST_UP \<and>
         \<not> use_aggressive_host_checking (cfg w1) \<and> (''h'', ''s'') \<notin> set (service_masters (''h'', ''s'') w1)
      then map_option snd (handle_async_service_check_result ex_env (''h'', ''s'') (ex_service_result 0 2) w1) else None)"

lemma ex_three_failures:
  "Option.bind (ex_failures ex_ok_service) (\<lambda>w. Option.bind (ex_failures w) ex_failures) \<noteq> None"
  by code_simp

theorem service_problem_hard_after_max_attempts_witness:
  "\<exists>w'. failed_results (''h'', ''s'') 3 ex_ok_service w' \<and> s_state_type (svc_of w' (''h'', ''s'')) = HARD_STATE \<and>
     s_current_attempt (svc_of w' (''h'', ''s'')) = 3"
proof -
  obtain w1 w2 w3 where w: "ex_failures ex_ok_service = Some w1" "ex_failures w1 = Some w2" "ex_failures w2 = Some w3"
    using ex_three_failures by (auto split: bind_splits)
  have "failed_results (''h'', ''s'') (Suc (Suc (Suc 0))) ex_ok_service w3"
    using w unfolding ex_failures_def
    by (intro ex_failed_result [OF ex_failed_result [OF ex_failed_result [OF failed_results.start]]])
       (auto split: if_splits)
  then have f: "failed_results (''h'', ''s'') 3 ex_ok_service w3" by (simp add: numeral_3_eq_3)
  from service_problem_hard_after_max_attempts [OF f] f ex_service_result_facts(8,9) show ?thesis by auto
qed

section \<open>A late freshness result\<close>

text \<open>When the result of a forced freshness check comes in and the service has become fresh
  meanwhile, the result is dropped, and the service is left as it was except that it is no longer
  being freshened and, after an active check, no longer executing, so that it can be checked
  again; nothing is sent out and no other object changes.\<close>

theorem late_service_freshness_result:
  assumes "result_has CHECK_OPTION_FRESHNESS_CHECK r" "is_service_result_fresh s (now ev) w"
    "cr_check_type r = CHECK_ACTIVE"
  shows "\<exists>w'. handle_async_service_check_result ev s r w = Some (OK, w') \<and>
    svc_of w' = (svc_of w)(s := (svc_of w s)\<lparr>s_is_being_freshened := False, s_is_executing := False\<rparr>) \<and>
    host_of w' = host_of w \<and> out w' = out w \<and> evs w' = evs w \<and>
    currently_running_service_checks w' =
      (if currently_running_service_checks w > 0 then currently_running_service_checks w - 1
       else currently_running_service_checks w)"
proof -
  define w1 where "w1 = (if currently_running_service_checks w > 0
      then w\<lparr>currently_running_service_checks := currently_running_service_checks w - 1\<rparr> else w)"
  let ?w2 = "upd_svc s (\<lambda>v. v\<lparr>s_is_being_freshened := (\<not> result_has CHECK_OPTION_FRESHNESS_CHECK r \<and> s_is_being_freshened v),
      s_is_executing := (cr_check_type r \<noteq> CHECK_ACTIVE \<and> s_is_executing v)\<rparr>) w1"
  have "is_service_result_fresh s (now ev) ?w2"
    using assms(2) by (simp add: w1_def is_service_result_fresh_cong)
  then have "handle_async_service_check_result ev s r w = Some (OK, ?w2)"
    using assms(1,3) by (simp add: handle_async_service_check_result_def Let_def w1_def [symmetric])
  moreover have "svc_of ?w2 = (svc_of w)(s := (svc_of w s)\<lparr>s_is_being_freshened := False, s_is_executing := False\<rparr>)"
    "host_of ?w2 = host_of w" "out ?w2 = out w" "evs ?w2 = evs w"
    "currently_running_service_checks ?w2 = (if currently_running_service_checks w > 0
       then currently_running_service_checks w - 1 else currently_running_service_checks w)"
    using assms(1,3) by (simp_all add: w1_def upd_svc_def)
  ultimately show ?thesis by blast
qed

definition ex_freshened_service :: engine where
  "ex_freshened_service = upd_svc (''h'', ''s'')
     (\<lambda>v. v\<lparr>s_is_executing := True, s_is_being_freshened := True, s_last_check := 998\<rparr>) ex_still"

theorem late_service_freshness_result_witness:
  "\<exists>w'. handle_async_service_check_result ex_env (''h'', ''s'') (ex_service_result 3 0) ex_freshened_service = Some (OK, w') \<and>
     \<not> s_is_executing (svc_of w' (''h'', ''s''))"
proof -
  have "result_has CHECK_OPTION_FRESHNESS_CHECK (ex_service_result 3 0)"
    "is_service_result_fresh (''h'', ''s'') (now ex_env) ex_freshened_service"
    "cr_check_type (ex_service_result 3 0) = CHECK_ACTIVE"
    by code_simp+
  from late_service_freshness_result [OF this] show ?thesis by auto
qed

section \<open>From launch to reaping\<close>

definition merged_results :: "(nat \<Rightarrow> check_result option) \<Rightarrow> (nat \<times> check_result) list \<Rightarrow> check_result list" where
  "merged_results ids ps = List.map_filter (\<lambda>(i, part). map_option (\<lambda>base. merge_result base part) (ids i)) ps"

lemma merged_results_simps [simp]:
  "merged_results ids [] = []"
  "merged_results ids ((i, part) # ps) =
     (case ids i of None \<Rightarrow> merged_results ids ps | Some base \<Rightarrow> merge_result base part # merged_results ids ps)"
  "merged_results ids (ps @ qs) = merged_results ids ps @ merged_results ids qs"
  by (simp_all add: merged_results_def map_filter_def split: option.split)

lemma merged_results_cong:
  "(\<And>i. i \<in> fst ` set ps \<Longrightarrow> ids i = ids' i) \<Longrightarrow> merged_results ids ps = merged_results ids' ps"
  by (induction ps) (auto split: option.split)

text \<open>Every finished command whose start is known gives one result, in order.\<close>

lemma merge_partials_results:
  assumes "distinct (map fst ps)"
  shows "to_reap (merge_partials ps w) = to_reap w @ merged_results (list_id w) ps"
    "list_id (merge_partials ps w) = (\<lambda>i. if i \<in> fst ` set ps then None else list_id w i)"
    "to_reap_partial (merge_partials ps w) = []"
proof -
  have "to_reap (merge_partials ps w) = to_reap w @ merged_results (list_id w) ps \<and>
    list_id (merge_partials ps w) = (\<lambda>i. if i \<in> fst ` set ps then None else list_id w i) \<and>
    to_reap_partial (merge_partials ps w) = []"
    using assms
  proof (induction ps arbitrary: w)
    case (Cons p ps)
    obtain i part where p: "p = (i, part)" by (meson surj_pair)
    have i: "i \<notin> fst ` set ps" using Cons.prems by (simp add: p)
    show ?case
    proof (cases "list_id w i")
      case None
      with Cons.IH [of w] Cons.prems show ?thesis by (auto simp: p)
    next
      case (Some base)
      let ?w = "w\<lparr>list_id := (list_id w)(i := None), to_reap := to_reap w @ [merge_result base part]\<rparr>"
      have "merged_results (\<lambda>a. if a = i then None else list_id w a) ps = merged_results (list_id w) ps"
        by (rule merged_results_cong) (use i in auto)
      with Cons.IH [of ?w] Cons.prems Some show ?thesis by (simp add: p) auto
    qed
  qed simp
  then show "to_reap (merge_partials ps w) = to_reap w @ merged_results (list_id w) ps"
    "list_id (merge_partials ps w) = (\<lambda>i. if i \<in> fst ` set ps then None else list_id w i)"
    "to_reap_partial (merge_partials ps w) = []" by blast+
qed

text \<open>C18. A service check whose command was started comes back: whatever the program does in
  between, as long as the record of the running command stays, when the executor hands over the
  end of the command and the reaper merges, exactly one result of this check is queued, behind
  the results that were there. It says for which service and how the check was asked for, as the
  launch recorded it, and how the command ended; the command is then forgotten.\<close>

theorem launched_service_check_reaped:
  assumes "neb_service_check ev Check_initiate s \<noteq> NEB_OVERRIDE"
    "\<And>acts. run_command ev acts (ServiceTarget s) = Some i" "i \<noteq> 0"
    "list_id w2 i = list_id (start_service_check ev s opts lat sched resched w) i"
    "distinct (map fst (to_reap_partial w2))" "ce_command_id e = i"
  shows "\<exists>r. let w3 = finished e w2; w4 = merge_partials (to_reap_partial w3) w3 in
    to_reap w4 = to_reap w2 @ merged_results (list_id w2) (filter (\<lambda>p. fst p \<noteq> i) (to_reap_partial w2)) @ [r] \<and>
    cr_object_check_type r = SERVICE_CHECK \<and> (cr_host_name r, cr_service_description r) = (fst s, Some (snd s)) \<and>
    cr_check_type r = CHECK_ACTIVE \<and> cr_check_options r = opts \<and> cr_latency r = lat \<and>
    cr_scheduled_check r = sched \<and> cr_reschedule_check r = resched \<and> cr_start_time r = (now ev, now_us ev) \<and>
    cr_finish_time r = ce_end_time e \<and> cr_return_code r = ce_exit_code e \<and> cr_output r = Some (ce_output e) \<and>
    cr_exited_ok r = (ce_exit_status e \<noteq> Crash_exit) \<and>
    list_id w4 i = None \<and> to_reap_partial w4 = []"
proof -
  let ?base = "\<lparr>cr_object_check_type = SERVICE_CHECK, cr_host_name = fst s, cr_service_description = Some (snd s),
     cr_check_type = CHECK_ACTIVE, cr_check_options = opts, cr_scheduled_check = sched, cr_reschedule_check = resched,
     cr_latency = lat, cr_start_time = (now ev, now_us ev), cr_finish_time = (now ev, now_us ev),
     cr_early_timeout = False, cr_exited_ok = True, cr_return_code = 0, cr_output = None\<rparr>"
  let ?w3 = "finished e w2"
  let ?others = "filter (\<lambda>p. fst p \<noteq> i) (to_reap_partial w2)"
  have base: "list_id w2 i = Some ?base"
    using assms(1-4) by (simp add: start_service_check_def Let_def)
  have partial: "to_reap_partial ?w3 = ?others @ [(i, partial_result e)]" "list_id ?w3 = list_id w2" "to_reap ?w3 = to_reap w2"
    using assms(6) by (simp_all add: finished_def)
  have "distinct (map fst (to_reap_partial ?w3))"
    using assms(5) by (auto simp: partial distinct_map_filter)
  from merge_partials_results [OF this, of ?w3] show ?thesis
    by (intro exI [of _ "merge_result ?base (partial_result e)"])
       (simp add: partial base Let_def merge_result_def partial_result_def)
qed

definition ex_end :: "nat \<Rightarrow> command_end" where
  "ex_end i = \<lparr>ce_command_id = i, ce_end_time = (1003, 0), ce_exit_code = 2, ce_exit_status = Normal_exit, ce_output = ''HTTP 500''\<rparr>"

theorem launched_service_check_reaped_witness:
  "\<exists>r. to_reap (merge_partials (to_reap_partial (finished (ex_end 7)
       (start_service_check (ex_env\<lparr>run_command := \<lambda>_ _. Some 7\<rparr>) (''h'', ''s'') 0 0 True True ex_engine)))
       (finished (ex_end 7) (start_service_check (ex_env\<lparr>run_command := \<lambda>_ _. Some 7\<rparr>) (''h'', ''s'') 0 0 True True ex_engine))) = [r] \<and>
     cr_return_code r = 2"
proof -
  let ?ev = "ex_env\<lparr>run_command := \<lambda>_ _. Some 7\<rparr>"
  let ?w = "start_service_check ?ev (''h'', ''s'') 0 0 True True ex_engine"
  have p: "to_reap_partial ?w = []" "to_reap ?w = []" by code_simp+
  have "neb_service_check ?ev Check_initiate (''h'', ''s'') \<noteq> NEB_OVERRIDE" "\<And>acts. run_command ?ev acts (ServiceTarget (''h'', ''s'')) = Some 7"
    by (simp_all add: ex_env_def)
  from launched_service_check_reaped [OF this _ refl, where e = "ex_end 7" and opts = 0 and lat = 0 and
      sched = True and resched = True and w = ex_engine] p show ?thesis
    by (auto simp: Let_def ex_end_def)
qed

end
