(* ===== verification/Lost_Checks.thy ===== *)
theory Lost_Checks
  imports Host_Check_Facts Service_Check
begin

text \<open>
  Checks whose result never came back: the searches of \<^verbatim>\<open>src/checks.cc\<close> release them
  and queue another check. The locale \<open>check_rescuer\<close> proves the search once for hosts and
  services.
\<close>

section \<open>The search\<close>

text \<open>
  What the searches for lost checks of hosts and of services have in common: one object at a
  time, a lost check is released and another check queued.
\<close>

locale check_rescuer =
  fixes rescue :: "env \<Rightarrow> 'k \<Rightarrow> engine \<Rightarrow> engine option"
    and executing :: "'k \<Rightarrow> engine \<Rightarrow> bool"
    and lost :: "env \<Rightarrow> 'k \<Rightarrow> engine \<Rightarrow> bool"
    and running :: "engine \<Rightarrow> int"
  assumes rescue_one: "event_queues w q \<Longrightarrow>
    \<exists>w' q'. rescue ev k w = Some w' \<and> event_queues w' q' \<and>
      (\<forall>x. x \<noteq> k \<longrightarrow> executing x w' = executing x w \<and> lost ev x w' = lost ev x w) \<and>
      executing k w' = (executing k w \<and> \<not> lost ev k w) \<and>
      running w' = (if lost ev k w \<and> running w > 0 then running w - 1 else running w)"
begin

lemma rescue_all:
  assumes "event_queues w q" "distinct ks" "0 \<le> running w"
  shows "\<exists>w'. for_each (rescue ev) ks w = Some w' \<and>
    (\<forall>k. executing k w' \<longleftrightarrow> executing k w \<and> \<not> (k \<in> set ks \<and> lost ev k w)) \<and>
    running w' = max 0 (running w - int (card {k \<in> set ks. lost ev k w}))"
  using assms
proof (induction ks arbitrary: w q)
  case (Cons k ks)
  from rescue_one [OF Cons.prems(1), of ev k] obtain w1 q1 where
    w1: "rescue ev k w = Some w1" "event_queues w1 q1"
      "\<And>x. x \<noteq> k \<Longrightarrow> executing x w1 = executing x w" "\<And>x. x \<noteq> k \<Longrightarrow> lost ev x w1 = lost ev x w"
      "executing k w1 = (executing k w \<and> \<not> lost ev k w)"
      "running w1 = (if lost ev k w \<and> running w > 0 then running w - 1 else running w)" by blast
  have "0 \<le> running w1" using w1(6) Cons.prems(3) by auto
  with Cons.IH [OF w1(2)] Cons.prems(2) obtain w' where
    w': "for_each (rescue ev) ks w1 = Some w'"
      "\<forall>x. executing x w' \<longleftrightarrow> executing x w1 \<and> \<not> (x \<in> set ks \<and> lost ev x w1)"
      "running w' = max 0 (running w1 - int (card {x \<in> set ks. lost ev x w1}))" by auto
  have k: "k \<notin> set ks" using Cons.prems(2) by simp
  have set1: "{x \<in> set ks. lost ev x w1} = {x \<in> set ks. lost ev x w}"
    using k by (intro Collect_cong conj_cong refl w1(4)) auto
  have "{x \<in> set (k # ks). lost ev x w} =
      (if lost ev k w then insert k {x \<in> set ks. lost ev x w} else {x \<in> set ks. lost ev x w})" by auto
  with k have "card {x \<in> set (k # ks). lost ev x w} =
      (if lost ev k w then 1 else 0) + card {x \<in> set ks. lost ev x w}" by simp
  then have "running w' = max 0 (running w - int (card {x \<in> set (k # ks). lost ev x w}))"
    using w'(3) w1(6) Cons.prems(3) unfolding set1 by auto
  moreover have "executing x w' \<longleftrightarrow> executing x w \<and> \<not> (x \<in> set (k # ks) \<and> lost ev x w)" for x
    using w'(2) w1(3-5) k by (cases "x = k") auto
  ultimately show ?case using w1(1) w'(1) by auto
qed simp

end

section \<open>Hosts\<close>

text \<open>Scheduling a host check returns and touches one host only, in when and how it is checked.\<close>

definition scheduled_only :: "host_id \<Rightarrow> engine \<Rightarrow> engine \<Rightarrow> bool" where
  "scheduled_only h w w' \<longleftrightarrow>
     (\<forall>x. x \<noteq> h \<longrightarrow> host_of w' x = host_of w x) \<and>
     (\<exists>t opts. host_of w' h = (host_of w h)\<lparr>h_check_options := opts, h_next_check := t\<rparr>) \<and>
     cfg w' = cfg w \<and> currently_running_host_checks w' = currently_running_host_checks w"

lemma schedule_host_check_ok:
  assumes "event_queues w q"
  shows "\<exists>w' q'. schedule_host_check ev h t opts w = Some w' \<and> event_queues w' q' \<and> scheduled_only h w w'"
proof (cases "\<not> h_checks_enabled (host_of w h) \<and> \<not> forced opts")
  case True
  have "host_of w h = (host_of w h)\<lparr>h_check_options := h_check_options (host_of w h), h_next_check := h_next_check (host_of w h)\<rparr>"
    by simp
  then have "scheduled_only h w w" unfolding scheduled_only_def by blast
  moreover have "schedule_host_check ev h t opts w = Some w" using True by (simp add: schedule_host_check_def)
  ultimately show ?thesis using assms by blast
next
  case False
  let ?te = "hash_find Low Hash_host_check (HostPtr h) (evs w)"
  define w1 where "w1 = upd_host h (\<lambda>v. v\<lparr>h_check_options := opts\<rparr>) w"
  define w2 where "w2 = upd_host h (\<lambda>v. v\<lparr>h_next_check := t\<rparr>) w1"
  have ev2: "evs w2 = evs w" "next_addr w2 = next_addr w" by (simp_all add: w1_def w2_def)
  have eq2: "event_queues w2 q" using assms(1) event_queues_cong [OF ev2] by simp
  have only: "scheduled_only h w (emit a (w2\<lparr>evs := s, next_addr := n\<rparr>))"
    "scheduled_only h w (emit a (upd_host h (\<lambda>v. v\<lparr>h_next_check := k\<rparr>) w1))" for a s n k
    by (auto simp: scheduled_only_def w2_def w1_def upd_host_def emit_def)
  show ?thesis
  proof (cases "\<exists>e. ?te = Some e \<and> use_original_event (heap (evs w) e) t opts")
    case True
    then obtain e where e: "?te = Some e" "use_original_event (heap (evs w) e) t opts" by blast
    let ?w' = "emit (Update_status (HostTarget h)) (upd_host h (\<lambda>v. v\<lparr>h_next_check := rt (evs w) e\<rparr>) w1)"
    have "event_queues ?w' q" using assms event_queues_cong [of ?w' w q] by (simp add: w1_def)
    moreover have "schedule_host_check ev h t opts w = Some ?w'"
      using False e by (auto simp: schedule_host_check_def Let_def w1_def)
    ultimately show ?thesis using only(2) by blast
  next
    case new: False
    then obtain r where r: "replace_check_event ev ?te
        (new_check_event EVENT_HOST_CHECK (HostPtr h) t opts) w2 =
        Some (w2\<lparr>evs := r, next_addr := Suc (next_addr w2)\<rparr>)"
      "one_check_queued Hash_host_check (HostPtr h) (forced opts, t) w2 q
        (w2\<lparr>evs := r, next_addr := Suc (next_addr w2)\<rparr>) (next_addr w2)"
      using hst_sched.new_event [OF eq2, of "HostPtr h" t opts ev] by (auto simp: ev2)
    let ?w3 = "w2\<lparr>evs := r, next_addr := Suc (next_addr w2)\<rparr>"
    obtain q' where "event_queues ?w3 q'" using r(2) by (auto simp: one_check_queued_def)
    then have "event_queues (emit (Update_status (HostTarget h)) ?w3) q'"
      using event_queues_cong [of "emit (Update_status (HostTarget h)) ?w3" ?w3 q'] by simp
    moreover have "schedule_host_check ev h t opts w = Some (emit (Update_status (HostTarget h)) ?w3)"
      using False new r(1) unfolding schedule_host_check_def Let_def w1_def [symmetric] w2_def [symmetric]
      by (cases ?te) auto
    ultimately show ?thesis using only(1) by blast
  qed
qed

definition lost_check :: "env \<Rightarrow> host_id \<Rightarrow> engine \<Rightarrow> bool" where
  "lost_check ev h w \<longleftrightarrow> h_next_check (host_of w h) \<noteq> 0 \<and> h_is_executing (host_of w h) \<and>
     host_expected_time h w < now ev"

lemma rescue_host_ok:
  assumes "event_queues w q"
  shows "\<exists>w' q'. rescue_host ev h w = Some w' \<and> event_queues w' q' \<and>
    (\<forall>x. x \<noteq> h \<longrightarrow> host_of w' x = host_of w x) \<and> cfg w' = cfg w \<and>
    h_is_executing (host_of w' h) = (h_is_executing (host_of w h) \<and> \<not> lost_check ev h w) \<and>
    currently_running_host_checks w' =
      (if lost_check ev h w \<and> currently_running_host_checks w > 0
       then currently_running_host_checks w - 1 else currently_running_host_checks w)"
proof (cases "lost_check ev h w")
  case False
  then have "rescue_host ev h w = Some w" by (auto simp: rescue_host_def lost_check_def)
  with False assms show ?thesis by auto
next
  case True
  define w2 where "w2 = upd_host h (\<lambda>v. v\<lparr>h_is_executing := False\<rparr>)
    (if currently_running_host_checks w > 0
     then w\<lparr>currently_running_host_checks := currently_running_host_checks w - 1\<rparr> else w)"
  have "event_queues w2 q" using assms event_queues_cong [of w2 w q] by (simp add: w2_def)
  from schedule_host_check_ok [OF this, of ev h "now ev" CHECK_OPTION_ORPHAN_CHECK] obtain w' q' where
    w': "schedule_host_check ev h (now ev) CHECK_OPTION_ORPHAN_CHECK w2 = Some w'" "event_queues w' q'"
      "scheduled_only h w2 w'" by blast
  have "rescue_host ev h w = Some w'"
    using True w'(1) by (simp add: rescue_host_def lost_check_def w2_def Let_def)
  with w' True show ?thesis by (auto simp: scheduled_only_def w2_def upd_host_def)
qed

interpretation host_rescue: check_rescuer rescue_host "\<lambda>h w. h_is_executing (host_of w h)" lost_check
    currently_running_host_checks
proof
  fix w q ev h
  assume "event_queues w q"
  from rescue_host_ok [OF this, of ev h] obtain w' q' where w': "rescue_host ev h w = Some w'" "event_queues w' q'"
    "\<forall>x. x \<noteq> h \<longrightarrow> host_of w' x = host_of w x" "cfg w' = cfg w"
    "h_is_executing (host_of w' h) = (h_is_executing (host_of w h) \<and> \<not> lost_check ev h w)"
    "currently_running_host_checks w' =
      (if lost_check ev h w \<and> currently_running_host_checks w > 0
       then currently_running_host_checks w - 1 else currently_running_host_checks w)" by blast
  then have "\<forall>x. x \<noteq> h \<longrightarrow> h_is_executing (host_of w' x) = h_is_executing (host_of w x) \<and>
      lost_check ev x w' = lost_check ev x w"
    by (simp add: lost_check_def host_expected_time_def)
  with w' show "\<exists>w' q'. rescue_host ev h w = Some w' \<and> event_queues w' q' \<and>
      (\<forall>x. x \<noteq> h \<longrightarrow> h_is_executing (host_of w' x) = h_is_executing (host_of w x) \<and>
         lost_check ev x w' = lost_check ev x w) \<and>
      h_is_executing (host_of w' h) = (h_is_executing (host_of w h) \<and> \<not> lost_check ev h w) \<and>
      currently_running_host_checks w' =
        (if lost_check ev h w \<and> 0 < currently_running_host_checks w
         then currently_running_host_checks w - 1 else currently_running_host_checks w)" by blast
qed

text \<open>The search for lost checks returns; afterwards exactly the hosts whose result was ten
  minutes late are no longer marked as executing, and the number of running checks has gone down
  by their number, but not below zero.\<close>

theorem lost_host_checks_released:
  assumes "event_queues w q" "distinct (host_list w)" "0 \<le> currently_running_host_checks w"
  shows "\<exists>w'. check_for_orphaned_hosts ev w = Some w' \<and>
    (\<forall>h. h_is_executing (host_of w' h) \<longleftrightarrow>
       h_is_executing (host_of w h) \<and> \<not> (h \<in> set (host_list w) \<and> lost_check ev h w)) \<and>
    currently_running_host_checks w' =
      max 0 (currently_running_host_checks w - int (card {h \<in> set (host_list w). lost_check ev h w}))"
  unfolding check_for_orphaned_hosts_def by (rule host_rescue.rescue_all [OF assms])

definition ex_lost :: engine where
  "ex_lost = upd_host ''h'' (\<lambda>v. v\<lparr>h_is_executing := True, h_next_check := 100\<rparr>)
     (ex_engine\<lparr>currently_running_host_checks := 4\<rparr>)"

theorem lost_host_checks_released_witness:
  "\<exists>w'. check_for_orphaned_hosts ex_env ex_lost = Some w' \<and> \<not> h_is_executing (host_of w' ''h'') \<and>
     currently_running_host_checks w' = 3"
proof -
  have "event_queues ex_engine (\<lambda>_. [])"
    using ex_empty_queues by (simp add: event_queues_def ex_engine_def)
  then have "event_queues ex_lost (\<lambda>_. [])"
    using event_queues_cong [of ex_lost ex_engine "\<lambda>_. []"] by (simp add: ex_lost_def)
  moreover have l: "host_list ex_lost = [''h'']" "currently_running_host_checks ex_lost = 4" "lost_check ex_env ''h'' ex_lost"
    by code_simp+
  moreover have "{h. h = ''h'' \<and> lost_check ex_env h ex_lost} = {''h''}" using l(3) by auto
  ultimately show ?thesis using lost_host_checks_released [of ex_lost "\<lambda>_. []" ex_env] by auto
qed

section \<open>Services\<close>

text \<open>Scheduling a service check returns and touches one service only, in when and how it is checked.\<close>

definition scheduled_service_only :: "svc_id \<Rightarrow> engine \<Rightarrow> engine \<Rightarrow> bool" where
  "scheduled_service_only s w w' \<longleftrightarrow>
     (\<forall>x. x \<noteq> s \<longrightarrow> svc_of w' x = svc_of w x) \<and>
     (\<exists>t opts. svc_of w' s = (svc_of w s)\<lparr>s_check_options := opts, s_next_check := t\<rparr>) \<and>
     cfg w' = cfg w \<and> currently_running_service_checks w' = currently_running_service_checks w"

lemma schedule_service_check_ok:
  assumes "event_queues w q"
  shows "\<exists>w' q'. schedule_service_check ev s t opts w = Some w' \<and> event_queues w' q' \<and> scheduled_service_only s w w'"
proof (cases "\<not> s_checks_enabled (svc_of w s) \<and> \<not> forced opts")
  case True
  have "svc_of w s = (svc_of w s)\<lparr>s_check_options := s_check_options (svc_of w s), s_next_check := s_next_check (svc_of w s)\<rparr>"
    by simp
  then have "scheduled_service_only s w w" unfolding scheduled_service_only_def by blast
  moreover have "schedule_service_check ev s t opts w = Some w" using True by (simp add: schedule_service_check_def)
  ultimately show ?thesis using assms by blast
next
  case False
  let ?te = "hash_find Low Hash_service_check (ServicePtr s) (evs w)"
  define w1 where "w1 = upd_svc s (\<lambda>v. v\<lparr>s_check_options := opts\<rparr>) w"
  define w2 where "w2 = upd_svc s (\<lambda>v. v\<lparr>s_next_check := t\<rparr>) w1"
  have ev2: "evs w2 = evs w" "next_addr w2 = next_addr w" by (simp_all add: w1_def w2_def)
  have eq2: "event_queues w2 q" using assms(1) event_queues_cong [OF ev2] by simp
  have only: "scheduled_service_only s w (emit a (w2\<lparr>evs := ss, next_addr := n\<rparr>))"
    "scheduled_service_only s w (emit a (upd_svc s (\<lambda>v. v\<lparr>s_next_check := k\<rparr>) w1))" for a ss n k
    by (auto simp: scheduled_service_only_def w2_def w1_def upd_svc_def emit_def)
  show ?thesis
  proof (cases "\<exists>e. ?te = Some e \<and> use_original_event (heap (evs w) e) t opts")
    case True
    then obtain e where e: "?te = Some e" "use_original_event (heap (evs w) e) t opts" by blast
    let ?w' = "emit (Update_status (ServiceTarget s)) (upd_svc s (\<lambda>v. v\<lparr>s_next_check := rt (evs w) e\<rparr>) w1)"
    have "event_queues ?w' q" using assms event_queues_cong [of ?w' w q] by (simp add: w1_def)
    moreover have "schedule_service_check ev s t opts w = Some ?w'"
      using False e by (auto simp: schedule_service_check_def Let_def w1_def)
    ultimately show ?thesis using only(2) by blast
  next
    case new: False
    then obtain r where r: "replace_check_event ev ?te
        (new_check_event EVENT_SERVICE_CHECK (ServicePtr s) t opts) w2 =
        Some (w2\<lparr>evs := r, next_addr := Suc (next_addr w2)\<rparr>)"
      "one_check_queued Hash_service_check (ServicePtr s) (forced opts, t) w2 q
        (w2\<lparr>evs := r, next_addr := Suc (next_addr w2)\<rparr>) (next_addr w2)"
      using svc_sched.new_event [OF eq2, of "ServicePtr s" t opts ev] by (auto simp: ev2)
    let ?w3 = "w2\<lparr>evs := r, next_addr := Suc (next_addr w2)\<rparr>"
    obtain q' where "event_queues ?w3 q'" using r(2) by (auto simp: one_check_queued_def)
    then have "event_queues (emit (Update_status (ServiceTarget s)) ?w3) q'"
      using event_queues_cong [of "emit (Update_status (ServiceTarget s)) ?w3" ?w3 q'] by simp
    moreover have "schedule_service_check ev s t opts w = Some (emit (Update_status (ServiceTarget s)) ?w3)"
      using False new r(1) unfolding schedule_service_check_def Let_def w1_def [symmetric] w2_def [symmetric]
      by (cases ?te) auto
    ultimately show ?thesis using only(1) by blast
  qed
qed

definition lost_service_check :: "env \<Rightarrow> svc_id \<Rightarrow> engine \<Rightarrow> bool" where
  "lost_service_check ev s w \<longleftrightarrow> s_is_executing (svc_of w s) \<and>
     service_expected_time s w < now ev"

lemma rescue_service_ok:
  assumes "event_queues w q"
  shows "\<exists>w' q'. rescue_service ev s w = Some w' \<and> event_queues w' q' \<and>
    (\<forall>x. x \<noteq> s \<longrightarrow> svc_of w' x = svc_of w x) \<and> cfg w' = cfg w \<and>
    s_is_executing (svc_of w' s) = (s_is_executing (svc_of w s) \<and> \<not> lost_service_check ev s w) \<and>
    currently_running_service_checks w' =
      (if lost_service_check ev s w \<and> currently_running_service_checks w > 0
       then currently_running_service_checks w - 1 else currently_running_service_checks w)"
proof (cases "lost_service_check ev s w")
  case False
  then have "rescue_service ev s w = Some w" by (auto simp: rescue_service_def lost_service_check_def)
  with False assms show ?thesis by auto
next
  case True
  define w2 where "w2 = upd_svc s (\<lambda>v. v\<lparr>s_is_executing := False\<rparr>)
    (if currently_running_service_checks w > 0
     then w\<lparr>currently_running_service_checks := currently_running_service_checks w - 1\<rparr> else w)"
  have "event_queues w2 q" using assms event_queues_cong [of w2 w q] by (simp add: w2_def)
  from schedule_service_check_ok [OF this, of ev s "now ev" CHECK_OPTION_ORPHAN_CHECK] obtain w' q' where
    w': "schedule_service_check ev s (now ev) CHECK_OPTION_ORPHAN_CHECK w2 = Some w'" "event_queues w' q'"
      "scheduled_service_only s w2 w'" by blast
  have "rescue_service ev s w = Some w'"
    using True w'(1) by (simp add: rescue_service_def lost_service_check_def w2_def Let_def)
  with w' True show ?thesis by (auto simp: scheduled_service_only_def w2_def upd_svc_def)
qed

interpretation service_rescue: check_rescuer rescue_service "\<lambda>s w. s_is_executing (svc_of w s)" lost_service_check
    currently_running_service_checks
proof
  fix w q ev s
  assume "event_queues w q"
  from rescue_service_ok [OF this, of ev s] obtain w' q' where w': "rescue_service ev s w = Some w'" "event_queues w' q'"
    "\<forall>x. x \<noteq> s \<longrightarrow> svc_of w' x = svc_of w x" "cfg w' = cfg w"
    "s_is_executing (svc_of w' s) = (s_is_executing (svc_of w s) \<and> \<not> lost_service_check ev s w)"
    "currently_running_service_checks w' =
      (if lost_service_check ev s w \<and> currently_running_service_checks w > 0
       then currently_running_service_checks w - 1 else currently_running_service_checks w)" by blast
  then have "\<forall>x. x \<noteq> s \<longrightarrow> s_is_executing (svc_of w' x) = s_is_executing (svc_of w x) \<and>
      lost_service_check ev x w' = lost_service_check ev x w"
    by (simp add: lost_service_check_def service_expected_time_def)
  with w' show "\<exists>w' q'. rescue_service ev s w = Some w' \<and> event_queues w' q' \<and>
      (\<forall>x. x \<noteq> s \<longrightarrow> s_is_executing (svc_of w' x) = s_is_executing (svc_of w x) \<and>
         lost_service_check ev x w' = lost_service_check ev x w) \<and>
      s_is_executing (svc_of w' s) = (s_is_executing (svc_of w s) \<and> \<not> lost_service_check ev s w) \<and>
      currently_running_service_checks w' =
        (if lost_service_check ev s w \<and> 0 < currently_running_service_checks w
         then currently_running_service_checks w - 1 else currently_running_service_checks w)" by blast
qed

text \<open>C19. The search for lost service checks returns; afterwards exactly the services whose result
  was ten minutes late are no longer marked as executing, and the number of running checks has
  gone down by their number, but not below zero.\<close>

theorem lost_service_checks_released:
  assumes "event_queues w q" "distinct (service_list w)" "0 \<le> currently_running_service_checks w"
  shows "\<exists>w'. check_for_orphaned_services ev w = Some w' \<and>
    (\<forall>s. s_is_executing (svc_of w' s) \<longleftrightarrow>
       s_is_executing (svc_of w s) \<and> \<not> (s \<in> set (service_list w) \<and> lost_service_check ev s w)) \<and>
    currently_running_service_checks w' =
      max 0 (currently_running_service_checks w - int (card {s \<in> set (service_list w). lost_service_check ev s w}))"
  unfolding check_for_orphaned_services_def by (rule service_rescue.rescue_all [OF assms])

definition ex_lost_service :: engine where
  "ex_lost_service = upd_svc (''h'', ''s'') (\<lambda>v. v\<lparr>s_is_executing := True, s_next_check := 100\<rparr>)
     (ex_engine\<lparr>currently_running_service_checks := 4\<rparr>)"

theorem lost_service_checks_released_witness:
  "\<exists>w'. check_for_orphaned_services ex_env ex_lost_service = Some w' \<and> \<not> s_is_executing (svc_of w' (''h'', ''s'')) \<and>
     currently_running_service_checks w' = 3"
proof -
  have "event_queues ex_engine (\<lambda>_. [])"
    using ex_empty_queues by (simp add: event_queues_def ex_engine_def)
  then have "event_queues ex_lost_service (\<lambda>_. [])"
    using event_queues_cong [of ex_lost_service ex_engine "\<lambda>_. []"] by (simp add: ex_lost_service_def)
  moreover have l: "service_list ex_lost_service = [(''h'', ''s'')]"
    "currently_running_service_checks ex_lost_service = 4" "lost_service_check ex_env (''h'', ''s'') ex_lost_service"
    by code_simp+
  moreover have "{s. s = (''h'', ''s'') \<and> lost_service_check ex_env s ex_lost_service} = {(''h'', ''s'')}" using l(3) by auto
  ultimately show ?thesis using lost_service_checks_released [of ex_lost_service "\<lambda>_. []" ex_env] by auto
qed

end
