(* ===== verification/Queue_Frame.thy ===== *)
theory Queue_Frame
  imports Check_Frame Downtime_Lifecycle
begin

text \<open>
  What a call of the modelled code does to the event lists: they stay well formed, an event
  leaves them or is new, and an event in neither list is what it was. The relation
  \<open>queue_step\<close> between engines says it, and is an instance of \<open>service_frame\<close>, so
  every operation of comments, notifications, flapping, downtimes and checks keeps it.
\<close>

section \<open>The relation\<close>

text \<open>What decides when and whether an event runs again, and what the lists ask of it.\<close>

definition steady :: "timed_event \<Rightarrow> nat \<times> int \<times> bool \<times> nat \<times> addr option" where
  "steady evt = (event_type evt, run_time evt, recurring evt, event_interval evt, timing_func evt)"

definition kind :: "timed_event \<Rightarrow> nat \<times> bool" where
  "kind evt = (event_type evt, recurring evt)"

definition listable :: "timed_event \<Rightarrow> bool" where
  "listable evt \<longleftrightarrow> hash_type_of (event_type evt) \<noteq> None \<longrightarrow> \<not> recurring evt"

lemma payload_kept: "payload x = payload y \<Longrightarrow> steady x = steady y \<and> kind x = kind y"
  using payload_eqD [of x y] by (simp add: steady_def kind_def)

lemma steady_kind: "steady x = steady y \<Longrightarrow> kind x = kind y"
  by (simp add: steady_def kind_def)

lemma listable_kind: "kind x = kind y \<Longrightarrow> listable x = listable y"
  by (simp add: listable_def kind_def)

text \<open>Both lists are well formed, and no event of the index recurs.\<close>

definition queue_inv :: "engine \<Rightarrow> (priority \<Rightarrow> addr list) \<Rightarrow> bool" where
  "queue_inv w q \<longleftrightarrow> event_queues w q \<and> (\<forall>p. \<forall>a\<in>set (q p). listable (heap (evs w) a))"

definition queues_kept ::
    "engine \<Rightarrow> (priority \<Rightarrow> addr list) \<Rightarrow> engine \<Rightarrow> (priority \<Rightarrow> addr list) \<Rightarrow> bool" where
  "queues_kept w q w' q' \<longleftrightarrow> next_addr w \<le> next_addr w' \<and> queue_inv w' q' \<and>
     (\<forall>p. set (q' p) \<subseteq> set (q p) \<union> {next_addr w..}) \<and>
     (\<forall>a < next_addr w. (\<forall>p. a \<notin> set (q p)) \<longrightarrow> steady (heap (evs w') a) = steady (heap (evs w) a))"

definition queue_step :: "engine \<Rightarrow> engine \<Rightarrow> bool" where
  "queue_step w w' \<longleftrightarrow> (\<forall>q. queue_inv w q \<longrightarrow> (\<exists>q'. queues_kept w q w' q'))"

lemma queue_invD:
  assumes "queue_inv w q"
  shows "event_queues w q" "\<And>p a. a \<in> set (q p) \<Longrightarrow> listable (heap (evs w) a)"
    "\<And>p a. a \<in> set (q p) \<Longrightarrow> a < next_addr w" "queues (evs w) q" "index_ok (evs w) q"
  using assms by (auto simp: queue_inv_def event_queues_def)

lemma queues_keptD:
  assumes "queues_kept w q w' q'"
  shows "next_addr w \<le> next_addr w'" "queue_inv w' q'" "\<And>p. set (q' p) \<subseteq> set (q p) \<union> {next_addr w..}"
    "\<And>a. a < next_addr w \<Longrightarrow> \<forall>p. a \<notin> set (q p) \<Longrightarrow> steady (heap (evs w') a) = steady (heap (evs w) a)"
  using assms by (auto simp: queues_kept_def)

lemma queue_stepD: "queue_step w w' \<Longrightarrow> queue_inv w q \<Longrightarrow> \<exists>q'. queues_kept w q w' q'"
  by (simp add: queue_step_def)

lemma queue_inv_alloc: "queue_inv w q \<Longrightarrow> evs w' = evs w \<Longrightarrow> next_addr w \<le> next_addr w' \<Longrightarrow> queue_inv w' q"
  unfolding queue_inv_def event_queues_def by (elim conjE, intro conjI ballI allI, simp_all)
     (meson less_le_trans)

lemma queues_kept_same:
  "queue_inv w q \<Longrightarrow> evs w' = evs w \<Longrightarrow> next_addr w \<le> next_addr w' \<Longrightarrow> queues_kept w q w' q"
  by (auto simp: queues_kept_def queue_inv_alloc)

lemma queue_step_same: "evs w' = evs w \<Longrightarrow> next_addr w \<le> next_addr w' \<Longrightarrow> queue_step w w'"
  using queues_kept_same by (auto simp: queue_step_def)

lemma queues_kept_trans:
  assumes "queues_kept w q w1 q1" "queues_kept w1 q1 w2 q2"
  shows "queues_kept w q w2 q2"
proof -
  note k1 = queues_keptD [OF assms(1)] and k2 = queues_keptD [OF assms(2)]
  have "set (q2 p) \<subseteq> set (q p) \<union> {next_addr w..}" for p
    using k1(1) k1(3) [of p] k2(3) [of p] by fastforce
  moreover have "steady (heap (evs w2) a) = steady (heap (evs w) a)"
    if a: "a < next_addr w" "\<forall>p. a \<notin> set (q p)" for a
  proof -
    have "\<forall>p. a \<notin> set (q1 p)" using a k1(3) by fastforce
    then show ?thesis using k2(4) [of a] k1(4) [OF a] a(1) k1(1) by simp
  qed
  ultimately show ?thesis using k1(1) k2(1,2) by (simp add: queues_kept_def)
qed

lemma queue_step_trans: "queue_step w w1 \<Longrightarrow> queue_step w1 w2 \<Longrightarrow> queue_step w w2"
  unfolding queue_step_def using queues_kept_trans queues_keptD(2) by meson

text \<open>A change of the store that keeps the kind of what stays in the lists.\<close>

lemma queues_keptI:
  assumes "queue_inv w q" "event_queues w' q'" "next_addr w \<le> next_addr w'"
    and "\<And>p a. a \<in> set (q' p) \<Longrightarrow>
      (\<exists>p. a \<in> set (q p)) \<and> kind (heap (evs w') a) = kind (heap (evs w) a) \<or>
      next_addr w \<le> a \<and> listable (heap (evs w') a)"
    and "\<And>p. set (q' p) \<subseteq> set (q p) \<union> {next_addr w..}"
    and "\<And>a. a < next_addr w \<Longrightarrow> \<forall>p. a \<notin> set (q p) \<Longrightarrow> steady (heap (evs w') a) = steady (heap (evs w) a)"
  shows "queues_kept w q w' q'"
proof -
  have "listable (heap (evs w') a)" if "a \<in> set (q' p)" for p a
    using assms(4) [OF that] queue_invD(2) [OF assms(1), of a] listable_kind by blast
  with assms show ?thesis by (simp add: queues_kept_def queue_inv_def)
qed

lemma queues_kept_store:
  assumes "queue_inv w q" "queues s q'" "index_ok s q'" "\<And>p. set (q' p) \<subseteq> set (q p)"
    "\<And>a. kind (heap s a) = kind (heap (evs w) a)"
    "\<And>a. \<forall>p. a \<notin> set (q p) \<Longrightarrow> steady (heap s a) = steady (heap (evs w) a)"
  shows "queues_kept w q (w\<lparr>evs := s\<rparr>) q'"
proof (rule queues_keptI [OF assms(1)])
  show "event_queues (w\<lparr>evs := s\<rparr>) q'"
    using assms(2-4) queue_invD(3) [OF assms(1)] by (fastforce simp: event_queues_def)
  show "(\<exists>p. a \<in> set (q p)) \<and> kind (heap (evs (w\<lparr>evs := s\<rparr>)) a) = kind (heap (evs w) a) \<or>
      next_addr w \<le> a \<and> listable (heap (evs (w\<lparr>evs := s\<rparr>)) a)" if "a \<in> set (q' p)" for p a
    using that assms(4) [of p] assms(5) [of a] by auto
  show "set (q' p) \<subseteq> set (q p) \<union> {next_addr w..}" for p using assms(4) [of p] by blast
qed (use assms(6) in simp_all)

section \<open>The two ways an event is queued\<close>

lemma queues_kept_new:
  assumes "queue_inv w q" "event_queues w' q'" "next_addr w' = Suc (next_addr w)"
    "\<And>p. set (q' p) \<subseteq> insert (next_addr w) (set (q p))" "listable (heap (evs w') (next_addr w))"
    "\<And>b. b \<noteq> next_addr w \<Longrightarrow> payload (heap (evs w') b) = payload (heap (evs w) b)"
  shows "queues_kept w q w' q'"
proof (rule queues_keptI [OF assms(1,2)])
  note old = payload_kept [OF assms(6)]
  show "(\<exists>p. b \<in> set (q p)) \<and> kind (heap (evs w') b) = kind (heap (evs w) b) \<or>
      next_addr w \<le> b \<and> listable (heap (evs w') b)" if "b \<in> set (q' p)" for b p
    using that assms(4) [of p] assms(5) old [of b] by (cases "b = next_addr w") auto
  show "steady (heap (evs w') b) = steady (heap (evs w) b)" if "b < next_addr w" for b
    using old [of b] that by simp
  show "set (q' p) \<subseteq> set (q p) \<union> {next_addr w..}" for p using assms(4) [of p] by auto
qed (simp add: assms(3))

lemma queue_step_new_event:
  assumes "schedule_new_event ty hp t rec interval tf cmp data args opts w = Some w'" "hash_type_of ty = None"
  shows "queue_step w w'"
  unfolding queue_step_def
proof (intro allI impI)
  fix q assume q: "queue_inv w q"
  let ?a = "next_addr w" and ?p = "if hp then High else Low"
  obtain s where s: "w' = w\<lparr>evs := s, next_addr := Suc ?a\<rparr>"
    "event_queues w' (q(?p := insert_after (rt s) ?a (q ?p)))" "event_type (heap s ?a) = ty"
    "\<And>b. b \<noteq> ?a \<Longrightarrow> payload (heap s b) = payload (heap (evs w) b)"
    using schedule_new_event_queued [OF queue_invD(1) [OF q] assms(2), of hp t rec interval tf cmp data args opts]
      assms(1) by auto
  show "\<exists>q'. queues_kept w q w' q'"
    by (rule exI, rule queues_kept_new [OF q s(2)]) (auto simp: s assms(2) listable_def)
qed

context check_scheduler
begin

lemma queue_step_replaced:
  assumes "replace_check_event ev (hash_find Low ht d (evs w)) (new_check_event ty d t opts) w = Some w'"
  shows "queue_step w w'"
  unfolding queue_step_def
proof (intro allI impI)
  fix q assume q: "queue_inv w q"
  let ?a = "next_addr w"
  from replace_check_event_ok [OF queue_invD(1) [OF q] refl, of ev d t opts] assms
  obtain s q' where s: "w' = w\<lparr>evs := s, next_addr := Suc ?a\<rparr>" "event_queues w' q'" "q' High = q High"
    "set (q' Low) = insert ?a (set (q Low) - set_option (hash_find Low ht d (evs w)))"
    "payload (heap s ?a) = new_check_event ty d t opts"
    "\<forall>b. b \<noteq> ?a \<longrightarrow> payload (heap s b) = payload (heap (evs w) b)"
    by auto
  have "set (q' p) \<subseteq> insert ?a (set (q p))" for p using s(3,4) by (cases p) auto
  moreover have "payload (heap s ?a) = payload (new_check_event ty d t opts)" using s(5) by simp
  from payload_eqD(4) [OF this] have "\<not> recurring (heap s ?a)" by (simp add: new_check_event_def)
  ultimately show "\<exists>q'. queues_kept w q w' q'"
    by (intro exI [of _ q'] queues_kept_new [OF q s(2)]) (simp_all add: s(1,6) listable_def)
qed

end

section \<open>The instance\<close>

interpretation queue: service_frame queue_step
proof unfold_locales
  fix w w' :: engine
  show "queue_step w w" by (simp add: queue_step_same)
  show "notif_frame w w' \<Longrightarrow> queue_step w w'" by (intro queue_step_same) (simp_all add: notif_frame_def)
qed (auto intro: queue_step_trans queue_step_same queue_step_new_event svc_sched.queue_step_replaced
    hst_sched.queue_step_replaced)

end
