(* ===== verification/Event_Loop.thy ===== *)
theory Event_Loop
  imports Service_Check Acknowledgements
begin

text \<open>
  The main loop (\<^verbatim>\<open>src/events/loop.cc\<close>): one turn of \<open>_dispatching\<close> and the loop over turns;
  what the events do (\<^verbatim>\<open>src/events/timed_event.cc\<close>), the compensation of a time change for
  the objects, and the adjustment of check times (\<^verbatim>\<open>src/events/sched_info.cc\<close>).
\<close>

section \<open>The loop and what it is told\<close>

definition EVENT_COMMAND_CHECK :: nat where "EVENT_COMMAND_CHECK = 1"
definition EVENT_LOG_ROTATION :: nat where "EVENT_LOG_ROTATION = 2"
definition EVENT_PROGRAM_SHUTDOWN :: nat where "EVENT_PROGRAM_SHUTDOWN = 3"
definition EVENT_PROGRAM_RESTART :: nat where "EVENT_PROGRAM_RESTART = 4"
definition EVENT_CHECK_REAPER :: nat where "EVENT_CHECK_REAPER = 5"
definition EVENT_ORPHAN_CHECK :: nat where "EVENT_ORPHAN_CHECK = 6"
definition EVENT_RETENTION_SAVE :: nat where "EVENT_RETENTION_SAVE = 7"
definition EVENT_STATUS_SAVE :: nat where "EVENT_STATUS_SAVE = 8"
definition EVENT_SFRESHNESS_CHECK :: nat where "EVENT_SFRESHNESS_CHECK = 10"
definition EVENT_HFRESHNESS_CHECK :: nat where "EVENT_HFRESHNESS_CHECK = 13"
definition EVENT_RESCHEDULE_CHECKS :: nat where "EVENT_RESCHEDULE_CHECKS = 14"
definition EVENT_USER_FUNCTION :: nat where "EVENT_USER_FUNCTION = 99"

lemmas event_numbers = EVENT_SERVICE_CHECK_def EVENT_COMMAND_CHECK_def EVENT_LOG_ROTATION_def
  EVENT_PROGRAM_SHUTDOWN_def EVENT_PROGRAM_RESTART_def EVENT_CHECK_REAPER_def EVENT_ORPHAN_CHECK_def
  EVENT_RETENTION_SAVE_def EVENT_STATUS_SAVE_def EVENT_SCHEDULED_DOWNTIME_def EVENT_SFRESHNESS_CHECK_def
  EVENT_EXPIRE_DOWNTIME_def EVENT_HOST_CHECK_def EVENT_HFRESHNESS_CHECK_def EVENT_RESCHEDULE_CHECKS_def
  EVENT_EXPIRE_COMMENT_def EVENT_EXPIRE_HOST_ACK_def EVENT_EXPIRE_SERVICE_ACK_def EVENT_USER_FUNCTION_def

record main_loop =
  ml_engine :: engine
  ml_last_time :: int
  ml_last_status_update :: int
  ml_sigshutdown :: bool
  ml_sighup :: bool
  ml_need_reload :: nat
  ml_reload_running :: bool

text \<open>
  What one turn meets: the environment, those of the results the reaper handles and whether a
  shutdown signal came behind each, the state of the configuration thread and what it does when
  it is let in, the random number, the function a module registered for user events, and what
  is called back to check for external commands. The repository has one module for that; it
  builds on the engine, so \<open>Command_Loop\<close> puts it in here.
\<close>

record turn =
  t_env :: env
  t_reap_env :: "nat \<Rightarrow> env"
  t_reap_signal :: "nat \<Rightarrow> bool"
  t_reload_finished :: bool
  t_apply :: "engine \<Rightarrow> engine"
  t_rand :: nat
  t_user_function :: "edata \<Rightarrow> addr option \<Rightarrow> engine \<Rightarrow> engine"
  t_external_commands :: "engine \<Rightarrow> engine option"

definition on_engine :: "(engine \<Rightarrow> engine option) \<Rightarrow> main_loop \<Rightarrow> main_loop option" where
  "on_engine f m = map_option (\<lambda>w. m\<lparr>ml_engine := w\<rparr>) (f (ml_engine m))"

definition upd_engine :: "(engine \<Rightarrow> engine) \<Rightarrow> main_loop \<Rightarrow> main_loop" where
  "upd_engine f m = m\<lparr>ml_engine := f (ml_engine m)\<rparr>"

definition external_command_check :: "turn \<Rightarrow> engine \<Rightarrow> engine option" where
  "external_command_check t w = t_external_commands t (emit Broker_external_command_check w)"

section \<open>Adjusting the times of checks\<close>

definition projected_check_overhead :: rat where "projected_check_overhead = 1 / 10"

definition adjustable_check :: "engine \<Rightarrow> timed_event \<Rightarrow> bool" where
  "adjustable_check w evt \<longleftrightarrow>
     event_type evt = EVENT_HOST_CHECK \<and>
       (case event_data evt of Some (HostPtr h) \<Rightarrow> \<not> forced (h_check_options (host_of w h)) | _ \<Rightarrow> False) \<or>
     event_type evt = EVENT_SERVICE_CHECK \<and>
       (case event_data evt of Some (ServicePtr s) \<Rightarrow> \<not> forced (s_check_options (svc_of w s)) | _ \<Rightarrow> False)"

text \<open>The events both loops of the source look at: checks inside the window, not forced.\<close>

partial_function (option) checks_in_window ::
    "int \<times> int \<Rightarrow> engine \<Rightarrow> addr option \<Rightarrow> addr list option" where
  "checks_in_window win w p =
     (case p of
        None \<Rightarrow> Some []
      | Some e \<Rightarrow>
          let tmp = heap (evs w) e in
          if run_time tmp \<le> fst win then checks_in_window win w (ev_next tmp)
          else if run_time tmp > snd win then Some []
          else Option.bind (checks_in_window win w (ev_next tmp))
                 (\<lambda>es. Some (if adjustable_check w tmp then e # es else es)))"

declare checks_in_window.simps [code]

definition checks_bump :: "engine \<Rightarrow> addr list \<Rightarrow> bool" where
  "checks_bump w es =
     snd (snd (fold (\<lambda>e (last_check_time, last_check_exec_time, adjust).
         (of_int (run_time (heap (evs w) e)), projected_check_overhead,
          adjust \<or> last_check_time + last_check_exec_time > of_int (run_time (heap (evs w) e))))
       es (0 :: rat, 0 :: rat, False)))"

definition check_exec_time :: "engine \<Rightarrow> addr \<Rightarrow> rat" where
  "check_exec_time w e =
     (case event_data (heap (evs w) e) of
        Some (HostPtr h) \<Rightarrow> h_execution_time (host_of w h) + projected_check_overhead
      | _ \<Rightarrow> projected_check_overhead)"

definition move_check :: "addr \<Rightarrow> int \<Rightarrow> engine \<Rightarrow> engine" where
  "move_check e t w =
     (let w1 = w\<lparr>evs := set_run_time e t (evs w)\<rparr> in
      case event_data (heap (evs w) e) of
        Some (HostPtr h) \<Rightarrow> emit (Update_status (HostTarget h)) (upd_host h (\<lambda>v. v\<lparr>h_next_check := t\<rparr>) w1)
      | Some (ServicePtr s) \<Rightarrow> emit (Update_status (ServiceTarget s)) (upd_svc s (\<lambda>v. v\<lparr>s_next_check := t\<rparr>) w1)
      | _ \<Rightarrow> w1)"

fun move_checks :: "int \<Rightarrow> rat \<Rightarrow> rat \<Rightarrow> rat \<times> rat \<Rightarrow> addr list \<Rightarrow> engine \<Rightarrow> engine" where
  "move_checks first_window_time inter_check_delay exec_time_factor offsets [] w = w"
| "move_checks first_window_time inter_check_delay exec_time_factor (icd_offset, exec_offset) (e # es) w =
     (let current_exec_time = check_exec_time w e * exec_time_factor
      in move_checks first_window_time inter_check_delay exec_time_factor
           (icd_offset + inter_check_delay, exec_offset + current_exec_time) es
           (move_check e (first_window_time + \<lfloor>exec_offset + icd_offset\<rfloor>) w))"

text \<open>The delay between two checks, and the factor of their execution times.\<close>

definition check_spacing :: "int \<Rightarrow> nat \<Rightarrow> rat \<times> rat" where
  "check_spacing window total_checks =
     (let total_check_exec_time = of_nat total_checks * projected_check_overhead
      in if \<lfloor>total_check_exec_time\<rfloor> > window then (0, of_int window / total_check_exec_time)
         else ((of_int window - total_check_exec_time) / of_nat total_checks, 1))"

definition adjust_check_scheduling :: "env \<Rightarrow> engine \<Rightarrow> engine option" where
  "adjust_check_scheduling ev w =
     (let window = auto_rescheduling_window (cfg w);
          first_window_time = now ev
      in Option.bind (checks_in_window (first_window_time, first_window_time + window) w (list_head (evs w) Low)) (\<lambda>es.
         if es = [] \<or> \<not> checks_bump w es then Some w
         else
           let (inter_check_delay, exec_time_factor) = check_spacing window (length es);
               w1 = move_checks first_window_time inter_check_delay exec_time_factor
                      (inter_check_delay / 2, 0) es w
           in map_option (\<lambda>s. w1\<lparr>evs := s\<rparr>) (resort_event_list Low (evs w1))))"

section \<open>Compensating a time change\<close>

definition compensate_service :: "env \<Rightarrow> int \<Rightarrow> int \<Rightarrow> svc_id \<Rightarrow> engine \<Rightarrow> engine" where
  "compensate_service ev last_time current_time s w =
     (let adj = adjust_timestamp_for_time_change last_time current_time (time_difference_of last_time current_time);
          w1 = upd_svc s (\<lambda>v. v\<lparr>s_last_notification := adj (s_last_notification v), s_last_check := adj (s_last_check v),
                 s_next_check := adj (s_next_check v), s_last_state_change := adj (s_last_state_change v),
                 s_last_hard_state_change := adj (s_last_hard_state_change v)\<rparr>) w;
          w2 = upd_svc_other s (\<lambda>p. p\<lparr>so_initial_notif_time := adj (so_initial_notif_time p),
                 so_last_acknowledgement := adj (so_last_acknowledgement p)\<rparr>) w1;
          (t, w3) = get_next_service_notification_time ev s (s_last_notification (svc_of w2 s)) w2
      in emit (Update_status (ServiceTarget s)) (upd_svc s (\<lambda>v. v\<lparr>s_next_notification := t\<rparr>) w3))"

definition compensate_host :: "env \<Rightarrow> int \<Rightarrow> int \<Rightarrow> host_id \<Rightarrow> engine \<Rightarrow> engine" where
  "compensate_host ev last_time current_time h w =
     (let adj = adjust_timestamp_for_time_change last_time current_time (time_difference_of last_time current_time);
          w1 = upd_host h (\<lambda>v. v\<lparr>h_last_host_notification := adj (h_last_host_notification v),
                 h_last_check := adj (h_last_check v), h_next_check := adj (h_next_check v),
                 h_last_state_change := adj (h_last_state_change v),
                 h_last_hard_state_change := adj (h_last_hard_state_change v),
                 h_last_state_history_update := adj (h_last_state_history_update v)\<rparr>) w;
          w2 = upd_host_other h (\<lambda>p. p\<lparr>ho_initial_notif_time := adj (ho_initial_notif_time p),
                 ho_last_acknowledgement := adj (ho_last_acknowledgement p)\<rparr>) w1;
          (t, w3) = get_next_host_notification_time ev h (h_last_host_notification (host_of w2 h)) w2
      in emit (Update_status (HostTarget h)) (upd_host h (\<lambda>v. v\<lparr>h_next_host_notification := t\<rparr>) w3))"

definition compensate_for_system_time_change :: "env \<Rightarrow> int \<Rightarrow> int \<Rightarrow> engine \<Rightarrow> engine option" where
  "compensate_for_system_time_change ev last_time current_time w =
     map_option (\<lambda>s.
       (let adj = adjust_timestamp_for_time_change last_time current_time (time_difference_of last_time current_time);
            w1 = fold (compensate_service ev last_time current_time) (service_list w) (w\<lparr>evs := s\<rparr>);
            w2 = fold (compensate_host ev last_time current_time) (host_list w1) w1
        in emit Update_program_status (w2\<lparr>program_start := adj (program_start w2),
             event_start := adj (event_start w2), last_command_check := adj (last_command_check w2)\<rparr>)))
       (compensate_event_lists (call_timing_func ev) last_time current_time (evs w))"

section \<open>Handling an event\<close>

definition check_latency :: "env \<Rightarrow> timed_event \<Rightarrow> rat" where
  "check_latency ev evt = of_int (now ev - run_time evt) + of_int (now_us ev div 1000) / 1000"

text \<open>
  The entry of the dispatch table for a type of event; data that is not what the handler casts
  it to, and the null pointer at the end of the table, are \<open>None\<close>.
\<close>

definition exec_downtime_event :: "env \<Rightarrow> addr \<Rightarrow> engine \<Rightarrow> engine option" where
  "exec_downtime_event ev e w =
     (case event_data (heap (evs w) e) of
        None \<Rightarrow> Some w
      | Some (IdPtr a i) \<Rightarrow>
          map_option (\<lambda>(_, w1). w1\<lparr>evs := (evs w1)\<lparr>heap := (heap (evs w1))
              (e := (heap (evs w1) e)\<lparr>event_data := None\<rparr>)\<rparr>\<rparr>)
            (handle_scheduled_downtime_by_id ev i w)
      | Some _ \<Rightarrow> None)"

definition exec_event :: "turn \<Rightarrow> addr \<Rightarrow> main_loop \<Rightarrow> main_loop option" where
  "exec_event t e m =
     (let evt = heap (evs (ml_engine m)) e; ty = event_type evt; ev = t_env t in
      if ty = EVENT_SERVICE_CHECK then
        (case event_data evt of
           Some (ServicePtr s) \<Rightarrow> on_engine (\<lambda>w. map_option snd
             (run_scheduled_service_check ev s (event_options evt) (check_latency ev evt) w)) m
         | _ \<Rightarrow> None)
      else if ty = EVENT_COMMAND_CHECK then on_engine (external_command_check t) m
      else if ty = EVENT_LOG_ROTATION then Some m
      else if ty = EVENT_PROGRAM_SHUTDOWN then Some (m\<lparr>ml_sigshutdown := True\<rparr>)
      else if ty = EVENT_PROGRAM_RESTART then Some (m\<lparr>ml_sighup := True\<rparr>)
      else if ty = EVENT_CHECK_REAPER then on_engine (reap (t_reap_env t) (t_reap_signal t)) m
      else if ty = EVENT_ORPHAN_CHECK then
        on_engine (\<lambda>w. do {
          w1 \<leftarrow> (if check_orphaned_hosts (cfg w) then check_for_orphaned_hosts ev w else Some w);
          if check_orphaned_services (cfg w1) then check_for_orphaned_services ev w1 else Some w1
        }) m
      else if ty = EVENT_RETENTION_SAVE then Some (upd_engine (emit Save_retention_data) m)
      else if ty = EVENT_STATUS_SAVE then Some (upd_engine (emit Save_status_data) m)
      else if ty = EVENT_SCHEDULED_DOWNTIME then on_engine (exec_downtime_event ev e) m
      else if ty = EVENT_SFRESHNESS_CHECK then on_engine (check_service_result_freshness ev) m
      else if ty = EVENT_EXPIRE_DOWNTIME then Some (upd_engine (check_for_expired_downtime ev) m)
      else if ty = EVENT_HOST_CHECK then
        (case event_data evt of
           Some (HostPtr h) \<Rightarrow> on_engine (\<lambda>w. map_option snd
             (run_scheduled_host_check_3x ev h (event_options evt) (check_latency ev evt) w)) m
         | _ \<Rightarrow> None)
      else if ty = EVENT_HFRESHNESS_CHECK then on_engine (check_host_result_freshness ev) m
      else if ty = EVENT_RESCHEDULE_CHECKS then on_engine (adjust_check_scheduling ev) m
      else if ty = EVENT_EXPIRE_COMMENT then
        (case event_data evt of
           None \<Rightarrow> Some (upd_engine (check_for_expired_comment ev 0) m)
         | Some (RawPtr i) \<Rightarrow> Some (upd_engine (check_for_expired_comment ev i) m)
         | Some _ \<Rightarrow> None)
      else if ty = EVENT_EXPIRE_HOST_ACK then
        (case event_data evt of
           Some (HostPtr h) \<Rightarrow> Some (upd_engine (check_for_expired_host_acknowledgement ev h) m)
         | _ \<Rightarrow> None)
      else if ty = EVENT_EXPIRE_SERVICE_ACK then
        (case event_data evt of
           Some (ServicePtr s) \<Rightarrow> Some (upd_engine (check_for_expired_service_acknowledgement ev s) m)
         | _ \<Rightarrow> None)
      else if ty = EVENT_EXPIRE_SERVICE_ACK + 1 then None
      else if ty = EVENT_USER_FUNCTION then
        (case event_data evt of
           Some f \<Rightarrow> Some (upd_engine (t_user_function t f (event_args evt)) m)
         | None \<Rightarrow> Some m)
      else Some m)"

definition handle_timed_event :: "turn \<Rightarrow> addr \<Rightarrow> main_loop \<Rightarrow> main_loop option" where
  "handle_timed_event t e m =
     exec_event t e (upd_engine (\<lambda>w. w\<lparr>evs := broker_timed_event NEB_timed_execute (Some e) (evs w)\<rparr>) m)"

section \<open>One turn\<close>

definition pop_event :: "priority \<Rightarrow> addr \<Rightarrow> evstore \<Rightarrow> evstore" where
  "pop_event p e s =
     (let s1 = set_head p (ev_next (heap s e)) s;
          s2 = (case list_head s1 p of None \<Rightarrow> s1 | Some f \<Rightarrow> set_prev f None s1)
      in hash_erase p e s2)"

definition requeue :: "env \<Rightarrow> addr \<Rightarrow> priority \<Rightarrow> engine \<Rightarrow> engine option" where
  "requeue ev e p w =
     map_option (\<lambda>s. w\<lparr>evs := s\<rparr>) (reschedule_event (call_timing_func ev) (now ev) e p (evs w))"

definition run_event :: "turn \<Rightarrow> priority \<Rightarrow> addr \<Rightarrow> main_loop \<Rightarrow> main_loop option" where
  "run_event t p e m = do {
     m1 \<leftarrow> handle_timed_event t e (upd_engine (\<lambda>w. w\<lparr>evs := pop_event p e (evs w)\<rparr>) m);
     if recurring (heap (evs (ml_engine m1)) e) then on_engine (requeue (t_env t) e p) m1 else Some m1
   }"

definition due :: "int \<Rightarrow> priority \<Rightarrow> evstore \<Rightarrow> addr option" where
  "due current_time p s =
     (case list_head s p of
        None \<Rightarrow> None
      | Some e \<Rightarrow> if current_time \<ge> run_time (heap s e) then Some e else None)"

definition too_many_checks :: "engine \<Rightarrow> bool" where
  "too_many_checks w \<longleftrightarrow> max_parallel_service_checks (cfg w) \<noteq> 0 \<and>
     currently_running_service_checks w \<ge> max_parallel_service_checks (cfg w)"

definition may_run_service :: "svc_id \<Rightarrow> engine \<Rightarrow> bool" where
  "may_run_service s w \<longleftrightarrow>
     \<not> too_many_checks w \<and> execute_service_checks (cfg w) \<or> forced (s_check_options (svc_of w s))"

definition may_run_host :: "host_id \<Rightarrow> engine \<Rightarrow> bool" where
  "may_run_host h w \<longleftrightarrow> execute_host_checks (cfg w) \<or> forced (h_check_options (host_of w h))"

text \<open>A check that may not run is removed from the list and queued again for later.\<close>

definition postpone_event :: "env \<Rightarrow> addr \<Rightarrow> int \<Rightarrow> engine \<Rightarrow> engine option" where
  "postpone_event ev e t w =
     map_option (\<lambda>s. w\<lparr>evs := s\<rparr>)
       (reschedule_event (call_timing_func ev) (now ev) e Low (set_run_time e t (evs w)))"

definition postponed_service_check :: "turn \<Rightarrow> svc_id \<Rightarrow> engine \<Rightarrow> int" where
  "postponed_service_check t s w =
     (let v = svc_of w s in
      if too_many_checks w then s_next_check v + (5 + int (t_rand t) mod 10)
      else trunc_to_time (of_int (s_next_check v) +
        (if s_state_type v = SOFT_STATE \<and> s_current_state v \<noteq> STATE_OK then s_retry_interval v
         else s_check_interval v) * of_int (interval_length (cfg w))))"

definition postpone_service :: "turn \<Rightarrow> addr \<Rightarrow> svc_id \<Rightarrow> engine \<Rightarrow> engine option" where
  "postpone_service t e s w = do {
     s1 \<leftarrow> remove_event (Some e) Low (evs w);
     let next_check = postponed_service_check t s w;
     w2 \<leftarrow> postpone_event (t_env t) e next_check (upd_svc s (\<lambda>v. v\<lparr>s_next_check := next_check\<rparr>) (w\<lparr>evs := s1\<rparr>));
     Some (emit (Update_status (ServiceTarget s)) w2)
   }"

definition postponed_host_check :: "host_id \<Rightarrow> engine \<Rightarrow> int" where
  "postponed_host_check h w =
     (let v = host_of w h in
      trunc_to_time (of_int (h_next_check v) +
        (if h_state_type v = SOFT_STATE \<and> h_current_state v \<noteq> HOST_UP then h_retry_interval v
         else h_check_interval v) * of_int (interval_length (cfg w))))"

definition postpone_host :: "turn \<Rightarrow> addr \<Rightarrow> host_id \<Rightarrow> engine \<Rightarrow> engine option" where
  "postpone_host t e h w = do {
     s1 \<leftarrow> remove_event (Some e) Low (evs w);
     let t1 = postponed_host_check h w;
     w2 \<leftarrow> postpone_event (t_env t) e t1 (upd_host h (\<lambda>v. v\<lparr>h_next_check := t1\<rparr>) (w\<lparr>evs := s1\<rparr>));
     Some (emit (Update_status (HostTarget h)) w2)
   }"

definition run_low_event :: "turn \<Rightarrow> addr \<Rightarrow> main_loop \<Rightarrow> main_loop option" where
  "run_low_event t e m =
     (let w = ml_engine m; evt = heap (evs w) e in
      if event_type evt = EVENT_SERVICE_CHECK then
        (case event_data evt of
           Some (ServicePtr s) \<Rightarrow>
             if may_run_service s w then run_event t Low e m
             else map_option (upd_engine (emit Idle)) (on_engine (postpone_service t e s) m)
         | _ \<Rightarrow> None)
      else if event_type evt = EVENT_HOST_CHECK then
        (case event_data evt of
           Some (HostPtr h) \<Rightarrow>
             if may_run_host h w then run_event t Low e m
             else map_option (upd_engine (emit Idle)) (on_engine (postpone_host t e h) m)
         | _ \<Rightarrow> None)
      else run_event t Low e m)"

definition idle :: "turn \<Rightarrow> engine \<Rightarrow> engine option" where
  "idle t w =
     map_option (\<lambda>w1. emit Idle (emit Broker_sleep w1))
       (if command_check_interval (cfg w) = - 1 then external_command_check t w else Some w)"

definition handle_reload :: "turn \<Rightarrow> main_loop \<Rightarrow> main_loop" where
  "handle_reload t m =
     (let m1 = (if ml_sighup m then m\<lparr>ml_need_reload := (ml_need_reload m + 1) mod 2 ^ 32, ml_sighup := False\<rparr> else m)
      in if ml_need_reload m1 \<noteq> 0 \<and> \<not> ml_reload_running m1
         then m1\<lparr>ml_reload_running := True, ml_need_reload := 0\<rparr>
         else if ml_reload_running m1
         then (if \<not> t_reload_finished t then upd_engine (t_apply t) m1 else m1\<lparr>ml_reload_running := False\<rparr>)
         else m1)"

definition handle_time :: "turn \<Rightarrow> main_loop \<Rightarrow> main_loop option" where
  "handle_time t m =
     (let current_time = now (t_env t); last_time = ml_last_time m in
      map_option (\<lambda>m1.
          (let m2 = m1\<lparr>ml_last_time := current_time\<rparr>
           in if ulong_of (current_time - ml_last_status_update m2) > 5
              then upd_engine (emit Update_program_status) (m2\<lparr>ml_last_status_update := current_time\<rparr>) else m2))
        (if current_time < last_time \<or> current_time - last_time \<ge> time_change_threshold (cfg (ml_engine m))
         then on_engine (compensate_for_system_time_change (t_env t) last_time current_time) m
         else Some m))"

definition handle_events :: "turn \<Rightarrow> main_loop \<Rightarrow> main_loop option" where
  "handle_events t m =
     (let current_time = now (t_env t); s = evs (ml_engine m) in
      case due current_time High s of
        Some e \<Rightarrow> run_event t High e m
      | None \<Rightarrow>
          case due current_time Low s of
            Some e \<Rightarrow> run_low_event t e m
          | None \<Rightarrow> on_engine (idle t) m)"

text \<open>One turn of the loop: the flag says that the loop is left.\<close>

definition dispatch_turn :: "turn \<Rightarrow> main_loop \<Rightarrow> (bool \<times> main_loop) option" where
  "dispatch_turn t m =
     (if ml_sigshutdown m then Some (True, m)
      else if list_head (evs (ml_engine m)) High = None \<and> list_head (evs (ml_engine m)) Low = None
      then Some (True, m)
      else map_option (Pair False) (Option.bind (handle_time t (handle_reload t m)) (handle_events t)))"

partial_function (option) dispatching :: "(nat \<Rightarrow> turn) \<Rightarrow> nat \<Rightarrow> main_loop \<Rightarrow> main_loop option" where
  "dispatching turns i m =
     (case dispatch_turn (turns i) m of
        None \<Rightarrow> None
      | Some (quit, m1) \<Rightarrow> if quit then Some m1 else dispatching turns (Suc i) m1)"

definition loop_begin :: "(nat \<Rightarrow> turn) \<Rightarrow> engine \<Rightarrow> main_loop" where
  "loop_begin turns w =
     \<lparr>ml_engine = w, ml_last_time = now (t_env (turns 0)), ml_last_status_update = 0,
       ml_sigshutdown = False, ml_sighup = False, ml_need_reload = 0, ml_reload_running = False\<rparr>"

definition run_loop :: "(nat \<Rightarrow> turn) \<Rightarrow> engine \<Rightarrow> main_loop option" where
  "run_loop turns w = dispatching turns 0 (loop_begin turns w)"

end
