(* ===== verification/Event_Loop_Facts.thy ===== *)
theory Event_Loop_Facts
  imports Queue_Frame Event_Loop
begin

text \<open>
  What the pieces of the main loop do to the event lists: taking the first event, queueing it
  again, postponing a check, compensating a time change, adjusting check times, and each
  entry of the dispatch table.
\<close>

section \<open>Taking the first event\<close>

lemma pop_event_queues:
  assumes "queues s q" "index_ok s q" "q p = e # r"
  shows "queues (pop_event p e s) (q(p := r))" "index_ok (pop_event p e s) (q(p := r))"
    "payload (heap (pop_event p e s) a) = payload (heap s a)"
proof -
  note rep = queues_rep [OF assms(1), of p, unfolded assms(3)]
  have nxt: "ev_next (heap s e) = hd_opt r" "distinct (e # r)" "dseg (heap s) (Some e) r None"
    using rep by (cases r; simp add: event_list_rep_def dll_def)+
  define s1 where "s1 = set_head p (hd_opt r) s"
  define s2 where "s2 = (case hd_opt r of None \<Rightarrow> s1 | Some f \<Rightarrow> set_prev f None s1)"
  have pop: "pop_event p e s = hash_erase p e s2"
    by (cases r) (simp_all add: pop_event_def nxt s2_def s1_def Let_def)
  have fr: "ev_frame p (insert e (set (q p))) s (pop_event p e s)"
    by (cases r) (auto simp: pop s2_def s1_def ev_frame_def assms(3))
  have hev: "hevent (pop_event p e s) = hevent (hash_erase p e s)"
    by (cases r) (auto simp: pop s2_def s1_def hash_erase_def store_defs split: option.split)
  have dll: "dll (pop_event p e s) p r"
    using rep nxt by (cases r) (auto simp: pop s2_def s1_def dll_def event_list_rep_def)
  have "rt (pop_event p e s) = rt s" using ev_frame_rt [OF fr] by auto
  then have "event_list_rep p (pop_event p e s) r"
    using dll rep by (simp add: event_list_rep_def)
  then show "queues (pop_event p e s) (q(p := r))"
    using queues_frame [OF assms(1) fr] queues_disjoint [OF assms(1), of p] assms(3) by fastforce
  have "e \<in> set (q p)" by (simp add: assms(3))
  from index_erased [OF assms(1,2) this fr hev] nxt(2) show "index_ok (pop_event p e s) (q(p := r))"
    by (simp add: assms(3))
  show "payload (heap (pop_event p e s) a) = payload (heap s a)" using fr by (simp add: ev_frame_def)
qed

lemma pop_queues_kept:
  assumes "queue_inv w q" "q p = e # r"
  shows "queues_kept w q (w\<lparr>evs := pop_event p e (evs w)\<rparr>) (q(p := r))"
proof -
  note pop = pop_event_queues [OF queue_invD(4,5) [OF assms(1)] assms(2)]
  show ?thesis
    by (rule queues_kept_store [OF assms(1) pop(1,2)]) (use assms(2) payload_kept [OF pop(3)] in auto)
qed

section \<open>Queueing an event\<close>

text \<open>An event outside the lists gets a new time and is queued: it is in its list afterwards.\<close>

lemma reschedule_queues:
  assumes "queue_inv w q" "\<forall>p. e \<notin> set (q p)" "e < next_addr w" "listable (heap (evs w) e)"
    "\<forall>a\<in>set (q p). indexed (evs w) a = None \<or> indexed (evs w) a \<noteq> indexed (evs w) e"
  shows "\<exists>s xs. add_event e p (set_run_time e t (evs w)) = Some s \<and>
    queue_inv (w\<lparr>evs := s\<rparr>) (q(p := xs)) \<and> set xs = insert e (set (q p)) \<and> rt s e = t \<and>
    (\<forall>a. a \<noteq> e \<longrightarrow> payload (heap s a) = payload (heap (evs w) a)) \<and>
    kind (heap s e) = kind (heap (evs w) e)"
proof -
  let ?s = "(evs w)\<lparr>heap := (heap (evs w))(e := (heap (evs w) e)\<lparr>run_time := t\<rparr>)\<rparr>"
  note al = alloc_event_queues [OF queue_invD(4,5) [OF assms(1)] assms(2), of "(heap (evs w) e)\<lparr>run_time := t\<rparr>"]
  have ix: "indexed ?s a = indexed (evs w) a" for a
    by (cases "a = e") (simp_all add: indexed_def split: option.split)
  obtain s where s: "add_event e p ?s = Some s" "queues s (q(p := insert_after (rt ?s) e (q p)))"
    "index_ok s (q(p := insert_after (rt ?s) e (q p)))" "rt s = rt ?s"
    using add_event_queues [OF al assms(2), of p] assms(5) ix by auto
  have pay: "payload (heap s a) = payload (heap ?s a)" for a
    using add_event_payload [OF al(1) _ s(1)] assms(2) by blast
  have kd: "kind (heap s a) = kind (heap (evs w) a)" for a
    using payload_kept [OF pay [of a]] by (simp add: kind_def split: if_splits)
  let ?q = "q(p := insert_after (rt ?s) e (q p))"
  have mem: "set (?q p') \<subseteq> insert e (set (q p'))" for p' by auto
  have "listable (heap s a)" "a < next_addr w" if "a \<in> set (?q p')" for a p'
    using that mem [of p'] queue_invD(2,3) [OF assms(1), of a p'] assms(3,4) listable_kind [OF kd [of a]] by auto
  then have "queue_inv (w\<lparr>evs := s\<rparr>) ?q" using s(2,3) by (auto simp: queue_inv_def event_queues_def)
  moreover have "rt s e = t" using fun_cong [OF s(4), of e] by simp
  moreover have "payload (heap s a) = payload (heap (evs w) a)" if "a \<noteq> e" for a using pay [of a] that by simp
  ultimately show ?thesis using s(1) kd
    by (intro exI [of _ s] exI [of _ "insert_after (rt ?s) e (q p)"]) (simp add: set_run_time_def)
qed

lemma not_indexed: "hash_type_of (event_type (heap s e)) = None \<Longrightarrow> indexed s e = None"
  by (simp add: indexed_def split: option.split)

text \<open>A recurring event that was taken from the lists is queued again.\<close>

lemma requeue_ok:
  fixes ev :: env
  assumes "queue_inv w q" "\<forall>p. e \<notin> set (q p)" "e < next_addr w" "listable (heap (evs w) e)"
    "recurring (heap (evs w) e)"
  defines "t \<equiv> next_run_time (call_timing_func ev) (now ev) (heap (evs w) e)"
  shows "\<exists>w' xs. requeue ev e p w = Some w' \<and> queue_inv w' (q(p := xs)) \<and>
    set xs = insert e (set (q p)) \<and> rt (evs w') e = t"
proof -
  have "indexed (evs w) e = None" using assms(4,5) by (simp add: listable_def not_indexed)
  then have "\<forall>a\<in>set (q p). indexed (evs w) a = None \<or> indexed (evs w) a \<noteq> indexed (evs w) e" by metis
  from reschedule_queues [OF assms(1-4) this, of t] obtain s xs where
    "add_event e p (set_run_time e t (evs w)) = Some s" "queue_inv (w\<lparr>evs := s\<rparr>) (q(p := xs))"
    "set xs = insert e (set (q p))" "rt s e = t" by blast
  then show ?thesis
    by (intro exI [of _ "w\<lparr>evs := s\<rparr>"] exI [of _ xs]) (simp add: requeue_def reschedule_event_def t_def)
qed

section \<open>Postponing a check\<close>

text \<open>
  A check that may not run is taken out, gets a new time and is queued again: both postponed
  checks keep the members of the lists.
\<close>

lemma postpone_ok:
  assumes "queue_inv w q" "e \<in> set (q Low)" "\<not> recurring (heap (evs w) e)"
    "remove_event (Some e) Low (evs w) = Some s1"
    "evs u = s1" "next_addr u = next_addr w"
  shows "\<exists>w' xs. postpone_event ev e t u = Some w' \<and> w' = u\<lparr>evs := evs w'\<rparr> \<and>
    queues_kept w q w' (q(Low := xs)) \<and> set xs = set (q Low) \<and> rt (evs w') e = t"
proof -
  obtain q1 where q1: "q1 = q(Low := remove1 e (q Low))" by blast
  have s1: "queues s1 q1" "index_ok s1 q1"
    using remove_event_queues [OF queue_invD(4,5) [OF assms(1)] assms(2)] assms(4) by (auto simp: q1)
  have pay: "payload (heap s1 a) = payload (heap (evs w) a)" for a
    by (rule remove_event_payload [OF queue_invD(4) [OF assms(1)] assms(4)])
  have dist: "distinct (q Low)"
    using queues_rep [OF queue_invD(4) [OF assms(1)], of Low] by (simp add: event_list_rep_def dll_def)
  then have mem: "set (q1 Low) = set (q Low) - {e}" "q1 High = q High" by (simp_all add: q1)
  have k1: "queues_kept w q (w\<lparr>evs := s1\<rparr>) q1"
    by (rule queues_kept_store [OF assms(1) s1])
      (use payload_kept [OF pay] in \<open>auto simp: q1 dest: set_remove1_subset [THEN subsetD]\<close>)
  have k2: "queue_inv u q1" using queue_inv_alloc [OF queues_keptD(2) [OF k1], of u] assms(5,6) by simp
  have out: "\<forall>p. e \<notin> set (q1 p)"
  proof
    fix p show "e \<notin> set (q1 p)"
      using mem assms(2) queues_disjoint [OF queue_invD(4) [OF assms(1)], of Low High] by (cases p) auto
  qed
  have ke: "kind (heap (evs u) e) = kind (heap (evs w) e)" using payload_kept [OF pay [of e]] assms(5) by simp
  have le: "e < next_addr u" using queue_invD(3) [OF assms(1,2)] assms(6) by simp
  have li: "listable (heap (evs u) e)" using listable_kind [OF ke] queue_invD(2) [OF assms(1,2)] by simp
  have ix: "indexed (evs u) a = indexed (evs w) a" for a
    using payload_eqD(2,3) [OF pay [of a]] assms(5) by (simp add: indexed_def)
  have uni: "\<forall>a\<in>set (q1 Low). indexed (evs u) a = None \<or> indexed (evs u) a \<noteq> indexed (evs u) e"
    using index_at_unique [of "evs w" Low "set (q Low)"] queue_invD(5) [OF assms(1)] assms(2) mem
    by (auto simp: ix index_ok_at index_unique_def)
  obtain s xs where s: "add_event e Low (set_run_time e t (evs u)) = Some s"
    "queue_inv (u\<lparr>evs := s\<rparr>) (q1(Low := xs))" "set xs = insert e (set (q1 Low))" "rt s e = t"
    "\<forall>a. a \<noteq> e \<longrightarrow> payload (heap s a) = payload (heap (evs u) a)" "kind (heap s e) = kind (heap (evs u) e)"
    using reschedule_queues [OF k2 out le li uni, of t] by blast
  have nr: "\<not> recurring (heap (evs u) e)" using ke assms(3) by (simp add: kind_def)
  have "next_run_time (call_timing_func ev) (now ev) (heap (set_run_time e t (evs u)) e) = t"
    using nr by (simp add: next_run_time_def)
  moreover have "set_run_time e t (set_run_time e t (evs u)) = set_run_time e t (evs u)"
    by (simp add: set_run_time_def)
  ultimately have run: "postpone_event ev e t u = Some (u\<lparr>evs := s\<rparr>)"
    using s(1) by (simp add: postpone_event_def reschedule_event_def)
  have q': "q1(Low := xs) = q(Low := xs)" by (simp add: q1)
  have mem': "set xs = set (q Low)" using s(3) mem assms(2) by auto
  have "kind (heap s a) = kind (heap (evs w) a)" for a
    using s(5,6) ke payload_kept [of "heap s a" "heap (evs u) a"] payload_kept [OF pay [of a]] assms(5)
    by (cases "a = e") auto
  moreover have "steady (heap s a) = steady (heap (evs w) a)" if "\<forall>p. a \<notin> set (q p)" for a
    using s(5) that assms(2,5) payload_kept [of "heap s a" "heap (evs u) a"] payload_kept [OF pay [of a]]
    by (cases "a = e") auto
  ultimately have "queues_kept w q (u\<lparr>evs := s\<rparr>) (q(Low := xs))"
    using s(2) assms(6) mem' unfolding q' queues_kept_def by auto
  with run s(4) mem' show ?thesis by (intro exI [of _ "u\<lparr>evs := s\<rparr>"] exI [of _ xs]) simp
qed

section \<open>Time changes and the adjustment of check times\<close>

lemma with_run_times_kind: "kind (heap (with_run_times k xs s) a) = kind (heap s a)"
  by (simp add: with_run_times_def kind_def)

lemma resort_kind:
  assumes "dll s p xs" "resort_event_list p (with_run_times k xs s) = Some s'"
  shows "kind (heap s' a) = kind (heap s a)" "a \<notin> set xs \<Longrightarrow> heap s' a = heap s a"
proof -
  have fr: "ev_frame p (set xs) (with_run_times k xs s) s'"
    using resort_event_list_implements [OF with_run_times_dll [OF assms(1)], of k xs] assms(2) by auto
  then have "payload (heap s' a) = payload (heap (with_run_times k xs s) a)" by (simp add: ev_frame_def)
  from payload_kept [OF this] show "kind (heap s' a) = kind (heap s a)" by (simp add: with_run_times_kind)
  show "a \<notin> set xs \<Longrightarrow> heap s' a = heap s a"
    using fr by (simp add: ev_frame_def with_run_times_def)
qed

lemma compensate_list_kind:
  assumes "dll s p xs"
    "Option.bind (compensate_run_times timing l c (list_head s p) s) (resort_event_list p) = Some s'"
  shows "kind (heap s' a) = kind (heap s a)" "a \<notin> set xs \<Longrightarrow> heap s' a = heap s a"
proof -
  let ?k = "\<lambda>a. compensated_run_time timing l c (heap s a)"
  have "compensate_run_times timing l c (list_head s p) s = Some (with_run_times ?k xs s)"
    using assms(1) compensate_run_times_implements [of s None xs timing l c] by (simp add: dll_def)
  with assms(2) have "resort_event_list p (with_run_times ?k xs s) = Some s'" by simp
  from resort_kind [OF assms(1) this]
  show "kind (heap s' a) = kind (heap s a)" "a \<notin> set xs \<Longrightarrow> heap s' a = heap s a" by simp_all
qed

lemma compensate_lists_kept:
  assumes "queue_inv w q"
  shows "\<exists>s q'. compensate_event_lists timing l c (evs w) = Some s \<and> queues_kept w q (w\<lparr>evs := s\<rparr>) q'"
proof -
  note qs = queue_invD(4,5) [OF assms]
  have d: "dll (evs w) p (q p)" for p using qs(1) by (simp add: queues_def event_list_rep_def)
  let ?q = "\<lambda>p. sort_key (\<lambda>a. compensated_run_time timing l c (heap (evs w) a)) (q p)"
  obtain s where s: "compensate_event_lists timing l c (evs w) = Some s" "queues s ?q" "index_ok s ?q"
    using compensate_event_lists_queues [OF qs, of timing l c] by blast
  obtain s2 where s2: "Option.bind (compensate_run_times timing l c (list_head (evs w) High) (evs w))
      (resort_event_list High) = Some s2"
    "Option.bind (compensate_run_times timing l c (list_head s2 Low) s2) (resort_event_list Low) = Some s"
    using s(1) by (auto simp: compensate_event_lists_def bind_eq_Some_conv)
  have d2: "dll s2 Low (q Low)"
    using compensate_one_list [OF d [of High] refl, of timing l c] s2(1) queues_disjoint [OF qs(1), of Low High]
    by (auto intro!: dll_other_list [OF d [of Low], of "set (q High)"])
  note k = compensate_list_kind [OF d s2(1)] compensate_list_kind [OF d2 s2(2)]
  have "heap s a = heap (evs w) a" if "\<forall>p. a \<notin> set (q p)" for a using k(2,4) that by simp
  then have "queues_kept w q (w\<lparr>evs := s\<rparr>) ?q"
    by (intro queues_kept_store [OF assms s(2,3)]) (auto simp: k)
  with s(1) show ?thesis by blast
qed

lemma compensate_object_evs [simp]:
  "evs (compensate_service ev l c s w) = evs w" "evs (compensate_host ev l c h w) = evs w"
  "next_addr (compensate_service ev l c s w) = next_addr w" "next_addr (compensate_host ev l c h w) = next_addr w"
  by (simp_all add: compensate_service_def compensate_host_def Let_def get_next_service_notification_time_eq
      get_next_host_notification_time_eq upd_svc_def upd_host_def upd_svc_other_def upd_host_other_def emit_def)

lemma fold_same: "(\<And>x w. f (g x w) = f w) \<Longrightarrow> f (fold g xs w) = f w"
  by (induction xs arbitrary: w) simp_all

lemma compensate_kept:
  assumes "queue_inv w q"
  shows "\<exists>w' q'. compensate_for_system_time_change ev l c w = Some w' \<and> queues_kept w q w' q'"
proof -
  obtain s q' where s: "compensate_event_lists (call_timing_func ev) l c (evs w) = Some s"
    "queues_kept w q (w\<lparr>evs := s\<rparr>) q'" using compensate_lists_kept [OF assms] by blast
  obtain w' where w': "compensate_for_system_time_change ev l c w = Some w'" "evs w' = s" "next_addr w' = next_addr w"
    using s(1) by (simp add: compensate_for_system_time_change_def Let_def fold_same emit_def)
  have "queues_kept (w\<lparr>evs := s\<rparr>) q' w' q'"
    using w'(2,3) queues_keptD(2) [OF s(2)] by (intro queues_kept_same) simp_all
  with w'(1) s(2) show ?thesis using queues_kept_trans by blast
qed

lemma checks_in_window_ok:
  "dseg (heap (evs w)) pr xs None \<Longrightarrow> \<exists>es. checks_in_window win w (hd_opt xs) = Some es \<and> set es \<subseteq> set xs"
proof (induction xs arbitrary: pr)
  case (Cons x xs)
  have "ev_next (heap (evs w) x) = hd_opt xs" using Cons.prems by (cases xs) auto
  moreover obtain es where "checks_in_window win w (hd_opt xs) = Some es" "set es \<subseteq> set xs"
    using Cons by auto
  ultimately show ?case
    by (auto simp: checks_in_window.simps [of win w "Some x"] Let_def)
qed (simp add: checks_in_window.simps)

lemma move_check_evs: "evs (move_check e t w) = set_run_time e t (evs w)" "next_addr (move_check e t w) = next_addr w"
  by (simp_all add: move_check_def Let_def emit_def upd_host_def upd_svc_def split: option.split edata.split)

lemma move_checks_evs:
  "\<exists>k. evs (move_checks t d f offs es w) = with_run_times k es (evs w) \<and>
     next_addr (move_checks t d f offs es w) = next_addr w"
proof (induction es arbitrary: offs w)
  case Nil
  then show ?case by (cases offs) (simp add: with_run_times_def)
next
  case (Cons e es)
  obtain a b where offs: "offs = (a, b)" by (cases offs)
  let ?t = "t + \<lfloor>b + a\<rfloor>"
  obtain k where "evs (move_checks t d f offs (e # es) w) = with_run_times k es (set_run_time e ?t (evs w))"
    "next_addr (move_checks t d f offs (e # es) w) = next_addr w"
    using Cons.IH [of "(a + d, b + check_exec_time w e * f)" "move_check e ?t w"]
    by (auto simp: move_check_evs Let_def offs)
  moreover have "with_run_times k es (set_run_time e ?t (evs w)) =
      with_run_times (\<lambda>a. if a \<in> set es then k a else ?t) (e # es) (evs w)"
    by (auto simp: with_run_times_def set_run_time_def fun_eq_iff)
  ultimately show ?case by auto
qed

lemma with_run_times_widen:
  assumes "set es \<subseteq> set xs"
  shows "with_run_times k es s = with_run_times (\<lambda>a. if a \<in> set es then k a else rt s a) xs s"
proof -
  have "(\<lambda>a. if a \<in> set es then (heap s a)\<lparr>run_time := k a\<rparr> else heap s a) =
      (\<lambda>a. if a \<in> set xs then (heap s a)\<lparr>run_time := if a \<in> set es then k a else rt s a\<rparr> else heap s a)"
    using assms by (auto simp: fun_eq_iff)
  then show ?thesis by (simp only: with_run_times_def)
qed

lemma adjust_kept:
  assumes "queue_inv w q"
  shows "\<exists>w' q'. adjust_check_scheduling ev w = Some w' \<and> queues_kept w q w' q'"
proof -
  note qs = queue_invD(4,5) [OF assms]
  have d: "dll (evs w) p (q p)" for p using qs(1) by (simp add: queues_def event_list_rep_def)
  let ?win = "(now ev, now ev + auto_rescheduling_window (cfg w))"
  obtain es where es: "checks_in_window ?win w (list_head (evs w) Low) = Some es" "set es \<subseteq> set (q Low)"
    using checks_in_window_ok [of w None "q Low" ?win] d [of Low] by (auto simp: dll_def)
  show ?thesis
  proof (cases "es = [] \<or> \<not> checks_bump w es")
    case True
    then have "adjust_check_scheduling ev w = Some w" using es(1) by (simp add: adjust_check_scheduling_def Let_def)
    then show ?thesis using queues_kept_same [OF assms refl] by blast
  next
    case False
    let ?sp = "check_spacing (auto_rescheduling_window (cfg w)) (length es)"
    define w1 where "w1 = move_checks (now ev) (fst ?sp) (snd ?sp) (fst ?sp / 2, 0) es w"
    have run: "adjust_check_scheduling ev w = map_option (\<lambda>s. w1\<lparr>evs := s\<rparr>) (resort_event_list Low (evs w1))"
      using es(1) False by (simp add: adjust_check_scheduling_def Let_def case_prod_beta w1_def)
    obtain k where k: "evs w1 = with_run_times k (q Low) (evs w)" "next_addr w1 = next_addr w"
      using move_checks_evs [of "now ev" "fst ?sp" "snd ?sp" "(fst ?sp / 2, 0)" es w] with_run_times_widen [OF es(2)] by (auto simp: w1_def)
    obtain s where s: "resort_event_list Low (evs w1) = Some s" "dll s Low (sort_key (rt (evs w1)) (q Low))"
      "ev_frame Low (set (q Low)) (evs w1) s"
      using resort_event_list_implements [OF with_run_times_dll [OF d [of Low]], of k "q Low"] k(1) by metis
    let ?q = "q(Low := sort_key (rt (evs w1)) (q Low))"
    note kd = resort_kind [OF d [of Low] s(1) [unfolded k(1)]]
    have disj: "set (q Low) \<inter> set (q High) = {}" using queues_disjoint [OF qs(1), of Low High] by simp
    have rts: "rt s a = (if a \<in> set (q Low) then k a else rt (evs w) a)" for a
      using ev_frame_rt [OF s(3), of a] by (simp add: k(1) rt_with_run_times)
    have "list_head s High = list_head (evs w) High" "list_tail s High = list_tail (evs w) High"
      using s(3) by (simp_all add: ev_frame_def k(1) with_run_times_def)
    then have dh: "dll s High (q High)"
      using kd(2) disj by (intro dll_other_list [OF d [of High], of "set (q Low)" s]) auto
    have "sorted (map (rt s) (?q p))" for p
    proof (cases p)
      case Low
      then show ?thesis by (auto intro!: sorted_sort_key_cong simp: rts k(1) rt_with_run_times)
    next
      case High
      have same: "map (rt s) (q High) = map (rt (evs w)) (q High)" using disj by (auto simp: rts)
      have "?q p = q High" using High by simp
      then show ?thesis
        using queues_rep [OF qs(1), of High] same by (simp only: event_list_rep_def simp_thms)
    qed
    moreover have "dll s p (?q p)" for p using dh s(2) by (cases p) auto
    ultimately have "queues s ?q" using disj by (simp add: queues_def event_list_rep_def)
    moreover have "index_ok s ?q"
    proof -
      have "index_ok (evs w1) q" unfolding k(1) by (rule with_run_times_index [OF qs(2)])
      moreover have "dll (evs w1) p (q p)" for p unfolding k(1) by (rule with_run_times_dll [OF d])
      ultimately have "index_ok s q" using resort_index [OF _ _ disj _ s(1)] by blast
      then show ?thesis by (auto simp: index_ok_def)
    qed
    ultimately have "queues_kept w q (w\<lparr>evs := s\<rparr>) ?q"
      by (intro queues_kept_store [OF assms]) (auto simp: kd)
    moreover have "queues_kept (w\<lparr>evs := s\<rparr>) ?q (w1\<lparr>evs := s\<rparr>) ?q"
      using queues_keptD(2) [OF calculation] k(2) by (intro queues_kept_same) simp_all
    ultimately have "queues_kept w q (w1\<lparr>evs := s\<rparr>) ?q" by (rule queues_kept_trans)
    moreover have "adjust_check_scheduling ev w = Some (w1\<lparr>evs := s\<rparr>)"
      using run s(1) by simp
    ultimately show ?thesis by blast
  qed
qed

section \<open>The dispatch table\<close>

context effect_frame
begin

lemma keeps_delete_downtimes_if: "R w (delete_downtimes_if P w)"
proof -
  have "R w (fold (\<lambda>a w. if P w (downtime_at w a)
      then snd (delete_downtime (dt_type (downtime_at w a)) (dt_downtime_id (downtime_at w a)) w) else w) xs w)" for xs
    by (induction xs arbitrary: w) (auto intro: frame_trans [OF keeps_delete_downtime])
  then show ?thesis by (simp only: delete_downtimes_if_def)
qed

lemma keeps_expired_comment: "R w (check_for_expired_comment ev i w)"
  by (simp add: check_for_expired_comment_def keeps_delete_comment split: option.split)

lemma keeps_downtime_by_id: "handle_scheduled_downtime_by_id ev i w = Some (r, w') \<Longrightarrow> R w w'"
  by (auto simp: handle_scheduled_downtime_by_id_def handle_scheduled_downtime_def
      split: option.splits dest: keeps_run_downtime)

end

text \<open>
  What is called from outside the loop keeps the lists: the configuration thread, the function
  of a module, the module of external commands.
\<close>

definition turn_ok :: "turn \<Rightarrow> bool" where
  "turn_ok t \<longleftrightarrow> (\<forall>w. queue_step w (t_apply t w)) \<and> (\<forall>f a w. queue_step w (t_user_function t f a w)) \<and>
     (\<forall>w w'. t_external_commands t w = Some w' \<longrightarrow> queue_step w w')"

lemma external_command_check_step:
  assumes "turn_ok t" "external_command_check t w = Some w'"
  shows "queue_step w w'"
proof -
  have "queue_step (emit Broker_external_command_check w) w'"
    using assms unfolding turn_ok_def external_command_check_def by blast
  then show ?thesis by (rule queue_step_trans [OF queue.frame_emit])
qed

lemma expired_acknowledgement_steps:
  "queue_step w (check_for_expired_host_acknowledgement ev h w)"
  "queue_step w (check_for_expired_service_acknowledgement ev s w)"
  by (simp_all add: check_for_expired_host_acknowledgement_def check_for_expired_service_acknowledgement_def Let_def
    queue_step_same)

lemma adjust_step: "adjust_check_scheduling ev w = Some w' \<Longrightarrow> queue_step w w'"
  unfolding queue_step_def using adjust_kept [of w _ ev] by (metis option.inject)

lemma on_engine_step:
  "on_engine f m = Some m' \<Longrightarrow> (\<And>w w'. f w = Some w' \<Longrightarrow> queue_step w w') \<Longrightarrow>
   queue_step (ml_engine m) (ml_engine m')"
  by (auto simp: on_engine_def)

lemma upd_engine_step:
  "(\<And>w. queue_step w (f w)) \<Longrightarrow> queue_step (ml_engine m) (ml_engine (upd_engine f m))"
  by (simp add: upd_engine_def)

lemma set_flags_step:
  "Some m = Some m' \<Longrightarrow> queue_step (ml_engine m) (ml_engine m')"
  "Some (m\<lparr>ml_sighup := b\<rparr>) = Some m' \<Longrightarrow> queue_step (ml_engine m) (ml_engine m')"
  "Some (m\<lparr>ml_sigshutdown := b\<rparr>) = Some m' \<Longrightarrow> queue_step (ml_engine m) (ml_engine m')"
  by (auto simp: queue_step_same)

lemma orphan_step:
  assumes "do { w1 \<leftarrow> (if check_orphaned_hosts (cfg w) then check_for_orphaned_hosts ev w else Some w);
      if check_orphaned_services (cfg w1) then check_for_orphaned_services ev w1 else Some w1 } = Some w'"
  shows "queue_step w w'"
  using assms
  by (elim bind_SomeE, auto split: if_splits intro: queue_step_same
      dest!: queue.keeps_orphaned_hosts queue.keeps_orphaned_services intro: queue_step_trans)

lemma exec_event_step:
  assumes "turn_ok t" "exec_event t e m = Some m'"
    "event_type (heap (evs (ml_engine m)) e) \<noteq> EVENT_SCHEDULED_DOWNTIME"
  shows "queue_step (ml_engine m) (ml_engine m')"
proof -
  let ?evt = "heap (evs (ml_engine m)) e"
  show ?thesis
    using assms unfolding exec_event_def Let_def turn_ok_def
    by (simp only: if_False split: if_splits option.splits edata.splits)
     (auto elim!: on_engine_step set_flags_step dest: queue.keeps_run_scheduled_service queue.keeps_run_scheduled_host queue.keeps_reap orphan_step
      queue.keeps_service_freshness queue.keeps_host_freshness adjust_step external_command_check_step [OF assms(1)]
      intro!: upd_engine_step queue.frame_emit queue.keeps_delete_downtimes_if queue.keeps_expired_comment
        expired_acknowledgement_steps simp: check_for_expired_downtime_def)
qed

lemma exec_downtime_event_kept:
  assumes "queue_inv w q" "\<forall>p. e \<notin> set (q p)" "e < next_addr w" "exec_downtime_event ev e w = Some w'"
  shows "\<exists>q'. queues_kept w q w' q'"
proof (cases "event_data (heap (evs w) e)")
  case None
  then show ?thesis using assms queues_kept_same [OF assms(1) refl] by (auto simp: exec_downtime_event_def)
next
  case (Some d)
  then obtain i r w1 where w1: "handle_scheduled_downtime_by_id ev i w = Some (r, w1)"
    "w' = w1\<lparr>evs := (evs w1)\<lparr>heap := (heap (evs w1))(e := (heap (evs w1) e)\<lparr>event_data := None\<rparr>)\<rparr>\<rparr>"
    using assms(4) by (auto simp: exec_downtime_event_def split: edata.splits)
  obtain q1 where q1: "queues_kept w q w1 q1" using queue_stepD [OF queue.keeps_downtime_by_id [OF w1(1)] assms(1)] by blast
  have out: "\<forall>p. e \<notin> set (q1 p)" using queues_keptD(3) [OF q1] assms(2,3) by fastforce
  note al = alloc_event_queues [OF queue_invD(4,5) [OF queues_keptD(2) [OF q1]] out]
  have "queues_kept w1 q1 w' q1"
    unfolding w1(2)
    by (rule queues_kept_store [OF queues_keptD(2) [OF q1] al]) (simp_all add: kind_def steady_def)
  with q1 show ?thesis using queues_kept_trans by blast
qed

lemma handle_timed_event_kept:
  assumes "turn_ok t" "queue_inv (ml_engine m) q" "\<forall>p. e \<notin> set (q p)" "e < next_addr (ml_engine m)"
    "handle_timed_event t e m = Some m'"
  shows "\<exists>q'. queues_kept (ml_engine m) q (ml_engine m') q'"
proof -
  define m1 where "m1 = upd_engine (\<lambda>w. w\<lparr>evs := broker_timed_event NEB_timed_execute (Some e) (evs w)\<rparr>) m"
  have same: "heap (evs (ml_engine m1)) = heap (evs (ml_engine m))" "next_addr (ml_engine m1) = next_addr (ml_engine m)"
    by (simp_all add: m1_def upd_engine_def broker_timed_event_def)
  have "queues (evs (ml_engine m1)) q" "index_ok (evs (ml_engine m1)) q"
    using queue_invD(4,5) [OF assms(2)]
    by (simp_all add: m1_def upd_engine_def broker_timed_event_def queues_def event_list_rep_def dll_def
        index_ok_def indexed_def)
  then have k1: "queues_kept (ml_engine m) q (ml_engine m1) q"
    unfolding m1_def upd_engine_def
    by (simp, intro queues_kept_store [OF assms(2)]) (simp_all add: broker_timed_event_def)
  have run: "exec_event t e m1 = Some m'" using assms(5) by (simp add: handle_timed_event_def m1_def)
  note q1 = queues_keptD(2) [OF k1]
  have "\<exists>q'. queues_kept (ml_engine m1) q (ml_engine m') q'"
  proof (cases "event_type (heap (evs (ml_engine m1)) e) = EVENT_SCHEDULED_DOWNTIME")
    case True
    then have "exec_downtime_event (t_env t) e (ml_engine m1) = Some (ml_engine m')"
      using run by (auto simp: exec_event_def Let_def event_numbers on_engine_def)
    from exec_downtime_event_kept [OF q1 assms(3) _ this] assms(4) same show ?thesis by simp
  next
    case False
    from queue_stepD [OF exec_event_step [OF assms(1) run False] q1] show ?thesis .
  qed
  with k1 show ?thesis using queues_kept_trans by blast
qed

section \<open>One turn\<close>

text \<open>The event is taken out of its list and handled: it is in no list then, and unchanged.\<close>

definition popped :: "priority \<Rightarrow> addr \<Rightarrow> main_loop \<Rightarrow> main_loop" where
  "popped p e m = upd_engine (\<lambda>w. w\<lparr>evs := pop_event p e (evs w)\<rparr>) m"

lemma handled_event:
  assumes "turn_ok t" "queue_inv (ml_engine m) q" "q p = e # r" "handle_timed_event t e (popped p e m) = Some m1"
  shows "\<exists>q1. queue_inv (ml_engine m1) q1 \<and> (\<forall>p. e \<notin> set (q1 p)) \<and> e < next_addr (ml_engine m1) \<and>
    steady (heap (evs (ml_engine m1)) e) = steady (heap (evs (ml_engine m)) e)"
proof -
  let ?w = "ml_engine m" and ?m0 = "popped p e m"
  have m0: "ml_engine ?m0 = ?w\<lparr>evs := pop_event p e (evs ?w)\<rparr>" by (simp add: popped_def upd_engine_def)
  have k0: "queues_kept ?w q (ml_engine ?m0) (q(p := r))" unfolding m0 by (rule pop_queues_kept [OF assms(2,3)])
  note i0 = queues_keptD(2) [OF k0]
  have mem: "e \<in> set (q p)" "distinct (q p)"
    using assms(3) queues_rep [OF queue_invD(4) [OF assms(2)], of p] by (simp_all add: event_list_rep_def dll_def)
  have out: "\<forall>p'. e \<notin> set ((q(p := r)) p')"
    using mem assms(3) queues_disjoint [OF queue_invD(4) [OF assms(2)], of p] by auto
  have lt: "e < next_addr (ml_engine ?m0)" using queue_invD(3) [OF assms(2) mem(1)] by (simp add: m0)
  have st0: "steady (heap (evs (ml_engine ?m0)) e) = steady (heap (evs ?w) e)"
    using payload_kept [OF pop_event_queues(3) [OF queue_invD(4,5) [OF assms(2)] assms(3)]] by (simp add: m0)
  obtain q1 where k1: "queues_kept (ml_engine ?m0) (q(p := r)) (ml_engine m1) q1"
    using handle_timed_event_kept [OF assms(1) i0 out lt assms(4)] by blast
  have "steady (heap (evs (ml_engine m1)) e) = steady (heap (evs ?w) e)"
    using queues_keptD(4) [OF k1 lt out] st0 by simp
  moreover have "\<forall>p. e \<notin> set (q1 p)" using queues_keptD(3) [OF k1] lt out by fastforce
  moreover have "e < next_addr (ml_engine m1)" using lt queues_keptD(1) [OF k1] by simp
  ultimately show ?thesis using queues_keptD(2) [OF k1] by blast
qed

text \<open>What running the first event of a list leaves behind.\<close>

lemma run_event_handled:
  assumes "turn_ok t" "queue_inv (ml_engine m) q" "q p = e # r" "handle_timed_event t e (popped p e m) = Some m1"
  shows "\<exists>w' q'. run_event t p e m = Some (m1\<lparr>ml_engine := w'\<rparr>) \<and> queue_inv w' q' \<and>
    (if recurring (heap (evs (ml_engine m)) e)
     then e \<in> set (q' p) \<and>
       rt (evs w') e = next_run_time (call_timing_func (t_env t)) (now (t_env t)) (heap (evs (ml_engine m)) e)
     else \<forall>p. e \<notin> set (q' p))"
proof -
  let ?w = "ml_engine m"
  obtain q1 where q1: "queue_inv (ml_engine m1) q1" "\<forall>p. e \<notin> set (q1 p)" "e < next_addr (ml_engine m1)"
    "steady (heap (evs (ml_engine m1)) e) = steady (heap (evs ?w) e)" using handled_event [OF assms] by blast
  have rec: "recurring (heap (evs (ml_engine m1)) e) = recurring (heap (evs ?w) e)"
    and nrt: "next_run_time f n (heap (evs (ml_engine m1)) e) = next_run_time f n (heap (evs ?w) e)" for f n
    using q1(4) by (simp_all add: steady_def next_run_time_def split: option.split)
  show ?thesis
  proof (cases "recurring (heap (evs ?w) e)")
    case False
    then have "run_event t p e m = Some (m1\<lparr>ml_engine := ml_engine m1\<rparr>)"
      using assms(4) rec by (simp add: run_event_def popped_def)
    then show ?thesis using q1(1,2) False by (intro exI [of _ "ml_engine m1"] exI [of _ q1]) simp
  next
    case True
    have "e \<in> set (q p)" by (simp add: assms(3))
    then have li: "listable (heap (evs (ml_engine m1)) e)"
      using listable_kind [OF steady_kind [OF q1(4)]] queue_invD(2) [OF assms(2)] by blast
    obtain w' xs where w': "requeue (t_env t) e p (ml_engine m1) = Some w'" "queue_inv w' (q1(p := xs))"
      "set xs = insert e (set (q1 p))"
      "rt (evs w') e = next_run_time (call_timing_func (t_env t)) (now (t_env t)) (heap (evs (ml_engine m1)) e)"
      using requeue_ok [OF q1(1,2,3) li] True rec by blast
    moreover have "run_event t p e m = Some (m1\<lparr>ml_engine := w'\<rparr>)"
      using assms(4) w'(1) True rec by (simp add: run_event_def popped_def on_engine_def)
    ultimately show ?thesis using True nrt by (intro exI [of _ w'] exI [of _ "q1(p := xs)"]) simp
  qed
qed

lemma run_event_ok:
  assumes "turn_ok t" "queue_inv (ml_engine m) q" "q p = e # r" "run_event t p e m = Some m'"
  shows "\<exists>q'. queue_inv (ml_engine m') q' \<and>
    (if recurring (heap (evs (ml_engine m)) e)
     then e \<in> set (q' p) \<and>
       rt (evs (ml_engine m')) e = next_run_time (call_timing_func (t_env t)) (now (t_env t)) (heap (evs (ml_engine m)) e)
     else \<forall>p. e \<notin> set (q' p))"
proof -
  obtain m1 where m1: "handle_timed_event t e (popped p e m) = Some m1"
    using assms(4) by (auto simp: run_event_def popped_def bind_eq_Some_conv)
  obtain w' q' where "run_event t p e m = Some (m1\<lparr>ml_engine := w'\<rparr>)" "queue_inv w' q'"
    "if recurring (heap (evs (ml_engine m)) e)
     then e \<in> set (q' p) \<and>
       rt (evs w') e = next_run_time (call_timing_func (t_env t)) (now (t_env t)) (heap (evs (ml_engine m)) e)
     else \<forall>p. e \<notin> set (q' p)" using run_event_handled [OF assms(1-3) m1] by blast
  with assms(4) show ?thesis by (intro exI [of _ q']) auto
qed

text \<open>A shutdown event does nothing but ask for the shutdown, so nothing outside is called.\<close>

definition quiet :: "turn \<Rightarrow> turn" where
  "quiet t = t\<lparr>t_apply := (\<lambda>w. w), t_user_function := (\<lambda>_ _ w. w), t_external_commands := Some\<rparr>"

lemma quiet_ok: "turn_ok (quiet t)"
  by (simp add: turn_ok_def quiet_def queue_step_same)

lemma run_shutdown_event:
  assumes "queue_inv (ml_engine m) q" "q p = e # r"
    "event_type (heap (evs (ml_engine m)) e) = EVENT_PROGRAM_SHUTDOWN"
  shows "\<exists>m'. run_event t p e m = Some m' \<and> ml_sigshutdown m'"
proof -
  have "e \<in> set (q p)" by (simp add: assms(2))
  have "event_type (heap (pop_event p e (evs (ml_engine m))) e) = EVENT_PROGRAM_SHUTDOWN"
    using payload_kept [OF pop_event_queues(3) [OF queue_invD(4,5) [OF assms(1)] assms(2)], of e] assms(3)
    by (simp add: steady_def)
  then have "\<exists>m1. \<forall>t. handle_timed_event t e (popped p e m) = Some m1 \<and> ml_sigshutdown m1"
    by (simp add: handle_timed_event_def exec_event_def popped_def upd_engine_def broker_timed_event_def event_numbers)
  then obtain m1 where m1: "\<And>t. handle_timed_event t e (popped p e m) = Some m1" "ml_sigshutdown m1" by blast
  have "run_event t p e m = run_event (quiet t) p e m"
    using m1(1) by (simp add: run_event_def popped_def [symmetric] quiet_def)
  moreover from run_event_handled [OF quiet_ok assms(1,2) m1(1)]
  have "\<exists>m'. run_event (quiet t) p e m = Some m' \<and> ml_sigshutdown m'" using m1(2) by fastforce
  ultimately show ?thesis by simp
qed

lemma due_head:
  assumes "queue_inv w q" "due c p (evs w) = Some e"
  shows "\<exists>r. q p = e # r \<and> rt (evs w) e \<le> c \<and> (\<forall>a\<in>set (q p). rt (evs w) e \<le> rt (evs w) a)"
proof -
  note rep = queues_rep [OF queue_invD(4) [OF assms(1)], of p]
  then obtain r where r: "q p = e # r" "rt (evs w) e \<le> c"
    using assms(2) by (cases "q p") (auto simp: due_def event_list_rep_def dll_def split: if_splits)
  then show ?thesis using rep by (auto simp: event_list_rep_def)
qed

lemma not_due:
  assumes "queue_inv w q" "due c p (evs w) = None" "a \<in> set (q p)"
  shows "c < rt (evs w) a"
proof -
  note rep = queues_rep [OF queue_invD(4) [OF assms(1)], of p]
  then obtain e r where "q p = e # r" "c < rt (evs w) e"
    using assms(2,3) by (cases "q p") (auto simp: due_def event_list_rep_def dll_def split: if_splits)
  then show ?thesis using rep assms(3) by (force simp: event_list_rep_def)
qed

section \<open>A check that may not run\<close>

lemma remove_first:
  assumes "queue_inv w q" "q Low = e # r"
  shows "\<exists>s. remove_event (Some e) Low (evs w) = Some s"
  using remove_event_queues [OF queue_invD(4,5) [OF assms(1)], of e Low] assms(2) by auto

lemma check_not_recurring:
  assumes "queue_inv w q" "a \<in> set (q p)"
    "event_type (heap (evs w) a) = EVENT_SERVICE_CHECK \<or> event_type (heap (evs w) a) = EVENT_HOST_CHECK"
  shows "\<not> recurring (heap (evs w) a)"
  using queue_invD(2) [OF assms(1,2)] assms(3) by (auto simp: listable_def hash_type_of_def event_type_defs)

lemma postpone_service_ok:
  fixes t :: turn and s :: svc_id and h :: host_id
  assumes "queue_inv w q" "q Low = e # r" "event_type (heap (evs w) e) = EVENT_SERVICE_CHECK"
  defines "nc \<equiv> postponed_service_check t s w"
  shows "\<exists>st xs. postpone_service t e s w =
      Some (emit (Update_status (ServiceTarget s)) (upd_svc s (\<lambda>v. v\<lparr>s_next_check := nc\<rparr>) (w\<lparr>evs := st\<rparr>))) \<and>
    queue_inv (w\<lparr>evs := st\<rparr>) (q(Low := xs)) \<and> set xs = set (q Low) \<and> rt st e = nc"
proof -
  have e: "e \<in> set (q Low)" by (simp add: assms(2))
  obtain s1 where s1: "remove_event (Some e) Low (evs w) = Some s1" using remove_first [OF assms(1,2)] by blast
  let ?u = "upd_svc s (\<lambda>v. v\<lparr>s_next_check := nc\<rparr>) (w\<lparr>evs := s1\<rparr>)"
  obtain w' xs where w': "postpone_event (t_env t) e nc ?u = Some w'" "w' = ?u\<lparr>evs := evs w'\<rparr>"
    "queues_kept w q w' (q(Low := xs))" "set xs = set (q Low)" "rt (evs w') e = nc"
    using postpone_ok [OF assms(1) e check_not_recurring [OF assms(1) e] s1, of ?u "t_env t" nc] assms(3)
    by (auto simp: upd_svc_def)
  have "postpone_service t e s w = Some (emit (Update_status (ServiceTarget s)) w')"
    using s1 w'(1) by (simp add: postpone_service_def Let_def nc_def [symmetric])
  moreover have "w' = upd_svc s (\<lambda>v. v\<lparr>s_next_check := nc\<rparr>) (w\<lparr>evs := evs w'\<rparr>)"
    by (subst w'(2)) (simp add: upd_svc_def)
  moreover have "next_addr w' = next_addr w" by (subst w'(2)) (simp add: upd_svc_def)
  then have "queue_inv (w\<lparr>evs := evs w'\<rparr>) (q(Low := xs))"
    using queue_inv_alloc [OF queues_keptD(2) [OF w'(3)], of "w\<lparr>evs := evs w'\<rparr>"] by simp
  ultimately show ?thesis using w'(4,5) by metis
qed

lemma postpone_host_ok:
  fixes t :: turn and s :: svc_id and h :: host_id
  assumes "queue_inv w q" "q Low = e # r" "event_type (heap (evs w) e) = EVENT_HOST_CHECK"
  defines "nc \<equiv> postponed_host_check h w"
  shows "\<exists>st xs. postpone_host t e h w =
      Some (emit (Update_status (HostTarget h)) (upd_host h (\<lambda>v. v\<lparr>h_next_check := nc\<rparr>) (w\<lparr>evs := st\<rparr>))) \<and>
    queue_inv (w\<lparr>evs := st\<rparr>) (q(Low := xs)) \<and> set xs = set (q Low) \<and> rt st e = nc"
proof -
  have e: "e \<in> set (q Low)" by (simp add: assms(2))
  obtain s1 where s1: "remove_event (Some e) Low (evs w) = Some s1" using remove_first [OF assms(1,2)] by blast
  let ?u = "upd_host h (\<lambda>v. v\<lparr>h_next_check := nc\<rparr>) (w\<lparr>evs := s1\<rparr>)"
  obtain w' xs where w': "postpone_event (t_env t) e nc ?u = Some w'" "w' = ?u\<lparr>evs := evs w'\<rparr>"
    "queues_kept w q w' (q(Low := xs))" "set xs = set (q Low)" "rt (evs w') e = nc"
    using postpone_ok [OF assms(1) e check_not_recurring [OF assms(1) e] s1, of ?u "t_env t" nc] assms(3)
    by (auto simp: upd_host_def)
  have "postpone_host t e h w = Some (emit (Update_status (HostTarget h)) w')"
    using s1 w'(1) by (simp add: postpone_host_def Let_def nc_def [symmetric])
  moreover have "w' = upd_host h (\<lambda>v. v\<lparr>h_next_check := nc\<rparr>) (w\<lparr>evs := evs w'\<rparr>)"
    by (subst w'(2)) (simp add: upd_host_def)
  moreover have "next_addr w' = next_addr w" by (subst w'(2)) (simp add: upd_host_def)
  then have "queue_inv (w\<lparr>evs := evs w'\<rparr>) (q(Low := xs))"
    using queue_inv_alloc [OF queues_keptD(2) [OF w'(3)], of "w\<lparr>evs := evs w'\<rparr>"] by simp
  ultimately show ?thesis using w'(4,5) by metis
qed

section \<open>The turn keeps the lists\<close>

lemma run_low_event_inv:
  assumes "turn_ok t" "queue_inv (ml_engine m) q" "q Low = e # r" "run_low_event t e m = Some m'"
  shows "\<exists>q'. queue_inv (ml_engine m') q'"
proof (cases "run_event t Low e m = Some m'")
  case True
  from run_event_ok [OF assms(1-3) True] show ?thesis by blast
next
  case False
  let ?w = "ml_engine m"
  consider s where "event_type (heap (evs ?w) e) = EVENT_SERVICE_CHECK"
      "map_option (upd_engine (emit Idle)) (on_engine (postpone_service t e s) m) = Some m'"
    | h where "event_type (heap (evs ?w) e) = EVENT_HOST_CHECK"
      "map_option (upd_engine (emit Idle)) (on_engine (postpone_host t e h) m) = Some m'"
    using assms(4) False by (auto simp: run_low_event_def Let_def split: if_splits option.splits edata.splits)
  then show ?thesis
  proof cases
    case 1
    with postpone_service_ok [OF assms(2,3) 1(1), of t s] obtain st q' where
      "queue_inv (?w\<lparr>evs := st\<rparr>) q'" "evs (ml_engine m') = st" "next_addr (ml_engine m') = next_addr ?w"
      by (auto simp: on_engine_def upd_engine_def emit_def upd_svc_def)
    then show ?thesis using queue_inv_alloc [of "?w\<lparr>evs := st\<rparr>" q' "ml_engine m'"] by auto
  next
    case 2
    with postpone_host_ok [OF assms(2,3) 2(1), of t h] obtain st q' where
      "queue_inv (?w\<lparr>evs := st\<rparr>) q'" "evs (ml_engine m') = st" "next_addr (ml_engine m') = next_addr ?w"
      by (auto simp: on_engine_def upd_engine_def emit_def upd_host_def)
    then show ?thesis using queue_inv_alloc [of "?w\<lparr>evs := st\<rparr>" q' "ml_engine m'"] by auto
  qed
qed

lemma idle_step:
  assumes "turn_ok t" "idle t w = Some w'"
  shows "queue_step w w'"
proof -
  obtain w1 where w1: "(if command_check_interval (cfg w) = - 1 then external_command_check t w else Some w) = Some w1"
    "w' = emit Idle (emit Broker_sleep w1)" using assms(2) by (auto simp: idle_def)
  have "queue_step w w1" using w1(1) external_command_check_step [OF assms(1)] by (auto split: if_splits intro: queue_step_same)
  from queue_step_trans [OF queue_step_trans [OF this queue.frame_emit] queue.frame_emit] show ?thesis unfolding w1(2) .
qed

lemma handle_events_inv:
  assumes "turn_ok t" "queue_inv (ml_engine m) q" "handle_events t m = Some m'"
  shows "\<exists>q'. queue_inv (ml_engine m') q'"
proof (cases "due (now (t_env t)) High (evs (ml_engine m))")
  case (Some e)
  with assms(3) have "run_event t High e m = Some m'" by (simp add: handle_events_def)
  moreover obtain r where "q High = e # r" using due_head [OF assms(2) Some] by blast
  ultimately show ?thesis using run_event_ok [OF assms(1,2)] by metis
next
  case None
  note high = this
  show ?thesis
  proof (cases "due (now (t_env t)) Low (evs (ml_engine m))")
    case None
    then have "idle t (ml_engine m) = Some (ml_engine m')" using high assms(3) by (auto simp: handle_events_def on_engine_def)
    from queue_stepD [OF idle_step [OF assms(1) this] assms(2)] show ?thesis using queues_keptD(2) by blast
  next
    case (Some e)
    with due_head [OF assms(2) Some] run_low_event_inv [OF assms(1,2)] assms(3) high show ?thesis
      by (auto simp: handle_events_def)
  qed
qed

lemma handle_time_inv:
  assumes "queue_inv (ml_engine m) q"
  shows "\<exists>m' q'. handle_time t m = Some m' \<and> queue_inv (ml_engine m') q'"
proof -
  have upd: "\<exists>q'. queue_inv (ml_engine (let m2 = m1\<lparr>ml_last_time := now (t_env t)\<rparr>
      in if ulong_of (now (t_env t) - ml_last_status_update m2) > 5
         then upd_engine (emit Update_program_status) (m2\<lparr>ml_last_status_update := now (t_env t)\<rparr>) else m2)) q'"
    if "queue_inv (ml_engine m1) q1" for m1 q1
    by (rule exI [of _ q1], rule queue_inv_alloc [OF that]) (simp_all add: Let_def upd_engine_def emit_def)
  obtain w' q' where w': "compensate_for_system_time_change (t_env t) (ml_last_time m) (now (t_env t)) (ml_engine m) = Some w'"
    "queues_kept (ml_engine m) q w' q'" using compensate_kept [OF assms] by blast
  show ?thesis
    using upd [OF assms] upd [of "m\<lparr>ml_engine := w'\<rparr>" q'] queues_keptD(2) [OF w'(2)] w'(1)
    by (auto simp: handle_time_def on_engine_def Let_def)
qed

lemma handle_reload_inv:
  assumes "turn_ok t" "queue_inv (ml_engine m) q"
  shows "\<exists>q'. queue_inv (ml_engine (handle_reload t m)) q'"
proof -
  have "\<exists>q'. queue_inv (t_apply t (ml_engine m)) q'"
    using queue_stepD [of "ml_engine m" "t_apply t (ml_engine m)"] queues_keptD(2) assms
    unfolding turn_ok_def by metis
  with assms(2) show ?thesis by (auto simp: handle_reload_def Let_def upd_engine_def)
qed

lemma dispatch_turn_inv:
  assumes "turn_ok t" "queue_inv (ml_engine m) q" "dispatch_turn t m = Some (quit, m')"
  shows "\<exists>q'. queue_inv (ml_engine m') q'"
proof (cases "m' = m")
  case False
  then obtain m1 where m1: "handle_time t (handle_reload t m) = Some m1" "handle_events t m1 = Some m'"
    using assms(3) by (auto simp: dispatch_turn_def bind_eq_Some_conv split: if_splits)
  obtain q1 where "queue_inv (ml_engine (handle_reload t m)) q1" using handle_reload_inv [OF assms(1,2)] by blast
  with handle_time_inv m1(1) obtain q2 where "queue_inv (ml_engine m1) q2" by (metis option.inject)
  from handle_events_inv [OF assms(1) this m1(2)] show ?thesis .
qed (use assms(2) in blast)

end
