(* ===== verification/Event_Loop_Safety.thy ===== *)
theory Event_Loop_Safety
  imports Event_Loop_Facts Examples
begin

text \<open>
  The main loop as a step relation over turns: the states it reaches, when it returns, what it
  runs in a turn and what becomes of the event it ran.
\<close>

section \<open>The states the loop reaches\<close>

inductive loop_reach :: "(nat \<Rightarrow> turn) \<Rightarrow> main_loop \<Rightarrow> nat \<Rightarrow> main_loop \<Rightarrow> bool"
  for turns :: "nat \<Rightarrow> turn" and m0 :: main_loop where
  loop_start: "loop_reach turns m0 0 m0"
| loop_turn: "loop_reach turns m0 n m \<Longrightarrow> dispatch_turn (turns n) m = Some (False, m') \<Longrightarrow>
    loop_reach turns m0 (Suc n) m'"

lemma reach_queue_inv:
  assumes "loop_reach turns m0 n m" "queue_inv (ml_engine m0) q" "\<And>i. turn_ok (turns i)"
  shows "\<exists>q'. queue_inv (ml_engine m) q'"
  using assms(1)
proof induction
  case loop_start
  show ?case using assms(2) by blast
next
  case (loop_turn n m m')
  then show ?case using dispatch_turn_inv assms(3) by blast
qed

lemma dispatching_reaches:
  assumes "dispatching turns i0 m0 = Some m"
  shows "\<forall>m1. loop_reach turns m1 i0 m0 \<longrightarrow>
    (\<exists>n. loop_reach turns m1 n m \<and> dispatch_turn (turns n) m = Some (True, m))"
proof (rule dispatching.raw_induct [OF _ assms], goal_cases)
  case (1 f turns i m r)
  note IH = 1(1) and run = 1(2)
  from run obtain quit m' where t: "dispatch_turn (turns i) m = Some (quit, m')"
    "(if quit then Some m' else f turns (Suc i) m') = Some r"
    by (auto split: option.splits)
  show ?case
  proof (intro allI impI)
    fix m1 assume reach: "loop_reach turns m1 i m"
    show "\<exists>n. loop_reach turns m1 n r \<and> dispatch_turn (turns n) r = Some (True, r)"
    proof (cases quit)
      case True
      then have "m' = m" using t(1) by (auto simp: dispatch_turn_def split: if_splits)
      with True t reach show ?thesis by auto
    next
      case False
      then have "f turns (Suc i) m' = Some r" "loop_reach turns m1 (Suc i) m'"
        using t reach by (auto intro: loop_reach.loop_turn)
      then show ?thesis using IH by blast
    qed
  qed
qed

text \<open>The event a turn runs, if one is due: of the high priority list first.\<close>

definition next_due :: "int \<Rightarrow> evstore \<Rightarrow> (priority \<times> addr) option" where
  "next_due current_time s =
     (case due current_time High s of
        Some e \<Rightarrow> Some (High, e)
      | None \<Rightarrow> map_option (Pair Low) (due current_time Low s))"

lemma handle_events_by_due:
  "handle_events t m =
     (case next_due (now (t_env t)) (evs (ml_engine m)) of
        None \<Rightarrow> on_engine (idle t) m
      | Some (High, e) \<Rightarrow> run_event t High e m
      | Some (Low, e) \<Rightarrow> run_low_event t e m)"
  by (simp add: handle_events_def next_due_def Let_def split: option.split)

lemma quits_iff:
  "dispatch_turn t m = Some (True, m) \<longleftrightarrow> ml_sigshutdown m \<or> (\<forall>p. list_head (evs (ml_engine m)) p = None)"
proof -
  have "(\<forall>p. list_head (evs (ml_engine m)) p = None) \<longleftrightarrow>
      list_head (evs (ml_engine m)) High = None \<and> list_head (evs (ml_engine m)) Low = None"
    by (metis priority.exhaust)
  then show ?thesis by (auto simp: dispatch_turn_def)
qed

text \<open>A run of turns to a state in which the loop is left is what the loop does.\<close>

lemma dispatching_turn:
  "dispatch_turn (turns n) m = Some (False, m') \<Longrightarrow> dispatching turns n m = dispatching turns (Suc n) m'"
  by (subst dispatching.simps) simp

lemma reach_dispatching:
  assumes "loop_reach turns m0 n m" "dispatch_turn (turns n) m = Some (True, m)"
  shows "dispatching turns 0 m0 = Some m"
proof -
  have "dispatching turns 0 m0 = dispatching turns n m"
    using assms(1) by induction (simp_all add: dispatching_turn)
  also have "\<dots> = Some m" using assms(2) by (subst dispatching.simps) simp
  finally show ?thesis .
qed

lemma shutdown_turn:
  assumes "queue_inv (ml_engine m) q" "next_due (now (t_env t)) (evs (ml_engine m)) = Some (p, e)"
    "event_type (heap (evs (ml_engine m)) e) = EVENT_PROGRAM_SHUTDOWN"
  shows "\<exists>m'. handle_events t m = Some m' \<and> ml_sigshutdown m'"
proof -
  have d: "due (now (t_env t)) p (evs (ml_engine m)) = Some e"
    using assms(2) by (auto simp: next_due_def split: option.splits)
  obtain r where "q p = e # r" using due_head [OF assms(1) d] by blast
  from run_shutdown_event [OF assms(1) this assms(3), of t]
  obtain m' where "run_event t p e m = Some m'" "ml_sigshutdown m'" by blast
  moreover have "run_low_event t e m = run_event t Low e m"
    using assms(3) by (simp add: run_low_event_def event_numbers)
  ultimately show ?thesis using assms(2) by (cases p) (simp_all add: handle_events_by_due)
qed

lemma run_loop_reaches:
  "run_loop turns w = Some m \<longleftrightarrow>
    (\<exists>n. loop_reach turns (loop_begin turns w) n m \<and>
       (ml_sigshutdown m \<or> (\<forall>p. list_head (evs (ml_engine m)) p = None)))"
proof
  assume "run_loop turns w = Some m"
  then have "dispatching turns 0 (loop_begin turns w) = Some m" by (simp add: run_loop_def)
  from dispatching_reaches [OF this, rule_format, OF loop_start]
  show "\<exists>n. loop_reach turns (loop_begin turns w) n m \<and>
      (ml_sigshutdown m \<or> (\<forall>p. list_head (evs (ml_engine m)) p = None))" by (simp only: quits_iff)
next
  assume "\<exists>n. loop_reach turns (loop_begin turns w) n m \<and>
      (ml_sigshutdown m \<or> (\<forall>p. list_head (evs (ml_engine m)) p = None))"
  then obtain n where n: "loop_reach turns (loop_begin turns w) n m" "dispatch_turn (turns n) m = Some (True, m)"
    by (auto simp only: quits_iff)
  show "run_loop turns w = Some m" using reach_dispatching [OF n] by (simp add: run_loop_def)
qed

section \<open>A small loop\<close>

definition ex_tick :: "nat \<Rightarrow> bool \<Rightarrow> evstore" where
  "ex_tick ty recur = ex_empty\<lparr>heap := (heap ex_empty)(0 :=
       (ex_event 100 None)\<lparr>event_type := ty, recurring := recur, event_interval := 60\<rparr>),
     list_head := (\<lambda>_. None)(High := Some 0), list_tail := (\<lambda>_. None)(High := Some 0)\<rparr>"

definition ex_turn :: turn where
  "ex_turn = \<lparr>t_env = ex_env, t_reap_env = (\<lambda>_. ex_env), t_reap_signal = (\<lambda>_. False),
     t_reload_finished = False, t_apply = (\<lambda>w. w), t_rand = 3, t_user_function = (\<lambda>_ _ w. w), t_external_commands = Some\<rparr>"

definition ex_loop :: "engine \<Rightarrow> main_loop" where
  "ex_loop w = \<lparr>ml_engine = w, ml_last_time = 1000, ml_last_status_update = 0, ml_sigshutdown = False,
     ml_sighup = False, ml_need_reload = 0, ml_reload_running = False\<rparr>"

lemma ex_turn_ok: "turn_ok ex_turn"
  by (simp add: turn_ok_def ex_turn_def queue_step_same)

definition ex_ticking :: "nat \<Rightarrow> bool \<Rightarrow> engine" where
  "ex_ticking ty recur = ex_engine\<lparr>evs := ex_tick ty recur, next_addr := 1\<rparr>"

lemma ex_ticking_inv:
  assumes "hash_type_of ty = None"
  shows "queue_inv (ex_ticking ty recur) ((\<lambda>_. [])(High := [0]))"
  using assms
  by (auto simp: queue_inv_def event_queues_def queues_def event_list_rep_def dll_def index_ok_def indexed_def
      ex_tick_def ex_empty_def ex_event_def listable_def ex_engine_def ex_ticking_def split: option.splits)

definition ex_waiting :: engine where
  "ex_waiting = ex_engine\<lparr>evs := ex_one, next_addr := 1, currently_running_service_checks := 4,
     cfg := ex_cfg\<lparr>max_parallel_service_checks := 4\<rparr>\<rparr>"

lemma ex_waiting_inv: "queue_inv ex_waiting ex_one_q"
  using ex_one_queues
  by (auto simp: queue_inv_def event_queues_def ex_waiting_def ex_one_q_def listable_def ex_one_def ex_empty_def
      ex_event_def)

section \<open>Properties\<close>

text \<open>C7. The main loop returns exactly when its turns reach a state after a shutdown signal or
  with both lists empty, and with that state; and it does return once a shutdown event is the
  next due event of a turn whose lists are in order: behind that turn, whatever the other turns
  do and whatever is called from outside the loop.\<close>

theorem loop_returns_when_done:
  "(\<forall>m. run_loop turns w = Some m \<longleftrightarrow>
      (\<exists>n. loop_reach turns (loop_begin turns w) n m \<and>
         (ml_sigshutdown m \<or> (\<forall>p. list_head (evs (ml_engine m)) p = None)))) \<and>
    (\<forall>n m m1 q p e. loop_reach turns (loop_begin turns w) n m \<and> \<not> ml_sigshutdown m \<and>
       (\<exists>p. list_head (evs (ml_engine m)) p \<noteq> None) \<and>
       handle_time (turns n) (handle_reload (turns n) m) = Some m1 \<and> queue_inv (ml_engine m1) q \<and>
       next_due (now (t_env (turns n))) (evs (ml_engine m1)) = Some (p, e) \<and>
       event_type (heap (evs (ml_engine m1)) e) = EVENT_PROGRAM_SHUTDOWN \<longrightarrow>
       (\<exists>m'. run_loop turns w = Some m' \<and> loop_reach turns (loop_begin turns w) (Suc n) m' \<and> ml_sigshutdown m'))"
proof (intro conjI allI impI)
  show "run_loop turns w = Some m \<longleftrightarrow> (\<exists>n. loop_reach turns (loop_begin turns w) n m \<and>
      (ml_sigshutdown m \<or> (\<forall>p. list_head (evs (ml_engine m)) p = None)))" for m
    by (rule run_loop_reaches)
  fix n m m1 q p e
  assume a: "loop_reach turns (loop_begin turns w) n m \<and> \<not> ml_sigshutdown m \<and>
       (\<exists>p. list_head (evs (ml_engine m)) p \<noteq> None) \<and>
       handle_time (turns n) (handle_reload (turns n) m) = Some m1 \<and> queue_inv (ml_engine m1) q \<and>
       next_due (now (t_env (turns n))) (evs (ml_engine m1)) = Some (p, e) \<and>
       event_type (heap (evs (ml_engine m1)) e) = EVENT_PROGRAM_SHUTDOWN"
  then obtain m' where m': "handle_events (turns n) m1 = Some m'" "ml_sigshutdown m'"
    using shutdown_turn [of m1 q "turns n" p e] by blast
  from a obtain p' where "list_head (evs (ml_engine m)) p' \<noteq> None" by blast
  then have "dispatch_turn (turns n) m = Some (False, m')"
    using a m'(1) by (cases p') (simp_all add: dispatch_turn_def)
  with a have "loop_reach turns (loop_begin turns w) (Suc n) m'" by (blast intro: loop_reach.loop_turn)
  then show "\<exists>m'. run_loop turns w = Some m' \<and> loop_reach turns (loop_begin turns w) (Suc n) m' \<and> ml_sigshutdown m'"
    using run_loop_reaches [of turns w m'] m'(2) by blast
qed

theorem loop_returns_when_done_witness:
  "\<exists>m. run_loop (\<lambda>_. ex_turn) (ex_ticking EVENT_PROGRAM_SHUTDOWN False) = Some m \<and> ml_sigshutdown m"
proof -
  let ?w = "ex_ticking EVENT_PROGRAM_SHUTDOWN False" and ?ts = "\<lambda>_. ex_turn"
  let ?m = "loop_begin ?ts ?w" and ?q = "(\<lambda>_. [])(High := [0])"
  have "handle_time ex_turn (handle_reload ex_turn ?m) \<noteq> None \<and>
      (let m1 = the (handle_time ex_turn (handle_reload ex_turn ?m)) in
       next_due (now (t_env ex_turn)) (evs (ml_engine m1)) = Some (High, 0) \<and>
       event_type (heap (evs (ml_engine m1)) 0) = EVENT_PROGRAM_SHUTDOWN) \<and>
      list_head (evs (ml_engine ?m)) High \<noteq> None \<and> \<not> ml_sigshutdown ?m"
    by code_simp
  then obtain m1 where m1: "handle_time ex_turn (handle_reload ex_turn ?m) = Some m1"
    "next_due (now (t_env ex_turn)) (evs (ml_engine m1)) = Some (High, 0)"
    "event_type (heap (evs (ml_engine m1)) 0) = EVENT_PROGRAM_SHUTDOWN"
    "list_head (evs (ml_engine ?m)) High \<noteq> None" "\<not> ml_sigshutdown ?m"
    by (auto simp: Let_def)
  have "queue_inv ?w ?q" by (rule ex_ticking_inv) (simp add: hash_type_of_def event_numbers)
  then obtain q0 where "queue_inv (ml_engine (handle_reload ex_turn ?m)) q0"
    using handle_reload_inv [OF ex_turn_ok, of ?m ?q] by (auto simp: loop_begin_def)
  then obtain q1 where "queue_inv (ml_engine m1) q1" using handle_time_inv m1(1) by (metis option.inject)
  then show ?thesis
    using loop_returns_when_done [of ?ts ?w] m1 loop_start [of ?ts ?m] by blast
qed

text \<open>C4. What a turn runs: the earliest event of the high priority list if it is due, else
  the earliest of the low priority list if that one is due while no event of the high list
  is; when it runs nothing, every queued event is still to come.\<close>

theorem turn_runs_earliest_due:
  assumes "queue_inv (ml_engine m) q"
  shows "case next_due (now (t_env t)) (evs (ml_engine m)) of
      None \<Rightarrow> handle_events t m = on_engine (idle t) m \<and>
        (\<forall>p. \<forall>a\<in>set (q p). now (t_env t) < rt (evs (ml_engine m)) a)
    | Some (p, e) \<Rightarrow>
        handle_events t m = (if p = High then run_event t High e m else run_low_event t e m) \<and>
        e \<in> set (q p) \<and> rt (evs (ml_engine m)) e \<le> now (t_env t) \<and>
        (\<forall>a\<in>set (q p). rt (evs (ml_engine m)) e \<le> rt (evs (ml_engine m)) a) \<and>
        (p = Low \<longrightarrow> (\<forall>a\<in>set (q High). now (t_env t) < rt (evs (ml_engine m)) a))"
proof (cases "next_due (now (t_env t)) (evs (ml_engine m))")
  case None
  then have "due (now (t_env t)) p (evs (ml_engine m)) = None" for p
    by (cases p) (auto simp: next_due_def split: option.splits)
  with None show ?thesis using not_due [OF assms] by (simp add: handle_events_by_due)
next
  case (Some pe)
  obtain p e where pe: "pe = (p, e)" by force
  have d: "due (now (t_env t)) p (evs (ml_engine m)) = Some e"
    "p = Low \<Longrightarrow> due (now (t_env t)) High (evs (ml_engine m)) = None"
    using Some by (auto simp: next_due_def pe split: option.splits)
  show ?thesis
    using Some due_head [OF assms d(1)] not_due [OF assms d(2)]
    by (cases p) (auto simp: handle_events_by_due pe)
qed

theorem turn_runs_earliest_due_witness:
  "handle_events ex_turn (ex_loop (ex_ticking EVENT_RETENTION_SAVE True)) =
     run_event ex_turn High 0 (ex_loop (ex_ticking EVENT_RETENTION_SAVE True))"
proof -
  have "queue_inv (ml_engine (ex_loop (ex_ticking EVENT_RETENTION_SAVE True))) ((\<lambda>_. [])(High := [0]))"
    using ex_ticking_inv [of EVENT_RETENTION_SAVE True] by (simp add: ex_loop_def hash_type_of_def event_numbers)
  from turn_runs_earliest_due [OF this, of ex_turn] show ?thesis
    by (simp add: next_due_def due_def ex_loop_def ex_ticking_def ex_tick_def ex_empty_def ex_event_def ex_turn_def ex_env_def)
qed



text \<open>C6. The limit of parallel service checks and the switch of active checks: the turn that
  meets a due check of a service starts no check if as many checks run as the limit allows (0 for
  no limit) or active checks are off, unless the check is forced; the service's next check and its
  event are then at the same time, 5 to 14 seconds after the next check was due if the limit is
  reached, else one check interval after it, or one retry interval for a soft problem (at once if
  that is shorter than a second); the lists hold the same events.\<close>

theorem service_check_postponed:
  fixes m :: main_loop and s :: svc_id
  defines "w \<equiv> ml_engine m"
  defines "v \<equiv> svc_of w s"
  defines "limit_reached \<equiv> max_parallel_service_checks (cfg w) \<noteq> 0 \<and>
    max_parallel_service_checks (cfg w) \<le> currently_running_service_checks w"
  defines "pause \<equiv> (if s_state_type v = SOFT_STATE \<and> s_current_state v \<noteq> STATE_OK then s_retry_interval v
    else s_check_interval v) * of_int (interval_length (cfg w))"
  assumes "queue_inv w q" "q Low = e # r" "event_type (heap (evs w) e) = EVENT_SERVICE_CHECK"
    "event_data (heap (evs w) e) = Some (ServicePtr s)"
    "limit_reached \<or> \<not> execute_service_checks (cfg w)" "\<not> forced (s_check_options v)"
    "0 \<le> s_next_check v" "0 \<le> pause"
  shows "\<exists>m' q'. run_low_event t e m = Some m' \<and> queue_inv (ml_engine m') q' \<and>
    q' High = q High \<and> set (q' Low) = set (q Low) \<and>
    rt (evs (ml_engine m')) e = s_next_check (svc_of (ml_engine m') s) \<and>
    (if limit_reached
     then s_next_check v + 5 \<le> s_next_check (svc_of (ml_engine m') s) \<and>
       s_next_check (svc_of (ml_engine m') s) \<le> s_next_check v + 14
     else s_next_check (svc_of (ml_engine m') s) = s_next_check v + \<lfloor>pause\<rfloor>) \<and>
    currently_running_service_checks (ml_engine m') = currently_running_service_checks w \<and>
    out (ml_engine m') = out w @ [Update_status (ServiceTarget s), Idle]"
proof -
  let ?nc = "postponed_service_check t s w"
  obtain st xs where w': "postpone_service t e s w =
      Some (emit (Update_status (ServiceTarget s)) (upd_svc s (\<lambda>v. v\<lparr>s_next_check := ?nc\<rparr>) (w\<lparr>evs := st\<rparr>)))"
    "queue_inv (w\<lparr>evs := st\<rparr>) (q(Low := xs))" "set xs = set (q Low)" "rt st e = ?nc"
    using postpone_service_ok [OF assms(5,6,7), of t s] by blast
  let ?w' = "emit Idle (emit (Update_status (ServiceTarget s)) (upd_svc s (\<lambda>v. v\<lparr>s_next_check := ?nc\<rparr>) (w\<lparr>evs := st\<rparr>)))"
  have "\<not> may_run_service s w"
    using assms(9,10) by (auto simp: may_run_service_def too_many_checks_def limit_reached_def v_def)
  then have "run_low_event t e m = Some (m\<lparr>ml_engine := ?w'\<rparr>)"
    using assms(7,8) w'(1) by (simp add: run_low_event_def Let_def on_engine_def upd_engine_def w_def)
  moreover have "queue_inv ?w' (q(Low := xs))"
    by (rule queue_inv_alloc [OF w'(2)]) (simp_all add: upd_svc_def emit_def)
  moreover have "if limit_reached then s_next_check v + 5 \<le> ?nc \<and> ?nc \<le> s_next_check v + 14
      else ?nc = s_next_check v + \<lfloor>pause\<rfloor>"
  proof -
    have "int (t_rand t) mod 10 < 10" by simp
    moreover have "trunc_to_time (of_int (s_next_check v) + pause) = s_next_check v + \<lfloor>pause\<rfloor>"
      using assms(11,12) by (simp add: trunc_to_time_def)
    moreover have "too_many_checks w = limit_reached" by (simp add: too_many_checks_def limit_reached_def)
    ultimately show ?thesis
      by (simp add: postponed_service_check_def Let_def pause_def v_def [symmetric] del: pos_mod_bound)
  qed
  ultimately show ?thesis
    using w'(3,4) by (intro exI [of _ "m\<lparr>ml_engine := ?w'\<rparr>"] exI [of _ "q(Low := xs)"])
      (simp add: upd_svc_def emit_def)
qed

theorem service_check_postponed_witness:
  "\<exists>m. run_low_event ex_turn 0 (ex_loop ex_waiting) = Some m \<and>
     s_next_check ex_service + 5 \<le> rt (evs (ml_engine m)) 0 \<and> currently_running_service_checks (ml_engine m) = 4"
proof -
  have w: "ml_engine (ex_loop ex_waiting) = ex_waiting" by (simp add: ex_loop_def)
  have "event_type (heap (evs ex_waiting) 0) = EVENT_SERVICE_CHECK"
    "event_data (heap (evs ex_waiting) 0) = Some (ServicePtr (''h'', ''s''))"
    "max_parallel_service_checks (cfg ex_waiting) = 4" "currently_running_service_checks ex_waiting = 4"
    "svc_of ex_waiting (''h'', ''s'') = ex_service" "interval_length (cfg ex_waiting) = 60"
    by (simp_all add: ex_waiting_def ex_one_def ex_empty_def ex_event_def ex_engine_def ex_cfg_def)
  moreover have "\<not> forced (s_check_options ex_service)" "0 \<le> s_next_check ex_service" "0 \<le> s_check_interval ex_service"
    "0 \<le> s_retry_interval ex_service" by code_simp+
  moreover have "ex_one_q Low = [0]" by (simp add: ex_one_q_def)
  ultimately show ?thesis
    using service_check_postponed [of "ex_loop ex_waiting" ex_one_q 0 "[]" "(''h'', ''s'')" ex_turn] ex_waiting_inv
    unfolding w by auto
qed

end
