(* ===== verification/Switches.thy ===== *)
theory Switches
  imports Check_Scheduling Acknowledgements Notifications Flapping Downtime
begin

text \<open>
  The internal command implementations of \<^verbatim>\<open>modules/external_commands/src/commands.cc\<close>:
  switches of services, hosts, contacts and of the whole program, and their propagation along
  the tree of hosts. Every switch leaves early when it is already set, else records the
  attribute as changed, tells the broker and updates the status.
\<close>

unbundle bit_operations_syntax

section \<open>The shape of a switch\<close>

definition switch_service ::
    "(service \<Rightarrow> bool) \<Rightarrow> (service \<Rightarrow> service) \<Rightarrow> int \<Rightarrow> bool \<Rightarrow> svc_id \<Rightarrow> engine \<Rightarrow> engine" where
  "switch_service get put attr b s w =
     (if get (svc_of w s) = b then w
      else
        let w1 = upd_svc s (\<lambda>v. put (v\<lparr>s_modified_attributes := s_modified_attributes v OR attr\<rparr>)) w
        in emit (Update_status (ServiceTarget s))
             (emit (Broker_adaptive (ServiceTarget s) CMD_NONE attr (s_modified_attributes (svc_of w1 s))) w1))"

definition switch_host ::
    "(host \<Rightarrow> bool) \<Rightarrow> (host \<Rightarrow> host) \<Rightarrow> int \<Rightarrow> bool \<Rightarrow> host_id \<Rightarrow> engine \<Rightarrow> engine" where
  "switch_host get put attr b h w =
     (if get (host_of w h) = b then w
      else
        let w1 = upd_host h (\<lambda>v. put (v\<lparr>h_modified_attributes := h_modified_attributes v OR attr\<rparr>)) w
        in emit (Update_status (HostTarget h))
             (emit (Broker_adaptive (HostTarget h) CMD_NONE attr (h_modified_attributes (host_of w1 h))) w1))"

text \<open>
  A switch of the program: the attribute goes to the mask of hosts, of services or of both.
\<close>

definition switch_program ::
    "(config \<Rightarrow> bool) \<Rightarrow> (config \<Rightarrow> config) \<Rightarrow> int \<Rightarrow> int \<Rightarrow> bool \<Rightarrow> engine \<Rightarrow> engine" where
  "switch_program get put hattr sattr b w =
     (if get (cfg w) = b then w
      else
        let w1 = w\<lparr>modified_host_process_attributes := modified_host_process_attributes w OR hattr,
                   modified_service_process_attributes := modified_service_process_attributes w OR sattr,
                   cfg := put (cfg w)\<rparr>
        in emit Update_program_status
             (emit (Broker_adaptive_program (hattr, modified_host_process_attributes w1)
                (sattr, modified_service_process_attributes w1)) w1))"

section \<open>Switches of services\<close>

definition enable_service_notifications :: "svc_id \<Rightarrow> engine \<Rightarrow> engine" where
  "enable_service_notifications = switch_service s_notifications_enabled
     (\<lambda>v. v\<lparr>s_notifications_enabled := True\<rparr>) MODATTR_NOTIFICATIONS_ENABLED True"

definition disable_service_notifications :: "svc_id \<Rightarrow> engine \<Rightarrow> engine" where
  "disable_service_notifications = switch_service s_notifications_enabled
     (\<lambda>v. v\<lparr>s_notifications_enabled := False\<rparr>) MODATTR_NOTIFICATIONS_ENABLED False"

definition disable_service_checks :: "svc_id \<Rightarrow> engine \<Rightarrow> engine" where
  "disable_service_checks = switch_service s_checks_enabled
     (\<lambda>v. v\<lparr>s_checks_enabled := False, s_should_be_scheduled := False\<rparr>) MODATTR_ACTIVE_CHECKS_ENABLED False"

definition enable_passive_service_checks :: "svc_id \<Rightarrow> engine \<Rightarrow> engine" where
  "enable_passive_service_checks = switch_service s_accept_passive_service_checks
     (\<lambda>v. v\<lparr>s_accept_passive_service_checks := True\<rparr>) MODATTR_PASSIVE_CHECKS_ENABLED True"

definition disable_passive_service_checks :: "svc_id \<Rightarrow> engine \<Rightarrow> engine" where
  "disable_passive_service_checks = switch_service s_accept_passive_service_checks
     (\<lambda>v. v\<lparr>s_accept_passive_service_checks := False\<rparr>) MODATTR_PASSIVE_CHECKS_ENABLED False"

definition enable_service_event_handler :: "svc_id \<Rightarrow> engine \<Rightarrow> engine" where
  "enable_service_event_handler = switch_service s_event_handler_enabled
     (\<lambda>v. v\<lparr>s_event_handler_enabled := True\<rparr>) MODATTR_EVENT_HANDLER_ENABLED True"

definition disable_service_event_handler :: "svc_id \<Rightarrow> engine \<Rightarrow> engine" where
  "disable_service_event_handler = switch_service s_event_handler_enabled
     (\<lambda>v. v\<lparr>s_event_handler_enabled := False\<rparr>) MODATTR_EVENT_HANDLER_ENABLED False"

definition start_obsessing_over_service :: "svc_id \<Rightarrow> engine \<Rightarrow> engine" where
  "start_obsessing_over_service = switch_service s_obsess_over_service
     (\<lambda>v. v\<lparr>s_obsess_over_service := True\<rparr>) MODATTR_OBSESSIVE_HANDLER_ENABLED True"

definition stop_obsessing_over_service :: "svc_id \<Rightarrow> engine \<Rightarrow> engine" where
  "stop_obsessing_over_service = switch_service s_obsess_over_service
     (\<lambda>v. v\<lparr>s_obsess_over_service := False\<rparr>) MODATTR_OBSESSIVE_HANDLER_ENABLED False"

text \<open>When a check that becomes possible again runs: now, or in the next valid second.\<close>

definition next_possible_check :: "env \<Rightarrow> tp_id option \<Rightarrow> int" where
  "next_possible_check ev period =
     (if check_time_against_period ev None (now ev) period = ERROR
      then get_next_valid_time ev None (now ev) period else now ev)"

definition enable_service_checks :: "env \<Rightarrow> svc_id \<Rightarrow> engine \<Rightarrow> engine option" where
  "enable_service_checks ev s w =
     (if s_checks_enabled (svc_of w s) then Some w
      else
        let w1 = upd_svc s (\<lambda>v. v\<lparr>
               s_modified_attributes := s_modified_attributes v OR MODATTR_ACTIVE_CHECKS_ENABLED,
               s_checks_enabled := True, s_should_be_scheduled := s_check_interval v \<noteq> 0,
               s_next_check := next_possible_check ev (s_check_period_ptr v)\<rparr>) w
        in map_option (\<lambda>w2. emit (Update_status (ServiceTarget s))
               (emit (Broker_adaptive (ServiceTarget s) CMD_NONE MODATTR_ACTIVE_CHECKS_ENABLED
                  (s_modified_attributes (svc_of w2 s))) w2))
             (if s_should_be_scheduled (svc_of w1 s)
              then schedule_service_check ev s (s_next_check (svc_of w1 s)) CHECK_OPTION_NONE w1 else Some w1))"

definition set_service_notification_number :: "svc_id \<Rightarrow> int \<Rightarrow> engine \<Rightarrow> engine" where
  "set_service_notification_number s num w =
     emit (Update_status (ServiceTarget s)) (upd_svc s (\<lambda>v. v\<lparr>s_current_notification_number := num\<rparr>) w)"

section \<open>Switches of hosts\<close>

definition enable_host_notifications :: "host_id \<Rightarrow> engine \<Rightarrow> engine" where
  "enable_host_notifications = switch_host h_notifications_enabled
     (\<lambda>v. v\<lparr>h_notifications_enabled := True\<rparr>) MODATTR_NOTIFICATIONS_ENABLED True"

definition disable_host_notifications :: "host_id \<Rightarrow> engine \<Rightarrow> engine" where
  "disable_host_notifications = switch_host h_notifications_enabled
     (\<lambda>v. v\<lparr>h_notifications_enabled := False\<rparr>) MODATTR_NOTIFICATIONS_ENABLED False"

definition disable_host_checks :: "host_id \<Rightarrow> engine \<Rightarrow> engine" where
  "disable_host_checks = switch_host h_checks_enabled
     (\<lambda>v. v\<lparr>h_checks_enabled := False, h_should_be_scheduled := False\<rparr>) MODATTR_ACTIVE_CHECKS_ENABLED False"

definition enable_passive_host_checks :: "host_id \<Rightarrow> engine \<Rightarrow> engine" where
  "enable_passive_host_checks = switch_host h_accept_passive_host_checks
     (\<lambda>v. v\<lparr>h_accept_passive_host_checks := True\<rparr>) MODATTR_PASSIVE_CHECKS_ENABLED True"

definition disable_passive_host_checks :: "host_id \<Rightarrow> engine \<Rightarrow> engine" where
  "disable_passive_host_checks = switch_host h_accept_passive_host_checks
     (\<lambda>v. v\<lparr>h_accept_passive_host_checks := False\<rparr>) MODATTR_PASSIVE_CHECKS_ENABLED False"

definition enable_host_event_handler :: "host_id \<Rightarrow> engine \<Rightarrow> engine" where
  "enable_host_event_handler = switch_host h_event_handler_enabled
     (\<lambda>v. v\<lparr>h_event_handler_enabled := True\<rparr>) MODATTR_EVENT_HANDLER_ENABLED True"

definition disable_host_event_handler :: "host_id \<Rightarrow> engine \<Rightarrow> engine" where
  "disable_host_event_handler = switch_host h_event_handler_enabled
     (\<lambda>v. v\<lparr>h_event_handler_enabled := False\<rparr>) MODATTR_EVENT_HANDLER_ENABLED False"

definition start_obsessing_over_host :: "host_id \<Rightarrow> engine \<Rightarrow> engine" where
  "start_obsessing_over_host = switch_host h_obsess_over_host
     (\<lambda>v. v\<lparr>h_obsess_over_host := True\<rparr>) MODATTR_OBSESSIVE_HANDLER_ENABLED True"

definition stop_obsessing_over_host :: "host_id \<Rightarrow> engine \<Rightarrow> engine" where
  "stop_obsessing_over_host = switch_host h_obsess_over_host
     (\<lambda>v. v\<lparr>h_obsess_over_host := False\<rparr>) MODATTR_OBSESSIVE_HANDLER_ENABLED False"

definition enable_host_checks :: "env \<Rightarrow> host_id \<Rightarrow> engine \<Rightarrow> engine option" where
  "enable_host_checks ev h w =
     (if h_checks_enabled (host_of w h) then Some w
      else
        let w1 = upd_host h (\<lambda>v. v\<lparr>
               h_modified_attributes := h_modified_attributes v OR MODATTR_ACTIVE_CHECKS_ENABLED,
               h_checks_enabled := True, h_should_be_scheduled := h_check_interval v \<noteq> 0,
               h_next_check := next_possible_check ev (h_check_period_ptr v)\<rparr>) w
        in map_option (\<lambda>w2. emit (Update_status (HostTarget h))
               (emit (Broker_adaptive (HostTarget h) CMD_NONE MODATTR_ACTIVE_CHECKS_ENABLED
                  (h_modified_attributes (host_of w2 h))) w2))
             (if h_should_be_scheduled (host_of w1 h)
              then schedule_host_check ev h (h_next_check (host_of w1 h)) CHECK_OPTION_NONE w1 else Some w1))"

definition set_host_notification_number :: "host_id \<Rightarrow> int \<Rightarrow> engine \<Rightarrow> engine" where
  "set_host_notification_number h num w =
     emit (Update_status (HostTarget h)) (upd_host h (\<lambda>v. v\<lparr>h_current_notification_number := num\<rparr>) w)"

section \<open>Switches of contacts\<close>

definition contact_changed :: "contact_id \<Rightarrow> nat \<Rightarrow> int \<Rightarrow> int \<Rightarrow> int \<Rightarrow> engine \<Rightarrow> engine" where
  "contact_changed c cmd attr hattr sattr w =
     (let v = contact_of w c
      in emit (Update_contact_status c)
           (emit (Broker_adaptive_contact c cmd (attr, c_modified_attributes v) (hattr, c_modified_host_attributes v)
              (sattr, c_modified_service_attributes v)) w))"

definition switch_contact_host :: "bool \<Rightarrow> contact_id \<Rightarrow> engine \<Rightarrow> engine" where
  "switch_contact_host b c w =
     (if c_host_notifications_enabled (contact_of w c) = b then w
      else contact_changed c CMD_NONE MODATTR_NONE MODATTR_NOTIFICATIONS_ENABLED MODATTR_NONE
             (upd_contact c (\<lambda>v. v\<lparr>
                c_modified_host_attributes := c_modified_host_attributes v OR MODATTR_NOTIFICATIONS_ENABLED,
                c_host_notifications_enabled := b\<rparr>) w))"

definition switch_contact_service :: "bool \<Rightarrow> contact_id \<Rightarrow> engine \<Rightarrow> engine" where
  "switch_contact_service b c w =
     (if c_service_notifications_enabled (contact_of w c) = b then w
      else contact_changed c CMD_NONE MODATTR_NONE MODATTR_NONE MODATTR_NOTIFICATIONS_ENABLED
             (upd_contact c (\<lambda>v. v\<lparr>
                c_modified_service_attributes := c_modified_service_attributes v OR MODATTR_NOTIFICATIONS_ENABLED,
                c_service_notifications_enabled := b\<rparr>) w))"

definition enable_contact_host_notifications :: "contact_id \<Rightarrow> engine \<Rightarrow> engine" where
  "enable_contact_host_notifications = switch_contact_host True"

definition disable_contact_host_notifications :: "contact_id \<Rightarrow> engine \<Rightarrow> engine" where
  "disable_contact_host_notifications = switch_contact_host False"

definition enable_contact_service_notifications :: "contact_id \<Rightarrow> engine \<Rightarrow> engine" where
  "enable_contact_service_notifications = switch_contact_service True"

definition disable_contact_service_notifications :: "contact_id \<Rightarrow> engine \<Rightarrow> engine" where
  "disable_contact_service_notifications = switch_contact_service False"

section \<open>Switches of the program\<close>

definition switch_notifications :: "bool \<Rightarrow> engine \<Rightarrow> engine" where
  "switch_notifications b = switch_program enable_notifications (\<lambda>c. c\<lparr>enable_notifications := b\<rparr>)
     MODATTR_NOTIFICATIONS_ENABLED MODATTR_NOTIFICATIONS_ENABLED b"

definition enable_all_notifications :: "engine \<Rightarrow> engine" where
  "enable_all_notifications = switch_notifications True"

definition disable_all_notifications :: "engine \<Rightarrow> engine" where
  "disable_all_notifications = switch_notifications False"

definition start_executing_service_checks :: "engine \<Rightarrow> engine" where
  "start_executing_service_checks = switch_program execute_service_checks
     (\<lambda>c. c\<lparr>execute_service_checks := True\<rparr>) MODATTR_NONE MODATTR_ACTIVE_CHECKS_ENABLED True"

definition stop_executing_service_checks :: "engine \<Rightarrow> engine" where
  "stop_executing_service_checks = switch_program execute_service_checks
     (\<lambda>c. c\<lparr>execute_service_checks := False\<rparr>) MODATTR_NONE MODATTR_ACTIVE_CHECKS_ENABLED False"

definition start_accepting_passive_service_checks :: "engine \<Rightarrow> engine" where
  "start_accepting_passive_service_checks = switch_program accept_passive_service_checks
     (\<lambda>c. c\<lparr>accept_passive_service_checks := True\<rparr>) MODATTR_NONE MODATTR_PASSIVE_CHECKS_ENABLED True"

definition stop_accepting_passive_service_checks :: "engine \<Rightarrow> engine" where
  "stop_accepting_passive_service_checks = switch_program accept_passive_service_checks
     (\<lambda>c. c\<lparr>accept_passive_service_checks := False\<rparr>) MODATTR_NONE MODATTR_PASSIVE_CHECKS_ENABLED False"

definition start_executing_host_checks :: "engine \<Rightarrow> engine" where
  "start_executing_host_checks = switch_program execute_host_checks
     (\<lambda>c. c\<lparr>execute_host_checks := True\<rparr>) MODATTR_ACTIVE_CHECKS_ENABLED MODATTR_NONE True"

definition stop_executing_host_checks :: "engine \<Rightarrow> engine" where
  "stop_executing_host_checks = switch_program execute_host_checks
     (\<lambda>c. c\<lparr>execute_host_checks := False\<rparr>) MODATTR_ACTIVE_CHECKS_ENABLED MODATTR_NONE False"

definition start_accepting_passive_host_checks :: "engine \<Rightarrow> engine" where
  "start_accepting_passive_host_checks = switch_program accept_passive_host_checks
     (\<lambda>c. c\<lparr>accept_passive_host_checks := True\<rparr>) MODATTR_PASSIVE_CHECKS_ENABLED MODATTR_NONE True"

definition stop_accepting_passive_host_checks :: "engine \<Rightarrow> engine" where
  "stop_accepting_passive_host_checks = switch_program accept_passive_host_checks
     (\<lambda>c. c\<lparr>accept_passive_host_checks := False\<rparr>) MODATTR_PASSIVE_CHECKS_ENABLED MODATTR_NONE False"

definition start_using_event_handlers :: "engine \<Rightarrow> engine" where
  "start_using_event_handlers = switch_program enable_event_handlers
     (\<lambda>c. c\<lparr>enable_event_handlers := True\<rparr>) MODATTR_EVENT_HANDLER_ENABLED MODATTR_EVENT_HANDLER_ENABLED True"

definition stop_using_event_handlers :: "engine \<Rightarrow> engine" where
  "stop_using_event_handlers = switch_program enable_event_handlers
     (\<lambda>c. c\<lparr>enable_event_handlers := False\<rparr>) MODATTR_EVENT_HANDLER_ENABLED MODATTR_EVENT_HANDLER_ENABLED False"

definition start_obsessing_over_service_checks :: "engine \<Rightarrow> engine" where
  "start_obsessing_over_service_checks = switch_program obsess_over_services
     (\<lambda>c. c\<lparr>obsess_over_services := True\<rparr>) MODATTR_NONE MODATTR_OBSESSIVE_HANDLER_ENABLED True"

definition stop_obsessing_over_service_checks :: "engine \<Rightarrow> engine" where
  "stop_obsessing_over_service_checks = switch_program obsess_over_services
     (\<lambda>c. c\<lparr>obsess_over_services := False\<rparr>) MODATTR_NONE MODATTR_OBSESSIVE_HANDLER_ENABLED False"

definition start_obsessing_over_host_checks :: "engine \<Rightarrow> engine" where
  "start_obsessing_over_host_checks = switch_program obsess_over_hosts
     (\<lambda>c. c\<lparr>obsess_over_hosts := True\<rparr>) MODATTR_OBSESSIVE_HANDLER_ENABLED MODATTR_NONE True"

definition stop_obsessing_over_host_checks :: "engine \<Rightarrow> engine" where
  "stop_obsessing_over_host_checks = switch_program obsess_over_hosts
     (\<lambda>c. c\<lparr>obsess_over_hosts := False\<rparr>) MODATTR_OBSESSIVE_HANDLER_ENABLED MODATTR_NONE False"

definition enable_service_freshness_checks :: "engine \<Rightarrow> engine" where
  "enable_service_freshness_checks = switch_program check_service_freshness
     (\<lambda>c. c\<lparr>check_service_freshness := True\<rparr>) MODATTR_NONE MODATTR_FRESHNESS_CHECKS_ENABLED True"

definition disable_service_freshness_checks :: "engine \<Rightarrow> engine" where
  "disable_service_freshness_checks = switch_program check_service_freshness
     (\<lambda>c. c\<lparr>check_service_freshness := False\<rparr>) MODATTR_NONE MODATTR_FRESHNESS_CHECKS_ENABLED False"

definition enable_host_freshness_checks :: "engine \<Rightarrow> engine" where
  "enable_host_freshness_checks = switch_program check_host_freshness
     (\<lambda>c. c\<lparr>check_host_freshness := True\<rparr>) MODATTR_FRESHNESS_CHECKS_ENABLED MODATTR_NONE True"

definition disable_host_freshness_checks :: "engine \<Rightarrow> engine" where
  "disable_host_freshness_checks = switch_program check_host_freshness
     (\<lambda>c. c\<lparr>check_host_freshness := False\<rparr>) MODATTR_FRESHNESS_CHECKS_ENABLED MODATTR_NONE False"

definition enable_performance_data :: "engine \<Rightarrow> engine" where
  "enable_performance_data = switch_program process_performance_data
     (\<lambda>c. c\<lparr>process_performance_data := True\<rparr>) MODATTR_PERFORMANCE_DATA_ENABLED MODATTR_PERFORMANCE_DATA_ENABLED True"

definition disable_performance_data :: "engine \<Rightarrow> engine" where
  "disable_performance_data = switch_program process_performance_data
     (\<lambda>c. c\<lparr>process_performance_data := False\<rparr>) MODATTR_PERFORMANCE_DATA_ENABLED MODATTR_PERFORMANCE_DATA_ENABLED False"

section \<open>Beyond a host\<close>

text \<open>The loop over the members of a list that have a pointer.\<close>

definition each_member :: "('x \<Rightarrow> engine \<Rightarrow> engine) \<Rightarrow> 'x option list \<Rightarrow> engine \<Rightarrow> engine" where
  "each_member f xs w = fold (\<lambda>x w. case x of None \<Rightarrow> w | Some y \<Rightarrow> f y w) xs w"

text \<open>
  The recursion over the children: the children of a child come first, then the child itself.
  An argument list is the members that are still to do. That the hosts form a tree is not
  checked here, so the walk may not end.
\<close>

partial_function (option) walk_children ::
    "(host_id \<Rightarrow> engine \<Rightarrow> engine option) \<Rightarrow> host_id option list \<Rightarrow> engine \<Rightarrow> engine option" where
  "walk_children visit children w =
     (case children of
        [] \<Rightarrow> Some w
      | None # cs \<Rightarrow> walk_children visit cs w
      | Some child # cs \<Rightarrow>
          Option.bind (walk_children visit (h_child_hosts (host_of w child)) w) (\<lambda>w1.
          Option.bind (visit child w1) (\<lambda>w2. walk_children visit cs w2)))"

declare walk_children.simps [code]

definition switch_child ::
    "(host_id \<Rightarrow> engine \<Rightarrow> engine) \<Rightarrow> (svc_id \<Rightarrow> engine \<Rightarrow> engine) \<Rightarrow> bool \<Rightarrow> bool \<Rightarrow> host_id \<Rightarrow>
     engine \<Rightarrow> engine" where
  "switch_child fh fs affect_hosts affect_services child w =
     (let w1 = (if affect_hosts then fh child w else w)
      in if affect_services then each_member fs (h_services (host_of w1 child)) w1 else w1)"

definition enable_and_propagate_notifications ::
    "host_id \<Rightarrow> bool \<Rightarrow> bool \<Rightarrow> bool \<Rightarrow> engine \<Rightarrow> engine option" where
  "enable_and_propagate_notifications h affect_top_host affect_hosts affect_services w =
     (let w1 = (if affect_top_host then enable_host_notifications h w else w)
      in walk_children (\<lambda>c w. Some (switch_child enable_host_notifications enable_service_notifications
              affect_hosts affect_services c w)) (h_child_hosts (host_of w1 h)) w1)"

definition disable_and_propagate_notifications ::
    "host_id \<Rightarrow> bool \<Rightarrow> bool \<Rightarrow> bool \<Rightarrow> engine \<Rightarrow> engine option" where
  "disable_and_propagate_notifications h affect_top_host affect_hosts affect_services w =
     (let w1 = (if affect_top_host then disable_host_notifications h w else w)
      in walk_children (\<lambda>c w. Some (switch_child disable_host_notifications disable_service_notifications
              affect_hosts affect_services c w)) (h_child_hosts (host_of w1 h)) w1)"

definition schedule_and_propagate_downtime :: "env \<Rightarrow> host_id \<Rightarrow> scheduled_downtime \<Rightarrow> engine \<Rightarrow> engine option" where
  "schedule_and_propagate_downtime ev h d w =
     walk_children (\<lambda>child w. map_option (\<lambda>(r, n, w1). w1)
         (schedule_downtime ev (d\<lparr>dt_type := HOST_DOWNTIME, dt_host_name := child, dt_service_description := None\<rparr>) w))
       (h_child_hosts (host_of w h)) w"

section \<open>Acknowledgements\<close>

definition ACKNOWLEDGEMENT_STICKY_number :: int where "ACKNOWLEDGEMENT_STICKY_number = 2"

definition COMMENTSOURCE_INTERNAL :: int where "COMMENTSOURCE_INTERNAL = 0"
definition COMMENTSOURCE_EXTERNAL :: int where "COMMENTSOURCE_EXTERNAL = 1"

definition acknowledgement_of :: "int \<Rightarrow> ack_type" where
  "acknowledgement_of n = (if n = ACKNOWLEDGEMENT_STICKY_number then ACKNOWLEDGEMENT_STICKY else ACKNOWLEDGEMENT_NORMAL)"

definition remove_host_acknowledgement :: "host_id \<Rightarrow> engine \<Rightarrow> engine" where
  "remove_host_acknowledgement h w =
     snd (delete_host_acknowledgement_comments (Some h)
       (emit (Update_status (HostTarget h)) (upd_host h (\<lambda>v. v\<lparr>h_problem_has_been_acknowledged := False\<rparr>) w)))"

definition remove_service_acknowledgement :: "svc_id \<Rightarrow> engine \<Rightarrow> engine" where
  "remove_service_acknowledgement s w =
     snd (delete_service_acknowledgement_comments (Some s)
       (emit (Update_status (ServiceTarget s)) (upd_svc s (\<lambda>v. v\<lparr>s_problem_has_been_acknowledged := False\<rparr>) w)))"

definition acknowledge_host_problem ::
    "env \<Rightarrow> host_id \<Rightarrow> string \<Rightarrow> string \<Rightarrow> int \<Rightarrow> bool \<Rightarrow> bool \<Rightarrow> engine \<Rightarrow> engine option" where
  "acknowledge_host_problem ev h ack_author ack_data ty notify persistent w =
     (if h_current_state (host_of w h) = HOST_UP then Some w
      else
        let w1 = upd_host_other h (\<lambda>p. p\<lparr>ho_last_acknowledgement := now ev\<rparr>)
                   (upd_host h (\<lambda>v. v\<lparr>h_problem_has_been_acknowledged := True,
                        h_acknowledgement_type := acknowledgement_of ty\<rparr>) w)
        in Option.bind (schedule_host_acknowledgement_expiration h w1) (\<lambda>w2.
           let w3 = emit (Broker_acknowledgement (HostTarget h) ack_author ack_data ty notify persistent) w2
           in Option.bind
                (if notify
                 then map_option snd (host_notification ev h NOTIFICATION_ACKNOWLEDGEMENT (Some ack_author)
                        (Some ack_data) NOTIFICATION_OPTION_NONE w3)
                 else Some w3)
                (\<lambda>w4. Some (snd (add_new_host_comment ACKNOWLEDGEMENT_COMMENT (Some h) (now ev) (Some ack_author)
                   (Some ack_data) persistent COMMENTSOURCE_INTERNAL False 0
                   (emit (Update_status (HostTarget h)) w4))))))"

definition acknowledge_service_problem ::
    "env \<Rightarrow> svc_id \<Rightarrow> string \<Rightarrow> string \<Rightarrow> int \<Rightarrow> bool \<Rightarrow> bool \<Rightarrow> engine \<Rightarrow> engine option" where
  "acknowledge_service_problem ev s ack_author ack_data ty notify persistent w =
     (if s_current_state (svc_of w s) = STATE_OK then Some w
      else
        let w1 = upd_svc_other s (\<lambda>p. p\<lparr>so_last_acknowledgement := now ev\<rparr>)
                   (upd_svc s (\<lambda>v. v\<lparr>s_problem_has_been_acknowledged := True,
                        s_acknowledgement_type := acknowledgement_of ty\<rparr>) w)
        in Option.bind (schedule_service_acknowledgement_expiration s w1) (\<lambda>w2.
           let w3 = emit (Broker_acknowledgement (ServiceTarget s) ack_author ack_data ty notify persistent) w2
           in Option.bind
                (if notify
                 then map_option snd (service_notification ev s NOTIFICATION_ACKNOWLEDGEMENT (Some ack_author)
                        (Some ack_data) NOTIFICATION_OPTION_NONE w3)
                 else Some w3)
                (\<lambda>w4. Some (snd (add_new_service_comment ACKNOWLEDGEMENT_COMMENT (Some (fst s)) (Some (snd s))
                   (now ev) (Some ack_author) (Some ack_data) persistent COMMENTSOURCE_INTERNAL False 0
                   (emit (Update_status (ServiceTarget s)) w4))))))"

end
