(* ===== verification/Command_Text.thy ===== *)
theory Command_Text
  imports Prelude
begin

text \<open>
  The text of external commands: \<open>my_strtok\<close> of \<^verbatim>\<open>src/shared.cc\<close> and the number
  parsing of the C library the commands use (\<open>strtol\<close>, \<open>strtoul\<close>, \<open>atoi\<close> and the
  decimal forms of \<open>strtod\<close>). A C string is the list of its characters before the final NUL.
\<close>

section \<open>Splitting\<close>

text \<open>
  The static buffer of \<open>my_strtok\<close> is passed on: an exhausted buffer gives the null pointer,
  otherwise the token and what follows the separator. Empty tokens are not skipped.
\<close>

definition my_strtok :: "char \<Rightarrow> string \<Rightarrow> (string \<times> string) option" where
  "my_strtok c buffer =
     (if buffer = [] then None
      else if c \<notin> set buffer then Some (buffer, [])
      else Some (takeWhile (\<lambda>x. x \<noteq> c) buffer, tl (dropWhile (\<lambda>x. x \<noteq> c) buffer)))"

text \<open>\<open>strchr\<close> used to cut a string: what precedes the first separator and what follows it.\<close>

definition cut_at :: "char \<Rightarrow> string \<Rightarrow> string \<times> string option" where
  "cut_at c s =
     (if c \<in> set s then (takeWhile (\<lambda>x. x \<noteq> c) s, Some (tl (dropWhile (\<lambda>x. x \<noteq> c) s))) else (s, None))"

section \<open>Numbers\<close>

definition is_space :: "char \<Rightarrow> bool" where
  "is_space c \<longleftrightarrow> c \<in> {CHR '' '', CHR 0x09, CHR 0x0A, CHR 0x0B, CHR 0x0C, CHR 0x0D}"

definition digit_value :: "char \<Rightarrow> nat option" where
  "digit_value c =
     (let n = of_char c in
      if 48 \<le> n \<and> n \<le> 57 then Some (n - 48)
      else if 97 \<le> n \<and> n \<le> 122 then Some (n - 87)
      else if 65 \<le> n \<and> n \<le> 90 then Some (n - 55)
      else None)"

definition digit_in :: "nat \<Rightarrow> char \<Rightarrow> bool" where
  "digit_in base c \<longleftrightarrow> (case digit_value c of None \<Rightarrow> False | Some d \<Rightarrow> d < base)"

definition digits_value :: "nat \<Rightarrow> string \<Rightarrow> nat" where
  "digits_value base ds = foldl (\<lambda>n c. n * base + the (digit_value c)) 0 ds"

text \<open>The sign, and the base when it is read from the prefix.\<close>

definition skip_sign :: "string \<Rightarrow> bool \<times> string" where
  "skip_sign s =
     (case s of [] \<Rightarrow> (False, [])
      | c # r \<Rightarrow> if c = CHR ''-'' then (True, r) else if c = CHR ''+'' then (False, r) else (False, s))"

definition read_base :: "nat \<Rightarrow> string \<Rightarrow> nat \<times> string" where
  "read_base base s =
     (if base \<noteq> 0 then (base, s)
      else case s of
        c # x # d # r \<Rightarrow>
          if c = CHR ''0'' \<and> (x = CHR ''x'' \<or> x = CHR ''X'') \<and> digit_in 16 d then (16, d # r)
          else if c = CHR ''0'' then (8, s) else (10, s)
      | c # r \<Rightarrow> if c = CHR ''0'' then (8, s) else (10, s)
      | [] \<Rightarrow> (10, s))"

definition read_number :: "nat \<Rightarrow> string \<Rightarrow> bool \<times> nat" where
  "read_number base s =
     (let (neg, r) = skip_sign (dropWhile is_space s);
          (b, ds) = read_base base r
      in (neg, digits_value b (takeWhile (digit_in b) ds)))"

definition strtol :: "nat \<Rightarrow> string \<Rightarrow> int" where
  "strtol base s =
     (let (neg, n) = read_number base s
      in if neg then max (- (2 ^ 63)) (- int n) else min (2 ^ 63 - 1) (int n))"

definition strtoul :: "nat \<Rightarrow> string \<Rightarrow> nat" where
  "strtoul base s =
     (let (neg, n) = read_number base s
      in if n \<ge> 2 ^ 64 then 2 ^ 64 - 1 else if neg then nat (- int n mod 2 ^ 64) else n)"

text \<open>A \<open>long\<close> stored in an \<open>int\<close>.\<close>

definition int_of_long :: "int \<Rightarrow> int" where
  "int_of_long x = (x + 2 ^ 31) mod 2 ^ 32 - 2 ^ 31"

definition atoi :: "string \<Rightarrow> int" where
  "atoi s = int_of_long (strtol 10 s)"

text \<open>
  \<open>strtod\<close>: decimal and hexadecimal numbers with an optional fraction and exponent; the
  spellings of infinity and of no number read as zero here.
\<close>

definition read_fraction :: "nat \<Rightarrow> string \<Rightarrow> rat \<times> string" where
  "read_fraction base s =
     (let ip = takeWhile (digit_in base) s;
          r = drop (length ip) s
      in case r of
           c # r1 \<Rightarrow>
             if c = CHR ''.''
             then let fp = takeWhile (digit_in base) r1
                  in (of_nat (digits_value base ip) + of_nat (digits_value base fp) / of_nat base ^ length fp,
                      drop (length fp) r1)
             else (of_nat (digits_value base ip), r)
         | [] \<Rightarrow> (of_nat (digits_value base ip), []))"

definition read_exponent :: "string \<Rightarrow> string \<Rightarrow> int" where
  "read_exponent marks s =
     (case s of
        [] \<Rightarrow> 0
      | c # r \<Rightarrow>
          if c \<in> set marks
          then let (neg, r1) = skip_sign r; n = digits_value 10 (takeWhile (digit_in 10) r1)
               in if neg then - int n else int n
          else 0)"

definition strtod :: "string \<Rightarrow> rat" where
  "strtod s =
     (let (neg, r) = skip_sign (dropWhile is_space s);
          hex = fst (read_base 0 r) = 16;
          (m, r1) = (if hex then read_fraction 16 (snd (read_base 0 r)) else read_fraction 10 r);
          e = (if hex then read_exponent ''pP'' r1 else read_exponent ''eE'' r1);
          radix = (if hex then 2 else 10);
          v = (if e < 0 then m / radix ^ nat (- e) else m * radix ^ nat e)
      in if neg then - v else v)"

text \<open>A \<open>double\<close> cast to \<open>int\<close>; out of range, the value the x86 instruction gives.\<close>

definition int_of_double :: "rat \<Rightarrow> int" where
  "int_of_double x =
     (let t = trunc_to_time x in if - (2 ^ 31) \<le> t \<and> t < 2 ^ 31 then t else - (2 ^ 31))"

section \<open>Tokens come back\<close>

lemma my_strtok_append:
  assumes "c \<notin> set t"
  shows "my_strtok c (t @ c # r) = Some (t, r)"
proof -
  have "takeWhile (\<lambda>x. x \<noteq> c) (t @ c # r) = t" "dropWhile (\<lambda>x. x \<noteq> c) (t @ c # r) = c # r"
    using assms by (auto simp: takeWhile_append dropWhile_append)
  then show ?thesis by (simp add: my_strtok_def)
qed

lemma my_strtok_last: "c \<notin> set t \<Longrightarrow> t \<noteq> [] \<Longrightarrow> my_strtok c t = Some (t, [])"
  by (simp add: my_strtok_def)

lemma my_strtok_Nil [simp]: "my_strtok c [] = None"
  by (simp add: my_strtok_def)

section \<open>Decimal numbers come back\<close>

fun decimal :: "nat \<Rightarrow> string" where
  "decimal n = (if n < 10 then [char_of (48 + n)] else decimal (n div 10) @ [char_of (48 + n mod 10)])"

declare decimal.simps [simp del]

definition plain_digit :: "nat \<Rightarrow> char \<Rightarrow> bool" where
  "plain_digit d c \<longleftrightarrow> digit_value c = Some d \<and> digit_in 10 c \<and> \<not> is_space c \<and> c \<noteq> CHR ''-'' \<and> c \<noteq> CHR ''+'' \<and>
     c \<noteq> CHR '';'' \<and> c \<noteq> CHR 0x0A"

lemma plain_digits: "list_all (\<lambda>d. plain_digit d (char_of (48 + d))) [0, 1, 2, 3, 4, 5, 6, 7, 8, 9 :: nat]"
  by code_simp

lemma digit_char: "d < 10 \<Longrightarrow> plain_digit d (char_of (48 + d))"
proof -
  assume "d < 10"
  then have "d \<in> set [0, 1, 2, 3, 4, 5, 6, 7, 8, 9]" by auto
  then show ?thesis using plain_digits by (simp only: list_all_iff)
qed

lemma decimal_digits:
  "(\<forall>c\<in>set (decimal n). digit_in 10 c \<and> \<not> is_space c \<and> c \<noteq> CHR ''-'' \<and> c \<noteq> CHR ''+'' \<and> c \<noteq> CHR '';'' \<and> c \<noteq> CHR 0x0A) \<and>
   digits_value 10 (decimal n) = n \<and> decimal n \<noteq> []"
proof (induction n rule: decimal.induct)
  case (1 n)
  show ?case
  proof (cases "n < 10")
    case True
    then show ?thesis
      using digit_char [OF True] by (simp add: decimal.simps [of n] digits_value_def plain_digit_def)
  next
    case False
    have d: "n mod 10 < 10" by simp
    from 1 [OF False] digit_char [OF d] False show ?thesis
      by (simp add: decimal.simps [of n] digits_value_def plain_digit_def)
  qed
qed

lemma read_decimal: "read_number 10 (decimal n) = (False, n)"
proof -
  note d = decimal_digits [of n]
  obtain c r where c: "decimal n = c # r" using d by (cases "decimal n") auto
  have "dropWhile is_space (decimal n) = decimal n" using d c by simp
  moreover have "skip_sign (decimal n) = (False, decimal n)" using d by (simp add: skip_sign_def c)
  moreover have tk: "takeWhile (digit_in 10) (decimal n) = decimal n" using d by (auto simp: takeWhile_eq_all_conv)
  ultimately show ?thesis using d by (simp add: read_number_def read_base_def tk)
qed

lemma strtoul_decimal: "n < 2 ^ 64 \<Longrightarrow> strtoul 10 (decimal n) = n"
  by (simp add: strtoul_def read_decimal)

lemma strtol_decimal: "n < 2 ^ 63 \<Longrightarrow> strtol 10 (decimal n) = int n"
  by (simp add: strtol_def read_decimal)

lemma atoi_decimal: "n < 2 ^ 31 \<Longrightarrow> atoi (decimal n) = int n"
  by (simp add: atoi_def strtol_decimal int_of_long_def)

end
