(* ===== verification/Command_Ids.thy ===== *)
theory Command_Ids
  imports Main
begin

text \<open>
  The identifiers of the external commands, from
  \<^verbatim>\<open>inc/com/centreon/engine/common.hh\<close>.
\<close>

definition CMD_ADD_HOST_COMMENT :: nat where "CMD_ADD_HOST_COMMENT = 1"
definition CMD_DEL_HOST_COMMENT :: nat where "CMD_DEL_HOST_COMMENT = 2"
definition CMD_ADD_SVC_COMMENT :: nat where "CMD_ADD_SVC_COMMENT = 3"
definition CMD_DEL_SVC_COMMENT :: nat where "CMD_DEL_SVC_COMMENT = 4"
definition CMD_ENABLE_SVC_CHECK :: nat where "CMD_ENABLE_SVC_CHECK = 5"
definition CMD_DISABLE_SVC_CHECK :: nat where "CMD_DISABLE_SVC_CHECK = 6"
definition CMD_SCHEDULE_SVC_CHECK :: nat where "CMD_SCHEDULE_SVC_CHECK = 7"
definition CMD_DELAY_SVC_NOTIFICATION :: nat where "CMD_DELAY_SVC_NOTIFICATION = 9"
definition CMD_DELAY_HOST_NOTIFICATION :: nat where "CMD_DELAY_HOST_NOTIFICATION = 10"
definition CMD_DISABLE_NOTIFICATIONS :: nat where "CMD_DISABLE_NOTIFICATIONS = 11"
definition CMD_ENABLE_NOTIFICATIONS :: nat where "CMD_ENABLE_NOTIFICATIONS = 12"
definition CMD_RESTART_PROCESS :: nat where "CMD_RESTART_PROCESS = 13"
definition CMD_SHUTDOWN_PROCESS :: nat where "CMD_SHUTDOWN_PROCESS = 14"
definition CMD_ENABLE_HOST_SVC_CHECKS :: nat where "CMD_ENABLE_HOST_SVC_CHECKS = 15"
definition CMD_DISABLE_HOST_SVC_CHECKS :: nat where "CMD_DISABLE_HOST_SVC_CHECKS = 16"
definition CMD_SCHEDULE_HOST_SVC_CHECKS :: nat where "CMD_SCHEDULE_HOST_SVC_CHECKS = 17"
definition CMD_DEL_ALL_HOST_COMMENTS :: nat where "CMD_DEL_ALL_HOST_COMMENTS = 20"
definition CMD_DEL_ALL_SVC_COMMENTS :: nat where "CMD_DEL_ALL_SVC_COMMENTS = 21"
definition CMD_ENABLE_SVC_NOTIFICATIONS :: nat where "CMD_ENABLE_SVC_NOTIFICATIONS = 22"
definition CMD_DISABLE_SVC_NOTIFICATIONS :: nat where "CMD_DISABLE_SVC_NOTIFICATIONS = 23"
definition CMD_ENABLE_HOST_NOTIFICATIONS :: nat where "CMD_ENABLE_HOST_NOTIFICATIONS = 24"
definition CMD_DISABLE_HOST_NOTIFICATIONS :: nat where "CMD_DISABLE_HOST_NOTIFICATIONS = 25"
definition CMD_ENABLE_ALL_NOTIFICATIONS_BEYOND_HOST :: nat where "CMD_ENABLE_ALL_NOTIFICATIONS_BEYOND_HOST = 26"
definition CMD_DISABLE_ALL_NOTIFICATIONS_BEYOND_HOST :: nat where "CMD_DISABLE_ALL_NOTIFICATIONS_BEYOND_HOST = 27"
definition CMD_ENABLE_HOST_SVC_NOTIFICATIONS :: nat where "CMD_ENABLE_HOST_SVC_NOTIFICATIONS = 28"
definition CMD_DISABLE_HOST_SVC_NOTIFICATIONS :: nat where "CMD_DISABLE_HOST_SVC_NOTIFICATIONS = 29"
definition CMD_PROCESS_SERVICE_CHECK_RESULT :: nat where "CMD_PROCESS_SERVICE_CHECK_RESULT = 30"
definition CMD_SAVE_STATE_INFORMATION :: nat where "CMD_SAVE_STATE_INFORMATION = 31"
definition CMD_READ_STATE_INFORMATION :: nat where "CMD_READ_STATE_INFORMATION = 32"
definition CMD_ACKNOWLEDGE_HOST_PROBLEM :: nat where "CMD_ACKNOWLEDGE_HOST_PROBLEM = 33"
definition CMD_ACKNOWLEDGE_SVC_PROBLEM :: nat where "CMD_ACKNOWLEDGE_SVC_PROBLEM = 34"
definition CMD_START_EXECUTING_SVC_CHECKS :: nat where "CMD_START_EXECUTING_SVC_CHECKS = 35"
definition CMD_STOP_EXECUTING_SVC_CHECKS :: nat where "CMD_STOP_EXECUTING_SVC_CHECKS = 36"
definition CMD_START_ACCEPTING_PASSIVE_SVC_CHECKS :: nat where "CMD_START_ACCEPTING_PASSIVE_SVC_CHECKS = 37"
definition CMD_STOP_ACCEPTING_PASSIVE_SVC_CHECKS :: nat where "CMD_STOP_ACCEPTING_PASSIVE_SVC_CHECKS = 38"
definition CMD_ENABLE_PASSIVE_SVC_CHECKS :: nat where "CMD_ENABLE_PASSIVE_SVC_CHECKS = 39"
definition CMD_DISABLE_PASSIVE_SVC_CHECKS :: nat where "CMD_DISABLE_PASSIVE_SVC_CHECKS = 40"
definition CMD_ENABLE_EVENT_HANDLERS :: nat where "CMD_ENABLE_EVENT_HANDLERS = 41"
definition CMD_DISABLE_EVENT_HANDLERS :: nat where "CMD_DISABLE_EVENT_HANDLERS = 42"
definition CMD_ENABLE_HOST_EVENT_HANDLER :: nat where "CMD_ENABLE_HOST_EVENT_HANDLER = 43"
definition CMD_DISABLE_HOST_EVENT_HANDLER :: nat where "CMD_DISABLE_HOST_EVENT_HANDLER = 44"
definition CMD_ENABLE_SVC_EVENT_HANDLER :: nat where "CMD_ENABLE_SVC_EVENT_HANDLER = 45"
definition CMD_DISABLE_SVC_EVENT_HANDLER :: nat where "CMD_DISABLE_SVC_EVENT_HANDLER = 46"
definition CMD_ENABLE_HOST_CHECK :: nat where "CMD_ENABLE_HOST_CHECK = 47"
definition CMD_DISABLE_HOST_CHECK :: nat where "CMD_DISABLE_HOST_CHECK = 48"
definition CMD_START_OBSESSING_OVER_SVC_CHECKS :: nat where "CMD_START_OBSESSING_OVER_SVC_CHECKS = 49"
definition CMD_STOP_OBSESSING_OVER_SVC_CHECKS :: nat where "CMD_STOP_OBSESSING_OVER_SVC_CHECKS = 50"
definition CMD_REMOVE_HOST_ACKNOWLEDGEMENT :: nat where "CMD_REMOVE_HOST_ACKNOWLEDGEMENT = 51"
definition CMD_REMOVE_SVC_ACKNOWLEDGEMENT :: nat where "CMD_REMOVE_SVC_ACKNOWLEDGEMENT = 52"
definition CMD_SCHEDULE_FORCED_HOST_SVC_CHECKS :: nat where "CMD_SCHEDULE_FORCED_HOST_SVC_CHECKS = 53"
definition CMD_SCHEDULE_FORCED_SVC_CHECK :: nat where "CMD_SCHEDULE_FORCED_SVC_CHECK = 54"
definition CMD_SCHEDULE_HOST_DOWNTIME :: nat where "CMD_SCHEDULE_HOST_DOWNTIME = 55"
definition CMD_SCHEDULE_SVC_DOWNTIME :: nat where "CMD_SCHEDULE_SVC_DOWNTIME = 56"
definition CMD_ENABLE_HOST_FLAP_DETECTION :: nat where "CMD_ENABLE_HOST_FLAP_DETECTION = 57"
definition CMD_DISABLE_HOST_FLAP_DETECTION :: nat where "CMD_DISABLE_HOST_FLAP_DETECTION = 58"
definition CMD_ENABLE_SVC_FLAP_DETECTION :: nat where "CMD_ENABLE_SVC_FLAP_DETECTION = 59"
definition CMD_DISABLE_SVC_FLAP_DETECTION :: nat where "CMD_DISABLE_SVC_FLAP_DETECTION = 60"
definition CMD_ENABLE_FLAP_DETECTION :: nat where "CMD_ENABLE_FLAP_DETECTION = 61"
definition CMD_DISABLE_FLAP_DETECTION :: nat where "CMD_DISABLE_FLAP_DETECTION = 62"
definition CMD_ENABLE_HOSTGROUP_SVC_NOTIFICATIONS :: nat where "CMD_ENABLE_HOSTGROUP_SVC_NOTIFICATIONS = 63"
definition CMD_DISABLE_HOSTGROUP_SVC_NOTIFICATIONS :: nat where "CMD_DISABLE_HOSTGROUP_SVC_NOTIFICATIONS = 64"
definition CMD_ENABLE_HOSTGROUP_HOST_NOTIFICATIONS :: nat where "CMD_ENABLE_HOSTGROUP_HOST_NOTIFICATIONS = 65"
definition CMD_DISABLE_HOSTGROUP_HOST_NOTIFICATIONS :: nat where "CMD_DISABLE_HOSTGROUP_HOST_NOTIFICATIONS = 66"
definition CMD_ENABLE_HOSTGROUP_SVC_CHECKS :: nat where "CMD_ENABLE_HOSTGROUP_SVC_CHECKS = 67"
definition CMD_DISABLE_HOSTGROUP_SVC_CHECKS :: nat where "CMD_DISABLE_HOSTGROUP_SVC_CHECKS = 68"
definition CMD_DEL_HOST_DOWNTIME :: nat where "CMD_DEL_HOST_DOWNTIME = 78"
definition CMD_DEL_SVC_DOWNTIME :: nat where "CMD_DEL_SVC_DOWNTIME = 79"
definition CMD_ENABLE_FAILURE_PREDICTION :: nat where "CMD_ENABLE_FAILURE_PREDICTION = 80"
definition CMD_DISABLE_FAILURE_PREDICTION :: nat where "CMD_DISABLE_FAILURE_PREDICTION = 81"
definition CMD_ENABLE_PERFORMANCE_DATA :: nat where "CMD_ENABLE_PERFORMANCE_DATA = 82"
definition CMD_DISABLE_PERFORMANCE_DATA :: nat where "CMD_DISABLE_PERFORMANCE_DATA = 83"
definition CMD_SCHEDULE_HOSTGROUP_HOST_DOWNTIME :: nat where "CMD_SCHEDULE_HOSTGROUP_HOST_DOWNTIME = 84"
definition CMD_SCHEDULE_HOSTGROUP_SVC_DOWNTIME :: nat where "CMD_SCHEDULE_HOSTGROUP_SVC_DOWNTIME = 85"
definition CMD_SCHEDULE_HOST_SVC_DOWNTIME :: nat where "CMD_SCHEDULE_HOST_SVC_DOWNTIME = 86"
definition CMD_PROCESS_HOST_CHECK_RESULT :: nat where "CMD_PROCESS_HOST_CHECK_RESULT = 87"
definition CMD_START_EXECUTING_HOST_CHECKS :: nat where "CMD_START_EXECUTING_HOST_CHECKS = 88"
definition CMD_STOP_EXECUTING_HOST_CHECKS :: nat where "CMD_STOP_EXECUTING_HOST_CHECKS = 89"
definition CMD_START_ACCEPTING_PASSIVE_HOST_CHECKS :: nat where "CMD_START_ACCEPTING_PASSIVE_HOST_CHECKS = 90"
definition CMD_STOP_ACCEPTING_PASSIVE_HOST_CHECKS :: nat where "CMD_STOP_ACCEPTING_PASSIVE_HOST_CHECKS = 91"
definition CMD_ENABLE_PASSIVE_HOST_CHECKS :: nat where "CMD_ENABLE_PASSIVE_HOST_CHECKS = 92"
definition CMD_DISABLE_PASSIVE_HOST_CHECKS :: nat where "CMD_DISABLE_PASSIVE_HOST_CHECKS = 93"
definition CMD_START_OBSESSING_OVER_HOST_CHECKS :: nat where "CMD_START_OBSESSING_OVER_HOST_CHECKS = 94"
definition CMD_STOP_OBSESSING_OVER_HOST_CHECKS :: nat where "CMD_STOP_OBSESSING_OVER_HOST_CHECKS = 95"
definition CMD_SCHEDULE_HOST_CHECK :: nat where "CMD_SCHEDULE_HOST_CHECK = 96"
definition CMD_SCHEDULE_FORCED_HOST_CHECK :: nat where "CMD_SCHEDULE_FORCED_HOST_CHECK = 98"
definition CMD_START_OBSESSING_OVER_SVC :: nat where "CMD_START_OBSESSING_OVER_SVC = 99"
definition CMD_STOP_OBSESSING_OVER_SVC :: nat where "CMD_STOP_OBSESSING_OVER_SVC = 100"
definition CMD_START_OBSESSING_OVER_HOST :: nat where "CMD_START_OBSESSING_OVER_HOST = 101"
definition CMD_STOP_OBSESSING_OVER_HOST :: nat where "CMD_STOP_OBSESSING_OVER_HOST = 102"
definition CMD_ENABLE_HOSTGROUP_HOST_CHECKS :: nat where "CMD_ENABLE_HOSTGROUP_HOST_CHECKS = 103"
definition CMD_DISABLE_HOSTGROUP_HOST_CHECKS :: nat where "CMD_DISABLE_HOSTGROUP_HOST_CHECKS = 104"
definition CMD_ENABLE_HOSTGROUP_PASSIVE_SVC_CHECKS :: nat where "CMD_ENABLE_HOSTGROUP_PASSIVE_SVC_CHECKS = 105"
definition CMD_DISABLE_HOSTGROUP_PASSIVE_SVC_CHECKS :: nat where "CMD_DISABLE_HOSTGROUP_PASSIVE_SVC_CHECKS = 106"
definition CMD_ENABLE_HOSTGROUP_PASSIVE_HOST_CHECKS :: nat where "CMD_ENABLE_HOSTGROUP_PASSIVE_HOST_CHECKS = 107"
definition CMD_DISABLE_HOSTGROUP_PASSIVE_HOST_CHECKS :: nat where "CMD_DISABLE_HOSTGROUP_PASSIVE_HOST_CHECKS = 108"
definition CMD_ENABLE_SERVICEGROUP_SVC_NOTIFICATIONS :: nat where "CMD_ENABLE_SERVICEGROUP_SVC_NOTIFICATIONS = 109"
definition CMD_DISABLE_SERVICEGROUP_SVC_NOTIFICATIONS :: nat where "CMD_DISABLE_SERVICEGROUP_SVC_NOTIFICATIONS = 110"
definition CMD_ENABLE_SERVICEGROUP_HOST_NOTIFICATIONS :: nat where "CMD_ENABLE_SERVICEGROUP_HOST_NOTIFICATIONS = 111"
definition CMD_DISABLE_SERVICEGROUP_HOST_NOTIFICATIONS :: nat where "CMD_DISABLE_SERVICEGROUP_HOST_NOTIFICATIONS = 112"
definition CMD_ENABLE_SERVICEGROUP_SVC_CHECKS :: nat where "CMD_ENABLE_SERVICEGROUP_SVC_CHECKS = 113"
definition CMD_DISABLE_SERVICEGROUP_SVC_CHECKS :: nat where "CMD_DISABLE_SERVICEGROUP_SVC_CHECKS = 114"
definition CMD_ENABLE_SERVICEGROUP_HOST_CHECKS :: nat where "CMD_ENABLE_SERVICEGROUP_HOST_CHECKS = 115"
definition CMD_DISABLE_SERVICEGROUP_HOST_CHECKS :: nat where "CMD_DISABLE_SERVICEGROUP_HOST_CHECKS = 116"
definition CMD_ENABLE_SERVICEGROUP_PASSIVE_SVC_CHECKS :: nat where "CMD_ENABLE_SERVICEGROUP_PASSIVE_SVC_CHECKS = 117"
definition CMD_DISABLE_SERVICEGROUP_PASSIVE_SVC_CHECKS :: nat where "CMD_DISABLE_SERVICEGROUP_PASSIVE_SVC_CHECKS = 118"
definition CMD_ENABLE_SERVICEGROUP_PASSIVE_HOST_CHECKS :: nat where "CMD_ENABLE_SERVICEGROUP_PASSIVE_HOST_CHECKS = 119"
definition CMD_DISABLE_SERVICEGROUP_PASSIVE_HOST_CHECKS :: nat where "CMD_DISABLE_SERVICEGROUP_PASSIVE_HOST_CHECKS = 120"
definition CMD_SCHEDULE_SERVICEGROUP_HOST_DOWNTIME :: nat where "CMD_SCHEDULE_SERVICEGROUP_HOST_DOWNTIME = 121"
definition CMD_SCHEDULE_SERVICEGROUP_SVC_DOWNTIME :: nat where "CMD_SCHEDULE_SERVICEGROUP_SVC_DOWNTIME = 122"
definition CMD_CHANGE_GLOBAL_HOST_EVENT_HANDLER :: nat where "CMD_CHANGE_GLOBAL_HOST_EVENT_HANDLER = 123"
definition CMD_CHANGE_GLOBAL_SVC_EVENT_HANDLER :: nat where "CMD_CHANGE_GLOBAL_SVC_EVENT_HANDLER = 124"
definition CMD_CHANGE_HOST_EVENT_HANDLER :: nat where "CMD_CHANGE_HOST_EVENT_HANDLER = 125"
definition CMD_CHANGE_SVC_EVENT_HANDLER :: nat where "CMD_CHANGE_SVC_EVENT_HANDLER = 126"
definition CMD_CHANGE_HOST_CHECK_COMMAND :: nat where "CMD_CHANGE_HOST_CHECK_COMMAND = 127"
definition CMD_CHANGE_SVC_CHECK_COMMAND :: nat where "CMD_CHANGE_SVC_CHECK_COMMAND = 128"
definition CMD_CHANGE_NORMAL_HOST_CHECK_INTERVAL :: nat where "CMD_CHANGE_NORMAL_HOST_CHECK_INTERVAL = 129"
definition CMD_CHANGE_NORMAL_SVC_CHECK_INTERVAL :: nat where "CMD_CHANGE_NORMAL_SVC_CHECK_INTERVAL = 130"
definition CMD_CHANGE_RETRY_SVC_CHECK_INTERVAL :: nat where "CMD_CHANGE_RETRY_SVC_CHECK_INTERVAL = 131"
definition CMD_CHANGE_MAX_HOST_CHECK_ATTEMPTS :: nat where "CMD_CHANGE_MAX_HOST_CHECK_ATTEMPTS = 132"
definition CMD_CHANGE_MAX_SVC_CHECK_ATTEMPTS :: nat where "CMD_CHANGE_MAX_SVC_CHECK_ATTEMPTS = 133"
definition CMD_SCHEDULE_AND_PROPAGATE_TRIGGERED_HOST_DOWNTIME :: nat where "CMD_SCHEDULE_AND_PROPAGATE_TRIGGERED_HOST_DOWNTIME = 134"
definition CMD_ENABLE_HOST_AND_CHILD_NOTIFICATIONS :: nat where "CMD_ENABLE_HOST_AND_CHILD_NOTIFICATIONS = 135"
definition CMD_DISABLE_HOST_AND_CHILD_NOTIFICATIONS :: nat where "CMD_DISABLE_HOST_AND_CHILD_NOTIFICATIONS = 136"
definition CMD_SCHEDULE_AND_PROPAGATE_HOST_DOWNTIME :: nat where "CMD_SCHEDULE_AND_PROPAGATE_HOST_DOWNTIME = 137"
definition CMD_ENABLE_SERVICE_FRESHNESS_CHECKS :: nat where "CMD_ENABLE_SERVICE_FRESHNESS_CHECKS = 138"
definition CMD_DISABLE_SERVICE_FRESHNESS_CHECKS :: nat where "CMD_DISABLE_SERVICE_FRESHNESS_CHECKS = 139"
definition CMD_ENABLE_HOST_FRESHNESS_CHECKS :: nat where "CMD_ENABLE_HOST_FRESHNESS_CHECKS = 140"
definition CMD_DISABLE_HOST_FRESHNESS_CHECKS :: nat where "CMD_DISABLE_HOST_FRESHNESS_CHECKS = 141"
definition CMD_SET_HOST_NOTIFICATION_NUMBER :: nat where "CMD_SET_HOST_NOTIFICATION_NUMBER = 142"
definition CMD_SET_SVC_NOTIFICATION_NUMBER :: nat where "CMD_SET_SVC_NOTIFICATION_NUMBER = 143"
definition CMD_CHANGE_HOST_CHECK_TIMEPERIOD :: nat where "CMD_CHANGE_HOST_CHECK_TIMEPERIOD = 144"
definition CMD_CHANGE_SVC_CHECK_TIMEPERIOD :: nat where "CMD_CHANGE_SVC_CHECK_TIMEPERIOD = 145"
definition CMD_PROCESS_FILE :: nat where "CMD_PROCESS_FILE = 146"
definition CMD_CHANGE_CUSTOM_HOST_VAR :: nat where "CMD_CHANGE_CUSTOM_HOST_VAR = 147"
definition CMD_CHANGE_CUSTOM_SVC_VAR :: nat where "CMD_CHANGE_CUSTOM_SVC_VAR = 148"
definition CMD_CHANGE_CUSTOM_CONTACT_VAR :: nat where "CMD_CHANGE_CUSTOM_CONTACT_VAR = 149"
definition CMD_ENABLE_CONTACT_HOST_NOTIFICATIONS :: nat where "CMD_ENABLE_CONTACT_HOST_NOTIFICATIONS = 150"
definition CMD_DISABLE_CONTACT_HOST_NOTIFICATIONS :: nat where "CMD_DISABLE_CONTACT_HOST_NOTIFICATIONS = 151"
definition CMD_ENABLE_CONTACT_SVC_NOTIFICATIONS :: nat where "CMD_ENABLE_CONTACT_SVC_NOTIFICATIONS = 152"
definition CMD_DISABLE_CONTACT_SVC_NOTIFICATIONS :: nat where "CMD_DISABLE_CONTACT_SVC_NOTIFICATIONS = 153"
definition CMD_ENABLE_CONTACTGROUP_HOST_NOTIFICATIONS :: nat where "CMD_ENABLE_CONTACTGROUP_HOST_NOTIFICATIONS = 154"
definition CMD_DISABLE_CONTACTGROUP_HOST_NOTIFICATIONS :: nat where "CMD_DISABLE_CONTACTGROUP_HOST_NOTIFICATIONS = 155"
definition CMD_ENABLE_CONTACTGROUP_SVC_NOTIFICATIONS :: nat where "CMD_ENABLE_CONTACTGROUP_SVC_NOTIFICATIONS = 156"
definition CMD_DISABLE_CONTACTGROUP_SVC_NOTIFICATIONS :: nat where "CMD_DISABLE_CONTACTGROUP_SVC_NOTIFICATIONS = 157"
definition CMD_CHANGE_RETRY_HOST_CHECK_INTERVAL :: nat where "CMD_CHANGE_RETRY_HOST_CHECK_INTERVAL = 158"
definition CMD_SEND_CUSTOM_HOST_NOTIFICATION :: nat where "CMD_SEND_CUSTOM_HOST_NOTIFICATION = 159"
definition CMD_SEND_CUSTOM_SVC_NOTIFICATION :: nat where "CMD_SEND_CUSTOM_SVC_NOTIFICATION = 160"
definition CMD_CHANGE_HOST_NOTIFICATION_TIMEPERIOD :: nat where "CMD_CHANGE_HOST_NOTIFICATION_TIMEPERIOD = 161"
definition CMD_CHANGE_SVC_NOTIFICATION_TIMEPERIOD :: nat where "CMD_CHANGE_SVC_NOTIFICATION_TIMEPERIOD = 162"
definition CMD_CHANGE_CONTACT_HOST_NOTIFICATION_TIMEPERIOD :: nat where "CMD_CHANGE_CONTACT_HOST_NOTIFICATION_TIMEPERIOD = 163"
definition CMD_CHANGE_CONTACT_SVC_NOTIFICATION_TIMEPERIOD :: nat where "CMD_CHANGE_CONTACT_SVC_NOTIFICATION_TIMEPERIOD = 164"
definition CMD_CHANGE_HOST_MODATTR :: nat where "CMD_CHANGE_HOST_MODATTR = 165"
definition CMD_CHANGE_SVC_MODATTR :: nat where "CMD_CHANGE_SVC_MODATTR = 166"
definition CMD_CHANGE_CONTACT_MODATTR :: nat where "CMD_CHANGE_CONTACT_MODATTR = 167"
definition CMD_CHANGE_CONTACT_MODHATTR :: nat where "CMD_CHANGE_CONTACT_MODHATTR = 168"
definition CMD_CHANGE_CONTACT_MODSATTR :: nat where "CMD_CHANGE_CONTACT_MODSATTR = 169"
definition CMD_DEL_DOWNTIME_BY_HOST_NAME :: nat where "CMD_DEL_DOWNTIME_BY_HOST_NAME = 170"
definition CMD_DEL_DOWNTIME_BY_HOSTGROUP_NAME :: nat where "CMD_DEL_DOWNTIME_BY_HOSTGROUP_NAME = 171"
definition CMD_DEL_DOWNTIME_BY_START_TIME_COMMENT :: nat where "CMD_DEL_DOWNTIME_BY_START_TIME_COMMENT = 172"
definition CMD_DEL_HOST_DOWNTIME_FULL :: nat where "CMD_DEL_HOST_DOWNTIME_FULL = 501"
definition CMD_DEL_SVC_DOWNTIME_FULL :: nat where "CMD_DEL_SVC_DOWNTIME_FULL = 502"
definition CMD_CUSTOM_COMMAND :: nat where "CMD_CUSTOM_COMMAND = 999"

lemmas command_ids =
  CMD_ADD_HOST_COMMENT_def CMD_DEL_HOST_COMMENT_def CMD_ADD_SVC_COMMENT_def
  CMD_DEL_SVC_COMMENT_def CMD_ENABLE_SVC_CHECK_def CMD_DISABLE_SVC_CHECK_def
  CMD_SCHEDULE_SVC_CHECK_def CMD_DELAY_SVC_NOTIFICATION_def CMD_DELAY_HOST_NOTIFICATION_def
  CMD_DISABLE_NOTIFICATIONS_def CMD_ENABLE_NOTIFICATIONS_def CMD_RESTART_PROCESS_def
  CMD_SHUTDOWN_PROCESS_def CMD_ENABLE_HOST_SVC_CHECKS_def CMD_DISABLE_HOST_SVC_CHECKS_def
  CMD_SCHEDULE_HOST_SVC_CHECKS_def CMD_DEL_ALL_HOST_COMMENTS_def CMD_DEL_ALL_SVC_COMMENTS_def
  CMD_ENABLE_SVC_NOTIFICATIONS_def CMD_DISABLE_SVC_NOTIFICATIONS_def
  CMD_ENABLE_HOST_NOTIFICATIONS_def CMD_DISABLE_HOST_NOTIFICATIONS_def
  CMD_ENABLE_ALL_NOTIFICATIONS_BEYOND_HOST_def CMD_DISABLE_ALL_NOTIFICATIONS_BEYOND_HOST_def
  CMD_ENABLE_HOST_SVC_NOTIFICATIONS_def CMD_DISABLE_HOST_SVC_NOTIFICATIONS_def
  CMD_PROCESS_SERVICE_CHECK_RESULT_def CMD_SAVE_STATE_INFORMATION_def
  CMD_READ_STATE_INFORMATION_def CMD_ACKNOWLEDGE_HOST_PROBLEM_def CMD_ACKNOWLEDGE_SVC_PROBLEM_def
  CMD_START_EXECUTING_SVC_CHECKS_def CMD_STOP_EXECUTING_SVC_CHECKS_def
  CMD_START_ACCEPTING_PASSIVE_SVC_CHECKS_def CMD_STOP_ACCEPTING_PASSIVE_SVC_CHECKS_def
  CMD_ENABLE_PASSIVE_SVC_CHECKS_def CMD_DISABLE_PASSIVE_SVC_CHECKS_def
  CMD_ENABLE_EVENT_HANDLERS_def CMD_DISABLE_EVENT_HANDLERS_def CMD_ENABLE_HOST_EVENT_HANDLER_def
  CMD_DISABLE_HOST_EVENT_HANDLER_def CMD_ENABLE_SVC_EVENT_HANDLER_def
  CMD_DISABLE_SVC_EVENT_HANDLER_def CMD_ENABLE_HOST_CHECK_def CMD_DISABLE_HOST_CHECK_def
  CMD_START_OBSESSING_OVER_SVC_CHECKS_def CMD_STOP_OBSESSING_OVER_SVC_CHECKS_def
  CMD_REMOVE_HOST_ACKNOWLEDGEMENT_def CMD_REMOVE_SVC_ACKNOWLEDGEMENT_def
  CMD_SCHEDULE_FORCED_HOST_SVC_CHECKS_def CMD_SCHEDULE_FORCED_SVC_CHECK_def
  CMD_SCHEDULE_HOST_DOWNTIME_def CMD_SCHEDULE_SVC_DOWNTIME_def CMD_ENABLE_HOST_FLAP_DETECTION_def
  CMD_DISABLE_HOST_FLAP_DETECTION_def CMD_ENABLE_SVC_FLAP_DETECTION_def
  CMD_DISABLE_SVC_FLAP_DETECTION_def CMD_ENABLE_FLAP_DETECTION_def CMD_DISABLE_FLAP_DETECTION_def
  CMD_ENABLE_HOSTGROUP_SVC_NOTIFICATIONS_def CMD_DISABLE_HOSTGROUP_SVC_NOTIFICATIONS_def
  CMD_ENABLE_HOSTGROUP_HOST_NOTIFICATIONS_def CMD_DISABLE_HOSTGROUP_HOST_NOTIFICATIONS_def
  CMD_ENABLE_HOSTGROUP_SVC_CHECKS_def CMD_DISABLE_HOSTGROUP_SVC_CHECKS_def
  CMD_DEL_HOST_DOWNTIME_def CMD_DEL_SVC_DOWNTIME_def CMD_ENABLE_FAILURE_PREDICTION_def
  CMD_DISABLE_FAILURE_PREDICTION_def CMD_ENABLE_PERFORMANCE_DATA_def
  CMD_DISABLE_PERFORMANCE_DATA_def CMD_SCHEDULE_HOSTGROUP_HOST_DOWNTIME_def
  CMD_SCHEDULE_HOSTGROUP_SVC_DOWNTIME_def CMD_SCHEDULE_HOST_SVC_DOWNTIME_def
  CMD_PROCESS_HOST_CHECK_RESULT_def CMD_START_EXECUTING_HOST_CHECKS_def
  CMD_STOP_EXECUTING_HOST_CHECKS_def CMD_START_ACCEPTING_PASSIVE_HOST_CHECKS_def
  CMD_STOP_ACCEPTING_PASSIVE_HOST_CHECKS_def CMD_ENABLE_PASSIVE_HOST_CHECKS_def
  CMD_DISABLE_PASSIVE_HOST_CHECKS_def CMD_START_OBSESSING_OVER_HOST_CHECKS_def
  CMD_STOP_OBSESSING_OVER_HOST_CHECKS_def CMD_SCHEDULE_HOST_CHECK_def
  CMD_SCHEDULE_FORCED_HOST_CHECK_def CMD_START_OBSESSING_OVER_SVC_def
  CMD_STOP_OBSESSING_OVER_SVC_def CMD_START_OBSESSING_OVER_HOST_def
  CMD_STOP_OBSESSING_OVER_HOST_def CMD_ENABLE_HOSTGROUP_HOST_CHECKS_def
  CMD_DISABLE_HOSTGROUP_HOST_CHECKS_def CMD_ENABLE_HOSTGROUP_PASSIVE_SVC_CHECKS_def
  CMD_DISABLE_HOSTGROUP_PASSIVE_SVC_CHECKS_def CMD_ENABLE_HOSTGROUP_PASSIVE_HOST_CHECKS_def
  CMD_DISABLE_HOSTGROUP_PASSIVE_HOST_CHECKS_def CMD_ENABLE_SERVICEGROUP_SVC_NOTIFICATIONS_def
  CMD_DISABLE_SERVICEGROUP_SVC_NOTIFICATIONS_def CMD_ENABLE_SERVICEGROUP_HOST_NOTIFICATIONS_def
  CMD_DISABLE_SERVICEGROUP_HOST_NOTIFICATIONS_def CMD_ENABLE_SERVICEGROUP_SVC_CHECKS_def
  CMD_DISABLE_SERVICEGROUP_SVC_CHECKS_def CMD_ENABLE_SERVICEGROUP_HOST_CHECKS_def
  CMD_DISABLE_SERVICEGROUP_HOST_CHECKS_def CMD_ENABLE_SERVICEGROUP_PASSIVE_SVC_CHECKS_def
  CMD_DISABLE_SERVICEGROUP_PASSIVE_SVC_CHECKS_def CMD_ENABLE_SERVICEGROUP_PASSIVE_HOST_CHECKS_def
  CMD_DISABLE_SERVICEGROUP_PASSIVE_HOST_CHECKS_def CMD_SCHEDULE_SERVICEGROUP_HOST_DOWNTIME_def
  CMD_SCHEDULE_SERVICEGROUP_SVC_DOWNTIME_def CMD_CHANGE_GLOBAL_HOST_EVENT_HANDLER_def
  CMD_CHANGE_GLOBAL_SVC_EVENT_HANDLER_def CMD_CHANGE_HOST_EVENT_HANDLER_def
  CMD_CHANGE_SVC_EVENT_HANDLER_def CMD_CHANGE_HOST_CHECK_COMMAND_def
  CMD_CHANGE_SVC_CHECK_COMMAND_def CMD_CHANGE_NORMAL_HOST_CHECK_INTERVAL_def
  CMD_CHANGE_NORMAL_SVC_CHECK_INTERVAL_def CMD_CHANGE_RETRY_SVC_CHECK_INTERVAL_def
  CMD_CHANGE_MAX_HOST_CHECK_ATTEMPTS_def CMD_CHANGE_MAX_SVC_CHECK_ATTEMPTS_def
  CMD_SCHEDULE_AND_PROPAGATE_TRIGGERED_HOST_DOWNTIME_def
  CMD_ENABLE_HOST_AND_CHILD_NOTIFICATIONS_def CMD_DISABLE_HOST_AND_CHILD_NOTIFICATIONS_def
  CMD_SCHEDULE_AND_PROPAGATE_HOST_DOWNTIME_def CMD_ENABLE_SERVICE_FRESHNESS_CHECKS_def
  CMD_DISABLE_SERVICE_FRESHNESS_CHECKS_def CMD_ENABLE_HOST_FRESHNESS_CHECKS_def
  CMD_DISABLE_HOST_FRESHNESS_CHECKS_def CMD_SET_HOST_NOTIFICATION_NUMBER_def
  CMD_SET_SVC_NOTIFICATION_NUMBER_def CMD_CHANGE_HOST_CHECK_TIMEPERIOD_def
  CMD_CHANGE_SVC_CHECK_TIMEPERIOD_def CMD_PROCESS_FILE_def CMD_CHANGE_CUSTOM_HOST_VAR_def
  CMD_CHANGE_CUSTOM_SVC_VAR_def CMD_CHANGE_CUSTOM_CONTACT_VAR_def
  CMD_ENABLE_CONTACT_HOST_NOTIFICATIONS_def CMD_DISABLE_CONTACT_HOST_NOTIFICATIONS_def
  CMD_ENABLE_CONTACT_SVC_NOTIFICATIONS_def CMD_DISABLE_CONTACT_SVC_NOTIFICATIONS_def
  CMD_ENABLE_CONTACTGROUP_HOST_NOTIFICATIONS_def CMD_DISABLE_CONTACTGROUP_HOST_NOTIFICATIONS_def
  CMD_ENABLE_CONTACTGROUP_SVC_NOTIFICATIONS_def CMD_DISABLE_CONTACTGROUP_SVC_NOTIFICATIONS_def
  CMD_CHANGE_RETRY_HOST_CHECK_INTERVAL_def CMD_SEND_CUSTOM_HOST_NOTIFICATION_def
  CMD_SEND_CUSTOM_SVC_NOTIFICATION_def CMD_CHANGE_HOST_NOTIFICATION_TIMEPERIOD_def
  CMD_CHANGE_SVC_NOTIFICATION_TIMEPERIOD_def CMD_CHANGE_CONTACT_HOST_NOTIFICATION_TIMEPERIOD_def
  CMD_CHANGE_CONTACT_SVC_NOTIFICATION_TIMEPERIOD_def CMD_CHANGE_HOST_MODATTR_def
  CMD_CHANGE_SVC_MODATTR_def CMD_CHANGE_CONTACT_MODATTR_def CMD_CHANGE_CONTACT_MODHATTR_def
  CMD_CHANGE_CONTACT_MODSATTR_def CMD_DEL_DOWNTIME_BY_HOST_NAME_def
  CMD_DEL_DOWNTIME_BY_HOSTGROUP_NAME_def CMD_DEL_DOWNTIME_BY_START_TIME_COMMENT_def
  CMD_DEL_HOST_DOWNTIME_FULL_def CMD_DEL_SVC_DOWNTIME_FULL_def CMD_CUSTOM_COMMAND_def

end
