(* ===== verification/External_Commands.thy ===== *)
theory External_Commands
  imports Switches Command_Text Command_Ids Event_Loop "HOL-Library.Monad_Syntax"
begin

text \<open>
  The external command implementations of
  \<^verbatim>\<open>modules/external_commands/src/commands.cc\<close> and the lookups of
  \<^verbatim>\<open>src/compatibility/find.cc\<close>: comments, checks, passive results, acknowledgements
  and changed variables. A command reads its arguments token by token; a missing token or an
  unknown object ends it with \<open>ERROR\<close>, the engine as it was.
\<close>

section \<open>Lookups\<close>

definition find_host :: "engine \<Rightarrow> string option \<Rightarrow> host_id option" where
  "find_host w name =
     (case name of None \<Rightarrow> None | Some h \<Rightarrow> if h \<in> set (host_list w) then Some h else None)"

definition find_service :: "engine \<Rightarrow> string option \<Rightarrow> string option \<Rightarrow> svc_id option" where
  "find_service w host_name svc_desc =
     (case (host_name, svc_desc) of
        (Some h, Some d) \<Rightarrow> if (h, d) \<in> set (service_list w) then Some (h, d) else None
      | _ \<Rightarrow> None)"

definition find_contact :: "engine \<Rightarrow> string option \<Rightarrow> contact_id option" where
  "find_contact w name =
     (case name of None \<Rightarrow> None | Some c \<Rightarrow> if c \<in> set (contact_list w) then Some c else None)"

definition find_contactgroup :: "engine \<Rightarrow> string option \<Rightarrow> group_id option" where
  "find_contactgroup w name =
     (case name of None \<Rightarrow> None | Some g \<Rightarrow> if g \<in> set (contactgroup_list w) then Some g else None)"

text \<open>A group is found as its members: a name and the pointer resolved from it.\<close>

definition find_hostgroup :: "engine \<Rightarrow> string option \<Rightarrow> (host_id \<times> host_id option) list option" where
  "find_hostgroup w name = Option.bind name (hostgroup_of w)"

definition find_servicegroup :: "engine \<Rightarrow> string option \<Rightarrow> (svc_id \<times> svc_id option) list option" where
  "find_servicegroup w name = Option.bind name (servicegroup_of w)"

definition find_timeperiod :: "engine \<Rightarrow> string option \<Rightarrow> tp_id option" where
  "find_timeperiod w name =
     (case name of None \<Rightarrow> None | Some p \<Rightarrow> if p \<in> set (timeperiod_list w) then Some p else None)"

section \<open>Reading arguments\<close>

definition tok :: "string \<Rightarrow> (string \<times> string) option" where
  "tok = my_strtok (CHR '';'')"

definition rest_of_line :: "string \<Rightarrow> (string \<times> string) option" where
  "rest_of_line = my_strtok (CHR 0x0A)"

text \<open>An early return with \<open>ERROR\<close> changes nothing.\<close>

definition or_error :: "engine \<Rightarrow> (result \<times> engine) option option \<Rightarrow> (result \<times> engine) option" where
  "or_error w r = (case r of None \<Rightarrow> Some (ERROR, w) | Some x \<Rightarrow> x)"

definition time_of_text :: "string \<Rightarrow> int" where
  "time_of_text t = time_t_of (int (strtoul 10 t))"

text \<open>The host name and, for the service variant of a command, the service description.\<close>

definition read_host :: "engine \<Rightarrow> string \<Rightarrow> (host_id \<times> string) option" where
  "read_host w args = do {
     (host_name, r) \<leftarrow> tok args;
     h \<leftarrow> find_host w (Some host_name);
     Some (h, r)
   }"

definition read_service :: "engine \<Rightarrow> string \<Rightarrow> (svc_id \<times> string) option" where
  "read_service w args = do {
     (host_name, r) \<leftarrow> tok args;
     (svc_description, r) \<leftarrow> tok r;
     s \<leftarrow> find_service w (Some host_name) (Some svc_description);
     Some (s, r)
   }"

definition read_contact :: "engine \<Rightarrow> string \<Rightarrow> (contact_id \<times> string) option" where
  "read_contact w args = do {
     (contact_name, r) \<leftarrow> tok args;
     c \<leftarrow> find_contact w (Some contact_name);
     Some (c, r)
   }"

definition each_pointer :: "('x \<Rightarrow> engine \<Rightarrow> engine option) \<Rightarrow> 'x option list \<Rightarrow> engine \<Rightarrow> engine option" where
  "each_pointer f xs w = for_each f (List.map_filter (\<lambda>x. x) xs) w"

section \<open>Comments\<close>

definition cmd_add_comment :: "nat \<Rightarrow> int \<Rightarrow> string \<Rightarrow> engine \<Rightarrow> (result \<times> engine) option" where
  "cmd_add_comment cmd entry_time args w = or_error w (do {
     (host_name, r) \<leftarrow> tok args;
     (svc_description, r) \<leftarrow>
       (if cmd = CMD_ADD_SVC_COMMENT
        then do {
          (d, r) \<leftarrow> tok r;
          _ \<leftarrow> find_service w (Some host_name) (Some d);
          Some (Some d, r)
        }
        else Some (None, r));
     _ \<leftarrow> find_host w (Some host_name);
     (persistent, r) \<leftarrow> tok r;
     (user, r) \<leftarrow> tok r;
     (comment_data, r) \<leftarrow> rest_of_line r;
     Some (map_option (\<lambda>(n, w1). (OK, w1))
       (add_new_comment (if cmd = CMD_ADD_HOST_COMMENT then HOST_COMMENT else SERVICE_COMMENT) USER_COMMENT
          (Some host_name) svc_description entry_time (Some user) (Some comment_data) (0 < atoi persistent)
          COMMENTSOURCE_EXTERNAL False 0 w))
   })"

definition cmd_delete_comment :: "nat \<Rightarrow> string \<Rightarrow> engine \<Rightarrow> (result \<times> engine) option" where
  "cmd_delete_comment cmd args w =
     (let comment_id = strtoul 10 args
      in if comment_id = 0 then Some (ERROR, w)
         else Some (OK, snd (delete_comment (if cmd = CMD_DEL_HOST_COMMENT then HOST_COMMENT else SERVICE_COMMENT)
                               comment_id w)))"

definition cmd_delete_all_comments :: "nat \<Rightarrow> string \<Rightarrow> engine \<Rightarrow> (result \<times> engine) option" where
  "cmd_delete_all_comments cmd args w = or_error w (do {
     (host_name, r) \<leftarrow> tok args;
     svc_description \<leftarrow>
       (if cmd = CMD_DEL_ALL_SVC_COMMENTS
        then do {
          (d, r) \<leftarrow> tok r;
          _ \<leftarrow> find_service w (Some host_name) (Some d);
          Some (Some d)
        }
        else Some None);
     _ \<leftarrow> find_host w (Some host_name);
     Some (Some (OK, snd (delete_all_comments
       (if cmd = CMD_DEL_ALL_HOST_COMMENTS then HOST_COMMENT else SERVICE_COMMENT)
       (Some host_name) svc_description w)))
   })"

section \<open>Notifications and checks\<close>

definition cmd_delay_notification :: "nat \<Rightarrow> string \<Rightarrow> engine \<Rightarrow> (result \<times> engine) option" where
  "cmd_delay_notification cmd args w = or_error w
     (if cmd = CMD_DELAY_SVC_NOTIFICATION
      then do {
        (s, r) \<leftarrow> read_service w args;
        (t, r) \<leftarrow> rest_of_line r;
        Some (Some (OK, upd_svc s (\<lambda>v. v\<lparr>s_next_notification := time_of_text t\<rparr>) w))
      }
      else do {
        (h, r) \<leftarrow> read_host w args;
        (t, r) \<leftarrow> rest_of_line r;
        Some (Some (OK, upd_host h (\<lambda>v. v\<lparr>h_next_host_notification := time_of_text t\<rparr>) w))
      })"

definition force_if :: "bool \<Rightarrow> int" where
  "force_if force = (if force then CHECK_OPTION_FORCE_EXECUTION else CHECK_OPTION_NONE)"

definition cmd_schedule_check :: "env \<Rightarrow> nat \<Rightarrow> string \<Rightarrow> engine \<Rightarrow> (result \<times> engine) option" where
  "cmd_schedule_check ev cmd args w = or_error w
     (if cmd \<in> {CMD_SCHEDULE_HOST_CHECK, CMD_SCHEDULE_FORCED_HOST_CHECK,
                CMD_SCHEDULE_HOST_SVC_CHECKS, CMD_SCHEDULE_FORCED_HOST_SVC_CHECKS}
      then do {
        (h, r) \<leftarrow> read_host w args;
        (t, r) \<leftarrow> rest_of_line r;
        Some (map_option (Pair OK)
          (if cmd = CMD_SCHEDULE_HOST_CHECK \<or> cmd = CMD_SCHEDULE_FORCED_HOST_CHECK
           then schedule_host_check ev h (time_of_text t) (force_if (cmd = CMD_SCHEDULE_FORCED_HOST_CHECK)) w
           else each_pointer (\<lambda>s. schedule_service_check ev s (time_of_text t)
                    (force_if (cmd = CMD_SCHEDULE_FORCED_HOST_SVC_CHECKS))) (h_services (host_of w h)) w))
      }
      else do {
        (s, r) \<leftarrow> read_service w args;
        (t, r) \<leftarrow> rest_of_line r;
        Some (map_option (Pair OK)
          (schedule_service_check ev s (time_of_text t) (force_if (cmd = CMD_SCHEDULE_FORCED_SVC_CHECK)) w))
      })"

definition cmd_schedule_host_service_checks ::
    "env \<Rightarrow> string \<Rightarrow> bool \<Rightarrow> engine \<Rightarrow> (result \<times> engine) option" where
  "cmd_schedule_host_service_checks ev args force w = or_error w (do {
     (h, r) \<leftarrow> read_host w args;
     (t, r) \<leftarrow> rest_of_line r;
     Some (map_option (Pair OK)
       (each_pointer (\<lambda>s. schedule_service_check ev s (time_of_text t) (force_if force))
          (h_services (host_of w h)) w))
   })"

definition cmd_signal_process :: "nat \<Rightarrow> string \<Rightarrow> engine \<Rightarrow> engine option" where
  "cmd_signal_process cmd args w =
     schedule_new_event (if cmd = CMD_SHUTDOWN_PROCESS then EVENT_PROGRAM_SHUTDOWN else EVENT_PROGRAM_RESTART)
       True (case rest_of_line args of None \<Rightarrow> 0 | Some (t, r) \<Rightarrow> time_of_text t) False 0 None False None None 0 w"

section \<open>Passive check results\<close>

text \<open>The host by its name or by its address.\<close>

definition named_or_addressed :: "engine \<Rightarrow> string \<Rightarrow> host_id option" where
  "named_or_addressed w host_name =
     (case find_host w (Some host_name) of
        Some h \<Rightarrow> Some h
      | None \<Rightarrow> find (\<lambda>h. h_address (host_of w h) = host_name) (host_list w))"

definition passive_result ::
    "env \<Rightarrow> object_check_type \<Rightarrow> int \<Rightarrow> string \<Rightarrow> string option \<Rightarrow> int \<Rightarrow> string \<Rightarrow> check_result" where
  "passive_result ev ty check_time host_name svc_description return_code output =
     \<lparr>cr_object_check_type = ty, cr_host_name = host_name, cr_service_description = svc_description,
      cr_check_type = CHECK_PASSIVE, cr_check_options = CHECK_OPTION_NONE, cr_scheduled_check = False,
      cr_reschedule_check = False,
      cr_latency = max 0 (of_int (now ev - check_time) + of_int (now_us ev) / 1000000),
      cr_start_time = (check_time, 0), cr_finish_time = (check_time, 0), cr_early_timeout = False,
      cr_exited_ok = True,
      cr_return_code = (if return_code < 0 \<or> return_code > 3 then STATE_UNKNOWN_code else return_code),
      cr_output = Some output\<rparr>"

definition push_check_result :: "check_result \<Rightarrow> engine \<Rightarrow> engine" where
  "push_check_result r w = w\<lparr>to_reap := to_reap w @ [r]\<rparr>"

definition process_passive_service_check ::
    "env \<Rightarrow> int \<Rightarrow> string \<Rightarrow> string \<Rightarrow> int \<Rightarrow> string \<Rightarrow> engine \<Rightarrow> result \<times> engine" where
  "process_passive_service_check ev check_time host_name svc_description return_code output w =
     (if \<not> accept_passive_service_checks (cfg w) then (ERROR, w)
      else case named_or_addressed w host_name of
        None \<Rightarrow> (ERROR, w)
      | Some real_host_name \<Rightarrow>
          (case find_service w (Some real_host_name) (Some svc_description) of
             None \<Rightarrow> (ERROR, w)
           | Some s \<Rightarrow>
               if \<not> s_accept_passive_service_checks (svc_of w s) then (ERROR, w)
               else (OK, push_check_result (passive_result ev SERVICE_CHECK check_time real_host_name
                           (Some svc_description) return_code output) w)))"

definition cmd_process_service_check_result ::
    "env \<Rightarrow> int \<Rightarrow> string \<Rightarrow> engine \<Rightarrow> (result \<times> engine) option" where
  "cmd_process_service_check_result ev check_time args w = or_error w (do {
     let (host_name, r) = cut_at (CHR '';'') args;
     r \<leftarrow> r;
     let (svc_description, r) = cut_at (CHR '';'') r;
     r \<leftarrow> r;
     let (return_code, output) = cut_at (CHR '';'') r;
     Some (Some (process_passive_service_check ev check_time host_name svc_description
       (int_of_long (strtol 0 return_code)) (case output of None \<Rightarrow> [] | Some x \<Rightarrow> x) w))
   })"

text \<open>The first test is on the option for services, as the source has it.\<close>

definition process_passive_host_check ::
    "env \<Rightarrow> int \<Rightarrow> string \<Rightarrow> int \<Rightarrow> string \<Rightarrow> engine \<Rightarrow> result \<times> engine" where
  "process_passive_host_check ev check_time host_name return_code output w =
     (if \<not> accept_passive_service_checks (cfg w) then (ERROR, w)
      else if return_code < 0 \<or> return_code > 2 then (ERROR, w)
      else case named_or_addressed w host_name of
        None \<Rightarrow> (ERROR, w)
      | Some h \<Rightarrow>
          if \<not> h_accept_passive_host_checks (host_of w h) then (ERROR, w)
          else (OK, push_check_result (passive_result ev HOST_CHECK check_time h None return_code output) w))"

definition cmd_process_host_check_result ::
    "env \<Rightarrow> int \<Rightarrow> string \<Rightarrow> engine \<Rightarrow> (result \<times> engine) option" where
  "cmd_process_host_check_result ev check_time args w = or_error w (do {
     let (host_name, r) = cut_at (CHR '';'') args;
     r \<leftarrow> r;
     let (return_code, output) = cut_at (CHR '';'') r;
     Some (Some (process_passive_host_check ev check_time host_name
       (int_of_long (strtol 0 return_code)) (case output of None \<Rightarrow> [] | Some x \<Rightarrow> x) w))
   })"

section \<open>Acknowledgements\<close>

definition cmd_acknowledge_problem :: "env \<Rightarrow> nat \<Rightarrow> string \<Rightarrow> engine \<Rightarrow> (result \<times> engine) option" where
  "cmd_acknowledge_problem ev cmd args w = or_error w (do {
     (h, r) \<leftarrow> read_host w args;
     (target, r) \<leftarrow>
       (if cmd = CMD_ACKNOWLEDGE_SVC_PROBLEM
        then do {
          (d, r) \<leftarrow> tok r;
          s \<leftarrow> find_service w (Some h) (Some d);
          Some (ServiceTarget s, r)
        }
        else Some (HostTarget h, r));
     (ty, r) \<leftarrow> tok r;
     (notify, r) \<leftarrow> tok r;
     (persistent, r) \<leftarrow> tok r;
     (ack_author, r) \<leftarrow> tok r;
     (ack_data, r) \<leftarrow> rest_of_line r;
     Some (map_option (Pair OK)
       (case target of
          HostTarget h \<Rightarrow>
            acknowledge_host_problem ev h ack_author ack_data (atoi ty) (0 < atoi notify) (0 < atoi persistent) w
        | ServiceTarget s \<Rightarrow>
            acknowledge_service_problem ev s ack_author ack_data (atoi ty) (0 < atoi notify) (0 < atoi persistent) w))
   })"

definition cmd_remove_acknowledgement :: "nat \<Rightarrow> string \<Rightarrow> engine \<Rightarrow> (result \<times> engine) option" where
  "cmd_remove_acknowledgement cmd args w = or_error w (do {
     (h, r) \<leftarrow> read_host w args;
     if cmd = CMD_REMOVE_SVC_ACKNOWLEDGEMENT
     then do {
       (d, r) \<leftarrow> tok r;
       s \<leftarrow> find_service w (Some h) (Some d);
       Some (Some (OK, remove_service_acknowledgement s w))
     }
     else Some (Some (OK, remove_host_acknowledgement h w))
   })"

section \<open>Changed variables\<close>

definition change_service_variable :: "env \<Rightarrow> nat \<Rightarrow> svc_id \<Rightarrow> int \<Rightarrow> rat \<Rightarrow> engine \<Rightarrow> engine option" where
  "change_service_variable ev cmd s intval dval w =
     (if cmd = CMD_CHANGE_NORMAL_SVC_CHECK_INTERVAL
      then
        let old = svc_of w s; w1 = upd_svc s (\<lambda>v. v\<lparr>s_check_interval := dval\<rparr>) w
        in if s_check_interval old = 0 \<and> s_checks_enabled old \<and> dval \<noteq> 0
           then schedule_service_check ev s (next_possible_check ev (s_check_period_ptr old)) CHECK_OPTION_NONE
                  (upd_svc s (\<lambda>v. v\<lparr>s_should_be_scheduled := True,
                       s_next_check := next_possible_check ev (s_check_period_ptr v)\<rparr>) w1)
           else Some w1
      else if cmd = CMD_CHANGE_RETRY_SVC_CHECK_INTERVAL
      then Some (upd_svc s (\<lambda>v. v\<lparr>s_retry_interval := dval\<rparr>) w)
      else if cmd = CMD_CHANGE_MAX_SVC_CHECK_ATTEMPTS
      then Some (upd_svc s (\<lambda>v. v\<lparr>s_max_attempts := intval,
             s_current_attempt := (if s_state_type v = HARD_STATE \<and> s_current_state v \<noteq> STATE_OK \<and>
                 1 < s_current_attempt v then intval else s_current_attempt v)\<rparr>) w)
      else Some w)"

definition change_host_variable :: "env \<Rightarrow> nat \<Rightarrow> host_id \<Rightarrow> int \<Rightarrow> rat \<Rightarrow> engine \<Rightarrow> engine option" where
  "change_host_variable ev cmd h intval dval w =
     (if cmd = CMD_CHANGE_NORMAL_HOST_CHECK_INTERVAL
      then
        let old = host_of w h; w1 = upd_host h (\<lambda>v. v\<lparr>h_check_interval := dval\<rparr>) w
        in if h_check_interval old = 0 \<and> h_checks_enabled old
           then schedule_host_check ev h (next_possible_check ev (h_check_period_ptr old)) CHECK_OPTION_NONE
                  (upd_host h (\<lambda>v. v\<lparr>h_should_be_scheduled := True,
                       h_next_check := next_possible_check ev (h_check_period_ptr v)\<rparr>) w1)
           else Some w1
      else if cmd = CMD_CHANGE_RETRY_HOST_CHECK_INTERVAL
      then Some (upd_host h (\<lambda>v. v\<lparr>h_retry_interval := dval\<rparr>) w)
      else if cmd = CMD_CHANGE_MAX_HOST_CHECK_ATTEMPTS
      then Some (upd_host h (\<lambda>v. v\<lparr>h_max_attempts := intval,
             h_current_attempt := (if h_state_type v = HARD_STATE \<and> h_current_state v \<noteq> HOST_UP \<and>
                 1 < h_current_attempt v then intval else h_current_attempt v)\<rparr>) w)
      else Some w)"

text \<open>The attribute a command marks as changed; the \<open>MODATTR\<close> commands pass the mask itself.\<close>

definition int_attribute :: "nat \<Rightarrow> int \<Rightarrow> int" where
  "int_attribute cmd intval =
     (if cmd = CMD_CHANGE_NORMAL_HOST_CHECK_INTERVAL \<or> cmd = CMD_CHANGE_NORMAL_SVC_CHECK_INTERVAL
      then MODATTR_NORMAL_CHECK_INTERVAL
      else if cmd = CMD_CHANGE_RETRY_HOST_CHECK_INTERVAL \<or> cmd = CMD_CHANGE_RETRY_SVC_CHECK_INTERVAL
      then MODATTR_RETRY_CHECK_INTERVAL
      else if cmd = CMD_CHANGE_MAX_HOST_CHECK_ATTEMPTS \<or> cmd = CMD_CHANGE_MAX_SVC_CHECK_ATTEMPTS
      then MODATTR_MAX_CHECK_ATTEMPTS
      else intval)"

definition service_variable_changed :: "nat \<Rightarrow> bool \<Rightarrow> int \<Rightarrow> svc_id \<Rightarrow> engine \<Rightarrow> engine" where
  "service_variable_changed cmd replace attr s w =
     (let w1 = upd_svc s (\<lambda>v. v\<lparr>s_modified_attributes :=
                  (if replace then attr else s_modified_attributes v OR attr)\<rparr>) w
      in emit (Update_status (ServiceTarget s))
           (emit (Broker_adaptive (ServiceTarget s) cmd attr (s_modified_attributes (svc_of w1 s))) w1))"

definition host_variable_changed :: "nat \<Rightarrow> bool \<Rightarrow> int \<Rightarrow> host_id \<Rightarrow> engine \<Rightarrow> engine" where
  "host_variable_changed cmd replace attr h w =
     (let w1 = upd_host h (\<lambda>v. v\<lparr>h_modified_attributes :=
                  (if replace then attr else h_modified_attributes v OR attr)\<rparr>) w
      in emit (Update_status (HostTarget h))
           (emit (Broker_adaptive (HostTarget h) cmd attr (h_modified_attributes (host_of w1 h))) w1))"

definition change_contact_mask :: "nat \<Rightarrow> contact_id \<Rightarrow> int \<Rightarrow> engine \<Rightarrow> engine" where
  "change_contact_mask cmd c intval w =
     (if cmd = CMD_CHANGE_CONTACT_MODATTR
      then contact_changed c cmd intval MODATTR_NONE MODATTR_NONE
             (upd_contact c (\<lambda>v. v\<lparr>c_modified_attributes := intval\<rparr>) w)
      else if cmd = CMD_CHANGE_CONTACT_MODHATTR
      then contact_changed c cmd MODATTR_NONE intval MODATTR_NONE
             (upd_contact c (\<lambda>v. v\<lparr>c_modified_host_attributes := intval\<rparr>) w)
      else contact_changed c cmd MODATTR_NONE MODATTR_NONE intval
             (upd_contact c (\<lambda>v. v\<lparr>c_modified_service_attributes := intval\<rparr>) w))"

text \<open>The value, as the two types it is stored in.\<close>

definition read_value :: "env \<Rightarrow> string \<Rightarrow> (int \<times> rat) option" where
  "read_value ev args = do {
     (t, r) \<leftarrow> tok args;
     let intval = int_of_long (strtol 0 t);
     if intval < 0 \<or> intval = 0 \<and> errno_is_EINVAL ev then None
     else Some (intval, of_int (int_of_double (strtod t)))
   }"

definition cmd_change_object_int_var :: "env \<Rightarrow> nat \<Rightarrow> string \<Rightarrow> engine \<Rightarrow> (result \<times> engine) option" where
  "cmd_change_object_int_var ev cmd args w = or_error w
     (if cmd \<in> {CMD_CHANGE_NORMAL_SVC_CHECK_INTERVAL, CMD_CHANGE_RETRY_SVC_CHECK_INTERVAL,
                CMD_CHANGE_MAX_SVC_CHECK_ATTEMPTS, CMD_CHANGE_SVC_MODATTR}
      then do {
        (s, r) \<leftarrow> read_service w args;
        (intval, dval) \<leftarrow> read_value ev r;
        Some (map_option (\<lambda>w1. (OK, service_variable_changed cmd (cmd = CMD_CHANGE_SVC_MODATTR) (int_attribute cmd intval) s w1))
          (change_service_variable ev cmd s intval dval w))
      }
      else if cmd \<in> {CMD_CHANGE_NORMAL_HOST_CHECK_INTERVAL, CMD_CHANGE_RETRY_HOST_CHECK_INTERVAL,
                CMD_CHANGE_MAX_HOST_CHECK_ATTEMPTS, CMD_CHANGE_HOST_MODATTR}
      then do {
        (h, r) \<leftarrow> read_host w args;
        (intval, dval) \<leftarrow> read_value ev r;
        Some (map_option (\<lambda>w1. (OK, host_variable_changed cmd (cmd = CMD_CHANGE_HOST_MODATTR) (int_attribute cmd intval) h w1))
          (change_host_variable ev cmd h intval dval w))
      }
      else if cmd \<in> {CMD_CHANGE_CONTACT_MODATTR, CMD_CHANGE_CONTACT_MODHATTR, CMD_CHANGE_CONTACT_MODSATTR}
      then do {
        (c, r) \<leftarrow> read_contact w args;
        (intval, dval) \<leftarrow> read_value ev r;
        Some (Some (OK, change_contact_mask cmd c intval w))
      }
      else None)"

text \<open>
  Only the commands that change a time period get past the switch at the top; those that would
  change a command or an event handler are refused.
\<close>

definition cmd_change_object_char_var :: "nat \<Rightarrow> string \<Rightarrow> engine \<Rightarrow> (result \<times> engine) option" where
  "cmd_change_object_char_var cmd args w = or_error w
     (if cmd = CMD_CHANGE_HOST_CHECK_TIMEPERIOD \<or> cmd = CMD_CHANGE_HOST_NOTIFICATION_TIMEPERIOD
      then do {
        (h, r) \<leftarrow> read_host w args;
        (charval, r) \<leftarrow> rest_of_line r;
        p \<leftarrow> find_timeperiod w (Some charval);
        Some (Some (OK, if cmd = CMD_CHANGE_HOST_CHECK_TIMEPERIOD
          then host_variable_changed cmd False MODATTR_CHECK_TIMEPERIOD h
                 (upd_host h (\<lambda>v. v\<lparr>h_check_period_ptr := Some p\<rparr>) w)
          else host_variable_changed cmd False MODATTR_NOTIFICATION_TIMEPERIOD h
                 (upd_host h (\<lambda>v. v\<lparr>h_notification_period_ptr := Some p\<rparr>) w)))
      }
      else if cmd = CMD_CHANGE_SVC_CHECK_TIMEPERIOD \<or> cmd = CMD_CHANGE_SVC_NOTIFICATION_TIMEPERIOD
      then do {
        (s, r) \<leftarrow> read_service w args;
        (charval, r) \<leftarrow> rest_of_line r;
        p \<leftarrow> find_timeperiod w (Some charval);
        Some (Some (OK, if cmd = CMD_CHANGE_SVC_CHECK_TIMEPERIOD
          then service_variable_changed cmd False MODATTR_CHECK_TIMEPERIOD s
                 (upd_svc s (\<lambda>v. v\<lparr>s_check_period_ptr := Some p\<rparr>) w)
          else service_variable_changed cmd False MODATTR_NOTIFICATION_TIMEPERIOD s
                 (upd_svc s (\<lambda>v. v\<lparr>s_notification_period_ptr := Some p\<rparr>) w)))
      }
      else if cmd = CMD_CHANGE_CONTACT_HOST_NOTIFICATION_TIMEPERIOD \<or>
              cmd = CMD_CHANGE_CONTACT_SVC_NOTIFICATION_TIMEPERIOD
      then do {
        (c, r) \<leftarrow> read_contact w args;
        (charval, r) \<leftarrow> rest_of_line r;
        p \<leftarrow> find_timeperiod w (Some charval);
        Some (Some (OK, if cmd = CMD_CHANGE_CONTACT_HOST_NOTIFICATION_TIMEPERIOD
          then contact_changed c cmd MODATTR_NONE MODATTR_NOTIFICATION_TIMEPERIOD MODATTR_NONE
                 (upd_contact c (\<lambda>v. v\<lparr>c_host_notification_period := Some p,
                    c_modified_host_attributes := c_modified_host_attributes v OR MODATTR_NOTIFICATION_TIMEPERIOD\<rparr>) w)
          else contact_changed c cmd MODATTR_NONE MODATTR_NONE MODATTR_NOTIFICATION_TIMEPERIOD
                 (upd_contact c (\<lambda>v. v\<lparr>c_service_notification_period := Some p,
                    c_modified_service_attributes :=
                      c_modified_service_attributes v OR MODATTR_NOTIFICATION_TIMEPERIOD\<rparr>) w)))
      }
      else None)"

definition toupper :: "char \<Rightarrow> char" where
  "toupper c = (let n = of_char c :: nat in if 97 \<le> n \<and> n \<le> 122 then char_of (n - 32) else c)"

text \<open>The first variable of that name gets the value.\<close>

fun update_custom_variable :: "string \<Rightarrow> string \<Rightarrow> customvariable list \<Rightarrow> customvariable list" where
  "update_custom_variable name val [] = []"
| "update_custom_variable name val (v # vs) =
     (if cv_name v = name then v\<lparr>cv_value := val, cv_has_been_modified := True\<rparr> # vs
      else v # update_custom_variable name val vs)"

definition cmd_change_object_custom_var :: "nat \<Rightarrow> string \<Rightarrow> engine \<Rightarrow> (result \<times> engine) option" where
  "cmd_change_object_custom_var cmd args w = or_error w (do {
     (name1, r) \<leftarrow> tok args;
     (name2, r) \<leftarrow> (if cmd = CMD_CHANGE_CUSTOM_SVC_VAR then tok r else Some ([], r));
     (varname, r) \<leftarrow> tok r;
     let varvalue = (case tok r of None \<Rightarrow> [] | Some (v, r) \<Rightarrow> v);
     let change = update_custom_variable (List.map toupper varname) varvalue;
     if cmd = CMD_CHANGE_CUSTOM_HOST_VAR
     then do {
       h \<leftarrow> find_host w (Some name1);
       Some (Some (OK, emit (Update_status (HostTarget h)) (upd_host h (\<lambda>v. v\<lparr>
         h_custom_variables := change (h_custom_variables v),
         h_modified_attributes := h_modified_attributes v OR MODATTR_CUSTOM_VARIABLE\<rparr>) w)))
     }
     else if cmd = CMD_CHANGE_CUSTOM_SVC_VAR
     then do {
       s \<leftarrow> find_service w (Some name1) (Some name2);
       Some (Some (OK, emit (Update_status (ServiceTarget s)) (upd_svc s (\<lambda>v. v\<lparr>
         s_custom_variables := change (s_custom_variables v),
         s_modified_attributes := s_modified_attributes v OR MODATTR_CUSTOM_VARIABLE\<rparr>) w)))
     }
     else if cmd = CMD_CHANGE_CUSTOM_CONTACT_VAR
     then do {
       c \<leftarrow> find_contact w (Some name1);
       Some (Some (OK, emit (Update_contact_status c) (upd_contact c (\<lambda>v. v\<lparr>
         c_custom_variables := change (c_custom_variables v),
         c_modified_attributes := c_modified_attributes v OR MODATTR_CUSTOM_VARIABLE\<rparr>) w)))
     }
     else Some (Some (OK, w))
   })"

end
