(* ===== verification/Downtime_Commands.thy ===== *)
theory Downtime_Commands
  imports External_Commands
begin

text \<open>
  The downtime commands of \<^verbatim>\<open>modules/external_commands/src/commands.cc\<close> and the search by
  criteria of \<^verbatim>\<open>src/downtime_finder.cc\<close>.
\<close>

section \<open>Scheduling\<close>

text \<open>What a command schedules for: an object or the members of a group.\<close>

datatype downtime_scope = Of_host host_id | Of_service svc_id
  | Of_hostgroup "(host_id \<times> host_id option) list" | Of_servicegroup "(svc_id \<times> svc_id option) list"

definition read_scope :: "nat \<Rightarrow> string \<Rightarrow> engine \<Rightarrow> (downtime_scope \<times> string) option" where
  "read_scope cmd args w =
     (if cmd = CMD_SCHEDULE_HOSTGROUP_HOST_DOWNTIME \<or> cmd = CMD_SCHEDULE_HOSTGROUP_SVC_DOWNTIME
      then do {
        (hostgroup_name, r) \<leftarrow> tok args;
        g \<leftarrow> find_hostgroup w (Some hostgroup_name);
        Some (Of_hostgroup g, r)
      }
      else if cmd = CMD_SCHEDULE_SERVICEGROUP_HOST_DOWNTIME \<or> cmd = CMD_SCHEDULE_SERVICEGROUP_SVC_DOWNTIME
      then do {
        (servicegroup_name, r) \<leftarrow> tok args;
        g \<leftarrow> find_servicegroup w (Some servicegroup_name);
        Some (Of_servicegroup g, r)
      }
      else do {
        (h, r) \<leftarrow> read_host w args;
        if cmd = CMD_SCHEDULE_SVC_DOWNTIME
        then do {
          (svc_description, r) \<leftarrow> tok r;
          s \<leftarrow> find_service w (Some h) (Some svc_description);
          Some (Of_service s, r)
        }
        else Some (Of_host h, r)
      })"

text \<open>
  The entry the arguments describe, without its object. A fixed downtime lasts from its start
  to its end; a flexible one needs a duration.
\<close>

definition read_downtime :: "int \<Rightarrow> string \<Rightarrow> scheduled_downtime option" where
  "read_downtime entry_time args = do {
     (start_time, r) \<leftarrow> tok args;
     (end_time, r) \<leftarrow> tok r;
     (fixed, r) \<leftarrow> tok r;
     (triggered_by, r) \<leftarrow> tok r;
     (duration, r) \<leftarrow> tok r;
     (author, r) \<leftarrow> tok r;
     (comment_data, r) \<leftarrow> tok r;
     if atoi fixed = 0 \<and> strtoul 10 duration = 0 then None
     else Some \<lparr>dt_type = HOST_DOWNTIME, dt_host_name = [], dt_service_description = None,
        dt_entry_time = entry_time, dt_start_time = time_of_text start_time, dt_end_time = time_of_text end_time,
        dt_fixed = 0 < atoi fixed, dt_triggered_by = strtoul 10 triggered_by,
        dt_duration = (if 0 < atoi fixed then nat (ulong_of (time_of_text end_time - time_of_text start_time))
                       else strtoul 10 duration),
        dt_downtime_id = 0, dt_author = Some author, dt_comment = Some comment_data, dt_comment_id = 0,
        dt_is_in_effect = False, dt_start_flex_downtime = False, dt_incremented_pending_downtime = False\<rparr>
   }"

definition for_host :: "host_id \<Rightarrow> scheduled_downtime \<Rightarrow> scheduled_downtime" where
  "for_host h d = d\<lparr>dt_type := HOST_DOWNTIME, dt_host_name := h, dt_service_description := None\<rparr>"

definition for_service :: "svc_id \<Rightarrow> scheduled_downtime \<Rightarrow> scheduled_downtime" where
  "for_service s d = d\<lparr>dt_type := SERVICE_DOWNTIME, dt_host_name := fst s, dt_service_description := Some (snd s)\<rparr>"

definition schedule_each :: "env \<Rightarrow> scheduled_downtime list \<Rightarrow> engine \<Rightarrow> engine option" where
  "schedule_each ev ds w = for_each (\<lambda>d w. map_option (snd \<circ> snd) (schedule_downtime ev d w)) ds w"

text \<open>The hosts of a service group, one that repeats right after itself once.\<close>

fun servicegroup_hosts :: "engine \<Rightarrow> host_id option \<Rightarrow> (svc_id \<times> svc_id option) list \<Rightarrow> host_id list" where
  "servicegroup_hosts w last_host [] = []"
| "servicegroup_hosts w last_host (m # ms) =
     (case find_host w (Some (fst (fst m))) of
        None \<Rightarrow> servicegroup_hosts w last_host ms
      | Some h \<Rightarrow> if last_host = Some h then servicegroup_hosts w last_host ms
                  else h # servicegroup_hosts w (Some h) ms)"

definition pointers :: "'x option list \<Rightarrow> 'x list" where
  "pointers xs = List.map_filter (\<lambda>x. x) xs"

text \<open>The entries a command schedules, other than those of the children of a host.\<close>

definition scope_downtimes :: "nat \<Rightarrow> downtime_scope \<Rightarrow> scheduled_downtime \<Rightarrow> engine \<Rightarrow> scheduled_downtime list" where
  "scope_downtimes cmd scope d w =
     (case scope of
        Of_host h \<Rightarrow>
          if cmd = CMD_SCHEDULE_HOST_SVC_DOWNTIME
          then map (\<lambda>s. for_service (h, snd s) d) (pointers (h_services (host_of w h)))
          else [for_host h d]
      | Of_service s \<Rightarrow> [for_service s d]
      | Of_hostgroup g \<Rightarrow>
          if cmd = CMD_SCHEDULE_HOSTGROUP_HOST_DOWNTIME then map (\<lambda>m. for_host (fst m) d) g
          else concat (map (\<lambda>h. map (\<lambda>s. for_service s d) (pointers (h_services (host_of w h))))
                 (pointers (map snd g)))
      | Of_servicegroup g \<Rightarrow>
          if cmd = CMD_SCHEDULE_SERVICEGROUP_HOST_DOWNTIME
          then map (\<lambda>h. for_host h d) (servicegroup_hosts w None g)
          else map (\<lambda>m. for_service (fst m) d) g)"

definition cmd_schedule_downtime ::
    "env \<Rightarrow> nat \<Rightarrow> int \<Rightarrow> string \<Rightarrow> engine \<Rightarrow> (result \<times> engine) option" where
  "cmd_schedule_downtime ev cmd entry_time args w = or_error w (do {
     (scope, r) \<leftarrow> read_scope cmd args w;
     d \<leftarrow> read_downtime entry_time r;
     Some (map_option (Pair OK)
       (case scope of
          Of_host h \<Rightarrow>
            if cmd = CMD_SCHEDULE_AND_PROPAGATE_HOST_DOWNTIME \<or>
               cmd = CMD_SCHEDULE_AND_PROPAGATE_TRIGGERED_HOST_DOWNTIME
            then Option.bind (schedule_downtime ev (for_host h d) w) (\<lambda>(_, downtime_id, w1).
              schedule_and_propagate_downtime ev h
                (d\<lparr>dt_triggered_by := (if cmd = CMD_SCHEDULE_AND_PROPAGATE_HOST_DOWNTIME then 0 else downtime_id)\<rparr>) w1)
            else schedule_each ev (scope_downtimes cmd scope d w) w
        | _ \<Rightarrow> schedule_each ev (scope_downtimes cmd scope d w) w))
   })"

section \<open>Deleting\<close>

definition cmd_delete_downtime :: "env \<Rightarrow> nat \<Rightarrow> string \<Rightarrow> engine \<Rightarrow> (result \<times> engine) option" where
  "cmd_delete_downtime ev cmd args w = or_error w (do {
     (t, r) \<leftarrow> rest_of_line args;
     Some (map_option (\<lambda>(_, w1). (OK, w1))
       (unschedule_downtime ev (Some (if cmd = CMD_DEL_HOST_DOWNTIME then HOST_DOWNTIME else SERVICE_DOWNTIME))
          (strtoul 10 t) w))
   })"

text \<open>The criteria of a search, with the string each compares with.\<close>

datatype criterion = Crit_host string | Crit_service string | Crit_start string | Crit_end string
  | Crit_fixed string | Crit_triggered_by string | Crit_duration string | Crit_author string | Crit_comment string

definition strings_matching :: "string \<Rightarrow> string option \<Rightarrow> bool" where
  "strings_matching expected s = (case s of None \<Rightarrow> expected = [] | Some t \<Rightarrow> t = expected)"

fun match_criteria :: "scheduled_downtime \<Rightarrow> criterion \<Rightarrow> bool" where
  "match_criteria d (Crit_host t) = strings_matching t (Some (dt_host_name d))"
| "match_criteria d (Crit_service t) = strings_matching t (dt_service_description d)"
| "match_criteria d (Crit_start t) = (strtol 0 t = dt_start_time d)"
| "match_criteria d (Crit_end t) = (strtol 0 t = dt_end_time d)"
| "match_criteria d (Crit_fixed t) = ((strtol 0 t \<noteq> 0) = dt_fixed d)"
| "match_criteria d (Crit_triggered_by t) = (strtoul 0 t = dt_triggered_by d)"
| "match_criteria d (Crit_duration t) = (strtoul 0 t = dt_duration d)"
| "match_criteria d (Crit_author t) = strings_matching t (dt_author d)"
| "match_criteria d (Crit_comment t) = strings_matching t (dt_comment d)"

definition find_matching_all :: "criterion list \<Rightarrow> engine \<Rightarrow> nat list" where
  "find_matching_all criterias w =
     map (\<lambda>a. dt_downtime_id (downtime_at w a))
       (filter (\<lambda>a. \<forall>c\<in>set criterias. match_criteria (downtime_at w a) c) (downtime_list w))"

definition criterion_if :: "(string \<Rightarrow> criterion) \<Rightarrow> string \<Rightarrow> criterion list" where
  "criterion_if c t = (if t = [] then [] else [c t])"

definition read_criteria :: "nat \<Rightarrow> string \<Rightarrow> criterion list option" where
  "read_criteria cmd args = do {
     (host_name, r) \<leftarrow> tok args;
     (service, r) \<leftarrow>
       (if cmd = CMD_DEL_SVC_DOWNTIME_FULL then map_option (\<lambda>(t, r). (criterion_if Crit_service t, r)) (tok r)
        else Some ([Crit_service []], r));
     (start, r) \<leftarrow> tok r;
     (end_time, r) \<leftarrow> tok r;
     (fixed, r) \<leftarrow> tok r;
     (triggered_by, r) \<leftarrow> tok r;
     (duration, r) \<leftarrow> tok r;
     (author, r) \<leftarrow> tok r;
     (comment, r) \<leftarrow> tok r;
     Some (criterion_if Crit_host host_name @ service @ criterion_if Crit_start start @
       criterion_if Crit_end end_time @ criterion_if Crit_fixed fixed @
       criterion_if Crit_triggered_by triggered_by @ criterion_if Crit_duration duration @
       criterion_if Crit_author author @ criterion_if Crit_comment comment)
   }"

definition cmd_delete_downtime_full :: "env \<Rightarrow> nat \<Rightarrow> string \<Rightarrow> engine \<Rightarrow> (result \<times> engine) option" where
  "cmd_delete_downtime_full ev cmd args w = or_error w (do {
     criterias \<leftarrow> read_criteria cmd args;
     Some (map_option (Pair OK)
       (for_each (\<lambda>i w. map_option snd (unschedule_downtime ev
            (Some (if cmd = CMD_DEL_SVC_DOWNTIME_FULL then SERVICE_DOWNTIME else HOST_DOWNTIME)) i w))
          (find_matching_all criterias w) w))
   })"

text \<open>The optional service, start time and comment, each read only when the one before was there.\<close>

definition read_filter ::
    "string option \<times> int \<times> string option \<Rightarrow> string \<Rightarrow> (string option \<times> int \<times> string option) \<times> string" where
  "read_filter f args =
     (case f of (svc, start, comment) \<Rightarrow>
       (case tok args of
          None \<Rightarrow> (f, [])
        | Some (d, r) \<Rightarrow>
            let svc' = (if d = [] then svc else Some d)
            in case tok r of
                 None \<Rightarrow> ((svc', start, comment), [])
               | Some (t, r) \<Rightarrow>
                   (case tok r of
                      None \<Rightarrow> ((svc', time_of_text t, comment), [])
                    | Some (c, r) \<Rightarrow> ((svc', time_of_text t, if c = [] then comment else Some c), r))))"

definition error_if_none :: "nat \<times> engine \<Rightarrow> result \<times> engine" where
  "error_if_none = (\<lambda>(deleted, w). (if deleted = 0 then ERROR else OK, w))"

definition cmd_delete_downtime_by_host_name :: "env \<Rightarrow> string \<Rightarrow> engine \<Rightarrow> (result \<times> engine) option" where
  "cmd_delete_downtime_by_host_name ev args w = or_error w (do {
     (hostname, r) \<leftarrow> tok args;
     let ((service_description, start_time, comment), r) = read_filter (None, 0, None) r;
     Some (map_option error_if_none
       (delete_downtime_by_hostname_service_description_start_time_comment ev (Some hostname)
          service_description start_time comment w))
   })"

text \<open>
  The arguments of the variant for a host group are read twice, as the source does; the last
  host of the loop decides the result.
\<close>

definition read_group_filter :: "string \<Rightarrow> string option \<times> string option \<times> int \<times> string option" where
  "read_group_filter args =
     (case tok args of
        None \<Rightarrow> (None, None, 0, None)
      | Some (host_name, r) \<Rightarrow>
          let (f1, r1) = read_filter (None, 0, None) r; (f2, r2) = read_filter f1 r1
          in (if host_name = [] then None else Some host_name, f2))"

fun delete_for_hosts ::
    "env \<Rightarrow> string option \<times> int \<times> string option \<Rightarrow> host_id list \<Rightarrow> nat \<times> engine \<Rightarrow> (nat \<times> engine) option" where
  "delete_for_hosts ev f [] nw = Some nw"
| "delete_for_hosts ev f (h # hs) nw =
     Option.bind (delete_downtime_by_hostname_service_description_start_time_comment ev (Some h)
        (fst f) (fst (snd f)) (snd (snd f)) (snd nw)) (delete_for_hosts ev f hs)"

definition cmd_delete_downtime_by_hostgroup_name :: "env \<Rightarrow> string \<Rightarrow> engine \<Rightarrow> (result \<times> engine) option" where
  "cmd_delete_downtime_by_hostgroup_name ev args w = or_error w (do {
     (name, r) \<leftarrow> tok args;
     g \<leftarrow> find_hostgroup w (Some name);
     let (host_name, f) = read_group_filter r;
     Some (map_option error_if_none (delete_for_hosts ev f
       (filter (\<lambda>h. host_name = None \<or> host_name = Some h) (pointers (map snd g))) (0, w)))
   })"

definition cmd_delete_downtime_by_start_time_comment :: "env \<Rightarrow> string \<Rightarrow> engine \<Rightarrow> (result \<times> engine) option" where
  "cmd_delete_downtime_by_start_time_comment ev args w =
     (let (start_time, r) = (case tok args of None \<Rightarrow> (0, []) | Some (t, r) \<Rightarrow> (time_of_text t, r));
          comment = (case rest_of_line r of None \<Rightarrow> None | Some (t, r) \<Rightarrow> if t = [] then None else Some t)
      in if start_time = 0 \<and> comment = None then Some (ERROR, w)
         else map_option error_if_none
           (delete_downtime_by_hostname_service_description_start_time_comment ev None None start_time comment w))"

end
