(* ===== verification/Command_Processing.thy ===== *)
theory Command_Processing
  imports Downtime_Commands
begin

text \<open>
  Dispatching external commands (\<^verbatim>\<open>modules/external_commands/src/processing.cc\<close>, its header
  and \<^verbatim>\<open>check_for_external_commands\<close> of \<^verbatim>\<open>commands.cc\<close>): the table of commands, the
  redirectors that find the objects a command is about, and the processing of command lines.
  A command whose arguments are read past their end has no result (\<open>None\<close>).
\<close>

section \<open>Handlers\<close>

text \<open>
  A handler takes the identifier, the entry time and the arguments. \<open>PROCESS_FILE\<close> is apart,
  for it processes commands itself.
\<close>

datatype handler = Handler "env \<Rightarrow> nat \<Rightarrow> int \<Rightarrow> string \<Rightarrow> engine \<Rightarrow> engine option" | Process_file

record command_info =
  cmd_id :: nat
  func :: handler
  thread_safe :: bool

definition entry :: "string \<Rightarrow> nat \<Rightarrow> handler \<Rightarrow> string \<times> command_info" where
  "entry name i f = (name, \<lparr>cmd_id = i, func = f, thread_safe = False\<rparr>)"

definition safe_entry :: "string \<Rightarrow> nat \<Rightarrow> handler \<Rightarrow> string \<times> command_info" where
  "safe_entry name i f = (name, \<lparr>cmd_id = i, func = f, thread_safe = True\<rparr>)"

section \<open>Redirectors\<close>

definition at_once :: "('x \<Rightarrow> engine \<Rightarrow> engine) \<Rightarrow> env \<Rightarrow> 'x \<Rightarrow> engine \<Rightarrow> engine option" where
  "at_once f ev x w = Some (f x w)"

definition redirector :: "(engine \<Rightarrow> engine) \<Rightarrow> handler" where
  "redirector f = Handler (\<lambda>ev i t args w. Some (f w))"

text \<open>The result of a command is ignored.\<close>

definition redirector_cmd ::
    "(env \<Rightarrow> nat \<Rightarrow> int \<Rightarrow> string \<Rightarrow> engine \<Rightarrow> (result \<times> engine) option) \<Rightarrow> handler" where
  "redirector_cmd f = Handler (\<lambda>ev i t args w. map_option snd (f ev i t args w))"

definition first_token :: "string \<Rightarrow> string option" where
  "first_token args = map_option fst (tok args)"

definition second_token :: "string \<Rightarrow> string option" where
  "second_token args = Option.bind (tok args) (\<lambda>(t, r). first_token r)"

text \<open>The arguments from a position, which may be that of the final NUL but not beyond.\<close>

definition args_from :: "nat \<Rightarrow> string \<Rightarrow> string option" where
  "args_from n args = (if n \<le> length args then Some (drop n args) else None)"

definition redirector_host :: "(env \<Rightarrow> host_id \<Rightarrow> engine \<Rightarrow> engine option) \<Rightarrow> handler" where
  "redirector_host f = Handler (\<lambda>ev i t args w.
     case find_host w (first_token args) of None \<Rightarrow> Some w | Some h \<Rightarrow> f ev h w)"

definition redirector_host_args :: "(env \<Rightarrow> host_id \<Rightarrow> string \<Rightarrow> engine \<Rightarrow> engine option) \<Rightarrow> handler" where
  "redirector_host_args f = Handler (\<lambda>ev i t args w.
     case find_host w (first_token args) of
       None \<Rightarrow> Some w
     | Some h \<Rightarrow> Option.bind (args_from (length h + 1) args) (\<lambda>a. f ev h a w))"

definition redirector_hostgroup :: "(env \<Rightarrow> host_id \<Rightarrow> engine \<Rightarrow> engine option) \<Rightarrow> handler" where
  "redirector_hostgroup f = Handler (\<lambda>ev i t args w.
     case find_hostgroup w (first_token args) of
       None \<Rightarrow> Some w
     | Some g \<Rightarrow> each_pointer (f ev) (map snd g) w)"

definition redirector_service :: "(env \<Rightarrow> svc_id \<Rightarrow> engine \<Rightarrow> engine option) \<Rightarrow> handler" where
  "redirector_service f = Handler (\<lambda>ev i t args w.
     case find_service w (first_token args) (second_token args) of None \<Rightarrow> Some w | Some s \<Rightarrow> f ev s w)"

definition redirector_service_args :: "(env \<Rightarrow> svc_id \<Rightarrow> string \<Rightarrow> engine \<Rightarrow> engine option) \<Rightarrow> handler" where
  "redirector_service_args f = Handler (\<lambda>ev i t args w.
     case find_service w (first_token args) (second_token args) of
       None \<Rightarrow> Some w
     | Some s \<Rightarrow> Option.bind (args_from (length (fst s) + length (snd s) + 2) args) (\<lambda>a. f ev s a w))"

definition redirector_servicegroup_services :: "(env \<Rightarrow> svc_id \<Rightarrow> engine \<Rightarrow> engine option) \<Rightarrow> handler" where
  "redirector_servicegroup_services f = Handler (\<lambda>ev i t args w.
     case find_servicegroup w (first_token args) of
       None \<Rightarrow> Some w
     | Some g \<Rightarrow> each_pointer (f ev) (map snd g) w)"

definition redirector_servicegroup_hosts :: "(env \<Rightarrow> host_id \<Rightarrow> engine \<Rightarrow> engine option) \<Rightarrow> handler" where
  "redirector_servicegroup_hosts f = Handler (\<lambda>ev i t args w.
     case find_servicegroup w (first_token args) of
       None \<Rightarrow> Some w
     | Some g \<Rightarrow> for_each (f ev) (servicegroup_hosts w None g) w)"

definition redirector_contact :: "(env \<Rightarrow> contact_id \<Rightarrow> engine \<Rightarrow> engine option) \<Rightarrow> handler" where
  "redirector_contact f = Handler (\<lambda>ev i t args w.
     case find_contact w (first_token args) of None \<Rightarrow> Some w | Some c \<Rightarrow> f ev c w)"

definition redirector_contactgroup :: "(env \<Rightarrow> contact_id \<Rightarrow> engine \<Rightarrow> engine option) \<Rightarrow> handler" where
  "redirector_contactgroup f = Handler (\<lambda>ev i t args w.
     case find_contactgroup w (first_token args) of
       None \<Rightarrow> Some w
     | Some g \<Rightarrow> each_pointer (f ev) (group_members w g) w)"

section \<open>Wrappers\<close>

definition wrapper_enable_host_svc_notifications :: "env \<Rightarrow> host_id \<Rightarrow> engine \<Rightarrow> engine option" where
  "wrapper_enable_host_svc_notifications ev h w =
     Some (each_member enable_service_notifications (h_services (host_of w h)) w)"

definition wrapper_disable_host_svc_notifications :: "env \<Rightarrow> host_id \<Rightarrow> engine \<Rightarrow> engine option" where
  "wrapper_disable_host_svc_notifications ev h w =
     Some (each_member disable_service_notifications (h_services (host_of w h)) w)"

definition wrapper_disable_host_svc_checks :: "env \<Rightarrow> host_id \<Rightarrow> engine \<Rightarrow> engine option" where
  "wrapper_disable_host_svc_checks ev h w =
     Some (each_member disable_service_checks (h_services (host_of w h)) w)"

definition wrapper_enable_host_svc_checks :: "env \<Rightarrow> host_id \<Rightarrow> engine \<Rightarrow> engine option" where
  "wrapper_enable_host_svc_checks ev h w = each_pointer (enable_service_checks ev) (h_services (host_of w h)) w"

definition wrapper_enable_service_notifications :: "env \<Rightarrow> host_id \<Rightarrow> engine \<Rightarrow> engine option" where
  "wrapper_enable_service_notifications ev h w =
     Some (each_member enable_service_notifications (h_services (host_of w h)) w)"

definition wrapper_disable_service_notifications :: "env \<Rightarrow> host_id \<Rightarrow> engine \<Rightarrow> engine option" where
  "wrapper_disable_service_notifications ev h w =
     Some (each_member disable_service_notifications (h_services (host_of w h)) w)"

definition wrapper_enable_service_checks :: "env \<Rightarrow> host_id \<Rightarrow> engine \<Rightarrow> engine option" where
  "wrapper_enable_service_checks ev h w = each_pointer (enable_service_checks ev) (h_services (host_of w h)) w"

definition wrapper_disable_service_checks :: "env \<Rightarrow> host_id \<Rightarrow> engine \<Rightarrow> engine option" where
  "wrapper_disable_service_checks ev h w =
     Some (each_member disable_service_checks (h_services (host_of w h)) w)"

definition wrapper_enable_passive_service_checks :: "env \<Rightarrow> host_id \<Rightarrow> engine \<Rightarrow> engine option" where
  "wrapper_enable_passive_service_checks ev h w =
     Some (each_member enable_passive_service_checks (h_services (host_of w h)) w)"

definition wrapper_disable_passive_service_checks :: "env \<Rightarrow> host_id \<Rightarrow> engine \<Rightarrow> engine option" where
  "wrapper_disable_passive_service_checks ev h w =
     Some (each_member disable_passive_service_checks (h_services (host_of w h)) w)"

definition wrapper_set_host_notification_number :: "env \<Rightarrow> host_id \<Rightarrow> string \<Rightarrow> engine \<Rightarrow> engine option" where
  "wrapper_set_host_notification_number ev h args w = Some (set_host_notification_number h (atoi args) w)"

definition wrapper_set_service_notification_number :: "env \<Rightarrow> svc_id \<Rightarrow> string \<Rightarrow> engine \<Rightarrow> engine option" where
  "wrapper_set_service_notification_number ev s args w =
     Some (case tok args of None \<Rightarrow> w | Some (t, r) \<Rightarrow> set_service_notification_number s (atoi t) w)"

definition NOTIFICATION_OPTION_BROADCAST :: int where "NOTIFICATION_OPTION_BROADCAST = 1"
definition NOTIFICATION_OPTION_FORCED :: int where "NOTIFICATION_OPTION_FORCED = 2"
definition NOTIFICATION_OPTION_INCREMENT :: int where "NOTIFICATION_OPTION_INCREMENT = 4"

definition notif_options_of :: "int \<Rightarrow> notif_options" where
  "notif_options_of n = \<lparr>opt_broadcast = has_option n NOTIFICATION_OPTION_BROADCAST,
     opt_forced = has_option n NOTIFICATION_OPTION_FORCED,
     opt_increment = has_option n NOTIFICATION_OPTION_INCREMENT\<rparr>"

definition three_tokens :: "string \<Rightarrow> (string \<times> string \<times> string) option" where
  "three_tokens args = do {
     (a, r) \<leftarrow> tok args;
     (b, r) \<leftarrow> tok r;
     (c, r) \<leftarrow> tok r;
     Some (a, b, c)
   }"

definition wrapper_send_custom_host_notification :: "env \<Rightarrow> host_id \<Rightarrow> string \<Rightarrow> engine \<Rightarrow> engine option" where
  "wrapper_send_custom_host_notification ev h args w =
     (case three_tokens args of
        None \<Rightarrow> Some w
      | Some (options, author, data) \<Rightarrow> map_option snd
          (host_notification ev h NOTIFICATION_CUSTOM (Some author) (Some data) (notif_options_of (atoi options)) w))"

definition wrapper_send_custom_service_notification :: "env \<Rightarrow> svc_id \<Rightarrow> string \<Rightarrow> engine \<Rightarrow> engine option" where
  "wrapper_send_custom_service_notification ev s args w =
     (case three_tokens args of
        None \<Rightarrow> Some w
      | Some (options, author, data) \<Rightarrow> map_option snd
          (service_notification ev s NOTIFICATION_CUSTOM (Some author) (Some data) (notif_options_of (atoi options)) w))"

section \<open>The table\<close>

definition program_commands :: "(string \<times> command_info) list" where
  "program_commands = [
     entry ''ENTER_STANDBY_MODE'' CMD_DISABLE_NOTIFICATIONS (redirector disable_all_notifications),
     entry ''DISABLE_NOTIFICATIONS'' CMD_DISABLE_NOTIFICATIONS
       (redirector disable_all_notifications),
     entry ''ENTER_ACTIVE_MODE'' CMD_ENABLE_NOTIFICATIONS (redirector enable_all_notifications),
     entry ''ENABLE_NOTIFICATIONS'' CMD_ENABLE_NOTIFICATIONS (redirector enable_all_notifications),
     entry ''SHUTDOWN_PROGRAM'' CMD_SHUTDOWN_PROCESS
       (Handler (\<lambda>ev id t. cmd_signal_process id)),
     entry ''SHUTDOWN_PROCESS'' CMD_SHUTDOWN_PROCESS
       (Handler (\<lambda>ev id t. cmd_signal_process id)),
     entry ''RESTART_PROGRAM'' CMD_RESTART_PROCESS
       (Handler (\<lambda>ev id t. cmd_signal_process id)),
     entry ''RESTART_PROCESS'' CMD_RESTART_PROCESS
       (Handler (\<lambda>ev id t. cmd_signal_process id)),
     entry ''SAVE_STATE_INFORMATION'' CMD_SAVE_STATE_INFORMATION
       (redirector (emit Save_retention_data)),
     entry ''READ_STATE_INFORMATION'' CMD_READ_STATE_INFORMATION
       (redirector (emit Read_retention_data)),
     entry ''ENABLE_EVENT_HANDLERS'' CMD_ENABLE_EVENT_HANDLERS
       (redirector start_using_event_handlers),
     entry ''DISABLE_EVENT_HANDLERS'' CMD_DISABLE_EVENT_HANDLERS
       (redirector stop_using_event_handlers),
     entry ''ENABLE_FAILURE_PREDICTION'' CMD_ENABLE_FAILURE_PREDICTION (redirector (\<lambda>w. w)),
     entry ''DISABLE_FAILURE_PREDICTION'' CMD_DISABLE_FAILURE_PREDICTION
       (redirector (\<lambda>w. w)),
     entry ''ENABLE_PERFORMANCE_DATA'' CMD_ENABLE_PERFORMANCE_DATA
       (redirector enable_performance_data),
     entry ''DISABLE_PERFORMANCE_DATA'' CMD_DISABLE_PERFORMANCE_DATA
       (redirector disable_performance_data),
     entry ''START_EXECUTING_HOST_CHECKS'' CMD_START_EXECUTING_HOST_CHECKS
       (redirector start_executing_host_checks),
     entry ''STOP_EXECUTING_HOST_CHECKS'' CMD_STOP_EXECUTING_HOST_CHECKS
       (redirector stop_executing_host_checks),
     entry ''START_EXECUTING_SVC_CHECKS'' CMD_START_EXECUTING_SVC_CHECKS
       (redirector start_executing_service_checks),
     entry ''STOP_EXECUTING_SVC_CHECKS'' CMD_STOP_EXECUTING_SVC_CHECKS
       (redirector stop_executing_service_checks),
     entry ''START_ACCEPTING_PASSIVE_HOST_CHECKS'' CMD_START_ACCEPTING_PASSIVE_HOST_CHECKS
       (redirector start_accepting_passive_host_checks),
     entry ''STOP_ACCEPTING_PASSIVE_HOST_CHECKS'' CMD_STOP_ACCEPTING_PASSIVE_HOST_CHECKS
       (redirector stop_accepting_passive_host_checks),
     entry ''START_ACCEPTING_PASSIVE_SVC_CHECKS'' CMD_START_ACCEPTING_PASSIVE_SVC_CHECKS
       (redirector start_accepting_passive_service_checks),
     entry ''STOP_ACCEPTING_PASSIVE_SVC_CHECKS'' CMD_STOP_ACCEPTING_PASSIVE_SVC_CHECKS
       (redirector stop_accepting_passive_service_checks),
     entry ''START_OBSESSING_OVER_HOST_CHECKS'' CMD_START_OBSESSING_OVER_HOST_CHECKS
       (redirector start_obsessing_over_host_checks),
     entry ''STOP_OBSESSING_OVER_HOST_CHECKS'' CMD_STOP_OBSESSING_OVER_HOST_CHECKS
       (redirector stop_obsessing_over_host_checks),
     entry ''START_OBSESSING_OVER_SVC_CHECKS'' CMD_START_OBSESSING_OVER_SVC_CHECKS
       (redirector start_obsessing_over_service_checks),
     entry ''STOP_OBSESSING_OVER_SVC_CHECKS'' CMD_STOP_OBSESSING_OVER_SVC_CHECKS
       (redirector stop_obsessing_over_service_checks),
     entry ''ENABLE_FLAP_DETECTION'' CMD_ENABLE_FLAP_DETECTION
       (Handler (\<lambda>ev id t args. enable_flap_detection_routines ev)),
     entry ''DISABLE_FLAP_DETECTION'' CMD_DISABLE_FLAP_DETECTION
       (Handler (\<lambda>ev id t args. disable_flap_detection_routines ev)),
     entry ''CHANGE_GLOBAL_HOST_EVENT_HANDLER'' CMD_CHANGE_GLOBAL_HOST_EVENT_HANDLER
       (redirector_cmd (\<lambda>ev id t. cmd_change_object_char_var id)),
     entry ''CHANGE_GLOBAL_SVC_EVENT_HANDLER'' CMD_CHANGE_GLOBAL_SVC_EVENT_HANDLER
       (redirector_cmd (\<lambda>ev id t. cmd_change_object_char_var id)),
     entry ''ENABLE_SERVICE_FRESHNESS_CHECKS'' CMD_ENABLE_SERVICE_FRESHNESS_CHECKS
       (redirector enable_service_freshness_checks),
     entry ''DISABLE_SERVICE_FRESHNESS_CHECKS'' CMD_DISABLE_SERVICE_FRESHNESS_CHECKS
       (redirector disable_service_freshness_checks),
     entry ''ENABLE_HOST_FRESHNESS_CHECKS'' CMD_ENABLE_HOST_FRESHNESS_CHECKS
       (redirector enable_host_freshness_checks),
     entry ''DISABLE_HOST_FRESHNESS_CHECKS'' CMD_DISABLE_HOST_FRESHNESS_CHECKS
       (redirector disable_host_freshness_checks)]"

definition host_commands :: "(string \<times> command_info) list" where
  "host_commands = [
     entry ''ADD_HOST_COMMENT'' CMD_ADD_HOST_COMMENT
       (redirector_cmd (\<lambda>ev id t. cmd_add_comment id t)),
     entry ''DEL_HOST_COMMENT'' CMD_DEL_HOST_COMMENT
       (redirector_cmd (\<lambda>ev id t. cmd_delete_comment id)),
     entry ''DEL_ALL_HOST_COMMENTS'' CMD_DEL_ALL_HOST_COMMENTS
       (redirector_cmd (\<lambda>ev id t. cmd_delete_all_comments id)),
     entry ''DELAY_HOST_NOTIFICATION'' CMD_DELAY_HOST_NOTIFICATION
       (redirector_cmd (\<lambda>ev id t. cmd_delay_notification id)),
     entry ''ENABLE_HOST_NOTIFICATIONS'' CMD_ENABLE_HOST_NOTIFICATIONS
       (redirector_host (at_once enable_host_notifications)),
     entry ''DISABLE_HOST_NOTIFICATIONS'' CMD_DISABLE_HOST_NOTIFICATIONS
       (redirector_host (at_once disable_host_notifications)),
     entry ''ENABLE_ALL_NOTIFICATIONS_BEYOND_HOST'' CMD_ENABLE_ALL_NOTIFICATIONS_BEYOND_HOST
       (redirector_host (\<lambda>ev h. enable_and_propagate_notifications h False True True)),
     entry ''DISABLE_ALL_NOTIFICATIONS_BEYOND_HOST'' CMD_DISABLE_ALL_NOTIFICATIONS_BEYOND_HOST
       (redirector_host (\<lambda>ev h. disable_and_propagate_notifications h False True True)),
     entry ''ENABLE_HOST_AND_CHILD_NOTIFICATIONS'' CMD_ENABLE_HOST_AND_CHILD_NOTIFICATIONS
       (redirector_host (\<lambda>ev h. enable_and_propagate_notifications h True True False)),
     entry ''DISABLE_HOST_AND_CHILD_NOTIFICATIONS'' CMD_DISABLE_HOST_AND_CHILD_NOTIFICATIONS
       (redirector_host (\<lambda>ev h. disable_and_propagate_notifications h True True False)),
     entry ''ENABLE_HOST_SVC_NOTIFICATIONS'' CMD_ENABLE_HOST_SVC_NOTIFICATIONS
       (redirector_host wrapper_enable_host_svc_notifications),
     entry ''DISABLE_HOST_SVC_NOTIFICATIONS'' CMD_DISABLE_HOST_SVC_NOTIFICATIONS
       (redirector_host wrapper_disable_host_svc_notifications),
     entry ''ENABLE_HOST_SVC_CHECKS'' CMD_ENABLE_HOST_SVC_CHECKS
       (redirector_host wrapper_enable_host_svc_checks),
     entry ''DISABLE_HOST_SVC_CHECKS'' CMD_DISABLE_HOST_SVC_CHECKS
       (redirector_host wrapper_disable_host_svc_checks),
     entry ''ENABLE_PASSIVE_HOST_CHECKS'' CMD_ENABLE_PASSIVE_HOST_CHECKS
       (redirector_host (at_once enable_passive_host_checks)),
     entry ''DISABLE_PASSIVE_HOST_CHECKS'' CMD_DISABLE_PASSIVE_HOST_CHECKS
       (redirector_host (at_once disable_passive_host_checks)),
     entry ''SCHEDULE_HOST_SVC_CHECKS'' CMD_SCHEDULE_HOST_SVC_CHECKS
       (redirector_cmd (\<lambda>ev id t. cmd_schedule_check ev id)),
     entry ''SCHEDULE_FORCED_HOST_SVC_CHECKS'' CMD_SCHEDULE_FORCED_HOST_SVC_CHECKS
       (redirector_cmd (\<lambda>ev id t. cmd_schedule_check ev id)),
     entry ''ACKNOWLEDGE_HOST_PROBLEM'' CMD_ACKNOWLEDGE_HOST_PROBLEM
       (redirector_cmd (\<lambda>ev id t. cmd_acknowledge_problem ev id)),
     entry ''REMOVE_HOST_ACKNOWLEDGEMENT'' CMD_REMOVE_HOST_ACKNOWLEDGEMENT
       (redirector_cmd (\<lambda>ev id t. cmd_remove_acknowledgement id)),
     entry ''ENABLE_HOST_EVENT_HANDLER'' CMD_ENABLE_HOST_EVENT_HANDLER
       (redirector_host (at_once enable_host_event_handler)),
     entry ''DISABLE_HOST_EVENT_HANDLER'' CMD_DISABLE_HOST_EVENT_HANDLER
       (redirector_host (at_once disable_host_event_handler)),
     entry ''ENABLE_HOST_CHECK'' CMD_ENABLE_HOST_CHECK (redirector_host enable_host_checks),
     entry ''DISABLE_HOST_CHECK'' CMD_DISABLE_HOST_CHECK
       (redirector_host (at_once disable_host_checks)),
     entry ''SCHEDULE_HOST_CHECK'' CMD_SCHEDULE_HOST_CHECK
       (redirector_cmd (\<lambda>ev id t. cmd_schedule_check ev id)),
     entry ''SCHEDULE_FORCED_HOST_CHECK'' CMD_SCHEDULE_FORCED_HOST_CHECK
       (redirector_cmd (\<lambda>ev id t. cmd_schedule_check ev id)),
     entry ''SCHEDULE_HOST_DOWNTIME'' CMD_SCHEDULE_HOST_DOWNTIME
       (redirector_cmd (\<lambda>ev id t. cmd_schedule_downtime ev id t)),
     entry ''SCHEDULE_HOST_SVC_DOWNTIME'' CMD_SCHEDULE_HOST_SVC_DOWNTIME
       (redirector_cmd (\<lambda>ev id t. cmd_schedule_downtime ev id t)),
     entry ''DEL_HOST_DOWNTIME'' CMD_DEL_HOST_DOWNTIME
       (redirector_cmd (\<lambda>ev id t. cmd_delete_downtime ev id)),
     entry ''DEL_HOST_DOWNTIME_FULL'' CMD_DEL_HOST_DOWNTIME_FULL
       (redirector_cmd (\<lambda>ev id t. cmd_delete_downtime_full ev id)),
     entry ''DEL_DOWNTIME_BY_HOST_NAME'' CMD_DEL_DOWNTIME_BY_HOST_NAME
       (redirector_cmd (\<lambda>ev id t. cmd_delete_downtime_by_host_name ev)),
     entry ''DEL_DOWNTIME_BY_HOSTGROUP_NAME'' CMD_DEL_DOWNTIME_BY_HOSTGROUP_NAME
       (redirector_cmd (\<lambda>ev id t. cmd_delete_downtime_by_hostgroup_name ev)),
     entry ''DEL_DOWNTIME_BY_START_TIME_COMMENT'' CMD_DEL_DOWNTIME_BY_START_TIME_COMMENT
       (redirector_cmd (\<lambda>ev id t. cmd_delete_downtime_by_start_time_comment ev)),
     entry ''ENABLE_HOST_FLAP_DETECTION'' CMD_ENABLE_HOST_FLAP_DETECTION
       (redirector_host enable_host_flap_detection),
     entry ''DISABLE_HOST_FLAP_DETECTION'' CMD_DISABLE_HOST_FLAP_DETECTION
       (redirector_host disable_host_flap_detection),
     entry ''START_OBSESSING_OVER_HOST'' CMD_START_OBSESSING_OVER_HOST
       (redirector_host (at_once start_obsessing_over_host)),
     entry ''STOP_OBSESSING_OVER_HOST'' CMD_STOP_OBSESSING_OVER_HOST
       (redirector_host (at_once stop_obsessing_over_host)),
     entry ''CHANGE_HOST_EVENT_HANDLER'' CMD_CHANGE_HOST_EVENT_HANDLER
       (redirector_cmd (\<lambda>ev id t. cmd_change_object_char_var id)),
     entry ''CHANGE_HOST_CHECK_COMMAND'' CMD_CHANGE_HOST_CHECK_COMMAND
       (redirector_cmd (\<lambda>ev id t. cmd_change_object_char_var id)),
     entry ''CHANGE_NORMAL_HOST_CHECK_INTERVAL'' CMD_CHANGE_NORMAL_HOST_CHECK_INTERVAL
       (redirector_cmd (\<lambda>ev id t. cmd_change_object_int_var ev id)),
     entry ''CHANGE_RETRY_HOST_CHECK_INTERVAL'' CMD_CHANGE_RETRY_HOST_CHECK_INTERVAL
       (redirector_cmd (\<lambda>ev id t. cmd_change_object_int_var ev id)),
     entry ''CHANGE_MAX_HOST_CHECK_ATTEMPTS'' CMD_CHANGE_MAX_HOST_CHECK_ATTEMPTS
       (redirector_cmd (\<lambda>ev id t. cmd_change_object_int_var ev id)),
     entry ''SCHEDULE_AND_PROPAGATE_TRIGGERED_HOST_DOWNTIME'' CMD_SCHEDULE_AND_PROPAGATE_TRIGGERED_HOST_DOWNTIME
       (redirector_cmd (\<lambda>ev id t. cmd_schedule_downtime ev id t)),
     entry ''SCHEDULE_AND_PROPAGATE_HOST_DOWNTIME'' CMD_SCHEDULE_AND_PROPAGATE_HOST_DOWNTIME
       (redirector_cmd (\<lambda>ev id t. cmd_schedule_downtime ev id t)),
     entry ''SET_HOST_NOTIFICATION_NUMBER'' CMD_SET_HOST_NOTIFICATION_NUMBER
       (redirector_host_args wrapper_set_host_notification_number),
     entry ''CHANGE_HOST_CHECK_TIMEPERIOD'' CMD_CHANGE_HOST_CHECK_TIMEPERIOD
       (redirector_cmd (\<lambda>ev id t. cmd_change_object_char_var id)),
     entry ''CHANGE_CUSTOM_HOST_VAR'' CMD_CHANGE_CUSTOM_HOST_VAR
       (redirector_cmd (\<lambda>ev id t. cmd_change_object_custom_var id)),
     entry ''SEND_CUSTOM_HOST_NOTIFICATION'' CMD_SEND_CUSTOM_HOST_NOTIFICATION
       (redirector_host_args wrapper_send_custom_host_notification),
     entry ''CHANGE_HOST_NOTIFICATION_TIMEPERIOD'' CMD_CHANGE_HOST_NOTIFICATION_TIMEPERIOD
       (redirector_cmd (\<lambda>ev id t. cmd_change_object_char_var id)),
     entry ''CHANGE_HOST_MODATTR'' CMD_CHANGE_HOST_MODATTR
       (redirector_cmd (\<lambda>ev id t. cmd_change_object_int_var ev id))]"

definition hostgroup_commands :: "(string \<times> command_info) list" where
  "hostgroup_commands = [
     entry ''ENABLE_HOSTGROUP_HOST_NOTIFICATIONS'' CMD_ENABLE_HOSTGROUP_HOST_NOTIFICATIONS
       (redirector_hostgroup (at_once enable_host_notifications)),
     entry ''DISABLE_HOSTGROUP_HOST_NOTIFICATIONS'' CMD_DISABLE_HOSTGROUP_HOST_NOTIFICATIONS
       (redirector_hostgroup (at_once disable_host_notifications)),
     entry ''ENABLE_HOSTGROUP_SVC_NOTIFICATIONS'' CMD_ENABLE_HOSTGROUP_SVC_NOTIFICATIONS
       (redirector_hostgroup wrapper_enable_service_notifications),
     entry ''DISABLE_HOSTGROUP_SVC_NOTIFICATIONS'' CMD_DISABLE_HOSTGROUP_SVC_NOTIFICATIONS
       (redirector_hostgroup wrapper_disable_service_notifications),
     entry ''ENABLE_HOSTGROUP_HOST_CHECKS'' CMD_ENABLE_HOSTGROUP_HOST_CHECKS
       (redirector_hostgroup enable_host_checks),
     entry ''DISABLE_HOSTGROUP_HOST_CHECKS'' CMD_DISABLE_HOSTGROUP_HOST_CHECKS
       (redirector_hostgroup (at_once disable_host_checks)),
     entry ''ENABLE_HOSTGROUP_PASSIVE_HOST_CHECKS'' CMD_ENABLE_HOSTGROUP_PASSIVE_HOST_CHECKS
       (redirector_hostgroup (at_once enable_passive_host_checks)),
     entry ''DISABLE_HOSTGROUP_PASSIVE_HOST_CHECKS'' CMD_DISABLE_HOSTGROUP_PASSIVE_HOST_CHECKS
       (redirector_hostgroup (at_once disable_passive_host_checks)),
     entry ''ENABLE_HOSTGROUP_SVC_CHECKS'' CMD_ENABLE_HOSTGROUP_SVC_CHECKS
       (redirector_hostgroup wrapper_enable_service_checks),
     entry ''DISABLE_HOSTGROUP_SVC_CHECKS'' CMD_DISABLE_HOSTGROUP_SVC_CHECKS
       (redirector_hostgroup wrapper_disable_service_checks),
     entry ''ENABLE_HOSTGROUP_PASSIVE_SVC_CHECKS'' CMD_ENABLE_HOSTGROUP_PASSIVE_SVC_CHECKS
       (redirector_hostgroup wrapper_enable_passive_service_checks),
     entry ''DISABLE_HOSTGROUP_PASSIVE_SVC_CHECKS'' CMD_DISABLE_HOSTGROUP_PASSIVE_SVC_CHECKS
       (redirector_hostgroup wrapper_disable_passive_service_checks),
     entry ''SCHEDULE_HOSTGROUP_HOST_DOWNTIME'' CMD_SCHEDULE_HOSTGROUP_HOST_DOWNTIME
       (redirector_cmd (\<lambda>ev id t. cmd_schedule_downtime ev id t)),
     entry ''SCHEDULE_HOSTGROUP_SVC_DOWNTIME'' CMD_SCHEDULE_HOSTGROUP_SVC_DOWNTIME
       (redirector_cmd (\<lambda>ev id t. cmd_schedule_downtime ev id t))]"

definition service_commands :: "(string \<times> command_info) list" where
  "service_commands = [
     entry ''ADD_SVC_COMMENT'' CMD_ADD_SVC_COMMENT
       (redirector_cmd (\<lambda>ev id t. cmd_add_comment id t)),
     entry ''DEL_SVC_COMMENT'' CMD_DEL_SVC_COMMENT
       (redirector_cmd (\<lambda>ev id t. cmd_delete_comment id)),
     entry ''DEL_ALL_SVC_COMMENTS'' CMD_DEL_ALL_SVC_COMMENTS
       (redirector_cmd (\<lambda>ev id t. cmd_delete_all_comments id)),
     entry ''SCHEDULE_SVC_CHECK'' CMD_SCHEDULE_SVC_CHECK
       (redirector_cmd (\<lambda>ev id t. cmd_schedule_check ev id)),
     entry ''SCHEDULE_FORCED_SVC_CHECK'' CMD_SCHEDULE_FORCED_SVC_CHECK
       (redirector_cmd (\<lambda>ev id t. cmd_schedule_check ev id)),
     entry ''ENABLE_SVC_CHECK'' CMD_ENABLE_SVC_CHECK (redirector_service enable_service_checks),
     entry ''DISABLE_SVC_CHECK'' CMD_DISABLE_SVC_CHECK
       (redirector_service (at_once disable_service_checks)),
     entry ''ENABLE_PASSIVE_SVC_CHECKS'' CMD_ENABLE_PASSIVE_SVC_CHECKS
       (redirector_service (at_once enable_passive_service_checks)),
     entry ''DISABLE_PASSIVE_SVC_CHECKS'' CMD_DISABLE_PASSIVE_SVC_CHECKS
       (redirector_service (at_once disable_passive_service_checks)),
     entry ''DELAY_SVC_NOTIFICATION'' CMD_DELAY_SVC_NOTIFICATION
       (redirector_cmd (\<lambda>ev id t. cmd_delay_notification id)),
     entry ''ENABLE_SVC_NOTIFICATIONS'' CMD_ENABLE_SVC_NOTIFICATIONS
       (redirector_service (at_once enable_service_notifications)),
     entry ''DISABLE_SVC_NOTIFICATIONS'' CMD_DISABLE_SVC_NOTIFICATIONS
       (redirector_service (at_once disable_service_notifications)),
     safe_entry ''PROCESS_SERVICE_CHECK_RESULT'' CMD_PROCESS_SERVICE_CHECK_RESULT
       (redirector_cmd (\<lambda>ev id t. cmd_process_service_check_result ev t)),
     safe_entry ''PROCESS_HOST_CHECK_RESULT'' CMD_PROCESS_HOST_CHECK_RESULT
       (redirector_cmd (\<lambda>ev id t. cmd_process_host_check_result ev t)),
     entry ''ENABLE_SVC_EVENT_HANDLER'' CMD_ENABLE_SVC_EVENT_HANDLER
       (redirector_service (at_once enable_service_event_handler)),
     entry ''DISABLE_SVC_EVENT_HANDLER'' CMD_DISABLE_SVC_EVENT_HANDLER
       (redirector_service (at_once disable_service_event_handler)),
     entry ''ENABLE_SVC_FLAP_DETECTION'' CMD_ENABLE_SVC_FLAP_DETECTION
       (redirector_service enable_service_flap_detection),
     entry ''DISABLE_SVC_FLAP_DETECTION'' CMD_DISABLE_SVC_FLAP_DETECTION
       (redirector_service disable_service_flap_detection),
     entry ''SCHEDULE_SVC_DOWNTIME'' CMD_SCHEDULE_SVC_DOWNTIME
       (redirector_cmd (\<lambda>ev id t. cmd_schedule_downtime ev id t)),
     entry ''DEL_SVC_DOWNTIME'' CMD_DEL_SVC_DOWNTIME
       (redirector_cmd (\<lambda>ev id t. cmd_delete_downtime ev id)),
     entry ''DEL_SVC_DOWNTIME_FULL'' CMD_DEL_SVC_DOWNTIME_FULL
       (redirector_cmd (\<lambda>ev id t. cmd_delete_downtime_full ev id)),
     entry ''ACKNOWLEDGE_SVC_PROBLEM'' CMD_ACKNOWLEDGE_SVC_PROBLEM
       (redirector_cmd (\<lambda>ev id t. cmd_acknowledge_problem ev id)),
     entry ''REMOVE_SVC_ACKNOWLEDGEMENT'' CMD_REMOVE_SVC_ACKNOWLEDGEMENT
       (redirector_cmd (\<lambda>ev id t. cmd_remove_acknowledgement id)),
     entry ''START_OBSESSING_OVER_SVC'' CMD_START_OBSESSING_OVER_SVC
       (redirector_service (at_once start_obsessing_over_service)),
     entry ''STOP_OBSESSING_OVER_SVC'' CMD_STOP_OBSESSING_OVER_SVC
       (redirector_service (at_once stop_obsessing_over_service)),
     entry ''CHANGE_SVC_EVENT_HANDLER'' CMD_CHANGE_SVC_EVENT_HANDLER
       (redirector_cmd (\<lambda>ev id t. cmd_change_object_char_var id)),
     entry ''CHANGE_SVC_CHECK_COMMAND'' CMD_CHANGE_SVC_CHECK_COMMAND
       (redirector_cmd (\<lambda>ev id t. cmd_change_object_char_var id)),
     entry ''CHANGE_NORMAL_SVC_CHECK_INTERVAL'' CMD_CHANGE_NORMAL_SVC_CHECK_INTERVAL
       (redirector_cmd (\<lambda>ev id t. cmd_change_object_int_var ev id)),
     entry ''CHANGE_RETRY_SVC_CHECK_INTERVAL'' CMD_CHANGE_RETRY_SVC_CHECK_INTERVAL
       (redirector_cmd (\<lambda>ev id t. cmd_change_object_int_var ev id)),
     entry ''CHANGE_MAX_SVC_CHECK_ATTEMPTS'' CMD_CHANGE_MAX_SVC_CHECK_ATTEMPTS
       (redirector_cmd (\<lambda>ev id t. cmd_change_object_int_var ev id)),
     entry ''SET_SVC_NOTIFICATION_NUMBER'' CMD_SET_SVC_NOTIFICATION_NUMBER
       (redirector_service_args wrapper_set_service_notification_number),
     entry ''CHANGE_SVC_CHECK_TIMEPERIOD'' CMD_CHANGE_SVC_CHECK_TIMEPERIOD
       (redirector_cmd (\<lambda>ev id t. cmd_change_object_char_var id)),
     entry ''CHANGE_CUSTOM_SVC_VAR'' CMD_CHANGE_CUSTOM_SVC_VAR
       (redirector_cmd (\<lambda>ev id t. cmd_change_object_custom_var id)),
     entry ''CHANGE_CUSTOM_CONTACT_VAR'' CMD_CHANGE_CUSTOM_CONTACT_VAR
       (redirector_cmd (\<lambda>ev id t. cmd_change_object_custom_var id)),
     entry ''SEND_CUSTOM_SVC_NOTIFICATION'' CMD_SEND_CUSTOM_SVC_NOTIFICATION
       (redirector_service_args wrapper_send_custom_service_notification),
     entry ''CHANGE_SVC_NOTIFICATION_TIMEPERIOD'' CMD_CHANGE_SVC_NOTIFICATION_TIMEPERIOD
       (redirector_cmd (\<lambda>ev id t. cmd_change_object_char_var id)),
     entry ''CHANGE_SVC_MODATTR'' CMD_CHANGE_SVC_MODATTR
       (redirector_cmd (\<lambda>ev id t. cmd_change_object_int_var ev id))]"

definition servicegroup_commands :: "(string \<times> command_info) list" where
  "servicegroup_commands = [
     entry ''ENABLE_SERVICEGROUP_HOST_NOTIFICATIONS'' CMD_ENABLE_SERVICEGROUP_HOST_NOTIFICATIONS
       (redirector_servicegroup_hosts (at_once enable_host_notifications)),
     entry ''DISABLE_SERVICEGROUP_HOST_NOTIFICATIONS'' CMD_DISABLE_SERVICEGROUP_HOST_NOTIFICATIONS
       (redirector_servicegroup_hosts (at_once disable_host_notifications)),
     entry ''ENABLE_SERVICEGROUP_SVC_NOTIFICATIONS'' CMD_ENABLE_SERVICEGROUP_SVC_NOTIFICATIONS
       (redirector_servicegroup_services (at_once enable_service_notifications)),
     entry ''DISABLE_SERVICEGROUP_SVC_NOTIFICATIONS'' CMD_DISABLE_SERVICEGROUP_SVC_NOTIFICATIONS
       (redirector_servicegroup_services (at_once disable_service_notifications)),
     entry ''ENABLE_SERVICEGROUP_HOST_CHECKS'' CMD_ENABLE_SERVICEGROUP_HOST_CHECKS
       (redirector_servicegroup_hosts enable_host_checks),
     entry ''DISABLE_SERVICEGROUP_HOST_CHECKS'' CMD_DISABLE_SERVICEGROUP_HOST_CHECKS
       (redirector_servicegroup_hosts (at_once disable_host_checks)),
     entry ''ENABLE_SERVICEGROUP_PASSIVE_HOST_CHECKS'' CMD_ENABLE_SERVICEGROUP_PASSIVE_HOST_CHECKS
       (redirector_servicegroup_hosts (at_once enable_passive_host_checks)),
     entry ''DISABLE_SERVICEGROUP_PASSIVE_HOST_CHECKS'' CMD_DISABLE_SERVICEGROUP_PASSIVE_HOST_CHECKS
       (redirector_servicegroup_hosts (at_once disable_passive_host_checks)),
     entry ''ENABLE_SERVICEGROUP_SVC_CHECKS'' CMD_ENABLE_SERVICEGROUP_SVC_CHECKS
       (redirector_servicegroup_services enable_service_checks),
     entry ''DISABLE_SERVICEGROUP_SVC_CHECKS'' CMD_DISABLE_SERVICEGROUP_SVC_CHECKS
       (redirector_servicegroup_services (at_once disable_service_checks)),
     entry ''ENABLE_SERVICEGROUP_PASSIVE_SVC_CHECKS'' CMD_ENABLE_SERVICEGROUP_PASSIVE_SVC_CHECKS
       (redirector_servicegroup_services (at_once enable_passive_service_checks)),
     entry ''DISABLE_SERVICEGROUP_PASSIVE_SVC_CHECKS'' CMD_DISABLE_SERVICEGROUP_PASSIVE_SVC_CHECKS
       (redirector_servicegroup_services (at_once disable_passive_service_checks)),
     entry ''SCHEDULE_SERVICEGROUP_HOST_DOWNTIME'' CMD_SCHEDULE_SERVICEGROUP_HOST_DOWNTIME
       (redirector_cmd (\<lambda>ev id t. cmd_schedule_downtime ev id t)),
     entry ''SCHEDULE_SERVICEGROUP_SVC_DOWNTIME'' CMD_SCHEDULE_SERVICEGROUP_SVC_DOWNTIME
       (redirector_cmd (\<lambda>ev id t. cmd_schedule_downtime ev id t))]"

definition contact_commands :: "(string \<times> command_info) list" where
  "contact_commands = [
     entry ''ENABLE_CONTACT_HOST_NOTIFICATIONS'' CMD_ENABLE_CONTACT_HOST_NOTIFICATIONS
       (redirector_contact (at_once enable_contact_host_notifications)),
     entry ''DISABLE_CONTACT_HOST_NOTIFICATIONS'' CMD_DISABLE_CONTACT_HOST_NOTIFICATIONS
       (redirector_contact (at_once disable_contact_host_notifications)),
     entry ''ENABLE_CONTACT_SVC_NOTIFICATIONS'' CMD_ENABLE_CONTACT_SVC_NOTIFICATIONS
       (redirector_contact (at_once enable_contact_service_notifications)),
     entry ''DISABLE_CONTACT_SVC_NOTIFICATIONS'' CMD_DISABLE_CONTACT_SVC_NOTIFICATIONS
       (redirector_contact (at_once disable_contact_service_notifications)),
     entry ''CHANGE_CONTACT_HOST_NOTIFICATION_TIMEPERIOD'' CMD_CHANGE_CONTACT_HOST_NOTIFICATION_TIMEPERIOD
       (redirector_cmd (\<lambda>ev id t. cmd_change_object_char_var id)),
     entry ''CHANGE_CONTACT_SVC_NOTIFICATION_TIMEPERIOD'' CMD_CHANGE_CONTACT_SVC_NOTIFICATION_TIMEPERIOD
       (redirector_cmd (\<lambda>ev id t. cmd_change_object_char_var id)),
     entry ''CHANGE_CONTACT_MODATTR'' CMD_CHANGE_CONTACT_MODATTR
       (redirector_cmd (\<lambda>ev id t. cmd_change_object_int_var ev id)),
     entry ''CHANGE_CONTACT_MODHATTR'' CMD_CHANGE_CONTACT_MODHATTR
       (redirector_cmd (\<lambda>ev id t. cmd_change_object_int_var ev id)),
     entry ''CHANGE_CONTACT_MODSATTR'' CMD_CHANGE_CONTACT_MODSATTR
       (redirector_cmd (\<lambda>ev id t. cmd_change_object_int_var ev id))]"

definition contactgroup_commands :: "(string \<times> command_info) list" where
  "contactgroup_commands = [
     entry ''ENABLE_CONTACTGROUP_HOST_NOTIFICATIONS'' CMD_ENABLE_CONTACTGROUP_HOST_NOTIFICATIONS
       (redirector_contactgroup (at_once enable_contact_host_notifications)),
     entry ''DISABLE_CONTACTGROUP_HOST_NOTIFICATIONS'' CMD_DISABLE_CONTACTGROUP_HOST_NOTIFICATIONS
       (redirector_contactgroup (at_once disable_contact_host_notifications)),
     entry ''ENABLE_CONTACTGROUP_SVC_NOTIFICATIONS'' CMD_ENABLE_CONTACTGROUP_SVC_NOTIFICATIONS
       (redirector_contactgroup (at_once enable_contact_service_notifications)),
     entry ''DISABLE_CONTACTGROUP_SVC_NOTIFICATIONS'' CMD_DISABLE_CONTACTGROUP_SVC_NOTIFICATIONS
       (redirector_contactgroup (at_once disable_contact_service_notifications))]"

definition file_commands :: "(string \<times> command_info) list" where
  "file_commands = [
     entry ''PROCESS_FILE'' CMD_PROCESS_FILE Process_file]"

definition lst_command :: "(string \<times> command_info) list" where
  "lst_command = program_commands @ host_commands @ hostgroup_commands @ service_commands @ servicegroup_commands @ contact_commands @ contactgroup_commands @ file_commands"
definition command_named :: "string \<Rightarrow> command_info option" where
  "command_named = map_of lst_command"

section \<open>Processing\<close>

text \<open>
  A line is trimmed; it is a command if it looks like \<open>[\<close>ten characters\<open>] \<close> and then at least
  two characters, the name up to the first semicolon and the arguments after it.
\<close>

definition trim :: "string \<Rightarrow> string" where
  "trim cmd = rev (dropWhile is_space (rev (dropWhile is_space cmd)))"

definition split_command :: "string \<Rightarrow> (int \<times> string \<times> string) option" where
  "split_command cmd =
     (let c = trim cmd
      in if length c < 15 \<or> c ! 0 \<noteq> CHR ''['' \<or> c ! 11 \<noteq> CHR '']'' \<or> c ! 12 \<noteq> CHR '' '' then None
         else let (command_name, args) = cut_at (CHR '';'') (drop 13 c)
              in Some (time_of_text (tl c), command_name, case args of None \<Rightarrow> [] | Some a \<Rightarrow> a))"

text \<open>
  An unknown name is refused unless it starts with an underscore: such a command is for the
  modules alone.
\<close>

definition known_or_custom :: "string \<Rightarrow> bool" where
  "known_or_custom name \<longleftrightarrow> command_named name \<noteq> None \<or> take 1 name = ''_''"

definition id_of_command :: "string \<Rightarrow> nat" where
  "id_of_command name = (case command_named name of None \<Rightarrow> CMD_CUSTOM_COMMAND | Some i \<Rightarrow> cmd_id i)"

definition accept_command :: "string \<Rightarrow> (int \<times> string \<times> string) option" where
  "accept_command cmd =
     Option.bind (split_command cmd) (\<lambda>c. if known_or_custom (fst (snd c)) then Some c else None)"

definition broker_external_command :: "bool \<Rightarrow> int \<times> string \<times> string \<Rightarrow> engine \<Rightarrow> engine" where
  "broker_external_command start c w =
     emit (Broker_external_command start (id_of_command (fst (snd c))) (fst c) (fst (snd c)) (snd (snd c))) w"

definition run_handler :: "env \<Rightarrow> int \<times> string \<times> string \<Rightarrow> engine \<Rightarrow> engine option" where
  "run_handler ev c w =
     (case command_named (fst (snd c)) of
        None \<Rightarrow> Some w
      | Some i \<Rightarrow>
          (case func i of
             Handler f \<Rightarrow> f ev (cmd_id i) (fst c) (snd (snd c)) w
           | Process_file \<Rightarrow> Some w))"

text \<open>The file a command names, if it is the command for it: its lines and whether it goes.\<close>

definition command_file :: "env \<Rightarrow> int \<times> string \<times> string \<Rightarrow> (string \<times> bool \<times> string list) option" where
  "command_file ev c =
     (case command_named (fst (snd c)) of
        None \<Rightarrow> None
      | Some i \<Rightarrow>
          (case func i of
             Handler f \<Rightarrow> None
           | Process_file \<Rightarrow> do {
               (fname, r) \<leftarrow> tok (snd (snd c));
               (delete_file, r) \<leftarrow> rest_of_line r;
               ls \<leftarrow> read_file ev fname;
               Some (fname, atoi delete_file \<noteq> 0, ls)
             }))"

text \<open>Command lines one after the other; a file may name itself, so this may not end.\<close>

partial_function (option) process_commands :: "env \<Rightarrow> string list \<Rightarrow> engine \<Rightarrow> engine option" where
  "process_commands ev cmds w =
     (case cmds of
        [] \<Rightarrow> Some w
      | cmd # cs \<Rightarrow>
          (case accept_command cmd of
             None \<Rightarrow> process_commands ev cs w
           | Some c \<Rightarrow>
               Option.bind
                 (case command_file ev c of
                    None \<Rightarrow> run_handler ev c (broker_external_command True c (emit External_command_stats w))
                  | Some f \<Rightarrow>
                      Option.bind (process_commands ev (snd (snd f))
                          (broker_external_command True c (emit External_command_stats w)))
                        (\<lambda>w1. Some (if fst (snd f) then emit (Remove_file (fst f)) w1 else w1)))
                 (\<lambda>w2. process_commands ev cs (broker_external_command False c w2))))"

declare process_commands.simps [code]

definition execute :: "env \<Rightarrow> string \<Rightarrow> engine \<Rightarrow> (bool \<times> engine) option" where
  "execute ev cmd w = map_option (Pair (accept_command cmd \<noteq> None)) (process_commands ev [cmd] w)"

definition is_thread_safe :: "string \<Rightarrow> bool" where
  "is_thread_safe cmd =
     (let short_cmd = fst (cut_at (CHR '';'') (dropWhile (\<lambda>c. c \<in> set ''[]0123456789 '') cmd))
      in case command_named short_cmd of None \<Rightarrow> False | Some i \<Rightarrow> thread_safe i)"

end
