(* ===== verification/Command_Frame.thy ===== *)
theory Command_Frame
  imports Command_Processing Event_Loop_Facts
begin

text \<open>
  External commands, seen through a relation between engines that elementary steps keep: the
  locale \<open>command_frame\<close> extends \<open>service_frame\<close> with what commands do besides, and every
  handler of the table but the acknowledgements keeps the relation, whatever its arguments. The
  instance is \<open>queue_step\<close>: commands leave the event lists well formed. Acknowledgements are
  apart: a second one queues a second expiry event for its object, and the index holds one.
\<close>

lemma or_errorE:
  "or_error w r = Some x \<Longrightarrow> (x = (ERROR, w) \<Longrightarrow> P) \<Longrightarrow> (r = Some (Some x) \<Longrightarrow> P) \<Longrightarrow> P"
  by (cases r) (simp_all add: or_error_def)

definition handler_keeps :: "(engine \<Rightarrow> engine \<Rightarrow> bool) \<Rightarrow> handler \<Rightarrow> bool" where
  "handler_keeps R h \<longleftrightarrow>
     (case h of
        Handler f \<Rightarrow> \<forall>ev i t args w w'. f ev i t args w = Some w' \<longrightarrow> R w w'
      | Process_file \<Rightarrow> True)"

locale command_frame = service_frame R for R :: "engine \<Rightarrow> engine \<Rightarrow> bool" +
  assumes frame_contact: "R w (upd_contact c f w)"
    and frame_program: "R w (w\<lparr>cfg := k, modified_host_process_attributes := i,
      modified_service_process_attributes := j, last_command_check := t, last_command_status_update := u\<rparr>)"
    and frame_removed: "find_event_from P (list_head (evs w) High) (evs w) = Some (Some e) \<Longrightarrow>
      remove_event (Some e) High (evs w) = Some s \<Longrightarrow> R w (w\<lparr>evs := s\<rparr>)"
    and frame_new_ids: "R w (w\<lparr>next_downtime_id := n\<rparr>)"
begin

lemma frame_program_fields: "R w (w\<lparr>modified_host_process_attributes := i,
    modified_service_process_attributes := j, cfg := k\<rparr>)"
proof -
  have "w\<lparr>modified_host_process_attributes := i, modified_service_process_attributes := j, cfg := k\<rparr> =
    w\<lparr>cfg := k, modified_host_process_attributes := i, modified_service_process_attributes := j,
      last_command_check := last_command_check w, last_command_status_update := last_command_status_update w\<rparr>"
    by simp
  then show ?thesis using frame_program by metis
qed

lemmas command_basic [simp] = frame_contact [THEN [2] frame_trans] frame_program_fields [THEN [2] frame_trans]
  frame_new_ids [THEN [2] frame_trans]

subsection \<open>Switches\<close>

lemma keeps_switches [simp]:
  "R w (switch_service get put attr b s w)" "R w (switch_host get' put' attr b h w)"
  "R w (switch_program get'' put'' hattr sattr b w)" "R w (switch_contact_host b c w)"
  "R w (switch_contact_service b c w)"
  by (simp_all add: switch_service_def switch_host_def switch_program_def switch_contact_host_def
      switch_contact_service_def contact_changed_def Let_def)

lemmas switch_defs = enable_service_notifications_def disable_service_notifications_def
  disable_service_checks_def enable_passive_service_checks_def disable_passive_service_checks_def
  enable_service_event_handler_def disable_service_event_handler_def start_obsessing_over_service_def
  stop_obsessing_over_service_def enable_host_notifications_def disable_host_notifications_def
  disable_host_checks_def enable_passive_host_checks_def disable_passive_host_checks_def
  enable_host_event_handler_def disable_host_event_handler_def start_obsessing_over_host_def
  stop_obsessing_over_host_def enable_contact_host_notifications_def disable_contact_host_notifications_def
  enable_contact_service_notifications_def disable_contact_service_notifications_def
  switch_notifications_def enable_all_notifications_def disable_all_notifications_def
  start_executing_service_checks_def stop_executing_service_checks_def
  start_accepting_passive_service_checks_def stop_accepting_passive_service_checks_def
  start_executing_host_checks_def stop_executing_host_checks_def start_accepting_passive_host_checks_def
  stop_accepting_passive_host_checks_def start_using_event_handlers_def stop_using_event_handlers_def
  start_obsessing_over_service_checks_def stop_obsessing_over_service_checks_def
  start_obsessing_over_host_checks_def stop_obsessing_over_host_checks_def
  enable_service_freshness_checks_def disable_service_freshness_checks_def
  enable_host_freshness_checks_def disable_host_freshness_checks_def enable_performance_data_def
  disable_performance_data_def

text \<open>What a relation of a later call is used for: the calls before it, and the calls after it.\<close>

lemmas then_kept = frame_trans [rotated]
lemmas emit_kept = frame_emit [THEN [2] frame_trans]

lemma keeps_enable_checks:
  "enable_service_checks ev s w = Some w' \<Longrightarrow> R w w'" "enable_host_checks ev h w = Some w' \<Longrightarrow> R w w'"
  by (auto simp: enable_service_checks_def enable_host_checks_def Let_def simp del: host_basic split: if_splits
      dest!: keeps_schedule_service keeps_schedule_host intro!: emit_kept frame_any_svc frame_any_host elim!: then_kept)

lemma keeps_set_number [simp]:
  "R w (set_service_notification_number s n w)" "R w (set_host_notification_number h n w)"
  by (simp_all add: set_service_notification_number_def set_host_notification_number_def)

lemma keeps_remove_flapping [simp]:
  "R w w1 \<Longrightarrow> R w (remove_service_flapping_comment s w1)" "R w w1 \<Longrightarrow> R w (remove_host_flapping_comment h w1)"
  by (auto simp: remove_service_flapping_comment_def remove_host_flapping_comment_def Let_def
      intro!: frame_any_svc [THEN [2] frame_trans] frame_any_host [THEN [2] frame_trans]
      intro: frame_trans [OF _ keeps_delete_comment])

lemma keeps_flap_disabled:
  "handle_service_flap_detection_disabled ev s w = Some w' \<Longrightarrow> R w w'"
  "handle_host_flap_detection_disabled ev h w = Some w' \<Longrightarrow> R w w'"
  by (auto simp: handle_service_flap_detection_disabled_def handle_host_flap_detection_disabled_def Let_def
      split: if_splits dest!: keeps_service_flapping_over keeps_host_flapping_over
      intro!: emit_kept elim!: then_kept)

lemma keeps_flap_switched:
  "enable_service_flap_detection ev s w = Some w' \<Longrightarrow> R w w'"
  "disable_service_flap_detection ev s w = Some w' \<Longrightarrow> R w w'"
  "enable_host_flap_detection ev h w = Some w' \<Longrightarrow> R w w'"
  "disable_host_flap_detection ev h w = Some w' \<Longrightarrow> R w w'"
  by (auto simp: enable_service_flap_detection_def disable_service_flap_detection_def
      enable_host_flap_detection_def disable_host_flap_detection_def Let_def split: if_splits
      dest!: keeps_check_service_flapping keeps_check_host_flapping keeps_flap_disabled
      intro!: emit_kept elim!: then_kept)

lemma keeps_set_flap_detection [simp]: "R w (set_flap_detection b w)"
  by (simp add: set_flap_detection_def Let_def)

lemma keeps_flap_routines:
  assumes "enable_flap_detection_routines ev w = Some w' \<or> disable_flap_detection_routines ev w = Some w'"
  shows "R w w'"
proof -
  have hs: "R w1 w2" if "for_each (\<lambda>h. check_for_host_flapping ev h False False True) hs w1 = Some w2 \<or>
      for_each (handle_host_flap_detection_disabled ev) hs w1 = Some w2" for hs w1 w2
    using that by (auto elim!: keeps_for_each keeps_check_host_flapping keeps_flap_disabled)
  have ss: "R w1 w2" if "for_each (\<lambda>s. check_for_service_flapping ev s False True) ss w1 = Some w2 \<or>
      for_each (handle_service_flap_detection_disabled ev) ss w1 = Some w2" for ss w1 w2
    using that by (auto elim!: keeps_for_each keeps_check_service_flapping keeps_flap_disabled)
  show ?thesis
    using assms unfolding enable_flap_detection_routines_def disable_flap_detection_routines_def Let_def
    by (auto split: if_splits elim!: bind_SomeE dest!: hs [OF disjI1] hs [OF disjI2] ss [OF disjI1] ss [OF disjI2]
        intro: frame_trans [OF frame_trans [OF keeps_set_flap_detection]])
qed

subsection \<open>Walks\<close>

lemma keeps_each_pointer:
  assumes "each_pointer f xs w = Some w'" "\<And>x w w'. f x w = Some w' \<Longrightarrow> R w w'"
  shows "R w w'"
  using keeps_for_each assms unfolding each_pointer_def by blast

lemma keeps_each_member: "(\<And>x w. R w (f x w)) \<Longrightarrow> R w (each_member f xs w)"
  unfolding each_member_def
  by (induction xs arbitrary: w) (auto split: option.split intro: frame_trans)

lemma keeps_walk:
  assumes "walk_children visit children w = Some w'" "\<And>x w w'. visit x w = Some w' \<Longrightarrow> R w w'"
  shows "R w w'"
proof (rule walk_children.raw_induct [OF _ assms(1), of "\<lambda>v c w w'. (\<forall>x w w'. v x w = Some w' \<longrightarrow> R w w') \<longrightarrow> R w w'",
      THEN mp], goal_cases)
  case (1 f v c w r)
  then show ?case
    by (auto split: list.splits option.splits bind_splits dest!: 1(1)) (blast intro: frame_trans)+
next
  case 2
  then show ?case using assms(2) by blast
qed

lemma keeps_switch_child:
  "(\<And>x w. R w (fh x w)) \<Longrightarrow> (\<And>x w. R w (fs x w)) \<Longrightarrow> R w (switch_child fh fs a b c w)"
  by (auto simp: switch_child_def Let_def intro: keeps_each_member frame_trans [OF _ keeps_each_member])

lemma keeps_propagated:
  "enable_and_propagate_notifications h a b c w = Some w' \<Longrightarrow> R w w'"
  "disable_and_propagate_notifications h a b c w = Some w' \<Longrightarrow> R w w'"
  by (auto simp: enable_and_propagate_notifications_def disable_and_propagate_notifications_def switch_defs
      Let_def split: if_splits dest!: keeps_walk intro: keeps_switch_child frame_trans [OF keeps_switches(2)])

subsection \<open>Comments and downtimes\<close>

lemma keeps_add_new_comment:
  "add_new_comment ty en h d t author data persistent source False et w = Some (n, w') \<Longrightarrow> R w w'"
  by (auto simp: add_new_comment_def Let_def split: prod.splits if_splits dest: keeps_add_comment)

lemma keeps_add_new_downtime: "R w (snd (add_new_downtime d w))"
proof -
  have add: "R w1 (snd (add_downtime d w1))" for d w1
  proof -
    have "R w1 (w1\<lparr>next_addr := Suc (next_addr w1), downtime_at := da, downtime_list := dl\<rparr>)" for dl da
    proof -
      have "w1\<lparr>next_addr := Suc (next_addr w1), downtime_at := da, downtime_list := dl\<rparr> =
          w1\<lparr>downtime_list := dl, downtime_at := da, next_addr := next_addr w1 + 1, out := out w1\<rparr>" by simp
      then show ?thesis using frame_downtimes by metis
    qed
    then show ?thesis
      by (auto simp: add_downtime_def Let_def broker_downtime_data_def intro!: emit_kept)
  qed
  have "R w (snd (xdddefault_add_new_downtime d w))"
    unfolding xdddefault_add_new_downtime_def Let_def snd_conv
    by (intro frame_new_ids [THEN [2] frame_trans] frame_trans [OF frame_new_ids add])
  then show ?thesis
    by (simp add: add_new_downtime_def Let_def case_prod_beta)
qed

lemma alloc_kept: "R w w1 \<Longrightarrow> n = Suc (next_addr w1) \<Longrightarrow> R w (w1\<lparr>next_addr := n\<rparr>)"
  using frame_trans [OF _ frame_alloc] by simp

lemma keeps_register_downtime: "register_downtime ev ty i w = Some (r, w') \<Longrightarrow> R w w'"
  by (auto simp: register_downtime_def Let_def split: option.splits notif_target.splits if_splits
      elim!: bind_SomeE dest!: keeps_add_new_comment keeps_schedule_new_event
      intro!: frame_upd_downtime [THEN [2] frame_trans] alloc_kept elim!: then_kept)

lemma keeps_schedule_downtime: "schedule_downtime ev d w = Some (r, n, w') \<Longrightarrow> R w w'"
  using keeps_add_new_downtime [of w d]
  by (auto simp: schedule_downtime_def Let_def split: if_splits prod.splits dest!: keeps_register_downtime
      intro: frame_trans)

lemma keeps_cancel_downtime:
  assumes "cancel_downtime ev a tgt w = Some w'"
  shows "R w w'"
proof -
  define w1 where "w1 = (if \<not> dt_fixed (downtime_at w a) \<and> dt_incremented_pending_downtime (downtime_at w a)
    then add_pending (- 1) tgt w else w)"
  define w3 where "w3 = emit (Update_status tgt) (add_depth (- 1) tgt (broker_downtime_data NEB_downtime_stop_cancelled a w1))"
  have "R w w1" by (simp add: w1_def frame_add_depth)
  moreover have "R w1 w3"
    unfolding w3_def by (intro emit_kept frame_trans [OF keeps_broker_downtime frame_add_depth(1)])
  ultimately show ?thesis
    using assms unfolding cancel_downtime_def Let_def w1_def [symmetric] w3_def [symmetric]
    by (auto split: if_splits dest!: keeps_notify_downtime intro: frame_trans frame_trans [OF frame_trans])
qed

lemma keeps_remove_downtime_event: "remove_downtime_event ev i w = Some w' \<Longrightarrow> R w w'"
  by (auto simp: remove_downtime_event_def split: option.splits elim!: bind_SomeE
      intro: frame_removed)

lemma keeps_run_unschedule:
  assumes "run_unschedule ec w = Some r"
  shows "R w (snd r)"
proof (rule run_unschedule.raw_induct [OF _ assms, of "\<lambda>ec w r. R w (snd r)"], goal_cases)
  case (1 f ec w r)
  note IH = 1(1) and run = 1(2)
  show ?case
  proof (cases "snd ec")
    case (Unschedule ty i)
    have "R w1 (snd r)" if "f (e, c) (snd (delete_downtime ty' i w1)) = Some r" for e c ty' w1
      using IH [OF that] by (rule frame_trans [OF keeps_delete_downtime])
    with run Unschedule show ?thesis
      by (auto split: option.splits elim!: bind_SomeE dest!: keeps_cancel_downtime keeps_remove_downtime_event
          intro: frame_trans [OF frame_trans])
  next
    case (Unschedule_triggered i)
    with run show ?thesis
      by (auto split: option.splits elim!: bind_SomeE dest!: IH intro: frame_trans)
  qed
qed

lemma keeps_delete_matching:
  assumes "delete_matching eP p nw = Some r"
  shows "R (snd nw) (snd r)"
proof (rule delete_matching.raw_induct [OF _ assms, of "\<lambda>eP p nw r. R (snd nw) (snd r)"], goal_cases)
  case (1 f eP p nw r)
  then show ?case
    by (auto split: option.splits if_splits elim!: bind_SomeE dest!: 1(1) keeps_run_unschedule intro: frame_trans)
qed

lemma keeps_deleted_by:
  "delete_downtime_by_hostname_service_description_start_time_comment ev h s t c w = Some r \<Longrightarrow> R w (snd r)"
  by (auto simp: delete_downtime_by_hostname_service_description_start_time_comment_def split: if_splits
      dest!: keeps_delete_matching)

subsection \<open>Commands\<close>

lemma keeps_comment_commands:
  "cmd_add_comment c t args w = Some r \<Longrightarrow> R w (snd r)"
  "cmd_delete_comment c args w = Some r \<Longrightarrow> R w (snd r)"
  "cmd_delete_all_comments c args w = Some r \<Longrightarrow> R w (snd r)"
  by (auto simp: cmd_add_comment_def cmd_delete_comment_def cmd_delete_all_comments_def Let_def
      delete_all_comments_def delete_all_host_comments_def delete_all_service_comments_def
      elim!: or_errorE bind_SomeE split: prod.splits if_splits option.splits
      dest!: keeps_add_new_comment intro: keeps_delete_comment keeps_delete_each)

lemma keeps_check_commands:
  "cmd_delay_notification c args w = Some r \<Longrightarrow> R w (snd r)"
  "cmd_schedule_check ev c args w = Some r \<Longrightarrow> R w (snd r)"
  "cmd_schedule_host_service_checks ev args b w = Some r \<Longrightarrow> R w (snd r)"
  by (auto simp: cmd_delay_notification_def cmd_schedule_check_def cmd_schedule_host_service_checks_def
      elim!: or_errorE bind_SomeE split: prod.splits if_splits
      dest!: keeps_schedule_host keeps_schedule_service keeps_each_pointer
      intro: frame_any_svc frame_any_host keeps_schedule_service)

lemma keeps_signal: "cmd_signal_process c args w = Some w' \<Longrightarrow> R w w'"
  unfolding cmd_signal_process_def
  by (erule frame_event) (simp add: hash_type_of_def event_type_defs EVENT_PROGRAM_SHUTDOWN_def EVENT_PROGRAM_RESTART_def)

lemma keeps_push [simp]: "R w (push_check_result r w)"
  unfolding push_check_result_def by (rule frame_fields)

lemma keeps_passive_results:
  "cmd_process_service_check_result ev t args w = Some r \<Longrightarrow> R w (snd r)"
  "cmd_process_host_check_result ev t args w = Some r \<Longrightarrow> R w (snd r)"
  by (auto simp: cmd_process_service_check_result_def cmd_process_host_check_result_def Let_def
      process_passive_service_check_def process_passive_host_check_def
      elim!: or_errorE bind_SomeE split: prod.splits if_splits option.splits)

lemma keeps_remove_acknowledgement:
  "cmd_remove_acknowledgement c args w = Some r \<Longrightarrow> R w (snd r)"
proof -
  have "R w (remove_service_acknowledgement s w)" "R w (remove_host_acknowledgement h w)" for s h
    unfolding remove_service_acknowledgement_def remove_host_acknowledgement_def
    by (rule frame_trans [OF _ keeps_delete_acknowledgements(2)], intro emit_kept frame_any_svc)
      (rule frame_trans [OF _ keeps_delete_acknowledgements(1)], intro emit_kept frame_any_host)
  then show "cmd_remove_acknowledgement c args w = Some r \<Longrightarrow> R w (snd r)"
    by (auto simp: cmd_remove_acknowledgement_def elim!: or_errorE bind_SomeE split: prod.splits if_splits)
qed

lemma keeps_schedule_each: "schedule_each ev ds w = Some w' \<Longrightarrow> R w w'"
  unfolding schedule_each_def by (erule keeps_for_each) (auto dest!: keeps_schedule_downtime)

lemma keeps_propagated_downtime: "schedule_and_propagate_downtime ev h d w = Some w' \<Longrightarrow> R w w'"
  unfolding schedule_and_propagate_downtime_def by (erule keeps_walk) (auto dest!: keeps_schedule_downtime)

lemma keeps_schedule_downtime_command: "cmd_schedule_downtime ev c t args w = Some r \<Longrightarrow> R w (snd r)"
  by (auto simp: cmd_schedule_downtime_def elim!: or_errorE bind_SomeE
      split: prod.splits if_splits downtime_scope.splits
      dest!: keeps_schedule_each keeps_schedule_downtime keeps_propagated_downtime intro: frame_trans)

lemma keeps_delete_for_hosts: "delete_for_hosts ev f hs nw = Some r \<Longrightarrow> R (snd nw) (snd r)"
proof (induction hs arbitrary: nw)
  case (Cons h hs)
  then show ?case by (auto elim!: bind_SomeE dest!: keeps_deleted_by intro: frame_trans)
qed simp

lemma keeps_delete_downtime_commands:
  "cmd_delete_downtime ev c args w = Some r \<Longrightarrow> R w (snd r)"
  "cmd_delete_downtime_full ev c args w = Some r \<Longrightarrow> R w (snd r)"
  "cmd_delete_downtime_by_host_name ev args w = Some r \<Longrightarrow> R w (snd r)"
  "cmd_delete_downtime_by_hostgroup_name ev args w = Some r \<Longrightarrow> R w (snd r)"
  "cmd_delete_downtime_by_start_time_comment ev args w = Some r \<Longrightarrow> R w (snd r)"
proof -
  have un: "R w w'" if "unschedule_downtime ev ty i w = Some (x, w')" for w w' x ty i
    using keeps_run_unschedule that unfolding unschedule_downtime_def by fastforce
  show "cmd_delete_downtime ev c args w = Some r \<Longrightarrow> R w (snd r)"
    by (auto simp: cmd_delete_downtime_def elim!: or_errorE bind_SomeE split: prod.splits dest!: un)
  show "cmd_delete_downtime_full ev c args w = Some r \<Longrightarrow> R w (snd r)"
    by (auto simp: cmd_delete_downtime_full_def elim!: or_errorE bind_SomeE split: prod.splits
        elim!: keeps_for_each dest!: un)
qed (auto simp: cmd_delete_downtime_by_host_name_def cmd_delete_downtime_by_hostgroup_name_def
      cmd_delete_downtime_by_start_time_comment_def error_if_none_def Let_def
      elim!: or_errorE bind_SomeE split: prod.splits if_splits dest!: keeps_deleted_by keeps_delete_for_hosts)

lemma keeps_variables [simp]:
  "R w w1 \<Longrightarrow> R w (service_variable_changed c b attr s w1)" "R w w1 \<Longrightarrow> R w (host_variable_changed c b attr h w1)"
  "R w w1 \<Longrightarrow> R w (contact_changed cn c a ha sa w1)"
  by (simp_all add: service_variable_changed_def host_variable_changed_def contact_changed_def Let_def)

lemma keeps_change_variable:
  "change_service_variable ev c s i d w = Some w' \<Longrightarrow> R w w'" "change_host_variable ev c h i d w = Some w' \<Longrightarrow> R w w'"
  by (auto simp: change_service_variable_def change_host_variable_def Let_def split: if_splits
      dest!: keeps_schedule_service keeps_schedule_host intro: frame_any_svc frame_any_host
      intro!: frame_any_svc [THEN [2] frame_trans] frame_any_host [THEN [2] frame_trans] elim!: then_kept)

lemma keeps_int_var: "cmd_change_object_int_var ev c args w = Some r \<Longrightarrow> R w (snd r)"
  unfolding cmd_change_object_int_var_def
  by (auto elim!: or_errorE bind_SomeE split: prod.splits if_splits dest!: keeps_change_variable
      simp: change_contact_mask_def)

lemma keeps_char_var: "cmd_change_object_char_var c args w = Some r \<Longrightarrow> R w (snd r)"
  unfolding cmd_change_object_char_var_def
  by (auto elim!: or_errorE bind_SomeE split: prod.splits if_splits)

lemma keeps_custom_var: "cmd_change_object_custom_var c args w = Some r \<Longrightarrow> R w (snd r)"
  unfolding cmd_change_object_custom_var_def
  by (auto elim!: or_errorE bind_SomeE split: prod.splits if_splits simp: Let_def)

subsection \<open>Handlers\<close>

lemma keeps_at_once: "(\<And>x w. R w (f x w)) \<Longrightarrow> at_once f ev x w = Some w' \<Longrightarrow> R w w'"
  by (auto simp: at_once_def)

lemma handlers_keep:
  "(\<And>w. R w (f0 w)) \<Longrightarrow> handler_keeps R (redirector f0)"
  "(\<And>ev i t args w r. fc ev i t args w = Some r \<Longrightarrow> R w (snd r)) \<Longrightarrow> handler_keeps R (redirector_cmd fc)"
  "(\<And>ev h w w'. fh ev h w = Some w' \<Longrightarrow> R w w') \<Longrightarrow> handler_keeps R (redirector_host fh)"
  "(\<And>ev h a w w'. fa ev h a w = Some w' \<Longrightarrow> R w w') \<Longrightarrow> handler_keeps R (redirector_host_args fa)"
  "(\<And>ev h w w'. fh ev h w = Some w' \<Longrightarrow> R w w') \<Longrightarrow> handler_keeps R (redirector_hostgroup fh)"
  "(\<And>ev s w w'. fs ev s w = Some w' \<Longrightarrow> R w w') \<Longrightarrow> handler_keeps R (redirector_service fs)"
  "(\<And>ev s a w w'. fsa ev s a w = Some w' \<Longrightarrow> R w w') \<Longrightarrow> handler_keeps R (redirector_service_args fsa)"
  "(\<And>ev s w w'. fs ev s w = Some w' \<Longrightarrow> R w w') \<Longrightarrow> handler_keeps R (redirector_servicegroup_services fs)"
  "(\<And>ev h w w'. fh ev h w = Some w' \<Longrightarrow> R w w') \<Longrightarrow> handler_keeps R (redirector_servicegroup_hosts fh)"
  "(\<And>ev c w w'. fn ev c w = Some w' \<Longrightarrow> R w w') \<Longrightarrow> handler_keeps R (redirector_contact fn)"
  "(\<And>ev c w w'. fn ev c w = Some w' \<Longrightarrow> R w w') \<Longrightarrow> handler_keeps R (redirector_contactgroup fn)"
  by (auto simp: handler_keeps_def redirector_def redirector_cmd_def redirector_host_def redirector_host_args_def
      redirector_hostgroup_def redirector_service_def redirector_service_args_def
      redirector_servicegroup_services_def redirector_servicegroup_hosts_def redirector_contact_def
      redirector_contactgroup_def elim!: bind_SomeE keeps_each_pointer keeps_for_each split: option.splits)

lemma keeps_wrappers:
  "wrapper_enable_host_svc_notifications ev h w = Some w' \<Longrightarrow> R w w'"
  "wrapper_disable_host_svc_notifications ev h w = Some w' \<Longrightarrow> R w w'"
  "wrapper_disable_host_svc_checks ev h w = Some w' \<Longrightarrow> R w w'"
  "wrapper_enable_host_svc_checks ev h w = Some w' \<Longrightarrow> R w w'"
  "wrapper_enable_service_notifications ev h w = Some w' \<Longrightarrow> R w w'"
  "wrapper_disable_service_notifications ev h w = Some w' \<Longrightarrow> R w w'"
  "wrapper_enable_service_checks ev h w = Some w' \<Longrightarrow> R w w'"
  "wrapper_disable_service_checks ev h w = Some w' \<Longrightarrow> R w w'"
  "wrapper_enable_passive_service_checks ev h w = Some w' \<Longrightarrow> R w w'"
  "wrapper_disable_passive_service_checks ev h w = Some w' \<Longrightarrow> R w w'"
  by (auto simp: wrapper_enable_host_svc_notifications_def wrapper_disable_host_svc_notifications_def
      wrapper_disable_host_svc_checks_def wrapper_enable_host_svc_checks_def
      wrapper_enable_service_notifications_def wrapper_disable_service_notifications_def
      wrapper_enable_service_checks_def wrapper_disable_service_checks_def
      wrapper_enable_passive_service_checks_def wrapper_disable_passive_service_checks_def switch_defs
      intro!: keeps_each_member elim!: keeps_each_pointer keeps_enable_checks)

lemma keeps_notification:
  "host_notification ev h ty a c opts w = Some (r, w') \<Longrightarrow> R w w'"
  "service_notification ev s ty a c opts w = Some (r, w') \<Longrightarrow> R w w'"
  using keeps_host_notification(1) [of ev h ty a c opts w w'] keeps_host_notification(2) [of ev s ty a c opts w w']
  by simp_all

lemma keeps_argument_wrappers:
  "wrapper_set_host_notification_number ev h a w = Some w' \<Longrightarrow> R w w'"
  "wrapper_set_service_notification_number ev s a w = Some w' \<Longrightarrow> R w w'"
  "wrapper_send_custom_host_notification ev h a w = Some w' \<Longrightarrow> R w w'"
  "wrapper_send_custom_service_notification ev s a w = Some w' \<Longrightarrow> R w w'"
proof -
  show "wrapper_set_host_notification_number ev h a w = Some w' \<Longrightarrow> R w w'"
    "wrapper_set_service_notification_number ev s a w = Some w' \<Longrightarrow> R w w'"
    by (auto simp: wrapper_set_host_notification_number_def wrapper_set_service_notification_number_def
        split: option.splits)
  show "wrapper_send_custom_host_notification ev h a w = Some w' \<Longrightarrow> R w w'"
    "wrapper_send_custom_service_notification ev s a w = Some w' \<Longrightarrow> R w w'"
    by (auto simp: wrapper_send_custom_host_notification_def wrapper_send_custom_service_notification_def
        split: option.splits prod.splits dest: keeps_notification)
qed

end

section \<open>The table\<close>

text \<open>
  All entries but three: the two acknowledgements, which queue a second expiry event for an
  object, and the reading of the retention file, whose application to the objects and the
  downtimes is not modelled.
\<close>

definition commands_left_out :: "string list" where
  "commands_left_out = [''ACKNOWLEDGE_HOST_PROBLEM'', ''ACKNOWLEDGE_SVC_PROBLEM'', ''READ_STATE_INFORMATION'']"

definition entries_keep :: "(engine \<Rightarrow> engine \<Rightarrow> bool) \<Rightarrow> (string \<times> command_info) list \<Rightarrow> bool" where
  "entries_keep R es \<longleftrightarrow> (\<forall>e\<in>set es. fst e \<notin> set commands_left_out \<longrightarrow> handler_keeps R (func (snd e)))"

lemma entries_keep_simps:
  "entries_keep R [] \<longleftrightarrow> True"
  "entries_keep R (entry n i f # es) \<longleftrightarrow>
     (n \<in> set commands_left_out \<or> handler_keeps R f) \<and> entries_keep R es"
  "entries_keep R (safe_entry n i f # es) \<longleftrightarrow>
     (n \<in> set commands_left_out \<or> handler_keeps R f) \<and> entries_keep R es"
  "entries_keep R (es @ es') \<longleftrightarrow> entries_keep R es \<and> entries_keep R es'"
  by (auto simp: entries_keep_def entry_def safe_entry_def)

context command_frame
begin

lemma keeps_flap_routine:
  "enable_flap_detection_routines ev w = Some w' \<Longrightarrow> R w w'" "disable_flap_detection_routines ev w = Some w' \<Longrightarrow> R w w'"
  using keeps_flap_routines by blast+

lemmas keeps_command = keeps_comment_commands keeps_check_commands keeps_signal keeps_passive_results
  keeps_remove_acknowledgement keeps_schedule_downtime_command keeps_delete_downtime_commands keeps_int_var
  keeps_char_var keeps_custom_var keeps_wrappers keeps_argument_wrappers keeps_propagated keeps_enable_checks
  keeps_flap_switched keeps_flap_routine

lemma handler_keepsI:
  "(\<And>ev i t args w w'. f ev i t args w = Some w' \<Longrightarrow> R w w') \<Longrightarrow> handler_keeps R (Handler f)"
  "handler_keeps R Process_file"
  by (auto simp: handler_keeps_def)

lemma program_entries: "entries_keep R program_commands"
  unfolding program_commands_def entries_keep_simps
  by (intro conjI disjI2 TrueI) (auto intro!: handlers_keep handler_keepsI elim!: keeps_command simp: switch_defs)

lemma hostgroup_entries: "entries_keep R hostgroup_commands"
  unfolding hostgroup_commands_def entries_keep_simps
  by (intro conjI disjI2 TrueI) (auto intro!: handlers_keep handler_keepsI elim!: keeps_command keeps_at_once [rotated] simp: switch_defs)

lemma servicegroup_entries: "entries_keep R servicegroup_commands"
  unfolding servicegroup_commands_def entries_keep_simps
  by (intro conjI disjI2 TrueI) (auto intro!: handlers_keep handler_keepsI elim!: keeps_command keeps_at_once [rotated] simp: switch_defs)

lemma contact_entries: "entries_keep R contact_commands"
  unfolding contact_commands_def entries_keep_simps
  by (intro conjI disjI2 TrueI) (auto intro!: handlers_keep handler_keepsI elim!: keeps_command keeps_at_once [rotated] simp: switch_defs)

lemma contactgroup_entries: "entries_keep R contactgroup_commands"
  unfolding contactgroup_commands_def entries_keep_simps
  by (intro conjI disjI2 TrueI) (auto intro!: handlers_keep handler_keepsI elim!: keeps_command keeps_at_once [rotated] simp: switch_defs)

lemma file_entries: "entries_keep R file_commands"
  unfolding file_commands_def entries_keep_simps
  by (intro conjI disjI2 TrueI) (auto intro!: handlers_keep handler_keepsI elim!: keeps_command keeps_at_once [rotated] simp: switch_defs)

lemma host_entries: "entries_keep R host_commands"
  unfolding host_commands_def entries_keep_simps
  by (intro conjI TrueI) (auto intro!: handlers_keep handler_keepsI elim!: keeps_command keeps_at_once [rotated]
      simp: switch_defs commands_left_out_def)

lemma service_entries: "entries_keep R service_commands"
  unfolding service_commands_def entries_keep_simps
  by (intro conjI TrueI) (auto intro!: handlers_keep handler_keepsI elim!: keeps_command keeps_at_once [rotated]
      simp: switch_defs commands_left_out_def)

lemma table_keeps: "entries_keep R lst_command"
  unfolding lst_command_def entries_keep_simps
  using program_entries host_entries hostgroup_entries service_entries servicegroup_entries contact_entries
    contactgroup_entries file_entries by blast

lemma keeps_run_handler:
  assumes "run_handler ev c w = Some w'" "fst (snd c) \<notin> set commands_left_out"
  shows "R w w'"
proof -
  have "handler_keeps R (func i)" if "command_named (fst (snd c)) = Some i" for i
    using table_keeps assms(2) map_of_SomeD [of lst_command, OF that [unfolded command_named_def]]
    by (fastforce simp: entries_keep_def)
  then show ?thesis
    using assms(1) by (auto simp: run_handler_def handler_keeps_def split: option.splits handler.splits)
qed

end

text \<open>A line with none of the commands left out, and the files a line may name.\<close>

definition within_model :: "string \<Rightarrow> bool" where
  "within_model line \<longleftrightarrow>
     (case accept_command line of None \<Rightarrow> True | Some c \<Rightarrow> fst (snd c) \<notin> set commands_left_out)"

definition files_within_model :: "env \<Rightarrow> bool" where
  "files_within_model ev \<longleftrightarrow>
     (\<forall>f ls. read_file ev f = Some ls \<longrightarrow> (\<forall>l\<in>set ls. within_model l))"

lemma command_file_lines:
  "command_file ev c = Some f \<Longrightarrow> files_within_model ev \<Longrightarrow> \<forall>l\<in>set (snd (snd f)). within_model l"
  by (auto simp: command_file_def files_within_model_def split: option.splits handler.splits bind_splits)

context command_frame
begin

lemma keeps_process_commands:
  assumes "process_commands ev cmds w = Some w'" "files_within_model ev"
    "\<forall>l\<in>set cmds. within_model l"
  shows "R w w'"
proof -
  have "files_within_model ev \<longrightarrow> (\<forall>l\<in>set cmds. within_model l) \<longrightarrow> R w w'"
  proof (rule process_commands.raw_induct [OF _ assms(1), of "\<lambda>ev cmds w w'. files_within_model ev \<longrightarrow>
      (\<forall>l\<in>set cmds. within_model l) \<longrightarrow> R w w'"], goal_cases)
    case (1 f ev cmds w w')
    note IH = 1(1) and run = 1(2)
    show ?case
    proof (intro impI)
      assume files: "files_within_model ev" and lines: "\<forall>l\<in>set cmds. within_model l"
      have start: "R w1 (broker_external_command b c (emit a w1))" "R w1 (broker_external_command b c w1)" for b c a w1
        by (simp_all add: broker_external_command_def emit_kept)
      show "R w w'"
      proof (cases cmds)
        case (Cons cmd cs)
        show ?thesis
        proof (cases "accept_command cmd")
          case (Some c)
          let ?w1 = "broker_external_command True c (emit External_command_stats w)"
          from lines Cons Some have c: "fst (snd c) \<notin> set commands_left_out"
            by (simp add: within_model_def)
          from run Cons Some obtain w2 where w2:
            "(case command_file ev c of None \<Rightarrow> run_handler ev c ?w1
              | Some fl \<Rightarrow> Option.bind (f ev (snd (snd fl)) ?w1)
                  (\<lambda>w1. Some (if fst (snd fl) then emit (Remove_file (fst fl)) w1 else w1))) = Some w2"
            "f ev cs (broker_external_command False c w2) = Some w'"
            by (auto elim!: bind_SomeE)
          have "R ?w1 w2"
          proof (cases "command_file ev c")
            case None
            with w2(1) c show ?thesis by (simp add: keeps_run_handler)
          next
            case (Some fl)
            have "\<forall>l\<in>set (snd (snd fl)). within_model l" by (rule command_file_lines [OF Some files])
            with w2(1) Some files show ?thesis
              by (auto split: if_splits elim!: bind_SomeE dest!: IH intro!: emit_kept)
          qed
          moreover have "R (broker_external_command False c w2) w'"
            using IH [OF w2(2)] files lines Cons by simp
          ultimately show ?thesis using start frame_trans by meson
        qed (use run Cons IH files lines in auto)
      qed (use run in simp)
    qed
  qed
  with assms(2,3) show ?thesis by blast
qed

end

section \<open>Commands and the event lists\<close>

lemma find_event_from_Nil: "find_event_from P None s = Some None"
  by (subst find_event_from.simps) simp

lemma find_event_from_Cons:
  "find_event_from P (Some x) s = (if P (heap s x) then Some (Some x) else find_event_from P (ev_next (heap s x)) s)"
  by (subst find_event_from.simps) simp

lemma find_event_from_member:
  "dseg (heap s) prev xs None \<Longrightarrow> find_event_from P (hd_opt xs) s = Some (Some e) \<Longrightarrow> e \<in> set xs"
proof (induction xs arbitrary: prev)
  case Nil
  then show ?case by (simp add: hd_opt_def find_event_from_Nil)
next
  case (Cons x xs)
  have next': "ev_next (heap s x) = hd_opt xs" "dseg (heap s) (Some x) xs None"
    using Cons.prems(1) by (simp_all add: hd_opt_def)
  have "find_event_from P (Some x) s = Some (Some e)" using Cons.prems(2) by (simp add: hd_opt_def)
  then show ?case
    using Cons.IH [OF next'(2)] by (simp add: find_event_from_Cons next'(1) split: if_splits)
qed

interpretation commands: command_frame queue_step
proof unfold_locales
  fix w :: engine and s e P
  assume find: "find_event_from P (list_head (evs w) High) (evs w) = Some (Some e)"
    and rem: "remove_event (Some e) High (evs w) = Some s"
  show "queue_step w (w\<lparr>evs := s\<rparr>)"
    unfolding queue_step_def
  proof (intro allI impI)
    fix q assume q: "queue_inv w q"
    note qd = queue_invD [OF q]
    have "dll (evs w) High (q High)" using queues_rep [OF qd(4)] by (simp add: event_list_rep_def)
    then have "e \<in> set (q High)" using find find_event_from_member by (fastforce simp: dll_def)
    with remove_event_queues [OF qd(4,5)] rem have s: "queues s (q(High := remove1 e (q High)))"
      "index_ok s (q(High := remove1 e (q High)))" by fastforce+
    show "\<exists>q'. queues_kept w q (w\<lparr>evs := s\<rparr>) q'"
      by (rule exI, rule queues_kept_store [OF q s])
        (use payload_kept [OF remove_event_payload [OF qd(4) rem]] set_remove1_subset [of e "q High"] in auto)
  qed
qed (auto intro: queue_step_same simp: upd_contact_def)

end
