(* ===== verification/Command_Buffer.thy ===== *)
theory Command_Buffer
  imports Command_Processing
begin

text \<open>
  How command lines get to the processor: the circular buffer the reader thread fills
  (\<^verbatim>\<open>modules/external_commands/src/utils.cc\<close>) and \<^verbatim>\<open>check_for_external_commands\<close> of
  \<^verbatim>\<open>commands.cc\<close> empties. The buffer is a first-in first-out queue of bounded length: the
  locale \<open>bounded_queue\<close> is that contract.
\<close>

section \<open>The circular buffer\<close>

text \<open>The slots are there once the reader thread is started; \<open>n\<close> is their configured number.\<close>

record circular_buffer =
  cb_head :: nat
  cb_tail :: nat
  cb_items :: nat
  cb_high :: nat
  cb_buffer :: "string option list option"

definition init_buffer :: "nat \<Rightarrow> circular_buffer" where
  "init_buffer n = \<lparr>cb_head = 0, cb_tail = 0, cb_items = 0, cb_high = 0, cb_buffer = Some (replicate n None)\<rparr>"

text \<open>The result and the number of items that is passed back.\<close>

definition submit_external_command ::
    "nat \<Rightarrow> string option \<Rightarrow> circular_buffer \<Rightarrow> result \<times> int \<times> circular_buffer" where
  "submit_external_command n cmd b =
     (case (cmd, cb_buffer b) of
        (Some c, Some slots) \<Rightarrow>
          if cb_items b < n
          then let b1 = b\<lparr>cb_buffer := Some (slots[cb_head b := Some c]), cb_head := (cb_head b + 1) mod n,
                          cb_items := cb_items b + 1, cb_high := max (cb_high b) (cb_items b + 1)\<rparr>
               in (OK, int (cb_items b1), b1)
          else (ERROR, int (cb_items b), b)
      | _ \<Rightarrow> (ERROR, - 1, b))"

definition take_external_command :: "nat \<Rightarrow> circular_buffer \<Rightarrow> (string option \<times> circular_buffer) option" where
  "take_external_command n b =
     (case cb_buffer b of
        None \<Rightarrow> None
      | Some slots \<Rightarrow>
          if cb_items b = 0 then None
          else Some (slots ! cb_tail b, b\<lparr>cb_buffer := Some (slots[cb_tail b := None]),
                 cb_tail := (cb_tail b + 1) mod n, cb_items := cb_items b - 1\<rparr>))"

lemma take_shrinks: "take_external_command n b = Some (c, b1) \<Longrightarrow> cb_items b1 < cb_items b"
  by (auto simp: take_external_command_def split: option.splits if_splits)

function take_all :: "nat \<Rightarrow> circular_buffer \<Rightarrow> string option list \<times> circular_buffer" where
  "take_all n b =
     (case take_external_command n b of
        None \<Rightarrow> ([], b)
      | Some (c, b1) \<Rightarrow> (c # fst (take_all n b1), snd (take_all n b1)))"
  by auto
termination by (relation "measure (\<lambda>(n, b). cb_items b)") (auto dest: take_shrinks)

declare take_all.simps [simp del]

section \<open>Filling and emptying\<close>

text \<open>
  The reader thread: a thread-safe command runs at once, another one is submitted, and again
  after a pause while the buffer is full.
\<close>

definition receive_command ::
    "env \<Rightarrow> nat \<Rightarrow> string \<Rightarrow> circular_buffer \<times> engine \<Rightarrow> (result \<times> circular_buffer \<times> engine) option" where
  "receive_command ev n input_buffer bw =
     (if is_thread_safe input_buffer
      then map_option (\<lambda>r. (OK, fst bw, snd r)) (execute ev input_buffer (snd bw))
      else case submit_external_command n (Some input_buffer) (fst bw) of (r, items, b1) \<Rightarrow> Some (r, b1, snd bw))"

text \<open>
  The processing of a command does not touch the buffer, so the commands it holds can be taken
  first.
\<close>

definition check_for_external_commands ::
    "env \<Rightarrow> nat \<Rightarrow> circular_buffer \<times> engine \<Rightarrow> (result \<times> circular_buffer \<times> engine) option" where
  "check_for_external_commands ev n bw =
     (if \<not> check_external_commands (cfg (snd bw)) then Some (ERROR, bw)
      else
        let w1 = (snd bw)\<lparr>last_command_check := now ev\<rparr>;
            w2 = (if last_command_status_update w1 + 10 \<le> last_command_check w1
                  then emit Update_program_status (w1\<lparr>last_command_status_update := last_command_check w1\<rparr>)
                  else w1);
            (cmds, b1) = take_all n (fst bw)
        in map_option (\<lambda>w3. (OK, b1, w3)) (process_commands ev (List.map_filter (\<lambda>c. c) cmds) w2))"

section \<open>The contract of a bounded queue\<close>

locale bounded_queue =
  fixes rep :: "'b \<Rightarrow> 'a list \<Rightarrow> bool" and cap :: nat
    and push :: "'a \<Rightarrow> 'b \<Rightarrow> bool \<times> 'b" and pop :: "'b \<Rightarrow> ('a \<times> 'b) option"
  assumes push_room: "rep b q \<Longrightarrow> length q < cap \<Longrightarrow> \<exists>b1. push x b = (True, b1) \<and> rep b1 (q @ [x])"
    and push_full: "rep b q \<Longrightarrow> length q = cap \<Longrightarrow> push x b = (False, b)"
    and pop_empty: "rep b [] \<Longrightarrow> pop b = None"
    and pop_first: "rep b (x # q) \<Longrightarrow> \<exists>b1. pop b = Some (x, b1) \<and> rep b1 q"
    and rep_length: "rep b q \<Longrightarrow> length q \<le> cap"

text \<open>What a sequence of operations answers: accepted or refused, and what was taken.\<close>

datatype 'a queue_op = Push 'a | Pop

datatype 'a queue_answer = Accepted bool | Taken "'a option"

fun queue_spec :: "nat \<Rightarrow> 'a queue_op list \<Rightarrow> 'a list \<Rightarrow> 'a queue_answer list" where
  "queue_spec cap [] q = []"
| "queue_spec cap (Push x # ops) q =
     (if length q < cap then Accepted True # queue_spec cap ops (q @ [x])
      else Accepted False # queue_spec cap ops q)"
| "queue_spec cap (Pop # ops) q =
     (case q of [] \<Rightarrow> Taken None # queue_spec cap ops [] | x # q1 \<Rightarrow> Taken (Some x) # queue_spec cap ops q1)"

fun queue_run ::
    "('a \<Rightarrow> 'b \<Rightarrow> bool \<times> 'b) \<Rightarrow> ('b \<Rightarrow> ('a \<times> 'b) option) \<Rightarrow> 'a queue_op list \<Rightarrow> 'b \<Rightarrow> 'a queue_answer list" where
  "queue_run push pop [] b = []"
| "queue_run push pop (Push x # ops) b =
     (case push x b of (ok, b1) \<Rightarrow> Accepted ok # queue_run push pop ops b1)"
| "queue_run push pop (Pop # ops) b =
     (case pop b of None \<Rightarrow> Taken None # queue_run push pop ops b
      | Some (x, b1) \<Rightarrow> Taken (Some x) # queue_run push pop ops b1)"

context bounded_queue
begin

lemma answers_as_specified: "rep b q \<Longrightarrow> queue_run push pop ops b = queue_spec cap ops q"
proof (induction ops arbitrary: b q)
  case (Cons op ops)
  show ?case
  proof (cases op)
    case (Push x)
    show ?thesis
    proof (cases "length q < cap")
      case True
      with push_room [OF Cons.prems, of x] Cons.IH Push show ?thesis by auto
    next
      case False
      with rep_length [OF Cons.prems] push_full [OF Cons.prems, of x] Cons Push show ?thesis by simp
    qed
  next
    case Pop
    with Cons pop_empty [of b] pop_first [of b] show ?thesis by (cases q) fastforce+
  qed
qed simp

end

section \<open>The buffer keeps the contract\<close>

definition buffer_rep :: "nat \<Rightarrow> circular_buffer \<Rightarrow> string list \<Rightarrow> bool" where
  "buffer_rep n b q \<longleftrightarrow> (\<exists>slots. cb_buffer b = Some slots \<and> length slots = n \<and> cb_tail b < n \<and>
     cb_items b = length q \<and> length q \<le> n \<and> cb_head b = (cb_tail b + length q) mod n \<and>
     (\<forall>i < length q. slots ! ((cb_tail b + i) mod n) = Some (q ! i)))"

definition push_line :: "nat \<Rightarrow> string \<Rightarrow> circular_buffer \<Rightarrow> bool \<times> circular_buffer" where
  "push_line n c b = (case submit_external_command n (Some c) b of (r, items, b1) \<Rightarrow> (r = OK, b1))"

definition pop_line :: "nat \<Rightarrow> circular_buffer \<Rightarrow> (string \<times> circular_buffer) option" where
  "pop_line n b = (case take_external_command n b of Some (Some c, b1) \<Rightarrow> Some (c, b1) | _ \<Rightarrow> None)"

lemma mod_slot_inj:
  fixes n :: nat
  assumes "(t + i) mod n = (t + j) mod n" "i < n" "j < n"
  shows "i = j"
proof -
  have le: "j \<le> i" if "(t + i) mod n = (t + j) mod n" "i < n" "j < n" for i j
  proof (rule ccontr)
    assume "\<not> j \<le> i"
    then have "n dvd (t + j) - (t + i)" using that mod_eq_dvd_iff_nat [of "t + i" "t + j" n] by simp
    with \<open>\<not> j \<le> i\<close> that(3) show False by (auto dest: dvd_imp_le)
  qed
  show ?thesis using le [OF assms] le [OF assms(1) [symmetric] assms(3,2)] by simp
qed

lemma init_rep: "0 < n \<Longrightarrow> buffer_rep n (init_buffer n) []"
  by (simp add: buffer_rep_def init_buffer_def)

lemma push_rep:
  assumes "buffer_rep n b q" "length q < n"
  shows "\<exists>b1. push_line n c b = (True, b1) \<and> buffer_rep n b1 (q @ [c])"
proof -
  from assms obtain slots where s: "cb_buffer b = Some slots" "length slots = n" "cb_tail b < n"
    "cb_items b = length q" "cb_head b = (cb_tail b + length q) mod n"
    "\<And>i. i < length q \<Longrightarrow> slots ! ((cb_tail b + i) mod n) = Some (q ! i)"
    by (auto simp: buffer_rep_def)
  let ?b = "b\<lparr>cb_buffer := Some (slots[cb_head b := Some c]), cb_head := (cb_head b + 1) mod n,
              cb_items := cb_items b + 1, cb_high := max (cb_high b) (cb_items b + 1)\<rparr>"
  have "slots[cb_head b := Some c] ! ((cb_tail b + i) mod n) = Some ((q @ [c]) ! i)" if "i < Suc (length q)" for i
  proof (cases "i = length q")
    case True
    then show ?thesis using s assms(2) by simp
  next
    case False
    then have "(cb_tail b + i) mod n \<noteq> cb_head b"
      using mod_slot_inj [of "cb_tail b" i n "length q"] assms(2) s(5) that by auto
    then show ?thesis using s(6) [of i] that False by (simp add: nth_append)
  qed
  then have "buffer_rep n ?b (q @ [c])" using s assms(2) by (simp add: buffer_rep_def mod_Suc_eq)
  then show ?thesis using s assms(2) by (simp add: push_line_def submit_external_command_def Let_def)
qed

lemma pop_rep:
  assumes "buffer_rep n b (c # q)"
  shows "\<exists>b1. pop_line n b = Some (c, b1) \<and> buffer_rep n b1 q"
proof -
  from assms obtain slots where s: "cb_buffer b = Some slots" "length slots = n" "cb_tail b < n"
    "cb_items b = Suc (length q)" "length q < n" "cb_head b = (cb_tail b + Suc (length q)) mod n"
    "\<And>i. i < Suc (length q) \<Longrightarrow> slots ! ((cb_tail b + i) mod n) = Some ((c # q) ! i)"
    by (auto simp: buffer_rep_def)
  let ?b = "b\<lparr>cb_buffer := Some (slots[cb_tail b := None]), cb_tail := (cb_tail b + 1) mod n,
              cb_items := cb_items b - 1\<rparr>"
  have "slots[cb_tail b := None] ! ((cb_tail b + Suc i) mod n) = Some (q ! i)" if "i < length q" for i
  proof -
    have "(cb_tail b + Suc i) mod n \<noteq> cb_tail b"
      using mod_slot_inj [of "cb_tail b" "Suc i" n 0] s(3,5) that by auto
    then show ?thesis using s(7) [of "Suc i"] that by simp
  qed
  moreover have "(Suc t mod n + i) mod n = Suc (t + i) mod n" for t i
    by (metis add_Suc mod_add_left_eq)
  ultimately have "buffer_rep n ?b q" using s by (simp add: buffer_rep_def)
  moreover have "take_external_command n b = Some (Some c, ?b)"
    using s(1,4) s(7) [of 0] s(3) by (simp add: take_external_command_def)
  ultimately show ?thesis by (simp add: pop_line_def)
qed

interpretation command_queue: bounded_queue "buffer_rep n" n "push_line n" "pop_line n" for n
proof unfold_locales
  fix b q c
  assume r: "buffer_rep n b q"
  show "length q \<le> n" using r by (auto simp: buffer_rep_def)
  show "length q < n \<Longrightarrow> \<exists>b1. push_line n c b = (True, b1) \<and> buffer_rep n b1 (q @ [c])" by (rule push_rep [OF r])
  show "length q = n \<Longrightarrow> push_line n c b = (False, b)"
    using r by (auto simp: buffer_rep_def push_line_def submit_external_command_def)
next
  fix b
  show "buffer_rep n b [] \<Longrightarrow> pop_line n b = None"
    by (auto simp: buffer_rep_def pop_line_def take_external_command_def)
qed (rule pop_rep)

section \<open>Properties\<close>

text \<open>C10. The circular buffer is a first-in first-out queue: whatever sequence of submissions
  and removals, each submission is accepted exactly while fewer lines than slots wait, and each
  removal takes the line that waits longest.\<close>

theorem command_buffer_is_fifo:
  assumes "0 < n"
  shows "queue_run (push_line n) (pop_line n) ops (init_buffer n) = queue_spec n ops []"
  by (rule command_queue.answers_as_specified [OF init_rep [OF assms]])

theorem command_buffer_is_fifo_witness:
  "queue_run (push_line 2) (pop_line 2) [Push ''a'', Push ''b'', Push ''c'', Pop, Push ''d'', Pop, Pop, Pop]
     (init_buffer 2) =
   [Accepted True, Accepted True, Accepted False, Taken (Some ''a''), Accepted True, Taken (Some ''b''),
    Taken (Some ''d''), Taken None]"
  using command_buffer_is_fifo [of 2 "[Push ''a'', Push ''b'', Push ''c'', Pop, Push ''d'', Pop, Pop, Pop]"] by simp

lemma take_all_rep: "buffer_rep n b q \<Longrightarrow> \<exists>b1. take_all n b = (map Some q, b1) \<and> buffer_rep n b1 []"
proof (induction q arbitrary: b)
  case Nil
  then have "take_external_command n b = None" by (auto simp: buffer_rep_def take_external_command_def)
  with Nil show ?case by (subst take_all.simps) simp
next
  case (Cons c q)
  from pop_rep [OF Cons.prems] obtain b1 where b1: "take_external_command n b = Some (Some c, b1)" "buffer_rep n b1 q"
    by (auto simp: pop_line_def split: option.splits)
  from Cons.IH [OF b1(2)] obtain b2 where "take_all n b1 = (map Some q, b2)" "buffer_rep n b2 []" by blast
  with b1(1) show ?case by (subst take_all.simps) simp
qed

end
