(* ===== verification/Command_Safety.thy ===== *)
theory Command_Safety
  imports Command_Frame Command_Buffer
begin

text \<open>
  What command lines do end to end: from the buffer through the table of commands to the event
  lists (\<open>commands_keep_event_lists\<close>), and from the text of a passive check result to the
  result that the reaper takes (\<open>passive_service_result_arrives\<close>).
\<close>

section \<open>The text of a command\<close>

lemma decimal_length: "10 ^ k \<le> n \<Longrightarrow> n < 10 ^ Suc k \<Longrightarrow> length (decimal n) = Suc k"
proof (induction k arbitrary: n)
  case 0
  then show ?case by (simp add: decimal.simps [of n])
next
  case (Suc k)
  then have "10 \<le> n" using order_trans [of 10 "10 ^ Suc k" n] by simp
  moreover have "10 ^ k \<le> n div 10" "n div 10 < 10 ^ Suc k" using Suc.prems by auto
  ultimately show ?case using Suc.IH [of "n div 10"] by (simp add: decimal.simps [of n])
qed

lemma read_decimal_prefix: "\<not> digit_in 10 c \<Longrightarrow> read_number 10 (decimal n @ c # r) = (False, n)"
proof -
  assume c: "\<not> digit_in 10 c"
  note d = decimal_digits [of n]
  obtain x xs where x: "decimal n = x # xs" using d by (cases "decimal n") auto
  have "dropWhile is_space (decimal n @ c # r) = decimal n @ c # r" using d x by simp
  moreover have "skip_sign (decimal n @ c # r) = (False, decimal n @ c # r)" using d by (simp add: skip_sign_def x)
  moreover have "takeWhile (digit_in 10) (decimal n @ c # r) = decimal n"
    using d c by (simp add: takeWhile_append2)
  ultimately show ?thesis using d by (simp add: read_number_def read_base_def)
qed

lemma strtoul_prefix: "\<not> digit_in 10 c \<Longrightarrow> n < 2 ^ 64 \<Longrightarrow> strtoul 10 (decimal n @ c # r) = n"
  by (simp add: strtoul_def read_decimal_prefix)

lemma cut_at_append: "c \<notin> set t \<Longrightarrow> cut_at c (t @ c # r) = (t, Some r)"
proof -
  assume c: "c \<notin> set t"
  then have "takeWhile (\<lambda>x. x \<noteq> c) (t @ c # r) = t" "dropWhile (\<lambda>x. x \<noteq> c) (t @ c # r) = c # r"
    by (auto simp: takeWhile_append dropWhile_append)
  then show ?thesis by (simp add: cut_at_def)
qed

lemma return_codes: "list_all (\<lambda>n. int_of_long (strtol 0 (decimal n)) = int n) [0, 1, 2, 3]"
  by code_simp

lemma return_code_back: "n \<le> 3 \<Longrightarrow> int_of_long (strtol 0 (decimal n)) = int n"
proof -
  assume "n \<le> 3"
  then have "n \<in> set [0, 1, 2, 3]" by auto
  then show ?thesis using return_codes by (simp only: list_all_iff)
qed

lemma decimal_no_semicolon: "CHR '';'' \<notin> set (decimal n)"
  using decimal_digits [of n] by auto

lemma trim_same: "l \<noteq> [] \<Longrightarrow> \<not> is_space (hd l) \<Longrightarrow> \<not> is_space (last l) \<Longrightarrow> trim l = l"
proof -
  assume l: "l \<noteq> []" "\<not> is_space (hd l)" "\<not> is_space (last l)"
  have "rev l = rev (butlast l @ [last l])" using l(1) by simp
  also have "\<dots> = last l # rev (butlast l)" by (simp only: rev_append rev.simps append.simps)
  finally have r: "rev l = last l # rev (butlast l)" .
  have "dropWhile is_space (rev l) = rev l" using l(3) by (subst (1 2) r) simp
  moreover have "dropWhile is_space l = l" using l(1,2) by (cases l) simp_all
  ultimately show ?thesis by (simp add: trim_def)
qed

text \<open>A line as its writer makes it: an entry time of ten digits, the name, the arguments.\<close>

definition command_line :: "nat \<Rightarrow> string \<Rightarrow> string \<Rightarrow> string" where
  "command_line t name args = ''['' @ decimal t @ ''] '' @ name @ '';'' @ args"

lemma split_command_line:
  assumes "10 ^ 9 \<le> t" "t < 10 ^ 10" "CHR '';'' \<notin> set name" "args \<noteq> []" "\<not> is_space (last args)"
  shows "split_command (command_line t name args) = Some (int t, name, args)"
proof -
  let ?l = "command_line t name args"
  have l: "?l = CHR ''['' # decimal t @ CHR '']'' # CHR '' '' # name @ CHR '';'' # args"
    by (simp add: command_line_def)
  have len: "length (decimal t) = 10" using decimal_length [of 9 t] assms(1,2) by simp
  have "last ?l = last args" "hd ?l = CHR ''[''" using assms(4) by (simp_all add: l)
  then have trim: "trim ?l = ?l" using assms(5) by (intro trim_same) (simp_all add: l is_space_def)
  have "\<not> digit_in 10 (CHR '']'')" by code_simp
  then have "time_of_text (tl ?l) = int t"
    using assms(2) by (simp add: l time_of_text_def strtoul_prefix time_t_of_def)
  moreover have "drop 13 ?l = name @ CHR '';'' # args" using len by (simp add: l)
  moreover have "cut_at (CHR '';'') (name @ CHR '';'' # args) = (name, Some args)"
    by (rule cut_at_append [OF assms(3)])
  moreover have "?l ! 0 = CHR ''[''" "?l ! 11 = CHR '']''" "?l ! 12 = CHR '' ''"
    using len by (simp_all add: l nth_append)
  moreover have "15 \<le> length ?l"
  proof -
    have "Suc 0 \<le> length args" using assms(4) by (cases args) simp_all
    then show ?thesis unfolding l using len by simp
  qed
  ultimately show ?thesis by (simp add: split_command_def Let_def trim)
qed

section \<open>Commands and the event lists\<close>

lemma map_filter_Some [simp]: "List.map_filter (\<lambda>c. c) (map Some xs) = xs"
  by (induction xs) (simp_all add: map_filter_simps)

lemma queue_step_program:
  "queue_step w (w\<lparr>last_command_check := t\<rparr>)" "queue_step w (emit a (w\<lparr>last_command_status_update := t\<rparr>))"
  by (auto intro!: queue_step_same simp: emit_def)

lemma check_for_external_commands_kept:
  assumes "check_for_external_commands ev n (b, w) = Some (r, b', w')" "buffer_rep n b cmds"
    "\<forall>l\<in>set cmds. within_model l" "files_within_model ev" "queue_inv w q"
  shows "\<exists>q'. queues_kept w q w' q'"
proof (cases "check_external_commands (cfg w)")
  case False
  with assms(1,5) show ?thesis using queues_kept_same [of w q w]
    by (auto simp: check_for_external_commands_def)
next
  case True
  let ?w1 = "w\<lparr>last_command_check := now ev\<rparr>"
  let ?w2 = "if last_command_status_update ?w1 + 10 \<le> last_command_check ?w1
             then emit Update_program_status (?w1\<lparr>last_command_status_update := last_command_check ?w1\<rparr>) else ?w1"
  obtain b1 where "take_all n b = (map Some cmds, b1)" using take_all_rep [OF assms(2)] by blast
  with True assms(1) have run: "process_commands ev cmds ?w2 = Some w'"
    by (auto simp: check_for_external_commands_def Let_def)
  have "queue_step w ?w2"
    using queue_step_program queue_step_trans [OF queue_step_program(1) queue_step_program(2)] by simp
  from queue_step_trans [OF this commands.keeps_process_commands [OF run assms(4,3)]] assms(5)
  show ?thesis by (rule queue_stepD)
qed

text \<open>C8. Whatever commands wait in the buffer but three, processing them, and those in the files
  they name, keeps both event lists well formed: sorted, doubly linked, the index complete; an
  event that was queued stays, leaves, or the new ones are fresh. The two acknowledgements are
  left out, for they queue a second expiry event for an object, and so is
  READ_STATE_INFORMATION, whose application of the retention file (downtimes are registered
  again there) is not modelled.\<close>

theorem commands_keep_event_lists:
  assumes "check_for_external_commands ev n (b, w) = Some (r, b', w')" "buffer_rep n b cmds"
    "\<forall>l\<in>set cmds. within_model l" "files_within_model ev" "queue_inv w q"
  shows "\<exists>q'. queues_kept w q w' q'"
  by (rule check_for_external_commands_kept [OF assms])

definition ex_line :: string where
  "ex_line = command_line 1700000000 ''DISABLE_NOTIFICATIONS'' ''now''"

definition ex_buffer :: circular_buffer where
  "ex_buffer = snd (push_line 2 ex_line (init_buffer 2))"

lemma ex_command: "command_named ''DISABLE_NOTIFICATIONS'' =
    Some \<lparr>cmd_id = CMD_DISABLE_NOTIFICATIONS, func = redirector disable_all_notifications, thread_safe = False\<rparr>"
  by (simp add: command_named_def lst_command_def program_commands_def entry_def)

lemma ex_accepted: "accept_command ex_line = Some (1700000000, ''DISABLE_NOTIFICATIONS'', ''now'')"
  using split_command_line [of 1700000000 "''DISABLE_NOTIFICATIONS''" "''now''"]
  by (simp add: accept_command_def known_or_custom_def ex_command ex_line_def is_space_def)

lemma ex_processed:
  "process_commands ev [ex_line] w = (let c = (1700000000, ''DISABLE_NOTIFICATIONS'', ''now'') in
     Some (broker_external_command False c (disable_all_notifications
       (broker_external_command True c (emit External_command_stats w)))))"
  by (simp add: process_commands.simps [of ev "[ex_line]"] process_commands.simps [of ev "[]"] ex_accepted
      command_file_def run_handler_def ex_command redirector_def Let_def)

lemma ex_buffer_rep: "buffer_rep 2 ex_buffer [ex_line]"
  using push_rep [OF init_rep, of 2 ex_line] by (auto simp: ex_buffer_def)

lemma ex_line_within: "within_model ex_line"
  by (simp add: within_model_def ex_accepted commands_left_out_def)

theorem commands_keep_event_lists_witness:
  "\<exists>r b' w' q'. check_for_external_commands ex_env 2 (ex_buffer, ex_engine) = Some (r, b', w') \<and>
     queue_inv w' q' \<and> \<not> enable_notifications (cfg w')"
proof -
  from take_all_rep [OF ex_buffer_rep] obtain b1 where "take_all 2 ex_buffer = ([Some ex_line], b1)" by auto
  then obtain r b' w' where run: "check_for_external_commands ex_env 2 (ex_buffer, ex_engine) = Some (r, b', w')"
    "\<not> enable_notifications (cfg w')"
    by (simp add: check_for_external_commands_def Let_def map_filter_simps ex_processed broker_external_command_def
        emit_def disable_all_notifications_def switch_notifications_def switch_program_def ex_engine_def ex_cfg_def)
  have files: "files_within_model ex_env" by (simp add: files_within_model_def ex_env_def)
  have "queue_inv ex_engine (\<lambda>_. [])" using ex_empty_queues by (simp add: queue_inv_def event_queues_def ex_engine_def)
  from commands_keep_event_lists [OF run(1) ex_buffer_rep _ files this] ex_line_within obtain q' where
    "queues_kept ex_engine (\<lambda>_. []) w' q'" by auto
  with run show ?thesis by (meson queues_keptD(2))
qed

section \<open>Passive check results\<close>

definition passive_service_line :: "nat \<Rightarrow> string \<Rightarrow> string \<Rightarrow> nat \<Rightarrow> string \<Rightarrow> string" where
  "passive_service_line t host_name svc_description return_code output =
     command_line t ''PROCESS_SERVICE_CHECK_RESULT''
       (host_name @ '';'' @ svc_description @ '';'' @ decimal return_code @ '';'' @ output)"

lemma passive_service_command:
  "command_named ''PROCESS_SERVICE_CHECK_RESULT'' =
     Some \<lparr>cmd_id = CMD_PROCESS_SERVICE_CHECK_RESULT,
       func = redirector_cmd (\<lambda>ev id t. cmd_process_service_check_result ev t), thread_safe = True\<rparr>"
  by (simp add: command_named_def lst_command_def program_commands_def host_commands_def hostgroup_commands_def
      service_commands_def entry_def safe_entry_def)

text \<open>C9. A passive check result reaches the reaper as it was written: the line with an entry
  time of ten digits, a host and service the engine knows and accepts passive results for, a
  return code and an output queues exactly one result, with that time, those names, that code
  and that output, and changes nothing else but what the broker is told.\<close>

theorem passive_service_result_arrives:
  assumes "10 ^ 9 \<le> t" "t < 10 ^ 10" "output \<noteq> []" "\<not> is_space (last output)" "code \<le> 3"
    "CHR '';'' \<notin> set h" "CHR '';'' \<notin> set d" "h \<in> set (host_list w)" "(h, d) \<in> set (service_list w)"
    "accept_passive_service_checks (cfg w)" "s_accept_passive_service_checks (svc_of w (h, d))"
  shows "\<exists>w'. execute ev (passive_service_line t h d code output) w = Some (True, w') \<and>
    to_reap w' = to_reap w @ [passive_result ev SERVICE_CHECK (int t) h (Some d) (int code) output] \<and>
    w'\<lparr>to_reap := to_reap w, out := out w\<rparr> = w"
proof -
  let ?args = "h @ '';'' @ d @ '';'' @ decimal code @ '';'' @ output"
  let ?c = "(int t, ''PROCESS_SERVICE_CHECK_RESULT'', ?args)"
  let ?w = "broker_external_command True ?c (emit External_command_stats w)"
  let ?r = "passive_result ev SERVICE_CHECK (int t) h (Some d) (int code) output"
  have acc: "accept_command (passive_service_line t h d code output) = Some ?c"
    using split_command_line [OF assms(1,2), of "''PROCESS_SERVICE_CHECK_RESULT''" ?args] assms(3,4)
    by (simp add: accept_command_def known_or_custom_def passive_service_command passive_service_line_def)
  have cuts: "cut_at (CHR '';'') ?args = (h, Some (d @ '';'' @ decimal code @ '';'' @ output))"
    "cut_at (CHR '';'') (d @ '';'' @ decimal code @ '';'' @ output) = (d, Some (decimal code @ '';'' @ output))"
    "cut_at (CHR '';'') (decimal code @ '';'' @ output) = (decimal code, Some output)"
    using cut_at_append [OF assms(6)] cut_at_append [OF assms(7)] cut_at_append [OF decimal_no_semicolon] by auto
  have same: "?w = w\<lparr>out := out ?w\<rparr>" by (simp add: broker_external_command_def emit_def)
  have "process_passive_service_check ev (int t) h d (int code) output ?w = (OK, push_check_result ?r ?w)"
    using assms(8-11) by (subst (1 2) same)
      (simp add: process_passive_service_check_def named_or_addressed_def find_host_def find_service_def)
  then have run: "run_handler ev ?c ?w = Some (push_check_result ?r ?w)"
    using return_code_back [OF assms(5)]
    by (simp add: run_handler_def passive_service_command redirector_cmd_def cmd_process_service_check_result_def
        or_error_def cuts [simplified])
  have nofile: "command_file ev ?c = None"
    by (simp add: command_file_def passive_service_command redirector_cmd_def)
  have "execute ev (passive_service_line t h d code output) w =
      Some (True, broker_external_command False ?c (push_check_result ?r ?w))"
    using run nofile by (simp add: execute_def process_commands.simps [of ev "[passive_service_line t h d code output]"]
        process_commands.simps [of ev "[]"] acc)
  then show ?thesis
    by (simp add: broker_external_command_def emit_def push_check_result_def)
qed

theorem passive_service_result_arrives_witness:
  "\<exists>w'. execute ex_env (passive_service_line 1700000000 ''h'' ''s'' 2 ''CRITICAL - down'') ex_engine = Some (True, w') \<and>
     length (to_reap w') = 1"
  using passive_service_result_arrives [of 1700000000 "''CRITICAL - down''" 2 "''h''" "''s''" ex_engine ex_env]
  by (fastforce simp: is_space_def ex_engine_def ex_cfg_def ex_service_def)

text \<open>C38. A passive result of a host that takes them is queued exactly when passive checks of
  \<^emph>\<open>services\<close> are on: the program wide switch for hosts, whatever its value, is never looked at.\<close>

theorem passive_host_result_dropped:
  assumes "h \<in> set (host_list w)" "h_accept_passive_host_checks (host_of w h)" "0 \<le> code" "code \<le> 2"
  shows "process_passive_host_check ev t h code output (w\<lparr>cfg := (cfg w)\<lparr>accept_passive_host_checks := b\<rparr>\<rparr>) =
    (if accept_passive_service_checks (cfg w)
     then (OK, push_check_result (passive_result ev HOST_CHECK t h None code output)
                 (w\<lparr>cfg := (cfg w)\<lparr>accept_passive_host_checks := b\<rparr>\<rparr>))
     else (ERROR, w\<lparr>cfg := (cfg w)\<lparr>accept_passive_host_checks := b\<rparr>\<rparr>))"
  using assms by (auto simp: process_passive_host_check_def named_or_addressed_def find_host_def)

definition ex_services_off :: engine where
  "ex_services_off = ex_engine\<lparr>cfg := ex_cfg\<lparr>accept_passive_service_checks := False\<rparr>\<rparr>"

theorem passive_host_result_dropped_witness:
  "fst (process_passive_host_check ex_env 900 ''h'' 0 ''UP''
     (ex_services_off\<lparr>cfg := (cfg ex_services_off)\<lparr>accept_passive_host_checks := True\<rparr>\<rparr>)) = ERROR"
proof -
  have "''h'' \<in> set (host_list ex_services_off)" "h_accept_passive_host_checks (host_of ex_services_off ''h'')"
    "\<not> accept_passive_service_checks (cfg ex_services_off)"
    by (simp_all add: ex_services_off_def ex_engine_def ex_host_def)
  then show ?thesis
    using passive_host_result_dropped [of "''h''" ex_services_off 0 ex_env 900 "''UP''" True] by simp
qed

end
