(* ===== verification/Command_Loop.thy ===== *)
theory Command_Loop
  imports Command_Safety Event_Loop_Safety
begin

text \<open>
  The main loop with the external command module loaded: the module registers
  \<open>callback_external_command\<close> (\<^verbatim>\<open>src/modules/external_commands/src/main.cc\<close>), which processes
  the commands that wait in the buffer whenever the loop tells the broker to check for them.
\<close>

text \<open>The callback for the check event of the loop, with what waits in the buffer of \<open>n\<close> slots.\<close>

definition callback_external_command :: "env \<Rightarrow> nat \<Rightarrow> circular_buffer \<Rightarrow> engine \<Rightarrow> engine option" where
  "callback_external_command ev n b w = map_option (\<lambda>r. snd (snd r)) (check_for_external_commands ev n (b, w))"

definition with_commands :: "nat \<Rightarrow> circular_buffer \<Rightarrow> turn \<Rightarrow> turn" where
  "with_commands n b t = t\<lparr>t_external_commands := callback_external_command (t_env t) n b\<rparr>"

lemma callback_external_command_step:
  assumes "buffer_rep n b cmds" "\<forall>l\<in>set cmds. within_model l" "files_within_model ev"
    "callback_external_command ev n b w = Some w'"
  shows "queue_step w w'"
  unfolding queue_step_def
proof (intro allI impI)
  fix q assume q: "queue_inv w q"
  from assms(4) obtain r b' where "check_for_external_commands ev n (b, w) = Some (r, b', w')"
    by (auto simp: callback_external_command_def)
  from check_for_external_commands_kept [OF this assms(1-3) q] show "\<exists>q'. queues_kept w q w' q'" .
qed

lemma with_commands_ok:
  assumes "buffer_rep n b cmds" "\<forall>l\<in>set cmds. within_model l" "files_within_model (t_env t)"
    "\<And>w. queue_step w (t_apply t w)" "\<And>f a w. queue_step w (t_user_function t f a w)"
  shows "turn_ok (with_commands n b t)"
  using callback_external_command_step [OF assms(1-3)] assms(4,5) by (simp add: turn_ok_def with_commands_def)

lemma ex_callback:
  assumes "check_external_commands (cfg w)"
  shows "\<exists>w'. callback_external_command ex_env 2 ex_buffer w = Some w' \<and> \<not> enable_notifications (cfg w')"
proof -
  obtain b1 where "take_all 2 ex_buffer = ([Some ex_line], b1)"
    using take_all_rep [OF ex_buffer_rep] by auto
  then show ?thesis
    using assms by (simp add: callback_external_command_def check_for_external_commands_def Let_def map_filter_simps
        ex_processed broker_external_command_def emit_def disable_all_notifications_def switch_notifications_def
        switch_program_def)
qed

lemma ex_command_turn: "turn_ok (with_commands 2 ex_buffer ex_turn)"
  by (rule with_commands_ok [OF ex_buffer_rep])
    (simp_all add: ex_line_within ex_turn_def files_within_model_def ex_env_def queue_step_same)

lemma ex_turn_time:
  assumes "t_env t = ex_env" "0 < time_change_threshold (cfg w)"
  shows "\<exists>m1. handle_time t (handle_reload t (ex_loop w)) = Some m1 \<and>
     ml_engine m1 = emit Update_program_status w"
proof -
  have "now ex_env = 1000" by (simp add: ex_env_def)
  then show ?thesis
    using assms by (simp add: handle_time_def handle_reload_def ex_loop_def upd_engine_def ulong_of_def Let_def)
qed

lemma ex_command_check:
  "\<exists>m. dispatch_turn (with_commands 2 ex_buffer ex_turn) (ex_loop (ex_ticking EVENT_COMMAND_CHECK False)) =
     Some (False, m) \<and> \<not> enable_notifications (cfg (ml_engine m))"
proof -
  let ?t = "with_commands 2 ex_buffer ex_turn" and ?w = "ex_ticking EVENT_COMMAND_CHECK False"
  let ?q = "(\<lambda>_. [])(High := [0 :: addr])"
  have t: "t_env ?t = ex_env" by (simp add: with_commands_def ex_turn_def)
  have w: "0 < time_change_threshold (cfg ?w)" "check_external_commands (cfg ?w)" "list_head (evs ?w) High = Some 0"
    "run_time (heap (evs ?w) 0) = 100" "event_type (heap (evs ?w) 0) = EVENT_COMMAND_CHECK"
    "\<not> recurring (heap (evs ?w) 0)"
    by (simp_all add: ex_ticking_def ex_engine_def ex_cfg_def ex_tick_def ex_empty_def ex_event_def)
  obtain m1 where m1: "handle_time ?t (handle_reload ?t (ex_loop ?w)) = Some m1"
    "ml_engine m1 = emit Update_program_status ?w" using ex_turn_time [OF t w(1)] by blast
  have inv: "queue_inv (ml_engine m1) ?q"
    using ex_ticking_inv [of EVENT_COMMAND_CHECK False]
    by (simp add: m1(2) hash_type_of_def event_numbers emit_def queue_inv_def event_queues_def)
  let ?m2 = "popped High 0 m1"
  have "steady (heap (evs (ml_engine ?m2)) 0) = steady (heap (evs ?w) 0)"
    using payload_kept [OF pop_event_queues(3) [OF queue_invD(4,5) [OF inv], of High 0 "[]"], of 0]
    by (simp add: popped_def upd_engine_def m1(2) emit_def)
  then have e: "event_type (heap (evs (ml_engine ?m2)) 0) = EVENT_COMMAND_CHECK" using w(5) by (simp add: steady_def)
  let ?w3 = "emit Broker_external_command_check
    ((ml_engine ?m2)\<lparr>evs := broker_timed_event NEB_timed_execute (Some 0) (evs (ml_engine ?m2))\<rparr>)"
  have "check_external_commands (cfg ?w3)" using w(2) by (simp add: popped_def upd_engine_def m1(2) emit_def)
  then obtain w' where w': "callback_external_command ex_env 2 ex_buffer ?w3 = Some w'"
    "\<not> enable_notifications (cfg w')" using ex_callback by blast
  have h: "handle_timed_event ?t 0 ?m2 = Some (?m2\<lparr>ml_engine := w'\<rparr>)"
    using w'(1) e by (simp add: handle_timed_event_def exec_event_def external_command_check_def upd_engine_def
        on_engine_def broker_timed_event_def event_numbers with_commands_def ex_turn_def)
  have "recurring (heap (evs w') 0) = recurring (heap (evs ?w) 0)"
    using handled_event [OF ex_command_turn inv _ h, of "[]"] by (auto simp: steady_def m1(2) emit_def)
  then have "run_event ?t High 0 m1 = Some (?m2\<lparr>ml_engine := w'\<rparr>)"
    using h w(6) by (simp add: run_event_def popped_def)
  moreover have "handle_events ?t m1 = run_event ?t High 0 m1"
    using w(3,4) by (simp add: handle_events_by_due next_due_def due_def m1(2) emit_def t ex_env_def)
  moreover have "dispatch_turn ?t (ex_loop ?w) = map_option (Pair False) (handle_events ?t m1)"
    using m1(1) w(3) by (simp add: dispatch_turn_def ex_loop_def)
  ultimately show ?thesis using w'(2) by simp
qed

text \<open>C3. The main loop with its external commands keeps the event lists: whatever turns it makes
  (events of any type, time changes, results reaped, checks postponed, and whatever commands but
  acknowledgements and READ_STATE_INFORMATION wait in the buffer when it checks for them), in
  every state it reaches both lists are sorted and doubly linked, the index finds exactly the
  queued checks and acknowledgement expiries, and none of these recurs. Two things are
  assumptions: that the configuration applied by a reload keeps the lists (its code is not
  modelled), and that the functions modules register for user events do.\<close>

theorem loop_keeps_event_lists:
  assumes "loop_reach (\<lambda>i. with_commands n (b i) (ts i)) m0 k m" "queue_inv (ml_engine m0) q"
    "\<And>i. buffer_rep n (b i) (cmds i)" "\<And>i. \<forall>l\<in>set (cmds i). within_model l"
    "\<And>i. files_within_model (t_env (ts i))"
    "\<And>i w. queue_step w (t_apply (ts i) w)" "\<And>i f a w. queue_step w (t_user_function (ts i) f a w)"
  shows "\<exists>q'. queue_inv (ml_engine m) q'"
proof (rule reach_queue_inv [OF assms(1,2)])
  show "turn_ok (with_commands n (b i) (ts i))" for i
    by (rule with_commands_ok [OF assms(3-7)])
qed

theorem loop_keeps_event_lists_witness:
  "\<exists>m q. loop_reach (\<lambda>_. with_commands 2 ex_buffer ex_turn) (ex_loop (ex_ticking EVENT_COMMAND_CHECK False)) 1 m \<and>
     queue_inv (ml_engine m) q \<and> \<not> enable_notifications (cfg (ml_engine m))"
proof -
  let ?t = "with_commands 2 ex_buffer ex_turn" and ?w = "ex_ticking EVENT_COMMAND_CHECK False"
  let ?m0 = "ex_loop ?w"
  have inv: "queue_inv (ml_engine ?m0) ((\<lambda>_. [])(High := [0]))"
    using ex_ticking_inv [of EVENT_COMMAND_CHECK False] by (simp add: ex_loop_def hash_type_of_def event_numbers)
  obtain m where m: "dispatch_turn ?t ?m0 = Some (False, m)" "\<not> enable_notifications (cfg (ml_engine m))"
    using ex_command_check by blast
  then have reach: "loop_reach (\<lambda>_. ?t) ?m0 1 m"
    using loop_turn [OF loop_start, of "\<lambda>_. ?t" ?m0 m] by simp
  from loop_keeps_event_lists [of 2 "\<lambda>_. ex_buffer" "\<lambda>_. ex_turn", OF reach inv ex_buffer_rep]
  have "\<exists>q'. queue_inv (ml_engine m) q'"
    using ex_line_within by (simp add: ex_turn_def files_within_model_def ex_env_def queue_step_same)
  with reach m(2) show ?thesis by blast
qed

end
