(* ===== verification/Host_Tree.thy ===== *)
theory Host_Tree
  imports Switches Examples
begin

text \<open>
  The propagation of a command along the tree of hosts (\<^verbatim>\<open>enable_and_propagate_notifications\<close>
  and \<^verbatim>\<open>disable_and_propagate_notifications\<close> of
  \<^verbatim>\<open>modules/external_commands/src/commands.cc\<close>). The locale \<open>host_walk\<close> is the contract
  of what is done at a host: it leaves the tree alone. Then the recursion returns on every tree
  without cycles and does it at the descendants of the host, and nowhere else.
\<close>

section \<open>Descendants\<close>

definition child_rel :: "engine \<Rightarrow> (host_id \<times> host_id) set" where
  "child_rel w = {(c, h). Some c \<in> set (h_child_hosts (host_of w h))}"

definition descends :: "engine \<Rightarrow> host_id \<Rightarrow> host_id \<Rightarrow> bool" where
  "descends w h x \<longleftrightarrow> (x, h) \<in> (child_rel w)\<^sup>+"

lemma child_rel_same: "(\<And>x. h_child_hosts (host_of w' x) = h_child_hosts (host_of w x)) \<Longrightarrow> child_rel w' = child_rel w"
  by (simp add: child_rel_def)

lemma descends_step: "descends w h x \<longleftrightarrow> (\<exists>c. Some c \<in> set (h_child_hosts (host_of w h)) \<and> (x, c) \<in> (child_rel w)\<^sup>*)"
  by (auto simp: descends_def trancl_unfold_right child_rel_def)

section \<open>The walk\<close>

locale host_walk =
  fixes visit :: "host_id \<Rightarrow> engine \<Rightarrow> engine"
  assumes keeps_tree: "h_child_hosts (host_of (visit c w) x) = h_child_hosts (host_of w x)"
begin

abbreviation walk :: "host_id option list \<Rightarrow> engine \<Rightarrow> engine option" where
  "walk \<equiv> walk_children (\<lambda>c w. Some (visit c w))"

lemma fold_keeps_tree: "h_child_hosts (host_of (fold visit hs w) x) = h_child_hosts (host_of w x)"
  by (induction hs arbitrary: w) (simp_all add: keeps_tree)

lemmas fold_keeps_rel = child_rel_same [OF fold_keeps_tree]

definition visits :: "host_id option list \<Rightarrow> engine \<Rightarrow> host_id set \<Rightarrow> bool" where
  "visits cs w hs \<longleftrightarrow> (\<exists>ys. set ys = hs \<and> walk cs w = Some (fold visit ys w))"

lemma walk_list:
  assumes "\<And>c w1. Some c \<in> set cs \<Longrightarrow> child_rel w1 = T \<Longrightarrow> visits (h_child_hosts (host_of w1 c)) w1 {x. (x, c) \<in> T\<^sup>+}"
    and "child_rel w = T"
  shows "visits cs w {x. \<exists>c. Some c \<in> set cs \<and> (x, c) \<in> T\<^sup>*}"
  using assms
proof (induction cs arbitrary: w)
  case Nil
  then show ?case by (simp add: visits_def walk_children.simps [of _ "[]"])
next
  case (Cons m cs)
  show ?case
  proof (cases m)
    case None
    then have "visits (m # cs) w = visits cs w" by (simp add: visits_def walk_children.simps [of _ "None # cs"] fun_eq_iff)
    moreover have "visits cs w {x. \<exists>c. Some c \<in> set cs \<and> (x, c) \<in> T\<^sup>*}"
      by (rule Cons.IH [OF Cons.prems(1) Cons.prems(2)]) simp_all
    ultimately show ?thesis using None by simp
  next
    case (Some c)
    from Cons.prems(1) [of c w] Cons.prems(2) Some obtain ys where ys: "set ys = {x. (x, c) \<in> T\<^sup>+}"
      "walk (h_child_hosts (host_of w c)) w = Some (fold visit ys w)" by (auto simp: visits_def)
    have rel: "child_rel (fold visit (ys @ [c]) w) = T" unfolding fold_keeps_rel by (rule Cons.prems(2))
    have "visits cs (fold visit (ys @ [c]) w) {x. \<exists>c. Some c \<in> set cs \<and> (x, c) \<in> T\<^sup>*}"
      by (rule Cons.IH [OF Cons.prems(1) rel]) simp_all
    then obtain zs where zs: "set zs = {x. \<exists>c. Some c \<in> set cs \<and> (x, c) \<in> T\<^sup>*}"
      "walk cs (fold visit (ys @ [c]) w) = Some (fold visit zs (fold visit (ys @ [c]) w))"
      by (auto simp: visits_def)
    have "walk (m # cs) w = Some (fold visit (ys @ [c] @ zs) w)"
      using ys(2) zs(2) Some by (simp add: walk_children.simps [of _ "Some c # cs"])
    moreover have "set (ys @ [c] @ zs) = {x. \<exists>c. Some c \<in> set (m # cs) \<and> (x, c) \<in> T\<^sup>*}"
      using ys(1) zs(1) Some by (auto simp: rtrancl_eq_or_trancl)
    ultimately show ?thesis unfolding visits_def by blast
  qed
qed

lemma walk_below:
  assumes "wf (child_rel w)"
  shows "visits (h_child_hosts (host_of w h)) w {x. descends w h x}"
proof -
  have "\<forall>w1. child_rel w1 = child_rel w \<longrightarrow> visits (h_child_hosts (host_of w1 h)) w1 {x. (x, h) \<in> (child_rel w)\<^sup>+}"
    using assms
  proof (induction h rule: wf_induct_rule)
    case (less h)
    show ?case
    proof (intro allI impI)
      fix w1 assume w1: "child_rel w1 = child_rel w"
      have "visits (h_child_hosts (host_of w1 h)) w1
          {x. \<exists>c. Some c \<in> set (h_child_hosts (host_of w1 h)) \<and> (x, c) \<in> (child_rel w)\<^sup>*}"
      proof (rule walk_list [OF _ w1])
        fix c w2 assume "Some c \<in> set (h_child_hosts (host_of w1 h))" "child_rel w2 = child_rel w"
        then show "visits (h_child_hosts (host_of w2 c)) w2 {x. (x, c) \<in> (child_rel w)\<^sup>+}"
          using less.IH [of c] w1 by (auto simp: child_rel_def)
      qed
      then show "visits (h_child_hosts (host_of w1 h)) w1 {x. (x, h) \<in> (child_rel w)\<^sup>+}"
        using descends_step [of w1 h] w1 by (simp add: descends_def)
    qed
  qed
  then show ?thesis by (simp add: descends_def)
qed

end

section \<open>Switching notifications\<close>

definition switch_host_notifications :: "bool \<Rightarrow> host_id \<Rightarrow> engine \<Rightarrow> engine" where
  "switch_host_notifications b = (if b then enable_host_notifications else disable_host_notifications)"

definition switch_service_notifications :: "bool \<Rightarrow> svc_id \<Rightarrow> engine \<Rightarrow> engine" where
  "switch_service_notifications b = (if b then enable_service_notifications else disable_service_notifications)"

lemmas notification_switch_defs = switch_host_notifications_def switch_service_notifications_def
  enable_host_notifications_def disable_host_notifications_def enable_service_notifications_def
  disable_service_notifications_def switch_host_def switch_service_def Let_def access_defs

lemma switch_host_notifications_simps [simp]:
  "h_notifications_enabled (host_of (switch_host_notifications b h w) x) =
     (if x = h then b else h_notifications_enabled (host_of w x))"
  "h_child_hosts (host_of (switch_host_notifications b h w) x) = h_child_hosts (host_of w x)"
  "h_services (host_of (switch_host_notifications b h w) x) = h_services (host_of w x)"
  "svc_of (switch_host_notifications b h w) = svc_of w"
  by (auto simp: notification_switch_defs)

lemma switch_service_notifications_simps [simp]:
  "s_notifications_enabled (svc_of (switch_service_notifications b s w) x) =
     (if x = s then b else s_notifications_enabled (svc_of w x))"
  "host_of (switch_service_notifications b s w) = host_of w"
  by (auto simp: notification_switch_defs)

lemma each_member_simps [simp]:
  "host_of (each_member (switch_service_notifications b) xs w) = host_of w"
  "s_notifications_enabled (svc_of (each_member (switch_service_notifications b) xs w) s) =
     (if Some s \<in> set xs then b else s_notifications_enabled (svc_of w s))"
  unfolding each_member_def by (induction xs arbitrary: w) (auto split: option.splits)

abbreviation visit_host :: "bool \<Rightarrow> bool \<Rightarrow> bool \<Rightarrow> host_id \<Rightarrow> engine \<Rightarrow> engine" where
  "visit_host b ah as \<equiv> switch_child (switch_host_notifications b) (switch_service_notifications b) ah as"

lemma visit_host_simps [simp]:
  "h_notifications_enabled (host_of (visit_host b ah as c w) x) =
     (if ah \<and> x = c then b else h_notifications_enabled (host_of w x))"
  "h_child_hosts (host_of (visit_host b ah as c w) x) = h_child_hosts (host_of w x)"
  "h_services (host_of (visit_host b ah as c w) x) = h_services (host_of w x)"
  "s_notifications_enabled (svc_of (visit_host b ah as c w) s) =
     (if as \<and> Some s \<in> set (h_services (host_of w c)) then b else s_notifications_enabled (svc_of w s))"
  by (auto simp: switch_child_def Let_def)

lemma fold_visit_host [simp]:
  "h_services (host_of (fold (visit_host b ah as) hs w) x) = h_services (host_of w x)"
  "h_notifications_enabled (host_of (fold (visit_host b ah as) hs w) x) =
     (if ah \<and> x \<in> set hs then b else h_notifications_enabled (host_of w x))"
  "s_notifications_enabled (svc_of (fold (visit_host b ah as) hs w) s) =
     (if as \<and> (\<exists>x\<in>set hs. Some s \<in> set (h_services (host_of w x))) then b else s_notifications_enabled (svc_of w s))"
  by (induction hs arbitrary: w) auto

interpretation notification_walk: host_walk "visit_host b ah as" for b ah as
  by unfold_locales simp

definition propagate_notifications ::
    "bool \<Rightarrow> host_id \<Rightarrow> bool \<Rightarrow> bool \<Rightarrow> bool \<Rightarrow> engine \<Rightarrow> engine option" where
  "propagate_notifications b =
     (if b then enable_and_propagate_notifications else disable_and_propagate_notifications)"

lemma propagate_notifications_walk:
  "propagate_notifications b h own ah as w =
     (let w1 = (if own then switch_host_notifications b h w else w)
      in notification_walk.walk b ah as (h_child_hosts (host_of w1 h)) w1)"
  by (simp add: propagate_notifications_def enable_and_propagate_notifications_def
      disable_and_propagate_notifications_def switch_host_notifications_def switch_service_notifications_def)

section \<open>Properties\<close>

text \<open>C14. Enabling or disabling notifications beyond a host returns when no host descends from
  itself, and switches exactly what its flags name: the host, the hosts that descend from it,
  the services of those; every other host and service keeps its switch.\<close>

theorem notifications_propagate_to_descendants:
  assumes "wf (child_rel w)"
  shows "\<exists>w'. (if b then enable_and_propagate_notifications else disable_and_propagate_notifications) h own ah as w = Some w' \<and>
    (\<forall>x. h_notifications_enabled (host_of w' x) =
       (if own \<and> x = h \<or> ah \<and> descends w h x then b else h_notifications_enabled (host_of w x))) \<and>
    (\<forall>s. s_notifications_enabled (svc_of w' s) =
       (if as \<and> (\<exists>x. descends w h x \<and> Some s \<in> set (h_services (host_of w x))) then b
        else s_notifications_enabled (svc_of w s)))"
proof -
  let ?w1 = "if own then switch_host_notifications b h w else w"
  have rel: "child_rel ?w1 = child_rel w" by (rule child_rel_same) simp
  then have "descends ?w1 = descends w" by (simp add: descends_def fun_eq_iff)
  with notification_walk.walk_below [of ?w1 b ah as h] assms rel obtain ys where ys: "set ys = {x. descends w h x}"
    "notification_walk.walk b ah as (h_child_hosts (host_of ?w1 h)) ?w1 = Some (fold (visit_host b ah as) ys ?w1)"
    by (auto simp: notification_walk.visits_def)
  show ?thesis
    unfolding propagate_notifications_def [symmetric] propagate_notifications_walk Let_def
    by (rule exI, rule conjI [OF ys(2)]) (auto simp: ys(1))
qed

definition ex_tree :: engine where
  "ex_tree = upd_host ''r'' (\<lambda>v. v\<lparr>h_child_hosts := [Some ''a'', Some ''b'']\<rparr>)
     (upd_host ''a'' (\<lambda>v. v\<lparr>h_child_hosts := [Some ''c'']\<rparr>) ex_engine)"

lemma ex_tree_rel: "child_rel ex_tree = {(''a'', ''r''), (''b'', ''r''), (''c'', ''a'')}"
  by (auto simp: child_rel_def ex_tree_def upd_host_def ex_engine_def ex_host_def split: if_splits)

lemma ex_tree_wf: "wf (child_rel ex_tree)"
  by (rule wf_subset [of "measure (\<lambda>x. if x = ''r'' then 2 else if x = ''a'' then 1 else 0)"]) (auto simp: ex_tree_rel)

theorem notifications_propagate_to_descendants_witness:
  "\<exists>w'. disable_and_propagate_notifications ''r'' False True False ex_tree = Some w' \<and>
     \<not> h_notifications_enabled (host_of w' ''c'') \<and> h_notifications_enabled (host_of w' ''r'')"
proof -
  have "descends ex_tree ''r'' ''c''" unfolding descends_def ex_tree_rel
    by (rule trancl_trans [of _ "''a''"]) (auto intro: r_into_trancl)
  moreover have "h_notifications_enabled (host_of ex_tree ''r'')"
    by (simp add: ex_tree_def upd_host_def ex_engine_def ex_host_def)
  moreover have "\<not> descends ex_tree ''r'' ''r''" using wf_acyclic [OF ex_tree_wf] by (simp add: descends_def acyclic_def)
  ultimately show ?thesis
    using notifications_propagate_to_descendants [OF ex_tree_wf, of False "''r''" False True False] by auto
qed

end
