(* ===== verification/Calendar.thy ===== *)
theory Calendar
  imports Prelude
begin

text \<open>
  The calendar of the C library as the time period code uses it: \<open>localtime_r\<close> and
  \<open>mktime\<close> over the broken down time \<open>struct tm\<close>, in the Gregorian calendar. The time zone
  database is not part of the program: a \<open>clock\<close> says which local clock reading an instant
  has and which instant a local reading stands for.
\<close>

section \<open>Days and dates\<close>

definition leap_year :: "int \<Rightarrow> bool" where
  "leap_year y \<longleftrightarrow> y mod 4 = 0 \<and> (y mod 100 \<noteq> 0 \<or> y mod 400 = 0)"

text \<open>Days from the first of January 1970 to the first of January of a year.\<close>

definition days_before_year :: "int \<Rightarrow> int" where
  "days_before_year y = 365 * (y - 1970) + (y - 1) div 4 - (y - 1) div 100 + (y - 1) div 400 - 477"

definition days_before_month :: "bool \<Rightarrow> int \<Rightarrow> int" where
  "days_before_month leap m =
     (if m < 1 then 0 else if m < 2 then 31
      else of_bool leap + (if m < 3 then 59 else if m < 4 then 90 else if m < 5 then 120
        else if m < 6 then 151 else if m < 7 then 181 else if m < 8 then 212 else if m < 9 then 243
        else if m < 10 then 273 else if m < 11 then 304 else if m < 12 then 334 else 365))"

text \<open>The day number of a date; months count from zero and carry into the year.\<close>

definition days_of_date :: "int \<Rightarrow> int \<Rightarrow> int \<Rightarrow> int" where
  "days_of_date y m d =
     (let y1 = y + m div 12 in days_before_year y1 + days_before_month (leap_year y1) (m mod 12) + d - 1)"

definition year_of_day :: "int \<Rightarrow> int" where
  "year_of_day n =
     (let y = 1970 + n * 400 div 146097
      in if days_before_year (y + 1) \<le> n then y + 1 else if days_before_year y \<le> n then y else y - 1)"

definition month_of_yday :: "bool \<Rightarrow> int \<Rightarrow> int" where
  "month_of_yday leap r = int (length (takeWhile (\<lambda>m. days_before_month leap m \<le> r) [1..11]))"

definition date_of_day :: "int \<Rightarrow> int \<times> int \<times> int" where
  "date_of_day n =
     (let y = year_of_day n; r = n - days_before_year y; m = month_of_yday (leap_year y) r
      in (y, m, r - days_before_month (leap_year y) m + 1))"

section \<open>Broken down time\<close>

record tm =
  tm_sec :: int
  tm_min :: int
  tm_hour :: int
  tm_mday :: int
  tm_mon :: int
  tm_year :: int
  tm_wday :: int

text \<open>The last field is what a \<open>struct tm\<close> on the stack holds before it is set.\<close>

record clock =
  local_of :: "int \<Rightarrow> int"
  instant_of :: "int \<Rightarrow> int"
  stack_tm :: tm

definition localtime_r :: "clock \<Rightarrow> int \<Rightarrow> tm" where
  "localtime_r c t =
     (let s = local_of c t; n = s div 86400; r = s mod 86400; (y, m, d) = date_of_day n
      in \<lparr>tm_sec = r mod 60, tm_min = r div 60 mod 60, tm_hour = r div 3600, tm_mday = d, tm_mon = m,
          tm_year = y - 1900, tm_wday = (n + 4) mod 7\<rparr>)"

definition tm_seconds :: "tm \<Rightarrow> int" where
  "tm_seconds t = 86400 * days_of_date (tm_year t + 1900) (tm_mon t) (tm_mday t) + 3600 * tm_hour t +
     60 * tm_min t + tm_sec t"

text \<open>The instant and the structure as \<open>mktime\<close> normalises it.\<close>

definition mktime :: "clock \<Rightarrow> tm \<Rightarrow> int \<times> tm" where
  "mktime c t = (let x = instant_of c (tm_seconds t) in (x, localtime_r c x))"

section \<open>The calendar is right\<close>

lemma div_bounds:
  assumes "0 < (k :: int)"
  shows "k * (x div k) \<le> x" "x < k * (x div k) + k"
  using pos_mod_sign [OF assms, of x] pos_mod_bound [OF assms, of x] mult_div_mod_eq [of k x] by linarith+

lemma div_pred: "0 < k \<Longrightarrow> (y :: int) div k = (y - 1) div k + of_bool (k dvd y)"
proof (cases "k dvd y")
  case True
  assume k: "0 < k"
  from True obtain q where "y = k * q" by blast
  with k show ?thesis using int_div_pos_eq [of "y - 1" k "q - 1" "k - 1"] by (simp add: algebra_simps)
next
  case False
  assume k: "0 < k"
  have "y mod k \<noteq> 0" using False by (simp add: dvd_eq_mod_eq_0)
  then have "y - 1 = k * (y div k) + (y mod k - 1)" "0 \<le> y mod k - 1" "y mod k - 1 < k"
    using pos_mod_sign [OF k, of y] pos_mod_bound [OF k, of y] mult_div_mod_eq [of k y] by linarith+
  then have "(y - 1) div k = y div k" by (rule int_div_pos_eq)
  with False show ?thesis by simp
qed

lemma leap_year_dvd: "leap_year y \<longleftrightarrow> 4 dvd y \<and> (\<not> 100 dvd y \<or> 400 dvd y)"
  by (simp add: leap_year_def dvd_eq_mod_eq_0)

lemma leap_days: "of_bool (4 dvd y) - of_bool (100 dvd y) + of_bool (400 dvd y) = (of_bool (leap_year y) :: int)"
proof -
  have "400 dvd y \<Longrightarrow> 100 dvd y" "100 dvd y \<Longrightarrow> 4 dvd y"
    by (erule dvd_trans [rotated], simp)+
  then show ?thesis
    by (cases "4 dvd y"; cases "100 dvd y"; cases "400 dvd y") (simp_all add: leap_year_dvd)
qed

lemma next_year:
  assumes "a' = a + p" "b' = b + q" "c' = c + r" "p - q + r = (s :: int)"
  shows "365 * (y + 1 - 1970) + a' - b' + c' - 477 = 365 * (y - 1970) + a - b + c - 477 + 365 + s"
  using assms by simp

lemma days_before_year_Suc: "days_before_year (y + 1) = days_before_year y + 365 + of_bool (leap_year y)"
  unfolding days_before_year_def add_diff_cancel_right'
  by (rule next_year [OF div_pred div_pred div_pred leap_days]) simp_all

lemma year_bounds_linear:
  fixes x :: int
  assumes "4 * a \<le> x" "x < 4 * a + 4" "100 * b \<le> x" "x < 100 * b + 100" "400 * c \<le> x" "x < 400 * c + 400"
  shows "400 * (365 * (x - 1969) + a - b + c - 477) \<le> 146097 * (x - 1969) + 600"
    "146097 * (x - 1969) - 600 \<le> 400 * (365 * (x - 1969) + a - b + c - 477)"
  using assms by (simp_all add: algebra_simps)

lemma year_bounds:
  "400 * days_before_year y \<le> 146097 * (y - 1970) + 600" "146097 * (y - 1970) - 600 \<le> 400 * days_before_year y"
proof -
  have e: "y - 1970 = y - 1 - 1969" by simp
  show "400 * days_before_year y \<le> 146097 * (y - 1970) + 600" "146097 * (y - 1970) - 600 \<le> 400 * days_before_year y"
    unfolding days_before_year_def e by (rule year_bounds_linear; rule div_bounds; simp)+
qed

lemma year_of_day: "days_before_year (year_of_day n) \<le> n \<and> n < days_before_year (year_of_day n + 1)"
proof -
  define k where "k = n * 400 div 146097"
  have k: "146097 * k \<le> n * 400" "n * 400 < 146097 * k + 146097"
    unfolding k_def using div_bounds [of 146097 "n * 400"] by simp_all
  have "days_before_year (1970 + k - 1) \<le> n" using k year_bounds(1) [of "1970 + k - 1"] by simp
  moreover have "n < days_before_year (1970 + k + 1 + 1)" using k year_bounds(2) [of "1970 + k + 1 + 1"] by simp
  ultimately show ?thesis by (auto simp: year_of_day_def k_def [symmetric] Let_def)
qed

lemma upto_11: "[1..11 :: int] = [1, 2, 3, 4, 5, 6, 7, 8, 9, 10, 11]"
  by code_simp

lemma month_of_yday:
  assumes "0 \<le> r" "r < 365 + of_bool leap"
  shows "0 \<le> month_of_yday leap r" "month_of_yday leap r \<le> 11"
    "days_before_month leap (month_of_yday leap r) \<le> r" "r < days_before_month leap (month_of_yday leap r + 1)"
  using assms by (cases leap; simp add: month_of_yday_def upto_11 days_before_month_def)+

definition month_length :: "int \<Rightarrow> int \<Rightarrow> int" where
  "month_length y m = days_before_month (leap_year y) (m + 1) - days_before_month (leap_year y) m"

definition valid_date :: "int \<Rightarrow> int \<Rightarrow> int \<Rightarrow> bool" where
  "valid_date y m d \<longleftrightarrow> 0 \<le> m \<and> m \<le> 11 \<and> 1 \<le> d \<and> d \<le> month_length y m"

lemma date_of_day_valid: "date_of_day n = (y, m, d) \<Longrightarrow> valid_date y m d \<and> days_of_date y m d = n"
proof -
  assume e: "date_of_day n = (y, m, d)"
  let ?r = "n - days_before_year y"
  from e have y: "y = year_of_day n" and m: "m = month_of_yday (leap_year y) ?r"
    and d: "d = ?r - days_before_month (leap_year y) m + 1" by (auto simp: date_of_day_def Let_def)
  have "0 \<le> ?r" "?r < 365 + of_bool (leap_year y)"
    using year_of_day [of n] days_before_year_Suc [of y] by (auto simp: y)
  note month_of_yday [OF this, folded m]
  then show ?thesis by (simp add: valid_date_def month_length_def days_of_date_def d)
qed

lemma days_before_year_mono: "a \<le> b \<Longrightarrow> days_before_year a \<le> days_before_year b"
proof (induction "nat (b - a)" arbitrary: b)
  case (Suc n)
  then have "days_before_year a \<le> days_before_year (b - 1)" by simp
  then show ?case using days_before_year_Suc [of "b - 1"] by simp
qed simp

lemma year_unique: "days_before_year y \<le> n \<Longrightarrow> n < days_before_year (y + 1) \<Longrightarrow> year_of_day n = y"
  using year_of_day [of n] days_before_year_mono [of "year_of_day n + 1" y] days_before_year_mono [of "y + 1" "year_of_day n"]
  by linarith

lemma days_before_month_mono: "a \<le> b \<Longrightarrow> days_before_month leap a \<le> days_before_month leap b"
  by (cases leap) (simp_all add: days_before_month_def)

lemma month_unique:
  assumes "days_before_month leap m \<le> r" "r < days_before_month leap (m + 1)"
    "days_before_month leap m' \<le> r" "r < days_before_month leap (m' + 1)"
  shows "m' = m"
  using assms days_before_month_mono [of "m' + 1" m leap] days_before_month_mono [of "m + 1" m' leap] by linarith

lemma month_length_cases:
  "month_length y m = (if m < 0 \<or> 11 < m then 0 else if m = 1 then 28 + of_bool (leap_year y)
     else if m \<in> {3, 5, 8, 10} then 30 else 31)"
  by (cases "leap_year y") (auto simp: month_length_def days_before_month_def)

lemma date_unique:
  assumes "valid_date y m d"
  shows "date_of_day (days_of_date y m d) = (y, m, d)"
proof -
  let ?l = "leap_year y" and ?n = "days_of_date y m d"
  let ?r = "days_before_month ?l m + d - 1"
  from assms have m: "0 \<le> m" "m \<le> 11" and d: "1 \<le> d" "days_before_month ?l m + d \<le> days_before_month ?l (m + 1)"
    by (simp_all add: valid_date_def month_length_def)
  have n: "?n = days_before_year y + ?r" using m by (simp add: days_of_date_def)
  have "0 \<le> days_before_month ?l m" using days_before_month_mono [of 0 m ?l] m by (simp add: days_before_month_def)
  moreover have "days_before_month ?l (m + 1) \<le> 365 + of_bool ?l"
    using days_before_month_mono [of "m + 1" 12 ?l] m by (simp add: days_before_month_def)
  ultimately have r: "0 \<le> ?r" "?r < 365 + of_bool ?l" using d by linarith+
  have y: "year_of_day ?n = y" using r days_before_year_Suc [of y] by (intro year_unique) (simp_all add: n)
  have "month_of_yday ?l ?r = m"
    using month_unique [OF _ _ month_of_yday(3,4) [OF r], of m] d by simp
  then show ?thesis by (simp add: date_of_day_def y Let_def) (simp add: n)
qed

text \<open>Days beyond the end of a month are days of the next one.\<close>

lemma days_next_month:
  assumes "0 \<le> m" "m \<le> 11"
  shows "days_of_date y m (month_length y m + k) = days_of_date y (m + 1) k"
proof (cases "m = 11")
  case True
  then show ?thesis
    by (simp add: days_of_date_def month_length_cases days_before_month_def days_before_year_Suc)
next
  case False
  with assms have "(m + 1) div 12 = 0" "(m + 1) mod 12 = m + 1" "m div 12 = 0" "m mod 12 = m" by simp_all
  then show ?thesis by (simp add: days_of_date_def month_length_def)
qed

lemma month_length_bounds: "0 \<le> m \<Longrightarrow> m \<le> 11 \<Longrightarrow> 28 \<le> month_length y m \<and> month_length y m \<le> 31"
  by (simp add: month_length_cases)

lemma date_beyond_month:
  assumes "0 \<le> m" "m \<le> 11" "month_length y m < d" "d \<le> month_length y m + 28"
  shows "fst (snd (date_of_day (days_of_date y m d))) \<noteq> m"
proof -
  let ?k = "d - month_length y m"
  have e: "days_of_date y m d = days_of_date y (m + 1) ?k" using days_next_month [OF assms(1,2), of y ?k] by simp
  show ?thesis
  proof (cases "m = 11")
    case True
    then have "days_of_date y (m + 1) ?k = days_of_date (y + 1) 0 ?k" by (simp add: days_of_date_def)
    moreover have "valid_date (y + 1) 0 ?k" using assms by (simp add: valid_date_def month_length_cases)
    ultimately show ?thesis using e date_unique True by simp
  next
    case False
    then have "valid_date y (m + 1) ?k"
      using assms month_length_bounds [of "m + 1" y] by (simp add: valid_date_def)
    then show ?thesis using e date_unique by simp
  qed
qed

lemma days_of_date_day: "0 \<le> m \<Longrightarrow> m \<le> 11 \<Longrightarrow> days_of_date y m d = days_of_date y m 1 + d - 1"
  by (simp add: days_of_date_def)

end
