(* ===== verification/Timeperiods.thy ===== *)
theory Timeperiods
  imports Calendar "HOL-Library.Monad_Syntax"
begin

text \<open>
  Time periods (\<^verbatim>\<open>src/timeperiod.cc\<close>): the limits of the five kinds of date range, the time
  ranges of a day, the next valid and the next invalid time of a period with its exceptions
  and exclusions. A time of \<open>-1\<close> stands for none, as in the source. What a date range says of
  its days is an \<open>option\<close> (\<open>None\<close> for the result \<open>false\<close>) inside the \<open>option\<close> of the loops
  that may not end.
\<close>

section \<open>Data\<close>

record timerange =
  range_start :: nat
  range_end :: nat

record daterange =
  syear :: int
  smon :: int
  smday :: int
  swday :: int
  swday_offset :: int
  eyear :: int
  emon :: int
  emday :: int
  ewday :: int
  ewday_offset :: int
  skip_interval :: int
  times :: "timerange list"

datatype daterange_type = CALENDAR_DATE | MONTH_DATE | MONTH_DAY | MONTH_WEEK_DAY | WEEK_DAY

definition DATERANGE_TYPES :: "daterange_type list" where
  "DATERANGE_TYPES = [CALENDAR_DATE, MONTH_DATE, MONTH_DAY, MONTH_WEEK_DAY, WEEK_DAY]"

text \<open>An exclusion is the pointer resolved from its name.\<close>

record timeperiod =
  tp_days :: "nat \<Rightarrow> timerange list"
  tp_exceptions :: "daterange_type \<Rightarrow> daterange list"
  tp_exclusions :: "string option list"

record time_info =
  ti_preferred_time :: int
  ti_preftime :: tm
  ti_midnight :: int

section \<open>Days\<close>

definition set_midnight :: "tm \<Rightarrow> tm" where
  "set_midnight t = t\<lparr>tm_hour := 0, tm_min := 0, tm_sec := 0\<rparr>"

definition add_round_days_to_midnight :: "clock \<Rightarrow> int \<Rightarrow> int \<Rightarrow> int" where
  "add_round_days_to_midnight c midnight skip =
     (let next_day = localtime_r c (midnight + skip)
      in if tm_hour next_day \<noteq> 0 \<or> tm_min next_day \<noteq> 0 \<or> tm_sec next_day \<noteq> 0
         then fst (mktime c (set_midnight (localtime_r c (midnight + skip + 12 * 60 * 60))))
         else midnight + skip)"

definition tm_of_date :: "tm \<Rightarrow> int \<Rightarrow> int \<Rightarrow> int \<Rightarrow> tm" where
  "tm_of_date t year month day = t\<lparr>tm_mday := day, tm_mon := month, tm_year := year\<rparr>"

text \<open>The last day of the month, from the 31st downwards.\<close>

partial_function (option) last_day_of_month :: "clock \<Rightarrow> int \<Rightarrow> int \<Rightarrow> int \<Rightarrow> tm \<Rightarrow> tm option" where
  "last_day_of_month c year month day t =
     (let (midnight, t1) = mktime c (tm_of_date t year month day)
      in if midnight = - 1 \<or> tm_mon t1 \<noteq> month then last_day_of_month c year month (day - 1) t1
         else Some t1)"

declare last_day_of_month.simps [code]

text \<open>
  The branch for days counted from the end never sets the time of day of its structure: it is
  what the stack holds.
\<close>

definition calculate_time_from_day_of_month :: "clock \<Rightarrow> int \<Rightarrow> int \<Rightarrow> int \<Rightarrow> int option" where
  "calculate_time_from_day_of_month c year month monthday =
     (if monthday > 0
      then let (midnight, t) = mktime c (tm_of_date (set_midnight (stack_tm c)) year month monthday)
           in Some (if tm_mon t \<noteq> month then - 1 else midnight)
      else do {
        t \<leftarrow> last_day_of_month c year month 31 (stack_tm c);
        Some (fst (mktime c (tm_of_date t year month
          (if - monthday \<ge> tm_mday t then 1 else tm_mday t + monthday + 1))))
      })"

partial_function (option) last_weekday_of_month :: "clock \<Rightarrow> int \<Rightarrow> int \<Rightarrow> int \<Rightarrow> tm \<Rightarrow> tm option" where
  "last_weekday_of_month c year month days t =
     (let (midnight, t1) = mktime c (tm_of_date t year month (days - 7 + 1))
      in if midnight = - 1 \<or> tm_mon t1 \<noteq> month then last_weekday_of_month c year month (days - 7) t1
         else Some t1)"

declare last_weekday_of_month.simps [code]

definition calculate_time_from_weekday_of_month :: "clock \<Rightarrow> int \<Rightarrow> int \<Rightarrow> int \<Rightarrow> int \<Rightarrow> int option" where
  "calculate_time_from_weekday_of_month c year month weekday weekday_offset =
     (let t = snd (mktime c (tm_of_date (set_midnight (stack_tm c)) year month 1));
          days = (if weekday - tm_wday t < 0 then weekday - tm_wday t + 7 else weekday - tm_wday t)
      in if weekday_offset > 0
         then let (midnight, t1) = mktime c (tm_of_date t year month
                     (days + (min 5 weekday_offset - 1) * 7 + 1))
              in Some (if tm_mon t1 \<noteq> month then - 1 else midnight)
         else do {
           t1 \<leftarrow> last_weekday_of_month c year month (days + 5 * 7) t;
           let back = (weekday_offset + 1) * 7;
           Some (fst (mktime c (tm_of_date t1 year month
             (if - back \<ge> tm_mday t1 then tm_mday t1 mod 7 else tm_mday t1 + back))))
         })"

section \<open>Date ranges\<close>

definition one_day_later :: "clock \<Rightarrow> int \<Rightarrow> int" where
  "one_day_later c t = add_round_days_to_midnight c t (24 * 60 * 60)"

definition daterange_calendar_date_to_time_t :: "clock \<Rightarrow> daterange \<Rightarrow> (int \<times> int) option" where
  "daterange_calendar_date_to_time_t c r =
     (let (start, t) = mktime c (tm_of_date (set_midnight (stack_tm c)) (syear r - 1900) (smon r) (smday r))
      in if start = - 1 then None
         else if eyear r \<noteq> 0
         then let end_day = fst (mktime c (tm_of_date (set_midnight t) (eyear r - 1900) (emon r) (emday r)))
              in if end_day = - 1 then None else Some (start, one_day_later c end_day)
         else Some (start, - 1))"

text \<open>At most three years are tried, the first whose end lies after the preferred time counts.\<close>

fun month_date_years :: "clock \<Rightarrow> daterange \<Rightarrow> int \<Rightarrow> int \<Rightarrow> int \<Rightarrow> nat \<Rightarrow> int \<times> int \<Rightarrow> (int \<times> int) option" where
  "month_date_years c r pref decay year 0 se = Some se"
| "month_date_years c r pref decay year (Suc n) se = do {
     start \<leftarrow> calculate_time_from_day_of_month c year (smon r) (smday r);
     end_day \<leftarrow> calculate_time_from_day_of_month c (year + decay) (emon r) (emday r);
     if end_day \<noteq> - 1
     then (if pref < one_day_later c end_day then Some (start, one_day_later c end_day)
           else month_date_years c r pref decay (year + 1) n (start, one_day_later c end_day))
     else month_date_years c r pref decay (year + 1) n (start, end_day)
   }"

definition if_ordered :: "int \<times> int \<Rightarrow> (int \<times> int) option" where
  "if_ordered se = (if fst se < snd se then Some se else None)"

definition daterange_month_date_to_time_t :: "clock \<Rightarrow> daterange \<Rightarrow> time_info \<Rightarrow> (int \<times> int) option option" where
  "daterange_month_date_to_time_t c r ti =
     (let end_before_start = (smon r > emon r \<or> smon r = emon r \<and> smday r > emday r);
          year = tm_year (ti_preftime ti)
      in map_option if_ordered (month_date_years c r (ti_preferred_time ti) (of_bool end_before_start)
           (if end_before_start then year - 1 else year) 3 (- 1, - 1)))"

definition month_decay :: "daterange \<Rightarrow> bool" where
  "month_decay r =
     (if smday r \<ge> 0 then (if emday r \<ge> 0 then emday r < smday r else False)
      else (if emday r \<ge> 0 then smday r > emday r else True))"

text \<open>
  The limits from two days, each given by how it is computed; both have to exist.
\<close>

definition limits :: "clock \<Rightarrow> int option \<Rightarrow> int option \<Rightarrow> (int \<times> int) option option" where
  "limits c start_day end_day = do {
     start \<leftarrow> start_day;
     end1 \<leftarrow> end_day;
     Some (if start = - 1 \<or> end1 = - 1 then None else Some (start, one_day_later c end1))
   }"

definition daterange_month_day_to_time_t :: "clock \<Rightarrow> daterange \<Rightarrow> time_info \<Rightarrow> (int \<times> int) option option" where
  "daterange_month_day_to_time_t c r ti =
     (let year = tm_year (ti_preftime ti); month = tm_mon (ti_preftime ti);
          day = calculate_time_from_day_of_month c
      in map_option (\<lambda>l. Option.bind l if_ordered)
        (if \<not> month_decay r then limits c (day year month (smday r)) (day year month (emday r))
         else do {
           l \<leftarrow> limits c (if month = 0 then day (year - 1) 11 (smday r) else day year (month - 1) (smday r))
                 (day year month (emday r));
           case l of
             None \<Rightarrow> Some None
           | Some (start, end1) \<Rightarrow>
               if ti_preferred_time ti \<ge> end1
               then limits c (day year month (smday r))
                      (if month = 11 then day (year + 1) 0 (emday r) else day year (month + 1) (emday r))
               else Some l
         }))"

definition daterange_month_week_day_to_time_t :: "clock \<Rightarrow> daterange \<Rightarrow> time_info \<Rightarrow> (int \<times> int) option option" where
  "daterange_month_week_day_to_time_t c r ti =
     (let year = tm_year (ti_preftime ti);
          start_in = (\<lambda>y. calculate_time_from_weekday_of_month c y (smon r) (swday r) (swday_offset r));
          end_in = (\<lambda>y. calculate_time_from_weekday_of_month c y (emon r) (ewday r) (ewday_offset r))
      in map_option (\<lambda>l. Option.bind l if_ordered)
        (if \<not> smon r > emon r then limits c (start_in year) (end_in year)
         else do {
           l \<leftarrow> limits c (start_in (year - 1)) (end_in year);
           case l of
             None \<Rightarrow> Some None
           | Some (start, end1) \<Rightarrow>
               if ti_preferred_time ti \<ge> end1 then limits c (start_in year) (end_in (year + 1)) else Some l
         }))"

text \<open>
  The month that is tried next is always the one after the preferred time; only the year of
  December moves on.
\<close>

partial_function (option) daterange_week_day_from ::
    "clock \<Rightarrow> daterange \<Rightarrow> time_info \<Rightarrow> int \<Rightarrow> int \<Rightarrow> (int \<times> int) option option" where
  "daterange_week_day_from c r ti year month =
     Option.bind (calculate_time_from_weekday_of_month c year month (swday r) (swday_offset r)) (\<lambda>start.
     Option.bind (calculate_time_from_weekday_of_month c year month (ewday r) (ewday_offset r)) (\<lambda>end1.
     if end1 = - 1 \<and> ewday_offset r < 0 then Some None
     else
       Option.bind
         (if end1 = - 1
          then (if month \<noteq> 11 then calculate_time_from_day_of_month c year (month + 1) 0
                else calculate_time_from_day_of_month c (year + 1) 0 0)
          else Some (one_day_later c end1))
         (\<lambda>end2.
            if start = - 1 \<or> end2 = - 1 \<or> start > end2 then Some None
            else if ti_preferred_time ti < end2 then Some (Some (start, end2))
            else if tm_mon (ti_preftime ti) \<noteq> 11
            then daterange_week_day_from c r ti year (tm_mon (ti_preftime ti) + 1)
            else daterange_week_day_from c r ti (year + 1) 0)))"

declare daterange_week_day_from.simps [code]

definition daterange_week_day_to_time_t :: "clock \<Rightarrow> daterange \<Rightarrow> time_info \<Rightarrow> (int \<times> int) option option" where
  "daterange_week_day_to_time_t c r ti =
     daterange_week_day_from c r ti (tm_year (ti_preftime ti)) (tm_mon (ti_preftime ti))"

text \<open>The start moves on to the next day of a range that skips days.\<close>

definition skip_days :: "clock \<Rightarrow> daterange \<Rightarrow> time_info \<Rightarrow> int \<Rightarrow> int" where
  "skip_days c r ti start =
     (if skip_interval r > 1 \<and> start < ti_preferred_time ti
      then let days = ulong_of (ti_midnight ti - start) div (3600 * 24);
               over = days mod skip_interval r
           in add_round_days_to_midnight c start (time_t_of (ulong_of
                ((if over = 0 then days else days - over + skip_interval r) * 24 * 60 * 60)))
      else start)"

definition daterange_to_time_t ::
    "clock \<Rightarrow> daterange \<Rightarrow> daterange_type \<Rightarrow> time_info \<Rightarrow> (int \<times> int) option option" where
  "daterange_to_time_t c r type ti =
     map_option (map_option (\<lambda>(start, end1). (skip_days c r ti start, end1)))
       (case type of
          CALENDAR_DATE \<Rightarrow> Some (daterange_calendar_date_to_time_t c r)
        | MONTH_DATE \<Rightarrow> daterange_month_date_to_time_t c r ti
        | MONTH_DAY \<Rightarrow> daterange_month_day_to_time_t c r ti
        | MONTH_WEEK_DAY \<Rightarrow> daterange_month_week_day_to_time_t c r ti
        | WEEK_DAY \<Rightarrow> daterange_week_day_to_time_t c r ti)"

partial_function (option) earliest_midnight_in_daterange ::
    "clock \<Rightarrow> int \<Rightarrow> daterange \<Rightarrow> int \<Rightarrow> int \<Rightarrow> int option" where
  "earliest_midnight_in_daterange c preferred_time r start end1 =
     (if start < end1 \<or> end1 = - 1
      then
        if preferred_time < start \<or> preferred_time \<ge> start \<and> preferred_time < one_day_later c start then Some start
        else earliest_midnight_in_daterange c preferred_time r
               (if skip_interval r \<le> 1 then one_day_later c start
                else add_round_days_to_midnight c start (skip_interval r * 24 * 60 * 60)) end1
      else Some (- 1))"

declare earliest_midnight_in_daterange.simps [code]

section \<open>Time ranges\<close>

definition timerange_to_time_t :: "clock \<Rightarrow> timerange \<Rightarrow> tm \<Rightarrow> (int \<times> int) option" where
  "timerange_to_time_t c r midnight =
     (let (start, t) = mktime c (midnight\<lparr>tm_hour := int (range_start r div 60 div 60),
                                          tm_min := int (range_start r div 60 mod 60)\<rparr>);
          end1 = fst (mktime c (t\<lparr>tm_hour := int (range_end r div 60 div 60),
                                    tm_min := int (range_end r div 60 mod 60)\<rparr>))
      in if start \<le> end1 then Some (start, end1) else None)"

fun earliest_in_timeranges :: "clock \<Rightarrow> int \<Rightarrow> tm \<Rightarrow> timerange list \<Rightarrow> int \<Rightarrow> int" where
  "earliest_in_timeranges c pref midnight [] earliest = earliest"
| "earliest_in_timeranges c pref midnight (r # rs) earliest =
     earliest_in_timeranges c pref midnight rs
       (case timerange_to_time_t c r midnight of
          None \<Rightarrow> earliest
        | Some (start, end1) \<Rightarrow>
            if start \<ge> pref then (if earliest = - 1 \<or> start < earliest then start else earliest)
            else if pref < end1 then pref
            else earliest)"

definition get_next_valid_time_in_timeranges :: "clock \<Rightarrow> int \<Rightarrow> timerange list \<Rightarrow> int" where
  "get_next_valid_time_in_timeranges c preferred_time timeranges =
     earliest_in_timeranges c preferred_time (set_midnight (localtime_r c preferred_time)) timeranges (- 1)"

text \<open>The end of the first range that holds the preferred time.\<close>

fun end_of_current_range :: "clock \<Rightarrow> int \<Rightarrow> tm \<Rightarrow> timerange list \<Rightarrow> int" where
  "end_of_current_range c pref midnight [] = - 1"
| "end_of_current_range c pref midnight (r # rs) =
     (case timerange_to_time_t c r midnight of
        None \<Rightarrow> end_of_current_range c pref midnight rs
      | Some (start, end1) \<Rightarrow>
          if start \<le> pref \<and> pref < end1 \<and> end1 \<noteq> - 1 then end1
          else end_of_current_range c pref midnight rs)"

definition time_info_of :: "clock \<Rightarrow> int \<Rightarrow> time_info" where
  "time_info_of c pref =
     (let (midnight, t) = mktime c (set_midnight (localtime_r c pref))
      in \<lparr>ti_preferred_time = pref, ti_preftime = t, ti_midnight = midnight\<rparr>)"

end
