(* ===== verification/Period_Search.thy ===== *)
theory Period_Search
  imports Timeperiods
begin

text \<open>
  The search for the next valid and the next invalid time of a time period
  (\<^verbatim>\<open>_get_next_valid_time_per_timeperiod\<close> and
  \<^verbatim>\<open>_get_next_invalid_time_per_timeperiod\<close> of \<^verbatim>\<open>src/timeperiod.cc\<close>). The two call each
  other through the exclusions of a period; while the exclusions of a period are followed its
  own are cleared, which the list of masked periods stands for.
\<close>

section \<open>The valid times of a day\<close>

text \<open>
  The earliest time found so far, and whether the day is to be skipped because a date range
  that holds it has no valid time left.
\<close>

fun scan_dateranges ::
    "clock \<Rightarrow> daterange_type \<Rightarrow> time_info \<Rightarrow> daterange list \<Rightarrow> int \<times> bool \<Rightarrow> (int \<times> bool) option" where
  "scan_dateranges c ty ti [] st = Some st"
| "scan_dateranges c ty ti (r # rs) st = do {
     l \<leftarrow> daterange_to_time_t c r ty ti;
     case l of
       None \<Rightarrow> scan_dateranges c ty ti rs st
     | Some (start, end1) \<Rightarrow>
         if (start = - 1 \<or> start \<le> ti_midnight ti) \<and> (end1 = - 1 \<or> ti_midnight ti < end1)
         then
           let potential_time = get_next_valid_time_in_timeranges c (ti_preferred_time ti) (times r)
           in if potential_time \<noteq> - 1
              then scan_dateranges c ty ti rs
                     (if fst st = - 1 \<or> potential_time < fst st then potential_time else fst st, False)
              else Some (fst st, True)
         else scan_dateranges c ty ti rs st
   }"

fun scan_exceptions ::
    "clock \<Rightarrow> timeperiod \<Rightarrow> time_info \<Rightarrow> daterange_type list \<Rightarrow> int \<times> bool \<Rightarrow> (int \<times> bool) option" where
  "scan_exceptions c tp ti [] st = Some st"
| "scan_exceptions c tp ti (ty # tys) st =
     (if fst st = - 1 \<and> \<not> snd st
      then Option.bind (scan_dateranges c ty ti (tp_exceptions tp ty) st) (scan_exceptions c tp ti tys)
      else Some st)"

definition valid_time_of_day :: "clock \<Rightarrow> timeperiod \<Rightarrow> time_info \<Rightarrow> int option" where
  "valid_time_of_day c tp ti =
     map_option (\<lambda>(earliest, skip_this_day).
         if \<not> skip_this_day \<and> earliest = - 1
         then get_next_valid_time_in_timeranges c (ti_preferred_time ti)
                (tp_days tp (nat (tm_wday (ti_preftime ti))))
         else earliest)
       (scan_exceptions c tp ti DATERANGE_TYPES (- 1, False))"

section \<open>The end of the current range\<close>

fun current_daterange_end ::
    "clock \<Rightarrow> daterange_type \<Rightarrow> time_info \<Rightarrow> daterange list \<Rightarrow> int option" where
  "current_daterange_end c ty ti [] = Some (- 1)"
| "current_daterange_end c ty ti (r # rs) = do {
     l \<leftarrow> daterange_to_time_t c r ty ti;
     earliest_time \<leftarrow> (case l of
         None \<Rightarrow> Some (- 1)
       | Some (start, end1) \<Rightarrow>
           if ti_preferred_time ti < end1 \<or> end1 = - 1
           then map_option (\<lambda>midnight. if midnight \<noteq> - 1
                  then end_of_current_range c (ti_preferred_time ti) (localtime_r c midnight) (times r) else - 1)
                (earliest_midnight_in_daterange c (ti_preferred_time ti) r start end1)
           else Some (- 1));
     if earliest_time \<noteq> - 1 then Some earliest_time else current_daterange_end c ty ti rs
   }"

fun current_exception_end :: "clock \<Rightarrow> timeperiod \<Rightarrow> time_info \<Rightarrow> daterange_type list \<Rightarrow> int option" where
  "current_exception_end c tp ti [] = Some (- 1)"
| "current_exception_end c tp ti (ty # tys) =
     Option.bind (current_daterange_end c ty ti (tp_exceptions tp ty))
       (\<lambda>earliest. if earliest \<noteq> - 1 then Some earliest else current_exception_end c tp ti tys)"

text \<open>The weekly schedule, today and the seven days ahead.\<close>

fun current_weekday_end :: "clock \<Rightarrow> timeperiod \<Rightarrow> time_info \<Rightarrow> nat list \<Rightarrow> int" where
  "current_weekday_end c tp ti [] = - 1"
| "current_weekday_end c tp ti (k # ks) =
     (let day_start = add_round_days_to_midnight c (ti_midnight ti) (int k * 24 * 60 * 60);
          earliest = end_of_current_range c (ti_preferred_time ti) (localtime_r c day_start)
             (tp_days tp ((nat (tm_wday (ti_preftime ti)) + k) mod 7))
      in if earliest \<noteq> - 1 then earliest else current_weekday_end c tp ti ks)"

definition current_range_end :: "clock \<Rightarrow> timeperiod \<Rightarrow> time_info \<Rightarrow> int option" where
  "current_range_end c tp ti =
     map_option (\<lambda>earliest. if earliest \<noteq> - 1 then earliest else current_weekday_end c tp ti [0..<8])
       (current_exception_end c tp ti DATERANGE_TYPES)"

section \<open>The search\<close>

text \<open>
  The calls: the two searches; their loops over the days of a period, with the original
  preferred time (the search ends one year after it) and, for invalid times, the earliest time
  of the last turn; the loops over the exclusions of a period.
\<close>

record calendar =
  cal_clock :: clock
  timeperiod_of :: "string \<Rightarrow> timeperiod"

datatype period_call =
    Next_valid "string option" int
  | Valid_days string int int
  | Max_invalid "string option list" int int
  | Next_invalid "string option" int
  | Invalid_days string int int int
  | Min_valid "string option list" int int

definition exclusions_of :: "calendar \<Rightarrow> string list \<Rightarrow> string \<Rightarrow> string option list" where
  "exclusions_of k masked p = (if p \<in> set masked then [] else tp_exclusions (timeperiod_of k p))"

definition in_one_year :: "int \<Rightarrow> int" where
  "in_one_year t = t + 366 * 24 * 60 * 60"

definition later_of :: "int \<Rightarrow> int \<Rightarrow> int" where
  "later_of m t = (if t \<noteq> - 1 \<and> (m = - 1 \<or> t > m) then t else m)"

definition earlier_of :: "int \<Rightarrow> int \<Rightarrow> int" where
  "earlier_of m t = (if t \<noteq> - 1 \<and> (m = - 1 \<or> t < m) then t else m)"

partial_function (option) search_period ::
    "calendar \<Rightarrow> string list \<Rightarrow> period_call \<Rightarrow> int option" where
  "search_period k masked call =
     (case call of
        Next_valid tp t \<Rightarrow>
          (case tp of None \<Rightarrow> Some t | Some p \<Rightarrow> search_period k masked (Valid_days p t t))
      | Valid_days p original t \<Rightarrow>
          if \<not> t < in_one_year original then Some original
          else
            Option.bind (valid_time_of_day (cal_clock k) (timeperiod_of k p) (time_info_of (cal_clock k) t)) (\<lambda>earliest.
            if earliest = - 1
            then search_period k masked
                   (Valid_days p original (one_day_later (cal_clock k) (ti_midnight (time_info_of (cal_clock k) t))))
            else
              Option.bind (search_period k (p # masked) (Max_invalid (exclusions_of k masked p) earliest (- 1)))
                (\<lambda>max_invalid.
                   if max_invalid \<noteq> - 1 \<and> max_invalid \<noteq> earliest
                   then search_period k masked (Valid_days p original max_invalid)
                   else Some earliest))
      | Max_invalid exclusions t m \<Rightarrow>
          (case exclusions of
             [] \<Rightarrow> Some m
           | e # es \<Rightarrow> Option.bind (search_period k masked (Next_invalid e t))
               (\<lambda>i. search_period k masked (Max_invalid es t (later_of m i))))
      | Next_invalid tp t \<Rightarrow>
          (case tp of None \<Rightarrow> Some t | Some p \<Rightarrow> search_period k masked (Invalid_days p t t t))
      | Invalid_days p original earliest t \<Rightarrow>
          if \<not> (earliest \<noteq> - 1 \<and> t < in_one_year original) then Some (if earliest \<noteq> - 1 then original else t)
          else
            Option.bind (current_range_end (cal_clock k) (timeperiod_of k p) (time_info_of (cal_clock k) earliest)) (\<lambda>range_end.
            Option.bind (search_period k (p # masked) (Min_valid (exclusions_of k masked p) earliest (- 1)))
              (\<lambda>next_exclusion.
                 if next_exclusion \<noteq> - 1 \<and>
                    next_exclusion < one_day_later (cal_clock k) (ti_midnight (time_info_of (cal_clock k) earliest)) \<and>
                    (range_end = - 1 \<or> next_exclusion \<le> range_end)
                 then Some next_exclusion
                 else search_period k masked
                        (Invalid_days p original (- 1) (if range_end \<noteq> - 1 then range_end else earliest))))
      | Min_valid exclusions t m \<Rightarrow>
          (case exclusions of
             [] \<Rightarrow> Some m
           | e # es \<Rightarrow> Option.bind (search_period k masked (Next_valid e t))
               (\<lambda>v. search_period k masked (Min_valid es t (earlier_of m v)))))"

declare search_period.simps [code]

end
