(* ===== verification/Period_Facts.thy ===== *)
theory Period_Facts
  imports Period_Search
begin

text \<open>
  The search over a weekly schedule. The locale \<open>day_clock\<close> is what the code relies on of
  \<open>localtime_r\<close> and \<open>mktime\<close>: the clock may be put forward and back, but midnight is read once
  a day, every day lasts 23 to 25 hours, and a reading of a day is taken for an instant of that
  day. Time zones of fixed offset are such clocks (\<open>zone_clock\<close>), and so are zones with a summer
  time that does not begin or end at midnight (\<open>summer_clock\<close>). There the search returns the
  earliest time of the schedule.
\<close>

section \<open>Clocks that are put forward and back\<close>

definition zone_clock :: "int \<Rightarrow> tm \<Rightarrow> clock" where
  "zone_clock off st = \<lparr>local_of = (\<lambda>t. t + off), instant_of = (\<lambda>s. s - off), stack_tm = st\<rparr>"

text \<open>
  An hour more from \<open>t0\<close> to \<open>t1\<close>: a reading that the change skips is taken an hour later, one
  that occurs twice is its first occurrence.
\<close>

definition summer_clock :: "int \<Rightarrow> int \<Rightarrow> int \<Rightarrow> tm \<Rightarrow> clock" where
  "summer_clock off t0 t1 st =
     \<lparr>local_of = (\<lambda>t. if t0 \<le> t \<and> t < t1 then t + off + 3600 else t + off),
      instant_of = (\<lambda>s. if t0 \<le> s - off - 3600 \<and> s - off - 3600 < t1 then s - off - 3600 else s - off),
      stack_tm = st\<rparr>"

definition summer_times :: "int \<Rightarrow> int \<Rightarrow> int \<Rightarrow> bool" where
  "summer_times off t0 t1 \<longleftrightarrow> t0 < t1 \<and> 0 < (t0 + off) mod 86400 \<and> (t0 + off) mod 86400 \<le> 79200 \<and>
     0 < (t1 + off) mod 86400 \<and> (t1 + off) mod 86400 \<le> 82800"

lemma tm_same_clock: "t\<lparr>tm_hour := tm_hour t, tm_min := tm_min t, tm_sec := tm_sec t\<rparr> = t"
  by (cases t) simp

lemma tm_same_sec: "tm_sec t = s \<Longrightarrow> t\<lparr>tm_hour := h, tm_min := m\<rparr> = t\<lparr>tm_hour := h, tm_min := m, tm_sec := s\<rparr>"
  by (cases t) simp

locale day_clock =
  fixes c :: clock
  assumes day_interval: "local_of c t div 86400 = d \<longleftrightarrow> instant_of c (86400 * d) \<le> t \<and> t < instant_of c (86400 * (d + 1))"
    and midnight_read: "local_of c (instant_of c (86400 * d)) = 86400 * d"
    and midnight_once: "local_of c t mod 86400 = 0 \<Longrightarrow> t = instant_of c (local_of c t)"
    and stays_in_day: "local_of c (instant_of c s) div 86400 = s div 86400"
    and minutes_kept: "60 dvd s \<Longrightarrow> 60 dvd local_of c (instant_of c s)"
    and day_length: "82800 \<le> instant_of c (86400 * (d + 1)) - instant_of c (86400 * d)"
      "instant_of c (86400 * (d + 1)) - instant_of c (86400 * d) \<le> 90000"
begin

definition day :: "int \<Rightarrow> int" where "day t = local_of c t div 86400"

definition second :: "int \<Rightarrow> int" where "second t = local_of c t mod 86400"

definition start :: "int \<Rightarrow> int" where "start d = instant_of c (86400 * d)"

definition midnight :: "int \<Rightarrow> int" where "midnight t = start (day t)"

lemma second_bounds: "0 \<le> second t" "second t < 86400"
  by (simp_all add: second_def)

lemma day_iff: "day t = d \<longleftrightarrow> start d \<le> t \<and> t < start (d + 1)"
  by (simp only: day_def start_def day_interval)

lemma start_next: "82800 \<le> start (d + 1) - start d" "start (d + 1) - start d \<le> 90000"
  unfolding start_def by (rule day_length)+

lemma start_mono: "d \<le> e \<Longrightarrow> start d + 82800 * (e - d) \<le> start e"
proof (induction "nat (e - d)" arbitrary: e)
  case (Suc n)
  have "start d + 82800 * (e - 1 - d) \<le> start (e - 1)" using Suc(2,3) by (intro Suc(1)) linarith+
  with start_next(1) [of "e - 1"] show ?case by simp
qed simp

lemma midnight_le: "midnight t \<le> t" "t < start (day t + 1)"
  using day_iff [of t "day t"] by (simp_all add: midnight_def)

lemma day_mono: "t \<le> u \<Longrightarrow> day t \<le> day u"
  using midnight_le [of t] midnight_le [of u] start_mono [of "day u + 1" "day t"] by (force simp: midnight_def)

lemma second_start: "second (start d) = 0" "day (start d) = d"
  by (simp_all add: second_def day_def start_def midnight_read)

lemma second_midnight: "second (midnight t) = 0" "day (midnight t) = day t"
  by (simp_all add: midnight_def second_start)

lemma midnight_start: "second t = 0 \<Longrightarrow> t = start (day t)"
proof -
  assume "second t = 0"
  then have "local_of c t mod 86400 = 0" by (simp add: second_def)
  moreover from this have "86400 * day t = local_of c t" unfolding day_def by (metis add_0_right mult_div_mod_eq)
  ultimately show ?thesis using midnight_once by (simp add: start_def)
qed

lemma day_of_reading: "0 \<le> s \<Longrightarrow> s < 86400 \<Longrightarrow> day (instant_of c (86400 * d + s)) = d"
proof -
  assume "0 \<le> s" "s < 86400"
  then have "(86400 * d + s) div 86400 = d" by (intro int_div_pos_eq [OF refl])
  then show ?thesis by (simp add: day_def stays_in_day)
qed

lemma localtime_fields:
  "localtime_r c t = (let (y, m, d) = date_of_day (day t) in
     \<lparr>tm_sec = second t mod 60, tm_min = second t div 60 mod 60, tm_hour = second t div 3600, tm_mday = d,
      tm_mon = m, tm_year = y - 1900, tm_wday = (day t + 4) mod 7\<rparr>)"
  by (simp add: localtime_r_def day_def second_def Let_def)

lemma localtime_clock:
  "tm_hour (localtime_r c t) = second t div 3600" "tm_min (localtime_r c t) = second t div 60 mod 60"
  "tm_sec (localtime_r c t) = second t mod 60" "tm_wday (localtime_r c t) = (day t + 4) mod 7"
  by (simp_all add: localtime_fields split: prod.splits)

lemma seconds_of_day:
  "tm_seconds ((localtime_r c t)\<lparr>tm_hour := h, tm_min := m, tm_sec := s\<rparr>) = 86400 * day t + 3600 * h + 60 * m + s"
proof -
  obtain y mo d where d: "date_of_day (day t) = (y, mo, d)" using prod_cases3 by blast
  from date_of_day_valid [OF d] show ?thesis by (simp add: tm_seconds_def localtime_fields d)
qed

lemma split_second: "3600 * (x div 3600) + 60 * (x div 60 mod 60) + x mod 60 = (x :: int)"
proof -
  have e: "q = 60 * a + b \<Longrightarrow> x = 60 * q + r \<Longrightarrow> 3600 * a + 60 * b + r = x" for q a b r :: int by simp
  have "x div 3600 = x div 60 div 60" by (simp add: zdiv_zmult2_eq [symmetric])
  then show ?thesis by (metis e mult_div_mod_eq)
qed

lemma mktime_in_day:
  "mktime c ((localtime_r c t)\<lparr>tm_hour := h, tm_min := m, tm_sec := s\<rparr>) =
     (instant_of c (86400 * day t + (3600 * h + 60 * m + s)),
      localtime_r c (instant_of c (86400 * day t + (3600 * h + 60 * m + s))))"
  by (simp add: mktime_def Let_def seconds_of_day add.assoc)

lemma mktime_minutes: "tm_sec (localtime_r c t) = 0 \<Longrightarrow>
    mktime c ((localtime_r c t)\<lparr>tm_hour := h, tm_min := m\<rparr>) =
      (instant_of c (86400 * day t + (3600 * h + 60 * m)),
       localtime_r c (instant_of c (86400 * day t + (3600 * h + 60 * m))))"
  using mktime_in_day [where t = t and h = h and m = m and s = 0]
  by (subst tm_same_sec [of _ 0]) simp_all

lemma mktime_midnight: "mktime c (set_midnight (localtime_r c t)) = (midnight t, localtime_r c (midnight t))"
  using mktime_in_day [where t = t and h = 0 and m = 0 and s = 0]
  by (simp add: set_midnight_def midnight_def start_def)

lemma set_midnight_localtime: "set_midnight (localtime_r c t) = localtime_r c (midnight t)"
  by (simp add: set_midnight_def localtime_fields second_midnight split: prod.splits)

text \<open>The next midnight, over a day of 23, 24 or 25 hours.\<close>

lemma next_start: "one_day_later c (start d) = start (d + 1)"
proof -
  let ?t = "start d + 24 * 60 * 60"
  note n = start_next [of d] start_next [of "d + 1"]
  have noon: "day (?t + 12 * 60 * 60) = d + 1" unfolding day_iff using n by simp
  show ?thesis
  proof (cases "second ?t = 0")
    case True
    have "start d \<le> ?t" "?t < start (d + 1 + 1)" using n by simp_all
    then have "d \<le> day ?t" using day_mono [of "start d" ?t] by (simp add: second_start)
    moreover have "day ?t < d + 2"
    proof (rule ccontr)
      assume "\<not> day ?t < d + 2"
      then have "start (d + 2) \<le> start (day ?t)" using start_mono [of "d + 2" "day ?t"] by simp
      then show False using midnight_le(1) [of ?t] \<open>?t < start (d + 1 + 1)\<close> by (simp add: midnight_def add.commute)
    qed
    moreover have "day ?t \<noteq> d" using midnight_start [OF True] by auto
    ultimately have "day ?t = d + 1" by simp
    with midnight_start [OF True] True show ?thesis
      by (simp add: one_day_later_def add_round_days_to_midnight_def Let_def localtime_clock)
  next
    case False
    then have "\<not> (second ?t div 3600 = 0 \<and> second ?t div 60 mod 60 = 0 \<and> second ?t mod 60 = 0)"
      using split_second [of "second ?t"] by auto
    then show ?thesis
      using noon by (auto simp: one_day_later_def add_round_days_to_midnight_def Let_def localtime_clock mktime_midnight midnight_def)
  qed
qed

lemma one_day: "one_day_later c (midnight t) = start (day t + 1)"
  by (simp add: midnight_def next_start)

lemma time_info: "time_info_of c t =
    \<lparr>ti_preferred_time = t, ti_preftime = localtime_r c (midnight t), ti_midnight = midnight t\<rparr>"
  by (simp add: time_info_of_def mktime_midnight)

end

text \<open>Time zones of fixed offset: every day has 86400 seconds.\<close>

locale even_days =
  fixes c :: clock and off :: int
  assumes reading: "local_of c t = t + off" and instant: "instant_of c s = s - off"

sublocale even_days \<subseteq> day_clock c
proof
  show "(local_of c t div 86400 = d) = (instant_of c (86400 * d) \<le> t \<and> t < instant_of c (86400 * (d + 1)))" for t d
    using div_bounds [of 86400 "t + off"] int_div_pos_eq [of "t + off" 86400 d "t + off - 86400 * d"]
    by (auto simp: reading instant)
  show "local_of c t mod 86400 = 0 \<Longrightarrow> t = instant_of c (local_of c t)" for t by (simp add: reading instant)
qed (simp_all add: reading instant)

context even_days
begin

lemma start_even: "start d = 86400 * d - off"
  by (simp add: start_def instant)

lemma midnight_even: "midnight t = 86400 * day t - off"
  by (simp add: midnight_def start_even)

lemma day_second: "t = midnight t + second t"
  by (simp add: midnight_even day_def second_def reading minus_mod_eq_mult_div [symmetric])

lemma day_unique: "86400 * d - off \<le> t \<Longrightarrow> t < 86400 * d - off + 86400 \<Longrightarrow> day t = d"
  by (simp add: day_iff start_even)

lemma mktime_localtime: "mktime c (localtime_r c t) = (t, localtime_r c t)"
proof -
  have "tm_seconds (localtime_r c t) = 86400 * day t + second t"
    using seconds_of_day [where t = t and h = "tm_hour (localtime_r c t)" and m = "tm_min (localtime_r c t)"
        and s = "tm_sec (localtime_r c t)"] split_second [of "second t"]
    by (simp only: tm_same_clock) (simp add: localtime_clock)
  moreover have "86400 * day t + second t - off = t" using day_second [of t] by (simp add: midnight_even)
  ultimately show ?thesis by (simp add: mktime_def instant Let_def)
qed

lemma add_round_days: "second t = 0 \<Longrightarrow> add_round_days_to_midnight c t (86400 * n) = t + 86400 * n"
proof -
  assume "second t = 0"
  then have "second (t + 86400 * n) = 0" unfolding second_def reading by (metis add.commute add.left_commute mod_mult_self2)
  then show ?thesis by (simp add: add_round_days_to_midnight_def Let_def localtime_clock)
qed

end

interpretation zone: even_days "zone_clock off st" off for off st
  by unfold_locales (simp_all add: zone_clock_def)

text \<open>Zones with a summer time.\<close>

lemma summer_start:
  assumes "summer_times off t0 t1"
  shows "instant_of (summer_clock off t0 t1 st) (86400 * d) =
    86400 * d - off - (if (t0 + off) div 86400 < d \<and> d \<le> (t1 + off) div 86400 then 3600 else 0)"
proof -
  define D r E q where "D = (t0 + off) div 86400" "r = (t0 + off) mod 86400" "E = (t1 + off) div 86400" "q = (t1 + off) mod 86400"
  have "t0 + off = 86400 * D + r" "t1 + off = 86400 * E + q" by (simp_all add: D_r_E_q_def)
  then have t: "t0 = 86400 * D + r - off" "t1 = 86400 * E + q - off" by simp_all
  have b: "0 < r" "r \<le> 79200" "0 < q" "q \<le> 82800" using assms by (simp_all add: summer_times_def D_r_E_q_def)
  have "t0 \<le> 86400 * d - off - 3600 \<longleftrightarrow> D < d" "86400 * d - off - 3600 < t1 \<longleftrightarrow> d \<le> E"
    using b unfolding t by (cases "D < d"; cases "d \<le> E"; linarith)+
  then show ?thesis by (simp add: summer_clock_def D_r_E_q_def)
qed

lemma summer_day_clock:
  assumes "summer_times off t0 t1"
  shows "day_clock (summer_clock off t0 t1 st)"
proof -
  define D r E q where "D = (t0 + off) div 86400" "r = (t0 + off) mod 86400" "E = (t1 + off) div 86400" "q = (t1 + off) mod 86400"
  have "t0 + off = 86400 * D + r" "t1 + off = 86400 * E + q" by (simp_all add: D_r_E_q_def)
  then have t: "t0 = 86400 * D + r - off" "t1 = 86400 * E + q - off" by simp_all
  have b: "0 < r" "r \<le> 79200" "0 < q" "q \<le> 82800" and o: "t0 < t1"
    using assms by (simp_all add: summer_times_def D_r_E_q_def)
  have DE: "D \<le> E" using b o unfolding t by (cases "D \<le> E") linarith+
  define c where "c = summer_clock off t0 t1 st"
  note start = summer_start [OF assms, of st, folded D_r_E_q_def c_def]
  have read: "local_of c t = (if t0 \<le> t \<and> t < t1 then t + off + 3600 else t + off)" for t
    by (simp add: c_def summer_clock_def)
  have take: "instant_of c s = (if t0 \<le> s - off - 3600 \<and> s - off - 3600 < t1 then s - off - 3600 else s - off)" for s
    by (simp add: c_def summer_clock_def)
  note read' = read [unfolded t] and take' = take [unfolded t]
  have quot: "x div 86400 = d \<longleftrightarrow> 86400 * d \<le> x \<and> x < 86400 * d + 86400" for x d :: int
    using div_bounds [of 86400 x] int_div_pos_eq [of x 86400 d "x - 86400 * d"] by auto
  have "day_clock c"
  proof
    show "local_of c t div 86400 = d \<longleftrightarrow> instant_of c (86400 * d) \<le> t \<and> t < instant_of c (86400 * (d + 1))" for t d
      using b DE unfolding quot start read'
      by (cases "d \<le> D"; cases "d \<le> E"; cases "d < D"; cases "d < E"; auto)
    show "local_of c (instant_of c (86400 * d)) = 86400 * d" for d
      using b DE unfolding start read' by (cases "d \<le> D"; cases "d \<le> E"; simp)
    show "t = instant_of c (local_of c t)" if "local_of c t mod 86400 = 0" for t
    proof -
      from that obtain d where d: "local_of c t = 86400 * d" by (metis mod_0_imp_dvd dvdE)
      show ?thesis using b DE d [unfolded read'] unfolding d start
        by (cases "d \<le> D"; cases "d \<le> E"; simp split: if_splits)
    qed
    show "local_of c (instant_of c s) div 86400 = s div 86400" for s
    proof -
      define d where "d = s div 86400"
      have "86400 * d \<le> s" "s < 86400 * d + 86400" unfolding d_def using div_bounds [of 86400 s] by simp_all
      then show ?thesis using b DE unfolding d_def [symmetric] quot take' read'
        by (cases "d \<le> D"; cases "d \<le> E"; cases "d < D"; cases "d < E"; auto)
    qed
    show "60 dvd local_of c (instant_of c s)" if "60 dvd s" for s
      using that unfolding take read by (auto intro!: dvd_add)
    show "82800 \<le> instant_of c (86400 * (d + 1)) - instant_of c (86400 * d)"
      "instant_of c (86400 * (d + 1)) - instant_of c (86400 * d) \<le> 90000" for d
      unfolding start by auto
  qed
  then show ?thesis by (simp add: c_def)
qed

text \<open>Paris in the year 2021.\<close>

lemma paris_times: "summer_times 3600 1616893200 1635642000"
  by code_simp

interpretation paris: day_clock "summer_clock 3600 1616893200 1635642000 st" for st
  by (rule summer_day_clock [OF paris_times])

section \<open>The ranges of a day\<close>

definition proper_range :: "timerange \<Rightarrow> bool" where
  "proper_range r \<longleftrightarrow> 60 dvd range_start r \<and> 60 dvd range_end r \<and> range_start r < range_end r \<and> range_end r \<le> 86400"

lemma whole_minutes: "60 dvd n \<Longrightarrow> 3600 * int (n div 60 div 60) + 60 * int (n div 60 mod 60) = int n"
proof -
  assume "60 dvd n"
  then obtain m where m: "n = 60 * m" by blast
  have "60 * (60 * (m div 60)) + 60 * (m mod 60) = 60 * m" by (metis add_mult_distrib2 mult_div_mod_eq)
  then show ?thesis by (simp add: m flip: of_nat_mult of_nat_add)
qed

text \<open>The instants between which a range holds on the day with a number.\<close>

definition range_limits :: "clock \<Rightarrow> int \<Rightarrow> timerange \<Rightarrow> int \<times> int" where
  "range_limits c n r = (instant_of c (86400 * n + int (range_start r)), instant_of c (86400 * n + int (range_end r)))"

text \<open>
  A range holds from its start up to its end; one whose end the clock puts on its start holds
  that instant, one whose end comes before its start holds none.
\<close>

definition range_holds :: "clock \<Rightarrow> int \<Rightarrow> timerange \<Rightarrow> int \<Rightarrow> bool" where
  "range_holds c n r t \<longleftrightarrow>
     (let (s, e) = range_limits c n r in s \<le> e \<and> s \<le> t \<and> (t < e \<or> t = s))"

context day_clock
begin

lemma timerange_instants:
  assumes "proper_range r"
  shows "timerange_to_time_t c r (localtime_r c (midnight t)) =
    (let (s, e) = range_limits c (day t) r in if s \<le> e then Some (s, e) else None)"
proof -
  let ?s = "instant_of c (86400 * day t + int (range_start r))"
  note r = assms [unfolded proper_range_def]
  have "tm_sec (localtime_r c (midnight t)) = 0" by (simp add: localtime_clock second_midnight)
  note first = mktime_minutes [OF this, unfolded second_midnight, where h = "int (range_start r div 60 div 60)"
      and m = "int (range_start r div 60 mod 60)", unfolded whole_minutes [OF conjunct1 [OF r]]]
  have "60 dvd 86400 * day t + int (range_start r)"
    using r by (intro dvd_add) (auto intro: dvd_mult2 simp: int_dvd_int_iff [of 60, simplified, symmetric])
  from minutes_kept [OF this] have "60 dvd second ?s" by (simp add: second_def dvd_mod_iff)
  then have "tm_sec (localtime_r c ?s) = 0" by (simp add: localtime_clock)
  note second = mktime_minutes [OF this, where h = "int (range_end r div 60 div 60)"
      and m = "int (range_end r div 60 mod 60)", unfolded whole_minutes [OF conjunct1 [OF conjunct2 [OF r]]]]
  have "day ?s = day t" using r by (intro day_of_reading) simp_all
  then show ?thesis by (simp add: timerange_to_time_t_def first second range_limits_def)
qed

lemma range_in_day:
  assumes "proper_range r" "range_holds c n r u"
  shows "day u = n"
proof -
  let ?s = "instant_of c (86400 * n + int (range_start r))" and ?e = "instant_of c (86400 * n + int (range_end r))"
  have r: "range_start r < range_end r" "range_end r \<le> 86400" using assms(1) by (simp_all add: proper_range_def)
  then have s: "day ?s = n" by (intro day_of_reading) simp_all
  have "?e \<le> start (n + 1)"
  proof (cases "range_end r = 86400")
    case True
    then show ?thesis by (simp add: start_def algebra_simps)
  next
    case False
    with r have "day ?e = n" by (intro day_of_reading) simp_all
    then show ?thesis by (simp add: day_iff)
  qed
  with s assms(2) show ?thesis by (auto simp: range_holds_def range_limits_def day_iff)
qed

text \<open>The times of a day from a given one on that the ranges allow.\<close>

definition times_from :: "int \<Rightarrow> timerange list \<Rightarrow> int set" where
  "times_from t rs = {u. t \<le> u \<and> (\<exists>r\<in>set rs. range_holds c (day t) r u)}"

definition earliest_from :: "int \<Rightarrow> int set \<Rightarrow> int \<Rightarrow> int \<Rightarrow> bool" where
  "earliest_from t us e x \<longleftrightarrow>
     (if x = - 1 then e = - 1 \<and> us = {} else t \<le> x \<and> (x = e \<or> x \<in> us) \<and> (e \<noteq> - 1 \<longrightarrow> x \<le> e) \<and> (\<forall>u\<in>us. x \<le> u))"

lemma earliest_in_ranges:
  assumes "0 \<le> t" "\<forall>r\<in>set rs. proper_range r" "e = - 1 \<or> t \<le> e"
  shows "earliest_from t (times_from t rs) e (earliest_in_timeranges c t (localtime_r c (midnight t)) rs e)"
  using assms
proof (induction rs arbitrary: e)
  case Nil
  then show ?case by (auto simp: earliest_from_def times_from_def)
next
  case (Cons r rs)
  obtain s f where l: "range_limits c (day t) r = (s, f)" by force
  have r: "proper_range r" using Cons.prems by simp
  have times: "times_from t (r # rs) = {u. t \<le> u \<and> s \<le> f \<and> s \<le> u \<and> (u < f \<or> u = s)} \<union> times_from t rs"
    by (auto simp: times_from_def range_holds_def [of c _ r] l)
  show ?case
  proof (cases "s \<le> f")
    case True
    let ?e1 = "if s \<ge> t then (if e = - 1 \<or> s < e then s else e) else if t < f then t else e"
    have "earliest_from t (times_from t rs) ?e1 (earliest_in_timeranges c t (localtime_r c (midnight t)) rs ?e1)"
      using Cons.prems by (intro Cons.IH) auto
    with True Cons.prems(1,3) show ?thesis
      unfolding times by (auto simp: earliest_from_def timerange_instants [OF r] l split: if_splits)
  next
    case False
    have "earliest_from t (times_from t rs) e (earliest_in_timeranges c t (localtime_r c (midnight t)) rs e)"
      using Cons.prems by (intro Cons.IH) auto
    moreover have "times_from t (r # rs) = times_from t rs" using False by (simp add: times)
    ultimately show ?thesis using False by (simp add: timerange_instants [OF r] l)
  qed
qed

end

section \<open>Weekly schedules\<close>

text \<open>A time is on the schedule of a period if a range of its weekday holds it.\<close>

definition in_schedule :: "clock \<Rightarrow> timeperiod \<Rightarrow> int \<Rightarrow> bool" where
  "in_schedule c tp t \<longleftrightarrow>
     (let n = local_of c t div 86400
      in \<exists>r\<in>set (tp_days tp (nat ((n + 4) mod 7))). range_holds c n r t)"

definition weekly_period :: "timeperiod \<Rightarrow> bool" where
  "weekly_period tp \<longleftrightarrow> (\<forall>ty. tp_exceptions tp ty = []) \<and> tp_exclusions tp = [] \<and>
     (\<forall>d. \<forall>r\<in>set (tp_days tp d). proper_range r)"

lemma no_exceptions: "weekly_period tp \<Longrightarrow> scan_exceptions c tp ti tys st = Some st"
  by (induction tys arbitrary: st) (auto simp: weekly_period_def)

definition first_valid :: "clock \<Rightarrow> timeperiod \<Rightarrow> int \<Rightarrow> int \<Rightarrow> bool" where
  "first_valid c tp t v \<longleftrightarrow> t \<le> v \<and> in_schedule c tp v \<and> (\<forall>u. t \<le> u \<and> u < v \<longrightarrow> \<not> in_schedule c tp u)"

text \<open>The times the search looks at: those of the days that begin within 366 days.\<close>

definition searched :: "clock \<Rightarrow> int \<Rightarrow> int \<Rightarrow> bool" where
  "searched c t u \<longleftrightarrow> t \<le> u \<and> instant_of c (86400 * (local_of c u div 86400)) < in_one_year t"

context day_clock
begin

lemma schedule_alt: "in_schedule c tp t \<longleftrightarrow> (\<exists>r\<in>set (tp_days tp (nat ((day t + 4) mod 7))). range_holds c (day t) r t)"
  by (simp add: in_schedule_def day_def Let_def)

lemma searched_alt: "searched c t u \<longleftrightarrow> t \<le> u \<and> start (day u) < in_one_year t"
  by (simp add: searched_def day_def start_def)

lemma times_of_day:
  assumes "weekly_period tp"
  shows "times_from t (tp_days tp (nat ((day t + 4) mod 7))) = {u. t \<le> u \<and> day u = day t \<and> in_schedule c tp u}"
proof -
  have "proper_range r" if "r \<in> set (tp_days tp d)" for r d
    using assms that by (auto simp: weekly_period_def)
  then show ?thesis by (fastforce simp: times_from_def schedule_alt dest: range_in_day)
qed

lemma valid_day:
  assumes "weekly_period tp" "0 \<le> t"
  shows "\<exists>x. valid_time_of_day c tp (time_info_of c t) = Some x \<and>
    earliest_from t {u. t \<le> u \<and> day u = day t \<and> in_schedule c tp u} (- 1) x"
proof -
  let ?rs = "tp_days tp (nat ((day t + 4) mod 7))"
  have "valid_time_of_day c tp (time_info_of c t) =
      Some (earliest_in_timeranges c t (localtime_r c (midnight t)) ?rs (- 1))"
    by (simp add: valid_time_of_day_def no_exceptions [OF assms(1)] time_info get_next_valid_time_in_timeranges_def
        set_midnight_localtime localtime_clock second_midnight)
  moreover have "\<forall>r\<in>set ?rs. proper_range r" using assms(1) by (simp add: weekly_period_def)
  ultimately show ?thesis using earliest_in_ranges [OF assms(2), of ?rs "- 1"] times_of_day [OF assms(1), of t] by simp
qed

lemma next_midnight: "t < start (day t + 1)" "day (start (day t + 1)) = day t + 1"
  "t \<le> u \<Longrightarrow> u < start (day t + 1) \<Longrightarrow> day u = day t"
  using midnight_le [of t] day_iff [of u "day t"] by (auto simp: second_start midnight_def)

lemma search_step:
  assumes "weekly_period (timeperiod_of k p)" "cal_clock k = c" "0 \<le> t" "t < in_one_year original"
    "valid_time_of_day c (timeperiod_of k p) (time_info_of c t) = Some v"
  shows "search_period k masked (Valid_days p original t) = Some v \<and> first_valid c (timeperiod_of k p) t v \<or>
    (\<forall>u. t \<le> u \<and> u < start (day t + 1) \<longrightarrow> \<not> in_schedule c (timeperiod_of k p) u) \<and>
    search_period k masked (Valid_days p original t) = search_period k masked (Valid_days p original (start (day t + 1)))"
proof -
  let ?tp = "timeperiod_of k p"
  from valid_day [OF assms(1,3)] assms(5)
  have e: "earliest_from t {u. t \<le> u \<and> day u = day t \<and> in_schedule c ?tp u} (- 1) v" by fastforce
  have step: "search_period k masked (Valid_days p original t) =
      (if v = - 1 then search_period k masked (Valid_days p original (start (day t + 1))) else Some v)"
  proof -
    have none: "exclusions_of k masked p = []" using assms(1) by (simp add: exclusions_of_def weekly_period_def)
    have max: "search_period k (p # masked) (Max_invalid [] v (- 1)) = Some (- 1)"
      by (subst search_period.simps) simp
    show ?thesis
      using assms(4,5) by (subst search_period.simps) (simp add: assms(2) none max time_info one_day)
  qed
  show ?thesis
  proof (cases "v = - 1")
    case True
    with e have none: "\<And>u. t \<le> u \<Longrightarrow> day u = day t \<Longrightarrow> \<not> in_schedule c ?tp u" by (simp add: earliest_from_def)
    have "\<forall>u. t \<le> u \<and> u < start (day t + 1) \<longrightarrow> \<not> in_schedule c ?tp u"
      using none next_midnight(3) by blast
    with True show ?thesis unfolding step by simp
  next
    case False
    with e have v: "t \<le> v" "day v = day t" "in_schedule c ?tp v"
      and least: "\<And>u. t \<le> u \<Longrightarrow> day u = day t \<Longrightarrow> in_schedule c ?tp u \<Longrightarrow> v \<le> u"
      by (simp_all add: earliest_from_def)
    have "\<not> in_schedule c ?tp u" if "t \<le> u" "u < v" for u
    proof -
      have "u < start (day t + 1)" using that(2) midnight_le(2) [of v] v(2) by simp
      then have "day u = day t" using that(1) next_midnight(3) by blast
      with least that show ?thesis by fastforce
    qed
    with v show ?thesis unfolding step using False by (simp add: first_valid_def)
  qed
qed

lemma search_finds:
  assumes "weekly_period (timeperiod_of k p)" "cal_clock k = c" "0 \<le> t" "t \<le> u" "t < in_one_year original"
    "start (day u) < in_one_year original" "in_schedule c (timeperiod_of k p) u"
  shows "\<exists>v. search_period k masked (Valid_days p original t) = Some v \<and> first_valid c (timeperiod_of k p) t v"
  using assms(3-5)
proof (induction "nat (day u - day t)" arbitrary: t rule: less_induct)
  case less
  let ?tp = "timeperiod_of k p" and ?t = "start (day t + 1)"
  obtain v where "valid_time_of_day c ?tp (time_info_of c t) = Some v"
    using valid_day [OF assms(1) less.prems(1)] by blast
  then consider "search_period k masked (Valid_days p original t) = Some v \<and> first_valid c ?tp t v"
    | "(\<forall>u. t \<le> u \<and> u < ?t \<longrightarrow> \<not> in_schedule c ?tp u) \<and>
       search_period k masked (Valid_days p original t) = search_period k masked (Valid_days p original ?t)"
    using search_step [OF assms(1,2) less.prems(1,3)] by blast
  then show ?case
  proof cases
    case 1
    then show ?thesis by blast
  next
    case 2
    then have none: "\<forall>u. t \<le> u \<and> u < ?t \<longrightarrow> \<not> in_schedule c ?tp u"
      and next': "search_period k masked (Valid_days p original t) = search_period k masked (Valid_days p original ?t)"
      by blast+
    have u: "?t \<le> u" using none less.prems(2) assms(7) by force
    have t: "0 \<le> ?t" "t < ?t" using next_midnight(1) [of t] less.prems(1) by simp_all
    have d: "day t + 1 \<le> day u" using day_mono [OF u] by (simp add: next_midnight(2))
    then have "?t < in_one_year original" using start_mono [OF d] assms(6) by simp
    moreover have "nat (day u - day ?t) < nat (day u - day t)" using d by (simp add: next_midnight(2))
    ultimately obtain v where v: "search_period k masked (Valid_days p original ?t) = Some v"
      "first_valid c ?tp ?t v" using less.hyps t(1) u by blast
    then have late: "?t \<le> v" "in_schedule c ?tp v" "\<And>u. ?t \<le> u \<Longrightarrow> u < v \<Longrightarrow> \<not> in_schedule c ?tp u"
      by (simp_all add: first_valid_def)
    have "\<not> in_schedule c ?tp u" if "t \<le> u" "u < v" for u
      using that late(3) [of u] none by (cases "u < ?t") auto
    with late t(2) have "first_valid c ?tp t v" by (simp add: first_valid_def)
    with v(1) next' show ?thesis by auto
  qed
qed

lemma search_gives_up:
  assumes "weekly_period (timeperiod_of k p)" "cal_clock k = c" "0 \<le> t"
    "\<And>u. t \<le> u \<Longrightarrow> start (day u) < in_one_year original \<Longrightarrow> \<not> in_schedule c (timeperiod_of k p) u"
  shows "search_period k masked (Valid_days p original t) = Some original"
  using assms(3,4)
proof (induction "nat (in_one_year original - t)" arbitrary: t rule: less_induct)
  case less
  show ?case
  proof (cases "t < in_one_year original")
    case True
    let ?tp = "timeperiod_of k p" and ?t = "start (day t + 1)"
    obtain v where v: "valid_time_of_day c ?tp (time_info_of c t) = Some v"
      "earliest_from t {u. t \<le> u \<and> day u = day t \<and> in_schedule c ?tp u} (- 1) v"
      using valid_day [OF assms(1) less.prems(1)] by blast
    have "\<not> in_schedule c ?tp u" if "t \<le> u" "day u = day t" for u
      using that less.prems(2) midnight_le(1) [of t] True by (simp add: midnight_def)
    then have "\<not> first_valid c ?tp t v \<or> day v \<noteq> day t" by (auto simp: first_valid_def)
    moreover have "v = - 1" using v(2) \<open>\<And>u. t \<le> u \<Longrightarrow> day u = day t \<Longrightarrow> \<not> in_schedule c ?tp u\<close>
      by (auto simp: earliest_from_def split: if_splits)
    then have "\<not> first_valid c ?tp t v" using less.prems(1) by (simp add: first_valid_def)
    ultimately have next': "search_period k masked (Valid_days p original t) = search_period k masked (Valid_days p original ?t)"
      using search_step [OF assms(1,2) less.prems(1) True v(1), of masked] by blast
    have t: "t < ?t" by (rule next_midnight(1))
    have "search_period k masked (Valid_days p original ?t) = Some original"
      using True t less.prems by (intro less.hyps) simp_all
    with next' show ?thesis by simp
  qed (simp add: search_period.simps [of k masked "Valid_days p original t"])
qed

lemma next_valid:
  assumes "weekly_period (timeperiod_of k p)" "cal_clock k = c" "0 \<le> t"
  shows "\<exists>v. search_period k [] (Next_valid (Some p) t) = Some v \<and>
    (if \<exists>u. searched c t u \<and> in_schedule c (timeperiod_of k p) u then first_valid c (timeperiod_of k p) t v else v = t)"
proof -
  have step: "search_period k [] (Next_valid (Some p) t) = search_period k [] (Valid_days p t t)"
    by (simp add: search_period.simps [of k "[]" "Next_valid (Some p) t"])
  have now: "t < in_one_year t" by (simp add: in_one_year_def)
  show ?thesis
  proof (cases "\<exists>u. searched c t u \<and> in_schedule c (timeperiod_of k p) u")
    case True
    then obtain u where "t \<le> u" "start (day u) < in_one_year t" "in_schedule c (timeperiod_of k p) u"
      by (auto simp: searched_alt)
    from search_finds [OF assms this(1) now this(2,3), of "[]"] True step show ?thesis by auto
  next
    case False
    then have "search_period k [] (Valid_days p t t) = Some t"
      using assms by (intro search_gives_up) (auto simp: searched_alt)
    with False step show ?thesis by auto
  qed
qed

end

text \<open>In a zone of fixed offset a range holds the times whose time of day lies in it.\<close>

lemma zone_range_holds:
  assumes "proper_range r"
  shows "range_holds (zone_clock off st) ((t + off) div 86400) r t \<longleftrightarrow>
    int (range_start r) \<le> (t + off) mod 86400 \<and> (t + off) mod 86400 < int (range_end r)"
proof -
  have holds: "range_holds (zone_clock off st) q r t \<longleftrightarrow> int (range_start r) \<le> m \<and> m < int (range_end r)"
    if "t + off = 86400 * q + m" for q m
    using that assms by (auto simp: range_holds_def range_limits_def zone_clock_def proper_range_def)
  show ?thesis by (rule holds) simp
qed

lemma zone_schedule:
  assumes "weekly_period tp"
  shows "in_schedule (zone_clock off st) tp t \<longleftrightarrow>
    (\<exists>r\<in>set (tp_days tp (nat (((t + off) div 86400 + 4) mod 7))).
       int (range_start r) \<le> (t + off) mod 86400 \<and> (t + off) mod 86400 < int (range_end r))"
proof -
  have "local_of (zone_clock off st) t = t + off" by (simp add: zone_clock_def)
  moreover have "proper_range r" if "r \<in> set (tp_days tp d)" for r d
    using assms that by (auto simp: weekly_period_def)
  ultimately show ?thesis by (auto simp: in_schedule_def Let_def zone_range_holds)
qed

end
