(* ===== verification/Period_Dates.thy ===== *)
theory Period_Dates
  imports Period_Facts
begin

text \<open>
  The days the date ranges of a time period start and end on: the day of a month, counted from
  its start or its end, and the n-th weekday of a month, as the code computes them on a clock that
  may be put forward and back.
\<close>

definition clock_seconds :: "tm \<Rightarrow> int" where
  "clock_seconds t = 3600 * tm_hour t + 60 * tm_min t + tm_sec t"

text \<open>The midnight a date begins with; the day may lie outside the month.\<close>

definition date_start :: "clock \<Rightarrow> int \<Rightarrow> int \<Rightarrow> int \<Rightarrow> int" where
  "date_start c y m d = instant_of c (86400 * days_of_date y m d)"

text \<open>No change of the clock passes over a time of day.\<close>

definition keeps_reading :: "clock \<Rightarrow> int \<Rightarrow> bool" where
  "keeps_reading c s \<longleftrightarrow> (\<forall>n. local_of c (instant_of c (86400 * n + s)) = 86400 * n + s)"

text \<open>
  The day of the month the code counts back from. Its search begins with the 31st at the time of
  day the stack holds, which may carry into other days; when that day is in the month it is taken
  for the last, else the search goes down from the 30th.
\<close>

definition last_counted :: "clock \<Rightarrow> int \<Rightarrow> int \<Rightarrow> int" where
  "last_counted c y m =
     (let s = clock_seconds (stack_tm c); n = days_of_date y m 31 + s div 86400; (y', m', d') = date_of_day n
      in if m' = m \<and> instant_of c (86400 * n + s mod 86400) \<noteq> - 1 then d' else min 30 (month_length y m))"

lemma clock_seconds_simps [simp]:
  "clock_seconds (tm_of_date t year month d) = clock_seconds t" "clock_seconds (set_midnight t) = 0"
  by (simp_all add: clock_seconds_def tm_of_date_def set_midnight_def)

context day_clock
begin

lemma date_start_alt: "date_start c y m d = start (days_of_date y m d)"
  by (simp add: date_start_def start_def)

lemma start_le: "a \<le> b \<Longrightarrow> start a \<le> start b"
  using start_mono [of a b] by simp

lemma date_start_le: "0 \<le> m \<Longrightarrow> m \<le> 11 \<Longrightarrow> d \<le> e \<Longrightarrow> date_start c y m d \<le> date_start c y m e"
  using days_of_date_day [of m y d] days_of_date_day [of m y e] by (simp add: date_start_alt start_le)

lemma clock_seconds_localtime: "clock_seconds (localtime_r c t) = second t"
  using split_second [of "second t"] by (simp add: clock_seconds_def localtime_clock)

lemma localtime_date:
  "date_of_day (day t) = (y, m, d) \<Longrightarrow> tm_mon (localtime_r c t) = m \<and> tm_mday (localtime_r c t) = d"
  by (simp add: localtime_fields)

lemma mktime_date:
  "mktime c (tm_of_date t (y - 1900) m d) =
     (instant_of c (86400 * days_of_date y m d + clock_seconds t),
      localtime_r c (instant_of c (86400 * days_of_date y m d + clock_seconds t)))"
  by (simp add: mktime_def Let_def tm_seconds_def tm_of_date_def clock_seconds_def add.assoc)

lemma month_of_day:
  assumes "0 \<le> m" "m \<le> 11" "1 \<le> d" "d \<le> 35" "day x = days_of_date y m d"
  shows "tm_mon (localtime_r c x) = m \<longleftrightarrow> d \<le> month_length y m"
    "d \<le> month_length y m \<Longrightarrow> tm_mday (localtime_r c x) = d"
proof -
  have in_month: "tm_mon (localtime_r c x) = m \<and> tm_mday (localtime_r c x) = d" if "d \<le> month_length y m"
    using localtime_date [of x y m d] date_unique [of y m d] assms that by (simp add: valid_date_def)
  moreover have "tm_mon (localtime_r c x) \<noteq> m" if "\<not> d \<le> month_length y m"
  proof -
    obtain y' m' d' where e: "date_of_day (days_of_date y m d) = (y', m', d')" using prod_cases3 by blast
    then have "m' \<noteq> m" using date_beyond_month [OF assms(1,2), of y d] month_length_bounds [OF assms(1,2), of y] that assms(4)
      by simp
    then show ?thesis using localtime_date [of x y' m' d'] e assms(5) by simp
  qed
  ultimately show "tm_mon (localtime_r c x) = m \<longleftrightarrow> d \<le> month_length y m"
    "d \<le> month_length y m \<Longrightarrow> tm_mday (localtime_r c x) = d" by blast+
qed

lemma kept_second: "keeps_reading c s \<Longrightarrow> 0 \<le> s \<Longrightarrow> s < 86400 \<Longrightarrow> second (instant_of c (86400 * n + s)) = s"
  by (simp add: keeps_reading_def second_def)

text \<open>Going down from a day finds the last day of the month, the time of day carried along.\<close>

lemma last_day_from:
  assumes "0 \<le> m" "m \<le> 11" "0 \<le> clock_seconds t" "clock_seconds t < 86400" "0 \<le> date_start c y m 1"
    "28 \<le> d" "d \<le> 31"
  shows "\<exists>x. last_day_of_month c (y - 1900) m d t = Some (localtime_r c x) \<and>
    day x = days_of_date y m (min d (month_length y m)) \<and> (keeps_reading c (clock_seconds t) \<longrightarrow> second x = clock_seconds t)"
  using assms
proof (induction "nat (d - 28)" arbitrary: d t rule: less_induct)
  case less
  let ?s = "clock_seconds t"
  let ?x = "instant_of c (86400 * days_of_date y m d + ?s)"
  note len = month_length_bounds [OF less.prems(1,2), of y]
  have x: "day ?x = days_of_date y m d" by (rule day_of_reading [OF less.prems(3,4)])
  then have mon: "tm_mon (localtime_r c ?x) = m \<longleftrightarrow> d \<le> month_length y m"
    using less.prems by (intro month_of_day(1)) simp_all
  have kept: "keeps_reading c ?s \<Longrightarrow> second ?x = ?s" using kept_second less.prems(3,4) by simp
  show ?case
  proof (cases "d \<le> month_length y m")
    case True
    have "date_start c y m 1 \<le> ?x"
      using date_start_le [OF less.prems(1,2), of 1 d y] less.prems(6) x day_iff [of ?x "days_of_date y m d"]
      by (simp add: date_start_alt)
    then have "0 \<le> ?x" using less.prems(5) by simp
    with True mon x kept show ?thesis
      by (intro exI [of _ ?x]) (subst last_day_of_month.simps, simp add: mktime_date)
  next
    case False
    have "28 \<le> d - 1" "nat (d - 1 - 28) < nat (d - 28)" using False len less.prems(6) by simp_all
    then obtain z where z: "last_day_of_month c (y - 1900) m (d - 1) (localtime_r c ?x) = Some (localtime_r c z)"
      "day z = days_of_date y m (min (d - 1) (month_length y m))" "keeps_reading c (second ?x) \<longrightarrow> second z = second ?x"
      using less.hyps [of "d - 1" "localtime_r c ?x"] less.prems second_bounds [of ?x]
      by (auto simp: clock_seconds_localtime)
    have "last_day_of_month c (y - 1900) m d t = last_day_of_month c (y - 1900) m (d - 1) (localtime_r c ?x)"
      using mon False by (subst last_day_of_month.simps) (simp add: mktime_date)
    moreover have "min (d - 1) (month_length y m) = month_length y m" "min d (month_length y m) = month_length y m"
      using False by simp_all
    ultimately show ?thesis using z kept by (intro exI [of _ z]) simp
  qed
qed

lemma split_day: "86400 * n + s = 86400 * (n + s div 86400) + (s :: int) mod 86400"
  using mult_div_mod_eq [of 86400 s] by (simp add: distrib_left)

lemma last_day_found:
  assumes "0 \<le> m" "m \<le> 11" "0 \<le> date_start c y m 1"
  shows "\<exists>x. last_day_of_month c (y - 1900) m 31 (stack_tm c) = Some (localtime_r c x) \<and>
    tm_mday (localtime_r c x) = last_counted c y m \<and>
    (keeps_reading c (clock_seconds (stack_tm c) mod 86400) \<longrightarrow> second x = clock_seconds (stack_tm c) mod 86400)"
proof -
  define s where "s = clock_seconds (stack_tm c)"
  define n where "n = days_of_date y m 31 + s div 86400"
  define r where "r = s mod 86400"
  let ?x = "instant_of c (86400 * n + r)"
  have r: "0 \<le> r" "r < 86400" by (simp_all add: r_def)
  have reading: "86400 * days_of_date y m 31 + clock_seconds (stack_tm c) = 86400 * n + r"
    unfolding n_def r_def s_def by (rule split_day)
  have x: "day ?x = n" by (rule day_of_reading [OF r])
  obtain y' m' d' where date: "date_of_day n = (y', m', d')" using prod_cases3 by blast
  note mon = localtime_date [of ?x y' m' d', unfolded x, OF date]
  have kept: "keeps_reading c r \<Longrightarrow> second ?x = r" by (rule kept_second [OF _ r])
  have counted: "last_counted c y m = (if m' = m \<and> ?x \<noteq> - 1 then d' else min 30 (month_length y m))"
    unfolding last_counted_def Let_def s_def [symmetric] n_def [symmetric] r_def [symmetric] date by simp
  have first: "last_day_of_month c (y - 1900) m 31 (stack_tm c) =
      (if ?x = - 1 \<or> m' \<noteq> m then last_day_of_month c (y - 1900) m 30 (localtime_r c ?x) else Some (localtime_r c ?x))"
    using mon by (subst last_day_of_month.simps) (simp add: mktime_date reading)
  show ?thesis
  proof (cases "?x = - 1 \<or> m' \<noteq> m")
    case True
    obtain z where z: "last_day_of_month c (y - 1900) m 30 (localtime_r c ?x) = Some (localtime_r c z)"
      "day z = days_of_date y m (min 30 (month_length y m))" "keeps_reading c (second ?x) \<longrightarrow> second z = second ?x"
      using last_day_from [OF assms(1,2) _ _ assms(3), of "localtime_r c ?x" 30] second_bounds [of ?x]
      by (auto simp: clock_seconds_localtime)
    have "tm_mday (localtime_r c z) = min 30 (month_length y m)"
      using month_length_bounds [OF assms(1,2), of y] by (intro month_of_day(2) [OF assms(1,2) _ _ z(2)]) simp_all
    then show ?thesis using z True kept
      by (intro exI [of _ z]) (auto simp: first counted simp flip: r_def s_def)
  next
    case False
    with mon kept show ?thesis by (intro exI [of _ ?x]) (simp add: first counted flip: r_def s_def)
  qed
qed

text \<open>With a time of day on the stack the count is from the last day of the month.\<close>

lemma last_counted_settled:
  assumes "0 \<le> m" "m \<le> 11" "0 \<le> date_start c y m 1" "0 \<le> clock_seconds (stack_tm c)" "clock_seconds (stack_tm c) < 86400"
  shows "last_counted c y m = month_length y m"
proof -
  let ?s = "clock_seconds (stack_tm c)"
  obtain y' m' d' where date: "date_of_day (days_of_date y m 31) = (y', m', d')" using prod_cases3 by blast
  let ?x = "instant_of c (86400 * days_of_date y m 31 + ?s)"
  have x: "day ?x = days_of_date y m 31" by (rule day_of_reading [OF assms(4,5)])
  have "date_start c y m 1 \<le> ?x"
    using date_start_le [OF assms(1,2), of 1 31 y] x day_iff [of ?x "days_of_date y m 31"] by (simp add: date_start_alt)
  then have "?x \<noteq> - 1" using assms(3) by simp
  moreover have "m' = m \<longleftrightarrow> 31 \<le> month_length y m" "31 \<le> month_length y m \<Longrightarrow> d' = 31"
    using month_of_day [OF assms(1,2) _ _ x] localtime_date [of ?x y' m' d', unfolded x, OF date] by simp_all
  moreover have "?s div 86400 = 0" "?s mod 86400 = ?s" using assms(4,5) by simp_all
  then have "last_counted c y m = (if m' = m \<and> ?x \<noteq> - 1 then d' else min 30 (month_length y m))"
    by (simp only: last_counted_def Let_def add_0_right date split_conv)
  ultimately show ?thesis using month_length_bounds [OF assms(1,2), of y] by auto
qed

lemma day_from_start:
  assumes "0 \<le> m" "m \<le> 11" "0 < d" "d \<le> 31"
  shows "calculate_time_from_day_of_month c (y - 1900) m d =
    Some (if d \<le> month_length y m then date_start c y m d else - 1)"
proof -
  have "day (date_start c y m d) = days_of_date y m d" by (simp add: date_start_alt second_start)
  from month_of_day(1) [OF assms(1,2) _ _ this] assms show ?thesis
    by (simp add: calculate_time_from_day_of_month_def mktime_date flip: date_start_def)
qed

definition counted_back :: "int \<Rightarrow> int \<Rightarrow> int \<Rightarrow> int" where
  "counted_back y m d = (if last_counted c y m \<le> - d then 1 else last_counted c y m + d + 1)"

lemma day_from_end:
  assumes "0 \<le> m" "m \<le> 11" "0 \<le> date_start c y m 1" "d \<le> 0"
  shows "\<exists>s. 0 \<le> s \<and> s < 86400 \<and>
    calculate_time_from_day_of_month c (y - 1900) m d =
      Some (instant_of c (86400 * days_of_date y m (counted_back y m d) + s)) \<and>
    (keeps_reading c (clock_seconds (stack_tm c) mod 86400) \<longrightarrow> s = clock_seconds (stack_tm c) mod 86400)"
proof -
  obtain x where x: "last_day_of_month c (y - 1900) m 31 (stack_tm c) = Some (localtime_r c x)"
    "tm_mday (localtime_r c x) = last_counted c y m"
    "keeps_reading c (clock_seconds (stack_tm c) mod 86400) \<longrightarrow> second x = clock_seconds (stack_tm c) mod 86400"
    using last_day_found [OF assms(1-3)] by blast
  with assms(4) show ?thesis
    by (intro exI [of _ "second x"])
      (simp add: calculate_time_from_day_of_month_def second_bounds mktime_date clock_seconds_localtime counted_back_def)
qed

end

text \<open>The first and the last day of a month that is a given weekday.\<close>

definition first_weekday :: "int \<Rightarrow> int \<Rightarrow> int \<Rightarrow> int" where
  "first_weekday y m w = 1 + (w - (days_of_date y m 1 + 4)) mod 7"

definition last_weekday :: "int \<Rightarrow> int \<Rightarrow> int \<Rightarrow> int" where
  "last_weekday y m w =
     (if first_weekday y m w + 28 \<le> month_length y m then first_weekday y m w + 28 else first_weekday y m w + 21)"

lemma first_weekday_bounds: "1 \<le> first_weekday y m w" "first_weekday y m w \<le> 7"
  using pos_mod_sign [of 7 "w - (days_of_date y m 1 + 4)"] pos_mod_bound [of 7 "w - (days_of_date y m 1 + 4)"]
  by (simp_all add: first_weekday_def)

lemma wday_difference:
  assumes "0 \<le> w" "w < 7" "x = (n :: int) mod 7"
  shows "(if w - x < 0 then w - x + 7 else w - x) = (w - n) mod 7"
proof -
  have x: "0 \<le> x" "x < 7" using assms(3) by simp_all
  have e: "(w - n) mod 7 = (w - x) mod 7" unfolding assms(3) by (rule mod_diff_right_eq [symmetric])
  show ?thesis
  proof (cases "w - x < 0")
    case True
    have "(w - x) mod 7 = (w - x + 7) mod 7" by (rule mod_add_self2 [symmetric])
    also have "\<dots> = w - x + 7" using True x assms(1) by (intro mod_pos_pos_trivial) linarith+
    finally show ?thesis using e True by simp
  next
    case False
    then have "(w - x) mod 7 = w - x" using x assms(2) by (intro mod_pos_pos_trivial) linarith+
    with e False show ?thesis by simp
  qed
qed

context day_clock
begin

lemma month_ok:
  assumes "0 \<le> m" "m \<le> 11" "1 \<le> d" "d \<le> 35"
  shows "tm_mon (localtime_r c (date_start c y m d)) = m \<longleftrightarrow> d \<le> month_length y m"
    "clock_seconds (localtime_r c (date_start c y m d)) = 0"
  using month_of_day(1) [OF assms, of "date_start c y m d" y]
  by (simp_all add: date_start_alt second_start clock_seconds_localtime)

lemma days_to_weekday:
  assumes "0 \<le> m" "m \<le> 11" "0 \<le> w" "w < 7"
  shows "(let t = snd (mktime c (tm_of_date (set_midnight (stack_tm c)) (y - 1900) m 1))
      in if w - tm_wday t < 0 then w - tm_wday t + 7 else w - tm_wday t) = first_weekday y m w - 1"
proof -
  have "tm_wday (localtime_r c (date_start c y m 1)) = (days_of_date y m 1 + 4) mod 7"
    by (simp add: localtime_clock date_start_alt second_start)
  from wday_difference [OF assms(3,4) this] show ?thesis
    by (simp add: mktime_date first_weekday_def flip: date_start_def)
qed

lemma last_weekday_found:
  assumes "0 \<le> m" "m \<le> 11" "0 \<le> date_start c y m 1" "clock_seconds t = 0"
  shows "last_weekday_of_month c (y - 1900) m (first_weekday y m w - 1 + 5 * 7) t =
    Some (localtime_r c (date_start c y m (last_weekday y m w)))"
proof -
  let ?f = "first_weekday y m w"
  note f = first_weekday_bounds [of y m w] and len = month_length_bounds [OF assms(1,2), of y]
  have found: "last_weekday_of_month c (y - 1900) m (d + 6) t1 = Some (localtime_r c (date_start c y m d))"
    if "1 \<le> d" "d \<le> month_length y m" "clock_seconds t1 = 0" for d t1
    using that date_start_le [OF assms(1,2) that(1), of y] assms(3) month_ok(1) [OF assms(1,2), of d y] len
    by (subst last_weekday_of_month.simps) (simp add: mktime_date flip: date_start_def)
  show ?thesis
  proof (cases "?f + 28 \<le> month_length y m")
    case True
    with found [of "?f + 28" t] f assms(4) show ?thesis by (simp add: last_weekday_def)
  next
    case False
    then have "tm_mon (localtime_r c (date_start c y m (?f + 28))) \<noteq> m"
      and cs: "clock_seconds (localtime_r c (date_start c y m (?f + 28))) = 0"
      using month_ok [OF assms(1,2), of "?f + 28" y] f by simp_all
    then have "last_weekday_of_month c (y - 1900) m (?f - 1 + 5 * 7) t =
        last_weekday_of_month c (y - 1900) m (?f + 21 + 6) (localtime_r c (date_start c y m (?f + 28)))"
      using assms(4) by (subst last_weekday_of_month.simps) (simp add: mktime_date add.commute flip: date_start_def)
    with found [of "?f + 21", OF _ _ cs] f len False show ?thesis by (simp add: last_weekday_def)
  qed
qed

lemma weekday_of_month:
  assumes "0 \<le> m" "m \<le> 11" "0 \<le> w" "w < 7" "0 \<le> date_start c y m 1"
  shows "calculate_time_from_weekday_of_month c (y - 1900) m w n = Some
    (if 0 < n
     then let d = first_weekday y m w + 7 * (min 5 n - 1) in if d \<le> month_length y m then date_start c y m d else - 1
     else let l = last_weekday y m w
          in date_start c y m (if l \<le> - (7 * (n + 1)) then l mod 7 else l + 7 * (n + 1)))"
proof -
  let ?t = "localtime_r c (date_start c y m 1)"
  note f = first_weekday_bounds [of y m w] and len = month_length_bounds [OF assms(1,2), of y]
  have t: "snd (mktime c (tm_of_date (set_midnight (stack_tm c)) (y - 1900) m 1)) = ?t"
    by (simp add: mktime_date flip: date_start_def)
  have cs: "clock_seconds ?t = 0" using month_ok(2) [OF assms(1,2), of 1 y] by simp
  note days = days_to_weekday [OF assms(1-4), of y, unfolded t Let_def]
  let ?l = "last_weekday y m w"
  have l: "1 \<le> ?l" "?l \<le> month_length y m" using f len by (auto simp: last_weekday_def)
  then have lf: "tm_mday (localtime_r c (date_start c y m ?l)) = ?l"
    "clock_seconds (localtime_r c (date_start c y m ?l)) = 0"
    using month_of_day(2) [OF assms(1,2) l(1), of "date_start c y m ?l" y] month_ok(2) [OF assms(1,2) l(1), of y] len
    by (simp_all add: date_start_alt second_start)
  show ?thesis
  proof (cases "0 < n")
    case True
    let ?d = "first_weekday y m w - 1 + (min 5 n - 1) * 7 + 1"
    have "1 \<le> ?d" "?d \<le> 35" using f True by auto
    from month_ok(1) [OF assms(1,2) this, of y] True show ?thesis
      unfolding calculate_time_from_weekday_of_month_def t Let_def days
      by (simp add: mktime_date cs algebra_simps flip: date_start_def)
  next
    case False
    then show ?thesis
      unfolding calculate_time_from_weekday_of_month_def t Let_def days last_weekday_found [OF assms(1,2,5) cs]
      by (simp add: mktime_date lf algebra_simps flip: date_start_def)
  qed
qed

end

end
