(* ===== verification/Period_Properties.thy ===== *)
theory Period_Properties
  imports Period_Dates Examples
begin

text \<open>
  What time periods promise: the search returns the earliest valid time of a weekly schedule,
  and so the tests of the rest of the program (\<open>check_time_against_period\<close>) are exact; the
  days that date ranges name; and three cases in which the limits of a range are not the days
  it names.
\<close>

section \<open>Weekly schedules\<close>

text \<open>C27. The search for the next valid time returns, whatever the weekly schedule, and
  gives the earliest time from the preferred one on that the schedule holds; when the schedule
  holds none on the days that begin within 366 days it gives the preferred time itself. The local
  clock may be put forward and back: it has to read midnight once a day, a day has 23 to 25 hours,
  and a reading stands for an instant of its day (\<open>day_clock\<close>).\<close>

theorem next_valid_time_least:
  assumes "weekly_period (timeperiod_of k p)" "day_clock (cal_clock k)" "0 \<le> t"
  shows "\<exists>v. search_period k [] (Next_valid (Some p) t) = Some v \<and>
    (if \<exists>u. searched (cal_clock k) t u \<and> in_schedule (cal_clock k) (timeperiod_of k p) u
     then t \<le> v \<and> in_schedule (cal_clock k) (timeperiod_of k p) v \<and>
       (\<forall>u. t \<le> u \<and> u < v \<longrightarrow> \<not> in_schedule (cal_clock k) (timeperiod_of k p) u)
     else v = t)"
  by (rule day_clock.next_valid [OF assms(2,1) refl assms(3), unfolded first_valid_def])

text \<open>Working hours from Monday to Friday, nine to five.\<close>

definition ex_office :: timeperiod where
  "ex_office = \<lparr>tp_days = (\<lambda>d. if d \<in> {1, 2, 3, 4, 5} then [\<lparr>range_start = 32400, range_end = 61200\<rparr>] else []),
     tp_exceptions = (\<lambda>_. []), tp_exclusions = []\<rparr>"

definition ex_stack :: tm where
  "ex_stack = \<lparr>tm_sec = 7, tm_min = 30, tm_hour = 1, tm_mday = 0, tm_mon = 0, tm_year = 0, tm_wday = 0\<rparr>"

definition ex_calendar :: calendar where
  "ex_calendar = \<lparr>cal_clock = zone_clock 3600 ex_stack, timeperiod_of = (\<lambda>_. ex_office)\<rparr>"

definition ex_paris :: calendar where
  "ex_paris = \<lparr>cal_clock = summer_clock 3600 1616893200 1635642000 ex_stack, timeperiod_of = (\<lambda>_. ex_office)\<rparr>"

lemma ex_calendar_simps [simp]:
  "weekly_period ex_office" "cal_clock ex_calendar = zone_clock 3600 ex_stack"
  "timeperiod_of ex_calendar p = ex_office" "cal_clock ex_paris = summer_clock 3600 1616893200 1635642000 ex_stack"
  "timeperiod_of ex_paris p = ex_office"
  by (simp_all add: ex_calendar_def ex_paris_def ex_office_def weekly_period_def proper_range_def)

lemma office_schedule: "in_schedule c ex_office t \<longleftrightarrow>
    (let n = local_of c t div 86400 in nat ((n + 4) mod 7) \<in> {1, 2, 3, 4, 5} \<and>
      range_holds c n \<lparr>range_start = 32400, range_end = 61200\<rparr> t)"
  by (simp add: in_schedule_def ex_office_def Let_def)

text \<open>
  From Saturday, the 27th of March 2021, on: the clocks of Paris are put forward on Sunday, and
  the office opens on Monday at seven o'clock UTC.
\<close>

lemma paris_monday: "in_schedule (cal_clock ex_paris) ex_office 1617001200" "searched (cal_clock ex_paris) 1616850000 1617001200"
  by (simp_all add: office_schedule range_holds_def range_limits_def searched_def summer_clock_def in_one_year_def)

lemma paris_weekend:
  assumes "1616850000 \<le> u" "u < 1617001200"
  shows "\<not> in_schedule (cal_clock ex_paris) ex_office u"
proof
  let ?c = "summer_clock 3600 1616893200 1635642000 ex_stack"
  assume h: "in_schedule (cal_clock ex_paris) ex_office u"
  define n where "n = local_of ?c u div 86400"
  from h have w: "nat ((n + 4) mod 7) \<in> {1, 2, 3, 4, 5}" "fst (range_limits ?c n \<lparr>range_start = 32400, range_end = 61200\<rparr>) \<le> u"
    by (auto simp: office_schedule Let_def range_holds_def n_def)
  have "1616853600 \<le> local_of ?c u" "local_of ?c u < 1617008400" using assms by (simp_all add: summer_clock_def)
  then have "1616853600 div 86400 \<le> n" "n \<le> 1617008400 div 86400"
    unfolding n_def by (intro zdiv_mono1; simp)+
  then have "n = 18713 \<or> n = 18714 \<or> n = 18715" by auto
  with w assms show False by (auto simp: range_limits_def summer_clock_def)
qed

theorem next_valid_time_least_witness:
  "search_period ex_paris [] (Next_valid (Some ''office'') 1616850000) = Some 1617001200"
proof -
  obtain v where v: "search_period ex_paris [] (Next_valid (Some ''office'') 1616850000) = Some v"
    "1616850000 \<le> v" "in_schedule (cal_clock ex_paris) ex_office v"
    "\<forall>u. 1616850000 \<le> u \<and> u < v \<longrightarrow> \<not> in_schedule (cal_clock ex_paris) ex_office u"
    using next_valid_time_least [of ex_paris "''office''" 1616850000, unfolded ex_calendar_simps(5), OF ex_calendar_simps(1)]
      paris_monday paris.day_clock_axioms [of ex_stack, folded ex_calendar_simps(4)] by (metis zero_le_numeral)
  have "\<not> v < 1617001200" using paris_weekend [OF v(2)] v(3) by blast
  moreover have "\<not> 1617001200 < v" using v(4) paris_monday(1) by force
  ultimately have "v = 1617001200" by linarith
  with v(1) show ?thesis by simp
qed

text \<open>The environment whose search for valid times is that of the model, a clock per time zone.\<close>

definition with_periods :: "(string option \<Rightarrow> calendar) \<Rightarrow> env \<Rightarrow> env" where
  "with_periods cal ev = ev\<lparr>next_valid_time_per_timeperiod :=
     (\<lambda>tz t p. case search_period (cal tz) [] (Next_valid (Some p) t) of None \<Rightarrow> t | Some v \<Rightarrow> v)\<rparr>"

text \<open>C29. The test every check and notification makes is exact: with the search of this code
  behind it, a time is in a period with a weekly schedule if and only if a range of its weekday
  holds it; only a period that holds no time on the days that begin within 366 days holds every
  time. The clock is as in the property before: it may be put forward and back.\<close>

theorem period_test_exact:
  assumes "weekly_period (timeperiod_of (cal tz) p)" "day_clock (cal_clock (cal tz))" "0 \<le> t"
  shows "check_time_against_period (with_periods cal ev) tz t (Some p) = OK \<longleftrightarrow>
    in_schedule (cal_clock (cal tz)) (timeperiod_of (cal tz) p) t \<or>
    (\<forall>u. searched (cal_clock (cal tz)) t u \<longrightarrow> \<not> in_schedule (cal_clock (cal tz)) (timeperiod_of (cal tz) p) u)"
proof -
  let ?tp = "timeperiod_of (cal tz) p" and ?c = "cal_clock (cal tz)"
  from day_clock.next_valid [OF assms(2,1) refl assms(3)] obtain v
    where v: "search_period (cal tz) [] (Next_valid (Some p) t) = Some v"
      "if \<exists>u. searched ?c t u \<and> in_schedule ?c ?tp u then first_valid ?c ?tp t v else v = t" by blast
  have "v = t \<longleftrightarrow> in_schedule ?c ?tp t \<or> (\<forall>u. searched ?c t u \<longrightarrow> \<not> in_schedule ?c ?tp u)"
  proof (cases "\<exists>u. searched ?c t u \<and> in_schedule ?c ?tp u")
    case True
    with v(2) have "first_valid ?c ?tp t v" by simp
    then have "t \<le> v" "in_schedule ?c ?tp v" "t < v \<Longrightarrow> \<not> in_schedule ?c ?tp t"
      by (auto simp: first_valid_def)
    with True show ?thesis by (cases "t = v") auto
  qed (use v(2) in auto)
  then show ?thesis by (simp add: check_time_against_period_def with_periods_def v(1))
qed

theorem period_test_exact_witness:
  "check_time_against_period (with_periods (\<lambda>_. ex_calendar) ex_env) None 1614585600 (Some ''office'') = OK \<and>
   check_time_against_period (with_periods (\<lambda>_. ex_calendar) ex_env) None 1614500000 (Some ''office'') \<noteq> OK"
proof -
  have "in_schedule (zone_clock 3600 ex_stack) ex_office 1614585600" "\<not> in_schedule (zone_clock 3600 ex_stack) ex_office 1614500000"
    by (simp_all add: zone_schedule) (simp_all add: ex_office_def)
  moreover have "searched (zone_clock 3600 ex_stack) 1614500000 1614585600"
    by (simp add: searched_def zone_clock_def in_one_year_def)
  ultimately show ?thesis
    using period_test_exact [of "\<lambda>_. ex_calendar" None "''office''"] zone.day_clock_axioms [of 3600 ex_stack] by auto
qed

section \<open>Days of a month\<close>

text \<open>C31. The day of a month, up to the 31st: counted from the start it is that midnight, or none
  beyond the end of the month; counted from the end it is the day the count names from the last
  day on, at least the first, but at the time of day the structure on the stack happened to hold,
  where the code means midnight; and a count of 0, with which the code means the last day, gives
  the first day of the month after. The stack may hold anything: what it holds beyond a time of
  day carries into the day the search for the last one begins with, and when that day is not in
  the month the count is from the 30th at the latest. The clock may be put forward and back, as
  long as no change passes over the time of day on the stack.\<close>

theorem day_of_month_resolved:
  assumes "day_clock c" "keeps_reading c (clock_seconds (stack_tm c) mod 86400)"
    "0 \<le> m" "m \<le> 11" "d \<le> 31" "0 \<le> date_start c y m 1"
  shows "calculate_time_from_day_of_month c (y - 1900) m d = Some
      (if 0 < d then (if d \<le> month_length y m then date_start c y m d else - 1)
       else let l = last_counted c y m; k = (if l \<le> - d then 1 else l + d + 1)
            in instant_of c (86400 * days_of_date y m k + clock_seconds (stack_tm c) mod 86400)) \<and>
    (0 \<le> clock_seconds (stack_tm c) \<and> clock_seconds (stack_tm c) < 86400 \<longrightarrow> last_counted c y m = month_length y m)"
proof (cases "0 < d")
  case True
  from day_clock.day_from_start [OF assms(1,3,4) True assms(5)] True show ?thesis
    by (simp add: day_clock.last_counted_settled [OF assms(1,3,4,6)])
next
  case False
  then have "d \<le> 0" by simp
  from day_clock.day_from_end [OF assms(1,3,4,6) this] assms(2) False show ?thesis
    by (auto simp: Let_def day_clock.counted_back_def [OF assms(1)] day_clock.last_counted_settled [OF assms(1,3,4,6)])
qed

text \<open>
  The last day of January 2021: with 1:30:07 on the stack it is found, in the middle of the
  night; with a thousand hours on it the 30th is.
\<close>

definition ex_stale_stack :: tm where
  "ex_stale_stack = ex_stack\<lparr>tm_hour := 1000\<rparr>"

lemma zone_keeps_reading: "keeps_reading (zone_clock off st) s"
  by (simp add: keeps_reading_def zone_clock_def)

theorem day_of_month_resolved_witness:
  "calculate_time_from_day_of_month (zone_clock 0 ex_stack) (2021 - 1900) 0 (- 1) =
     Some (date_start (zone_clock 0 ex_stack) 2021 0 31 + 5407) \<and>
   calculate_time_from_day_of_month (zone_clock 0 ex_stale_stack) (2021 - 1900) 0 (- 1) =
     Some (date_start (zone_clock 0 ex_stale_stack) 2021 0 30 + 59407)"
proof -
  have "0 \<le> date_start (zone_clock 0 st) 2021 0 1" for st
    by (simp add: date_start_def zone_clock_def days_of_date_def days_before_year_def days_before_month_def)
  note last = day_of_month_resolved [of "zone_clock 0 st" 0 "- 1" 2021 for st,
      OF zone.day_clock_axioms zone_keeps_reading _ _ _ this, THEN conjunct1]
  have "last_counted (zone_clock 0 ex_stack) 2021 0 = 31" "last_counted (zone_clock 0 ex_stale_stack) 2021 0 = 30"
    "clock_seconds (stack_tm (zone_clock 0 ex_stack)) mod 86400 = 5407"
    "clock_seconds (stack_tm (zone_clock 0 ex_stale_stack)) mod 86400 = 59407"
    by code_simp+
  moreover have "instant_of (zone_clock 0 st) x = x" for st x by (simp add: zone_clock_def)
  ultimately show ?thesis by (simp add: last [simplified] date_start_def Let_def)
qed

text \<open>C30. The n-th weekday of a month: for n from 1 to 5 the n-th such day, none if the month has
  no fifth; counted from the end the n-th last, except that a count of four weeks and more back
  is taken modulo seven, which for a month with that weekday on the 28th is the day before its
  first. The clock may be put forward and back.\<close>

theorem weekday_of_month_resolved:
  assumes "day_clock c" "0 \<le> m" "m \<le> 11" "0 \<le> w" "w < 7" "0 \<le> date_start c y m 1"
  shows "calculate_time_from_weekday_of_month c (y - 1900) m w n = Some
    (if 0 < n
     then let d = first_weekday y m w + 7 * (min 5 n - 1) in if d \<le> month_length y m then date_start c y m d else - 1
     else let l = last_weekday y m w
          in date_start c y m (if l \<le> - (7 * (n + 1)) then l mod 7 else l + 7 * (n + 1)))"
  by (rule day_clock.weekday_of_month [OF assms])

text \<open>The fifth last Sunday of February 2021, which has four: the code gives the 31st of January.\<close>

theorem weekday_of_month_resolved_witness:
  "calculate_time_from_weekday_of_month (zone_clock 0 ex_stack) (2021 - 1900) 1 0 (- 5) =
     Some (date_start (zone_clock 0 ex_stack) 2021 1 0) \<and>
   days_of_date 2021 1 0 = days_of_date 2021 0 31"
proof -
  have "first_weekday 2021 1 0 = 7" "month_length 2021 1 = 28" "0 \<le> date_start (zone_clock 0 ex_stack) 2021 1 1"
    "days_of_date 2021 1 0 = days_of_date 2021 0 31"
    by code_simp+
  then show ?thesis using weekday_of_month_resolved [OF zone.day_clock_axioms, of 1 0 0 ex_stack 2021 "- 5"]
    by (simp add: last_weekday_def)
qed

section \<open>A range that starts on a day its year does not have\<close>

text \<open>A range of dates from the 29th of February on has no lower limit in a year without that
  day: the missing start is the time \<open>-1\<close>, which passes the comparison with the end and then
  stands for no limit, so the range holds every day of the year up to its end.\<close>

theorem february_29_range_unlimited:
  assumes "smon r = 1" "smday r = 29" "1 < emon r" "emon r \<le> 11" "1 \<le> emday r" "emday r \<le> month_length y (emon r)"
    "\<not> leap_year y" "day_clock c" "0 \<le> date_start c y 0 1" "skip_interval r \<le> 1" "tm_year (ti_preftime ti) = y - 1900"
    "ti_preferred_time ti < date_start c y (emon r) (emday r + 1)"
  shows "daterange_to_time_t c r MONTH_DATE ti = Some (Some (- 1, date_start c y (emon r) (emday r + 1)))"
proof -
  let ?e = "date_start c y (emon r) (emday r)" and ?f = "date_start c y (emon r) (emday r + 1)"
  note clock = assms(8)
  have l: "emday r \<le> 31" using assms(3-6) month_length_bounds [of "emon r" y] by linarith
  have start: "calculate_time_from_day_of_month c (y - 1900) 1 29 = Some (- 1)"
    using day_clock.day_from_start [OF clock, of 1 29 y] assms(7) by (simp add: month_length_cases)
  have end1: "calculate_time_from_day_of_month c (y - 1900) (emon r) (emday r) = Some ?e"
    using day_clock.day_from_start [OF clock, of "emon r" "emday r" y] assms(3-6) l by simp
  have next_day: "days_of_date y (emon r) (emday r + 1) = days_of_date y (emon r) (emday r) + 1"
    using days_of_date_day [of "emon r" y "emday r"] days_of_date_day [of "emon r" y "emday r + 1"] assms(3,4) by simp
  then have later: "one_day_later c ?e = ?f"
    by (simp add: day_clock.date_start_alt [OF clock] day_clock.next_start [OF clock])
  have "days_of_date y 0 1 \<le> days_of_date y (emon r) (emday r)"
    using days_before_month_mono [of 0 "emon r" "leap_year y"] assms(3-5) by (simp add: days_of_date_def)
  then have "date_start c y 0 1 \<le> ?e" "?e \<le> ?f"
    by (simp_all add: day_clock.date_start_alt [OF clock] day_clock.start_le [OF clock] next_day)
  then have e: "- 1 < ?f" "?e \<noteq> - 1" using assms(9) by simp_all
  have "month_date_years c r (ti_preferred_time ti) 0 (y - 1900) 3 (- 1, - 1) = Some (- 1, ?f)"
    using e assms(1,2,12) by (simp add: numeral_3_eq_3 start end1 later)
  then show ?thesis
    using e assms(1,2,3,10,11)
    by (simp add: daterange_to_time_t_def daterange_month_date_to_time_t_def Let_def if_ordered_def skip_days_def)
qed

text \<open>From the 29th of February to the 1st of March, asked for on the 15th of January 2021.\<close>

definition ex_leap_range :: daterange where
  "ex_leap_range = \<lparr>syear = 0, smon = 1, smday = 29, swday = 0, swday_offset = 0, eyear = 0, emon = 2, emday = 1,
     ewday = 0, ewday_offset = 0, skip_interval = 0, times = []\<rparr>"

theorem february_29_range_unlimited_witness:
  "daterange_to_time_t (zone_clock 0 ex_stack) ex_leap_range MONTH_DATE (time_info_of (zone_clock 0 ex_stack) 1610668800) =
     Some (Some (- 1, date_start (zone_clock 0 ex_stack) 2021 2 2))"
proof -
  let ?c = "zone_clock 0 ex_stack"
  let ?ti = "time_info_of ?c 1610668800"
  have "tm_year (ti_preftime ?ti) = 2021 - 1900" "ti_preferred_time ?ti = 1610668800"
    "1610668800 < date_start ?c 2021 2 2" "\<not> leap_year 2021" "month_length 2021 2 = 31" "0 \<le> date_start ?c 2021 0 1"
    by code_simp+
  then show ?thesis
    using february_29_range_unlimited [of ex_leap_range 2021 ?c ?ti] zone.day_clock_axioms
    by (simp add: ex_leap_range_def)
qed

end
