(* ===== verification/Period_Safety.thy ===== *)
theory Period_Safety
  imports Period_Properties
begin

text \<open>
  The search over any period, with all its exceptions and exclusions: neither the next valid
  nor the next invalid time lies before the preferred one. What every call of the search keeps
  is \<open>not_before\<close>, proved once by induction over the search.
\<close>

section \<open>The times of a day\<close>

definition none_or_from :: "int \<Rightarrow> int \<Rightarrow> bool" where
  "none_or_from t x \<longleftrightarrow> x = - 1 \<or> t \<le> x"

lemma none_or_from_simps [simp]: "none_or_from t (- 1)" "t \<le> x \<Longrightarrow> none_or_from t x"
  by (simp_all add: none_or_from_def)

lemma earliest_in_from: "none_or_from t e \<Longrightarrow> none_or_from t (earliest_in_timeranges c t mid rs e)"
  by (induction rs arbitrary: e) (auto split: option.splits)

lemma next_valid_from: "none_or_from t (get_next_valid_time_in_timeranges c t rs)"
  by (simp add: get_next_valid_time_in_timeranges_def earliest_in_from)

lemma scan_dateranges_from:
  "scan_dateranges c ty ti rs st = Some st' \<Longrightarrow> none_or_from (ti_preferred_time ti) (fst st) \<Longrightarrow>
    none_or_from (ti_preferred_time ti) (fst st')"
proof (induction rs arbitrary: st)
  case (Cons r rs)
  let ?x = "get_next_valid_time_in_timeranges c (ti_preferred_time ti) (times r)"
  have "none_or_from (ti_preferred_time ti) ?x" by (rule next_valid_from)
  with Cons show ?case
    by (auto simp: Let_def none_or_from_def split: bind_splits option.splits prod.splits if_splits)
qed simp

lemma scan_exceptions_from:
  "scan_exceptions c tp ti tys st = Some st' \<Longrightarrow> none_or_from (ti_preferred_time ti) (fst st) \<Longrightarrow>
    none_or_from (ti_preferred_time ti) (fst st')"
  by (induction tys arbitrary: st) (auto split: if_splits bind_splits dest: scan_dateranges_from)

lemma valid_time_of_day_from: "valid_time_of_day c tp ti = Some x \<Longrightarrow> none_or_from (ti_preferred_time ti) x"
  using next_valid_from scan_exceptions_from by (fastforce simp: valid_time_of_day_def split: if_splits)

lemma end_of_current_from: "none_or_from t (end_of_current_range c t mid rs)"
  by (induction rs) (auto split: option.splits)

lemma current_daterange_from: "current_daterange_end c ty ti rs = Some x \<Longrightarrow> none_or_from (ti_preferred_time ti) x"
proof (induction rs)
  case (Cons r rs)
  from Cons.prems obtain l e where e: "(case l of
      None \<Rightarrow> Some (- 1)
    | Some (start, end1) \<Rightarrow>
        if ti_preferred_time ti < end1 \<or> end1 = - 1
        then map_option (\<lambda>midnight. if midnight \<noteq> - 1
               then end_of_current_range c (ti_preferred_time ti) (localtime_r c midnight) (times r) else - 1)
             (earliest_midnight_in_daterange c (ti_preferred_time ti) r start end1)
        else Some (- 1)) = Some e" "(if e \<noteq> - 1 then Some e else current_daterange_end c ty ti rs) = Some x"
    unfolding current_daterange_end.simps bind_eq_Some_conv by blast
  from e(1) have "none_or_from (ti_preferred_time ti) e"
    by (auto simp: end_of_current_from split: option.splits prod.splits if_splits)
  with e(2) Cons.IH show ?case by (cases "e = - 1") auto
qed (auto simp: none_or_from_def)

lemma current_exception_from: "current_exception_end c tp ti tys = Some x \<Longrightarrow> none_or_from (ti_preferred_time ti) x"
  by (induction tys) (auto split: bind_splits if_splits dest: current_daterange_from)

lemma current_weekday_from: "none_or_from (ti_preferred_time ti) (current_weekday_end c tp ti ks)"
  using end_of_current_from by (induction ks) (simp_all add: Let_def)

lemma current_range_from: "current_range_end c tp ti = Some x \<Longrightarrow> none_or_from (ti_preferred_time ti) x"
  using current_weekday_from current_exception_from by (auto simp: current_range_end_def)

lemma later_of_from: "none_or_from t m \<Longrightarrow> t \<le> x \<Longrightarrow> none_or_from t (later_of m x)"
  by (simp add: later_of_def)

lemma earlier_of_from: "none_or_from t m \<Longrightarrow> t \<le> x \<Longrightarrow> none_or_from t (earlier_of m x)"
  by (simp add: earlier_of_def)

section \<open>The search\<close>

fun not_before :: "period_call \<Rightarrow> int \<Rightarrow> bool" where
  "not_before (Next_valid p t) v = (0 \<le> t \<longrightarrow> t \<le> v)"
| "not_before (Valid_days p original t) v = (0 \<le> original \<and> original \<le> t \<longrightarrow> original \<le> v)"
| "not_before (Max_invalid es t m) v = (0 \<le> t \<and> none_or_from t m \<longrightarrow> none_or_from t v)"
| "not_before (Next_invalid p t) v = (0 \<le> t \<longrightarrow> t \<le> v)"
| "not_before (Invalid_days p original earliest t) v =
     (0 \<le> original \<and> original \<le> t \<and> none_or_from original earliest \<longrightarrow> original \<le> v)"
| "not_before (Min_valid es t m) v = (0 \<le> t \<and> none_or_from t m \<longrightarrow> none_or_from t v)"

context day_clock
begin

lemma search_not_before:
  assumes "search_period k masked call = Some v" "cal_clock k = c"
  shows "not_before call v"
proof -
  have "cal_clock k = c \<longrightarrow> not_before call v"
  proof (rule search_period.raw_induct [OF _ assms(1), of "\<lambda>k masked call v. cal_clock k = c \<longrightarrow> not_before call v"], goal_cases)
    case (1 f k masked call v)
    note IH = 1(1) and run = 1(2)
    show ?case
    proof
      assume k: "cal_clock k = c"
      have IH: "f k masked call = Some v \<Longrightarrow> not_before call v" for masked call v using IH k by blast
      have later: "t \<le> one_day_later c (ti_midnight (time_info_of c t))" for t
        using next_midnight(1) [of t] by (simp add: time_info one_day)
      have pref: "ti_preferred_time (time_info_of c t) = t" for t by (simp add: time_info)
      show "not_before call v"
      proof (cases call)
        case (Next_valid p t)
        with run show ?thesis by (auto split: option.splits dest!: IH)
      next
        case (Valid_days p original t)
        show ?thesis
        proof (cases "t < in_one_year original")
          case True
          with run Valid_days k obtain x where x: "valid_time_of_day c (timeperiod_of k p) (time_info_of c t) = Some x"
            "(if x = - 1
              then f k masked (Valid_days p original (one_day_later c (ti_midnight (time_info_of c t))))
              else Option.bind (f k (p # masked) (Max_invalid (exclusions_of k masked p) x (- 1)))
                (\<lambda>i. if i \<noteq> - 1 \<and> i \<noteq> x then f k masked (Valid_days p original i) else Some x)) = Some v"
            by (auto simp: bind_eq_Some_conv)
          have xt: "x = - 1 \<or> t \<le> x" using valid_time_of_day_from [OF x(1)] by (simp add: pref none_or_from_def)
          show ?thesis
          proof (cases "x = - 1")
            case True
            with x(2) have "f k masked (Valid_days p original (one_day_later c (ti_midnight (time_info_of c t)))) = Some v"
              by simp
            from IH [OF this] later [of t] Valid_days show ?thesis by auto
          next
            case False
            with x(2) obtain i where i: "f k (p # masked) (Max_invalid (exclusions_of k masked p) x (- 1)) = Some i"
              "(if i \<noteq> - 1 \<and> i \<noteq> x then f k masked (Valid_days p original i) else Some x) = Some v"
              by (auto simp: bind_eq_Some_conv)
            from IH [OF i(1)] i(2) xt False Valid_days show ?thesis
              by (auto simp: none_or_from_def split: if_splits dest!: IH)
          qed
        qed (use run Valid_days in simp)
      next
        case (Max_invalid es t m)
        with run show ?thesis by (cases es) (auto simp: bind_eq_Some_conv later_of_from dest!: IH)
      next
        case (Next_invalid p t)
        with run show ?thesis by (auto split: option.splits dest!: IH)
      next
        case (Invalid_days p original earliest t)
        show ?thesis
        proof (cases "earliest \<noteq> - 1 \<and> t < in_one_year original")
          case True
          with run Invalid_days k obtain x n where x: "current_range_end c (timeperiod_of k p) (time_info_of c earliest) = Some x"
            "f k (p # masked) (Min_valid (exclusions_of k masked p) earliest (- 1)) = Some n"
            "(if n \<noteq> - 1 \<and> n < one_day_later c (ti_midnight (time_info_of c earliest)) \<and> (x = - 1 \<or> n \<le> x)
              then Some n
              else f k masked (Invalid_days p original (- 1) (if x \<noteq> - 1 then x else earliest))) = Some v"
            by (auto simp: bind_eq_Some_conv)
          have "x = - 1 \<or> earliest \<le> x" using current_range_from [OF x(1)] by (simp add: pref none_or_from_def)
          with IH [OF x(2)] x(3) True Invalid_days show ?thesis
            by (auto simp: none_or_from_def split: if_splits dest!: IH)
        qed (use run Invalid_days in \<open>auto split: if_splits\<close>)
      next
        case (Min_valid es t m)
        with run show ?thesis by (cases es) (auto simp: bind_eq_Some_conv earlier_of_from dest!: IH)
      qed
    qed
  qed
  with assms(2) show ?thesis by blast
qed

end

end
