(* ===== verification/Loops.thy ===== *)
theory Loops
  imports Main
begin

text \<open>
  Functions that may not return: when the result of a composition is there, and that the
  combinators of such functions are monotone in the function they call, as
  \<^theory_text>\<open>partial_function\<close> asks.
\<close>

section \<open>Defined results\<close>

definition defined :: "'a option \<Rightarrow> bool" where
  "defined x \<longleftrightarrow> x \<noteq> None"

lemma defined_simps [simp]: "defined (Some y)" "\<not> defined None"
  "defined (map_option f x) \<longleftrightarrow> defined x"
  by (simp_all add: defined_def)

lemma defined_bind: "defined (Option.bind x f) \<longleftrightarrow> defined x \<and> (\<forall>y. x = Some y \<longrightarrow> defined (f y))"
  by (cases x) simp_all

text \<open>A result is there if it is there on every branch.\<close>

lemma defined_branches:
  "defined a \<Longrightarrow> (\<And>y. x = Some y \<Longrightarrow> defined (f y)) \<Longrightarrow> defined (case x of None \<Rightarrow> a | Some y \<Rightarrow> f y)"
  "(\<And>a b. z = (a, b) \<Longrightarrow> defined (g a b)) \<Longrightarrow> defined (case z of (a, b) \<Rightarrow> g a b)"
  "(p \<Longrightarrow> defined a) \<Longrightarrow> (\<not> p \<Longrightarrow> defined b) \<Longrightarrow> defined (if p then a else b)"
  "defined (Some c)"
  "defined b \<Longrightarrow> defined (map_option h b)"
  by (simp_all split: option.split prod.split)

section \<open>Monotone combinators\<close>

lemma map_option_mono [partial_function_mono]:
  assumes "mono_option B"
  shows "mono_option (\<lambda>f. map_option g (B f))"
  unfolding map_conv_bind_option using assms by (intro bind_mono option.const_mono) simp_all

lemma case_option_mono:
  assumes "mono_option A" "\<And>y. mono_option (\<lambda>f. B f y)"
  shows "mono_option (\<lambda>f. case x of None \<Rightarrow> A f | Some y \<Rightarrow> B f y)"
  using assms by (cases x) simp_all

lemma case_prod_mono:
  assumes "\<And>a b. mono_option (\<lambda>f. B f a b)"
  shows "mono_option (\<lambda>f. case x of (a, b) \<Rightarrow> B f a b)"
  using assms by (cases x) simp

lemma if_mono_option:
  assumes "mono_option A" "mono_option B"
  shows "mono_option (\<lambda>f. if b then A f else B f)"
  using assms by (cases b) simp_all

lemma let_mono_option: "(\<And>y. mono_option (\<lambda>f. B f y)) \<Longrightarrow> mono_option (\<lambda>f. Let x (B f))"
  by (simp add: Let_def)

lemmas branch_mono = case_option_mono case_prod_mono if_mono_option let_mono_option option.const_mono

end
