(* ===== verification/Period_Termination.thy ===== *)
theory Period_Termination
  imports Period_Safety Loops
begin

text \<open>
  The search ends. Every loop of the code that computes the limits of a date range returns when
  the fields of the range are what its name says and the time is at least two years after the
  epoch, on a clock that may be put forward and back and whatever the stack holds; the exclusions of a period end because a period is followed at most once.
\<close>

section \<open>Days of a month\<close>

definition range_fields :: "daterange \<Rightarrow> bool" where
  "range_fields r \<longleftrightarrow> 0 \<le> smon r \<and> smon r \<le> 11 \<and> 0 \<le> emon r \<and> emon r \<le> 11 \<and> smday r \<le> 31 \<and> emday r \<le> 31 \<and>
     0 \<le> swday r \<and> swday r < 7 \<and> 0 \<le> ewday r \<and> ewday r < 7"

context day_clock
begin

text \<open>The year 1971 begins after the epoch, as it does in every time zone.\<close>

definition settled :: bool where
  "settled \<longleftrightarrow> 0 \<le> date_start c 1971 0 1"

lemma date_start_settled:
  assumes settled "1971 \<le> y" "0 \<le> m" "m \<le> 11"
  shows "0 \<le> date_start c y m 1"
proof -
  have "0 \<le> days_before_month (leap_year y) m"
    using days_before_month_mono [OF assms(3), of "leap_year y"] by (simp add: days_before_month_def)
  then have "days_of_date 1971 0 1 \<le> days_of_date y m 1"
    using days_before_year_mono [OF assms(2)] assms(3,4)
    by (simp add: days_of_date_def days_before_month_def div_pos_pos_trivial mod_pos_pos_trivial)
  from start_le [OF this] assms(1) show ?thesis by (simp add: settled_def date_start_alt)
qed

lemma year_settled:
  assumes "date_start c 1972 0 1 \<le> t"
  shows "\<exists>y. tm_year (localtime_r c t) = y - 1900 \<and> 1972 \<le> y \<and> 0 \<le> tm_mon (localtime_r c t) \<and>
    tm_mon (localtime_r c t) \<le> 11 \<and> t < date_start c y (tm_mon (localtime_r c t) + 1) 1"
proof -
  obtain y m d where d: "date_of_day (day t) = (y, m, d)" using prod_cases3 by blast
  have v: "valid_date y m d" "days_of_date y m d = day t" using date_of_day_valid [OF d] by simp_all
  have "days_of_date 1972 0 1 \<le> day t"
    using day_mono [OF assms] by (simp only: date_start_alt second_start)
  moreover have y: "y = year_of_day (day t)" using d by (simp add: date_of_day_def Let_def)
  ultimately have "1972 \<le> y"
    using year_of_day [of "day t"] days_before_year_mono [of "y + 1" 1972]
    by (force simp: days_of_date_def days_before_month_def)
  moreover have "t < date_start c y (m + 1) 1"
  proof -
    have "day t + 1 \<le> days_of_date y m (month_length y m + 1)"
      using v days_of_date_day [of m y d] days_of_date_day [of m y "month_length y m + 1"] by (auto simp: valid_date_def)
    also have "\<dots> = days_of_date y (m + 1) 1" using v by (intro days_next_month) (simp_all add: valid_date_def)
    finally have "start (day t + 1) \<le> start (days_of_date y (m + 1) 1)" by (rule start_le)
    then show ?thesis using midnight_le(2) [of t] by (simp only: date_start_alt)
  qed
  ultimately show ?thesis using v d by (intro exI [of _ y]) (simp add: localtime_fields valid_date_def)
qed

end

section \<open>Weekday ranges\<close>

lemma december: "date_start c y 12 d = date_start c (y + 1) 0 d"
  by (simp add: date_start_def days_of_date_def)

context day_clock
begin

lemma date_start_end_of_month:
  assumes "0 \<le> m" "m \<le> 11"
  shows "date_start c y m 1 \<le> date_start c y (m + 1) 1"
  using days_next_month [OF assms, of y 1] days_of_date_day [OF assms, of y "month_length y m + 1"]
    month_length_bounds [OF assms, of y] by (simp add: date_start_alt start_le)

lemma day_of_month_settled:
  assumes settled "1971 \<le> y" "0 \<le> m" "m \<le> 11" "d \<le> 31"
  shows "\<exists>x. calculate_time_from_day_of_month c (y - 1900) m d = Some x \<and> (d \<le> 0 \<longrightarrow> date_start c y m 1 \<le> x)"
proof (cases "0 < d")
  case True
  with day_from_start [OF assms(3,4) True assms(5)] show ?thesis by simp
next
  case False
  then have "d \<le> 0" by simp
  obtain s where s: "0 \<le> s" "s < 86400"
    "calculate_time_from_day_of_month c (y - 1900) m d =
      Some (instant_of c (86400 * days_of_date y m (counted_back y m d) + s))"
    using day_from_end [OF assms(3,4) date_start_settled [OF assms(1-4)] \<open>d \<le> 0\<close>] by blast
  have "1 \<le> counted_back y m d" by (simp add: counted_back_def)
  from date_start_le [OF assms(3,4) this, of y] day_of_reading [OF s(1,2), of "days_of_date y m (counted_back y m d)"]
  have "date_start c y m 1 \<le> instant_of c (86400 * days_of_date y m (counted_back y m d) + s)"
    by (auto simp: day_iff date_start_alt)
  with s(3) show ?thesis by simp
qed

lemma weekday_settled:
  assumes settled "1971 \<le> y" "0 \<le> m" "m \<le> 11" "0 \<le> w" "w < 7"
  shows "\<exists>x. calculate_time_from_weekday_of_month c (y - 1900) m w n = Some x \<and>
    (x = - 1 \<or> date_start c y m 1 \<le> one_day_later c x)"
proof -
  have late: "date_start c y m 1 \<le> one_day_later c (date_start c y m k)" if "0 \<le> k" for k
    unfolding date_start_alt next_start
    using days_of_date_day [OF assms(3,4), of y k] that by (intro start_le) simp
  have "0 \<le> first_weekday y m w + 7 * (min 5 n - 1)" if "0 < n"
    using first_weekday_bounds(1) [of y m w] that by simp
  then show ?thesis
    using weekday_of_month [OF assms(3-6), of y n] date_start_settled [OF assms(1-4)] late
    by (auto simp: Let_def)
qed

lemma week_day_defined:
  assumes settled "range_fields r" "1971 \<le> y" "0 \<le> m" "m \<le> 11"
    "ti_preferred_time ti < date_start c y m 1 \<or>
     defined (if tm_mon (ti_preftime ti) \<noteq> 11 then daterange_week_day_from c r ti (y - 1900) (tm_mon (ti_preftime ti) + 1)
       else daterange_week_day_from c r ti (y - 1900 + 1) 0)"
  shows "defined (daterange_week_day_from c r ti (y - 1900) m)"
proof -
  let ?next = "if m \<noteq> 11 then calculate_time_from_day_of_month c (y - 1900) (m + 1) 0
      else calculate_time_from_day_of_month c (y - 1900 + 1) 0 0"
  obtain start where start: "calculate_time_from_weekday_of_month c (y - 1900) m (swday r) (swday_offset r) = Some start"
    using weekday_settled [OF assms(1,3-5), of "swday r"] assms(2) by (auto simp: range_fields_def)
  obtain end1 where end1: "calculate_time_from_weekday_of_month c (y - 1900) m (ewday r) (ewday_offset r) = Some end1"
    "end1 = - 1 \<or> date_start c y m 1 \<le> one_day_later c end1"
    using weekday_settled [OF assms(1,3-5), of "ewday r"] assms(2) by (auto simp: range_fields_def)
  obtain last where last: "?next = Some last" "date_start c y m 1 \<le> last"
    using day_of_month_settled [OF assms(1) _ _ _, of y "m + 1" 0] day_of_month_settled [OF assms(1), of "y + 1" 0 0]
      date_start_end_of_month [OF assms(4,5), of y] assms(3-5) december [of c y 1]
    by (cases "m = 11") (force simp: algebra_simps)+
  show ?thesis
    using assms(6) end1(2) last(2)
    by (subst daterange_week_day_from.simps) (auto simp: start end1(1) last(1))
qed

end

section \<open>Every kind of date range\<close>

context day_clock
begin

lemma month_date_years_defined:
  assumes settled "range_fields r" "1971 \<le> y" "0 \<le> decay"
  shows "defined (month_date_years c r pref decay (y - 1900) n se)"
  using assms(3)
proof (induction n arbitrary: y se)
  case (Suc n)
  have e: "y - 1900 + decay = y + decay - 1900" "y - 1900 + 1 = y + 1 - 1900" by simp_all
  obtain start where s: "calculate_time_from_day_of_month c (y - 1900) (smon r) (smday r) = Some start"
    using day_of_month_settled [OF assms(1) Suc.prems] assms(2) by (auto simp: range_fields_def)
  obtain end1 where "calculate_time_from_day_of_month c (y + decay - 1900) (emon r) (emday r) = Some end1"
    using day_of_month_settled [OF assms(1), of "y + decay"] Suc.prems assms(2,4) by (auto simp: range_fields_def)
  with s Suc.IH [of "y + 1"] Suc.prems show ?case by (simp add: e)
qed simp

lemma limits_defined: "defined a \<Longrightarrow> defined b \<Longrightarrow> defined (limits c a b)"
  by (simp add: limits_def defined_bind)

lemma day_defined:
  assumes settled "1971 \<le> y" "0 \<le> m" "m \<le> 11" "d \<le> 31"
  shows "defined (calculate_time_from_day_of_month c (y - 1900) m d)"
  using day_of_month_settled [OF assms] by auto

lemma weekday_defined:
  assumes settled "1971 \<le> y" "0 \<le> m" "m \<le> 11" "0 \<le> w" "w < 7"
  shows "defined (calculate_time_from_weekday_of_month c (y - 1900) m w n)"
  using weekday_settled [OF assms, of n] by auto

lemma year_steps: "y - 1900 + 1 = (y + 1) - (1900 :: int)" "y - 1900 - 1 = (y - 1) - (1900 :: int)"
  by simp_all

lemma daterange_defined:
  assumes settled "range_fields r" "date_start c 1972 0 1 \<le> ti_preferred_time ti"
    "ti_preftime ti = localtime_r c (midnight (ti_preferred_time ti))"
  shows "defined (daterange_to_time_t c r ty ti)"
proof -
  let ?t = "ti_preferred_time ti" and ?m = "tm_mon (ti_preftime ti)"
  have tm: "ti_preftime ti = set_midnight (localtime_r c ?t)" by (simp add: assms(4) set_midnight_localtime)
  obtain y where y: "tm_year (ti_preftime ti) = y - 1900" "1972 \<le> y" "0 \<le> ?m" "?m \<le> 11"
    "?t < date_start c y (?m + 1) 1"
    using year_settled [OF assms(3)] by (auto simp: tm set_midnight_def)
  note f = assms(2) [unfolded range_fields_def]
  show ?thesis
  proof (cases ty)
    case CALENDAR_DATE
    then show ?thesis by (simp add: daterange_to_time_t_def)
  next
    case MONTH_DATE
    show ?thesis
      using month_date_years_defined [OF assms(1,2), of y] month_date_years_defined [OF assms(1,2), of "y - 1"] y(2)
      by (simp add: MONTH_DATE daterange_to_time_t_def daterange_month_date_to_time_t_def Let_def y(1) year_steps)
  next
    case MONTH_DAY
    have day: "defined (calculate_time_from_day_of_month c (y' - 1900) m d)"
      if "1971 \<le> y'" "0 \<le> m" "m \<le> 11" "d \<le> 31" for y' m d
      using day_defined [OF assms(1) that] .
    show ?thesis using y(2-4) f day [of "y + 1" 0 "emday r"] day [of "y - 1" 11 "smday r"]
      by (auto simp: MONTH_DAY daterange_to_time_t_def daterange_month_day_to_time_t_def Let_def y(1) year_steps
          defined_bind split: option.splits intro!: limits_defined day)
  next
    case MONTH_WEEK_DAY
    have day: "defined (calculate_time_from_weekday_of_month c (y' - 1900) m w n)"
      if "1971 \<le> y'" "0 \<le> m" "m \<le> 11" "0 \<le> w" "w < 7" for y' m w n
      using weekday_defined [OF assms(1) that] .
    show ?thesis using y(2) f day [of "y + 1" "emon r" "ewday r" "ewday_offset r"]
        day [of "y - 1" "smon r" "swday r" "swday_offset r"]
      by (auto simp: MONTH_WEEK_DAY daterange_to_time_t_def daterange_month_week_day_to_time_t_def Let_def y(1)
          year_steps defined_bind split: option.splits intro!: limits_defined day)
  next
    case WEEK_DAY
    have "defined (if ?m \<noteq> 11 then daterange_week_day_from c r ti (y - 1900) (?m + 1)
        else daterange_week_day_from c r ti (y + 1 - 1900) 0)"
      using week_day_defined [OF assms(1,2), of y "?m + 1"] week_day_defined [OF assms(1,2), of "y + 1" 0] y december [of c y 1]
      by (cases "?m = 11") auto
    then have "defined (daterange_week_day_from c r ti (y - 1900) ?m)"
      using y(2-4) by (intro week_day_defined [OF assms(1,2)]) (simp_all split: if_splits)
    then show ?thesis by (simp add: WEEK_DAY daterange_to_time_t_def daterange_week_day_to_time_t_def y(1))
  qed
qed

end

section \<open>The days and ranges of a period\<close>

definition period_fields :: "timeperiod \<Rightarrow> bool" where
  "period_fields tp \<longleftrightarrow> (\<forall>ty. \<forall>r\<in>set (tp_exceptions tp ty). range_fields r)"

context day_clock
begin

lemma later_midnight: "t < add_round_days_to_midnight c t (86400 * n)" if "1 \<le> n"
proof -
  let ?u = "t + 86400 * n + 43200"
  have "?u < midnight ?u + 90000" using midnight_le(2) [of ?u] start_next(2) [of "day ?u"] by (simp add: midnight_def)
  then have "t < midnight ?u" "t < t + 86400 * n" using that by simp_all
  then show ?thesis
    by (simp add: add_round_days_to_midnight_def Let_def mktime_midnight add.assoc)
qed

lemma earliest_midnight_defined: "defined (earliest_midnight_in_daterange c t r s end1)"
proof (induction "nat (t + 1 - s)" arbitrary: s rule: less_induct)
  case less
  let ?s = "if skip_interval r \<le> 1 then one_day_later c s
      else add_round_days_to_midnight c s (skip_interval r * 24 * 60 * 60)"
  have "s < ?s"
    using later_midnight [of 1 s] later_midnight [of "skip_interval r" s]
    by (simp add: one_day_later_def mult.commute)
  then have "defined (earliest_midnight_in_daterange c t r ?s end1)" if "s \<le> t"
    using that by (intro less.hyps) simp
  then show ?case by (cases "s \<le> t"; subst earliest_midnight_in_daterange.simps) (auto simp: mult.commute split: if_splits)
qed

lemma settled_info:
  assumes "date_start c 1972 0 1 \<le> t" settled "range_fields r"
  shows "defined (daterange_to_time_t c r ty (time_info_of c t))"
  by (rule daterange_defined [OF assms(2,3)]) (simp_all add: time_info assms(1))

lemma scan_defined:
  assumes "date_start c 1972 0 1 \<le> t" settled
  shows "\<forall>r\<in>set rs. range_fields r \<Longrightarrow> defined (scan_dateranges c ty (time_info_of c t) rs st)"
  by (induction rs arbitrary: st) (auto simp: defined_bind Let_def settled_info [OF assms] split: option.splits)

lemma scan_exceptions_defined:
  assumes "date_start c 1972 0 1 \<le> t" settled "period_fields tp"
  shows "defined (scan_exceptions c tp (time_info_of c t) tys st)"
  using assms(3)
  by (induction tys arbitrary: st) (auto simp: defined_bind period_fields_def intro!: scan_defined [OF assms(1,2)])

lemma valid_time_of_day_defined:
  assumes "date_start c 1972 0 1 \<le> t" settled "period_fields tp"
  shows "defined (valid_time_of_day c tp (time_info_of c t))"
  by (simp add: valid_time_of_day_def scan_exceptions_defined [OF assms])

lemma current_range_defined:
  assumes "date_start c 1972 0 1 \<le> t" settled "period_fields tp"
  shows "defined (current_range_end c tp (time_info_of c t))"
proof -
  have "defined (current_daterange_end c ty (time_info_of c t) rs)" if "\<forall>r\<in>set rs. range_fields r" for ty rs
    using that by (induction rs)
      (auto simp: defined_bind settled_info [OF assms(1,2)] earliest_midnight_defined split: option.splits)
  then have "defined (current_exception_end c tp (time_info_of c t) tys)" for tys
    using assms(3) by (induction tys) (auto simp: defined_bind period_fields_def)
  then show ?thesis by (simp add: current_range_end_def)
qed

end

section \<open>The search ends\<close>

text \<open>A set of periods that holds the exclusions of its members.\<close>

definition closed_periods :: "calendar \<Rightarrow> string set \<Rightarrow> bool" where
  "closed_periods k ps \<longleftrightarrow> finite ps \<and>
     (\<forall>p\<in>ps. period_fields (timeperiod_of k p) \<and> (\<forall>e. Some e \<in> set (tp_exclusions (timeperiod_of k p)) \<longrightarrow> e \<in> ps))"

definition search_ends :: "calendar \<Rightarrow> int \<Rightarrow> string set \<Rightarrow> string list \<Rightarrow> bool" where
  "search_ends k lo ps masked \<longleftrightarrow> (\<forall>e t. (\<forall>p. e = Some p \<longrightarrow> p \<in> ps) \<longrightarrow> lo \<le> t \<longrightarrow>
     defined (search_period k masked (Next_valid e t)) \<and> defined (search_period k masked (Next_invalid e t)))"

lemma exclusions_end:
  assumes "search_ends k lo ps masked" "lo \<le> t" "\<forall>e. Some e \<in> set es \<longrightarrow> e \<in> ps"
  shows "defined (search_period k masked (Max_invalid es t m))" "defined (search_period k masked (Min_valid es t m))"
proof -
  have "defined (search_period k masked (Max_invalid es t m)) \<and> defined (search_period k masked (Min_valid es t m))"
    using assms(3)
  proof (induction es arbitrary: m)
    case (Cons e es)
    have "defined (search_period k masked (Next_valid e t))" "defined (search_period k masked (Next_invalid e t))"
      using assms(1,2) Cons.prems by (auto simp: search_ends_def)
    with Cons show ?case
      by (subst (1 2) search_period.simps) (simp add: defined_bind)
  qed (simp add: search_period.simps [of k masked "Max_invalid [] t _"] search_period.simps [of k masked "Min_valid [] t _"])
  then show "defined (search_period k masked (Max_invalid es t m))" "defined (search_period k masked (Min_valid es t m))"
    by simp_all
qed

context day_clock
begin

lemma days_end:
  assumes "closed_periods k ps" "cal_clock k = c" settled "0 \<le> lo" "date_start c 1972 0 1 \<le> lo"
    "p \<in> ps" "lo \<le> t" "p \<in> set masked \<or> search_ends k lo ps (p # masked)"
  shows "defined (search_period k masked (Valid_days p original t))"
  using assms(7)
proof (induction "nat (in_one_year original - t)" arbitrary: t rule: less_induct)
  case less
  let ?tp = "timeperiod_of k p" and ?ti = "time_info_of c t"
  have IH: "defined (search_period k masked (Valid_days p original t'))" if "t < t'" "t < in_one_year original" for t'
    using less.hyps [of t'] less.prems that by simp
  have fields: "period_fields ?tp" using assms(1,6) by (simp add: closed_periods_def)
  obtain x where x: "valid_time_of_day c ?tp ?ti = Some x" "x = - 1 \<or> t \<le> x"
    using valid_time_of_day_defined [OF _ assms(3) fields, of t] valid_time_of_day_from less.prems assms(5)
    by (fastforce simp: defined_def none_or_from_def time_info)
  have later: "t < one_day_later c (ti_midnight ?ti)" using next_midnight(1) [of t] by (simp add: time_info one_day)
  have max: "defined (search_period k (p # masked) (Max_invalid (exclusions_of k masked p) x (- 1)))" if "t \<le> x"
  proof (cases "p \<in> set masked")
    case True
    then show ?thesis by (subst search_period.simps) (simp add: exclusions_of_def)
  next
    case False
    with assms(8) have ends: "search_ends k lo ps (p # masked)" by simp
    show ?thesis
      using that less.prems assms(1,6) by (intro exclusions_end(1) [OF ends]) (auto simp: exclusions_of_def closed_periods_def)
  qed
  have after: "i = - 1 \<or> x \<le> i"
    if "search_period k (p # masked) (Max_invalid (exclusions_of k masked p) x (- 1)) = Some i" "t \<le> x" for i
    using search_not_before [OF that(1) assms(2)] that(2) less.prems assms(4) by (simp add: none_or_from_def)
  show ?case
    using x later max after IH
    by (subst search_period.simps) (auto simp: assms(2) defined_bind)
qed

lemma ranges_end:
  assumes "closed_periods k ps" "cal_clock k = c" settled "0 \<le> lo" "date_start c 1972 0 1 \<le> lo"
    "p \<in> ps" "lo \<le> t" "p \<in> set masked \<or> search_ends k lo ps (p # masked)"
  shows "defined (search_period k masked (Invalid_days p original t t))"
proof -
  have fields: "period_fields (timeperiod_of k p)" using assms(1,6) by (simp add: closed_periods_def)
  have range: "defined (current_range_end c (timeperiod_of k p) (time_info_of c t))"
    using current_range_defined [OF _ assms(3) fields, of t] assms(5,7) by simp
  have min: "defined (search_period k (p # masked) (Min_valid (exclusions_of k masked p) t (- 1)))"
  proof (cases "p \<in> set masked")
    case True
    then show ?thesis by (subst search_period.simps) (simp add: exclusions_of_def)
  next
    case False
    with assms(8) have ends: "search_ends k lo ps (p # masked)" by simp
    show ?thesis
      using assms(1,6,7) by (intro exclusions_end(2) [OF ends]) (auto simp: exclusions_of_def closed_periods_def)
  qed
  have last: "defined (search_period k masked (Invalid_days p original (- 1) u))" for u
    by (subst search_period.simps) simp
  show ?thesis using range min last
    by (subst search_period.simps) (simp add: assms(2) defined_bind)
qed

lemma search_ends:
  assumes "closed_periods k ps" "cal_clock k = c" settled "0 \<le> lo" "date_start c 1972 0 1 \<le> lo"
  shows "search_ends k lo ps masked"
proof (induction "card (ps - set masked)" arbitrary: masked rule: less_induct)
  case less
  have fin: "finite ps" using assms(1) by (simp add: closed_periods_def)
  have deeper: "p \<in> set masked \<or> search_ends k lo ps (p # masked)" if "p \<in> ps" for p
    using that fin by (cases "p \<in> set masked") (auto intro!: less.hyps psubset_card_mono)
  have "defined (search_period k masked (Next_valid e t)) \<and> defined (search_period k masked (Next_invalid e t))"
    if "\<forall>p. e = Some p \<longrightarrow> p \<in> ps" "lo \<le> t" for e t
  proof (cases e)
    case (Some p)
    then have p: "p \<in> ps" using that(1) by simp
    from days_end [OF assms p that(2) deeper [OF p]] ranges_end [OF assms p that(2) deeper [OF p]] show ?thesis
      by (subst (1 2) search_period.simps) (simp add: Some)
  qed (subst (1 2) search_period.simps, simp)
  then show ?case by (simp add: search_ends_def)
qed

end

text \<open>C28. The search for the next valid and that for the next invalid time return for every set of
  periods that holds their exclusions, whatever their date ranges, weekly ranges and exclusions
  (periods that exclude each other included), and neither goes back in time. The date ranges have
  to name months from 0 to 11, days of the month up to the 31st and weekdays from 0 to 6
  (\<open>range_fields\<close>), and the time to lie in the year 1972 or after. The clock may be put forward
  and back (\<open>day_clock\<close>), and 1971 has to begin after the epoch; the stack may hold anything.\<close>

theorem period_search_returns:
  assumes "closed_periods k ps" "p \<in> ps" "day_clock (cal_clock k)" "0 \<le> date_start (cal_clock k) 1971 0 1"
    "date_start (cal_clock k) 1972 0 1 \<le> t"
  shows "(\<exists>v. search_period k [] (Next_valid (Some p) t) = Some v \<and> t \<le> v) \<and>
    (\<exists>v. search_period k [] (Next_invalid (Some p) t) = Some v \<and> t \<le> v)"
proof -
  have settled: "day_clock.settled (cal_clock k)" using assms(3,4) by (simp add: day_clock.settled_def)
  have "0 \<le> date_start (cal_clock k) 1972 0 1" by (rule day_clock.date_start_settled [OF assms(3) settled]) simp_all
  then have "0 \<le> t" using assms(5) by simp
  then have ends: "search_ends k t ps []" by (rule day_clock.search_ends [OF assms(3,1) refl settled _ assms(5)])
  have "defined (search_period k [] (Next_valid (Some p) t))" "defined (search_period k [] (Next_invalid (Some p) t))"
    using ends assms(2) by (auto simp: search_ends_def)
  then show ?thesis using day_clock.search_not_before [OF assms(3) _ refl, where masked = "[]"] \<open>0 \<le> t\<close>
    by (fastforce simp: defined_def)
qed

text \<open>Working hours in Paris without the holidays, from the 24th of December to the second of January, which
  in turn exclude the working hours.\<close>

definition ex_holiday_range :: daterange where
  "ex_holiday_range = \<lparr>syear = 0, smon = 11, smday = 24, swday = 0, swday_offset = 0, eyear = 0, emon = 0, emday = 2,
     ewday = 0, ewday_offset = 0, skip_interval = 0, times = [\<lparr>range_start = 0, range_end = 86400\<rparr>]\<rparr>"

definition ex_holiday_calendar :: calendar where
  "ex_holiday_calendar = \<lparr>cal_clock = summer_clock 3600 1616893200 1635642000 ex_stale_stack, timeperiod_of = (\<lambda>p.
     if p = ''holidays''
     then \<lparr>tp_days = (\<lambda>_. []), tp_exceptions = (\<lambda>ty. if ty = MONTH_DATE then [ex_holiday_range] else []),
            tp_exclusions = [Some ''office'']\<rparr>
     else ex_office\<lparr>tp_exclusions := [Some ''holidays'']\<rparr>)\<rparr>"

theorem period_search_returns_witness:
  "\<exists>v. search_period ex_holiday_calendar [] (Next_valid (Some ''office'') 1608800000) = Some v \<and> 1608800000 \<le> v"
proof -
  have "closed_periods ex_holiday_calendar {''office'', ''holidays''}"
    by (auto simp: closed_periods_def ex_holiday_calendar_def period_fields_def range_fields_def ex_holiday_range_def
        ex_office_def)
  moreover have clock: "cal_clock ex_holiday_calendar = summer_clock 3600 1616893200 1635642000 ex_stale_stack"
    by (simp add: ex_holiday_calendar_def)
  moreover have "0 \<le> date_start (cal_clock ex_holiday_calendar) 1971 0 1"
    "date_start (cal_clock ex_holiday_calendar) 1972 0 1 \<le> 1608800000"
    unfolding clock by code_simp+
  ultimately show ?thesis
    using period_search_returns [of ex_holiday_calendar "{''office'', ''holidays''}" "''office''"]
      paris.day_clock_axioms [of ex_stale_stack] by simp
qed

end
