(* ===== verification/Macro_Names.thy ===== *)
theory Macro_Names
  imports External_Commands Calendar
begin

text \<open>
  The names of macros and the text functions around them: \<^verbatim>\<open>macros/defines.hh\<close>,
  \<^verbatim>\<open>init_macrox_names\<close>, \<^verbatim>\<open>clean_macro_chars\<close> and
  \<^verbatim>\<open>get_url_encoded_string\<close> of \<^verbatim>\<open>src/macros.cc\<close>, the tables of
  \<^verbatim>\<open>src/macros/grab_value.cc\<close>, dates, numbers and durations as text. The number of a macro
  is the position of its name.
\<close>

section \<open>Names and numbers\<close>

definition macro_x_names :: "string list" where
  "macro_x_names =
    [''HOSTNAME'', ''HOSTALIAS'', ''HOSTADDRESS'', ''SERVICEDESC'', ''SERVICESTATE'', ''SERVICESTATEID'',
     ''SERVICEATTEMPT'', ''LONGDATETIME'', ''SHORTDATETIME'', ''DATE'', ''TIME'', ''TIMET'',
     ''LASTHOSTCHECK'', ''LASTSERVICECHECK'', ''LASTHOSTSTATECHANGE'', ''LASTSERVICESTATECHANGE'',
     ''HOSTOUTPUT'', ''SERVICEOUTPUT'', ''HOSTPERFDATA'', ''SERVICEPERFDATA'', ''CONTACTNAME'',
     ''CONTACTALIAS'', ''CONTACTEMAIL'', ''CONTACTPAGER'', ''ADMINEMAIL'', ''ADMINPAGER'', ''HOSTSTATE'',
     ''HOSTSTATEID'', ''HOSTATTEMPT'', ''NOTIFICATIONTYPE'', ''NOTIFICATIONNUMBER'', ''HOSTEXECUTIONTIME'',
     ''SERVICEEXECUTIONTIME'', ''HOSTLATENCY'', ''SERVICELATENCY'', ''HOSTDURATION'', ''SERVICEDURATION'',
     ''HOSTDURATIONSEC'', ''SERVICEDURATIONSEC'', ''HOSTDOWNTIME'', ''SERVICEDOWNTIME'', ''HOSTSTATETYPE'',
     ''SERVICESTATETYPE'', ''HOSTPERCENTCHANGE'', ''SERVICEPERCENTCHANGE'', ''HOSTGROUPNAME'',
     ''HOSTGROUPALIAS'', ''SERVICEGROUPNAME'', ''SERVICEGROUPALIAS'', ''HOSTACKAUTHOR'', ''HOSTACKCOMMENT'',
     ''SERVICEACKAUTHOR'', ''SERVICEACKCOMMENT'', ''LASTSERVICEOK'', ''LASTSERVICEWARNING'',
     ''LASTSERVICEUNKNOWN'', ''LASTSERVICECRITICAL'', ''LASTHOSTUP'', ''LASTHOSTDOWN'',
     ''LASTHOSTUNREACHABLE'', ''SERVICECHECKCOMMAND'', ''HOSTCHECKCOMMAND'', ''MAINCONFIGFILE'',
     ''STATUSDATAFILE'', ''HOSTDISPLAYNAME'', ''SERVICEDISPLAYNAME'', ''RETENTIONDATAFILE'',
     ''OBJECTCACHEFILE'', ''TEMPFILE'', ''LOGFILE'', ''RESOURCEFILE'', ''COMMANDFILE'',
     ''HOSTPERFDATAFILE'', ''SERVICEPERFDATAFILE'', ''HOSTACTIONURL'', ''HOSTNOTESURL'', ''HOSTNOTES'',
     ''SERVICEACTIONURL'', ''SERVICENOTESURL'', ''SERVICENOTES'', ''TOTALHOSTSUP'', ''TOTALHOSTSDOWN'',
     ''TOTALHOSTSUNREACHABLE'', ''TOTALHOSTSDOWNUNHANDLED'', ''TOTALHOSTSUNREACHABLEUNHANDLED'',
     ''TOTALHOSTPROBLEMS'', ''TOTALHOSTPROBLEMSUNHANDLED'', ''TOTALSERVICESOK'', ''TOTALSERVICESWARNING'',
     ''TOTALSERVICESCRITICAL'', ''TOTALSERVICESUNKNOWN'', ''TOTALSERVICESWARNINGUNHANDLED'',
     ''TOTALSERVICESCRITICALUNHANDLED'', ''TOTALSERVICESUNKNOWNUNHANDLED'', ''TOTALSERVICEPROBLEMS'',
     ''TOTALSERVICEPROBLEMSUNHANDLED'', ''PROCESSSTARTTIME'', ''HOSTCHECKTYPE'', ''SERVICECHECKTYPE'',
     ''LONGHOSTOUTPUT'', ''LONGSERVICEOUTPUT'', ''TEMPPATH'', ''HOSTNOTIFICATIONNUMBER'',
     ''SERVICENOTIFICATIONNUMBER'', ''HOSTNOTIFICATIONID'', ''SERVICENOTIFICATIONID'', ''HOSTEVENTID'',
     ''LASTHOSTEVENTID'', ''SERVICEEVENTID'', ''LASTSERVICEEVENTID'', ''HOSTGROUPNAMES'',
     ''SERVICEGROUPNAMES'', ''HOSTACKAUTHORNAME'', ''HOSTACKAUTHORALIAS'', ''SERVICEACKAUTHORNAME'',
     ''SERVICEACKAUTHORALIAS'', ''MAXHOSTATTEMPTS'', ''MAXSERVICEATTEMPTS'', ''SERVICEISVOLATILE'',
     ''TOTALHOSTSERVICES'', ''TOTALHOSTSERVICESOK'', ''TOTALHOSTSERVICESWARNING'',
     ''TOTALHOSTSERVICESUNKNOWN'', ''TOTALHOSTSERVICESCRITICAL'', ''HOSTGROUPNOTES'', ''HOSTGROUPNOTESURL'',
     ''HOSTGROUPACTIONURL'', ''SERVICEGROUPNOTES'', ''SERVICEGROUPNOTESURL'', ''SERVICEGROUPACTIONURL'',
     ''HOSTGROUPMEMBERS'', ''SERVICEGROUPMEMBERS'', ''CONTACTGROUPNAME'', ''CONTACTGROUPALIAS'',
     ''CONTACTGROUPMEMBERS'', ''CONTACTGROUPNAMES'', ''NOTIFICATIONRECIPIENTS'',
     ''NOTIFICATIONISESCALATED'', ''NOTIFICATIONAUTHOR'', ''NOTIFICATIONAUTHORNAME'',
     ''NOTIFICATIONAUTHORALIAS'', ''NOTIFICATIONCOMMENT'', ''EVENTSTARTTIME'', ''HOSTPROBLEMID'',
     ''LASTHOSTPROBLEMID'', ''SERVICEPROBLEMID'', ''LASTSERVICEPROBLEMID'', ''ISVALIDTIME'',
     ''NEXTVALIDTIME'', ''LASTHOSTSTATE'', ''LASTHOSTSTATEID'', ''LASTSERVICESTATE'',
     ''LASTSERVICESTATEID'', ''HOSTPARENTS'', ''HOSTCHILDREN'', ''HOSTID'', ''SERVICEID'', ''HOSTTIMEZONE'',
     ''SERVICETIMEZONE'', ''CONTACTTIMEZONE'', ''CONTACTTOKEN'']"

definition macro_number :: "string \<Rightarrow> nat" where
  "macro_number name = length (takeWhile (\<lambda>x. x \<noteq> name) macro_x_names)"

definition MAX_COMMAND_ARGUMENTS :: nat where "MAX_COMMAND_ARGUMENTS = 32"
definition MAX_USER_MACROS :: nat where "MAX_USER_MACROS = 256"
definition MAX_CONTACT_ADDRESSES :: nat where "MAX_CONTACT_ADDRESSES = 6"
definition MAX_COMMAND_BUFFER :: nat where "MAX_COMMAND_BUFFER = 8192"

text \<open>The macros each handler of \<open>grab_macrox_value_r\<close> is registered for.\<close>

definition host_ids :: "string list" where
  "host_ids =
    [''HOSTNAME'', ''HOSTALIAS'', ''HOSTADDRESS'', ''LASTHOSTCHECK'', ''LASTHOSTSTATECHANGE'',
     ''HOSTOUTPUT'', ''HOSTPERFDATA'', ''HOSTSTATE'', ''HOSTSTATEID'', ''HOSTATTEMPT'',
     ''HOSTEXECUTIONTIME'', ''HOSTLATENCY'', ''HOSTDURATION'', ''HOSTDURATIONSEC'', ''HOSTDOWNTIME'',
     ''HOSTSTATETYPE'', ''HOSTPERCENTCHANGE'', ''HOSTACKAUTHOR'', ''HOSTACKCOMMENT'', ''LASTHOSTUP'',
     ''LASTHOSTDOWN'', ''LASTHOSTUNREACHABLE'', ''HOSTCHECKCOMMAND'', ''HOSTDISPLAYNAME'',
     ''HOSTACTIONURL'', ''HOSTNOTESURL'', ''HOSTNOTES'', ''HOSTCHECKTYPE'', ''LONGHOSTOUTPUT'',
     ''HOSTNOTIFICATIONNUMBER'', ''HOSTNOTIFICATIONID'', ''HOSTEVENTID'', ''LASTHOSTEVENTID'',
     ''HOSTGROUPNAMES'', ''HOSTACKAUTHORNAME'', ''HOSTACKAUTHORALIAS'', ''MAXHOSTATTEMPTS'',
     ''TOTALHOSTSERVICES'', ''TOTALHOSTSERVICESOK'', ''TOTALHOSTSERVICESWARNING'',
     ''TOTALHOSTSERVICESUNKNOWN'', ''TOTALHOSTSERVICESCRITICAL'', ''HOSTPROBLEMID'', ''LASTHOSTPROBLEMID'',
     ''LASTHOSTSTATE'', ''LASTHOSTSTATEID'', ''HOSTPARENTS'', ''HOSTCHILDREN'', ''HOSTID'', ''HOSTTIMEZONE'']"

definition hostgroup_ids :: "string list" where
  "hostgroup_ids =
    [''HOSTGROUPNAME'', ''HOSTGROUPALIAS'', ''HOSTGROUPNOTES'', ''HOSTGROUPNOTESURL'',
     ''HOSTGROUPACTIONURL'', ''HOSTGROUPMEMBERS'']"

definition service_ids :: "string list" where
  "service_ids =
    [''SERVICEDESC'', ''SERVICESTATE'', ''SERVICESTATEID'', ''SERVICEATTEMPT'', ''LASTSERVICECHECK'',
     ''LASTSERVICESTATECHANGE'', ''SERVICEOUTPUT'', ''SERVICEPERFDATA'', ''SERVICEEXECUTIONTIME'',
     ''SERVICELATENCY'', ''SERVICEDURATION'', ''SERVICEDURATIONSEC'', ''SERVICEDOWNTIME'',
     ''SERVICESTATETYPE'', ''SERVICEPERCENTCHANGE'', ''SERVICEACKAUTHOR'', ''SERVICEACKCOMMENT'',
     ''LASTSERVICEOK'', ''LASTSERVICEWARNING'', ''LASTSERVICEUNKNOWN'', ''LASTSERVICECRITICAL'',
     ''SERVICECHECKCOMMAND'', ''SERVICEDISPLAYNAME'', ''SERVICEACTIONURL'', ''SERVICENOTESURL'',
     ''SERVICENOTES'', ''SERVICECHECKTYPE'', ''LONGSERVICEOUTPUT'', ''SERVICENOTIFICATIONNUMBER'',
     ''SERVICENOTIFICATIONID'', ''SERVICEEVENTID'', ''LASTSERVICEEVENTID'', ''SERVICEGROUPNAMES'',
     ''SERVICEACKAUTHORNAME'', ''SERVICEACKAUTHORALIAS'', ''MAXSERVICEATTEMPTS'', ''SERVICEISVOLATILE'',
     ''SERVICEPROBLEMID'', ''LASTSERVICEPROBLEMID'', ''LASTSERVICESTATE'', ''LASTSERVICESTATEID'',
     ''SERVICEID'', ''SERVICETIMEZONE'']"

definition servicegroup_ids :: "string list" where
  "servicegroup_ids =
    [''SERVICEGROUPNAME'', ''SERVICEGROUPALIAS'', ''SERVICEGROUPNOTES'', ''SERVICEGROUPNOTESURL'',
     ''SERVICEGROUPACTIONURL'', ''SERVICEGROUPMEMBERS'']"

definition contact_ids :: "string list" where
  "contact_ids =
    [''CONTACTNAME'', ''CONTACTALIAS'', ''CONTACTEMAIL'', ''CONTACTPAGER'', ''CONTACTGROUPNAMES'',
     ''CONTACTTIMEZONE'']"

definition contactgroup_ids :: "string list" where
  "contactgroup_ids =
    [''CONTACTGROUPNAME'', ''CONTACTGROUPALIAS'', ''CONTACTGROUPMEMBERS'']"

definition notification_ids :: "string list" where
  "notification_ids =
    [''NOTIFICATIONTYPE'', ''NOTIFICATIONNUMBER'', ''NOTIFICATIONRECIPIENTS'', ''NOTIFICATIONISESCALATED'',
     ''NOTIFICATIONAUTHOR'', ''NOTIFICATIONAUTHORNAME'', ''NOTIFICATIONAUTHORALIAS'',
     ''NOTIFICATIONCOMMENT'']"

definition datetime_ids :: "string list" where
  "datetime_ids =
    [''LONGDATETIME'', ''SHORTDATETIME'', ''DATE'', ''TIME'', ''TIMET'', ''ISVALIDTIME'', ''NEXTVALIDTIME'']"

definition static_ids :: "string list" where
  "static_ids =
    [''ADMINEMAIL'', ''ADMINPAGER'', ''MAINCONFIGFILE'', ''STATUSDATAFILE'', ''RETENTIONDATAFILE'',
     ''OBJECTCACHEFILE'', ''TEMPFILE'', ''LOGFILE'', ''RESOURCEFILE'', ''COMMANDFILE'',
     ''HOSTPERFDATAFILE'', ''SERVICEPERFDATAFILE'', ''PROCESSSTARTTIME'', ''TEMPPATH'', ''EVENTSTARTTIME'']"

definition summary_ids :: "string list" where
  "summary_ids =
    [''TOTALHOSTSUP'', ''TOTALHOSTSDOWN'', ''TOTALHOSTSUNREACHABLE'', ''TOTALHOSTSDOWNUNHANDLED'',
     ''TOTALHOSTSUNREACHABLEUNHANDLED'', ''TOTALHOSTPROBLEMS'', ''TOTALHOSTPROBLEMSUNHANDLED'',
     ''TOTALSERVICESOK'', ''TOTALSERVICESWARNING'', ''TOTALSERVICESCRITICAL'', ''TOTALSERVICESUNKNOWN'',
     ''TOTALSERVICESWARNINGUNHANDLED'', ''TOTALSERVICESCRITICALUNHANDLED'',
     ''TOTALSERVICESUNKNOWNUNHANDLED'', ''TOTALSERVICEPROBLEMS'', ''TOTALSERVICEPROBLEMSUNHANDLED'']"

definition host_to_free :: "string list" where
  "host_to_free =
    [''HOSTNAME'', ''HOSTDISPLAYNAME'', ''HOSTALIAS'', ''HOSTADDRESS'', ''HOSTSTATE'', ''HOSTSTATEID'',
     ''HOSTCHECKTYPE'', ''HOSTSTATETYPE'', ''HOSTOUTPUT'', ''LONGHOSTOUTPUT'', ''HOSTPERFDATA'',
     ''HOSTCHECKCOMMAND'', ''HOSTATTEMPT'', ''MAXHOSTATTEMPTS'', ''HOSTDOWNTIME'', ''HOSTPERCENTCHANGE'',
     ''HOSTDURATIONSEC'', ''HOSTDURATION'', ''HOSTEXECUTIONTIME'', ''HOSTLATENCY'', ''LASTHOSTCHECK'',
     ''LASTHOSTSTATECHANGE'', ''LASTHOSTUP'', ''LASTHOSTDOWN'', ''LASTHOSTUNREACHABLE'',
     ''HOSTNOTIFICATIONNUMBER'', ''HOSTNOTIFICATIONID'', ''HOSTEVENTID'', ''LASTHOSTEVENTID'',
     ''HOSTACTIONURL'', ''HOSTNOTESURL'', ''HOSTNOTES'', ''HOSTGROUPNAMES'', ''TOTALHOSTSERVICES'',
     ''TOTALHOSTSERVICESOK'', ''TOTALHOSTSERVICESWARNING'', ''TOTALHOSTSERVICESUNKNOWN'',
     ''TOTALHOSTSERVICESCRITICAL'', ''HOSTPROBLEMID'', ''LASTHOSTPROBLEMID'', ''HOSTPARENTS'',
     ''HOSTCHILDREN'', ''HOSTID'', ''HOSTTIMEZONE'']"

definition hostgroup_to_free :: "string list" where
  "hostgroup_to_free =
    [''HOSTGROUPNAME'', ''HOSTGROUPALIAS'', ''HOSTGROUPMEMBERS'', ''HOSTGROUPACTIONURL'',
     ''HOSTGROUPNOTESURL'', ''HOSTGROUPNOTES'']"

definition service_to_free :: "string list" where
  "service_to_free =
    [''SERVICEDESC'', ''SERVICEDESC'', ''SERVICEDISPLAYNAME'', ''SERVICEOUTPUT'', ''LONGSERVICEOUTPUT'',
     ''SERVICEPERFDATA'', ''SERVICECHECKCOMMAND'', ''SERVICECHECKTYPE'', ''SERVICESTATETYPE'',
     ''SERVICESTATE'', ''SERVICEISVOLATILE'', ''SERVICESTATEID'', ''SERVICEATTEMPT'',
     ''MAXSERVICEATTEMPTS'', ''SERVICEEXECUTIONTIME'', ''SERVICELATENCY'', ''LASTSERVICECHECK'',
     ''LASTSERVICESTATECHANGE'', ''LASTSERVICEOK'', ''LASTSERVICEWARNING'', ''LASTSERVICEUNKNOWN'',
     ''LASTSERVICECRITICAL'', ''SERVICEDOWNTIME'', ''SERVICEPERCENTCHANGE'', ''SERVICEDURATIONSEC'',
     ''SERVICEDURATION'', ''SERVICENOTIFICATIONNUMBER'', ''SERVICENOTIFICATIONID'', ''SERVICEEVENTID'',
     ''LASTSERVICEEVENTID'', ''SERVICEACTIONURL'', ''SERVICENOTESURL'', ''SERVICENOTES'',
     ''SERVICEGROUPNAMES'', ''SERVICEPROBLEMID'', ''LASTSERVICEPROBLEMID'', ''SERVICEID'',
     ''SERVICETIMEZONE'']"

definition servicegroup_to_free :: "string list" where
  "servicegroup_to_free =
    [''SERVICEGROUPNAME'', ''SERVICEGROUPALIAS'', ''SERVICEGROUPMEMBERS'', ''SERVICEGROUPACTIONURL'',
     ''SERVICEGROUPNOTESURL'', ''SERVICEGROUPNOTES'']"

section \<open>Cleaning\<close>

text \<open>The bits of the cleaning options.\<close>

record macro_options =
  strip_illegal :: bool
  escape_chars :: bool
  url_encode :: bool

definition no_options :: macro_options where
  "no_options = \<lparr>strip_illegal = False, escape_chars = False, url_encode = False\<rparr>"

definition URL_ENCODE_MACRO_CHARS :: macro_options where
  "URL_ENCODE_MACRO_CHARS = no_options\<lparr>url_encode := True\<rparr>"

definition or_options :: "macro_options \<Rightarrow> macro_options \<Rightarrow> macro_options" where
  "or_options a b = \<lparr>strip_illegal = (strip_illegal a \<or> strip_illegal b), escape_chars = (escape_chars a \<or> escape_chars b),
     url_encode = (url_encode a \<or> url_encode b)\<rparr>"

text \<open>The ranges of macro numbers whose values are cleaned or encoded.\<close>

definition cleaned_number :: "nat \<Rightarrow> bool" where
  "cleaned_number x \<longleftrightarrow> 16 \<le> x \<and> x \<le> 19 \<or> 49 \<le> x \<and> x \<le> 52 \<or> 99 \<le> x \<and> x \<le> 100 \<or> 124 \<le> x \<and> x \<le> 127"

definition encoded_number :: "nat \<Rightarrow> bool" where
  "encoded_number x \<longleftrightarrow> 125 \<le> x \<and> x \<le> 126 \<or> 128 \<le> x \<and> x \<le> 129 \<or> 77 \<le> x \<and> x \<le> 78 \<or> 74 \<le> x \<and> x \<le> 75"

definition clean_options_of :: "string \<Rightarrow> macro_options" where
  "clean_options_of name =
     \<lparr>strip_illegal = cleaned_number (macro_number name), escape_chars = cleaned_number (macro_number name),
      url_encode = encoded_number (macro_number name)\<rparr>"

definition illegal_char :: "string \<Rightarrow> char \<Rightarrow> bool" where
  "illegal_char illegal c \<longleftrightarrow> of_char c < (32 :: nat) \<or> of_char c = (127 :: nat) \<or> c \<in> set illegal"

definition clean_macro_chars :: "string \<Rightarrow> macro_options \<Rightarrow> string \<Rightarrow> string" where
  "clean_macro_chars illegal options macro =
     (if strip_illegal options then filter (\<lambda>c. \<not> illegal_char illegal c) macro else macro)"

definition url_safe :: "char \<Rightarrow> bool" where
  "url_safe c \<longleftrightarrow> (let n = of_char c :: nat in 48 \<le> n \<and> n \<le> 57 \<or> 65 \<le> n \<and> n \<le> 90 \<or> 97 \<le> n \<and> n \<le> 122) \<or>
     c \<in> set ''.-_:/?=&''"

definition hex_digit :: "nat \<Rightarrow> char" where
  "hex_digit n = char_of (if n < 10 then 48 + n else 55 + n)"

definition url_encoded_char :: "char \<Rightarrow> string" where
  "url_encoded_char c =
     (if url_safe c then [c] else if c = CHR '' '' then ''+''
      else [CHR ''%'', hex_digit (of_char c div 16), hex_digit (of_char c mod 16)])"

definition get_url_encoded_string :: "string \<Rightarrow> string" where
  "get_url_encoded_string input = concat (map url_encoded_char input)"

section \<open>Numbers and dates as text\<close>

definition decimal_int :: "int \<Rightarrow> string" where
  "decimal_int n = (if n < 0 then CHR ''-'' # decimal (nat (- n)) else decimal (nat n))"

definition padded :: "nat \<Rightarrow> int \<Rightarrow> string" where
  "padded k n = (let d = decimal_int n in replicate (k - length d) (CHR ''0'') @ d)"

text \<open>A \<open>double\<close> with a fixed number of digits after the point, to the nearest, ties to even.\<close>

definition round_half_even :: "rat \<Rightarrow> int" where
  "round_half_even x =
     (let n = floor x; d = x - of_int n
      in if d < 1 / 2 \<or> d = 1 / 2 \<and> even n then n else n + 1)"

definition fixed_point :: "nat \<Rightarrow> rat \<Rightarrow> string" where
  "fixed_point precision x =
     (let n = nat (round_half_even (abs x * 10 ^ precision)); frac = decimal (n mod 10 ^ precision)
      in (if x < 0 then ''-'' else []) @ decimal (n div 10 ^ precision) @ ''.'' @
         replicate (precision - length frac) (CHR ''0'') @ frac)"

text \<open>The days are cut to an \<open>unsigned int\<close>.\<close>

definition duration_text :: "int \<Rightarrow> string" where
  "duration_text seconds =
     (let duration = nat (seconds mod 2 ^ 64)
      in decimal (duration div (24 * 60 * 60) mod 2 ^ 32) @ ''d '' @ decimal (duration mod (24 * 60 * 60) div (60 * 60)) @ ''h '' @
         decimal (duration mod (60 * 60) div 60) @ ''m '' @ decimal (duration mod 60) @ ''s'')"

datatype date_format = DATE_FORMAT_US | DATE_FORMAT_EURO | DATE_FORMAT_ISO8601 | DATE_FORMAT_STRICT_ISO8601

datatype date_style = LONG_DATE_TIME | SHORT_DATE_TIME | SHORT_DATE | SHORT_TIME

definition weekday_names :: "string list" where
  "weekday_names = [''Sun'', ''Mon'', ''Tue'', ''Wed'', ''Thu'', ''Fri'', ''Sat'']"

definition month_names :: "string list" where
  "month_names = [''Jan'', ''Feb'', ''Mar'', ''Apr'', ''May'', ''Jun'', ''Jul'', ''Aug'', ''Sept'', ''Oct'', ''Nov'', ''Dec'']"

definition time_text :: "tm \<Rightarrow> string" where
  "time_text t = padded 2 (tm_hour t) @ '':'' @ padded 2 (tm_min t) @ '':'' @ padded 2 (tm_sec t)"

definition date_text :: "date_format \<Rightarrow> tm \<Rightarrow> string" where
  "date_text f t =
     (let day = padded 2 (tm_mday t); month = padded 2 (tm_mon t + 1); year = padded 4 (tm_year t + 1900)
      in case f of
           DATE_FORMAT_EURO \<Rightarrow> day @ ''-'' @ month @ ''-'' @ year
         | DATE_FORMAT_US \<Rightarrow> month @ ''-'' @ day @ ''-'' @ year
         | _ \<Rightarrow> year @ ''-'' @ month @ ''-'' @ day)"

definition get_datetime_string :: "clock \<Rightarrow> string \<Rightarrow> date_format \<Rightarrow> int \<Rightarrow> date_style \<Rightarrow> string" where
  "get_datetime_string c tzone f raw_time style =
     (let t = localtime_r c raw_time
      in take 47 (case style of
           LONG_DATE_TIME \<Rightarrow>
             weekday_names ! nat (tm_wday t) @ '' '' @ month_names ! nat (tm_mon t) @ '' '' @ decimal_int (tm_mday t) @ '' '' @
             time_text t @ '' '' @ tzone @ '' '' @ decimal_int (tm_year t + 1900)
         | SHORT_DATE_TIME \<Rightarrow>
             date_text f t @ (if f = DATE_FORMAT_STRICT_ISO8601 then ''T'' else '' '') @ time_text t
         | SHORT_DATE \<Rightarrow> date_text f t
         | SHORT_TIME \<Rightarrow> time_text t))"

end
