(* ===== verification/Macros.thy ===== *)
theory Macros
  imports Macro_Names
begin

text \<open>
  The values of macros: \<^verbatim>\<open>src/macros.cc\<close>, \<^verbatim>\<open>src/macros/grab_value.cc\<close>,
  \<^verbatim>\<open>src/macros/grab_host.cc\<close>, \<^verbatim>\<open>src/macros/grab_service.cc\<close>. The value of a
  macro is a buffer of its own or one of the stored values (a slot of the array \<open>x\<close>, an
  argument, a user macro), which later cleaning changes in place. Notes and URLs are expanded
  in turn: the functions take the expansion they call as an argument \<open>rec\<close>. The result is
  \<open>None\<close> if the code does not come back.
\<close>

section \<open>State\<close>

text \<open>
  The fields of the objects that only macros read, next to those of the record \<open>engine\<close>;
  groups carry the names of their members with the pointers resolved from them.
\<close>

record texts =
  display_name :: "string option"
  alias_of :: "string option"
  notes_text :: "string option"
  notes_url :: "string option"
  action_url :: "string option"
  groups_ptr :: "string option list"
  object_id :: nat

record host_texts = texts +
  parent_names :: "string list"
  child_names :: "string list"

record service_texts = texts +
  service_check_command :: "string option"

record contact_texts =
  email :: "string option"
  pager :: "string option"
  token :: "string option"
  address :: "string option list"
  contactgroups_ptr :: "string option list"

record contactgroup_texts =
  cg_alias :: "string option"
  cg_members :: "(string option \<times> contact_id option) list"

text \<open>
  What the macros are computed from. \<open>unset_text\<close> is what a fresh buffer holds before it is
  written, \<open>ambient_tz\<close> the time zone set when a macro about a time period is computed.
\<close>

record macro_env =
  m_engine :: engine
  m_env :: env
  m_clock :: clock
  zone_name :: string
  ambient_tz :: "string option"
  date_format_of :: date_format
  illegal_output_chars :: string
  host_texts_of :: "host_id \<Rightarrow> host_texts"
  service_texts_of :: "svc_id \<Rightarrow> service_texts"
  contact_texts_of :: "contact_id \<Rightarrow> contact_texts"
  hostgroup_texts_of :: "string \<Rightarrow> texts"
  servicegroup_texts_of :: "string \<Rightarrow> texts"
  contactgroup_texts_of :: "string \<Rightarrow> contactgroup_texts"
  user_macros :: "string \<Rightarrow> string option"
  unset_text :: string

text \<open>
  The structure \<open>nagios_macros\<close> of one expansion, with the global macros beside it; a group
  pointer is the name of the group.
\<close>

record macro_state =
  x_of :: "string \<Rightarrow> string option"
  global_x :: "string \<Rightarrow> string option"
  argv :: "nat \<Rightarrow> string option"
  macro_user :: "nat \<Rightarrow> string option"
  host_ptr :: "host_id option"
  hostgroup_ptr :: "string option"
  service_ptr :: "svc_id option"
  servicegroup_ptr :: "string option"
  contact_ptr :: "contact_id option"
  contactgroup_ptr :: "string option"

datatype macro_value = Fresh string | Slot string | Static string | Argument nat | User nat

fun value_text :: "macro_state \<Rightarrow> macro_value \<Rightarrow> string option" where
  "value_text st (Fresh t) = Some t"
| "value_text st (Slot name) = x_of st name"
| "value_text st (Static name) = global_x st name"
| "value_text st (Argument n) = argv st n"
| "value_text st (User n) = macro_user st n"

fun store_value :: "macro_value \<Rightarrow> string \<Rightarrow> macro_state \<Rightarrow> macro_state" where
  "store_value (Fresh _) t st = st"
| "store_value (Slot name) t st = st\<lparr>x_of := (x_of st)(name := Some t)\<rparr>"
| "store_value (Static name) t st = st\<lparr>global_x := (global_x st)(name := Some t)\<rparr>"
| "store_value (Argument n) t st = st\<lparr>argv := (argv st)(n := Some t)\<rparr>"
| "store_value (User n) t st = st\<lparr>macro_user := (macro_user st)(n := Some t)\<rparr>"

text \<open>A result other than \<open>OK\<close> and \<open>ERROR\<close>: the code returns \<open>true\<close> for a named user macro.\<close>

datatype grab_result = Grab_ok | Grab_true | Grab_error

type_synonym grabbed = "macro_state \<times> grab_result \<times> macro_value option"
type_synonym expansion = "macro_state \<times> string option \<times> macro_options \<Rightarrow> (macro_state \<times> string) option"

definition failed :: "macro_state \<Rightarrow> grabbed" where
  "failed st = (st, Grab_error, None)"

definition fresh :: "macro_state \<Rightarrow> string option \<Rightarrow> grabbed" where
  "fresh st t = (st, Grab_ok, map_option Fresh t)"

text \<open>A pointer to a stored value that may be null.\<close>

definition stored :: "macro_state \<Rightarrow> macro_value \<Rightarrow> grabbed" where
  "stored st v = (st, Grab_ok, if value_text st v = None then None else Some v)"

text \<open>
  The values of the members of a group, joined with a delimiter: members without a value are
  skipped. What computes a value may change the state.
\<close>

fun join_members ::
    "('a \<Rightarrow> 's \<Rightarrow> ('s \<times> string option) option) \<Rightarrow> string \<Rightarrow> 'a list \<Rightarrow> 's \<times> string option \<Rightarrow>
     ('s \<times> string option) option" where
  "join_members value_of delimiter [] s = Some s"
| "join_members value_of delimiter (m # ms) (st, output) = do {
     (st1, buffer) \<leftarrow> value_of m st;
     join_members value_of delimiter ms
       (st1, case buffer of None \<Rightarrow> output
             | Some b \<Rightarrow> Some (case output of None \<Rightarrow> b | Some t \<Rightarrow> t @ delimiter @ b))
   }"

text \<open>The text of a grabbed value.\<close>

definition text_of :: "grabbed \<Rightarrow> macro_state \<times> string option" where
  "text_of g = (fst g, Option.bind (snd (snd g)) (value_text (fst g)))"

definition joined :: "macro_state \<times> string option \<Rightarrow> grabbed" where
  "joined s = fresh (fst s) (snd s)"

section \<open>Hosts\<close>

fun host_state_text :: "host_state \<Rightarrow> string" where
  "host_state_text HOST_DOWN = ''DOWN''"
| "host_state_text HOST_UNREACHABLE = ''UNREACHABLE''"
| "host_state_text HOST_UP = ''UP''"

fun host_state_id :: "host_state \<Rightarrow> int" where
  "host_state_id HOST_UP = 0" | "host_state_id HOST_DOWN = 1" | "host_state_id HOST_UNREACHABLE = 2"

definition state_type_text :: "state_type \<Rightarrow> string" where
  "state_type_text ty = (if ty = HARD_STATE then ''HARD'' else ''SOFT'')"

definition check_type_text :: "check_type \<Rightarrow> string" where
  "check_type_text ty = (if ty = CHECK_PASSIVE then ''PASSIVE'' else ''ACTIVE'')"

text \<open>The names of the groups, separated by commas; null pointers are skipped.\<close>

fun append_group :: "string \<Rightarrow> string option \<Rightarrow> string" where
  "append_group buf None = buf"
| "append_group buf (Some name) = (if buf = [] then [] else buf @ '','') @ name"

definition group_names :: "string option list \<Rightarrow> string" where
  "group_names gs = foldl append_group [] gs"

text \<open>The names of the parents or children of a host, as the code joins them.\<close>

definition related_names :: "string list \<Rightarrow> string" where
  "related_names names = foldl (\<lambda>retval n. (if retval = [] then retval else retval @ n) @ '','') [] names"

definition services_in :: "engine \<Rightarrow> host_id \<Rightarrow> (svc_state \<Rightarrow> bool) \<Rightarrow> string" where
  "services_in w h P =
     decimal (length (filter (\<lambda>m. case m of None \<Rightarrow> False | Some s \<Rightarrow> P (s_current_state (svc_of w s)))
       (h_services (host_of w h))))"

text \<open>The numbers of services are computed once and kept in their slots.\<close>

definition generate_host_total_services :: "engine \<Rightarrow> host_id \<Rightarrow> macro_state \<Rightarrow> macro_state" where
  "generate_host_total_services w h st =
     (if x_of st ''TOTALHOSTSERVICES'' \<noteq> None then st
      else st\<lparr>x_of := (x_of st)(
        ''TOTALHOSTSERVICES'' := Some (services_in w h (\<lambda>_. True)),
        ''TOTALHOSTSERVICESOK'' := Some (services_in w h (\<lambda>s. s = STATE_OK)),
        ''TOTALHOSTSERVICESWARNING'' := Some (services_in w h (\<lambda>s. s = STATE_WARNING)),
        ''TOTALHOSTSERVICESUNKNOWN'' := Some (services_in w h (\<lambda>s. s = STATE_UNKNOWN)),
        ''TOTALHOSTSERVICESCRITICAL'' := Some (services_in w h (\<lambda>s. s = STATE_CRITICAL)))\<rparr>)"

definition host_totals :: "string list" where
  "host_totals = [''TOTALHOSTSERVICES'', ''TOTALHOSTSERVICESOK'', ''TOTALHOSTSERVICESWARNING'',
     ''TOTALHOSTSERVICESUNKNOWN'', ''TOTALHOSTSERVICESCRITICAL'']"

text \<open>The macros that copy a member of the host or a macro set before.\<close>

definition macro_copy :: "macro_state \<Rightarrow> string \<Rightarrow> string \<times> string option" where
  "macro_copy st name = (name, Some (case x_of st name of None \<Rightarrow> [] | Some t \<Rightarrow> t))"

definition host_routines :: "macro_env \<Rightarrow> host_id \<Rightarrow> macro_state \<Rightarrow> (string \<times> string option) list" where
  "host_routines E name st =
     (let w = m_engine E; h = host_of w name; t = host_texts_of E name; since = now (m_env E) - h_last_state_change h
      in [(''HOSTNAME'', Some name), (''HOSTDISPLAYNAME'', display_name t), (''HOSTALIAS'', alias_of t),
          (''HOSTADDRESS'', Some (h_address h)), (''HOSTSTATE'', Some (host_state_text (h_current_state h))),
          (''HOSTSTATEID'', Some (decimal_int (host_state_id (h_current_state h)))),
          (''LASTHOSTSTATE'', Some (host_state_text (h_last_state h))),
          (''LASTHOSTSTATEID'', Some (decimal_int (host_state_id (h_last_state h)))),
          (''HOSTCHECKTYPE'', Some (check_type_text (h_check_type h))),
          (''HOSTSTATETYPE'', Some (state_type_text (h_state_type h))),
          (''HOSTOUTPUT'', h_plugin_output h), (''LONGHOSTOUTPUT'', h_long_plugin_output h),
          (''HOSTPERFDATA'', h_perf_data h), (''HOSTCHECKCOMMAND'', h_host_check_command h),
          (''HOSTATTEMPT'', Some (decimal_int (h_current_attempt h))),
          (''MAXHOSTATTEMPTS'', Some (decimal_int (h_max_attempts h))),
          (''HOSTDOWNTIME'', Some (decimal_int (h_scheduled_downtime_depth h))),
          (''HOSTPERCENTCHANGE'', Some (fixed_point 2 (h_percent_state_change h))),
          (''HOSTDURATION'', Some (duration_text since)),
          (''HOSTDURATIONSEC'', Some (decimal (nat (since mod 2 ^ 64)))),
          (''HOSTEXECUTIONTIME'', Some (fixed_point 3 (h_execution_time h))),
          (''HOSTLATENCY'', Some (fixed_point 3 (h_latency h))),
          (''LASTHOSTCHECK'', Some (decimal_int (h_last_check h))),
          (''LASTHOSTSTATECHANGE'', Some (decimal_int (h_last_state_change h))),
          (''LASTHOSTUP'', Some (decimal_int (h_last_time_up h))),
          (''LASTHOSTDOWN'', Some (decimal_int (h_last_time_down h))),
          (''LASTHOSTUNREACHABLE'', Some (decimal_int (h_last_time_unreachable h))),
          (''HOSTNOTIFICATIONNUMBER'', Some (decimal_int (h_current_notification_number h))),
          (''HOSTNOTIFICATIONID'', Some (decimal (h_current_notification_id h))),
          (''HOSTEVENTID'', Some (decimal (h_current_event_id h))),
          (''LASTHOSTEVENTID'', Some (decimal (h_last_event_id h))),
          (''HOSTPROBLEMID'', Some (decimal (h_current_problem_id h))),
          (''LASTHOSTPROBLEMID'', Some (decimal (h_last_problem_id h))),
          (''HOSTGROUPNAMES'', Some (group_names (groups_ptr t))),
          macro_copy st ''HOSTACKAUTHOR'', macro_copy st ''HOSTACKAUTHORNAME'', macro_copy st ''HOSTACKAUTHORALIAS'',
          macro_copy st ''HOSTACKCOMMENT'',
          (''HOSTPARENTS'', Some (related_names (parent_names t))),
          (''HOSTCHILDREN'', Some (related_names (child_names t))),
          (''HOSTID'', Some (decimal (object_id t))), (''HOSTTIMEZONE'', get_host_timezone w name)])"

text \<open>The members whose text is expanded in turn, with the options of that expansion.\<close>

definition recursive_text :: "string \<Rightarrow> 'a texts_scheme \<Rightarrow> string \<Rightarrow> (string option \<times> macro_options) option" where
  "recursive_text kind t name =
     (if name = kind @ ''ACTIONURL'' then Some (action_url t, URL_ENCODE_MACRO_CHARS)
      else if name = kind @ ''NOTESURL'' then Some (notes_url t, URL_ENCODE_MACRO_CHARS)
      else if name = kind @ ''NOTES'' then Some (notes_text t, no_options)
      else None)"

definition expand_text ::
    "expansion \<Rightarrow> macro_state \<Rightarrow> string option \<times> macro_options \<Rightarrow> grabbed option" where
  "expand_text rec st t = map_option (\<lambda>(st1, s). fresh st1 (Some s)) (rec (st, fst t, snd t))"

definition grab_standard_host_macro_r ::
    "expansion \<Rightarrow> macro_env \<Rightarrow> string \<Rightarrow> host_id \<Rightarrow> macro_state \<Rightarrow> grabbed option" where
  "grab_standard_host_macro_r rec E name h st =
     (if name \<in> set host_totals
      then Some (stored (generate_host_total_services (m_engine E) h st) (Slot name))
      else case recursive_text ''HOST'' (host_texts_of E h) name of
        Some t \<Rightarrow> expand_text rec st t
      | None \<Rightarrow>
          (case map_of (host_routines E h st) name of
             None \<Rightarrow> Some (failed st)
           | Some t \<Rightarrow> Some (fresh st t)))"

definition handle_host_macro ::
    "expansion \<Rightarrow> macro_env \<Rightarrow> string \<Rightarrow> string option \<times> string option \<Rightarrow> macro_state \<Rightarrow> grabbed option" where
  "handle_host_macro rec E name arg st =
     (case snd arg of
        None \<Rightarrow>
          (case (if fst arg \<noteq> None then find_host (m_engine E) (fst arg) else host_ptr st) of
             None \<Rightarrow> Some (failed st)
           | Some h \<Rightarrow> grab_standard_host_macro_r rec E name h st)
      | Some delimiter \<Rightarrow>
          (case find_hostgroup (m_engine E) (fst arg) of
             None \<Rightarrow> Some (failed st)
           | Some members \<Rightarrow>
               map_option joined (join_members (\<lambda>h st. map_option text_of (grab_standard_host_macro_r rec E name h st))
                 delimiter (List.map_filter snd members) (st, None))))"

section \<open>Groups of hosts\<close>

text \<open>A list of names joined with commas is written to a fresh buffer.\<close>

definition member_list :: "string \<Rightarrow> string list \<Rightarrow> string" where
  "member_list unset names =
     (if names = [] then unset
      else foldl (\<lambda>output n. if output = [] then n else output @ '','' @ n) [] names)"

definition grab_standard_hostgroup_macro_r ::
    "expansion \<Rightarrow> macro_env \<Rightarrow> string \<Rightarrow> string \<Rightarrow> macro_state \<Rightarrow> grabbed option" where
  "grab_standard_hostgroup_macro_r rec E name g st =
     (let t = hostgroup_texts_of E g in
      case recursive_text ''HOSTGROUP'' t name of
        Some r \<Rightarrow> expand_text rec st r
      | None \<Rightarrow>
          Some (if name = ''HOSTGROUPNAME'' then fresh st (Some g)
                else if name = ''HOSTGROUPALIAS'' then fresh st (alias_of t)
                else if name = ''HOSTGROUPMEMBERS''
                then fresh st (Some (member_list (unset_text E)
                       (map fst (case hostgroup_of (m_engine E) g of None \<Rightarrow> [] | Some ms \<Rightarrow> ms))))
                else failed st))"

definition group_named :: "('b option) \<Rightarrow> string option \<Rightarrow> string option" where
  "group_named found name = (if found = None then None else name)"

definition handle_hostgroup_macro ::
    "expansion \<Rightarrow> macro_env \<Rightarrow> string \<Rightarrow> string option \<times> string option \<Rightarrow> macro_state \<Rightarrow> grabbed option" where
  "handle_hostgroup_macro rec E name arg st =
     (case (if fst arg \<noteq> None then group_named (find_hostgroup (m_engine E) (fst arg)) (fst arg) else hostgroup_ptr st) of
        None \<Rightarrow> Some (failed st)
      | Some g \<Rightarrow> grab_standard_hostgroup_macro_r rec E name g st)"

end
