(* ===== verification/Macro_Values.thy ===== *)
theory Macro_Values
  imports Macros
begin

text \<open>
  The values of macros, continued: services and their groups, contacts, dates, totals, custom
  variables, and \<open>grab_macro_value_r\<close> itself.
\<close>

section \<open>Services\<close>

fun svc_state_text :: "svc_state \<Rightarrow> string" where
  "svc_state_text STATE_OK = ''OK''"
| "svc_state_text STATE_WARNING = ''WARNING''"
| "svc_state_text STATE_CRITICAL = ''CRITICAL''"
| "svc_state_text STATE_UNKNOWN = ''UNKNOWN''"

fun svc_state_id :: "svc_state \<Rightarrow> int" where
  "svc_state_id STATE_OK = 0" | "svc_state_id STATE_WARNING = 1" | "svc_state_id STATE_CRITICAL = 2"
| "svc_state_id STATE_UNKNOWN = 3"

definition service_routines :: "macro_env \<Rightarrow> svc_id \<Rightarrow> macro_state \<Rightarrow> (string \<times> string option) list" where
  "service_routines E sid st =
     (let w = m_engine E; s = svc_of w sid; t = service_texts_of E sid; since = now (m_env E) - s_last_state_change s
      in [(''SERVICEDESC'', Some (snd sid)), (''SERVICEDISPLAYNAME'', display_name t),
          (''SERVICEOUTPUT'', s_plugin_output s), (''LONGSERVICEOUTPUT'', s_long_plugin_output s),
          (''SERVICEPERFDATA'', s_perf_data s), (''SERVICECHECKCOMMAND'', service_check_command t),
          (''SERVICECHECKTYPE'', Some (check_type_text (s_check_type s))),
          (''SERVICESTATETYPE'', Some (state_type_text (s_state_type s))),
          (''SERVICESTATE'', Some (svc_state_text (s_current_state s))),
          (''SERVICESTATEID'', Some (decimal_int (svc_state_id (s_current_state s)))),
          (''LASTSERVICESTATE'', Some (svc_state_text (s_last_state s))),
          (''LASTSERVICESTATEID'', Some (decimal_int (svc_state_id (s_last_state s)))),
          (''SERVICEISVOLATILE'', Some (decimal (of_bool (s_is_volatile s)))),
          (''SERVICEATTEMPT'', Some (decimal_int (s_current_attempt s))),
          (''MAXSERVICEATTEMPTS'', Some (decimal_int (s_max_attempts s))),
          (''SERVICEEXECUTIONTIME'', Some (fixed_point 3 (s_execution_time s))),
          (''SERVICELATENCY'', Some (fixed_point 3 (s_latency s))),
          (''LASTSERVICECHECK'', Some (decimal_int (s_last_check s))),
          (''LASTSERVICESTATECHANGE'', Some (decimal_int (s_last_state_change s))),
          (''LASTSERVICEOK'', Some (decimal_int (s_last_time_ok s))),
          (''LASTSERVICEWARNING'', Some (decimal_int (s_last_time_warning s))),
          (''LASTSERVICEUNKNOWN'', Some (decimal_int (s_last_time_unknown s))),
          (''LASTSERVICECRITICAL'', Some (decimal_int (s_last_time_critical s))),
          (''SERVICEDOWNTIME'', Some (decimal_int (s_scheduled_downtime_depth s))),
          (''SERVICEPERCENTCHANGE'', Some (fixed_point 2 (s_percent_state_change s))),
          (''SERVICEDURATION'', Some (duration_text since)),
          (''SERVICEDURATIONSEC'', Some (decimal (nat (since mod 2 ^ 64)))),
          (''SERVICENOTIFICATIONNUMBER'', Some (decimal_int (s_current_notification_number s))),
          (''SERVICENOTIFICATIONID'', Some (decimal (s_current_notification_id s))),
          (''SERVICEEVENTID'', Some (decimal (s_current_event_id s))),
          (''LASTSERVICEEVENTID'', Some (decimal (s_last_event_id s))),
          (''SERVICEPROBLEMID'', Some (decimal (s_current_problem_id s))),
          (''LASTSERVICEPROBLEMID'', Some (decimal (s_last_problem_id s))),
          (''SERVICEGROUPNAMES'', Some (group_names (groups_ptr t))),
          macro_copy st ''SERVICEACKAUTHOR'', macro_copy st ''SERVICEACKAUTHORNAME'',
          macro_copy st ''SERVICEACKAUTHORALIAS'', macro_copy st ''SERVICEACKCOMMENT'',
          (''SERVICEID'', Some (decimal (object_id t))), (''SERVICETIMEZONE'', get_service_timezone w sid)])"

definition grab_standard_service_macro_r ::
    "expansion \<Rightarrow> macro_env \<Rightarrow> string \<Rightarrow> svc_id \<Rightarrow> macro_state \<Rightarrow> grabbed option" where
  "grab_standard_service_macro_r rec E name s st =
     (case recursive_text ''SERVICE'' (service_texts_of E s) name of
        Some t \<Rightarrow> expand_text rec st t
      | None \<Rightarrow>
          (case map_of (service_routines E s st) name of
             None \<Rightarrow> Some (failed st)
           | Some t \<Rightarrow> Some (fresh st t)))"

definition handle_service_macro ::
    "expansion \<Rightarrow> macro_env \<Rightarrow> string \<Rightarrow> string option \<times> string option \<Rightarrow> macro_state \<Rightarrow> grabbed option" where
  "handle_service_macro rec E name arg st =
     (let w = m_engine E;
          grab = (\<lambda>s. case s of None \<Rightarrow> Some (failed st) | Some s \<Rightarrow> grab_standard_service_macro_r rec E name s st)
      in case arg of
           (None, None) \<Rightarrow> grab (service_ptr st)
         | (None, Some desc) \<Rightarrow> (if host_ptr st = None then Some (failed st) else grab (find_service w (host_ptr st) (Some desc)))
         | (Some arg1, None) \<Rightarrow> Some (failed st)
         | (Some arg1, Some arg2) \<Rightarrow>
             if arg1 = [] then (if host_ptr st = None then Some (failed st) else grab (find_service w (host_ptr st) (Some arg2)))
             else case find_service w (Some arg1) (Some arg2) of
               Some s \<Rightarrow> grab_standard_service_macro_r rec E name s st
             | None \<Rightarrow>
                 (case find_servicegroup w (Some arg1) of
                    None \<Rightarrow> Some (failed st)
                  | Some members \<Rightarrow>
                      map_option joined
                        (join_members (\<lambda>s st. map_option text_of (grab_standard_service_macro_r rec E name s st))
                          arg2 (List.map_filter snd members) (st, None))))"

definition grab_standard_servicegroup_macro_r ::
    "expansion \<Rightarrow> macro_env \<Rightarrow> string \<Rightarrow> string \<Rightarrow> macro_state \<Rightarrow> grabbed option" where
  "grab_standard_servicegroup_macro_r rec E name g st =
     (let t = servicegroup_texts_of E g in
      case recursive_text ''SERVICEGROUP'' t name of
        Some r \<Rightarrow> expand_text rec st r
      | None \<Rightarrow>
          Some (if name = ''SERVICEGROUPNAME'' then fresh st (Some g)
                else if name = ''SERVICEGROUPALIAS'' then fresh st (alias_of t)
                else if name = ''SERVICEGROUPMEMBERS''
                then fresh st (Some (member_list (unset_text E)
                       (map (\<lambda>m. fst (fst m) @ '','' @ snd (fst m))
                         (case servicegroup_of (m_engine E) g of None \<Rightarrow> [] | Some ms \<Rightarrow> ms))))
                else failed st))"

definition handle_servicegroup_macro ::
    "expansion \<Rightarrow> macro_env \<Rightarrow> string \<Rightarrow> string option \<times> string option \<Rightarrow> macro_state \<Rightarrow> grabbed option" where
  "handle_servicegroup_macro rec E name arg st =
     (case (if fst arg \<noteq> None then group_named (find_servicegroup (m_engine E) (fst arg)) (fst arg) else servicegroup_ptr st) of
        None \<Rightarrow> Some (failed st)
      | Some g \<Rightarrow> grab_standard_servicegroup_macro_r rec E name g st)"

section \<open>Contacts\<close>

definition grab_standard_contact_macro_r :: "macro_env \<Rightarrow> string \<Rightarrow> contact_id \<Rightarrow> macro_state \<Rightarrow> grabbed" where
  "grab_standard_contact_macro_r E name c st =
     (let w = m_engine E; t = contact_texts_of E c; gs = group_names (contactgroups_ptr t) in
      case map_of [(''CONTACTNAME'', Some c), (''CONTACTALIAS'', Some (c_alias (contact_of w c))),
          (''CONTACTEMAIL'', email t), (''CONTACTPAGER'', pager t), (''CONTACTTOKEN'', token t),
          (''CONTACTGROUPNAMES'', if gs = [] then None else Some gs),
          (''CONTACTTIMEZONE'', get_contact_timezone w c)] name of
        None \<Rightarrow> failed st
      | Some v \<Rightarrow> fresh st v)"

definition handle_contact_macro ::
    "macro_env \<Rightarrow> string \<Rightarrow> string option \<times> string option \<Rightarrow> macro_state \<Rightarrow> grabbed option" where
  "handle_contact_macro E name arg st =
     (case snd arg of
        None \<Rightarrow>
          Some (case (if fst arg \<noteq> None then find_contact (m_engine E) (fst arg) else contact_ptr st) of
             None \<Rightarrow> failed st
           | Some c \<Rightarrow> grab_standard_contact_macro_r E name c st)
      | Some delimiter \<Rightarrow>
          (case find_contactgroup (m_engine E) (fst arg) of
             None \<Rightarrow> Some (failed st)
           | Some g \<Rightarrow>
               map_option joined (join_members (\<lambda>c st. Some (text_of (grab_standard_contact_macro_r E name c st)))
                 delimiter (List.map_filter snd (cg_members (contactgroup_texts_of E g))) (st, None))))"

definition comma_list :: "string list \<Rightarrow> string option" where
  "comma_list names = (case names of [] \<Rightarrow> None | n # ns \<Rightarrow> Some (foldl (\<lambda>output m. output @ '','' @ m) n ns))"

definition grab_standard_contactgroup_macro :: "macro_env \<Rightarrow> string \<Rightarrow> string \<Rightarrow> macro_state \<Rightarrow> grabbed" where
  "grab_standard_contactgroup_macro E name g st =
     (let t = contactgroup_texts_of E g in
      if name = ''CONTACTGROUPNAME'' then fresh st (Some g)
      else if name = ''CONTACTGROUPALIAS'' then fresh st (cg_alias t)
      else if name = ''CONTACTGROUPMEMBERS'' then fresh st (comma_list (List.map_filter fst (cg_members t)))
      else failed st)"

definition handle_contactgroup_macro ::
    "macro_env \<Rightarrow> string \<Rightarrow> string option \<times> string option \<Rightarrow> macro_state \<Rightarrow> grabbed" where
  "handle_contactgroup_macro E name arg st =
     (case (if fst arg \<noteq> None then find_contactgroup (m_engine E) (fst arg) else contactgroup_ptr st) of
        None \<Rightarrow> failed st
      | Some g \<Rightarrow> grab_standard_contactgroup_macro E name g st)"

text \<open>The addresses of a contact.\<close>

definition grab_contact_address_macro :: "macro_env \<Rightarrow> int \<Rightarrow> contact_id \<Rightarrow> macro_state \<Rightarrow> grabbed" where
  "grab_contact_address_macro E n c st =
     (if n < 0 \<or> int MAX_CONTACT_ADDRESSES \<le> n then failed st
      else fresh st (let as = address (contact_texts_of E c) in if nat n < length as then as ! nat n else None))"

definition contact_address_macro ::
    "macro_env \<Rightarrow> int \<Rightarrow> string option \<times> string option \<Rightarrow> macro_state \<Rightarrow> grabbed option" where
  "contact_address_macro E n arg st =
     (case arg of
        (None, _) \<Rightarrow> Some (case contact_ptr st of None \<Rightarrow> failed st | Some c \<Rightarrow> grab_contact_address_macro E n c st)
      | (Some name, None) \<Rightarrow>
          Some (case find_contact (m_engine E) (Some name) of
             None \<Rightarrow> failed st | Some c \<Rightarrow> grab_contact_address_macro E n c st)
      | (Some name, Some delimiter) \<Rightarrow>
          (case find_contactgroup (m_engine E) (Some name) of
             None \<Rightarrow> Some (failed st)
           | Some g \<Rightarrow>
               map_option joined (join_members (\<lambda>c st. Some (text_of (grab_contact_address_macro E n c st))) delimiter
                 (List.map_filter (\<lambda>m. if snd m = None then None else find_contact (m_engine E) (fst m))
                   (cg_members (contactgroup_texts_of E g))) (st, None))))"

section \<open>Dates and stored macros\<close>

definition handle_datetime_macro ::
    "macro_env \<Rightarrow> string \<Rightarrow> string option \<times> string option \<Rightarrow> macro_state \<Rightarrow> grabbed" where
  "handle_datetime_macro E name arg st =
     (let ev = m_env E; current_time = now ev;
          datetime = get_datetime_string (m_clock E) (zone_name E) (date_format_of E) current_time;
          test_time = (case snd arg of None \<Rightarrow> current_time | Some t \<Rightarrow> time_t_of (int (strtoul 0 t)))
      in if name \<in> {''ISVALIDTIME'', ''NEXTVALIDTIME''}
         then (case find_timeperiod (m_engine E) (fst arg) of
                 None \<Rightarrow> failed st
               | Some p \<Rightarrow>
                   let valid = check_time_against_period ev (ambient_tz E) test_time (Some p);
                       next_valid_time = get_next_valid_time ev (ambient_tz E) test_time (Some p)
                   in fresh st (Some (if name = ''ISVALIDTIME'' then decimal (of_bool (valid = OK))
                        else decimal_int (if next_valid_time = test_time \<and> valid = ERROR then 0 else next_valid_time))))
         else (case map_of [(''LONGDATETIME'', datetime LONG_DATE_TIME), (''SHORTDATETIME'', datetime SHORT_DATE_TIME),
                 (''DATE'', datetime SHORT_DATE), (''TIME'', datetime SHORT_TIME), (''TIMET'', decimal_int current_time)] name of
                 None \<Rightarrow> failed st
               | Some t \<Rightarrow> fresh st (Some t)))"

section \<open>Totals\<close>

definition is_contact_for :: "engine \<Rightarrow> 'a contacts_of_scheme \<Rightarrow> contact_id \<Rightarrow> bool" where
  "is_contact_for w obj c \<longleftrightarrow>
     Some c \<in> set (contacts obj) \<or>
     list_ex (\<lambda>g. case g of None \<Rightarrow> False | Some g \<Rightarrow> Some c \<in> set (group_members w g)) (contact_groups obj)"

definition authorized :: "engine \<Rightarrow> 'a contacts_of_scheme \<Rightarrow> contact_id option \<Rightarrow> bool" where
  "authorized w obj c = (case c of None \<Rightarrow> True | Some c \<Rightarrow> is_contact_for w obj c)"

definition host_unhandled :: "engine \<Rightarrow> host_id \<Rightarrow> bool" where
  "host_unhandled w h \<longleftrightarrow> \<not> h_scheduled_downtime_depth (host_of w h) > 0 \<and>
     \<not> h_problem_has_been_acknowledged (host_of w h) \<and> h_checks_enabled (host_of w h)"

definition service_unhandled :: "engine \<Rightarrow> svc_id \<Rightarrow> bool" where
  "service_unhandled w s \<longleftrightarrow>
     \<not> (case find_host w (Some (fst s)) of None \<Rightarrow> False | Some h \<Rightarrow> h_current_state (host_of w h) \<noteq> HOST_UP) \<and>
     \<not> s_scheduled_downtime_depth (svc_of w s) > 0 \<and>
     \<not> s_problem_has_been_acknowledged (svc_of w s) \<and> s_checks_enabled (svc_of w s)"

text \<open>The counts of hosts: up, down, down and unhandled, unreachable, unreachable and unhandled.\<close>

record host_counts =
  hosts_up :: nat
  hosts_down :: nat
  hosts_down_unhandled :: nat
  hosts_unreachable :: nat
  hosts_unreachable_unhandled :: nat

definition count_host :: "engine \<Rightarrow> contact_id option \<Rightarrow> host_counts \<Rightarrow> host_id \<Rightarrow> host_counts" where
  "count_host w c n h =
     (let state = h_current_state (host_of w h) in
      if \<not> authorized w (host_of w h) c then n
      else if state = HOST_UP \<and> h_has_been_checked (host_of w h) then n\<lparr>hosts_up := hosts_up n + 1\<rparr>
      else if state = HOST_DOWN
      then n\<lparr>hosts_down_unhandled := hosts_down_unhandled n + of_bool (host_unhandled w h), hosts_down := hosts_down n + 1\<rparr>
      else if state = HOST_UNREACHABLE
      then n\<lparr>hosts_down_unhandled := hosts_down_unhandled n + of_bool (host_unhandled w h),
             hosts_unreachable := hosts_unreachable n + 1\<rparr>
      else n)"

definition host_counts_of :: "engine \<Rightarrow> contact_id option \<Rightarrow> host_counts" where
  "host_counts_of w c = foldl (count_host w c)
     \<lparr>hosts_up = 0, hosts_down = 0, hosts_down_unhandled = 0, hosts_unreachable = 0, hosts_unreachable_unhandled = 0\<rparr>
     (host_list w)"

definition count_services :: "engine \<Rightarrow> contact_id option \<Rightarrow> (svc_id \<Rightarrow> bool) \<Rightarrow> nat" where
  "count_services w c P = length (filter (\<lambda>s. authorized w (svc_of w s) c \<and> P s) (service_list w))"

definition services_with :: "engine \<Rightarrow> contact_id option \<Rightarrow> svc_state \<Rightarrow> nat" where
  "services_with w c state = count_services w c (\<lambda>s. s_current_state (svc_of w s) = state)"

definition unhandled_with :: "engine \<Rightarrow> contact_id option \<Rightarrow> svc_state \<Rightarrow> nat" where
  "unhandled_with w c state = count_services w c (\<lambda>s. s_current_state (svc_of w s) = state \<and> service_unhandled w s)"

definition summary_values :: "engine \<Rightarrow> contact_id option \<Rightarrow> (string \<times> nat) list" where
  "summary_values w c =
     (let n = host_counts_of w c; services = services_with w c; unhandled = unhandled_with w c
      in [(''TOTALHOSTSUP'', hosts_up n), (''TOTALHOSTSDOWN'', hosts_down n),
          (''TOTALHOSTSUNREACHABLE'', hosts_unreachable n), (''TOTALHOSTSDOWNUNHANDLED'', hosts_down_unhandled n),
          (''TOTALHOSTSUNREACHABLEUNHANDLED'', hosts_unreachable_unhandled n),
          (''TOTALHOSTPROBLEMS'', hosts_down n + hosts_unreachable n),
          (''TOTALHOSTPROBLEMSUNHANDLED'', hosts_down_unhandled n + hosts_unreachable_unhandled n),
          (''TOTALSERVICESOK'', count_services w c (\<lambda>s. s_current_state (svc_of w s) = STATE_OK \<and> s_has_been_checked (svc_of w s))),
          (''TOTALSERVICESWARNING'', services STATE_WARNING), (''TOTALSERVICESCRITICAL'', services STATE_CRITICAL),
          (''TOTALSERVICESUNKNOWN'', services STATE_UNKNOWN), (''TOTALSERVICESWARNINGUNHANDLED'', unhandled STATE_WARNING),
          (''TOTALSERVICESCRITICALUNHANDLED'', unhandled STATE_CRITICAL),
          (''TOTALSERVICESUNKNOWNUNHANDLED'', unhandled STATE_UNKNOWN),
          (''TOTALSERVICEPROBLEMS'', services STATE_WARNING + services STATE_CRITICAL + services STATE_UNKNOWN),
          (''TOTALSERVICEPROBLEMSUNHANDLED'',
            unhandled STATE_WARNING + unhandled STATE_CRITICAL + unhandled STATE_UNKNOWN)])"

definition handle_summary_macro :: "macro_env \<Rightarrow> string \<Rightarrow> macro_state \<Rightarrow> grabbed" where
  "handle_summary_macro E name st =
     (let st1 = (if x_of st ''TOTALHOSTSUP'' \<noteq> None then st
                 else st\<lparr>x_of := foldl (\<lambda>x (n, v). x(n := Some (decimal v))) (x_of st)
                        (summary_values (m_engine E) (contact_ptr st))\<rparr>)
      in stored st1 (Slot name))"

end
