(* ===== verification/Macro_Expansion.thy ===== *)
theory Macro_Expansion
  imports Macro_Values Loops
begin

text \<open>
  The expansion of macros: custom variables and \<open>grab_macro_value_r\<close>
  (\<^verbatim>\<open>src/macros.cc\<close>, \<^verbatim>\<open>src/macros/grab_value.cc\<close>), \<open>process_macros_r\<close>
  (\<^verbatim>\<open>src/macros/process.cc\<close>), the arguments of a command
  (\<open>get_raw_command_line_r\<close> of \<^verbatim>\<open>src/utils.cc\<close>), and what clears and sets the macros of
  an object (\<^verbatim>\<open>src/macros/clear_*.cc\<close>). Expansion calls itself through notes and URLs, so
  it is a partial function; \<open>None\<close> also stands for the null pointer the search for custom
  service variables may read.
\<close>

section \<open>Loops that may not end\<close>

lemma join_members_mono [partial_function_mono]:
  assumes "\<And>m st. mono_option (\<lambda>f. value_of f m st)"
  shows "mono_option (\<lambda>f. join_members (value_of f) d ms s)"
proof (induction ms arbitrary: s)
  case Nil
  then show ?case by (simp add: option.const_mono)
next
  case (Cons m ms)
  obtain st t where s: "s = (st, t)" by (cases s)
  show ?case unfolding s join_members.simps
    using assms Cons.IH by (intro bind_mono) (auto simp: case_prod_beta)
qed

section \<open>Custom variables\<close>

definition custom_object_macro :: "string \<Rightarrow> customvariable list \<Rightarrow> grab_result \<times> string option" where
  "custom_object_macro macro_name vars =
     (case List.find (\<lambda>v. cv_name v = macro_name) vars of
        None \<Rightarrow> (Grab_error, None)
      | Some v \<Rightarrow> (Grab_ok, Some (cv_value v)))"

text \<open>
  A service variable asked for on demand is looked for on the current host; otherwise the first
  argument names a group and the second is the delimiter, and each member is asked for with its
  host name and description.
\<close>

partial_function (option) custom_service_macro ::
    "macro_env \<Rightarrow> macro_state \<Rightarrow> string \<times> string option \<times> string option \<Rightarrow> (grab_result \<times> string option) option" where
  "custom_service_macro E st call =
     (case call of (macro_name, arg1, arg2) \<Rightarrow>
        if arg1 = None \<and> arg2 = None
        then Some (case service_ptr st of
                     None \<Rightarrow> (Grab_error, None)
                   | Some s \<Rightarrow> custom_object_macro (drop 8 macro_name) (s_custom_variables (svc_of (m_engine E) s)))
        else if host_ptr st = None then Some (Grab_error, None)
        else
          (case find_service (m_engine E) (host_ptr st) arg2 of
             Some s \<Rightarrow> Some (custom_object_macro (drop 8 macro_name) (s_custom_variables (svc_of (m_engine E) s)))
           | None \<Rightarrow>
               (case find_servicegroup (m_engine E) arg1 of
                  None \<Rightarrow> Some (Grab_error, None)
                | Some members \<Rightarrow>
                    (case arg2 of
                       None \<Rightarrow> None
                     | Some delimiter \<Rightarrow>
                         map_option (\<lambda>s. (Grab_ok, snd s))
                           (join_members (\<lambda>s u. map_option (\<lambda>r. (u, snd r))
                                (custom_service_macro E st (macro_name, Some (fst s), Some (snd s))))
                             delimiter (List.map_filter snd members) ((), None))))))"

declare custom_service_macro.simps [code]

definition custom_host_macro :: "macro_env \<Rightarrow> macro_state \<Rightarrow> string \<Rightarrow> host_id option \<Rightarrow> grab_result \<times> string option" where
  "custom_host_macro E st macro_name h =
     (case h of None \<Rightarrow> (Grab_error, None)
      | Some h \<Rightarrow> custom_object_macro (drop 5 macro_name) (h_custom_variables (host_of (m_engine E) h)))"

definition custom_contact_macro :: "macro_env \<Rightarrow> macro_state \<Rightarrow> string \<Rightarrow> contact_id option \<Rightarrow> grab_result \<times> string option" where
  "custom_contact_macro E st macro_name c =
     (case c of None \<Rightarrow> (Grab_error, None)
      | Some c \<Rightarrow> custom_object_macro (drop 8 macro_name) (c_custom_variables (contact_of (m_engine E) c)))"

definition grab_custom_macro_value_r ::
    "macro_env \<Rightarrow> string \<Rightarrow> string option \<times> string option \<Rightarrow> macro_state \<Rightarrow> (grab_result \<times> string option) option" where
  "grab_custom_macro_value_r E macro_name arg st =
     (let w = m_engine E;
          all = (\<lambda>value ms delimiter. map_option (\<lambda>s. (Grab_ok, snd s))
             (join_members (\<lambda>m u. Some (u, snd (value m))) delimiter ms ((), None)))
      in if take 5 macro_name = ''_HOST''
         then (case snd arg of
                 None \<Rightarrow> Some (custom_host_macro E st macro_name
                           (if fst arg \<noteq> None then find_host w (fst arg) else host_ptr st))
               | Some delimiter \<Rightarrow>
                   (case find_hostgroup w (fst arg) of
                      None \<Rightarrow> Some (Grab_error, None)
                    | Some members \<Rightarrow> all (\<lambda>h. custom_host_macro E st macro_name (find_host w (Some h)))
                        (List.map_filter snd members) delimiter))
         else if take 8 macro_name = ''_SERVICE'' then custom_service_macro E st (macro_name, arg)
         else if take 8 macro_name = ''_CONTACT''
         then (case snd arg of
                 None \<Rightarrow> Some (custom_contact_macro E st macro_name
                           (if fst arg \<noteq> None then find_contact w (fst arg) else contact_ptr st))
               | Some delimiter \<Rightarrow>
                   (case find_contactgroup w (fst arg) of
                      None \<Rightarrow> Some (Grab_error, None)
                    | Some g \<Rightarrow> all (\<lambda>c. custom_contact_macro E st macro_name (find_contact w (Some c)))
                        (List.map_filter snd (cg_members (contactgroup_texts_of E g))) delimiter))
         else Some (Grab_error, None))"

section \<open>The value of a macro\<close>

definition grab_macrox_value_r ::
    "expansion \<Rightarrow> macro_env \<Rightarrow> string \<Rightarrow> string option \<times> string option \<Rightarrow> macro_state \<Rightarrow> grabbed option" where
  "grab_macrox_value_r rec E name arg st =
     (if name \<in> set host_ids then handle_host_macro rec E name arg st
      else if name \<in> set hostgroup_ids then handle_hostgroup_macro rec E name arg st
      else if name \<in> set service_ids then handle_service_macro rec E name arg st
      else if name \<in> set servicegroup_ids then handle_servicegroup_macro rec E name arg st
      else if name \<in> set contact_ids then handle_contact_macro E name arg st
      else if name \<in> set contactgroup_ids then Some (handle_contactgroup_macro E name arg st)
      else if name \<in> set notification_ids then Some (stored st (Slot name))
      else if name \<in> set datetime_ids then Some (handle_datetime_macro E name arg st)
      else if name \<in> set static_ids then Some (stored st (Static name))
      else if name \<in> set summary_ids then Some (handle_summary_macro E name st)
      else Some (failed st))"

text \<open>A numbered macro: the number counts from one.\<close>

definition numbered :: "int \<Rightarrow> nat \<Rightarrow> (nat \<Rightarrow> macro_value) \<Rightarrow> macro_state \<Rightarrow> grabbed" where
  "numbered n m v st = (if n \<le> 0 \<or> int m < n then failed st else stored st (v (nat n - 1)))"

definition macro_arguments :: "string \<Rightarrow> string \<times> string option \<times> string option" where
  "macro_arguments buffer =
     (let (name, rest) = cut_at (CHR '':'') buffer
      in (name, case rest of None \<Rightarrow> (None, None)
           | Some r \<Rightarrow> (let (arg1, arg2) = cut_at (CHR '':'') r in (Some arg1, arg2))))"

definition grab_macro_value_r ::
    "expansion \<Rightarrow> macro_env \<Rightarrow> string \<Rightarrow> macro_state \<Rightarrow> (grabbed \<times> macro_options) option" where
  "grab_macro_value_r rec E macro_buffer st =
     (let (name, arg) = macro_arguments macro_buffer;
          uncleaned = map_option (\<lambda>g. (g, no_options))
      in if name \<in> set macro_x_names
         then map_option (\<lambda>g. (g, clean_options_of name)) (grab_macrox_value_r rec E name arg st)
         else if take 3 name = ''ARG''
         then uncleaned (Some (numbered (atoi (drop 3 name)) MAX_COMMAND_ARGUMENTS Argument st))
         else if take 4 name = ''USER''
         then uncleaned (Some (numbered (atoi (drop 4 name)) MAX_USER_MACROS User st))
         else if take 14 name = ''CONTACTADDRESS''
         then uncleaned (contact_address_macro E (atoi (drop 14 name) - 1) arg st)
         else if take 1 name = ''_''
         then uncleaned (map_option (\<lambda>r. (st, fst r, map_option Fresh (snd r))) (grab_custom_macro_value_r E name arg st))
         else case user_macros E name of
           Some t \<Rightarrow> Some ((st, Grab_true, Some (Fresh t)), no_options)
         | None \<Rightarrow> Some (failed st, no_options))"

section \<open>The text\<close>

text \<open>The pieces of a text between its dollars.\<close>

fun split_dollars :: "string \<Rightarrow> string list" where
  "split_dollars [] = [[]]"
| "split_dollars (c # s) =
     (if c = CHR ''$'' then [] # split_dollars s
      else case split_dollars s of [] \<Rightarrow> [[c]] | p # ps \<Rightarrow> (c # p) # ps)"

text \<open>A stored value that is stripped changes where it is stored.\<close>

definition insert_macro ::
    "macro_env \<Rightarrow> macro_options \<Rightarrow> macro_state \<times> macro_value option \<Rightarrow> macro_state \<times> string" where
  "insert_macro E options g =
     (case g of (st, None) \<Rightarrow> (st, [])
      | (st, Some v) \<Rightarrow>
          (let text = (case value_text st v of None \<Rightarrow> [] | Some t \<Rightarrow> t);
               v1 = (if url_encode options then Fresh (get_url_encoded_string text) else v);
               text1 = (if url_encode options then get_url_encoded_string text else text)
           in if strip_illegal options \<or> escape_chars options
              then (let text2 = clean_macro_chars (illegal_output_chars E) options text1
                    in (store_value v1 text2 st, text2))
              else (st, text1)))"

fun process_pieces ::
    "expansion \<Rightarrow> macro_env \<Rightarrow> macro_options \<Rightarrow> bool \<Rightarrow> string list \<Rightarrow> macro_state \<times> string \<Rightarrow>
     (macro_state \<times> string) option" where
  "process_pieces rec E options in_macro [] s = Some s"
| "process_pieces rec E options in_macro (temp_buffer # ps) s =
     (if \<not> in_macro then process_pieces rec E options True ps (fst s, snd s @ temp_buffer)
      else do {
        g \<leftarrow> grab_macro_value_r rec E temp_buffer (fst s);
        let (st1, result, selected_macro) = fst g;
        let output = (if result \<noteq> Grab_ok \<and> temp_buffer = [] then snd s @ ''$'' else snd s);
        let (st2, text) = insert_macro E (or_options options (snd g)) (st1, selected_macro);
        process_pieces rec E options False ps (st2, output @ text)
      })"

lemma expand_text_mono:
  assumes "\<And>c. mono_option (\<lambda>f. rec f c)"
  shows "mono_option (\<lambda>f. expand_text (rec f) st t)"
  unfolding expand_text_def using assms by (intro map_option_mono)

lemma grab_standard_mono:
  assumes rec: "\<And>c. mono_option (\<lambda>f. rec f c)"
  shows "mono_option (\<lambda>f. grab_standard_host_macro_r (rec f) E name h st)"
    "mono_option (\<lambda>f. grab_standard_service_macro_r (rec f) E name sv st)"
    "mono_option (\<lambda>f. grab_standard_hostgroup_macro_r (rec f) E name g st)"
    "mono_option (\<lambda>f. grab_standard_servicegroup_macro_r (rec f) E name g st)"
  unfolding grab_standard_host_macro_r_def grab_standard_service_macro_r_def grab_standard_hostgroup_macro_r_def
    grab_standard_servicegroup_macro_r_def
  by (intro branch_mono expand_text_mono rec)+

lemma handle_mono:
  assumes rec: "\<And>c. mono_option (\<lambda>f. rec f c)"
  shows "mono_option (\<lambda>f. handle_host_macro (rec f) E name arg st)"
    "mono_option (\<lambda>f. handle_service_macro (rec f) E name arg st)"
    "mono_option (\<lambda>f. handle_hostgroup_macro (rec f) E name arg st)"
    "mono_option (\<lambda>f. handle_servicegroup_macro (rec f) E name arg st)"
  unfolding handle_host_macro_def handle_service_macro_def handle_hostgroup_macro_def handle_servicegroup_macro_def
    Let_def
  by (intro branch_mono map_option_mono join_members_mono grab_standard_mono rec)+

lemma grab_value_mono [partial_function_mono]:
  assumes rec: "\<And>c. mono_option (\<lambda>f. rec f c)"
  shows "mono_option (\<lambda>f. grab_macro_value_r (rec f) E buffer st)"
  unfolding grab_macro_value_r_def grab_macrox_value_r_def
  by (intro branch_mono map_option_mono handle_mono rec)

lemma process_pieces_mono [partial_function_mono]:
  assumes "\<And>c. mono_option (\<lambda>f. rec f c)"
  shows "mono_option (\<lambda>f. process_pieces (rec f) E options im ps s)"
proof (induction ps arbitrary: im s)
  case Nil
  then show ?case by (simp add: option.const_mono)
next
  case (Cons p ps)
  then show ?case unfolding process_pieces.simps
    by (intro branch_mono bind_mono grab_value_mono assms)
qed

partial_function (option) process_macros_r ::
    "macro_env \<Rightarrow> macro_state \<times> string option \<times> macro_options \<Rightarrow> (macro_state \<times> string) option" where
  "process_macros_r E call =
     (case call of (st, input_buffer, options) \<Rightarrow>
        (case input_buffer of
           None \<Rightarrow> Some (st, [])
         | Some t \<Rightarrow> process_pieces (\<lambda>c. process_macros_r E c) E options False (split_dollars t) (st, [])))"

declare process_macros_r.simps [code]

section \<open>Clearing and setting the macros of an object\<close>

text \<open>
  The loops over the tables of macros to free index the array with the position in the table:
  they clear the first macros, as many as the table has.
\<close>

definition clear_first :: "nat \<Rightarrow> macro_state \<Rightarrow> macro_state" where
  "clear_first n st = st\<lparr>x_of := (\<lambda>name. if name \<in> set (take n macro_x_names) then None else x_of st name)\<rparr>"

definition clear_named :: "string list \<Rightarrow> macro_state \<Rightarrow> macro_state" where
  "clear_named names st = st\<lparr>x_of := (\<lambda>name. if name \<in> set names then None else x_of st name)\<rparr>"

definition clear_host_macros_r :: "macro_state \<Rightarrow> macro_state" where
  "clear_host_macros_r st = (clear_first (length host_to_free) st)\<lparr>host_ptr := None\<rparr>"

definition clear_hostgroup_macros_r :: "macro_state \<Rightarrow> macro_state" where
  "clear_hostgroup_macros_r st = (clear_first (length hostgroup_to_free) st)\<lparr>hostgroup_ptr := None\<rparr>"

definition clear_service_macros_r :: "macro_state \<Rightarrow> macro_state" where
  "clear_service_macros_r st = (clear_first (length service_to_free) st)\<lparr>service_ptr := None\<rparr>"

definition clear_servicegroup_macros_r :: "macro_state \<Rightarrow> macro_state" where
  "clear_servicegroup_macros_r st = (clear_first (length servicegroup_to_free) st)\<lparr>servicegroup_ptr := None\<rparr>"

definition clear_contact_macros_r :: "macro_state \<Rightarrow> macro_state" where
  "clear_contact_macros_r st =
     (clear_named [''CONTACTNAME'', ''CONTACTALIAS'', ''CONTACTEMAIL'', ''CONTACTPAGER'', ''CONTACTTOKEN'',
        ''CONTACTGROUPNAMES''] st)\<lparr>contact_ptr := None\<rparr>"

definition clear_contactgroup_macros_r :: "macro_state \<Rightarrow> macro_state" where
  "clear_contactgroup_macros_r st =
     (clear_named [''CONTACTGROUPNAME'', ''CONTACTGROUPALIAS'', ''CONTACTGROUPMEMBERS''] st)\<lparr>contactgroup_ptr := None\<rparr>"

definition clear_summary_macros_r :: "macro_state \<Rightarrow> macro_state" where
  "clear_summary_macros_r = clear_named summary_ids"

definition clear_argv_macros_r :: "macro_state \<Rightarrow> macro_state" where
  "clear_argv_macros_r st = st\<lparr>argv := (\<lambda>n. if n < MAX_COMMAND_ARGUMENTS then None else argv st n)\<rparr>"

definition clear_volatile_macros_r :: "macro_state \<Rightarrow> macro_state" where
  "clear_volatile_macros_r st =
     clear_argv_macros_r (st\<lparr>x_of := (\<lambda>name. if name \<in> set macro_x_names \<and> name \<notin> set static_ids then None else x_of st name),
       host_ptr := None, hostgroup_ptr := None, service_ptr := None, servicegroup_ptr := None, contact_ptr := None,
       contactgroup_ptr := None\<rparr>)"

text \<open>The first group of an object, if its list of groups is not empty.\<close>

definition first_group :: "string option list \<Rightarrow> string option" where
  "first_group gs = (case gs of [] \<Rightarrow> None | g # _ \<Rightarrow> g)"

definition grab_host_macros_r :: "macro_env \<Rightarrow> host_id option \<Rightarrow> macro_state \<Rightarrow> macro_state \<times> result" where
  "grab_host_macros_r E hst st =
     (let st1 = (clear_hostgroup_macros_r (clear_host_macros_r st))\<lparr>host_ptr := hst, hostgroup_ptr := None\<rparr>
      in case hst of None \<Rightarrow> (st1, ERROR)
         | Some h \<Rightarrow> (st1\<lparr>hostgroup_ptr := first_group (groups_ptr (host_texts_of E h))\<rparr>, OK))"

definition grab_service_macros_r :: "macro_env \<Rightarrow> svc_id option \<Rightarrow> macro_state \<Rightarrow> macro_state \<times> result" where
  "grab_service_macros_r E svc st =
     (let st1 = (clear_servicegroup_macros_r (clear_service_macros_r st))\<lparr>service_ptr := svc, servicegroup_ptr := None\<rparr>
      in case svc of None \<Rightarrow> (st1, ERROR)
         | Some s \<Rightarrow> (st1\<lparr>servicegroup_ptr := first_group (groups_ptr (service_texts_of E s))\<rparr>, OK))"

definition grab_contact_macros_r :: "macro_env \<Rightarrow> contact_id option \<Rightarrow> macro_state \<Rightarrow> macro_state \<times> result" where
  "grab_contact_macros_r E cntct st =
     (let st1 = (clear_contactgroup_macros_r (clear_contact_macros_r st))\<lparr>contact_ptr := cntct, contactgroup_ptr := None\<rparr>
      in case cntct of None \<Rightarrow> (st1, ERROR)
         | Some c \<Rightarrow> (st1\<lparr>contactgroup_ptr := first_group (contactgroups_ptr (contact_texts_of E c))\<rparr>, OK))"

definition grab_hostgroup_macros_r :: "string option \<Rightarrow> macro_state \<Rightarrow> macro_state \<times> result" where
  "grab_hostgroup_macros_r hg st =
     ((clear_hostgroup_macros_r st)\<lparr>hostgroup_ptr := hg\<rparr>, if hg = None then ERROR else OK)"

definition grab_servicegroup_macros_r :: "string option \<Rightarrow> macro_state \<Rightarrow> macro_state \<times> result" where
  "grab_servicegroup_macros_r sg st =
     ((clear_servicegroup_macros_r st)\<lparr>servicegroup_ptr := sg\<rparr>, if sg = None then ERROR else OK)"

section \<open>The arguments of a command\<close>

text \<open>
  One argument: up to the next separator that is not escaped, at most as many characters as the
  buffer holds. The escape flag outlives the argument.
\<close>

fun read_argument :: "nat \<Rightarrow> bool \<Rightarrow> string \<Rightarrow> string \<times> string \<times> bool" where
  "read_argument room escaped [] = ([], [], escaped)"
| "read_argument room escaped (c # s) =
     (if room = 0 then ([], c # s, escaped)
      else if c = CHR 0x5C \<and> \<not> escaped then read_argument room True s
      else if c = CHR ''!'' \<and> \<not> escaped then ([], c # s, escaped)
      else (let (temp_arg, rest, esc) = read_argument (room - 1) False s in (c # temp_arg, rest, esc)))"

text \<open>Each argument is expanded with the arguments before it set; \<open>n\<close> more may follow.\<close>

fun command_arguments ::
    "macro_env \<Rightarrow> macro_options \<Rightarrow> nat \<Rightarrow> bool \<Rightarrow> string \<Rightarrow> macro_state \<Rightarrow> macro_state option" where
  "command_arguments E options 0 escaped cmd st = Some st"
| "command_arguments E options (Suc n) escaped [] st = Some st"
| "command_arguments E options (Suc n) escaped (c # cmd) st =
     (let (temp_arg, rest, esc) = read_argument (MAX_COMMAND_BUFFER - 1) escaped cmd in do {
        (st1, arg_buffer) \<leftarrow> process_macros_r E (st, Some temp_arg, options);
        command_arguments E options n esc rest
          (st1\<lparr>argv := (argv st1)(MAX_COMMAND_ARGUMENTS - Suc n := Some arg_buffer)\<rparr>)
      })"

text \<open>
  The command line is given back as it is; the arguments start at the first separator. The
  command is the pointer to its configured line.
\<close>

definition get_raw_command_line_r ::
    "macro_env \<Rightarrow> macro_options \<Rightarrow> string option \<Rightarrow> string option \<Rightarrow> macro_state \<Rightarrow>
     (macro_state \<times> string option) option" where
  "get_raw_command_line_r E options command_line cmd st =
     (let st1 = clear_argv_macros_r st in
      case command_line of
        None \<Rightarrow> Some (st1, None)
      | Some line \<Rightarrow>
          (case cmd of
             None \<Rightarrow> Some (st1, Some line)
           | Some c \<Rightarrow>
               map_option (\<lambda>st2. (st2, Some line))
                 (command_arguments E options MAX_COMMAND_ARGUMENTS False (dropWhile (\<lambda>x. x \<noteq> CHR ''!'') c) st1)))"

end
