(* ===== verification/Macro_Facts.thy ===== *)
theory Macro_Facts
  imports Macro_Expansion
begin

text \<open>
  The text an expansion gives: literal text with its dollars doubled stands for itself, a macro
  for its value; the arguments of a command come back from their quoted form; stripped values
  add no illegal character.
\<close>

section \<open>Pieces\<close>

lemma split_dollars_nonempty [simp]: "split_dollars s \<noteq> []"
  by (cases s) (simp_all split: list.splits)

lemma split_dollars_literal:
  "CHR ''$'' \<notin> set a \<Longrightarrow> split_dollars (a @ s) = (a @ hd (split_dollars s)) # tl (split_dollars s)"
  by (induction a) (auto split: list.splits)

lemma split_dollars_macro: "CHR ''$'' \<notin> set m \<Longrightarrow>
    split_dollars (CHR ''$'' # m @ CHR ''$'' # s) = [] # m # split_dollars s"
  by (simp add: split_dollars_literal)

text \<open>The expansion of a text from its start, with what precedes it.\<close>

definition run_text ::
    "expansion \<Rightarrow> macro_env \<Rightarrow> macro_options \<Rightarrow> string \<Rightarrow> macro_state \<times> string \<Rightarrow> (macro_state \<times> string) option" where
  "run_text rec E options t s = process_pieces rec E options False (split_dollars t) s"

lemma process_macros_run:
  "process_macros_r E (st, Some t, options) = run_text (\<lambda>c. process_macros_r E c) E options t (st, [])"
  by (subst process_macros_r.simps) (simp add: run_text_def)

lemma run_text_Nil [simp]: "run_text rec E options [] s = Some s"
  by (simp add: run_text_def)

lemma run_literal:
  assumes "CHR ''$'' \<notin> set a"
  shows "run_text rec E options (a @ t) (st, pre) = run_text rec E options t (st, pre @ a)"
proof -
  obtain p ps where "split_dollars t = p # ps" by (cases "split_dollars t") simp_all
  then show ?thesis using assms by (simp add: run_text_def split_dollars_literal)
qed

lemma run_macro:
  assumes "CHR ''$'' \<notin> set m" "grab_macro_value_r rec E m st = Some ((st1, result, v), clean)"
    "insert_macro E (or_options options clean) (st1, v) = (st2, text)"
  shows "run_text rec E options (CHR ''$'' # m @ CHR ''$'' # t) (st, pre) =
    run_text rec E options t (st2, (if result \<noteq> Grab_ok \<and> m = [] then pre @ ''$'' else pre) @ text)"
  unfolding run_text_def split_dollars_macro [OF assms(1)] using assms(2,3) by simp

section \<open>Literal text\<close>

definition escape_dollars :: "string \<Rightarrow> string" where
  "escape_dollars t = concat (map (\<lambda>c. if c = CHR ''$'' then ''$$'' else [c]) t)"

lemma escape_dollars_simps [simp]:
  "escape_dollars [] = []" "escape_dollars (c # t) = (if c = CHR ''$'' then ''$$'' else [c]) @ escape_dollars t"
  by (simp_all add: escape_dollars_def)

lemma no_named_empty [simp]: "[] \<notin> set macro_x_names"
  by code_simp

lemma grab_empty: "user_macros E [] = None \<Longrightarrow> grab_macro_value_r rec E [] st = Some (failed st, no_options)"
  by (simp add: grab_macro_value_r_def macro_arguments_def cut_at_def)

lemma run_escaped:
  assumes "user_macros E [] = None"
  shows "run_text rec E options (escape_dollars a @ t) (st, pre) = run_text rec E options t (st, pre @ a)"
proof (induction a arbitrary: pre)
  case (Cons c a)
  show ?case
  proof (cases "c = CHR ''$''")
    case True
    have "insert_macro E (or_options options no_options) (st, None) = (st, [])" by (simp add: insert_macro_def)
    with run_macro [of "[]" rec E st st Grab_error None no_options options st "[]" "escape_dollars a @ t" pre]
      grab_empty [OF assms] Cons.IH True show ?thesis by (simp add: failed_def)
  next
    case False
    with run_literal [of "[c]" rec E options "escape_dollars a @ t" st pre] Cons.IH show ?thesis by simp
  qed
qed simp

section \<open>Arguments in a text\<close>

lemma no_named_argument: "list_all (\<lambda>x. take 3 x \<noteq> ''ARG'') macro_x_names"
  by code_simp

lemma argument_numbers: "list_all (\<lambda>n. atoi (decimal (Suc n)) = int (Suc n) \<and> CHR '':'' \<notin> set (decimal (Suc n)) \<and>
    CHR ''$'' \<notin> set (decimal (Suc n))) [0..<32]"
  by code_simp

definition argument_macro :: "nat \<Rightarrow> string" where
  "argument_macro n = ''ARG'' @ decimal (Suc n)"

lemma grab_argument:
  assumes "n < 32" "argv st n = Some t"
  shows "grab_macro_value_r rec E (argument_macro n) st = Some ((st, Grab_ok, Some (Argument n)), no_options)"
proof -
  have n: "atoi (decimal (Suc n)) = int (Suc n)" "CHR '':'' \<notin> set (decimal (Suc n))"
    using argument_numbers assms(1) by (simp_all add: list_all_iff del: upt_rec_numeral)
  have "argument_macro n \<notin> set macro_x_names" using no_named_argument by (auto simp: list_all_iff argument_macro_def)
  moreover have "macro_arguments (argument_macro n) = (argument_macro n, None, None)"
    using n(2) by (simp add: macro_arguments_def cut_at_def argument_macro_def)
  ultimately show ?thesis
    using assms n(1) by (simp add: grab_macro_value_r_def argument_macro_def numbered_def MAX_COMMAND_ARGUMENTS_def stored_def
        nat_add_distrib)
qed

section \<open>Macros of the host\<close>

text \<open>The macros of the host that neither expand further text nor are computed once and kept.\<close>

definition plain_host_macro :: "string \<Rightarrow> bool" where
  "plain_host_macro m \<longleftrightarrow> m \<in> set host_ids \<and> m \<notin> set host_totals \<and> m \<notin> {''HOSTACTIONURL'', ''HOSTNOTESURL'', ''HOSTNOTES''}"

definition host_macro_value :: "macro_env \<Rightarrow> host_id \<Rightarrow> macro_state \<Rightarrow> string \<Rightarrow> string" where
  "host_macro_value E h st m =
     (case map_of (host_routines E h st) m of
        Some (Some t) \<Rightarrow> if cleaned_number (macro_number m) then filter (\<lambda>c. \<not> illegal_char (illegal_output_chars E) c) t else t
      | _ \<Rightarrow> [])"

lemma host_names: "list_all (\<lambda>m. m \<in> set macro_x_names \<and> m \<noteq> [] \<and> CHR '':'' \<notin> set m \<and> CHR ''$'' \<notin> set m) host_ids"
  by code_simp

lemma encoded_names: "list_all (\<lambda>n. macro_x_names ! n \<notin> set host_ids \<or> macro_x_names ! n \<in> {''HOSTACTIONURL'', ''HOSTNOTESURL''})
    [74, 75, 77, 78, 125, 126, 128, 129]"
  by code_simp

lemma nth_position: "m \<in> set xs \<Longrightarrow> xs ! length (takeWhile (\<lambda>x. x \<noteq> m) xs) = m"
  by (induction xs) auto

lemma macro_named: "m \<in> set macro_x_names \<Longrightarrow> macro_x_names ! macro_number m = m"
  unfolding macro_number_def by (rule nth_position)

lemma encoded_host_macro: "m \<in> set host_ids \<Longrightarrow> m \<in> set macro_x_names \<Longrightarrow> encoded_number (macro_number m) \<Longrightarrow>
    m \<in> {''HOSTACTIONURL'', ''HOSTNOTESURL''}"
proof -
  assume m: "m \<in> set host_ids" "m \<in> set macro_x_names" "encoded_number (macro_number m)"
  have "macro_number m \<in> set [74, 75, 77, 78, 125, 126, 128, 129]" using m(3) by (auto simp: encoded_number_def)
  then show ?thesis using encoded_names macro_named [OF m(2)] m(1) unfolding list_all_iff by (metis (no_types, lifting))
qed

lemma plain_host_names:
  assumes "plain_host_macro m"
  shows "m \<in> set macro_x_names" "m \<noteq> []" "CHR '':'' \<notin> set m" "CHR ''$'' \<notin> set m" "\<not> encoded_number (macro_number m)"
    "recursive_text ''HOST'' t m = None"
proof -
  have "m \<in> set host_ids" and url: "m \<noteq> ''HOSTACTIONURL''" "m \<noteq> ''HOSTNOTESURL''" "m \<noteq> ''HOSTNOTES''"
    using assms by (simp_all only: plain_host_macro_def insert_iff empty_iff de_Morgan_disj not_False_eq_True simp_thms)
  with host_names show named: "m \<in> set macro_x_names" "m \<noteq> []" "CHR '':'' \<notin> set m" "CHR ''$'' \<notin> set m"
    unfolding list_all_iff by blast+
  show "\<not> encoded_number (macro_number m)" using encoded_host_macro \<open>m \<in> set host_ids\<close> named(1) url by blast
  show "recursive_text ''HOST'' t m = None" using url by (simp add: recursive_text_def)
qed

lemma grab_plain_host_macro:
  assumes "plain_host_macro m" "host_ptr st = Some h"
  shows "\<exists>r v. grab_macro_value_r rec E m st = Some ((st, r, v), clean_options_of m) \<and>
    insert_macro E (or_options no_options (clean_options_of m)) (st, v) = (st, host_macro_value E h st m)"
proof -
  note n = plain_host_names [OF assms(1)]
  have args: "macro_arguments m = (m, None, None)" using n(3) by (simp add: macro_arguments_def cut_at_def)
  have "m \<in> set host_ids" "m \<notin> set host_totals" using assms(1) by (simp_all add: plain_host_macro_def)
  then have "grab_macro_value_r rec E m st = Some ((case map_of (host_routines E h st) m of None \<Rightarrow> failed st | Some t \<Rightarrow> fresh st t),
      clean_options_of m)"
    using n(1) assms(2) by (simp add: grab_macro_value_r_def args grab_macrox_value_r_def handle_host_macro_def
        grab_standard_host_macro_r_def n(6) failed_def fresh_def split: option.splits)
  then show ?thesis using n(5)
    by (cases "map_of (host_routines E h st) m")
      (auto simp: failed_def fresh_def host_macro_value_def insert_macro_def or_options_def no_options_def clean_options_of_def
        clean_macro_chars_def split: option.splits)
qed

section \<open>What the macros of a host stand for\<close>

text \<open>
  The fields of a host that its macros name, as the documentation of the standard macros lists
  them: names and texts, states as words and as numbers, counters, times and identifiers.
  Left out are notes and URLs, which are expanded in turn, the numbers of services, which are
  computed once and kept, the acknowledgement, the time zone, the lists of names, the durations
  and the decimal fractions.
\<close>

datatype host_field =
    Host_name | Host_display_name | Host_alias | Host_address | Host_state_name
  | Host_state_number | Last_state_name | Last_state_number | Host_check_type | Host_state_type
  | Host_output | Host_long_output | Host_perfdata | Host_check_command | Host_attempt
  | Host_max_attempts | Host_downtime | Host_last_check | Host_last_change | Host_last_up
  | Host_last_down | Host_last_unreachable | Host_notification_number | Host_notification_id | Host_event_id
  | Host_last_event_id | Host_problem_id | Host_last_problem_id | Host_object_id

fun field_macro :: "host_field \<Rightarrow> string" where
  "field_macro Host_name = ''HOSTNAME''"
| "field_macro Host_display_name = ''HOSTDISPLAYNAME''"
| "field_macro Host_alias = ''HOSTALIAS''"
| "field_macro Host_address = ''HOSTADDRESS''"
| "field_macro Host_state_name = ''HOSTSTATE''"
| "field_macro Host_state_number = ''HOSTSTATEID''"
| "field_macro Last_state_name = ''LASTHOSTSTATE''"
| "field_macro Last_state_number = ''LASTHOSTSTATEID''"
| "field_macro Host_check_type = ''HOSTCHECKTYPE''"
| "field_macro Host_state_type = ''HOSTSTATETYPE''"
| "field_macro Host_output = ''HOSTOUTPUT''"
| "field_macro Host_long_output = ''LONGHOSTOUTPUT''"
| "field_macro Host_perfdata = ''HOSTPERFDATA''"
| "field_macro Host_check_command = ''HOSTCHECKCOMMAND''"
| "field_macro Host_attempt = ''HOSTATTEMPT''"
| "field_macro Host_max_attempts = ''MAXHOSTATTEMPTS''"
| "field_macro Host_downtime = ''HOSTDOWNTIME''"
| "field_macro Host_last_check = ''LASTHOSTCHECK''"
| "field_macro Host_last_change = ''LASTHOSTSTATECHANGE''"
| "field_macro Host_last_up = ''LASTHOSTUP''"
| "field_macro Host_last_down = ''LASTHOSTDOWN''"
| "field_macro Host_last_unreachable = ''LASTHOSTUNREACHABLE''"
| "field_macro Host_notification_number = ''HOSTNOTIFICATIONNUMBER''"
| "field_macro Host_notification_id = ''HOSTNOTIFICATIONID''"
| "field_macro Host_event_id = ''HOSTEVENTID''"
| "field_macro Host_last_event_id = ''LASTHOSTEVENTID''"
| "field_macro Host_problem_id = ''HOSTPROBLEMID''"
| "field_macro Host_last_problem_id = ''LASTHOSTPROBLEMID''"
| "field_macro Host_object_id = ''HOSTID''"

definition or_empty :: "string option \<Rightarrow> string" where
  "or_empty t = (case t of None \<Rightarrow> [] | Some t \<Rightarrow> t)"

text \<open>Output from a plugin loses its illegal characters.\<close>

definition legal :: "macro_env \<Rightarrow> string \<Rightarrow> string" where
  "legal E t = filter (\<lambda>c. \<not> (of_char c < (32 :: nat) \<or> of_char c = (127 :: nat) \<or> c \<in> set (illegal_output_chars E))) t"

definition field_value :: "macro_env \<Rightarrow> host_id \<Rightarrow> host_field \<Rightarrow> string" where
  "field_value E h f =
     (let v = host_of (m_engine E) h; t = host_texts_of E h in
      case f of
        Host_name \<Rightarrow> h
      | Host_display_name \<Rightarrow> or_empty (display_name t)
      | Host_alias \<Rightarrow> or_empty (alias_of t)
      | Host_address \<Rightarrow> h_address v
      | Host_state_name \<Rightarrow> (case h_current_state v of HOST_UP \<Rightarrow> ''UP'' | HOST_DOWN \<Rightarrow> ''DOWN'' | HOST_UNREACHABLE \<Rightarrow> ''UNREACHABLE'')
      | Host_state_number \<Rightarrow> (case h_current_state v of HOST_UP \<Rightarrow> ''0'' | HOST_DOWN \<Rightarrow> ''1'' | HOST_UNREACHABLE \<Rightarrow> ''2'')
      | Last_state_name \<Rightarrow> (case h_last_state v of HOST_UP \<Rightarrow> ''UP'' | HOST_DOWN \<Rightarrow> ''DOWN'' | HOST_UNREACHABLE \<Rightarrow> ''UNREACHABLE'')
      | Last_state_number \<Rightarrow> (case h_last_state v of HOST_UP \<Rightarrow> ''0'' | HOST_DOWN \<Rightarrow> ''1'' | HOST_UNREACHABLE \<Rightarrow> ''2'')
      | Host_check_type \<Rightarrow> (case h_check_type v of CHECK_ACTIVE \<Rightarrow> ''ACTIVE'' | CHECK_PASSIVE \<Rightarrow> ''PASSIVE'')
      | Host_state_type \<Rightarrow> (case h_state_type v of HARD_STATE \<Rightarrow> ''HARD'' | SOFT_STATE \<Rightarrow> ''SOFT'')
      | Host_output \<Rightarrow> legal E (or_empty (h_plugin_output v))
      | Host_long_output \<Rightarrow> legal E (or_empty (h_long_plugin_output v))
      | Host_perfdata \<Rightarrow> legal E (or_empty (h_perf_data v))
      | Host_check_command \<Rightarrow> or_empty (h_host_check_command v)
      | Host_attempt \<Rightarrow> decimal_int (h_current_attempt v)
      | Host_max_attempts \<Rightarrow> decimal_int (h_max_attempts v)
      | Host_downtime \<Rightarrow> decimal_int (h_scheduled_downtime_depth v)
      | Host_last_check \<Rightarrow> decimal_int (h_last_check v)
      | Host_last_change \<Rightarrow> decimal_int (h_last_state_change v)
      | Host_last_up \<Rightarrow> decimal_int (h_last_time_up v)
      | Host_last_down \<Rightarrow> decimal_int (h_last_time_down v)
      | Host_last_unreachable \<Rightarrow> decimal_int (h_last_time_unreachable v)
      | Host_notification_number \<Rightarrow> decimal_int (h_current_notification_number v)
      | Host_notification_id \<Rightarrow> decimal (h_current_notification_id v)
      | Host_event_id \<Rightarrow> decimal (h_current_event_id v)
      | Host_last_event_id \<Rightarrow> decimal (h_last_event_id v)
      | Host_problem_id \<Rightarrow> decimal (h_current_problem_id v)
      | Host_last_problem_id \<Rightarrow> decimal (h_last_problem_id v)
      | Host_object_id \<Rightarrow> decimal (object_id t))"

lemma legal_filter: "filter (\<lambda>c. \<not> illegal_char (illegal_output_chars E) c) t = legal E t"
  by (simp add: legal_def illegal_char_def)

definition host_fields :: "host_field list" where
  "host_fields = [Host_name, Host_display_name, Host_alias, Host_address, Host_state_name,
     Host_state_number, Last_state_name, Last_state_number, Host_check_type, Host_state_type,
     Host_output, Host_long_output, Host_perfdata, Host_check_command, Host_attempt,
     Host_max_attempts, Host_downtime, Host_last_check, Host_last_change, Host_last_up,
     Host_last_down, Host_last_unreachable, Host_notification_number, Host_notification_id, Host_event_id,
     Host_last_event_id, Host_problem_id, Host_last_problem_id, Host_object_id]"

lemma host_field_listed: "f \<in> set host_fields"
  by (cases f) (simp_all add: host_fields_def)

lemma plain_fields: "list_all (\<lambda>f. plain_host_macro (field_macro f)) host_fields"
  by code_simp

lemma plain_field: "plain_host_macro (field_macro f)"
  using plain_fields host_field_listed unfolding list_all_iff by blast

lemma cleaned_names: "list_all (\<lambda>n. macro_x_names ! n \<in> set host_ids \<longrightarrow> macro_x_names ! n \<in>
      {''HOSTOUTPUT'', ''LONGHOSTOUTPUT'', ''HOSTPERFDATA'', ''HOSTACKAUTHOR'', ''HOSTACKCOMMENT'', ''HOSTACKAUTHORNAME'',
       ''HOSTACKAUTHORALIAS''})
    [16, 17, 18, 19, 49, 50, 51, 52, 99, 100, 124, 125, 126, 127]"
  by code_simp

lemma output_numbers: "cleaned_number (macro_number ''HOSTOUTPUT'')" "cleaned_number (macro_number ''LONGHOSTOUTPUT'')"
    "cleaned_number (macro_number ''HOSTPERFDATA'')"
  by code_simp+

lemma cleaned_field:
  "cleaned_number (macro_number (field_macro f)) \<longleftrightarrow> f \<in> {Host_output, Host_long_output, Host_perfdata}"
proof
  let ?m = "field_macro f"
  assume "cleaned_number (macro_number ?m)"
  then have "macro_number ?m \<in> set [16, 17, 18, 19, 49, 50, 51, 52, 99, 100, 124, 125, 126, 127]"
    by (auto simp: cleaned_number_def)
  moreover have "?m \<in> set host_ids" "macro_x_names ! macro_number ?m = ?m"
    using plain_field [of f] macro_named [OF plain_host_names(1) [OF plain_field]] by (simp_all add: plain_host_macro_def)
  ultimately have "?m \<in> {''HOSTOUTPUT'', ''LONGHOSTOUTPUT'', ''HOSTPERFDATA'', ''HOSTACKAUTHOR'', ''HOSTACKCOMMENT'',
      ''HOSTACKAUTHORNAME'', ''HOSTACKAUTHORALIAS''}"
    using cleaned_names unfolding list_all_iff by metis
  then show "f \<in> {Host_output, Host_long_output, Host_perfdata}" by (cases f) simp_all
next
  assume "f \<in> {Host_output, Host_long_output, Host_perfdata}"
  then show "cleaned_number (macro_number (field_macro f))" using output_numbers by auto
qed

lemma state_numbers: "decimal_int 0 = ''0''" "decimal_int 1 = ''1''" "decimal_int 2 = ''2''"
  by code_simp+

lemma host_field_value: "host_macro_value E h st (field_macro f) = field_value E h f"
  unfolding host_macro_value_def cleaned_field legal_filter
  by (cases f)
    (simp_all add: state_numbers legal_def macro_copy_def host_routines_def field_value_def or_empty_def Let_def check_type_text_def
      state_type_text_def split: host_state.split option.split check_type.split state_type.split)

section \<open>Lines\<close>

text \<open>A line: literal text, arguments of the command and macros of the host.\<close>

datatype line_part = Text string | Arg nat | Host host_field

fun written :: "line_part \<Rightarrow> string" where
  "written (Text t) = escape_dollars t"
| "written (Arg n) = CHR ''$'' # argument_macro n @ ''$''"
| "written (Host f) = CHR ''$'' # field_macro f @ ''$''"

fun meant :: "(nat \<Rightarrow> string) \<Rightarrow> (host_field \<Rightarrow> string) \<Rightarrow> line_part \<Rightarrow> string" where
  "meant args of_host (Text t) = t"
| "meant args of_host (Arg n) = args n"
| "meant args of_host (Host f) = of_host f"

lemma run_line:
  assumes "user_macros E [] = None" "\<forall>n. Arg n \<in> set parts \<longrightarrow> n < 32 \<and> argv st n = Some (args n)"
    "\<forall>f. Host f \<in> set parts \<longrightarrow> host_ptr st = Some h"
  shows "run_text rec E no_options (concat (map written parts)) (st, pre) =
    Some (st, pre @ concat (map (meant args (field_value E h)) parts))"
  using assms(2,3)
proof (induction parts arbitrary: pre)
  case (Cons p parts)
  then have IH: "run_text rec E no_options (concat (map written parts)) (st, pre) =
      Some (st, pre @ concat (map (meant args (field_value E h)) parts))" for pre
    by (intro Cons.IH) simp_all
  show ?case
  proof (cases p)
    case (Text t)
    then show ?thesis by (simp add: run_escaped [OF assms(1)] IH)
  next
    case (Arg n)
    with Cons.prems have n: "n < 32" "argv st n = Some (args n)" by simp_all
    have d: "CHR ''$'' \<notin> set (argument_macro n)"
      using argument_numbers n(1) by (simp add: list_all_iff argument_macro_def del: upt_rec_numeral)
    have "insert_macro E (or_options no_options no_options) (st, Some (Argument n)) = (st, args n)"
      using n(2) by (simp add: insert_macro_def or_options_def no_options_def)
    from run_macro [OF d grab_argument [OF n, of rec E] this, of "concat (map written parts)" pre] show ?thesis
      by (simp add: Arg IH)
  next
    case (Host f)
    let ?m = "field_macro f"
    from Cons.prems Host have m: "plain_host_macro ?m" "host_ptr st = Some h" by (auto simp: plain_field)
    from grab_plain_host_macro [OF m, of rec E] obtain r v where g: "grab_macro_value_r rec E ?m st = Some ((st, r, v), clean_options_of ?m)"
      "insert_macro E (or_options no_options (clean_options_of ?m)) (st, v) = (st, field_value E h f)"
      unfolding host_field_value by blast
    from run_macro [OF plain_host_names(4) [OF m(1)] g, of "concat (map written parts)" pre] show ?thesis
      using plain_host_names(2) [OF m(1)] by (simp add: Host IH)
  qed
qed simp

section \<open>The arguments of a command\<close>

text \<open>An argument as it is written in a check command: dollars doubled, separators and
  backslashes escaped.\<close>

definition quote_argument :: "string \<Rightarrow> string" where
  "quote_argument a =
     concat (map (\<lambda>c. if c = CHR ''!'' \<or> c = CHR 0x5C then [CHR 0x5C, c] else [c]) (escape_dollars a))"

definition command_text :: "string \<Rightarrow> string list \<Rightarrow> string" where
  "command_text name args = name @ concat (map (\<lambda>a. CHR ''!'' # quote_argument a) args)"

lemma read_quoted:
  assumes "length a \<le> room" "rest = [] \<or> hd rest = CHR ''!''"
  shows "read_argument room False
      (concat (map (\<lambda>c. if c = CHR ''!'' \<or> c = CHR 0x5C then [CHR 0x5C, c] else [c]) a) @ rest) = (a, rest, False)"
  using assms(1)
proof (induction a arbitrary: room)
  case Nil
  then show ?case using assms(2) by (cases rest) auto
next
  case (Cons c a)
  then obtain n where "room = Suc n" "length a \<le> n" by (cases room) auto
  with Cons.IH [of n] show ?case by auto
qed

lemma process_escaped: "user_macros E [] = None \<Longrightarrow> process_macros_r E (st, Some (escape_dollars a), options) = Some (st, a)"
  using run_escaped [of E "\<lambda>c. process_macros_r E c" options a "[]" st "[]"] by (simp add: process_macros_run)

lemma arguments_read:
  assumes "user_macros E [] = None" "\<forall>a\<in>set args. length (escape_dollars a) < MAX_COMMAND_BUFFER" "length args \<le> n"
    "n \<le> MAX_COMMAND_ARGUMENTS"
  shows "command_arguments E options n False (concat (map (\<lambda>a. CHR ''!'' # quote_argument a) args)) st =
    Some (st\<lparr>argv := (\<lambda>i. if MAX_COMMAND_ARGUMENTS - n \<le> i \<and> i < MAX_COMMAND_ARGUMENTS - n + length args
       then Some (args ! (i - (MAX_COMMAND_ARGUMENTS - n))) else argv st i)\<rparr>)"
  using assms(2-4)
proof (induction args arbitrary: n st)
  case Nil
  have none: "st\<lparr>argv := (\<lambda>i. if m \<le> i \<and> i < m + length [] then h i else argv st i)\<rparr> = st" for m h
  proof -
    have "(\<lambda>i. if m \<le> i \<and> i < m + length [] then h i else argv st i) = argv st" by (rule ext) auto
    then show ?thesis by simp
  qed
  show ?case by (cases n; simp only: command_arguments.simps list.map concat.simps none)
next
  case (Cons a args)
  then obtain k where n: "n = Suc k" "length args \<le> k" by (cases n) auto
  let ?rest = "concat (map (\<lambda>a. CHR ''!'' # quote_argument a) args)"
  let ?m = "MAX_COMMAND_ARGUMENTS - Suc k"
  have "?rest = [] \<or> hd ?rest = CHR ''!''" by (cases args) simp_all
  moreover have "length (escape_dollars a) \<le> MAX_COMMAND_BUFFER - 1" using Cons.prems(1) by auto
  ultimately have "read_argument (MAX_COMMAND_BUFFER - 1) False (quote_argument a @ ?rest) = (escape_dollars a, ?rest, False)"
    unfolding quote_argument_def by (intro read_quoted)
  then have step: "command_arguments E options n False (concat (map (\<lambda>a. CHR ''!'' # quote_argument a) (a # args))) st =
      command_arguments E options k False ?rest (st\<lparr>argv := (argv st)(?m := Some a)\<rparr>)"
    by (simp add: n process_escaped [OF assms(1)])
  have m: "MAX_COMMAND_ARGUMENTS - k = Suc ?m" using Cons.prems(3) n by (simp add: MAX_COMMAND_ARGUMENTS_def)
  have argvs: "(\<lambda>i. if Suc ?m \<le> i \<and> i < Suc ?m + length args then Some (args ! (i - Suc ?m)) else ((argv st)(?m := Some a)) i) =
    (\<lambda>i. if ?m \<le> i \<and> i < ?m + length (a # args) then Some ((a # args) ! (i - ?m)) else argv st i)"
    by (rule ext) (auto simp: nth_Cons' not_less_eq_eq)
  have "command_arguments E options k False ?rest (st\<lparr>argv := (argv st)(?m := Some a)\<rparr>) =
    Some (st\<lparr>argv := (\<lambda>i. if Suc ?m \<le> i \<and> i < Suc ?m + length args then Some (args ! (i - Suc ?m)) else ((argv st)(?m := Some a)) i)\<rparr>)"
    using Cons.IH [of k "st\<lparr>argv := (argv st)(?m := Some a)\<rparr>"] Cons.prems n unfolding m by (simp cong: if_cong)
  then show ?case unfolding n(1) step [unfolded n(1)] argvs .
qed

text \<open>The macros while the command runs.\<close>

definition with_arguments :: "string list \<Rightarrow> macro_state \<Rightarrow> macro_state" where
  "with_arguments args st = st\<lparr>argv := (\<lambda>i. if i < length args then Some (args ! i) else argv st i)\<rparr>"

lemma with_arguments_fields [simp]:
  "host_ptr (with_arguments args st) = host_ptr st" "x_of (with_arguments args st) = x_of st"
  "n < length args \<Longrightarrow> argv (with_arguments args st) n = Some (args ! n)"
  by (simp_all add: with_arguments_def)

lemma all_arguments_read:
  assumes "user_macros E [] = None" "\<forall>a\<in>set args. length (escape_dollars a) < MAX_COMMAND_BUFFER"
    "length args \<le> MAX_COMMAND_ARGUMENTS"
  shows "command_arguments E options MAX_COMMAND_ARGUMENTS False (concat (map (\<lambda>a. CHR ''!'' # quote_argument a) args)) st =
    Some (with_arguments args st)"
  using arguments_read [OF assms order_refl, of options st] by (simp add: with_arguments_def cong: if_cong)

lemma command_name:
  "CHR ''!'' \<notin> set name \<Longrightarrow>
    dropWhile (\<lambda>x. x \<noteq> CHR ''!'') (command_text name args) = concat (map (\<lambda>a. CHR ''!'' # quote_argument a) args)"
  unfolding command_text_def by (subst dropWhile_append2) (auto split: list.splits, cases args, auto)

section \<open>Stripped values\<close>

text \<open>Every second piece of a text is a macro.\<close>

lemma pieces_of_text:
  "c \<in> set p \<Longrightarrow> p \<in> set (split_dollars t) \<Longrightarrow> c \<in> set t"
  by (induction t arbitrary: p) (fastforce split: if_splits list.splits)+

lemma several_pieces: "split_dollars t = p # ps \<Longrightarrow> ps \<noteq> [] \<Longrightarrow> CHR ''$'' \<in> set t"
  by (induction t arbitrary: p ps) (auto split: if_splits list.splits)

lemma inserted_clean:
  assumes "strip_illegal options" "insert_macro E options g = (st1, text)" "c \<in> set text"
  shows "\<not> illegal_char (illegal_output_chars E) c"
  using assms by (auto simp: insert_macro_def clean_macro_chars_def Let_def split: prod.splits option.splits if_splits)

lemma stripped_pieces:
  assumes "strip_illegal options"
  shows "process_pieces rec E options im ps (st, pre) = Some (st1, result) \<Longrightarrow> c \<in> set result \<Longrightarrow>
    illegal_char (illegal_output_chars E) c \<Longrightarrow>
    c \<in> set pre \<or> (\<exists>p\<in>set ps. c \<in> set p) \<or> c = CHR ''$'' \<and> (im \<and> ps \<noteq> [] \<or> 1 < length ps)"
proof (induction ps arbitrary: im st pre)
  case (Cons p ps)
  show ?case
  proof (cases im)
    case False
    with Cons.prems Cons.IH [of True st "pre @ p"] show ?thesis by auto
  next
    case True
    with Cons.prems(1) obtain g where g: "grab_macro_value_r rec E p st = Some g"
      by (auto simp: bind_eq_Some_conv)
    obtain st2 r v clean where gg: "g = ((st2, r, v), clean)" by (metis prod_cases3 surj_pair)
    obtain st3 val where ins: "insert_macro E (or_options options clean) (st2, v) = (st3, val)" by (meson surj_pair)
    have "strip_illegal (or_options options clean)" using assms by (simp add: or_options_def)
    then have "c \<notin> set val" using inserted_clean [OF _ ins] Cons.prems(3) by blast
    moreover have "process_pieces rec E options False ps
        (st3, (if r \<noteq> Grab_ok \<and> p = [] then pre @ ''$'' else pre) @ val) = Some (st1, result)"
      using Cons.prems(1) True by (simp add: g gg ins cong: if_cong split del: if_split)
    ultimately show ?thesis using Cons.IH Cons.prems(2,3) True by (fastforce split: if_splits)
  qed
qed simp

end
