(* ===== verification/Macro_Properties.thy ===== *)
theory Macro_Properties
  imports Macro_Facts
begin

text \<open>
  The properties of macro expansion: quoted arguments reach the command line, stripped values
  bring no illegal character, expansion returns where no text mentions itself, and two places
  where the code goes wrong.
\<close>

section \<open>Expansions that return\<close>

text \<open>The texts a macro expands in turn: the notes and URLs of any object of its kind.\<close>

definition behind :: "macro_env \<Rightarrow> string \<Rightarrow> string option \<Rightarrow> bool" where
  "behind E name t \<longleftrightarrow>
     (\<exists>h c. recursive_text ''HOST'' (host_texts_of E h) name = Some (t, c)) \<or>
     (\<exists>s c. recursive_text ''SERVICE'' (service_texts_of E s) name = Some (t, c)) \<or>
     (\<exists>g c. recursive_text ''HOSTGROUP'' (hostgroup_texts_of E g) name = Some (t, c)) \<or>
     (\<exists>g c. recursive_text ''SERVICEGROUP'' (servicegroup_texts_of E g) name = Some (t, c))"

text \<open>The macros of a text: every second piece.\<close>

fun macro_pieces :: "string list \<Rightarrow> string list" where
  "macro_pieces (t # m # ps) = m # macro_pieces ps"
| "macro_pieces ps = []"

text \<open>Custom variables of services are asked for the current service.\<close>

definition well_asked :: "string \<Rightarrow> bool" where
  "well_asked m \<longleftrightarrow> (case macro_arguments m of (name, arg) \<Rightarrow> take 8 name = ''_SERVICE'' \<longrightarrow> arg = (None, None))"

inductive expandable :: "macro_env \<Rightarrow> string option \<Rightarrow> bool" for E where
  no_text: "expandable E None"
| text_over: "\<forall>m\<in>set (macro_pieces (split_dollars t)).
     well_asked m \<and> (\<forall>s. behind E (fst (macro_arguments m)) s \<longrightarrow> expandable E s) \<Longrightarrow> expandable E (Some t)"

lemma join_members_defined: "(\<And>m st. defined (value_of m st)) \<Longrightarrow> defined (join_members value_of d ms s)"
proof (induction ms arbitrary: s)
  case (Cons m ms)
  obtain st t where "s = (st, t)" by (cases s)
  with Cons show ?case by (simp add: defined_bind split: prod.split)
qed simp

lemma expand_text_defined: "(\<And>st c. defined (rec (st, t, c))) \<Longrightarrow> defined (expand_text rec st (t, c))"
  by (simp add: expand_text_def)

lemma behind_texts:
  "recursive_text ''HOST'' (host_texts_of E h) name = Some (t, c) \<Longrightarrow> behind E name t"
  "recursive_text ''SERVICE'' (service_texts_of E s) name = Some (t, c) \<Longrightarrow> behind E name t"
  "recursive_text ''HOSTGROUP'' (hostgroup_texts_of E g) name = Some (t, c) \<Longrightarrow> behind E name t"
  "recursive_text ''SERVICEGROUP'' (servicegroup_texts_of E g) name = Some (t, c) \<Longrightarrow> behind E name t"
  unfolding behind_def by blast+

text \<open>What a standard macro gives: the expansion of a text or a value at once.\<close>

lemma expand_or_value_defined:
  assumes "\<And>t c. r = Some (t, c) \<Longrightarrow> defined (expand_text rec st (t, c))"
  shows "defined (case r of Some t \<Rightarrow> expand_text rec st t | None \<Rightarrow> Some y)"
    "defined (case r of Some t \<Rightarrow> expand_text rec st t
       | None \<Rightarrow> (case v of None \<Rightarrow> Some y | Some t \<Rightarrow> Some (f t)))"
  using assms by (cases r; cases v; force)+

lemma grab_standard_defined:
  assumes rec: "\<And>st t c. behind E name t \<Longrightarrow> defined (rec (st, t, c))"
  shows "defined (grab_standard_host_macro_r rec E name h st)"
    "defined (grab_standard_service_macro_r rec E name sv st)"
    "defined (grab_standard_hostgroup_macro_r rec E name g st)"
    "defined (grab_standard_servicegroup_macro_r rec E name g st)"
proof -
  have "defined (expand_text rec st (t, c))" if "behind E name t" for t c
    using rec [OF that] by (rule expand_text_defined)
  note t = this
  show "defined (grab_standard_host_macro_r rec E name h st)"
    unfolding grab_standard_host_macro_r_def
    by (cases "name \<in> set host_totals") (simp_all only: if_True if_False defined_simps expand_or_value_defined [OF t [OF behind_texts(1)]])
  show "defined (grab_standard_service_macro_r rec E name sv st)"
    unfolding grab_standard_service_macro_r_def by (rule expand_or_value_defined [OF t [OF behind_texts(2)]])
  show "defined (grab_standard_hostgroup_macro_r rec E name g st)"
    unfolding grab_standard_hostgroup_macro_r_def Let_def by (rule expand_or_value_defined [OF t [OF behind_texts(3)]])
  show "defined (grab_standard_servicegroup_macro_r rec E name g st)"
    unfolding grab_standard_servicegroup_macro_r_def Let_def
    by (rule expand_or_value_defined [OF t [OF behind_texts(4)]])
qed

lemma macrox_defined:
  assumes rec: "\<And>st t c. behind E name t \<Longrightarrow> defined (rec (st, t, c))"
  shows "defined (grab_macrox_value_r rec E name arg st)"
proof -
  note standard = grab_standard_defined [of E name rec, OF rec]
  note there = defined_branches join_members_defined standard
  have "defined (handle_host_macro rec E name arg st)" unfolding handle_host_macro_def by (intro there)
  moreover have "defined (handle_hostgroup_macro rec E name arg st)" unfolding handle_hostgroup_macro_def by (intro there)
  moreover have "defined (handle_service_macro rec E name arg st)" unfolding handle_service_macro_def Let_def by (intro there)
  moreover have "defined (handle_servicegroup_macro rec E name arg st)"
    unfolding handle_servicegroup_macro_def by (intro there)
  moreover have "defined (handle_contact_macro E name arg st)" unfolding handle_contact_macro_def by (intro there)
  ultimately show ?thesis unfolding grab_macrox_value_r_def by (intro defined_branches)
qed

lemma custom_defined:
  assumes "take 8 name = ''_SERVICE'' \<longrightarrow> arg = (None, None)"
  shows "defined (grab_custom_macro_value_r E name arg st)"
proof -
  have "defined (custom_service_macro E st (name, arg))" if "take 8 name = ''_SERVICE''"
    using that assms by (simp add: custom_service_macro.simps)
  then show ?thesis
    unfolding grab_custom_macro_value_r_def Let_def by (intro defined_branches join_members_defined)
qed

lemma grab_defined:
  assumes "\<And>st t c. behind E (fst (macro_arguments m)) t \<Longrightarrow> defined (rec (st, t, c))" "well_asked m"
  shows "defined (grab_macro_value_r rec E m st)"
proof -
  obtain name arg where m: "macro_arguments m = (name, arg)" by (cases "macro_arguments m")
  have "defined (grab_macrox_value_r rec E name arg st)" using assms(1) by (intro macrox_defined) (simp add: m)
  moreover have "defined (contact_address_macro E n arg st)" for n
    unfolding contact_address_macro_def by (intro defined_branches join_members_defined)
  moreover have "defined (grab_custom_macro_value_r E name arg st)"
    using assms(2) by (intro custom_defined) (simp add: well_asked_def m)
  ultimately show ?thesis
    unfolding grab_macro_value_r_def m prod.case Let_def by (intro defined_branches)
qed

lemma pieces_defined:
  "(\<And>m st. m \<in> set (macro_pieces ps) \<Longrightarrow> defined (grab_macro_value_r rec E m st)) \<Longrightarrow>
    defined (process_pieces rec E options False ps s)"
proof (induction ps arbitrary: s rule: macro_pieces.induct)
  case (1 t m ps)
  then show ?case by (auto simp: defined_bind split: prod.split)
qed simp_all

lemma expandable_defined: "expandable E t \<Longrightarrow> defined (process_macros_r E (st, t, options))"
proof (induction arbitrary: st options rule: expandable.induct)
  case no_text
  then show ?case by (simp add: process_macros_r.simps)
next
  case (text_over t)
  then show ?case
    by (subst process_macros_r.simps) (auto intro!: pieces_defined grab_defined)
qed

section \<open>An example\<close>

text \<open>A host whose notes name its address, and one whose notes name themselves.\<close>

definition ex_texts :: "string \<Rightarrow> host_texts" where
  "ex_texts n = \<lparr>display_name = Some ''web'', alias_of = None, notes_text = Some n, notes_url = None, action_url = None,
     groups_ptr = [], object_id = 1, parent_names = [], child_names = []\<rparr>"

definition ex_service_texts :: service_texts where
  "ex_service_texts = \<lparr>display_name = None, alias_of = None, notes_text = None, notes_url = None, action_url = None,
     groups_ptr = [], object_id = 1, service_check_command = None\<rparr>"

definition ex_group_texts :: texts where
  "ex_group_texts = \<lparr>display_name = None, alias_of = None, notes_text = None, notes_url = None, action_url = None,
     groups_ptr = [], object_id = 1\<rparr>"

definition ex_clock :: clock where
  "ex_clock = \<lparr>local_of = (\<lambda>t. t), instant_of = (\<lambda>t. t), stack_tm =
     \<lparr>tm_sec = 0, tm_min = 0, tm_hour = 0, tm_mday = 1, tm_mon = 0, tm_year = 70, tm_wday = 4\<rparr>\<rparr>"

definition ex_macro_env :: "string \<Rightarrow> macro_env" where
  "ex_macro_env n = \<lparr>m_engine = ex_engine, m_env = ex_env, m_clock = ex_clock, zone_name = ''UTC'', ambient_tz = None,
     date_format_of = DATE_FORMAT_US, illegal_output_chars = ''`&|'', host_texts_of = (\<lambda>_. ex_texts n),
     service_texts_of = (\<lambda>_. ex_service_texts),
     contact_texts_of = (\<lambda>_. \<lparr>email = None, pager = None, token = None, address = [], contactgroups_ptr = []\<rparr>),
     hostgroup_texts_of = (\<lambda>_. ex_group_texts), servicegroup_texts_of = (\<lambda>_. ex_group_texts),
     contactgroup_texts_of = (\<lambda>_. \<lparr>cg_alias = None, cg_members = []\<rparr>), user_macros = (\<lambda>_. None), unset_text = []\<rparr>"

definition ex_macro_state :: macro_state where
  "ex_macro_state = \<lparr>x_of = (\<lambda>_. None), global_x = (\<lambda>_. None), argv = (\<lambda>_. None), macro_user = (\<lambda>_. None),
     host_ptr = Some ''h'', hostgroup_ptr = None, service_ptr = None, servicegroup_ptr = None, contact_ptr = None,
     contactgroup_ptr = None\<rparr>"

section \<open>Properties\<close>

text \<open>C11. A line of literal text, arguments and macros of the host is expanded to what it stands
  for, with the arguments that the quoted form of the command gives and the fields of the host
  that the macros name: names, texts, states as words and numbers, counters, times and
  identifiers, the output without its illegal characters. Notes, URLs, numbers of services,
  acknowledgements, time zone, lists of names, durations and fractions are not among them.\<close>

theorem command_line_expanded:
  assumes "user_macros E [] = None" "CHR ''!'' \<notin> set name" "length args \<le> MAX_COMMAND_ARGUMENTS"
    "\<forall>a\<in>set args. length (escape_dollars a) < MAX_COMMAND_BUFFER"
    "\<forall>n. Arg n \<in> set parts \<longrightarrow> n < length args"
    "\<forall>f. Host f \<in> set parts \<longrightarrow> host_ptr st = Some h"
    "line = concat (map written parts)"
  shows "\<exists>st1. get_raw_command_line_r E options (Some line) (Some (command_text name args)) st = Some (st1, Some line) \<and>
    process_macros_r E (st1, Some line, no_options) =
      Some (st1, concat (map (meant (\<lambda>n. args ! n) (field_value E h)) parts))"
proof -
  let ?st1 = "with_arguments args (clear_argv_macros_r st)"
  have same: "host_ptr ?st1 = host_ptr st" by (simp add: clear_argv_macros_r_def)
  have raw: "get_raw_command_line_r E options (Some line) (Some (command_text name args)) st = Some (?st1, Some line)"
    by (simp add: get_raw_command_line_r_def command_name [OF assms(2)] all_arguments_read [OF assms(1,4,3)])
  have "\<forall>n. Arg n \<in> set parts \<longrightarrow> n < 32 \<and> argv ?st1 n = Some (args ! n)"
    using assms(3,5) by (auto simp: MAX_COMMAND_ARGUMENTS_def)
  moreover have "\<forall>f. Host f \<in> set parts \<longrightarrow> host_ptr ?st1 = Some h" using assms(6) same by simp
  ultimately have "process_macros_r E (?st1, Some line, no_options) =
      Some (?st1, concat (map (meant (\<lambda>n. args ! n) (field_value E h)) parts))"
    unfolding process_macros_run assms(7) using run_line [OF assms(1), of parts ?st1 "\<lambda>n. args ! n" h] by simp
  with raw show ?thesis by blast
qed

theorem command_line_expanded_witness:
  "\<exists>st1. get_raw_command_line_r (ex_macro_env []) no_options (Some ''ping -H $HOSTADDRESS$ -w $ARG1$ # $HOSTSTATE$'')
       (Some ''check!5$$'') ex_macro_state = Some (st1, Some ''ping -H $HOSTADDRESS$ -w $ARG1$ # $HOSTSTATE$'') \<and>
     process_macros_r (ex_macro_env [])
      (st1, Some ''ping -H $HOSTADDRESS$ -w $ARG1$ # $HOSTSTATE$'', no_options) =
      Some (st1, ''ping -H 10.0.0.1 -w 5$ # UP'')"
proof -
  let ?E = "ex_macro_env []" and ?parts = "[Text ''ping -H '', Host Host_address, Text '' -w '', Arg 0, Text '' # '', Host Host_state_name]"
  have texts: "command_text ''check'' [''5$''] = ''check!5$$''"
    "''ping -H $HOSTADDRESS$ -w $ARG1$ # $HOSTSTATE$'' = concat (map written ?parts)" by code_simp+
  have "field_value ?E ''h'' Host_address = ''10.0.0.1''" "field_value ?E ''h'' Host_state_name = ''UP''"
    by (simp_all add: field_value_def Let_def ex_macro_env_def ex_engine_def ex_host_def)
  then have meant: "concat (map (meant (\<lambda>n. [''5$''] ! n) (field_value ?E ''h'')) ?parts) = ''ping -H 10.0.0.1 -w 5$ # UP''" by simp
  show ?thesis
    using command_line_expanded [of ?E "''check''" "[''5$'']" ?parts ex_macro_state "''h''", OF _ _ _ _ _ _ texts(2), of no_options]
    unfolding texts(1) meant
    by (simp add: MAX_COMMAND_ARGUMENTS_def MAX_COMMAND_BUFFER_def ex_macro_env_def [THEN arg_cong, of user_macros]
        ex_macro_state_def [THEN arg_cong, of host_ptr])
qed

text \<open>C12. An expansion that strips illegal characters returns only such illegal characters as the
  text itself has: no value of a macro, of an argument or of a custom variable brings one in.\<close>

theorem stripped_expansion_safe:
  assumes "process_macros_r E (st, Some t, options) = Some (st1, result)" "strip_illegal options"
    "c \<in> set result" "illegal_char (illegal_output_chars E) c"
  shows "c \<in> set t"
proof -
  obtain p ps where t: "split_dollars t = p # ps" by (cases "split_dollars t") simp_all
  have "process_pieces (\<lambda>c. process_macros_r E c) E options False (split_dollars t) (st, []) = Some (st1, result)"
    using assms(1) by (simp add: process_macros_run run_text_def)
  from stripped_pieces [OF assms(2) this assms(3,4)] show ?thesis
    using pieces_of_text several_pieces [OF t] t by (auto simp: Suc_le_eq neq_Nil_conv)
qed

text \<open>An argument of a command with a second command behind an ampersand.\<close>

definition ex_argument_state :: macro_state where
  "ex_argument_state = ex_macro_state\<lparr>argv := (\<lambda>_. None)(0 := Some ''5 & rm'')\<rparr>"

theorem stripped_expansion_safe_witness:
  "\<exists>st1 result. process_macros_r (ex_macro_env []) (ex_argument_state, Some ''ping -w $ARG1$ | more'', no_options\<lparr>strip_illegal := True\<rparr>) =
       Some (st1, result) \<and>
     argv ex_argument_state 0 = Some ''5 & rm'' \<and> CHR ''|'' \<in> set result \<and> CHR ''&'' \<notin> set result"
proof -
  let ?E = "ex_macro_env []" and ?t = "''ping -w $ARG1$ | more''" and ?o = "no_options\<lparr>strip_illegal := True\<rparr>"
  have "map_option snd (process_macros_r ?E (ex_argument_state, Some ?t, ?o)) = Some ''ping -w 5  rm | more''"
    by code_simp
  then obtain st1 where run: "process_macros_r ?E (ex_argument_state, Some ?t, ?o) = Some (st1, ''ping -w 5  rm | more'')"
    by auto
  have illegal: "illegal_char (illegal_output_chars ?E) (CHR ''|'')" "illegal_char (illegal_output_chars ?E) (CHR ''&'')"
    by (simp_all add: ex_macro_env_def illegal_char_def)
  have "CHR ''|'' \<in> set ?t" using stripped_expansion_safe [OF run _ _ illegal(1)] by simp
  moreover have "CHR ''&'' \<notin> set ''ping -w 5  rm | more''" using stripped_expansion_safe [OF run _ _ illegal(2)] by auto
  ultimately show ?thesis using run by (auto simp: ex_argument_state_def)
qed

text \<open>C13. Expansion returns whenever no text mentions itself through notes and URLs.\<close>

theorem expansion_returns:
  assumes "expandable E t"
  shows "\<exists>st1 result. process_macros_r E (st, t, options) = Some (st1, result)"
  using expandable_defined [OF assms, of st options] by (auto simp: defined_def)

theorem expansion_returns_witness:
  "\<exists>st1 result. process_macros_r (ex_macro_env ''at $HOSTADDRESS$'') (ex_macro_state, Some ''$HOSTNOTES$'', no_options) =
     Some (st1, result)"
proof (rule expansion_returns)
  let ?E = "ex_macro_env ''at $HOSTADDRESS$''"
  have pieces: "macro_pieces (split_dollars ''$HOSTNOTES$'') = [''HOSTNOTES'']"
    "macro_pieces (split_dollars ''at $HOSTADDRESS$'') = [''HOSTADDRESS'']"
    "macro_arguments ''HOSTNOTES'' = (''HOSTNOTES'', None, None)" "macro_arguments ''HOSTADDRESS'' = (''HOSTADDRESS'', None, None)"
    by code_simp+
  have "expandable ?E (Some ''at $HOSTADDRESS$'')"
    by (rule expandable.text_over) (simp add: pieces well_asked_def behind_def recursive_text_def)
  then show "expandable ?E (Some ''$HOSTNOTES$'')"
    by (intro expandable.text_over)
      (auto simp: pieces well_asked_def behind_def recursive_text_def ex_macro_env_def ex_texts_def)
qed

text \<open>C39. The notes of the current host that name themselves are never expanded to an end.\<close>

theorem recursive_notes_never_end:
  assumes "host_ptr st = Some h" "notes_text (host_texts_of E h) = Some (a @ ''$HOSTNOTES$'' @ b)" "CHR ''$'' \<notin> set a"
  shows "process_macros_r E (st, Some (a @ ''$HOSTNOTES$'' @ b), options) = None"
proof -
  let ?t = "a @ ''$HOSTNOTES$'' @ b"
  have named: "''HOSTNOTES'' \<in> set macro_x_names" "''HOSTNOTES'' \<in> set host_ids" "''HOSTNOTES'' \<notin> set host_totals"
    "CHR ''$'' \<notin> set ''HOSTNOTES''" by code_simp+
  have args: "macro_arguments ''HOSTNOTES'' = (''HOSTNOTES'', None, None)" by code_simp
  have grab: "grab_macro_value_r rec E ''HOSTNOTES'' st = None" if "rec (st, Some ?t, no_options) = None" for rec
    using that assms(1,2) named by (simp add: grab_macro_value_r_def args grab_macrox_value_r_def handle_host_macro_def
        grab_standard_host_macro_r_def recursive_text_def expand_text_def)
  have "F = E \<Longrightarrow> x \<noteq> (st, Some ?t, options)" if "process_macros_r F x = Some y" for F x y options
    using that
  proof (induction arbitrary: options rule: process_macros_r.raw_induct [rotated, consumes 1, case_names call])
    case (call rec F x y)
    show ?case
    proof
      assume x: "x = (st, Some ?t, options)"
      have "rec E (st, Some ?t, no_options) = None" using call(1) [OF _ refl] by (cases "rec E (st, Some ?t, no_options)") blast+
      note none = grab [of "rec E", OF this]
      obtain r rs where r: "split_dollars b = r # rs" by (cases "split_dollars b") simp_all
      have "split_dollars ?t = a # ''HOSTNOTES'' # split_dollars b"
        using split_dollars_macro [OF named(4), of b] by (simp add: split_dollars_literal assms(3))
      with call(2,3) none show False by (simp add: x)
    qed
  qed
  then show ?thesis by (cases "process_macros_r E (st, Some ?t, options)") blast+
qed

theorem recursive_notes_never_end_witness:
  "process_macros_r (ex_macro_env ''see $HOSTNOTES$'') (ex_macro_state, Some ''see $HOSTNOTES$'', no_options) = None"
  using recursive_notes_never_end [of ex_macro_state "''h''" "ex_macro_env ''see $HOSTNOTES$''" "''see ''" "[]" no_options]
  by (simp add: ex_macro_env_def ex_macro_state_def ex_texts_def)

text \<open>C40. The number of services of a host stays that of the host asked for first when the
  macros of another host are set, although the table of macros to clear names it.\<close>

theorem host_totals_of_former_host:
  assumes "host_ptr st = Some h" "x_of st ''TOTALHOSTSERVICES'' = None"
  shows "\<exists>st1 st2. process_macros_r E (st, Some ''$TOTALHOSTSERVICES$'', no_options) =
      Some (st1, services_in (m_engine E) h (\<lambda>_. True)) \<and>
    ''TOTALHOSTSERVICES'' \<in> set host_to_free \<and> grab_host_macros_r E (Some h') st1 = (st2, OK) \<and> host_ptr st2 = Some h' \<and>
    process_macros_r E (st2, Some ''$TOTALHOSTSERVICES$'', no_options) =
      Some (st2, services_in (m_engine E) h (\<lambda>_. True))"
proof -
  let ?n = "''TOTALHOSTSERVICES''"
  let ?v = "services_in (m_engine E) h (\<lambda>_. True)"
  have named: "?n \<in> set macro_x_names" "?n \<in> set host_ids" "?n \<in> set host_totals" "CHR ''$'' \<notin> set ?n"
    "clean_options_of ?n = no_options" "?n \<in> set host_to_free" by code_simp+
  have kept: "?n \<notin> set (take (length host_to_free) macro_x_names)" "?n \<notin> set (take (length hostgroup_to_free) macro_x_names)"
    by code_simp+
  have args: "macro_arguments ?n = (?n, None, None)" by code_simp
  have expand: "process_macros_r E (s, Some (CHR ''$'' # ?n @ ''$''), no_options) = Some (s', t)"
    if "host_ptr s = Some k" "generate_host_total_services (m_engine E) k s = s'" "x_of s' ?n = Some t" for s s' k t
    using run_macro [OF named(4), of "\<lambda>c. process_macros_r E c" E s s' Grab_ok "Some (Slot ?n)" no_options no_options s' t "[]" "[]"]
      that named(1-3,5)
    by (simp add: process_macros_run grab_macro_value_r_def args grab_macrox_value_r_def handle_host_macro_def
        grab_standard_host_macro_r_def stored_def insert_macro_def or_options_def no_options_def)
  let ?st1 = "generate_host_total_services (m_engine E) h st"
  let ?st2 = "fst (grab_host_macros_r E (Some h') ?st1)"
  have v: "x_of ?st1 ?n = Some ?v" using assms(2) by (simp add: generate_host_total_services_def)
  then have "x_of ?st2 ?n = Some ?v"
    by (simp add: grab_host_macros_r_def clear_hostgroup_macros_r_def clear_host_macros_r_def clear_first_def kept)
  moreover have "grab_host_macros_r E (Some h') ?st1 = (?st2, OK)" "host_ptr ?st2 = Some h'"
    by (simp_all add: grab_host_macros_r_def)
  ultimately show ?thesis
    using expand [OF assms(1) refl v] expand [of ?st2 h' ?st2 ?v] named(6)
    by (intro exI [of _ ?st1] exI [of _ ?st2]) (simp add: generate_host_total_services_def)
qed

theorem host_totals_of_former_host_witness:
  "\<exists>st1 st2. process_macros_r (ex_macro_env []) (ex_macro_state, Some ''$TOTALHOSTSERVICES$'', no_options) = Some (st1, ''1'') \<and>
     grab_host_macros_r (ex_macro_env []) (Some ''g'') st1 = (st2, OK) \<and>
     process_macros_r (ex_macro_env []) (st2, Some ''$TOTALHOSTSERVICES$'', no_options) = Some (st2, ''1'')"
proof -
  have "services_in (m_engine (ex_macro_env [])) ''h'' (\<lambda>_. True) = ''1''"
    by (simp add: services_in_def ex_macro_env_def ex_engine_def ex_host_def decimal.simps) code_simp
  then show ?thesis
    using host_totals_of_former_host [of ex_macro_state "''h''" "ex_macro_env []" "''g''"]
    by (auto simp: ex_macro_state_def)
qed

end
