(* ===== verification/Spec2Isabelle.thy ===== *)
theory Spec2Isabelle
  imports Event_Queue Comments Dependencies Notification_List Notifications Flapping Check_Scheduling Acknowledgements Downtime_Invariant
    Plugin_Output Service_Check_Results Lost_Checks Event_Loop_Safety Command_Safety Command_Loop Host_Tree Period_Termination
    Macro_Properties
begin

text \<open>
  A verification development for the monitoring core of Centreon Engine.

  \<^bold>\<open>The program.\<close> The engine runs timed events (checks, expiries, maintenance) from two
  doubly linked lists, turns check results into states of hosts and services, and notifies
  contacts about problems and recoveries, filtered by dependencies, time periods, downtime,
  acknowledgements and flap detection. Comments record what operators and the engine itself
  say about an object. All of it is single threaded code over global lists and structs.

  \<^bold>\<open>The model.\<close> Functions of the source are functions here, under the same names,
  from the record \<open>engine\<close> (every global the modelled code reads or writes) to its
  updated value; a call that leaves the model (broker callbacks, commands, status updates)
  is appended to the list \<open>out\<close> of actions, in the order the code makes it. What the code
  asks of the outside (the clock, the answers of broker modules, the expansion of a command
  line, the calendar search of a time period) is the record \<open>env\<close>, the same throughout
  one call. A C \<open>double\<close> is the rational it denotes. A loop or recursion that may not
  end is a \<^theory_text>\<open>partial_function\<close>, so its result is an \<open>option\<close>, and that it
  returns is part of what the theorems say. Log lines are left out.

  \<^item> \<open>Prelude\<close>: 64-bit conversions, pointers to the ends of a list, sorted insertion
    and the stable sort it gives.
  \<^item> \<open>Event_Heap\<close>, \<open>Event_Queue\<close>: \<^verbatim>\<open>src/events/timed_event.cc\<close> and
    \<^verbatim>\<open>src/events/hash_timed_event.cc\<close>. A store of event records linked by addresses,
    the two lists with head and tail, the index \<open>quick_timed_event\<close>. The abstract
    specification is a sorted list of addresses per priority (\<open>queues\<close>, \<open>index_ok\<close>);
    the locale \<open>timed_list\<close> is the contract of one list, interpreted on the pointer code.
  \<^item> \<open>Objects\<close>: the structs and enumerations of
    \<^verbatim>\<open>inc/com/centreon/engine/objects\<close>, the records \<open>engine\<close> and \<open>env\<close>, the
    lookups of time zones and the entry points of \<^verbatim>\<open>src/timeperiod.cc\<close>.
  \<^item> \<open>Examples\<close>: a small engine the theorems are instantiated on.
  \<^item> \<open>Comments\<close>: \<^verbatim>\<open>src/objects/comment.cc\<close>, \<^verbatim>\<open>src/xcddefault.cc\<close>. The
    sorted list and the hash chains hold the same comments (\<open>comments_ok\<close>); the locale
    \<open>comment_store\<close> is the contract of adding and deleting, interpreted for service and
    host comments.
  \<^item> \<open>Dependencies\<close>: the recursive dependency checks of \<^verbatim>\<open>src/checks.cc\<close>; the
    locale \<open>dependency_walk\<close> proves the recursion once for services and hosts, against
    the relation of inherited dependencies.
  \<^item> \<open>Notification_List\<close>, \<open>Notifications\<close>: \<^verbatim>\<open>src/notifications.cc\<close>.
    Escalations, recipients, the filters for an object and for a contact, the bookkeeping of
    the notification number, the next notification time.
  \<^item> \<open>Flapping\<close>: \<^verbatim>\<open>src/flapping.cc\<close>. The ring of the last 21 states, the weighted
    percentage of changes, the hysteresis, the comment that comes and goes with it.

  \<^item> \<open>Check_Scheduling\<close>: the scheduling and viability functions of
    \<^verbatim>\<open>src/checks.cc\<close>. The locale \<open>check_scheduler\<close> is the contract of the low
    priority list with its index, at most one check event per object, interpreted for services
    and hosts.
  \<^item> \<open>Acknowledgements\<close>: the expiry of acknowledgements in
    \<^verbatim>\<open>src/objects/service.cc\<close> and \<^verbatim>\<open>src/objects/host.cc\<close>.
  \<^item> \<open>Downtime\<close>, \<open>Downtime_Facts\<close>, \<open>Downtime_Lifecycle\<close>, \<open>Downtime_Invariant\<close>:
    \<^verbatim>\<open>src/objects/downtime.cc\<close> and \<^verbatim>\<open>src/xdddefault.cc\<close>. The operations; what
    each keeps; the life of a fixed downtime through its two events; the invariant that the
    depth of an object counts its downtimes in effect, over the step relation \<open>downtime_step\<close>.
  \<^item> \<open>Plugin_Output\<close>: \<^verbatim>\<open>parse_check_output\<close> of \<^verbatim>\<open>src/utils.cc\<close>.
  \<^item> \<open>Effect_Frame\<close>, \<open>Check_Frame\<close>: the locales \<open>effect_frame\<close>, \<open>host_frame\<close> and
    \<open>service_frame\<close>, each the contract of a relation between engines that the elementary
    steps of comments, notifications, flapping, downtimes and checks keep; every operation
    then keeps it. The instances are \<open>side_frame\<close> in \<open>Side_Effects\<close> (the check state of
    every object is left alone), \<open>service_kept\<close> in \<open>Service_Check_Facts\<close> and
    \<open>queue_step\<close> in \<open>Queue_Frame\<close> (the event lists stay well formed).
  \<^item> \<open>Host_Check\<close>, \<open>Host_Check_Facts\<close>, \<open>Host_Check_Results\<close>: host checks of
    \<^verbatim>\<open>src/checks/checker.cc\<close> and \<^verbatim>\<open>src/checks.cc\<close> and the host state handler of
    \<^verbatim>\<open>src/sehandlers.cc\<close>. Launching, on-demand checks through the parents (one partial
    function \<open>run_host\<close> over the kind of call), results, freshness, lost checks; the state
    machine a result runs against its reference definition \<open>host_machine\<close>.
  \<^item> \<open>Service_Check\<close>, \<open>Service_Check_Facts\<close>, \<open>Service_Check_Results\<close>: service checks
    of the same files: launching, the executor and the reaper, the result handler stage by
    stage, freshness, lost checks. \<open>service_kept\<close> says what host checks leave alone;
    \<open>service_machine\<close> is the reference state machine.
  \<^item> \<open>Lost_Checks\<close>: the searches for lost checks; the locale \<open>check_rescuer\<close> proves
    them once, interpreted for hosts and services.

  \<^item> \<open>Event_Loop\<close>, \<open>Event_Loop_Facts\<close>, \<open>Event_Loop_Safety\<close>:
    \<^verbatim>\<open>src/events/loop.cc\<close>, the handlers of \<^verbatim>\<open>src/events/timed_event.cc\<close> and
    \<^verbatim>\<open>src/events/sched_info.cc\<close>. One turn of the loop is a function of the record
    \<open>turn\<close> (the environment of the turn, what a reload of the configuration, the functions of
    modules and the external command module do); the states the loop reaches are the step
    relation \<open>loop_reach\<close>, in which the lists stay well formed. \<open>turn_ok\<close> is what the loop
    needs of those three: that each keeps the lists.

  \<^item> \<open>Command_Text\<close>, \<open>Command_Ids\<close>, \<open>Switches\<close>, \<open>External_Commands\<close>,
    \<open>Downtime_Commands\<close>: the commands of
    \<^verbatim>\<open>modules/external_commands/src/commands.cc\<close> with their numbers
    (\<^verbatim>\<open>common.hh\<close>), \<open>my_strtok\<close> and the number parsing of the C library, the lookups
    of \<^verbatim>\<open>src/compatibility/find.cc\<close> and the search of \<^verbatim>\<open>src/downtime_finder.cc\<close>.
    A command reads its arguments token by token; a missing token or an unknown object ends it
    with the engine as it was.
  \<^item> \<open>Command_Processing\<close>, \<open>Command_Buffer\<close>: the table of commands with its redirectors,
    the splitting of a line, files of commands (\<^verbatim>\<open>processing.cc\<close>, \<^verbatim>\<open>processing.hh\<close>), and the circular buffer the reader
    thread fills (\<^verbatim>\<open>utils.cc\<close>), an instance of the locale \<open>bounded_queue\<close>. A file of
    commands may name itself, so processing is a partial function.
  \<^item> \<open>Command_Frame\<close>, \<open>Command_Safety\<close>, \<open>Host_Tree\<close>: the locale \<open>command_frame\<close>
    extends \<open>service_frame\<close>, so that every command of the table keeps \<open>queue_step\<close>; the
    end-to-end properties; the walk along the tree of hosts (locale \<open>host_walk\<close>). Two
    kinds of command are outside what is proved of the lists (\<open>within_model\<close>): the two
    acknowledgements, which queue a second expiry event for an object that has one, and
    \<^verbatim>\<open>READ_STATE_INFORMATION\<close>, whose handler applies the retention file.
  \<^item> \<open>Command_Loop\<close>: the main loop with the external command module loaded
    (\<^verbatim>\<open>modules/external_commands/src/main.cc\<close>): the check event of the loop calls back the
    module, which processes the buffer, so that of the three assumptions of \<open>turn_ok\<close> the one on
    external commands is proved; those on reloads and on user functions remain.

  \<^item> \<open>Calendar\<close>: \<^verbatim>\<open>localtime_r\<close> and \<^verbatim>\<open>mktime\<close> of the C library in the
    Gregorian calendar. The time zone database is the parameter \<open>clock\<close>, which also says what
    an unset \<^verbatim>\<open>struct tm\<close> on the stack holds.
  \<^item> \<open>Timeperiods\<close>, \<open>Period_Search\<close>: \<^verbatim>\<open>src/timeperiod.cc\<close>. The limits of the five
    kinds of date range, the ranges of a day, and the two searches, which call each other through
    the exclusions of a period (one partial function over the kind of call; the periods whose
    exclusions are cleared while they are followed are its list of masked names).
  \<^item> \<open>Period_Facts\<close>, \<open>Period_Dates\<close>, \<open>Period_Properties\<close>, \<open>Period_Safety\<close>,
    \<open>Period_Termination\<close>: the locale \<open>day_clock\<close> is what the code relies on of the local
    clock: it may be put forward and back, but it reads midnight once a day, a day has 23 to 25
    hours, and a reading stands for an instant of its day. It is interpreted on time zones of fixed
    offset (\<open>zone_clock\<close>, by way of \<open>even_days\<close>) and on zones with a summer time
    (\<open>summer_clock\<close>, the one of Paris). Zones that change their clock at midnight are left out.
    Proved on every such clock: the earliest valid time of a weekly schedule, the days the ranges
    name, that no search goes back in time, and that every search ends.

  \<^item> \<open>Macro_Names\<close>, \<open>Macros\<close>, \<open>Macro_Values\<close>, \<open>Macro_Expansion\<close>:
    \<^verbatim>\<open>src/macros.cc\<close>, the files of \<^verbatim>\<open>src/macros\<close>, and \<^verbatim>\<open>get_raw_command_line_r\<close> of
    \<^verbatim>\<open>src/utils.cc\<close>. The tables, the value of every macro, cleaning and encoding, the
    expansion of a text (a partial function, since notes and URLs are expanded in turn) and the
    arguments of a command, over the record \<open>macro_state\<close> of stored macros.
  \<^item> \<open>Loops\<close>, \<open>Macro_Facts\<close>, \<open>Macro_Properties\<close>: when compositions of functions
    that may not return do return; lines of literal text, arguments and macros of the host mean
    what they say, quoted arguments come back, stripped values bring in no illegal character,
    expansion ends where no text names itself, and does not where the notes of a host do.

  \<^bold>\<open>Not modelled.\<close> Parsing and applying the configuration, retention files, the
  environment variables set from macros, process execution, the broker itself and logging: they are input, output or glue
  around the core. What applying a new configuration does to the engine is a parameter of the
  turn of the loop. Of the external commands: opening and polling the pipe, the effect of
  reading and saving the retention file (they are actions; reading it back registers downtimes
  and so schedules events, which no theorem covers), the locks (each turn of the reader
  thread and each command is taken as one step), and the older interface of
  \<^verbatim>\<open>compatibility.cc\<close>, which repeats the table. Of time periods
  the time zone database and the switching of the \<^verbatim>\<open>TZ\<close> variable; the checks and notifications
  reach the calendar search through \<open>env\<close>, and \<open>with_periods\<close> is the environment whose
  search is that of \<open>Period_Search\<close>.
\<close>

end
